(* ===== verification/Prelude.thy ===== *)
theory Prelude
  imports Main "HOL-Library.Word" "HOL-Library.Sublist" "HOL-Library.List_Lexorder"
    "HOL-Library.Char_ord"
begin

text \<open>
  Shared vocabulary of the development: Go errors as values of a sum type, loops with an
  early return as a fold over a sum, the ``find the only matching row'' loop that the
  journal code writes out many times, and the generic list lemmas the components use.

  A Go function that returns \<open>(T, error)\<close> is a HOL function into \<open>go_error + T\<close>:
  \<open>Inl\<close> is the error return, \<open>Inr\<close> the value. Slices are lists; a nil slice and an
  empty slice are the same list.
\<close>

named_theorems journal_intro \<open>introduction rules for the journal invariants\<close>
named_theorems journal_simps \<open>unfolding equations for the journal operations\<close>

section \<open>Machine integers and errors\<close>

type_synonym u64 = "64 word"

text \<open>
  The sentinel errors the code tests for with \<open>errors.Is\<close> are constructors of their own;
  an error made in place with \<open>errors.New\<close> or \<open>fmt.Errorf\<close> is \<open>Fault\<close> with a short
  form of its message.
\<close>

datatype go_error =
    Fault string
  | ErrContext
  | ErrWorkspaceQuarantined
  | ErrWorkspaceIndexUnavailable
  | ErrWorkspaceIndexCorrupt
  | ErrDurableWriterPoisoned
  | ErrDurableWriterClosed
  | ErrUnclosedToolCallGroup
  | ErrIO

section \<open>Loops with an early return\<close>

definition bindR :: "'e + 'a \<Rightarrow> ('a \<Rightarrow> 'e + 'b) \<Rightarrow> 'e + 'b" where
  "bindR m f = (case m of Inl e \<Rightarrow> Inl e | Inr x \<Rightarrow> f x)"

lemma bindR_simps [simp]:
  "bindR (Inl e) f = Inl e"
  "bindR (Inr x) f = f x"
  by (simp_all add: bindR_def)

lemma bindR_eq_Inr:
  "bindR m f = Inr y \<longleftrightarrow> (\<exists>x. m = Inr x \<and> f x = Inr y)"
  by (cases m) auto

lemma bindR_eq_Inl:
  "bindR m f = Inl e \<longleftrightarrow> m = Inl e \<or> (\<exists>x. m = Inr x \<and> f x = Inl e)"
  by (cases m) auto

fun foldR :: "('s \<Rightarrow> 'a \<Rightarrow> 'e + 's) \<Rightarrow> 's \<Rightarrow> 'a list \<Rightarrow> 'e + 's" where
  "foldR f s [] = Inr s"
| "foldR f s (x # xs) = (case f s x of Inl e \<Rightarrow> Inl e | Inr s' \<Rightarrow> foldR f s' xs)"

lemma foldR_append:
  "foldR f s (xs @ ys) = bindR (foldR f s xs) (\<lambda>s'. foldR f s' ys)"
  by (induction xs arbitrary: s) (auto split: sum.splits)

lemma foldR_snoc:
  "foldR f s (xs @ [x]) = bindR (foldR f s xs) (\<lambda>s'. f s' x)"
  by (simp add: foldR_append bindR_def split: sum.splits)

lemma foldR_split:
  assumes "foldR f s (us @ x # vs) = Inr r"
  obtains s1 s2 where "foldR f s us = Inr s1" "f s1 x = Inr s2" "foldR f s2 vs = Inr r"
proof -
  from assms obtain s1 where 1: "foldR f s us = Inr s1" "foldR f s1 (x # vs) = Inr r"
    by (auto simp: foldR_append bindR_eq_Inr simp del: foldR.simps)
  from 1(2) obtain s2 where "f s1 x = Inr s2" "foldR f s2 vs = Inr r"
    by (cases "f s1 x") auto
  with 1(1) that show thesis by blast
qed

lemma foldR_cons:
  assumes "foldR f s (x # vs) = Inr r"
  obtains s2 where "f s x = Inr s2" "foldR f s2 vs = Inr r"
  using assms by (cases "f s x") auto

text \<open>
  The invariant rule of such a loop: the invariant may mention the part of the list that
  has been consumed, which is what a loop over a growing journal needs.
\<close>

lemma foldR_prefix_invariant:
  assumes "foldR f s xs = Inr s'"
    and "I [] s"
    and "\<And>ys x zs t t'. xs = ys @ x # zs \<Longrightarrow> I ys t \<Longrightarrow> f t x = Inr t' \<Longrightarrow> I (ys @ [x]) t'"
  shows "I xs s'"
  using assms
proof (induction xs arbitrary: s' rule: rev_induct)
  case Nil
  then show ?case by simp
next
  case (snoc x xs)
  from snoc.prems(1) obtain t where t: "foldR f s xs = Inr t" and ft: "f t x = Inr s'"
    by (auto simp: foldR_snoc bindR_eq_Inr)
  have "I xs t"
  proof (rule snoc.IH [OF t snoc.prems(2)])
    fix ys y zs u u'
    assume "xs = ys @ y # zs" "I ys u" "f u y = Inr u'"
    then show "I (ys @ [y]) u'"
      using snoc.prems(3) [of ys y "zs @ [x]" u u'] by simp
  qed
  then show ?case
    using snoc.prems(3) [of xs x "[]" t s'] ft by simp
qed

lemma foldR_invariant:
  assumes "foldR f s xs = Inr s'" and "I s"
    and "\<And>x t t'. x \<in> set xs \<Longrightarrow> I t \<Longrightarrow> f t x = Inr t' \<Longrightarrow> I t'"
  shows "I s'"
  by (rule foldR_prefix_invariant [where I = "\<lambda>_. I", OF assms(1,2)]) (use assms(3) in auto)

text \<open>A check of every element, in order, that stops at the first failure.\<close>

definition checkAll :: "('a \<Rightarrow> 'e + unit) \<Rightarrow> 'a list \<Rightarrow> 'e + unit" where
  "checkAll f xs = foldR (\<lambda>_. f) () xs"

lemma checkAll_Inr: "checkAll f xs = Inr u \<longleftrightarrow> (\<forall>x \<in> set xs. f x = Inr ())"
  unfolding checkAll_def by (induction xs) (auto split: sum.splits)

section \<open>The only matching row\<close>

text \<open>
  Many lookups of the journal walk all rows, keep the one that matches, and fail on a
  second match.
\<close>

fun findUniqueFrom :: "'a option \<Rightarrow> ('a \<Rightarrow> bool) \<Rightarrow> 'e \<Rightarrow> 'a list \<Rightarrow> 'e + 'a option" where
  "findUniqueFrom m p e [] = Inr m"
| "findUniqueFrom m p e (x # xs) =
     (if \<not> p x then findUniqueFrom m p e xs
      else case m of
        Some _ \<Rightarrow> Inl e
      | None \<Rightarrow> findUniqueFrom (Some x) p e xs)"

definition findUnique :: "('a \<Rightarrow> bool) \<Rightarrow> 'e \<Rightarrow> 'a list \<Rightarrow> 'e + 'a option" where
  "findUnique p e xs = findUniqueFrom None p e xs"

lemma findUniqueFrom_Some:
  "findUniqueFrom (Some y) p e xs = (if filter p xs = [] then Inr (Some y) else Inl e)"
  by (induction xs) auto

lemma findUnique_filter:
  "findUnique p e xs =
     (case filter p xs of [] \<Rightarrow> Inr None | [x] \<Rightarrow> Inr (Some x) | _ \<Rightarrow> Inl e)"
  unfolding findUnique_def
  by (induction xs) (auto simp: findUniqueFrom_Some split: list.splits)

lemma findUnique_None: "findUnique p e xs = Inr None \<longleftrightarrow> (\<forall>x \<in> set xs. \<not> p x)"
proof -
  have "findUnique p e xs = Inr None \<longleftrightarrow> filter p xs = []"
    by (simp add: findUnique_filter split: list.splits)
  then show ?thesis by (simp add: filter_empty_conv)
qed

lemma findUnique_Some: "findUnique p e xs = Inr (Some x) \<longleftrightarrow> filter p xs = [x]"
  by (simp add: findUnique_filter split: list.splits)

lemma findUnique_SomeD:
  assumes "findUnique p e xs = Inr (Some x)"
  shows "x \<in> set xs" "p x" "\<And>y. y \<in> set xs \<Longrightarrow> p y \<Longrightarrow> y = x"
proof -
  from assms have f: "filter p xs = [x]" by (simp add: findUnique_Some)
  then have "x \<in> set (filter p xs)" by simp
  then show "x \<in> set xs" "p x" by auto
  fix y assume "y \<in> set xs" "p y"
  then have "y \<in> set (filter p xs)" by simp
  with f show "y = x" by simp
qed

section \<open>Lists\<close>

lemma distinct_map_snoc [simp]:
  "distinct (map f (xs @ [x])) \<longleftrightarrow> distinct (map f xs) \<and> f x \<notin> f ` set xs"
  by auto

lemma find_None_iff_all: "find p xs = None \<longleftrightarrow> (\<forall>x \<in> set xs. \<not> p x)"
  by (auto simp: find_None_iff)

lemma find_SomeD:
  assumes "find p xs = Some x"
  shows "x \<in> set xs" "p x"
  using assms by (auto simp: find_Some_iff)

lemma find_append:
  "find p (xs @ ys) = (case find p xs of None \<Rightarrow> find p ys | Some x \<Rightarrow> Some x)"
  by (induction xs) auto

lemma find_map_eq: "(\<And>x. x \<in> set xs \<Longrightarrow> p (f x) = p x) \<Longrightarrow>
    find p (map f xs) = map_option f (find p xs)"
  by (induction xs) auto

text \<open>The first row with a given key, as an index from identifiers to rows.\<close>

definition keyed :: "('a \<Rightarrow> 'k) \<Rightarrow> 'a list \<Rightarrow> 'k \<Rightarrow> 'a option" where
  "keyed key xs k = find (\<lambda>x. key x = k) xs"

lemma keyed_None: "keyed key xs k = None \<longleftrightarrow> k \<notin> key ` set xs"
  by (auto simp: keyed_def find_None_iff)

lemma keyed_SomeD:
  assumes "keyed key xs k = Some x"
  shows "x \<in> set xs" "key x = k"
  using assms by (auto simp: keyed_def find_Some_iff)

lemma keyed_distinct:
  assumes "distinct (map key xs)" "x \<in> set xs"
  shows "keyed key xs (key x) = Some x"
  using assms by (induction xs) (auto simp: keyed_def)

lemma keyed_snoc:
  "keyed key (xs @ [x]) k =
     (case keyed key xs k of Some y \<Rightarrow> Some y | None \<Rightarrow> if key x = k then Some x else None)"
  by (auto simp: keyed_def find_append split: option.splits)

lemma keyed_append:
  "keyed key (xs @ ys) k = (case keyed key xs k of Some y \<Rightarrow> Some y | None \<Rightarrow> keyed key ys k)"
  by (auto simp: keyed_def find_append split: option.splits)

section \<open>Text\<close>

text \<open>
  Go strings are byte strings: a \<open>string\<close> is the list of its UTF-8 bytes.
  \<open>strings.TrimSpace\<close> strips the runes of \<open>unicode.IsSpace\<close>, given here by their bytes.
\<close>

definition spaceRunes :: "string list" where
  "spaceRunes = map (map char_of)
     ([[9], [10], [11], [12], [13], [32], [0xC2, 0x85], [0xC2, 0xA0], [0xE1, 0x9A, 0x80],
       [0xE2, 0x80, 0x80], [0xE2, 0x80, 0x81], [0xE2, 0x80, 0x82], [0xE2, 0x80, 0x83],
       [0xE2, 0x80, 0x84], [0xE2, 0x80, 0x85], [0xE2, 0x80, 0x86], [0xE2, 0x80, 0x87],
       [0xE2, 0x80, 0x88], [0xE2, 0x80, 0x89], [0xE2, 0x80, 0x8A], [0xE2, 0x80, 0xA8],
       [0xE2, 0x80, 0xA9], [0xE2, 0x80, 0xAF], [0xE2, 0x81, 0x9F], [0xE3, 0x80, 0x80]] :: nat list list)"

function trimPrefixes :: "string list \<Rightarrow> string \<Rightarrow> string" where
  "trimPrefixes rs s =
     (case find (\<lambda>r. r \<noteq> [] \<and> prefix r s) rs of
        None \<Rightarrow> s
      | Some r \<Rightarrow> trimPrefixes rs (drop (length r) s))"
  by pat_completeness auto
termination
proof (relation "measure (\<lambda>(rs, s). length s)")
  fix rs s r
  assume "find (\<lambda>r. r \<noteq> [] \<and> prefix r s) rs = Some r"
  then have "r \<noteq> []" "prefix r s" by (auto simp: find_Some_iff)
  then show "((rs, drop (length r) s), rs, s) \<in> measure (\<lambda>(rs, s). length s)"
    by (cases r; cases s) auto
qed simp

declare trimPrefixes.simps [simp del]

definition trimSpace :: "string \<Rightarrow> string" where
  "trimSpace s = rev (trimPrefixes (map rev spaceRunes) (rev (trimPrefixes spaceRunes s)))"

text \<open>Decimal digits as \<open>fmt\<close> prints an unsigned integer.\<close>

fun decimal :: "nat \<Rightarrow> string" where
  "decimal n = (if n < 10 then [char_of (48 + n)] else decimal (n div 10) @ [char_of (48 + n mod 10)])"

declare decimal.simps [simp del]

definition containsNUL :: "string \<Rightarrow> bool" where
  "containsNUL s \<longleftrightarrow> CHR 0x00 \<in> set s"

definition isLowerHex :: "char \<Rightarrow> bool" where
  "isLowerHex c \<longleftrightarrow> (CHR ''0'' \<le> c \<and> c \<le> CHR ''9'') \<or> (CHR ''a'' \<le> c \<and> c \<le> CHR ''f'')"

definition isAlnum :: "char \<Rightarrow> bool" where
  "isAlnum c \<longleftrightarrow> (CHR ''a'' \<le> c \<and> c \<le> CHR ''z'') \<or> (CHR ''A'' \<le> c \<and> c \<le> CHR ''Z'')
     \<or> (CHR ''0'' \<le> c \<and> c \<le> CHR ''9'')"

end
