(* ===== verification/SessionTypes.thy ===== *)
theory SessionTypes
  imports Prelude
begin

text \<open>
  The data model of the durable session layer: \<open>internal/session/types.go\<close>,
  \<open>internal/session/durable_contract.go\<close>, the commit payloads of
  \<open>internal/core/run_commit.go\<close> and the message and tool-call types they carry.

  A Go string enumeration is a datatype with one constructor per declared constant, an
  \<open>...Empty\<close> constructor for the empty string where the code tests for it, and an
  \<open>...Other\<close> constructor for every string that is none of those.
\<close>

section \<open>Enumerations\<close>

datatype entry_type =
    EntryTypeUser | EntryTypeAssistant | EntryTypeTool | EntryTypeCompaction
  | EntryTypeSystem | EntryTypeCheckpoint | EntryTypeEmpty | EntryTypeOther string

datatype surface_op =
    SurfaceOpVisible | SurfaceOpCompacted | SurfaceOpHidden | SurfaceOpEmpty | SurfaceOpOther string

datatype action_state =
    ActionStateEmpty | ActionStateIntent | ActionStateExecution | ActionStateOther string

datatype dispatch_state =
    DispatchStateEmpty | DispatchStateNotDispatched | DispatchStateDispatched
  | DispatchStateOther string

datatype run_execution_state =
    RunExecutionEmpty | RunExecutionRunning | RunExecutionCancelRequested
  | RunExecutionDraining | RunExecutionCleanupPending | RunExecutionQuiescent
  | RunExecutionQuarantined | RunExecutionOther string

datatype receipt_outcome =
    ReceiptOutcomeEmpty | ReceiptOutcomeSuccess | ReceiptOutcomeError
  | ReceiptOutcomeInterrupted | ReceiptOutcomeUnknown | ReceiptOutcomeOther string

datatype run_outcome =
    RunOutcomeEmpty | RunOutcomeSuccess | RunOutcomeError | RunOutcomeCancelled
  | RunOutcomeUnknown | RunOutcomeOther string

datatype checkpoint_kind =
    CheckpointEmpty | CheckpointRunTerminal | CheckpointExecutionResolution
  | CheckpointActiveLeaf | CheckpointBranch | CheckpointReconciliation
  | CheckpointOther string

datatype completion_proof =
    ProofEmpty | CompletionInlinePipelineJoined | CompletionQueuedJobJoined
  | CompletionOwnedProcessGroupJoined | CompletionMCPRequestJoined
  | CompletionWorkerRequestJoined | ProofOther string

datatype resolution_evidence =
    ResolutionNeverDispatched | ResolutionLocalResourcesStopped
  | ResolutionRemoteTerminal | ResolutionOperatorReconciled | ResolutionOther string

datatype input_kind =
    InputKindEmpty | InputKindUser | InputKindSteering | InputKindFollowUp | InputKindOther string

text \<open>\<open>TrustedToolEffect\<close> is a string and the code sorts effects as strings.\<close>

datatype tool_effect =
    EffectWorkspaceRead | EffectWorkspaceWrite | EffectGitMutation | EffectNetworkRead
  | EffectNetworkWrite | EffectExternal | EffectControl | EffectUnknown | EffectOther string

fun effectName :: "tool_effect \<Rightarrow> string" where
  "effectName EffectWorkspaceRead = ''workspace_read''"
| "effectName EffectWorkspaceWrite = ''workspace_write''"
| "effectName EffectGitMutation = ''git_mutation''"
| "effectName EffectNetworkRead = ''network_read''"
| "effectName EffectNetworkWrite = ''network_write''"
| "effectName EffectExternal = ''external_effect''"
| "effectName EffectControl = ''control''"
| "effectName EffectUnknown = ''unknown''"
| "effectName (EffectOther s) = s"

fun effectIsOther :: "tool_effect \<Rightarrow> bool" where
  "effectIsOther (EffectOther s) = True"
| "effectIsOther _ = False"

text \<open>
  Effects are ordered by their wire string. The flag only separates an \<open>EffectOther\<close> value
  that spells a declared constant, which no Go string can do, from that constant.
\<close>

lemma effect_key_inj: "effectName a = effectName b \<Longrightarrow> effectIsOther a = effectIsOther b \<Longrightarrow> a = b"
  by (cases a; cases b; simp)

instantiation tool_effect :: linorder
begin

definition less_eq_tool_effect :: "tool_effect \<Rightarrow> tool_effect \<Rightarrow> bool" where
  "a \<le> b \<longleftrightarrow> effectName a < effectName b
     \<or> effectName a = effectName b \<and> (effectIsOther a \<longrightarrow> effectIsOther b)"

definition less_tool_effect :: "tool_effect \<Rightarrow> tool_effect \<Rightarrow> bool" where
  "a < b \<longleftrightarrow> effectName a < effectName b
     \<or> effectName a = effectName b \<and> \<not> effectIsOther a \<and> effectIsOther b"

instance
proof
  fix x y z :: tool_effect
  show "(x < y) = (x \<le> y \<and> \<not> y \<le> x)"
    by (auto simp: less_eq_tool_effect_def less_tool_effect_def)
  show "x \<le> x"
    by (simp add: less_eq_tool_effect_def)
  show "x \<le> y \<Longrightarrow> y \<le> z \<Longrightarrow> x \<le> z"
    unfolding less_eq_tool_effect_def by (metis order.strict_trans)
  show "x \<le> y \<Longrightarrow> y \<le> x \<Longrightarrow> x = y"
    by (auto simp: less_eq_tool_effect_def intro: effect_key_inj)
  show "x \<le> y \<or> y \<le> x"
    by (auto simp: less_eq_tool_effect_def)
qed

end

section \<open>Messages and tool calls\<close>

text \<open>
  Tool arguments are Go values of type \<open>any\<close>: the shapes \<open>encoding/json\<close> decodes, plus
  the shapes the protocol validator rejects (byte slices, custom marshalers, other kinds).
\<close>

datatype go_any =
    AnyNil
  | AnyBool bool
  | AnyNumber string
  | AnyString string
  | AnyList "go_any list"
  | AnyMap "(string \<times> go_any) list"
  | AnyNonStringMap
  | AnyBytes
  | AnyMarshaler string
  | AnyUnsupported string

record tool_call =
  tcID :: string
  tcName :: string
  tcArgs :: go_any

record llm_usage =
  uInputTokens :: int
  uOutputTokens :: int
  uTotalTokens :: int

record content_block =
  cbType :: string
  cbText :: string
  cbImageURL :: "(string \<times> string) option"

record agent_message =
  mRole :: string
  mContent :: string
  mContentBlocks :: "content_block list"
  mUsage :: "llm_usage option"
  mToolCalls :: "tool_call list"
  mToolCallID :: string
  mToolName :: string
  mMaterializedArtifactDigest :: string
  mInputKind :: input_kind
  mReceiptOutcome :: receipt_outcome
  mRuntime :: string

record run_generation =
  gGenerationID :: string
  gPromptDigest :: string
  gCapabilityDigest :: string
  gPolicyEpoch :: u64
  gTrustEpoch :: u64

section \<open>Identities and evidence\<close>

record tool_identity =
  tiRegistrationSource :: string
  tiToolName :: string
  tiRegistrationGeneration :: u64
  tiExecutorFingerprint :: string
  tiScopeFingerprint :: string

record execution_identity =
  xiKind :: string
  xiPlatform :: string
  xiHostGeneration :: string
  xiPIDNamespaceToken :: string
  xiLeaderPID :: int
  xiProcessStartToken :: string
  xiProcessGroupID :: int
  xiJobID :: string

record execution_resolution =
  erRunID :: string
  erActionID :: string
  erEvidence :: resolution_evidence
  erEvidenceRef :: string

record operator_reconciliation =
  orReason :: string
  orReference :: string
  orAcceptedUnknownRisk :: bool

record pending_ref =
  rSessionID :: string
  rWorkspaceID :: string
  rRunID :: string
  rActionBatchID :: string
  rOrdinal :: u64
  rToolCallID :: string
  rActionID :: string

record validated_resolution =
  vrAction :: pending_ref
  vrCheckpointEntryID :: string
  vrCheckpointSeq :: u64
  vrResolution :: execution_resolution

section \<open>The durable row\<close>

record session_entry =
  eGeneration :: "run_generation option"
  eID :: string
  eParentID :: string
  eType :: entry_type
  eContent :: string
  eContentBlocks :: "content_block list"
  eUsage :: "llm_usage option"
  eTimestamp :: int
  eSummary :: string
  eIsSummary :: bool
  eToolCalls :: "tool_call list"
  eToolCallID :: string
  eToolName :: string
  eMaterializedArtifactDigest :: string
  eSurfaceOp :: surface_op
  eSeq :: u64
  eRecordVersion :: nat
  eSessionID :: string
  eSessionLabel :: string
  eBranchID :: string
  eParentBranchID :: string
  eSessionGitBranch :: string
  eBaseLeafEntryID :: string
  eActiveLeafEntryID :: string
  eRunID :: string
  eActionBatchID :: string
  eActionID :: string
  eOwnerGeneration :: string
  eWorkspaceID :: string
  eInputKind :: input_kind
  eActionState :: action_state
  eDispatchState :: dispatch_state
  eResourceState :: run_execution_state
  eReceiptOutcome :: receipt_outcome
  ePayloadDigest :: string
  eArgumentDigest :: string
  eSchemaDigest :: string
  eToolIdentity :: "tool_identity option"
  eEffectSet :: "tool_effect list"
  eExecutionIdentity :: "execution_identity option"
  eCompletionProof :: completion_proof
  eOrdinal :: "u64 option"
  eTranscriptIndex :: "u64 option"
  eCompactedThroughEntryID :: string
  eRunOutcome :: run_outcome
  eCheckpointKind :: checkpoint_kind
  eExecutionResolution :: "execution_resolution option"
  eOperatorReconciliation :: "operator_reconciliation option"

end
