(* ===== verification/Effects.thy ===== *)
theory Effects
  imports SessionTypes
begin

text \<open>
  Stateful operations with Go errors, the two sources of failure outside the program
  (a context that may be cancelled and file operations that may fail), and the lexical
  path functions of \<open>path/filepath\<close> on Unix that the admission checks call.
\<close>

section \<open>State passing with errors\<close>

type_synonym ('s, 'a) op = "'s \<Rightarrow> (go_error + 'a) \<times> 's"

definition okS :: "'a \<Rightarrow> ('s, 'a) op" where
  "okS x s = (Inr x, s)"

definition failS :: "go_error \<Rightarrow> ('s, 'a) op" where
  "failS e s = (Inl e, s)"

definition bindS :: "('s, 'a) op \<Rightarrow> ('a \<Rightarrow> ('s, 'b) op) \<Rightarrow> ('s, 'b) op" where
  "bindS m f s = (case m s of (Inl e, t) \<Rightarrow> (Inl e, t) | (Inr x, t) \<Rightarrow> f x t)"

definition liftR :: "go_error + 'a \<Rightarrow> ('s, 'a) op" where
  "liftR r s = (r, s)"

lemmas op_defs = okS_def failS_def bindS_def liftR_def

lemma okS_run [simp]: "okS x s = (Inr x, s)"
  and failS_run [simp]: "failS e s = (Inl e, s)"
  and liftR_run [simp]: "liftR r s = (r, s)"
  by (simp_all add: op_defs)

lemma bindS_Inr:
  "bindS m f s = (Inr y, u) \<longleftrightarrow> (\<exists>x t. m s = (Inr x, t) \<and> f x t = (Inr y, u))"
  by (auto simp: bindS_def split: prod.splits sum.splits)

lemma bindS_Inl:
  "bindS m f s = (Inl e, u) \<longleftrightarrow> m s = (Inl e, u) \<or> (\<exists>x t. m s = (Inr x, t) \<and> f x t = (Inl e, u))"
  by (auto simp: bindS_def split: prod.splits sum.splits)

text \<open>
  A relation between the states before and after, true of every outcome of an operation.
\<close>

definition keepsS :: "('s \<Rightarrow> 's \<Rightarrow> bool) \<Rightarrow> ('s, 'a) op \<Rightarrow> bool" where
  "keepsS R m \<longleftrightarrow> (\<forall>s. R s (snd (m s)))"

lemma keepsS_D: "keepsS R m \<Longrightarrow> m s = (r, t) \<Longrightarrow> R s t"
  unfolding keepsS_def by (metis snd_conv)

lemma keepsS_bind:
  assumes "\<And>s t u. R s t \<Longrightarrow> R t u \<Longrightarrow> R s u" "keepsS R m" "\<And>x. keepsS R (f x)"
  shows "keepsS R (bindS m f)"
  unfolding keepsS_def
proof
  fix s
  obtain r t where m: "m s = (r, t)" by force
  with assms(2) have "R s t" by (rule keepsS_D)
  then show "R s (snd (bindS m f s))"
    using assms(1) assms(3) m by (cases r) (auto simp: bindS_def keepsS_def)
qed

section \<open>The context and file operations\<close>

text \<open>
  A context is cancelled at most once and stays cancelled: \<open>fxCtx\<close> is the number of
  \<open>ctx.Err()\<close> checks that still succeed, or \<open>None\<close> for a context that is never cancelled.
  \<open>fxIO\<close> is the sequence of outcomes of the file operations to come; when it is used up
  they succeed. \<open>IoFail n\<close> is a failing operation; for a write, \<open>n\<close> is the number of
  complete rows of the batch that are visible to a later reader.
\<close>

datatype io_outcome = IoOk | IoFail nat

record world =
  fxCtx :: "nat option"
  fxIO :: "io_outcome list"

definition contextErr :: "('z world_scheme, unit) op" where
  "contextErr w = (case fxCtx w of
      None \<Rightarrow> (Inr (), w)
    | Some 0 \<Rightarrow> (Inl ErrContext, w)
    | Some (Suc n) \<Rightarrow> (Inr (), w \<lparr> fxCtx := Some n \<rparr>))"

definition takeIO :: "'z world_scheme \<Rightarrow> io_outcome \<times> 'z world_scheme" where
  "takeIO w = (case fxIO w of [] \<Rightarrow> (IoOk, w) | x # xs \<Rightarrow> (x, w \<lparr> fxIO := xs \<rparr>))"

text \<open>A file operation whose only visible effect is its error, wrapped as \<open>err\<close>.\<close>

definition ioStep :: "go_error \<Rightarrow> ('z world_scheme, unit) op" where
  "ioStep err w = (case takeIO w of (IoOk, w') \<Rightarrow> (Inr (), w') | (IoFail n, w') \<Rightarrow> (Inl err, w'))"

text \<open>\<open>more\<close> states are untouched by the context and by plain file operations.\<close>

definition sameBut :: "'z world_scheme \<Rightarrow> 'z world_scheme \<Rightarrow> bool" where
  "sameBut w w' \<longleftrightarrow> world.more w' = world.more w"

lemma sameBut_refl [simp]: "sameBut w w"
  by (simp add: sameBut_def)

lemma sameBut_trans: "sameBut a b \<Longrightarrow> sameBut b c \<Longrightarrow> sameBut a c"
  by (simp add: sameBut_def)

lemma contextErr_same: "keepsS sameBut contextErr"
  by (auto simp: keepsS_def contextErr_def sameBut_def split: option.splits nat.splits)

lemma takeIO_same: "takeIO w = (x, w') \<Longrightarrow> sameBut w w'"
  by (auto simp: takeIO_def sameBut_def split: list.splits)

lemma ioStep_same: "keepsS sameBut (ioStep err)"
  unfolding keepsS_def
proof
  fix w
  show "sameBut w (snd (ioStep err w))"
    using takeIO_same [of w]
    by (cases "takeIO w") (auto simp: ioStep_def split: io_outcome.splits)
qed

section \<open>Lexical paths\<close>

fun splitSlash :: "string \<Rightarrow> string \<Rightarrow> string list" where
  "splitSlash cur [] = [rev cur]"
| "splitSlash cur (c # cs) =
     (if c = CHR ''/'' then rev cur # splitSlash [] cs else splitSlash (c # cur) cs)"

fun joinSlash :: "string list \<Rightarrow> string" where
  "joinSlash [] = []"
| "joinSlash [x] = x"
| "joinSlash (x # y # ys) = x @ CHR ''/'' # joinSlash (y # ys)"

definition isAbs :: "string \<Rightarrow> bool" where
  "isAbs p \<longleftrightarrow> prefix ''/'' p"

text \<open>The components kept so far are in reverse order.\<close>

fun cleanComps :: "bool \<Rightarrow> string list \<Rightarrow> string list \<Rightarrow> string list" where
  "cleanComps rooted kept [] = rev kept"
| "cleanComps rooted kept (c # cs) =
     (if c = [] \<or> c = ''.'' then cleanComps rooted kept cs
      else if c = ''..'' then
        (case kept of
           k # ks \<Rightarrow> if k = ''..'' then cleanComps rooted (c # kept) cs else cleanComps rooted ks cs
         | [] \<Rightarrow> if rooted then cleanComps rooted [] cs else cleanComps rooted [c] cs)
      else cleanComps rooted (c # kept) cs)"

definition pathComps :: "string \<Rightarrow> string list" where
  "pathComps p = cleanComps (isAbs p) [] (splitSlash [] p)"

definition pathClean :: "string \<Rightarrow> string" where
  "pathClean p =
     (if isAbs p then CHR ''/'' # joinSlash (pathComps p)
      else if pathComps p = [] then ''.'' else joinSlash (pathComps p))"

fun stripCommon :: "string list \<Rightarrow> string list \<Rightarrow> string list \<times> string list" where
  "stripCommon (x # xs) (y # ys) = (if x = y then stripCommon xs ys else (x # xs, y # ys))"
| "stripCommon xs ys = (xs, ys)"

definition pathRel :: "string \<Rightarrow> string \<Rightarrow> string option" where
  "pathRel base targ =
     (if isAbs base \<noteq> isAbs targ then None
      else case stripCommon (pathComps base) (pathComps targ) of
        ([], []) \<Rightarrow> Some ''.''
      | ([], t # ts) \<Rightarrow> Some (joinSlash (t # ts))
      | (b # bs, ts) \<Rightarrow>
          if b = ''..'' then None
          else Some (joinSlash (replicate (length (b # bs)) ''..'' @ ts)))"

text \<open>Lowercase hexadecimal, as \<open>encoding/hex\<close> writes it.\<close>

definition hexDigit :: "nat \<Rightarrow> char" where
  "hexDigit n = (if n < 10 then char_of (48 + n) else char_of (87 + n))"

definition hexEncode :: "string \<Rightarrow> string" where
  "hexEncode bytes = concat (map (\<lambda>c. [hexDigit (of_char c div 16), hexDigit (of_char c mod 16)]) bytes)"

lemma hexDigit_lower: "n < 16 \<Longrightarrow> isLowerHex (hexDigit n)"
  by (auto simp: hexDigit_def isLowerHex_def less_eq_char_def)

lemma hexEncode_length: "length (hexEncode bytes) = 2 * length bytes"
  by (induction bytes) (simp_all add: hexEncode_def)

lemma hexEncode_lower: "list_all isLowerHex (hexEncode bytes)"
proof (induction bytes)
  case (Cons c cs)
  have "(of_char c :: nat) < 256" by simp
  then have "(of_char c :: nat) div 16 < 16" "(of_char c :: nat) mod 16 < 16"
    by (simp_all add: less_mult_imp_div_less)
  with Cons hexDigit_lower show ?case by (simp add: hexEncode_def)
qed (simp add: hexEncode_def)

end
