(* ===== verification/AdmissionProofs.thy ===== *)
theory AdmissionProofs
  imports Effects
begin

text \<open>
  The single-use admission capabilities the workspace index consults:
  \<open>ScopedWorkspaceReadProof\<close> (\<open>tools/scoped_workspace_read.go\<close>), \<open>ManagedDelegationProof\<close>
  (\<open>tools/managed_delegation.go\<close>), and the trusted effect sets and tool identities of
  \<open>tools/prepared.go\<close> they are bound to.

  A proof is a pointer in the source; its atomic \<open>claimed\<close> flag is named here by an address,
  and the set of claimed addresses is part of the state. The dispatch fence a proof points
  to is an address too; its current snapshot is read from the state. Symbolic links are
  resolved by the host: \<open>resolve\<close> below is \<open>resolveSymlinks\<close>, whose result is the file
  system's.
\<close>

section \<open>Trusted effects and identities\<close>

definition newTrustedEffectSet :: "tool_effect list \<Rightarrow> tool_effect list" where
  "newTrustedEffectSet effects =
     (if effects = [] then [EffectUnknown]
      else sort (remdups (map (\<lambda>e. if effectName e = [] then EffectUnknown else e) effects)))"

definition effectSetValues :: "tool_effect list \<Rightarrow> tool_effect list" where
  "effectSetValues s = (if s = [] then [EffectUnknown] else s)"

text \<open>Digests are 32-byte strings; a snapshot holds their lowercase hexadecimal form.\<close>

record trusted_identity =
  ttRegistrationSource :: string
  ttToolName :: string
  ttRegistrationGeneration :: u64
  ttExecutorFingerprint :: string
  ttScopeFingerprint :: string

definition identitySnapshot :: "trusted_identity \<Rightarrow> tool_identity" where
  "identitySnapshot i = \<lparr> tiRegistrationSource = ttRegistrationSource i, tiToolName = ttToolName i,
     tiRegistrationGeneration = ttRegistrationGeneration i,
     tiExecutorFingerprint = hexEncode (ttExecutorFingerprint i),
     tiScopeFingerprint = hexEncode (ttScopeFingerprint i) \<rparr>"

record fence_snapshot =
  fnRegistry :: u64
  fnApproval :: u64
  fnPlan :: u64
  fnPlanRestriction :: u64
  fnDecision :: u64

type_synonym fences = "(nat \<times> fence_snapshot) list"

section \<open>Canonical roots\<close>

definition isCanonicalWorkspaceRootPath :: "(string \<Rightarrow> string) \<Rightarrow> string \<Rightarrow> bool" where
  "isCanonicalWorkspaceRootPath resolve root \<longleftrightarrow>
     root \<noteq> [] \<and> isAbs root \<and> pathClean root = root \<and> resolve root = root"

definition pathIsEqualOrNested :: "string \<Rightarrow> string \<Rightarrow> bool" where
  "pathIsEqualOrNested root candidate =
     (case pathRel root candidate of
        None \<Rightarrow> False
      | Some relative \<Rightarrow> \<not> (relative = ''..'' \<or> prefix ''../'' relative))"

definition canonicalWorkspaceReadRoots :: "(string \<Rightarrow> string) \<Rightarrow> string \<Rightarrow> string list \<Rightarrow> bool" where
  "canonicalWorkspaceReadRoots resolve workspaceRoot roots =
     (if \<not> isCanonicalWorkspaceRootPath resolve workspaceRoot \<or> roots = [] then False
      else list_all (\<lambda>root. isCanonicalWorkspaceRootPath resolve root
             \<and> pathIsEqualOrNested workspaceRoot root) roots)"

section \<open>Scoped workspace reads\<close>

record scoped_read_proof =
  spIdentity :: trusted_identity
  spEffects :: "tool_effect list"
  spSchemaDigest :: string
  spArgumentDigest :: string
  spCallID :: string
  spGenerations :: fence_snapshot
  spCanonicalWorkspaceRoot :: string
  spWhitelistRoots :: "string list"
  spScopeFingerprint :: string
  spFence :: "nat option"
  spState :: "nat option"

definition equalWorkspaceReadEffects :: "tool_effect list \<Rightarrow> tool_effect list \<Rightarrow> bool" where
  "equalWorkspaceReadEffects left right \<longleftrightarrow>
     left = right \<and> length left = 1 \<and> left ! 0 = EffectWorkspaceRead"

definition fenceCurrent :: "fences \<Rightarrow> nat option \<Rightarrow> fence_snapshot \<Rightarrow> bool" where
  "fenceCurrent fences fence generations \<longleftrightarrow>
     (case fence of None \<Rightarrow> False | Some a \<Rightarrow> map_of fences a = Some generations)"

definition readMatchesCapturedFacts ::
  "(string \<Rightarrow> string) \<Rightarrow> fences \<Rightarrow> scoped_read_proof \<Rightarrow> trusted_identity \<Rightarrow> tool_effect list
     \<Rightarrow> string \<Rightarrow> string \<Rightarrow> string \<Rightarrow> string \<Rightarrow> bool" where
  "readMatchesCapturedFacts resolve fences p identity effects schema arguments callID root =
     (if spIdentity p \<noteq> identity \<or> \<not> equalWorkspaceReadEffects effects (effectSetValues (spEffects p))
         \<or> spSchemaDigest p \<noteq> schema \<or> spArgumentDigest p \<noteq> arguments \<or> spCallID p \<noteq> callID
         \<or> spCanonicalWorkspaceRoot p \<noteq> root \<or> root = []
         \<or> spScopeFingerprint p \<noteq> ttScopeFingerprint (spIdentity p)
         \<or> \<not> isCanonicalWorkspaceRootPath resolve root
         \<or> \<not> canonicalWorkspaceReadRoots resolve root (spWhitelistRoots p)
      then False
      else fenceCurrent fences (spFence p) (spGenerations p))"

definition unclaimed :: "nat list \<Rightarrow> nat option \<Rightarrow> bool" where
  "unclaimed claimed a = (case a of None \<Rightarrow> False | Some x \<Rightarrow> x \<notin> set claimed)"

definition readMatchesAction ::
  "(string \<Rightarrow> string) \<Rightarrow> fences \<Rightarrow> nat list \<Rightarrow> scoped_read_proof \<Rightarrow> trusted_identity
     \<Rightarrow> tool_effect list \<Rightarrow> string \<Rightarrow> string \<Rightarrow> string \<Rightarrow> string \<Rightarrow> bool" where
  "readMatchesAction resolve fences claimed p identity effects schema arguments callID root =
     (if \<not> unclaimed claimed (spState p) then False
      else readMatchesCapturedFacts resolve fences p identity (effectSetValues effects) schema
             arguments callID root)"

definition readMatchesWorkspaceAction ::
  "(string \<Rightarrow> string) \<Rightarrow> fences \<Rightarrow> nat list \<Rightarrow> scoped_read_proof \<Rightarrow> tool_identity
     \<Rightarrow> tool_effect list \<Rightarrow> string \<Rightarrow> string \<Rightarrow> bool" where
  "readMatchesWorkspaceAction resolve fences claimed p identity effects callID root =
     (if \<not> unclaimed claimed (spState p) then False
      else if identity \<noteq> identitySnapshot (spIdentity p)
              \<or> \<not> equalWorkspaceReadEffects effects (effectSetValues (spEffects p)) then False
      else readMatchesCapturedFacts resolve fences p (spIdentity p) (effectSetValues (spEffects p))
             (spSchemaDigest p) (spArgumentDigest p) callID root)"

text \<open>Claiming returns the claimed addresses after the compare-and-swap.\<close>

definition readClaimWorkspaceAdmission ::
  "(string \<Rightarrow> string) \<Rightarrow> fences \<Rightarrow> nat list \<Rightarrow> scoped_read_proof \<Rightarrow> tool_identity
     \<Rightarrow> tool_effect list \<Rightarrow> string \<Rightarrow> string \<Rightarrow> bool \<times> nat list" where
  "readClaimWorkspaceAdmission resolve fences claimed p identity effects callID root =
     (if \<not> readMatchesWorkspaceAction resolve fences claimed p identity effects callID root
      then (False, claimed)
      else (True, the (spState p) # claimed))"

section \<open>Managed delegation\<close>

record managed_delegation_proof =
  mpIdentity :: trusted_identity
  mpSchema :: string
  mpArguments :: string
  mpCallID :: string
  mpRoot :: string
  mpFence :: "nat option"
  mpGenerations :: fence_snapshot
  mpClaimed :: nat

definition onlyControlEffect :: "tool_effect list \<Rightarrow> bool" where
  "onlyControlEffect effects \<longleftrightarrow> length effects = 1 \<and> effects ! 0 = EffectControl"

definition delegationMatchesAction ::
  "(string \<Rightarrow> string) \<Rightarrow> fences \<Rightarrow> nat list \<Rightarrow> managed_delegation_proof \<Rightarrow> trusted_identity
     \<Rightarrow> tool_effect list \<Rightarrow> string \<Rightarrow> string \<Rightarrow> string \<Rightarrow> string \<Rightarrow> bool" where
  "delegationMatchesAction resolve fences claimed p identity effects schema arguments callID root \<longleftrightarrow>
     mpClaimed p \<notin> set claimed \<and> mpIdentity p = identity \<and> mpSchema p = schema
     \<and> mpArguments p = arguments \<and> mpCallID p = callID \<and> mpRoot p = root
     \<and> isCanonicalWorkspaceRootPath resolve root \<and> onlyControlEffect (effectSetValues effects)
     \<and> fenceCurrent fences (mpFence p) (mpGenerations p)"

definition delegationMatchesWorkspaceAction ::
  "(string \<Rightarrow> string) \<Rightarrow> fences \<Rightarrow> nat list \<Rightarrow> managed_delegation_proof \<Rightarrow> tool_identity
     \<Rightarrow> tool_effect list \<Rightarrow> string \<Rightarrow> string \<Rightarrow> bool" where
  "delegationMatchesWorkspaceAction resolve fences claimed p identity effects callID root \<longleftrightarrow>
     identitySnapshot (mpIdentity p) = identity \<and> onlyControlEffect effects
     \<and> delegationMatchesAction resolve fences claimed p (mpIdentity p) (newTrustedEffectSet effects)
          (mpSchema p) (mpArguments p) callID root"

definition delegationClaimWorkspaceAdmission ::
  "(string \<Rightarrow> string) \<Rightarrow> fences \<Rightarrow> nat list \<Rightarrow> managed_delegation_proof \<Rightarrow> tool_identity
     \<Rightarrow> tool_effect list \<Rightarrow> string \<Rightarrow> string \<Rightarrow> bool \<times> nat list" where
  "delegationClaimWorkspaceAdmission resolve fences claimed p identity effects callID root =
     (if delegationMatchesWorkspaceAction resolve fences claimed p identity effects callID root
      then (True, mpClaimed p # claimed) else (False, claimed))"

section \<open>A capability is spent at most once\<close>

lemma readClaim_unclaimed:
  assumes "readClaimWorkspaceAdmission resolve fences claimed p identity effects callID root = (True, claimed')"
  obtains a where "spState p = Some a" "a \<notin> set claimed" "claimed' = a # claimed"
  using assms
  by (auto simp: readClaimWorkspaceAdmission_def readMatchesWorkspaceAction_def unclaimed_def
      split: if_splits option.splits)

lemma readClaim_mono:
  assumes "readClaimWorkspaceAdmission resolve fences claimed p identity effects callID root = (b, claimed')"
  shows "set claimed \<subseteq> set claimed'"
  using assms by (auto simp: readClaimWorkspaceAdmission_def split: if_splits)

lemma readMatches_claimed:
  assumes "spState p = Some a" "a \<in> set claimed"
  shows "\<not> readMatchesWorkspaceAction resolve fences claimed p identity effects callID root"
    and "\<not> readMatchesAction resolve fences claimed p ti effs sd ad callID root"
  using assms by (simp_all add: readMatchesWorkspaceAction_def readMatchesAction_def unclaimed_def)

text \<open>
  A matching read proof means one workspace-read effect, a canonical root, read roots that
  are canonical and inside the workspace, and a fence that has not moved.
\<close>

lemma readMatchesWorkspaceAction_D:
  assumes "readMatchesWorkspaceAction resolve fences claimed p identity effects callID root"
  shows "effects = [EffectWorkspaceRead]" "identity = identitySnapshot (spIdentity p)"
    "spCallID p = callID" "isCanonicalWorkspaceRootPath resolve root"
    "\<forall>r \<in> set (spWhitelistRoots p). isCanonicalWorkspaceRootPath resolve r \<and> pathIsEqualOrNested root r"
    "fenceCurrent fences (spFence p) (spGenerations p)"
  using assms
  by (auto simp: readMatchesWorkspaceAction_def readMatchesCapturedFacts_def equalWorkspaceReadEffects_def
      canonicalWorkspaceReadRoots_def length_Suc_conv list_all_iff split: if_splits)

end
