(* ===== verification/WorkspaceIndex.thy ===== *)
theory WorkspaceIndex
  imports RowRules AdmissionProofs
begin

text \<open>
  The workspace quarantine index of \<open>internal/session/workspace_index.go\<close> and
  \<open>workspace_identity.go\<close>: one append-only file per workspace, under an advisory lock,
  holding a dispatch-ready marker per action batch and the resolutions of its actions.

  The file is the list of its decoded rows. The four maps of \<open>workspaceIndexState\<close> are the
  batches and one list of indexed actions, searched by key, by occurrence and by action ID:
  the source inserts each action into its three maps together and never overwrites.
  Reading back a torn last row (\<open>readWorkspaceIndex\<close>) is not modelled below the level of
  rows: a failed write leaves some number of complete rows of its batch.
\<close>

section \<open>Data\<close>

datatype index_record_kind =
    WorkspaceIndexInitialized | WorkspaceIndexDispatchReady | WorkspaceIndexResolution
  | WorkspaceIndexOther string

record dispatch_action =
  daNonBlockingDelegation :: bool
  daManagedDelegationProof :: "managed_delegation_proof option"
  daAction :: pending_ref
  daToolIdentity :: "tool_identity option"
  daEffectSet :: "tool_effect list"
  daExecutionIdentity :: "execution_identity option"
  daScopedReadProof :: "scoped_read_proof option"

record dispatch_batch =
  dbWorkspaceID :: string
  dbSessionID :: string
  dbRunID :: string
  dbActionBatchID :: string
  dbActions :: "dispatch_action list"
  dbCanonicalWorkspaceRoot :: string

record index_record =
  irVersion :: nat
  irSeq :: u64
  irRecordID :: string
  irKind :: index_record_kind
  irWorkspaceID :: string
  irSessionID :: string
  irRunID :: string
  irActionBatchID :: string
  irActions :: "dispatch_action list"
  irAction :: "pending_ref option"
  irCheckpointID :: string
  irCheckpointSeq :: u64
  irResolution :: "execution_resolution option"

definition emptyRecord :: index_record where
  "emptyRecord = \<lparr> irVersion = 0, irSeq = 0, irRecordID = [], irKind = WorkspaceIndexOther [],
     irWorkspaceID = [], irSessionID = [], irRunID = [], irActionBatchID = [], irActions = [],
     irAction = None, irCheckpointID = [], irCheckpointSeq = 0, irResolution = None \<rparr>"

type_synonym workspace_batch_key = "string \<times> string \<times> string"
type_synonym workspace_occurrence_key = "string \<times> string \<times> string \<times> u64 \<times> string"
type_synonym workspace_action_key = "workspace_occurrence_key \<times> string \<times> string"

definition workspaceOccurrenceFor :: "pending_ref \<Rightarrow> workspace_occurrence_key" where
  "workspaceOccurrenceFor r = (rSessionID r, rWorkspaceID r, rRunID r, rOrdinal r, rToolCallID r)"

definition workspaceActionFor :: "pending_ref \<Rightarrow> workspace_action_key" where
  "workspaceActionFor r = (workspaceOccurrenceFor r, rActionBatchID r, rActionID r)"

record indexed_action =
  iaRef :: pending_ref
  iaAction :: dispatch_action
  iaMarker :: index_record
  iaResolution :: "index_record option"

record index_state =
  ixRecords :: "index_record list"
  ixBatches :: "(workspace_batch_key \<times> index_record) list"
  ixActions :: "indexed_action list"

definition actionsByCall :: "index_state \<Rightarrow> workspace_occurrence_key \<Rightarrow> indexed_action option" where
  "actionsByCall s = keyed (\<lambda>a. workspaceOccurrenceFor (iaRef a)) (ixActions s)"

definition actionsByKey :: "index_state \<Rightarrow> workspace_action_key \<Rightarrow> indexed_action option" where
  "actionsByKey s = keyed (\<lambda>a. workspaceActionFor (iaRef a)) (ixActions s)"

definition actionsByID :: "index_state \<Rightarrow> string \<Rightarrow> indexed_action option" where
  "actionsByID s = keyed (\<lambda>a. rActionID (iaRef a)) (ixActions s)"

text \<open>
  The code outside this program: SHA-256, the size of a row's JSON, and the two symbolic
  link resolutions of the file system.
\<close>

record host =
  hSha256 :: "string \<Rightarrow> string"
  hIndexRowBytes :: "index_record \<Rightarrow> nat"
  hEvalSymlinks :: "string \<Rightarrow> string option"
  hResolveSymlinks :: "string \<Rightarrow> string"

record index_world = world +
  iwRoot :: string
  iwLocks :: "string list"
  iwFiles :: "(string \<times> index_record list) list"
  iwClaimed :: "nat list"
  iwFences :: fences

abbreviation maxWorkspaceIndexActions :: nat where
  "maxWorkspaceIndexActions \<equiv> 256"

section \<open>Identities\<close>

definition validWorkspaceID :: "string \<Rightarrow> bool" where
  "validWorkspaceID w \<longleftrightarrow>
     w \<noteq> [] \<and> length w \<le> 128 \<and> isAlnum (hd w)
     \<and> list_all (\<lambda>c. isAlnum c \<or> c = CHR ''_'' \<or> c = CHR ''-'') (tl w)"

definition WorkspaceIDForCanonicalRoot :: "'h host_scheme \<Rightarrow> string \<Rightarrow> go_error + string" where
  "WorkspaceIDForCanonicalRoot h root =
     (if root = [] \<or> containsNUL root \<or> \<not> isAbs root \<or> pathClean root \<noteq> root
        then Inl (Fault ''invalid canonical workspace root'')
      else case hEvalSymlinks h root of
        None \<Rightarrow> Inl (Fault ''invalid canonical workspace root'')
      | Some canonical \<Rightarrow>
          if canonical \<noteq> root then Inl (Fault ''invalid canonical workspace root'')
          else Inr (''workspace-v1-'' @ hexEncode (hSha256 h
            (''go-cli/workspace-quarantine/v1'' @ CHR 0x00 # root))))"

definition validateWorkspaceRecordIdentityParts :: "string list \<Rightarrow> go_error + unit" where
  "validateWorkspaceRecordIdentityParts parts =
     (if \<exists>p \<in> set parts. containsNUL p then Inl (Fault ''workspace record identity contains NUL'')
      else Inr ())"

definition recordIDPreimage :: "string \<Rightarrow> string list \<Rightarrow> string" where
  "recordIDPreimage kind parts = kind @ concat (map (\<lambda>p. CHR 0x00 # p) parts)"

definition stableWorkspaceRecordID :: "'h host_scheme \<Rightarrow> string \<Rightarrow> string list \<Rightarrow> string" where
  "stableWorkspaceRecordID h kind parts =
     kind @ CHR '':'' # hexEncode (hSha256 h (recordIDPreimage kind parts))"

definition workspaceGenesisRecordID :: "'h host_scheme \<Rightarrow> string \<Rightarrow> string" where
  "workspaceGenesisRecordID h w = stableWorkspaceRecordID h ''genesis'' [w]"

definition workspaceDispatchRecordID :: "'h host_scheme \<Rightarrow> dispatch_batch \<Rightarrow> string" where
  "workspaceDispatchRecordID h b = stableWorkspaceRecordID h ''dispatch''
     [dbWorkspaceID b, dbSessionID b, dbRunID b, dbActionBatchID b]"

definition workspaceResolutionRecordID :: "'h host_scheme \<Rightarrow> pending_ref \<Rightarrow> string" where
  "workspaceResolutionRecordID h r = stableWorkspaceRecordID h ''resolution''
     [rWorkspaceID r, rSessionID r, rRunID r, rActionBatchID r, rActionID r]"

section \<open>Facts of an action\<close>

fun supportedEffect :: "tool_effect \<Rightarrow> bool" where
  "supportedEffect (EffectOther s) = False"
| "supportedEffect _ = True"

fun collectEffects :: "tool_effect list \<Rightarrow> tool_effect list \<Rightarrow> go_error + tool_effect list" where
  "collectEffects values [] = Inr values"
| "collectEffects values (e # es) =
     (if \<not> supportedEffect e then Inl (Fault ''unsupported effect'')
      else if e \<in> set values then collectEffects values es
      else collectEffects (values @ [e]) es)"

definition normalizeEffectFacts :: "tool_effect list \<Rightarrow> go_error + tool_effect list" where
  "normalizeEffectFacts effects =
     (if effects = [] then Inr [EffectUnknown]
      else case collectEffects [] effects of Inl e \<Rightarrow> Inl e | Inr values \<Rightarrow> Inr (sort values))"

definition validateWorkspaceDispatchAction ::
  "dispatch_action \<Rightarrow> string \<Rightarrow> string \<Rightarrow> string \<Rightarrow> string \<Rightarrow> go_error + unit" where
  "validateWorkspaceDispatchAction a w sid run batch =
     (let ref = daAction a in
      bindR (validateWorkspaceRecordIdentityParts [w, sid, run, batch, rWorkspaceID ref, rSessionID ref,
               rRunID ref, rActionBatchID ref, rActionID ref]) (\<lambda>_.
      bindR (validatePendingRef ref) (\<lambda>_.
      if rWorkspaceID ref \<noteq> w \<or> rSessionID ref \<noteq> sid \<or> rRunID ref \<noteq> run
         \<or> rActionBatchID ref \<noteq> batch \<or> rActionID ref = []
        then Inl (Fault ''action reference does not match its dispatch batch'')
      else if (case daToolIdentity a of None \<Rightarrow> False | Some i \<Rightarrow>
                 tiRegistrationSource i = [] \<or> tiToolName i = [] \<or> tiRegistrationGeneration i = 0
                 \<or> \<not> isHexDigest (tiExecutorFingerprint i) \<or> \<not> isHexDigest (tiScopeFingerprint i))
        then Inl (Fault ''action has invalid trusted tool identity facts'')
      else if daNonBlockingDelegation a
              \<and> (case daToolIdentity a of None \<Rightarrow> True | Some i \<Rightarrow>
                   tiRegistrationSource i \<noteq> ''builtin_control'' \<or> tiToolName i \<noteq> ''dispatch_subagent''
                   \<or> length (daEffectSet a) \<noteq> 1 \<or> daEffectSet a ! 0 \<noteq> EffectControl)
        then Inl (Fault ''action has invalid managed delegation facts'')
      else (case daExecutionIdentity a of
          None \<Rightarrow> Inr ()
        | Some i \<Rightarrow> validateExecutionIdentity i))))"

definition validateWorkspaceResolution ::
  "pending_ref \<Rightarrow> string \<Rightarrow> u64 \<Rightarrow> execution_resolution \<Rightarrow> go_error + unit" where
  "validateWorkspaceResolution ref checkpointID checkpointSeq x =
     bindR (validateWorkspaceRecordIdentityParts [rWorkspaceID ref, rSessionID ref, rRunID ref,
              rActionBatchID ref, rActionID ref]) (\<lambda>_.
     bindR (validatePendingRef ref) (\<lambda>_.
     if rActionID ref = [] \<or> checkpointID = [] \<or> checkpointSeq = 0 \<or> erRunID x \<noteq> rRunID ref
        \<or> erActionID x \<noteq> rActionID ref \<or> erEvidenceRef x = []
       then Inl (Fault ''execution resolution has incomplete or mismatched identity'')
     else (case erEvidence x of
         ResolutionOther s \<Rightarrow> Inl (Fault ''unsupported execution resolution evidence'')
       | _ \<Rightarrow> Inr ())))"

section \<open>Validating the file\<close>

definition batchKeyOf :: "index_record \<Rightarrow> workspace_batch_key" where
  "batchKeyOf r = (irSessionID r, irRunID r, irActionBatchID r)"

definition addIndexedAction ::
  "index_record \<Rightarrow> index_state \<Rightarrow> dispatch_action \<Rightarrow> go_error + index_state" where
  "addIndexedAction r s a =
     bindR (validateWorkspaceDispatchAction a (irWorkspaceID r) (irSessionID r) (irRunID r)
              (irActionBatchID r)) (\<lambda>_.
     if normalizeEffectFacts (daEffectSet a) \<noteq> Inr (daEffectSet a)
       then Inl (Fault ''dispatch action effect facts are empty or non-canonical'')
     else if actionsByCall s (workspaceOccurrenceFor (daAction a)) \<noteq> None
             \<or> actionsByKey s (workspaceActionFor (daAction a)) \<noteq> None
             \<or> actionsByID s (rActionID (daAction a)) \<noteq> None
       then Inl (Fault ''duplicate workspace action occurrence or ID'')
     else Inr (s \<lparr> ixActions := ixActions s @ [\<lparr> iaRef = daAction a, iaAction = a, iaMarker = r,
            iaResolution = None \<rparr>] \<rparr>))"

definition addDispatchRecord ::
  "'h host_scheme \<Rightarrow> index_state \<Rightarrow> index_record \<Rightarrow> go_error + index_state" where
  "addDispatchRecord h s r =
     bindR (validateWorkspaceRecordIdentityParts [irWorkspaceID r, irSessionID r, irRunID r,
              irActionBatchID r]) (\<lambda>_.
     if irSessionID r = [] \<or> irRunID r = [] \<or> irActionBatchID r = []
        \<or> irRecordID r \<noteq> stableWorkspaceRecordID h ''dispatch''
             [irWorkspaceID r, irSessionID r, irRunID r, irActionBatchID r]
        \<or> irActions r = [] \<or> length (irActions r) > maxWorkspaceIndexActions
        \<or> irAction r \<noteq> None \<or> irResolution r \<noteq> None \<or> irCheckpointID r \<noteq> [] \<or> irCheckpointSeq r \<noteq> 0
       then Inl (Fault ''incomplete or invalid dispatch-ready batch envelope'')
     else if map_of (ixBatches s) (batchKeyOf r) \<noteq> None
       then Inl (Fault ''duplicate dispatch-ready batch'')
     else bindR (foldR (addIndexedAction r) s (irActions r)) (\<lambda>s'.
       Inr (s' \<lparr> ixBatches := (batchKeyOf r, r) # ixBatches s' \<rparr>)))"

definition setResolution :: "workspace_action_key \<Rightarrow> index_record \<Rightarrow> index_state \<Rightarrow> index_state" where
  "setResolution k r s = s \<lparr> ixActions := map (\<lambda>a.
     if workspaceActionFor (iaRef a) = k then a \<lparr> iaResolution := Some r \<rparr> else a) (ixActions s) \<rparr>"

definition addResolutionRecord ::
  "'h host_scheme \<Rightarrow> index_state \<Rightarrow> index_record \<Rightarrow> go_error + index_state" where
  "addResolutionRecord h s r =
     (if irSessionID r \<noteq> [] \<or> irRunID r \<noteq> [] \<or> irActionBatchID r \<noteq> [] \<or> irActions r \<noteq> []
         \<or> irCheckpointID r = [] \<or> irCheckpointSeq r = 0
        then Inl (Fault ''incomplete or invalid execution-resolution envelope'')
      else (case (irAction r, irResolution r) of
          (Some ref, Some x) \<Rightarrow>
            if irRecordID r \<noteq> workspaceResolutionRecordID h ref
              then Inl (Fault ''incomplete or invalid execution-resolution envelope'')
            else bindR (validateWorkspaceResolution ref (irCheckpointID r) (irCheckpointSeq r) x) (\<lambda>_.
              (case actionsByKey s (workspaceActionFor ref) of
                 None \<Rightarrow> Inl (Fault ''execution resolution has no exact prior dispatch-ready action'')
               | Some indexed \<Rightarrow>
                   if iaRef indexed \<noteq> ref
                     then Inl (Fault ''execution resolution has no exact prior dispatch-ready action'')
                   else if iaResolution indexed \<noteq> None
                     then Inl (Fault ''duplicate execution resolution for action'')
                   else Inr (setResolution (workspaceActionFor ref) r s)))
        | _ \<Rightarrow> Inl (Fault ''incomplete or invalid execution-resolution envelope'')))"

text \<open>One row: the position is the number of rows already accepted.\<close>

definition isGenesis :: "'h host_scheme \<Rightarrow> string \<Rightarrow> index_record \<Rightarrow> bool" where
  "isGenesis h w r \<longleftrightarrow>
     irKind r = WorkspaceIndexInitialized \<and> irRecordID r = workspaceGenesisRecordID h w
     \<and> irSeq r = 1 \<and> irSessionID r = [] \<and> irRunID r = [] \<and> irActionBatchID r = []
     \<and> irActions r = [] \<and> irAction r = None \<and> irResolution r = None
     \<and> irCheckpointID r = [] \<and> irCheckpointSeq r = 0"

definition indexRow ::
  "'h host_scheme \<Rightarrow> string \<Rightarrow> index_state \<Rightarrow> index_record \<Rightarrow> go_error + index_state" where
  "indexRow h w s r =
     bindR (validateWorkspaceRecordIdentityParts [w, irWorkspaceID r, irRecordID r]) (\<lambda>_.
     if irVersion r \<noteq> 1 \<or> irWorkspaceID r \<noteq> w \<or> irSeq r \<noteq> of_nat (length (ixRecords s) + 1)
        \<or> irRecordID r = []
       then Inl (Fault ''workspace row has invalid version, workspace, sequence, or ID'')
     else if irRecordID r \<in> irRecordID ` set (ixRecords s)
       then Inl (Fault ''workspace index repeats record ID'')
     else bindR
       (if ixRecords s = [] then
          (if isGenesis h w r then Inr s
           else Inl (Fault ''workspace index has an invalid initialization witness''))
        else (case irKind r of
            WorkspaceIndexInitialized \<Rightarrow> Inl (Fault ''workspace index contains a later initialization witness'')
          | WorkspaceIndexDispatchReady \<Rightarrow> addDispatchRecord h s r
          | WorkspaceIndexResolution \<Rightarrow> addResolutionRecord h s r
          | WorkspaceIndexOther k \<Rightarrow> Inl (Fault ''workspace index has unsupported record kind'')))
       (\<lambda>s'. Inr (s' \<lparr> ixRecords := ixRecords s @ [r] \<rparr>)))"

definition emptyIndexState :: index_state where
  "emptyIndexState = \<lparr> ixRecords = [], ixBatches = [], ixActions = [] \<rparr>"

definition validateWorkspaceIndexRecords ::
  "'h host_scheme \<Rightarrow> index_record list \<Rightarrow> string \<Rightarrow> go_error + index_state" where
  "validateWorkspaceIndexRecords h records w =
     (if records = [] then Inl (Fault ''workspace index has no initialization witness'')
      else foldR (indexRow h w) emptyIndexState records)"

section \<open>Reading the state\<close>

definition hasConflictingMarkerReference :: "index_state \<Rightarrow> pending_ref \<Rightarrow> bool" where
  "hasConflictingMarkerReference s ref =
     (case actionsByCall s (workspaceOccurrenceFor ref) of
        Some indexed \<Rightarrow> iaRef indexed \<noteq> ref
      | None \<Rightarrow>
          if rActionID ref \<noteq> [] \<and> actionsByID s (rActionID ref) \<noteq> None then True
          else if rActionBatchID ref \<noteq> []
                  \<and> map_of (ixBatches s) (rSessionID ref, rRunID ref, rActionBatchID ref) \<noteq> None
            then True
          else False)"

definition markerState :: "index_state \<Rightarrow> pending_ref \<Rightarrow> dispatch_marker_state" where
  "markerState s ref =
     (case actionsByCall s (workspaceOccurrenceFor ref) of
        None \<Rightarrow> if hasConflictingMarkerReference s ref then DispatchMarkerUnverifiable
                else DispatchMarkerAbsent
      | Some indexed \<Rightarrow>
          if iaRef indexed \<noteq> ref then DispatchMarkerUnverifiable
          else if iaResolution indexed \<noteq> None then DispatchMarkerResolved
          else DispatchMarkerPresent)"

definition hasUnresolvedMarker :: "index_state \<Rightarrow> bool" where
  "hasUnresolvedMarker s \<longleftrightarrow>
     list_ex (\<lambda>a. iaResolution a = None \<and> \<not> daNonBlockingDelegation (iaAction a)) (ixActions s)"

section \<open>File operations under the lock\<close>

text \<open>\<open>withFile\<close> replaces the rows of one workspace's file.\<close>

definition indexFile :: "'z index_world_scheme \<Rightarrow> string \<Rightarrow> index_record list option" where
  "indexFile w wid = map_of (iwFiles w) wid"

definition writeIndexFile :: "string \<Rightarrow> index_record list \<Rightarrow> 'z index_world_scheme \<Rightarrow> 'z index_world_scheme" where
  "writeIndexFile wid rows w = w \<lparr> iwFiles := (wid, rows) # iwFiles w \<rparr>"

text \<open>A batch of rows is appended in one write; a failing write leaves a prefix of it.\<close>

definition appendRows :: "string \<Rightarrow> index_record list \<Rightarrow> ('z index_world_scheme, unit) op" where
  "appendRows wid rows w =
     (let old = (case indexFile w wid of None \<Rightarrow> [] | Some rs \<Rightarrow> rs) in
      case takeIO w of
        (IoOk, w') \<Rightarrow> (Inr (), writeIndexFile wid (old @ rows) w')
      | (IoFail n, w') \<Rightarrow> (Inl (Fault ''append workspace index''),
          writeIndexFile wid (old @ take n rows) w'))"

fun numberRecords ::
  "'h host_scheme \<Rightarrow> nat \<Rightarrow> index_record list \<Rightarrow> go_error + index_record list" where
  "numberRecords h n [] = Inr []"
| "numberRecords h n (r # rs) =
     (let r' = r \<lparr> irVersion := 1, irSeq := of_nat n + 1 \<rparr> in
      if irRecordID r' = [] then Inl (Fault ''workspace index record ID is required'')
      else if hIndexRowBytes h r' > maxDurableJSONLineBytes
        then Inl (Fault ''workspace index row exceeds the line limit'')
      else bindR (numberRecords h (Suc n) rs) (\<lambda>rs'. Inr (r' # rs')))"

definition appendRecords ::
  "'h host_scheme \<Rightarrow> string \<Rightarrow> index_state \<Rightarrow> index_record list \<Rightarrow> ('z index_world_scheme, unit) op" where
  "appendRecords h wid s records =
     (if records = [] then okS ()
      else if (of_nat (length (ixRecords s)) :: u64) > - 1 - of_nat (length records)
        then failS (Fault ''workspace index sequence exhausted'')
      else bindS (liftR (numberRecords h (length (ixRecords s)) records)) (\<lambda>numbered.
        case validateWorkspaceIndexRecords h (ixRecords s @ numbered) (irWorkspaceID (hd (ixRecords s))) of
          Inl e \<Rightarrow> failS (Fault ''reject invalid workspace index append'')
        | Inr _ \<Rightarrow> bindS (appendRows wid numbered) (\<lambda>_.
            ioStep (Fault ''sync workspace index''))))"

definition readLockedIndex ::
  "'h host_scheme \<Rightarrow> string \<Rightarrow> ('z index_world_scheme, index_state) op" where
  "readLockedIndex h wid =
     bindS (ioStep ErrWorkspaceIndexUnavailable) (\<lambda>_ w.
       case indexFile w wid of
         None \<Rightarrow> (Inl ErrWorkspaceIndexUnavailable, w)
       | Some rows \<Rightarrow>
           (case validateWorkspaceIndexRecords h rows wid of
              Inl _ \<Rightarrow> (Inl ErrWorkspaceIndexCorrupt, w)
            | Inr s \<Rightarrow> (Inr s, w)))"

text \<open>
  A deferred close that fails turns a success into an error and leaves an error as it is;
  the flag reports a failed close to the caller.
\<close>

definition closing :: "('z world_scheme, 'a) op \<Rightarrow> 'z world_scheme \<Rightarrow> (bool \<times> (go_error + 'a)) \<times> 'z world_scheme" where
  "closing m w =
     (case m w of (r, w1) \<Rightarrow>
       (case takeIO w1 of
          (IoOk, w2) \<Rightarrow> ((False, r), w2)
        | (IoFail n, w2) \<Rightarrow> ((True, r), w2)))"

definition joinClose :: "bool \<times> (go_error + 'a) \<Rightarrow> go_error + 'a" where
  "joinClose cr = (case snd cr of Inl e \<Rightarrow> Inl e | Inr x \<Rightarrow> if fst cr then Inl ErrIO else Inr x)"

definition closeAfter :: "('z world_scheme, 'a) op \<Rightarrow> ('z world_scheme, 'a) op" where
  "closeAfter m w = (case closing m w of (cr, w') \<Rightarrow> (joinClose cr, w'))"

definition openWorkspaceLock :: "string \<Rightarrow> ('z index_world_scheme, unit) op" where
  "openWorkspaceLock wid =
     bindS contextErr (\<lambda>_ w.
       if \<not> validWorkspaceID wid then (Inl (Fault ''invalid workspace ID''), w)
       else if iwRoot w = [] then (Inl ErrWorkspaceIndexUnavailable, w)
       else bindS (ioStep ErrWorkspaceIndexUnavailable) (\<lambda>_ w1.
         if wid \<notin> set (iwLocks w1) then (Inl ErrWorkspaceIndexUnavailable, w1)
         else ioStep ErrWorkspaceIndexUnavailable w1) w)"

definition lockedIndexBody ::
  "'h host_scheme \<Rightarrow> string \<Rightarrow> (index_state \<Rightarrow> ('z index_world_scheme, 'a) op)
     \<Rightarrow> 'z index_world_scheme \<Rightarrow> (bool \<times> (go_error + 'a)) \<times> 'z index_world_scheme" where
  "lockedIndexBody h wid fn w =
     (case bindS contextErr (\<lambda>_. readLockedIndex h wid) w of
        (Inl e, w1) \<Rightarrow> ((False, Inl e), w1)
      | (Inr s, w1) \<Rightarrow>
          closing (bindS contextErr (\<lambda>_. bindS (ioStep ErrWorkspaceIndexUnavailable) (\<lambda>_. fn s))) w1)"

definition withLockedIndexObserved ::
  "'h host_scheme \<Rightarrow> string \<Rightarrow> (index_state \<Rightarrow> ('z index_world_scheme, 'a) op)
     \<Rightarrow> 'z index_world_scheme \<Rightarrow> (bool \<times> (go_error + 'a)) \<times> 'z index_world_scheme" where
  "withLockedIndexObserved h wid fn w =
     (case openWorkspaceLock wid w of
        (Inl e, w1) \<Rightarrow> ((False, Inl e), w1)
      | (Inr _, w1) \<Rightarrow>
          (case lockedIndexBody h wid fn w1 of ((c, r), w2) \<Rightarrow>
            (case takeIO w2 of
               (IoOk, w3) \<Rightarrow> ((c, r), w3)
             | (IoFail n, w3) \<Rightarrow> ((True, r), w3))))"

definition withLockedIndex ::
  "'h host_scheme \<Rightarrow> string \<Rightarrow> (index_state \<Rightarrow> ('z index_world_scheme, 'a) op)
     \<Rightarrow> ('z index_world_scheme, 'a) op" where
  "withLockedIndex h wid fn w =
     (case withLockedIndexObserved h wid fn w of (cr, w') \<Rightarrow> (joinClose cr, w'))"

end
