(* ===== verification/WorkspaceIndexFacts.thy ===== *)
theory WorkspaceIndexFacts
  imports WorkspaceIndex
begin

text \<open>
  What a successful \<open>validateWorkspaceIndexRecords\<close> establishes: \<open>indexInv\<close> relates the
  maps of the state to the rows of the file in both directions, and \<open>extends\<close> says how the
  state grows when rows are appended. The canonical form of effect facts is characterised
  here too.
\<close>

declare split_paired_All [simp del] split_paired_Ex [simp del]

section \<open>Effect facts\<close>

lemma collectEffects_Inr:
  assumes "collectEffects vs es = Inr ws" "distinct vs"
  shows "distinct ws \<and> set ws = set vs \<union> set es \<and> list_all supportedEffect es"
  using assms by (induction vs es rule: collectEffects.induct) (auto split: if_splits)

lemma collectEffects_total:
  "list_all supportedEffect es \<Longrightarrow> \<exists>ws. collectEffects vs es = Inr ws"
  by (induction vs es rule: collectEffects.induct) auto

lemma collectEffects_id:
  "list_all supportedEffect es \<Longrightarrow> distinct (vs @ es) \<Longrightarrow> collectEffects vs es = Inr (vs @ es)"
  by (induction vs es rule: collectEffects.induct) auto

lemma normalizeEffectFacts_Inr:
  assumes "normalizeEffectFacts es = Inr ws"
  shows "sorted ws" "distinct ws" "ws \<noteq> []"
    "set ws = (if es = [] then {EffectUnknown} else set es)" "list_all supportedEffect ws"
proof -
  have "sorted ws \<and> distinct ws \<and> ws \<noteq> [] \<and> set ws = (if es = [] then {EffectUnknown} else set es)
      \<and> list_all supportedEffect ws"
  proof (cases "es = []")
    case True
    with assms show ?thesis by (auto simp: normalizeEffectFacts_def)
  next
    case False
    with assms obtain vs where vs: "collectEffects [] es = Inr vs" "ws = sort vs"
      by (auto simp: normalizeEffectFacts_def split: sum.splits)
    from collectEffects_Inr [OF vs(1)] have "distinct vs" "set vs = set es" "list_all supportedEffect es"
      by auto
    with False vs(2) show ?thesis by (auto simp: list_all_iff dest: arg_cong [where f = set])
  qed
  then show "sorted ws" "distinct ws" "ws \<noteq> []"
    "set ws = (if es = [] then {EffectUnknown} else set es)" "list_all supportedEffect ws"
    by auto
qed

lemma normalizeEffectFacts_idem:
  assumes "normalizeEffectFacts es = Inr ws"
  shows "normalizeEffectFacts ws = Inr ws"
proof -
  note n = normalizeEffectFacts_Inr [OF assms]
  have "collectEffects [] ws = Inr ws" using collectEffects_id [of ws "[]"] n by simp
  with n show ?thesis by (simp add: normalizeEffectFacts_def sorted_sort_id)
qed

lemma normalizeEffectFacts_fix:
  "normalizeEffectFacts ws = Inr ws \<longleftrightarrow>
     ws \<noteq> [] \<and> sorted ws \<and> distinct ws \<and> list_all supportedEffect ws"
proof
  assume "normalizeEffectFacts ws = Inr ws"
  from normalizeEffectFacts_Inr [OF this]
  show "ws \<noteq> [] \<and> sorted ws \<and> distinct ws \<and> list_all supportedEffect ws" by blast
next
  assume a: "ws \<noteq> [] \<and> sorted ws \<and> distinct ws \<and> list_all supportedEffect ws"
  then have "collectEffects [] ws = Inr ws" using collectEffects_id [of ws "[]"] by simp
  with a show "normalizeEffectFacts ws = Inr ws" by (simp add: normalizeEffectFacts_def sorted_sort_id)
qed

section \<open>Record identities\<close>

text \<open>Without NUL bytes in the parts, the hashed text determines its parts.\<close>

lemma nul_split:
  assumes "CHR 0x00 \<notin> set a" "CHR 0x00 \<notin> set b"
    and "a @ u = b @ v" "u = [] \<or> hd u = CHR 0x00" "v = [] \<or> hd v = CHR 0x00"
  shows "a = b \<and> u = v"
  using assms
proof (induction a arbitrary: b)
  case Nil
  show ?case
  proof (cases b)
    case (Cons d b')
    with Nil.prems(3) have "hd u = d" "u \<noteq> []" by auto
    with Nil.prems(2,4) Cons show ?thesis by simp
  qed (use Nil.prems(3) in simp)
next
  case (Cons c a)
  show ?case
  proof (cases b)
    case Nil
    with Cons.prems(3) have "hd v = c" "v \<noteq> []" by auto
    with Cons.prems(1,5) show ?thesis by simp
  next
    case (Cons d b')
    with Cons.prems(3) have "c = d" "a @ u = b' @ v" by auto
    with Cons.IH [of b'] Cons.prems(1,2,4,5) \<open>b = d # b'\<close> show ?thesis by simp
  qed
qed

lemma nul_concat_hd:
  "concat (map (\<lambda>p. CHR 0x00 # p) ps) = [] \<or> hd (concat (map (\<lambda>p. CHR 0x00 # p) ps)) = CHR 0x00"
  by (cases ps) simp_all

lemma nul_parts_inj:
  "\<forall>p \<in> set ps. CHR 0x00 \<notin> set p \<Longrightarrow> \<forall>p \<in> set qs. CHR 0x00 \<notin> set p \<Longrightarrow>
   concat (map (\<lambda>p. CHR 0x00 # p) ps) = concat (map (\<lambda>p. CHR 0x00 # p) qs) \<Longrightarrow> ps = qs"
proof (induction ps arbitrary: qs)
  case Nil
  then show ?case by (cases qs) simp_all
next
  case (Cons p ps)
  then obtain q qs' where qs: "qs = q # qs'" by (cases qs) simp_all
  have nn: "CHR 0x00 \<notin> set p" "CHR 0x00 \<notin> set q" using Cons.prems(1,2) qs by simp_all
  have eq: "p @ concat (map (\<lambda>p. CHR 0x00 # p) ps) = q @ concat (map (\<lambda>p. CHR 0x00 # p) qs')"
    using Cons.prems(3) unfolding qs list.map concat.simps append_Cons list.inject by (rule conjunct2)
  have "p = q \<and> concat (map (\<lambda>p. CHR 0x00 # p) ps) = concat (map (\<lambda>p. CHR 0x00 # p) qs')"
    by (rule nul_split [OF nn eq nul_concat_hd nul_concat_hd])
  moreover from this have "ps = qs'" by (intro Cons.IH) (use Cons.prems(1,2) qs in simp_all)
  ultimately show ?case using qs by simp
qed

lemma recordIDPreimage_inj:
  assumes "CHR 0x00 \<notin> set k" "CHR 0x00 \<notin> set l"
    and "validateWorkspaceRecordIdentityParts ps = Inr ()" "validateWorkspaceRecordIdentityParts qs = Inr ()"
    and "recordIDPreimage k ps = recordIDPreimage l qs"
  shows "k = l \<and> ps = qs"
proof -
  have parts: "\<forall>p \<in> set ps. CHR 0x00 \<notin> set p" "\<forall>p \<in> set qs. CHR 0x00 \<notin> set p"
    using assms(3,4)
    by (simp_all add: validateWorkspaceRecordIdentityParts_def containsNUL_def split: if_splits)
  have "k = l \<and> concat (map (\<lambda>p. CHR 0x00 # p) ps) = concat (map (\<lambda>p. CHR 0x00 # p) qs)"
    by (rule nul_split [OF assms(1,2) _ nul_concat_hd nul_concat_hd])
      (use assms(5) in \<open>simp add: recordIDPreimage_def\<close>)
  with nul_parts_inj parts show ?thesis by blast
qed

section \<open>The actions of a dispatch record\<close>

definition refOfMarker :: "index_record \<Rightarrow> pending_ref \<Rightarrow> bool" where
  "refOfMarker r ref \<longleftrightarrow> rWorkspaceID ref = irWorkspaceID r \<and> rSessionID ref = irSessionID r
     \<and> rRunID ref = irRunID r \<and> rActionBatchID ref = irActionBatchID r \<and> rActionID ref \<noteq> []"

lemma validateWorkspaceDispatchAction_ref:
  assumes "validateWorkspaceDispatchAction a w sid run batch = Inr u"
  shows "rWorkspaceID (daAction a) = w" "rSessionID (daAction a) = sid" "rRunID (daAction a) = run"
    "rActionBatchID (daAction a) = batch" "rActionID (daAction a) \<noteq> []"
    "validatePendingRef (daAction a) = Inr ()"
  using assms by (auto simp: validateWorkspaceDispatchAction_def Let_def bindR_eq_Inr split: if_splits)

definition actionsOK :: "index_state \<Rightarrow> bool" where
  "actionsOK s \<longleftrightarrow>
     distinct (map (\<lambda>a. workspaceOccurrenceFor (iaRef a)) (ixActions s))
     \<and> distinct (map (\<lambda>a. rActionID (iaRef a)) (ixActions s))
     \<and> (\<forall>a \<in> set (ixActions s). iaRef a = daAction (iaAction a) \<and> refOfMarker (iaMarker a) (iaRef a)
          \<and> iaAction a \<in> set (irActions (iaMarker a))
          \<and> normalizeEffectFacts (daEffectSet (iaAction a)) = Inr (daEffectSet (iaAction a)))"

lemma actionsByCall_None:
  "actionsByCall s k = None \<longleftrightarrow> k \<notin> (\<lambda>a. workspaceOccurrenceFor (iaRef a)) ` set (ixActions s)"
  by (simp add: actionsByCall_def keyed_None)

lemma actionsByID_None: "actionsByID s k = None \<longleftrightarrow> k \<notin> (\<lambda>a. rActionID (iaRef a)) ` set (ixActions s)"
  by (simp add: actionsByID_def keyed_None)

lemma addIndexedAction_Inr:
  assumes "addIndexedAction r s a = Inr s'"
  shows "s' = s \<lparr> ixActions := ixActions s @ [\<lparr> iaRef = daAction a, iaAction = a, iaMarker = r,
      iaResolution = None \<rparr>] \<rparr>"
    "validateWorkspaceDispatchAction a (irWorkspaceID r) (irSessionID r) (irRunID r) (irActionBatchID r) = Inr ()"
    "normalizeEffectFacts (daEffectSet a) = Inr (daEffectSet a)"
    "actionsByCall s (workspaceOccurrenceFor (daAction a)) = None"
    "actionsByID s (rActionID (daAction a)) = None"
  using assms by (auto simp: addIndexedAction_def bindR_eq_Inr split: if_splits)

lemma addIndexedAction_ok:
  assumes "actionsOK s" "addIndexedAction r s a = Inr s'" "a \<in> set (irActions r)"
  shows "actionsOK s'"
proof -
  note A = addIndexedAction_Inr [OF assms(2)]
  show ?thesis
    using assms(1,3) A(3-5) validateWorkspaceDispatchAction_ref [OF A(2)]
    unfolding A(1) by (auto simp: actionsOK_def actionsByCall_None actionsByID_None refOfMarker_def)
qed

lemma addActions_fold:
  assumes "foldR (addIndexedAction r) s as = Inr s'"
  shows "s' = s \<lparr> ixActions := ixActions s @ map (\<lambda>a. \<lparr> iaRef = daAction a, iaAction = a,
    iaMarker = r, iaResolution = None \<rparr>) as \<rparr>"
  using assms
proof (induction as arbitrary: s)
  case Nil
  then show ?case by simp
next
  case (Cons a as)
  then obtain t where t: "addIndexedAction r s a = Inr t" "foldR (addIndexedAction r) t as = Inr s'"
    by (auto split: sum.splits)
  show ?case
    unfolding Cons.IH [OF t(2)] addIndexedAction_Inr(1) [OF t(1)] by simp
qed

lemma addActions_ok:
  assumes "foldR (addIndexedAction r) s as = Inr s'" "actionsOK s" "set as \<subseteq> set (irActions r)"
  shows "actionsOK s'"
  using assms(1,2) by (rule foldR_invariant) (use assms(3) addIndexedAction_ok in blast)

lemma distinct_map_finer:
  "(\<And>x y. f x = f y \<Longrightarrow> g x = g y) \<Longrightarrow> distinct (map g xs) \<Longrightarrow> distinct (map f xs)"
  unfolding distinct_map inj_on_def by blast

lemma actionsByKey_distinct:
  assumes "actionsOK s"
  shows "distinct (map (\<lambda>a. workspaceActionFor (iaRef a)) (ixActions s))"
  by (rule distinct_map_finer [where g = "\<lambda>a. workspaceOccurrenceFor (iaRef a)"])
    (use assms in \<open>simp_all add: actionsOK_def workspaceActionFor_def\<close>)

lemma workspaceActionFor_inj: "workspaceActionFor r = workspaceActionFor r' \<Longrightarrow> r = r'"
  by (cases r; cases r') (simp add: workspaceActionFor_def workspaceOccurrenceFor_def)

section \<open>The state against the rows\<close>

definition rowsShape :: "'h host_scheme \<Rightarrow> string \<Rightarrow> index_record list \<Rightarrow> bool" where
  "rowsShape h w rs \<longleftrightarrow>
     (\<forall>i < length rs. irVersion (rs ! i) = 1 \<and> irWorkspaceID (rs ! i) = w
        \<and> irSeq (rs ! i) = of_nat (i + 1) \<and> (i = 0 \<longrightarrow> isGenesis h w (rs ! i))
        \<and> (i > 0 \<longrightarrow> irKind (rs ! i) = WorkspaceIndexDispatchReady \<or> irKind (rs ! i) = WorkspaceIndexResolution))
     \<and> distinct (map irRecordID rs)"

definition indexInv :: "'h host_scheme \<Rightarrow> string \<Rightarrow> index_record list \<Rightarrow> index_state \<Rightarrow> bool" where
  "indexInv h w rs s \<longleftrightarrow>
     ixRecords s = rs \<and> rowsShape h w rs \<and> actionsOK s
     \<and> (\<forall>a \<in> set (ixActions s). iaMarker a \<in> set rs \<and> irKind (iaMarker a) = WorkspaceIndexDispatchReady)
     \<and> (\<forall>a \<in> set (ixActions s). \<forall>r. iaResolution a = Some r \<longrightarrow>
          r \<in> set rs \<and> irKind r = WorkspaceIndexResolution \<and> irAction r = Some (iaRef a))
     \<and> (\<forall>r \<in> set rs. irKind r = WorkspaceIndexDispatchReady \<longrightarrow>
          map_of (ixBatches s) (batchKeyOf r) = Some r
          \<and> (\<forall>x \<in> set (irActions r). \<exists>a \<in> set (ixActions s). iaAction a = x \<and> iaMarker a = r))
     \<and> (\<forall>k r. map_of (ixBatches s) k = Some r \<longrightarrow>
          r \<in> set rs \<and> irKind r = WorkspaceIndexDispatchReady \<and> batchKeyOf r = k)
     \<and> (\<forall>r \<in> set rs. irKind r = WorkspaceIndexResolution \<longrightarrow>
          (\<exists>a \<in> set (ixActions s). iaResolution a = Some r))"

lemma indexInv_D:
  assumes "indexInv h w rs s"
  shows "ixRecords s = rs" "rowsShape h w rs" "actionsOK s"
    "a \<in> set (ixActions s) \<Longrightarrow> iaMarker a \<in> set rs \<and> irKind (iaMarker a) = WorkspaceIndexDispatchReady"
    "a \<in> set (ixActions s) \<Longrightarrow> iaResolution a = Some r \<Longrightarrow>
       r \<in> set rs \<and> irKind r = WorkspaceIndexResolution \<and> irAction r = Some (iaRef a)"
    "r \<in> set rs \<Longrightarrow> irKind r = WorkspaceIndexDispatchReady \<Longrightarrow> map_of (ixBatches s) (batchKeyOf r) = Some r"
    "r \<in> set rs \<Longrightarrow> irKind r = WorkspaceIndexDispatchReady \<Longrightarrow> x \<in> set (irActions r) \<Longrightarrow>
       \<exists>a \<in> set (ixActions s). iaAction a = x \<and> iaMarker a = r"
    "map_of (ixBatches s) k = Some r \<Longrightarrow>
       r \<in> set rs \<and> irKind r = WorkspaceIndexDispatchReady \<and> batchKeyOf r = k"
    "r \<in> set rs \<Longrightarrow> irKind r = WorkspaceIndexResolution \<Longrightarrow> \<exists>a \<in> set (ixActions s). iaResolution a = Some r"
  using assms unfolding indexInv_def by blast+

lemma addDispatchRecord_Inr:
  assumes "addDispatchRecord h s r = Inr s'"
  shows "s' = s \<lparr> ixActions := ixActions s @ map (\<lambda>a. \<lparr> iaRef = daAction a, iaAction = a,
      iaMarker = r, iaResolution = None \<rparr>) (irActions r), ixBatches := (batchKeyOf r, r) # ixBatches s \<rparr>"
    "foldR (addIndexedAction r) s (irActions r) = Inr (s' \<lparr> ixBatches := ixBatches s \<rparr>)"
    "map_of (ixBatches s) (batchKeyOf r) = None" "irActions r \<noteq> []"
proof -
  from assms obtain t where t: "foldR (addIndexedAction r) s (irActions r) = Inr t"
    "s' = t \<lparr> ixBatches := (batchKeyOf r, r) # ixBatches t \<rparr>" and
    r: "map_of (ixBatches s) (batchKeyOf r) = None" "irActions r \<noteq> []"
    by (auto simp: addDispatchRecord_def bindR_eq_Inr split: if_splits)
  note f = addActions_fold [OF t(1)]
  show "s' = s \<lparr> ixActions := ixActions s @ map (\<lambda>a. \<lparr> iaRef = daAction a, iaAction = a,
      iaMarker = r, iaResolution = None \<rparr>) (irActions r), ixBatches := (batchKeyOf r, r) # ixBatches s \<rparr>"
    unfolding t(2) by (simp add: f)
  show "foldR (addIndexedAction r) s (irActions r) = Inr (s' \<lparr> ixBatches := ixBatches s \<rparr>)"
    unfolding t(2) t(1) by (simp add: f)
  show "map_of (ixBatches s) (batchKeyOf r) = None" "irActions r \<noteq> []" by (fact r)+
qed

lemma addResolutionRecord_Inr:
  assumes "addResolutionRecord h s r = Inr s'"
  obtains ref x indexed where "irAction r = Some ref" "irResolution r = Some x"
    "irRecordID r = workspaceResolutionRecordID h ref"
    "validateWorkspaceResolution ref (irCheckpointID r) (irCheckpointSeq r) x = Inr ()"
    "actionsByKey s (workspaceActionFor ref) = Some indexed" "iaRef indexed = ref"
    "iaResolution indexed = None" "s' = setResolution (workspaceActionFor ref) r s"
  using assms
  by (auto simp: addResolutionRecord_def bindR_eq_Inr split: if_splits option.splits)

section \<open>Every row keeps the invariant\<close>

lemma indexRow_Inr:
  assumes "indexRow h w s r = Inr s'"
  obtains t where "irVersion r = 1" "irWorkspaceID r = w" "irSeq r = of_nat (length (ixRecords s) + 1)"
    "irRecordID r \<notin> irRecordID ` set (ixRecords s)" "s' = t \<lparr> ixRecords := ixRecords s @ [r] \<rparr>"
    "ixRecords s = [] \<Longrightarrow> isGenesis h w r \<and> t = s"
    "ixRecords s \<noteq> [] \<Longrightarrow> (irKind r = WorkspaceIndexDispatchReady \<and> addDispatchRecord h s r = Inr t)
       \<or> (irKind r = WorkspaceIndexResolution \<and> addResolutionRecord h s r = Inr t)"
proof -
  from assms obtain t where c: "irVersion r = 1" "irWorkspaceID r = w"
    "irSeq r = of_nat (length (ixRecords s) + 1)" "irRecordID r \<notin> irRecordID ` set (ixRecords s)"
    and t: "(if ixRecords s = [] then (if isGenesis h w r then Inr s
           else Inl (Fault ''workspace index has an invalid initialization witness''))
        else (case irKind r of
            WorkspaceIndexInitialized \<Rightarrow> Inl (Fault ''workspace index contains a later initialization witness'')
          | WorkspaceIndexDispatchReady \<Rightarrow> addDispatchRecord h s r
          | WorkspaceIndexResolution \<Rightarrow> addResolutionRecord h s r
          | WorkspaceIndexOther k \<Rightarrow> Inl (Fault ''workspace index has unsupported record kind''))) = Inr t"
    and s': "s' = t \<lparr> ixRecords := ixRecords s @ [r] \<rparr>"
    unfolding indexRow_def bindR_eq_Inr by (auto simp: bindR_eq_Inr split: if_splits)
  have 1: "ixRecords s = [] \<Longrightarrow> isGenesis h w r \<and> t = s"
    using t by (simp split: if_splits)
  have 2: "ixRecords s \<noteq> [] \<Longrightarrow> (irKind r = WorkspaceIndexDispatchReady \<and> addDispatchRecord h s r = Inr t)
       \<or> (irKind r = WorkspaceIndexResolution \<and> addResolutionRecord h s r = Inr t)"
    using t by (cases "irKind r") simp_all
  show ?thesis by (rule that [OF c s' 1 2])
qed

lemma rowsShape_snoc:
  assumes "rowsShape h w rs" "irVersion r = 1" "irWorkspaceID r = w" "irSeq r = of_nat (length rs + 1)"
    "irRecordID r \<notin> irRecordID ` set rs"
    "rs = [] \<Longrightarrow> isGenesis h w r"
    "rs \<noteq> [] \<Longrightarrow> irKind r = WorkspaceIndexDispatchReady \<or> irKind r = WorkspaceIndexResolution"
  shows "rowsShape h w (rs @ [r])"
  unfolding rowsShape_def
proof (intro conjI allI impI)
  fix i assume i: "i < length (rs @ [r])"
  then consider "i < length rs" | "i = length rs" by fastforce
  note c = this
  show "irVersion ((rs @ [r]) ! i) = 1" "irWorkspaceID ((rs @ [r]) ! i) = w"
    "irSeq ((rs @ [r]) ! i) = of_nat (i + 1)"
    using c by (cases; use assms in \<open>simp add: rowsShape_def nth_append\<close>)+
  show "isGenesis h w ((rs @ [r]) ! i)" if "i = 0"
    using that assms(1,6) by (cases rs) (auto simp: rowsShape_def)
  show "irKind ((rs @ [r]) ! i) = WorkspaceIndexDispatchReady \<or> irKind ((rs @ [r]) ! i) = WorkspaceIndexResolution"
    if "0 < i"
    using c that by (cases; use assms in \<open>simp add: rowsShape_def nth_append\<close>)
next
  show "distinct (map irRecordID (rs @ [r]))" using assms(1,5) by (simp add: rowsShape_def)
qed

lemma setResolution_actions:
  "ixActions (setResolution k r s) = map (\<lambda>a. if workspaceActionFor (iaRef a) = k
     then a \<lparr> iaResolution := Some r \<rparr> else a) (ixActions s)"
  "ixBatches (setResolution k r s) = ixBatches s" "ixRecords (setResolution k r s) = ixRecords s"
  by (simp_all add: setResolution_def)

lemma actionsOK_setResolution:
  assumes "actionsOK s"
  shows "actionsOK (setResolution k r s)"
proof -
  have m: "map (\<lambda>a. f (iaRef a)) (ixActions (setResolution k r s)) = map (\<lambda>a. f (iaRef a)) (ixActions s)" for f :: "pending_ref \<Rightarrow> 'x"
    by (simp add: setResolution_actions)
  show ?thesis
    using assms unfolding actionsOK_def m by (auto simp: setResolution_actions)
qed

lemma actionsOK_fields:
  "actionsOK (s \<lparr> ixRecords := x \<rparr>) = actionsOK s" "actionsOK (s \<lparr> ixBatches := y \<rparr>) = actionsOK s"
  by (simp_all add: actionsOK_def)

lemma dispatch_ok:
  assumes I: "indexInv h w rs s" and r: "irKind r = WorkspaceIndexDispatchReady"
    and t: "addDispatchRecord h s r = Inr t" and shape: "rowsShape h w (rs @ [r])"
  shows "indexInv h w (rs @ [r]) (t \<lparr> ixRecords := rs @ [r] \<rparr>)"
proof -
  note D = indexInv_D [OF I] and T = addDispatchRecord_Inr [OF t]
  let ?new = "map (\<lambda>a. \<lparr> iaRef = daAction a, iaAction = a, iaMarker = r, iaResolution = None \<rparr>) (irActions r)"
  have acts: "ixActions t = ixActions s @ ?new" and bat: "ixBatches t = (batchKeyOf r, r) # ixBatches s"
    unfolding T(1) by simp_all
  have ok: "actionsOK t"
    using addActions_ok [OF T(2) D(3)] by (simp add: actionsOK_fields)
  have nk: "batchKeyOf r' \<noteq> batchKeyOf r" if "r' \<in> set rs" "irKind r' = WorkspaceIndexDispatchReady" for r'
    using D(6) [OF that] T(3) by auto
  have c1: "iaMarker a \<in> set (rs @ [r]) \<and> irKind (iaMarker a) = WorkspaceIndexDispatchReady"
    if "a \<in> set (ixActions t)" for a
    using that D(4) [of a] r unfolding acts by auto
  have c2: "q \<in> set (rs @ [r]) \<and> irKind q = WorkspaceIndexResolution \<and> irAction q = Some (iaRef a)"
    if "a \<in> set (ixActions t)" "iaResolution a = Some q" for a q
    using that D(5) [of a q] unfolding acts by auto
  have c3: "map_of (ixBatches t) (batchKeyOf q) = Some q"
    if "q \<in> set (rs @ [r])" "irKind q = WorkspaceIndexDispatchReady" for q
    using that nk [of q] D(6) [of q] unfolding bat by auto
  have c4: "\<exists>a \<in> set (ixActions t). iaAction a = x \<and> iaMarker a = q"
    if "q \<in> set (rs @ [r])" "irKind q = WorkspaceIndexDispatchReady" "x \<in> set (irActions q)" for q x
  proof (cases "q \<in> set rs")
    case True
    with D(7) [OF True that(2,3)] show ?thesis unfolding acts by auto
  next
    case False
    with that have "q = r" by simp
    with that(3) show ?thesis unfolding acts
      by (intro bexI [of _ "\<lparr> iaRef = daAction x, iaAction = x, iaMarker = r, iaResolution = None \<rparr>"]) auto
  qed
  have c5: "q \<in> set (rs @ [r]) \<and> irKind q = WorkspaceIndexDispatchReady \<and> batchKeyOf q = k"
    if "map_of (ixBatches t) k = Some q" for k q
    using that D(8) [of k q] r unfolding bat by (auto split: if_splits)
  have c6: "\<exists>a \<in> set (ixActions t). iaResolution a = Some q"
    if "q \<in> set (rs @ [r])" "irKind q = WorkspaceIndexResolution" for q
    using that D(9) [of q] r unfolding acts by auto
  show ?thesis
    unfolding indexInv_def using shape ok c1 c2 c3 c4 c5 c6 by (simp add: actionsOK_fields)
qed

lemma resolution_ok:
  assumes I: "indexInv h w rs s" and r: "irKind r = WorkspaceIndexResolution"
    and t: "addResolutionRecord h s r = Inr t" and shape: "rowsShape h w (rs @ [r])"
  shows "indexInv h w (rs @ [r]) (t \<lparr> ixRecords := rs @ [r] \<rparr>)"
proof -
  note D = indexInv_D [OF I]
  from addResolutionRecord_Inr [OF t] obtain ref x ix where R: "irAction r = Some ref"
    "actionsByKey s (workspaceActionFor ref) = Some ix" "iaRef ix = ref" "iaResolution ix = None"
    "t = setResolution (workspaceActionFor ref) r s" by metis
  have ix: "ix \<in> set (ixActions s)" using R(2) keyed_SomeD(1) by (fastforce simp: actionsByKey_def)
  have only: "a = ix" if "a \<in> set (ixActions s)" "workspaceActionFor (iaRef a) = workspaceActionFor ref" for a
    using actionsByKey_distinct [OF D(3)] that ix R(3) by (auto simp: distinct_map inj_on_def)
  have acts: "ixActions t = map (\<lambda>a. if workspaceActionFor (iaRef a) = workspaceActionFor ref
      then a \<lparr> iaResolution := Some r \<rparr> else a) (ixActions s)"
    and bat: "ixBatches t = ixBatches s"
    unfolding R(5) by (simp_all add: setResolution_actions)
  have ok: "actionsOK t" unfolding R(5) by (rule actionsOK_setResolution [OF D(3)])
  have c1: "iaMarker a \<in> set (rs @ [r]) \<and> irKind (iaMarker a) = WorkspaceIndexDispatchReady"
    if "a \<in> set (ixActions t)" for a
    using that D(4) unfolding acts by (auto split: if_splits)
  have c2: "q \<in> set (rs @ [r]) \<and> irKind q = WorkspaceIndexResolution \<and> irAction q = Some (iaRef a)"
    if a: "a \<in> set (ixActions t)" "iaResolution a = Some q" for a q
  proof -
    from a(1) obtain b where b: "b \<in> set (ixActions s)" "a = (if workspaceActionFor (iaRef b)
        = workspaceActionFor ref then b \<lparr> iaResolution := Some r \<rparr> else b)"
      unfolding acts by auto
    show ?thesis
    proof (cases "workspaceActionFor (iaRef b) = workspaceActionFor ref")
      case True
      with b a(2) R(1,3) r only [OF b(1)] show ?thesis by auto
    next
      case False
      with b a(2) D(5) [of b q] show ?thesis by auto
    qed
  qed
  have c3: "map_of (ixBatches t) (batchKeyOf q) = Some q"
    if "q \<in> set (rs @ [r])" "irKind q = WorkspaceIndexDispatchReady" for q
    using that D(6) r unfolding bat by auto
  have c4: "\<exists>a \<in> set (ixActions t). iaAction a = x' \<and> iaMarker a = q"
    if q: "q \<in> set (rs @ [r])" "irKind q = WorkspaceIndexDispatchReady" "x' \<in> set (irActions q)" for q x'
  proof -
    from q r have "q \<in> set rs" by auto
    from D(7) [OF this q(2,3)] obtain b where "b \<in> set (ixActions s)" "iaAction b = x'" "iaMarker b = q"
      by blast
    then show ?thesis unfolding acts
      by (intro bexI [of _ "if workspaceActionFor (iaRef b) = workspaceActionFor ref
        then b \<lparr> iaResolution := Some r \<rparr> else b"]) auto
  qed
  have c5: "q \<in> set (rs @ [r]) \<and> irKind q = WorkspaceIndexDispatchReady \<and> batchKeyOf q = k"
    if "map_of (ixBatches t) k = Some q" for k q
    using that D(8) [of k q] unfolding bat by auto
  have c6: "\<exists>a \<in> set (ixActions t). iaResolution a = Some q"
    if q: "q \<in> set (rs @ [r])" "irKind q = WorkspaceIndexResolution" for q
  proof (cases "q = r")
    case True
    then show ?thesis unfolding acts
      by (intro bexI [of _ "ix \<lparr> iaResolution := Some r \<rparr>"]) (use ix R(3) in \<open>auto simp: image_iff\<close>)
  next
    case False
    with q D(9) [of q] obtain b where b: "b \<in> set (ixActions s)" "iaResolution b = Some q" by auto
    moreover from b R(4) only [of b] have "workspaceActionFor (iaRef b) \<noteq> workspaceActionFor ref" by auto
    ultimately show ?thesis unfolding acts by (intro bexI [of _ b]) (auto simp: image_iff)
  qed
  show ?thesis
    unfolding indexInv_def using shape ok c1 c2 c3 c4 c5 c6 by (simp add: actionsOK_fields)
qed

lemma indexRow_inv:
  assumes I: "indexInv h w rs s" and step: "indexRow h w s r = Inr s'"
  shows "indexInv h w (rs @ [r]) s'"
proof -
  note D = indexInv_D [OF I]
  from indexRow_Inr [OF step] obtain t where c: "irVersion r = 1" "irWorkspaceID r = w"
    "irSeq r = of_nat (length rs + 1)" "irRecordID r \<notin> irRecordID ` set rs"
    and s': "s' = t \<lparr> ixRecords := rs @ [r] \<rparr>"
    and g: "rs = [] \<Longrightarrow> isGenesis h w r \<and> t = s"
    and k: "rs \<noteq> [] \<Longrightarrow> (irKind r = WorkspaceIndexDispatchReady \<and> addDispatchRecord h s r = Inr t)
       \<or> (irKind r = WorkspaceIndexResolution \<and> addResolutionRecord h s r = Inr t)"
    unfolding D(1) by metis
  have shape: "rowsShape h w (rs @ [r])"
    by (rule rowsShape_snoc [OF D(2) c]) (use g k in blast)+
  show ?thesis
  proof (cases "rs = []")
    case True
    have i: "irKind r = WorkspaceIndexInitialized" using g True by (simp add: isGenesis_def)
    have e: "ixActions s = []" "\<And>k. map_of (ixBatches s) k = None"
      using D(4) D(8) True by (fastforce, metis empty_iff list.set(1) option.exhaust)
    show ?thesis
      unfolding indexInv_def s' using shape D(3) g True i e
      by (simp add: actionsOK_fields)
  next
    case False
    from k [OF False] show ?thesis unfolding s'
      using dispatch_ok [OF I _ _ shape] resolution_ok [OF I _ _ shape] by blast
  qed
qed

lemma validate_inv:
  assumes "validateWorkspaceIndexRecords h rs w = Inr s"
  shows "indexInv h w rs s" "rs \<noteq> []"
proof -
  from assms have f: "foldR (indexRow h w) emptyIndexState rs = Inr s" and ne: "rs \<noteq> []"
    by (auto simp: validateWorkspaceIndexRecords_def split: if_splits)
  from f show "indexInv h w rs s"
  proof (rule foldR_prefix_invariant [where I = "indexInv h w"])
    show "indexInv h w [] emptyIndexState"
      by (simp add: indexInv_def emptyIndexState_def rowsShape_def actionsOK_def)
  qed (rule indexRow_inv)
  show "rs \<noteq> []" by (fact ne)
qed

section \<open>Reading the state\<close>

lemma validate_append:
  assumes "validateWorkspaceIndexRecords h (rs @ rs') w = Inr s'" "rs \<noteq> []"
  shows "\<exists>s. validateWorkspaceIndexRecords h rs w = Inr s"
  using assms by (auto simp: validateWorkspaceIndexRecords_def foldR_append bindR_eq_Inr)

lemma batch_recorded:
  assumes "validateWorkspaceIndexRecords h rs w = Inr s" "r \<in> set rs" "irKind r = WorkspaceIndexDispatchReady"
  shows "map_of (ixBatches s) (batchKeyOf r) = Some r"
  using indexInv_D(6) [OF validate_inv(1) [OF assms(1)] assms(2,3)] .

lemma actionsByCall_Some:
  assumes "actionsOK s"
  shows "actionsByCall s k = Some a \<longleftrightarrow> a \<in> set (ixActions s) \<and> workspaceOccurrenceFor (iaRef a) = k"
proof
  assume "actionsByCall s k = Some a"
  then show "a \<in> set (ixActions s) \<and> workspaceOccurrenceFor (iaRef a) = k"
    using keyed_SomeD unfolding actionsByCall_def by fastforce
next
  assume a: "a \<in> set (ixActions s) \<and> workspaceOccurrenceFor (iaRef a) = k"
  then show "actionsByCall s k = Some a"
    using keyed_distinct [of "\<lambda>a. workspaceOccurrenceFor (iaRef a)" "ixActions s" a] assms
    by (auto simp: actionsByCall_def actionsOK_def)
qed

text \<open>The rows of the file that mention an action.\<close>

definition markedIn :: "index_record list \<Rightarrow> pending_ref \<Rightarrow> bool" where
  "markedIn rs ref \<longleftrightarrow> (\<exists>r \<in> set rs. irKind r = WorkspaceIndexDispatchReady \<and> ref \<in> daAction ` set (irActions r))"

definition resolvedIn :: "index_record list \<Rightarrow> pending_ref \<Rightarrow> bool" where
  "resolvedIn rs ref \<longleftrightarrow> (\<exists>r \<in> set rs. irKind r = WorkspaceIndexResolution \<and> irAction r = Some ref)"

lemma markedIn_iff:
  assumes "indexInv h w rs s"
  shows "markedIn rs ref \<longleftrightarrow> (\<exists>a \<in> set (ixActions s). iaRef a = ref)"
proof
  note D = indexInv_D [OF assms]
  assume "markedIn rs ref"
  then obtain r x where "r \<in> set rs" "irKind r = WorkspaceIndexDispatchReady" "x \<in> set (irActions r)" "daAction x = ref"
    by (auto simp: markedIn_def)
  with D(7) [of r x] D(3) show "\<exists>a \<in> set (ixActions s). iaRef a = ref" by (auto simp: actionsOK_def)
next
  note D = indexInv_D [OF assms]
  assume "\<exists>a \<in> set (ixActions s). iaRef a = ref"
  then obtain a where a: "a \<in> set (ixActions s)" "iaRef a = ref" by blast
  with D(3) have "iaAction a \<in> set (irActions (iaMarker a))" "daAction (iaAction a) = ref"
    by (simp_all add: actionsOK_def)
  with D(4) [OF a(1)] show "markedIn rs ref" unfolding markedIn_def by blast
qed

lemma resolvedIn_iff:
  assumes "indexInv h w rs s"
  shows "resolvedIn rs ref \<longleftrightarrow> (\<exists>a \<in> set (ixActions s). iaRef a = ref \<and> iaResolution a \<noteq> None)"
proof
  note D = indexInv_D [OF assms]
  assume "resolvedIn rs ref"
  then obtain r where r: "r \<in> set rs" "irKind r = WorkspaceIndexResolution" "irAction r = Some ref"
    by (auto simp: resolvedIn_def)
  from D(9) [OF r(1,2)] obtain a where a: "a \<in> set (ixActions s)" "iaResolution a = Some r" by blast
  with D(5) [OF a] r(3) show "\<exists>a \<in> set (ixActions s). iaRef a = ref \<and> iaResolution a \<noteq> None" by auto
next
  note D = indexInv_D [OF assms]
  assume "\<exists>a \<in> set (ixActions s). iaRef a = ref \<and> iaResolution a \<noteq> None"
  then show "resolvedIn rs ref" using D(5) by (fastforce simp: resolvedIn_def)
qed

text \<open>
  The marker state of a reference is decided by the rows: exactly marked and unresolved,
  exactly marked and resolved, or not marked at all under its occurrence, action ID or batch.
\<close>

lemma markerState_present:
  assumes "indexInv h w rs s"
  shows "markerState s ref = DispatchMarkerPresent \<longleftrightarrow> markedIn rs ref \<and> \<not> resolvedIn rs ref"
    and "markerState s ref = DispatchMarkerResolved \<longleftrightarrow> markedIn rs ref \<and> resolvedIn rs ref"
proof -
  note ok = indexInv_D(3) [OF assms]
  note call = actionsByCall_Some [OF ok]
  have key: "markedIn rs ref \<longleftrightarrow> (\<exists>a. actionsByCall s (workspaceOccurrenceFor ref) = Some a \<and> iaRef a = ref)"
    unfolding markedIn_iff [OF assms] call by auto
  have res: "resolvedIn rs ref \<longleftrightarrow> (\<exists>a. actionsByCall s (workspaceOccurrenceFor ref) = Some a \<and> iaRef a = ref
      \<and> iaResolution a \<noteq> None)"
    unfolding resolvedIn_iff [OF assms] call by auto
  show "markerState s ref = DispatchMarkerPresent \<longleftrightarrow> markedIn rs ref \<and> \<not> resolvedIn rs ref"
    unfolding key res markerState_def by (auto split: option.splits)
  show "markerState s ref = DispatchMarkerResolved \<longleftrightarrow> markedIn rs ref \<and> resolvedIn rs ref"
    unfolding key res markerState_def by (auto split: option.splits)
qed

lemma markerState_absent:
  assumes "indexInv h w rs s"
  shows "markerState s ref = DispatchMarkerAbsent \<longleftrightarrow>
    (\<forall>r. markedIn rs r \<longrightarrow> workspaceOccurrenceFor r \<noteq> workspaceOccurrenceFor ref
        \<and> (rActionID ref \<noteq> [] \<longrightarrow> rActionID r \<noteq> rActionID ref))
    \<and> (rActionBatchID ref \<noteq> [] \<longrightarrow> \<not> (\<exists>r \<in> set rs. irKind r = WorkspaceIndexDispatchReady
         \<and> batchKeyOf r = (rSessionID ref, rRunID ref, rActionBatchID ref)))"
proof -
  note D = indexInv_D [OF assms]
  have a: "actionsByCall s (workspaceOccurrenceFor ref) = None \<longleftrightarrow>
      (\<forall>r. markedIn rs r \<longrightarrow> workspaceOccurrenceFor r \<noteq> workspaceOccurrenceFor ref)"
    unfolding markedIn_iff [OF assms] actionsByCall_None by (auto simp: image_iff)
  have b: "actionsByID s (rActionID ref) = None \<longleftrightarrow> (\<forall>r. markedIn rs r \<longrightarrow> rActionID r \<noteq> rActionID ref)"
    unfolding markedIn_iff [OF assms] actionsByID_None by (auto simp: image_iff)
  have c: "map_of (ixBatches s) k = None \<longleftrightarrow>
      \<not> (\<exists>r \<in> set rs. irKind r = WorkspaceIndexDispatchReady \<and> batchKeyOf r = k)" for k
    using D(6) D(8) [of k] by (metis not_None_eq)
  have m: "markerState s ref = DispatchMarkerAbsent \<longleftrightarrow>
      actionsByCall s (workspaceOccurrenceFor ref) = None
      \<and> (rActionID ref \<noteq> [] \<longrightarrow> actionsByID s (rActionID ref) = None)
      \<and> (rActionBatchID ref \<noteq> [] \<longrightarrow>
           map_of (ixBatches s) (rSessionID ref, rRunID ref, rActionBatchID ref) = None)"
    by (cases "actionsByCall s (workspaceOccurrenceFor ref)")
      (auto simp: markerState_def hasConflictingMarkerReference_def)
  show ?thesis unfolding m a b c by blast
qed

lemma hasUnresolvedMarker_iff:
  assumes "indexInv h w rs s"
  shows "hasUnresolvedMarker s \<longleftrightarrow>
    (\<exists>r \<in> set rs. irKind r = WorkspaceIndexDispatchReady \<and> (\<exists>x \<in> set (irActions r).
       \<not> daNonBlockingDelegation x \<and> \<not> resolvedIn rs (daAction x)))"
proof -
  note D = indexInv_D [OF assms]
  have one: "resolvedIn rs (iaRef a) \<longleftrightarrow> iaResolution a \<noteq> None" if a: "a \<in> set (ixActions s)" for a
  proof -
    have "b = a" if "b \<in> set (ixActions s)" "iaRef b = iaRef a" for b
      using actionsByCall_Some [OF D(3)] a that by (metis option.inject)
    then show ?thesis unfolding resolvedIn_iff [OF assms] using a by blast
  qed
  have ref: "iaRef a = daAction (iaAction a)" "iaAction a \<in> set (irActions (iaMarker a))"
    if "a \<in> set (ixActions s)" for a
    using D(3) that by (simp_all add: actionsOK_def)
  show ?thesis
    unfolding hasUnresolvedMarker_def list_ex_iff
  proof
    assume "\<exists>a \<in> set (ixActions s). iaResolution a = None \<and> \<not> daNonBlockingDelegation (iaAction a)"
    then obtain a where a: "a \<in> set (ixActions s)" "iaResolution a = None"
      "\<not> daNonBlockingDelegation (iaAction a)" by blast
    show "\<exists>r \<in> set rs. irKind r = WorkspaceIndexDispatchReady \<and> (\<exists>x \<in> set (irActions r).
       \<not> daNonBlockingDelegation x \<and> \<not> resolvedIn rs (daAction x))"
      by (rule bexI [of _ "iaMarker a"]) (use a D(4) [OF a(1)] ref [OF a(1)] one [OF a(1)] in auto)
  next
    assume "\<exists>r \<in> set rs. irKind r = WorkspaceIndexDispatchReady \<and> (\<exists>x \<in> set (irActions r).
       \<not> daNonBlockingDelegation x \<and> \<not> resolvedIn rs (daAction x))"
    then obtain r x where r: "r \<in> set rs" "irKind r = WorkspaceIndexDispatchReady" "x \<in> set (irActions r)"
      "\<not> daNonBlockingDelegation x" "\<not> resolvedIn rs (daAction x)" by blast
    from D(7) [OF r(1-3)] obtain a where a: "a \<in> set (ixActions s)" "iaAction a = x" by blast
    with r(4,5) ref(1) [OF a(1)] one [OF a(1)]
    show "\<exists>a \<in> set (ixActions s). iaResolution a = None \<and> \<not> daNonBlockingDelegation (iaAction a)" by auto
  qed
qed

end
