(* ===== verification/WorkspaceOps.thy ===== *)
theory WorkspaceOps
  imports WorkspaceIndex
begin

text \<open>
  The operations of the workspace quarantine index: \<open>EnsureWorkspace\<close>, the dispatch permit
  \<open>BeginDispatchBatch\<close>, \<open>ApplyDurableResolutions\<close> and \<open>InspectDispatchMarkers\<close>, each run
  under the workspace lock against the rows of the file.
\<close>

section \<open>Normalising a batch\<close>

text \<open>The loop over the actions; the two lists are the call IDs and action IDs seen.\<close>

fun normalizeActions ::
  "'h host_scheme \<Rightarrow> fences \<Rightarrow> nat list \<Rightarrow> dispatch_batch \<Rightarrow> string list \<Rightarrow> string list
     \<Rightarrow> dispatch_action list \<Rightarrow> go_error + dispatch_action list" where
  "normalizeActions h fences claimed b calls ids [] = Inr []"
| "normalizeActions h fences claimed b calls ids (a # as) =
     bindR (validateWorkspaceDispatchAction a (dbWorkspaceID b) (dbSessionID b) (dbRunID b)
              (dbActionBatchID b)) (\<lambda>_.
     if rToolCallID (daAction a) \<in> set calls then Inl (Fault ''dispatch batch repeats tool-call ID'')
     else if rActionID (daAction a) \<in> set ids then Inl (Fault ''dispatch batch repeats action ID'')
     else bindR (normalizeEffectFacts (daEffectSet a)) (\<lambda>effects.
       if daNonBlockingDelegation a
         then Inl (Fault ''delegation facts require a fresh prepared proof'')
       else bindR
         (case daManagedDelegationProof a of
            None \<Rightarrow> Inr (a \<lparr> daEffectSet := effects \<rparr>)
          | Some p \<Rightarrow>
              (case daToolIdentity a of
                 None \<Rightarrow> Inl (Fault ''invalid managed delegation proof'')
               | Some identity \<Rightarrow>
                   if \<not> delegationMatchesWorkspaceAction (hResolveSymlinks h) fences claimed p identity
                          effects (rToolCallID (daAction a)) (dbCanonicalWorkspaceRoot b)
                     then Inl (Fault ''invalid managed delegation proof'')
                   else Inr (a \<lparr> daNonBlockingDelegation := True, daEffectSet := effects \<rparr>)))
         (\<lambda>a'. bindR (normalizeActions h fences claimed b (rToolCallID (daAction a) # calls)
                  (rActionID (daAction a) # ids) as) (\<lambda>as'. Inr (a' # as')))))"

definition normalizeWorkspaceDispatchBatch ::
  "'h host_scheme \<Rightarrow> fences \<Rightarrow> nat list \<Rightarrow> dispatch_batch \<Rightarrow> go_error + dispatch_batch" where
  "normalizeWorkspaceDispatchBatch h fences claimed b =
     bindR (validateWorkspaceRecordIdentityParts [dbWorkspaceID b, dbSessionID b, dbRunID b,
              dbActionBatchID b]) (\<lambda>_.
     if \<not> validWorkspaceID (dbWorkspaceID b) \<or> dbSessionID b = [] \<or> dbRunID b = [] \<or> dbActionBatchID b = []
       then Inl (Fault ''workspace dispatch batch has incomplete identity'')
     else if dbActions b = [] \<or> length (dbActions b) > maxWorkspaceIndexActions
       then Inl (Fault ''workspace dispatch batch has a bad number of actions'')
     else bindR (normalizeActions h fences claimed b [] [] (dbActions b)) (\<lambda>actions.
       Inr (b \<lparr> dbActions := actions \<rparr>)))"

definition stripWorkspaceDispatchRuntime :: "dispatch_batch \<Rightarrow> dispatch_batch" where
  "stripWorkspaceDispatchRuntime b = b \<lparr> dbCanonicalWorkspaceRoot := [],
     dbActions := map (\<lambda>a. a \<lparr> daScopedReadProof := None, daManagedDelegationProof := None \<rparr>)
       (dbActions b) \<rparr>"

section \<open>Scoped read proofs of a batch\<close>

definition actionReadProofMatches ::
  "'h host_scheme \<Rightarrow> fences \<Rightarrow> nat list \<Rightarrow> dispatch_batch \<Rightarrow> dispatch_action \<Rightarrow> bool" where
  "actionReadProofMatches h fences claimed b a =
     (case daScopedReadProof a of
        None \<Rightarrow> True
      | Some p \<Rightarrow>
          (case daToolIdentity a of
             None \<Rightarrow> False
           | Some identity \<Rightarrow> readMatchesWorkspaceAction (hResolveSymlinks h) fences claimed p identity
               (daEffectSet a) (rToolCallID (daAction a)) (dbCanonicalWorkspaceRoot b)))"

definition workspaceDispatchBatchHasScopedReadProofs ::
  "'h host_scheme \<Rightarrow> fences \<Rightarrow> nat list \<Rightarrow> dispatch_batch \<Rightarrow> bool \<Rightarrow> bool" where
  "workspaceDispatchBatchHasScopedReadProofs h fences claimed b requireAll =
     (if dbActions b = [] then False
      else if requireAll \<and> list_ex (\<lambda>a. daScopedReadProof a = None) (dbActions b) then False
      else if \<not> list_ex (\<lambda>a. daScopedReadProof a \<noteq> None) (dbActions b) then \<not> requireAll
      else if dbCanonicalWorkspaceRoot b = [] then False
      else if WorkspaceIDForCanonicalRoot h (dbCanonicalWorkspaceRoot b) \<noteq> Inr (dbWorkspaceID b) then False
      else list_all (actionReadProofMatches h fences claimed b) (dbActions b))"

text \<open>The claims made before a failing one are not undone.\<close>

fun claimReadProofs ::
  "'h host_scheme \<Rightarrow> fences \<Rightarrow> dispatch_batch \<Rightarrow> nat list \<Rightarrow> dispatch_action list \<Rightarrow> bool \<times> nat list" where
  "claimReadProofs h fences b claimed [] = (True, claimed)"
| "claimReadProofs h fences b claimed (a # as) =
     (case daScopedReadProof a of
        None \<Rightarrow> claimReadProofs h fences b claimed as
      | Some p \<Rightarrow>
          (case daToolIdentity a of
             None \<Rightarrow> (False, claimed)
           | Some identity \<Rightarrow>
               (case readClaimWorkspaceAdmission (hResolveSymlinks h) fences claimed p identity
                       (daEffectSet a) (rToolCallID (daAction a)) (dbCanonicalWorkspaceRoot b) of
                  (False, claimed') \<Rightarrow> (False, claimed')
                | (True, claimed') \<Rightarrow> claimReadProofs h fences b claimed' as)))"

fun claimDelegations ::
  "'h host_scheme \<Rightarrow> fences \<Rightarrow> dispatch_batch \<Rightarrow> nat list \<Rightarrow> dispatch_action list \<Rightarrow> bool \<times> nat list" where
  "claimDelegations h fences b claimed [] = (True, claimed)"
| "claimDelegations h fences b claimed (a # as) =
     (case daManagedDelegationProof a of
        None \<Rightarrow> claimDelegations h fences b claimed as
      | Some p \<Rightarrow>
          (case daToolIdentity a of
             None \<Rightarrow> (False, claimed)
           | Some identity \<Rightarrow>
               (case delegationClaimWorkspaceAdmission (hResolveSymlinks h) fences claimed p identity
                       (daEffectSet a) (rToolCallID (daAction a)) (dbCanonicalWorkspaceRoot b) of
                  (False, claimed') \<Rightarrow> (False, claimed')
                | (True, claimed') \<Rightarrow> claimDelegations h fences b claimed' as)))"

definition claimWorkspaceDispatchReadProofs ::
  "'h host_scheme \<Rightarrow> fences \<Rightarrow> dispatch_batch \<Rightarrow> nat list \<Rightarrow> bool \<times> nat list" where
  "claimWorkspaceDispatchReadProofs h fences b claimed =
     (if \<not> workspaceDispatchBatchHasScopedReadProofs h fences claimed b False then (False, claimed)
      else claimReadProofs h fences b claimed (dbActions b))"

section \<open>BeginDispatchBatch\<close>

datatype dispatch_result =
    WorkspaceDispatchNotCommitted | WorkspaceDispatchCommittedNow | WorkspaceDispatchAlreadyExists

text \<open>
  \<open>AdmitDenied\<close> is the return of \<open>ErrWorkspaceQuarantined\<close> after setting
  \<open>deniedBeforeAppend\<close>.
\<close>

datatype admit_outcome = AdmitCommitted | AdmitExists | AdmitDenied

definition dispatchRecord :: "'h host_scheme \<Rightarrow> dispatch_batch \<Rightarrow> index_record" where
  "dispatchRecord h b = emptyRecord \<lparr> irVersion := 1, irRecordID := workspaceDispatchRecordID h b,
     irKind := WorkspaceIndexDispatchReady, irWorkspaceID := dbWorkspaceID b,
     irSessionID := dbSessionID b, irRunID := dbRunID b, irActionBatchID := dbActionBatchID b,
     irActions := dbActions b \<rparr>"

definition claimAdmission ::
  "'h host_scheme \<Rightarrow> dispatch_batch \<Rightarrow> ('z index_world_scheme, unit) op" where
  "claimAdmission h b w =
     (case claimWorkspaceDispatchReadProofs h (iwFences w) b (iwClaimed w) of
        (False, c) \<Rightarrow> (Inl ErrWorkspaceQuarantined, w \<lparr> iwClaimed := c \<rparr>)
      | (True, c) \<Rightarrow>
          (case claimDelegations h (iwFences w) b c (dbActions b) of
             (False, c') \<Rightarrow> (Inl ErrWorkspaceQuarantined, w \<lparr> iwClaimed := c' \<rparr>)
           | (True, c') \<Rightarrow> (Inr (), w \<lparr> iwClaimed := c' \<rparr>)))"

definition admitBatch ::
  "'h host_scheme \<Rightarrow> dispatch_batch \<Rightarrow> dispatch_batch \<Rightarrow> index_state
     \<Rightarrow> ('z index_world_scheme, admit_outcome) op" where
  "admitBatch h b persisted s =
     bindS (ioStep (Fault ''confirm workspace index durability before admission'')) (\<lambda>_.
     bindS contextErr (\<lambda>_ w.
       case map_of (ixBatches s) (dbSessionID b, dbRunID b, dbActionBatchID b) of
         Some existing \<Rightarrow>
           if irWorkspaceID existing \<noteq> dbWorkspaceID persisted \<or> irActions existing \<noteq> dbActions persisted
             then (Inl (Fault ''batch ID was reused with different action references''), w)
           else (Inr AdmitExists, w)
       | None \<Rightarrow>
           if list_ex (\<lambda>a. actionsByCall s (workspaceOccurrenceFor (daAction a)) \<noteq> None
                 \<or> actionsByID s (rActionID (daAction a)) \<noteq> None) (dbActions b)
             then (Inl (Fault ''occurrence or action ID already has a dispatch marker''), w)
           else if hasUnresolvedMarker s
                   \<and> \<not> workspaceDispatchBatchHasScopedReadProofs h (iwFences w) (iwClaimed w) b True
             then (Inr AdmitDenied, w)
           else bindS (claimAdmission h b) (\<lambda>_.
                bindS contextErr (\<lambda>_.
                bindS (appendRecords h (dbWorkspaceID b) s [dispatchRecord h persisted]) (\<lambda>_.
                okS AdmitCommitted))) w))"

text \<open>The result, the no-I/O denial flag, and the error of one call.\<close>

definition beginDispatchBatch ::
  "'h host_scheme \<Rightarrow> dispatch_batch \<Rightarrow> 'z index_world_scheme
     \<Rightarrow> (dispatch_result \<times> bool \<times> go_error option) \<times> 'z index_world_scheme" where
  "beginDispatchBatch h batch w =
     (case contextErr w of
        (Inl e, w0) \<Rightarrow> ((WorkspaceDispatchNotCommitted, False, Some e), w0)
      | (Inr _, w0) \<Rightarrow>
          (case normalizeWorkspaceDispatchBatch h (iwFences w0) (iwClaimed w0) batch of
             Inl e \<Rightarrow> ((WorkspaceDispatchNotCommitted, False, Some e), w0)
           | Inr b \<Rightarrow>
               (case withLockedIndexObserved h (dbWorkspaceID b)
                       (admitBatch h b (stripWorkspaceDispatchRuntime b)) w0 of
                  ((cleanup, Inl e), w1) \<Rightarrow> ((WorkspaceDispatchNotCommitted, False, Some e), w1)
                | ((cleanup, Inr AdmitDenied), w1) \<Rightarrow>
                    if cleanup
                      then ((WorkspaceDispatchNotCommitted, False, Some ErrWorkspaceQuarantined), w1)
                    else (case contextErr w1 of
                        (Inl _, w2) \<Rightarrow> ((WorkspaceDispatchNotCommitted, False, Some ErrWorkspaceQuarantined), w2)
                      | (Inr _, w2) \<Rightarrow> ((WorkspaceDispatchNotCommitted, True, Some ErrWorkspaceQuarantined), w2))
                | ((cleanup, Inr outcome), w1) \<Rightarrow>
                    if cleanup then ((WorkspaceDispatchNotCommitted, False, Some ErrIO), w1)
                    else ((if outcome = AdmitExists then WorkspaceDispatchAlreadyExists
                           else WorkspaceDispatchCommittedNow, False, None), w1))))"

definition BeginDispatchBatch ::
  "'h host_scheme \<Rightarrow> dispatch_batch \<Rightarrow> 'z index_world_scheme
     \<Rightarrow> (dispatch_result \<times> go_error option) \<times> 'z index_world_scheme" where
  "BeginDispatchBatch h batch w =
     (case beginDispatchBatch h batch w of ((result, _, err), w') \<Rightarrow> ((result, err), w'))"

section \<open>ApplyDurableResolutions\<close>

definition resolutionRecord :: "'h host_scheme \<Rightarrow> validated_resolution \<Rightarrow> index_record" where
  "resolutionRecord h v = emptyRecord \<lparr> irVersion := 1,
     irRecordID := workspaceResolutionRecordID h (vrAction v), irKind := WorkspaceIndexResolution,
     irWorkspaceID := rWorkspaceID (vrAction v), irAction := Some (vrAction v),
     irCheckpointID := vrCheckpointEntryID v, irCheckpointSeq := vrCheckpointSeq v,
     irResolution := Some (vrResolution v) \<rparr>"

definition sameWorkspaceResolution :: "index_record \<Rightarrow> index_record \<Rightarrow> bool" where
  "sameWorkspaceResolution existing candidate \<longleftrightarrow>
     irKind existing = irKind candidate \<and> irWorkspaceID existing = irWorkspaceID candidate
     \<and> irRecordID existing = irRecordID candidate \<and> irAction existing \<noteq> None
     \<and> irAction existing = irAction candidate \<and> irCheckpointID existing = irCheckpointID candidate
     \<and> irCheckpointSeq existing = irCheckpointSeq candidate \<and> irResolution existing \<noteq> None
     \<and> irResolution existing = irResolution candidate"

text \<open>The loop's result: the new records and whether an existing one must be synced again.\<close>

definition collectResolution ::
  "'h host_scheme \<Rightarrow> index_state \<Rightarrow> index_record list \<times> bool \<Rightarrow> validated_resolution
     \<Rightarrow> go_error + index_record list \<times> bool" where
  "collectResolution h s acc v =
     (case actionsByKey s (workspaceActionFor (vrAction v)) of
        None \<Rightarrow>
          if hasConflictingMarkerReference s (vrAction v)
            then Inl (Fault ''execution resolution is covered by a mismatched global marker'')
          else if erEvidence (vrResolution v) \<noteq> ResolutionNeverDispatched
            then Inl (Fault ''execution resolution has no matching global dispatch marker'')
          else Inr acc
      | Some indexed \<Rightarrow>
          if iaRef indexed \<noteq> vrAction v
            then Inl (Fault ''action reference differs from global marker'')
          else (case iaResolution indexed of
              Some existing \<Rightarrow>
                if \<not> sameWorkspaceResolution existing (resolutionRecord h v)
                  then Inl (Fault ''conflicting global execution resolution for action'')
                else Inr (fst acc, True)
            | None \<Rightarrow> Inr (fst acc @ [resolutionRecord h v], snd acc)))"

definition applyResolutions ::
  "'h host_scheme \<Rightarrow> string \<Rightarrow> validated_resolution list \<Rightarrow> index_state \<Rightarrow> ('z index_world_scheme, unit) op" where
  "applyResolutions h wid resolutions s =
     bindS (liftR (foldR (collectResolution h s) ([], False) resolutions)) (\<lambda>acc.
       if fst acc \<noteq> [] then appendRecords h wid s (fst acc)
       else if snd acc then ioStep (Fault ''confirm existing workspace resolution sync'')
       else okS ())"

definition groupResolution ::
  "workspace_action_key list \<Rightarrow> validated_resolution \<Rightarrow> go_error + workspace_action_key list" where
  "groupResolution seen v =
     bindR (validateWorkspaceResolution (vrAction v) (vrCheckpointEntryID v) (vrCheckpointSeq v)
              (vrResolution v)) (\<lambda>_.
     if workspaceActionFor (vrAction v) \<in> set seen
       then Inl (Fault ''duplicate execution resolution action'')
     else Inr (workspaceActionFor (vrAction v) # seen))"

definition groupValidatedResolutions ::
  "validated_resolution list \<Rightarrow> go_error + (string \<times> validated_resolution list) list" where
  "groupValidatedResolutions resolutions =
     bindR (foldR groupResolution [] resolutions) (\<lambda>_.
       Inr (map (\<lambda>w. (w, filter (\<lambda>v. rWorkspaceID (vrAction v) = w) resolutions))
         (sort (remdups (map (\<lambda>v. rWorkspaceID (vrAction v)) resolutions)))))"

fun applyGroups ::
  "'h host_scheme \<Rightarrow> (string \<times> validated_resolution list) list \<Rightarrow> ('z index_world_scheme, unit) op" where
  "applyGroups h [] = okS ()"
| "applyGroups h ((wid, part) # gs) =
     bindS (withLockedIndex h wid (\<lambda>s. bindS contextErr (\<lambda>_. applyResolutions h wid part s)))
       (\<lambda>_. applyGroups h gs)"

definition ApplyDurableResolutions ::
  "'h host_scheme \<Rightarrow> validated_resolution list \<Rightarrow> ('z index_world_scheme, unit) op" where
  "ApplyDurableResolutions h resolutions =
     bindS contextErr (\<lambda>_.
       if resolutions = [] then okS ()
       else bindS (liftR (groupValidatedResolutions resolutions)) (applyGroups h))"

section \<open>InspectDispatchMarkers\<close>

definition checkInspectRef ::
  "workspace_occurrence_key list \<Rightarrow> pending_ref \<Rightarrow> go_error + workspace_occurrence_key list" where
  "checkInspectRef seen ref =
     bindR (validatePendingRef ref) (\<lambda>_.
     bindR (validateWorkspaceRecordIdentityParts [rWorkspaceID ref, rSessionID ref, rRunID ref,
              rActionBatchID ref, rActionID ref]) (\<lambda>_.
     if \<not> validWorkspaceID (rWorkspaceID ref) then Inl (Fault ''invalid workspace ID in recovery action'')
     else if workspaceOccurrenceFor ref \<in> set seen
       then Inl (Fault ''duplicate recovery action occurrence'')
     else Inr (workspaceOccurrenceFor ref # seen)))"

text \<open>The zero value of \<open>PendingActionDecision\<close>; its marker state is no declared constant.\<close>

definition zeroDecision :: pending_decision where
  "zeroDecision = \<lparr> pdAction = emptyRef, pdMarkerState = DispatchMarkerInvalid 0 \<rparr>"

definition decide :: "index_state \<Rightarrow> pending_decision list \<Rightarrow> nat \<times> pending_ref \<Rightarrow> pending_decision list" where
  "decide s ds p = ds[fst p := \<lparr> pdAction = snd p, pdMarkerState = markerState s (snd p) \<rparr>]"

fun inspectGroups ::
  "'h host_scheme \<Rightarrow> (string \<times> (nat \<times> pending_ref) list) list \<Rightarrow> pending_decision list
     \<Rightarrow> ('z index_world_scheme, pending_decision list) op" where
  "inspectGroups h [] ds = okS ds"
| "inspectGroups h ((wid, part) # gs) ds =
     bindS (withLockedIndex h wid (\<lambda>s.
         bindS (ioStep (Fault ''confirm workspace index durability before inspection'')) (\<lambda>_.
         bindS contextErr (\<lambda>_. okS (foldl (decide s) ds part)))))
       (\<lambda>ds'. inspectGroups h gs ds')"

definition inspectGroupsOf :: "pending_ref list \<Rightarrow> (string \<times> (nat \<times> pending_ref) list) list" where
  "inspectGroupsOf refs =
     map (\<lambda>w. (w, filter (\<lambda>p. rWorkspaceID (snd p) = w) (enumerate 0 refs)))
       (sort (remdups (map rWorkspaceID refs)))"

definition InspectDispatchMarkers ::
  "'h host_scheme \<Rightarrow> pending_ref list \<Rightarrow> ('z index_world_scheme, pending_decision list) op" where
  "InspectDispatchMarkers h refs =
     bindS contextErr (\<lambda>_.
       if refs = [] then okS []
       else bindS (liftR (foldR checkInspectRef [] refs)) (\<lambda>_.
         inspectGroups h (inspectGroupsOf refs) (replicate (length refs) zeroDecision)))"

section \<open>EnsureWorkspace\<close>

definition genesisRecord :: "'h host_scheme \<Rightarrow> string \<Rightarrow> index_record" where
  "genesisRecord h wid = emptyRecord \<lparr> irVersion := 1, irSeq := 1,
     irRecordID := workspaceGenesisRecordID h wid, irKind := WorkspaceIndexInitialized,
     irWorkspaceID := wid \<rparr>"

text \<open>
  Creating the lock is not undone when syncing it fails, so a later call sees a lock
  without an index and fails closed. A lock that exists is opened as it is.
\<close>

definition newLockFile :: "string \<Rightarrow> ('z index_world_scheme, unit) op" where
  "newLockFile wid =
     bindS (ioStep ErrWorkspaceIndexUnavailable) (\<lambda>_ w.
       bindS (ioStep ErrWorkspaceIndexUnavailable) (\<lambda>_. ioStep ErrWorkspaceIndexUnavailable)
         (w \<lparr> iwLocks := wid # iwLocks w \<rparr>))"

definition createWorkspaceLock :: "string \<Rightarrow> ('z index_world_scheme, bool) op" where
  "createWorkspaceLock wid w =
     (let created = wid \<notin> set (iwLocks w) in
      bindS (if created then newLockFile wid else okS ())
        (\<lambda>_. bindS (ioStep ErrWorkspaceIndexUnavailable) (\<lambda>_. okS created)) w)"

text \<open>
  The temporary file is written, synced and closed, then renamed; only the rename makes the
  index visible, and a failure to sync the directory afterwards does not remove it.
\<close>

definition createInitialWorkspaceIndex ::
  "'h host_scheme \<Rightarrow> string \<Rightarrow> ('z index_world_scheme, unit) op" where
  "createInitialWorkspaceIndex h wid =
     (if hIndexRowBytes h (genesisRecord h wid) > maxDurableJSONLineBytes
        then failS (Fault ''workspace index row exceeds the line limit'')
      else bindS (ioStep (Fault ''write workspace index temp file'')) (\<lambda>_.
           bindS (ioStep (Fault ''rename workspace index'')) (\<lambda>_ w.
             ioStep (Fault ''sync workspace directory'') (writeIndexFile wid [genesisRecord h wid] w))))"

text \<open>The index is read back, and its file closed after the last context check.\<close>

definition confirmWorkspaceIndex :: "'h host_scheme \<Rightarrow> string \<Rightarrow> ('z index_world_scheme, unit) op" where
  "confirmWorkspaceIndex h wid = bindS (readLockedIndex h wid) (\<lambda>_. closeAfter contextErr)"

definition prepareWorkspaceIndex ::
  "'h host_scheme \<Rightarrow> string \<Rightarrow> bool \<Rightarrow> ('z index_world_scheme, unit) op" where
  "prepareWorkspaceIndex h wid createdLock =
     bindS contextErr (\<lambda>_.
     bindS (ioStep ErrWorkspaceIndexUnavailable) (\<lambda>_ w.
       (if indexFile w wid = None then
          (if \<not> createdLock then failS ErrWorkspaceIndexUnavailable w
           else (case createInitialWorkspaceIndex h wid w of
               (Inl _, w') \<Rightarrow> (Inl ErrWorkspaceIndexUnavailable, w')
             | (Inr _, w') \<Rightarrow> confirmWorkspaceIndex h wid w'))
        else if createdLock then failS ErrWorkspaceIndexUnavailable w
        else confirmWorkspaceIndex h wid w)))"

definition ensureInDirectory :: "'h host_scheme \<Rightarrow> string \<Rightarrow> ('z index_world_scheme, unit) op" where
  "ensureInDirectory h wid =
     bindS (ioStep ErrWorkspaceIndexUnavailable) (\<lambda>_ w.
       if wid \<notin> set (iwLocks w) \<and> indexFile w wid \<noteq> None then (Inl ErrWorkspaceIndexUnavailable, w)
       else bindS (createWorkspaceLock wid) (\<lambda>created. closeAfter (prepareWorkspaceIndex h wid created)) w)"

definition EnsureWorkspace :: "'h host_scheme \<Rightarrow> string \<Rightarrow> ('z index_world_scheme, unit) op" where
  "EnsureWorkspace h wid =
     bindS contextErr (\<lambda>_ w.
       if iwRoot w = [] then (Inl ErrWorkspaceIndexUnavailable, w)
       else if \<not> validWorkspaceID wid then (Inl (Fault ''invalid workspace ID''), w)
       else bindS (ioStep (Fault ''prepare workspace index directory''))
         (\<lambda>_. ensureInDirectory h wid) w)"

end
