(* ===== verification/WorkspaceOpsFacts.thy ===== *)
theory WorkspaceOpsFacts
  imports WorkspaceIndexFacts WorkspaceOps
begin

text \<open>
  The effect of the index operations on the files. Every operation only appends rows
  (\<open>filesGrow\<close>); a permit means exactly one new dispatch-ready row; the states reachable by
  any sequence of operations are those of \<open>indexStep\<close>.
\<close>

section \<open>Files only grow\<close>

definition filesGrow :: "'z index_world_scheme \<Rightarrow> 'z index_world_scheme \<Rightarrow> bool" where
  "filesGrow w w' \<longleftrightarrow>
     (\<forall>wid rows. indexFile w wid = Some rows \<longrightarrow> (\<exists>rows'. indexFile w' wid = Some (rows @ rows')))"

lemma filesGrow_refl [simp]: "filesGrow w w"
  by (auto simp: filesGrow_def intro: exI [of _ "[]"])

lemma filesGrow_trans:
  assumes "filesGrow a b" "filesGrow b c"
  shows "filesGrow a c"
  unfolding filesGrow_def
proof (intro allI impI)
  fix wid rows assume "indexFile a wid = Some rows"
  with assms(1) obtain x where "indexFile b wid = Some (rows @ x)" unfolding filesGrow_def by blast
  with assms(2) obtain y where "indexFile c wid = Some ((rows @ x) @ y)" unfolding filesGrow_def by blast
  then show "\<exists>rows'. indexFile c wid = Some (rows @ rows')" by auto
qed

lemma sameBut_fields:
  assumes "sameBut w w'"
  shows "iwFiles w' = iwFiles w" "iwLocks w' = iwLocks w" "iwClaimed w' = iwClaimed w"
    "iwFences w' = iwFences w" "iwRoot w' = iwRoot w"
  using assms by (cases w; cases w'; simp add: sameBut_def)+

lemma sameBut_file: "sameBut w w' \<Longrightarrow> indexFile w' wid = indexFile w wid"
  by (simp add: indexFile_def sameBut_fields)

lemma sameBut_grow: "sameBut w w' \<Longrightarrow> filesGrow w w'"
  unfolding filesGrow_def using sameBut_file by (metis append_Nil2)

lemma keepsS_mono: "keepsS R m \<Longrightarrow> (\<And>s t. R s t \<Longrightarrow> S s t) \<Longrightarrow> keepsS S m"
  by (simp add: keepsS_def)

lemma keepsS_ok: "(\<And>s. R s s) \<Longrightarrow> keepsS R (okS x)"
  and keepsS_fail: "(\<And>s. R s s) \<Longrightarrow> keepsS R (failS e)"
  and keepsS_lift: "(\<And>s. R s s) \<Longrightarrow> keepsS R (liftR r)"
  by (simp_all add: keepsS_def)

lemma grow_bind:
  assumes "keepsS filesGrow m" "\<And>x. keepsS filesGrow (f x)"
  shows "keepsS filesGrow (bindS m f)"
  by (rule keepsS_bind [OF _ assms]) (rule filesGrow_trans)

lemma grow_basic [journal_intro]:
  "keepsS filesGrow contextErr" "keepsS filesGrow (ioStep err)"
  "keepsS filesGrow (okS x)" "keepsS filesGrow (failS e)" "keepsS filesGrow (liftR r)"
  by (rule keepsS_mono [OF contextErr_same sameBut_grow] keepsS_mono [OF ioStep_same sameBut_grow]
      keepsS_ok keepsS_fail keepsS_lift filesGrow_refl; assumption?)+

lemma contextErr_run: "contextErr w = (r, w') \<Longrightarrow> sameBut w w'"
  by (rule keepsS_D [OF contextErr_same])

lemma ioStep_run: "ioStep err w = (r, w') \<Longrightarrow> sameBut w w'"
  by (rule keepsS_D [OF ioStep_same])

lemma appendRows_run:
  assumes "appendRows wid rows w = (r, w')"
  shows "iwClaimed w' = iwClaimed w" "iwLocks w' = iwLocks w"
    "\<exists>n. indexFile w' wid = Some ((case indexFile w wid of None \<Rightarrow> [] | Some rs \<Rightarrow> rs) @ take n rows)
       \<and> (r = Inr () \<longrightarrow> take n rows = rows)"
    "wid' \<noteq> wid \<Longrightarrow> indexFile w' wid' = indexFile w wid'"
proof -
  obtain x w1 where t: "takeIO w = (x, w1)" by force
  note s = takeIO_same [OF t]
  have "\<exists>n. w' = writeIndexFile wid ((case indexFile w wid of None \<Rightarrow> [] | Some rs \<Rightarrow> rs) @ take n rows) w1
      \<and> (r = Inr () \<longrightarrow> take n rows = rows)"
  proof (cases x)
    case IoOk
    with assms t show ?thesis by (auto simp: appendRows_def Let_def intro: exI [of _ "length rows"])
  next
    case (IoFail n)
    with assms t show ?thesis by (auto simp: appendRows_def Let_def)
  qed
  then obtain n where n: "w' = writeIndexFile wid ((case indexFile w wid of None \<Rightarrow> [] | Some rs \<Rightarrow> rs) @ take n rows) w1"
    "r = Inr () \<longrightarrow> take n rows = rows" by blast
  show "iwClaimed w' = iwClaimed w" "iwLocks w' = iwLocks w"
    using n(1) sameBut_fields [OF s] by (simp_all add: writeIndexFile_def)
  show "\<exists>n. indexFile w' wid = Some ((case indexFile w wid of None \<Rightarrow> [] | Some rs \<Rightarrow> rs) @ take n rows)
       \<and> (r = Inr () \<longrightarrow> take n rows = rows)"
    using n by (intro exI [of _ n]) (simp add: writeIndexFile_def indexFile_def)
  show "wid' \<noteq> wid \<Longrightarrow> indexFile w' wid' = indexFile w wid'"
    using n(1) sameBut_file [OF s] by (simp add: writeIndexFile_def indexFile_def)
qed

lemma appendRows_grow [journal_intro]: "keepsS filesGrow (appendRows wid rows)"
  unfolding keepsS_def filesGrow_def
proof (intro allI impI)
  fix w wid' rs assume f: "indexFile w wid' = Some rs"
  obtain r w' where a: "appendRows wid rows w = (r, w')" by force
  show "\<exists>rows'. indexFile (snd (appendRows wid rows w)) wid' = Some (rs @ rows')"
    using appendRows_run(3,4) [OF a] f a by (cases "wid' = wid") auto
qed

lemma appendRecords_grow [journal_intro]: "keepsS filesGrow (appendRecords h wid s records)"
proof -
  have "keepsS filesGrow (case validateWorkspaceIndexRecords h rs w of
      Inl e \<Rightarrow> failS (Fault ''reject invalid workspace index append'')
    | Inr _ \<Rightarrow> bindS (appendRows wid numbered) (\<lambda>_. ioStep (Fault ''sync workspace index'')))" for rs w numbered
    by (cases "validateWorkspaceIndexRecords h rs w") (auto intro!: grow_bind journal_intro)
  then show ?thesis
    unfolding appendRecords_def by (auto intro!: grow_bind journal_intro)
qed

lemma readLockedIndex_same: "keepsS sameBut (readLockedIndex h wid)"
  unfolding readLockedIndex_def
  by (rule keepsS_bind [OF sameBut_trans ioStep_same])
    (auto simp: keepsS_def split: option.splits sum.splits)

lemma readLockedIndex_Inr:
  assumes "readLockedIndex h wid w = (Inr s, w')"
  obtains rows where "indexFile w wid = Some rows" "validateWorkspaceIndexRecords h rows wid = Inr s"
    "sameBut w w'"
proof -
  from assms obtain w1 where 1: "ioStep ErrWorkspaceIndexUnavailable w = (Inr (), w1)" and
    2: "(case indexFile w1 wid of None \<Rightarrow> (Inl ErrWorkspaceIndexUnavailable, w1)
       | Some rows \<Rightarrow> (case validateWorkspaceIndexRecords h rows wid of
              Inl _ \<Rightarrow> (Inl ErrWorkspaceIndexCorrupt, w1) | Inr s \<Rightarrow> (Inr s, w1))) = (Inr s, w')"
    by (auto simp: readLockedIndex_def bindS_Inr)
  have s: "sameBut w w1" using keepsS_D [OF ioStep_same 1] .
  from 2 obtain rows where "indexFile w1 wid = Some rows" "validateWorkspaceIndexRecords h rows wid = Inr s" "w' = w1"
    by (auto split: option.splits sum.splits)
  with s show ?thesis using that sameBut_file [OF s] by simp
qed

lemma openWorkspaceLock_same: "keepsS sameBut (openWorkspaceLock wid)"
  unfolding openWorkspaceLock_def
proof (rule keepsS_bind [OF sameBut_trans contextErr_same])
  fix x :: unit
  have "keepsS sameBut (bindS (ioStep ErrWorkspaceIndexUnavailable) (\<lambda>_ (w1 :: 'z index_world_scheme).
      if wid \<notin> set (iwLocks w1) then (Inl ErrWorkspaceIndexUnavailable, w1)
      else ioStep ErrWorkspaceIndexUnavailable w1))"
    by (rule keepsS_bind [OF sameBut_trans ioStep_same])
      (use ioStep_same in \<open>auto simp: keepsS_def\<close>)
  then show "keepsS sameBut (\<lambda>w :: 'z index_world_scheme.
      if \<not> validWorkspaceID wid then (Inl (Fault ''invalid workspace ID''), w)
      else if iwRoot w = [] then (Inl ErrWorkspaceIndexUnavailable, w)
      else bindS (ioStep ErrWorkspaceIndexUnavailable) (\<lambda>_ w1.
        if wid \<notin> set (iwLocks w1) then (Inl ErrWorkspaceIndexUnavailable, w1)
        else ioStep ErrWorkspaceIndexUnavailable w1) w)"
    by (auto simp: keepsS_def)
qed

section \<open>What the locked body sees\<close>

text \<open>
  A run of \<open>withLockedIndexObserved\<close> either fails before its body, leaving everything but the
  effect counters alone, or runs the body on a state validated from the rows of the file.
\<close>

lemma locked_run:
  assumes "withLockedIndexObserved h wid fn w = ((c, r), w')"
  obtains (early) e where "r = Inl e" "c = False \<or> c = True" "sameBut w w'"
  | (body) rows s w1 w2 where "indexFile w wid = Some rows" "validateWorkspaceIndexRecords h rows wid = Inr s"
      "validWorkspaceID wid" "sameBut w w1" "fn s w1 = (r, w2)" "sameBut w2 w'"
proof (cases "openWorkspaceLock wid w")
  case (Pair r1 w1)
  note s1 = keepsS_D [OF openWorkspaceLock_same Pair]
  show ?thesis
  proof (cases r1)
    case (Inl e)
    with assms Pair s1 show ?thesis using early by (auto simp: withLockedIndexObserved_def)
  next
    case (Inr u)
    have v: "validWorkspaceID wid"
      using Pair Inr by (auto simp: openWorkspaceLock_def bindS_Inr split: if_splits)
    obtain c2 r2 w2 where b: "lockedIndexBody h wid fn w1 = ((c2, r2), w2)" by (metis prod.exhaust)
    have r: "r = r2" "sameBut w2 w'"
      using assms Pair Inr b takeIO_same [of w2]
      by (auto simp: withLockedIndexObserved_def split: prod.splits io_outcome.splits)
    obtain r3 w3 where rd: "bindS contextErr (\<lambda>_. readLockedIndex h wid) w1 = (r3, w3)" by force
    have s3: "sameBut w1 w3"
      by (rule keepsS_D [OF keepsS_bind [OF sameBut_trans contextErr_same readLockedIndex_same] rd])
    show ?thesis
    proof (cases r3)
      case (Inl e)
      with b rd have "r2 = Inl e" "w2 = w3" by (auto simp: lockedIndexBody_def)
      with r s1 s3 show ?thesis using early sameBut_trans by blast
    next
      case (Inr s)
      with rd obtain w0 where w0: "contextErr w1 = (Inr (), w0)" "readLockedIndex h wid w0 = (Inr s, w3)"
        by (auto simp: bindS_Inr)
      from readLockedIndex_Inr [OF w0(2)] obtain rows where
        rows: "indexFile w0 wid = Some rows" "validateWorkspaceIndexRecords h rows wid = Inr s" .
      have rows': "indexFile w wid = Some rows"
        using rows(1) sameBut_file [OF s1] sameBut_file [OF keepsS_D [OF contextErr_same w0(1)]] by simp
      let ?m = "bindS contextErr (\<lambda>_. bindS (ioStep ErrWorkspaceIndexUnavailable) (\<lambda>_. fn s))"
      obtain r4 w4 where m: "?m w3 = (r4, w4)" by force
      have c4: "r2 = r4" "sameBut w4 w2"
        using b rd Inr m takeIO_same [of w4]
        by (auto simp: lockedIndexBody_def closing_def split: prod.splits io_outcome.splits)
      show ?thesis
      proof (cases "\<exists>w5 w6. contextErr w3 = (Inr (), w5) \<and> ioStep ErrWorkspaceIndexUnavailable w5 = (Inr (), w6)")
        case True
        then obtain w5 w6 where 5: "contextErr w3 = (Inr (), w5)"
          "ioStep ErrWorkspaceIndexUnavailable w5 = (Inr (), w6)" by blast
        then have f: "fn s w6 = (r4, w4)" using m by (simp add: bindS_def)
        have "sameBut w w6"
          using s1 s3 keepsS_D [OF contextErr_same 5(1)] keepsS_D [OF ioStep_same 5(2)] sameBut_trans by metis
        then show ?thesis
          using body [OF rows' rows(2) v _ f [folded c4(1) r(1)]] c4(2) r(2) sameBut_trans by blast
      next
        case False
        then obtain e where e: "r4 = Inl e"
          using m by (auto simp: bindS_def split: prod.splits sum.splits)
        have "sameBut w3 w4"
          using False m
          by (auto simp: bindS_def split: prod.splits sum.splits dest!: contextErr_run ioStep_run
              intro: sameBut_trans)
        then show ?thesis
          using early [of e] e c4 r s1 s3 sameBut_trans by metis
      qed
    qed
  qed
qed

lemma locked_grow:
  assumes "\<And>s. keepsS filesGrow (fn s)" "withLockedIndexObserved h wid fn w = ((c, r), w')"
  shows "filesGrow w w'"
  using assms(2)
proof (cases rule: locked_run)
  case (early e)
  then show ?thesis by (simp add: sameBut_grow)
next
  case (body rows s w1 w2)
  have "filesGrow w1 w2" using keepsS_D [OF assms(1) body(5)] .
  with body show ?thesis using sameBut_grow filesGrow_trans by metis
qed

lemma withLockedIndex_grow:
  assumes "\<And>s. keepsS filesGrow (fn s)"
  shows "keepsS filesGrow (withLockedIndex h wid fn)"
  unfolding keepsS_def
proof
  fix w
  obtain c r w' where "withLockedIndexObserved h wid fn w = ((c, r), w')" by (metis prod.exhaust)
  with locked_grow [OF assms this] show "filesGrow w (snd (withLockedIndex h wid fn w))"
    by (simp add: withLockedIndex_def)
qed

section \<open>Appending records\<close>

lemma appendRows_run':
  assumes "appendRows wid rows w = (r, w')" "indexFile w wid = Some old"
  shows "\<exists>n. indexFile w' wid = Some (old @ take n rows) \<and> (r = Inr () \<longrightarrow> take n rows = rows)"
  using appendRows_run(3) [OF assms(1)] assms(2) by simp

lemma appendRecords_run:
  assumes run: "appendRecords h wid s records w = (r, w')"
    and rowsF: "indexFile w wid = Some (ixRecords s)"
  obtains (same) "sameBut w w'" "r = Inr () \<longrightarrow> records = []"
  | (grown) numbered s' n where "numberRecords h (length (ixRecords s)) records = Inr numbered"
      "validateWorkspaceIndexRecords h (ixRecords s @ numbered) (irWorkspaceID (hd (ixRecords s))) = Inr s'"
      "indexFile w' wid = Some (ixRecords s @ take n numbered)" "r = Inr () \<longrightarrow> take n numbered = numbered"
      "\<And>wid'. wid' \<noteq> wid \<Longrightarrow> indexFile w' wid' = indexFile w wid'" "iwClaimed w' = iwClaimed w"
      "iwLocks w' = iwLocks w"
proof (cases "\<exists>numbered s'. records \<noteq> []
    \<and> \<not> (of_nat (length (ixRecords s)) :: u64) > - 1 - of_nat (length records)
    \<and> numberRecords h (length (ixRecords s)) records = Inr numbered
    \<and> validateWorkspaceIndexRecords h (ixRecords s @ numbered) (irWorkspaceID (hd (ixRecords s))) = Inr s'")
  case False
  then have "w' = w \<and> (r = Inr () \<longrightarrow> records = [])"
    using run
    by (cases "numberRecords h (length (ixRecords s)) records")
      (auto simp: appendRecords_def bindS_def split: if_splits sum.splits)
  then show ?thesis by (intro same) auto
next
  case True
  then obtain numbered s' where n: "records \<noteq> []"
    "\<not> (of_nat (length (ixRecords s)) :: u64) > - 1 - of_nat (length records)"
    "numberRecords h (length (ixRecords s)) records = Inr numbered"
    "validateWorkspaceIndexRecords h (ixRecords s @ numbered) (irWorkspaceID (hd (ixRecords s))) = Inr s'"
    by blast
  then have b: "bindS (appendRows wid numbered) (\<lambda>_. ioStep (Fault ''sync workspace index'')) w = (r, w')"
    using run by (simp add: appendRecords_def bindS_def)
  obtain r1 w1 where a: "appendRows wid numbered w = (r1, w1)" by force
  have s1: "sameBut w1 w'" "r = Inr () \<longrightarrow> r1 = Inr ()"
    using b a by (auto simp: bindS_def split: sum.splits dest: ioStep_run)
  from appendRows_run' [OF a rowsF] obtain m where m: "indexFile w1 wid = Some (ixRecords s @ take m numbered)"
    "r1 = Inr () \<longrightarrow> take m numbered = numbered" by blast
  show ?thesis
    using grown [OF n(3,4), of m] m s1 appendRows_run(1,2,4) [OF a]
    by (simp add: sameBut_file [OF s1(1)] sameBut_fields [OF s1(1)])
qed

lemma number_one:
  "numberRecords h n [r] = Inr rs \<Longrightarrow> rs = [r \<lparr> irVersion := 1, irSeq := of_nat n + 1 \<rparr>]"
  by (auto simp: Let_def bindR_eq_Inr split: if_splits)

lemma numberRecords_fields:
  "numberRecords h n rs = Inr rs' \<Longrightarrow>
     map irKind rs' = map irKind rs \<and> map irAction rs' = map irAction rs \<and> length rs' = length rs"
  by (induction h n rs arbitrary: rs' rule: numberRecords.induct)
    (auto simp: Let_def bindR_eq_Inr split: if_splits)

section \<open>Permits\<close>

lemma normalizeActions_refs:
  "normalizeActions h fences claimed b calls ids as = Inr as' \<Longrightarrow>
     map (\<lambda>a. (daAction a, daScopedReadProof a, daToolIdentity a)) as'
       = map (\<lambda>a. (daAction a, daScopedReadProof a, daToolIdentity a)) as"
proof (induction h fences claimed b calls ids as arbitrary: as' rule: normalizeActions.induct)
  case (1 h fences claimed b calls ids)
  then show ?case by simp
next
  case (2 h fences claimed b calls ids a as)
  from "2.prems" obtain effects where e:
    "validateWorkspaceDispatchAction a (dbWorkspaceID b) (dbSessionID b) (dbRunID b) (dbActionBatchID b) = Inr ()"
    "rToolCallID (daAction a) \<notin> set calls" "rActionID (daAction a) \<notin> set ids"
    "normalizeEffectFacts (daEffectSet a) = Inr effects" "\<not> daNonBlockingDelegation a"
    by (auto simp: bindR_eq_Inr split: if_splits)
  with "2.prems" obtain a' as1 where a: "normalizeActions h fences claimed b (rToolCallID (daAction a) # calls)
      (rActionID (daAction a) # ids) as = Inr as1" "as' = a' # as1" "daAction a' = daAction a"
      "daScopedReadProof a' = daScopedReadProof a" "daToolIdentity a' = daToolIdentity a"
    by (auto simp: bindR_eq_Inr split: if_splits option.splits)
  from "2.IH" [OF e(2,3,5) a(1)] a(2-5) show ?case by simp
qed

lemma normalizeBatch_ids:
  assumes "normalizeWorkspaceDispatchBatch h fences claimed batch = Inr b"
  shows "dbWorkspaceID b = dbWorkspaceID batch" "dbSessionID b = dbSessionID batch" "dbRunID b = dbRunID batch"
    "dbActionBatchID b = dbActionBatchID batch" "map daAction (dbActions b) = map daAction (dbActions batch)"
    "dbCanonicalWorkspaceRoot b = dbCanonicalWorkspaceRoot batch"
    "a \<in> set (dbActions batch) \<Longrightarrow> \<exists>a' \<in> set (dbActions b). daAction a' = daAction a
       \<and> daScopedReadProof a' = daScopedReadProof a \<and> daToolIdentity a' = daToolIdentity a"
proof -
  from assms obtain as' where as': "normalizeActions h fences claimed batch [] [] (dbActions batch) = Inr as'"
    and b: "b = batch \<lparr> dbActions := as' \<rparr>"
    by (auto simp: normalizeWorkspaceDispatchBatch_def bindR_eq_Inr split: if_splits)
  note m = normalizeActions_refs [OF as']
  show "dbWorkspaceID b = dbWorkspaceID batch" "dbSessionID b = dbSessionID batch" "dbRunID b = dbRunID batch"
    "dbActionBatchID b = dbActionBatchID batch" "dbCanonicalWorkspaceRoot b = dbCanonicalWorkspaceRoot batch"
    by (simp_all add: b)
  show "map daAction (dbActions b) = map daAction (dbActions batch)"
    using arg_cong [OF m, of "map fst"] by (simp add: b comp_def)
  assume "a \<in> set (dbActions batch)"
  then have "(daAction a, daScopedReadProof a, daToolIdentity a)
      \<in> (\<lambda>a. (daAction a, daScopedReadProof a, daToolIdentity a)) ` set as'"
    using arg_cong [OF m, of set] by auto
  then show "\<exists>a' \<in> set (dbActions b). daAction a' = daAction a
       \<and> daScopedReadProof a' = daScopedReadProof a \<and> daToolIdentity a' = daToolIdentity a"
    by (auto simp: b)
qed

text \<open>
  What the admission of a quarantined workspace requires of each action: an unclaimed read
  proof for its call, in this canonical workspace, whose fence has not moved.
\<close>

definition readAdmitted :: "fences \<Rightarrow> nat list \<Rightarrow> dispatch_batch \<Rightarrow> dispatch_action \<Rightarrow> bool" where
  "readAdmitted fences claimed b a \<longleftrightarrow> (\<exists>p i. daScopedReadProof a = Some p \<and> daToolIdentity a = Some i
     \<and> unclaimed claimed (spState p) \<and> i = identitySnapshot (spIdentity p)
     \<and> spCallID p = rToolCallID (daAction a) \<and> spCanonicalWorkspaceRoot p = dbCanonicalWorkspaceRoot b
     \<and> fenceCurrent fences (spFence p) (spGenerations p))"

lemma hasProofs_admitted:
  assumes "workspaceDispatchBatchHasScopedReadProofs h fences claimed b True" "a \<in> set (dbActions b)"
  shows "readAdmitted fences claimed b a"
proof -
  from assms have "daScopedReadProof a \<noteq> None" "actionReadProofMatches h fences claimed b a"
    by (auto simp: workspaceDispatchBatchHasScopedReadProofs_def list_ex_iff list_all_iff split: if_splits)
  then show ?thesis
    by (auto simp: actionReadProofMatches_def readAdmitted_def readMatchesWorkspaceAction_def
        readMatchesCapturedFacts_def split: option.splits if_splits)
qed

lemma strip_ids [simp]:
  "dbWorkspaceID (stripWorkspaceDispatchRuntime b) = dbWorkspaceID b"
  "dbSessionID (stripWorkspaceDispatchRuntime b) = dbSessionID b"
  "dbRunID (stripWorkspaceDispatchRuntime b) = dbRunID b"
  "dbActionBatchID (stripWorkspaceDispatchRuntime b) = dbActionBatchID b"
  "daAction ` set (dbActions (stripWorkspaceDispatchRuntime b)) = daAction ` set (dbActions b)"
  by (auto simp: stripWorkspaceDispatchRuntime_def image_iff)

definition markerRow :: "'h host_scheme \<Rightarrow> nat \<Rightarrow> dispatch_batch \<Rightarrow> index_record" where
  "markerRow h n b = dispatchRecord h (stripWorkspaceDispatchRuntime b)
     \<lparr> irVersion := 1, irSeq := of_nat n + 1 \<rparr>"

lemma markerRow_fields [simp]:
  "irKind (markerRow h n b) = WorkspaceIndexDispatchReady"
  "batchKeyOf (markerRow h n b) = (dbSessionID b, dbRunID b, dbActionBatchID b)"
  "daAction ` set (irActions (markerRow h n b)) = daAction ` set (dbActions b)"
  "irSeq (markerRow h n b) = of_nat n + 1"
  by (simp_all add: markerRow_def dispatchRecord_def emptyRecord_def batchKeyOf_def)

lemma claimAdmission_files:
  assumes "claimAdmission h b w = (r, w')"
  shows "indexFile w' wid = indexFile w wid" "iwLocks w' = iwLocks w"
  using assms by (auto simp: claimAdmission_def indexFile_def split: prod.splits bool.splits)

text \<open>The outcomes of the admission, with what each leaves in the file.\<close>

definition freshBatch :: "index_state \<Rightarrow> dispatch_batch \<Rightarrow> bool" where
  "freshBatch s b \<longleftrightarrow> map_of (ixBatches s) (dbSessionID b, dbRunID b, dbActionBatchID b) = None
     \<and> (\<forall>a \<in> set (dbActions b). actionsByCall s (workspaceOccurrenceFor (daAction a)) = None
          \<and> actionsByID s (rActionID (daAction a)) = None)"

lemma admit_run:
  assumes run: "admitBatch h b (stripWorkspaceDispatchRuntime b) s w = (r, w')"
    and rowsF: "indexFile w (dbWorkspaceID b) = Some (ixRecords s)"
  obtains (same) "\<And>wid. indexFile w' wid = indexFile w wid" "r \<noteq> Inr AdmitCommitted"
      "r = Inr AdmitExists \<longrightarrow> (\<exists>existing. map_of (ixBatches s) (dbSessionID b, dbRunID b, dbActionBatchID b)
          = Some existing \<and> irActions existing = dbActions (stripWorkspaceDispatchRuntime b))"
      "r = Inr AdmitDenied \<longrightarrow> iwClaimed w' = iwClaimed w \<and> hasUnresolvedMarker s
          \<and> \<not> workspaceDispatchBatchHasScopedReadProofs h (iwFences w) (iwClaimed w) b True"
  | (grown) s' where "freshBatch s b"
      "hasUnresolvedMarker s \<longrightarrow> workspaceDispatchBatchHasScopedReadProofs h (iwFences w) (iwClaimed w) b True"
      "validateWorkspaceIndexRecords h (ixRecords s @ [markerRow h (length (ixRecords s)) b])
         (irWorkspaceID (hd (ixRecords s))) = Inr s'"
      "indexFile w' (dbWorkspaceID b) = Some (ixRecords s @ [markerRow h (length (ixRecords s)) b])"
      "\<And>wid. wid \<noteq> dbWorkspaceID b \<Longrightarrow> indexFile w' wid = indexFile w wid"
      "r \<noteq> Inr AdmitExists" "r \<noteq> Inr AdmitDenied"
proof -
  obtain r1 w1 where w1: "ioStep (Fault ''confirm workspace index durability before admission'') w = (r1, w1)" by force
  note s1 = ioStep_run [OF w1]
  show ?thesis
  proof (cases r1)
    case (Inl e)
    with run w1 sameBut_file [OF s1] show ?thesis
      by (intro same) (auto simp: admitBatch_def bindS_def)
  next
    case Inr1: (Inr u)
    obtain r2 w2 where w2: "contextErr w1 = (r2, w2)" by force
    note s2 = sameBut_trans [OF s1 contextErr_run [OF w2]]
    note f2 = sameBut_file [OF s2] and g2 = sameBut_fields [OF s2]
    show ?thesis
    proof (cases r2)
      case (Inl e)
      with run w1 Inr1 w2 f2 show ?thesis
        by (intro same) (auto simp: admitBatch_def bindS_def)
    next
      case Inr2: (Inr u')
      show ?thesis
      proof (cases "map_of (ixBatches s) (dbSessionID b, dbRunID b, dbActionBatchID b)")
        case (Some existing)
        with run w1 Inr1 w2 Inr2 f2 show ?thesis
          by (intro same) (auto simp: admitBatch_def bindS_def split: if_splits)
      next
        case None
        show ?thesis
        proof (cases "freshBatch s b \<and> (hasUnresolvedMarker s \<longrightarrow>
            workspaceDispatchBatchHasScopedReadProofs h (iwFences w) (iwClaimed w) b True)")
          case False
          with None run w1 Inr1 w2 Inr2 f2 g2 show ?thesis
            by (intro same) (auto simp: admitBatch_def bindS_def freshBatch_def list_ex_iff split: if_splits)
        next
          case True
          then have run2: "bindS (claimAdmission h b) (\<lambda>_. bindS contextErr (\<lambda>_.
              bindS (appendRecords h (dbWorkspaceID b) s [dispatchRecord h (stripWorkspaceDispatchRuntime b)])
                (\<lambda>_. okS AdmitCommitted))) w2 = (r, w')"
            using None run w1 Inr1 w2 Inr2 g2
            by (auto simp: admitBatch_def bindS_def freshBatch_def list_ex_iff split: if_splits)
          obtain r3 w3 where w3: "claimAdmission h b w2 = (r3, w3)" by force
          note f3 = claimAdmission_files(1) [OF w3]
          show ?thesis
          proof (cases r3)
            case (Inl e)
            with run2 w3 f3 f2 show ?thesis
              by (intro same) (auto simp: bindS_def)
          next
            case Inr3: (Inr v)
            obtain r4 w4 where w4: "contextErr w3 = (r4, w4)" by force
            note f4 = sameBut_file [OF contextErr_run [OF w4]]
            show ?thesis
            proof (cases r4)
              case (Inl e)
              with run2 w3 Inr3 w4 f4 f3 f2 show ?thesis
                by (intro same) (auto simp: bindS_def)
            next
              case Inr4: (Inr v')
              obtain r5 w5 where w5: "appendRecords h (dbWorkspaceID b) s
                  [dispatchRecord h (stripWorkspaceDispatchRuntime b)] w4 = (r5, w5)" by force
              have w': "w' = w5" "r = Inr AdmitCommitted \<longrightarrow> r5 = Inr ()" "r \<noteq> Inr AdmitExists" "r \<noteq> Inr AdmitDenied"
                using run2 w3 Inr3 w4 Inr4 w5 by (auto simp: bindS_def split: sum.splits)
              have file4: "indexFile w4 (dbWorkspaceID b) = Some (ixRecords s)"
                by (simp add: f4 f3 f2 rowsF)
              from w5 file4 show ?thesis
              proof (cases rule: appendRecords_run)
                case a: same
                then show ?thesis using w' sameBut_file [OF a(1)] f4 f3 f2
                  by (intro same) auto
              next
                case g: (grown numbered s' n)
                have num: "numbered = [markerRow h (length (ixRecords s)) b]"
                  using number_one [OF g(1)] by (simp add: markerRow_def)
                show ?thesis
                proof (cases n)
                  case 0
                  have "indexFile w' wid = indexFile w wid" for wid
                    using g(3,5) 0 rowsF w'(1) f4 f3 f2 by (cases "wid = dbWorkspaceID b") auto
                  then show ?thesis using w' g(4) num 0 by (intro same) auto
                next
                  case (Suc m)
                  show ?thesis
                    using grown [of s'] True g num Suc w' by (simp add: f4 f3 f2)
                qed
              qed
            qed
          qed
        qed
      qed
    qed
  qed
qed

text \<open>
  What one call of \<open>beginDispatchBatch\<close> did: nothing to any file, or one new row for the
  normalized batch, in a file whose state had no marker of it.
\<close>

definition marks :: "'h host_scheme \<Rightarrow> dispatch_batch \<Rightarrow> 'z index_world_scheme \<Rightarrow> 'z index_world_scheme \<Rightarrow> bool" where
  "marks h b w w' \<longleftrightarrow> (\<exists>s rows s'.
     indexFile w (dbWorkspaceID b) = Some rows
     \<and> validateWorkspaceIndexRecords h rows (dbWorkspaceID b) = Inr s
     \<and> freshBatch s b
     \<and> (hasUnresolvedMarker s \<longrightarrow> workspaceDispatchBatchHasScopedReadProofs h (iwFences w) (iwClaimed w) b True)
     \<and> validateWorkspaceIndexRecords h (rows @ [markerRow h (length rows) b]) (dbWorkspaceID b) = Inr s'
     \<and> indexFile w' (dbWorkspaceID b) = Some (rows @ [markerRow h (length rows) b])
     \<and> (\<forall>wid. wid \<noteq> dbWorkspaceID b \<longrightarrow> indexFile w' wid = indexFile w wid))"

lemma validate_hd:
  assumes "validateWorkspaceIndexRecords h rows wid = Inr s"
  shows "irWorkspaceID (hd (ixRecords s)) = wid" "ixRecords s = rows"
proof -
  note D = indexInv_D [OF validate_inv(1) [OF assms]]
  show "ixRecords s = rows" by (rule D(1))
  with D(2) validate_inv(2) [OF assms] show "irWorkspaceID (hd (ixRecords s)) = wid"
    by (cases rows) (auto simp: rowsShape_def)
qed

lemma begin_run:
  assumes run: "beginDispatchBatch h batch w = ((res, denied, err), w')"
  obtains (rejected) e where "normalizeWorkspaceDispatchBatch h (iwFences w) (iwClaimed w) batch = Inl e
        \<or> (\<exists>w0. contextErr w = (Inl e, w0))"
      "res = WorkspaceDispatchNotCommitted" "err = Some e" "\<not> denied" "sameBut w w'"
  | (same) b where "normalizeWorkspaceDispatchBatch h (iwFences w) (iwClaimed w) batch = Inr b"
      "\<And>wid. indexFile w' wid = indexFile w wid" "res \<noteq> WorkspaceDispatchCommittedNow"
      "res = WorkspaceDispatchAlreadyExists \<longrightarrow> (\<exists>rows s existing. indexFile w (dbWorkspaceID b) = Some rows
          \<and> validateWorkspaceIndexRecords h rows (dbWorkspaceID b) = Inr s
          \<and> map_of (ixBatches s) (dbSessionID b, dbRunID b, dbActionBatchID b) = Some existing
          \<and> irActions existing = dbActions (stripWorkspaceDispatchRuntime b))"
      "denied \<longrightarrow> err = Some ErrWorkspaceQuarantined \<and> iwClaimed w' = iwClaimed w
          \<and> (\<exists>rows s. indexFile w (dbWorkspaceID b) = Some rows
              \<and> validateWorkspaceIndexRecords h rows (dbWorkspaceID b) = Inr s \<and> hasUnresolvedMarker s)"
      "err = None \<longleftrightarrow> res = WorkspaceDispatchAlreadyExists"
  | (marked) b where "normalizeWorkspaceDispatchBatch h (iwFences w) (iwClaimed w) batch = Inr b"
      "marks h b w w'" "\<not> denied" "res \<noteq> WorkspaceDispatchAlreadyExists"
      "err = None \<longleftrightarrow> res = WorkspaceDispatchCommittedNow"
proof -
  obtain r0 w0 where w0: "contextErr w = (r0, w0)" by force
  note s0 = contextErr_run [OF w0]
  note f0 = sameBut_file [OF s0] and g0 = sameBut_fields [OF s0]
  show ?thesis
  proof (cases r0)
    case (Inl e)
    with run w0 s0 show ?thesis by (intro rejected [of e]) (auto simp: beginDispatchBatch_def)
  next
    case Inr0: (Inr u)
    show ?thesis
    proof (cases "normalizeWorkspaceDispatchBatch h (iwFences w) (iwClaimed w) batch")
      case (Inl e)
      with run w0 Inr0 s0 g0 show ?thesis by (intro rejected [of e]) (auto simp: beginDispatchBatch_def)
    next
      case (Inr b)
      let ?fn = "admitBatch h b (stripWorkspaceDispatchRuntime b)"
      obtain c r w1 where lk: "withLockedIndexObserved h (dbWorkspaceID b) ?fn w0 = ((c, r), w1)"
        by (metis prod.exhaust)
      have out: "(r = Inl e \<longrightarrow> res = WorkspaceDispatchNotCommitted \<and> \<not> denied \<and> err = Some e \<and> w' = w1)" for e
        using run w0 Inr0 Inr lk g0 by (auto simp: beginDispatchBatch_def)
      have outd: "r = Inr AdmitDenied \<longrightarrow> res = WorkspaceDispatchNotCommitted
          \<and> err = Some ErrWorkspaceQuarantined \<and> sameBut w1 w'"
        using run w0 Inr0 Inr lk g0
        by (auto simp: beginDispatchBatch_def split: if_splits prod.splits sum.splits dest: contextErr_run)
      have oute: "r = Inr AdmitExists \<longrightarrow> w' = w1 \<and> \<not> denied
          \<and> res \<noteq> WorkspaceDispatchCommittedNow \<and> (err = None \<longleftrightarrow> res = WorkspaceDispatchAlreadyExists)"
        using run w0 Inr0 Inr lk g0 by (auto simp: beginDispatchBatch_def split: if_splits)
      have outc: "r = Inr AdmitCommitted \<longrightarrow> w' = w1 \<and> \<not> denied \<and> res \<noteq> WorkspaceDispatchAlreadyExists
          \<and> (err = None \<longleftrightarrow> res = WorkspaceDispatchCommittedNow)"
        using run w0 Inr0 Inr lk g0 by (auto simp: beginDispatchBatch_def split: if_splits)
      from lk show ?thesis
      proof (cases rule: locked_run)
        case (early e)
        with out [of e] f0 sameBut_file [OF early(3)] Inr show ?thesis by (intro same [of b]) auto
      next
        case body: (body rows s w2 w3)
        note v = validate_hd [OF body(2)]
        have f2: "indexFile w2 wid = indexFile w wid" for wid
          using f0 sameBut_file [OF body(4)] by simp
        have g2: "iwFences w2 = iwFences w" "iwClaimed w2 = iwClaimed w"
          using g0 sameBut_fields [OF body(4)] by simp_all
        note f1 = sameBut_file [OF body(6)] and g1 = sameBut_fields [OF body(6)]
        have rows: "indexFile w (dbWorkspaceID b) = Some rows" using body(1) f0 by simp
        have rows2: "indexFile w2 (dbWorkspaceID b) = Some (ixRecords s)" using rows f2 v(2) by simp
        from body(5) rows2 show ?thesis
        proof (cases rule: admit_run)
          case a: same
          have f: "indexFile w1 wid = indexFile w wid" for wid using a(1) f1 f2 by simp
          show ?thesis
          proof (cases r)
            case (Inl e)
            with out [of e] f Inr show ?thesis by (intro same [of b]) (auto)
          next
            case ro: (Inr o')
            show ?thesis
            proof (cases o')
              case AdmitCommitted
              with ro a(2) show ?thesis by simp
            next
              case AdmitExists
              with ro oute f Inr a(3) rows body(2) show ?thesis by (intro same [of b]) auto
            next
              case AdmitDenied
              with ro outd have d: "res = WorkspaceDispatchNotCommitted" "err = Some ErrWorkspaceQuarantined"
                and sw: "sameBut w1 w'" by auto
              have c: "iwClaimed w' = iwClaimed w"
                using sameBut_fields(3) [OF sw] g1(3) g2(2) a(4) ro AdmitDenied by simp
              show ?thesis
                by (rule same [OF Inr]) (use d c f sameBut_file [OF sw] a(4) ro AdmitDenied rows body(2) in auto)
            qed
          qed
        next
          case g: (grown s')
          have m: "marks h b w w1"
            unfolding marks_def
            by (rule exI [of _ s], rule exI [of _ rows], rule exI [of _ s'])
              (use g rows body(2) v f1 f2 g2 in auto)
          have rr: "r = Inr AdmitCommitted \<or> (\<exists>e. r = Inl e)"
            using g(6,7) by (cases r; metis admit_outcome.exhaust)
          then show ?thesis using marked [OF Inr] m out outc by auto
        qed
      qed
    qed
  qed
qed

section \<open>Runs of the index\<close>

text \<open>
  The events of a run: a call of \<open>BeginDispatchBatch\<close> with its result, or anything else that
  can happen to the authority. Between calls a fresh context and new file outcomes may be
  installed, fences move, and proofs are claimed elsewhere.
\<close>

datatype index_event = EvBegin dispatch_batch dispatch_result | EvOther

inductive indexStep :: "'h host_scheme \<Rightarrow> index_world \<Rightarrow> index_event \<Rightarrow> index_world \<Rightarrow> bool" for h where
  step_begin: "beginDispatchBatch h b w = ((res, denied, err), w') \<Longrightarrow> indexStep h w (EvBegin b res) w'"
| step_apply: "ApplyDurableResolutions h vs w = (r, w') \<Longrightarrow> indexStep h w EvOther w'"
| step_inspect: "InspectDispatchMarkers h refs w = (r, w') \<Longrightarrow> indexStep h w EvOther w'"
| step_ensure: "EnsureWorkspace h wid w = (r, w') \<Longrightarrow> indexStep h w EvOther w'"
| step_env: "iwFiles w' = iwFiles w \<Longrightarrow> iwLocks w' = iwLocks w \<Longrightarrow> set (iwClaimed w) \<subseteq> set (iwClaimed w')
    \<Longrightarrow> indexStep h w EvOther w'"

inductive indexRun :: "'h host_scheme \<Rightarrow> index_world \<Rightarrow> index_event list \<Rightarrow> index_world \<Rightarrow> bool" for h where
  run_done: "indexRun h w [] w"
| run_step: "indexStep h w ev w1 \<Longrightarrow> indexRun h w1 evs w' \<Longrightarrow> indexRun h w (ev # evs) w'"

inductive_cases indexRun_ConsE: "indexRun h w (ev # evs) w'"
inductive_cases indexStep_beginE: "indexStep h w (EvBegin b res) w'"

lemma applyResolutions_grow: "keepsS filesGrow (applyResolutions h wid vs s)"
  unfolding applyResolutions_def by (auto intro!: grow_bind journal_intro)

lemma applyGroups_grow: "keepsS filesGrow (applyGroups h gs)"
proof (induction gs)
  case Nil
  then show ?case by (simp add: keepsS_def)
next
  case (Cons g gs)
  obtain wid part where g: "g = (wid, part)" by force
  have "keepsS filesGrow (withLockedIndex h wid (\<lambda>s. bindS contextErr (\<lambda>_. applyResolutions h wid part s)))"
    by (rule withLockedIndex_grow) (auto intro!: grow_bind journal_intro applyResolutions_grow)
  then show ?case
    unfolding g applyGroups.simps by (rule grow_bind) (rule Cons)
qed

lemma Apply_grow: "keepsS filesGrow (ApplyDurableResolutions h vs)"
  unfolding ApplyDurableResolutions_def
  by (rule grow_bind) (auto intro!: grow_bind journal_intro applyGroups_grow)

lemma inspectGroups_grow: "keepsS filesGrow (inspectGroups h gs ds)"
proof (induction gs arbitrary: ds)
  case Nil
  then show ?case by (simp add: keepsS_def)
next
  case (Cons g gs)
  obtain wid part where g: "g = (wid, part)" by force
  have "keepsS filesGrow (withLockedIndex h wid (\<lambda>s.
      bindS (ioStep (Fault ''confirm workspace index durability before inspection''))
        (\<lambda>_. bindS contextErr (\<lambda>_. okS (foldl (decide s) ds part)))))"
    by (rule withLockedIndex_grow) (auto intro!: grow_bind journal_intro)
  then show ?case
    unfolding g inspectGroups.simps by (rule grow_bind) (rule Cons)
qed

lemma Inspect_grow: "keepsS filesGrow (InspectDispatchMarkers h refs)"
  unfolding InspectDispatchMarkers_def
  by (rule grow_bind) (auto intro!: grow_bind journal_intro inspectGroups_grow)

lemma createInitial_run:
  assumes "createInitialWorkspaceIndex h wid w = (r, w')" "indexFile w wid = None"
  shows "filesGrow w w'" "r = Inr () \<longrightarrow> indexFile w' wid = Some [genesisRecord h wid]"
    "indexFile w' wid \<noteq> None \<longrightarrow> indexFile w' wid = Some [genesisRecord h wid]"
    "wid' \<noteq> wid \<Longrightarrow> indexFile w' wid' = indexFile w wid'"
proof -
  consider (unchanged) "sameBut w w'" "\<exists>e. r = Inl e"
    | (written) w1 where "sameBut w w1" "ioStep (Fault ''sync workspace directory'')
        (writeIndexFile wid [genesisRecord h wid] w1) = (r, w')"
  proof (cases "hIndexRowBytes h (genesisRecord h wid) > maxDurableJSONLineBytes")
    case True
    with assms(1) show ?thesis by (intro unchanged) (auto simp: createInitialWorkspaceIndex_def)
  next
    case False
    obtain r1 w1 where 1: "ioStep (Fault ''write workspace index temp file'') w = (r1, w1)" by force
    obtain r2 w2 where 2: "ioStep (Fault ''rename workspace index'') w1 = (r2, w2)" by force
    note s = ioStep_run [OF 1] sameBut_trans [OF ioStep_run [OF 1] ioStep_run [OF 2]]
    show ?thesis
    proof (cases r1)
      case (Inl e)
      with assms(1) False 1 s(1) show ?thesis
        by (intro unchanged) (auto simp: createInitialWorkspaceIndex_def bindS_def)
    next
      case Inr1: (Inr u)
      show ?thesis
      proof (cases r2)
        case (Inl e)
        with assms(1) False 1 2 Inr1 s(2) show ?thesis
          by (intro unchanged) (auto simp: createInitialWorkspaceIndex_def bindS_def)
      next
        case (Inr v)
        with assms(1) False 1 2 Inr1 s(2) show ?thesis
          by (intro written [of w2]) (auto simp: createInitialWorkspaceIndex_def bindS_def)
      qed
    qed
  qed
  then have "(filesGrow w w' \<and> (r = Inr () \<longrightarrow> indexFile w' wid = Some [genesisRecord h wid]))
      \<and> (indexFile w' wid \<noteq> None \<longrightarrow> indexFile w' wid = Some [genesisRecord h wid])
      \<and> (\<forall>wid'. wid' \<noteq> wid \<longrightarrow> indexFile w' wid' = indexFile w wid')"
  proof cases
    case unchanged
    with assms(2) show ?thesis by (auto simp: sameBut_grow sameBut_file [OF unchanged(1)])
  next
    case (written w1)
    have f: "indexFile w' x = (if x = wid then Some [genesisRecord h wid] else indexFile w x)" for x
      using sameBut_file [OF ioStep_run [OF written(2)], of x] sameBut_file [OF written(1), of x]
      by (simp add: writeIndexFile_def indexFile_def)
    then show ?thesis using assms(2) by (auto simp: filesGrow_def)
  qed
  then show "filesGrow w w'" "r = Inr () \<longrightarrow> indexFile w' wid = Some [genesisRecord h wid]"
    "indexFile w' wid \<noteq> None \<longrightarrow> indexFile w' wid = Some [genesisRecord h wid]"
    "wid' \<noteq> wid \<Longrightarrow> indexFile w' wid' = indexFile w wid'" by blast+
qed

lemma closeAfter_keeps:
  assumes "\<And>a b c. R a b \<Longrightarrow> R b c \<Longrightarrow> R a c" "\<And>a b. sameBut a b \<Longrightarrow> R a b" "keepsS R m"
  shows "keepsS R (closeAfter m)"
  unfolding keepsS_def
proof
  fix w
  obtain r w1 where m: "m w = (r, w1)" by force
  obtain x w2 where t: "takeIO w1 = (x, w2)" by force
  have "R w w2" by (rule assms(1) [OF keepsS_D [OF assms(3) m] assms(2) [OF takeIO_same [OF t]]])
  then show "R w (snd (closeAfter m w))"
    using m t by (cases x) (simp_all add: closeAfter_def closing_def)
qed

lemma reread_same: "keepsS sameBut (confirmWorkspaceIndex h wid)"
  unfolding confirmWorkspaceIndex_def
  by (rule keepsS_bind [OF sameBut_trans readLockedIndex_same])
     (simp_all add: closeAfter_keeps [OF sameBut_trans _ contextErr_same])

text \<open>\<open>prepareWorkspaceIndex\<close> creates a file only where there is none and the lock is new.\<close>

lemma prepare_run:
  assumes "prepareWorkspaceIndex h wid created w = (r, w')"
  obtains (same) "sameBut w w'" "indexFile w wid = None \<longrightarrow> (\<exists>e. r = Inl e)"
  | (create) w1 w2 r1 where "created" "indexFile w wid = None" "sameBut w w1"
      "createInitialWorkspaceIndex h wid w1 = (r1, w2)" "sameBut w2 w'"
proof -
  obtain ra wa where a: "contextErr w = (ra, wa)" by force
  obtain rb wb where b: "ioStep ErrWorkspaceIndexUnavailable wa = (rb, wb)" by force
  note sa = contextErr_run [OF a] and sb = sameBut_trans [OF contextErr_run [OF a] ioStep_run [OF b]]
  show ?thesis
  proof (cases "(\<exists>e. ra = Inl e) \<or> (\<exists>e. rb = Inl e)")
    case True
    with assms a b sa sb show ?thesis
      by (intro same) (auto simp: prepareWorkspaceIndex_def bindS_def split: sum.splits)
  next
    case False
    then obtain u v where uv: "ra = Inr u" "rb = Inr v" by (cases ra; cases rb; auto)
    have run: "(if indexFile wb wid = None then
          (if \<not> created then failS ErrWorkspaceIndexUnavailable wb
           else (case createInitialWorkspaceIndex h wid wb of
               (Inl _, w') \<Rightarrow> (Inl ErrWorkspaceIndexUnavailable, w')
             | (Inr _, w') \<Rightarrow> confirmWorkspaceIndex h wid w'))
        else if created then failS ErrWorkspaceIndexUnavailable wb
        else confirmWorkspaceIndex h wid wb) = (r, w')"
      using assms a b uv by (simp add: prepareWorkspaceIndex_def bindS_def)
    have fb: "indexFile wb wid = indexFile w wid" by (rule sameBut_file [OF sb])
    show ?thesis
    proof (cases "indexFile w wid = None \<and> created")
      case False
      with run fb sb show ?thesis
        by (intro same) (auto split: if_splits intro: sameBut_trans dest: keepsS_D [OF reread_same])
    next
      case True
      obtain r1 w1 where c: "createInitialWorkspaceIndex h wid wb = (r1, w1)" by force
      have "sameBut w1 w'"
        using run True fb c by (auto split: sum.splits dest: keepsS_D [OF reread_same])
      with create True sb c show ?thesis by blast
    qed
  qed
qed

lemma prepare_grow: "keepsS filesGrow (prepareWorkspaceIndex h wid created)"
  unfolding keepsS_def
proof
  fix w
  obtain r w' where p: "prepareWorkspaceIndex h wid created w = (r, w')" by force
  then have "filesGrow w w'"
  proof (cases rule: prepare_run)
    case same
    then show ?thesis by (simp add: sameBut_grow)
  next
    case (create w1 w2 r1)
    have "filesGrow w1 w2"
      by (rule createInitial_run(1) [OF create(4)]) (simp add: sameBut_file [OF create(3)] create(2))
    with create sameBut_grow filesGrow_trans show ?thesis by metis
  qed
  then show "filesGrow w (snd (prepareWorkspaceIndex h wid created w))" using p by simp
qed

lemma lockSync_grow:
  "keepsS filesGrow (bindS (ioStep ErrWorkspaceIndexUnavailable) (\<lambda>_. ioStep ErrWorkspaceIndexUnavailable))"
  by (rule grow_bind) (rule journal_intro)+

lemma newLock_grow: "keepsS filesGrow (newLockFile wid)"
  unfolding newLockFile_def
proof (rule grow_bind [OF grow_basic(2)])
  show "keepsS filesGrow (\<lambda>w. bindS (ioStep ErrWorkspaceIndexUnavailable) (\<lambda>_. ioStep ErrWorkspaceIndexUnavailable)
      (w \<lparr> iwLocks := wid # iwLocks w \<rparr>))"
    unfolding keepsS_def
  proof
    fix u
    have "filesGrow u (u \<lparr> iwLocks := wid # iwLocks u \<rparr>)"
      by (auto simp: filesGrow_def indexFile_def intro: exI [of _ "[]"])
    then show "filesGrow u (snd (bindS (ioStep ErrWorkspaceIndexUnavailable)
        (\<lambda>_. ioStep ErrWorkspaceIndexUnavailable) (u \<lparr> iwLocks := wid # iwLocks u \<rparr>)))"
      using lockSync_grow filesGrow_trans unfolding keepsS_def by blast
  qed
qed

lemma createLock_grow: "keepsS filesGrow (createWorkspaceLock wid)"
proof -
  have "keepsS filesGrow (bindS (if c then newLockFile wid else okS ())
      (\<lambda>_. bindS (ioStep ErrWorkspaceIndexUnavailable) (\<lambda>_. okS c)))" for c
    by (rule grow_bind) (simp_all add: newLock_grow grow_basic grow_bind)
  then show ?thesis
    unfolding keepsS_def createWorkspaceLock_def Let_def by blast
qed

lemma ensureLock_grow:
  "keepsS filesGrow (bindS (createWorkspaceLock wid) (\<lambda>created. closeAfter (prepareWorkspaceIndex h wid created)))"
  by (rule grow_bind [OF createLock_grow closeAfter_keeps [OF filesGrow_trans sameBut_grow prepare_grow]])

lemma ensureInDirectory_grow: "keepsS filesGrow (ensureInDirectory h wid)"
  unfolding ensureInDirectory_def
  by (rule grow_bind [OF grow_basic(2)])
     (simp add: keepsS_def ensureLock_grow [unfolded keepsS_def, rule_format])

lemma ensureTail_grow:
  "keepsS filesGrow (bindS (ioStep (Fault ''prepare workspace index directory'')) (\<lambda>_. ensureInDirectory h wid))"
  by (rule grow_bind [OF grow_basic(2) ensureInDirectory_grow])

lemma Ensure_grow: "keepsS filesGrow (EnsureWorkspace h wid)"
  unfolding EnsureWorkspace_def
proof (rule grow_bind [OF grow_basic(1)])
  show "keepsS filesGrow (\<lambda>w. if iwRoot w = [] then (Inl ErrWorkspaceIndexUnavailable, w)
       else if \<not> validWorkspaceID wid then (Inl (Fault ''invalid workspace ID''), w)
       else bindS (ioStep (Fault ''prepare workspace index directory'')) (\<lambda>_. ensureInDirectory h wid) w)"
    by (simp add: keepsS_def ensureTail_grow [unfolded keepsS_def, rule_format])
qed

lemma marks_grow: "marks h b w w' \<Longrightarrow> filesGrow w w'"
  unfolding filesGrow_def
proof (intro allI impI)
  fix wid rs assume m: "marks h b w w'" "indexFile w wid = Some rs"
  then obtain rows where "indexFile w (dbWorkspaceID b) = Some rows"
    "indexFile w' (dbWorkspaceID b) = Some (rows @ [markerRow h (length rows) b])"
    "\<forall>wid. wid \<noteq> dbWorkspaceID b \<longrightarrow> indexFile w' wid = indexFile w wid"
    unfolding marks_def by blast
  with m(2) show "\<exists>rows'. indexFile w' wid = Some (rs @ rows')"
    by (cases "wid = dbWorkspaceID b") auto
qed

lemma begin_grow:
  assumes "beginDispatchBatch h batch w = ((res, denied, err), w')"
  shows "filesGrow w w'"
  using assms
proof (cases rule: begin_run)
  case (rejected e)
  then show ?thesis by (simp add: sameBut_grow)
next
  case (same b)
  then show ?thesis by (auto simp: filesGrow_def intro: exI [of _ "[]"])
next
  case (marked b)
  then show ?thesis by (simp add: marks_grow)
qed

lemma indexStep_grow: "indexStep h w ev w' \<Longrightarrow> filesGrow w w'"
proof (induction rule: indexStep.induct)
  case (step_env w' w)
  then show ?case by (auto simp: filesGrow_def indexFile_def intro: exI [of _ "[]"])
qed (auto intro: begin_grow keepsS_D [OF Apply_grow] keepsS_D [OF Inspect_grow] keepsS_D [OF Ensure_grow])

lemma indexRun_grow: "indexRun h w evs w' \<Longrightarrow> filesGrow w w'"
  by (induction rule: indexRun.induct) (auto intro: indexStep_grow filesGrow_trans)

section \<open>At most one permit\<close>

text \<open>
  \<open>fileMarks w wid P\<close>: some dispatch-ready row of the file of \<open>wid\<close> has an action whose
  reference satisfies \<open>P\<close>.
\<close>

definition fileMarks :: "'z index_world_scheme \<Rightarrow> string \<Rightarrow> (pending_ref \<Rightarrow> bool) \<Rightarrow> bool" where
  "fileMarks w wid P \<longleftrightarrow> (\<exists>rows ref. indexFile w wid = Some rows \<and> markedIn rows ref \<and> P ref)"

lemma fileMarks_grow: "filesGrow w w' \<Longrightarrow> fileMarks w wid P \<Longrightarrow> fileMarks w' wid P"
proof -
  assume g: "filesGrow w w'" and f: "fileMarks w wid P"
  from f obtain rows ref where r: "indexFile w wid = Some rows" "markedIn rows ref" "P ref"
    by (auto simp: fileMarks_def)
  from g r(1) obtain rs where "indexFile w' wid = Some (rows @ rs)" unfolding filesGrow_def by blast
  moreover have "markedIn (rows @ rs) ref" using r(2) by (auto simp: markedIn_def)
  ultimately show ?thesis using r(3) by (auto simp: fileMarks_def)
qed

lemma marks_after:
  assumes "marks h b w w'" "ref \<in> daAction ` set (dbActions b)" "P ref"
  shows "fileMarks w' (dbWorkspaceID b) P"
proof -
  from assms(1) obtain rows where r: "indexFile w' (dbWorkspaceID b) = Some (rows @ [markerRow h (length rows) b])"
    by (auto simp: marks_def)
  have "markedIn (rows @ [markerRow h (length rows) b]) ref"
    unfolding markedIn_def
    by (rule bexI [of _ "markerRow h (length rows) b"]) (use assms(2) in auto)
  with r assms(3) show ?thesis by (auto simp: fileMarks_def)
qed

lemma marks_before:
  assumes "marks h b w w'" "ref \<in> daAction ` set (dbActions b)"
  shows "\<not> fileMarks w (dbWorkspaceID b) (\<lambda>r. workspaceOccurrenceFor r = workspaceOccurrenceFor ref)"
    "\<not> fileMarks w (dbWorkspaceID b) (\<lambda>r. rActionID r = rActionID ref)"
proof -
  from assms(1) obtain rows s where r: "indexFile w (dbWorkspaceID b) = Some rows"
    "validateWorkspaceIndexRecords h rows (dbWorkspaceID b) = Inr s" "freshBatch s b"
    by (auto simp: marks_def)
  note I = validate_inv(1) [OF r(2)]
  from assms(2) r(3) have n: "actionsByCall s (workspaceOccurrenceFor ref) = None" "actionsByID s (rActionID ref) = None"
    by (auto simp: freshBatch_def)
  have "workspaceOccurrenceFor x \<noteq> workspaceOccurrenceFor ref \<and> rActionID x \<noteq> rActionID ref" if "markedIn rows x" for x
    using that n unfolding markedIn_iff [OF I] actionsByCall_None actionsByID_None by force
  then show "\<not> fileMarks w (dbWorkspaceID b) (\<lambda>r. workspaceOccurrenceFor r = workspaceOccurrenceFor ref)"
    "\<not> fileMarks w (dbWorkspaceID b) (\<lambda>r. rActionID r = rActionID ref)"
    using r(1) by (auto simp: fileMarks_def)
qed

text \<open>A permit event for an action satisfying \<open>P\<close> in workspace \<open>wid\<close>.\<close>

fun permitEvent :: "string \<Rightarrow> (pending_ref \<Rightarrow> bool) \<Rightarrow> index_event \<Rightarrow> bool" where
  "permitEvent wid P (EvBegin b WorkspaceDispatchCommittedNow) \<longleftrightarrow>
     dbWorkspaceID b = wid \<and> (\<exists>a \<in> set (dbActions b). P (daAction a))"
| "permitEvent wid P _ \<longleftrightarrow> False"

lemma permit_marks:
  assumes step: "indexStep h w ev w'" and ev: "permitEvent wid P ev"
    and P: "P = (\<lambda>r. workspaceOccurrenceFor r = k) \<or> P = (\<lambda>r. rActionID r = i)"
  shows "\<not> fileMarks w wid P \<and> fileMarks w' wid P"
proof -
  from ev obtain b a where b: "ev = EvBegin b WorkspaceDispatchCommittedNow" "dbWorkspaceID b = wid"
    "a \<in> set (dbActions b)" "P (daAction a)"
    by (cases "(wid, P, ev)" rule: permitEvent.cases) auto
  from step obtain denied err where run: "beginDispatchBatch h b w = ((WorkspaceDispatchCommittedNow, denied, err), w')"
    unfolding b(1) by (rule indexStep_beginE) blast
  from run show ?thesis
  proof (cases rule: begin_run)
    case (marked n)
    note ids = normalizeBatch_ids [OF marked(1)]
    have ref: "daAction a \<in> daAction ` set (dbActions n)"
      using b(3) arg_cong [OF ids(5), of set] by auto
    show ?thesis
      using marks_after [OF marked(2) ref, of P] marks_before [OF marked(2) ref] b(2,4) ids(1) P by auto
  qed auto
qed

lemma permits_after_mark:
  assumes "indexRun h w evs w'" "fileMarks w wid P"
    and P: "P = (\<lambda>r. workspaceOccurrenceFor r = k) \<or> P = (\<lambda>r. rActionID r = i)"
  shows "filter (permitEvent wid P) evs = []"
  using assms(1,2)
proof (induction rule: indexRun.induct)
  case (run_step w ev w1 evs w')
  have "\<not> permitEvent wid P ev" using permit_marks [OF run_step.hyps(1) _ P, of wid] run_step.prems by blast
  moreover have "fileMarks w1 wid P" by (rule fileMarks_grow [OF indexStep_grow [OF run_step.hyps(1)] run_step.prems])
  ultimately show ?case using run_step.IH by simp
qed simp

lemma permits_at_most_once:
  assumes "indexRun h w evs w'"
    and P: "P = (\<lambda>r. workspaceOccurrenceFor r = k) \<or> P = (\<lambda>r. rActionID r = i)"
  shows "length (filter (permitEvent wid P) evs) \<le> 1"
  using assms(1)
proof (induction rule: indexRun.induct)
  case (run_step w ev w1 evs w')
  show ?case
  proof (cases "permitEvent wid P ev")
    case True
    with permit_marks [OF run_step.hyps(1) True P] permits_after_mark [OF run_step.hyps(2) _ P] show ?thesis by simp
  qed (use run_step.IH in simp)
qed simp

end
