(* ===== verification/RecoveryAuthority.thy ===== *)
theory RecoveryAuthority
  imports WorkspaceOpsFacts
begin

text \<open>
  The \<open>RecoveryAuthority\<close> interface of \<open>durable_contract.go\<close>: the two operations session
  recovery calls on the global index. The laws are what recovery relies on; the
  interpretation at the end discharges them for \<open>WorkspaceQuarantineIndex\<close>.
\<close>

section \<open>Inspecting markers\<close>

text \<open>The decision for a reference, read from the rows of its workspace's file.\<close>

definition decisionAt :: "'h host_scheme \<Rightarrow> 'z index_world_scheme \<Rightarrow> pending_ref \<Rightarrow> pending_decision" where
  "decisionAt h w ref = \<lparr> pdAction = ref, pdMarkerState =
     (case indexFile w (rWorkspaceID ref) of
        None \<Rightarrow> DispatchMarkerUnverifiable
      | Some rows \<Rightarrow>
          (case validateWorkspaceIndexRecords h rows (rWorkspaceID ref) of
             Inl _ \<Rightarrow> DispatchMarkerUnverifiable
           | Inr s \<Rightarrow> markerState s ref)) \<rparr>"

definition readable :: "'h host_scheme \<Rightarrow> 'z index_world_scheme \<Rightarrow> string \<Rightarrow> bool" where
  "readable h w wid \<longleftrightarrow> (\<exists>rows s. indexFile w wid = Some rows \<and> validateWorkspaceIndexRecords h rows wid = Inr s)"

lemma decisionAt_same:
  assumes "sameBut w w'"
  shows "decisionAt h w' ref = decisionAt h w ref" "readable h w' wid = readable h w wid"
  by (simp_all add: decisionAt_def readable_def sameBut_file [OF assms])

definition fillIn :: "('p \<Rightarrow> 'd) \<Rightarrow> 'd list \<Rightarrow> (nat \<times> 'p) list \<Rightarrow> 'd list" where
  "fillIn f ds ps = foldl (\<lambda>ds p. ds[fst p := f (snd p)]) ds ps"

lemma fillIn_append: "fillIn f ds (ps @ qs) = fillIn f (fillIn f ds ps) qs"
  by (simp add: fillIn_def)

lemma fillIn_nth:
  assumes "i < length ds" "\<And>p. p \<in> set ps \<Longrightarrow> fst p = i \<Longrightarrow> f (snd p) = y"
  shows "fillIn f ds ps ! i = (if i \<in> fst ` set ps then y else ds ! i)"
    "length (fillIn f ds ps) = length ds"
proof -
  have "fillIn f ds ps ! i = (if i \<in> fst ` set ps then y else ds ! i) \<and> length (fillIn f ds ps) = length ds"
    using assms
  proof (induction ps arbitrary: ds)
    case (Cons p ps)
    have "fillIn f (ds[fst p := f (snd p)]) ps ! i
        = (if i \<in> fst ` set ps then y else ds[fst p := f (snd p)] ! i)
      \<and> length (fillIn f (ds[fst p := f (snd p)]) ps) = length (ds[fst p := f (snd p)])"
      by (rule Cons.IH) (use Cons.prems in auto)
    with Cons.prems show ?case by (auto simp: fillIn_def nth_list_update)
  qed (simp add: fillIn_def)
  then show "fillIn f ds ps ! i = (if i \<in> fst ` set ps then y else ds ! i)"
    "length (fillIn f ds ps) = length ds" by simp_all
qed

lemma decide_fold:
  assumes "\<forall>p \<in> set part. rWorkspaceID (snd p) = wid"
    and "indexFile w wid = Some rows" "validateWorkspaceIndexRecords h rows wid = Inr s"
  shows "foldl (decide s) ds part = fillIn (decisionAt h w) ds part"
  using assms(1)
proof (induction part arbitrary: ds)
  case (Cons p part)
  have "decide s ds p = ds[fst p := decisionAt h w (snd p)]"
    using Cons.prems assms(2,3) by (simp add: decide_def decisionAt_def)
  with Cons show ?case by (simp add: fillIn_def)
qed (simp add: fillIn_def)

lemma inspectOne_run:
  assumes run: "withLockedIndex h wid (\<lambda>s. bindS (ioStep e0) (\<lambda>_. bindS contextErr
      (\<lambda>_. okS (foldl (decide s) ds part)))) w = (r, w')"
    and part: "\<forall>p \<in> set part. rWorkspaceID (snd p) = wid"
  shows "sameBut w w'" "r = Inr ds' \<longrightarrow> readable h w wid \<and> ds' = fillIn (decisionAt h w) ds part"
proof -
  let ?fn = "\<lambda>s. bindS (ioStep e0) (\<lambda>_. bindS contextErr (\<lambda>_. okS (foldl (decide s) ds part)))"
  obtain c r1 where lk: "withLockedIndexObserved h wid ?fn w = ((c, r1), w')"
    and r: "r = joinClose (c, r1)"
    using run by (cases "withLockedIndexObserved h wid ?fn w") (auto simp: withLockedIndex_def)
  from lk have "sameBut w w' \<and> (\<forall>x. r1 = Inr x \<longrightarrow> readable h w wid \<and> x = fillIn (decisionAt h w) ds part)"
  proof (cases rule: locked_run)
    case (early e)
    then show ?thesis by simp
  next
    case (body rows s w1 w2)
    have s2: "sameBut w1 w2 \<and> (\<forall>x. r1 = Inr x \<longrightarrow> x = foldl (decide s) ds part)"
      using body(5) by (auto simp: bindS_def split: prod.splits sum.splits
          dest!: contextErr_run ioStep_run intro: sameBut_trans)
    have sw: "sameBut w w'" using body(4,6) s2 sameBut_trans by blast
    then show ?thesis
      using s2 decide_fold [OF part body(1,2)] body(1,2) by (auto simp: readable_def)
  qed
  then show "sameBut w w'" "r = Inr ds' \<longrightarrow> readable h w wid \<and> ds' = fillIn (decisionAt h w) ds part"
    using r by (auto simp: joinClose_def split: sum.splits if_splits)
qed

lemma inspectGroups_run:
  assumes "inspectGroups h gs ds w = (r, w')"
    and "\<forall>g \<in> set gs. \<forall>p \<in> set (snd g). rWorkspaceID (snd p) = fst g"
  shows "sameBut w w' \<and> (\<forall>ds'. r = Inr ds' \<longrightarrow>
    (\<forall>g \<in> set gs. readable h w (fst g)) \<and> ds' = fillIn (decisionAt h w) ds (concat (map snd gs)))"
  using assms
proof (induction gs arbitrary: ds w)
  case Nil
  then show ?case by (auto simp: fillIn_def)
next
  case (Cons g gs)
  obtain wid part where g: "g = (wid, part)" by force
  let ?fn = "\<lambda>s. bindS (ioStep (Fault ''confirm workspace index durability before inspection''))
    (\<lambda>_. bindS contextErr (\<lambda>_. okS (foldl (decide s) ds part)))"
  obtain r1 w1 where 1: "withLockedIndex h wid ?fn w = (r1, w1)" by force
  have part: "\<forall>p \<in> set part. rWorkspaceID (snd p) = wid" using Cons.prems(2) g by auto
  note one = inspectOne_run [OF 1 part]
  show ?case
  proof (cases r1)
    case (Inl e)
    with Cons.prems(1) g 1 have "w' = w1" "r = Inl e" by (auto simp: bindS_def)
    with one(1) show ?thesis by simp
  next
    case (Inr ds1)
    with Cons.prems(1) g 1 have "inspectGroups h gs ds1 w1 = (r, w')" by (simp add: bindS_def)
    from Cons.IH [OF this] Cons.prems(2) have ih: "sameBut w1 w' \<and> (\<forall>ds'. r = Inr ds' \<longrightarrow>
      (\<forall>g \<in> set gs. readable h w1 (fst g)) \<and> ds' = fillIn (decisionAt h w1) ds1 (concat (map snd gs)))"
      by auto
    have "decisionAt h w1 = decisionAt h w" "\<And>x. readable h w1 x = readable h w x"
      using decisionAt_same [OF one(1)] by auto
    with ih one(1) one(2) [of ds1] Inr g show ?thesis
      by (auto simp: fillIn_append intro: sameBut_trans)
  qed
qed

lemma mem_enumerate: "p \<in> set (enumerate 0 xs) \<longleftrightarrow> (\<exists>i < length xs. p = (i, xs ! i))"
  by (cases p) (auto simp: in_set_enumerate_eq)

lemma groups_cover:
  "p \<in> set (concat (map snd (inspectGroupsOf refs))) \<longleftrightarrow> (\<exists>i < length refs. p = (i, refs ! i))"
  by (auto simp: inspectGroupsOf_def mem_enumerate intro!: exI [of _ "snd p"])

lemma Inspect_same: "InspectDispatchMarkers h refs w = (r, w') \<Longrightarrow> sameBut w w'"
proof -
  assume run: "InspectDispatchMarkers h refs w = (r, w')"
  obtain r0 w0 where w0: "contextErr w = (r0, w0)" by force
  note s0 = contextErr_run [OF w0]
  have g: "\<forall>g \<in> set (inspectGroupsOf refs). \<forall>p \<in> set (snd g). rWorkspaceID (snd p) = fst g"
    by (auto simp: inspectGroupsOf_def)
  obtain r1 w1 where g1: "inspectGroups h (inspectGroupsOf refs) (replicate (length refs) zeroDecision) w0 = (r1, w1)"
    by force
  show ?thesis
    using run w0 s0 g1 inspectGroups_run [OF g1 g] sameBut_trans
    by (auto simp: InspectDispatchMarkers_def bindS_def split: sum.splits if_splits)
qed

lemma Inspect_decisions:
  assumes run: "InspectDispatchMarkers h refs w = (Inr ds, w')"
  shows "ds = map (decisionAt h w) refs" "\<forall>ref \<in> set refs. readable h w (rWorkspaceID ref)"
    "refs \<noteq> [] \<longrightarrow> (\<exists>seen. foldR checkInspectRef [] refs = Inr seen)"
proof -
  obtain w0 where w0: "contextErr w = (Inr (), w0)"
    using run by (auto simp: InspectDispatchMarkers_def bindS_Inr)
  note s0 = contextErr_run [OF w0]
  have "ds = map (decisionAt h w) refs \<and> (\<forall>ref \<in> set refs. readable h w (rWorkspaceID ref))
      \<and> (refs \<noteq> [] \<longrightarrow> (\<exists>seen. foldR checkInspectRef [] refs = Inr seen))"
  proof (cases "refs = []")
    case True
    with run w0 show ?thesis by (simp add: InspectDispatchMarkers_def bindS_def)
  next
    case False
    with run w0 obtain seen where seen: "foldR checkInspectRef [] refs = Inr seen" and
      i: "inspectGroups h (inspectGroupsOf refs) (replicate (length refs) zeroDecision) w0 = (Inr ds, w')"
      by (auto simp: InspectDispatchMarkers_def bindS_def split: sum.splits)
    have g: "\<forall>g \<in> set (inspectGroupsOf refs). \<forall>p \<in> set (snd g). rWorkspaceID (snd p) = fst g"
      by (auto simp: inspectGroupsOf_def)
    from inspectGroups_run [OF i g] have R: "\<forall>g \<in> set (inspectGroupsOf refs). readable h w0 (fst g)"
      "ds = fillIn (decisionAt h w0) (replicate (length refs) zeroDecision) (concat (map snd (inspectGroupsOf refs)))"
      by auto
    let ?ps = "concat (map snd (inspectGroupsOf refs))"
    have at: "ds ! i = decisionAt h w (refs ! i)" "length ds = length refs" if i: "i < length refs" for i
    proof -
      have "(i, refs ! i) \<in> set ?ps" using groups_cover [of "(i, refs ! i)" refs] i by blast
      then have m: "i \<in> fst ` set ?ps" by (metis fst_conv image_eqI)
      have v: "decisionAt h w0 (snd p) = decisionAt h w (refs ! i)" if "p \<in> set ?ps" "fst p = i" for p
        using that groups_cover [of p refs] decisionAt_same(1) [OF s0] by auto
      have l: "i < length (replicate (length refs) zeroDecision)" using i by simp
      show "ds ! i = decisionAt h w (refs ! i)" "length ds = length refs"
        using fillIn_nth [where f = "decisionAt h w0" and ps = ?ps, OF l v] m unfolding R(2) by simp_all
    qed
    have len: "length ds = length refs" using at(2) [of 0] False by simp
    have "ds = map (decisionAt h w) refs"
      by (rule nth_equalityI) (use at(1) len in simp_all)
    moreover have "readable h w (rWorkspaceID ref)" if "ref \<in> set refs" for ref
      using R(1) that decisionAt_same(2) [OF s0] by (auto simp: inspectGroupsOf_def)
    ultimately show ?thesis using seen by blast
  qed
  then show "ds = map (decisionAt h w) refs" "\<forall>ref \<in> set refs. readable h w (rWorkspaceID ref)"
    "refs \<noteq> [] \<longrightarrow> (\<exists>seen. foldR checkInspectRef [] refs = Inr seen)" by blast+
qed

section \<open>Applying resolutions\<close>

definition recordedResolution :: "index_record list \<Rightarrow> validated_resolution \<Rightarrow> bool" where
  "recordedResolution rows v \<longleftrightarrow> (\<exists>r \<in> set rows. irKind r = WorkspaceIndexResolution
     \<and> irAction r = Some (vrAction v) \<and> irCheckpointID r = vrCheckpointEntryID v
     \<and> irCheckpointSeq r = vrCheckpointSeq v \<and> irResolution r = Some (vrResolution v))"

text \<open>The index covers a resolution: it is recorded, or there was never anything to resolve.\<close>

definition coveredIn :: "index_record list \<Rightarrow> validated_resolution \<Rightarrow> bool" where
  "coveredIn rows v \<longleftrightarrow> recordedResolution rows v
     \<or> (\<not> markedIn rows (vrAction v) \<and> erEvidence (vrResolution v) = ResolutionNeverDispatched)"

definition coveredAt :: "'h host_scheme \<Rightarrow> 'z index_world_scheme \<Rightarrow> validated_resolution \<Rightarrow> bool" where
  "coveredAt h w v \<longleftrightarrow> (\<exists>rows. indexFile w (rWorkspaceID (vrAction v)) = Some rows \<and> coveredIn rows v)"

lemma resolutionRecord_fields [simp]:
  "irKind (resolutionRecord h v) = WorkspaceIndexResolution" "irAction (resolutionRecord h v) = Some (vrAction v)"
  "irCheckpointID (resolutionRecord h v) = vrCheckpointEntryID v"
  "irCheckpointSeq (resolutionRecord h v) = vrCheckpointSeq v"
  "irResolution (resolutionRecord h v) = Some (vrResolution v)"
  by (simp_all add: resolutionRecord_def emptyRecord_def)

text \<open>The loop collects exactly the resolutions of marked, still unresolved actions.\<close>

definition collected :: "index_state \<Rightarrow> validated_resolution \<Rightarrow> bool" where
  "collected s v \<longleftrightarrow> (case actionsByKey s (workspaceActionFor (vrAction v)) of
     None \<Rightarrow> False | Some ix \<Rightarrow> iaResolution ix = None)"

lemma collect_fold:
  assumes "foldR (collectResolution h s) acc vs = Inr acc'"
  shows "fst acc' = fst acc @ map (resolutionRecord h) (filter (collected s) vs)
    \<and> (\<forall>v \<in> set vs. collectResolution h s ([], False) v \<in> range Inr)"
  using assms
proof (induction vs arbitrary: acc)
  case (Cons v vs)
  then obtain a where a: "collectResolution h s acc v = Inr a" "foldR (collectResolution h s) a vs = Inr acc'"
    by (auto split: sum.splits)
  have "fst a = fst acc @ (if collected s v then [resolutionRecord h v] else [])
      \<and> collectResolution h s ([], False) v \<in> range Inr"
    using a(1) by (auto simp: collectResolution_def collected_def split: option.splits if_splits)
  with Cons.IH [OF a(2)] show ?case by simp
qed simp

lemma collectResolution_uncollected:
  assumes I: "indexInv h w rows s" and c: "collectResolution h s ([], False) v \<in> range Inr" "\<not> collected s v"
  shows "coveredIn rows v"
proof (cases "actionsByKey s (workspaceActionFor (vrAction v))")
  case None
  with c(1) have n: "\<not> hasConflictingMarkerReference s (vrAction v)"
    "erEvidence (vrResolution v) = ResolutionNeverDispatched"
    by (auto simp: collectResolution_def split: if_splits)
  have "\<not> markedIn rows (vrAction v)"
    using None keyed_None [of "\<lambda>a. workspaceActionFor (iaRef a)" "ixActions s"]
    unfolding markedIn_iff [OF I] actionsByKey_def by (auto simp: image_iff)
  with n show ?thesis by (simp add: coveredIn_def)
next
  case (Some ix)
  with c obtain x where x: "iaResolution ix = Some x" "iaRef ix = vrAction v"
    "sameWorkspaceResolution x (resolutionRecord h v)"
    by (auto simp: collectResolution_def collected_def split: if_splits option.splits)
  have "ix \<in> set (ixActions s)" using Some keyed_SomeD(1) unfolding actionsByKey_def by fastforce
  from indexInv_D(5) [OF I this x(1)] x(2,3) show ?thesis
    by (auto simp: coveredIn_def recordedResolution_def sameWorkspaceResolution_def)
qed

lemma numberRecords_mem:
  "numberRecords h n rs = Inr rs' \<Longrightarrow> r \<in> set rs \<Longrightarrow> \<exists>r' \<in> set rs'. irKind r' = irKind r \<and> irAction r' = irAction r
     \<and> irCheckpointID r' = irCheckpointID r \<and> irCheckpointSeq r' = irCheckpointSeq r \<and> irResolution r' = irResolution r"
  by (induction h n rs arbitrary: rs' rule: numberRecords.induct)
    (auto simp: Let_def bindR_eq_Inr split: if_splits)

lemma numberRecords_kind:
  "numberRecords h n rs = Inr rs' \<Longrightarrow> \<forall>r \<in> set rs. irKind r = k \<Longrightarrow> \<forall>r \<in> set rs'. irKind r = k"
  by (induction h n rs arbitrary: rs' rule: numberRecords.induct)
    (auto simp: Let_def bindR_eq_Inr split: if_splits)

text \<open>Rows that are no dispatch markers change neither markers nor recorded resolutions.\<close>

lemma coveredIn_append:
  assumes "coveredIn rows v" "\<forall>r \<in> set more'. irKind r = WorkspaceIndexResolution"
  shows "coveredIn (rows @ more') v"
  using assms by (auto simp: coveredIn_def recordedResolution_def markedIn_def)

lemma applyResolutions_run:
  assumes run: "applyResolutions h wid vs s w = (r, w')" and I: "indexInv h wid rows s"
    and rowsF: "indexFile w wid = Some rows"
  shows "\<exists>rs. indexFile w' wid = Some (rows @ rs) \<and> (\<forall>x \<in> set rs. irKind x = WorkspaceIndexResolution)
      \<and> (r = Inr () \<longrightarrow> (\<forall>v \<in> set vs. coveredIn (rows @ rs) v))"
    "wid' \<noteq> wid \<Longrightarrow> indexFile w' wid' = indexFile w wid'"
proof -
  have ix: "ixRecords s = rows" by (rule indexInv_D(1) [OF I])
  have "(\<exists>rs. indexFile w' wid = Some (rows @ rs) \<and> (\<forall>x \<in> set rs. irKind x = WorkspaceIndexResolution)
      \<and> (r = Inr () \<longrightarrow> (\<forall>v \<in> set vs. coveredIn (rows @ rs) v)))
      \<and> (\<forall>wid'. wid' \<noteq> wid \<longrightarrow> indexFile w' wid' = indexFile w wid')"
  proof (cases "foldR (collectResolution h s) ([], False) vs")
    case (Inl e)
    with run rowsF show ?thesis by (auto simp: applyResolutions_def bindS_def)
  next
    case (Inr acc)
    note c = collect_fold [OF Inr]
    have cov: "coveredIn rows v" if "v \<in> set vs" "\<not> collected s v" for v
      using collectResolution_uncollected [OF I] c that by blast
    show ?thesis
    proof (cases "fst acc = []")
      case True
      then have "\<forall>v \<in> set vs. coveredIn rows v" using c cov by (auto simp: filter_empty_conv)
      moreover have "sameBut w w'"
        using run Inr True ioStep_run by (auto simp: applyResolutions_def bindS_def split: if_splits)
      ultimately show ?thesis using rowsF sameBut_file by (intro conjI exI [of _ "[]"]) auto
    next
      case False
      with run Inr have a: "appendRecords h wid s (fst acc) w = (r, w')"
        by (simp add: applyResolutions_def bindS_def)
      have rowsF': "indexFile w wid = Some (ixRecords s)" using rowsF ix by simp
      from a rowsF' show ?thesis
      proof (cases rule: appendRecords_run)
        case same
        then show ?thesis using False rowsF sameBut_file by (intro conjI exI [of _ "[]"]) auto
      next
        case (grown numbered s' n)
        have k: "\<forall>x \<in> set numbered. irKind x = WorkspaceIndexResolution"
          by (rule numberRecords_kind [OF grown(1)]) (use c in auto)
        then have kt: "\<forall>x \<in> set (take n numbered). irKind x = WorkspaceIndexResolution"
          using set_take_subset by fastforce
        have "coveredIn (rows @ take n numbered) v" if r: "r = Inr ()" and v: "v \<in> set vs" for v
        proof (cases "collected s v")
          case True
          then have "resolutionRecord h v \<in> set (fst acc)" using c v by auto
          from numberRecords_mem [OF grown(1) this] grown(4) r show ?thesis
            by (auto simp: coveredIn_def recordedResolution_def)
        next
          case False
          with cov v kt show ?thesis by (intro coveredIn_append) auto
        qed
        with grown(3,5) kt ix show ?thesis by (intro conjI exI [of _ "take n numbered"]) auto
      qed
    qed
  qed
  then show "\<exists>rs. indexFile w' wid = Some (rows @ rs) \<and> (\<forall>x \<in> set rs. irKind x = WorkspaceIndexResolution)
      \<and> (r = Inr () \<longrightarrow> (\<forall>v \<in> set vs. coveredIn (rows @ rs) v))"
    "wid' \<noteq> wid \<Longrightarrow> indexFile w' wid' = indexFile w wid'" by blast+
qed

text \<open>Growing every file by resolution rows only.\<close>

definition resolutionsGrow :: "'z index_world_scheme \<Rightarrow> 'z index_world_scheme \<Rightarrow> bool" where
  "resolutionsGrow w w' \<longleftrightarrow> (\<forall>wid. case indexFile w wid of
       None \<Rightarrow> indexFile w' wid = None
     | Some rows \<Rightarrow> \<exists>rs. indexFile w' wid = Some (rows @ rs) \<and> (\<forall>x \<in> set rs. irKind x = WorkspaceIndexResolution))"

lemma resolutionsGrow_same: "(\<And>wid. indexFile w' wid = indexFile w wid) \<Longrightarrow> resolutionsGrow w w'"
  by (auto simp: resolutionsGrow_def split: option.splits)

lemma resolutionsGrow_Some:
  assumes "resolutionsGrow w w'" "indexFile w wid = Some rows"
  shows "\<exists>rs. indexFile w' wid = Some (rows @ rs) \<and> (\<forall>x \<in> set rs. irKind x = WorkspaceIndexResolution)"
  using assms(1) [unfolded resolutionsGrow_def, rule_format, of wid] assms(2) by simp

lemma resolutionsGrow_None:
  assumes "resolutionsGrow w w'" "indexFile w wid = None"
  shows "indexFile w' wid = None"
  using assms(1) [unfolded resolutionsGrow_def, rule_format, of wid] assms(2) by simp

lemma resolutionsGrow_trans:
  assumes "resolutionsGrow a b" "resolutionsGrow b c"
  shows "resolutionsGrow a c"
  unfolding resolutionsGrow_def
proof
  fix wid
  show "case indexFile a wid of None \<Rightarrow> indexFile c wid = None
     | Some rows \<Rightarrow> \<exists>rs. indexFile c wid = Some (rows @ rs) \<and> (\<forall>x \<in> set rs. irKind x = WorkspaceIndexResolution)"
  proof (cases "indexFile a wid")
    case None
    from resolutionsGrow_None [OF assms(2) resolutionsGrow_None [OF assms(1) this]] None show ?thesis by simp
  next
    case (Some rows)
    then obtain x where x: "indexFile b wid = Some (rows @ x)" "\<forall>q \<in> set x. irKind q = WorkspaceIndexResolution"
      using resolutionsGrow_Some [OF assms(1)] by blast
    then obtain y where "indexFile c wid = Some ((rows @ x) @ y)" "\<forall>q \<in> set y. irKind q = WorkspaceIndexResolution"
      using resolutionsGrow_Some [OF assms(2)] by blast
    with x Some show ?thesis by (auto intro: exI [of _ "x @ y"])
  qed
qed

lemma coveredAt_grow:
  assumes "resolutionsGrow w w'" "coveredAt h w v"
  shows "coveredAt h w' v"
proof -
  from assms(2) obtain rows where r: "indexFile w (rWorkspaceID (vrAction v)) = Some rows" "coveredIn rows v"
    by (auto simp: coveredAt_def)
  then obtain rs where "indexFile w' (rWorkspaceID (vrAction v)) = Some (rows @ rs)"
    "\<forall>x \<in> set rs. irKind x = WorkspaceIndexResolution"
    using resolutionsGrow_Some [OF assms(1)] by blast
  with r(2) show ?thesis by (auto simp: coveredAt_def intro: coveredIn_append)
qed

lemma applyGroups_run:
  assumes "applyGroups h gs w = (r, w')"
  shows "resolutionsGrow w w' \<and> (r = Inr () \<longrightarrow> (\<forall>g \<in> set gs. \<forall>v \<in> set (snd g).
    rWorkspaceID (vrAction v) = fst g \<longrightarrow> coveredAt h w' v))"
  using assms
proof (induction gs arbitrary: w)
  case Nil
  then show ?case by (auto intro: resolutionsGrow_same)
next
  case (Cons g gs)
  obtain wid part where g: "g = (wid, part)" by force
  let ?fn = "\<lambda>s. bindS contextErr (\<lambda>_. applyResolutions h wid part s)"
  obtain c r1 w1 where lk: "withLockedIndexObserved h wid ?fn w = ((c, r1), w1)" by (metis prod.exhaust)
  have one: "resolutionsGrow w w1 \<and> (r1 = Inr () \<longrightarrow> (\<forall>v \<in> set part. rWorkspaceID (vrAction v) = wid \<longrightarrow> coveredAt h w1 v))"
    using lk
  proof (cases rule: locked_run)
    case (early e)
    then show ?thesis using sameBut_file by (auto intro!: resolutionsGrow_same)
  next
    case (body rows s w2 w3)
    obtain r4 w4 where w4: "contextErr w2 = (r4, w4)" by force
    have f4: "indexFile w4 x = indexFile w x" for x
      using sameBut_file [OF contextErr_run [OF w4]] sameBut_file [OF body(4)] by simp
    have f1: "indexFile w1 x = indexFile w3 x" for x using sameBut_file [OF body(6)] .
    show ?thesis
    proof (cases r4)
      case (Inl e)
      with body(5) w4 f4 f1 show ?thesis by (auto simp: bindS_def intro!: resolutionsGrow_same)
    next
      case (Inr u)
      with body(5) w4 have a: "applyResolutions h wid part s w4 = (r1, w3)" by (simp add: bindS_def)
      have rowsF: "indexFile w4 wid = Some rows" using f4 body(1) by simp
      note R = applyResolutions_run [OF a validate_inv(1) [OF body(2)] rowsF]
      have "resolutionsGrow w w1"
        unfolding resolutionsGrow_def
      proof
        fix x
        show "case indexFile w x of None \<Rightarrow> indexFile w1 x = None | Some rows \<Rightarrow> \<exists>rs. indexFile w1 x = Some (rows @ rs)
            \<and> (\<forall>q \<in> set rs. irKind q = WorkspaceIndexResolution)"
        proof (cases "x = wid")
          case True
          with R(1) f1 body(1) show ?thesis by auto
        next
          case False
          with R(2) [OF this] f1 f4 show ?thesis by (auto split: option.splits)
        qed
      qed
      moreover have "coveredAt h w1 v" if "r1 = Inr ()" "v \<in> set part" "rWorkspaceID (vrAction v) = wid" for v
        using R(1) that f1 by (auto simp: coveredAt_def)
      ultimately show ?thesis by blast
    qed
  qed
  have step: "withLockedIndex h wid ?fn w = (joinClose (c, r1), w1)" using lk by (simp add: withLockedIndex_def)
  show ?case
  proof (cases "joinClose (c, r1)")
    case (Inl e)
    with Cons.prems g step have "w' = w1" "r = Inl e" by (auto simp: bindS_def)
    with one show ?thesis by simp
  next
    case (Inr u)
    with Cons.prems g step have rest: "applyGroups h gs w1 = (r, w')" by (simp add: bindS_def)
    have r1: "r1 = Inr ()" using Inr by (auto simp: joinClose_def split: sum.splits if_splits)
    note ih = Cons.IH [OF rest]
    have "coveredAt h w' v" if "v \<in> set part" "rWorkspaceID (vrAction v) = wid" for v
      using one r1 that ih coveredAt_grow by blast
    then show ?thesis using one ih g resolutionsGrow_trans by fastforce
  qed
qed

lemma Apply_run:
  assumes run: "ApplyDurableResolutions h vs w = (r, w')"
  shows "resolutionsGrow w w'" "r = Inr () \<Longrightarrow> v \<in> set vs \<Longrightarrow> coveredAt h w' v"
proof -
  obtain r0 w0 where w0: "contextErr w = (r0, w0)" by force
  have s0: "resolutionsGrow w w0" using sameBut_file [OF contextErr_run [OF w0]] by (intro resolutionsGrow_same)
  have "resolutionsGrow w w' \<and> (r = Inr () \<longrightarrow> (\<forall>v \<in> set vs. coveredAt h w' v))"
  proof (cases "r0 = Inr () \<and> vs \<noteq> [] \<and> (\<exists>gs. groupValidatedResolutions vs = Inr gs)")
    case False
    with run w0 s0 show ?thesis
      by (cases "groupValidatedResolutions vs")
        (auto simp: ApplyDurableResolutions_def bindS_def split: sum.splits if_splits)
  next
    case True
    then obtain gs where gs: "groupValidatedResolutions vs = Inr gs" by blast
    with run w0 True have a: "applyGroups h gs w0 = (r, w')"
      by (auto simp: ApplyDurableResolutions_def bindS_def)
    have mem: "\<exists>g \<in> set gs. v \<in> set (snd g) \<and> rWorkspaceID (vrAction v) = fst g" if "v \<in> set vs" for v
      using gs that by (auto simp: groupValidatedResolutions_def bindR_eq_Inr)
    from applyGroups_run [OF a] mem s0 resolutionsGrow_trans show ?thesis by blast
  qed
  then show "resolutionsGrow w w'" "r = Inr () \<Longrightarrow> v \<in> set vs \<Longrightarrow> coveredAt h w' v" by blast+
qed

section \<open>The interface\<close>

locale recovery_authority =
  fixes applyResolutions' :: "validated_resolution list \<Rightarrow> ('s, unit) op"
    and inspectMarkers :: "pending_ref list \<Rightarrow> ('s, pending_decision list) op"
    and decision :: "'s \<Rightarrow> pending_ref \<Rightarrow> dispatch_marker_state"
    and covered :: "'s \<Rightarrow> validated_resolution \<Rightarrow> bool"
  assumes inspect_echo: "inspectMarkers refs s = (Inr ds, t) \<Longrightarrow>
      ds = map (\<lambda>ref. \<lparr> pdAction = ref, pdMarkerState = decision s ref \<rparr>) refs"
    and inspect_refs: "inspectMarkers refs s = (r, t) \<Longrightarrow> r = Inr ds \<Longrightarrow>
      \<forall>ref \<in> set refs. validatePendingRef ref = Inr ()"
    and inspect_covered: "inspectMarkers refs s = (r, t) \<Longrightarrow> covered t v = covered s v"
    and decision_valid: "validDispatchMarkerState (decision s ref)"
    and decision_unreserved: "rActionID ref = [] \<Longrightarrow>
      decision s ref \<in> {DispatchMarkerAbsent, DispatchMarkerUnverifiable}"
    and apply_covers: "applyResolutions' vs s = (Inr (), t) \<Longrightarrow> v \<in> set vs \<Longrightarrow> covered t v"
    and covered_decision: "covered s v \<Longrightarrow> decision s (vrAction v) \<noteq> DispatchMarkerPresent"
begin

text \<open>The authority's answer always passes recovery's own validation of it.\<close>

lemma decisions_accepted:
  assumes "inspectMarkers refs s = (Inr ds, t)"
    and "distinct (map keyForRef refs)" "distinct (map rActionID (filter (\<lambda>r. rActionID r \<noteq> []) refs))"
  shows "validatePendingActionDecisions refs ds = Inr ()"
proof -
  note ds = inspect_echo [OF assms(1)]
  have "validateDecisionsFrom seen ids rs (map (\<lambda>ref. \<lparr> pdAction = ref, pdMarkerState = decision s ref \<rparr>) rs) = Inr ()"
    if "\<forall>ref \<in> set rs. validatePendingRef ref = Inr ()" "distinct (map keyForRef rs)"
      "distinct (map rActionID (filter (\<lambda>r. rActionID r \<noteq> []) rs))"
      "set seen \<inter> set (map keyForRef rs) = {}" "set ids \<inter> set (map rActionID (filter (\<lambda>r. rActionID r \<noteq> []) rs)) = {}"
    for seen ids rs
    using that
  proof (induction rs arbitrary: seen ids)
    case (Cons ref rs)
    have "validateDecisionsFrom (keyForRef ref # seen) (if rActionID ref \<noteq> [] then rActionID ref # ids else ids) rs
        (map (\<lambda>ref. \<lparr> pdAction = ref, pdMarkerState = decision s ref \<rparr>) rs) = Inr ()"
      by (rule Cons.IH) (use Cons.prems in \<open>auto split: if_splits\<close>)
    then show ?case using Cons.prems decision_valid decision_unreserved [of ref s] by auto
  qed simp
  with inspect_refs [OF assms(1)] assms(2,3) show ?thesis
    by (simp add: validatePendingActionDecisions_def ds)
qed

text \<open>After a successful apply, no resolved action is reported as still dispatched.\<close>

lemma resolved_not_present:
  assumes "applyResolutions' vs s = (Inr (), t)" "inspectMarkers refs t = (Inr ds, u)"
    and "v \<in> set vs" "d \<in> set ds" "pdAction d = vrAction v"
  shows "pdMarkerState d \<noteq> DispatchMarkerPresent"
proof -
  from inspect_echo [OF assms(2)] assms(4,5) have "pdMarkerState d = decision t (vrAction v)" by auto
  with covered_decision [OF apply_covers [OF assms(1,3)]] show ?thesis by simp
qed

end

section \<open>The workspace index is a recovery authority\<close>

lemma checkInspectRef_valid:
  "foldR checkInspectRef seen refs = Inr seen' \<Longrightarrow> ref \<in> set refs \<Longrightarrow> validatePendingRef ref = Inr ()"
  by (induction refs arbitrary: seen)
    (auto simp: checkInspectRef_def bindR_eq_Inr split: sum.splits)

lemma markerState_valid: "validDispatchMarkerState (markerState s ref)"
  by (simp add: markerState_def validDispatchMarkerState_def split: option.splits)

lemma markerState_unreserved:
  assumes "indexInv h w rows s" "rActionID ref = []"
  shows "markerState s ref \<in> {DispatchMarkerAbsent, DispatchMarkerUnverifiable}"
proof -
  have "\<not> markedIn rows ref"
    using indexInv_D(3) [OF assms(1)] assms(2) unfolding markedIn_iff [OF assms(1)]
    by (auto simp: actionsOK_def refOfMarker_def)
  with markerState_present [OF assms(1), of ref] show ?thesis
    by (auto simp: markerState_def split: option.splits if_splits)
qed

definition markerAt :: "'h host_scheme \<Rightarrow> 'z index_world_scheme \<Rightarrow> pending_ref \<Rightarrow> dispatch_marker_state" where
  "markerAt h w ref = pdMarkerState (decisionAt h w ref)"

lemma coveredAt_marker:
  assumes "coveredAt h w v"
  shows "markerAt h w (vrAction v) \<noteq> DispatchMarkerPresent"
proof -
  from assms obtain rows where r: "indexFile w (rWorkspaceID (vrAction v)) = Some rows" "coveredIn rows v"
    by (auto simp: coveredAt_def)
  show ?thesis
  proof (cases "validateWorkspaceIndexRecords h rows (rWorkspaceID (vrAction v))")
    case (Inr s)
    have "\<not> (markedIn rows (vrAction v) \<and> \<not> resolvedIn rows (vrAction v))"
      using r(2) by (auto simp: coveredIn_def recordedResolution_def resolvedIn_def)
    with markerState_present(1) [OF validate_inv(1) [OF Inr], of "vrAction v"] r(1) Inr show ?thesis
      by (simp add: markerAt_def decisionAt_def)
  qed (use r(1) in \<open>simp add: markerAt_def decisionAt_def\<close>)
qed

interpretation index: recovery_authority "ApplyDurableResolutions h" "InspectDispatchMarkers h"
  "markerAt h" "coveredAt h" for h :: "'h host_scheme"
proof
  fix refs :: "pending_ref list" and s t :: "'z index_world_scheme" and ds r v ref
  show "ds = map (\<lambda>ref. \<lparr> pdAction = ref, pdMarkerState = markerAt h s ref \<rparr>) refs"
    if "InspectDispatchMarkers h refs s = (Inr ds, t)"
    unfolding Inspect_decisions(1) [OF that] by (simp add: decisionAt_def markerAt_def)
  show "\<forall>ref \<in> set refs. validatePendingRef ref = Inr ()"
    if "InspectDispatchMarkers h refs s = (r, t)" "r = Inr ds"
    using Inspect_decisions(3) [of h refs s ds t] that checkInspectRef_valid by fastforce
  show "coveredAt h t v = coveredAt h s v" if "InspectDispatchMarkers h refs s = (r, t)"
    using sameBut_file [OF Inspect_same [OF that]] by (simp add: coveredAt_def)
  show "validDispatchMarkerState (markerAt h s ref)"
    by (auto simp: markerAt_def decisionAt_def markerState_valid validDispatchMarkerState_def
        split: option.splits sum.splits)
      (metis markerState_valid validDispatchMarkerState_def)
  show "markerAt h s ref \<in> {DispatchMarkerAbsent, DispatchMarkerUnverifiable}" if "rActionID ref = []"
    using that validate_inv(1) markerState_unreserved
    by (force simp: markerAt_def decisionAt_def split: option.splits sum.splits)
next
  fix vs :: "validated_resolution list" and s t :: "'z index_world_scheme" and v
  show "coveredAt h t v" if "ApplyDurableResolutions h vs s = (Inr (), t)" "v \<in> set vs"
    using Apply_run(2) that by blast
  show "markerAt h s (vrAction v) \<noteq> DispatchMarkerPresent" if "coveredAt h s v"
    by (rule coveredAt_marker [OF that])
qed

end
