(* ===== verification/ParentChains.thy ===== *)
theory ParentChains
  imports RowRules
begin

text \<open>
  Parent chains of the append-only session file: \<open>durableEntryIsAncestor\<close> of
  \<open>durable_recovery.go\<close>, \<open>orderedDurableBranch\<close> of \<open>durable_jsonl.go\<close> and the branch
  checks of \<open>durable_branch.go\<close>. A Go map from IDs to rows is an association list; a later
  assignment is in front. Each walk remembers the IDs it has seen, so it ends even when the
  rows form a cycle: the measure is the number of table keys not yet seen.
\<close>

type_synonym entry_table = "(string \<times> session_entry) list"

definition tableOf :: "session_entry list \<Rightarrow> entry_table" where
  "tableOf rows = rev (map (\<lambda>e. (eID e, e)) rows)"

lemma tableOf_None: "map_of (tableOf rows) x = None \<longleftrightarrow> x \<notin> eID ` set rows"
  by (auto simp: tableOf_def map_of_eq_None_iff image_iff)

lemma tableOf_SomeD:
  assumes "map_of (tableOf rows) x = Some e"
  shows "e \<in> set rows" "eID e = x"
  using map_of_SomeD [OF assms] by (auto simp: tableOf_def)

lemma tableOf_distinct:
  assumes "distinct (map eID rows)" "e \<in> set rows"
  shows "map_of (tableOf rows) (eID e) = Some e"
proof (rule map_of_is_SomeI)
  show "distinct (map fst (tableOf rows))"
    using assms(1) by (simp add: tableOf_def rev_map [symmetric] comp_def)
  show "(eID e, e) \<in> set (tableOf rows)"
    using assms(2) by (auto simp: tableOf_def)
qed

section \<open>Walking a chain of parents\<close>

lemma seen_measure:
  assumes "x \<in> fst ` set tab" "x \<notin> set seen"
  shows "card (fst ` set tab - insert x (set seen)) < card (fst ` set tab - set seen)"
  by (rule psubset_card_mono) (use assms in auto)

lemma map_of_key: "map_of tab x = Some v \<Longrightarrow> x \<in> fst ` set tab"
  by (force dest: map_of_SomeD)

text \<open>The node reached after \<open>n\<close> parent steps, if every step is defined.\<close>

fun chainNode :: "(string \<Rightarrow> string option) \<Rightarrow> nat \<Rightarrow> string \<Rightarrow> string option" where
  "chainNode par 0 x = Some x"
| "chainNode par (Suc n) x = (case par x of None \<Rightarrow> None | Some y \<Rightarrow> chainNode par n y)"

lemma chainNode_add:
  "chainNode par (m + n) x =
     (case chainNode par m x of None \<Rightarrow> None | Some y \<Rightarrow> chainNode par n y)"
  by (induction m arbitrary: x) (auto split: option.splits)

definition entryParent :: "entry_table \<Rightarrow> string \<Rightarrow> string option" where
  "entryParent tab x = (if x = [] then None else map_option eParentID (map_of tab x))"

function ancestorLoop :: "entry_table \<Rightarrow> string list \<Rightarrow> string \<Rightarrow> string \<Rightarrow> bool" where
  "ancestorLoop tab seen anc cur =
     (if cur = [] then False
      else if cur \<in> set seen then False
      else case map_of tab cur of
        None \<Rightarrow> False
      | Some e \<Rightarrow>
          if eParentID e = anc then True
          else ancestorLoop tab (cur # seen) anc (eParentID e))"
  by pat_completeness auto
termination
  by (relation "measure (\<lambda>(tab, seen, _, _). card (fst ` set tab - set seen))")
     (auto intro: seen_measure map_of_key)

declare ancestorLoop.simps [simp del]

definition durableEntryIsAncestor :: "entry_table \<Rightarrow> string \<Rightarrow> string \<Rightarrow> bool" where
  "durableEntryIsAncestor tab anc desc =
     (if anc = [] \<or> desc = [] \<or> anc = desc then False else ancestorLoop tab [] anc desc)"

definition durableEntryOnPath :: "entry_table \<Rightarrow> string \<Rightarrow> string \<Rightarrow> bool" where
  "durableEntryOnPath tab entryID leafID \<longleftrightarrow>
     entryID = leafID \<or> durableEntryIsAncestor tab entryID leafID"

lemma ancestorLoop_sound:
  "ancestorLoop tab seen anc cur \<Longrightarrow> \<exists>n. chainNode (entryParent tab) (Suc n) cur = Some anc"
proof (induction tab seen anc cur rule: ancestorLoop.induct)
  case (1 tab seen anc cur)
  from "1.prems" obtain e where e: "cur \<noteq> []" "cur \<notin> set seen" "map_of tab cur = Some e"
    and step: "eParentID e = anc \<or> ancestorLoop tab (cur # seen) anc (eParentID e)"
    by (subst (asm) ancestorLoop.simps) (auto split: if_splits option.splits)
  have par: "entryParent tab cur = Some (eParentID e)"
    using e by (simp add: entryParent_def)
  show ?case
  proof (cases "eParentID e = anc")
    case True
    with par have "chainNode (entryParent tab) (Suc 0) cur = Some anc" by simp
    then show ?thesis by blast
  next
    case False
    with step "1.IH" [OF e False] obtain n where
      "chainNode (entryParent tab) (Suc n) (eParentID e) = Some anc" by auto
    with par have "chainNode (entryParent tab) (Suc (Suc n)) cur = Some anc" by simp
    then show ?thesis by blast
  qed
qed

lemma ancestorLoop_complete:
  assumes "chainNode (entryParent tab) (Suc n) cur = Some anc"
    and "\<And>m. m < n \<Longrightarrow> chainNode (entryParent tab) (Suc m) cur \<noteq> Some anc"
    and "\<And>i y. i \<le> n \<Longrightarrow> chainNode (entryParent tab) i cur = Some y \<Longrightarrow> y \<notin> set seen"
  shows "ancestorLoop tab seen anc cur"
  using assms
proof (induction n arbitrary: cur seen)
  case 0
  then have "cur \<notin> set seen" by force
  with 0(1) show ?case
    by (auto simp: ancestorLoop.simps [of tab seen] entryParent_def split: option.splits if_splits)
next
  case (Suc n)
  from Suc.prems(1) obtain e where cur: "cur \<noteq> []" and e: "map_of tab cur = Some e"
    by (auto simp: entryParent_def split: option.splits if_splits)
  then have par: "entryParent tab cur = Some (eParentID e)" by (simp add: entryParent_def)
  have notseen: "cur \<notin> set seen" using Suc.prems(3) [of 0 cur] by simp
  have ne: "eParentID e \<noteq> anc" using Suc.prems(2) [of 0] par by simp
  have "ancestorLoop tab (cur # seen) anc (eParentID e)"
  proof (rule Suc.IH)
    show "chainNode (entryParent tab) (Suc n) (eParentID e) = Some anc"
      using Suc.prems(1) par by simp
    show "chainNode (entryParent tab) (Suc m) (eParentID e) \<noteq> Some anc" if "m < n" for m
      using Suc.prems(2) [of "Suc m"] that par by simp
    fix i y
    assume i: "i \<le> n" and y: "chainNode (entryParent tab) i (eParentID e) = Some y"
    have "y \<noteq> cur"
    proof
      assume "y = cur"
      then have loop: "chainNode (entryParent tab) (Suc i) cur = Some cur" using y par by simp
      have "chainNode (entryParent tab) (Suc i + (Suc n - i)) cur = Some anc"
        using Suc.prems(1) i by simp
      then have "chainNode (entryParent tab) (Suc n - i) cur = Some anc"
        unfolding chainNode_add loop by simp
      then show False using Suc.prems(2) [of "n - i"] i by (simp add: Suc_diff_le less_Suc_eq_le)
    qed
    moreover have "y \<notin> set seen"
      using Suc.prems(3) [of "Suc i" y] i y par by simp
    ultimately show "y \<notin> set (cur # seen)" by simp
  qed
  with cur e notseen ne show ?case
    by (subst ancestorLoop.simps) simp
qed

text \<open>
  The loop with its seen-set decides exactly the transitive parent relation, for every
  table, cyclic or not.
\<close>

lemma durableEntryIsAncestor_iff:
  "durableEntryIsAncestor tab anc desc \<longleftrightarrow>
     anc \<noteq> [] \<and> desc \<noteq> [] \<and> anc \<noteq> desc
     \<and> (\<exists>n. chainNode (entryParent tab) (Suc n) desc = Some anc)"
proof -
  have "ancestorLoop tab [] anc desc"
    if ex: "\<exists>n. chainNode (entryParent tab) (Suc n) desc = Some anc"
  proof (rule ancestorLoop_complete [where n = "LEAST n. chainNode (entryParent tab) (Suc n) desc = Some anc"])
    show "chainNode (entryParent tab) (Suc (LEAST n. chainNode (entryParent tab) (Suc n) desc = Some anc)) desc
        = Some anc"
      using ex by (rule LeastI_ex)
  qed (auto dest: not_less_Least)
  then show ?thesis
    using ancestorLoop_sound [of tab "[]" anc desc]
    by (auto simp: durableEntryIsAncestor_def simp del: chainNode.simps)
qed

section \<open>The active branch, root to leaf\<close>

function orderLoop ::
  "entry_table \<Rightarrow> string list \<Rightarrow> session_entry list \<Rightarrow> string \<Rightarrow> go_error + session_entry list" where
  "orderLoop tab seen ordered leafID =
     (if leafID = [] then Inr ordered
      else if leafID \<in> set seen then Inl (Fault ''durable parent chain contains a cycle'')
      else case map_of tab leafID of
        None \<Rightarrow> Inl (Fault ''active leaf is missing from durable entries'')
      | Some e \<Rightarrow> orderLoop tab (leafID # seen) (ordered @ [e]) (eParentID e))"
  by pat_completeness auto
termination
  by (relation "measure (\<lambda>(tab, seen, _, _). card (fst ` set tab - set seen))")
     (auto intro: seen_measure map_of_key)

declare orderLoop.simps [simp del]

definition orderedDurableBranch :: "string \<Rightarrow> entry_table \<Rightarrow> go_error + session_entry list" where
  "orderedDurableBranch leafID tab =
     (case orderLoop tab [] [] leafID of Inl e \<Rightarrow> Inl e | Inr ordered \<Rightarrow> Inr (rev ordered))"

text \<open>
  The specification: \<open>rootPath tab leaf rows\<close> says that \<open>rows\<close> is the chain of rows from
  a root to \<open>leaf\<close>, each the parent of the next.
\<close>

inductive rootPath :: "entry_table \<Rightarrow> string \<Rightarrow> session_entry list \<Rightarrow> bool" for tab where
  root: "rootPath tab [] []"
| step: "x \<noteq> [] \<Longrightarrow> map_of tab x = Some e \<Longrightarrow> rootPath tab (eParentID e) rows
     \<Longrightarrow> rootPath tab x (rows @ [e])"

inductive_simps rootPath_Nil [simp]: "rootPath tab [] rows"

lemma rootPath_step_cases:
  assumes "rootPath tab x rows" "x \<noteq> []"
  obtains e rows0 where "map_of tab x = Some e" "rows = rows0 @ [e]" "rootPath tab (eParentID e) rows0"
  using assms by (cases rule: rootPath.cases) auto

lemma rootPath_unique: "rootPath tab x rows \<Longrightarrow> rootPath tab x rows' \<Longrightarrow> rows = rows'"
proof (induction arbitrary: rows' rule: rootPath.induct)
  case root
  then show ?case by (cases rule: rootPath.cases) auto
next
  case (step x e rows)
  from step.prems step.hyps(1) obtain e' rows0 where
    "map_of tab x = Some e'" "rows' = rows0 @ [e']" "rootPath tab (eParentID e') rows0"
    by (rule rootPath_step_cases)
  with step.hyps step.IH show ?case by simp
qed

lemma rootPath_prefix:
  assumes "rootPath tab x rows" "rows = us @ v # vs"
  shows "\<exists>y. y \<noteq> [] \<and> map_of tab y = Some v \<and> rootPath tab y (us @ [v])"
  using assms
proof (induction arbitrary: vs rule: rootPath.induct)
  case root
  then show ?case by simp
next
  case (step x e rows)
  show ?case
  proof (cases vs rule: rev_cases)
    case Nil
    with step show ?thesis by (auto intro: rootPath.step)
  next
    case (snoc vs' z)
    with step show ?thesis by auto
  qed
qed

lemma orderLoop_sound:
  "orderLoop tab seen ordered x = Inr res \<Longrightarrow>
     \<exists>rows. rootPath tab x rows \<and> res = ordered @ rev rows"
proof (induction tab seen ordered x rule: orderLoop.induct)
  case (1 tab seen ordered x)
  show ?case
  proof (cases "x = []")
    case True
    with "1.prems" show ?thesis
      by (subst (asm) orderLoop.simps) (auto intro: rootPath.root)
  next
    case False
    with "1.prems" obtain e where e: "x \<notin> set seen" "map_of tab x = Some e"
      and rest: "orderLoop tab (x # seen) (ordered @ [e]) (eParentID e) = Inr res"
      by (subst (asm) orderLoop.simps) (auto split: if_splits option.splits)
    from "1.IH" [OF False e rest] obtain rows where
      "rootPath tab (eParentID e) rows" "res = (ordered @ [e]) @ rev rows" by blast
    with False e have "rootPath tab x (rows @ [e])" "res = ordered @ rev (rows @ [e])"
      by (auto intro: rootPath.step)
    then show ?thesis by blast
  qed
qed

text \<open>The IDs visited on the way to the root; on a finite path they do not repeat.\<close>

inductive visits :: "entry_table \<Rightarrow> string \<Rightarrow> string \<Rightarrow> bool" for tab where
  here: "x \<noteq> [] \<Longrightarrow> visits tab x x"
| up: "x \<noteq> [] \<Longrightarrow> map_of tab x = Some e \<Longrightarrow> visits tab (eParentID e) y \<Longrightarrow> visits tab x y"

lemma visits_rootPath:
  "visits tab x y \<Longrightarrow> rootPath tab x rows \<Longrightarrow> \<exists>rows'. rootPath tab y rows' \<and> length rows' \<le> length rows"
proof (induction arbitrary: rows rule: visits.induct)
  case (here x)
  then show ?case by blast
next
  case (up x e y)
  from up.prems up.hyps(1) obtain e' rows0 where
    "map_of tab x = Some e'" "rows = rows0 @ [e']" "rootPath tab (eParentID e') rows0"
    by (rule rootPath_step_cases)
  with up.hyps up.IH [of rows0] show ?case by auto
qed

lemma orderLoop_complete:
  "rootPath tab x rows \<Longrightarrow> (\<And>y. visits tab x y \<Longrightarrow> y \<notin> set seen) \<Longrightarrow>
     orderLoop tab seen ordered x = Inr (ordered @ rev rows)"
proof (induction arbitrary: seen ordered rule: rootPath.induct)
  case root
  show ?case by (subst orderLoop.simps) simp
next
  case (step x e rows)
  have path: "rootPath tab x (rows @ [e])" using step.hyps by (auto intro: rootPath.step)
  have "x \<notin> set seen" using step.prems [OF visits.here] step.hyps by simp
  moreover have "orderLoop tab (x # seen) (ordered @ [e]) (eParentID e)
      = Inr ((ordered @ [e]) @ rev rows)"
  proof (rule step.IH)
    fix y assume y: "visits tab (eParentID e) y"
    then have "y \<notin> set seen" using step by (blast intro: visits.up)
    moreover have "y \<noteq> x"
    proof
      assume "y = x"
      with visits_rootPath [OF y step.hyps(3)] obtain rows' where
        "rootPath tab x rows'" "length rows' \<le> length rows" by blast
      then show False using rootPath_unique [OF path, of rows'] by auto
    qed
    ultimately show "y \<notin> set (x # seen)" by simp
  qed
  ultimately show ?case
    using step.hyps by (subst orderLoop.simps) simp
qed

lemma orderedDurableBranch_iff:
  "orderedDurableBranch leaf tab = Inr rows \<longleftrightarrow> rootPath tab leaf rows"
proof
  assume "orderedDurableBranch leaf tab = Inr rows"
  then obtain ord where "orderLoop tab [] [] leaf = Inr ord" "rows = rev ord"
    by (auto simp: orderedDurableBranch_def split: sum.splits)
  with orderLoop_sound show "rootPath tab leaf rows" by fastforce
next
  assume "rootPath tab leaf rows"
  then have "orderLoop tab [] [] leaf = Inr ([] @ rev rows)"
    by (rule orderLoop_complete) simp
  then show "orderedDurableBranch leaf tab = Inr rows"
    by (simp add: orderedDurableBranch_def)
qed

lemma rootPath_linked:
  assumes "rootPath tab leaf rows" "\<And>x e. map_of tab x = Some e \<Longrightarrow> eID e = x"
  shows "map eParentID rows = take (length rows) ([] # map eID rows)"
    and "leaf = (if rows = [] then [] else eID (last rows))"
  using assms
proof (induction rule: rootPath.induct)
  case (step x e rows)
  { case 1
    with step show ?case
      by (cases rows rule: rev_cases) (auto simp: take_Cons' split: if_splits) }
  { case 2
    with step show ?case by simp }
qed auto

lemma rootPath_mem:
  "rootPath tab leaf rows \<Longrightarrow> e \<in> set rows \<Longrightarrow> \<exists>x. map_of tab x = Some e"
  by (induction rule: rootPath.induct) auto

lemma rootPath_distinct:
  assumes "rootPath tab leaf rows"
  shows "distinct rows"
  using assms
proof (induction rule: rootPath.induct)
  case (step x e rows)
  have "e \<notin> set rows"
  proof
    assume "e \<in> set rows"
    then obtain us vs where rows: "rows = us @ e # vs" by (auto simp: in_set_conv_decomp)
    from rootPath_prefix [OF step.hyps(3) rows] obtain y where
      y: "rootPath tab y (us @ [e])" "y \<noteq> []" by blast
    then obtain e' us' where "us @ [e] = us' @ [e']" "rootPath tab (eParentID e') us'"
      by (rule rootPath_step_cases)
    then have "rootPath tab (eParentID e) us" by simp
    then show False using rootPath_unique [OF step.hyps(3), of us] rows by auto
  qed
  with step show ?case by simp
qed simp

end
