(* ===== verification/BranchJournal.thy ===== *)
theory BranchJournal
  imports ParentChains
begin

text \<open>
  The file-order checks of \<open>internal/session/durable_branch.go\<close>: a branch checkpoint is the
  only row that introduces a branch, every version 1 row continues a row of its own branch or
  of a branch it descends from, and no run repeats a transcript index or an assistant
  ordinal. The lemmas state what an accepted file satisfies.
\<close>

section \<open>Branch ancestry\<close>

text \<open>\<open>branches\<close> maps a branch to its parent branch; \<open>main\<close> has the empty parent.\<close>

type_synonym branch_table = "(string \<times> string) list"

function branchLoop :: "branch_table \<Rightarrow> string list \<Rightarrow> string \<Rightarrow> string \<Rightarrow> bool" where
  "branchLoop branches seen candidate current =
     (if current = [] then False
      else if current = candidate then True
      else if current \<in> set seen then False
      else case map_of branches current of
        None \<Rightarrow> False
      | Some parent \<Rightarrow> branchLoop branches (current # seen) candidate parent)"
  by pat_completeness auto
termination
  by (relation "measure (\<lambda>(tab, seen, _, _). card (fst ` set tab - set seen))")
     (auto intro: seen_measure map_of_key)

declare branchLoop.simps [simp del]

definition durableBranchContains :: "branch_table \<Rightarrow> string \<Rightarrow> string \<Rightarrow> bool" where
  "durableBranchContains branches branchID candidate =
     (if branchID = [] \<or> candidate = [] then False
      else branchLoop branches [] candidate branchID)"

text \<open>The specification: \<open>candidate\<close> is \<open>branchID\<close> or one of its ancestors.\<close>

inductive descends :: "branch_table \<Rightarrow> string \<Rightarrow> string \<Rightarrow> bool" for branches where
  self: "b \<noteq> [] \<Longrightarrow> descends branches b b"
| up: "b \<noteq> [] \<Longrightarrow> map_of branches b = Some p \<Longrightarrow> descends branches p c \<Longrightarrow> descends branches b c"

lemma branchLoop_sound: "branchLoop branches seen c b \<Longrightarrow> descends branches b c"
proof (induction branches seen c b rule: branchLoop.induct)
  case (1 branches seen c b)
  then have ne: "b \<noteq> []" by (subst (asm) branchLoop.simps) (auto split: if_splits)
  show ?case
  proof (cases "b = c")
    case True
    with ne show ?thesis by (auto intro: descends.self)
  next
    case False
    with "1.prems" ne obtain p where p: "b \<notin> set seen" "map_of branches b = Some p"
      and rest: "branchLoop branches (b # seen) c p"
      by (subst (asm) branchLoop.simps) (auto split: if_splits option.splits)
    from "1.IH" [OF ne False p rest] ne p show ?thesis by (auto intro: descends.up)
  qed
qed

text \<open>The branches a walk to \<open>c\<close> passes through, as a list without repetition.\<close>

inductive branchWalk :: "branch_table \<Rightarrow> string \<Rightarrow> string list \<Rightarrow> string \<Rightarrow> bool" for branches where
  done_walk: "b \<noteq> [] \<Longrightarrow> branchWalk branches b [] b"
| step_walk: "b \<noteq> [] \<Longrightarrow> b \<noteq> c \<Longrightarrow> map_of branches b = Some p \<Longrightarrow> branchWalk branches p bs c
     \<Longrightarrow> b \<notin> set bs \<Longrightarrow> branchWalk branches b (b # bs) c"

lemma branchWalk_suffix:
  "branchWalk branches b bs c \<Longrightarrow> d \<in> set bs \<Longrightarrow> \<exists>ds. branchWalk branches d ds c"
  by (induction rule: branchWalk.induct) (auto intro: branchWalk.intros)

lemma descends_walk: "descends branches b c \<Longrightarrow> \<exists>bs. branchWalk branches b bs c"
proof (induction rule: descends.induct)
  case (self b)
  then show ?case by (auto intro: branchWalk.done_walk)
next
  case (up b p c)
  then obtain bs where bs: "branchWalk branches p bs c" by blast
  consider "b = c" | "b \<in> set bs" | "b \<noteq> c" "b \<notin> set bs" by blast
  then show ?case
  proof cases
    case 1
    with up.hyps(1) show ?thesis by (auto intro: branchWalk.done_walk)
  next
    case 2
    with bs show ?thesis by (rule branchWalk_suffix)
  next
    case 3
    with up.hyps bs show ?thesis by (blast intro: branchWalk.step_walk)
  qed
qed

lemma branchLoop_walk:
  "branchWalk branches b bs c \<Longrightarrow> set bs \<inter> set seen = {} \<Longrightarrow> branchLoop branches seen c b"
proof (induction arbitrary: seen rule: branchWalk.induct)
  case (done_walk b)
  then show ?case by (subst branchLoop.simps) simp
next
  case (step_walk b c p bs)
  then have "branchLoop branches (b # seen) c p" by auto
  with step_walk show ?case by (subst branchLoop.simps) simp
qed

lemma descends_ne: "descends branches b c \<Longrightarrow> b \<noteq> [] \<and> c \<noteq> []"
  by (induction rule: descends.induct) auto

lemma durableBranchContains_iff: "durableBranchContains branches b c \<longleftrightarrow> descends branches b c"
proof
  assume "durableBranchContains branches b c"
  then show "descends branches b c"
    by (auto simp: durableBranchContains_def split: if_splits dest: branchLoop_sound)
next
  assume d: "descends branches b c"
  then obtain bs where "branchWalk branches b bs c" using descends_walk by blast
  then have "branchLoop branches [] c b" by (rule branchLoop_walk) simp
  with descends_ne [OF d] show "durableBranchContains branches b c"
    by (simp add: durableBranchContains_def)
qed

section \<open>The branch journal\<close>

record branch_journal =
  bjBranches :: branch_table
  bjEntryBranches :: "(string \<times> string) list"
  bjKnown :: "string list"

definition branchOf :: "session_entry \<Rightarrow> string" where
  "branchOf e = (if eBranchID e = [] then ''main'' else eBranchID e)"

definition introducesBranch :: "session_entry \<Rightarrow> bool" where
  "introducesBranch e \<longleftrightarrow> eType e = EntryTypeCheckpoint \<and> eCheckpointKind e = CheckpointBranch"

definition recordEntryBranch :: "branch_journal \<Rightarrow> session_entry \<Rightarrow> branch_journal" where
  "recordEntryBranch j e = j \<lparr> bjKnown := eID e # bjKnown j,
     bjEntryBranches := (eID e, branchOf e) # bjEntryBranches j \<rparr>"

definition introduceBranch :: "branch_journal \<Rightarrow> session_entry \<Rightarrow> go_error + branch_journal" where
  "introduceBranch j e =
     (if branchOf e = ''main'' \<or> eParentBranchID e = []
        then Inl (Fault ''branch checkpoint has invalid branch ancestry'')
      else if map_of (bjBranches j) (branchOf e) \<noteq> None
        then Inl (Fault ''branch checkpoint reuses branch ID'')
      else if map_of (bjBranches j) (eParentBranchID e) = None
        then Inl (Fault ''branch checkpoint names unknown parent branch'')
      else (case map_of (bjEntryBranches j) (eBaseLeafEntryID e) of
          None \<Rightarrow> Inl (Fault ''branch checkpoint names unknown base leaf'')
        | Some baseBranch \<Rightarrow>
            if \<not> durableBranchContains (bjBranches j) (eParentBranchID e) baseBranch
              then Inl (Fault ''base leaf is outside parent branch'')
            else Inr (j \<lparr> bjBranches := (branchOf e, eParentBranchID e) # bjBranches j \<rparr>)))"

definition entryBranchOf :: "branch_journal \<Rightarrow> string \<Rightarrow> string" where
  "entryBranchOf j x = (case map_of (bjEntryBranches j) x of None \<Rightarrow> [] | Some b \<Rightarrow> b)"

definition checkParentBranch :: "branch_journal \<Rightarrow> session_entry \<Rightarrow> go_error + unit" where
  "checkParentBranch j e =
     (if eParentID e = [] then Inr ()
      else if eParentID e \<notin> set (bjKnown j) then Inl (Fault ''unknown parent in branch validation'')
      else if \<not> durableBranchContains (bjBranches j) (branchOf e) (entryBranchOf j (eParentID e))
        then Inl (Fault ''entry branches from unrelated branch'')
      else Inr ())"

definition checkActiveLeaf :: "branch_journal \<Rightarrow> session_entry \<Rightarrow> go_error + unit" where
  "checkActiveLeaf j e =
     (if eType e = EntryTypeCheckpoint \<and> eCheckpointKind e = CheckpointActiveLeaf
         \<and> eActiveLeafEntryID e \<noteq> eID e then
        (case map_of (bjEntryBranches j) (eActiveLeafEntryID e) of
           None \<Rightarrow> Inl (Fault ''active-leaf checkpoint points outside known branch'')
         | Some leafBranch \<Rightarrow>
             if \<not> durableBranchContains (bjBranches j) (branchOf e) leafBranch
               then Inl (Fault ''active-leaf checkpoint points outside known branch'')
             else Inr ())
      else Inr ())"

definition branchJournalStep :: "branch_journal \<Rightarrow> session_entry \<Rightarrow> go_error + branch_journal" where
  "branchJournalStep j e =
     (if eRecordVersion e \<noteq> 1 then
        Inr (if eID e \<noteq> [] then recordEntryBranch j e else j)
      else bindR
        (if introducesBranch e then introduceBranch j e
         else if map_of (bjBranches j) (branchOf e) = None
           then Inl (Fault ''entry refers to unknown branch'')
         else Inr j)
        (\<lambda>j'. bindR (checkParentBranch j' e)
          (\<lambda>_. bindR (checkActiveLeaf j' e) (\<lambda>_. Inr (recordEntryBranch j' e)))))"

definition initialBranchJournal :: branch_journal where
  "initialBranchJournal = \<lparr> bjBranches = [(''main'', [])], bjEntryBranches = [], bjKnown = [] \<rparr>"

definition branchJournal :: "session_entry list \<Rightarrow> go_error + branch_journal" where
  "branchJournal entries = foldR branchJournalStep initialBranchJournal entries"

definition validateDurableBranchJournal :: "session_entry list \<Rightarrow> go_error + unit" where
  "validateDurableBranchJournal entries =
     (case branchJournal entries of Inl e \<Rightarrow> Inl e | Inr _ \<Rightarrow> Inr ())"

text \<open>Every branch of a well-formed table descends from \<open>main\<close>.\<close>

definition rooted :: "branch_table \<Rightarrow> bool" where
  "rooted branches \<longleftrightarrow> (\<forall>b p. map_of branches b = Some p \<longrightarrow> descends branches b ''main'')"

lemma descends_extend:
  assumes "descends branches b c" "map_of branches x = None"
  shows "descends ((x, p) # branches) b c"
  using assms
proof (induction rule: descends.induct)
  case (self b)
  then show ?case by (auto intro: descends.self)
next
  case (up b q c)
  then have "map_of ((x, p) # branches) b = Some q" by auto
  with up show ?case by (auto intro: descends.up)
qed

lemma rooted_extend:
  assumes "rooted branches" "map_of branches x = None" "map_of branches p = Some q" "x \<noteq> []"
  shows "rooted ((x, p) # branches)"
  unfolding rooted_def
proof (intro allI impI)
  fix b r assume b: "map_of ((x, p) # branches) b = Some r"
  have p: "descends ((x, p) # branches) p ''main''"
    using assms by (auto simp: rooted_def intro: descends_extend)
  show "descends ((x, p) # branches) b ''main''"
  proof (cases "b = x")
    case True
    with p assms(4) show ?thesis by (auto intro: descends.up)
  next
    case False
    with b assms(1,2) show ?thesis by (auto simp: rooted_def intro: descends_extend)
  qed
qed

definition branchJournalInv :: "session_entry list \<Rightarrow> branch_journal \<Rightarrow> bool" where
  "branchJournalInv rows j \<longleftrightarrow>
     rooted (bjBranches j)
     \<and> map_of (bjBranches j) ''main'' \<noteq> None
     \<and> (\<forall>e \<in> set rows. eRecordVersion e = 1 \<longrightarrow> map_of (bjBranches j) (branchOf e) \<noteq> None)
     \<and> set (bjKnown j) \<subseteq> eID ` set rows
     \<and> (\<forall>e \<in> set rows. eRecordVersion e = 1 \<longrightarrow> eID e \<in> set (bjKnown j))"

lemma branchOf_ne [simp]: "branchOf e \<noteq> []"
  by (simp add: branchOf_def)

lemma branchJournalStep_inv:
  assumes "branchJournalInv rows j" "branchJournalStep j e = Inr j'"
  shows "branchJournalInv (rows @ [e]) j'"
proof (cases "eRecordVersion e = 1")
  case False
  with assms show ?thesis
    by (auto simp: branchJournalInv_def branchJournalStep_def recordEntryBranch_def split: if_splits)
next
  case True
  with assms(2) obtain j1 where j': "j' = recordEntryBranch j1 e" and
    step: "(if introducesBranch e then introduceBranch j e = Inr j1
            else map_of (bjBranches j) (branchOf e) \<noteq> None \<and> j1 = j)"
    by (auto simp: branchJournalStep_def bindR_eq_Inr split: if_splits)
  have known: "bjKnown j1 = bjKnown j" and ext:
    "bjBranches j1 = bjBranches j \<or>
       (\<exists>p q. bjBranches j1 = (branchOf e, p) # bjBranches j
          \<and> map_of (bjBranches j) (branchOf e) = None \<and> map_of (bjBranches j) p = Some q)"
    using step by (auto simp: introduceBranch_def split: if_splits option.splits)
  have main: "map_of (bjBranches j1) (branchOf e) \<noteq> None"
    using step by (auto simp: introduceBranch_def split: if_splits option.splits)
  have grow: "map_of (bjBranches j) b \<noteq> None \<Longrightarrow> map_of (bjBranches j1) b \<noteq> None" for b
    using ext by auto
  have "rooted (bjBranches j)" using assms(1) by (simp add: branchJournalInv_def)
  with ext have "rooted (bjBranches j1)"
    using rooted_extend [OF _ _ _ branchOf_ne] by metis
  with known main grow assms(1) j' show ?thesis
    by (auto simp: branchJournalInv_def recordEntryBranch_def)
qed

lemma rooted_main: "rooted [(''main'', [])]"
  by (auto simp: rooted_def intro: descends.self split: if_splits)

lemma branchJournal_inv:
  assumes "branchJournal rows = Inr j"
  shows "branchJournalInv rows j"
  using assms unfolding branchJournal_def
proof (rule foldR_prefix_invariant)
  show "branchJournalInv [] initialBranchJournal"
    by (simp add: branchJournalInv_def initialBranchJournal_def rooted_main)
qed (auto intro: branchJournalStep_inv)

lemma branchJournalStep_known:
  assumes "branchJournalStep j e = Inr j'" "eRecordVersion e = 1" "eParentID e \<noteq> []"
  shows "eParentID e \<in> set (bjKnown j)"
proof -
  from assms(1,2) obtain j1 where "checkParentBranch j1 e = Inr ()"
    "introducesBranch e \<longrightarrow> introduceBranch j e = Inr j1" "\<not> introducesBranch e \<longrightarrow> j1 = j"
    by (auto simp: branchJournalStep_def bindR_eq_Inr split: if_splits)
  with assms(3) show ?thesis
    by (cases "introducesBranch e")
      (auto simp: checkParentBranch_def introduceBranch_def split: if_splits option.splits)
qed

lemma branchJournal_parents:
  assumes "branchJournal rows = Inr j" "rows = us @ e # vs" "eRecordVersion e = 1" "eParentID e \<noteq> []"
  shows "eParentID e \<in> eID ` set us"
proof -
  from assms(1,2) obtain j1 where 1: "branchJournal us = Inr j1"
    "foldR branchJournalStep j1 (e # vs) = Inr j"
    by (auto simp: branchJournal_def foldR_append bindR_eq_Inr simp del: foldR.simps)
  from 1(2) obtain j2 where "branchJournalStep j1 e = Inr j2"
    by (cases "branchJournalStep j1 e") auto
  note j = 1(1) this
  from branchJournal_inv [OF j(1)] branchJournalStep_known [OF j(2) assms(3,4)] show ?thesis
    by (auto simp: branchJournalInv_def)
qed

section \<open>Transcript coordinates\<close>

definition transcriptCoordinate :: "session_entry \<Rightarrow> (string \<times> u64) option" where
  "transcriptCoordinate e =
     (if eRecordVersion e = 1 \<and> eType e \<noteq> EntryTypeCompaction \<and> eType e \<noteq> EntryTypeCheckpoint
         \<and> eActionState e = ActionStateEmpty
      then map_option (Pair (eRunID e)) (eTranscriptIndex e) else None)"

definition assistantCoordinate :: "session_entry \<Rightarrow> (string \<times> u64) option" where
  "assistantCoordinate e =
     (if eRecordVersion e = 1 \<and> eType e = EntryTypeAssistant \<and> eToolCalls e \<noteq> []
      then map_option (Pair (eRunID e)) (eOrdinal e) else None)"

text \<open>Record a coordinate in the set of those seen, or fail if it was seen before.\<close>

definition noteCoordinate ::
  "string \<Rightarrow> 'k list \<Rightarrow> 'k option \<Rightarrow> go_error + 'k list" where
  "noteCoordinate msg seen c =
     (case c of None \<Rightarrow> Inr seen
      | Some k \<Rightarrow> if k \<in> set seen then Inl (Fault msg) else Inr (k # seen))"

definition transcriptStep ::
  "(string \<times> u64) list \<times> (string \<times> u64) list \<Rightarrow> session_entry
     \<Rightarrow> go_error + (string \<times> u64) list \<times> (string \<times> u64) list" where
  "transcriptStep s e =
     bindR (noteCoordinate ''run repeats transcript index'' (fst s) (transcriptCoordinate e))
       (\<lambda>a. bindR (noteCoordinate ''run repeats assistant ordinal'' (snd s) (assistantCoordinate e))
         (\<lambda>b. Inr (a, b)))"

definition validateDurableTranscriptCoordinates :: "session_entry list \<Rightarrow> go_error + unit" where
  "validateDurableTranscriptCoordinates entries =
     (case foldR transcriptStep ([], []) entries of Inl e \<Rightarrow> Inl e | Inr _ \<Rightarrow> Inr ())"

lemma noteCoordinate_Inr:
  "noteCoordinate msg seen c = Inr seen' \<longleftrightarrow>
     (case c of None \<Rightarrow> seen' = seen | Some k \<Rightarrow> k \<notin> set seen \<and> seen' = k # seen)"
  by (auto simp: noteCoordinate_def split: option.splits)

lemma transcriptStep_fold:
  "(\<exists>s'. foldR transcriptStep (a, b) rows = Inr s') \<longleftrightarrow>
     distinct (List.map_filter transcriptCoordinate rows)
     \<and> set (List.map_filter transcriptCoordinate rows) \<inter> set a = {}
     \<and> distinct (List.map_filter assistantCoordinate rows)
     \<and> set (List.map_filter assistantCoordinate rows) \<inter> set b = {}"
proof (induction rows arbitrary: a b)
  case Nil
  then show ?case by (simp add: List.map_filter_simps)
next
  case (Cons e rows)
  have "(\<exists>s'. foldR transcriptStep (a, b) (e # rows) = Inr s') \<longleftrightarrow>
    (\<exists>a' b'. noteCoordinate ''run repeats transcript index'' a (transcriptCoordinate e) = Inr a'
       \<and> noteCoordinate ''run repeats assistant ordinal'' b (assistantCoordinate e) = Inr b'
       \<and> (\<exists>s'. foldR transcriptStep (a', b') rows = Inr s'))"
    by (auto simp: transcriptStep_def bindR_def split: sum.splits)
  also have "\<dots> \<longleftrightarrow>
    (\<exists>a' b'. noteCoordinate ''run repeats transcript index'' a (transcriptCoordinate e) = Inr a'
       \<and> noteCoordinate ''run repeats assistant ordinal'' b (assistantCoordinate e) = Inr b'
       \<and> distinct (List.map_filter transcriptCoordinate rows)
       \<and> set (List.map_filter transcriptCoordinate rows) \<inter> set a' = {}
       \<and> distinct (List.map_filter assistantCoordinate rows)
       \<and> set (List.map_filter assistantCoordinate rows) \<inter> set b' = {})"
    by (simp only: Cons.IH)
  finally show ?case
    by (cases "transcriptCoordinate e"; cases "assistantCoordinate e")
       (simp_all add: noteCoordinate_Inr List.map_filter_simps, blast+)
qed

lemma validateDurableTranscriptCoordinates_iff:
  "validateDurableTranscriptCoordinates rows = Inr u \<longleftrightarrow>
     distinct (List.map_filter transcriptCoordinate rows)
     \<and> distinct (List.map_filter assistantCoordinate rows)"
  using transcriptStep_fold [of "[]" "[]" rows]
  by (auto simp: validateDurableTranscriptCoordinates_def split: sum.splits)

text \<open>
  \<open>entriesInSequence\<close>: the rows of the store in sequence order. Go iterates a map and sorts
  with an unstable sort, so rows of equal sequence, which are only version 0 rows without one,
  come in any order; the model takes them in file order.
\<close>

definition entriesInSequence :: "entry_table \<Rightarrow> session_entry list" where
  "entriesInSequence tab = sort_key eSeq (rev (map snd tab))"

lemma entriesInSequence_tableOf:
  assumes "sorted (map eSeq rows)"
  shows "entriesInSequence (tableOf rows) = rows"
proof -
  have "rev (map snd (tableOf rows)) = rows" by (simp add: tableOf_def rev_map comp_def)
  with assms show ?thesis by (simp add: entriesInSequence_def sort_key_id_if_sorted)
qed

end
