(* ===== verification/ActionJournal.thy ===== *)
theory ActionJournal
  imports BranchJournal
begin

text \<open>
  The action journal analysis of \<open>internal/session/durable_recovery.go\<close>. A session file
  holds assistant rows with tool calls, and for each call (an occurrence) at most one intent,
  any number of execution rows, at most one receipt and at most one execution resolution.
  \<open>analyzeDurableActionJournal\<close> makes four passes over the rows and then lists the pending
  occurrences; here each pass is a fold with an early return.

  The Go code keeps pointers to occurrences in a map and in a slice; here one association
  list, in the order of the slice, plays both parts.
\<close>

record action_occurrence =
  oRef :: pending_ref
  oAssistant :: session_entry
  oCallIndex :: nat
  oToolName :: string
  oIntent :: "session_entry option"
  oExecutions :: "session_entry list"
  oReceipt :: "session_entry option"
  oResolution :: "validated_resolution option"

record recovery_plan =
  rpResolutions :: "validated_resolution list"
  rpPending :: "pending_ref list"
  rpOccurrences :: "action_occurrence list"
  rpNextTranscriptIndex :: "(string \<times> u64) list"

type_synonym occurrence_table = "(occurrence_key \<times> action_occurrence) list"

definition setOccurrence ::
  "occurrence_key \<Rightarrow> action_occurrence \<Rightarrow> occurrence_table \<Rightarrow> occurrence_table" where
  "setOccurrence k occ occs = map (\<lambda>kv. if fst kv = k then (k, occ) else kv) occs"

lemma setOccurrence_keys [simp]: "map fst (setOccurrence k occ occs) = map fst occs"
  by (auto simp: setOccurrence_def)

lemma setOccurrence_all:
  "\<forall>kv \<in> set occs. P kv \<Longrightarrow> P (k, occ) \<Longrightarrow> \<forall>kv \<in> set (setOccurrence k occ occs). P kv"
  by (auto simp: setOccurrence_def)

definition nextIndexOf :: "(string \<times> u64) list \<Rightarrow> string \<Rightarrow> u64" where
  "nextIndexOf nexts run = (case map_of nexts run of None \<Rightarrow> 0 | Some n \<Rightarrow> n)"

section \<open>First pass: transcript coordinates, assistant calls, evidence rows\<close>

record journal_scan =
  jsOccurrences :: occurrence_table
  jsNextIndex :: "(string \<times> u64) list"
  jsIndexes :: "(string \<times> u64) list"
  jsOrdinals :: "(string \<times> u64) list"
  jsExecutionRows :: entry_table
  jsReconciliationRows :: entry_table

definition initialScan :: journal_scan where
  "initialScan = \<lparr> jsOccurrences = [], jsNextIndex = [], jsIndexes = [], jsOrdinals = [],
     jsExecutionRows = [], jsReconciliationRows = [] \<rparr>"

definition scanIndex :: "journal_scan \<Rightarrow> session_entry \<Rightarrow> go_error + journal_scan" where
  "scanIndex s e =
     (case transcriptCoordinate e of
        None \<Rightarrow> Inr s
      | Some (run, index) \<Rightarrow>
          if (run, index) \<in> set (jsIndexes s) then Inl (Fault ''run repeats transcript index'')
          else if index = - 1 then Inl (Fault ''run transcript index is exhausted'')
          else Inr (s \<lparr> jsIndexes := (run, index) # jsIndexes s,
                 jsNextIndex := (if nextIndexOf (jsNextIndex s) run < index + 1
                   then (run, index + 1) # jsNextIndex s else jsNextIndex s) \<rparr>))"

fun addCalls ::
  "string \<Rightarrow> session_entry \<Rightarrow> u64 \<Rightarrow> nat \<Rightarrow> string list \<Rightarrow> tool_call list \<Rightarrow> occurrence_table
     \<Rightarrow> go_error + occurrence_table" where
  "addCalls sessionID e ordinal callIndex seen [] occs = Inr occs"
| "addCalls sessionID e ordinal callIndex seen (call # calls) occs =
     (if tcID call = [] \<or> tcName call = []
        then Inl (Fault ''assistant entry has an incomplete tool call'')
      else if tcID call \<in> set seen then Inl (Fault ''assistant entry repeats tool-call ID'')
      else let key = (sessionID, eRunID e, ordinal, tcID call) in
        if map_of occs key \<noteq> None then Inl (Fault ''duplicate tool-call occurrence'')
        else addCalls sessionID e ordinal (Suc callIndex) (tcID call # seen) calls
          (occs @ [(key, \<lparr> oRef = emptyRef, oAssistant = e, oCallIndex = callIndex,
             oToolName = tcName call, oIntent = None, oExecutions = [], oReceipt = None,
             oResolution = None \<rparr>)]))"

definition scanAssistant ::
  "string \<Rightarrow> journal_scan \<Rightarrow> session_entry \<Rightarrow> go_error + journal_scan" where
  "scanAssistant sessionID s e =
     (if eType e = EntryTypeAssistant \<and> eToolCalls e \<noteq> [] then
        (case eOrdinal e of
           None \<Rightarrow> Inl (Fault ''assistant tool-call entry has no occurrence ordinal'')
         | Some ordinal \<Rightarrow>
             if (eRunID e, ordinal) \<in> set (jsOrdinals s)
               then Inl (Fault ''run repeats assistant transcript ordinal'')
             else bindR (addCalls sessionID e ordinal 0 [] (eToolCalls e) (jsOccurrences s))
               (\<lambda>occs. Inr (s \<lparr> jsOccurrences := occs,
                  jsOrdinals := (eRunID e, ordinal) # jsOrdinals s \<rparr>)))
      else Inr s)"

definition scanEvidence :: "journal_scan \<Rightarrow> session_entry \<Rightarrow> go_error + journal_scan" where
  "scanEvidence s e =
     bindR
       (if eActionState e = ActionStateExecution then
          bindR (case eExecutionIdentity e of
                   None \<Rightarrow> Inr () | Some identity \<Rightarrow> validateExecutionIdentity identity)
            (\<lambda>_. if \<not> validCompletionProof (eCompletionProof e)
                   then Inl (Fault ''execution row has unsupported completion proof'')
                 else Inr (s \<lparr> jsExecutionRows := (eID e, e) # jsExecutionRows s \<rparr>))
        else Inr s)
       (\<lambda>s'. if eCheckpointKind e = CheckpointReconciliation
          then Inr (s' \<lparr> jsReconciliationRows := (eID e, e) # jsReconciliationRows s' \<rparr>)
          else Inr s')"

definition scanEntry :: "string \<Rightarrow> journal_scan \<Rightarrow> session_entry \<Rightarrow> go_error + journal_scan" where
  "scanEntry sessionID s e =
     (if eRecordVersion e \<noteq> 1 then Inr s
      else bindR (scanIndex s e)
        (\<lambda>s1. bindR (scanAssistant sessionID s1 e) (\<lambda>s2. scanEvidence s2 e)))"

section \<open>Second pass: intents\<close>

record intent_scan =
  isOccurrences :: occurrence_table
  isBatchKeys :: "(string \<times> (string \<times> u64 \<times> string \<times> string)) list"
  isActionIDs :: "string list"

definition scanIntent ::
  "entry_table \<Rightarrow> string \<Rightarrow> intent_scan \<Rightarrow> session_entry \<Rightarrow> go_error + intent_scan" where
  "scanIntent entriesByID sessionID s e =
     (if eRecordVersion e \<noteq> 1 \<or> eActionState e \<noteq> ActionStateIntent then Inr s
      else bindR (actionKeyForEntry e sessionID) (\<lambda>key.
        case map_of (isOccurrences s) key of
          None \<Rightarrow> Inl (Fault ''intent has no matching durable assistant occurrence'')
        | Some occ \<Rightarrow>
            let assistant = oAssistant occ;
                batchKey = (eRunID e, the (eOrdinal e), eWorkspaceID e, eBranchID e) in
            if eSeq e \<le> eSeq assistant \<or> eType e \<noteq> EntryTypeTool \<or> eToolName e \<noteq> oToolName occ
              then Inl (Fault ''intent does not follow and match its assistant tool call'')
            else if \<not> durableEntryIsAncestor entriesByID (eID assistant) (eID e)
              then Inl (Fault ''intent is outside its assistant parent chain'')
            else if eWorkspaceID e = []
                    \<or> (eWorkspaceID assistant \<noteq> [] \<and> eWorkspaceID e \<noteq> eWorkspaceID assistant)
              then Inl (Fault ''intent has missing or mismatched workspace identity'')
            else if oIntent occ \<noteq> None
              then Inl (Fault ''tool-call occurrence has multiple intent rows'')
            else if (case map_of (isBatchKeys s) (eActionBatchID e) of
                       None \<Rightarrow> False | Some previous \<Rightarrow> previous \<noteq> batchKey)
              then Inl (Fault ''action batch mixes unrelated occurrences'')
            else if eActionID e \<in> set (isActionIDs s)
              then Inl (Fault ''action ID is reused by intents'')
            else Inr \<lparr> isOccurrences = setOccurrence key
                   (occ \<lparr> oIntent := Some e, oRef := refFromEntry e sessionID \<rparr>) (isOccurrences s),
                 isBatchKeys = (eActionBatchID e, batchKey) # isBatchKeys s,
                 isActionIDs = eActionID e # isActionIDs s \<rparr>))"

section \<open>Third pass: executions and receipts\<close>

definition scanExecution ::
  "entry_table \<Rightarrow> string \<Rightarrow> occurrence_table \<Rightarrow> session_entry \<Rightarrow> go_error + occurrence_table" where
  "scanExecution entriesByID sessionID occs e =
     (if eActionState e \<noteq> ActionStateExecution then Inr occs
      else bindR (actionKeyForEntry e sessionID) (\<lambda>key.
        case map_of occs key of
          None \<Rightarrow> Inl (Fault ''execution row has no exact matching intent'')
        | Some occ \<Rightarrow>
            (case oIntent occ of
               None \<Rightarrow> Inl (Fault ''execution row has no exact matching intent'')
             | Some intent \<Rightarrow>
                 if oRef occ \<noteq> refFromEntry e sessionID
                   then Inl (Fault ''execution row has no exact matching intent'')
                 else if eSeq e \<le> eSeq intent \<or> eToolName e \<noteq> oToolName occ
                   then Inl (Fault ''execution row does not follow and match its intent'')
                 else if \<not> durableEntryIsAncestor entriesByID (eID intent) (eID e)
                   then Inl (Fault ''execution row is outside its intent parent chain'')
                 else Inr (setOccurrence key
                   (occ \<lparr> oExecutions := oExecutions occ @ [e] \<rparr>) occs))))"

definition checkReceiptReservation ::
  "entry_table \<Rightarrow> string \<Rightarrow> action_occurrence \<Rightarrow> session_entry \<Rightarrow> go_error + unit" where
  "checkReceiptReservation entriesByID sessionID occ e =
     (if (eActionBatchID e = []) \<noteq> (eActionID e = [])
        then Inl (Fault ''receipt has partial reservation identity'')
      else if eActionID e = [] then
        (if oIntent occ \<noteq> None \<or> eDispatchState e \<noteq> DispatchStateNotDispatched
           then Inl (Fault ''unreserved receipt must prove not-dispatched and have no intent'')
         else Inr ())
      else (case oIntent occ of
          None \<Rightarrow> Inl (Fault ''receipt has no exact matching intent'')
        | Some intent \<Rightarrow>
            if oRef occ \<noteq> refFromEntry e sessionID
              then Inl (Fault ''receipt has no exact matching intent'')
            else if \<not> durableEntryIsAncestor entriesByID (eID intent) (eID e)
              then Inl (Fault ''receipt is outside its intent parent chain'')
            else Inr ()))"

definition scanReceipt ::
  "entry_table \<Rightarrow> string \<Rightarrow> occurrence_table \<Rightarrow> session_entry \<Rightarrow> go_error + occurrence_table" where
  "scanReceipt entriesByID sessionID occs e =
     (if eType e \<noteq> EntryTypeTool \<or> eActionState e \<noteq> ActionStateEmpty then Inr occs
      else bindR (actionKeyForEntry e sessionID) (\<lambda>key.
        case map_of occs key of
          None \<Rightarrow> Inl (Fault ''receipt has no matching assistant tool call'')
        | Some occ \<Rightarrow>
            if eSeq e \<le> eSeq (oAssistant occ) \<or> eToolName e \<noteq> oToolName occ
              then Inl (Fault ''receipt does not follow and match its assistant tool call'')
            else if \<not> durableEntryIsAncestor entriesByID (eID (oAssistant occ)) (eID e)
              then Inl (Fault ''receipt is outside its assistant parent chain'')
            else if oReceipt occ \<noteq> None
              then Inl (Fault ''tool-call occurrence has multiple receipts'')
            else bindR (checkReceiptReservation entriesByID sessionID occ e)
              (\<lambda>_. Inr (setOccurrence key (occ \<lparr> oReceipt := Some e \<rparr>) occs))))"

definition scanJournalRow ::
  "entry_table \<Rightarrow> string \<Rightarrow> occurrence_table \<Rightarrow> session_entry \<Rightarrow> go_error + occurrence_table" where
  "scanJournalRow entriesByID sessionID occs e =
     (if eRecordVersion e \<noteq> 1 then Inr occs
      else bindR (scanExecution entriesByID sessionID occs e)
        (\<lambda>occs'. scanReceipt entriesByID sessionID occs' e))"

section \<open>Fourth pass: reconciliation and resolution checkpoints\<close>

text \<open>
  The operator branch of the source dereferences \<open>occurrence.receipt\<close>; its only caller has
  checked that the receipt is there, so the \<open>None\<close> case below is not reached.
\<close>

definition validateExecutionResolutionEvidence ::
  "execution_resolution \<Rightarrow> u64 \<Rightarrow> action_occurrence \<Rightarrow> entry_table \<Rightarrow> entry_table \<Rightarrow> string
     \<Rightarrow> go_error + unit" where
  "validateExecutionResolutionEvidence r resolutionSeq occ executionRows reconciliationRows sessionID =
     (if erRunID r \<noteq> rRunID (oRef occ) \<or> erActionID r \<noteq> rActionID (oRef occ) \<or> erEvidenceRef r = []
        then Inl (Fault ''typed resolution identity does not match the intent'')
      else (case erEvidence r of
          ResolutionNeverDispatched \<Rightarrow>
            (case oReceipt occ of
               None \<Rightarrow> Inl (Fault ''never-dispatched proof lacks its exact receipt'')
             | Some receipt \<Rightarrow>
                 if eDispatchState receipt \<noteq> DispatchStateNotDispatched
                    \<or> eActionID receipt \<noteq> rActionID (oRef occ)
                    \<or> (eReceiptOutcome receipt \<noteq> ReceiptOutcomeInterrupted
                        \<and> eReceiptOutcome receipt \<noteq> ReceiptOutcomeError)
                    \<or> erEvidenceRef r \<noteq> eID receipt
                   then Inl (Fault ''never-dispatched proof lacks its exact receipt'')
                 else Inr ())
        | ResolutionLocalResourcesStopped \<Rightarrow>
            (if (case oReceipt occ of None \<Rightarrow> True
                 | Some receipt \<Rightarrow> eDispatchState receipt \<noteq> DispatchStateDispatched)
               then Inl (Fault ''local quiescence proof requires a dispatched receipt'')
             else (case map_of executionRows (erEvidenceRef r) of
                 None \<Rightarrow> Inl (Fault ''local quiescence proof names no execution row'')
               | Some proof \<Rightarrow>
                   (case oIntent occ of
                      None \<Rightarrow> Inl (Fault ''local quiescence proof names no execution row'')
                    | Some intent \<Rightarrow>
                        if eDispatchState proof \<noteq> DispatchStateDispatched
                           \<or> eCompletionProof proof = ProofEmpty \<or> eSeq proof \<le> eSeq intent
                           \<or> resolutionSeq \<le> eSeq proof \<or> oRef occ \<noteq> refFromEntry proof sessionID
                          then Inl (Fault ''local quiescence proof names no execution row'')
                        else Inr ())))
        | ResolutionRemoteTerminal \<Rightarrow>
            Inl (Fault ''remote-terminal resolution requires typed protocol evidence'')
        | ResolutionOperatorReconciled \<Rightarrow>
            (case map_of reconciliationRows (erEvidenceRef r) of
               None \<Rightarrow> Inl (Fault ''operator proof names no reconciliation checkpoint'')
             | Some proof \<Rightarrow>
                 (case (eOperatorReconciliation proof, oReceipt occ) of
                    (Some record', Some receipt) \<Rightarrow>
                      if validateOperatorReconciliation record' \<noteq> Inr ()
                         \<or> eSeq proof \<le> eSeq receipt \<or> resolutionSeq \<le> eSeq proof
                         \<or> oRef occ \<noteq> refFromEntry proof sessionID
                        then Inl (Fault ''operator proof names no reconciliation checkpoint'')
                      else Inr ()
                  | _ \<Rightarrow> Inl (Fault ''operator proof names no reconciliation checkpoint'')))
        | ResolutionOther s \<Rightarrow> Inl (Fault ''unsupported execution-resolution evidence'')))"

record resolution_scan =
  rsOccurrences :: occurrence_table
  rsResolutions :: "validated_resolution list"

definition scanReconciliation ::
  "entry_table \<Rightarrow> string \<Rightarrow> occurrence_table \<Rightarrow> session_entry \<Rightarrow> go_error + unit" where
  "scanReconciliation entriesByID sessionID occs e =
     (if eCheckpointKind e \<noteq> CheckpointReconciliation then Inr ()
      else bindR (actionKeyForEntry e sessionID) (\<lambda>key.
        case map_of occs key of
          None \<Rightarrow> Inl (Fault ''reconciliation checkpoint has no exact matching intent'')
        | Some occ \<Rightarrow>
            (case oIntent occ of
               None \<Rightarrow> Inl (Fault ''reconciliation checkpoint has no exact matching intent'')
             | Some intent \<Rightarrow>
                 if oRef occ \<noteq> refFromEntry e sessionID
                   then Inl (Fault ''reconciliation checkpoint has no exact matching intent'')
                 else if eType e \<noteq> EntryTypeCheckpoint \<or> eSeq e \<le> eSeq intent
                         \<or> \<not> durableEntryIsAncestor entriesByID (eID intent) (eID e)
                   then Inl (Fault ''reconciliation checkpoint is outside its intent chain'')
                 else Inr ())))"

definition scanResolution ::
  "entry_table \<Rightarrow> entry_table \<Rightarrow> entry_table \<Rightarrow> string \<Rightarrow> resolution_scan \<Rightarrow> session_entry
     \<Rightarrow> go_error + resolution_scan" where
  "scanResolution entriesByID executionRows reconciliationRows sessionID s e =
     (if eCheckpointKind e \<noteq> CheckpointExecutionResolution then Inr s
      else (case eExecutionResolution e of
          None \<Rightarrow> Inl (Fault ''resolution checkpoint has no typed proof'')
        | Some resolution \<Rightarrow>
            bindR (actionKeyForEntry e sessionID) (\<lambda>key.
              case map_of (rsOccurrences s) key of
                None \<Rightarrow> Inl (Fault ''resolution checkpoint has no exact matching intent'')
              | Some occ \<Rightarrow>
                  if oIntent occ = None \<or> oRef occ \<noteq> refFromEntry e sessionID
                    then Inl (Fault ''resolution checkpoint has no exact matching intent'')
                  else (case oReceipt occ of
                      None \<Rightarrow> Inl (Fault ''resolution checkpoint lacks an earlier receipt'')
                    | Some receipt \<Rightarrow>
                        if eSeq e \<le> eSeq receipt
                          then Inl (Fault ''resolution checkpoint lacks an earlier receipt'')
                        else if oResolution occ \<noteq> None
                          then Inl (Fault ''action has multiple execution-resolution checkpoints'')
                        else bindR (validateExecutionResolutionEvidence resolution (eSeq e) occ
                                 executionRows reconciliationRows sessionID) (\<lambda>_.
                          if \<not> durableEntryIsAncestor entriesByID (eID receipt) (eID e)
                            then Inl (Fault ''resolution checkpoint is outside its receipt chain'')
                          else
                            let validated = \<lparr> vrAction = oRef occ, vrCheckpointEntryID = eID e,
                                  vrCheckpointSeq = eSeq e, vrResolution = resolution \<rparr>
                            in Inr \<lparr> rsOccurrences = setOccurrence key
                                   (occ \<lparr> oResolution := Some validated \<rparr>) (rsOccurrences s),
                                 rsResolutions = rsResolutions s @ [validated] \<rparr>)))))"

definition scanCheckpoint ::
  "entry_table \<Rightarrow> entry_table \<Rightarrow> entry_table \<Rightarrow> string \<Rightarrow> resolution_scan \<Rightarrow> session_entry
     \<Rightarrow> go_error + resolution_scan" where
  "scanCheckpoint entriesByID executionRows reconciliationRows sessionID s e =
     (if eRecordVersion e \<noteq> 1 then Inr s
      else bindR (scanReconciliation entriesByID sessionID (rsOccurrences s) e)
        (\<lambda>_. scanResolution entriesByID executionRows reconciliationRows sessionID s e))"

section \<open>Pending occurrences and the plan\<close>

definition closeOccurrence ::
  "string \<Rightarrow> pending_ref list \<times> action_occurrence list \<Rightarrow> action_occurrence
     \<Rightarrow> go_error + pending_ref list \<times> action_occurrence list" where
  "closeOccurrence sessionID acc occ =
     (if oIntent occ \<noteq> None \<and> oResolution occ = None
        then Inr (fst acc @ [oRef occ], snd acc @ [occ])
      else if oIntent occ = None \<and> oReceipt occ = None then
        (if eWorkspaceID (oAssistant occ) = []
           then Inl (Fault ''unreserved open occurrence has no workspace identity'')
         else
           let ref = \<lparr> rSessionID = sessionID, rWorkspaceID = eWorkspaceID (oAssistant occ),
                 rRunID = eRunID (oAssistant occ), rActionBatchID = [],
                 rOrdinal = the (eOrdinal (oAssistant occ)),
                 rToolCallID = tcID (eToolCalls (oAssistant occ) ! oCallIndex occ),
                 rActionID = [] \<rparr>
           in Inr (fst acc @ [ref], snd acc @ [occ \<lparr> oRef := ref \<rparr>]))
      else Inr (fst acc, snd acc @ [occ]))"

definition analyzeDurableActionJournal ::
  "session_entry list \<Rightarrow> string \<Rightarrow> go_error + recovery_plan" where
  "analyzeDurableActionJournal entries sessionID =
     (let entriesByID = tableOf entries in
      bindR (foldR (scanEntry sessionID) initialScan entries) (\<lambda>scan.
      bindR (foldR (scanIntent entriesByID sessionID)
          \<lparr> isOccurrences = jsOccurrences scan, isBatchKeys = [], isActionIDs = [] \<rparr> entries) (\<lambda>intents.
      bindR (foldR (scanJournalRow entriesByID sessionID) (isOccurrences intents) entries) (\<lambda>occs.
      bindR (foldR (scanCheckpoint entriesByID (jsExecutionRows scan) (jsReconciliationRows scan) sessionID)
          \<lparr> rsOccurrences = occs, rsResolutions = [] \<rparr> entries) (\<lambda>checked.
      bindR (foldR (closeOccurrence sessionID) ([], []) (map snd (rsOccurrences checked))) (\<lambda>closed.
        Inr \<lparr> rpResolutions = rsResolutions checked, rpPending = fst closed,
              rpOccurrences = snd closed, rpNextTranscriptIndex = jsNextIndex scan \<rparr>))))))"

end
