(* ===== verification/Samples.thy ===== *)
theory Samples
  imports ActionJournal WorkspaceOps "HOL-Library.Code_Target_Nat"
begin

text \<open>
  Concrete rows, references and a concrete index world, on which the theorems with hypotheses
  are applied. The session has one run in which the assistant calls one tool: the intent, the
  execution row, the receipt and the resolution checkpoint of that call follow.
\<close>

section \<open>A session\<close>

definition sampleDigest :: string where
  "sampleDigest = replicate 64 CHR ''a''"

definition sampleIdentity :: tool_identity where
  "sampleIdentity = \<lparr> tiRegistrationSource = ''builtin'', tiToolName = ''bash'',
     tiRegistrationGeneration = 1, tiExecutorFingerprint = sampleDigest,
     tiScopeFingerprint = sampleDigest \<rparr>"

definition sampleUser :: session_entry where
  "sampleUser = emptyEntry \<lparr> eID := ''u'', eType := EntryTypeUser, eContent := ''run it'',
     eInputKind := InputKindUser, eSeq := 1, eRecordVersion := 1, eSessionID := ''s'',
     eBranchID := ''main'', eRunID := ''r'', eTranscriptIndex := Some 0 \<rparr>"

definition sampleCall :: tool_call where
  "sampleCall = \<lparr> tcID = ''c'', tcName = ''bash'',
     tcArgs = AnyMap [(''cmd'', AnyString ''ls''), (''n'', AnyList [AnyNumber ''1'', AnyNil])] \<rparr>"

definition sampleAssistant :: session_entry where
  "sampleAssistant = emptyEntry \<lparr> eID := ''a'', eParentID := ''u'', eType := EntryTypeAssistant,
     eToolCalls := [sampleCall], eSeq := 2, eRecordVersion := 1, eSessionID := ''s'',
     eBranchID := ''main'', eRunID := ''r'', eWorkspaceID := ''w'', eOrdinal := Some 1,
     eTranscriptIndex := Some 1 \<rparr>"

definition sampleAction :: session_entry where
  "sampleAction = emptyEntry \<lparr> eType := EntryTypeTool, eRecordVersion := 1, eSessionID := ''s'',
     eBranchID := ''main'', eRunID := ''r'', eWorkspaceID := ''w'', eActionBatchID := ''b'',
     eActionID := ''x'', eOrdinal := Some 1, eToolCallID := ''c'', eToolName := ''bash'' \<rparr>"

definition sampleIntent :: session_entry where
  "sampleIntent = sampleAction \<lparr> eID := ''i'', eParentID := ''a'', eSeq := 3,
     eActionState := ActionStateIntent, eArgumentDigest := sampleDigest,
     eSchemaDigest := sampleDigest, eToolIdentity := Some sampleIdentity,
     eEffectSet := [EffectGitMutation, EffectWorkspaceWrite] \<rparr>"

definition sampleExecution :: session_entry where
  "sampleExecution = sampleAction \<lparr> eID := ''e'', eParentID := ''i'', eSeq := 4,
     eActionState := ActionStateExecution, eDispatchState := DispatchStateDispatched,
     eCompletionProof := CompletionOwnedProcessGroupJoined \<rparr>"

definition sampleReceipt :: session_entry where
  "sampleReceipt = sampleAction \<lparr> eID := ''t'', eParentID := ''e'', eSeq := 5, eContent := ''ok'',
     eReceiptOutcome := ReceiptOutcomeSuccess, eDispatchState := DispatchStateDispatched,
     eTranscriptIndex := Some 2 \<rparr>"

definition sampleResolution :: execution_resolution where
  "sampleResolution = \<lparr> erRunID = ''r'', erActionID = ''x'',
     erEvidence = ResolutionLocalResourcesStopped, erEvidenceRef = ''e'' \<rparr>"

definition sampleCheckpoint :: session_entry where
  "sampleCheckpoint = sampleAction \<lparr> eID := ''k'', eParentID := ''t'', eSeq := 6,
     eType := EntryTypeCheckpoint, eCheckpointKind := CheckpointExecutionResolution,
     eExecutionResolution := Some sampleResolution \<rparr>"

definition openRows :: "session_entry list" where
  "openRows = [sampleUser, sampleAssistant, sampleIntent, sampleExecution, sampleReceipt]"

definition closedRows :: "session_entry list" where
  "closedRows = openRows @ [sampleCheckpoint]"

definition sampleRef :: pending_ref where
  "sampleRef = \<lparr> rSessionID = ''s'', rWorkspaceID = ''w'', rRunID = ''r'', rActionBatchID = ''b'',
     rOrdinal = 1, rToolCallID = ''c'', rActionID = ''x'' \<rparr>"

definition sampleValidated :: validated_resolution where
  "sampleValidated = \<lparr> vrAction = sampleRef, vrCheckpointEntryID = ''k'', vrCheckpointSeq = 6,
     vrResolution = sampleResolution \<rparr>"

section \<open>An index world\<close>

definition sampleHost :: host where
  "sampleHost = \<lparr> hSha256 = (\<lambda>s. take 32 (s @ replicate 32 CHR ''z'')), hIndexRowBytes = (\<lambda>r. 200),
     hEvalSymlinks = Some, hResolveSymlinks = (\<lambda>p. p) \<rparr>"

definition sampleWorld :: index_world where
  "sampleWorld = \<lparr> fxCtx = None, fxIO = [], iwRoot = ''/cfg'', iwLocks = [], iwFiles = [],
     iwClaimed = [], iwFences = [] \<rparr>"

definition sampleDispatch :: dispatch_action where
  "sampleDispatch = \<lparr> daNonBlockingDelegation = False, daManagedDelegationProof = None,
     daAction = sampleRef, daToolIdentity = Some sampleIdentity,
     daEffectSet = [EffectGitMutation, EffectWorkspaceWrite], daExecutionIdentity = None,
     daScopedReadProof = None \<rparr>"

definition sampleBatch :: dispatch_batch where
  "sampleBatch = \<lparr> dbWorkspaceID = ''w'', dbSessionID = ''s'', dbRunID = ''r'',
     dbActionBatchID = ''b'', dbActions = [sampleDispatch], dbCanonicalWorkspaceRoot = ''/w'' \<rparr>"

text \<open>The world after \<open>EnsureWorkspace\<close> and after the permit.\<close>

definition readyWorld :: index_world where
  "readyWorld = snd (EnsureWorkspace sampleHost ''w'' sampleWorld)"

definition markedWorld :: index_world where
  "markedWorld = snd (beginDispatchBatch sampleHost sampleBatch readyWorld)"

definition sampleBatch2 :: dispatch_batch where
  "sampleBatch2 = sampleBatch \<lparr> dbActionBatchID := ''b2'',
     dbActions := [sampleDispatch \<lparr> daAction := sampleRef \<lparr> rActionBatchID := ''b2'', rActionID := ''x2'',
       rToolCallID := ''c2'' \<rparr> \<rparr>] \<rparr>"

text \<open>A scoped read capability: its flag is at address 7, its fence at address 3.\<close>

definition sampleTrusted :: trusted_identity where
  "sampleTrusted = \<lparr> ttRegistrationSource = ''builtin'', ttToolName = ''read'',
     ttRegistrationGeneration = 1, ttExecutorFingerprint = replicate 32 CHR ''a'',
     ttScopeFingerprint = replicate 32 CHR ''b'' \<rparr>"

definition sampleFence :: fence_snapshot where
  "sampleFence = \<lparr> fnRegistry = 1, fnApproval = 1, fnPlan = 0, fnPlanRestriction = 0, fnDecision = 2 \<rparr>"

definition sampleFences :: fences where
  "sampleFences = [(3, sampleFence)]"

definition sampleProof :: scoped_read_proof where
  "sampleProof = \<lparr> spIdentity = sampleTrusted, spEffects = [EffectWorkspaceRead],
     spSchemaDigest = replicate 32 CHR ''s'', spArgumentDigest = replicate 32 CHR ''d'', spCallID = ''c'',
     spGenerations = sampleFence, spCanonicalWorkspaceRoot = ''/w'', spWhitelistRoots = [''/w'', ''/w/src''],
     spScopeFingerprint = replicate 32 CHR ''b'', spFence = Some 3, spState = Some 7 \<rparr>"

end
