(* ===== verification/IndexProperties.thy ===== *)
theory IndexProperties
  imports RecoveryAuthority Samples
begin

text \<open>
  What the workspace quarantine index guarantees its callers: a dispatch permit is granted at
  most once, an unresolved marker blocks the workspace, nothing recorded is lost, and the
  states read back are exactly those of the rows.
\<close>

lemma sampleRun:
  "indexRun sampleHost sampleWorld [EvOther, EvBegin sampleBatch WorkspaceDispatchCommittedNow] markedWorld"
proof -
  have 1: "indexStep sampleHost sampleWorld EvOther readyWorld"
    by (rule step_ensure [of sampleHost "''w''" _ "fst (EnsureWorkspace sampleHost ''w'' sampleWorld)"])
       (simp add: readyWorld_def)
  have "fst (beginDispatchBatch sampleHost sampleBatch readyWorld) = (WorkspaceDispatchCommittedNow, False, None)"
    by code_simp
  then have "beginDispatchBatch sampleHost sampleBatch readyWorld
      = ((WorkspaceDispatchCommittedNow, False, None), markedWorld)"
    unfolding markedWorld_def by (metis prod.collapse)
  then have 2: "indexStep sampleHost readyWorld (EvBegin sampleBatch WorkspaceDispatchCommittedNow) markedWorld"
    by (rule step_begin)
  show ?thesis by (rule run_step [OF 1 run_step [OF 2 run_done]])
qed

lemma sampleBegin:
  "beginDispatchBatch sampleHost sampleBatch readyWorld = ((WorkspaceDispatchCommittedNow, False, None), markedWorld)"
proof -
  have "fst (beginDispatchBatch sampleHost sampleBatch readyWorld) = (WorkspaceDispatchCommittedNow, False, None)"
    by code_simp
  then show ?thesis unfolding markedWorld_def by (metis prod.collapse)
qed

lemma sampleMarked:
  obtains s where "validateWorkspaceIndexRecords sampleHost (the (indexFile markedWorld ''w'')) ''w'' = Inr s"
proof -
  have "(case validateWorkspaceIndexRecords sampleHost (the (indexFile markedWorld ''w'')) ''w'' of
      Inl _ \<Rightarrow> False | Inr _ \<Rightarrow> True)" by code_simp
  with that show ?thesis by (auto split: sum.splits)
qed

section \<open>Dispatch permits\<close>

text \<open>
  C5. Over any sequence of index operations by any processes, with any failures of the context
  or of the file system in between, at most one \<open>BeginDispatchBatch\<close> call is told
  \<open>CommittedNow\<close> for a given tool-call occurrence of a workspace, and at most one for a given
  action ID: a retried or recovered run cannot dispatch a reserved action again.
\<close>

theorem one_permit_per_occurrence:
  assumes "indexRun h w evs w'"
  shows "length (filter (permitEvent wid (\<lambda>r. workspaceOccurrenceFor r = k)) evs) \<le> 1
    \<and> length (filter (permitEvent wid (\<lambda>r. rActionID r = i)) evs) \<le> 1"
  using permits_at_most_once [OF assms disjI1 [OF refl]] permits_at_most_once [OF assms disjI2 [OF refl]] by blast

theorem one_permit_per_occurrence_witness:
  "length (filter (permitEvent ''w'' (\<lambda>r. workspaceOccurrenceFor r = workspaceOccurrenceFor sampleRef))
     [EvOther, EvBegin sampleBatch WorkspaceDispatchCommittedNow]) \<le> 1
    \<and> length (filter (permitEvent ''w'' (\<lambda>r. rActionID r = ''x''))
     [EvOther, EvBegin sampleBatch WorkspaceDispatchCommittedNow]) \<le> 1"
  by (rule one_permit_per_occurrence [OF sampleRun])

text \<open>
  A permit is granted only after the batch's marker row is appended to the workspace's
  file. Before it no action of the batch was marked, by occurrence or by action ID; after it
  every action is. If some earlier marker was still unresolved, every action of the batch
  carries a scoped read proof that matches.
\<close>

theorem permit_marks_fresh_actions:
  assumes "beginDispatchBatch h batch w = ((WorkspaceDispatchCommittedNow, denied, err), w')"
  shows "err = None \<and> \<not> denied \<and> (\<exists>rows s row. indexFile w (dbWorkspaceID batch) = Some rows
    \<and> validateWorkspaceIndexRecords h rows (dbWorkspaceID batch) = Inr s
    \<and> indexFile w' (dbWorkspaceID batch) = Some (rows @ [row])
    \<and> (\<forall>a \<in> set (dbActions batch). markedIn (rows @ [row]) (daAction a)
         \<and> (\<forall>ref. markedIn rows ref \<longrightarrow> workspaceOccurrenceFor ref \<noteq> workspaceOccurrenceFor (daAction a)
              \<and> rActionID ref \<noteq> rActionID (daAction a)))
    \<and> (hasUnresolvedMarker s \<longrightarrow>
         (\<forall>a \<in> set (dbActions batch). readAdmitted (iwFences w) (iwClaimed w) batch a)))"
  using assms
proof (cases rule: begin_run)
  case (marked b)
  note ids = normalizeBatch_ids [OF marked(1)]
  have refs: "daAction a \<in> daAction ` set (dbActions b)" if "a \<in> set (dbActions batch)" for a
    using that arg_cong [OF ids(5), of set] by auto
  from marked(2) obtain rows s where r: "indexFile w (dbWorkspaceID b) = Some rows"
    "validateWorkspaceIndexRecords h rows (dbWorkspaceID b) = Inr s"
    "indexFile w' (dbWorkspaceID b) = Some (rows @ [markerRow h (length rows) b])"
    "hasUnresolvedMarker s \<longrightarrow> workspaceDispatchBatchHasScopedReadProofs h (iwFences w) (iwClaimed w) b True"
    unfolding marks_def by blast
  have m: "markedIn (rows @ [markerRow h (length rows) b]) (daAction a)" if "a \<in> set (dbActions batch)" for a
    unfolding markedIn_def by (rule bexI [of _ "markerRow h (length rows) b"]) (use refs [OF that] in auto)
  have f: "markedIn rows ref \<longrightarrow> workspaceOccurrenceFor ref \<noteq> workspaceOccurrenceFor (daAction a)
      \<and> rActionID ref \<noteq> rActionID (daAction a)" if "a \<in> set (dbActions batch)" for a ref
    using marks_before [OF marked(2) refs [OF that]] r(1) unfolding fileMarks_def by blast
  have p: "hasUnresolvedMarker s \<longrightarrow>
      (\<forall>a \<in> set (dbActions batch). readAdmitted (iwFences w) (iwClaimed w) batch a)"
  proof (intro impI ballI)
    fix a assume "hasUnresolvedMarker s" "a \<in> set (dbActions batch)"
    with r(4) ids(7) obtain a' where "readAdmitted (iwFences w) (iwClaimed w) b a'" "daAction a' = daAction a"
      "daScopedReadProof a' = daScopedReadProof a" "daToolIdentity a' = daToolIdentity a"
      using hasProofs_admitted by blast
    then show "readAdmitted (iwFences w) (iwClaimed w) batch a" by (simp add: readAdmitted_def ids(6))
  qed
  show ?thesis using r(1-3) m f p marked(3,5) ids(1) by auto
qed auto

theorem permit_marks_fresh_actions_witness:
  "\<exists>rows row. indexFile markedWorld ''w'' = Some (rows @ [row]) \<and> markedIn (rows @ [row]) sampleRef"
  using permit_marks_fresh_actions [OF sampleBegin] by (auto simp: sampleBatch_def sampleDispatch_def)

text \<open>
  The no-I/O denial flag is honest: when it is set the call returned the quarantine error,
  an unresolved marker was in the file, no file of the index changed and no capability was
  claimed.
\<close>

theorem denied_changes_nothing:
  assumes "beginDispatchBatch h batch w = ((res, True, err), w')"
  shows "res = WorkspaceDispatchNotCommitted \<and> err = Some ErrWorkspaceQuarantined
    \<and> (\<forall>wid. indexFile w' wid = indexFile w wid) \<and> iwClaimed w' = iwClaimed w
    \<and> (\<exists>rows s. indexFile w (dbWorkspaceID batch) = Some rows
        \<and> validateWorkspaceIndexRecords h rows (dbWorkspaceID batch) = Inr s \<and> hasUnresolvedMarker s)"
  using assms
proof (cases rule: begin_run)
  case (same b)
  then show ?thesis
    using normalizeBatch_ids(1) [OF same(1)] by (cases res) auto
qed auto

theorem denied_changes_nothing_witness:
  "\<exists>rows s. indexFile markedWorld ''w'' = Some rows
     \<and> validateWorkspaceIndexRecords sampleHost rows ''w'' = Inr s \<and> hasUnresolvedMarker s"
proof -
  have "fst (beginDispatchBatch sampleHost sampleBatch2 markedWorld)
      = (WorkspaceDispatchNotCommitted, True, Some ErrWorkspaceQuarantined)" by code_simp
  then have "beginDispatchBatch sampleHost sampleBatch2 markedWorld
      = ((WorkspaceDispatchNotCommitted, True, Some ErrWorkspaceQuarantined),
         snd (beginDispatchBatch sampleHost sampleBatch2 markedWorld))" by (metis prod.collapse)
  from denied_changes_nothing [OF this] show ?thesis by (simp add: sampleBatch2_def sampleBatch_def)
qed

text \<open>
  C21. Whatever happens during a call, a workspace's file is afterwards what it was, or it has
  grown by exactly one dispatch-ready row, the one of this batch; \<open>AlreadyExists\<close> never
  writes, and means that a marker with the same batch key and the same persisted actions is
  in the file.
\<close>

theorem begin_writes_one_row:
  assumes "beginDispatchBatch h batch w = ((res, denied, err), w')"
  shows "(\<forall>wid. indexFile w' wid = indexFile w wid)
      \<and> (res = WorkspaceDispatchAlreadyExists \<longrightarrow> (\<exists>rows. \<exists>row \<in> set rows.
           indexFile w (dbWorkspaceID batch) = Some rows \<and> irKind row = WorkspaceIndexDispatchReady
           \<and> batchKeyOf row = (dbSessionID batch, dbRunID batch, dbActionBatchID batch)
           \<and> daAction ` set (irActions row) = daAction ` set (dbActions batch)))
    \<or> res \<noteq> WorkspaceDispatchAlreadyExists \<and> (\<exists>rows row. indexFile w (dbWorkspaceID batch) = Some rows
        \<and> indexFile w' (dbWorkspaceID batch) = Some (rows @ [row])
        \<and> irKind row = WorkspaceIndexDispatchReady
        \<and> batchKeyOf row = (dbSessionID batch, dbRunID batch, dbActionBatchID batch)
        \<and> daAction ` set (irActions row) = daAction ` set (dbActions batch)
        \<and> (\<forall>wid. wid \<noteq> dbWorkspaceID batch \<longrightarrow> indexFile w' wid = indexFile w wid))"
  using assms
proof (cases rule: begin_run)
  case (rejected e)
  then show ?thesis by (simp add: sameBut_file)
next
  case (same b)
  note ids = normalizeBatch_ids [OF same(1)]
  have "\<exists>rows. \<exists>row \<in> set rows. indexFile w (dbWorkspaceID batch) = Some rows
      \<and> irKind row = WorkspaceIndexDispatchReady
      \<and> batchKeyOf row = (dbSessionID batch, dbRunID batch, dbActionBatchID batch)
      \<and> daAction ` set (irActions row) = daAction ` set (dbActions batch)"
    if "res = WorkspaceDispatchAlreadyExists"
  proof -
    from same(4) that obtain rows s existing where r: "indexFile w (dbWorkspaceID b) = Some rows"
      "validateWorkspaceIndexRecords h rows (dbWorkspaceID b) = Inr s"
      "map_of (ixBatches s) (dbSessionID b, dbRunID b, dbActionBatchID b) = Some existing"
      "irActions existing = dbActions (stripWorkspaceDispatchRuntime b)" by blast
    have "daAction ` set (irActions existing) = daAction ` set (dbActions batch)"
      using arg_cong [OF ids(5), of set] r(4) by simp
    with indexInv_D(8) [OF validate_inv(1) [OF r(2)] r(3)] r(1) ids(1-4) show ?thesis
      by (intro exI [of _ rows] bexI [of _ existing]) auto
  qed
  with same(2) show ?thesis by blast
next
  case (marked b)
  note ids = normalizeBatch_ids [OF marked(1)]
  from marked(2) obtain rows where "indexFile w (dbWorkspaceID b) = Some rows"
    "indexFile w' (dbWorkspaceID b) = Some (rows @ [markerRow h (length rows) b])"
    "\<forall>wid. wid \<noteq> dbWorkspaceID b \<longrightarrow> indexFile w' wid = indexFile w wid"
    unfolding marks_def by blast
  moreover have "daAction ` set (dbActions b) = daAction ` set (dbActions batch)"
    using arg_cong [OF ids(5), of set] by simp
  ultimately show ?thesis
    using marked(4) ids by (intro disjI2 conjI exI [of _ rows] exI [of _ "markerRow h (length rows) b"]) auto
qed

theorem begin_writes_one_row_witness:
  "(\<forall>wid. indexFile markedWorld wid = indexFile readyWorld wid)
    \<or> (\<exists>rows row. indexFile readyWorld ''w'' = Some rows \<and> indexFile markedWorld ''w'' = Some (rows @ [row]))"
  using begin_writes_one_row [OF sampleBegin] by (auto simp: sampleBatch_def)

text \<open>
  No operation ever removes or rewrites an accepted row: along any run the rows of every
  workspace file stay a prefix of its later rows, so a recorded marker or resolution is never
  lost.
\<close>

theorem index_append_only:
  assumes "indexRun h w evs w'" and "indexFile w wid = Some rows"
  shows "\<exists>rows'. indexFile w' wid = Some (rows @ rows')"
  using indexRun_grow [OF assms(1)] assms(2) unfolding filesGrow_def by blast

theorem index_append_only_witness:
  "\<exists>rows'. indexFile markedWorld ''w'' = Some ([genesisRecord sampleHost ''w''] @ rows')"
proof -
  have "indexFile readyWorld ''w'' = Some [genesisRecord sampleHost ''w'']" by code_simp
  moreover have "indexRun sampleHost readyWorld [EvBegin sampleBatch WorkspaceDispatchCommittedNow] markedWorld"
    by (rule run_step [OF step_begin [OF sampleBegin] run_done])
  ultimately show ?thesis using index_append_only by blast
qed

section \<open>What the rows mean\<close>

text \<open>
  C27. A file that validates starts with its one initialization witness, numbers its rows
  1, 2, \<open>...\<close>, never repeats a record ID, a marked occurrence or a marked action ID, and
  every resolution row is for an action that is marked.
\<close>

theorem validated_index_shape:
  assumes "validateWorkspaceIndexRecords h rows wid = Inr s"
  shows "rows \<noteq> [] \<and> isGenesis h wid (rows ! 0)
    \<and> (\<forall>i < length rows. irSeq (rows ! i) = of_nat (i + 1) \<and> irWorkspaceID (rows ! i) = wid)
    \<and> distinct (map irRecordID rows)
    \<and> (\<forall>ref ref'. markedIn rows ref \<longrightarrow> markedIn rows ref' \<longrightarrow>
         workspaceOccurrenceFor ref = workspaceOccurrenceFor ref' \<or> rActionID ref = rActionID ref' \<longrightarrow> ref = ref')
    \<and> (\<forall>ref. resolvedIn rows ref \<longrightarrow> markedIn rows ref)"
proof -
  note I = validate_inv(1) [OF assms] and ne = validate_inv(2) [OF assms]
  note D = indexInv_D [OF I]
  have u: "ref = ref'" if m: "markedIn rows ref" "markedIn rows ref'"
    and k: "workspaceOccurrenceFor ref = workspaceOccurrenceFor ref' \<or> rActionID ref = rActionID ref'" for ref ref'
  proof -
    from m obtain a b where ab: "a \<in> set (ixActions s)" "iaRef a = ref" "b \<in> set (ixActions s)" "iaRef b = ref'"
      unfolding markedIn_iff [OF I] by blast
    have "inj_on (\<lambda>a. workspaceOccurrenceFor (iaRef a)) (set (ixActions s))"
      "inj_on (\<lambda>a. rActionID (iaRef a)) (set (ixActions s))"
      using D(3) unfolding actionsOK_def distinct_map by blast+
    with ab k have "a = b" unfolding inj_on_def by metis
    with ab show ?thesis by simp
  qed
  have r: "resolvedIn rows ref \<longrightarrow> markedIn rows ref" for ref
    unfolding markedIn_iff [OF I] resolvedIn_iff [OF I] by blast
  show ?thesis
    using D(2) ne u r unfolding rowsShape_def by (intro conjI) blast+
qed

theorem validated_index_shape_witness:
  "distinct (map irRecordID (the (indexFile markedWorld ''w'')))"
proof -
  obtain s where "validateWorkspaceIndexRecords sampleHost (the (indexFile markedWorld ''w'')) ''w'' = Inr s"
    by (rule sampleMarked) 
  from validated_index_shape [OF this] show ?thesis by blast
qed

text \<open>
  C24. A successful inspection changes nothing, echoes every reference in order, and reports
  of each exactly what the rows of its workspace say: present when a marker names this exact
  reference and no resolution does, resolved when both do, absent when no marker shares its
  occurrence, its action ID or its batch.
\<close>

theorem inspection_exact:
  assumes "InspectDispatchMarkers h refs w = (Inr ds, w')"
  shows "map pdAction ds = refs \<and> (\<forall>wid. indexFile w' wid = indexFile w wid)
    \<and> (\<forall>d \<in> set ds. \<exists>rows. indexFile w (rWorkspaceID (pdAction d)) = Some rows
        \<and> (pdMarkerState d = DispatchMarkerPresent \<longleftrightarrow> markedIn rows (pdAction d) \<and> \<not> resolvedIn rows (pdAction d))
        \<and> (pdMarkerState d = DispatchMarkerResolved \<longleftrightarrow> markedIn rows (pdAction d) \<and> resolvedIn rows (pdAction d))
        \<and> (pdMarkerState d = DispatchMarkerAbsent \<longleftrightarrow>
             (\<forall>r. markedIn rows r \<longrightarrow> workspaceOccurrenceFor r \<noteq> workspaceOccurrenceFor (pdAction d)
               \<and> (rActionID (pdAction d) \<noteq> [] \<longrightarrow> rActionID r \<noteq> rActionID (pdAction d)))
             \<and> (rActionBatchID (pdAction d) \<noteq> [] \<longrightarrow>
                 \<not> (\<exists>r \<in> set rows. irKind r = WorkspaceIndexDispatchReady \<and> batchKeyOf r
                       = (rSessionID (pdAction d), rRunID (pdAction d), rActionBatchID (pdAction d))))))"
proof -
  note D = Inspect_decisions [OF assms]
  have e: "map pdAction ds = refs" by (simp add: D(1) decisionAt_def comp_def)
  have f: "\<forall>wid. indexFile w' wid = indexFile w wid" using Inspect_same [OF assms] by (simp add: sameBut_file)
  have x: "\<exists>rows. indexFile w (rWorkspaceID ref) = Some rows
      \<and> (\<exists>s. indexInv h (rWorkspaceID ref) rows s \<and> pdMarkerState (decisionAt h w ref) = markerState s ref)"
    if "ref \<in> set refs" for ref
  proof -
    from D(2) that obtain rows s where r: "indexFile w (rWorkspaceID ref) = Some rows"
      "validateWorkspaceIndexRecords h rows (rWorkspaceID ref) = Inr s" unfolding readable_def by blast
    with validate_inv(1) [OF r(2)] show ?thesis by (auto simp: decisionAt_def)
  qed
  have y: "\<exists>rows. indexFile w (rWorkspaceID ref) = Some rows
      \<and> (pdMarkerState (decisionAt h w ref) = DispatchMarkerPresent \<longleftrightarrow> markedIn rows ref \<and> \<not> resolvedIn rows ref)
      \<and> (pdMarkerState (decisionAt h w ref) = DispatchMarkerResolved \<longleftrightarrow> markedIn rows ref \<and> resolvedIn rows ref)
      \<and> (pdMarkerState (decisionAt h w ref) = DispatchMarkerAbsent \<longleftrightarrow>
           (\<forall>r. markedIn rows r \<longrightarrow> workspaceOccurrenceFor r \<noteq> workspaceOccurrenceFor ref
             \<and> (rActionID ref \<noteq> [] \<longrightarrow> rActionID r \<noteq> rActionID ref))
           \<and> (rActionBatchID ref \<noteq> [] \<longrightarrow>
               \<not> (\<exists>r \<in> set rows. irKind r = WorkspaceIndexDispatchReady
                    \<and> batchKeyOf r = (rSessionID ref, rRunID ref, rActionBatchID ref))))"
    if "ref \<in> set refs" for ref
  proof -
    from x [OF that] obtain rows s where r: "indexFile w (rWorkspaceID ref) = Some rows"
      "indexInv h (rWorkspaceID ref) rows s" "pdMarkerState (decisionAt h w ref) = markerState s ref" by blast
    show ?thesis
      unfolding r(3) markerState_present [OF r(2)] markerState_absent [OF r(2)] using r(1) by blast
  qed
  have a: "pdAction (decisionAt h w ref) = ref" for ref by (simp add: decisionAt_def)
  show ?thesis using e f y by (simp add: D(1) a)
qed

theorem inspection_exact_witness:
  "\<exists>rows. indexFile markedWorld ''w'' = Some rows \<and> markedIn rows sampleRef \<and> \<not> resolvedIn rows sampleRef"
proof -
  let ?d = "\<lparr> pdAction = sampleRef, pdMarkerState = DispatchMarkerPresent \<rparr>"
  have "fst (InspectDispatchMarkers sampleHost [sampleRef] markedWorld) = Inr [?d]" by code_simp
  then have "InspectDispatchMarkers sampleHost [sampleRef] markedWorld
      = (Inr [?d], snd (InspectDispatchMarkers sampleHost [sampleRef] markedWorld))" by (metis prod.collapse)
  from inspection_exact [OF this] show ?thesis by (auto simp: sampleRef_def)
qed

text \<open>
  The workspace is quarantined exactly while some marked action that is not a managed
  delegation has no resolution row.
\<close>

theorem quarantine_exact:
  assumes "validateWorkspaceIndexRecords h rows wid = Inr s"
  shows "hasUnresolvedMarker s \<longleftrightarrow>
    (\<exists>r \<in> set rows. irKind r = WorkspaceIndexDispatchReady \<and> (\<exists>a \<in> set (irActions r).
       \<not> daNonBlockingDelegation a \<and> \<not> resolvedIn rows (daAction a)))"
  by (rule hasUnresolvedMarker_iff [OF validate_inv(1) [OF assms]])

theorem quarantine_exact_witness:
  "\<exists>r \<in> set (the (indexFile markedWorld ''w'')). irKind r = WorkspaceIndexDispatchReady"
proof -
  have "case validateWorkspaceIndexRecords sampleHost (the (indexFile markedWorld ''w'')) ''w'' of
      Inl _ \<Rightarrow> False | Inr s \<Rightarrow> hasUnresolvedMarker s" by code_simp
  then obtain s where "validateWorkspaceIndexRecords sampleHost (the (indexFile markedWorld ''w'')) ''w'' = Inr s"
    "hasUnresolvedMarker s" by (auto split: sum.splits)
  with quarantine_exact [OF this(1)] show ?thesis by blast
qed

section \<open>Resolutions\<close>

text \<open>
  C25. When \<open>ApplyDurableResolutions\<close> succeeds, every resolution it was given is recorded with
  its exact checkpoint, or belongs to an action that was proved never dispatched and has no
  marker; and whatever its result, it adds resolution rows only.
\<close>

theorem applied_resolutions_recorded:
  assumes "ApplyDurableResolutions h vs w = (r, w')"
  shows "(r = Inr () \<longrightarrow> (\<forall>v \<in> set vs. \<exists>rows. indexFile w' (rWorkspaceID (vrAction v)) = Some rows
      \<and> ((\<exists>row \<in> set rows. irKind row = WorkspaceIndexResolution \<and> irAction row = Some (vrAction v)
             \<and> irCheckpointID row = vrCheckpointEntryID v \<and> irCheckpointSeq row = vrCheckpointSeq v
             \<and> irResolution row = Some (vrResolution v))
         \<or> \<not> markedIn rows (vrAction v) \<and> erEvidence (vrResolution v) = ResolutionNeverDispatched)))
    \<and> (\<forall>wid rows. indexFile w wid = Some rows \<longrightarrow> (\<exists>rs. indexFile w' wid = Some (rows @ rs)
         \<and> (\<forall>x \<in> set rs. irKind x = WorkspaceIndexResolution)))"
  using Apply_run(2) [OF assms] resolutionsGrow_Some [OF Apply_run(1) [OF assms]]
  unfolding coveredAt_def coveredIn_def recordedResolution_def by blast

theorem applied_resolutions_recorded_witness:
  "\<exists>rows. indexFile (snd (ApplyDurableResolutions sampleHost [sampleValidated] markedWorld)) ''w'' = Some rows
     \<and> (\<exists>row \<in> set rows. irKind row = WorkspaceIndexResolution \<and> irAction row = Some sampleRef)"
proof -
  have "fst (ApplyDurableResolutions sampleHost [sampleValidated] markedWorld) = Inr ()" by code_simp
  then have "ApplyDurableResolutions sampleHost [sampleValidated] markedWorld
      = (Inr (), snd (ApplyDurableResolutions sampleHost [sampleValidated] markedWorld))" by (metis prod.collapse)
  from applied_resolutions_recorded [OF this] show ?thesis
    by (auto simp: sampleValidated_def sampleRef_def sampleResolution_def)
qed

text \<open>
  C26. The decisions of the index for pairwise distinct pending references pass the check that
  the session loader makes of a recovery authority, so a healthy index never stops a resume
  with a reference mismatch or an invalid marker state.
\<close>

theorem index_decisions_accepted:
  assumes "InspectDispatchMarkers h refs w = (Inr ds, w')"
    and "distinct (map keyForRef refs)" "distinct (map rActionID (filter (\<lambda>r. rActionID r \<noteq> []) refs))"
  shows "validatePendingActionDecisions refs ds = Inr ()"
  by (rule index.decisions_accepted [OF assms])

theorem index_decisions_accepted_witness:
  "validatePendingActionDecisions [sampleRef] [\<lparr> pdAction = sampleRef, pdMarkerState = DispatchMarkerPresent \<rparr>] = Inr ()"
proof -
  let ?d = "\<lparr> pdAction = sampleRef, pdMarkerState = DispatchMarkerPresent \<rparr>"
  have "fst (InspectDispatchMarkers sampleHost [sampleRef] markedWorld) = Inr [?d]" by code_simp
  then have "InspectDispatchMarkers sampleHost [sampleRef] markedWorld
      = (Inr [?d], snd (InspectDispatchMarkers sampleHost [sampleRef] markedWorld))" by (metis prod.collapse)
  from index_decisions_accepted [OF this] show ?thesis by simp
qed

section \<open>Facts and identifiers\<close>

text \<open>
  C29. A scoped read proof admits at most one action: claiming it succeeds only when it
  matches, and afterwards the same capability matches nothing again.
\<close>

theorem read_proof_single_use:
  assumes "readClaimWorkspaceAdmission resolve fences claimed p identity effects callID root = (True, claimed')"
  shows "effects = [EffectWorkspaceRead] \<and> spCallID p = callID
    \<and> (\<forall>r \<in> set (spWhitelistRoots p). pathIsEqualOrNested root r)
    \<and> \<not> readMatchesWorkspaceAction resolve fences' claimed' p identity' effects' callID' root'
    \<and> \<not> readMatchesAction resolve fences' claimed' p ti effs sd ad callID' root'"
proof -
  from assms obtain a where a: "spState p = Some a" "claimed' = a # claimed" by (rule readClaim_unclaimed)
  have m: "readMatchesWorkspaceAction resolve fences claimed p identity effects callID root"
    using assms by (simp add: readClaimWorkspaceAdmission_def split: if_splits)
  have "a \<in> set claimed'" using a(2) by simp
  with readMatchesWorkspaceAction_D [OF m] readMatches_claimed [OF a(1)] show ?thesis by blast
qed

theorem read_proof_single_use_witness:
  "\<not> readMatchesWorkspaceAction (\<lambda>p. p) sampleFences [7] sampleProof (identitySnapshot sampleTrusted)
     [EffectWorkspaceRead] ''c'' ''/w''"
proof -
  have "readClaimWorkspaceAdmission (\<lambda>p. p) sampleFences [] sampleProof (identitySnapshot sampleTrusted)
      [EffectWorkspaceRead] ''c'' ''/w'' = (True, [7])" by code_simp
  from read_proof_single_use [OF this] show ?thesis by blast
qed

end
