(* ===== verification/JournalFacts.thy ===== *)
theory JournalFacts
  imports ActionJournal
begin

text \<open>
  What a successful \<open>analyzeDurableActionJournal\<close> establishes of the occurrences and of the
  pending list. \<open>occurrenceOK\<close> is the well-formedness of one occurrence against the rows of
  the file; every pass keeps it. The completeness lemmas say that no intent, receipt or
  resolution row is left out of the table.
\<close>

text \<open>Occurrence keys are tuples; quantifiers over them are kept whole.\<close>

declare split_paired_All [simp del] split_paired_Ex [simp del]

section \<open>The invariant of an occurrence\<close>

definition assistantOK ::
  "session_entry list \<Rightarrow> string \<Rightarrow> occurrence_key \<Rightarrow> action_occurrence \<Rightarrow> bool" where
  "assistantOK rows sid k occ \<longleftrightarrow>
     oAssistant occ \<in> set rows \<and> eRecordVersion (oAssistant occ) = 1
     \<and> eType (oAssistant occ) = EntryTypeAssistant
     \<and> oCallIndex occ < length (eToolCalls (oAssistant occ))
     \<and> oToolName occ = tcName (eToolCalls (oAssistant occ) ! oCallIndex occ)
     \<and> oToolName occ \<noteq> []
     \<and> (\<exists>ord. eOrdinal (oAssistant occ) = Some ord
          \<and> k = (sid, eRunID (oAssistant occ), ord, tcID (eToolCalls (oAssistant occ) ! oCallIndex occ)))
     \<and> tcID (eToolCalls (oAssistant occ) ! oCallIndex occ) \<noteq> []"

definition journalRow :: "session_entry list \<Rightarrow> string \<Rightarrow> occurrence_key \<Rightarrow> session_entry \<Rightarrow> bool" where
  "journalRow rows sid k e \<longleftrightarrow>
     e \<in> set rows \<and> eRecordVersion e = 1 \<and> actionKeyForEntry e sid = Inr k"

definition intentOK ::
  "session_entry list \<Rightarrow> string \<Rightarrow> occurrence_key \<Rightarrow> action_occurrence \<Rightarrow> bool" where
  "intentOK rows sid k occ \<longleftrightarrow>
     (case oIntent occ of
        None \<Rightarrow> oExecutions occ = []
      | Some i \<Rightarrow>
          journalRow rows sid k i \<and> eType i = EntryTypeTool \<and> eActionState i = ActionStateIntent
          \<and> eSeq (oAssistant occ) < eSeq i \<and> eToolName i = oToolName occ
          \<and> durableEntryIsAncestor (tableOf rows) (eID (oAssistant occ)) (eID i)
          \<and> eWorkspaceID i \<noteq> [] \<and> oRef occ = refFromEntry i sid
          \<and> (\<forall>x \<in> set (oExecutions occ). journalRow rows sid k x
               \<and> eActionState x = ActionStateExecution \<and> oRef occ = refFromEntry x sid
               \<and> eSeq i < eSeq x \<and> durableEntryIsAncestor (tableOf rows) (eID i) (eID x)))"

definition receiptOK ::
  "session_entry list \<Rightarrow> string \<Rightarrow> occurrence_key \<Rightarrow> action_occurrence \<Rightarrow> bool" where
  "receiptOK rows sid k occ \<longleftrightarrow>
     (\<forall>r. oReceipt occ = Some r \<longrightarrow>
        journalRow rows sid k r \<and> eType r = EntryTypeTool \<and> eActionState r = ActionStateEmpty
        \<and> eSeq (oAssistant occ) < eSeq r \<and> eToolName r = oToolName occ
        \<and> durableEntryIsAncestor (tableOf rows) (eID (oAssistant occ)) (eID r)
        \<and> (case oIntent occ of
             None \<Rightarrow> eActionID r = [] \<and> eActionBatchID r = []
               \<and> eDispatchState r = DispatchStateNotDispatched
           | Some i \<Rightarrow> eActionID r \<noteq> [] \<and> oRef occ = refFromEntry r sid
               \<and> durableEntryIsAncestor (tableOf rows) (eID i) (eID r)))"

definition resolutionOK ::
  "session_entry list \<Rightarrow> entry_table \<Rightarrow> entry_table \<Rightarrow> string \<Rightarrow> occurrence_key \<Rightarrow> action_occurrence
     \<Rightarrow> bool" where
  "resolutionOK rows execs recons sid k occ \<longleftrightarrow>
     (\<forall>v. oResolution occ = Some v \<longrightarrow>
        (\<exists>c r i. journalRow rows sid k c \<and> eCheckpointKind c = CheckpointExecutionResolution
          \<and> eExecutionResolution c = Some (vrResolution v) \<and> vrCheckpointEntryID v = eID c
          \<and> vrCheckpointSeq v = eSeq c \<and> vrAction v = oRef occ \<and> oRef occ = refFromEntry c sid
          \<and> oIntent occ = Some i \<and> oReceipt occ = Some r \<and> eSeq r < eSeq c
          \<and> durableEntryIsAncestor (tableOf rows) (eID r) (eID c)
          \<and> validateExecutionResolutionEvidence (vrResolution v) (eSeq c) occ execs recons sid = Inr ()))"

definition occurrenceOK ::
  "session_entry list \<Rightarrow> entry_table \<Rightarrow> entry_table \<Rightarrow> string \<Rightarrow> occurrence_key \<times> action_occurrence
     \<Rightarrow> bool" where
  "occurrenceOK rows execs recons sid ko \<longleftrightarrow>
     assistantOK rows sid (fst ko) (snd ko) \<and> intentOK rows sid (fst ko) (snd ko)
     \<and> receiptOK rows sid (fst ko) (snd ko) \<and> resolutionOK rows execs recons sid (fst ko) (snd ko)"

definition tableOK ::
  "session_entry list \<Rightarrow> entry_table \<Rightarrow> entry_table \<Rightarrow> string \<Rightarrow> occurrence_table \<Rightarrow> bool" where
  "tableOK rows execs recons sid occs \<longleftrightarrow>
     (\<forall>ko \<in> set occs. occurrenceOK rows execs recons sid ko) \<and> distinct (map fst occs)"

lemmas occurrenceOK_defs =
  occurrenceOK_def assistantOK_def intentOK_def receiptOK_def resolutionOK_def

text \<open>Each clause only reads some of the fields.\<close>

lemma occurrenceOK_frame [simp]:
  "assistantOK rows sid k (occ \<lparr> oIntent := i \<rparr>) = assistantOK rows sid k occ"
  "assistantOK rows sid k (occ \<lparr> oRef := ref \<rparr>) = assistantOK rows sid k occ"
  "assistantOK rows sid k (occ \<lparr> oExecutions := xs \<rparr>) = assistantOK rows sid k occ"
  "assistantOK rows sid k (occ \<lparr> oReceipt := r \<rparr>) = assistantOK rows sid k occ"
  "assistantOK rows sid k (occ \<lparr> oResolution := v \<rparr>) = assistantOK rows sid k occ"
  "intentOK rows sid k (occ \<lparr> oReceipt := r \<rparr>) = intentOK rows sid k occ"
  "intentOK rows sid k (occ \<lparr> oResolution := v \<rparr>) = intentOK rows sid k occ"
  "receiptOK rows sid k (occ \<lparr> oExecutions := xs \<rparr>) = receiptOK rows sid k occ"
  "receiptOK rows sid k (occ \<lparr> oResolution := v \<rparr>) = receiptOK rows sid k occ"
  by (simp_all add: assistantOK_def intentOK_def receiptOK_def cong: option.case_cong)

lemma resolutionOK_None [simp]: "oResolution occ = None \<Longrightarrow> resolutionOK rows execs recons sid k occ"
  by (simp add: resolutionOK_def)

lemma tableOK_lookup:
  assumes "tableOK rows execs recons sid occs" "map_of occs k = Some occ"
  shows "occurrenceOK rows execs recons sid (k, occ)"
  using assms(1) map_of_SomeD [OF assms(2)] unfolding tableOK_def by blast

lemma tableOK_set:
  assumes "tableOK rows execs recons sid occs" "occurrenceOK rows execs recons sid (k, occ)"
  shows "tableOK rows execs recons sid (setOccurrence k occ occs)"
  using assms setOccurrence_all [of occs "occurrenceOK rows execs recons sid" k occ]
  by (simp add: tableOK_def)

lemma map_of_setOccurrence:
  "map_of (setOccurrence k occ occs) k' =
     (if k' = k \<and> map_of occs k \<noteq> None then Some occ else map_of occs k')"
  by (induction occs) (auto simp: setOccurrence_def)

section \<open>First pass\<close>

text \<open>An occurrence as the first pass leaves it.\<close>

definition bareOccurrence :: "action_occurrence \<Rightarrow> bool" where
  "bareOccurrence occ \<longleftrightarrow> oExecutions occ = [] \<and> oReceipt occ = None \<and> oResolution occ = None"

lemma map_of_None_iff: "map_of xs k = None \<longleftrightarrow> k \<notin> set (map fst xs)"
  by (simp add: map_of_eq_None_iff)

lemma addCalls_table:
  assumes "addCalls sid e ord ci seen calls occs = Inr occs'"
    and "eToolCalls e = pre @ calls" "ci = length pre"
    and "e \<in> set rows" "eRecordVersion e = 1" "eType e = EntryTypeAssistant" "eOrdinal e = Some ord"
    and "tableOK rows execs recons sid occs"
    and "\<forall>ko \<in> set occs. bareOccurrence (snd ko) \<and> oIntent (snd ko) = None"
  shows "tableOK rows execs recons sid occs'
     \<and> (\<forall>ko \<in> set occs'. bareOccurrence (snd ko) \<and> oIntent (snd ko) = None)"
  using assms
proof (induction calls arbitrary: ci seen occs pre)
  case Nil
  then show ?case by simp
next
  case (Cons call calls)
  let ?k = "(sid, eRunID e, ord, tcID call)"
  let ?o = "\<lparr> oRef = emptyRef, oAssistant = e, oCallIndex = ci, oToolName = tcName call,
    oIntent = None, oExecutions = [], oReceipt = None, oResolution = None \<rparr>"
  from Cons.prems(1) have ne: "tcID call \<noteq> []" "tcName call \<noteq> []" "map_of occs ?k = None"
    and rec: "addCalls sid e ord (Suc ci) (tcID call # seen) calls (occs @ [(?k, ?o)]) = Inr occs'"
    by (auto simp: Let_def split: if_splits)
  have nth: "eToolCalls e ! ci = call" using Cons.prems(2,3) by simp
  have "occurrenceOK rows execs recons sid (?k, ?o)"
    using Cons.prems(2-7) ne nth by (simp add: occurrenceOK_defs)
  then have ok: "tableOK rows execs recons sid (occs @ [(?k, ?o)])"
    using Cons.prems(8) ne(3) unfolding tableOK_def map_of_None_iff by auto
  show ?case
    by (rule Cons.IH [OF rec, of "pre @ [call]"])
      (use Cons.prems ok in \<open>auto simp: bareOccurrence_def\<close>)
qed

definition scanOK :: "session_entry list \<Rightarrow> string \<Rightarrow> session_entry list \<Rightarrow> journal_scan \<Rightarrow> bool" where
  "scanOK rows sid ys s \<longleftrightarrow>
     (\<forall>execs recons. tableOK rows execs recons sid (jsOccurrences s))
     \<and> (\<forall>ko \<in> set (jsOccurrences s). bareOccurrence (snd ko) \<and> oIntent (snd ko) = None)
     \<and> (\<forall>kv \<in> set (jsExecutionRows s). snd kv \<in> set ys \<and> fst kv = eID (snd kv)
          \<and> eRecordVersion (snd kv) = 1 \<and> eActionState (snd kv) = ActionStateExecution
          \<and> validCompletionProof (eCompletionProof (snd kv)))
     \<and> (\<forall>kv \<in> set (jsReconciliationRows s). snd kv \<in> set ys \<and> fst kv = eID (snd kv)
          \<and> eRecordVersion (snd kv) = 1 \<and> eCheckpointKind (snd kv) = CheckpointReconciliation)"

lemma scanIndex_keeps:
  assumes "scanIndex s e = Inr s'"
  shows "jsOccurrences s' = jsOccurrences s" "jsExecutionRows s' = jsExecutionRows s"
    "jsReconciliationRows s' = jsReconciliationRows s"
  using assms by (auto simp: scanIndex_def split: option.splits if_splits)

lemma scanAssistant_keeps:
  assumes "scanAssistant sid s e = Inr s'"
  shows "jsExecutionRows s' = jsExecutionRows s" "jsReconciliationRows s' = jsReconciliationRows s"
    "jsNextIndex s' = jsNextIndex s"
  using assms by (auto simp: scanAssistant_def bindR_eq_Inr split: option.splits if_splits)

lemma scanEvidence_keeps:
  assumes "scanEvidence s e = Inr s'"
  shows "jsOccurrences s' = jsOccurrences s" "jsNextIndex s' = jsNextIndex s"
    and "set (jsExecutionRows s') \<subseteq> insert (eID e, e) (set (jsExecutionRows s))"
    and "(eID e, e) \<in> set (jsExecutionRows s') \<Longrightarrow> (eID e, e) \<notin> set (jsExecutionRows s) \<Longrightarrow>
      eActionState e = ActionStateExecution \<and> validCompletionProof (eCompletionProof e)"
    and "set (jsReconciliationRows s') \<subseteq> insert (eID e, e) (set (jsReconciliationRows s))"
    and "(eID e, e) \<in> set (jsReconciliationRows s') \<Longrightarrow>
      (eID e, e) \<notin> set (jsReconciliationRows s) \<Longrightarrow> eCheckpointKind e = CheckpointReconciliation"
  using assms
  by (auto simp: scanEvidence_def bindR_eq_Inr split: option.splits if_splits)

lemma scanAssistant_table:
  assumes "scanAssistant sid s e = Inr s'" "e \<in> set rows" "eRecordVersion e = 1"
    and "tableOK rows execs recons sid (jsOccurrences s)"
    and "\<forall>ko \<in> set (jsOccurrences s). bareOccurrence (snd ko) \<and> oIntent (snd ko) = None"
  shows "tableOK rows execs recons sid (jsOccurrences s')
    \<and> (\<forall>ko \<in> set (jsOccurrences s'). bareOccurrence (snd ko) \<and> oIntent (snd ko) = None)"
proof (cases "eType e = EntryTypeAssistant \<and> eToolCalls e \<noteq> []")
  case True
  with assms(1) obtain ord occs where o: "eOrdinal e = Some ord"
    "addCalls sid e ord 0 [] (eToolCalls e) (jsOccurrences s) = Inr occs" "jsOccurrences s' = occs"
    by (auto simp: scanAssistant_def bindR_eq_Inr split: option.splits if_splits)
  show ?thesis
    unfolding o(3) by (rule addCalls_table [OF o(2), of "[]"]) (use assms o(1) True in auto)
next
  case False
  with assms show ?thesis by (auto simp: scanAssistant_def)
qed

lemma scanEntry_ok:
  assumes "scanOK rows sid ys s" "scanEntry sid s e = Inr s'" "e \<in> set rows"
  shows "scanOK rows sid (ys @ [e]) s'"
proof (cases "eRecordVersion e = 1")
  case False
  with assms show ?thesis by (auto simp: scanEntry_def scanOK_def)
next
  case v1: True
  with assms(2) obtain s1 s2 where s: "scanIndex s e = Inr s1" "scanAssistant sid s1 e = Inr s2"
    "scanEvidence s2 e = Inr s'"
    by (auto simp: scanEntry_def bindR_eq_Inr)
  note k1 = scanIndex_keeps [OF s(1)] and k2 = scanAssistant_keeps [OF s(2)]
    and k3 = scanEvidence_keeps [OF s(3)]
  have t: "tableOK rows execs recons sid (jsOccurrences s2)
    \<and> (\<forall>ko \<in> set (jsOccurrences s2). bareOccurrence (snd ko) \<and> oIntent (snd ko) = None)" for execs recons
    by (rule scanAssistant_table [OF s(2) assms(3) v1]) (use assms(1) k1 in \<open>auto simp: scanOK_def\<close>)
  have ex: "snd kv \<in> set (ys @ [e]) \<and> fst kv = eID (snd kv) \<and> eRecordVersion (snd kv) = 1
      \<and> eActionState (snd kv) = ActionStateExecution \<and> validCompletionProof (eCompletionProof (snd kv))"
    if kv: "kv \<in> set (jsExecutionRows s')" for kv
  proof (cases "kv \<in> set (jsExecutionRows s)")
    case True with assms(1) show ?thesis by (auto simp: scanOK_def)
  next
    case False
    with kv k1 k2 k3(3) have "kv = (eID e, e)" by auto
    with kv False k1 k2 k3(4) v1 show ?thesis by auto
  qed
  have re: "snd kv \<in> set (ys @ [e]) \<and> fst kv = eID (snd kv) \<and> eRecordVersion (snd kv) = 1
      \<and> eCheckpointKind (snd kv) = CheckpointReconciliation"
    if kv: "kv \<in> set (jsReconciliationRows s')" for kv
  proof (cases "kv \<in> set (jsReconciliationRows s)")
    case True with assms(1) show ?thesis by (auto simp: scanOK_def)
  next
    case False
    with kv k1 k2 k3(5) have "kv = (eID e, e)" by auto
    with kv False k1 k2 k3(6) v1 show ?thesis by auto
  qed
  show ?thesis unfolding scanOK_def k3(1) using t ex re by blast
qed

lemma scan_ok:
  assumes "foldR (scanEntry sid) initialScan rows = Inr s"
  shows "scanOK rows sid rows s"
  using assms
proof (rule foldR_prefix_invariant [where I = "scanOK rows sid"])
  show "scanOK rows sid [] initialScan"
    by (simp add: scanOK_def initialScan_def tableOK_def)
qed (simp add: scanEntry_ok)

section \<open>Second pass\<close>

definition intentsOK :: "session_entry list \<Rightarrow> string \<Rightarrow> session_entry list \<Rightarrow> intent_scan \<Rightarrow> bool" where
  "intentsOK rows sid ys s \<longleftrightarrow>
     (\<forall>execs recons. tableOK rows execs recons sid (isOccurrences s))
     \<and> (\<forall>ko \<in> set (isOccurrences s). bareOccurrence (snd ko))
     \<and> (\<forall>e \<in> set ys. eRecordVersion e = 1 \<and> eActionState e = ActionStateIntent \<longrightarrow>
          (\<exists>k occ. map_of (isOccurrences s) k = Some occ \<and> oIntent occ = Some e))
     \<and> (\<forall>k occ i. map_of (isOccurrences s) k = Some occ \<and> oIntent occ = Some i \<longrightarrow>
          eActionID i \<in> set (isActionIDs s))
     \<and> (\<forall>k k' occ occ' i i'. map_of (isOccurrences s) k = Some occ
          \<and> map_of (isOccurrences s) k' = Some occ' \<and> oIntent occ = Some i \<and> oIntent occ' = Some i'
          \<and> eActionID i = eActionID i' \<longrightarrow> k = k')"

lemma intentsOK_D:
  assumes "intentsOK rows sid ys s"
  shows "tableOK rows execs recons sid (isOccurrences s)"
    and "\<forall>ko \<in> set (isOccurrences s). bareOccurrence (snd ko)"
    and "e \<in> set ys \<Longrightarrow> eRecordVersion e = 1 \<Longrightarrow> eActionState e = ActionStateIntent \<Longrightarrow>
      \<exists>k occ. map_of (isOccurrences s) k = Some occ \<and> oIntent occ = Some e"
    and "map_of (isOccurrences s) k = Some occ \<Longrightarrow> oIntent occ = Some i \<Longrightarrow>
      eActionID i \<in> set (isActionIDs s)"
    and "map_of (isOccurrences s) k = Some occ \<Longrightarrow> map_of (isOccurrences s) k' = Some occ' \<Longrightarrow>
      oIntent occ = Some i \<Longrightarrow> oIntent occ' = Some i' \<Longrightarrow> eActionID i = eActionID i' \<Longrightarrow> k = k'"
  using assms unfolding intentsOK_def by blast+

lemma scanIntent_step:
  assumes "scanIntent (tableOf rows) sid s e = Inr s'"
    and "eRecordVersion e = 1" "eActionState e = ActionStateIntent"
  obtains k occ where "actionKeyForEntry e sid = Inr k" "map_of (isOccurrences s) k = Some occ"
    "eSeq (oAssistant occ) < eSeq e" "eType e = EntryTypeTool" "eToolName e = oToolName occ"
    "durableEntryIsAncestor (tableOf rows) (eID (oAssistant occ)) (eID e)" "eWorkspaceID e \<noteq> []"
    "oIntent occ = None" "eActionID e \<notin> set (isActionIDs s)"
    "isOccurrences s' = setOccurrence k (occ \<lparr> oIntent := Some e, oRef := refFromEntry e sid \<rparr>)
        (isOccurrences s)" "isActionIDs s' = eActionID e # isActionIDs s"
proof -
  obtain k where k: "actionKeyForEntry e sid = Inr k"
    using assms by (cases "actionKeyForEntry e sid") (auto simp: scanIntent_def)
  obtain occ where occ: "map_of (isOccurrences s) k = Some occ"
    using assms k by (cases "map_of (isOccurrences s) k") (auto simp: scanIntent_def)
  show ?thesis
    by (rule that [OF k occ])
      (use assms k occ in \<open>simp_all add: scanIntent_def Let_def not_le split: if_splits, safe?, simp_all?\<close>)
qed

lemma scanIntent_ok:
  assumes ok: "intentsOK rows sid ys s" and step: "scanIntent (tableOf rows) sid s e = Inr s'"
    and e: "e \<in> set rows"
  shows "intentsOK rows sid (ys @ [e]) s'"
proof (cases "eRecordVersion e = 1 \<and> eActionState e = ActionStateIntent")
  case False
  with step have s': "s' = s" by (auto simp: scanIntent_def)
  show ?thesis
    unfolding intentsOK_def s'
    by (intro conjI) (use intentsOK_D [OF ok] False in \<open>auto 0 2\<close>)
next
  case True
  from scanIntent_step [OF step] True obtain k occ where k: "actionKeyForEntry e sid = Inr k"
    and occ: "map_of (isOccurrences s) k = Some occ"
    and c: "eSeq (oAssistant occ) < eSeq e" "eType e = EntryTypeTool" "eToolName e = oToolName occ"
      "durableEntryIsAncestor (tableOf rows) (eID (oAssistant occ)) (eID e)" "eWorkspaceID e \<noteq> []"
      "oIntent occ = None" "eActionID e \<notin> set (isActionIDs s)"
    and s': "isOccurrences s' = setOccurrence k (occ \<lparr> oIntent := Some e, oRef := refFromEntry e sid \<rparr>)
        (isOccurrences s)" "isActionIDs s' = eActionID e # isActionIDs s"
    by metis
  let ?occ = "occ \<lparr> oIntent := Some e, oRef := refFromEntry e sid \<rparr>"
  note D = intentsOK_D [OF ok]
  have bare: "bareOccurrence occ"
    using D(2) map_of_SomeD [OF occ] by force
  have t: "tableOK rows execs recons sid (isOccurrences s')" for execs recons
    unfolding s'(1)
  proof (rule tableOK_set [OF D(1)])
    show "occurrenceOK rows execs recons sid (k, ?occ)"
      using tableOK_lookup [OF D(1) occ, of execs recons] k c e True bare
      by (simp add: occurrenceOK_defs bareOccurrence_def journalRow_def) metis
  qed
  have b: "\<forall>ko \<in> set (isOccurrences s'). bareOccurrence (snd ko)"
    unfolding s'(1)
    by (rule setOccurrence_all [OF D(2)]) (use bare in \<open>simp add: bareOccurrence_def\<close>)
  have look: "map_of (isOccurrences s') k' = (if k' = k then Some ?occ else map_of (isOccurrences s) k')" for k'
    using occ by (simp add: s'(1) map_of_setOccurrence)
  have cover: "\<exists>k occ. map_of (isOccurrences s') k = Some occ \<and> oIntent occ = Some x"
    if x: "x \<in> set (ys @ [e])" "eRecordVersion x = 1 \<and> eActionState x = ActionStateIntent" for x
  proof (cases "x = e")
    case True
    then show ?thesis using look [of k] by (intro exI [of _ k] exI [of _ ?occ]) simp
  next
    case False
    with x D(3) [of x] obtain k' o' where "map_of (isOccurrences s) k' = Some o'" "oIntent o' = Some x"
      by auto
    then show ?thesis using look [of k'] c(6) occ by (intro exI [of _ k'] exI [of _ o']) auto
  qed
  have ids: "eActionID i \<in> set (isActionIDs s')"
    if "map_of (isOccurrences s') k' = Some o'" "oIntent o' = Some i" for k' o' i
    using that D(4) [of k' o' i] look [of k'] s'(2) by (auto split: if_splits)
  have old: "eActionID i \<noteq> eActionID e"
    if "map_of (isOccurrences s) k' = Some o'" "oIntent o' = Some i" for k' o' i
    using D(4) [OF that] c(7) by auto
  have uniq: "k1 = k2"
    if h: "map_of (isOccurrences s') k1 = Some o1" "map_of (isOccurrences s') k2 = Some o2"
      "oIntent o1 = Some i1" "oIntent o2 = Some i2" "eActionID i1 = eActionID i2" for k1 k2 o1 o2 i1 i2
    using h look [of k1] look [of k2] old [of k1 o1 i1] old [of k2 o2 i2] D(5) [of k1 o1 k2 o2 i1 i2]
    by (auto split: if_splits)
  show ?thesis unfolding intentsOK_def using t b cover ids uniq by blast
qed

lemma intents_ok:
  assumes scan: "scanOK rows sid rows scan"
    and f: "foldR (scanIntent (tableOf rows) sid)
      \<lparr> isOccurrences = jsOccurrences scan, isBatchKeys = [], isActionIDs = [] \<rparr> rows = Inr s"
  shows "intentsOK rows sid rows s"
  using f
proof (rule foldR_prefix_invariant [where I = "intentsOK rows sid"])
  have "\<And>k occ. map_of (jsOccurrences scan) k = Some occ \<Longrightarrow> oIntent occ = None"
    using scan map_of_SomeD by (fastforce simp: scanOK_def)
  with scan show "intentsOK rows sid []
      \<lparr> isOccurrences = jsOccurrences scan, isBatchKeys = [], isActionIDs = [] \<rparr>"
    by (auto simp: intentsOK_def scanOK_def)
qed (simp add: scanIntent_ok)

section \<open>Third pass\<close>

definition sameIntents :: "occurrence_table \<Rightarrow> occurrence_table \<Rightarrow> bool" where
  "sameIntents occs occs' \<longleftrightarrow>
     (\<forall>k. map_option oIntent (map_of occs' k) = map_option oIntent (map_of occs k))"

lemma sameIntents_refl [simp]: "sameIntents occs occs"
  by (simp add: sameIntents_def)

lemma sameIntents_trans: "sameIntents a b \<Longrightarrow> sameIntents b c \<Longrightarrow> sameIntents a c"
  by (simp add: sameIntents_def)

lemma sameIntents_set:
  assumes "map_of occs k = Some occ" "oIntent occ' = oIntent occ"
  shows "sameIntents occs (setOccurrence k occ' occs)"
  using assms by (auto simp: sameIntents_def map_of_setOccurrence)

text \<open>The row is the receipt, or one of the execution rows, of some occurrence.\<close>

definition receiptOf :: "occurrence_table \<Rightarrow> session_entry \<Rightarrow> bool" where
  "receiptOf occs e \<longleftrightarrow> (\<exists>k occ. map_of occs k = Some occ \<and> oReceipt occ = Some e)"

definition executionOf :: "occurrence_table \<Rightarrow> session_entry \<Rightarrow> bool" where
  "executionOf occs e \<longleftrightarrow> (\<exists>k occ. map_of occs k = Some occ \<and> e \<in> set (oExecutions occ))"

definition isReceiptRow :: "session_entry \<Rightarrow> bool" where
  "isReceiptRow e \<longleftrightarrow> eRecordVersion e = 1 \<and> eType e = EntryTypeTool \<and> eActionState e = ActionStateEmpty"

definition isExecutionRow :: "session_entry \<Rightarrow> bool" where
  "isExecutionRow e \<longleftrightarrow> eRecordVersion e = 1 \<and> eActionState e = ActionStateExecution"

lemma receiptOf_set:
  assumes "map_of occs k = Some occ" "oReceipt occ = None \<or> oReceipt occ' = oReceipt occ"
    and "receiptOf occs e"
  shows "receiptOf (setOccurrence k occ' occs) e"
proof -
  from assms(3) obtain k1 o1 where o1: "map_of occs k1 = Some o1" "oReceipt o1 = Some e"
    by (auto simp: receiptOf_def)
  show ?thesis
  proof (cases "k1 = k")
    case True
    with o1 assms(1,2) have "oReceipt occ' = Some e" by auto
    with assms(1) show ?thesis
      unfolding receiptOf_def by (intro exI [of _ k] exI [of _ occ']) (simp add: map_of_setOccurrence)
  next
    case False
    with o1 assms(1) show ?thesis
      unfolding receiptOf_def by (intro exI [of _ k1] exI [of _ o1]) (simp add: map_of_setOccurrence)
  qed
qed

lemma executionOf_set:
  assumes "map_of occs k = Some occ" "set (oExecutions occ) \<subseteq> set (oExecutions occ')"
    and "executionOf occs e"
  shows "executionOf (setOccurrence k occ' occs) e"
proof -
  from assms(3) obtain k1 o1 where o1: "map_of occs k1 = Some o1" "e \<in> set (oExecutions o1)"
    by (auto simp: executionOf_def)
  show ?thesis
  proof (cases "k1 = k")
    case True
    with o1 assms(1,2) have "e \<in> set (oExecutions occ')" by auto
    with assms(1) show ?thesis
      unfolding executionOf_def by (intro exI [of _ k] exI [of _ occ']) (simp add: map_of_setOccurrence)
  next
    case False
    with o1 assms(1) show ?thesis
      unfolding executionOf_def by (intro exI [of _ k1] exI [of _ o1]) (simp add: map_of_setOccurrence)
  qed
qed

definition rowsOK ::
  "session_entry list \<Rightarrow> string \<Rightarrow> occurrence_table \<Rightarrow> session_entry list \<Rightarrow> occurrence_table \<Rightarrow> bool" where
  "rowsOK rows sid occs0 ys occs \<longleftrightarrow>
     (\<forall>execs recons. tableOK rows execs recons sid occs)
     \<and> (\<forall>ko \<in> set occs. oResolution (snd ko) = None)
     \<and> sameIntents occs0 occs
     \<and> (\<forall>e \<in> set ys. isReceiptRow e \<longrightarrow> receiptOf occs e)
     \<and> (\<forall>e \<in> set ys. isExecutionRow e \<longrightarrow> executionOf occs e)"

lemma scanExecution_step:
  assumes "scanExecution tab sid occs e = Inr occs'" "eActionState e = ActionStateExecution"
  obtains k occ i where "actionKeyForEntry e sid = Inr k" "map_of occs k = Some occ"
    "oIntent occ = Some i" "oRef occ = refFromEntry e sid" "eSeq i < eSeq e"
    "eToolName e = oToolName occ" "durableEntryIsAncestor tab (eID i) (eID e)"
    "occs' = setOccurrence k (occ \<lparr> oExecutions := oExecutions occ @ [e] \<rparr>) occs"
proof -
  obtain k where k: "actionKeyForEntry e sid = Inr k"
    using assms by (cases "actionKeyForEntry e sid") (auto simp: scanExecution_def)
  obtain occ where occ: "map_of occs k = Some occ"
    using assms k by (cases "map_of occs k") (auto simp: scanExecution_def)
  obtain i where i: "oIntent occ = Some i"
    using assms k occ by (cases "oIntent occ") (auto simp: scanExecution_def)
  show ?thesis
    by (rule that [OF k occ i])
      (use assms k occ i in \<open>simp_all add: scanExecution_def not_le split: if_splits\<close>)
qed

lemma scanReceipt_step:
  assumes "scanReceipt tab sid occs e = Inr occs'" "eType e = EntryTypeTool"
    "eActionState e = ActionStateEmpty"
  obtains k occ where "actionKeyForEntry e sid = Inr k" "map_of occs k = Some occ"
    "eSeq (oAssistant occ) < eSeq e" "eToolName e = oToolName occ"
    "durableEntryIsAncestor tab (eID (oAssistant occ)) (eID e)" "oReceipt occ = None"
    "checkReceiptReservation tab sid occ e = Inr ()"
    "occs' = setOccurrence k (occ \<lparr> oReceipt := Some e \<rparr>) occs"
proof -
  obtain k where k: "actionKeyForEntry e sid = Inr k"
    using assms by (cases "actionKeyForEntry e sid") (auto simp: scanReceipt_def)
  obtain occ where occ: "map_of occs k = Some occ"
    using assms k by (cases "map_of occs k") (auto simp: scanReceipt_def)
  show ?thesis
    by (rule that [OF k occ])
      (use assms k occ in \<open>simp_all add: scanReceipt_def not_le bindR_eq_Inr split: if_splits\<close>)
qed

lemma checkReceiptReservation_Inr:
  "checkReceiptReservation tab sid occ e = Inr u \<longleftrightarrow>
     (case oIntent occ of
        None \<Rightarrow> eActionID e = [] \<and> eActionBatchID e = [] \<and> eDispatchState e = DispatchStateNotDispatched
      | Some i \<Rightarrow> eActionID e \<noteq> [] \<and> eActionBatchID e \<noteq> [] \<and> oRef occ = refFromEntry e sid
          \<and> durableEntryIsAncestor tab (eID i) (eID e))"
  by (auto simp: checkReceiptReservation_def split: option.splits)

lemma rowsOK_D:
  assumes "rowsOK rows sid occs0 ys occs"
  shows "tableOK rows execs recons sid occs" "\<forall>ko \<in> set occs. oResolution (snd ko) = None"
    "sameIntents occs0 occs" "e \<in> set ys \<Longrightarrow> isReceiptRow e \<Longrightarrow> receiptOf occs e"
    "e \<in> set ys \<Longrightarrow> isExecutionRow e \<Longrightarrow> executionOf occs e"
  using assms unfolding rowsOK_def by blast+

lemma map_of_all: "\<forall>ko \<in> set occs. P (snd ko) \<Longrightarrow> map_of occs k = Some occ \<Longrightarrow> P occ"
  using map_of_SomeD by fastforce

text \<open>Each half of a pass-three step keeps the invariant for the rows before the current one.\<close>

lemma scanExecution_ok:
  assumes ok: "rowsOK rows sid occs0 ys occs" and step: "scanExecution (tableOf rows) sid occs e = Inr occs'"
    and e: "e \<in> set rows" "eRecordVersion e = 1"
  shows "rowsOK rows sid occs0 ys occs' \<and> (isExecutionRow e \<longrightarrow> executionOf occs' e)"
proof (cases "eActionState e = ActionStateExecution")
  case False
  with step ok show ?thesis by (simp add: scanExecution_def isExecutionRow_def)
next
  case True
  note D = rowsOK_D [OF ok]
  from scanExecution_step [OF step True] obtain k occ i where k: "actionKeyForEntry e sid = Inr k"
    and occ: "map_of occs k = Some occ" and i: "oIntent occ = Some i"
    and c: "oRef occ = refFromEntry e sid" "eSeq i < eSeq e" "eToolName e = oToolName occ"
      "durableEntryIsAncestor (tableOf rows) (eID i) (eID e)"
    and occs': "occs' = setOccurrence k (occ \<lparr> oExecutions := oExecutions occ @ [e] \<rparr>) occs"
    by metis
  let ?occ = "occ \<lparr> oExecutions := oExecutions occ @ [e] \<rparr>"
  have res: "oResolution occ = None" using map_of_all [OF D(2) occ] .
  have t: "tableOK rows execs recons sid occs'" for execs recons
    unfolding occs'
  proof (rule tableOK_set [OF D(1)])
    have "occurrenceOK rows execs recons sid (k, occ)" using tableOK_lookup [OF D(1) occ] .
    then have "assistantOK rows sid k occ" "intentOK rows sid k occ" "receiptOK rows sid k occ"
      by (simp_all add: occurrenceOK_def)
    moreover from this have "intentOK rows sid k ?occ"
      using k c i e True by (auto simp: intentOK_def journalRow_def)
    ultimately show "occurrenceOK rows execs recons sid (k, ?occ)"
      using res by (simp add: occurrenceOK_def)
  qed
  have r: "\<forall>ko \<in> set occs'. oResolution (snd ko) = None"
    unfolding occs' by (rule setOccurrence_all [OF D(2)]) (simp add: res)
  have s: "sameIntents occs0 occs'"
    unfolding occs' by (rule sameIntents_trans [OF D(3) sameIntents_set [OF occ]]) simp
  have rc: "receiptOf occs' x" if "x \<in> set ys" "isReceiptRow x" for x
    unfolding occs' by (rule receiptOf_set [OF occ _ D(4) [OF that]]) simp
  have xc: "executionOf occs' x" if "x \<in> set ys" "isExecutionRow x" for x
    unfolding occs' by (rule executionOf_set [OF occ _ D(5) [OF that]]) auto
  have "executionOf occs' e"
    unfolding occs' executionOf_def
    by (intro exI [of _ k] exI [of _ ?occ]) (simp add: map_of_setOccurrence occ)
  with t r s rc xc show ?thesis unfolding rowsOK_def by blast
qed

lemma scanReceipt_ok:
  assumes ok: "rowsOK rows sid occs0 ys occs" and step: "scanReceipt (tableOf rows) sid occs e = Inr occs'"
    and e: "e \<in> set rows" "eRecordVersion e = 1"
  shows "rowsOK rows sid occs0 ys occs' \<and> (isReceiptRow e \<longrightarrow> receiptOf occs' e)
    \<and> (\<forall>x. executionOf occs x \<longrightarrow> executionOf occs' x)"
proof (cases "eType e = EntryTypeTool \<and> eActionState e = ActionStateEmpty")
  case False
  with step ok show ?thesis by (auto simp: scanReceipt_def isReceiptRow_def)
next
  case True
  note D = rowsOK_D [OF ok]
  from scanReceipt_step [OF step] True obtain k occ where k: "actionKeyForEntry e sid = Inr k"
    and occ: "map_of occs k = Some occ"
    and c: "eSeq (oAssistant occ) < eSeq e" "eToolName e = oToolName occ"
      "durableEntryIsAncestor (tableOf rows) (eID (oAssistant occ)) (eID e)" "oReceipt occ = None"
    and chk: "checkReceiptReservation (tableOf rows) sid occ e = Inr ()"
    and occs': "occs' = setOccurrence k (occ \<lparr> oReceipt := Some e \<rparr>) occs"
    by metis
  let ?occ = "occ \<lparr> oReceipt := Some e \<rparr>"
  have res: "oResolution occ = None" using map_of_all [OF D(2) occ] .
  have t: "tableOK rows execs recons sid occs'" for execs recons
    unfolding occs'
  proof (rule tableOK_set [OF D(1)])
    have "occurrenceOK rows execs recons sid (k, occ)" using tableOK_lookup [OF D(1) occ] .
    then have "assistantOK rows sid k occ" "intentOK rows sid k occ"
      by (simp_all add: occurrenceOK_def)
    moreover have "receiptOK rows sid k ?occ"
      using k c e True chk
      by (auto simp: receiptOK_def journalRow_def checkReceiptReservation_Inr split: option.splits)
    ultimately show "occurrenceOK rows execs recons sid (k, ?occ)"
      using res by (simp add: occurrenceOK_def)
  qed
  have r: "\<forall>ko \<in> set occs'. oResolution (snd ko) = None"
    unfolding occs' by (rule setOccurrence_all [OF D(2)]) (simp add: res)
  have s: "sameIntents occs0 occs'"
    unfolding occs' by (rule sameIntents_trans [OF D(3) sameIntents_set [OF occ]]) simp
  have rc: "receiptOf occs' x" if "x \<in> set ys" "isReceiptRow x" for x
    unfolding occs' by (rule receiptOf_set [OF occ _ D(4) [OF that]]) (simp add: c)
  have x: "executionOf occs x \<Longrightarrow> executionOf occs' x" for x
    unfolding occs' by (rule executionOf_set [OF occ]) simp
  have "receiptOf occs' e"
    unfolding occs' receiptOf_def
    by (intro exI [of _ k] exI [of _ ?occ]) (simp add: map_of_setOccurrence occ)
  with t r s rc x D(5) show ?thesis unfolding rowsOK_def by blast
qed

lemma scanJournalRow_ok:
  assumes ok: "rowsOK rows sid occs0 ys occs" and step: "scanJournalRow (tableOf rows) sid occs e = Inr occs'"
    and e: "e \<in> set rows"
  shows "rowsOK rows sid occs0 (ys @ [e]) occs'"
proof (cases "eRecordVersion e = 1")
  case False
  with ok step show ?thesis
    by (auto simp: rowsOK_def scanJournalRow_def isReceiptRow_def isExecutionRow_def)
next
  case True
  with step obtain occs1 where 1: "scanExecution (tableOf rows) sid occs e = Inr occs1"
    "scanReceipt (tableOf rows) sid occs1 e = Inr occs'"
    by (auto simp: scanJournalRow_def bindR_eq_Inr)
  have a: "rowsOK rows sid occs0 ys occs1" "isExecutionRow e \<longrightarrow> executionOf occs1 e"
    using scanExecution_ok [OF ok 1(1) e True] by auto
  have b: "rowsOK rows sid occs0 ys occs'" "isReceiptRow e \<longrightarrow> receiptOf occs' e"
    "executionOf occs1 e \<longrightarrow> executionOf occs' e"
    using scanReceipt_ok [OF a(1) 1(2) e True] by auto
  note D = rowsOK_D [OF b(1)]
  have x: "isExecutionRow e \<longrightarrow> executionOf occs' e" using a(2) b(3) by blast
  show ?thesis
    unfolding rowsOK_def using D b(2) x by auto
qed

lemma rows_ok:
  assumes "intentsOK rows sid rows s"
    and "foldR (scanJournalRow (tableOf rows) sid) (isOccurrences s) rows = Inr occs"
  shows "rowsOK rows sid (isOccurrences s) rows occs"
  using assms(2)
proof (rule foldR_prefix_invariant [where I = "rowsOK rows sid (isOccurrences s)"])
  show "rowsOK rows sid (isOccurrences s) [] (isOccurrences s)"
    using intentsOK_D(1,2) [OF assms(1)] by (simp add: rowsOK_def bareOccurrence_def)
qed (simp add: scanJournalRow_ok)

section \<open>Fourth pass\<close>

text \<open>The resolution pass only fills in resolutions.\<close>

definition resolvesOnly :: "occurrence_table \<Rightarrow> occurrence_table \<Rightarrow> bool" where
  "resolvesOnly occs occs' \<longleftrightarrow>
     (\<forall>k. map_option (\<lambda>occ. occ \<lparr> oResolution := None \<rparr>) (map_of occs' k)
        = map_option (\<lambda>occ. occ \<lparr> oResolution := None \<rparr>) (map_of occs k))"

definition isResolutionRow :: "session_entry \<Rightarrow> bool" where
  "isResolutionRow e \<longleftrightarrow> eRecordVersion e = 1 \<and> eCheckpointKind e = CheckpointExecutionResolution"

definition resolvedBy :: "occurrence_table \<Rightarrow> string \<Rightarrow> session_entry \<Rightarrow> bool" where
  "resolvedBy occs sid e \<longleftrightarrow> (\<exists>k occ v. actionKeyForEntry e sid = Inr k \<and> map_of occs k = Some occ
     \<and> oResolution occ = Some v \<and> vrCheckpointEntryID v = eID e)"

definition resolutionsOf :: "occurrence_table \<Rightarrow> validated_resolution set" where
  "resolutionsOf occs = {v. \<exists>k occ. map_of occs k = Some occ \<and> oResolution occ = Some v}"

definition checkedOK ::
  "session_entry list \<Rightarrow> entry_table \<Rightarrow> entry_table \<Rightarrow> string \<Rightarrow> occurrence_table
     \<Rightarrow> session_entry list \<Rightarrow> resolution_scan \<Rightarrow> bool" where
  "checkedOK rows execs recons sid occs0 ys s \<longleftrightarrow>
     tableOK rows execs recons sid (rsOccurrences s)
     \<and> resolvesOnly occs0 (rsOccurrences s)
     \<and> set (rsResolutions s) = resolutionsOf (rsOccurrences s)
     \<and> (\<forall>e \<in> set ys. isResolutionRow e \<longrightarrow> resolvedBy (rsOccurrences s) sid e)"

lemma scanResolution_step:
  assumes "scanResolution tab execs recons sid s e = Inr s'"
    "eCheckpointKind e = CheckpointExecutionResolution"
  obtains x k occ r i where "eExecutionResolution e = Some x" "actionKeyForEntry e sid = Inr k"
    "map_of (rsOccurrences s) k = Some occ" "oIntent occ = Some i" "oReceipt occ = Some r"
    "oRef occ = refFromEntry e sid" "eSeq r < eSeq e" "oResolution occ = None"
    "validateExecutionResolutionEvidence x (eSeq e) occ execs recons sid = Inr ()"
    "durableEntryIsAncestor tab (eID r) (eID e)"
    "let v = \<lparr> vrAction = oRef occ, vrCheckpointEntryID = eID e, vrCheckpointSeq = eSeq e,
       vrResolution = x \<rparr> in rsOccurrences s' = setOccurrence k (occ \<lparr> oResolution := Some v \<rparr>)
         (rsOccurrences s) \<and> rsResolutions s' = rsResolutions s @ [v]"
proof -
  obtain x where x: "eExecutionResolution e = Some x"
    using assms by (cases "eExecutionResolution e") (auto simp: scanResolution_def)
  obtain k where k: "actionKeyForEntry e sid = Inr k"
    using assms x by (cases "actionKeyForEntry e sid") (auto simp: scanResolution_def)
  obtain occ where occ: "map_of (rsOccurrences s) k = Some occ"
    using assms x k by (cases "map_of (rsOccurrences s) k") (auto simp: scanResolution_def)
  obtain i where i: "oIntent occ = Some i"
    using assms x k occ by (cases "oIntent occ") (auto simp: scanResolution_def)
  obtain r where r: "oReceipt occ = Some r"
    using assms x k occ i by (cases "oReceipt occ") (auto simp: scanResolution_def split: if_splits)
  show ?thesis
    by (rule that [OF x k occ i r])
      (use assms x k occ i r in \<open>simp_all add: scanResolution_def not_le Let_def bindR_eq_Inr
          split: if_splits, safe?, simp_all?\<close>)
qed

lemma checkedOK_D:
  assumes "checkedOK rows execs recons sid occs0 ys s"
  shows "tableOK rows execs recons sid (rsOccurrences s)" "resolvesOnly occs0 (rsOccurrences s)"
    "set (rsResolutions s) = resolutionsOf (rsOccurrences s)"
    "e \<in> set ys \<Longrightarrow> isResolutionRow e \<Longrightarrow> resolvedBy (rsOccurrences s) sid e"
  using assms unfolding checkedOK_def by blast+

lemma validateExecutionResolutionEvidence_frame [simp]:
  "validateExecutionResolutionEvidence x n (occ \<lparr> oResolution := v \<rparr>) execs recons sid
     = validateExecutionResolutionEvidence x n occ execs recons sid"
  by (simp add: validateExecutionResolutionEvidence_def
      cong: option.case_cong resolution_evidence.case_cong)

lemma resolutionsOf_set:
  assumes "map_of occs k = Some occ" "oResolution occ = None"
  shows "resolutionsOf (setOccurrence k (occ \<lparr> oResolution := Some v \<rparr>) occs) = insert v (resolutionsOf occs)"
proof (intro set_eqI iffI)
  fix w assume "w \<in> resolutionsOf (setOccurrence k (occ \<lparr> oResolution := Some v \<rparr>) occs)"
  then show "w \<in> insert v (resolutionsOf occs)"
    by (auto simp: resolutionsOf_def map_of_setOccurrence split: if_splits)
next
  fix w assume w: "w \<in> insert v (resolutionsOf occs)"
  show "w \<in> resolutionsOf (setOccurrence k (occ \<lparr> oResolution := Some v \<rparr>) occs)"
  proof (cases "w = v")
    case True
    with assms show ?thesis
      unfolding resolutionsOf_def mem_Collect_eq
      by (intro exI [of _ k] exI [of _ "occ \<lparr> oResolution := Some v \<rparr>"]) (simp add: map_of_setOccurrence)
  next
    case False
    with w obtain k1 o1 where o1: "map_of occs k1 = Some o1" "oResolution o1 = Some w"
      by (auto simp: resolutionsOf_def)
    moreover from o1 assms have "k1 \<noteq> k" by auto
    ultimately show ?thesis
      unfolding resolutionsOf_def mem_Collect_eq
      by (intro exI [of _ k1] exI [of _ o1]) (simp add: map_of_setOccurrence)
  qed
qed

lemma scanResolution_ok:
  assumes ok: "checkedOK rows execs recons sid occs0 ys s"
    and step: "scanResolution (tableOf rows) execs recons sid s e = Inr s'"
    and e: "e \<in> set rows" "eRecordVersion e = 1"
  shows "checkedOK rows execs recons sid occs0 (ys @ [e]) s'"
proof (cases "eCheckpointKind e = CheckpointExecutionResolution")
  case False
  with step have "s' = s" by (simp add: scanResolution_def)
  with ok False show ?thesis by (auto simp: checkedOK_def isResolutionRow_def)
next
  case True
  note D = checkedOK_D [OF ok]
  from scanResolution_step [OF step True] obtain x k occ r i where
    x: "eExecutionResolution e = Some x" and k: "actionKeyForEntry e sid = Inr k"
    and occ: "map_of (rsOccurrences s) k = Some occ" and ir: "oIntent occ = Some i" "oReceipt occ = Some r"
    and c: "oRef occ = refFromEntry e sid" "eSeq r < eSeq e" "oResolution occ = None"
      "validateExecutionResolutionEvidence x (eSeq e) occ execs recons sid = Inr ()"
      "durableEntryIsAncestor (tableOf rows) (eID r) (eID e)"
    and s': "let v = \<lparr> vrAction = oRef occ, vrCheckpointEntryID = eID e, vrCheckpointSeq = eSeq e,
       vrResolution = x \<rparr> in rsOccurrences s' = setOccurrence k (occ \<lparr> oResolution := Some v \<rparr>)
         (rsOccurrences s) \<and> rsResolutions s' = rsResolutions s @ [v]"
    by metis
  define v where "v = \<lparr> vrAction = oRef occ, vrCheckpointEntryID = eID e, vrCheckpointSeq = eSeq e,
    vrResolution = x \<rparr>"
  let ?occ = "occ \<lparr> oResolution := Some v \<rparr>"
  have s: "rsOccurrences s' = setOccurrence k ?occ (rsOccurrences s)"
    "rsResolutions s' = rsResolutions s @ [v]"
    using s' by (simp_all add: Let_def v_def)
  have t: "tableOK rows execs recons sid (rsOccurrences s')"
    unfolding s
  proof (rule tableOK_set [OF D(1)])
    have "occurrenceOK rows execs recons sid (k, occ)" using tableOK_lookup [OF D(1) occ] .
    moreover have "resolutionOK rows execs recons sid k ?occ"
      unfolding resolutionOK_def
      by (intro allI impI, rule exI [of _ e], rule exI [of _ r], rule exI [of _ i])
        (use x k ir c e True in \<open>simp add: v_def journalRow_def\<close>)
    ultimately show "occurrenceOK rows execs recons sid (k, ?occ)"
      by (simp add: occurrenceOK_def)
  qed
  have o: "resolvesOnly occs0 (rsOccurrences s')"
    unfolding resolvesOnly_def
  proof
    fix k'
    show "map_option (\<lambda>occ. occ \<lparr> oResolution := None \<rparr>) (map_of (rsOccurrences s') k')
        = map_option (\<lambda>occ. occ \<lparr> oResolution := None \<rparr>) (map_of occs0 k')"
      using D(2) occ unfolding s resolvesOnly_def
      by (cases "k' = k") (simp_all add: map_of_setOccurrence flip: D(2) [unfolded resolvesOnly_def, rule_format])
  qed
  have l: "set (rsResolutions s') = resolutionsOf (rsOccurrences s')"
    unfolding s resolutionsOf_set [OF occ c(3)] using D(3) by auto
  have old: "resolvedBy (rsOccurrences s') sid y" if y: "resolvedBy (rsOccurrences s) sid y" for y
  proof -
    from y obtain k1 o1 w where o1: "actionKeyForEntry y sid = Inr k1"
      "map_of (rsOccurrences s) k1 = Some o1" "oResolution o1 = Some w" "vrCheckpointEntryID w = eID y"
      by (auto simp: resolvedBy_def)
    moreover from o1 occ c have "k1 \<noteq> k" by auto
    ultimately show ?thesis
      unfolding resolvedBy_def by (intro exI [of _ k1] exI [of _ o1] exI [of _ w])
        (simp add: s map_of_setOccurrence)
  qed
  have "resolvedBy (rsOccurrences s') sid e"
    unfolding resolvedBy_def by (intro exI [of _ k] exI [of _ ?occ] exI [of _ v])
      (simp add: s map_of_setOccurrence occ k v_def)
  with t o l old D(4) show ?thesis unfolding checkedOK_def by auto
qed

lemma checked_ok:
  assumes "rowsOK rows sid occs0 rows occs"
    and f: "foldR (scanCheckpoint (tableOf rows) execs recons sid)
      \<lparr> rsOccurrences = occs, rsResolutions = [] \<rparr> rows = Inr s"
  shows "checkedOK rows execs recons sid occs rows s"
  using f
proof (rule foldR_prefix_invariant [where I = "checkedOK rows execs recons sid occs"])
  have "oResolution occ = None" if "map_of occs k = Some occ" for k occ
    using map_of_all [OF rowsOK_D(2) [OF assms(1)] that] .
  then show "checkedOK rows execs recons sid occs [] \<lparr> rsOccurrences = occs, rsResolutions = [] \<rparr>"
    using rowsOK_D(1) [OF assms(1)] by (auto simp: checkedOK_def resolvesOnly_def resolutionsOf_def)
next
  fix ys e zs t t'
  assume "rows = ys @ e # zs" "checkedOK rows execs recons sid occs ys t"
    "scanCheckpoint (tableOf rows) execs recons sid t e = Inr t'"
  then show "checkedOK rows execs recons sid occs (ys @ [e]) t'"
    by (cases "eRecordVersion e = 1")
      (auto simp: scanCheckpoint_def bindR_eq_Inr intro: scanResolution_ok,
       auto simp: checkedOK_def isResolutionRow_def)
qed

section \<open>The plan\<close>

definition isPending :: "action_occurrence \<Rightarrow> bool" where
  "isPending occ \<longleftrightarrow> (oIntent occ \<noteq> None \<and> oResolution occ = None)
     \<or> (oIntent occ = None \<and> oReceipt occ = None)"

definition closedRef :: "string \<Rightarrow> action_occurrence \<Rightarrow> pending_ref" where
  "closedRef sid occ =
     (if oIntent occ = None \<and> oReceipt occ = None then
        \<lparr> rSessionID = sid, rWorkspaceID = eWorkspaceID (oAssistant occ),
          rRunID = eRunID (oAssistant occ), rActionBatchID = [],
          rOrdinal = the (eOrdinal (oAssistant occ)),
          rToolCallID = tcID (eToolCalls (oAssistant occ) ! oCallIndex occ), rActionID = [] \<rparr>
      else oRef occ)"

lemma closeOccurrence_fold:
  "foldR (closeOccurrence sid) (ps, os) occs = Inr res \<Longrightarrow>
     res = (ps @ map (closedRef sid) (filter isPending occs),
            os @ map (\<lambda>occ. occ \<lparr> oRef := closedRef sid occ \<rparr>) occs)
     \<and> (\<forall>occ \<in> set occs. oIntent occ = None \<and> oReceipt occ = None \<longrightarrow>
          eWorkspaceID (oAssistant occ) \<noteq> [])"
proof (induction occs arbitrary: ps os)
  case Nil
  then show ?case by simp
next
  case (Cons occ occs)
  from Cons.prems obtain acc where a: "closeOccurrence sid (ps, os) occ = Inr acc"
    "foldR (closeOccurrence sid) acc occs = Inr res"
    by (auto split: sum.splits)
  have s: "occ \<lparr> oRef := oRef occ \<rparr> = occ" by simp
  have acc: "acc = (ps @ map (closedRef sid) (filter isPending [occ]),
      os @ [occ \<lparr> oRef := closedRef sid occ \<rparr>])
      \<and> (oIntent occ = None \<and> oReceipt occ = None \<longrightarrow> eWorkspaceID (oAssistant occ) \<noteq> [])"
    using a(1) by (auto simp: closeOccurrence_def isPending_def closedRef_def Let_def split: if_splits)
  have "res = (fst acc @ map (closedRef sid) (filter isPending occs),
      snd acc @ map (\<lambda>occ. occ \<lparr> oRef := closedRef sid occ \<rparr>) occs)
     \<and> (\<forall>occ \<in> set occs. oIntent occ = None \<and> oReceipt occ = None \<longrightarrow>
          eWorkspaceID (oAssistant occ) \<noteq> [])"
    by (rule Cons.IH) (simp add: a(2))
  with acc show ?case by simp
qed

text \<open>
  Everything the analysis guarantees, over the table \<open>occs\<close> of occurrences it builds.
\<close>

definition journalTable ::
  "session_entry list \<Rightarrow> string \<Rightarrow> entry_table \<Rightarrow> entry_table \<Rightarrow> occurrence_table \<Rightarrow> bool" where
  "journalTable rows sid execs recons occs \<longleftrightarrow>
     tableOK rows execs recons sid occs
     \<and> (\<forall>e \<in> set rows. eRecordVersion e = 1 \<and> eActionState e = ActionStateIntent \<longrightarrow>
          (\<exists>k occ. map_of occs k = Some occ \<and> oIntent occ = Some e))
     \<and> (\<forall>k k' occ occ' i i'. map_of occs k = Some occ \<and> map_of occs k' = Some occ'
          \<and> oIntent occ = Some i \<and> oIntent occ' = Some i' \<and> eActionID i = eActionID i' \<longrightarrow> k = k')
     \<and> (\<forall>e \<in> set rows. isReceiptRow e \<longrightarrow> receiptOf occs e)
     \<and> (\<forall>e \<in> set rows. isExecutionRow e \<longrightarrow> executionOf occs e)
     \<and> (\<forall>e \<in> set rows. isResolutionRow e \<longrightarrow> resolvedBy occs sid e)
     \<and> (\<forall>x p. map_of execs x = Some p \<longrightarrow> p \<in> set rows \<and> isExecutionRow p
          \<and> validCompletionProof (eCompletionProof p) \<and> eID p = x)
     \<and> (\<forall>x p. map_of recons x = Some p \<longrightarrow> p \<in> set rows \<and> eRecordVersion p = 1
          \<and> eCheckpointKind p = CheckpointReconciliation \<and> eID p = x)"

definition planOf ::
  "string \<Rightarrow> occurrence_table \<Rightarrow> validated_resolution list \<Rightarrow> (string \<times> u64) list \<Rightarrow> recovery_plan" where
  "planOf sid occs resolutions nexts =
     \<lparr> rpResolutions = resolutions,
       rpPending = map (closedRef sid) (filter isPending (map snd occs)),
       rpOccurrences = map (\<lambda>occ. occ \<lparr> oRef := closedRef sid occ \<rparr>) (map snd occs),
       rpNextTranscriptIndex = nexts \<rparr>"

lemma resolvesOnly_D:
  assumes "resolvesOnly occs occs'" "map_of occs k = Some occ"
  obtains occ' where "map_of occs' k = Some occ'" "oIntent occ' = oIntent occ"
    "oReceipt occ' = oReceipt occ" "oExecutions occ' = oExecutions occ"
proof -
  from assms have eq: "map_option (\<lambda>occ. occ \<lparr> oResolution := None \<rparr>) (map_of occs' k)
      = Some (occ \<lparr> oResolution := None \<rparr>)"
    by (simp add: resolvesOnly_def)
  then obtain occ' where occ': "map_of occs' k = Some occ'"
    "occ' \<lparr> oResolution := None \<rparr> = occ \<lparr> oResolution := None \<rparr>" by auto
  have "oIntent occ' = oIntent (occ' \<lparr> oResolution := None \<rparr>)"
    "oReceipt occ' = oReceipt (occ' \<lparr> oResolution := None \<rparr>)"
    "oExecutions occ' = oExecutions (occ' \<lparr> oResolution := None \<rparr>)" by simp_all
  then show ?thesis using that [OF occ'(1)] unfolding occ'(2) by simp
qed

lemma resolvesOnly_sym: "resolvesOnly occs occs' \<Longrightarrow> resolvesOnly occs' occs"
  by (simp add: resolvesOnly_def)

lemma sameIntents_D:
  assumes "sameIntents occs occs'" "map_of occs k = Some occ"
  obtains occ' where "map_of occs' k = Some occ'" "oIntent occ' = oIntent occ"
proof -
  from assms have "map_option oIntent (map_of occs' k) = Some (oIntent occ)"
    by (simp add: sameIntents_def)
  then show ?thesis using that by auto
qed

lemma sameIntents_sym: "sameIntents occs occs' \<Longrightarrow> sameIntents occs' occs"
  by (simp add: sameIntents_def)

lemma resolvesOnly_sameIntents: "resolvesOnly occs occs' \<Longrightarrow> sameIntents occs occs'"
  unfolding sameIntents_def
proof
  fix k assume r: "resolvesOnly occs occs'"
  show "map_option oIntent (map_of occs' k) = map_option oIntent (map_of occs k)"
  proof (cases "map_of occs k")
    case None
    with r have "map_option (\<lambda>occ. occ \<lparr> oResolution := None \<rparr>) (map_of occs' k) = None"
      by (simp add: resolvesOnly_def)
    then have "map_of occs' k = None" by simp
    with None show ?thesis by simp
  next
    case (Some occ)
    show ?thesis by (rule resolvesOnly_D [OF r Some]) (simp add: Some)
  qed
qed

lemma analyze_table:
  assumes "analyzeDurableActionJournal rows sid = Inr plan"
  obtains occs execs recons scan resolutions where
    "journalTable rows sid execs recons occs"
    "foldR (scanEntry sid) initialScan rows = Inr scan"
    "set resolutions = resolutionsOf occs"
    "plan = planOf sid occs resolutions (jsNextIndex scan)"
proof -
  obtain scan where 1: "foldR (scanEntry sid) initialScan rows = Inr scan"
    using assms by (auto simp: analyzeDurableActionJournal_def Let_def bindR_eq_Inr)
  obtain ints where 2: "foldR (scanIntent (tableOf rows) sid)
      \<lparr> isOccurrences = jsOccurrences scan, isBatchKeys = [], isActionIDs = [] \<rparr> rows = Inr ints"
    using assms 1 by (auto simp: analyzeDurableActionJournal_def Let_def bindR_eq_Inr)
  obtain occs where 3: "foldR (scanJournalRow (tableOf rows) sid) (isOccurrences ints) rows = Inr occs"
    using assms 1 2 by (auto simp: analyzeDurableActionJournal_def Let_def bindR_eq_Inr)
  obtain chk where 4: "foldR (scanCheckpoint (tableOf rows) (jsExecutionRows scan)
      (jsReconciliationRows scan) sid) \<lparr> rsOccurrences = occs, rsResolutions = [] \<rparr> rows = Inr chk"
    using assms 1 2 3 by (auto simp: analyzeDurableActionJournal_def Let_def bindR_eq_Inr)
  obtain closed where 5: "foldR (closeOccurrence sid) ([], []) (map snd (rsOccurrences chk)) = Inr closed"
    and p: "plan = \<lparr> rpResolutions = rsResolutions chk, rpPending = fst closed,
        rpOccurrences = snd closed, rpNextTranscriptIndex = jsNextIndex scan \<rparr>"
    using assms 1 2 3 4 by (auto simp: analyzeDurableActionJournal_def Let_def bindR_eq_Inr)
  note S = scan_ok [OF 1]
  note I = intents_ok [OF S 2]
  note R = rows_ok [OF I 3]
  note C = checked_ok [OF R 4]
  let ?occs = "rsOccurrences chk"
  have si: "sameIntents (isOccurrences ints) ?occs"
    by (rule sameIntents_trans [OF rowsOK_D(3) [OF R] resolvesOnly_sameIntents [OF checkedOK_D(2) [OF C]]])
  have cover: "\<exists>k occ. map_of ?occs k = Some occ \<and> oIntent occ = Some e"
    if "e \<in> set rows" "eRecordVersion e = 1" "eActionState e = ActionStateIntent" for e
    using intentsOK_D(3) [OF I that] by (metis sameIntents_D [OF si])
  have uniq: "k = k'" if "map_of ?occs k = Some occ" "map_of ?occs k' = Some occ'"
    "oIntent occ = Some i" "oIntent occ' = Some i'" "eActionID i = eActionID i'" for k k' occ occ' i i'
    using intentsOK_D(5) [OF I] that by (metis sameIntents_D [OF sameIntents_sym [OF si]])
  have rec: "receiptOf ?occs e" if "e \<in> set rows" "isReceiptRow e" for e
    using rowsOK_D(4) [OF R that] unfolding receiptOf_def
    by (metis resolvesOnly_D [OF checkedOK_D(2) [OF C]])
  have exe: "executionOf ?occs e" if "e \<in> set rows" "isExecutionRow e" for e
    using rowsOK_D(5) [OF R that] unfolding executionOf_def
    by (metis resolvesOnly_D [OF checkedOK_D(2) [OF C]])
  have ex: "p \<in> set rows \<and> isExecutionRow p \<and> validCompletionProof (eCompletionProof p) \<and> eID p = x"
    if "map_of (jsExecutionRows scan) x = Some p" for x p
    using S map_of_SomeD [OF that] unfolding scanOK_def isExecutionRow_def by force
  have re: "p \<in> set rows \<and> eRecordVersion p = 1 \<and> eCheckpointKind p = CheckpointReconciliation \<and> eID p = x"
    if "map_of (jsReconciliationRows scan) x = Some p" for x p
    using S map_of_SomeD [OF that] unfolding scanOK_def by force
  have tab: "journalTable rows sid (jsExecutionRows scan) (jsReconciliationRows scan) ?occs"
    unfolding journalTable_def
    using checkedOK_D(1,4) [OF C] cover uniq rec exe ex re by blast
  show ?thesis
    by (rule that [OF tab 1 checkedOK_D(3) [OF C]])
      (use closeOccurrence_fold [OF 5] in \<open>simp add: p planOf_def\<close>)
qed

lemma journalTable_D:
  assumes "journalTable rows sid execs recons occs"
  shows "tableOK rows execs recons sid occs"
    "e \<in> set rows \<Longrightarrow> eRecordVersion e = 1 \<Longrightarrow> eActionState e = ActionStateIntent \<Longrightarrow>
      \<exists>k occ. map_of occs k = Some occ \<and> oIntent occ = Some e"
    "map_of occs k = Some occ \<Longrightarrow> map_of occs k' = Some occ' \<Longrightarrow> oIntent occ = Some i \<Longrightarrow>
      oIntent occ' = Some i' \<Longrightarrow> eActionID i = eActionID i' \<Longrightarrow> k = k'"
    "e \<in> set rows \<Longrightarrow> isReceiptRow e \<Longrightarrow> receiptOf occs e"
    "e \<in> set rows \<Longrightarrow> isExecutionRow e \<Longrightarrow> executionOf occs e"
    "e \<in> set rows \<Longrightarrow> isResolutionRow e \<Longrightarrow> resolvedBy occs sid e"
    "map_of execs x = Some p \<Longrightarrow> p \<in> set rows \<and> isExecutionRow p
       \<and> validCompletionProof (eCompletionProof p) \<and> eID p = x"
    "map_of recons x = Some p \<Longrightarrow> p \<in> set rows \<and> eRecordVersion p = 1
       \<and> eCheckpointKind p = CheckpointReconciliation \<and> eID p = x"
  using assms unfolding journalTable_def by blast+

section \<open>Consequences for the rows of the file\<close>

text \<open>The reference of a pending occurrence names the occurrence's key.\<close>

lemma keyForRef_refFromEntry:
  "actionKeyForEntry e sid = Inr k \<Longrightarrow> keyForRef (refFromEntry e sid) = k"
  by (auto simp: actionKeyForEntry_def keyForRef_def refFromEntry_def split: if_splits)

lemma keyForRef_closedRef:
  assumes "occurrenceOK rows execs recons sid (k, occ)" "isPending occ"
  shows "keyForRef (closedRef sid occ) = k"
proof (cases "oIntent occ")
  case None
  then show ?thesis
    using assms by (auto simp: isPending_def closedRef_def keyForRef_def occurrenceOK_def assistantOK_def)
next
  case (Some i)
  then show ?thesis
    using assms
    by (auto simp: closedRef_def occurrenceOK_def intentOK_def journalRow_def intro: keyForRef_refFromEntry)
qed

lemma pending_iff:
  assumes t: "journalTable rows sid execs recons occs" and k: "map_of occs k = Some occ"
    and ref: "closedRef sid occ = ref" "keyForRef ref = k"
  shows "ref \<in> set (rpPending (planOf sid occs res nexts)) \<longleftrightarrow> isPending occ"
proof
  note D = journalTable_D(1) [OF t]
  assume "ref \<in> set (rpPending (planOf sid occs res nexts))"
  then obtain k' o' where o': "(k', o') \<in> set occs" "isPending o'" "closedRef sid o' = ref"
    by (auto simp: planOf_def)
  have "map_of occs k' = Some o'"
    using D o'(1) by (simp add: tableOK_def)
  moreover have "k' = k"
    using keyForRef_closedRef [OF tableOK_lookup [OF D calculation] o'(2)] o'(3) ref by simp
  ultimately show "isPending occ" using k o'(2) by simp
next
  assume "isPending occ"
  with map_of_SomeD [OF k] ref(1) show "ref \<in> set (rpPending (planOf sid occs res nexts))"
    by (force simp: planOf_def)
qed

text \<open>The occurrence of an intent row.\<close>

lemma intent_occurrence:
  assumes t: "journalTable rows sid execs recons occs"
    and e: "e \<in> set rows" "eRecordVersion e = 1" "eActionState e = ActionStateIntent"
  obtains k occ where "actionKeyForEntry e sid = Inr k" "map_of occs k = Some occ"
    "oIntent occ = Some e" "oRef occ = refFromEntry e sid" "occurrenceOK rows execs recons sid (k, occ)"
proof -
  obtain k occ where k: "map_of occs k = Some occ" "oIntent occ = Some e"
    using journalTable_D(2) [OF t e] by blast
  have ok: "occurrenceOK rows execs recons sid (k, occ)"
    by (rule tableOK_lookup [OF journalTable_D(1) [OF t] k(1)])
  then have "actionKeyForEntry e sid = Inr k" "oRef occ = refFromEntry e sid"
    using k(2) by (simp_all add: occurrenceOK_def intentOK_def journalRow_def)
  then show ?thesis using that k ok by blast
qed

lemma resolved_iff:
  assumes t: "journalTable rows sid execs recons occs"
    and k: "map_of occs k = Some occ" "oIntent occ = Some e"
  shows "oResolution occ \<noteq> None \<longleftrightarrow>
    (\<exists>c \<in> set rows. isResolutionRow c \<and> refFromEntry c sid = refFromEntry e sid)"
proof
  note ok = tableOK_lookup [OF journalTable_D(1) [OF t] k(1)]
  assume "oResolution occ \<noteq> None"
  then obtain c where "journalRow rows sid k c" "eCheckpointKind c = CheckpointExecutionResolution"
    "oRef occ = refFromEntry c sid"
    using ok by (auto simp: occurrenceOK_def resolutionOK_def)
  moreover have "oRef occ = refFromEntry e sid"
    using ok k(2) by (simp add: occurrenceOK_def intentOK_def)
  ultimately show "\<exists>c \<in> set rows. isResolutionRow c \<and> refFromEntry c sid = refFromEntry e sid"
    by (intro bexI [of _ c]) (simp_all add: journalRow_def isResolutionRow_def)
next
  note ok = tableOK_lookup [OF journalTable_D(1) [OF t] k(1)]
  assume "\<exists>c \<in> set rows. isResolutionRow c \<and> refFromEntry c sid = refFromEntry e sid"
  then obtain c where c: "c \<in> set rows" "isResolutionRow c" "refFromEntry c sid = refFromEntry e sid"
    by blast
  from journalTable_D(6) [OF t c(1,2)] obtain k' o' where o': "actionKeyForEntry c sid = Inr k'"
    "map_of occs k' = Some o'" "oResolution o' \<noteq> None" by (auto simp: resolvedBy_def)
  have "keyForRef (refFromEntry e sid) = k"
    using ok k(2) by (auto simp: occurrenceOK_def intentOK_def journalRow_def intro: keyForRef_refFromEntry)
  moreover have "keyForRef (refFromEntry c sid) = k'" by (rule keyForRef_refFromEntry [OF o'(1)])
  ultimately have "k' = k" using c(3) by simp
  with o' k show "oResolution occ \<noteq> None" by simp
qed

text \<open>What a validated resolution rests on, by the kind of its evidence.\<close>

definition evidenceFor ::
  "session_entry list \<Rightarrow> string \<Rightarrow> session_entry \<Rightarrow> session_entry \<Rightarrow> session_entry \<Rightarrow> execution_resolution \<Rightarrow> bool" where
  "evidenceFor rows sid intent receipt checkpoint x \<longleftrightarrow>
     (case erEvidence x of
        ResolutionNeverDispatched \<Rightarrow>
          eDispatchState receipt = DispatchStateNotDispatched
          \<and> eReceiptOutcome receipt \<in> {ReceiptOutcomeInterrupted, ReceiptOutcomeError}
          \<and> erEvidenceRef x = eID receipt
      | ResolutionLocalResourcesStopped \<Rightarrow>
          eDispatchState receipt = DispatchStateDispatched
          \<and> (\<exists>p \<in> set rows. isExecutionRow p \<and> eID p = erEvidenceRef x
               \<and> eDispatchState p = DispatchStateDispatched \<and> IsPositiveCompletionProof (eCompletionProof p)
               \<and> eSeq intent < eSeq p \<and> eSeq p < eSeq checkpoint
               \<and> refFromEntry p sid = refFromEntry intent sid)
      | ResolutionOperatorReconciled \<Rightarrow>
          (\<exists>p \<in> set rows. eRecordVersion p = 1 \<and> eCheckpointKind p = CheckpointReconciliation
             \<and> eID p = erEvidenceRef x
             \<and> (\<exists>r. eOperatorReconciliation p = Some r \<and> validateOperatorReconciliation r = Inr ())
             \<and> eSeq receipt < eSeq p \<and> eSeq p < eSeq checkpoint
             \<and> refFromEntry p sid = refFromEntry intent sid)
      | _ \<Rightarrow> False)"

lemma evidenceFor_valid:
  assumes t: "journalTable rows sid execs recons occs"
    and v: "validateExecutionResolutionEvidence x (eSeq c) occ execs recons sid = Inr ()"
    and o: "oIntent occ = Some i" "oReceipt occ = Some r" "oRef occ = refFromEntry i sid"
  shows "evidenceFor rows sid i r c x \<and> erRunID x = eRunID i \<and> erActionID x = eActionID i"
proof -
  have id: "erRunID x = eRunID i \<and> erActionID x = eActionID i"
    using v o by (auto simp: validateExecutionResolutionEvidence_def refFromEntry_def split: if_splits)
  have "evidenceFor rows sid i r c x"
  proof (cases "erEvidence x")
    case ResolutionNeverDispatched
    with v o show ?thesis
      by (auto simp: validateExecutionResolutionEvidence_def evidenceFor_def split: if_splits)
  next
    case ResolutionLocalResourcesStopped
    then obtain p where p: "map_of execs (erEvidenceRef x) = Some p" "eDispatchState r = DispatchStateDispatched"
      "eDispatchState p = DispatchStateDispatched" "eCompletionProof p \<noteq> ProofEmpty"
      "eSeq i < eSeq p" "eSeq p < eSeq c" "refFromEntry p sid = refFromEntry i sid"
      using v o by (auto simp: validateExecutionResolutionEvidence_def not_le split: if_splits option.splits)
    with journalTable_D(7) [OF t p(1)] ResolutionLocalResourcesStopped show ?thesis
      by (auto simp: evidenceFor_def validCompletionProof_def)
  next
    case ResolutionOperatorReconciled
    then obtain p rr where p: "map_of recons (erEvidenceRef x) = Some p" "eOperatorReconciliation p = Some rr"
      "validateOperatorReconciliation rr = Inr ()" "eSeq r < eSeq p" "eSeq p < eSeq c"
      "refFromEntry p sid = refFromEntry i sid"
      using v o by (auto simp: validateExecutionResolutionEvidence_def not_le split: if_splits option.splits)
    with journalTable_D(8) [OF t p(1)] ResolutionOperatorReconciled show ?thesis
      by (auto simp: evidenceFor_def)
  qed (use v o in \<open>auto simp: validateExecutionResolutionEvidence_def split: if_splits\<close>)
  with id show ?thesis by simp
qed

section \<open>The next transcript index\<close>

definition nextIndexOK :: "session_entry list \<Rightarrow> (string \<times> u64) list \<Rightarrow> bool" where
  "nextIndexOK ys nexts \<longleftrightarrow>
     (\<forall>e \<in> set ys. \<forall>run i. transcriptCoordinate e = Some (run, i) \<longrightarrow> i < nextIndexOf nexts run)
     \<and> (\<forall>run. nextIndexOf nexts run = 0
          \<or> (\<exists>e \<in> set ys. \<exists>i. transcriptCoordinate e = Some (run, i) \<and> nextIndexOf nexts run = i + 1 \<and> i \<noteq> - 1))"

lemma word_less_succ: "(i :: u64) \<noteq> - 1 \<Longrightarrow> n < i + 1 \<longleftrightarrow> n \<le> i"
  using inc_less_eq_iff not_less by blast

lemma nextIndexOf_Cons: "nextIndexOf ((r, n) # xs) run = (if r = run then n else nextIndexOf xs run)"
  by (simp add: nextIndexOf_def)

lemma nextIndexOK_step:
  assumes ok: "nextIndexOK ys (jsNextIndex s)" and step: "scanIndex s e = Inr s'"
  shows "nextIndexOK (ys @ [e]) (jsNextIndex s')"
proof (cases "transcriptCoordinate e")
  case None
  with step ok show ?thesis by (auto simp: scanIndex_def nextIndexOK_def)
next
  case (Some ri)
  obtain run i where ri: "ri = (run, i)" by force
  have i: "i \<noteq> - 1" and s': "jsNextIndex s' = (if nextIndexOf (jsNextIndex s) run < i + 1
      then (run, i + 1) # jsNextIndex s else jsNextIndex s)"
    using step Some ri by (auto simp: scanIndex_def split: if_splits)
  have n: "nextIndexOf (jsNextIndex s') run'
      = (if run' = run \<and> nextIndexOf (jsNextIndex s) run < i + 1 then i + 1 else nextIndexOf (jsNextIndex s) run')" for run'
    unfolding s' by (simp add: nextIndexOf_Cons)
  have up: "j < nextIndexOf (jsNextIndex s') run'" if "j < nextIndexOf (jsNextIndex s) run'" for j run'
    using that unfolding n by (auto intro: less_trans)
  have here: "i < nextIndexOf (jsNextIndex s') run"
    unfolding n using i word_less_succ [OF i, of i] by (auto simp: not_less intro: less_le_trans)
  show ?thesis
    unfolding nextIndexOK_def
  proof (intro conjI ballI allI impI)
    fix x run' j assume x: "x \<in> set (ys @ [e])" "transcriptCoordinate x = Some (run', j)"
    show "j < nextIndexOf (jsNextIndex s') run'"
    proof (cases "x = e")
      case True
      with x Some ri here show ?thesis by simp
    next
      case False
      with x ok have "j < nextIndexOf (jsNextIndex s) run'" by (auto simp: nextIndexOK_def)
      then show ?thesis by (rule up)
    qed
  next
    fix run'
    show "nextIndexOf (jsNextIndex s') run' = 0 \<or> (\<exists>x \<in> set (ys @ [e]). \<exists>j.
        transcriptCoordinate x = Some (run', j) \<and> nextIndexOf (jsNextIndex s') run' = j + 1 \<and> j \<noteq> - 1)"
    proof (cases "run' = run \<and> nextIndexOf (jsNextIndex s) run < i + 1")
      case True
      then show ?thesis using Some ri i by (intro disjI2 bexI [of _ e] exI [of _ i]) (simp_all add: n)
    next
      case False
      then have "nextIndexOf (jsNextIndex s') run' = nextIndexOf (jsNextIndex s) run'"
        unfolding n by (rule if_not_P)
      then show ?thesis using ok unfolding nextIndexOK_def by (metis Un_iff set_append)
    qed
  qed
qed

lemma nextIndexOK_scan:
  assumes "foldR (scanEntry sid) initialScan rows = Inr s"
  shows "nextIndexOK rows (jsNextIndex s)"
  using assms
proof (rule foldR_prefix_invariant [where I = "\<lambda>ys s. nextIndexOK ys (jsNextIndex s)"])
  show "nextIndexOK [] (jsNextIndex initialScan)"
    by (simp add: nextIndexOK_def initialScan_def nextIndexOf_def)
next
  fix ys e zs t t'
  assume ok: "nextIndexOK ys (jsNextIndex t)" and step: "scanEntry sid t e = Inr t'"
  show "nextIndexOK (ys @ [e]) (jsNextIndex t')"
  proof (cases "eRecordVersion e = 1")
    case False
    then have "transcriptCoordinate e = None" by (simp add: transcriptCoordinate_def)
    with False ok step show ?thesis by (auto simp: scanEntry_def nextIndexOK_def)
  next
    case True
    with step obtain s1 s2 where s: "scanIndex t e = Inr s1" "scanAssistant sid s1 e = Inr s2"
      "scanEvidence s2 e = Inr t'"
      by (auto simp: scanEntry_def bindR_eq_Inr)
    then show ?thesis
      using nextIndexOK_step [OF ok s(1)] scanAssistant_keeps(3) [OF s(2)] scanEvidence_keeps(2) [OF s(3)]
      by simp
  qed
qed

section \<open>The analysis as a whole\<close>

lemma analyze_pending:
  assumes "analyzeDurableActionJournal rows sid = Inr plan"
    and e: "e \<in> set rows" "eRecordVersion e = 1" "eActionState e = ActionStateIntent"
  shows "refFromEntry e sid \<in> set (rpPending plan) \<longleftrightarrow>
    \<not> (\<exists>c \<in> set rows. isResolutionRow c \<and> refFromEntry c sid = refFromEntry e sid)"
proof -
  obtain occs execs recons scan res where t: "journalTable rows sid execs recons occs"
    and scan: "foldR (scanEntry sid) initialScan rows = Inr scan"
    and res: "set res = resolutionsOf occs" and p: "plan = planOf sid occs res (jsNextIndex scan)"
    by (rule analyze_table [OF assms(1)])
  obtain k occ where k: "actionKeyForEntry e sid = Inr k" "map_of occs k = Some occ"
    "oIntent occ = Some e" "oRef occ = refFromEntry e sid"
    by (rule intent_occurrence [OF t e])
  have "refFromEntry e sid \<in> set (rpPending plan) \<longleftrightarrow> isPending occ"
    unfolding p by (rule pending_iff [OF t k(2)]) (simp_all add: closedRef_def k keyForRef_refFromEntry)
  also have "\<dots> \<longleftrightarrow> oResolution occ = None"
    by (simp add: isPending_def k(3))
  finally show ?thesis using resolved_iff [OF t k(2,3)] by blast
qed

lemma analyze_resolutions:
  assumes "analyzeDurableActionJournal rows sid = Inr plan" and v: "v \<in> set (rpResolutions plan)"
  shows "\<exists>i \<in> set rows. \<exists>r \<in> set rows. \<exists>c \<in> set rows.
    eActionState i = ActionStateIntent \<and> isReceiptRow r \<and> isResolutionRow c
    \<and> vrAction v = refFromEntry i sid \<and> refFromEntry r sid = vrAction v \<and> refFromEntry c sid = vrAction v
    \<and> eExecutionResolution c = Some (vrResolution v) \<and> vrCheckpointEntryID v = eID c
    \<and> vrCheckpointSeq v = eSeq c \<and> eSeq r < eSeq c
    \<and> durableEntryIsAncestor (tableOf rows) (eID i) (eID r)
    \<and> durableEntryIsAncestor (tableOf rows) (eID r) (eID c)
    \<and> evidenceFor rows sid i r c (vrResolution v)"
proof -
  obtain occs execs recons scan res where t: "journalTable rows sid execs recons occs"
    and scan: "foldR (scanEntry sid) initialScan rows = Inr scan"
    and res: "set res = resolutionsOf occs" and p: "plan = planOf sid occs res (jsNextIndex scan)"
    by (rule analyze_table [OF assms(1)])
  have "v \<in> resolutionsOf occs" using v p res by (simp add: planOf_def)
  then obtain k occ where k: "map_of occs k = Some occ" "oResolution occ = Some v"
    by (auto simp: resolutionsOf_def)
  have ok: "occurrenceOK rows execs recons sid (k, occ)"
    by (rule tableOK_lookup [OF journalTable_D(1) [OF t] k(1)])
  then obtain c r i where c: "journalRow rows sid k c" "eCheckpointKind c = CheckpointExecutionResolution"
    "eExecutionResolution c = Some (vrResolution v)" "vrCheckpointEntryID v = eID c"
    "vrCheckpointSeq v = eSeq c" "vrAction v = oRef occ" "oRef occ = refFromEntry c sid"
    "oIntent occ = Some i" "oReceipt occ = Some r" "eSeq r < eSeq c"
    "durableEntryIsAncestor (tableOf rows) (eID r) (eID c)"
    "validateExecutionResolutionEvidence (vrResolution v) (eSeq c) occ execs recons sid = Inr ()"
    using k(2) unfolding occurrenceOK_def resolutionOK_def fst_conv snd_conv by blast
  have i: "i \<in> set rows" "eActionState i = ActionStateIntent" "oRef occ = refFromEntry i sid"
    using ok c(8) by (simp_all add: occurrenceOK_def intentOK_def journalRow_def)
  have r: "r \<in> set rows" "isReceiptRow r" "oRef occ = refFromEntry r sid"
    "durableEntryIsAncestor (tableOf rows) (eID i) (eID r)"
    using ok c(8,9) by (simp_all add: occurrenceOK_def receiptOK_def journalRow_def isReceiptRow_def)
  have "evidenceFor rows sid i r c (vrResolution v)"
    using evidenceFor_valid [OF t c(12,8,9) i(3)] by blast
  then show ?thesis
    by (intro bexI [of _ i] bexI [of _ r] bexI [of _ c])
      (use c i r in \<open>auto simp: journalRow_def isResolutionRow_def\<close>)
qed

lemma analyze_receipts:
  assumes "analyzeDurableActionJournal rows sid = Inr plan" and r: "r \<in> set rows" "isReceiptRow r"
  shows "if eActionID r = [] then eDispatchState r = DispatchStateNotDispatched
      \<and> \<not> (\<exists>i \<in> set rows. eRecordVersion i = 1 \<and> eActionState i = ActionStateIntent
            \<and> actionKeyForEntry i sid = actionKeyForEntry r sid)
    else (\<exists>i \<in> set rows. eRecordVersion i = 1 \<and> eActionState i = ActionStateIntent
            \<and> refFromEntry i sid = refFromEntry r sid \<and> eToolName i = eToolName r
            \<and> durableEntryIsAncestor (tableOf rows) (eID i) (eID r))"
proof -
  obtain occs execs recons scan res where t: "journalTable rows sid execs recons occs"
    and scan: "foldR (scanEntry sid) initialScan rows = Inr scan"
    and res: "set res = resolutionsOf occs" and p: "plan = planOf sid occs res (jsNextIndex scan)"
    by (rule analyze_table [OF assms(1)])
  from journalTable_D(4) [OF t r] obtain k occ where k: "map_of occs k = Some occ" "oReceipt occ = Some r"
    by (auto simp: receiptOf_def)
  have ok: "occurrenceOK rows execs recons sid (k, occ)"
    by (rule tableOK_lookup [OF journalTable_D(1) [OF t] k(1)])
  have rk: "actionKeyForEntry r sid = Inr k" using ok k(2) by (simp add: occurrenceOK_def receiptOK_def journalRow_def)
  show ?thesis
  proof (cases "oIntent occ")
    case None
    have "k' = k" if "actionKeyForEntry i sid = Inr k'" "actionKeyForEntry i sid = actionKeyForEntry r sid" for i k'
      using that rk by simp
    moreover have "eActionID r = []" "eDispatchState r = DispatchStateNotDispatched"
      using ok k(2) None by (simp_all add: occurrenceOK_def receiptOK_def)
    ultimately show ?thesis
      using intent_occurrence [OF t] k(1) None by (metis option.inject option.distinct(1))
  next
    case (Some i)
    have "eActionID r \<noteq> []" "oRef occ = refFromEntry r sid" "eToolName r = oToolName occ"
      "durableEntryIsAncestor (tableOf rows) (eID i) (eID r)"
      using ok k(2) Some by (simp_all add: occurrenceOK_def receiptOK_def)
    moreover have "i \<in> set rows" "eRecordVersion i = 1" "eActionState i = ActionStateIntent"
      "oRef occ = refFromEntry i sid" "eToolName i = oToolName occ"
      using ok Some by (simp_all add: occurrenceOK_def intentOK_def journalRow_def)
    ultimately show ?thesis by auto
  qed
qed

lemma analyze_nextIndex:
  assumes "analyzeDurableActionJournal rows sid = Inr plan"
  shows "nextIndexOK rows (rpNextTranscriptIndex plan)"
proof -
  obtain occs execs recons scan res where t: "journalTable rows sid execs recons occs"
    and scan: "foldR (scanEntry sid) initialScan rows = Inr scan"
    and res: "set res = resolutionsOf occs" and p: "plan = planOf sid occs res (jsNextIndex scan)"
    by (rule analyze_table [OF assms])
  show ?thesis using nextIndexOK_scan [OF scan] by (simp add: p planOf_def)
qed

end
