(* ===== verification/JournalProperties.thy ===== *)
theory JournalProperties
  imports JournalFacts Samples
begin

text \<open>
  What the validators of the session journal guarantee: the pending actions and the recorded
  resolutions that the action-journal analysis reports are exactly those of the rows, and the
  loops over parent chains and branches decide the relations they are meant to decide.
\<close>

lemma sampleOpen:
  obtains plan where "analyzeDurableActionJournal openRows ''s'' = Inr plan"
proof -
  have "map_sum id rpPending (analyzeDurableActionJournal openRows ''s'') = Inr [sampleRef]" by code_simp
  with that show ?thesis by (cases "analyzeDurableActionJournal openRows ''s''") auto
qed

lemma sampleClosed:
  obtains plan where "analyzeDurableActionJournal closedRows ''s'' = Inr plan" "rpResolutions plan = [sampleValidated]"
proof -
  have "map_sum id rpResolutions (analyzeDurableActionJournal closedRows ''s'') = Inr [sampleValidated]" by code_simp
  with that show ?thesis by (cases "analyzeDurableActionJournal closedRows ''s''") auto
qed

section \<open>The action journal\<close>

text \<open>
  C19. A reserved action is reported pending exactly when no execution-resolution checkpoint
  with the same full reference is in the journal: a receipt alone, even of a success, never
  closes it, and a resolution of another occurrence never does.
\<close>

theorem pending_iff_unresolved:
  assumes "analyzeDurableActionJournal rows sid = Inr plan"
    and "e \<in> set rows" "eRecordVersion e = 1" "eActionState e = ActionStateIntent"
  shows "refFromEntry e sid \<in> set (rpPending plan) \<longleftrightarrow>
    \<not> (\<exists>c \<in> set rows. isResolutionRow c \<and> refFromEntry c sid = refFromEntry e sid)"
  by (rule analyze_pending [OF assms])

theorem pending_iff_unresolved_witness:
  "\<exists>plan. analyzeDurableActionJournal openRows ''s'' = Inr plan \<and> sampleRef \<in> set (rpPending plan)"
proof -
  obtain plan where p: "analyzeDurableActionJournal openRows ''s'' = Inr plan" by (rule sampleOpen)
  have i: "sampleIntent \<in> set openRows" "eRecordVersion sampleIntent = 1"
    "eActionState sampleIntent = ActionStateIntent"
    by (simp_all add: openRows_def sampleIntent_def sampleAction_def)
  have "\<not> (\<exists>c \<in> set openRows. isResolutionRow c \<and> refFromEntry c ''s'' = refFromEntry sampleIntent ''s'')"
    by (simp add: openRows_def isResolutionRow_def sampleUser_def sampleAssistant_def sampleIntent_def
        sampleExecution_def sampleReceipt_def sampleAction_def emptyEntry_def)
  with pending_iff_unresolved [OF p i] have "refFromEntry sampleIntent ''s'' \<in> set (rpPending plan)" by blast
  moreover have "refFromEntry sampleIntent ''s'' = sampleRef"
    by (simp add: refFromEntry_def sampleIntent_def sampleAction_def sampleRef_def emptyEntry_def)
  ultimately show ?thesis using p by auto
qed

text \<open>
  C20. Every resolution the analysis hands to the recovery authority rests on durable evidence:
  an intent, a receipt after it and a checkpoint after that on one parent chain, all with the
  same reference, and by kind of evidence a receipt that says not dispatched, an execution row
  with a positive completion proof, or an operator reconciliation row with a valid acceptance.
\<close>

theorem resolutions_have_evidence:
  assumes "analyzeDurableActionJournal rows sid = Inr plan" and "v \<in> set (rpResolutions plan)"
  shows "\<exists>i \<in> set rows. \<exists>r \<in> set rows. \<exists>c \<in> set rows.
    eActionState i = ActionStateIntent \<and> isReceiptRow r \<and> isResolutionRow c
    \<and> vrAction v = refFromEntry i sid \<and> refFromEntry r sid = vrAction v \<and> refFromEntry c sid = vrAction v
    \<and> eExecutionResolution c = Some (vrResolution v) \<and> vrCheckpointEntryID v = eID c
    \<and> vrCheckpointSeq v = eSeq c \<and> eSeq r < eSeq c
    \<and> durableEntryIsAncestor (tableOf rows) (eID i) (eID r)
    \<and> durableEntryIsAncestor (tableOf rows) (eID r) (eID c)
    \<and> evidenceFor rows sid i r c (vrResolution v)"
  by (rule analyze_resolutions [OF assms])

theorem resolutions_have_evidence_witness:
  "\<exists>c \<in> set closedRows. isResolutionRow c \<and> eExecutionResolution c = Some sampleResolution"
proof -
  obtain plan where p: "analyzeDurableActionJournal closedRows ''s'' = Inr plan" "rpResolutions plan = [sampleValidated]"
    by (rule sampleClosed)
  from resolutions_have_evidence [OF p(1), of sampleValidated] p(2) show ?thesis
    by (auto simp: sampleValidated_def)
qed

text \<open>
  A receipt is accepted only with the reservation it claims: with an action ID there is an
  intent with the same full reference before it on its parent chain; without one the receipt
  says not dispatched and its occurrence has no intent at all.
\<close>

theorem receipts_match_reservations:
  assumes "analyzeDurableActionJournal rows sid = Inr plan" and "r \<in> set rows" "isReceiptRow r"
  shows "if eActionID r = [] then eDispatchState r = DispatchStateNotDispatched
      \<and> \<not> (\<exists>i \<in> set rows. eRecordVersion i = 1 \<and> eActionState i = ActionStateIntent
            \<and> actionKeyForEntry i sid = actionKeyForEntry r sid)
    else (\<exists>i \<in> set rows. eRecordVersion i = 1 \<and> eActionState i = ActionStateIntent
            \<and> refFromEntry i sid = refFromEntry r sid \<and> eToolName i = eToolName r
            \<and> durableEntryIsAncestor (tableOf rows) (eID i) (eID r))"
  by (rule analyze_receipts [OF assms])

theorem receipts_match_reservations_witness:
  "\<exists>i \<in> set openRows. eActionState i = ActionStateIntent \<and> refFromEntry i ''s'' = refFromEntry sampleReceipt ''s''"
proof -
  obtain plan where p: "analyzeDurableActionJournal openRows ''s'' = Inr plan" by (rule sampleOpen)
  have "sampleReceipt \<in> set openRows" "isReceiptRow sampleReceipt" "eActionID sampleReceipt \<noteq> []"
    by (simp_all add: openRows_def isReceiptRow_def sampleReceipt_def sampleAction_def emptyEntry_def)
  with receipts_match_reservations [OF p, of sampleReceipt] show ?thesis by auto
qed

text \<open>
  The transcript index the analysis proposes for a run is fresh and tight: larger than
  every index the run has used, and one more than the largest of them unless it used none.
\<close>

theorem next_transcript_index_fresh:
  assumes "analyzeDurableActionJournal rows sid = Inr plan"
  shows "(\<forall>e \<in> set rows. \<forall>run i. transcriptCoordinate e = Some (run, i) \<longrightarrow>
        i < nextIndexOf (rpNextTranscriptIndex plan) run)
    \<and> (\<forall>run. nextIndexOf (rpNextTranscriptIndex plan) run = 0
        \<or> (\<exists>e \<in> set rows. transcriptCoordinate e = Some (run, nextIndexOf (rpNextTranscriptIndex plan) run - 1)))"
proof -
  have ok: "nextIndexOK rows (rpNextTranscriptIndex plan)" by (rule analyze_nextIndex [OF assms])
  have "nextIndexOf (rpNextTranscriptIndex plan) run = 0
      \<or> (\<exists>e \<in> set rows. transcriptCoordinate e = Some (run, nextIndexOf (rpNextTranscriptIndex plan) run - 1))" for run
    using ok unfolding nextIndexOK_def by fastforce
  with ok show ?thesis unfolding nextIndexOK_def by blast
qed

theorem next_transcript_index_fresh_witness:
  "\<exists>plan. analyzeDurableActionJournal openRows ''s'' = Inr plan \<and> 2 < nextIndexOf (rpNextTranscriptIndex plan) ''r''"
proof -
  obtain plan where p: "analyzeDurableActionJournal openRows ''s'' = Inr plan" by (rule sampleOpen)
  have "sampleReceipt \<in> set openRows" "transcriptCoordinate sampleReceipt = Some (''r'', 2)"
    by (simp_all add: openRows_def transcriptCoordinate_def sampleReceipt_def sampleAction_def emptyEntry_def)
  with next_transcript_index_fresh [OF p] p show ?thesis by blast
qed

section \<open>Parent chains and branches\<close>

text \<open>
  C28. The ancestor test, a loop with a set of seen IDs, always returns, and answers whether the
  first ID is reached from the second by one or more parent steps, for every table of rows,
  cyclic ones included.
\<close>

theorem ancestor_iff_reachable:
  "durableEntryIsAncestor tab anc desc \<longleftrightarrow>
     anc \<noteq> [] \<and> desc \<noteq> [] \<and> anc \<noteq> desc
     \<and> (\<exists>n. chainNode (entryParent tab) (Suc n) desc = Some anc)"
  by (rule durableEntryIsAncestor_iff)

text \<open>
  Ordering the active branch succeeds exactly when the parent chain of the leaf ends at a
  root, and then returns that chain from root to leaf; a cycle or a missing parent is an error.
\<close>

theorem ordered_branch_iff_root_path:
  "orderedDurableBranch leaf tab = Inr rows \<longleftrightarrow> rootPath tab leaf rows"
  by (rule orderedDurableBranch_iff)

text \<open>
  In an accepted branch journal every version 1 row is on a branch that was introduced
  before or by it, every introduced branch descends from \<open>main\<close>, and every parent a row names
  precedes it.
\<close>

theorem accepted_branches_rooted:
  assumes "branchJournal rows = Inr j"
  shows "(\<forall>e \<in> set rows. eRecordVersion e = 1 \<longrightarrow> descends (bjBranches j) (branchOf e) ''main'')
    \<and> (\<forall>us e vs. rows = us @ e # vs \<longrightarrow> eRecordVersion e = 1 \<longrightarrow> eParentID e \<noteq> [] \<longrightarrow>
         eParentID e \<in> eID ` set us)"
proof -
  have I: "branchJournalInv rows j" by (rule branchJournal_inv [OF assms])
  then have 1: "descends (bjBranches j) (branchOf e) ''main''" if "e \<in> set rows" "eRecordVersion e = 1" for e
    using that unfolding branchJournalInv_def rooted_def by fastforce
  have 2: "eParentID e \<in> eID ` set us"
    if d: "rows = us @ e # vs" and v: "eRecordVersion e = 1" "eParentID e \<noteq> []" for us e vs
    by (rule branchJournal_parents [OF assms d v])
  show ?thesis using 1 2 by blast
qed

theorem accepted_branches_rooted_witness: "sampleReceipt \<in> set openRows \<and> ''e'' \<in> eID ` set openRows"
proof -
  have "map_sum id (\<lambda>_. ()) (branchJournal openRows) = Inr ()" by code_simp
  then obtain j where j: "branchJournal openRows = Inr j" by (cases "branchJournal openRows") auto
  have d: "openRows = [sampleUser, sampleAssistant, sampleIntent, sampleExecution] @ sampleReceipt # []"
    by (simp add: openRows_def)
  have v: "eRecordVersion sampleReceipt = 1" "eParentID sampleReceipt \<noteq> []" "eParentID sampleReceipt = ''e''"
    by (simp_all add: sampleReceipt_def sampleAction_def)
  from accepted_branches_rooted [OF j] d v(1,2)
  have "eParentID sampleReceipt \<in> eID ` set [sampleUser, sampleAssistant, sampleIntent, sampleExecution]" by blast
  with v(3) show ?thesis by (auto simp: openRows_def)
qed

text \<open>
  Transcript coordinates are accepted exactly when no run uses a transcript index twice
  and no run uses an assistant ordinal twice.
\<close>

theorem transcript_coordinates_distinct:
  "validateDurableTranscriptCoordinates rows = Inr () \<longleftrightarrow>
     distinct (List.map_filter transcriptCoordinate rows)
     \<and> distinct (List.map_filter assistantCoordinate rows)"
  by (rule validateDurableTranscriptCoordinates_iff)

section \<open>Rows\<close>

text \<open>
  C30. A row built from a user, assistant or tool message matches exactly the messages that
  agree with it on the role and on every persisted field; runtime coordinates do not count.
\<close>

theorem row_message_match:
  assumes "t \<in> {EntryTypeUser, EntryTypeAssistant, EntryTypeTool}"
  shows "durableRowMatchesMessage ((sessionEntryFromRunCommitMessage m t) \<lparr> eRecordVersion := 1 \<rparr>) m'
    \<longleftrightarrow> m' \<lparr> mRuntime := [] \<rparr> = m \<lparr> mRuntime := [], mRole := the (rowRole t) \<rparr>"
proof -
  let ?e = "(sessionEntryFromRunCommitMessage m t) \<lparr> eRecordVersion := 1 \<rparr>"
  have "durableRowMatchesMessage ?e m' \<longleftrightarrow> mRole m' = the (rowRole (eType ?e)) \<and> mContent m' = eContent ?e
     \<and> mContentBlocks m' = eContentBlocks ?e \<and> mUsage m' = eUsage ?e
     \<and> mToolCalls m' = eToolCalls ?e \<and> mToolCallID m' = eToolCallID ?e \<and> mToolName m' = eToolName ?e
     \<and> mMaterializedArtifactDigest m' = eMaterializedArtifactDigest ?e
     \<and> mInputKind m' = eInputKind ?e \<and> mReceiptOutcome m' = eReceiptOutcome ?e"
    by (rule durableRowMatchesMessage_iff)
      (use assms in \<open>simp_all add: sessionEntryFromRunCommitMessage_def emptyEntry_def\<close>)
  then show ?thesis
    by (cases m; cases m') (auto simp: sessionEntryFromRunCommitMessage_def)
qed

theorem row_message_match_witness:
  "durableRowMatchesMessage ((sessionEntryFromRunCommitMessage (emptyMessage \<lparr> mRole := ''user'', mContent := ''hi'' \<rparr>)
      EntryTypeUser) \<lparr> eRecordVersion := 1 \<rparr>) (emptyMessage \<lparr> mRole := ''user'', mContent := ''hi'', mRuntime := ''x'' \<rparr>)"
  using row_message_match [of EntryTypeUser "emptyMessage \<lparr> mRole := ''user'', mContent := ''hi'' \<rparr>"
      "emptyMessage \<lparr> mRole := ''user'', mContent := ''hi'', mRuntime := ''x'' \<rparr>"]
  by (simp add: rowRole_def emptyMessage_def)

end
