(* ===== verification/SessionView.thy ===== *)
theory SessionView
  imports ActionJournal Effects
begin

text \<open>
  The projection of one branch of a durable session into the model-visible history:
  \<open>internal/session/derive.go\<close>, \<open>SessionView\<close> and its validation in \<open>durable_contract.go\<close>,
  the checkpoint rule of \<open>tree.go\<close> and \<open>durableSessionView\<close> of \<open>durable_jsonl.go\<close>.
\<close>

section \<open>Views\<close>

datatype process_group_exit_status =
    ProcessGroupExitUnknown | ProcessGroupExitPresent | ProcessGroupExitAbsent
  | ProcessGroupExitOther string

record execution_diagnostic =
  dgAction :: pending_ref
  dgIntentEntryID :: string
  dgOwnerGeneration :: string
  dgExecutionEntryID :: string
  dgStatus :: process_group_exit_status
  dgReason :: string
  dgObservedAt :: int

record session_view =
  svSessionID :: string
  svBranchID :: string
  svRevision :: string
  svMessages :: "agent_message list"
  svSourceEntryIDs :: "string list"
  svDiagnostics :: "execution_diagnostic list"

definition emptyView :: session_view where
  "emptyView = \<lparr> svSessionID = [], svBranchID = [], svRevision = [], svMessages = [],
     svSourceEntryIDs = [], svDiagnostics = [] \<rparr>"

definition noteSourceID :: "string list \<Rightarrow> string \<Rightarrow> go_error + string list" where
  "noteSourceID seen x =
     (if x = [] then Inl (Fault ''view source entry ID is empty'')
      else if x \<in> set seen then Inl (Fault ''view source entry ID is repeated'')
      else Inr (x # seen))"

definition validateSessionView :: "session_view \<Rightarrow> go_error + unit" where
  "validateSessionView v =
     (if svSessionID v = [] then Inl (Fault ''view requires a physical session ID'')
      else if svBranchID v = [] then Inl (Fault ''view requires an active branch ID'')
      else if length (svMessages v) \<noteq> length (svSourceEntryIDs v)
        then Inl (Fault ''view messages and source entry IDs differ in number'')
      else if svMessages v \<noteq> [] \<and> svRevision v = []
        then Inl (Fault ''non-empty view requires a durable revision'')
      else bindR (foldR noteSourceID [] (svSourceEntryIDs v)) (\<lambda>_. Inr ()))"

section \<open>The journal tail\<close>

text \<open>
  The open calls and the calls of the current group map an occurrence to its tool name.
\<close>

type_synonym open_calls = "(occurrence_key \<times> string) list"

record tail_scan =
  tsOpen :: open_calls
  tsGroup :: open_calls
  tsReceipted :: "occurrence_key list"

definition emptyTail :: tail_scan where
  "emptyTail = \<lparr> tsOpen = [], tsGroup = [], tsReceipted = [] \<rparr>"

definition tailKey :: "string \<Rightarrow> session_entry \<Rightarrow> occurrence_key" where
  "tailKey sessionID e =
     (sessionID, eRunID e, (case eOrdinal e of None \<Rightarrow> 0 | Some n \<Rightarrow> n), eToolCallID e)"

definition callNames :: "string \<Rightarrow> session_entry \<Rightarrow> open_calls" where
  "callNames sessionID e =
     rev (map (\<lambda>c. ((sessionID, eRunID e, the (eOrdinal e), tcID c), tcName c)) (eToolCalls e))"

definition deleteCall :: "'k \<Rightarrow> ('k \<times> 'v) list \<Rightarrow> ('k \<times> 'v) list" where
  "deleteCall k calls = filter (\<lambda>kv. fst kv \<noteq> k) calls"

text \<open>A row with no group open: an assistant row with calls opens one.\<close>

definition tailIdle :: "string \<Rightarrow> tail_scan \<Rightarrow> session_entry \<Rightarrow> tail_scan" where
  "tailIdle sessionID s e =
     (if eRecordVersion e = 1 \<and> eType e = EntryTypeAssistant \<and> eToolCalls e \<noteq> []
      then \<lparr> tsOpen = callNames sessionID e, tsGroup = callNames sessionID e, tsReceipted = [] \<rparr>
      else s)"

text \<open>A row while calls are open: only the rows of this group may follow.\<close>

definition tailBusy :: "string \<Rightarrow> tail_scan \<Rightarrow> session_entry \<Rightarrow> go_error + tail_scan" where
  "tailBusy sessionID s e =
     (let key = tailKey sessionID e; name = map_of (tsGroup s) key; openName = map_of (tsOpen s) key in
      if eRecordVersion e = 1 \<and> eType e = EntryTypeTool \<and> eActionState e = ActionStateIntent then
        (if name = None \<or> openName = None \<or> name \<noteq> openName \<or> eOrdinal e = None \<or> name \<noteq> Some (eToolName e)
           then Inl (Fault ''action row does not belong to the open assistant tool-call group'')
         else Inr s)
      else if eRecordVersion e = 1 \<and> eType e = EntryTypeTool \<and> eActionState e = ActionStateExecution then
        (if name = None \<or> eOrdinal e = None \<or> name \<noteq> Some (eToolName e)
           then Inl (Fault ''execution row does not belong to the current assistant tool-call group'')
         else Inr s)
      else if eRecordVersion e = 1 \<and> eType e = EntryTypeTool \<and> eActionState e = ActionStateEmpty then
        (if name = None \<or> openName = None \<or> eOrdinal e = None \<or> name \<noteq> Some (eToolName e)
           then Inl (Fault ''receipt does not belong to the open assistant tool-call group'')
         else Inr (s \<lparr> tsOpen := deleteCall key (tsOpen s), tsReceipted := key # tsReceipted s \<rparr>))
      else if eRecordVersion e = 1 \<and> eType e = EntryTypeCheckpoint
              \<and> eCheckpointKind e = CheckpointExecutionResolution then
        (if name = None \<or> eOrdinal e = None
           then Inl (Fault ''execution resolution does not belong to the current assistant tool-call group'')
         else if key \<notin> set (tsReceipted s)
           then Inl (Fault ''execution resolution precedes its current-group receipt'')
         else Inr s)
      else Inl (Fault ''entry interleaves an open assistant tool-call group''))"

definition tailRow :: "string \<Rightarrow> tail_scan \<Rightarrow> session_entry \<Rightarrow> go_error + tail_scan" where
  "tailRow sessionID s e =
     bindR (if eRecordVersion e = 1 then validateVersion1EntryCoordinates e else Inr ()) (\<lambda>_.
       if tsOpen s = [] then Inr (tailIdle sessionID s e) else tailBusy sessionID s e)"

definition validateToolCallJournalTail :: "string \<Rightarrow> session_entry list \<Rightarrow> go_error + unit" where
  "validateToolCallJournalTail sessionID entries =
     bindR (analyzeDurableActionJournal entries sessionID) (\<lambda>_.
     bindR (foldR (tailRow sessionID) emptyTail entries) (\<lambda>s.
       if tsOpen s \<noteq> [] then Inl ErrUnclosedToolCallGroup else Inr ()))"

section \<open>Projection\<close>

definition validateTreeCheckpointCoordinates :: "session_entry \<Rightarrow> go_error + unit" where
  "validateTreeCheckpointCoordinates e =
     (if eRecordVersion e \<noteq> 1 \<or> eType e \<noteq> EntryTypeCheckpoint then Inr ()
      else if eCheckpointKind e = CheckpointActiveLeaf then
        (if eActiveLeafEntryID e = [] then Inl (Fault ''active-leaf checkpoint has no active leaf pointer'')
         else Inr ())
      else if eCheckpointKind e = CheckpointBranch then
        (if eBranchID e = [] \<or> eBaseLeafEntryID e = [] \<or> eParentID e \<noteq> eBaseLeafEntryID e
            \<or> eActiveLeafEntryID e \<noteq> eID e
           then Inl (Fault ''branch checkpoint has incomplete branch or leaf coordinates'')
         else Inr ())
      else Inr ())"

definition compactionSummaryEntry :: "session_entry \<Rightarrow> session_entry" where
  "compactionSummaryEntry marker =
     (let content = (if eSummary marker = [] then eContent marker else eSummary marker) in
      marker \<lparr> eType := EntryTypeCompaction, eContent := content, eSummary := content \<rparr>)"

definition visibleRow :: "session_entry \<Rightarrow> bool" where
  "visibleRow e \<longleftrightarrow> eType e \<noteq> EntryTypeCheckpoint \<and> eType e \<noteq> EntryTypeCompaction \<and> SurfaceVisible e"

definition visibleEntries :: "session_entry list \<Rightarrow> session_entry list" where
  "visibleEntries entries = filter visibleRow entries"

text \<open>The index of the last compaction row, or 0 when there is none.\<close>

definition lastCompactionIndex :: "session_entry list \<Rightarrow> nat option" where
  "lastCompactionIndex entries =
     foldl (\<lambda>m p. if eType (snd p) = EntryTypeCompaction then Some (fst p) else m) None
       (enumerate 0 entries)"

definition findLastCompactionPoint :: "session_entry list \<Rightarrow> nat" where
  "findLastCompactionPoint entries = (case lastCompactionIndex entries of None \<Rightarrow> 0 | Some i \<Rightarrow> i)"

definition legacyProjection :: "session_entry list \<Rightarrow> session_entry list" where
  "legacyProjection entries =
     (let start = findLastCompactionPoint entries in
      concat (map (\<lambda>(i, e).
          if eType e = EntryTypeCompaction then [compactionSummaryEntry e]
          else if i = 0 \<and> start > 0 then []
          else if eType e = EntryTypeCheckpoint \<or> \<not> SurfaceVisible e then []
          else [e])
        (enumerate 0 (drop start entries))))"

text \<open>
  The walk over a branch with version 1 rows: the IDs seen with their positions, the last
  sequence and the previous row's ID.
\<close>

record path_scan =
  psIndex :: "(string \<times> nat) list"
  psLast :: u64
  psPrevious :: string

definition pathRow :: "path_scan \<Rightarrow> session_entry \<Rightarrow> go_error + path_scan" where
  "pathRow s e =
     (if eID e = [] then Inl (Fault ''version 1 branch has an entry with no ID'')
      else if map_of (psIndex s) (eID e) \<noteq> None then Inl (Fault ''version 1 branch repeats entry ID'')
      else let index = (eID e, length (psIndex s)) # psIndex s in
        if psIndex s \<noteq> [] \<and> eParentID e \<noteq> psPrevious s
          then Inl (Fault ''branch entry does not follow its parent'')
        else if eSeq e = 0 \<and> eRecordVersion e = 1 then Inl (Fault ''version 1 entry has no sequence'')
        else if eSeq e \<noteq> 0 \<and> psLast s \<noteq> 0 \<and> eSeq e \<le> psLast s
          then Inl (Fault ''branch sequence does not increase'')
        else if eRecordVersion e = 1 \<and> eType e = EntryTypeCheckpoint \<and> eActiveLeafEntryID e \<noteq> []
                \<and> eActiveLeafEntryID e \<noteq> eID e
                \<and> (case map_of index (eActiveLeafEntryID e) of
                     None \<Rightarrow> True | Some j \<Rightarrow> length (psIndex s) \<le> j)
          then Inl (Fault ''checkpoint entry has an unmappable active leaf'')
        else Inr \<lparr> psIndex = index, psLast = (if eSeq e \<noteq> 0 then eSeq e else psLast s),
               psPrevious = eID e \<rparr>)"

text \<open>The source boundaries of the compaction rows must be earlier rows and never go back.\<close>

definition boundaryRow ::
  "(string \<times> nat) list \<Rightarrow> nat option \<times> nat option \<Rightarrow> nat \<times> session_entry
     \<Rightarrow> go_error + nat option \<times> nat option" where
  "boundaryRow index s p =
     (case p of (i, e) \<Rightarrow>
       if eType e \<noteq> EntryTypeCompaction then Inr s
       else if eRecordVersion e \<noteq> 1 then Inr (Some i, snd s)
       else (case map_of index (eCompactedThroughEntryID e) of
           None \<Rightarrow> Inl (Fault ''compaction entry has an unmappable source boundary'')
         | Some b \<Rightarrow>
             if i \<le> b then Inl (Fault ''compaction entry has an unmappable source boundary'')
             else if (case snd s of None \<Rightarrow> False | Some l \<Rightarrow> l > b)
               then Inl (Fault ''compaction entry has a stale source boundary'')
             else Inr (Some i, Some b)))"

definition checkProjectedRow :: "session_entry \<Rightarrow> go_error + unit" where
  "checkProjectedRow e =
     (if eRecordVersion e > 1 then Inl (Fault ''unsupported record version'')
      else if eRecordVersion e = 1 then
        bindR (validateVersion1EntryCoordinates e) (\<lambda>_. validateTreeCheckpointCoordinates e)
      else Inr ())"

definition compactedProjection ::
  "(string \<times> nat) list \<Rightarrow> session_entry list \<Rightarrow> nat \<Rightarrow> go_error + session_entry list" where
  "compactedProjection index entries lastIdx =
     (let marker = entries ! lastIdx in
      if eRecordVersion marker \<noteq> 1 then
        (if list_ex (\<lambda>e. eRecordVersion e = 1 \<and> eType e = EntryTypeCompaction) (take lastIdx entries)
           then Inl (Fault ''legacy compaction entry follows a version 1 source projection'')
         else Inr (compactionSummaryEntry marker # visibleEntries (drop (Suc lastIdx) entries)))
      else (case map_of index (eCompactedThroughEntryID marker) of
          None \<Rightarrow> Inl (Fault ''compaction entry has an unmappable source boundary'')
        | Some b \<Rightarrow>
            if lastIdx \<le> b then Inl (Fault ''compaction entry has an unmappable source boundary'')
            else Inr (compactionSummaryEntry marker # visibleEntries (drop (Suc b) entries))))"

definition projectSessionEntries :: "session_entry list \<Rightarrow> go_error + session_entry list" where
  "projectSessionEntries entries =
     bindR (checkAll checkProjectedRow entries) (\<lambda>_.
       if \<not> list_ex (\<lambda>e. eRecordVersion e = 1) entries then Inr (legacyProjection entries)
       else bindR (foldR pathRow \<lparr> psIndex = [], psLast = 0, psPrevious = [] \<rparr> entries) (\<lambda>s.
         bindR (foldR (boundaryRow (psIndex s)) (None, None) (enumerate 0 entries)) (\<lambda>b.
           case fst b of
             None \<Rightarrow> Inr (visibleEntries entries)
           | Some lastIdx \<Rightarrow> compactedProjection (psIndex s) entries lastIdx)))"

definition DeriveMessages :: "session_entry list \<Rightarrow> session_entry list" where
  "DeriveMessages entries = (case projectSessionEntries entries of Inl _ \<Rightarrow> [] | Inr rows \<Rightarrow> rows)"

section \<open>Tool groups of the projection\<close>

type_synonym group_key = "string \<times> u64 \<times> string"

fun openGroup ::
  "string \<Rightarrow> u64 \<Rightarrow> (group_key \<times> string) list \<Rightarrow> tool_call list \<Rightarrow> go_error + (group_key \<times> string) list" where
  "openGroup run ordinal calls [] = Inr calls"
| "openGroup run ordinal calls (c # cs) =
     (if map_of calls (run, ordinal, tcID c) \<noteq> None
        then Inl (Fault ''assistant entry repeats tool call occurrence'')
      else openGroup run ordinal (((run, ordinal, tcID c), tcName c) # calls) cs)"

definition groupOrdinal :: "string \<Rightarrow> session_entry \<Rightarrow> go_error + u64" where
  "groupOrdinal msg e = (case eOrdinal e of
      Some n \<Rightarrow> Inr n
    | None \<Rightarrow> if eRecordVersion e = 1 then Inl (Fault msg) else Inr 0)"

definition groupRow ::
  "(group_key \<times> string) list \<Rightarrow> session_entry \<Rightarrow> go_error + (group_key \<times> string) list" where
  "groupRow calls e =
     (if eType e = EntryTypeAssistant \<and> eToolCalls e \<noteq> [] then
        (if calls \<noteq> [] then Inl (Fault ''assistant entry precedes tool receipts'')
         else bindR (groupOrdinal ''version-one assistant is missing its occurrence'' e)
           (\<lambda>ordinal. openGroup (eRunID e) ordinal calls (eToolCalls e)))
      else if eType e = EntryTypeTool then
        (if eActionState e \<noteq> ActionStateEmpty then Inr calls
         else bindR (groupOrdinal ''tool receipt has no assistant occurrence ordinal'' e) (\<lambda>ordinal.
           case map_of calls (eRunID e, ordinal, eToolCallID e) of
             None \<Rightarrow> Inl (Fault ''tool receipt has no matching assistant tool call'')
           | Some name \<Rightarrow>
               if name \<noteq> eToolName e then Inl (Fault ''tool receipt names a different tool'')
               else Inr (deleteCall (eRunID e, ordinal, eToolCallID e) calls)))
      else if calls \<noteq> [] \<and> (eType e = EntryTypeUser \<or> eType e = EntryTypeAssistant)
        then Inl (Fault ''entry precedes tool receipts'')
      else Inr calls)"

definition validateProjectedToolGroups :: "session_entry list \<Rightarrow> go_error + unit" where
  "validateProjectedToolGroups entries =
     bindR (foldR groupRow [] entries) (\<lambda>calls.
       if calls \<noteq> [] then Inl ErrUnclosedToolCallGroup else Inr ())"

section \<open>Views of a branch\<close>

definition viewMessages :: "session_entry list \<Rightarrow> (agent_message \<times> string) list" where
  "viewMessages entries = List.map_filter (\<lambda>e.
     map_option (\<lambda>m. (m, eID e)) (sessionEntryToAgentMessage e)) entries"

definition SessionViewFromEntries ::
  "string \<Rightarrow> string \<Rightarrow> string \<Rightarrow> session_entry list \<Rightarrow> go_error + session_view" where
  "SessionViewFromEntries sessionID branchID revision branchEntries =
     (if sessionID = [] \<or> branchID = []
        then Inl (Fault ''view requires physical session and branch IDs'')
      else if list_ex (\<lambda>e. eRecordVersion e = 1 \<and> eSessionID e \<noteq> sessionID) branchEntries
        then Inl (Fault ''entry belongs to another physical session'')
      else bindR (validateToolCallJournalTail sessionID branchEntries) (\<lambda>_.
        bindR (projectSessionEntries branchEntries) (\<lambda>entries.
        case validateProjectedToolGroups entries of
          Inl err \<Rightarrow> if err = ErrUnclosedToolCallGroup
             then Inl (Fault ''projected history is inconsistent'') else Inl err
        | Inr _ \<Rightarrow>
            let v = emptyView \<lparr> svSessionID := sessionID, svBranchID := branchID, svRevision := revision,
                  svMessages := map fst (viewMessages entries),
                  svSourceEntryIDs := map snd (viewMessages entries) \<rparr>
            in bindR (validateSessionView v) (\<lambda>_. Inr v))))"

text \<open>
  The hash, the JSON encoder and the
  JSON decoder are outside the program; the decoder tells a value that ends too early from
  every other error.
\<close>

datatype decode_error = TruncatedJSON | OtherDecode go_error

record session_host =
  shSha256 :: "string \<Rightarrow> string"
  shMarshalEntry :: "session_entry \<Rightarrow> string option"
  shUnmarshalEntry :: "string \<Rightarrow> decode_error + session_entry"
  shMarshalRef :: "pending_ref \<Rightarrow> string option"

definition revisionText :: "session_entry list \<Rightarrow> string" where
  "revisionText entries = concat (map (\<lambda>e. eID e @ CHR 0x00 # decimal (unat (eSeq e))
     @ CHR 0x00 # ePayloadDigest e @ [CHR 0x0A]) entries)"

definition durableSessionView ::
  "'h session_host_scheme \<Rightarrow> string \<Rightarrow> string \<Rightarrow> u64 \<Rightarrow> session_entry list \<Rightarrow> go_error + session_view" where
  "durableSessionView h sessionID branchID maxSeq branchEntries =
     (let branch = (if branchID = [] then ''main'' else branchID) in
      if branchEntries = []
        then Inr (emptyView \<lparr> svSessionID := sessionID, svBranchID := branch \<rparr>)
      else SessionViewFromEntries sessionID branch
        (''sha256:'' @ hexEncode (shSha256 h (revisionText branchEntries)) @ CHR '':'' # decimal (unat maxSeq))
        branchEntries)"

end
