(* ===== verification/SessionViewFacts.thy ===== *)
theory SessionViewFacts
  imports SessionView
begin

text \<open>
  Facts about the projection: the walk over a branch proves its IDs distinct and linked, the
  compaction boundaries only move forward, tool groups are closed by their receipts, and the
  tail check reports an open group exactly when some call has no receipt.
\<close>

section \<open>The branch walk\<close>

definition pathInv :: "session_entry list \<Rightarrow> path_scan \<Rightarrow> bool" where
  "pathInv ys s \<longleftrightarrow>
     psIndex s = rev (zip (map eID ys) [0..<length ys]) \<and> distinct (map eID ys)
     \<and> (ys \<noteq> [] \<longrightarrow> psPrevious s = eID (last ys))
     \<and> (\<forall>i. Suc i < length ys \<longrightarrow> eParentID (ys ! Suc i) = eID (ys ! i))
     \<and> (\<forall>e \<in> set ys. eID e \<noteq> [] \<and> (eRecordVersion e = 1 \<longrightarrow> eSeq e \<noteq> 0))
     \<and> sorted_wrt (<) (map eSeq (filter (\<lambda>e. eSeq e \<noteq> 0) ys))
     \<and> (\<forall>e \<in> set ys. eSeq e \<noteq> 0 \<longrightarrow> eSeq e \<le> psLast s)"

lemma pathIndex_lookup:
  assumes "distinct (map eID ys)"
  shows "map_of (rev (zip (map eID ys) [0..<length ys])) x = Some i \<longleftrightarrow> i < length ys \<and> eID (ys ! i) = x"
proof -
  have d: "distinct (map fst (rev (zip (map eID ys) [0..<length ys])))"
    using assms by (simp add: rev_map [symmetric])
  have "map_of (rev (zip (map eID ys) [0..<length ys])) x = Some i
      \<longleftrightarrow> (x, i) \<in> set (zip (map eID ys) [0..<length ys])"
    using d by (metis map_of_eq_Some_iff set_rev)
  also have "\<dots> \<longleftrightarrow> i < length ys \<and> eID (ys ! i) = x"
    by (auto simp: set_zip intro: exI [of _ i])
  finally show ?thesis .
qed

lemma pathRow_inv:
  assumes I: "pathInv ys s" and step: "pathRow s e = Inr s'"
  shows "pathInv (ys @ [e]) s'"
proof -
  have ix: "psIndex s = rev (zip (map eID ys) [0..<length ys])" and d: "distinct (map eID ys)"
    and lk: "\<forall>i. Suc i < length ys \<longrightarrow> eParentID (ys ! Suc i) = eID (ys ! i)"
    and ids: "\<forall>e \<in> set ys. eID e \<noteq> [] \<and> (eRecordVersion e = 1 \<longrightarrow> eSeq e \<noteq> 0)"
    and srt: "sorted_wrt (<) (map eSeq (filter (\<lambda>e. eSeq e \<noteq> 0) ys))"
    and le: "\<forall>e \<in> set ys. eSeq e \<noteq> 0 \<longrightarrow> eSeq e \<le> psLast s"
    and prev: "ys \<noteq> [] \<longrightarrow> psPrevious s = eID (last ys)"
    using I unfolding pathInv_def by blast+
  have len: "length (psIndex s) = length ys" by (simp add: ix)
  from step have s': "eID e \<noteq> []" "map_of (psIndex s) (eID e) = None"
    "ys \<noteq> [] \<longrightarrow> eParentID e = psPrevious s" "eRecordVersion e = 1 \<longrightarrow> eSeq e \<noteq> 0"
    "eSeq e \<noteq> 0 \<longrightarrow> psLast s \<noteq> 0 \<longrightarrow> psLast s < eSeq e"
    "s' = \<lparr> psIndex = (eID e, length (psIndex s)) # psIndex s,
            psLast = (if eSeq e \<noteq> 0 then eSeq e else psLast s), psPrevious = eID e \<rparr>"
    using len by (auto simp: pathRow_def Let_def split: if_splits)
  have new: "eID e \<notin> set (map eID ys)"
  proof
    assume "eID e \<in> set (map eID ys)"
    then obtain i where "i < length ys" "eID (ys ! i) = eID e" by (auto simp: in_set_conv_nth)
    then have "map_of (psIndex s) (eID e) = Some i" unfolding ix pathIndex_lookup [OF d] by simp
    with s'(2) show False by simp
  qed
  have lt: "x < eSeq e" if "x \<in> set (map eSeq (filter (\<lambda>e. eSeq e \<noteq> 0) ys))" "eSeq e \<noteq> 0" for x
  proof -
    from that(1) obtain a where a: "a \<in> set ys" "eSeq a \<noteq> 0" "x = eSeq a" by auto
    with le have "x \<le> psLast s" "psLast s \<noteq> 0" by auto
    with s'(5) that(2) show ?thesis by auto
  qed
  have lk': "eParentID ((ys @ [e]) ! Suc i) = eID ((ys @ [e]) ! i)" if "Suc i < length (ys @ [e])" for i
  proof (cases "Suc i < length ys")
    case True
    with lk show ?thesis by (simp add: nth_append)
  next
    case False
    with that have "length ys = Suc i" by simp
    moreover from this have "ys \<noteq> []" by auto
    moreover from calculation have "ys ! i = last ys" by (simp add: last_conv_nth)
    ultimately show ?thesis using s'(3) prev by (simp add: nth_append)
  qed
  show ?thesis
    unfolding pathInv_def
  proof (intro conjI)
    show "psIndex s' = rev (zip (map eID (ys @ [e])) [0..<length (ys @ [e])])"
      by (simp add: s'(6) ix)
    show "distinct (map eID (ys @ [e]))" using d new by simp
    show "ys @ [e] \<noteq> [] \<longrightarrow> psPrevious s' = eID (last (ys @ [e]))" by (simp add: s'(6))
    show "\<forall>i. Suc i < length (ys @ [e]) \<longrightarrow> eParentID ((ys @ [e]) ! Suc i) = eID ((ys @ [e]) ! i)"
      using lk' by blast
    show "\<forall>x \<in> set (ys @ [e]). eID x \<noteq> [] \<and> (eRecordVersion x = 1 \<longrightarrow> eSeq x \<noteq> 0)"
      using ids s'(1,4) by simp
    show "sorted_wrt (<) (map eSeq (filter (\<lambda>e. eSeq e \<noteq> 0) (ys @ [e])))"
      using srt lt by (auto simp: sorted_wrt_append)
    show "\<forall>x \<in> set (ys @ [e]). eSeq x \<noteq> 0 \<longrightarrow> eSeq x \<le> psLast s'"
    proof (intro ballI impI)
      fix x assume x: "x \<in> set (ys @ [e])" "eSeq x \<noteq> 0"
      show "eSeq x \<le> psLast s'"
      proof (cases "x = e")
        case True
        with x show ?thesis by (simp add: s'(6))
      next
        case False
        with x have m: "x \<in> set ys" by simp
        then have "eSeq x < eSeq e" if "eSeq e \<noteq> 0" using lt [of "eSeq x"] x that by auto
        with le m x show ?thesis by (auto simp: s'(6))
      qed
    qed
  qed
qed

lemma path_inv:
  assumes "foldR pathRow \<lparr> psIndex = [], psLast = 0, psPrevious = [] \<rparr> rows = Inr s"
  shows "pathInv rows s"
proof (rule foldR_prefix_invariant [where I = pathInv, OF assms])
  show "pathInv [] \<lparr> psIndex = [], psLast = 0, psPrevious = [] \<rparr>" by (simp add: pathInv_def)
qed (rule pathRow_inv)

section \<open>Compaction boundaries\<close>

text \<open>
  After the walk the pair holds the last compaction row and the boundary of the last version 1
  compaction row, which is the greatest boundary of all of them.
\<close>

definition compactionAt :: "session_entry list \<Rightarrow> nat \<Rightarrow> bool" where
  "compactionAt rows i \<longleftrightarrow> i < length rows \<and> eType (rows ! i) = EntryTypeCompaction"

definition boundaryInv :: "session_entry list \<Rightarrow> nat \<Rightarrow> nat option \<times> nat option \<Rightarrow> bool" where
  "boundaryInv rows n p \<longleftrightarrow>
     (case fst p of None \<Rightarrow> \<forall>i < n. \<not> compactionAt rows i
      | Some l \<Rightarrow> l < n \<and> compactionAt rows l \<and> (\<forall>i < n. compactionAt rows i \<longrightarrow> i \<le> l))
     \<and> (\<forall>i < n. compactionAt rows i \<longrightarrow> eRecordVersion (rows ! i) = 1 \<longrightarrow>
          (\<exists>b l. b < i \<and> eID (rows ! b) = eCompactedThroughEntryID (rows ! i) \<and> snd p = Some l \<and> b \<le> l))
     \<and> (\<forall>l. snd p = Some l \<longrightarrow> (\<exists>i < n. compactionAt rows i \<and> eRecordVersion (rows ! i) = 1
          \<and> eID (rows ! l) = eCompactedThroughEntryID (rows ! i) \<and> l < i
          \<and> (\<forall>j < n. compactionAt rows j \<longrightarrow> eRecordVersion (rows ! j) = 1 \<longrightarrow> j \<le> i)))"

lemma boundaryRow_inv:
  assumes d: "distinct (map eID rows)" and I: "boundaryInv rows n p" and n: "n < length rows"
    and step: "boundaryRow (rev (zip (map eID rows) [0..<length rows])) p (n, rows ! n) = Inr p'"
  shows "boundaryInv rows (Suc n) p'"
proof (cases "compactionAt rows n")
  case False
  then have "p' = p" using step n by (auto simp: boundaryRow_def compactionAt_def split: if_splits)
  with I False show ?thesis
    unfolding boundaryInv_def by (auto simp: less_Suc_eq split: option.splits)
next
  case True
  note I1 = I [unfolded boundaryInv_def]
  show ?thesis
  proof (cases "eRecordVersion (rows ! n) = 1")
    case False
    then have "p' = (Some n, snd p)"
      using step True by (auto simp: boundaryRow_def compactionAt_def split: if_splits)
    with I1 True False show ?thesis
      unfolding boundaryInv_def by (auto simp: less_Suc_eq)
  next
    case v: True
    from step True v obtain b where b: "map_of (rev (zip (map eID rows) [0..<length rows]))
        (eCompactedThroughEntryID (rows ! n)) = Some b" "b < n" "p' = (Some n, Some b)"
      "\<forall>l. snd p = Some l \<longrightarrow> l \<le> b"
      by (auto simp: boundaryRow_def compactionAt_def split: if_splits option.splits)
    from b(1) have e: "eID (rows ! b) = eCompactedThroughEntryID (rows ! n)"
      unfolding pathIndex_lookup [OF d] by simp
    have old: "\<exists>b' l. b' < i \<and> eID (rows ! b') = eCompactedThroughEntryID (rows ! i)
        \<and> snd p' = Some l \<and> b' \<le> l" if "i < n" "compactionAt rows i" "eRecordVersion (rows ! i) = 1" for i
      using I1 that b(3,4) by fastforce
    show ?thesis
      unfolding boundaryInv_def
    proof (intro conjI allI impI)
      show "case fst p' of None \<Rightarrow> \<forall>i < Suc n. \<not> compactionAt rows i
        | Some l \<Rightarrow> l < Suc n \<and> compactionAt rows l \<and> (\<forall>i < Suc n. compactionAt rows i \<longrightarrow> i \<le> l)"
        using b(3) True by simp
      fix i assume i: "i < Suc n" "compactionAt rows i" "eRecordVersion (rows ! i) = 1"
      show "\<exists>b l. b < i \<and> eID (rows ! b) = eCompactedThroughEntryID (rows ! i) \<and> snd p' = Some l \<and> b \<le> l"
      proof (cases "i = n")
        case True
        with b e show ?thesis by auto
      next
        case False
        with i old show ?thesis by simp
      qed
    next
      fix l assume "snd p' = Some l"
      with b(3) have "l = b" by simp
      with True v e b(2) show "\<exists>i < Suc n. compactionAt rows i \<and> eRecordVersion (rows ! i) = 1
          \<and> eID (rows ! l) = eCompactedThroughEntryID (rows ! i) \<and> l < i
          \<and> (\<forall>j < Suc n. compactionAt rows j \<longrightarrow> eRecordVersion (rows ! j) = 1 \<longrightarrow> j \<le> i)"
        by (intro exI [of _ n]) auto
    qed
  qed
qed

lemma enumerate_take:
  "xs = ys @ x # zs \<Longrightarrow> enumerate 0 xs = enumerate 0 ys @ (length ys, x) # enumerate (Suc (length ys)) zs"
  by (simp add: enumerate_append_eq)

lemma boundary_inv:
  assumes d: "distinct (map eID rows)"
    and run: "foldR (boundaryRow (rev (zip (map eID rows) [0..<length rows]))) (None, None) (enumerate 0 rows) = Inr p"
  shows "boundaryInv rows (length rows) p"
proof -
  have "boundaryInv rows (length (enumerate 0 rows)) p"
  proof (rule foldR_prefix_invariant [where I = "\<lambda>ys. boundaryInv rows (length ys)", OF run])
    show "boundaryInv rows (length []) (None, None)" by (simp add: boundaryInv_def)
    fix ys x zs t t'
    assume sp: "enumerate 0 rows = ys @ x # zs" and I: "boundaryInv rows (length ys) t"
      and st: "boundaryRow (rev (zip (map eID rows) [0..<length rows])) t x = Inr t'"
    have l: "length ys < length rows" using arg_cong [OF sp, of length] by simp
    have "x = enumerate 0 rows ! length ys" by (simp add: sp)
    with l have "x = (length ys, rows ! length ys)" by (simp add: nth_enumerate_eq)
    with boundaryRow_inv [OF d I l] st show "boundaryInv rows (length (ys @ [x])) t'" by simp
  qed
  then show ?thesis by simp
qed

section \<open>What is projected\<close>

text \<open>The boundary position of a version 1 compaction row.\<close>

definition boundaryAt :: "session_entry list \<Rightarrow> nat \<Rightarrow> nat \<Rightarrow> bool" where
  "boundaryAt rows i b \<longleftrightarrow> compactionAt rows i \<and> eRecordVersion (rows ! i) = 1 \<and> b < i
     \<and> eID (rows ! b) = eCompactedThroughEntryID (rows ! i)"

lemma boundaryAt_unique:
  assumes "distinct (map eID rows)" "boundaryAt rows i b" "boundaryAt rows i c"
  shows "b = c"
proof -
  from assms(2,3) have "b < length rows" "c < length rows" "eID (rows ! b) = eID (rows ! c)"
    by (auto simp: boundaryAt_def compactionAt_def)
  with assms(1) show ?thesis by (metis length_map nth_eq_iff_index_eq nth_map)
qed

lemma project_versioned:
  assumes out: "projectSessionEntries rows = Inr out" and v: "e \<in> set rows" "eRecordVersion e = 1"
  shows "distinct (map eID rows)" "\<And>i. Suc i < length rows \<Longrightarrow> eParentID (rows ! Suc i) = eID (rows ! i)"
    "sorted_wrt (<) (map eSeq (filter (\<lambda>e. eSeq e \<noteq> 0) rows))"
    "((\<forall>i. \<not> compactionAt rows i) \<and> out = visibleEntries rows)
     \<or> (\<exists>l. compactionAt rows l \<and> (\<forall>i. compactionAt rows i \<longrightarrow> i \<le> l)
         \<and> ((\<exists>b. boundaryAt rows l b \<and> (\<forall>i c. boundaryAt rows i c \<longrightarrow> c \<le> b)
               \<and> out = compactionSummaryEntry (rows ! l) # visibleEntries (drop (Suc b) rows))
           \<or> (eRecordVersion (rows ! l) \<noteq> 1 \<and> (\<forall>i c. \<not> boundaryAt rows i c)
               \<and> out = compactionSummaryEntry (rows ! l) # visibleEntries (drop (Suc l) rows))))"
proof -
  have "list_ex (\<lambda>e. eRecordVersion e = 1) rows" using v by (auto simp: list_ex_iff)
  with out obtain s p where s: "foldR pathRow \<lparr> psIndex = [], psLast = 0, psPrevious = [] \<rparr> rows = Inr s"
    and p: "foldR (boundaryRow (psIndex s)) (None, None) (enumerate 0 rows) = Inr p"
    and o: "(case fst p of None \<Rightarrow> Inr (visibleEntries rows)
       | Some l \<Rightarrow> compactedProjection (psIndex s) rows l) = Inr out"
    by (auto simp: projectSessionEntries_def bindR_eq_Inr)
  note I = path_inv [OF s, unfolded pathInv_def]
  from I show d: "distinct (map eID rows)" and srt: "sorted_wrt (<) (map eSeq (filter (\<lambda>e. eSeq e \<noteq> 0) rows))"
    by blast+
  from I show "\<And>i. Suc i < length rows \<Longrightarrow> eParentID (rows ! Suc i) = eID (rows ! i)" by blast
  have ix: "psIndex s = rev (zip (map eID rows) [0..<length rows])" using I by blast
  note B = boundary_inv [OF d p [unfolded ix], unfolded boundaryInv_def]
  have bounded: "compactionAt rows i \<Longrightarrow> i < length rows" for i by (simp add: compactionAt_def)
  show "((\<forall>i. \<not> compactionAt rows i) \<and> out = visibleEntries rows)
     \<or> (\<exists>l. compactionAt rows l \<and> (\<forall>i. compactionAt rows i \<longrightarrow> i \<le> l)
         \<and> ((\<exists>b. boundaryAt rows l b \<and> (\<forall>i c. boundaryAt rows i c \<longrightarrow> c \<le> b)
               \<and> out = compactionSummaryEntry (rows ! l) # visibleEntries (drop (Suc b) rows))
           \<or> (eRecordVersion (rows ! l) \<noteq> 1 \<and> (\<forall>i c. \<not> boundaryAt rows i c)
               \<and> out = compactionSummaryEntry (rows ! l) # visibleEntries (drop (Suc l) rows))))"
  proof (cases "fst p")
    case None
    with B o bounded show ?thesis by auto
  next
    case (Some l)
    with B have l: "compactionAt rows l" "\<forall>i. compactionAt rows i \<longrightarrow> i \<le> l" using bounded by auto
    have o': "compactedProjection (psIndex s) rows l = Inr out" using o Some by simp
    show ?thesis
    proof (cases "eRecordVersion (rows ! l) = 1")
      case True
      with o' obtain b where b: "map_of (psIndex s) (eCompactedThroughEntryID (rows ! l)) = Some b" "b < l"
        "out = compactionSummaryEntry (rows ! l) # visibleEntries (drop (Suc b) rows)"
        by (auto simp: compactedProjection_def Let_def split: if_splits option.splits)
      have e: "eID (rows ! b) = eCompactedThroughEntryID (rows ! l)"
        using b(1) unfolding ix pathIndex_lookup [OF d] by simp
      have lb: "boundaryAt rows l b" using l(1) True b(2) e by (simp add: boundaryAt_def)
      have "c \<le> b" if c: "boundaryAt rows i c" for i c
      proof -
        from c have "i < length rows" "compactionAt rows i" "eRecordVersion (rows ! i) = 1"
          by (auto simp: boundaryAt_def compactionAt_def)
        with B obtain c' m where m: "c' < i" "eID (rows ! c') = eCompactedThroughEntryID (rows ! i)"
          "snd p = Some m" "c' \<le> m" by blast
        have "boundaryAt rows i c'" using c m by (simp add: boundaryAt_def)
        then have "c' = c" using boundaryAt_unique [OF d _ c] by blast
        from B m(3) obtain k where k: "k < length rows" "compactionAt rows k" "eRecordVersion (rows ! k) = 1"
          "eID (rows ! m) = eCompactedThroughEntryID (rows ! k)" "m < k"
          "\<forall>j < length rows. compactionAt rows j \<longrightarrow> eRecordVersion (rows ! j) = 1 \<longrightarrow> j \<le> k" by blast
        have "k = l" using k(6) l True k(2) bounded [OF l(1)] by (meson antisym)
        then have "boundaryAt rows l m" using k by (simp add: boundaryAt_def)
        then have "m = b" using boundaryAt_unique [OF d _ lb] by blast
        with m(4) \<open>c' = c\<close> show ?thesis by simp
      qed
      with l lb b(3) show ?thesis by blast
    next
      case False
      with o' have n: "\<not> list_ex (\<lambda>e. eRecordVersion e = 1 \<and> eType e = EntryTypeCompaction) (take l rows)"
        and oo: "out = compactionSummaryEntry (rows ! l) # visibleEntries (drop (Suc l) rows)"
        by (auto simp: compactedProjection_def Let_def split: if_splits)
      have "\<not> boundaryAt rows i c" for i c
      proof
        assume c: "boundaryAt rows i c"
        then have i: "compactionAt rows i" "eRecordVersion (rows ! i) = 1" by (auto simp: boundaryAt_def)
        with l(2) False have "i < l" by (metis le_neq_implies_less)
        with i bounded [OF l(1)] have "rows ! i \<in> set (take l rows)"
          by (auto simp: in_set_conv_nth compactionAt_def intro: exI [of _ i])
        with n i show False by (auto simp: list_ex_iff compactionAt_def)
      qed
      with l False oo show ?thesis by blast
    qed
  qed
qed

section \<open>Tool groups are closed\<close>

definition receiptRow :: "group_key \<Rightarrow> session_entry \<Rightarrow> bool" where
  "receiptRow k t \<longleftrightarrow> eType t = EntryTypeTool \<and> eActionState t = ActionStateEmpty
     \<and> k = (eRunID t, (case eOrdinal t of None \<Rightarrow> 0 | Some n \<Rightarrow> n), eToolCallID t)"

definition turnRow :: "session_entry \<Rightarrow> bool" where
  "turnRow e \<longleftrightarrow> eType e = EntryTypeUser \<or> eType e = EntryTypeAssistant"

lemma groupOrdinal_Inr:
  "groupOrdinal msg e = Inr n \<Longrightarrow> n = (case eOrdinal e of None \<Rightarrow> 0 | Some n \<Rightarrow> n)"
  by (auto simp: groupOrdinal_def split: option.splits if_splits)

lemma map_of_deleteCall: "map_of (deleteCall k cs) x = (if x = k then None else map_of cs x)"
  by (induction cs) (auto simp: deleteCall_def)

lemma deleteCall_keys: "fst ` set (deleteCall k cs) = fst ` set cs - {k}"
  by (auto simp: deleteCall_def)

text \<open>One row while calls are open is a receipt of one of them, or leaves them alone.\<close>

lemma groupRow_open:
  assumes "groupRow calls e = Inr calls'" "calls \<noteq> []"
  shows "\<not> turnRow e"
    "(\<exists>k. receiptRow k e \<and> map_of calls k = Some (eToolName e) \<and> calls' = deleteCall k calls)
     \<or> ((\<forall>k. \<not> receiptRow k e) \<and> calls' = calls)"
  using assms
  by (auto simp: groupRow_def turnRow_def receiptRow_def bindR_eq_Inr dest!: groupOrdinal_Inr
      split: if_splits option.splits)

lemma group_closes:
  assumes "foldR groupRow calls vs = Inr []" "map_of calls k = Some name"
  shows "\<exists>ws t zs. vs = ws @ t # zs \<and> receiptRow k t \<and> eToolName t = name \<and> (\<forall>x \<in> set ws. \<not> turnRow x)"
  using assms
proof (induction vs arbitrary: calls)
  case Nil
  then show ?case by simp
next
  case (Cons e vs)
  from Cons.prems(1) obtain calls' where e: "groupRow calls e = Inr calls'" "foldR groupRow calls' vs = Inr []"
    by (auto split: sum.splits)
  have ne: "calls \<noteq> []" using Cons.prems(2) by auto
  note O = groupRow_open [OF e(1) ne]
  show ?case
  proof (cases "receiptRow k e")
    case True
    with O(2) have "map_of calls k = Some (eToolName e)" by (auto simp: receiptRow_def)
    with Cons.prems(2) True show ?thesis by (intro exI [of _ "[]"]) auto
  next
    case False
    with O(2) Cons.prems(2) have "map_of calls' k = Some name"
      by (auto simp: map_of_deleteCall)
    from Cons.IH [OF e(2) this] obtain ws t zs where "vs = ws @ t # zs" "receiptRow k t" "eToolName t = name"
      "\<forall>x \<in> set ws. \<not> turnRow x" by blast
    with O(1) show ?thesis by (intro exI [of _ "e # ws"]) auto
  qed
qed

lemma openGroup_calls:
  "openGroup run ord calls cs = Inr calls' \<Longrightarrow>
     (\<forall>c \<in> set cs. map_of calls' (run, ord, tcID c) = Some (tcName c))
     \<and> (\<forall>k v. map_of calls k = Some v \<longrightarrow> map_of calls' k = Some v)"
proof (induction run ord calls cs arbitrary: calls' rule: openGroup.induct)
  case (2 run ord calls c cs)
  from "2.prems" have n: "map_of calls (run, ord, tcID c) = None"
    and o: "openGroup run ord (((run, ord, tcID c), tcName c) # calls) cs = Inr calls'"
    by (auto split: if_splits)
  have IH: "(\<forall>d \<in> set cs. map_of calls' (run, ord, tcID d) = Some (tcName d))
     \<and> (\<forall>k v. map_of (((run, ord, tcID c), tcName c) # calls) k = Some v \<longrightarrow> map_of calls' k = Some v)"
    by (rule "2.IH" [OF _ o]) (use n in simp)
  note all = IH [THEN conjunct1]
    and keep = IH [THEN conjunct2, THEN spec, THEN spec, THEN mp]
  have "map_of calls' (run, ord, tcID c) = Some (tcName c)" by (rule keep) simp
  moreover have "map_of calls' k = Some v" if "map_of calls k = Some v" for k v
  proof (rule keep)
    from that n have "k \<noteq> (run, ord, tcID c)" by auto
    with that show "map_of (((run, ord, tcID c), tcName c) # calls) k = Some v" by simp
  qed
  ultimately show ?case using all by simp
qed simp

definition callKey :: "session_entry \<Rightarrow> tool_call \<Rightarrow> group_key" where
  "callKey a c = (eRunID a, (case eOrdinal a of None \<Rightarrow> 0 | Some n \<Rightarrow> n), tcID c)"

text \<open>
  Every call of a projected assistant row has its receipt before the next user or assistant
  row, and every projected receipt answers a call of the assistant row before it.
\<close>

lemma groups_answered:
  assumes "validateProjectedToolGroups rows = Inr ()" "rows = us @ a # vs" "eType a = EntryTypeAssistant"
    and "c \<in> set (eToolCalls a)"
  shows "\<exists>ws t zs. vs = ws @ t # zs \<and> receiptRow (callKey a c) t \<and> eToolName t = tcName c
    \<and> (\<forall>x \<in> set ws. \<not> turnRow x)"
proof -
  have "foldR groupRow [] rows = Inr []"
    using assms(1) by (auto simp: validateProjectedToolGroups_def bindR_eq_Inr split: if_splits)
  then obtain c1 c2 where f: "groupRow c1 a = Inr c2" "foldR groupRow c2 vs = Inr []"
    unfolding assms(2) by (rule foldR_split)
  from f(1) assms(3,4) have "\<exists>ord. groupOrdinal ''version-one assistant is missing its occurrence'' a = Inr ord
      \<and> openGroup (eRunID a) ord c1 (eToolCalls a) = Inr c2"
    by (auto simp: groupRow_def bindR_eq_Inr split: if_splits)
  then obtain ord where ord: "ord = (case eOrdinal a of None \<Rightarrow> 0 | Some n \<Rightarrow> n)"
    "openGroup (eRunID a) ord c1 (eToolCalls a) = Inr c2" using groupOrdinal_Inr by blast
  have "map_of c2 (callKey a c) = Some (tcName c)"
    using openGroup_calls [OF ord(2)] assms(4) by (simp add: callKey_def ord(1))
  from group_closes [OF f(2) this] show ?thesis .
qed

definition answers :: "session_entry list \<Rightarrow> group_key \<Rightarrow> string \<Rightarrow> bool" where
  "answers us k name \<longleftrightarrow> (\<exists>vs a ws c. us = vs @ a # ws \<and> eType a = EntryTypeAssistant \<and> c \<in> set (eToolCalls a)
     \<and> callKey a c = k \<and> tcName c = name \<and> (\<forall>x \<in> set ws. \<not> turnRow x))"

lemma answers_snoc: "answers us k name \<Longrightarrow> \<not> turnRow e \<Longrightarrow> answers (us @ [e]) k name"
proof -
  assume "answers us k name" "\<not> turnRow e"
  then obtain vs a ws c where "us = vs @ a # ws" "eType a = EntryTypeAssistant" "c \<in> set (eToolCalls a)"
     "callKey a c = k" "tcName c = name" "\<forall>x \<in> set ws. \<not> turnRow x" unfolding answers_def by blast
  with \<open>\<not> turnRow e\<close> show ?thesis
    unfolding answers_def by (intro exI [of _ vs] exI [of _ a] exI [of _ "ws @ [e]"] exI [of _ c]) auto
qed

lemma openGroup_answers:
  "openGroup run ord calls cs = Inr calls' \<Longrightarrow> map_of calls' k = Some name \<Longrightarrow>
     map_of calls k = Some name \<or> (\<exists>c \<in> set cs. k = (run, ord, tcID c) \<and> name = tcName c)"
proof (induction run ord calls cs arbitrary: calls' rule: openGroup.induct)
  case (2 run ord calls c cs)
  from "2.prems"(1) have o: "map_of calls (run, ord, tcID c) = None"
    "openGroup run ord (((run, ord, tcID c), tcName c) # calls) cs = Inr calls'"
    by (auto split: if_splits)
  have "map_of (((run, ord, tcID c), tcName c) # calls) k = Some name
      \<or> (\<exists>d \<in> set cs. k = (run, ord, tcID d) \<and> name = tcName d)"
    by (rule "2.IH" [OF _ o(2) "2.prems"(2)]) (use o(1) in simp)
  then show ?case by (auto split: if_splits)
qed simp

lemma groupRow_answers:
  assumes I: "\<And>k name. map_of calls k = Some name \<Longrightarrow> answers us k name"
    and step: "groupRow calls e = Inr calls'" and k: "map_of calls' k = Some name"
  shows "answers (us @ [e]) k name"
proof (cases "eType e = EntryTypeAssistant \<and> eToolCalls e \<noteq> []")
  case True
  with step obtain ord where ord: "calls = []" "ord = (case eOrdinal e of None \<Rightarrow> 0 | Some n \<Rightarrow> n)"
    "openGroup (eRunID e) ord calls (eToolCalls e) = Inr calls'"
    by (auto simp: groupRow_def bindR_eq_Inr dest!: groupOrdinal_Inr split: if_splits)
  from openGroup_answers [OF ord(3) k] ord(1,2) obtain c where "c \<in> set (eToolCalls e)" "callKey e c = k" "tcName c = name"
    by (auto simp: callKey_def)
  with True show ?thesis
    unfolding answers_def by (intro exI [of _ us] exI [of _ e] exI [of _ "[]"] exI [of _ c]) auto
next
  case False
  show ?thesis
  proof (cases "calls = []")
    case True
    with False step k show ?thesis
      by (auto simp: groupRow_def bindR_eq_Inr deleteCall_def split: if_splits option.splits)
  next
    case ne: False
    note O = groupRow_open [OF step ne]
    from O(2) k have "map_of calls k = Some name" by (auto simp: map_of_deleteCall split: if_splits)
    with I O(1) answers_snoc show ?thesis by blast
  qed
qed

lemma receipts_answer:
  assumes "validateProjectedToolGroups rows = Inr ()" "rows = us @ t # vs" "receiptRow k t"
  shows "answers us k (eToolName t)"
proof -
  have "foldR groupRow [] rows = Inr []"
    using assms(1) by (auto simp: validateProjectedToolGroups_def bindR_eq_Inr split: if_splits)
  then obtain c1 c2 where f: "foldR groupRow [] us = Inr c1" "groupRow c1 t = Inr c2"
    unfolding assms(2) by (rule foldR_split)
  have "\<forall>k name. map_of c1 k = Some name \<longrightarrow> answers us k name"
    by (rule foldR_prefix_invariant [where I = "\<lambda>us c. \<forall>k name. map_of c k = Some name \<longrightarrow> answers us k name",
          OF f(1)]) (simp, blast intro: groupRow_answers)
  moreover from f(2) assms(3) have "map_of c1 k = Some (eToolName t)"
    by (auto simp: groupRow_def receiptRow_def bindR_eq_Inr dest!: groupOrdinal_Inr split: if_splits option.splits)
  ultimately show ?thesis by blast
qed

section \<open>The tail check\<close>

definition closesCall :: "string \<Rightarrow> occurrence_key \<Rightarrow> session_entry \<Rightarrow> bool" where
  "closesCall sid k t \<longleftrightarrow> eRecordVersion t = 1 \<and> eType t = EntryTypeTool
     \<and> eActionState t = ActionStateEmpty \<and> tailKey sid t = k"

definition opensCall :: "string \<Rightarrow> occurrence_key \<Rightarrow> string \<Rightarrow> session_entry \<Rightarrow> bool" where
  "opensCall sid k name a \<longleftrightarrow> eRecordVersion a = 1 \<and> eType a = EntryTypeAssistant
     \<and> map_of (callNames sid a) k = Some name"

text \<open>Only rows of this kind may stand between a call and its receipt.\<close>

definition insideGroup :: "session_entry \<Rightarrow> bool" where
  "insideGroup e \<longleftrightarrow> eRecordVersion e = 1 \<and> (eType e = EntryTypeTool \<or> eType e = EntryTypeCheckpoint
     \<and> eCheckpointKind e = CheckpointExecutionResolution)"

definition openInGroup :: "tail_scan \<Rightarrow> bool" where
  "openInGroup s \<longleftrightarrow> (\<forall>k name. map_of (tsOpen s) k = Some name \<longrightarrow> map_of (tsGroup s) k = Some name)"

lemma tailBusy_step:
  assumes "tailBusy sid s e = Inr s'" "openInGroup s"
  shows "insideGroup e" "openInGroup s'"
    "(\<exists>k. closesCall sid k e \<and> map_of (tsOpen s) k = Some (eToolName e) \<and> tsOpen s' = deleteCall k (tsOpen s))
     \<or> ((\<forall>k. \<not> closesCall sid k e) \<and> tsOpen s' = tsOpen s)"
proof -
  show "insideGroup e"
    using assms(1) by (auto simp: tailBusy_def Let_def insideGroup_def split: if_splits)
  have step: "(\<forall>k. \<not> closesCall sid k e) \<and> s' = s
     \<or> closesCall sid (tailKey sid e) e \<and> map_of (tsOpen s) (tailKey sid e) \<noteq> None
       \<and> map_of (tsGroup s) (tailKey sid e) = Some (eToolName e)
       \<and> tsOpen s' = deleteCall (tailKey sid e) (tsOpen s) \<and> tsGroup s' = tsGroup s"
    using assms(1) by (simp add: tailBusy_def Let_def closesCall_def split: if_split_asm) auto
  then show "openInGroup s'" using assms(2) by (elim disjE) (auto simp: openInGroup_def map_of_deleteCall)
  from step show "(\<exists>k. closesCall sid k e \<and> map_of (tsOpen s) k = Some (eToolName e) \<and> tsOpen s' = deleteCall k (tsOpen s))
     \<or> ((\<forall>k. \<not> closesCall sid k e) \<and> tsOpen s' = tsOpen s)"
  proof (elim disjE conjE)
    assume c: "closesCall sid (tailKey sid e) e" "map_of (tsOpen s) (tailKey sid e) \<noteq> None"
      "map_of (tsGroup s) (tailKey sid e) = Some (eToolName e)" "tsOpen s' = deleteCall (tailKey sid e) (tsOpen s)"
    from c(2) obtain n where n: "map_of (tsOpen s) (tailKey sid e) = Some n" by blast
    with assms(2) have "map_of (tsGroup s) (tailKey sid e) = Some n" unfolding openInGroup_def by blast
    with c n have "n = eToolName e" by simp
    with c n show ?thesis by (intro disjI1 exI [of _ "tailKey sid e"]) simp
  qed simp
qed

lemma tailIdle_step:
  assumes "tsOpen s = []"
  shows "openInGroup (tailIdle sid s e)"
    "map_of (tsOpen (tailIdle sid s e)) k = Some name \<longleftrightarrow> opensCall sid k name e"
  using assms by (auto simp: tailIdle_def openInGroup_def opensCall_def callNames_def)

lemma tailRow_cases:
  assumes "tailRow sid s e = Inr s'"
  shows "tsOpen s = [] \<and> s' = tailIdle sid s e \<or> tsOpen s \<noteq> [] \<and> tailBusy sid s e = Inr s'"
  using assms by (auto simp: tailRow_def bindR_eq_Inr split: if_splits)

lemma tailRow_openInGroup:
  assumes "tailRow sid s e = Inr s'" "openInGroup s"
  shows "openInGroup s'"
  using tailRow_cases [OF assms(1)] tailIdle_step(1) tailBusy_step(2) assms(2) by auto

text \<open>What happens to one open call in the rest of the rows.\<close>

lemma tail_open_call:
  assumes "foldR (tailRow sid) s vs = Inr s'" "openInGroup s" "map_of (tsOpen s) k = Some name"
  shows "(\<exists>ws t zs. vs = ws @ t # zs \<and> closesCall sid k t \<and> eToolName t = name \<and> (\<forall>x \<in> set ws. insideGroup x))
    \<or> (map_of (tsOpen s') k = Some name \<and> (\<forall>x \<in> set vs. insideGroup x \<and> \<not> closesCall sid k x))"
  using assms
proof (induction vs arbitrary: s)
  case Nil
  then show ?case by simp
next
  case (Cons e vs)
  from Cons.prems(1) obtain s1 where s1: "tailRow sid s e = Inr s1" "foldR (tailRow sid) s1 vs = Inr s'"
    by (rule foldR_cons)
  have busy: "tailBusy sid s e = Inr s1"
    using tailRow_cases [OF s1(1)] Cons.prems(3) by auto
  note B = tailBusy_step [OF busy Cons.prems(2)]
  show ?case
  proof (cases "closesCall sid k e")
    case True
    with B(3) have "map_of (tsOpen s) k = Some (eToolName e)" by (auto simp: closesCall_def)
    with Cons.prems(3) True show ?thesis by (intro disjI1 exI [of _ "[]"]) auto
  next
    case False
    with B(3) Cons.prems(3) have "map_of (tsOpen s1) k = Some name" by (auto simp: map_of_deleteCall)
    from Cons.IH [OF s1(2) B(2) this] show ?thesis
    proof (elim disjE exE conjE)
      fix ws t zs
      assume "vs = ws @ t # zs" "closesCall sid k t" "eToolName t = name" "\<forall>x \<in> set ws. insideGroup x"
      with B(1) show ?thesis by (intro disjI1 exI [of _ "e # ws"]) auto
    next
      assume "map_of (tsOpen s') k = Some name" "\<forall>x \<in> set vs. insideGroup x \<and> \<not> closesCall sid k x"
      with B(1) False show ?thesis by (intro disjI2) auto
    qed
  qed
qed

lemma tail_openInGroup:
  assumes "foldR (tailRow sid) emptyTail rows = Inr s"
  shows "openInGroup s"
proof (rule foldR_invariant [OF assms])
  show "openInGroup emptyTail" by (simp add: openInGroup_def emptyTail_def)
qed (rule tailRow_openInGroup)

lemma opensCall_key:
  "opensCall sid k name a \<Longrightarrow> \<exists>c \<in> set (eToolCalls a). k = (sid, eRunID a, the (eOrdinal a), tcID c) \<and> name = tcName c"
  by (auto simp: opensCall_def callNames_def dest!: map_of_SomeD)

text \<open>
  A scan that ends with no open call found, for every call, its receipt in the same group; one
  that ends with open calls leaves exactly the calls of the last group that have no receipt.
\<close>

lemma tail_closed:
  assumes scan: "foldR (tailRow sid) emptyTail (us @ a # vs) = Inr s" and a: "opensCall sid k name a"
  shows "(\<exists>ws t zs. vs = ws @ t # zs \<and> closesCall sid k t \<and> eToolName t = name \<and> (\<forall>x \<in> set ws. insideGroup x))
    \<or> (map_of (tsOpen s) k = Some name \<and> (\<forall>x \<in> set vs. insideGroup x \<and> \<not> closesCall sid k x))"
proof -
  from scan obtain s1 s2 where f: "foldR (tailRow sid) emptyTail us = Inr s1" "tailRow sid s1 a = Inr s2"
    "foldR (tailRow sid) s2 vs = Inr s" by (rule foldR_split)
  have g1: "openInGroup s1" by (rule tail_openInGroup [OF f(1)])
  have "tsOpen s1 = []"
  proof (rule ccontr)
    assume "tsOpen s1 \<noteq> []"
    with tailRow_cases [OF f(2)] g1 have "insideGroup a" using tailBusy_step(1) by blast
    with a show False by (auto simp: insideGroup_def opensCall_def)
  qed
  with tailRow_cases [OF f(2)] have s2: "s2 = tailIdle sid s1 a" by auto
  have "map_of (tsOpen s2) k = Some name" unfolding s2 tailIdle_step(2) [OF \<open>tsOpen s1 = []\<close>] by (rule a)
  from tail_open_call [OF f(3) tailRow_openInGroup [OF f(2) g1] this] show ?thesis .
qed

lemma tail_open_origin:
  assumes "foldR (tailRow sid) emptyTail rows = Inr s" "map_of (tsOpen s) k = Some name"
  shows "\<exists>us a vs. rows = us @ a # vs \<and> opensCall sid k name a \<and> (\<forall>x \<in> set vs. insideGroup x \<and> \<not> closesCall sid k x)"
proof -
  let ?I = "\<lambda>rows s. openInGroup s \<and> (\<forall>k name. map_of (tsOpen s) k = Some name \<longrightarrow>
    (\<exists>us a vs. rows = us @ a # vs \<and> opensCall sid k name a \<and> (\<forall>x \<in> set vs. insideGroup x \<and> \<not> closesCall sid k x)))"
  have "?I rows s"
  proof (rule foldR_prefix_invariant [where I = ?I, OF assms(1)])
    show "?I [] emptyTail" by (simp add: emptyTail_def openInGroup_def)
    fix ys e zs t t'
    assume I: "?I ys t" and step: "tailRow sid t e = Inr t'"
    have origin: "\<exists>us a vs. ys @ [e] = us @ a # vs \<and> opensCall sid k name a
        \<and> (\<forall>x \<in> set vs. insideGroup x \<and> \<not> closesCall sid k x)" if k: "map_of (tsOpen t') k = Some name" for k name
    proof (cases "tsOpen t = []")
      case True
      with tailRow_cases [OF step] tailIdle_step(2) [OF True] k have "opensCall sid k name e" by auto
      then show ?thesis by (intro exI [of _ ys] exI [of _ e] exI [of _ "[]"]) simp
    next
      case False
      with tailRow_cases [OF step] have busy: "tailBusy sid t e = Inr t'" by auto
      note B = tailBusy_step [OF busy conjunct1 [OF I]]
      from B(3) k have "map_of (tsOpen t) k = Some name" "\<not> closesCall sid k e"
        by (auto simp: map_of_deleteCall closesCall_def split: if_splits)
      with I obtain us a vs where "ys = us @ a # vs" "opensCall sid k name a"
        "\<forall>x \<in> set vs. insideGroup x \<and> \<not> closesCall sid k x" by blast
      with B(1) \<open>\<not> closesCall sid k e\<close> show ?thesis
        by (intro exI [of _ us] exI [of _ a] exI [of _ "vs @ [e]"]) auto
    qed
    with tailRow_openInGroup [OF step] I show "?I (ys @ [e]) t'" by blast
  qed
  with assms(2) show ?thesis by blast
qed

section \<open>Views\<close>

lemma validateSessionView_Inr:
  assumes "validateSessionView v = Inr u"
  shows "svSessionID v \<noteq> []" "svBranchID v \<noteq> []" "length (svMessages v) = length (svSourceEntryIDs v)"
    "svMessages v \<noteq> [] \<longrightarrow> svRevision v \<noteq> []" "distinct (svSourceEntryIDs v)" "[] \<notin> set (svSourceEntryIDs v)"
proof -
  have b: "svSessionID v \<noteq> []" "svBranchID v \<noteq> []" "length (svMessages v) = length (svSourceEntryIDs v)"
      "svMessages v \<noteq> [] \<longrightarrow> svRevision v \<noteq> []"
    using assms by (auto simp: validateSessionView_def split: if_split_asm)
  with assms have "bindR (foldR noteSourceID [] (svSourceEntryIDs v)) (\<lambda>_. Inr ()) = Inr u"
    by (simp add: validateSessionView_def split: if_split_asm)
  then obtain seen where f: "foldR noteSourceID [] (svSourceEntryIDs v) = Inr seen"
    by (auto simp: bindR_eq_Inr)
  let ?I = "\<lambda>ys seen. set seen = set ys \<and> distinct ys \<and> [] \<notin> set ys"
  have "?I (svSourceEntryIDs v) seen"
  proof (rule foldR_prefix_invariant [where I = ?I, OF f])
    fix ys x zs t t'
    assume I: "?I ys t" and "noteSourceID t x = Inr t'"
    then have "x \<noteq> []" "x \<notin> set t" "t' = x # t" by (auto simp: noteSourceID_def split: if_split_asm)
    with I show "?I (ys @ [x]) t'" by auto
  qed simp
  with b show "svSessionID v \<noteq> []" "svBranchID v \<noteq> []" "length (svMessages v) = length (svSourceEntryIDs v)"
    "svMessages v \<noteq> [] \<longrightarrow> svRevision v \<noteq> []" "distinct (svSourceEntryIDs v)" "[] \<notin> set (svSourceEntryIDs v)"
    by simp_all
qed

lemma viewMessages_source:
  "(m, x) \<in> set (viewMessages rows) \<longleftrightarrow> (\<exists>e \<in> set rows. sessionEntryToAgentMessage e = Some m \<and> x = eID e)"
  by (auto simp: viewMessages_def List.map_filter_def image_iff)

lemma view_of_projection:
  assumes "SessionViewFromEntries sid bid rvn rows = Inr v"
  obtains out where "validateToolCallJournalTail sid rows = Inr ()" "projectSessionEntries rows = Inr out"
    "validateProjectedToolGroups out = Inr ()"
    "zip (svMessages v) (svSourceEntryIDs v) = viewMessages out"
    "length (svMessages v) = length (svSourceEntryIDs v)"
    "svSessionID v = sid" "svBranchID v = bid" "svRevision v = rvn" "svDiagnostics v = []"
    "distinct (svSourceEntryIDs v)" "[] \<notin> set (svSourceEntryIDs v)"
    "\<forall>e \<in> set rows. eRecordVersion e = 1 \<longrightarrow> eSessionID e = sid"
proof -
  let ?v = "\<lambda>out. emptyView \<lparr> svSessionID := sid, svBranchID := bid, svRevision := rvn,
      svMessages := map fst (viewMessages out), svSourceEntryIDs := map snd (viewMessages out) \<rparr>"
  have own: "\<not> list_ex (\<lambda>e. eRecordVersion e = 1 \<and> eSessionID e \<noteq> sid) rows"
    and tail: "validateToolCallJournalTail sid rows = Inr ()"
    and rest: "bindR (projectSessionEntries rows) (\<lambda>entries.
        case validateProjectedToolGroups entries of
          Inl err \<Rightarrow> if err = ErrUnclosedToolCallGroup
             then Inl (Fault ''projected history is inconsistent'') else Inl err
        | Inr _ \<Rightarrow> bindR (validateSessionView (?v entries)) (\<lambda>_. Inr (?v entries))) = Inr v"
    using assms unfolding SessionViewFromEntries_def Let_def
    by (simp_all split: if_split_asm) (cases "validateToolCallJournalTail sid rows"; simp)+
  from rest obtain out where "projectSessionEntries rows = Inr out"
    and out: "(case validateProjectedToolGroups out of
          Inl err \<Rightarrow> if err = ErrUnclosedToolCallGroup
             then Inl (Fault ''projected history is inconsistent'') else Inl err
        | Inr _ \<Rightarrow> bindR (validateSessionView (?v out)) (\<lambda>_. Inr (?v out))) = Inr v"
    unfolding bindR_eq_Inr by blast
  from out have "validateProjectedToolGroups out = Inr ()"
    by (cases "validateProjectedToolGroups out") (simp_all split: if_split_asm)
  moreover from this out have "bindR (validateSessionView (?v out)) (\<lambda>_. Inr (?v out)) = Inr v" by simp
  then have v: "v = ?v out" and "validateSessionView (?v out) = Inr ()"
    by (cases "validateSessionView (?v out)"; simp)+
  then have val: "validateSessionView v = Inr ()" by simp
  note o = tail \<open>projectSessionEntries rows = Inr out\<close> calculation
    own [unfolded list_ex_iff]
  note V = validateSessionView_Inr [OF val]
  show thesis
  proof (rule that [OF o(1-3)])
    show "zip (svMessages v) (svSourceEntryIDs v) = viewMessages out" by (simp add: v zip_map_fst_snd)
    show "svSessionID v = sid" "svBranchID v = bid" "svRevision v = rvn" "svDiagnostics v = []"
      by (simp_all add: v emptyView_def)
    show "\<forall>e \<in> set rows. eRecordVersion e = 1 \<longrightarrow> eSessionID e = sid" using o(4) by blast
  qed (rule V(3) V(5) V(6))+
qed

end
