(* ===== verification/ViewFacts.thy ===== *)
theory ViewFacts
  imports SessionViewFacts
begin

text \<open>
  The messages of a view, specified row by row: which rows carry a message and what it says, the
  summary of a compacted prefix, the rows that remain, and the pairing of calls and receipts as
  the model sees it.
\<close>

section \<open>Rows and their messages\<close>

definition messageRow :: "session_entry \<Rightarrow> bool" where
  "messageRow e \<longleftrightarrow> rowRole (eType e) \<noteq> None \<and> SurfaceVisible e
     \<and> (eType e = EntryTypeTool \<longrightarrow> eActionState e = ActionStateEmpty
        \<and> (eRecordVersion e = 0 \<longrightarrow> eToolCallID e \<noteq> [] \<and> eToolName e \<noteq> []))"

definition rowMessage :: "session_entry \<Rightarrow> agent_message" where
  "rowMessage e = \<lparr> mRole = the (rowRole (eType e)), mContent = eContent e, mContentBlocks = eContentBlocks e,
     mUsage = eUsage e, mToolCalls = eToolCalls e, mToolCallID = eToolCallID e, mToolName = eToolName e,
     mMaterializedArtifactDigest = eMaterializedArtifactDigest e,
     mInputKind = eInputKind e, mReceiptOutcome = eReceiptOutcome e, mRuntime = [] \<rparr>"

definition summaryMessage :: "session_entry \<Rightarrow> agent_message" where
  "summaryMessage e = \<lparr> mRole = ''user'',
     mContent = UntrustedSummaryContext (if eSummary e = [] then eContent e else eSummary e), mContentBlocks = [],
     mUsage = None, mToolCalls = [], mToolCallID = [], mToolName = [],
     mMaterializedArtifactDigest = eMaterializedArtifactDigest e,
     mInputKind = InputKindEmpty, mReceiptOutcome = ReceiptOutcomeEmpty, mRuntime = [] \<rparr>"

definition messagesOf :: "session_entry list \<Rightarrow> (agent_message \<times> string) list" where
  "messagesOf rows = map (\<lambda>e. (rowMessage e, eID e)) (filter messageRow rows)"

text \<open>
  The first row after what a compaction row stands for: the row after its source boundary, or
  the one after itself where the row is older than the boundaries.
\<close>

definition resumesAt :: "session_entry list \<Rightarrow> nat \<Rightarrow> nat \<Rightarrow> bool" where
  "resumesAt rows l n \<longleftrightarrow>
     (if eRecordVersion (rows ! l) = 1 then \<exists>b < l. eID (rows ! b) = eCompactedThroughEntryID (rows ! l) \<and> n = Suc b
      else n = Suc l)"

definition exactMessages :: "session_entry list \<Rightarrow> (agent_message \<times> string) list \<Rightarrow> bool" where
  "exactMessages rows ms \<longleftrightarrow>
     (\<forall>e \<in> set rows. eType e \<noteq> EntryTypeCompaction) \<and> ms = messagesOf rows
     \<or> (\<exists>l n. l < length rows \<and> eType (rows ! l) = EntryTypeCompaction
         \<and> (\<forall>e \<in> set (drop (Suc l) rows). eType e \<noteq> EntryTypeCompaction) \<and> resumesAt rows l n
         \<and> ms = (summaryMessage (rows ! l), eID (rows ! l)) # messagesOf (drop n rows))"

lemma visible_message:
  assumes "visibleRow e"
  shows "sessionEntryToAgentMessage e = (if messageRow e then Some (rowMessage e) else None)"
  using assms
  by (cases "eType e") (auto simp: sessionEntryToAgentMessage_def messageRow_def rowMessage_def rowRole_def
      visibleRow_def emptyMessage_def)

lemma messageRow_visible: "messageRow e \<Longrightarrow> visibleRow e"
  by (cases "eType e") (auto simp: messageRow_def visibleRow_def rowRole_def)

lemma viewMessages_visible: "viewMessages (visibleEntries rows) = messagesOf rows"
proof (induction rows)
  case (Cons e rows)
  then show ?case using visible_message [of e] messageRow_visible [of e]
    by (auto simp: viewMessages_def visibleEntries_def messagesOf_def List.map_filter_def)
qed (simp add: viewMessages_def visibleEntries_def messagesOf_def List.map_filter_def)

lemma viewMessages_summary:
  "eType e = EntryTypeCompaction \<Longrightarrow>
     viewMessages (compactionSummaryEntry e # rows) = (summaryMessage e, eID e) # viewMessages rows"
  by (simp add: viewMessages_def List.map_filter_def sessionEntryToAgentMessage_def compactionSummaryEntry_def
      summaryMessage_def emptyMessage_def Let_def)

section \<open>Branches without version 1 rows\<close>

lemma lastCompactionIndex_snoc:
  "lastCompactionIndex (rows @ [e]) = (if eType e = EntryTypeCompaction then Some (length rows) else lastCompactionIndex rows)"
  by (simp add: lastCompactionIndex_def enumerate_append_eq)

lemma lastCompactionIndex_cases:
  "(lastCompactionIndex rows = None \<and> (\<forall>e \<in> set rows. eType e \<noteq> EntryTypeCompaction))
   \<or> (\<exists>l. lastCompactionIndex rows = Some l \<and> l < length rows \<and> eType (rows ! l) = EntryTypeCompaction
       \<and> (\<forall>e \<in> set (drop (Suc l) rows). eType e \<noteq> EntryTypeCompaction))"
proof (induction rows rule: rev_induct)
  case Nil
  then show ?case by (simp add: lastCompactionIndex_def)
next
  case (snoc e rows)
  then show ?case by (auto simp: lastCompactionIndex_snoc nth_append)
qed

lemma legacy_rows:
  "\<forall>e \<in> set rows. eType e \<noteq> EntryTypeCompaction \<Longrightarrow> 0 < i \<or> s = 0 \<Longrightarrow>
     concat (map (\<lambda>(i, e). if eType e = EntryTypeCompaction then [compactionSummaryEntry e]
          else if i = 0 \<and> s > 0 then [] else if eType e = EntryTypeCheckpoint \<or> \<not> SurfaceVisible e then [] else [e])
        (enumerate i rows)) = visibleEntries rows" for s :: nat
  by (induction rows arbitrary: i) (auto simp: visibleEntries_def visibleRow_def)

lemma legacy_shape:
  "(\<forall>e \<in> set rows. eType e \<noteq> EntryTypeCompaction) \<and> legacyProjection rows = visibleEntries rows
   \<or> (\<exists>l. l < length rows \<and> eType (rows ! l) = EntryTypeCompaction
       \<and> (\<forall>e \<in> set (drop (Suc l) rows). eType e \<noteq> EntryTypeCompaction)
       \<and> legacyProjection rows = compactionSummaryEntry (rows ! l) # visibleEntries (drop (Suc l) rows))"
proof (cases "lastCompactionIndex rows")
  case None
  with lastCompactionIndex_cases [of rows] have n: "\<forall>e \<in> set rows. eType e \<noteq> EntryTypeCompaction" by simp
  with None legacy_rows [of rows 0 0] show ?thesis by (simp add: legacyProjection_def findLastCompactionPoint_def Let_def)
next
  case (Some l)
  with lastCompactionIndex_cases [of rows] have l: "l < length rows" "eType (rows ! l) = EntryTypeCompaction"
    "\<forall>e \<in> set (drop (Suc l) rows). eType e \<noteq> EntryTypeCompaction" by simp_all
  from l(1) have "drop l rows = rows ! l # drop (Suc l) rows" by (simp add: Cons_nth_drop_Suc)
  with Some l(2) legacy_rows [OF l(3), of 1 l]
  have "legacyProjection rows = compactionSummaryEntry (rows ! l) # visibleEntries (drop (Suc l) rows)"
    by (simp add: legacyProjection_def findLastCompactionPoint_def Let_def)
  with l show ?thesis by blast
qed

lemma compactionAt_all: "(\<forall>i. \<not> compactionAt rows i) \<longleftrightarrow> (\<forall>e \<in> set rows. eType e \<noteq> EntryTypeCompaction)"
  unfolding compactionAt_def by (metis in_set_conv_nth)

lemma compactionAt_last:
  assumes "\<forall>i. compactionAt rows i \<longrightarrow> i \<le> l" "e \<in> set (drop (Suc l) rows)"
  shows "eType e \<noteq> EntryTypeCompaction"
proof
  assume t: "eType e = EntryTypeCompaction"
  from assms(2) obtain j where "j < length (drop (Suc l) rows)" "e = drop (Suc l) rows ! j" by (metis in_set_conv_nth)
  with t have "compactionAt rows (Suc l + j)" by (simp add: compactionAt_def)
  with assms(1) show False by fastforce
qed

lemma projection_shape:
  assumes "projectSessionEntries rows = Inr out"
  shows "(\<forall>e \<in> set rows. eType e \<noteq> EntryTypeCompaction) \<and> out = visibleEntries rows
   \<or> (\<exists>l n. l < length rows \<and> eType (rows ! l) = EntryTypeCompaction
       \<and> (\<forall>e \<in> set (drop (Suc l) rows). eType e \<noteq> EntryTypeCompaction) \<and> resumesAt rows l n
       \<and> out = compactionSummaryEntry (rows ! l) # visibleEntries (drop n rows))"
proof (cases "\<exists>e \<in> set rows. eRecordVersion e = 1")
  case True
  then obtain e where e: "e \<in> set rows" "eRecordVersion e = 1" by blast
  have resumes: "l < length rows \<and> eType (rows ! l) = EntryTypeCompaction
       \<and> (\<forall>e \<in> set (drop (Suc l) rows). eType e \<noteq> EntryTypeCompaction)"
    if "compactionAt rows l" "\<forall>i. compactionAt rows i \<longrightarrow> i \<le> l" for l
    using that(1) compactionAt_last [OF that(2)] by (simp add: compactionAt_def)
  have bound: "resumesAt rows l (Suc b)" if "boundaryAt rows l b" for l b
    using that by (auto simp: resumesAt_def boundaryAt_def)
  have legacy: "resumesAt rows l (Suc l)" if "eRecordVersion (rows ! l) \<noteq> 1" for l
    using that by (simp add: resumesAt_def)
  from project_versioned(4) [OF assms e] show ?thesis
    unfolding compactionAt_all using resumes bound legacy by blast
next
  case False
  then have "out = legacyProjection rows"
    using assms by (auto simp: projectSessionEntries_def bindR_eq_Inr list_ex_iff)
  moreover have "resumesAt rows l (Suc l)" if "l < length rows" for l
    using False nth_mem [OF that] by (auto simp: resumesAt_def)
  ultimately show ?thesis using legacy_shape [of rows] by blast
qed

text \<open>The messages of every projection, and the rows they come from.\<close>

lemma projection_messages:
  assumes "projectSessionEntries rows = Inr out"
  shows "exactMessages rows (viewMessages out)"
  using projection_shape [OF assms]
proof (elim disjE exE conjE)
  fix l n
  assume "l < length rows" "eType (rows ! l) = EntryTypeCompaction"
    "\<forall>e \<in> set (drop (Suc l) rows). eType e \<noteq> EntryTypeCompaction" "resumesAt rows l n"
    "out = compactionSummaryEntry (rows ! l) # visibleEntries (drop n rows)"
  then show ?thesis unfolding exactMessages_def
    by (intro disjI2 exI [of _ l] exI [of _ n]) (simp add: viewMessages_summary viewMessages_visible)
qed (simp add: exactMessages_def viewMessages_visible)

lemma projection_tail:
  assumes "projectSessionEntries rows = Inr out"
  shows "\<forall>e \<in> set (tl out). eType e \<noteq> EntryTypeCompaction"
  using projection_shape [OF assms]
proof (elim disjE exE conjE)
  assume none: "\<forall>e \<in> set rows. eType e \<noteq> EntryTypeCompaction" and out: "out = visibleEntries rows"
  show ?thesis
  proof
    fix e assume "e \<in> set (tl out)"
    then have "e \<in> set out" by (cases out) auto
    with none out show "eType e \<noteq> EntryTypeCompaction" by (auto simp: visibleEntries_def)
  qed
qed (simp add: visibleEntries_def visibleRow_def)

section \<open>Calls and receipts\<close>

lemma map_filter_split:
  "List.map_filter g xs = us @ y # vs \<Longrightarrow>
     \<exists>as x bs. xs = as @ x # bs \<and> g x = Some y \<and> List.map_filter g as = us \<and> List.map_filter g bs = vs"
proof (induction xs arbitrary: us)
  case (Cons x xs)
  show ?case
  proof (cases "g x")
    case None
    with Cons.prems have "List.map_filter g xs = us @ y # vs" by (simp add: List.map_filter_simps)
    from Cons.IH [OF this] obtain as z bs where "xs = as @ z # bs" "g z = Some y" "List.map_filter g as = us" "List.map_filter g bs = vs"
      by blast
    with None show ?thesis by (intro exI [of _ "x # as"] exI [of _ z] exI [of _ bs]) (simp add: List.map_filter_simps)
  next
    case (Some z)
    show ?thesis
    proof (cases us)
      case Nil
      with Cons.prems Some show ?thesis
        by (intro exI [of _ "[]"] exI [of _ x] exI [of _ xs]) (simp add: List.map_filter_simps)
    next
      case us: (Cons u us')
      with Cons.prems Some have "List.map_filter g xs = us' @ y # vs" "u = z" by (simp_all add: List.map_filter_simps)
      from Cons.IH [OF this(1)] obtain as w bs where "xs = as @ w # bs" "g w = Some y" "List.map_filter g as = us'"
        "List.map_filter g bs = vs" by blast
      with Some us \<open>u = z\<close> show ?thesis
        by (intro exI [of _ "x # as"] exI [of _ w] exI [of _ bs]) (simp add: List.map_filter_simps)
    qed
  qed
qed (simp add: List.map_filter_simps)

lemma map_filter_append: "List.map_filter g (xs @ ys) = List.map_filter g xs @ List.map_filter g ys"
  by (simp add: List.map_filter_def)

lemma message_role:
  "sessionEntryToAgentMessage e = Some m \<Longrightarrow>
     mRole m = (if eType e = EntryTypeCompaction then ''user'' else the (rowRole (eType e)))"
  by (cases "eType e") (auto simp: sessionEntryToAgentMessage_def rowRole_def Let_def split: if_splits)

lemma message_assistant:
  assumes "sessionEntryToAgentMessage e = Some m" "mRole m = ''assistant''"
  shows "eType e = EntryTypeAssistant \<and> mToolCalls m = eToolCalls e"
  using assms by (cases "eType e") (auto simp: sessionEntryToAgentMessage_def Let_def split: if_splits)

text \<open>
  As the model sees it: a call of an assistant message is answered by a tool message under the
  same ID and tool name, with nothing but tool and system messages between them.
\<close>

definition pairedMessages :: "agent_message list \<Rightarrow> bool" where
  "pairedMessages ms \<longleftrightarrow> (\<forall>us a vs c. ms = us @ a # vs \<and> mRole a = ''assistant'' \<and> c \<in> set (mToolCalls a)
     \<and> tcID c \<noteq> [] \<and> tcName c \<noteq> [] \<longrightarrow>
     (\<exists>ws t zs. vs = ws @ t # zs \<and> mRole t = ''tool'' \<and> mToolCallID t = tcID c \<and> mToolName t = tcName c
        \<and> (\<forall>x \<in> set ws. mRole x \<in> {''tool'', ''system''})))"

lemma groups_messages:
  assumes "validateProjectedToolGroups out = Inr ()" "\<forall>e \<in> set (tl out). eType e \<noteq> EntryTypeCompaction"
  shows "pairedMessages (map fst (viewMessages out))"
proof (unfold pairedMessages_def, intro allI impI, elim conjE)
  fix us a vs c
  assume ms: "map fst (viewMessages out) = us @ a # vs" and a: "mRole a = ''assistant''" and c: "c \<in> set (mToolCalls a)"
    "tcID c \<noteq> []" "tcName c \<noteq> []"
  have "map fst (viewMessages out) = List.map_filter sessionEntryToAgentMessage out"
    by (induction out) (auto simp: viewMessages_def List.map_filter_simps split: option.splits)
  with ms obtain as e bs where e: "out = as @ e # bs" "sessionEntryToAgentMessage e = Some a"
    "List.map_filter sessionEntryToAgentMessage bs = vs" using map_filter_split by metis
  from message_assistant [OF e(2) a] c(1) have A: "eType e = EntryTypeAssistant" "c \<in> set (eToolCalls e)" by simp_all
  from groups_answered [OF assms(1) e(1) A] obtain ws t zs where t: "bs = ws @ t # zs"
    "receiptRow (callKey e c) t" "eToolName t = tcName c" "\<forall>x \<in> set ws. \<not> turnRow x" by blast
  from t(2) have r: "eType t = EntryTypeTool" "eActionState t = ActionStateEmpty" "eToolCallID t = tcID c"
    by (auto simp: receiptRow_def callKey_def)
  obtain m where m: "sessionEntryToAgentMessage t = Some m" "mRole m = ''tool''" "mToolCallID m = tcID c" "mToolName m = tcName c"
    using r t(3) c(2,3) by (simp add: sessionEntryToAgentMessage_def Let_def)
  have "mRole x \<in> {''tool'', ''system''}" if x: "x \<in> set (List.map_filter sessionEntryToAgentMessage ws)" for x
  proof -
    from x obtain y where y: "y \<in> set ws" "sessionEntryToAgentMessage y = Some x" by (auto simp: List.map_filter_def)
    have "y \<in> set (tl out)" using y(1) e(1) t(1) by (cases as) auto
    with assms(2) have "eType y \<noteq> EntryTypeCompaction" by blast
    with y t(4) message_role [OF y(2)] show ?thesis
      by (cases "eType y") (auto simp: turnRow_def rowRole_def sessionEntryToAgentMessage_def Let_def)
  qed
  moreover have "vs = List.map_filter sessionEntryToAgentMessage ws @ m # List.map_filter sessionEntryToAgentMessage zs"
    using e(3) t(1) m(1) by (simp add: map_filter_append List.map_filter_simps)
  ultimately show "\<exists>ws t zs. vs = ws @ t # zs \<and> mRole t = ''tool'' \<and> mToolCallID t = tcID c \<and> mToolName t = tcName c
      \<and> (\<forall>x \<in> set ws. mRole x \<in> {''tool'', ''system''})" using m(2-) by blast
qed

text \<open>In the rows: every version 1 call has its receipt, with only rows of the same group between.\<close>

lemma addCalls_distinct:
  "addCalls sid e n i seen calls occs = Inr occs' \<Longrightarrow> distinct (map tcID calls) \<and> set (map tcID calls) \<inter> set seen = {}"
  by (induction sid e n i seen calls occs rule: addCalls.induct) (auto simp: Let_def split: if_splits)

lemma journal_distinct_calls:
  assumes "analyzeDurableActionJournal rows sid = Inr plan" "a \<in> set rows" "eRecordVersion a = 1"
    "eType a = EntryTypeAssistant"
  shows "distinct (map tcID (eToolCalls a)) \<and> (eToolCalls a \<noteq> [] \<longrightarrow> eOrdinal a \<noteq> None)"
proof -
  obtain us vs where sp: "rows = us @ a # vs" using assms(2) by (meson split_list)
  obtain scan where "foldR (scanEntry sid) initialScan rows = Inr scan"
    using assms(1) by (auto simp: analyzeDurableActionJournal_def Let_def bindR_eq_Inr)
  then obtain s1 s2 where "scanEntry sid s1 a = Inr s2" unfolding sp by (rule foldR_split)
  then obtain s3 s4 where "scanAssistant sid s3 a = Inr s4" using assms(3) by (auto simp: scanEntry_def bindR_eq_Inr)
  then show ?thesis using assms(4) addCalls_distinct
    by (cases "eToolCalls a = []") (auto simp: scanAssistant_def bindR_eq_Inr dest: addCalls_distinct split: option.splits if_splits)
qed

definition answeredCalls :: "session_entry list \<Rightarrow> bool" where
  "answeredCalls rows \<longleftrightarrow> (\<forall>us a vs c. rows = us @ a # vs \<and> eRecordVersion a = 1 \<and> eType a = EntryTypeAssistant
     \<and> c \<in> set (eToolCalls a) \<longrightarrow>
     (\<exists>ws t zs. vs = ws @ t # zs \<and> eRecordVersion t = 1 \<and> eType t = EntryTypeTool \<and> eActionState t = ActionStateEmpty
        \<and> eRunID t = eRunID a \<and> (case eOrdinal t of None \<Rightarrow> 0 | Some n \<Rightarrow> n) = the (eOrdinal a) \<and> eToolCallID t = tcID c
        \<and> eToolName t = tcName c \<and> (\<forall>x \<in> set ws. insideGroup x)))"

lemma tail_answered:
  assumes "validateToolCallJournalTail sid rows = Inr ()"
  shows "answeredCalls rows"
proof (unfold answeredCalls_def, intro allI impI, elim conjE)
  fix us a vs c
  assume sp: "rows = us @ a # vs" and a: "eRecordVersion a = 1" "eType a = EntryTypeAssistant" "c \<in> set (eToolCalls a)"
  from assms obtain plan s where p: "analyzeDurableActionJournal rows sid = Inr plan"
    and s: "foldR (tailRow sid) emptyTail rows = Inr s" "tsOpen s = []"
    by (auto simp: validateToolCallJournalTail_def bindR_eq_Inr split: if_splits)
  have "distinct (map tcID (eToolCalls a))" using journal_distinct_calls [OF p _ a(1,2)] sp by simp
  then have "distinct (map fst (callNames sid a))"
    by (simp add: callNames_def comp_def distinct_map inj_on_def flip: rev_map)
  with a(3) have "map_of (callNames sid a) (sid, eRunID a, the (eOrdinal a), tcID c) = Some (tcName c)"
    by (intro map_of_is_SomeI) (auto simp: callNames_def)
  with a have o: "opensCall sid (sid, eRunID a, the (eOrdinal a), tcID c) (tcName c) a" by (simp add: opensCall_def)
  from tail_closed [OF s(1) [unfolded sp] o] s(2) show "\<exists>ws t zs. vs = ws @ t # zs \<and> eRecordVersion t = 1
      \<and> eType t = EntryTypeTool \<and> eActionState t = ActionStateEmpty
      \<and> eRunID t = eRunID a \<and> (case eOrdinal t of None \<Rightarrow> 0 | Some n \<Rightarrow> n) = the (eOrdinal a) \<and> eToolCallID t = tcID c
      \<and> eToolName t = tcName c \<and> (\<forall>x \<in> set ws. insideGroup x)"
    by (auto simp: closesCall_def tailKey_def)
qed

end
