(* ===== verification/ViewProperties.thy ===== *)
theory ViewProperties
  imports ViewFacts Samples
begin

text \<open>
  What the model-visible history of a session is: which rows a branch projects to, that every
  projected tool call is answered in its own turn, that an open tool-call group is reported as
  such, and that each message of a view comes from exactly one row.
\<close>

section \<open>A session with a compaction\<close>

definition sampleReply :: session_entry where
  "sampleReply = emptyEntry \<lparr> eID := ''y'', eParentID := ''u'', eType := EntryTypeAssistant,
     eContent := ''done'', eSeq := 2, eRecordVersion := 1, eSessionID := ''s'',
     eBranchID := ''main'', eRunID := ''r'', eOrdinal := Some 1, eTranscriptIndex := Some 1 \<rparr>"

definition sampleCompaction :: session_entry where
  "sampleCompaction = emptyEntry \<lparr> eID := ''z'', eParentID := ''y'', eType := EntryTypeCompaction,
     eSummary := ''so far'', eContent := ''so far'', eIsSummary := True, eSeq := 3, eRecordVersion := 1,
     eSessionID := ''s'', eBranchID := ''main'', eRunID := ''r'', eCompactedThroughEntryID := ''u'' \<rparr>"

definition compactedRows :: "session_entry list" where
  "compactedRows = [sampleUser, sampleReply, sampleCompaction]"

lemma compactedRows_project:
  "projectSessionEntries compactedRows = Inr [compactionSummaryEntry sampleCompaction, sampleReply]"
  by code_simp

section \<open>Properties\<close>

text \<open>
  C31. The projection of a branch with version 1 rows is exact. The branch must be a chain of
  distinct rows with increasing sequences; without a compaction row every visible row is kept,
  and otherwise the last compaction row becomes the summary and stands for the rows up to its
  source boundary, which no earlier compaction row passes: the visible rows after the boundary
  follow, and no other.
\<close>

theorem projection_exact:
  assumes "projectSessionEntries rows = Inr out" "e \<in> set rows" "eRecordVersion e = 1"
  shows "distinct (map eID rows)
    \<and> (\<forall>i. Suc i < length rows \<longrightarrow> eParentID (rows ! Suc i) = eID (rows ! i))
    \<and> sorted_wrt (<) (map eSeq (filter (\<lambda>e. eSeq e \<noteq> 0) rows))
    \<and> (((\<forall>i. \<not> compactionAt rows i) \<and> out = visibleEntries rows)
     \<or> (\<exists>l. compactionAt rows l \<and> (\<forall>i. compactionAt rows i \<longrightarrow> i \<le> l)
         \<and> ((\<exists>b. boundaryAt rows l b \<and> (\<forall>i c. boundaryAt rows i c \<longrightarrow> c \<le> b)
               \<and> out = compactionSummaryEntry (rows ! l) # visibleEntries (drop (Suc b) rows))
           \<or> (eRecordVersion (rows ! l) \<noteq> 1 \<and> (\<forall>i c. \<not> boundaryAt rows i c)
               \<and> out = compactionSummaryEntry (rows ! l) # visibleEntries (drop (Suc l) rows)))))"
  using project_versioned [OF assms] by blast

theorem projection_exact_witness:
  "\<exists>b. boundaryAt compactedRows 2 b
     \<and> projectSessionEntries compactedRows = Inr (compactionSummaryEntry sampleCompaction # visibleEntries (drop (Suc b) compactedRows))"
proof -
  have v: "sampleUser \<in> set compactedRows" "eRecordVersion sampleUser = 1"
    by (simp_all add: compactedRows_def sampleUser_def)
  have three: "compactionAt compactedRows i \<longleftrightarrow> i = 2" for i
  proof -
    have "i < 3 \<longleftrightarrow> i = 0 \<or> i = 1 \<or> i = 2" by auto
    then show ?thesis
      by (auto simp: compactionAt_def compactedRows_def sampleUser_def sampleReply_def sampleCompaction_def
          emptyEntry_def)
  qed
  have row: "compactedRows ! 2 = sampleCompaction" "eRecordVersion sampleCompaction = 1"
    by (simp_all add: compactedRows_def sampleCompaction_def)
  note P = projection_exact [OF compactedRows_project v]
  from P three row show ?thesis using compactedRows_project by auto
qed

text \<open>
  A projected history that the tool-group check accepts pairs calls and receipts: every
  call of an assistant row has its receipt, under the same tool name, before the next user or
  assistant row, and every receipt answers a call of the latest assistant row that has calls
  outstanding.
\<close>

theorem projected_groups_paired:
  assumes "validateProjectedToolGroups rows = Inr ()"
  shows "(\<forall>us a vs c. rows = us @ a # vs \<and> eType a = EntryTypeAssistant \<and> c \<in> set (eToolCalls a) \<longrightarrow>
      (\<exists>ws t zs. vs = ws @ t # zs \<and> receiptRow (callKey a c) t \<and> eToolName t = tcName c
        \<and> (\<forall>x \<in> set ws. \<not> turnRow x)))
    \<and> (\<forall>us t vs k. rows = us @ t # vs \<and> receiptRow k t \<longrightarrow> answers us k (eToolName t))"
  using groups_answered [OF assms] receipts_answer [OF assms] by blast

theorem projected_groups_paired_witness:
  "answers [sampleUser, sampleAssistant] (''r'', 1, ''c'') ''bash''"
proof -
  have ok: "validateProjectedToolGroups [sampleUser, sampleAssistant, sampleReceipt] = Inr ()" by code_simp
  have "receiptRow (''r'', 1, ''c'') sampleReceipt" "eToolName sampleReceipt = ''bash''"
    by (simp_all add: receiptRow_def sampleReceipt_def sampleAction_def emptyEntry_def)
  moreover have "[sampleUser, sampleAssistant, sampleReceipt] = [sampleUser, sampleAssistant] @ sampleReceipt # []"
    by simp
  ultimately show ?thesis
    using projected_groups_paired [OF ok, THEN conjunct2] by metis
qed

text \<open>
  The check of the journal tail tells a session whose last turn is still running from a
  broken one: once the rows themselves are accepted, it succeeds exactly when every version 1
  tool call has its receipt, and reports the open group exactly when some call has none. Only
  action, receipt and resolution rows stand between a call and its receipt.
\<close>

theorem tail_reports_open_group:
  assumes "analyzeDurableActionJournal rows sid = Inr plan"
    and "foldR (tailRow sid) emptyTail rows = Inr s"
  shows "validateToolCallJournalTail sid rows =
      (if \<exists>us a vs k name. rows = us @ a # vs \<and> opensCall sid k name a \<and> (\<forall>t \<in> set vs. \<not> closesCall sid k t)
       then Inl ErrUnclosedToolCallGroup else Inr ())
    \<and> (\<forall>us a vs k name. rows = us @ a # vs \<and> opensCall sid k name a \<and> (\<exists>t \<in> set vs. closesCall sid k t) \<longrightarrow>
      (\<exists>ws t zs. vs = ws @ t # zs \<and> closesCall sid k t \<and> eToolName t = name \<and> (\<forall>x \<in> set ws. insideGroup x)))"
proof -
  have v: "validateToolCallJournalTail sid rows = (if tsOpen s \<noteq> [] then Inl ErrUnclosedToolCallGroup else Inr ())"
    using assms by (simp add: validateToolCallJournalTail_def)
  have "tsOpen s \<noteq> [] \<longleftrightarrow> (\<exists>us a vs k name. rows = us @ a # vs \<and> opensCall sid k name a
      \<and> (\<forall>t \<in> set vs. \<not> closesCall sid k t))" (is "_ \<longleftrightarrow> ?open")
  proof
    assume "tsOpen s \<noteq> []"
    then have "map_of (tsOpen s) (fst (hd (tsOpen s))) = Some (snd (hd (tsOpen s)))"
      by (cases "tsOpen s") simp_all
    then obtain k name where "map_of (tsOpen s) k = Some name" by blast
    from tail_open_origin [OF assms(2) this] show ?open by blast
  next
    assume ?open
    then obtain us a vs k name where o: "rows = us @ a # vs" "opensCall sid k name a"
      "\<forall>t \<in> set vs. \<not> closesCall sid k t" by blast
    from tail_closed [OF assms(2) [unfolded o(1)] o(2)] o(3) have "map_of (tsOpen s) k = Some name" by auto
    then show "tsOpen s \<noteq> []" by auto
  qed
  moreover have "\<forall>us a vs k name. rows = us @ a # vs \<and> opensCall sid k name a \<and> (\<exists>t \<in> set vs. closesCall sid k t) \<longrightarrow>
      (\<exists>ws t zs. vs = ws @ t # zs \<and> closesCall sid k t \<and> eToolName t = name \<and> (\<forall>x \<in> set ws. insideGroup x))"
    using tail_closed assms(2) by blast
  ultimately show ?thesis using v by simp
qed

theorem tail_reports_open_group_witness:
  "validateToolCallJournalTail ''s'' [sampleUser, sampleAssistant, sampleIntent] = Inl ErrUnclosedToolCallGroup"
proof -
  let ?rows = "[sampleUser, sampleAssistant, sampleIntent]"
  have "map_sum id rpPending (analyzeDurableActionJournal ?rows ''s'') = Inr [sampleRef]" by code_simp
  then obtain plan where p: "analyzeDurableActionJournal ?rows ''s'' = Inr plan"
    by (cases "analyzeDurableActionJournal ?rows ''s''") auto
  have "map_sum id tsReceipted (foldR (tailRow ''s'') emptyTail ?rows) = Inr []" by code_simp
  then obtain s where s: "foldR (tailRow ''s'') emptyTail ?rows = Inr s"
    by (cases "foldR (tailRow ''s'') emptyTail ?rows") auto
  let ?k = "(''s'', ''r'', 1 :: u64, ''c'')"
  have "opensCall ''s'' ?k ''bash'' sampleAssistant"
    by (simp add: opensCall_def callNames_def sampleAssistant_def sampleCall_def emptyEntry_def)
  moreover have "\<not> closesCall ''s'' ?k sampleIntent"
    by (simp add: closesCall_def sampleIntent_def)
  ultimately have "\<exists>us a vs k name. ?rows = us @ a # vs \<and> opensCall ''s'' k name a
      \<and> (\<forall>t \<in> set vs. \<not> closesCall ''s'' k t)"
    by (intro exI [of _ "[sampleUser]"] exI [of _ sampleAssistant] exI [of _ "[sampleIntent]"]
        exI [of _ ?k] exI [of _ "''bash''"]) simp
  with tail_reports_open_group [OF p s] show ?thesis by simp
qed

text \<open>
  C32. A view that is handed out shows the branch and nothing else. Without a compaction row its
  messages are, in order and with the IDs of their rows, those of the visible user, assistant,
  system and receipt rows, field by field; otherwise the first message is the summary of the last
  compaction row and the messages of the rows after its source boundary follow. Every call of a
  version 1 assistant row has its receipt later on the branch, under the same run, ordinal, ID
  and tool name and with only rows of the same group between; and in the messages every named
  call of an assistant is answered by a tool message with nothing but tool and system messages
  between. No row gives two messages, and every version 1 row belongs to the session.
\<close>

theorem view_sound:
  assumes "SessionViewFromEntries sid bid rvn rows = Inr v"
  shows "exactMessages rows (zip (svMessages v) (svSourceEntryIDs v))
    \<and> length (svMessages v) = length (svSourceEntryIDs v) \<and> distinct (svSourceEntryIDs v)
    \<and> answeredCalls rows \<and> pairedMessages (svMessages v)
    \<and> svSessionID v = sid \<and> svBranchID v = bid \<and> svRevision v = rvn
    \<and> (\<forall>e \<in> set rows. eRecordVersion e = 1 \<longrightarrow> eSessionID e = sid)"
  using assms
proof (rule view_of_projection)
  fix out
  assume o: "validateToolCallJournalTail sid rows = Inr ()" "projectSessionEntries rows = Inr out"
    "validateProjectedToolGroups out = Inr ()" "zip (svMessages v) (svSourceEntryIDs v) = viewMessages out"
    "length (svMessages v) = length (svSourceEntryIDs v)"
  from o(4,5) have "svMessages v = map fst (viewMessages out)" by (metis map_fst_zip)
  with groups_messages [OF o(3) projection_tail [OF o(2)]] have "pairedMessages (svMessages v)" by simp
  moreover have "exactMessages rows (zip (svMessages v) (svSourceEntryIDs v))"
    unfolding o(4) by (rule projection_messages [OF o(2)])
  moreover note tail_answered [OF o(1)]
  moreover assume "svSessionID v = sid" "svBranchID v = bid" "svRevision v = rvn" "distinct (svSourceEntryIDs v)"
    "\<forall>e \<in> set rows. eRecordVersion e = 1 \<longrightarrow> eSessionID e = sid"
  ultimately show ?thesis using o(5) by simp
qed

theorem view_sound_witness:
  "\<exists>v. SessionViewFromEntries ''s'' ''main'' ''r'' closedRows = Inr v
    \<and> exactMessages closedRows (zip (svMessages v) (svSourceEntryIDs v)) \<and> pairedMessages (svMessages v)
    \<and> svSourceEntryIDs v = [''u'', ''a'', ''t'']"
proof -
  have "map_sum id svSourceEntryIDs (SessionViewFromEntries ''s'' ''main'' ''r'' closedRows) = Inr [''u'', ''a'', ''t'']"
    by code_simp
  then obtain v where v: "SessionViewFromEntries ''s'' ''main'' ''r'' closedRows = Inr v"
    "svSourceEntryIDs v = [''u'', ''a'', ''t'']"
    by (cases "SessionViewFromEntries ''s'' ''main'' ''r'' closedRows") auto
  from view_sound [OF v(1)] v show ?thesis by blast
qed

end
