(* ===== verification/DurableStore.thy ===== *)
theory DurableStore
  imports SessionView
begin

text \<open>
  The durable session store of \<open>internal/session/durable_jsonl.go\<close>: one file of JSON lines
  per physical session, the in-memory rows and cursors of an open handle, the append that
  writes a batch and acknowledges it only after a sync, and the reader that repairs a torn
  last line.

  A session directory maps file names to bytes. A write that fails after \<open>n\<close> bytes leaves
  those bytes in the file, so a later reader may find any prefix of a batch. The mutex of a
  store and the lock on its file make each operation one step.
\<close>

section \<open>Directory and store\<close>

record session_disk = world +
  dkFiles :: "(string \<times> string) list"
  dkTorn :: "string list"
  dkRandom :: "string list"

record durable_store =
  dsName :: string
  dsSessionID :: string
  dsSessionLabel :: string
  dsActiveBranchID :: string
  dsActiveLeafID :: string
  dsEntries :: entry_table
  dsAppendOrder :: "string list"
  dsMaxSeq :: u64
  dsView :: session_view
  dsPoisoned :: bool
  dsClosed :: bool

record prepared_snapshot =
  psSessionID :: string
  psSessionLabel :: string
  psDurableEntries :: "session_entry list"
  psActiveBranchID :: string
  psActiveLeafEntryID :: string
  psMaxSeq :: u64
  psPublishedView :: session_view

type_synonym open_store = "session_disk \<times> durable_store"

definition onDisk :: "(session_disk, 'a) op \<Rightarrow> (session_disk \<times> 's, 'a) op" where
  "onDisk m p = (case m (fst p) of (r, d) \<Rightarrow> (r, (d, snd p)))"

definition fileBytes :: "session_disk \<Rightarrow> string \<Rightarrow> string" where
  "fileBytes d name = (case map_of (dkFiles d) name of None \<Rightarrow> [] | Some b \<Rightarrow> b)"

definition setFile :: "string \<Rightarrow> string \<Rightarrow> session_disk \<Rightarrow> session_disk" where
  "setFile name b d = d \<lparr> dkFiles := (name, b) # dkFiles d \<rparr>"

text \<open>
  Writing bytes at the end of a file: a failing write has written the first \<open>n\<close> of them.
\<close>

definition appendBytes :: "string \<Rightarrow> string \<Rightarrow> (session_disk, unit) op" where
  "appendBytes name b d = (case takeIO d of
      (IoOk, d') \<Rightarrow> (Inr (), setFile name (fileBytes d' name @ b) d')
    | (IoFail n, d') \<Rightarrow> (Inl ErrIO, setFile name (fileBytes d' name @ take n b) d'))"

definition newDurableJSONLStore ::
  "string \<Rightarrow> string \<Rightarrow> string \<Rightarrow> string \<Rightarrow> entry_table \<Rightarrow> u64 \<Rightarrow> string list \<Rightarrow> durable_store" where
  "newDurableJSONLStore name sessionID label branchID entries maxSeq appendOrder =
     \<lparr> dsName = name, dsSessionID = sessionID, dsSessionLabel = label,
       dsActiveBranchID = (if branchID = [] then ''main'' else branchID), dsActiveLeafID = [],
       dsEntries = entries, dsAppendOrder = appendOrder, dsMaxSeq = maxSeq, dsView = emptyView,
       dsPoisoned = False, dsClosed = False \<rparr>"

section \<open>Payload digests\<close>

definition maxDurableJSONLineBytes :: nat where
  "maxDurableJSONLineBytes = 1048576"

definition canonicalEntryPayload ::
  "'h session_host_scheme \<Rightarrow> session_entry \<Rightarrow> go_error + string \<times> string" where
  "canonicalEntryPayload h e =
     (case shMarshalEntry h (e \<lparr> eSeq := 0, ePayloadDigest := [] \<rparr>) of
        None \<Rightarrow> Inl (Fault ''encode canonical entry payload'')
      | Some encoded \<Rightarrow>
          if maxDurableJSONLineBytes < length encoded then Inl (Fault ''serialized entry exceeds the line limit'')
          else Inr (encoded, ''sha256:'' @ hexEncode (shSha256 h encoded)))"

definition storedPayloadDigest :: "'h session_host_scheme \<Rightarrow> session_entry \<Rightarrow> go_error + string" where
  "storedPayloadDigest h e =
     (if ePayloadDigest e \<noteq> [] then Inr (ePayloadDigest e)
      else bindR (canonicalEntryPayload h e) (\<lambda>p. Inr (snd p)))"

section \<open>Appending a batch\<close>

text \<open>The row an input becomes: identity, label, branch, version and digest are filled in.\<close>

definition completeRow ::
  "'h session_host_scheme \<Rightarrow> durable_store \<Rightarrow> session_entry \<Rightarrow> go_error + session_entry" where
  "completeRow h s e =
     bindR (validateDurableEntryJSONValues e) (\<lambda>_.
       if eID e = [] \<or> eType e = EntryTypeEmpty then Inl (Fault ''durable entry requires ID and type'')
       else if \<not> validSessionEntryType (eType e) then Inl (Fault ''durable entry has unsupported type'')
       else if eSessionID e \<noteq> [] \<and> eSessionID e \<noteq> dsSessionID s
         then Inl (Fault ''entry belongs to a different physical session'')
       else
         let branch = (if eBranchID e = [] then dsActiveBranchID s else eBranchID e);
             row = e \<lparr> eSessionID := dsSessionID s,
               eSessionLabel := (if eSessionLabel e = [] then dsSessionLabel s else eSessionLabel e),
               eBranchID := (if branch = [] then ''main'' else branch),
               eRecordVersion := (if eRecordVersion e = 0 then 1 else eRecordVersion e) \<rparr>
         in if eRecordVersion row \<noteq> 1 then Inl (Fault ''writer cannot append this record version'')
            else bindR (canonicalEntryPayload h (row \<lparr> eSeq := 0 \<rparr>)) (\<lambda>p.
              if ePayloadDigest e \<noteq> [] \<and> ePayloadDigest e \<noteq> snd p
                then Inl (Fault ''entry carries a mismatched payload digest'')
              else let row' = row \<lparr> eSeq := 0, ePayloadDigest := snd p \<rparr>
                in bindR (validateVersion1EntryCoordinates row') (\<lambda>_. Inr row')))"

record append_stage =
  agAvailable :: entry_table
  agStaged :: entry_table
  agCanonical :: "session_entry list"
  agNewRows :: "session_entry list"
  agNextSeq :: u64

definition initialStage :: "durable_store \<Rightarrow> append_stage" where
  "initialStage s = \<lparr> agAvailable = dsEntries s, agStaged = [], agCanonical = [], agNewRows = [],
     agNextSeq = dsMaxSeq s \<rparr>"

text \<open>An input whose ID is already known is a retry and must carry the same content.\<close>

definition repeatRow ::
  "'h session_host_scheme \<Rightarrow> string \<Rightarrow> append_stage \<Rightarrow> session_entry \<Rightarrow> session_entry \<Rightarrow> go_error + append_stage" where
  "repeatRow h msg g previous row =
     (case storedPayloadDigest h previous of
        Inl _ \<Rightarrow> Inl (Fault msg)
      | Inr digest \<Rightarrow>
          if digest \<noteq> ePayloadDigest row then Inl (Fault msg)
          else Inr (g \<lparr> agCanonical := agCanonical g @ [previous] \<rparr>))"

definition newRow :: "append_stage \<Rightarrow> session_entry \<Rightarrow> go_error + append_stage" where
  "newRow g row =
     (if eParentID row \<noteq> [] \<and> map_of (agAvailable g) (eParentID row) = None
        then Inl (Fault ''entry references unknown parent'')
      else if eParentID row = [] \<and> agAvailable g \<noteq> []
        then Inl (Fault ''non-root entry has no parent'')
      else let row' = row \<lparr> eSeq := agNextSeq g + 1 \<rparr>
        in Inr \<lparr> agAvailable = (eID row, row') # agAvailable g,
                 agStaged = (eID row, row') # agStaged g,
                 agCanonical = agCanonical g @ [row'], agNewRows = agNewRows g @ [row'],
                 agNextSeq = agNextSeq g + 1 \<rparr>)"

definition stageRow ::
  "'h session_host_scheme \<Rightarrow> durable_store \<Rightarrow> append_stage \<Rightarrow> session_entry \<Rightarrow> go_error + append_stage" where
  "stageRow h s g e =
     bindR (completeRow h s e) (\<lambda>row.
       case map_of (agStaged g) (eID row) of
         Some previous \<Rightarrow> repeatRow h ''conflicting duplicate entry ID in batch'' g previous row
       | None \<Rightarrow> (case map_of (agAvailable g) (eID row) of
           Some previous \<Rightarrow> repeatRow h ''entry ID already exists with different content'' g previous row
         | None \<Rightarrow> newRow g row))"

text \<open>The active leaf and branch after the new rows.\<close>

definition nextLeaf :: "string \<Rightarrow> session_entry \<Rightarrow> string" where
  "nextLeaf leaf row =
     (if eCheckpointKind row = CheckpointActiveLeaf \<and> eActiveLeafEntryID row \<noteq> []
      then eActiveLeafEntryID row else eID row)"

definition checkPendingOnPath :: "recovery_plan \<Rightarrow> entry_table \<Rightarrow> string \<Rightarrow> go_error + unit" where
  "checkPendingOnPath plan available leaf =
     (if list_ex (\<lambda>occ. oRef occ \<in> set (rpPending plan)
           \<and> \<not> durableEntryOnPath available (eID (oAssistant occ)) leaf) (rpOccurrences plan)
      then Inl (Fault ''pending action occurrence is outside the active branch'') else Inr ())"

definition newline :: char where
  "newline = CHR 0x0A"

definition serializeRow :: "'h session_host_scheme \<Rightarrow> string \<Rightarrow> session_entry \<Rightarrow> go_error + string" where
  "serializeRow h batch row =
     (case shMarshalEntry h row of
        None \<Rightarrow> Inl (Fault ''serialize durable entry'')
      | Some encoded \<Rightarrow>
          if maxDurableJSONLineBytes < length encoded then Inl (Fault ''serialized entry exceeds the line limit'')
          else Inr (batch @ encoded @ [newline]))"

definition serializeBatch :: "'h session_host_scheme \<Rightarrow> session_entry list \<Rightarrow> go_error + string" where
  "serializeBatch h rows = foldR (serializeRow h) [] rows"

text \<open>
  What an append has decided before it touches the file: the staged rows, the cursors, the
  view to publish (none while a tool-call group is open) and the bytes to write.
\<close>

record append_decision =
  apStage :: append_stage
  apLeaf :: string
  apBranch :: string
  apView :: "session_view option"
  apBytes :: string

definition publishView :: "go_error + session_view \<Rightarrow> go_error + session_view option" where
  "publishView r = (case r of
      Inr v \<Rightarrow> Inr (Some v)
    | Inl err \<Rightarrow> if err = ErrUnclosedToolCallGroup then Inr None else Inl err)"

definition decideAppend ::
  "'h session_host_scheme \<Rightarrow> durable_store \<Rightarrow> append_stage \<Rightarrow> go_error + append_decision" where
  "decideAppend h s g =
     (let branchRows = entriesInSequence (dsEntries s) @ agNewRows g;
          leaf = foldl nextLeaf (dsActiveLeafID s) (agNewRows g);
          branch = foldl (\<lambda>_ row. eBranchID row) (dsActiveBranchID s) (agNewRows g) in
      bindR (validateDurableBranchJournal branchRows) (\<lambda>_.
      bindR (validateDurableTranscriptCoordinates branchRows) (\<lambda>_.
      bindR (analyzeDurableActionJournal branchRows (dsSessionID s)) (\<lambda>plan.
      bindR (checkPendingOnPath plan (agAvailable g) leaf) (\<lambda>_.
      bindR (orderedDurableBranch leaf (agAvailable g)) (\<lambda>branchEntries.
      bindR (publishView (durableSessionView h (dsSessionID s) branch (agNextSeq g) branchEntries)) (\<lambda>view.
      bindR (serializeBatch h (agNewRows g)) (\<lambda>bytes.
        Inr \<lparr> apStage = g, apLeaf = leaf, apBranch = branch, apView = view, apBytes = bytes \<rparr>))))))))"

text \<open>
  The file operations of an append: the buffered write, the flush and the sync. A failure of
  any of them poisons the store. Bytes that a successful write leaves in the buffer reach the
  file with the flush.
\<close>

definition poisonOn :: "(session_disk, unit) op \<Rightarrow> (open_store, unit) op" where
  "poisonOn m p = (case m (fst p) of
      (Inr u, d) \<Rightarrow> (Inr u, (d, snd p))
    | (Inl err, d) \<Rightarrow> (Inl err, (d, (snd p) \<lparr> dsPoisoned := True \<rparr>)))"

definition bufferedWrite :: "string \<Rightarrow> string \<Rightarrow> (session_disk, unit) op" where
  "bufferedWrite name b d = (case takeIO d of
      (IoOk, d') \<Rightarrow> (Inr (), d')
    | (IoFail n, d') \<Rightarrow> (Inl ErrIO, setFile name (fileBytes d' name @ take n b) d'))"

definition writeBatch :: "string \<Rightarrow> (open_store, unit) op" where
  "writeBatch b = bindS (\<lambda>p. (Inr (dsName (snd p)), p)) (\<lambda>name.
     bindS (poisonOn (bufferedWrite name b)) (\<lambda>_.
     bindS (poisonOn (appendBytes name b)) (\<lambda>_.
       poisonOn (ioStep ErrIO))))"

definition installAppend :: "append_decision \<Rightarrow> durable_store \<Rightarrow> durable_store" where
  "installAppend a s =
     s \<lparr> dsEntries := rev (map (\<lambda>r. (eID r, r)) (agNewRows (apStage a))) @ dsEntries s,
         dsAppendOrder := dsAppendOrder s @ map eID (agNewRows (apStage a)),
         dsMaxSeq := agNextSeq (apStage a), dsActiveLeafID := apLeaf a, dsActiveBranchID := apBranch a,
         dsView := (case apView a of None \<Rightarrow> dsView s | Some v \<Rightarrow> v) \<rparr>"

definition commitAppend :: "append_decision \<Rightarrow> (open_store, session_entry list) op" where
  "commitAppend a = bindS (writeBatch (apBytes a))
     (\<lambda>_ p. (Inr (agCanonical (apStage a)), (fst p, installAppend a (snd p))))"

definition appendAndSyncLocked ::
  "'h session_host_scheme \<Rightarrow> session_entry list \<Rightarrow> (open_store, session_entry list) op" where
  "appendAndSyncLocked h entries p =
     (if dsClosed (snd p) then (Inl ErrDurableWriterClosed, p)
      else if dsPoisoned (snd p) then (Inl ErrDurableWriterPoisoned, p)
      else bindS (onDisk contextErr) (\<lambda>_ q.
        if entries = [] then (Inr [], q)
        else bindS (liftR (foldR (stageRow h (snd q)) (initialStage (snd q)) entries)) (\<lambda>g.
          if agNewRows g = [] then okS (agCanonical g)
          else bindS (liftR (decideAppend h (snd q) g)) commitAppend) q) p)"

definition AppendAndSync ::
  "'h session_host_scheme \<Rightarrow> session_entry list \<Rightarrow> (open_store, session_entry list) op" where
  "AppendAndSync h entries = bindS (onDisk contextErr) (\<lambda>_. appendAndSyncLocked h entries)"

section \<open>Snapshots and closing\<close>

definition collectEntry ::
  "entry_table \<Rightarrow> string list \<times> session_entry list \<Rightarrow> string \<Rightarrow> go_error + string list \<times> session_entry list" where
  "collectEntry tab acc x =
     (if x \<in> set (fst acc) then Inl (Fault ''durable append order repeats entry'')
      else case map_of tab x of
        None \<Rightarrow> Inl (Fault ''durable append order references missing entry'')
      | Some e \<Rightarrow> Inr (x # fst acc, snd acc @ [e]))"

definition entryCount :: "entry_table \<Rightarrow> nat" where
  "entryCount tab = length (remdups (map fst tab))"

definition snapshotLocked :: "durable_store \<Rightarrow> go_error + prepared_snapshot" where
  "snapshotLocked s =
     (if dsClosed s then Inl ErrDurableWriterClosed
      else if dsPoisoned s then Inl ErrDurableWriterPoisoned
      else if length (dsAppendOrder s) \<noteq> entryCount (dsEntries s)
        then Inl (Fault ''durable append order has the wrong number of IDs'')
      else bindR (foldR (collectEntry (dsEntries s)) ([], []) (dsAppendOrder s)) (\<lambda>acc.
        Inr \<lparr> psSessionID = dsSessionID s, psSessionLabel = dsSessionLabel s,
              psDurableEntries = snd acc, psActiveBranchID = dsActiveBranchID s,
              psActiveLeafEntryID = dsActiveLeafID s, psMaxSeq = dsMaxSeq s,
              psPublishedView = dsView s \<rparr>))"

text \<open>
  Closing: the buffer is empty between operations, so its flush does nothing; unlocking and
  closing the file may fail, and the store is closed in either case.
\<close>

definition closeStore :: "(open_store, unit) op" where
  "closeStore p =
     (if dsClosed (snd p) then (Inr (), p)
      else case ioStep ErrIO (fst p) of
        (r1, d1) \<Rightarrow> (case ioStep ErrIO d1 of
          (r2, d2) \<Rightarrow> (if r1 = Inr () \<and> r2 = Inr () then Inr () else Inl ErrIO,
                       (d2, (snd p) \<lparr> dsClosed := True \<rparr>))))"

end
