(* ===== verification/DurableLoad.thy ===== *)
theory DurableLoad
  imports DurableStore
begin

text \<open>
  Opening a session file: reading the JSON lines with the repair of a torn last line, the
  check of every loaded row, finding the file of a session ID and creating a new session
  (\<open>internal/session/durable_jsonl.go\<close>).
\<close>

section \<open>Reading the file\<close>

definition splitLine :: "string \<Rightarrow> string \<times> string option" where
  "splitLine s =
     (let line = takeWhile (\<lambda>c. c \<noteq> newline) s in
      (line, if length line = length s then None else Some (drop (Suc (length line)) s)))"

lemma splitLine_rest: "splitLine s = (l, Some r) \<Longrightarrow> length r < length s"
proof -
  assume a: "splitLine s = (l, Some r)"
  then have "length (takeWhile (\<lambda>c. c \<noteq> newline) s) \<noteq> length s" "r = drop (Suc (length (takeWhile (\<lambda>c. c \<noteq> newline) s))) s"
    by (auto simp: splitLine_def Let_def split: if_splits)
  moreover have "length (takeWhile (\<lambda>c. c \<noteq> newline) s) \<le> length s" by (rule length_takeWhile_le)
  ultimately show ?thesis by simp
qed

definition decodeDurableEntry ::
  "'h session_host_scheme \<Rightarrow> string \<Rightarrow> decode_error + session_entry" where
  "decodeDurableEntry h line =
     (let trimmed = trimSpace line in
      if trimmed = [] \<or> hd trimmed \<noteq> CHR ''{'' then Inl (OtherDecode (Fault ''JSONL row must be an object''))
      else bindR (shUnmarshalEntry h trimmed) (\<lambda>e.
        if eID e = [] then Inl (OtherDecode (Fault ''durable entry ID is required''))
        else if eType e = EntryTypeEmpty then Inl (OtherDecode (Fault ''durable entry type is required''))
        else case validateVersion1EntryCoordinates e of
            Inl err \<Rightarrow> Inl (OtherDecode err)
          | Inr _ \<Rightarrow> Inr e))"

text \<open>The complete lines of the file and the bytes after the last newline.\<close>

function readComplete ::
  "'h session_host_scheme \<Rightarrow> string \<Rightarrow> go_error + session_entry list \<times> string" where
  "readComplete h s = (case splitLine s of
      (line, None) \<Rightarrow> Inr ([], line)
    | (line, Some rest) \<Rightarrow>
        if maxDurableJSONLineBytes < length line then Inl (Fault ''JSONL row exceeds the line limit'')
        else (case decodeDurableEntry h line of
            Inl _ \<Rightarrow> Inl (Fault ''decode JSONL row'')
          | Inr e \<Rightarrow> bindR (readComplete h rest) (\<lambda>r. Inr (e # fst r, snd r))))"
  by pat_completeness auto
termination
  by (relation "measure (\<lambda>(h, s). length s)") (auto dest: splitLine_rest [OF sym])

declare readComplete.simps [simp del]

text \<open>
  The torn suffix is copied to a sidecar file and synced before the source is cut. Creating
  the sidecar under a fresh random name is one file operation.
\<close>

definition quarantineTornSuffix :: "string \<Rightarrow> (session_disk, unit) op" where
  "quarantineTornSuffix torn = bindS (ioStep ErrIO) (\<lambda>_. bindS (ioStep ErrIO) (\<lambda>_ d.
     case takeIO d of
       (IoFail n, d') \<Rightarrow> (Inl ErrIO, d' \<lparr> dkTorn := dkTorn d' @ [take n torn] \<rparr>)
     | (IoOk, d') \<Rightarrow> bindS (ioStep ErrIO) (\<lambda>_. bindS (ioStep ErrIO) (\<lambda>_. ioStep ErrIO))
         (d' \<lparr> dkTorn := dkTorn d' @ [torn] \<rparr>)))"

definition truncateFile :: "string \<Rightarrow> nat \<Rightarrow> (session_disk, unit) op" where
  "truncateFile name n = bindS (ioStep ErrIO) (\<lambda>_ d. (Inr (), setFile name (take n (fileBytes d name)) d))"

text \<open>
  Reading changes nothing, so one step stands for all read failures. A final row without its
  newline is kept when it decodes, and cut off when it ends too early.
\<close>

definition repairTail ::
  "'h session_host_scheme \<Rightarrow> string \<Rightarrow> session_entry list \<Rightarrow> string \<Rightarrow> (session_disk, session_entry list) op" where
  "repairTail h name rows tail =
     (if tail = [] then okS rows
      else if maxDurableJSONLineBytes < length tail then failS (Fault ''JSONL row exceeds the line limit'')
      else case decodeDurableEntry h tail of
        Inr e \<Rightarrow> bindS (ioStep ErrIO) (\<lambda>_. bindS (appendBytes name [newline]) (\<lambda>_.
          bindS (ioStep ErrIO) (\<lambda>_. okS (rows @ [e]))))
      | Inl TruncatedJSON \<Rightarrow> bindS (quarantineTornSuffix tail) (\<lambda>_.
          bindS (\<lambda>d. truncateFile name (length (fileBytes d name) - length tail) d) (\<lambda>_.
          bindS (ioStep ErrIO) (\<lambda>_. okS rows)))
      | Inl (OtherDecode err) \<Rightarrow> failS err)"

definition readDurableJSONL ::
  "'h session_host_scheme \<Rightarrow> string \<Rightarrow> (session_disk, session_entry list) op" where
  "readDurableJSONL h name =
     bindS (ioStep ErrIO) (\<lambda>_ d. bindS (liftR (readComplete h (fileBytes d name)))
       (\<lambda>r. repairTail h name (fst r) (snd r)) d)"

section \<open>Checking the loaded rows\<close>

record load_scan =
  lsIndex :: entry_table
  lsMaxSeq :: u64
  lsLabel :: string
  lsBranch :: string
  lsLeaf :: string
  lsRootSeen :: bool

definition initialLoad :: load_scan where
  "initialLoad = \<lparr> lsIndex = [], lsMaxSeq = 0, lsLabel = [], lsBranch = ''main'', lsLeaf = [],
     lsRootSeen = False \<rparr>"

definition checkLoadedRow ::
  "'h session_host_scheme \<Rightarrow> string \<Rightarrow> load_scan \<Rightarrow> session_entry \<Rightarrow> go_error + unit" where
  "checkLoadedRow h sessionID s e =
     (if \<not> validSessionEntryType (eType e) then Inl (Fault ''row has unsupported entry type'')
      else if eSessionID e \<noteq> [] \<and> eSessionID e \<noteq> sessionID
        then Inl (Fault ''row belongs to another physical session'')
      else if eRecordVersion e = 1 \<and> (eSessionID e \<noteq> sessionID \<or> eBranchID e = [] \<or> eSeq e = 0 \<or> ePayloadDigest e = [])
        then Inl (Fault ''version 1 row lacks physical identity, branch, sequence, or payload digest'')
      else if map_of (lsIndex s) (eID e) \<noteq> None then Inl (Fault ''duplicate entry ID in durable file'')
      else if eParentID e = [] \<and> lsRootSeen s \<and> eRecordVersion e = 1
        then Inl (Fault ''version 1 row introduces a second root'')
      else if eParentID e \<noteq> [] \<and> map_of (lsIndex s) (eParentID e) = None
        then Inl (Fault ''row has missing or forward parent'')
      else if eSeq e \<noteq> 0 \<and> eSeq e \<le> lsMaxSeq s then Inl (Fault ''sequence is not increasing'')
      else if eSeq e = 0 \<and> lsMaxSeq s \<noteq> 0 then Inl (Fault ''row has missing sequence after sequenced data'')
      else if ePayloadDigest e \<noteq> [] then
        bindR (canonicalEntryPayload h e) (\<lambda>p.
          if snd p \<noteq> ePayloadDigest e then Inl (Fault ''row has mismatched payload digest'') else Inr ())
      else Inr ())"

definition loadRow ::
  "'h session_host_scheme \<Rightarrow> string \<Rightarrow> load_scan \<Rightarrow> session_entry \<Rightarrow> go_error + load_scan" where
  "loadRow h sessionID s e =
     bindR (checkLoadedRow h sessionID s e) (\<lambda>_.
       let leaf = (if eID e \<noteq> [] then eID e else lsLeaf s) in
       Inr \<lparr> lsIndex = (eID e, e) # lsIndex s,
             lsMaxSeq = (if eSeq e \<noteq> 0 then eSeq e else lsMaxSeq s),
             lsLabel = (if lsLabel s = [] \<and> eSessionLabel e \<noteq> [] then eSessionLabel e else lsLabel s),
             lsBranch = (if eBranchID e \<noteq> [] then eBranchID e else lsBranch s),
             lsLeaf = (if eCheckpointKind e = CheckpointActiveLeaf \<and> eActiveLeafEntryID e \<noteq> []
               then eActiveLeafEntryID e else leaf),
             lsRootSeen = (lsRootSeen s \<or> eParentID e = []) \<rparr>)"

definition loadRows ::
  "'h session_host_scheme \<Rightarrow> string \<Rightarrow> session_entry list \<Rightarrow> go_error + load_scan" where
  "loadRows h sessionID rows = foldR (loadRow h sessionID) initialLoad rows"

definition validateLoadedDurableEntries ::
  "'h session_host_scheme \<Rightarrow> session_entry list \<Rightarrow> string \<Rightarrow> go_error + load_scan" where
  "validateLoadedDurableEntries h entries sessionID =
     bindR (loadRows h sessionID entries) (\<lambda>s.
     bindR (validateDurableBranchJournal entries) (\<lambda>_.
     bindR (validateDurableTranscriptCoordinates entries) (\<lambda>_. Inr s)))"

section \<open>Session files\<close>

definition validPhysicalSessionID :: "string \<Rightarrow> bool" where
  "validPhysicalSessionID x \<longleftrightarrow>
     x \<noteq> [] \<and> length x \<le> 96 \<and> x \<noteq> ''.'' \<and> x \<noteq> ''..''
     \<and> list_all (\<lambda>c. isAlnum c \<or> c = CHR ''_'' \<or> c = CHR ''-'') x"

definition resolvePhysicalSessionFilename :: "session_disk \<Rightarrow> string \<Rightarrow> go_error + string" where
  "resolvePhysicalSessionFilename d x =
     (let direct = x @ ''.jsonl'' in
      if map_of (dkFiles d) direct \<noteq> None then Inr direct
      else bindR (findUnique (\<lambda>name. suffix (CHR ''-'' # x @ ''.jsonl'') name)
          (Fault ''physical session ID is ambiguous'') (remdups (map fst (dkFiles d)))) (\<lambda>m.
        case m of None \<Rightarrow> Inl (Fault ''file does not exist'') | Some name \<Rightarrow> Inr name))"

definition randomPhysicalSessionID :: "(session_disk, string) op" where
  "randomPhysicalSessionID d = (case dkRandom d of
      [] \<Rightarrow> (Inl (Fault ''generate physical session ID''), d)
    | r # rs \<Rightarrow> (Inr (''s_'' @ hexEncode r), d \<lparr> dkRandom := rs \<rparr>))"

text \<open>Removing the new file on a failed preparation may itself fail, which is ignored.\<close>

definition removeOnError :: "string \<Rightarrow> (session_disk, 'a) op \<Rightarrow> (session_disk, 'a) op" where
  "removeOnError name m d = (case m d of
      (Inr x, d') \<Rightarrow> (Inr x, d')
    | (Inl err, d') \<Rightarrow> (case takeIO d' of
        (IoOk, d'') \<Rightarrow> (Inl err, d'' \<lparr> dkFiles := filter (\<lambda>f. fst f \<noteq> name) (dkFiles d'') \<rparr>)
      | (IoFail n, d'') \<Rightarrow> (Inl err, d'')))"

definition openNewSession :: "string \<Rightarrow> string \<Rightarrow> (session_disk, durable_store) op" where
  "openNewSession label sessionID =
     (let name = sessionID @ ''.jsonl'' in
      bindS (ioStep ErrIO) (\<lambda>_ d.
        bindS (removeOnError name
            (bindS (ioStep ErrIO) (\<lambda>_. bindS (ioStep ErrIO) (\<lambda>_. ioStep ErrIO))))
          (\<lambda>_. okS ((newDurableJSONLStore name sessionID label ''main'' [] 0 [])
            \<lparr> dsView := emptyView \<lparr> svSessionID := sessionID, svBranchID := ''main'' \<rparr> \<rparr>))
        (setFile name [] d)))"

fun allocateSession :: "string \<Rightarrow> nat \<Rightarrow> (session_disk, durable_store) op" where
  "allocateSession label 0 d = failS (Fault ''unable to allocate unique physical session ID'') d"
| "allocateSession label (Suc n) d =
     bindS randomPhysicalSessionID (\<lambda>x d1.
       if map_of (dkFiles d1) (x @ ''.jsonl'') \<noteq> None then allocateSession label n d1
       else openNewSession label x d1) d"

definition PrepareNew :: "string \<Rightarrow> string \<Rightarrow> (session_disk, durable_store) op" where
  "PrepareNew directory label =
     bindS contextErr (\<lambda>_.
       if directory = [] then failS (Fault ''durable session directory is required'')
       else bindS (ioStep ErrIO) (\<lambda>_. allocateSession label 8))"

end
