(* ===== verification/DurableLoadFacts.thy ===== *)
theory DurableLoadFacts
  imports DurableLoad "HOL-Library.Code_Target_Nat"
begin

text \<open>
  Facts about the reader and the loader of a session file: what the reader returns for the
  lines an append writes, for any prefix of them that a failed write left behind, and how the
  checks of the loader behave on prefixes and extensions of a file.
\<close>

section \<open>Encoded rows\<close>

text \<open>
  What the store relies on in the JSON codec, for one row: its encoding is an object on one
  line, decodes to the row, and every shorter beginning of it is reported as truncated.
\<close>

definition roundTrips :: "'h session_host_scheme \<Rightarrow> session_entry \<Rightarrow> bool" where
  "roundTrips h e \<longleftrightarrow> (\<forall>s. shMarshalEntry h e = Some s \<longrightarrow>
     s \<noteq> [] \<and> hd s = CHR ''{'' \<and> last s = CHR ''}'' \<and> newline \<notin> set s \<and> shUnmarshalEntry h s = Inr e
     \<and> (\<forall>p. strict_prefix p s \<and> p \<noteq> [] \<longrightarrow> shUnmarshalEntry h p = Inl TruncatedJSON))"

lemma trimPrefixes_suffix: "suffix (trimPrefixes rs s) s"
proof (induction rs s rule: trimPrefixes.induct)
  case (1 rs s)
  show ?case
  proof (cases "find (\<lambda>r. r \<noteq> [] \<and> prefix r s) rs")
    case None
    then show ?thesis by (subst trimPrefixes.simps) simp
  next
    case (Some r)
    have "suffix (trimPrefixes rs (drop (length r) s)) (drop (length r) s)" by (rule "1.IH" [OF Some])
    then have "suffix (trimPrefixes rs (drop (length r) s)) s"
      using suffix_drop suffix_order.trans by blast
    with Some show ?thesis by (subst trimPrefixes.simps) simp
  qed
qed

lemma trimPrefixes_keep:
  assumes "\<forall>r \<in> set rs. r = [] \<or> hd r \<noteq> c"
  shows "trimPrefixes rs (c # s) = c # s"
proof -
  have "find (\<lambda>r. r \<noteq> [] \<and> prefix r (c # s)) rs = None"
    using assms by (auto simp: find_None_iff prefix_def) (metis hd_Cons_tl list.inject append_Cons)
  then show ?thesis by (subst trimPrefixes.simps) simp
qed

lemma spaceRunes_brace:
  "\<forall>r \<in> set spaceRunes. r = [] \<or> hd r \<noteq> CHR ''{''"
  "\<forall>r \<in> set (map rev spaceRunes). r = [] \<or> hd r \<noteq> CHR ''}''"
  by code_simp+

lemma trimSpace_object:
  "trimSpace (CHR ''{'' # s) = rev (trimPrefixes (map rev spaceRunes) (rev (CHR ''{'' # s)))"
  by (simp only: trimSpace_def trimPrefixes_keep [OF spaceRunes_brace(1)])

lemma trimSpace_closed:
  assumes "s \<noteq> []" "hd s = CHR ''{''" "last s = CHR ''}''"
  shows "trimSpace s = s"
proof -
  obtain t where t: "s = CHR ''{'' # t" using assms(1,2) by (cases s) auto
  have "rev s \<noteq> []" "hd (rev s) = CHR ''}''" using assms(1,3) by (simp_all add: hd_rev)
  then obtain u where "rev s = CHR ''}'' # u" by (cases "rev s") auto
  then have "trimPrefixes (map rev spaceRunes) (rev s) = rev s"
    by (simp only: trimPrefixes_keep [OF spaceRunes_brace(2)])
  then show ?thesis using trimSpace_object [of t] unfolding t by simp
qed

lemma trimSpace_prefix:
  assumes "s \<noteq> []" "hd s = CHR ''{''"
  shows "prefix (trimSpace s) s"
proof -
  obtain t where t: "s = CHR ''{'' # t" using assms by (cases s) auto
  have "suffix (trimPrefixes (map rev spaceRunes) (rev s)) (rev s)" by (rule trimPrefixes_suffix)
  then have "prefix (rev (trimPrefixes (map rev spaceRunes) (rev s))) s"
    by (simp add: suffix_to_prefix)
  then show ?thesis using trimSpace_object [of t] unfolding t by simp
qed

text \<open>A row the reader can meet in a file the store wrote.\<close>

definition readableRow :: "session_entry \<Rightarrow> bool" where
  "readableRow e \<longleftrightarrow> eID e \<noteq> [] \<and> eType e \<noteq> EntryTypeEmpty \<and> validateVersion1EntryCoordinates e = Inr ()"

lemma decode_encoded:
  assumes "roundTrips h e" "shMarshalEntry h e = Some s" "readableRow e" "s \<noteq> []"
  shows "decodeDurableEntry h s = Inr e"
proof -
  have "hd s = CHR ''{''" "last s = CHR ''}''" "shUnmarshalEntry h s = Inr e"
    using assms(1,2) by (auto simp: roundTrips_def)
  with assms(3,4) show ?thesis
    by (simp add: decodeDurableEntry_def trimSpace_closed readableRow_def)
qed

lemma trimSpace_object_ne: "trimSpace (CHR ''{'' # s) \<noteq> [] \<and> hd (trimSpace (CHR ''{'' # s)) = CHR ''{''"
  if "\<forall>r \<in> set spaceRunes. CHR ''{'' \<notin> set r" for s
proof -
  have keep: "last x = CHR ''{'' \<Longrightarrow> x \<noteq> [] \<Longrightarrow>
      trimPrefixes (map rev spaceRunes) x \<noteq> [] \<and> last (trimPrefixes (map rev spaceRunes) x) = CHR ''{''" for x
  proof (induction "map rev spaceRunes" x rule: trimPrefixes.induct)
    case (1 x)
    show ?case
    proof (cases "find (\<lambda>r. r \<noteq> [] \<and> prefix r x) (map rev spaceRunes)")
      case None
      with "1.prems" show ?thesis by (subst (1 2) trimPrefixes.simps) simp
    next
      case (Some r)
      then have r: "r \<in> set (map rev spaceRunes)" "prefix r x" by (auto simp: find_Some_iff)
      then have "CHR ''{'' \<notin> set r" using that by auto
      moreover from r(2) obtain y where y: "x = r @ y" by (auto simp: prefix_def)
      ultimately have "y \<noteq> []" using "1.prems" by (metis append_Nil2 last_in_set)
      with y "1.prems" have "last (drop (length r) x) = CHR ''{''" "drop (length r) x \<noteq> []" by simp_all
      from "1.hyps" [OF Some this] Some show ?thesis by (subst (1 2) trimPrefixes.simps) simp
    qed
  qed
  have "trimPrefixes (map rev spaceRunes) (rev (CHR ''{'' # s)) \<noteq> []
      \<and> last (trimPrefixes (map rev spaceRunes) (rev (CHR ''{'' # s))) = CHR ''{''"
    by (rule keep) simp_all
  then show ?thesis unfolding trimSpace_object by (simp add: hd_rev)
qed

lemma decode_torn:
  assumes "roundTrips h e" "shMarshalEntry h e = Some s" "strict_prefix p s" "p \<noteq> []"
  shows "decodeDurableEntry h p = Inl TruncatedJSON"
proof -
  have s: "hd s = CHR ''{''" and torn: "\<And>p. strict_prefix p s \<Longrightarrow> p \<noteq> [] \<Longrightarrow> shUnmarshalEntry h p = Inl TruncatedJSON"
    using assms(1,2) by (auto simp: roundTrips_def)
  from assms(3,4) s have p: "hd p = CHR ''{''" by (cases p; cases s) (auto simp: strict_prefix_def)
  then obtain t where t: "p = CHR ''{'' # t" using assms(4) by (cases p) auto
  have runes: "\<forall>r \<in> set spaceRunes. CHR ''{'' \<notin> set r" by code_simp
  have ne: "trimSpace p \<noteq> []" "hd (trimSpace p) = CHR ''{''"
    using trimSpace_object_ne [OF runes, of t] unfolding t by blast+
  have "strict_prefix (trimSpace p) s"
    by (rule prefix_order.le_less_trans [OF trimSpace_prefix [OF assms(4) p] assms(3)])
  from torn [OF this ne(1)] ne show ?thesis by (simp add: decodeDurableEntry_def)
qed

section \<open>Reading lines\<close>

lemma splitLine_line: "newline \<notin> set l \<Longrightarrow> splitLine (l @ newline # rest) = (l, Some rest)"
proof -
  assume l: "newline \<notin> set l"
  have "takeWhile (\<lambda>c. c \<noteq> newline) (l @ newline # rest) = l"
    using l by (subst takeWhile_append2) auto
  then show ?thesis by (simp add: splitLine_def Let_def)
qed

lemma splitLine_last: "newline \<notin> set l \<Longrightarrow> splitLine l = (l, None)"
proof -
  assume l: "newline \<notin> set l"
  have tw: "takeWhile (\<lambda>c. c \<noteq> newline) l = l" using l by (auto simp: takeWhile_eq_all_conv)
  show ?thesis by (simp only: splitLine_def Let_def tw) simp
qed

lemma splitLine_cases:
  obtains (last) "splitLine s = (s, None)" "newline \<notin> set s"
  | (line) l rest where "splitLine s = (l, Some rest)" "s = l @ newline # rest" "newline \<notin> set l"
proof (cases "newline \<in> set s")
  case True
  then obtain l rest where "s = l @ newline # rest" "newline \<notin> set l" by (meson split_list_first)
  with line splitLine_line show ?thesis by blast
next
  case False
  with last splitLine_last show ?thesis by blast
qed

lemma readComplete_append:
  assumes "readComplete h b = Inr (rows, [])"
  shows "readComplete h (b @ c) = bindR (readComplete h c) (\<lambda>r. Inr (rows @ fst r, snd r))"
  using assms
proof (induction h b arbitrary: rows rule: readComplete.induct)
  case (1 h b)
  show ?case
  proof (cases rule: splitLine_cases [of b])
    case last
    with "1.prems" have "b = []" "rows = []" by (subst (asm) readComplete.simps, simp)+
    then show ?thesis by (cases "readComplete h c") auto
  next
    case (line l rest)
    with "1.prems" obtain e rows' where e: "\<not> maxDurableJSONLineBytes < length l" "decodeDurableEntry h l = Inr e"
      "readComplete h rest = Inr (rows', [])" "rows = e # rows'"
      by (subst (asm) readComplete.simps) (auto simp: bindR_eq_Inr split: if_splits sum.splits)
    have IH: "readComplete h (rest @ c) = bindR (readComplete h c) (\<lambda>r. Inr (rows' @ fst r, snd r))"
      by (rule "1.IH" [OF line(1) [symmetric] refl e(1,2,3)])
    have "splitLine (b @ c) = (l, Some (rest @ c))"
      using splitLine_line [OF line(3), of "rest @ c"] line(2) by simp
    then show ?thesis
      using e IH by (subst readComplete.simps) (cases "readComplete h c"; simp)
  qed
qed

lemma readComplete_Nil [simp]: "readComplete h [] = Inr ([], [])"
  by (subst readComplete.simps) (simp add: splitLine_def)

lemma readComplete_line:
  assumes "newline \<notin> set l" "length l \<le> maxDurableJSONLineBytes" "decodeDurableEntry h l = Inr e"
  shows "readComplete h (l @ newline # rest) = bindR (readComplete h rest) (\<lambda>r. Inr (e # fst r, snd r))"
  using assms by (subst readComplete.simps) (simp add: splitLine_line)

lemma readComplete_tail: "newline \<notin> set t \<Longrightarrow> readComplete h t = Inr ([], t)"
  by (subst readComplete.simps) (simp add: splitLine_last)

section \<open>The bytes of a batch\<close>

definition rowLine :: "'h session_host_scheme \<Rightarrow> session_entry \<Rightarrow> string" where
  "rowLine h e = the (shMarshalEntry h e) @ [newline]"

lemma serializeBatch_bytes:
  assumes "serializeBatch h rows = Inr b"
  shows "b = concat (map (rowLine h) rows)"
    "\<forall>e \<in> set rows. \<exists>s. shMarshalEntry h e = Some s \<and> length s \<le> maxDurableJSONLineBytes"
proof -
  have "foldR (serializeRow h) acc rows = Inr b \<Longrightarrow> b = acc @ concat (map (rowLine h) rows)
      \<and> (\<forall>e \<in> set rows. \<exists>s. shMarshalEntry h e = Some s \<and> length s \<le> maxDurableJSONLineBytes)" for acc
  proof (induction rows arbitrary: acc)
    case (Cons e rows)
    from Cons.prems obtain acc' where a: "serializeRow h acc e = Inr acc'" "foldR (serializeRow h) acc' rows = Inr b"
      by (rule foldR_cons)
    from a(1) obtain s where s: "shMarshalEntry h e = Some s" "length s \<le> maxDurableJSONLineBytes"
      and acc': "acc' = acc @ s @ [newline]"
      by (auto simp: serializeRow_def not_less split: option.splits if_splits)
    note s = s a(2) [unfolded acc']
    from Cons.IH [OF s(3)] s(1,2) show ?case by (simp add: rowLine_def)
  qed simp
  from this [of "[]"] assms show "b = concat (map (rowLine h) rows)"
    "\<forall>e \<in> set rows. \<exists>s. shMarshalEntry h e = Some s \<and> length s \<le> maxDurableJSONLineBytes"
    by (simp_all add: serializeBatch_def)
qed

definition encodable :: "'h session_host_scheme \<Rightarrow> session_entry \<Rightarrow> bool" where
  "encodable h e \<longleftrightarrow> roundTrips h e \<and> readableRow e
     \<and> (\<exists>s. shMarshalEntry h e = Some s \<and> length s \<le> maxDurableJSONLineBytes)"

lemma encodable_line:
  assumes "encodable h e"
  obtains s where "rowLine h e = s @ [newline]" "s \<noteq> []" "newline \<notin> set s"
    "length s \<le> maxDurableJSONLineBytes" "decodeDurableEntry h s = Inr e" "shMarshalEntry h e = Some s"
proof -
  from assms obtain s where "shMarshalEntry h e = Some s" "length s \<le> maxDurableJSONLineBytes"
    and r: "roundTrips h e" "readableRow e" by (auto simp: encodable_def)
  moreover from calculation have "newline \<notin> set s" "s \<noteq> []" by (auto simp: roundTrips_def)
  ultimately have s: "shMarshalEntry h e = Some s" "s \<noteq> []" "length s \<le> maxDurableJSONLineBytes" "newline \<notin> set s"
    by blast+
  with that s decode_encoded [OF r(1) s(1) r(2) s(2)] show thesis by (simp add: rowLine_def)
qed

lemma readComplete_batch:
  assumes "\<forall>e \<in> set rows. encodable h e"
  shows "readComplete h (concat (map (rowLine h) rows) @ c) = bindR (readComplete h c) (\<lambda>r. Inr (rows @ fst r, snd r))"
  using assms
proof (induction rows)
  case Nil
  then show ?case by (cases "readComplete h c") auto
next
  case (Cons e rows)
  obtain s where s: "rowLine h e = s @ [newline]" "newline \<notin> set s" "length s \<le> maxDurableJSONLineBytes"
    "decodeDurableEntry h s = Inr e" using Cons.prems encodable_line [of h e] by (metis list.set_intros(1))
  from Cons show ?case
    by (cases "readComplete h c") (simp_all add: s(1) readComplete_line [OF s(2-4)])
qed

text \<open>What any prefix of a batch looks like to the reader.\<close>

definition tornTail :: "'h session_host_scheme \<Rightarrow> session_entry list \<Rightarrow> string \<Rightarrow> bool" where
  "tornTail h rest t \<longleftrightarrow> t = [] \<or> length t \<le> maxDurableJSONLineBytes \<and>
     (decodeDurableEntry h t = Inl TruncatedJSON \<or> (\<exists>e rest'. rest = e # rest' \<and> decodeDurableEntry h t = Inr e))"

lemma readComplete_torn:
  assumes "\<forall>e \<in> set rows. encodable h e"
  shows "\<exists>k t. k \<le> length rows \<and> readComplete h (take n (concat (map (rowLine h) rows))) = Inr (take k rows, t)
    \<and> tornTail h (drop k rows) t"
  using assms
proof (induction rows arbitrary: n)
  case Nil
  then show ?case by (simp add: tornTail_def)
next
  case (Cons e rows)
  obtain s where s: "rowLine h e = s @ [newline]" "s \<noteq> []" "newline \<notin> set s" "length s \<le> maxDurableJSONLineBytes"
    "decodeDurableEntry h s = Inr e" "shMarshalEntry h e = Some s"
    using Cons.prems encodable_line [of h e] by (metis list.set_intros(1))
  show ?case
  proof (cases "n \<le> length s")
    case True
    then have tk: "take n (concat (map (rowLine h) (e # rows))) = take n s" by (simp add: s(1))
    have "newline \<notin> set (take n s)" using s(3) by (meson in_set_takeD)
    then have r: "readComplete h (take n s) = Inr ([], take n s)" by (rule readComplete_tail)
    have rt: "roundTrips h e" using Cons.prems by (auto simp: encodable_def)
    have "tornTail h (e # rows) (take n s)"
    proof (cases "take n s = [] \<or> n = length s")
      case True
      with s show ?thesis by (auto simp: tornTail_def)
    next
      case False
      with \<open>n \<le> length s\<close> have "strict_prefix (take n s) s"
        by (metis order_le_less prefix_order.less_le take_is_prefix take_all_iff not_le)
      with False decode_torn [OF rt s(6)] s(4) show ?thesis by (auto simp: tornTail_def)
    qed
    with tk r show ?thesis by (intro exI [of _ 0] exI [of _ "take n s"]) simp
  next
    case False
    let ?m = "n - length s - 1"
    have tk: "take n (concat (map (rowLine h) (e # rows)))
        = s @ newline # take ?m (concat (map (rowLine h) rows))"
      using False by (simp add: s(1) take_Cons')
    from Cons obtain k t where "k \<le> length rows"
      "readComplete h (take ?m (concat (map (rowLine h) rows))) = Inr (take k rows, t)"
      "tornTail h (drop k rows) t" by (metis list.set_intros(2))
    with tk readComplete_line [OF s(3-5)] show ?thesis
      by (intro exI [of _ "Suc k"] exI [of _ t]) simp
  qed
qed

text \<open>The complete lines and the tail make up the file.\<close>

lemma readComplete_parts:
  assumes "readComplete h b = Inr (rows, t)"
  obtains c where "b = c @ t" "readComplete h c = Inr (rows, [])" "newline \<notin> set t"
proof -
  have "\<exists>c. b = c @ t \<and> readComplete h c = Inr (rows, []) \<and> newline \<notin> set t"
    using assms
  proof (induction h b arbitrary: rows rule: readComplete.induct)
    case (1 h b)
    show ?case
    proof (cases rule: splitLine_cases [of b])
      case last
      with "1.prems" have "rows = []" "t = b" by (subst (asm) readComplete.simps, simp)+
      with last show ?thesis by simp
    next
      case (line l rest)
      with "1.prems" obtain e rows' where e: "\<not> maxDurableJSONLineBytes < length l" "decodeDurableEntry h l = Inr e"
        "readComplete h rest = Inr (rows', t)" "rows = e # rows'"
        by (subst (asm) readComplete.simps) (auto simp: bindR_eq_Inr split: if_splits sum.splits)
      from "1.IH" [OF line(1) [symmetric] refl e(1-3)] obtain c where c: "rest = c @ t"
        "readComplete h c = Inr (rows', [])" "newline \<notin> set t" by blast
      have "readComplete h (l @ newline # c) = Inr (rows, [])"
        using readComplete_line [OF line(3) _ e(2), of c] e(1,4) c(2) by simp
      with line(2) c show ?thesis by (intro exI [of _ "l @ newline # c"]) simp
    qed
  qed
  with that show thesis by blast
qed

end
