(* ===== verification/DurableStoreFacts.thy ===== *)
theory DurableStoreFacts
  imports DurableLoadFacts
begin

text \<open>
  Facts about the append of the durable store: what it stages, when the loader accepts what it
  wrote, and what each outcome leaves in memory and in the file.
\<close>

section \<open>The loader\<close>

text \<open>The load state the rows of a file determine, when the loader accepts them.\<close>

lemma loadRow_Inr:
  "loadRow h sid s e = Inr s' \<longleftrightarrow> checkLoadedRow h sid s e = Inr () \<and>
     s' = \<lparr> lsIndex = (eID e, e) # lsIndex s, lsMaxSeq = (if eSeq e \<noteq> 0 then eSeq e else lsMaxSeq s),
        lsLabel = (if lsLabel s = [] \<and> eSessionLabel e \<noteq> [] then eSessionLabel e else lsLabel s),
        lsBranch = (if eBranchID e \<noteq> [] then eBranchID e else lsBranch s),
        lsLeaf = (if eCheckpointKind e = CheckpointActiveLeaf \<and> eActiveLeafEntryID e \<noteq> []
          then eActiveLeafEntryID e else if eID e \<noteq> [] then eID e else lsLeaf s),
        lsRootSeen = (lsRootSeen s \<or> eParentID e = []) \<rparr>"
  by (auto simp: loadRow_def bindR_eq_Inr Let_def)

definition loadInv :: "session_entry list \<Rightarrow> load_scan \<Rightarrow> bool" where
  "loadInv rows s \<longleftrightarrow> lsIndex s = tableOf rows \<and> distinct (map eID rows)
     \<and> sorted (map eSeq rows) \<and> (\<forall>e \<in> set rows. eSeq e \<le> lsMaxSeq s)
     \<and> (lsRootSeen s \<longrightarrow> rows \<noteq> [])
     \<and> (\<forall>e \<in> set rows. eRecordVersion e = 1 \<longrightarrow> eSeq e \<noteq> 0)"

lemma loadRow_inv:
  assumes I: "loadInv rows s" and step: "loadRow h sid s e = Inr s'"
  shows "loadInv (rows @ [e]) s'"
proof -
  have ix: "lsIndex s = tableOf rows" and d: "distinct (map eID rows)" and srt: "sorted (map eSeq rows)"
    and le: "\<forall>e \<in> set rows. eSeq e \<le> lsMaxSeq s" and v: "\<forall>e \<in> set rows. eRecordVersion e = 1 \<longrightarrow> eSeq e \<noteq> 0"
    using I unfolding loadInv_def by blast+
  from step have c: "checkLoadedRow h sid s e = Inr ()" and s': "lsIndex s' = (eID e, e) # lsIndex s"
    "lsMaxSeq s' = (if eSeq e \<noteq> 0 then eSeq e else lsMaxSeq s)"
    unfolding loadRow_Inr by simp_all
  from c have n: "map_of (lsIndex s) (eID e) = None" and q: "eSeq e \<noteq> 0 \<longrightarrow> lsMaxSeq s < eSeq e"
    "eSeq e = 0 \<longrightarrow> lsMaxSeq s = 0" "eRecordVersion e = 1 \<longrightarrow> eSeq e \<noteq> 0"
    by (auto simp: checkLoadedRow_def not_le split: if_splits)
  have new: "eID e \<notin> eID ` set rows" using n unfolding ix tableOf_None .
  have below: "eSeq x \<le> eSeq e" if "x \<in> set rows" for x
    using le that q by (cases "eSeq e = 0") (auto intro: order_trans less_imp_le)
  have top: "eSeq x \<le> lsMaxSeq s'" if "x \<in> set rows \<or> x = e" for x
    using le that q below by (auto simp: s'(2))
  show ?thesis
    unfolding loadInv_def using ix d srt v new below top q(3)
    by (auto simp: s'(1) tableOf_def sorted_append)
qed

lemma loadRows_inv:
  assumes "loadRows h sid rows = Inr s"
  shows "loadInv rows s"
  using assms unfolding loadRows_def
proof (rule foldR_prefix_invariant)
  show "loadInv [] initialLoad" by (simp add: loadInv_def initialLoad_def tableOf_def)
qed (rule loadRow_inv)

text \<open>A file is accepted row by row, so every shorter file is accepted as well.\<close>

definition accepted :: "'h session_host_scheme \<Rightarrow> string \<Rightarrow> session_entry list \<Rightarrow> load_scan \<Rightarrow> bool" where
  "accepted h sid rows s \<longleftrightarrow> validateLoadedDurableEntries h rows sid = Inr s"

lemma accepted_iff:
  "accepted h sid rows s \<longleftrightarrow> loadRows h sid rows = Inr s
     \<and> validateDurableBranchJournal rows = Inr () \<and> validateDurableTranscriptCoordinates rows = Inr ()"
  by (auto simp: accepted_def validateLoadedDurableEntries_def bindR_eq_Inr)

lemma branchJournal_prefix:
  "validateDurableBranchJournal (us @ vs) = Inr () \<Longrightarrow> validateDurableBranchJournal us = Inr ()"
  by (auto simp: validateDurableBranchJournal_def branchJournal_def foldR_append bindR_def split: sum.splits)

lemma transcript_prefix:
  "validateDurableTranscriptCoordinates (us @ vs) = Inr () \<Longrightarrow> validateDurableTranscriptCoordinates us = Inr ()"
  by (auto simp: validateDurableTranscriptCoordinates_def foldR_append bindR_def split: sum.splits)

lemma accepted_prefix:
  assumes "accepted h sid (us @ vs) s"
  obtains s' where "accepted h sid us s'"
proof -
  from assms obtain s' where "loadRows h sid us = Inr s'"
    by (auto simp: accepted_iff loadRows_def foldR_append bindR_eq_Inr)
  with that assms show thesis using branchJournal_prefix transcript_prefix by (auto simp: accepted_iff)
qed

lemma accepted_take: "accepted h sid rows s \<Longrightarrow> \<exists>s'. accepted h sid (take k rows) s'"
  using accepted_prefix [of h sid "take k rows" "drop k rows" s] by (metis append_take_drop_id)

section \<open>Staging\<close>

lemma canonicalEntryPayload_frame [simp]:
  "canonicalEntryPayload h (e \<lparr> eSeq := n \<rparr>) = canonicalEntryPayload h e"
  "canonicalEntryPayload h (e \<lparr> ePayloadDigest := p \<rparr>) = canonicalEntryPayload h e"
  by (simp_all add: canonicalEntryPayload_def)

lemma validateVersion1_frame [simp]:
  "validateVersion1EntryCoordinates (e \<lparr> eSeq := n \<rparr>) = validateVersion1EntryCoordinates e"
  by (cases e) (simp only: session_entry.simps validateVersion1EntryCoordinates_def validateIntentCoordinates_def
      validateExecutionCoordinates_def validateCheckpointCoordinates_def)

lemma canonical_digest: "canonicalEntryPayload h e = Inr p \<Longrightarrow> snd p \<noteq> []"
  by (auto simp: canonicalEntryPayload_def split: option.splits if_splits)

text \<open>A completed row has everything the loader asks of it, except its sequence.\<close>

definition completedRow :: "'h session_host_scheme \<Rightarrow> string \<Rightarrow> session_entry \<Rightarrow> bool" where
  "completedRow h sid row \<longleftrightarrow> eID row \<noteq> [] \<and> eType row \<noteq> EntryTypeEmpty \<and> validSessionEntryType (eType row)
     \<and> eSessionID row = sid \<and> eBranchID row \<noteq> [] \<and> eRecordVersion row = 1
     \<and> validateVersion1EntryCoordinates row = Inr ()
     \<and> (\<exists>enc. canonicalEntryPayload h row = Inr (enc, ePayloadDigest row)) \<and> ePayloadDigest row \<noteq> []"

lemma completedRow_frame [simp]: "completedRow h sid (row \<lparr> eSeq := n \<rparr>) = completedRow h sid row"
  by (simp add: completedRow_def)

lemma completeRow_Inr:
  assumes "completeRow h s e = Inr row"
  shows "completedRow h (dsSessionID s) row" "eID row = eID e" "eParentID row = eParentID e" "eSeq row = 0"
    "ePayloadDigest e \<noteq> [] \<longrightarrow> ePayloadDigest row = ePayloadDigest e"
proof -
  define base where "base = e \<lparr> eSessionID := dsSessionID s,
      eSessionLabel := (if eSessionLabel e = [] then dsSessionLabel s else eSessionLabel e),
      eBranchID := (if (if eBranchID e = [] then dsActiveBranchID s else eBranchID e) = [] then ''main''
        else (if eBranchID e = [] then dsActiveBranchID s else eBranchID e)),
      eRecordVersion := (if eRecordVersion e = 0 then 1 else eRecordVersion e) \<rparr>"
  from assms obtain p where c: "eID e \<noteq> []" "eType e \<noteq> EntryTypeEmpty" "validSessionEntryType (eType e)"
    "eRecordVersion base = 1" "canonicalEntryPayload h base = Inr p"
    "ePayloadDigest e \<noteq> [] \<longrightarrow> ePayloadDigest e = snd p"
    "row = base \<lparr> eSeq := 0, ePayloadDigest := snd p \<rparr>" "validateVersion1EntryCoordinates row = Inr ()"
    unfolding completeRow_def base_def [symmetric] Let_def
    by (auto simp: bindR_eq_Inr split: if_split_asm)
  show "completedRow h (dsSessionID s) row"
    unfolding completedRow_def using c canonical_digest [OF c(5)]
    by (cases p) (simp_all add: base_def)
  show "eID row = eID e" "eParentID row = eParentID e" "eSeq row = 0"
    "ePayloadDigest e \<noteq> [] \<longrightarrow> ePayloadDigest row = ePayloadDigest e"
    using c(6,7) by (auto simp: base_def)
qed

text \<open>The invariant of a store: its memory is what the loader computes from its rows.\<close>

definition memoryOf :: "'h session_host_scheme \<Rightarrow> durable_store \<Rightarrow> session_entry list \<Rightarrow> load_scan \<Rightarrow> bool" where
  "memoryOf h s rows ls \<longleftrightarrow> dsEntries s = tableOf rows \<and> dsAppendOrder s = map eID rows
     \<and> accepted h (dsSessionID s) rows ls \<and> dsMaxSeq s = lsMaxSeq ls
     \<and> dsActiveLeafID s = lsLeaf ls \<and> dsActiveBranchID s = lsBranch ls"

definition stageInv ::
  "'h session_host_scheme \<Rightarrow> durable_store \<Rightarrow> session_entry list \<Rightarrow> session_entry list \<Rightarrow> append_stage \<Rightarrow> bool" where
  "stageInv h s rows ins g \<longleftrightarrow>
     agAvailable g = tableOf (rows @ agNewRows g) \<and> agStaged g = tableOf (agNewRows g)
     \<and> (\<exists>ls. loadRows h (dsSessionID s) (rows @ agNewRows g) = Inr ls \<and> lsMaxSeq ls = agNextSeq g
          \<and> lsLeaf ls = foldl nextLeaf (dsActiveLeafID s) (agNewRows g)
          \<and> lsBranch ls = foldl (\<lambda>_ r. eBranchID r) (dsActiveBranchID s) (agNewRows g))
     \<and> unat (agNextSeq g) = unat (dsMaxSeq s) + length (agNewRows g)
     \<and> length (agNewRows g) \<le> length ins
     \<and> length (agCanonical g) = length ins
     \<and> (\<forall>i < length ins. agCanonical g ! i \<in> set (rows @ agNewRows g) \<and> eID (agCanonical g ! i) = eID (ins ! i)
          \<and> (\<exists>row. completeRow h s (ins ! i) = Inr row \<and> storedPayloadDigest h (agCanonical g ! i) = Inr (ePayloadDigest row)))
     \<and> (\<forall>r \<in> set (agNewRows g). completedRow h (dsSessionID s) r)"

lemma stageInv_canonical:
  assumes I: "stageInv h s rows ins g" and "c \<in> set (rows @ agNewRows g)" "eID c = eID e"
    and "completeRow h s e = Inr row" "storedPayloadDigest h c = Inr (ePayloadDigest row)"
  shows "stageInv h s rows (ins @ [e]) (g \<lparr> agCanonical := agCanonical g @ [c] \<rparr>)"
proof -
  have len: "length (agCanonical g) = length ins" using I by (simp add: stageInv_def)
  show ?thesis
    using I assms(2-) unfolding stageInv_def
    by (auto simp: nth_append len less_Suc_eq)
qed

lemma repeatRow_inv:
  assumes I: "stageInv h s rows ins g" and row: "completeRow h s e = Inr row"
    and prev: "previous \<in> set (rows @ agNewRows g)" "eID previous = eID row"
    and step: "repeatRow h msg g previous row = Inr g'"
  shows "stageInv h s rows (ins @ [e]) g'"
proof -
  from step have d: "storedPayloadDigest h previous = Inr (ePayloadDigest row)"
    and g': "g' = g \<lparr> agCanonical := agCanonical g @ [previous] \<rparr>"
    by (auto simp: repeatRow_def split: sum.splits if_splits)
  show ?thesis unfolding g'
    by (rule stageInv_canonical [OF I prev(1) _ row d]) (simp add: prev(2) completeRow_Inr(2) [OF row])
qed

lemma tableOf_snoc: "tableOf (rows @ [e]) = (eID e, e) # tableOf rows"
  by (simp add: tableOf_def)

lemma tableOf_append: "tableOf (us @ vs) = tableOf vs @ tableOf us"
  by (simp add: tableOf_def)

lemma newRow_inv:
  assumes I: "stageInv h s rows ins g" and row: "completeRow h s e = Inr row"
    and fresh: "map_of (agAvailable g) (eID row) = None" and step: "newRow g row = Inr g'"
    and room: "unat (dsMaxSeq s) + length (ins @ [e]) < 2 ^ 64"
  shows "stageInv h s rows (ins @ [e]) g'"
proof -
  define row' where "row' = row \<lparr> eSeq := agNextSeq g + 1 \<rparr>"
  from step have par: "eParentID row \<noteq> [] \<longrightarrow> map_of (agAvailable g) (eParentID row) \<noteq> None"
    "eParentID row = [] \<longrightarrow> agAvailable g = []"
    and g': "g' = \<lparr> agAvailable = (eID row, row') # agAvailable g, agStaged = (eID row, row') # agStaged g,
                 agCanonical = agCanonical g @ [row'], agNewRows = agNewRows g @ [row'],
                 agNextSeq = agNextSeq g + 1 \<rparr>"
    by (auto simp: newRow_def Let_def row'_def split: if_splits)
  have av: "agAvailable g = tableOf (rows @ agNewRows g)" and st: "agStaged g = tableOf (agNewRows g)"
    and cnt: "unat (agNextSeq g) = unat (dsMaxSeq s) + length (agNewRows g)"
    and le: "length (agNewRows g) \<le> length ins" and len: "length (agCanonical g) = length ins"
    and can: "\<forall>i < length ins. agCanonical g ! i \<in> set (rows @ agNewRows g) \<and> eID (agCanonical g ! i) = eID (ins ! i)
          \<and> (\<exists>row. completeRow h s (ins ! i) = Inr row \<and> storedPayloadDigest h (agCanonical g ! i) = Inr (ePayloadDigest row))"
    and comp: "\<forall>r \<in> set (agNewRows g). completedRow h (dsSessionID s) r"
    using I unfolding stageInv_def by blast+
  from I obtain ls where ls: "loadRows h (dsSessionID s) (rows @ agNewRows g) = Inr ls" "lsMaxSeq ls = agNextSeq g"
    "lsLeaf ls = foldl nextLeaf (dsActiveLeafID s) (agNewRows g)"
    "lsBranch ls = foldl (\<lambda>_ r. eBranchID r) (dsActiveBranchID s) (agNewRows g)"
    unfolding stageInv_def by blast
  note L = loadRows_inv [OF ls(1), unfolded loadInv_def]
  have "unat (agNextSeq g) + 1 < 2 ^ 64" using cnt le room by simp
  then have suc: "unat (agNextSeq g + 1) = unat (agNextSeq g) + 1" by (simp add: unat_word_ariths)
  then have gt: "agNextSeq g < agNextSeq g + 1" by (simp add: word_less_nat_alt)
  then have gt: "agNextSeq g < agNextSeq g + 1" "agNextSeq g + 1 \<noteq> 0" by auto
  have C: "completedRow h (dsSessionID s) row'" using completeRow_Inr(1) [OF row] by (simp add: row'_def)
  have ids: "eID row' = eID row" "eParentID row' = eParentID row" "eSeq row' = agNextSeq g + 1"
    "ePayloadDigest row' = ePayloadDigest row" by (simp_all add: row'_def)
  have ix: "lsIndex ls = agAvailable g" using L av by simp
  have "lsRootSeen ls \<longrightarrow> agAvailable g \<noteq> []" using L av by (auto simp: tableOf_def)
  with par C fresh gt ix ls(2) have "checkLoadedRow h (dsSessionID s) ls row' = Inr ()"
    unfolding checkLoadedRow_def completedRow_def by (auto simp: ids)
  then obtain ls' where step': "loadRow h (dsSessionID s) ls row' = Inr ls'" by (simp add: loadRow_Inr)
  then have "lsMaxSeq ls' = agNextSeq g + 1" "lsLeaf ls' = nextLeaf (lsLeaf ls) row'"
    "lsBranch ls' = eBranchID row'"
    using C gt unfolding loadRow_Inr by (auto simp: ids nextLeaf_def completedRow_def)
  moreover have "loadRows h (dsSessionID s) (rows @ agNewRows g @ [row']) = Inr ls'"
    using ls(1) step' by (simp add: loadRows_def foldR_snoc flip: append_assoc)
  ultimately have load: "\<exists>ls. loadRows h (dsSessionID s) (rows @ agNewRows g') = Inr ls \<and> lsMaxSeq ls = agNextSeq g'
      \<and> lsLeaf ls = foldl nextLeaf (dsActiveLeafID s) (agNewRows g')
      \<and> lsBranch ls = foldl (\<lambda>_ r. eBranchID r) (dsActiveBranchID s) (agNewRows g')"
    using ls by (simp add: g')
  have dig: "storedPayloadDigest h row' = Inr (ePayloadDigest row)"
    using C ids(4) by (simp add: storedPayloadDigest_def completedRow_def)
  show ?thesis
    unfolding stageInv_def
  proof (intro conjI)
    show "agAvailable g' = tableOf (rows @ agNewRows g')"
      by (simp add: g' av ids(1) tableOf_snoc flip: append_assoc)
    show "agStaged g' = tableOf (agNewRows g')" by (simp add: g' st ids(1) tableOf_snoc)
    show "unat (agNextSeq g') = unat (dsMaxSeq s) + length (agNewRows g')" by (simp add: g' suc cnt)
    show "length (agNewRows g') \<le> length (ins @ [e])" by (simp add: g' le)
    show "length (agCanonical g') = length (ins @ [e])" by (simp add: g' len)
    show "\<forall>i < length (ins @ [e]). agCanonical g' ! i \<in> set (rows @ agNewRows g')
        \<and> eID (agCanonical g' ! i) = eID ((ins @ [e]) ! i)
        \<and> (\<exists>row. completeRow h s ((ins @ [e]) ! i) = Inr row
            \<and> storedPayloadDigest h (agCanonical g' ! i) = Inr (ePayloadDigest row))"
    proof (intro allI impI)
      fix i assume "i < length (ins @ [e])"
      then consider "i < length ins" | "i = length ins" by fastforce
      then show "agCanonical g' ! i \<in> set (rows @ agNewRows g') \<and> eID (agCanonical g' ! i) = eID ((ins @ [e]) ! i)
        \<and> (\<exists>row. completeRow h s ((ins @ [e]) ! i) = Inr row
            \<and> storedPayloadDigest h (agCanonical g' ! i) = Inr (ePayloadDigest row))"
      proof cases
        case 1
        with can show ?thesis by (auto simp: g' nth_append len)
      next
        case 2
        with row dig show ?thesis by (simp add: g' nth_append len ids(1) completeRow_Inr(2) [OF row])
      qed
    qed
    show "\<forall>r \<in> set (agNewRows g'). completedRow h (dsSessionID s) r" using comp C by (simp add: g')
  qed (rule load)
qed

lemma stageRow_inv:
  assumes I: "stageInv h s rows ins g" and step: "stageRow h s g e = Inr g'"
    and room: "unat (dsMaxSeq s) + length (ins @ [e]) < 2 ^ 64"
  shows "stageInv h s rows (ins @ [e]) g'"
proof -
  from step obtain row where row: "completeRow h s e = Inr row" by (auto simp: stageRow_def bindR_eq_Inr)
  have av: "agAvailable g = tableOf (rows @ agNewRows g)" and st: "agStaged g = tableOf (agNewRows g)"
    using I by (simp_all add: stageInv_def)
  show ?thesis
  proof (cases "map_of (agStaged g) (eID row)")
    case (Some previous)
    with step row have "repeatRow h ''conflicting duplicate entry ID in batch'' g previous row = Inr g'"
      by (simp add: stageRow_def)
    moreover from tableOf_SomeD [OF Some [unfolded st]] have "previous \<in> set (rows @ agNewRows g)"
      "eID previous = eID row" by auto
    ultimately show ?thesis using repeatRow_inv [OF I row] by blast
  next
    case None
    show ?thesis
    proof (cases "map_of (agAvailable g) (eID row)")
      case (Some previous)
      with None step row have "repeatRow h ''entry ID already exists with different content'' g previous row = Inr g'"
        by (simp add: stageRow_def)
      with tableOf_SomeD [OF Some [unfolded av]] show ?thesis using repeatRow_inv [OF I row] by blast
    next
      case fresh: None
      with None step row have "newRow g row = Inr g'" by (simp add: stageRow_def)
      from newRow_inv [OF I row fresh this room] show ?thesis .
    qed
  qed
qed

lemma stage_inv:
  assumes M: "memoryOf h s rows ls" and run: "foldR (stageRow h s) (initialStage s) ins = Inr g"
    and room: "unat (dsMaxSeq s) + length ins < 2 ^ 64"
  shows "stageInv h s rows ins g"
proof (rule foldR_prefix_invariant [where I = "stageInv h s rows", OF run])
  show "stageInv h s rows [] (initialStage s)"
    using M by (simp add: stageInv_def initialStage_def memoryOf_def accepted_iff tableOf_def)
  fix ys x zs t t'
  assume "ins = ys @ x # zs" "stageInv h s rows ys t" "stageRow h s t x = Inr t'"
  with room show "stageInv h s rows (ys @ [x]) t'" by (intro stageRow_inv) auto
qed

text \<open>The sequence numbers of a batch, whatever its length.\<close>

definition numbered :: "durable_store \<Rightarrow> append_stage \<Rightarrow> bool" where
  "numbered s g \<longleftrightarrow> agNextSeq g = dsMaxSeq s + of_nat (length (agNewRows g))
     \<and> map eSeq (agNewRows g) = map (\<lambda>i. dsMaxSeq s + of_nat (Suc i)) [0..<length (agNewRows g)]"

lemma stageRow_cases:
  assumes "stageRow h s g e = Inr g'"
  shows "(\<exists>c. g' = g \<lparr> agCanonical := agCanonical g @ [c] \<rparr>) \<or> (\<exists>row. newRow g row = Inr g')"
proof -
  have rep: "\<exists>c. g' = g \<lparr> agCanonical := agCanonical g @ [c] \<rparr>" if "repeatRow h msg g previous row = Inr g'" for msg previous row
    using that by (auto simp: repeatRow_def split: sum.splits if_splits)
  from assms obtain row where step: "(case map_of (agStaged g) (eID row) of
         Some previous \<Rightarrow> repeatRow h ''conflicting duplicate entry ID in batch'' g previous row
       | None \<Rightarrow> (case map_of (agAvailable g) (eID row) of
           Some previous \<Rightarrow> repeatRow h ''entry ID already exists with different content'' g previous row
         | None \<Rightarrow> newRow g row)) = Inr g'"
    by (auto simp: stageRow_def bindR_eq_Inr)
  then show ?thesis using rep by (cases "map_of (agStaged g) (eID row)"; cases "map_of (agAvailable g) (eID row)") auto
qed

lemma stageRow_numbered:
  assumes "numbered s g" "stageRow h s g e = Inr g'"
  shows "numbered s g'"
proof -
  from stageRow_cases [OF assms(2)] show ?thesis
  proof
    assume "\<exists>c. g' = g \<lparr> agCanonical := agCanonical g @ [c] \<rparr>"
    with assms(1) show ?thesis by (auto simp: numbered_def)
  next
    assume "\<exists>row. newRow g row = Inr g'"
    with assms(1) show ?thesis by (auto simp: newRow_def numbered_def Let_def split: if_splits)
  qed
qed

lemma stage_numbered:
  assumes "foldR (stageRow h s) (initialStage s) ins = Inr g"
  shows "numbered s g"
proof (rule foldR_invariant [OF assms])
  show "numbered s (initialStage s)" by (simp add: numbered_def initialStage_def)
qed (rule stageRow_numbered)

section \<open>Writing a batch\<close>

definition sameFiles :: "session_disk \<Rightarrow> session_disk \<Rightarrow> bool" where
  "sameFiles d d' \<longleftrightarrow> dkFiles d' = dkFiles d"

lemma sameFiles_bytes: "sameFiles d d' \<Longrightarrow> fileBytes d' n = fileBytes d n"
  by (simp add: sameFiles_def fileBytes_def)

lemma sameFiles_trans: "sameFiles a b \<Longrightarrow> sameFiles b c \<Longrightarrow> sameFiles a c"
  by (simp add: sameFiles_def)

lemma sameFiles_refl [simp]: "sameFiles d d"
  by (simp add: sameFiles_def)

lemma contextErr_files: "contextErr d = (r, d') \<Longrightarrow> sameFiles d d'"
  by (auto simp: contextErr_def sameFiles_def split: option.splits nat.splits)

lemma takeIO_files: "takeIO d = (x, d') \<Longrightarrow> sameFiles d d'"
  by (auto simp: takeIO_def sameFiles_def split: list.splits)

lemma ioStep_files: "ioStep err d = (r, d') \<Longrightarrow> sameFiles d d'"
  by (auto simp: ioStep_def dest: takeIO_files split: prod.splits io_outcome.splits)

lemma ioStep_error: "ioStep err d = (Inl e, d') \<Longrightarrow> e = err"
  by (auto simp: ioStep_def split: prod.splits io_outcome.splits)

lemma fileBytes_setFile: "fileBytes (setFile name b d) n = (if n = name then b else fileBytes d n)"
  by (simp add: fileBytes_def setFile_def)

text \<open>A file grows by some bytes and every other file stays as it was.\<close>

definition grows :: "session_disk \<Rightarrow> string \<Rightarrow> string \<Rightarrow> session_disk \<Rightarrow> bool" where
  "grows d name b d' \<longleftrightarrow> fileBytes d' name = fileBytes d name @ b \<and> (\<forall>n. n \<noteq> name \<longrightarrow> fileBytes d' n = fileBytes d n)"

lemma grows_same: "sameFiles d d' \<Longrightarrow> grows d name [] d'"
  by (simp add: grows_def sameFiles_bytes)

lemma grows_then: "grows d name b d' \<Longrightarrow> sameFiles d' d'' \<Longrightarrow> grows d name b d''"
  by (simp add: grows_def sameFiles_bytes)

lemma same_grows: "sameFiles d d' \<Longrightarrow> grows d' name b d'' \<Longrightarrow> grows d name b d''"
  by (simp add: grows_def sameFiles_bytes)

lemma appendBytes_outcome:
  assumes "appendBytes name b d = (r, d')"
  shows "(r = Inr () \<and> grows d name b d') \<or> (\<exists>n. r = Inl ErrIO \<and> grows d name (take n b) d')"
  using assms takeIO_files [of d]
  by (auto simp: appendBytes_def grows_def fileBytes_setFile sameFiles_bytes split: prod.splits io_outcome.splits)

lemma bufferedWrite_outcome:
  assumes "bufferedWrite name b d = (r, d')"
  shows "(r = Inr () \<and> sameFiles d d') \<or> (\<exists>n. r = Inl ErrIO \<and> grows d name (take n b) d')"
  using assms takeIO_files [of d]
  by (auto simp: bufferedWrite_def grows_def fileBytes_setFile sameFiles_bytes split: prod.splits io_outcome.splits)

lemma writeBatch_outcome:
  assumes "writeBatch b (d, s) = (r, (d', s'))"
  shows "(r = Inr () \<and> s' = s \<and> grows d (dsName s) b d')
    \<or> (\<exists>n. r = Inl ErrIO \<and> s' = s \<lparr> dsPoisoned := True \<rparr> \<and> grows d (dsName s) (take n b) d')"
proof -
  obtain r1 d1 where w: "bufferedWrite (dsName s) b d = (r1, d1)" by force
  obtain r2 d2 where a: "appendBytes (dsName s) b d1 = (r2, d2)" by force
  obtain r3 d3 where i: "ioStep ErrIO d2 = (r3, d3)" by force
  note W = bufferedWrite_outcome [OF w] and A = appendBytes_outcome [OF a]
  note I = ioStep_files [OF i]
  show ?thesis
  proof (cases r1)
    case (Inl e)
    with assms w W show ?thesis by (auto simp: writeBatch_def bindS_def poisonOn_def)
  next
    case r1: (Inr u)
    with W have same: "sameFiles d d1" by auto
    show ?thesis
    proof (cases r2)
      case (Inl e)
      with r1 assms w a A show ?thesis
        by (auto simp: writeBatch_def bindS_def poisonOn_def intro: same_grows [OF same])
    next
      case r2: (Inr u')
      with A have g: "grows d (dsName s) b d3" using same_grows [OF same] grows_then I by auto
      show ?thesis
      proof (cases r3)
        case (Inl e)
        with ioStep_error i have "e = ErrIO" by blast
        with r1 r2 Inl assms w a i g show ?thesis
          by (auto simp: writeBatch_def bindS_def poisonOn_def intro!: exI [of _ "length b"])
      next
        case (Inr u'')
        with r1 r2 assms w a i g show ?thesis
          by (auto simp: writeBatch_def bindS_def poisonOn_def)
      qed
    qed
  qed
qed

section \<open>Outcomes of an append\<close>

lemma publishView_Inr:
  "publishView r = Inr x \<longleftrightarrow> (case x of Some v \<Rightarrow> r = Inr v | None \<Rightarrow> r = Inl ErrUnclosedToolCallGroup)"
  by (auto simp: publishView_def split: sum.splits option.splits)

lemma decideAppend_Inr:
  assumes "decideAppend h s g = Inr a"
  shows "apStage a = g" "apLeaf a = foldl nextLeaf (dsActiveLeafID s) (agNewRows g)"
    "apBranch a = foldl (\<lambda>_ row. eBranchID row) (dsActiveBranchID s) (agNewRows g)"
    "validateDurableBranchJournal (entriesInSequence (dsEntries s) @ agNewRows g) = Inr ()"
    "validateDurableTranscriptCoordinates (entriesInSequence (dsEntries s) @ agNewRows g) = Inr ()"
    "\<exists>plan. analyzeDurableActionJournal (entriesInSequence (dsEntries s) @ agNewRows g) (dsSessionID s) = Inr plan
       \<and> checkPendingOnPath plan (agAvailable g) (apLeaf a) = Inr ()"
    "\<exists>rows. orderedDurableBranch (apLeaf a) (agAvailable g) = Inr rows
       \<and> publishView (durableSessionView h (dsSessionID s) (apBranch a) (agNextSeq g) rows) = Inr (apView a)"
    "serializeBatch h (agNewRows g) = Inr (apBytes a)"
  using assms by (auto simp: decideAppend_def Let_def bindR_eq_Inr)

definition stagedBy ::
  "'h session_host_scheme \<Rightarrow> durable_store \<Rightarrow> session_entry list \<Rightarrow> append_stage \<Rightarrow> bool" where
  "stagedBy h s ins g \<longleftrightarrow> foldR (stageRow h s) (initialStage s) ins = Inr g"

lemma appendAndSyncLocked_outcome:
  assumes "appendAndSyncLocked h ins (d, s) = (r, (d', s'))"
  obtains (rejected) err where "r = Inl err" "s' = s" "sameFiles d d'"
  | (empty) "r = Inr []" "s' = s" "sameFiles d d'" "ins = []" "\<not> dsClosed s" "\<not> dsPoisoned s"
  | (repeated) g where "stagedBy h s ins g" "agNewRows g = []" "r = Inr (agCanonical g)" "s' = s" "sameFiles d d'"
      "\<not> dsClosed s" "\<not> dsPoisoned s"
  | (written) g a where "stagedBy h s ins g" "agNewRows g \<noteq> []" "decideAppend h s g = Inr a"
      "r = Inr (agCanonical g)" "s' = installAppend a s" "grows d (dsName s) (apBytes a) d'"
      "\<not> dsClosed s" "\<not> dsPoisoned s"
  | (torn) g a n where "stagedBy h s ins g" "agNewRows g \<noteq> []" "decideAppend h s g = Inr a"
      "r = Inl ErrIO" "s' = s \<lparr> dsPoisoned := True \<rparr>" "grows d (dsName s) (take n (apBytes a)) d'"
      "\<not> dsClosed s" "\<not> dsPoisoned s"
proof (cases "dsClosed s \<or> dsPoisoned s")
  case True
  with assms have "\<exists>err. r = Inl err \<and> s' = s \<and> d' = d"
    unfolding appendAndSyncLocked_def by (auto split: if_split_asm)
  with rejected show thesis by auto
next
  case False
  then have opn: "\<not> dsClosed s" "\<not> dsPoisoned s" by auto
  obtain rc dc where c: "contextErr d = (rc, dc)" by force
  note same = contextErr_files [OF c]
  show thesis
  proof (cases rc)
    case (Inl e)
    with assms c opn same rejected show thesis by (auto simp: appendAndSyncLocked_def bindS_def onDisk_def)
  next
    case (Inr u)
    show thesis
    proof (cases "ins = []")
      case True
      with Inr assms c opn same empty show thesis by (auto simp: appendAndSyncLocked_def bindS_def onDisk_def)
    next
      case ins: False
      show thesis
      proof (cases "foldR (stageRow h s) (initialStage s) ins")
        case (Inl e)
        with Inr ins assms c opn same rejected show thesis
          by (auto simp: appendAndSyncLocked_def bindS_def onDisk_def)
      next
        case g: (Inr g)
        then have st: "stagedBy h s ins g" by (simp add: stagedBy_def)
        show thesis
        proof (cases "agNewRows g = []")
          case True
          with g Inr ins assms c opn same repeated [OF st True] show thesis
            by (auto simp: appendAndSyncLocked_def bindS_def onDisk_def)
        next
          case new: False
          show thesis
          proof (cases "decideAppend h s g")
            case (Inl e)
            with new g Inr ins assms c opn same rejected show thesis
              by (auto simp: appendAndSyncLocked_def bindS_def onDisk_def)
          next
            case a: (Inr a)
            obtain rw dw sw where w: "writeBatch (apBytes a) (dc, s) = (rw, (dw, sw))" by (metis prod.collapse)
            from assms opn c Inr ins g new a w
            have res: "(r, (d', s')) = (case rw of Inl e \<Rightarrow> (Inl e, (dw, sw))
                | Inr _ \<Rightarrow> (Inr (agCanonical (apStage a)), (dw, installAppend a sw)))"
              by (auto simp: appendAndSyncLocked_def bindS_def onDisk_def commitAppend_def split: sum.splits)
            from writeBatch_outcome [OF w] show thesis
            proof (elim disjE exE conjE)
              assume "rw = Inr ()" "sw = s" "grows dc (dsName s) (apBytes a) dw"
              with res decideAppend_Inr(1) [OF a] same_grows [OF same] written [OF st new a] opn
              show thesis by auto
            next
              fix n assume "rw = Inl ErrIO" "sw = s \<lparr>dsPoisoned := True\<rparr>" "grows dc (dsName s) (take n (apBytes a)) dw"
              with res same_grows [OF same] torn [OF st new a] opn show thesis by auto
            qed
          qed
        qed
      qed
    qed
  qed
qed

section \<open>What the file holds\<close>

text \<open>
  The file holds the rows, then maybe more rows of a batch that was not acknowledged, then
  maybe the torn beginning of its next row; the loader would accept the whole batch.
\<close>

definition fileInv :: "'h session_host_scheme \<Rightarrow> string \<Rightarrow> session_entry list \<Rightarrow> string \<Rightarrow> bool" where
  "fileInv h sid rows b \<longleftrightarrow> (\<exists>extra torn rest ls. readComplete h b = Inr (rows @ extra, torn)
     \<and> accepted h sid (rows @ extra @ rest) ls \<and> tornTail h rest torn)"

text \<open>
  An open store with its rows: its memory is what the loader computes from them and, unless a
  write has failed, its file holds exactly them.
\<close>

definition holds :: "'h session_host_scheme \<Rightarrow> open_store \<Rightarrow> session_entry list \<Rightarrow> bool" where
  "holds h p rows \<longleftrightarrow> (\<exists>ls. memoryOf h (snd p) rows ls)
     \<and> fileInv h (dsSessionID (snd p)) rows (fileBytes (fst p) (dsName (snd p)))
     \<and> (\<not> dsPoisoned (snd p) \<longrightarrow> readComplete h (fileBytes (fst p) (dsName (snd p))) = Inr (rows, []))"

lemma memoryOf_sequence:
  assumes "memoryOf h s rows ls"
  shows "entriesInSequence (dsEntries s) = rows"
  using assms loadRows_inv [of h "dsSessionID s" rows ls]
  by (simp add: memoryOf_def accepted_iff loadInv_def entriesInSequence_tableOf)

text \<open>
  What an append needs from its surroundings: sequence numbers are left, and the rows it
  writes survive encoding.
\<close>

definition writable :: "'h session_host_scheme \<Rightarrow> durable_store \<Rightarrow> session_entry list \<Rightarrow> bool" where
  "writable h s ins \<longleftrightarrow> unat (dsMaxSeq s) + length ins < 2 ^ 64
     \<and> (\<forall>g. stagedBy h s ins g \<longrightarrow> (\<forall>r \<in> set (agNewRows g). roundTrips h r))"

lemma append_accepted:
  assumes M: "memoryOf h s rows ls" and w: "writable h s ins" and g: "stagedBy h s ins g" and a: "decideAppend h s g = Inr a"
  shows "\<exists>ls'. memoryOf h (installAppend a s) (rows @ agNewRows g) ls'"
    "\<exists>ls'. accepted h (dsSessionID s) (rows @ agNewRows g) ls'"
    "\<forall>e \<in> set (agNewRows g). encodable h e" "apBytes a = concat (map (rowLine h) (agNewRows g))"
proof -
  note D = decideAppend_Inr [OF a]
  have I: "stageInv h s rows ins g"
    by (rule stage_inv [OF M]) (use w g in \<open>simp_all add: writable_def stagedBy_def\<close>)
  from I obtain ls' where ls': "loadRows h (dsSessionID s) (rows @ agNewRows g) = Inr ls'" "lsMaxSeq ls' = agNextSeq g"
    "lsLeaf ls' = apLeaf a" "lsBranch ls' = apBranch a" unfolding stageInv_def D(2,3) by blast
  have acc: "accepted h (dsSessionID s) (rows @ agNewRows g) ls'"
    unfolding accepted_iff using ls'(1) D(4,5) by (simp add: memoryOf_sequence [OF M])
  then show "\<exists>ls'. accepted h (dsSessionID s) (rows @ agNewRows g) ls'" by blast
  have "dsEntries s = tableOf rows" "dsAppendOrder s = map eID rows" using M by (simp_all add: memoryOf_def)
  with acc ls' have "memoryOf h (installAppend a s) (rows @ agNewRows g) ls'"
    by (simp add: memoryOf_def installAppend_def D(1) tableOf_append) (simp add: tableOf_def)
  then show "\<exists>ls'. memoryOf h (installAppend a s) (rows @ agNewRows g) ls'" by blast
  note S = serializeBatch_bytes [OF D(8)]
  show "apBytes a = concat (map (rowLine h) (agNewRows g))" by (rule S(1))
  show "\<forall>e \<in> set (agNewRows g). encodable h e"
    using S(2) w g I unfolding encodable_def writable_def stageInv_def completedRow_def readableRow_def by blast
qed

lemma fileInv_clean:
  assumes "readComplete h b = Inr (rows, [])" "accepted h sid rows ls"
  shows "fileInv h sid rows b"
  unfolding fileInv_def using assms
  by (intro exI [of _ "[]"] exI [of _ ls]) (simp add: tornTail_def)

lemma fileInv_more:
  assumes "readComplete h b = Inr (rows @ extra, [])" "accepted h sid (rows @ extra) ls"
  shows "fileInv h sid rows b"
  unfolding fileInv_def using assms
  by (intro exI [of _ extra] exI [of _ "[]"] exI [of _ ls]) (simp add: tornTail_def)

lemma fileInv_prefix: "fileInv h sid (us @ vs) b \<Longrightarrow> fileInv h sid us b"
  unfolding fileInv_def by (metis append.assoc)

lemma canonical_members:
  assumes "stageInv h s rows ins g"
  shows "set (agCanonical g) \<subseteq> set (rows @ agNewRows g)"
proof
  fix c assume "c \<in> set (agCanonical g)"
  then obtain i where i: "i < length (agCanonical g)" "c = agCanonical g ! i" by (auto simp: in_set_conv_nth)
  with assms have "i < length ins" by (simp add: stageInv_def)
  with assms i(2) show "c \<in> set (rows @ agNewRows g)" unfolding stageInv_def by blast
qed

text \<open>What one append does to a store and its file.\<close>

definition appendEffect ::
  "'h session_host_scheme \<Rightarrow> session_entry list \<Rightarrow> go_error + session_entry list \<Rightarrow> open_store \<Rightarrow> open_store
     \<Rightarrow> session_entry list \<Rightarrow> bool" where
  "appendEffect h rows r p p' new \<longleftrightarrow> holds h p' (rows @ new)
     \<and> (\<forall>canon. r = Inr canon \<longrightarrow> set canon \<subseteq> set (rows @ new) \<and> dsPoisoned (snd p') = dsPoisoned (snd p))
     \<and> (\<forall>err. r = Inl err \<longrightarrow> new = [] \<and> (snd p' = snd p \<or> snd p' = (snd p) \<lparr> dsPoisoned := True \<rparr>))
     \<and> dsName (snd p') = dsName (snd p) \<and> dsSessionID (snd p') = dsSessionID (snd p)
     \<and> dsClosed (snd p') = dsClosed (snd p)
     \<and> (\<forall>n. n \<noteq> dsName (snd p) \<longrightarrow> fileBytes (fst p') n = fileBytes (fst p) n)"

lemma appendAndSyncLocked_effect:
  assumes H: "holds h (d, s) rows" and w: "writable h s ins"
    and run: "appendAndSyncLocked h ins (d, s) = (r, (d', s'))"
  shows "\<exists>new. appendEffect h rows r (d, s) (d', s') new"
proof -
  obtain ls where M: "memoryOf h s rows ls" and F: "fileInv h (dsSessionID s) rows (fileBytes d (dsName s))"
    and C: "\<not> dsPoisoned s \<Longrightarrow> readComplete h (fileBytes d (dsName s)) = Inr (rows, [])"
    using H unfolding holds_def by auto
  have idle: "holds h (d', s') rows" if "s' = s" "sameFiles d d'"
    using H that by (simp add: holds_def sameFiles_bytes)
  have stage: "stageInv h s rows ins g" if "stagedBy h s ins g" for g
    by (rule stage_inv [OF M]) (use w that in \<open>simp_all add: writable_def stagedBy_def\<close>)
  from run show ?thesis
  proof (cases rule: appendAndSyncLocked_outcome)
    case (written g a)
    note A = append_accepted [OF M w written(1,3)]
    obtain ls' where ls': "memoryOf h s' (rows @ agNewRows g) ls'" using A(1) written(5) by blast
    have keep: "dsName s' = dsName s" "dsSessionID s' = dsSessionID s" "dsPoisoned s' = dsPoisoned s"
      "dsClosed s' = dsClosed s"
      by (simp_all add: written(5) installAppend_def)
    have "readComplete h (concat (map (rowLine h) (agNewRows g)) @ []) = Inr (agNewRows g, [])"
      unfolding readComplete_batch [OF A(3)] by simp
    then have R: "readComplete h (fileBytes d' (dsName s)) = Inr (rows @ agNewRows g, [])"
      using readComplete_append [OF C [OF written(8)], of "concat (map (rowLine h) (agNewRows g))"] written(6) A(4)
      by (simp add: grows_def)
    moreover have "accepted h (dsSessionID s) (rows @ agNewRows g) ls'"
      using ls' by (simp add: memoryOf_def keep)
    ultimately have "holds h (d', s') (rows @ agNewRows g)"
      unfolding holds_def fst_conv snd_conv keep using ls' fileInv_clean by blast
    then show ?thesis
      using canonical_members [OF stage [OF written(1)]] written(4,6) keep
      by (intro exI [of _ "agNewRows g"]) (simp add: appendEffect_def grows_def)
  next
    case (torn g a n)
    note A = append_accepted [OF M w torn(1,3)]
    obtain k t where t: "k \<le> length (agNewRows g)"
      "readComplete h (take n (concat (map (rowLine h) (agNewRows g)))) = Inr (take k (agNewRows g), t)"
      "tornTail h (drop k (agNewRows g)) t" using readComplete_torn [OF A(3)] by blast
    then have "readComplete h (fileBytes d' (dsName s)) = Inr (rows @ take k (agNewRows g), t)"
      using readComplete_append [OF C [OF torn(8)]] torn(6) A(4) by (simp add: grows_def)
    with t(3) A(2) have "fileInv h (dsSessionID s) rows (fileBytes d' (dsName s))"
      unfolding fileInv_def by (metis append_take_drop_id)
    moreover have "memoryOf h s' rows ls" using M by (simp add: memoryOf_def torn(5))
    ultimately have "holds h (d', s') rows" unfolding holds_def by (auto simp: torn(5))
    then show ?thesis
      using torn(4,6) by (intro exI [of _ "[]"]) (simp add: appendEffect_def grows_def torn(5))
  next
    case (repeated g)
    with idle canonical_members [OF stage [OF repeated(1)]] show ?thesis
      by (intro exI [of _ "[]"]) (simp add: appendEffect_def sameFiles_bytes)
  qed (use idle in \<open>auto simp: appendEffect_def sameFiles_bytes intro!: exI [of _ "[]"]\<close>)
qed

lemma AppendAndSync_run:
  assumes "AppendAndSync h ins (d, s) = (r, (d', s'))"
  obtains (cancelled) err where "r = Inl err" "s' = s" "sameFiles d d'"
  | (locked) d1 where "sameFiles d d1" "appendAndSyncLocked h ins (d1, s) = (r, (d', s'))"
proof -
  obtain rc dc where c: "contextErr d = (rc, dc)" by force
  note same = contextErr_files [OF c]
  show thesis
  proof (cases rc)
    case (Inl e)
    with assms c same cancelled show thesis by (auto simp: AppendAndSync_def bindS_def onDisk_def)
  next
    case (Inr u)
    with assms c same locked show thesis by (auto simp: AppendAndSync_def bindS_def onDisk_def)
  qed
qed

lemma holds_same: "holds h (d, s) rows \<Longrightarrow> sameFiles d d' \<Longrightarrow> holds h (d', s) rows"
  by (simp add: holds_def sameFiles_bytes)

lemma AppendAndSync_effect:
  assumes H: "holds h (d, s) rows" and w: "writable h s ins" and run: "AppendAndSync h ins (d, s) = (r, (d', s'))"
  shows "\<exists>new. appendEffect h rows r (d, s) (d', s') new"
  using run
proof (cases rule: AppendAndSync_run)
  case (cancelled err)
  with H show ?thesis
    by (intro exI [of _ "[]"]) (simp add: appendEffect_def sameFiles_bytes holds_same)
next
  case (locked d1)
  from appendAndSyncLocked_effect [OF holds_same [OF H locked(1)] w locked(2)] locked(1) show ?thesis
    by (auto simp: appendEffect_def sameFiles_bytes)
qed

section \<open>Reopening the file\<close>

definition onlyFile :: "string \<Rightarrow> session_disk \<Rightarrow> session_disk \<Rightarrow> bool" where
  "onlyFile name d d' \<longleftrightarrow> (\<forall>n. n \<noteq> name \<longrightarrow> fileBytes d' n = fileBytes d n)"

lemma onlyFile_trans: "onlyFile n a b \<Longrightarrow> onlyFile n b c \<Longrightarrow> onlyFile n a c"
  by (simp add: onlyFile_def)

lemma onlyFile_same: "sameFiles a b \<Longrightarrow> onlyFile n a b"
  by (simp add: onlyFile_def sameFiles_bytes)

lemma onlyFile_grows: "grows a n b c \<Longrightarrow> onlyFile n a c"
  by (simp add: onlyFile_def grows_def)

text \<open>An operation that touches no session file and fails only with an I/O error.\<close>

definition ioOnly :: "(session_disk, 'a) op \<Rightarrow> bool" where
  "ioOnly m \<longleftrightarrow> (\<forall>d r d'. m d = (r, d') \<longrightarrow> sameFiles d d' \<and> (\<forall>e. r = Inl e \<longrightarrow> e = ErrIO))"

lemma ioOnly_D: "ioOnly m \<Longrightarrow> m d = (r, d') \<Longrightarrow> sameFiles d d' \<and> (\<forall>e. r = Inl e \<longrightarrow> e = ErrIO)"
  unfolding ioOnly_def by blast

lemma ioOnly_step: "ioOnly (ioStep ErrIO)"
  unfolding ioOnly_def using ioStep_files ioStep_error by blast

lemma ioOnly_ok: "ioOnly (okS x)"
  by (simp add: ioOnly_def)

lemma ioOnly_bind:
  assumes m: "ioOnly m" and f: "\<And>x. ioOnly (f x)"
  shows "ioOnly (bindS m f)"
  unfolding ioOnly_def
proof (intro allI impI)
  fix d r d' assume run: "bindS m f d = (r, d')"
  obtain r1 d1 where 1: "m d = (r1, d1)" by force
  note M = ioOnly_D [OF m 1]
  show "sameFiles d d' \<and> (\<forall>e. r = Inl e \<longrightarrow> e = ErrIO)"
  proof (cases r1)
    case (Inl e)
    with run 1 M show ?thesis by (auto simp: bindS_def)
  next
    case (Inr x)
    with run 1 have "f x d1 = (r, d')" by (simp add: bindS_def)
    from ioOnly_D [OF f this] M show ?thesis using sameFiles_trans by blast
  qed
qed

lemma ioOnly_quarantine: "ioOnly (quarantineTornSuffix t)"
  unfolding quarantineTornSuffix_def
proof (intro ioOnly_bind ioOnly_step)
  have rest: "ioOnly (bindS (ioStep ErrIO) (\<lambda>_. bindS (ioStep ErrIO) (\<lambda>_. ioStep ErrIO)))"
    by (intro ioOnly_bind ioOnly_step)
  show "ioOnly (\<lambda>d. case takeIO d of
       (IoFail n, d') \<Rightarrow> (Inl ErrIO, d' \<lparr> dkTorn := dkTorn d' @ [take n t] \<rparr>)
     | (IoOk, d') \<Rightarrow> bindS (ioStep ErrIO) (\<lambda>_. bindS (ioStep ErrIO) (\<lambda>_. ioStep ErrIO))
         (d' \<lparr> dkTorn := dkTorn d' @ [t] \<rparr>))"
    unfolding ioOnly_def
  proof (intro allI impI)
    fix d d' :: session_disk and r
    assume run: "(case takeIO d of
       (IoFail n, d') \<Rightarrow> (Inl ErrIO, d' \<lparr> dkTorn := dkTorn d' @ [take n t] \<rparr>)
     | (IoOk, d') \<Rightarrow> bindS (ioStep ErrIO) (\<lambda>_. bindS (ioStep ErrIO) (\<lambda>_. ioStep ErrIO))
         (d' \<lparr> dkTorn := dkTorn d' @ [t] \<rparr>)) = (r, d')"
    obtain x d1 where t: "takeIO d = (x, d1)" by force
    show "sameFiles d d' \<and> (\<forall>e. r = Inl e \<longrightarrow> e = ErrIO)"
    proof (cases x)
      case IoOk
      with run t have "bindS (ioStep ErrIO) (\<lambda>_. bindS (ioStep ErrIO) (\<lambda>_. ioStep ErrIO))
         (d1 \<lparr> dkTorn := dkTorn d1 @ [t] \<rparr>) = (r, d')" by simp
      from ioOnly_D [OF rest this] takeIO_files [OF t] show ?thesis by (simp add: sameFiles_def)
    next
      case (IoFail n)
      with run t takeIO_files [OF t] show ?thesis by (auto simp: sameFiles_def)
    qed
  qed
qed

lemma delimit_reads:
  assumes "readComplete h b = Inr (rows, t)" "decodeDurableEntry h t = Inr e" "length t \<le> maxDurableJSONLineBytes"
  shows "readComplete h (b @ [newline]) = Inr (rows @ [e], [])"
proof -
  obtain c where c: "b = c @ t" "readComplete h c = Inr (rows, [])" "newline \<notin> set t"
    using readComplete_parts [OF assms(1)] by blast
  with readComplete_append [OF c(2), of "t @ [newline]"] readComplete_line [OF c(3) assms(3,2), of "[]"]
  show ?thesis by simp
qed

lemma cut_reads:
  assumes "readComplete h b = Inr (rows, t)"
  shows "readComplete h (take (length b - length t) b) = Inr (rows, [])"
proof -
  obtain c where "b = c @ t" "readComplete h c = Inr (rows, [])"
    using readComplete_parts [OF assms] by blast
  then show ?thesis by simp
qed

text \<open>
  Reading keeps the invariant of the file even when it fails half-way, fails only for I/O
  reasons, and on success returns exactly what the file then holds.
\<close>

lemma fileInv_reads:
  assumes "fileInv h sid rows b"
  obtains extra torn rest ls where "readComplete h b = Inr (rows @ extra, torn)"
    "accepted h sid (rows @ extra @ rest) ls" "tornTail h rest torn"
  using assms unfolding fileInv_def by blast

lemma bindS_cases:
  assumes "bindS m f s = (r, t)"
  obtains (fails) e where "m s = (Inl e, t)" "r = Inl e"
  | (runs) x u where "m s = (Inr x, u)" "f x u = (r, t)"
  using assms by (auto simp: bindS_def split: prod.splits sum.splits)

lemma repair_delimits:
  assumes R: "readComplete h (fileBytes d name) = Inr (rows @ extra, t)" and dec: "decodeDurableEntry h t = Inr e"
    and len: "length t \<le> maxDurableJSONLineBytes" and t: "t \<noteq> []"
    and acc: "accepted h sid (rows @ extra @ e # rest) ls"
    and run: "repairTail h name (rows @ extra) t d = (r, d')"
  shows "fileInv h sid rows (fileBytes d' name) \<and> onlyFile name d d'
    \<and> (r = Inl ErrIO \<or> r = Inr (rows @ extra @ [e]) \<and> readComplete h (fileBytes d' name) = Inr (rows @ extra @ [e], []))"
proof -
  have acc1: "\<exists>ls. accepted h sid (rows @ extra @ [e]) ls"
    using accepted_prefix [of h sid "rows @ extra @ [e]" rest ls] acc by auto
  have before: "fileInv h sid rows (fileBytes d1 name)" if "sameFiles d d1" for d1
    unfolding fileInv_def sameFiles_bytes [OF that] using R acc dec len by (auto simp: tornTail_def)
  have fin: "readComplete h (fileBytes d1 name) = Inr (rows @ extra @ [e], [])" if "grows d name [newline] d1" for d1
    using delimit_reads [OF R dec len] that by (simp add: grows_def)
  have after: "fileInv h sid rows (fileBytes d1 name)" if "grows d name [newline] d1" for d1
    using fileInv_more [OF fin [OF that]] acc1 by blast
  from run t len dec have "bindS (ioStep ErrIO) (\<lambda>_. bindS (appendBytes name [newline]) (\<lambda>_.
      bindS (ioStep ErrIO) (\<lambda>_. okS (rows @ extra @ [e])))) d = (r, d')"
    by (simp add: repairTail_def)
  then show ?thesis
  proof (cases rule: bindS_cases)
    case (fails err)
    with ioStep_files ioStep_error before onlyFile_same show ?thesis by metis
  next
    case (runs u d1)
    note same = ioStep_files [OF runs(1)]
    from runs(2) show ?thesis
    proof (cases rule: bindS_cases)
      case (fails err)
      from appendBytes_outcome [OF fails(1)] obtain n where "err = ErrIO" "grows d1 name (take n [newline]) d'" by auto
      then have g: "grows d name (take n [newline]) d'" using same_grows [OF same] by blast
      show ?thesis
      proof (cases n)
        case 0
        with g have "fileBytes d' name = fileBytes d name" by (simp add: grows_def)
        with before [OF sameFiles_refl] g fails(2) \<open>err = ErrIO\<close> show ?thesis by (simp add: onlyFile_grows)
      next
        case (Suc m)
        with g have "grows d name [newline] d'" by simp
        with after fails(2) \<open>err = ErrIO\<close> show ?thesis by (simp add: onlyFile_grows)
      qed
    next
      case (runs u' d2)
      then have g: "grows d name [newline] d2" using appendBytes_outcome [OF runs(1)] same_grows [OF same] by auto
      from runs(2) show ?thesis
      proof (cases rule: bindS_cases)
        case (fails err)
        then have g': "grows d name [newline] d'" "err = ErrIO" using grows_then [OF g] ioStep_files ioStep_error by blast+
        with after fails(2) show ?thesis by (simp add: onlyFile_grows)
      next
        case (runs u'' d3)
        then have g': "grows d name [newline] d'" using grows_then [OF g] ioStep_files by (auto simp: okS_def)
        with after fin runs(2) show ?thesis by (simp add: onlyFile_grows)
      qed
    qed
  qed
qed

lemma repair_cuts:
  assumes R: "readComplete h (fileBytes d name) = Inr (rows @ extra, t)" and dec: "decodeDurableEntry h t = Inl TruncatedJSON"
    and len: "length t \<le> maxDurableJSONLineBytes" and t: "t \<noteq> []"
    and acc: "accepted h sid (rows @ extra @ rest) ls"
    and run: "repairTail h name (rows @ extra) t d = (r, d')"
  shows "fileInv h sid rows (fileBytes d' name) \<and> onlyFile name d d'
    \<and> (r = Inl ErrIO \<or> r = Inr (rows @ extra) \<and> readComplete h (fileBytes d' name) = Inr (rows @ extra, []))"
proof -
  have acc1: "\<exists>ls. accepted h sid (rows @ extra) ls"
    using accepted_prefix [of h sid "rows @ extra" rest ls] acc by auto
  have before: "fileInv h sid rows (fileBytes d1 name)" if "sameFiles d d1" for d1
    unfolding fileInv_def sameFiles_bytes [OF that] using R acc dec len by (auto simp: tornTail_def)
  let ?cut = "\<lambda>d1. setFile name (take (length (fileBytes d1 name) - length t) (fileBytes d1 name)) d1"
  have cut: "readComplete h (fileBytes d1 name) = Inr (rows @ extra, [])" "onlyFile name d d1"
    "fileInv h sid rows (fileBytes d1 name)" if "sameFiles d d0" "sameFiles (?cut d0) d1" for d0 d1
  proof -
    show R': "readComplete h (fileBytes d1 name) = Inr (rows @ extra, [])"
      using cut_reads [OF R] that by (simp add: sameFiles_bytes fileBytes_setFile)
    show "onlyFile name d d1" using that by (simp add: onlyFile_def sameFiles_bytes fileBytes_setFile)
    show "fileInv h sid rows (fileBytes d1 name)" using fileInv_more [OF R'] acc1 by blast
  qed
  from run t len dec have "bindS (quarantineTornSuffix t) (\<lambda>_.
      bindS (\<lambda>d. truncateFile name (length (fileBytes d name) - length t) d) (\<lambda>_.
      bindS (ioStep ErrIO) (\<lambda>_. okS (rows @ extra)))) d = (r, d')"
    by (simp add: repairTail_def)
  then show ?thesis
  proof (cases rule: bindS_cases)
    case (fails err)
    with ioOnly_D [OF ioOnly_quarantine fails(1)] before onlyFile_same show ?thesis by blast
  next
    case (runs u d1)
    then have same: "sameFiles d d1" using ioOnly_D [OF ioOnly_quarantine runs(1)] by blast
    from runs(2) show ?thesis
    proof (cases rule: bindS_cases)
      case (fails err)
      from fails(1) have "ioStep ErrIO d1 = (Inl err, d')"
        unfolding truncateFile_def by (cases rule: bindS_cases) auto
      with ioStep_error ioStep_files sameFiles_trans [OF same] before onlyFile_same fails(2) show ?thesis by metis
    next
      case (runs u' d2)
      from runs(1) obtain d0 where d0: "ioStep ErrIO d1 = (Inr (), d0)"
        "d2 = setFile name (take (length (fileBytes d1 name) - length t) (fileBytes d0 name)) d0"
        unfolding truncateFile_def by (cases rule: bindS_cases) auto
      then have s0: "sameFiles d d0" "fileBytes d1 name = fileBytes d0 name"
        using sameFiles_trans [OF same] ioStep_files [OF d0(1)] by (auto simp: sameFiles_bytes)
      with d0(2) have d2: "d2 = ?cut d0" by simp
      from runs(2) show ?thesis
      proof (cases rule: bindS_cases)
        case (fails err)
        with cut(2,3) [OF s0(1)] ioStep_files [OF fails(1)] ioStep_error [OF fails(1)] d2 show ?thesis by auto
      next
        case (runs u'' d3)
        with cut [OF s0(1)] ioStep_files [OF runs(1)] d2 show ?thesis by auto
      qed
    qed
  qed
qed

lemma read_repairs:
  assumes F: "fileInv h sid rows (fileBytes d name)" and run: "readDurableJSONL h name d = (r, d')"
  shows "fileInv h sid rows (fileBytes d' name) \<and> onlyFile name d d'
    \<and> (r = Inl ErrIO \<or> (\<exists>extra ls. r = Inr (rows @ extra) \<and> accepted h sid (rows @ extra) ls
        \<and> readComplete h (fileBytes d' name) = Inr (rows @ extra, [])))"
proof -
  obtain extra torn rest ls where R: "readComplete h (fileBytes d name) = Inr (rows @ extra, torn)"
    and acc: "accepted h sid (rows @ extra @ rest) ls" and tt: "tornTail h rest torn"
    using fileInv_reads [OF F] by blast
  from run show ?thesis
    unfolding readDurableJSONL_def
  proof (cases rule: bindS_cases)
    case (fails err)
    with ioStep_files ioStep_error onlyFile_same F show ?thesis by (metis sameFiles_bytes)
  next
    case (runs u d1)
    note same = ioStep_files [OF runs(1)]
    have R1: "readComplete h (fileBytes d1 name) = Inr (rows @ extra, torn)" by (simp add: sameFiles_bytes [OF same] R)
    from runs(2) R1 have rep: "repairTail h name (rows @ extra) torn d1 = (r, d')" by (simp add: bindS_def)
    have base: "onlyFile name d d1" by (rule onlyFile_same [OF same])
    show ?thesis
    proof (cases "torn = []")
      case True
      from accepted_prefix [of h sid "rows @ extra" rest ls] acc obtain ls' where "accepted h sid (rows @ extra) ls'" by auto
      moreover have "fileInv h sid rows (fileBytes d1 name)" using F by (simp add: sameFiles_bytes [OF same])
      ultimately show ?thesis using True rep R1 base by (auto simp: repairTail_def)
    next
      case False
      with tt have len: "length torn \<le> maxDurableJSONLineBytes" by (simp add: tornTail_def)
      from tt False consider (cut) "decodeDurableEntry h torn = Inl TruncatedJSON"
        | (whole) e rest' where "rest = e # rest'" "decodeDurableEntry h torn = Inr e"
        unfolding tornTail_def by blast
      then show ?thesis
      proof cases
        case cut
        from accepted_prefix [of h sid "rows @ extra" rest ls] acc obtain ls' where "accepted h sid (rows @ extra) ls'" by auto
        with repair_cuts [OF R1 cut len False acc rep] onlyFile_trans [OF base] show ?thesis by blast
      next
        case whole
        from accepted_prefix [of h sid "rows @ extra @ [e]" rest' ls] acc whole(1)
        obtain ls' where "accepted h sid (rows @ extra @ [e]) ls'" by auto
        with repair_delimits [OF R1 whole(2) len False acc [unfolded whole(1)] rep] onlyFile_trans [OF base]
        show ?thesis by (metis append.assoc)
      qed
    qed
  qed
qed

end
