(* ===== verification/Recovery.thy ===== *)
theory Recovery
  imports DurableLoad
begin

text \<open>
  Restart recovery: the receipts that close the tool calls a crash left open
  (\<open>internal/session/durable_recovery.go\<close>), the read-only reports on pending actions, the
  snapshot check of \<open>run_commit.go\<close>, and \<open>PrepareResume\<close> of \<open>durable_jsonl.go\<close>, which opens
  a session file, consults the recovery authority and writes those receipts.
\<close>

section \<open>Snapshots and pending actions\<close>

definition noteSnapshotRow ::
  "string list \<times> u64 \<Rightarrow> session_entry \<Rightarrow> go_error + string list \<times> u64" where
  "noteSnapshotRow s row =
     (if eID row = [] then Inl (Fault ''snapshot durable row has no ID'')
      else if eID row \<in> set (fst s) then Inl (Fault ''snapshot repeats durable row ID'')
      else if eRecordVersion row = 1 \<and> eSeq row = 0
        then Inl (Fault ''snapshot version 1 row has no sequence'')
      else Inr (eID row # fst s, if snd s < eSeq row then eSeq row else snd s))"

definition validateRunCommitSnapshot ::
  "prepared_snapshot \<Rightarrow> go_error + session_entry list \<times> session_entry list" where
  "validateRunCommitSnapshot snap =
     (let allRows = psDurableEntries snap in
      bindR (foldR noteSnapshotRow ([], 0) allRows) (\<lambda>s.
        if psMaxSeq snap < snd s then Inl (Fault ''snapshot max sequence precedes a durable row'')
        else if psActiveLeafEntryID snap = [] then
          (if allRows \<noteq> [] then Inl (Fault ''non-empty snapshot has no active leaf'') else Inr (allRows, []))
        else bindR (orderedDurableBranch (psActiveLeafEntryID snap) (tableOf allRows)) (\<lambda>branchRows.
          if branchRows = [] then Inl (Fault ''active branch has no durable path'')
          else Inr (allRows, branchRows))))"

record pending_action =
  paAction :: pending_ref
  paToolName :: string
  paDispatchState :: dispatch_state
  paReceiptOutcome :: receipt_outcome
  paReconcileReady :: bool
  paResolved :: bool
  paResolution :: "resolution_evidence option"

definition pendingActionSnapshot :: "action_occurrence \<Rightarrow> pending_action" where
  "pendingActionSnapshot occ =
     \<lparr> paAction = oRef occ, paToolName = oToolName occ,
       paDispatchState = (case oReceipt occ of None \<Rightarrow> DispatchStateEmpty | Some r \<Rightarrow> eDispatchState r),
       paReceiptOutcome = (case oReceipt occ of None \<Rightarrow> ReceiptOutcomeEmpty | Some r \<Rightarrow> eReceiptOutcome r),
       paReconcileReady = (oIntent occ \<noteq> None \<and> oResolution occ = None \<and>
         (case oReceipt occ of None \<Rightarrow> False
          | Some r \<Rightarrow> eDispatchState r = DispatchStateDispatched \<and> eReceiptOutcome r = ReceiptOutcomeUnknown)),
       paResolved = (oResolution occ \<noteq> None),
       paResolution = map_option (\<lambda>v. erEvidence (vrResolution v)) (oResolution occ) \<rparr>"

definition validatedSnapshotActionPlan :: "prepared_snapshot \<Rightarrow> go_error + recovery_plan" where
  "validatedSnapshotActionPlan snap =
     (if psSessionID snap = [] \<or> psActiveBranchID snap = []
        then Inl (Fault ''pending-action inspection requires a prepared physical session and branch'')
      else bindR (validateSessionView (psPublishedView snap)) (\<lambda>_.
        bindR (validateRunCommitSnapshot snap) (\<lambda>rows.
          analyzeDurableActionJournal (fst rows) (psSessionID snap))))"

definition inspectPending ::
  "recovery_plan \<Rightarrow> pending_action list \<Rightarrow> pending_ref \<Rightarrow> go_error + pending_action list" where
  "inspectPending plan acc ref =
     (case find (\<lambda>occ. oRef occ = ref) (rpOccurrences plan) of
        None \<Rightarrow> Inl (Fault ''pending action has no validated journal occurrence'')
      | Some occ \<Rightarrow> Inr (acc @ [pendingActionSnapshot occ]))"

definition InspectPendingActions :: "prepared_snapshot \<Rightarrow> go_error + pending_action list" where
  "InspectPendingActions snap =
     bindR (validatedSnapshotActionPlan snap) (\<lambda>plan. foldR (inspectPending plan) [] (rpPending plan))"

definition FindActionByID :: "prepared_snapshot \<Rightarrow> string \<Rightarrow> go_error + pending_action option" where
  "FindActionByID snap actionID =
     (if actionID = [] then Inl (Fault ''action lookup requires a stable action ID'')
      else bindR (validatedSnapshotActionPlan snap) (\<lambda>plan.
        bindR (findUnique (\<lambda>occ. oIntent occ \<noteq> None \<and> rActionID (oRef occ) = actionID)
            (Fault ''action ID is ambiguous in the selected snapshot'') (rpOccurrences plan)) (\<lambda>m.
          Inr (map_option pendingActionSnapshot m))))"

section \<open>Markers against the journal\<close>

definition occurrenceDispatched :: "recovery_plan \<Rightarrow> pending_ref \<Rightarrow> bool" where
  "occurrenceDispatched plan ref \<longleftrightarrow> list_ex (\<lambda>occ. oIntent occ \<noteq> None \<and> oRef occ = ref
     \<and> list_ex (\<lambda>x. eDispatchState x = DispatchStateDispatched) (oExecutions occ)) (rpOccurrences plan)"

definition rejectAbsentMarkerForDispatchedExecution ::
  "recovery_plan \<Rightarrow> pending_decision list \<Rightarrow> go_error + unit" where
  "rejectAbsentMarkerForDispatchedExecution plan decisions =
     (if length (rpPending plan) \<noteq> length decisions
        then Inl (Fault ''dispatch marker decisions do not match the pending action list'')
      else if list_ex (\<lambda>(ref, dec). pdMarkerState dec = DispatchMarkerAbsent \<and> occurrenceDispatched plan ref)
          (zip (rpPending plan) decisions)
        then Inl (Fault ''workspace dispatch marker is absent despite durable dispatched execution'')
      else Inr ())"

definition validateReceiptAgainstMarker ::
  "session_entry \<Rightarrow> dispatch_marker_state \<Rightarrow> go_error + unit" where
  "validateReceiptAgainstMarker receipt marker = (case marker of
      DispatchMarkerAbsent \<Rightarrow>
        if eDispatchState receipt \<noteq> DispatchStateNotDispatched
          then Inl (Fault ''absent marker conflicts with an already-dispatched receipt'') else Inr ()
    | DispatchMarkerUnverifiable \<Rightarrow> Inl (Fault ''dispatch marker is unverifiable'')
    | DispatchMarkerInvalid _ \<Rightarrow> Inl (Fault ''invalid marker state'')
    | _ \<Rightarrow>
        if eDispatchState receipt \<noteq> DispatchStateDispatched
          then Inl (Fault ''present marker conflicts with a not-dispatched receipt'') else Inr ())"

section \<open>Recovery receipts\<close>

text \<open>Nanoseconds from the zero time to the Unix epoch.\<close>

definition unixEpoch :: int where
  "unixEpoch = 62135596800000000000"

definition recoveryReceiptID :: "'h session_host_scheme \<Rightarrow> pending_ref \<Rightarrow> go_error + string" where
  "recoveryReceiptID h ref = (case shMarshalRef h ref of
      None \<Rightarrow> Inl (Fault ''encode recovery action reference'')
    | Some encoded \<Rightarrow> Inr (''recovery-'' @ hexEncode (shSha256 h encoded)))"

text \<open>What the marker says about the outcome of a call that has no receipt.\<close>

definition recoveryOutcome ::
  "pending_ref \<Rightarrow> dispatch_marker_state \<Rightarrow> go_error + dispatch_state \<times> receipt_outcome \<times> string" where
  "recoveryOutcome ref marker = (case marker of
      DispatchMarkerAbsent \<Rightarrow> Inr (DispatchStateNotDispatched, ReceiptOutcomeInterrupted,
        ''Interrupted before tool dispatch; recovery did not replay the action.'')
    | DispatchMarkerUnverifiable \<Rightarrow> Inl (Fault ''dispatch marker is unverifiable'')
    | DispatchMarkerInvalid _ \<Rightarrow> Inl (Fault ''invalid dispatch marker state'')
    | _ \<Rightarrow> if rActionID ref = []
        then Inl (Fault ''unreserved occurrence cannot be reconciled to a dispatch marker'')
        else Inr (DispatchStateDispatched, ReceiptOutcomeUnknown,
          ''Tool outcome is unknown after restart; recovery did not replay the action.''))"

record receipt_builder =
  rbParentID :: string
  rbNextIndex :: "(string \<times> u64) list"
  rbRows :: "session_entry list"

definition occurrenceTable :: "string \<Rightarrow> action_occurrence list \<Rightarrow> (occurrence_key \<times> action_occurrence) list" where
  "occurrenceTable sessionID occs =
     rev (map (\<lambda>occ. ((sessionID, rRunID (oRef occ), rOrdinal (oRef occ), rToolCallID (oRef occ)), occ)) occs)"

definition buildReceipt ::
  "'h session_host_scheme \<Rightarrow> recovery_plan \<Rightarrow> string \<Rightarrow> string \<Rightarrow> string \<Rightarrow> entry_table
     \<Rightarrow> receipt_builder \<Rightarrow> pending_ref \<times> pending_decision \<Rightarrow> go_error + receipt_builder" where
  "buildReceipt h plan sessionID branch leaf entries b p = (case p of (ref, dec) \<Rightarrow>
     if pdAction dec \<noteq> ref then Inl (Fault ''recovery action reference changed'')
     else case map_of (occurrenceTable sessionID (rpOccurrences plan))
         (sessionID, rRunID ref, rOrdinal ref, rToolCallID ref) of
       None \<Rightarrow> Inl (Fault ''recovery action has no local occurrence'')
     | Some occ \<Rightarrow>
         if \<not> durableEntryOnPath entries (eID (oAssistant occ)) leaf
           then Inl (Fault ''open action occurrence is outside the active branch'')
         else (case oReceipt occ of
           Some receipt \<Rightarrow> bindR (validateReceiptAgainstMarker receipt (pdMarkerState dec)) (\<lambda>_. Inr b)
         | None \<Rightarrow> bindR (recoveryOutcome ref (pdMarkerState dec)) (\<lambda>(dispatch, outcome, content).
             if oIntent occ \<noteq> None \<and> rActionID ref = []
               then Inl (Fault ''reserved intent lost its action ID during recovery'')
             else let index = nextIndexOf (rbNextIndex b) (rRunID ref) in
               if index = - 1 then Inl (Fault ''run transcript index is exhausted'')
               else bindR (recoveryReceiptID h ref) (\<lambda>entryID.
                 Inr \<lparr> rbParentID = entryID, rbNextIndex = (rRunID ref, index + 1) # rbNextIndex b,
                   rbRows = rbRows b @ [emptyEntry \<lparr> eID := entryID, eParentID := rbParentID b,
                     eType := EntryTypeTool,
                     eTimestamp := (if eTimestamp (oAssistant occ) = 0 then unixEpoch
                       else eTimestamp (oAssistant occ)),
                     eContent := content, eToolCallID := rToolCallID ref, eToolName := oToolName occ,
                     eBranchID := branch, eRunID := rRunID ref, eWorkspaceID := rWorkspaceID ref,
                     eActionBatchID := rActionBatchID ref, eActionID := rActionID ref,
                     eOrdinal := Some (rOrdinal ref), eTranscriptIndex := Some index,
                     eDispatchState := dispatch, eReceiptOutcome := outcome \<rparr>] \<rparr>))))"

definition buildRecoveryReceipts ::
  "'h session_host_scheme \<Rightarrow> recovery_plan \<Rightarrow> pending_decision list \<Rightarrow> string \<Rightarrow> string \<Rightarrow> string
     \<Rightarrow> entry_table \<Rightarrow> go_error + session_entry list" where
  "buildRecoveryReceipts h plan decisions sessionID branch leaf entries =
     (if length (rpPending plan) \<noteq> length decisions
        then Inl (Fault ''recovery decisions do not match the pending action list'')
      else bindR (foldR (buildReceipt h plan sessionID branch leaf entries)
          \<lparr> rbParentID = leaf, rbNextIndex = rpNextTranscriptIndex plan, rbRows = [] \<rparr>
          (zip (rpPending plan) decisions)) (\<lambda>b. Inr (rbRows b)))"

section \<open>Process identities\<close>

record process_inspection =
  piStatus :: process_group_exit_status
  piReason :: string
  piObservedAt :: int

record identity_scan =
  isIdentity :: "execution_identity option"
  isEntryID :: string
  isReason :: string
  isUnavailable :: bool

fun scanIdentities :: "session_entry \<Rightarrow> identity_scan \<Rightarrow> session_entry list \<Rightarrow> identity_scan" where
  "scanIdentities intent s [] = s"
| "scanIdentities intent s (x # xs) =
     (if eDispatchState x \<noteq> DispatchStateDispatched then scanIdentities intent s xs
      else if eOwnerGeneration x = [] \<or> eOwnerGeneration x \<noteq> eOwnerGeneration intent then
        \<lparr> isIdentity = None, isEntryID = [],
          isReason = ''dispatched execution identity owner generation does not match its intent'',
          isUnavailable = True \<rparr>
      else case eExecutionIdentity x of
        None \<Rightarrow> s \<lparr> isEntryID := [],
          isReason := ''dispatched execution row is missing a valid process-group identity'',
          isUnavailable := True \<rparr>
      | Some i \<Rightarrow> (case isIdentity s of
            None \<Rightarrow> scanIdentities intent (s \<lparr> isIdentity := Some i, isEntryID := eID x \<rparr>) xs
          | Some j \<Rightarrow> if j = i then scanIdentities intent s xs
              else \<lparr> isIdentity = None, isEntryID = [],
                isReason = ''matching dispatched execution rows contain conflicting process identities'',
                isUnavailable = True \<rparr>))"

definition diagnose ::
  "(execution_identity \<Rightarrow> process_inspection) \<Rightarrow> pending_ref \<Rightarrow> session_entry \<Rightarrow> session_entry list
     \<Rightarrow> execution_diagnostic" where
  "diagnose inspect ref intent executions =
     (let s = scanIdentities intent \<lparr> isIdentity = None, isEntryID = [],
            isReason = ''matching dispatched process-group identity is missing'', isUnavailable = False \<rparr> executions;
          d = \<lparr> dgAction = ref, dgIntentEntryID = eID intent, dgOwnerGeneration = eOwnerGeneration intent,
            dgExecutionEntryID = isEntryID s, dgStatus = ProcessGroupExitUnknown, dgReason = isReason s,
            dgObservedAt = 0 \<rparr>
      in case isIdentity s of
          None \<Rightarrow> d
        | Some i \<Rightarrow> if isUnavailable s then d
            else (case piStatus (inspect i) of
                ProcessGroupExitOther _ \<Rightarrow> d \<lparr> dgReason := ''process-group inspector returned an unsupported status'' \<rparr>
              | status \<Rightarrow> d \<lparr> dgStatus := status, dgReason := piReason (inspect i),
                  dgObservedAt := piObservedAt (inspect i) \<rparr>))"

definition occurrenceByRef :: "recovery_plan \<Rightarrow> pending_ref \<Rightarrow> action_occurrence option" where
  "occurrenceByRef plan ref = map_of (rev (map (\<lambda>occ. (keyForRef (oRef occ), occ)) (rpOccurrences plan))) (keyForRef ref)"

definition inspectPendingBashExecutionIdentities ::
  "(execution_identity \<Rightarrow> process_inspection) \<Rightarrow> recovery_plan \<Rightarrow> execution_diagnostic list" where
  "inspectPendingBashExecutionIdentities inspect plan =
     concat (map (\<lambda>ref. case occurrenceByRef plan ref of
         None \<Rightarrow> []
       | Some occ \<Rightarrow> (case oIntent occ of
           None \<Rightarrow> []
         | Some intent \<Rightarrow> (case eToolIdentity intent of
             None \<Rightarrow> []
           | Some identity \<Rightarrow>
               if oToolName occ \<noteq> ''bash'' \<or> tiRegistrationSource identity \<noteq> ''builtin_tool'' then []
               else [diagnose inspect ref intent (oExecutions occ)])))
       (rpPending plan))"

section \<open>Resuming a session\<close>

record 'a recovery_authority =
  raApplyDurableResolutions :: "validated_resolution list \<Rightarrow> ('a, unit) op"
  raInspectDispatchMarkers :: "pending_ref list \<Rightarrow> ('a, pending_decision list) op"

definition onAuthority :: "('a, 'r) op \<Rightarrow> ('d \<times> 'a, 'r) op" where
  "onAuthority m p = (case m (snd p) of (r, a) \<Rightarrow> (r, (fst p, a)))"

definition consultAuthority ::
  "'a recovery_authority option \<Rightarrow> recovery_plan \<Rightarrow> ('d \<times> 'a, pending_decision list) op" where
  "consultAuthority authority plan =
     (if rpPending plan = [] \<and> rpResolutions plan = [] then okS []
      else case authority of
        None \<Rightarrow> failS (Fault ''action history requires a recovery authority'')
      | Some a \<Rightarrow> bindS (onAuthority (raApplyDurableResolutions a (rpResolutions plan))) (\<lambda>_.
          if rpPending plan = [] then okS []
          else bindS (onAuthority (raInspectDispatchMarkers a (rpPending plan))) (\<lambda>decisions.
            bindS (liftR (validatePendingActionDecisions (rpPending plan) decisions)) (\<lambda>_.
            bindS (liftR (rejectAbsentMarkerForDispatchedExecution plan decisions)) (\<lambda>_. okS decisions)))))"

text \<open>The recovery receipts are appended by the store that has just been loaded.\<close>

definition appendRecovery ::
  "'h session_host_scheme \<Rightarrow> durable_store \<Rightarrow> session_entry list \<Rightarrow> (session_disk, durable_store) op" where
  "appendRecovery h store rows d =
     (if rows = [] then (Inr store, d)
      else case AppendAndSync h rows (d, store) of
        (Inl err, q) \<Rightarrow> (Inl err, fst q)
      | (Inr _, q) \<Rightarrow> (Inr (snd q), fst q))"

definition loadedStore :: "string \<Rightarrow> string \<Rightarrow> session_entry list \<Rightarrow> load_scan \<Rightarrow> durable_store" where
  "loadedStore name sessionID entries ls =
     (newDurableJSONLStore name sessionID (lsLabel ls) (lsBranch ls) (lsIndex ls) (lsMaxSeq ls)
        (map eID entries)) \<lparr> dsActiveLeafID := lsLeaf ls \<rparr>"

text \<open>The view published at the end, over the rows the store then has.\<close>

definition publishedStore ::
  "'h session_host_scheme \<Rightarrow> (execution_identity \<Rightarrow> process_inspection) \<Rightarrow> recovery_plan \<Rightarrow> durable_store
     \<Rightarrow> go_error + durable_store" where
  "publishedStore h inspect plan s =
     bindR (orderedDurableBranch (dsActiveLeafID s) (dsEntries s)) (\<lambda>branchEntries.
     bindR (durableSessionView h (dsSessionID s) (dsActiveBranchID s) (dsMaxSeq s) branchEntries) (\<lambda>view.
       Inr (s \<lparr> dsView := view \<lparr> svDiagnostics := inspectPendingBashExecutionIdentities inspect plan \<rparr> \<rparr>)))"

definition recoverLoaded ::
  "'h session_host_scheme \<Rightarrow> 'a recovery_authority option \<Rightarrow> (execution_identity \<Rightarrow> process_inspection)
     \<Rightarrow> string \<Rightarrow> string \<Rightarrow> session_entry list \<Rightarrow> (session_disk \<times> 'a, durable_store) op" where
  "recoverLoaded h authority inspect name sessionID entries =
     bindS (liftR (validateLoadedDurableEntries h entries sessionID)) (\<lambda>ls.
     bindS (liftR (orderedDurableBranch (lsLeaf ls) (lsIndex ls))) (\<lambda>branchEntries.
     bindS (liftR (publishView (durableSessionView h sessionID (lsBranch ls) (lsMaxSeq ls) branchEntries))) (\<lambda>_.
     bindS (liftR (analyzeDurableActionJournal entries sessionID)) (\<lambda>plan.
     bindS (onDisk (ioStep ErrIO)) (\<lambda>_.
     bindS (consultAuthority authority plan) (\<lambda>decisions.
     bindS (onDisk (ioStep ErrIO)) (\<lambda>_.
     bindS (liftR (if rpPending plan = [] then Inr []
       else buildRecoveryReceipts h plan decisions sessionID (lsBranch ls) (lsLeaf ls) (lsIndex ls))) (\<lambda>rows.
     bindS (onDisk (appendRecovery h (loadedStore name sessionID entries ls) rows)) (\<lambda>store.
       liftR (publishedStore h inspect plan store))))))))))"

definition PrepareResume ::
  "'h session_host_scheme \<Rightarrow> 'a recovery_authority option \<Rightarrow> (execution_identity \<Rightarrow> process_inspection)
     \<Rightarrow> string \<Rightarrow> string \<Rightarrow> (session_disk \<times> 'a, durable_store) op" where
  "PrepareResume h authority inspect directory physicalSessionID =
     bindS (onDisk contextErr) (\<lambda>_.
       if directory = [] then failS (Fault ''durable session directory is required'')
       else if \<not> validPhysicalSessionID physicalSessionID then failS (Fault ''invalid physical session ID'')
       else bindS (\<lambda>p. liftR (resolvePhysicalSessionFilename (fst p) physicalSessionID) p) (\<lambda>name.
         bindS (onDisk (ioStep ErrIO)) (\<lambda>_. bindS (onDisk (ioStep ErrIO)) (\<lambda>_.
         bindS (onDisk (readDurableJSONL h name)) (\<lambda>entries.
           recoverLoaded h authority inspect name physicalSessionID entries)))))"

end
