(* ===== verification/RecoveryFacts.thy ===== *)
theory RecoveryFacts
  imports DurableStoreFacts Recovery
begin

text \<open>
  Facts about recovery: which receipts it writes, and that opening a session file again keeps
  every row that was ever acknowledged.
\<close>

section \<open>Recovery receipts\<close>

definition pendingOccurrence :: "recovery_plan \<Rightarrow> string \<Rightarrow> pending_ref \<Rightarrow> action_occurrence option" where
  "pendingOccurrence plan sid ref =
     map_of (occurrenceTable sid (rpOccurrences plan)) (sid, rRunID ref, rOrdinal ref, rToolCallID ref)"

definition lacksReceipt :: "recovery_plan \<Rightarrow> string \<Rightarrow> pending_ref \<times> pending_decision \<Rightarrow> bool" where
  "lacksReceipt plan sid p \<longleftrightarrow>
     (case pendingOccurrence plan sid (fst p) of None \<Rightarrow> False | Some occ \<Rightarrow> oReceipt occ = None)"

text \<open>
  The outcome of a recovered call is never a success or an error: it is interrupted when the
  marker is absent, and unknown when a marker shows that the call may have been dispatched.
\<close>

definition outcomeOfMarker :: "dispatch_marker_state \<Rightarrow> session_entry \<Rightarrow> bool" where
  "outcomeOfMarker marker row \<longleftrightarrow>
     (if marker = DispatchMarkerAbsent
      then eDispatchState row = DispatchStateNotDispatched \<and> eReceiptOutcome row = ReceiptOutcomeInterrupted
      else (marker = DispatchMarkerPresent \<or> marker = DispatchMarkerResolved) \<and> eActionID row \<noteq> []
        \<and> eDispatchState row = DispatchStateDispatched \<and> eReceiptOutcome row = ReceiptOutcomeUnknown)"

definition receiptFor ::
  "recovery_plan \<Rightarrow> string \<Rightarrow> string \<Rightarrow> pending_ref \<times> pending_decision \<Rightarrow> session_entry \<Rightarrow> bool" where
  "receiptFor plan sid branch p row \<longleftrightarrow>
     pdAction (snd p) = fst p \<and> eType row = EntryTypeTool \<and> eActionState row = ActionStateEmpty
     \<and> eBranchID row = branch \<and> refFromEntry row (rSessionID (fst p)) = fst p
     \<and> eOrdinal row = Some (rOrdinal (fst p))
     \<and> Some (eToolName row) = map_option oToolName (pendingOccurrence plan sid (fst p))
     \<and> outcomeOfMarker (pdMarkerState (snd p)) row"

definition runRows :: "string \<Rightarrow> session_entry list \<Rightarrow> nat" where
  "runRows run rows = length (filter (\<lambda>r. eRunID r = run) rows)"

lemma runRows_snoc: "runRows run (rows @ [r]) = runRows run rows + (if eRunID r = run then 1 else 0)"
  by (simp add: runRows_def)

definition builtFrom ::
  "recovery_plan \<Rightarrow> string \<Rightarrow> string \<Rightarrow> string \<Rightarrow> (pending_ref \<times> pending_decision) list \<Rightarrow> receipt_builder \<Rightarrow> bool" where
  "builtFrom plan sid branch leaf ps b \<longleftrightarrow>
     list_all2 (receiptFor plan sid branch) (filter (lacksReceipt plan sid) ps) (rbRows b)
     \<and> rbParentID b = last (leaf # map eID (rbRows b))
     \<and> map eParentID (rbRows b) = butlast (leaf # map eID (rbRows b))
     \<and> (\<forall>run. nextIndexOf (rbNextIndex b) run
          = nextIndexOf (rpNextTranscriptIndex plan) run + of_nat (runRows run (rbRows b)))
     \<and> (\<forall>i < length (rbRows b). eTranscriptIndex (rbRows b ! i) = Some (nextIndexOf (rpNextTranscriptIndex plan)
          (eRunID (rbRows b ! i)) + of_nat (runRows (eRunID (rbRows b ! i)) (take i (rbRows b)))))"

lemma recoveryOutcome_Inr:
  assumes "recoveryOutcome ref marker = Inr (dispatch, outcome, content)"
    and "eDispatchState row = dispatch" "eReceiptOutcome row = outcome" "eActionID row = rActionID ref"
  shows "outcomeOfMarker marker row"
  using assms by (auto simp: recoveryOutcome_def outcomeOfMarker_def split: dispatch_marker_state.splits if_splits)

lemma buildReceipt_step:
  assumes I: "builtFrom plan sid branch leaf ps b"
    and step: "buildReceipt h plan sid branch leaf entries b p = Inr b'"
  shows "builtFrom plan sid branch leaf (ps @ [p]) b'"
proof -
  obtain ref dec where p: "p = (ref, dec)" by force
  from step obtain occ where a: "pdAction dec = ref" and occ: "pendingOccurrence plan sid ref = Some occ"
    by (auto simp: buildReceipt_def p pendingOccurrence_def split: if_splits option.splits)
  have L: "list_all2 (receiptFor plan sid branch) (filter (lacksReceipt plan sid) ps) (rbRows b)"
    "rbParentID b = last (leaf # map eID (rbRows b))" "map eParentID (rbRows b) = butlast (leaf # map eID (rbRows b))"
    "\<And>run. nextIndexOf (rbNextIndex b) run = nextIndexOf (rpNextTranscriptIndex plan) run + of_nat (runRows run (rbRows b))"
    "\<And>i. i < length (rbRows b) \<Longrightarrow> eTranscriptIndex (rbRows b ! i) = Some (nextIndexOf (rpNextTranscriptIndex plan)
          (eRunID (rbRows b ! i)) + of_nat (runRows (eRunID (rbRows b ! i)) (take i (rbRows b))))"
    using I unfolding builtFrom_def by blast+
  show ?thesis
  proof (cases "oReceipt occ")
    case (Some receipt)
    then have "\<not> lacksReceipt plan sid p" by (simp add: lacksReceipt_def p occ)
    moreover from step Some occ have "b' = b"
      by (auto simp: buildReceipt_def p pendingOccurrence_def bindR_eq_Inr split: if_splits)
    ultimately show ?thesis using I by (simp add: builtFrom_def)
  next
    case None
    then have need: "lacksReceipt plan sid p" by (simp add: lacksReceipt_def p occ)
    from step None occ a obtain dispatch outcome content entryID where
      out: "recoveryOutcome ref (pdMarkerState dec) = Inr (dispatch, outcome, content)"
      and b': "b' = \<lparr> rbParentID = entryID,
          rbNextIndex = (rRunID ref, nextIndexOf (rbNextIndex b) (rRunID ref) + 1) # rbNextIndex b,
          rbRows = rbRows b @ [emptyEntry \<lparr> eID := entryID, eParentID := rbParentID b,
                     eType := EntryTypeTool,
                     eTimestamp := (if eTimestamp (oAssistant occ) = 0 then unixEpoch
                       else eTimestamp (oAssistant occ)),
                     eContent := content, eToolCallID := rToolCallID ref, eToolName := oToolName occ,
                     eBranchID := branch, eRunID := rRunID ref, eWorkspaceID := rWorkspaceID ref,
                     eActionBatchID := rActionBatchID ref, eActionID := rActionID ref,
                     eOrdinal := Some (rOrdinal ref), eTranscriptIndex := Some (nextIndexOf (rbNextIndex b) (rRunID ref)),
                     eDispatchState := dispatch, eReceiptOutcome := outcome \<rparr>] \<rparr>"
      by (auto simp: buildReceipt_def p pendingOccurrence_def bindR_eq_Inr Let_def split: if_splits)
    define row where "row = last (rbRows b')"
    have rows: "rbRows b' = rbRows b @ [row]" by (simp add: row_def b')
    have f: "eRunID row = rRunID ref" "eID row = entryID" "eParentID row = rbParentID b"
      "eTranscriptIndex row = Some (nextIndexOf (rbNextIndex b) (rRunID ref))"
      "eDispatchState row = dispatch" "eReceiptOutcome row = outcome" "eActionID row = rActionID ref"
      by (simp_all add: row_def b')
    have "receiptFor plan sid branch p row"
      using recoveryOutcome_Inr [OF out f(5-7)] a
      unfolding receiptFor_def by (simp add: p occ) (simp add: row_def b' refFromEntry_def emptyEntry_def)
    with L(1) need have all2: "list_all2 (receiptFor plan sid branch) (filter (lacksReceipt plan sid) (ps @ [p])) (rbRows b')"
      by (simp add: rows list_all2_appendI)
    have parents: "map eParentID (rbRows b') = butlast (leaf # map eID (rbRows b'))"
      using L(2,3) f(3) append_butlast_last_id [of "leaf # map eID (rbRows b)"] by (simp add: rows butlast_append)
    show ?thesis
      unfolding builtFrom_def
    proof (intro conjI allI impI)
      show "rbParentID b' = last (leaf # map eID (rbRows b'))" using f(2) by (simp add: rows) (simp add: b')
      show "nextIndexOf (rbNextIndex b') run
          = nextIndexOf (rpNextTranscriptIndex plan) run + of_nat (runRows run (rbRows b'))" for run
        using L(4) [of run] f(1) by (simp add: rows runRows_snoc) (simp add: b' nextIndexOf_def)
      fix i assume "i < length (rbRows b')"
      then consider "i < length (rbRows b)" | "i = length (rbRows b)" by (fastforce simp: rows)
      then show "eTranscriptIndex (rbRows b' ! i) = Some (nextIndexOf (rpNextTranscriptIndex plan)
          (eRunID (rbRows b' ! i)) + of_nat (runRows (eRunID (rbRows b' ! i)) (take i (rbRows b'))))"
      proof cases
        case 1
        with L(5) show ?thesis by (simp add: rows nth_append)
      next
        case 2
        with f(1,4) L(4) [of "rRunID ref"] show ?thesis by (simp add: rows)
      qed
    qed (rule all2 parents)+
  qed
qed

lemma buildRecoveryReceipts_built:
  assumes "buildRecoveryReceipts h plan decisions sid branch leaf entries = Inr rows"
  shows "length decisions = length (rpPending plan)"
    "\<exists>b. rbRows b = rows \<and> builtFrom plan sid branch leaf (zip (rpPending plan) decisions) b"
proof -
  let ?b0 = "\<lparr> rbParentID = leaf, rbNextIndex = rpNextTranscriptIndex plan, rbRows = [] \<rparr>"
  from assms obtain b where b: "foldR (buildReceipt h plan sid branch leaf entries) ?b0 (zip (rpPending plan) decisions) = Inr b"
    "rbRows b = rows" and len: "length decisions = length (rpPending plan)"
    by (auto simp: buildRecoveryReceipts_def bindR_eq_Inr split: if_splits)
  show "length decisions = length (rpPending plan)" by (rule len)
  have "builtFrom plan sid branch leaf (zip (rpPending plan) decisions) b"
  proof (rule foldR_prefix_invariant [where I = "builtFrom plan sid branch leaf", OF b(1)])
    show "builtFrom plan sid branch leaf [] ?b0" by (simp add: builtFrom_def runRows_def)
  qed (rule buildReceipt_step)
  with b(2) show "\<exists>b. rbRows b = rows \<and> builtFrom plan sid branch leaf (zip (rpPending plan) decisions) b" by blast
qed

section \<open>Opening a session file again\<close>

text \<open>
  The receipts recovery may have to write for the rows in the file can be written: sequence
  numbers are left and they survive encoding.
\<close>

definition recoveryWritable :: "'h session_host_scheme \<Rightarrow> string \<Rightarrow> string \<Rightarrow> session_entry list \<Rightarrow> bool" where
  "recoveryWritable h name sid entries \<longleftrightarrow>
     (\<forall>ls plan decisions rows. validateLoadedDurableEntries h entries sid = Inr ls
        \<and> analyzeDurableActionJournal entries sid = Inr plan
        \<and> buildRecoveryReceipts h plan decisions sid (lsBranch ls) (lsLeaf ls) (lsIndex ls) = Inr rows
      \<longrightarrow> writable h (loadedStore name sid entries ls) rows)"

lemma lsBranch_ne:
  assumes "loadRows h sid rows = Inr ls"
  shows "lsBranch ls \<noteq> []"
  using assms unfolding loadRows_def
  by (rule foldR_invariant) (auto simp: initialLoad_def loadRow_Inr)

lemma loadedStore_holds:
  assumes R: "readComplete h (fileBytes d name) = Inr (entries, [])"
    and L: "validateLoadedDurableEntries h entries sid = Inr ls"
  shows "holds h (d, loadedStore name sid entries ls) entries"
proof -
  have acc: "accepted h sid entries ls" using L by (simp add: accepted_def)
  then have load: "loadRows h sid entries = Inr ls" by (simp add: accepted_iff)
  have "lsIndex ls = tableOf entries" using loadRows_inv [OF load] by (simp add: loadInv_def)
  then have "memoryOf h (loadedStore name sid entries ls) entries ls"
    using acc lsBranch_ne [OF load] by (simp add: memoryOf_def loadedStore_def newDurableJSONLStore_def)
  moreover have "fileInv h sid entries (fileBytes d name)" by (rule fileInv_clean [OF R acc])
  ultimately show ?thesis using R
    by (auto simp: holds_def loadedStore_def newDurableJSONLStore_def)
qed

text \<open>
  The outcome of a step of a preparation for one file: the file still holds the given rows,
  no other file changed, and on success the result has a property.
\<close>

definition fileStep ::
  "'h session_host_scheme \<Rightarrow> string \<Rightarrow> string \<Rightarrow> session_entry list \<Rightarrow> session_disk \<Rightarrow> session_disk \<Rightarrow> bool" where
  "fileStep h sid name rows d d' \<longleftrightarrow> fileInv h sid rows (fileBytes d' name) \<and> onlyFile name d d'"

lemma fileStep_same: "fileInv h sid rows (fileBytes d name) \<Longrightarrow> sameFiles d d' \<Longrightarrow> fileStep h sid name rows d d'"
  by (simp add: fileStep_def sameFiles_bytes onlyFile_same)

lemma fileStep_trans: "onlyFile name d d1 \<Longrightarrow> fileStep h sid name rows d1 d2 \<Longrightarrow> fileStep h sid name rows d d2"
  by (auto simp: fileStep_def intro: onlyFile_trans)

lemma publishedStore_Inr:
  assumes "publishedStore h inspect plan s = Inr s'"
  obtains rows view where "orderedDurableBranch (dsActiveLeafID s) (dsEntries s) = Inr rows"
    "durableSessionView h (dsSessionID s) (dsActiveBranchID s) (dsMaxSeq s) rows = Inr view"
    "s' = s \<lparr> dsView := view \<lparr> svDiagnostics := inspectPendingBashExecutionIdentities inspect plan \<rparr> \<rparr>"
  using assms by (auto simp: publishedStore_def bindR_eq_Inr)

lemma holds_view: "holds h (d, s \<lparr> dsView := v \<rparr>) rows = holds h (d, s) rows"
  by (simp add: holds_def memoryOf_def)

lemma appendRecovery_effect:
  assumes H: "holds h (d, st) entries" and w: "rows \<noteq> [] \<Longrightarrow> writable h st rows"
    and p: "\<not> dsPoisoned st" and run: "appendRecovery h st rows d = (r, d')"
  shows "fileStep h (dsSessionID st) (dsName st) entries d d'"
    "\<forall>st'. r = Inr st' \<longrightarrow> (\<exists>new. holds h (d', st') (entries @ new)) \<and> dsName st' = dsName st
       \<and> dsSessionID st' = dsSessionID st \<and> dsClosed st' = dsClosed st \<and> \<not> dsPoisoned st'"
proof -
  have F: "fileInv h (dsSessionID st) entries (fileBytes d (dsName st))" using H by (simp add: holds_def)
  have "fileStep h (dsSessionID st) (dsName st) entries d d' \<and>
    (\<forall>st'. r = Inr st' \<longrightarrow> (\<exists>new. holds h (d', st') (entries @ new)) \<and> dsName st' = dsName st
       \<and> dsSessionID st' = dsSessionID st \<and> dsClosed st' = dsClosed st \<and> \<not> dsPoisoned st')"
  proof (cases "rows = []")
    case True
    with run H p fileStep_same [OF F] show ?thesis
      by (auto simp: appendRecovery_def intro!: exI [of _ "[]"])
  next
    case False
    obtain ra d1 s1 where a: "AppendAndSync h rows (d, st) = (ra, (d1, s1))" by (metis prod.collapse)
    from AppendAndSync_effect [OF H w [OF False] a] obtain new where E: "appendEffect h entries ra (d, st) (d1, s1) new" by blast
    then have H1: "holds h (d1, s1) (entries @ new)" and keep: "dsName s1 = dsName st" "dsSessionID s1 = dsSessionID st"
      "dsClosed s1 = dsClosed st" "onlyFile (dsName st) d d1"
      by (auto simp: appendEffect_def onlyFile_def)
    from H1 keep have "fileInv h (dsSessionID st) (entries @ new) (fileBytes d1 (dsName st))" by (simp add: holds_def)
    then have S: "fileStep h (dsSessionID st) (dsName st) entries d d1"
      using fileInv_prefix keep(4) by (auto simp: fileStep_def)
    have d': "d' = d1" "\<And>st'. r = Inr st' \<Longrightarrow> st' = s1 \<and> (\<exists>canon. ra = Inr canon)"
      using run a False by (auto simp: appendRecovery_def split: sum.splits)
    with S H1 keep E p show ?thesis by (auto simp: appendEffect_def)
  qed
  then show "fileStep h (dsSessionID st) (dsName st) entries d d'"
    "\<forall>st'. r = Inr st' \<longrightarrow> (\<exists>new. holds h (d', st') (entries @ new)) \<and> dsName st' = dsName st
       \<and> dsSessionID st' = dsSessionID st \<and> dsClosed st' = dsClosed st \<and> \<not> dsPoisoned st'" by blast+
qed

definition sameDisk :: "'d \<times> 'a \<Rightarrow> 'd \<times> 'a \<Rightarrow> bool" where
  "sameDisk p q \<longleftrightarrow> fst q = fst p"

lemma sameDisk_trans: "sameDisk s t \<Longrightarrow> sameDisk t u \<Longrightarrow> sameDisk s u"
  by (simp add: sameDisk_def)

lemma sameDisk_ops:
  "keepsS sameDisk (onAuthority m)" "keepsS sameDisk (liftR x)" "keepsS sameDisk (okS y)" "keepsS sameDisk (failS e)"
  by (auto simp: keepsS_def onAuthority_def sameDisk_def split: prod.splits)

lemma consultAuthority_disk: "keepsS sameDisk (consultAuthority authority plan)"
  unfolding consultAuthority_def
  by (auto intro!: keepsS_bind [OF sameDisk_trans] sameDisk_ops split: option.split)

text \<open>What a store is after a successful preparation.\<close>

definition resumedStore ::
  "'h session_host_scheme \<Rightarrow> string \<Rightarrow> string \<Rightarrow> session_entry list \<Rightarrow> session_disk \<Rightarrow> durable_store \<Rightarrow> bool" where
  "resumedStore h sid name entries d st \<longleftrightarrow> (\<exists>new. holds h (d, st) (entries @ new))
     \<and> dsName st = name \<and> dsSessionID st = sid \<and> \<not> dsClosed st \<and> \<not> dsPoisoned st
     \<and> (\<exists>rows view. orderedDurableBranch (dsActiveLeafID st) (dsEntries st) = Inr rows
          \<and> durableSessionView h sid (dsActiveBranchID st) (dsMaxSeq st) rows = Inr view
          \<and> dsView st = view \<lparr> svDiagnostics := svDiagnostics (dsView st) \<rparr>)"

lemma onDisk_run: "onDisk m (d, s) = (r, (d', s')) \<longleftrightarrow> m d = (r, d') \<and> s' = s"
  by (auto simp: onDisk_def split: prod.splits)

text \<open>The second half of a recovery, once the plan is known.\<close>

lemma recoverPlan_effect:
  assumes R: "readComplete h (fileBytes d name) = Inr (entries, [])"
    and w: "recoveryWritable h name sid entries" and F: "fileInv h sid entries (fileBytes d name)"
    and L: "validateLoadedDurableEntries h entries sid = Inr ls" and P: "analyzeDurableActionJournal entries sid = Inr plan"
    and run: "bindS (onDisk (ioStep ErrIO)) (\<lambda>_. bindS (consultAuthority authority plan) (\<lambda>decisions.
     bindS (onDisk (ioStep ErrIO)) (\<lambda>_.
     bindS (liftR (if rpPending plan = [] then Inr []
       else buildRecoveryReceipts h plan decisions sid (lsBranch ls) (lsLeaf ls) (lsIndex ls))) (\<lambda>rows.
     bindS (onDisk (appendRecovery h (loadedStore name sid entries ls) rows)) (\<lambda>store.
       liftR (publishedStore h inspect plan store)))))) (d, a) = (r, (d', a'))"
  shows "fileStep h sid name entries d d' \<and> (\<forall>st. r = Inr st \<longrightarrow> resumedStore h sid name entries d' st)"
proof -
  have stay: "fileStep h sid name entries d d1" if "sameFiles d d1" for d1 using fileStep_same [OF F that] .
  let ?st = "loadedStore name sid entries ls"
  have st: "dsName ?st = name" "dsSessionID ?st = sid" "\<not> dsPoisoned ?st" "\<not> dsClosed ?st"
    by (simp_all add: loadedStore_def newDurableJSONLStore_def)
  from run show ?thesis
  proof (cases rule: bindS_cases)
    case (fails e)
    with ioStep_files stay show ?thesis by (auto simp: onDisk_run)
  next
    case (runs u q)
    then obtain d1 where q: "q = (d1, a)" "sameFiles d d1" by (cases q) (auto simp: onDisk_run dest: ioStep_files)
    from runs(2) show ?thesis
    proof (cases rule: bindS_cases)
      case (fails e)
      with keepsS_D [OF consultAuthority_disk fails(1)] q stay show ?thesis by (auto simp: sameDisk_def)
    next
      case (runs decisions q2)
      then obtain a2 where q2: "q2 = (d1, a2)"
        using keepsS_D [OF consultAuthority_disk runs(1)] q by (cases q2) (auto simp: sameDisk_def)
      from runs(2) [unfolded q2] show ?thesis
      proof (cases rule: bindS_cases)
        case (fails e)
        with q(2) stay show ?thesis by (auto simp: onDisk_run dest!: ioStep_files intro: sameFiles_trans)
      next
        case (runs u3 q3)
        then obtain d3 where q3: "q3 = (d3, a2)" "sameFiles d d3"
          using q(2) by (cases q3) (auto simp: onDisk_run dest!: ioStep_files intro: sameFiles_trans)
        from runs(2) [unfolded q3(1)] show ?thesis
        proof (cases rule: bindS_cases)
          case (fails e)
          with q3 stay show ?thesis by auto
        next
          case (runs rows q4)
          then have q4: "q4 = (d3, a2)" and rows: "(if rpPending plan = [] then Inr []
              else buildRecoveryReceipts h plan decisions sid (lsBranch ls) (lsLeaf ls) (lsIndex ls)) = Inr rows" by auto
          have wr: "writable h ?st rows" if "rows \<noteq> []"
            using w L P rows that unfolding recoveryWritable_def by (auto split: if_splits)
          have R3: "readComplete h (fileBytes d3 name) = Inr (entries, [])" by (simp add: sameFiles_bytes [OF q3(2)] R)
          note H = loadedStore_holds [OF R3 L]
          from runs(2) [unfolded q4] show ?thesis
          proof (cases rule: bindS_cases)
            case (fails e)
            then have "appendRecovery h ?st rows d3 = (Inl e, d')" by (auto simp: onDisk_run)
            from appendRecovery_effect(1) [OF H wr st(3) this] fileStep_trans [OF onlyFile_same [OF q3(2)]] fails(2) st
            show ?thesis by auto
          next
            case (runs store q5)
            then have ar: "appendRecovery h ?st rows d3 = (Inr store, d')" and pub: "r = publishedStore h inspect plan store"
              by (cases q5; auto simp: onDisk_run)+
            note A = appendRecovery_effect [OF H wr st(3) ar]
            from A(1) fileStep_trans [OF onlyFile_same [OF q3(2)]] st have step: "fileStep h sid name entries d d'" by auto
            have "resumedStore h sid name entries d' st'" if "r = Inr st'" for st'
            proof -
              from publishedStore_Inr [of h inspect plan store st'] pub that obtain brows view where
                v: "orderedDurableBranch (dsActiveLeafID store) (dsEntries store) = Inr brows"
                "durableSessionView h (dsSessionID store) (dsActiveBranchID store) (dsMaxSeq store) brows = Inr view"
                "st' = store \<lparr> dsView := view \<lparr> svDiagnostics := inspectPendingBashExecutionIdentities inspect plan \<rparr> \<rparr>"
                by metis
              from A(2) st show ?thesis
                unfolding resumedStore_def v(3) using v(1,2) by (auto simp: holds_view)
            qed
            with step show ?thesis by blast
          qed
        qed
      qed
    qed
  qed
qed

lemma recoverLoaded_effect:
  assumes R: "readComplete h (fileBytes d name) = Inr (entries, [])"
    and w: "recoveryWritable h name sid entries" and F: "fileInv h sid entries (fileBytes d name)"
    and run: "recoverLoaded h authority inspect name sid entries (d, a) = (r, (d', a'))"
  shows "fileStep h sid name entries d d' \<and> (\<forall>st. r = Inr st \<longrightarrow> resumedStore h sid name entries d' st)"
proof -
  have stay: "fileStep h sid name entries d d1" if "sameFiles d d1" for d1 using fileStep_same [OF F that] .
  from run [unfolded recoverLoaded_def] show ?thesis
  proof (cases rule: bindS_cases)
    case (fails e)
    then show ?thesis using stay by auto
  next
    case (runs ls u)
    then have L: "validateLoadedDurableEntries h entries sid = Inr ls" and u: "u = (d, a)" by auto
    from runs(2) [unfolded u] show ?thesis
    proof (cases rule: bindS_cases)
      case (fails e)
      then show ?thesis using stay by auto
    next
      case (runs branch u)
      then have u: "u = (d, a)" by auto
      from runs(2) [unfolded u] show ?thesis
      proof (cases rule: bindS_cases)
        case (fails e)
        then show ?thesis using stay by auto
      next
        case (runs v u)
        then have u: "u = (d, a)" by auto
        from runs(2) [unfolded u] show ?thesis
        proof (cases rule: bindS_cases)
          case (fails e)
          then show ?thesis using stay by auto
        next
          case (runs plan u)
          then have P: "analyzeDurableActionJournal entries sid = Inr plan" and u: "u = (d, a)" by auto
          from runs(2) [unfolded u] show ?thesis
            by (rule recoverPlan_effect [OF R w F L P])
        qed
      qed
    qed
  qed
qed

text \<open>
  Preparing a session for which the file of the given name is found: whatever fails on the
  way, the file still holds its rows; on success the store holds them and possibly more.
\<close>

lemma PrepareResume_effect:
  assumes F: "fileInv h sid rows (fileBytes d name)" and N: "resolvePhysicalSessionFilename d sid = Inr name"
    and w: "\<And>d0 d1 entries. sameFiles d d0 \<Longrightarrow> readDurableJSONL h name d0 = (Inr entries, d1) \<Longrightarrow> recoveryWritable h name sid entries"
    and run: "PrepareResume h authority inspect directory sid (d, a) = (r, (d', a'))"
  shows "fileStep h sid name rows d d' \<and> (\<forall>st. r = Inr st \<longrightarrow> (\<exists>extra. resumedStore h sid name (rows @ extra) d' st))"
proof -
  have stay: "fileStep h sid name rows d d1" if "sameFiles d d1" for d1 using fileStep_same [OF F that] .
  from run [unfolded PrepareResume_def] show ?thesis
  proof (cases rule: bindS_cases)
    case (fails e)
    with stay show ?thesis by (auto simp: onDisk_run dest: contextErr_files)
  next
    case (runs u q)
    then obtain d1 where q: "q = (d1, a)" "sameFiles d d1" by (cases q) (auto simp: onDisk_run dest: contextErr_files)
    have N1: "resolvePhysicalSessionFilename d1 sid = Inr name"
      using N q(2) unfolding resolvePhysicalSessionFilename_def sameFiles_def by (simp only:)
    show ?thesis
    proof (cases "directory = [] \<or> \<not> validPhysicalSessionID sid")
      case True
      with runs(2) q stay show ?thesis by (auto split: if_splits)
    next
      case False
      with runs(2) q(1) have "bindS (\<lambda>p. liftR (resolvePhysicalSessionFilename (fst p) sid) p) (\<lambda>name.
         bindS (onDisk (ioStep ErrIO)) (\<lambda>_. bindS (onDisk (ioStep ErrIO)) (\<lambda>_.
         bindS (onDisk (readDurableJSONL h name)) (\<lambda>entries.
           recoverLoaded h authority inspect name sid entries)))) (d1, a) = (r, (d', a'))" by simp
      then have "bindS (onDisk (ioStep ErrIO)) (\<lambda>_. bindS (onDisk (ioStep ErrIO)) (\<lambda>_.
         bindS (onDisk (readDurableJSONL h name)) (\<lambda>entries.
           recoverLoaded h authority inspect name sid entries))) (d1, a) = (r, (d', a'))"
        by (simp add: bindS_def N1)
      then show ?thesis
      proof (cases rule: bindS_cases)
        case (fails e)
        with q(2) stay show ?thesis by (auto simp: onDisk_run dest!: ioStep_files intro: sameFiles_trans)
      next
        case (runs u q2)
        then obtain d2 where q2: "q2 = (d2, a)" "sameFiles d d2"
          using q(2) by (cases q2) (auto simp: onDisk_run dest!: ioStep_files intro: sameFiles_trans)
        from runs(2) [unfolded q2(1)] show ?thesis
        proof (cases rule: bindS_cases)
          case (fails e)
          with q2(2) stay show ?thesis by (auto simp: onDisk_run dest!: ioStep_files intro: sameFiles_trans)
        next
          case (runs u q3)
          then obtain d3 where q3: "q3 = (d3, a)" "sameFiles d d3"
            using q2(2) by (cases q3) (auto simp: onDisk_run dest!: ioStep_files intro: sameFiles_trans)
          have F3: "fileInv h sid rows (fileBytes d3 name)" by (simp add: sameFiles_bytes [OF q3(2)] F)
          from runs(2) [unfolded q3(1)] show ?thesis
          proof (cases rule: bindS_cases)
            case (fails e)
            then have "readDurableJSONL h name d3 = (Inl e, d')" by (auto simp: onDisk_run)
            from read_repairs [OF F3 this] fails(2) onlyFile_trans [OF onlyFile_same [OF q3(2)]] show ?thesis
              by (auto simp: fileStep_def)
          next
            case (runs entries q4)
            then obtain d4 where q4: "q4 = (d4, a)" "readDurableJSONL h name d3 = (Inr entries, d4)"
              by (cases q4) (auto simp: onDisk_run)
            from read_repairs [OF F3 q4(2)] obtain extra ls where e: "entries = rows @ extra"
              "readComplete h (fileBytes d4 name) = Inr (rows @ extra, [])" "accepted h sid (rows @ extra) ls"
              "onlyFile name d3 d4" by auto
            have F4: "fileInv h sid entries (fileBytes d4 name)" using fileInv_clean e by simp
            from recoverLoaded_effect [OF e(2) [folded e(1)] w [OF q3(2) q4(2)] F4 runs(2) [unfolded q4(1)]]
            have S: "fileStep h sid name entries d4 d'" "\<forall>st. r = Inr st \<longrightarrow> resumedStore h sid name entries d' st"
              by blast+
            from S(1) have "fileStep h sid name rows d4 d'" using fileInv_prefix by (auto simp: fileStep_def e(1))
            then have "fileStep h sid name rows d d'"
              using fileStep_trans [OF onlyFile_trans [OF onlyFile_same [OF q3(2)] e(4)]] by blast
            with S(2) e(1) show ?thesis by blast
          qed
        qed
      qed
    qed
  qed
qed

section \<open>New sessions\<close>

lemma removeOnError_run:
  assumes "removeOnError name m d = (Inr x, d')"
  shows "m d = (Inr x, d')"
  using assms by (auto simp: removeOnError_def split: prod.splits sum.splits io_outcome.splits)

lemma openNewSession_new:
  assumes run: "openNewSession label sid d = (Inr s, d')" and fresh: "map_of (dkFiles d) (sid @ ''.jsonl'') = None"
  shows "dsName s = sid @ ''.jsonl''" "dsSessionID s = sid" "dsEntries s = []" "dsAppendOrder s = []"
    "dsMaxSeq s = 0" "dsActiveLeafID s = []" "dsActiveBranchID s = ''main''" "\<not> dsPoisoned s" "\<not> dsClosed s"
    "fileBytes d' (dsName s) = []" "map_of (dkFiles d') (dsName s) \<noteq> None" "onlyFile (dsName s) d d'"
proof -
  let ?name = "sid @ ''.jsonl''"
  let ?st = "(newDurableJSONLStore ?name sid label ''main'' [] 0 [])
      \<lparr> dsView := emptyView \<lparr> svSessionID := sid, svBranchID := ''main'' \<rparr> \<rparr>"
  from run [unfolded openNewSession_def Let_def] have "s = ?st \<and> (\<exists>d1. sameFiles d d1 \<and> sameFiles (setFile ?name [] d1) d')"
  proof (cases rule: bindS_cases)
    case (runs u d1)
    from runs(2) have "s = ?st \<and> removeOnError ?name
       (bindS (ioStep ErrIO) (\<lambda>_. bindS (ioStep ErrIO) (\<lambda>_. ioStep ErrIO))) (setFile ?name [] d1) = (Inr (), d')"
      by (cases rule: bindS_cases) auto
    then have "s = ?st" and quiet: "bindS (ioStep ErrIO) (\<lambda>_. bindS (ioStep ErrIO) (\<lambda>_. ioStep ErrIO)) (setFile ?name [] d1) = (Inr (), d')"
      by (auto dest: removeOnError_run)
    have "ioOnly (bindS (ioStep ErrIO) (\<lambda>_. bindS (ioStep ErrIO) (\<lambda>_. ioStep ErrIO)))"
      by (intro ioOnly_bind ioOnly_step)
    from ioOnly_D [OF this quiet] ioStep_files [OF runs(1)] \<open>s = ?st\<close> show ?thesis by blast
  qed auto
  then obtain d1 where s: "s = ?st" and d1: "sameFiles d d1" "sameFiles (setFile ?name [] d1) d'" by blast
  show "dsName s = sid @ ''.jsonl''" "dsSessionID s = sid" "dsEntries s = []" "dsAppendOrder s = []"
    "dsMaxSeq s = 0" "dsActiveLeafID s = []" "dsActiveBranchID s = ''main''" "\<not> dsPoisoned s" "\<not> dsClosed s"
    by (simp_all add: s newDurableJSONLStore_def)
  show "fileBytes d' (dsName s) = []" "map_of (dkFiles d') (dsName s) \<noteq> None" "onlyFile (dsName s) d d'"
    using d1 by (auto simp: s newDurableJSONLStore_def sameFiles_bytes onlyFile_def fileBytes_setFile)
      (simp add: sameFiles_def setFile_def)
qed

lemma allocateSession_new:
  "allocateSession label n d = (Inr s, d') \<Longrightarrow>
     \<exists>d0. sameFiles d d0 \<and> map_of (dkFiles d0) (dsSessionID s @ ''.jsonl'') = None
       \<and> openNewSession label (dsSessionID s) d0 = (Inr s, d')"
proof (induction label n d rule: allocateSession.induct)
  case (2 label n d)
  from "2.prems" [unfolded allocateSession.simps] show ?case
  proof (cases rule: bindS_cases)
    case (runs x d1)
    then have same: "sameFiles d d1"
      by (auto simp: randomPhysicalSessionID_def sameFiles_def split: list.splits)
    show ?thesis
    proof (cases "map_of (dkFiles d1) (x @ ''.jsonl'') = None")
      case True
      with runs(2) have o: "openNewSession label x d1 = (Inr s, d')" by simp
      from openNewSession_new(2) [OF o True] o True same show ?thesis by auto
    next
      case False
      with runs(2) have "allocateSession label n d1 = (Inr s, d')" by simp
      from "2.IH" [OF False this] same show ?thesis using sameFiles_trans by blast
    qed
  qed auto
qed simp

lemma PrepareNew_new:
  assumes "PrepareNew directory label d = (Inr s, d')"
  shows "holds h (d', s) []" "dsName s = dsSessionID s @ ''.jsonl''" "map_of (dkFiles d) (dsName s) = None"
    "map_of (dkFiles d') (dsName s) \<noteq> None" "onlyFile (dsName s) d d'" "\<not> dsPoisoned s" "\<not> dsClosed s"
proof -
  have "\<exists>d0. sameFiles d d0 \<and> allocateSession label 8 d0 = (Inr s, d')"
    using assms [unfolded PrepareNew_def]
  proof (cases rule: bindS_cases)
    case (runs u d1)
    then have "directory \<noteq> []" and "bindS (ioStep ErrIO) (\<lambda>_. allocateSession label 8) d1 = (Inr s, d')"
      by (auto split: if_splits)
    from this(2) obtain d2 where "sameFiles d1 d2" "allocateSession label 8 d2 = (Inr s, d')"
      by (cases rule: bindS_cases) (auto dest: ioStep_files)
    with contextErr_files [OF runs(1)] show ?thesis using sameFiles_trans by blast
  qed auto
  then obtain d0 where "sameFiles d d0" "allocateSession label 8 d0 = (Inr s, d')" by blast
  with allocateSession_new obtain d1 where d1: "sameFiles d d1" "map_of (dkFiles d1) (dsSessionID s @ ''.jsonl'') = None"
    "openNewSession label (dsSessionID s) d1 = (Inr s, d')" using sameFiles_trans by blast
  note N = openNewSession_new [OF d1(3,2)]
  have load: "loadRows h (dsSessionID s) [] = Inr initialLoad" by (simp add: loadRows_def)
  have acc: "accepted h (dsSessionID s) [] initialLoad"
    by (simp add: accepted_iff load validateDurableBranchJournal_def branchJournal_def
        validateDurableTranscriptCoordinates_def)
  have "memoryOf h s [] initialLoad"
    using N(3-7) acc by (simp add: memoryOf_def tableOf_def initialLoad_def)
  moreover have "fileInv h (dsSessionID s) [] (fileBytes d' (dsName s))"
    by (rule fileInv_clean [OF _ acc]) (simp add: N(10))
  ultimately show "holds h (d', s) []" using N(10) by (auto simp: holds_def)
  show "dsName s = dsSessionID s @ ''.jsonl''" "map_of (dkFiles d') (dsName s) \<noteq> None" "\<not> dsPoisoned s" "\<not> dsClosed s"
    using N(1,8,9,11) by auto
  show "map_of (dkFiles d) (dsName s) = None" using d1 N(1) by (simp add: sameFiles_def)
  show "onlyFile (dsName s) d d'" by (rule onlyFile_trans [OF onlyFile_same [OF d1(1)] N(12)])
qed

section \<open>The life of a session\<close>

text \<open>
  The states of the handles on one session, with the set of rows that successful appends have
  returned to their callers: it is created, rows are appended in any number of calls with any
  I/O failures, the handle is closed, and the session is resumed, after a close or after a
  crash of the process, which leaves the disk as it is. A preparation that fails leaves no
  handle: the old one can only be resumed again.
\<close>

inductive lifecycle :: "'h session_host_scheme \<Rightarrow> 'a recovery_authority option \<Rightarrow> open_store \<Rightarrow> session_entry set \<Rightarrow> bool" for h authority where
  created: "PrepareNew directory label d = (Inr s, d') \<Longrightarrow> lifecycle h authority (d', s) {}"
| appended: "lifecycle h authority (d, s) A \<Longrightarrow> writable h s ins \<Longrightarrow> AppendAndSync h ins (d, s) = (r, (d', s'))
     \<Longrightarrow> lifecycle h authority (d', s') (case r of Inl _ \<Rightarrow> A | Inr canon \<Rightarrow> A \<union> set canon)"
| closed: "lifecycle h authority (d, s) A \<Longrightarrow> closeStore (d, s) = (r, (d', s')) \<Longrightarrow> lifecycle h authority (d', s') A"
| world: "lifecycle h authority (d, s) A \<Longrightarrow> sameFiles d d' \<Longrightarrow> lifecycle h authority (d', s) A"
| resumed: "lifecycle h authority (d, s) A
     \<Longrightarrow> (\<And>d0 d1 entries. sameFiles d d0 \<Longrightarrow> readDurableJSONL h (dsName s) d0 = (Inr entries, d1)
           \<Longrightarrow> recoveryWritable h (dsName s) (dsSessionID s) entries)
     \<Longrightarrow> PrepareResume h authority inspect directory (dsSessionID s) (d, a) = (r, (d', a'))
     \<Longrightarrow> lifecycle h authority (d', case r of Inl _ \<Rightarrow> s \<lparr> dsClosed := True, dsPoisoned := True \<rparr> | Inr s' \<Rightarrow> s') A"

text \<open>
  The same life without any condition on what is written, with the batches given to appends and
  the files given to resumes; and the condition, for one of these: sequence numbers are left, and
  the rows it may add survive the JSON codec.
\<close>

datatype store_event = BatchGiven durable_store "session_entry list" | FileResumed session_disk durable_store

definition codecSafe :: "'h session_host_scheme \<Rightarrow> store_event \<Rightarrow> bool" where
  "codecSafe h ev \<longleftrightarrow> (case ev of
      BatchGiven s ins \<Rightarrow> writable h s ins
    | FileResumed d s \<Rightarrow> \<forall>d0 d1 entries. sameFiles d d0 \<and> readDurableJSONL h (dsName s) d0 = (Inr entries, d1)
        \<longrightarrow> recoveryWritable h (dsName s) (dsSessionID s) entries)"

inductive storeHistory ::
  "'h session_host_scheme \<Rightarrow> 'a recovery_authority option \<Rightarrow> open_store \<Rightarrow> session_entry set \<Rightarrow> store_event list \<Rightarrow> bool"
  for h authority where
  created: "PrepareNew directory label d = (Inr s, d') \<Longrightarrow> storeHistory h authority (d', s) {} []"
| appended: "storeHistory h authority (d, s) A evs \<Longrightarrow> AppendAndSync h ins (d, s) = (r, (d', s'))
     \<Longrightarrow> storeHistory h authority (d', s') (case r of Inl _ \<Rightarrow> A | Inr canon \<Rightarrow> A \<union> set canon) (BatchGiven s ins # evs)"
| closed: "storeHistory h authority (d, s) A evs \<Longrightarrow> closeStore (d, s) = (r, (d', s'))
     \<Longrightarrow> storeHistory h authority (d', s') A evs"
| world: "storeHistory h authority (d, s) A evs \<Longrightarrow> sameFiles d d' \<Longrightarrow> storeHistory h authority (d', s) A evs"
| resumed: "storeHistory h authority (d, s) A evs
     \<Longrightarrow> PrepareResume h authority inspect directory (dsSessionID s) (d, a) = (r, (d', a'))
     \<Longrightarrow> storeHistory h authority (d', case r of Inl _ \<Rightarrow> s \<lparr> dsClosed := True, dsPoisoned := True \<rparr> | Inr s' \<Rightarrow> s') A
           (FileResumed d s # evs)"

lemma storeHistory_lifecycle:
  assumes "storeHistory h authority p A evs" "\<forall>ev \<in> set evs. codecSafe h ev"
  shows "lifecycle h authority p A"
  using assms
proof (induction rule: storeHistory.induct)
  case (created directory label d s d')
  from created.hyps show ?case by (rule lifecycle.created)
next
  case (appended d s A evs ins r d' s')
  then have "writable h s ins" by (simp add: codecSafe_def)
  with appended show ?case by (intro lifecycle.appended) simp_all
next
  case (closed d s A evs r d' s')
  then show ?case by (blast intro: lifecycle.closed)
next
  case (world d s A evs d')
  then show ?case by (blast intro: lifecycle.world)
next
  case (resumed d s A evs inspect directory a r d' a')
  then have "recoveryWritable h (dsName s) (dsSessionID s) entries"
    if "sameFiles d d0" "readDurableJSONL h (dsName s) d0 = (Inr entries, d1)" for d0 d1 entries
    using that by (simp add: codecSafe_def)
  with resumed show ?case by (intro lifecycle.resumed) simp_all
qed

definition lifecycleInv :: "'h session_host_scheme \<Rightarrow> open_store \<Rightarrow> session_entry set \<Rightarrow> bool" where
  "lifecycleInv h p A \<longleftrightarrow> (\<exists>rows. holds h p rows \<and> A \<subseteq> set rows)
     \<and> dsName (snd p) = dsSessionID (snd p) @ ''.jsonl'' \<and> map_of (dkFiles (fst p)) (dsName (snd p)) \<noteq> None"

lemma fileExists_kept:
  assumes "map_of (dkFiles d) n \<noteq> None"
  shows "map_of (dkFiles (setFile m b d)) n \<noteq> None"
  using assms by (simp add: setFile_def)

definition keepsFiles :: "session_disk \<Rightarrow> session_disk \<Rightarrow> bool" where
  "keepsFiles d d' \<longleftrightarrow> fst ` set (dkFiles d) \<subseteq> fst ` set (dkFiles d')"

lemma keepsFiles_D: "keepsFiles d d' \<Longrightarrow> map_of (dkFiles d) n \<noteq> None \<Longrightarrow> map_of (dkFiles d') n \<noteq> None"
  by (auto simp: keepsFiles_def map_of_eq_None_iff)

lemma keepsFiles_trans: "keepsFiles a b \<Longrightarrow> keepsFiles b c \<Longrightarrow> keepsFiles a c"
  by (auto simp: keepsFiles_def)

lemma sameFiles_keeps: "sameFiles a b \<Longrightarrow> keepsFiles a b"
  by (simp add: sameFiles_def keepsFiles_def)

lemma keepsFiles_set: "keepsFiles d (setFile n b d)"
  by (auto simp: keepsFiles_def setFile_def)

lemma keepsFiles_ops:
  "keepsS keepsFiles (ioStep ErrIO)" "keepsS keepsFiles (contextErr :: (session_disk, unit) op)"
  "keepsS keepsFiles (liftR x)" "keepsS keepsFiles (okS y)" "keepsS keepsFiles (failS e)"
  unfolding keepsS_def
  using ioStep_files [of ErrIO] contextErr_files sameFiles_keeps
  by (metis prod.collapse, metis prod.collapse, simp_all add: keepsFiles_def)

lemma appendBytes_keeps: "keepsS keepsFiles (appendBytes n b)"
  unfolding keepsS_def
proof
  fix d :: session_disk
  obtain x d1 where t: "takeIO d = (x, d1)" by force
  have "keepsFiles d d1" by (rule sameFiles_keeps [OF takeIO_files [OF t]])
  then show "keepsFiles d (snd (appendBytes n b d))"
    using keepsFiles_set keepsFiles_trans by (cases x) (auto simp: appendBytes_def t)
qed

lemma bufferedWrite_keeps: "keepsS keepsFiles (bufferedWrite n b)"
  unfolding keepsS_def
proof
  fix d :: session_disk
  obtain x d1 where t: "takeIO d = (x, d1)" by force
  have "keepsFiles d d1" by (rule sameFiles_keeps [OF takeIO_files [OF t]])
  then show "keepsFiles d (snd (bufferedWrite n b d))"
    using keepsFiles_set keepsFiles_trans by (cases x) (auto simp: bufferedWrite_def t)
qed

lemma truncateFile_keeps: "keepsS keepsFiles (truncateFile n k)"
proof -
  have "keepsS keepsFiles (\<lambda>d. (Inr (), setFile n (take k (fileBytes d n)) d))"
    by (simp add: keepsS_def keepsFiles_set)
  then show ?thesis
    unfolding truncateFile_def by (intro keepsS_bind [OF keepsFiles_trans] keepsFiles_ops)
qed

lemma ioOnly_keeps: "ioOnly m \<Longrightarrow> keepsS keepsFiles m"
  unfolding keepsS_def ioOnly_def using sameFiles_keeps by (metis prod.collapse)

lemma keepsS_chosen: "(\<And>k. keepsS R (m k)) \<Longrightarrow> keepsS R (\<lambda>d. m (f d) d)"
  by (simp add: keepsS_def)

lemma keepsFiles_bind:
  assumes "keepsS keepsFiles m" "\<And>x. keepsS keepsFiles (f x)"
  shows "keepsS keepsFiles (bindS m f)"
  by (rule keepsS_bind [OF _ assms]) (rule keepsFiles_trans)

lemmas keeps_intros =
  keepsFiles_bind keepsFiles_ops appendBytes_keeps bufferedWrite_keeps
  ioOnly_keeps [OF ioOnly_quarantine] truncateFile_keeps

lemma repairTail_keeps: "keepsS keepsFiles (repairTail h name rows t)"
proof -
  have "keepsS keepsFiles (bindS (ioStep ErrIO) (\<lambda>_. bindS (appendBytes name [newline]) (\<lambda>_.
          bindS (ioStep ErrIO) (\<lambda>_. okS (rows @ [e])))))" for e
    by (intro keeps_intros)
  moreover have "keepsS keepsFiles (bindS (quarantineTornSuffix t) (\<lambda>_.
          bindS (\<lambda>d. truncateFile name (length (fileBytes d name) - length t) d) (\<lambda>_.
          bindS (ioStep ErrIO) (\<lambda>_. okS rows))))"
    by (intro keeps_intros keepsS_chosen [where m = "truncateFile name"])
  ultimately show ?thesis
    unfolding repairTail_def by (simp add: keepsFiles_ops split: sum.split decode_error.split)
qed

lemma readDurableJSONL_keeps: "keepsS keepsFiles (readDurableJSONL h name)"
proof -
  have "keepsS keepsFiles (\<lambda>d. bindS (liftR (readComplete h (fileBytes d name))) (\<lambda>r. repairTail h name (fst r) (snd r)) d)"
    by (rule keepsS_chosen [where f = "\<lambda>d. readComplete h (fileBytes d name)"
          and m = "\<lambda>k. bindS (liftR k) (\<lambda>r. repairTail h name (fst r) (snd r))"])
      (intro keeps_intros repairTail_keeps)
  then show ?thesis unfolding readDurableJSONL_def by (intro keeps_intros)
qed

text \<open>The same for operations on a disk and something else.\<close>

definition keepsDisk :: "session_disk \<times> 'a \<Rightarrow> session_disk \<times> 'a \<Rightarrow> bool" where
  "keepsDisk p q \<longleftrightarrow> keepsFiles (fst p) (fst q)"

lemma keepsDisk_trans: "keepsDisk p q \<Longrightarrow> keepsDisk q r \<Longrightarrow> keepsDisk p r"
  unfolding keepsDisk_def by (rule keepsFiles_trans)

lemma keepsDisk_on: "keepsS keepsFiles m \<Longrightarrow> keepsS keepsDisk (onDisk m)"
  by (auto simp: keepsS_def onDisk_def keepsDisk_def split: prod.splits) (metis snd_conv)

lemma keepsDisk_poison: "keepsS keepsFiles m \<Longrightarrow> keepsS keepsDisk (poisonOn m)"
  by (auto simp: keepsS_def poisonOn_def keepsDisk_def split: prod.splits sum.splits) (metis snd_conv)+

lemma keepsDisk_ops: "keepsS keepsDisk (liftR x)" "keepsS keepsDisk (okS y)" "keepsS keepsDisk (failS e)"
  by (simp_all add: keepsS_def keepsDisk_def keepsFiles_def)

lemma keepsDisk_pure: "(\<And>p. fst (snd (m p)) = fst p) \<Longrightarrow> keepsS keepsDisk m"
  by (simp add: keepsS_def keepsDisk_def keepsFiles_def)

lemma keepsDisk_sameDisk: "keepsS sameDisk m \<Longrightarrow> keepsS keepsDisk m"
  by (simp add: keepsS_def sameDisk_def keepsDisk_def keepsFiles_def)

lemma keepsDisk_bind:
  assumes "keepsS keepsDisk m" "\<And>x. keepsS keepsDisk (f x)"
  shows "keepsS keepsDisk (bindS m f)"
  by (rule keepsS_bind [OF _ assms]) (rule keepsDisk_trans)

lemmas keepsDisk_intros = keepsDisk_bind keepsDisk_ops

lemma writeBatch_keeps: "keepsS keepsDisk (writeBatch b)"
  unfolding writeBatch_def
  by (intro keepsDisk_intros keepsDisk_poison keeps_intros) (rule keepsDisk_pure, simp)

lemma commitAppend_keeps: "keepsS keepsDisk (commitAppend a)"
  unfolding commitAppend_def by (intro keepsDisk_intros writeBatch_keeps) (rule keepsDisk_pure, simp)

lemma appendAndSyncLocked_keeps: "keepsS keepsDisk (appendAndSyncLocked h ins)"
proof -
  have inner: "keepsS keepsDisk (\<lambda>q. if ins = [] then (Inr [], q)
        else bindS (liftR (foldR (stageRow h (snd q)) (initialStage (snd q)) ins)) (\<lambda>g.
          if agNewRows g = [] then okS (agCanonical g)
          else bindS (liftR (decideAppend h (snd q) g)) commitAppend) q)"
  proof (cases "ins = []")
    case True
    then show ?thesis by (simp add: keepsS_def keepsDisk_def keepsFiles_def)
  next
    case False
    have "keepsS keepsDisk (bindS (liftR (foldR (stageRow h s) (initialStage s) ins)) (\<lambda>g.
          if agNewRows g = [] then okS (agCanonical g)
          else bindS (liftR (decideAppend h s g)) commitAppend))" for s
    proof (intro keepsDisk_intros)
      show "keepsS keepsDisk (if agNewRows g = [] then okS (agCanonical g)
          else bindS (liftR (decideAppend h s g)) commitAppend)" for g
        by (simp add: keepsDisk_ops keepsDisk_intros commitAppend_keeps)
    qed
    with False show ?thesis
      by (simp add: keepsS_chosen [where f = snd and m = "\<lambda>s. bindS (liftR (foldR (stageRow h s) (initialStage s) ins)) (\<lambda>g.
          if agNewRows g = [] then okS (agCanonical g)
          else bindS (liftR (decideAppend h s g)) commitAppend)"])
  qed
  have "keepsS keepsDisk (bindS (onDisk contextErr) (\<lambda>_ q. if ins = [] then (Inr [], q)
        else bindS (liftR (foldR (stageRow h (snd q)) (initialStage (snd q)) ins)) (\<lambda>g.
          if agNewRows g = [] then okS (agCanonical g)
          else bindS (liftR (decideAppend h (snd q) g)) commitAppend) q))"
    by (intro keepsDisk_intros keepsDisk_on keepsFiles_ops inner)
  then show ?thesis
    unfolding keepsS_def appendAndSyncLocked_def by (auto simp: keepsDisk_def keepsFiles_def)
qed

lemma AppendAndSync_keeps: "keepsS keepsDisk (AppendAndSync h ins)"
  unfolding AppendAndSync_def by (intro keepsDisk_intros keepsDisk_on keepsFiles_ops appendAndSyncLocked_keeps)

lemma appendRecovery_keeps: "keepsS keepsFiles (appendRecovery h st rows)"
  unfolding keepsS_def
proof
  fix d
  have "keepsDisk (d, st) (snd (AppendAndSync h rows (d, st)))"
    using AppendAndSync_keeps unfolding keepsS_def by blast
  then show "keepsFiles d (snd (appendRecovery h st rows d))"
    using sameFiles_keeps [OF sameFiles_refl] by (auto simp: appendRecovery_def keepsDisk_def split: prod.splits sum.splits)
qed

lemma PrepareResume_keeps: "keepsS keepsDisk (PrepareResume h authority inspect directory sid)"
proof -
  have "keepsS keepsDisk (recoverLoaded h authority inspect name sid entries)" for name entries
    unfolding recoverLoaded_def
    by (intro keepsDisk_intros keepsDisk_on keepsFiles_ops appendRecovery_keeps
        keepsDisk_sameDisk [OF consultAuthority_disk])
  then have "keepsS keepsDisk (bindS (\<lambda>p. liftR (resolvePhysicalSessionFilename (fst p) sid) p) (\<lambda>name.
         bindS (onDisk (ioStep ErrIO)) (\<lambda>_. bindS (onDisk (ioStep ErrIO)) (\<lambda>_.
         bindS (onDisk (readDurableJSONL h name)) (\<lambda>entries.
           recoverLoaded h authority inspect name sid entries)))))"
    by (intro keepsDisk_intros keepsDisk_on keepsFiles_ops readDurableJSONL_keeps) (rule keepsDisk_pure, simp)
  then show ?thesis
    unfolding PrepareResume_def
    by (intro keepsDisk_intros keepsDisk_on keepsFiles_ops) (simp add: keepsDisk_ops)
qed

text \<open>Every acknowledged row is among the rows the session's file holds, at any later time.\<close>

lemma holds_closed: "holds h (d, s \<lparr> dsClosed := c \<rparr>) rows = holds h (d, s) rows"
  by (simp add: holds_def memoryOf_def)

lemma closeStore_run:
  assumes "closeStore (d, s) = (r, (d', s'))"
  shows "sameFiles d d'" "s' = s \<or> s' = s \<lparr> dsClosed := True \<rparr>"
  using assms ioStep_files [of ErrIO]
  by (auto simp: closeStore_def split: if_splits prod.splits intro: sameFiles_trans)

lemma lifecycleInv_same: "sameFiles d d' \<Longrightarrow> lifecycleInv h (d, s) A \<Longrightarrow> lifecycleInv h (d', s) A"
proof -
  assume same: "sameFiles d d'" and I: "lifecycleInv h (d, s) A"
  from I obtain rows where "holds h (d, s) rows" "A \<subseteq> set rows" by (auto simp: lifecycleInv_def)
  with holds_same [OF _ same] have "\<exists>rows. holds h (d', s) rows \<and> A \<subseteq> set rows" by blast
  with I same show ?thesis unfolding lifecycleInv_def sameFiles_def fst_conv snd_conv by metis
qed

lemma lifecycleInv_closed: "lifecycleInv h (d, s \<lparr> dsClosed := c \<rparr>) A = lifecycleInv h (d, s) A"
  by (simp add: lifecycleInv_def holds_closed)

lemma lifecycle_inv: "lifecycle h authority p A \<Longrightarrow> lifecycleInv h p A"
proof (induction rule: lifecycle.induct)
  case (created directory label d s d')
  from PrepareNew_new [OF created] show ?case by (auto simp: lifecycleInv_def)
next
  case (appended d s A ins r d' s')
  then obtain rows where H: "holds h (d, s) rows" "A \<subseteq> set rows" and n: "dsName s = dsSessionID s @ ''.jsonl''"
    "map_of (dkFiles d) (dsName s) \<noteq> None" by (auto simp: lifecycleInv_def)
  from AppendAndSync_effect [OF H(1) appended.hyps(2,3)] obtain new where
    E: "appendEffect h rows r (d, s) (d', s') new" by blast
  have "map_of (dkFiles d') (dsName s) \<noteq> None"
    using keepsS_D [OF AppendAndSync_keeps appended.hyps(3)] n(2) keepsFiles_D by (auto simp: keepsDisk_def)
  moreover from E have "holds h (d', s') (rows @ new)" "dsName s' = dsName s" "dsSessionID s' = dsSessionID s"
    "\<And>canon. r = Inr canon \<Longrightarrow> set canon \<subseteq> set (rows @ new)" by (simp_all add: appendEffect_def)
  moreover from this(4) H(2) have "(case r of Inl _ \<Rightarrow> A | Inr canon \<Rightarrow> A \<union> set canon) \<subseteq> set (rows @ new)"
    by (cases r) auto
  ultimately show ?case using n(1) unfolding lifecycleInv_def fst_conv snd_conv by metis
next
  case (closed d s A r d' s')
  from closeStore_run [OF closed.hyps(2)] lifecycleInv_same closed.IH show ?case
    by (metis lifecycleInv_closed)
next
  case (world d s A d')
  from lifecycleInv_same [OF world.hyps(2) world.IH] show ?case .
next
  case (resumed d s A inspect directory a r d' a')
  then obtain rows where H: "holds h (d, s) rows" "A \<subseteq> set rows" and n: "dsName s = dsSessionID s @ ''.jsonl''"
    "map_of (dkFiles d) (dsName s) \<noteq> None" by (auto simp: lifecycleInv_def)
  have F: "fileInv h (dsSessionID s) rows (fileBytes d (dsName s))" using H(1) by (simp add: holds_def)
  have N: "resolvePhysicalSessionFilename d (dsSessionID s) = Inr (dsName s)"
    using n by (simp add: resolvePhysicalSessionFilename_def)
  have E: "fileStep h (dsSessionID s) (dsName s) rows d d' \<and>
      (\<forall>st. r = Inr st \<longrightarrow> (\<exists>extra. resumedStore h (dsSessionID s) (dsName s) (rows @ extra) d' st))"
    by (rule PrepareResume_effect [OF F N _ resumed.hyps(3)]) (rule resumed.hyps(2))
  have ex: "map_of (dkFiles d') (dsName s) \<noteq> None"
    using keepsS_D [OF PrepareResume_keeps resumed.hyps(3)] n(2) keepsFiles_D by (auto simp: keepsDisk_def)
  show ?case
  proof (cases r)
    case (Inl e)
    from E have "fileInv h (dsSessionID s) rows (fileBytes d' (dsName s))" by (simp add: fileStep_def)
    with H(1) have "holds h (d', s \<lparr> dsClosed := True, dsPoisoned := True \<rparr>) rows"
      by (simp add: holds_def memoryOf_def)
    with Inl H(2) n ex show ?thesis by (auto simp: lifecycleInv_def)
  next
    case (Inr st)
    with E obtain extra where R: "resumedStore h (dsSessionID s) (dsName s) (rows @ extra) d' st" by blast
    then obtain new where "holds h (d', st) (rows @ extra @ new)" "dsName st = dsName s" "dsSessionID st = dsSessionID s"
      by (auto simp: resumedStore_def)
    moreover from this H(2) have "\<exists>rows. holds h (d', st) rows \<and> A \<subseteq> set rows"
      by (intro exI [of _ "rows @ extra @ new"]) auto
    ultimately show ?thesis using Inr n ex by (simp add: lifecycleInv_def)
  qed
qed

lemma lifecycle_survives:
  assumes "lifecycle h authority (d, s) A" "readDurableJSONL h (dsName s) d = (r, d')"
  shows "r = Inl ErrIO \<or> (\<exists>rows ls. r = Inr rows \<and> A \<subseteq> set rows
    \<and> validateLoadedDurableEntries h rows (dsSessionID s) = Inr ls)"
proof -
  from lifecycle_inv [OF assms(1)] obtain rows where H: "holds h (d, s) rows" "A \<subseteq> set rows"
    by (auto simp: lifecycleInv_def)
  then have "fileInv h (dsSessionID s) rows (fileBytes d (dsName s))" by (simp add: holds_def)
  from read_repairs [OF this assms(2)] H(2) show ?thesis by (auto simp: accepted_def)
qed

end
