(* ===== verification/AppendFacts.thy ===== *)
theory AppendFacts
  imports RecoveryFacts SessionViewFacts
begin

text \<open>
  What one append promises its caller: what an acknowledgement means, when it is given, what a
  refusal leaves behind, and that a batch may be sent again. Also what a snapshot contains.
\<close>

section \<open>Acknowledged batches\<close>

text \<open>Every new row is the completion of an input, with its sequence number.\<close>

definition completionOf :: "'h session_host_scheme \<Rightarrow> durable_store \<Rightarrow> session_entry \<Rightarrow> session_entry \<Rightarrow> bool" where
  "completionOf h s e r \<longleftrightarrow> (\<exists>row. completeRow h s e = Inr row \<and> r = row \<lparr> eSeq := eSeq r \<rparr>)"

definition fromInputs :: "'h session_host_scheme \<Rightarrow> durable_store \<Rightarrow> session_entry list \<Rightarrow> append_stage \<Rightarrow> bool" where
  "fromInputs h s ins g \<longleftrightarrow> (\<forall>r \<in> set (agNewRows g). \<exists>e \<in> set ins. completionOf h s e r)"

lemma stageRow_from:
  assumes "fromInputs h s ins g" "stageRow h s g e = Inr g'"
  shows "fromInputs h s (ins @ [e]) g'"
proof -
  from assms(2) obtain row where row: "completeRow h s e = Inr row" by (auto simp: stageRow_def bindR_eq_Inr)
  have "(\<exists>c. g' = g \<lparr> agCanonical := agCanonical g @ [c] \<rparr>) \<or> newRow g row = Inr g'"
    using assms(2) row
    by (auto simp: stageRow_def repeatRow_def split: option.splits sum.splits if_splits)
  then show ?thesis
  proof (elim disjE exE)
    fix c assume "g' = g \<lparr> agCanonical := agCanonical g @ [c] \<rparr>"
    with assms(1) show ?thesis by (auto simp: fromInputs_def)
  next
    assume "newRow g row = Inr g'"
    then have new: "agNewRows g' = agNewRows g @ [row \<lparr> eSeq := agNextSeq g + 1 \<rparr>]"
      by (auto simp: newRow_def Let_def split: if_splits)
    have "completionOf h s e (row \<lparr> eSeq := agNextSeq g + 1 \<rparr>)" by (simp add: completionOf_def row)
    with assms(1) new show ?thesis by (auto simp: fromInputs_def)
  qed
qed

lemma stage_from:
  assumes "stagedBy h s ins g"
  shows "fromInputs h s ins g"
proof -
  from assms have "foldR (stageRow h s) (initialStage s) ins = Inr g" by (simp add: stagedBy_def)
  then show ?thesis
    by (rule foldR_prefix_invariant [where I = "fromInputs h s"])
      (simp add: fromInputs_def initialStage_def, rule stageRow_from)
qed

lemma append_success:
  assumes "AppendAndSync h ins (d, s) = (Inr canon, (d', s'))"
  obtains (empty) "ins = []" "canon = []" "s' = s" "sameFiles d d'" "\<not> dsClosed s" "\<not> dsPoisoned s"
  | (repeated) g where "stagedBy h s ins g" "agNewRows g = []" "canon = agCanonical g" "s' = s" "sameFiles d d'"
      "\<not> dsClosed s" "\<not> dsPoisoned s"
  | (written) g a where "stagedBy h s ins g" "agNewRows g \<noteq> []" "decideAppend h s g = Inr a"
      "canon = agCanonical g" "s' = installAppend a s" "grows d (dsName s) (apBytes a) d'"
      "\<not> dsClosed s" "\<not> dsPoisoned s"
  using assms
proof (cases rule: AppendAndSync_run)
  case (locked d1)
  from locked(2) show thesis
  proof (cases rule: appendAndSyncLocked_outcome)
    case l: empty
    with locked(1) empty sameFiles_trans show thesis by blast
  next
    case l: (repeated g)
    with locked(1) repeated [OF l(1,2)] sameFiles_trans show thesis by blast
  next
    case l: (written g a)
    with written [OF l(1,2,3)] same_grows [OF locked(1) l(6)] show thesis by blast
  qed auto
qed simp

text \<open>What the caller of a successful append may rely on.\<close>

definition acknowledged ::
  "'h session_host_scheme \<Rightarrow> session_entry list \<Rightarrow> session_entry list \<Rightarrow> session_entry list \<Rightarrow> open_store \<Rightarrow> open_store
     \<Rightarrow> session_entry list \<Rightarrow> bool" where
  "acknowledged h rows ins canon p p' new \<longleftrightarrow>
     holds h p' (rows @ new)
     \<and> map eID canon = map eID ins \<and> set canon \<subseteq> set (rows @ new)
     \<and> (\<forall>i < length ins. \<exists>row. completeRow h (snd p) (ins ! i) = Inr row
          \<and> storedPayloadDigest h (canon ! i) = Inr (ePayloadDigest row))
     \<and> (\<forall>r \<in> set new. \<exists>e \<in> set ins. completionOf h (snd p) e r)
     \<and> map eSeq new = map (\<lambda>i. dsMaxSeq (snd p) + of_nat (Suc i)) [0..<length new]
     \<and> fileBytes (fst p') (dsName (snd p)) = fileBytes (fst p) (dsName (snd p)) @ concat (map (rowLine h) new)"

lemma stageInv_ids:
  assumes "stageInv h s rows ins g"
  shows "map eID (agCanonical g) = map eID ins"
  using assms unfolding stageInv_def by (intro nth_equalityI) simp_all

lemma append_acknowledged:
  assumes H: "holds h (d, s) rows" and w: "writable h s ins"
    and run: "AppendAndSync h ins (d, s) = (Inr canon, (d', s'))"
  shows "\<exists>new. acknowledged h rows ins canon (d, s) (d', s') new"
proof -
  obtain ls where M: "memoryOf h s rows ls" using H unfolding holds_def by auto
  have stage: "stageInv h s rows ins g" if "stagedBy h s ins g" for g
    by (rule stage_inv [OF M]) (use w that in \<open>simp_all add: writable_def stagedBy_def\<close>)
  from run show ?thesis
  proof (cases rule: append_success)
    case empty
    with holds_same [OF H] show ?thesis
      by (intro exI [of _ "[]"]) (simp add: acknowledged_def sameFiles_bytes)
  next
    case (repeated g)
    note I = stage [OF repeated(1)]
    from I have "\<exists>row. completeRow h s (ins ! i) = Inr row \<and> storedPayloadDigest h (agCanonical g ! i) = Inr (ePayloadDigest row)"
      if "i < length ins" for i using that unfolding stageInv_def by blast
    with holds_same [OF H] repeated canonical_members [OF I] stageInv_ids [OF I] show ?thesis
      by (intro exI [of _ "[]"]) (simp add: acknowledged_def sameFiles_bytes)
  next
    case (written g a)
    note I = stage [OF written(1)] and A = append_accepted [OF M w written(1,3)]
    from AppendAndSync_effect [OF H w run] obtain new where E: "appendEffect h rows (Inr canon) (d, s) (d', s') new" by blast
    have old: "dsEntries s = tableOf rows" using M by (simp add: memoryOf_def)
    from E obtain ls' where "memoryOf h s' (rows @ new) ls'" unfolding appendEffect_def holds_def by auto
    moreover obtain ls'' where "memoryOf h s' (rows @ agNewRows g) ls''" using A(1) written(5) by blast
    ultimately have "rows @ new = rows @ agNewRows g" using memoryOf_sequence by metis
    then have new: "new = agNewRows g" by simp
    have dig: "\<exists>row. completeRow h s (ins ! i) = Inr row \<and> storedPayloadDigest h (agCanonical g ! i) = Inr (ePayloadDigest row)"
      if "i < length ins" for i using that I unfolding stageInv_def by blast
    have num: "map eSeq (agNewRows g) = map (\<lambda>i. dsMaxSeq s + of_nat (Suc i)) [0..<length (agNewRows g)]"
      using stage_numbered written(1) unfolding stagedBy_def numbered_def by blast
    have from_in: "\<forall>r \<in> set (agNewRows g). \<exists>e \<in> set ins. completionOf h s e r"
      using stage_from [OF written(1)] unfolding fromInputs_def .
    have "fileBytes d' (dsName s) = fileBytes d (dsName s) @ concat (map (rowLine h) (agNewRows g))"
      using written(6) A(4) by (simp add: grows_def)
    moreover have "holds h (d', s') (rows @ agNewRows g)" using E new by (simp add: appendEffect_def)
    ultimately show ?thesis
      unfolding acknowledged_def fst_conv snd_conv
      using dig num from_in canonical_members [OF I] stageInv_ids [OF I] written(4)
      by (intro exI [of _ "agNewRows g"] conjI) auto
  qed
qed

section \<open>Refused batches\<close>

text \<open>
  A failed append has changed nothing, or an I/O operation failed: then some prefix of the
  batch is in the file and the handle is poisoned.
\<close>

lemma append_refused:
  assumes "AppendAndSync h ins (d, s) = (Inl err, (d', s'))"
  obtains (unchanged) "s' = s" "sameFiles d d'"
  | (torn) g a n where "stagedBy h s ins g" "decideAppend h s g = Inr a" "err = ErrIO"
      "s' = s \<lparr> dsPoisoned := True \<rparr>" "grows d (dsName s) (take n (apBytes a)) d'"
  using assms
proof (cases rule: AppendAndSync_run)
  case (cancelled e)
  with unchanged show thesis by blast
next
  case (locked d1)
  from locked(2) show thesis
  proof (cases rule: appendAndSyncLocked_outcome)
    case (rejected e)
    with locked(1) unchanged sameFiles_trans show thesis by blast
  next
    case l: (torn g a n)
    with torn [OF l(1,3)] same_grows [OF locked(1) l(6)] show thesis by blast
  qed auto
qed

lemma dead_store:
  assumes "dsClosed s \<or> dsPoisoned s" "AppendAndSync h ins (d, s) = (r, (d', s'))"
  shows "(\<exists>err. r = Inl err) \<and> s' = s \<and> sameFiles d d'"
proof -
  from assms(2) show "(\<exists>err. r = Inl err) \<and> s' = s \<and> sameFiles d d'"
  proof (cases rule: AppendAndSync_run)
    case (locked d1)
    from locked(2) show ?thesis
      by (cases rule: appendAndSyncLocked_outcome)
        (use assms(1) locked(1) in \<open>auto intro: sameFiles_trans\<close>)
  qed auto
qed

lemma dead_snapshot: "dsClosed s \<or> dsPoisoned s \<Longrightarrow> \<exists>err. snapshotLocked s = Inl err"
  by (auto simp: snapshotLocked_def)

section \<open>When an append succeeds\<close>

lemma writeBatch_clean:
  assumes "fxIO d = []"
  shows "writeBatch b (d, s) = (Inr (), (setFile (dsName s) (fileBytes d (dsName s) @ b) d, s))"
  using assms
  by (simp add: writeBatch_def bindS_def poisonOn_def bufferedWrite_def takeIO_def appendBytes_def ioStep_def setFile_def)

lemma append_completes:
  assumes "fxIO d = []" "fxCtx d = None" "\<not> dsClosed s" "\<not> dsPoisoned s" "ins \<noteq> []"
    and "stagedBy h s ins g" "agNewRows g = [] \<or> decideAppend h s g = Inr a"
  shows "fst (AppendAndSync h ins (d, s)) = Inr (agCanonical g)"
proof -
  have c: "onDisk contextErr (d, s) = (Inr (), (d, s))" for s :: durable_store
    by (simp add: onDisk_def contextErr_def assms(2))
  have st: "foldR (stageRow h s) (initialStage s) ins = Inr g" using assms(6) by (simp add: stagedBy_def)
  show ?thesis
  proof (cases "agNewRows g = []")
    case True
    with assms(3,4,5) st show ?thesis
      by (simp add: AppendAndSync_def appendAndSyncLocked_def bindS_def c)
  next
    case False
    with assms(7) have a: "decideAppend h s g = Inr a" by simp
    then have "apStage a = g" by (rule decideAppend_Inr(1))
    with False a assms(1,3,4,5) st show ?thesis
      by (simp add: AppendAndSync_def appendAndSyncLocked_def bindS_def c commitAppend_def writeBatch_clean)
  qed
qed

section \<open>Sending a batch again\<close>

text \<open>
  A store fills in the same things for an input as another one: both stand for the same
  session and label, and the branch is given or the same.
\<close>

definition completesAlike :: "durable_store \<Rightarrow> durable_store \<Rightarrow> session_entry list \<Rightarrow> bool" where
  "completesAlike s s2 ins \<longleftrightarrow> dsSessionID s2 = dsSessionID s \<and> dsSessionLabel s2 = dsSessionLabel s
     \<and> (dsActiveBranchID s2 = dsActiveBranchID s \<or> (\<forall>e \<in> set ins. eBranchID e \<noteq> []))"

lemma completeRow_alike: "completesAlike s s2 ins \<Longrightarrow> e \<in> set ins \<Longrightarrow> completeRow h s2 e = completeRow h s e"
proof -
  assume a: "completesAlike s s2 ins" "e \<in> set ins"
  then have same: "dsSessionID s2 = dsSessionID s" "dsSessionLabel s2 = dsSessionLabel s"
    "(if eBranchID e = [] then dsActiveBranchID s2 else eBranchID e)
       = (if eBranchID e = [] then dsActiveBranchID s else eBranchID e)"
    by (auto simp: completesAlike_def)
  show ?thesis unfolding completeRow_def same ..
qed

lemma stage_known:
  assumes "list_all2 (\<lambda>e c. map_of (dsEntries s) (eID e) = Some c
      \<and> (\<exists>row. completeRow h s e = Inr row \<and> storedPayloadDigest h c = Inr (ePayloadDigest row))) ins canon"
  shows "foldR (stageRow h s) (initialStage s \<lparr> agCanonical := pre \<rparr>) ins = Inr (initialStage s \<lparr> agCanonical := pre @ canon \<rparr>)"
  using assms
proof (induction ins canon arbitrary: pre rule: list_all2_induct)
  case (Cons e es c cs)
  then obtain row where row: "completeRow h s e = Inr row" "storedPayloadDigest h c = Inr (ePayloadDigest row)"
    and c: "map_of (dsEntries s) (eID e) = Some c" by blast
  have "stageRow h s (initialStage s \<lparr> agCanonical := pre \<rparr>) e = Inr (initialStage s \<lparr> agCanonical := pre @ [c] \<rparr>)"
    using row c completeRow_Inr(2) [OF row(1)]
    by (simp add: stageRow_def initialStage_def repeatRow_def)
  with Cons.IH [of "pre @ [c]"] show ?case by simp
qed simp

lemma append_again:
  assumes A: "acknowledged h rows ins canon (d, s) p new"
    and H2: "holds h (d2, s2) rows2" and sub: "set canon \<subseteq> set rows2" and alike: "completesAlike s s2 ins"
    and opn: "\<not> dsClosed s2" "\<not> dsPoisoned s2" and ctx: "fxCtx d2 = None"
  shows "AppendAndSync h ins (d2, s2) = (Inr canon, (d2, s2))"
proof -
  have len: "length canon = length ins" using A unfolding acknowledged_def by (metis length_map)
  obtain ls where M: "memoryOf h s2 rows2 ls" using H2 unfolding holds_def by auto
  then have tab: "dsEntries s2 = tableOf rows2" and load: "loadRows h (dsSessionID s2) rows2 = Inr ls"
    by (simp_all add: memoryOf_def accepted_iff)
  have dist: "distinct (map eID rows2)" using loadRows_inv [OF load] by (simp add: loadInv_def)
  have "list_all2 (\<lambda>e c. map_of (dsEntries s2) (eID e) = Some c
      \<and> (\<exists>row. completeRow h s2 e = Inr row \<and> storedPayloadDigest h c = Inr (ePayloadDigest row))) ins canon"
    unfolding list_all2_conv_all_nth
  proof (intro conjI allI impI)
    show "length ins = length canon" by (simp add: len)
    fix i assume i: "i < length ins"
    then have "canon ! i \<in> set rows2" using sub len by auto
    from tableOf_distinct [OF dist this] have "map_of (dsEntries s2) (eID (canon ! i)) = Some (canon ! i)"
      by (simp add: tab)
    moreover have "eID (canon ! i) = eID (ins ! i)"
      using A i len unfolding acknowledged_def by (metis nth_map)
    ultimately show "map_of (dsEntries s2) (eID (ins ! i)) = Some (canon ! i)" by simp
    show "\<exists>row. completeRow h s2 (ins ! i) = Inr row \<and> storedPayloadDigest h (canon ! i) = Inr (ePayloadDigest row)"
    proof -
      have "completeRow h s2 (ins ! i) = completeRow h s (ins ! i)" using i by (simp add: completeRow_alike [OF alike])
      with A i show ?thesis unfolding acknowledged_def snd_conv by metis
    qed
  qed
  from stage_known [OF this, of "[]"]
  have st: "foldR (stageRow h s2) (initialStage s2) ins = Inr (initialStage s2 \<lparr> agCanonical := canon \<rparr>)"
    by (simp add: initialStage_def)
  have c: "onDisk contextErr (d2, s) = (Inr (), (d2, s))" for s :: durable_store
    by (simp add: onDisk_def contextErr_def ctx)
  show ?thesis
  proof (cases "ins = []")
    case True
    with len opn show ?thesis by (simp add: AppendAndSync_def appendAndSyncLocked_def bindS_def c)
  next
    case False
    with st opn show ?thesis
      by (simp add: AppendAndSync_def appendAndSyncLocked_def bindS_def c) (simp add: initialStage_def)
  qed
qed

section \<open>Snapshots\<close>

lemma collectEntry_run:
  assumes "distinct (map eID rows)"
  shows "foldR (collectEntry (tableOf rows)) ([], []) (map eID rows) = Inr (rev (map eID rows), rows)"
proof -
  have "foldR (collectEntry (tableOf rows)) ([], []) (map eID us) = Inr (rev (map eID us), us)"
    if "rows = us @ vs" for us vs
    using that
  proof (induction us arbitrary: vs rule: rev_induct)
    case (snoc e us)
    from snoc.prems assms have "eID e \<notin> set (map eID us)" "e \<in> set rows" by auto
    moreover have "map_of (tableOf rows) (eID e) = Some e"
      using tableOf_distinct [OF assms] calculation(2) .
    ultimately have "collectEntry (tableOf rows) (rev (map eID us), us) (eID e)
        = Inr (rev (map eID (us @ [e])), us @ [e])" by (simp add: collectEntry_def)
    moreover have "foldR (collectEntry (tableOf rows)) ([], []) (map eID us) = Inr (rev (map eID us), us)"
      using snoc.IH [of "e # vs"] snoc.prems by simp
    ultimately show ?case by (simp add: foldR_snoc)
  qed simp
  from this [of rows "[]"] show ?thesis by simp
qed

lemma entryCount_tableOf: "distinct (map eID rows) \<Longrightarrow> entryCount (tableOf rows) = length rows"
  by (simp add: entryCount_def tableOf_def rev_map [symmetric] comp_def distinct_remdups_id)

lemma snapshot_of:
  assumes "holds h (d, s) rows" "\<not> dsClosed s" "\<not> dsPoisoned s"
  shows "snapshotLocked s = Inr \<lparr> psSessionID = dsSessionID s, psSessionLabel = dsSessionLabel s,
     psDurableEntries = rows, psActiveBranchID = dsActiveBranchID s,
     psActiveLeafEntryID = dsActiveLeafID s, psMaxSeq = dsMaxSeq s, psPublishedView = dsView s \<rparr>"
proof -
  obtain ls where M: "memoryOf h s rows ls" using assms(1) unfolding holds_def by auto
  then have "dsEntries s = tableOf rows" "dsAppendOrder s = map eID rows" "loadRows h (dsSessionID s) rows = Inr ls"
    by (simp_all add: memoryOf_def accepted_iff)
  moreover from this(3) have "distinct (map eID rows)" using loadRows_inv by (auto simp: loadInv_def)
  ultimately show ?thesis
    using assms(2,3) collectEntry_run entryCount_tableOf by (simp add: snapshotLocked_def)
qed

lemma inspectPending_actions:
  assumes "foldR (inspectPending plan) [] refs = Inr xs"
  shows "map paAction xs = refs"
proof (rule foldR_prefix_invariant [where I = "\<lambda>rs ys. map paAction ys = rs", OF assms])
  fix us r vs t t'
  assume I: "map paAction t = us" and step: "inspectPending plan t r = Inr t'"
  from step obtain occ where occ: "find (\<lambda>occ. oRef occ = r) (rpOccurrences plan) = Some occ"
    and t': "t' = t @ [pendingActionSnapshot occ]" by (auto simp: inspectPending_def split: option.splits)
  from occ have "oRef occ = r" by (auto simp: find_Some_iff)
  with I t' show "map paAction t' = us @ [r]" by (simp add: pendingActionSnapshot_def)
qed simp

lemma InspectPendingActions_exact:
  assumes "InspectPendingActions snap = Inr xs"
  shows "\<exists>plan. analyzeDurableActionJournal (psDurableEntries snap) (psSessionID snap) = Inr plan
    \<and> map paAction xs = rpPending plan"
proof -
  from assms obtain plan where plan: "validatedSnapshotActionPlan snap = Inr plan"
    and xs: "foldR (inspectPending plan) [] (rpPending plan) = Inr xs"
    by (auto simp: InspectPendingActions_def bindR_eq_Inr)
  from plan obtain rows where "validateRunCommitSnapshot snap = Inr rows" "analyzeDurableActionJournal (fst rows) (psSessionID snap) = Inr plan"
    by (auto simp: validatedSnapshotActionPlan_def bindR_eq_Inr split: if_splits)
  moreover from this(1) have "fst rows = psDurableEntries snap"
    by (auto simp: validateRunCommitSnapshot_def Let_def bindR_eq_Inr split: if_splits)
  ultimately show ?thesis using inspectPending_actions [OF xs] by auto
qed

section \<open>Rows of a store\<close>

text \<open>What the loader demands of a row, given the rows before it.\<close>

definition typedRow :: "'h session_host_scheme \<Rightarrow> string \<Rightarrow> session_entry list \<Rightarrow> session_entry \<Rightarrow> bool" where
  "typedRow h sid before e \<longleftrightarrow> validSessionEntryType (eType e) \<and> eSessionID e \<in> {[], sid}
     \<and> eID e \<notin> eID ` set before \<and> (eParentID e \<noteq> [] \<longrightarrow> eParentID e \<in> eID ` set before)
     \<and> (\<forall>b \<in> set before. eSeq b < eSeq e \<or> eSeq b = 0 \<and> eSeq e = 0)
     \<and> (eRecordVersion e = 1 \<longrightarrow> eSessionID e = sid \<and> eBranchID e \<noteq> [] \<and> eSeq e \<noteq> 0 \<and> ePayloadDigest e \<noteq> []
          \<and> (eParentID e = [] \<longrightarrow> before = []))
     \<and> (ePayloadDigest e \<noteq> [] \<longrightarrow> (\<exists>enc. canonicalEntryPayload h e = Inr (enc, ePayloadDigest e)))"

text \<open>A file that is not empty has a root.\<close>

lemma loadRows_root:
  assumes "loadRows h sid rows = Inr ls"
  shows "lsRootSeen ls = (rows \<noteq> [])"
  using assms unfolding loadRows_def
proof (rule foldR_prefix_invariant [where I = "\<lambda>rows s. lsRootSeen s = (rows \<noteq> []) \<and> lsIndex s = tableOf rows",
      THEN conjunct1])
  show "lsRootSeen initialLoad = ([] \<noteq> []) \<and> lsIndex initialLoad = tableOf []"
    by (simp add: initialLoad_def tableOf_def)
  fix ys x zs t t'
  assume I: "lsRootSeen t = (ys \<noteq> []) \<and> lsIndex t = tableOf ys" and step: "loadRow h sid t x = Inr t'"
  from step have "checkLoadedRow h sid t x = Inr ()" "lsRootSeen t' = (lsRootSeen t \<or> eParentID x = [])"
    "lsIndex t' = (eID x, x) # lsIndex t"
    unfolding loadRow_Inr by simp_all
  moreover from this(1) have "eParentID x = [] \<or> map_of (lsIndex t) (eParentID x) \<noteq> None"
    by (auto simp: checkLoadedRow_def split: if_splits)
  ultimately show "lsRootSeen t' = (ys @ [x] \<noteq> []) \<and> lsIndex t' = tableOf (ys @ [x])"
    using I by (auto simp: tableOf_def)
qed

lemma checkLoadedRow_typed:
  assumes c: "checkLoadedRow h sid s e = Inr ()" and load: "loadRows h sid before = Inr s"
  shows "typedRow h sid before e"
proof -
  note L = loadRows_inv [OF load, unfolded loadInv_def] and root = loadRows_root [OF load]
  have ix: "lsIndex s = tableOf before" and le: "\<forall>b \<in> set before. eSeq b \<le> lsMaxSeq s" using L by blast+
  from c have v: "validSessionEntryType (eType e)" "eSessionID e = [] \<or> eSessionID e = sid"
    "eRecordVersion e = 1 \<Longrightarrow> eSessionID e = sid \<and> eBranchID e \<noteq> [] \<and> eSeq e \<noteq> 0 \<and> ePayloadDigest e \<noteq> []"
    "map_of (lsIndex s) (eID e) = None" "eParentID e = [] \<Longrightarrow> eRecordVersion e = 1 \<Longrightarrow> \<not> lsRootSeen s"
    "eParentID e \<noteq> [] \<Longrightarrow> map_of (lsIndex s) (eParentID e) \<noteq> None"
    "eSeq e \<noteq> 0 \<Longrightarrow> lsMaxSeq s < eSeq e" "eSeq e = 0 \<Longrightarrow> lsMaxSeq s = 0"
    "ePayloadDigest e \<noteq> [] \<Longrightarrow> \<exists>enc. canonicalEntryPayload h e = Inr (enc, ePayloadDigest e)"
    unfolding checkLoadedRow_def by (auto simp: not_le bindR_eq_Inr split: if_split_asm)
  have "eSeq b < eSeq e \<or> eSeq b = 0 \<and> eSeq e = 0" if "b \<in> set before" for b
    using le v(7,8) that by (cases "eSeq e = 0") (auto intro: le_less_trans)
  with v ix root show ?thesis unfolding typedRow_def by (auto simp: tableOf_None)
qed

lemma loaded_typed:
  assumes "loadRows h sid rows = Inr ls" "i < length rows"
  shows "typedRow h sid (take i rows) (rows ! i)"
proof -
  have "rows = take i rows @ rows ! i # drop (Suc i) rows" by (rule id_take_nth_drop [OF assms(2)])
  with assms(1) have "foldR (loadRow h sid) initialLoad (take i rows @ rows ! i # drop (Suc i) rows) = Inr ls"
    by (simp add: loadRows_def)
  then obtain s1 s2 where "loadRows h sid (take i rows) = Inr s1" "loadRow h sid s1 (rows ! i) = Inr s2"
    unfolding loadRows_def by (rule foldR_split)
  then show ?thesis using checkLoadedRow_typed unfolding loadRow_Inr by blast
qed

lemma holds_typed: "holds h (d, s) rows \<Longrightarrow> i < length rows \<Longrightarrow> typedRow h (dsSessionID s) (take i rows) (rows ! i)"
  using loaded_typed unfolding holds_def memoryOf_def accepted_iff by fastforce

section \<open>A resumed session\<close>

text \<open>
  A branch whose tool calls are all answered, and the view over it.
\<close>

definition closedBranch :: "string \<Rightarrow> session_entry list \<Rightarrow> bool" where
  "closedBranch sid rows \<longleftrightarrow> (\<forall>us a vs k name. rows = us @ a # vs \<and> opensCall sid k name a
     \<longrightarrow> (\<exists>t \<in> set vs. closesCall sid k t \<and> eToolName t = name))"

definition viewOf :: "session_entry list \<Rightarrow> session_view \<Rightarrow> bool" where
  "viewOf rows v \<longleftrightarrow> (\<exists>out. projectSessionEntries rows = Inr out \<and> validateProjectedToolGroups out = Inr ()
     \<and> svMessages v = map fst (viewMessages out) \<and> svSourceEntryIDs v = map snd (viewMessages out))"

lemma tail_closedBranch:
  assumes "validateToolCallJournalTail sid rows = Inr ()"
  shows "closedBranch sid rows"
proof -
  from assms obtain s where s: "foldR (tailRow sid) emptyTail rows = Inr s" "tsOpen s = []"
    by (auto simp: validateToolCallJournalTail_def bindR_eq_Inr split: if_splits)
  show ?thesis unfolding closedBranch_def
  proof (intro allI impI, elim conjE)
    fix us a vs k name assume "rows = us @ a # vs" "opensCall sid k name a"
    with tail_closed [of sid us a vs s k name] s show "\<exists>t \<in> set vs. closesCall sid k t \<and> eToolName t = name"
      by fastforce
  qed
qed

lemma durableSessionView_closed:
  assumes "durableSessionView h sid bid n rows = Inr v"
  shows "closedBranch sid rows" "viewOf rows v" "svSessionID v = sid"
proof -
  have "closedBranch sid rows \<and> viewOf rows v \<and> svSessionID v = sid"
  proof (cases "rows = []")
    case True
    with assms have "v = emptyView \<lparr> svSessionID := sid, svBranchID := (if bid = [] then ''main'' else bid) \<rparr>"
      by (simp add: durableSessionView_def Let_def)
    with True show ?thesis
      by (simp add: closedBranch_def viewOf_def projectSessionEntries_def checkAll_def legacyProjection_def
          findLastCompactionPoint_def lastCompactionIndex_def emptyView_def validateProjectedToolGroups_def viewMessages_def map_filter_def)
  next
    case False
    with assms obtain rvn where "SessionViewFromEntries sid (if bid = [] then ''main'' else bid) rvn rows = Inr v"
      by (auto simp: durableSessionView_def Let_def)
    from view_of_projection [OF this] obtain out where
      o: "validateToolCallJournalTail sid rows = Inr ()" "projectSessionEntries rows = Inr out"
      "validateProjectedToolGroups out = Inr ()" "zip (svMessages v) (svSourceEntryIDs v) = viewMessages out"
      "length (svMessages v) = length (svSourceEntryIDs v)" "svSessionID v = sid" by metis
    from o(4,5) have "svMessages v = map fst (viewMessages out)" "svSourceEntryIDs v = map snd (viewMessages out)"
      by (metis map_fst_zip, metis map_snd_zip)
    with o tail_closedBranch show ?thesis by (auto simp: viewOf_def)
  qed
  then show "closedBranch sid rows" "viewOf rows v" "svSessionID v = sid" by blast+
qed

text \<open>
  What holds of a session that was resumed with success, given the rows acknowledged before.
\<close>

lemma lifecycle_resume:
  assumes L: "lifecycle h authority (d, s) A"
    and w: "\<And>d0 d1 entries. sameFiles d d0 \<Longrightarrow> readDurableJSONL h (dsName s) d0 = (Inr entries, d1)
      \<Longrightarrow> recoveryWritable h (dsName s) (dsSessionID s) entries"
    and run: "PrepareResume h authority inspect directory (dsSessionID s) (d, a) = (Inr st, (d', a'))"
  shows "\<exists>rows branch. holds h (d', st) rows \<and> A \<subseteq> set rows \<and> \<not> dsClosed st \<and> \<not> dsPoisoned st
    \<and> orderedDurableBranch (dsActiveLeafID st) (tableOf rows) = Inr branch
    \<and> closedBranch (dsSessionID s) branch \<and> viewOf branch (dsView st)"
proof -
  from lifecycle_inv [OF L] obtain rows where H: "holds h (d, s) rows" "A \<subseteq> set rows"
    and n: "dsName s = dsSessionID s @ ''.jsonl''" "map_of (dkFiles d) (dsName s) \<noteq> None"
    by (auto simp: lifecycleInv_def)
  have F: "fileInv h (dsSessionID s) rows (fileBytes d (dsName s))" using H(1) by (simp add: holds_def)
  have N: "resolvePhysicalSessionFilename d (dsSessionID s) = Inr (dsName s)"
    using n by (simp add: resolvePhysicalSessionFilename_def)
  have "fileStep h (dsSessionID s) (dsName s) rows d d' \<and>
      (\<forall>st'. (Inr st :: go_error + durable_store) = Inr st' \<longrightarrow> (\<exists>extra. resumedStore h (dsSessionID s) (dsName s) (rows @ extra) d' st'))"
    by (rule PrepareResume_effect [OF F N _ run]) (rule w)
  then obtain extra where R: "resumedStore h (dsSessionID s) (dsName s) (rows @ extra) d' st" by blast
  then obtain new branch view where v: "holds h (d', st) (rows @ extra @ new)"
    "orderedDurableBranch (dsActiveLeafID st) (dsEntries st) = Inr branch"
    "durableSessionView h (dsSessionID s) (dsActiveBranchID st) (dsMaxSeq st) branch = Inr view"
    "dsView st = view \<lparr> svDiagnostics := svDiagnostics (dsView st) \<rparr>" "\<not> dsClosed st" "\<not> dsPoisoned st"
    by (auto simp: resumedStore_def)
  from v(4) have "svMessages (dsView st) = svMessages view" "svSourceEntryIDs (dsView st) = svSourceEntryIDs view"
    by (metis session_view.select_convs(4) session_view.surjective session_view.update_convs(6))
      (metis v(4) session_view.select_convs(5) session_view.surjective session_view.update_convs(6))
  with durableSessionView_closed [OF v(3)] have c: "closedBranch (dsSessionID s) branch" "viewOf branch (dsView st)"
    by (simp_all add: viewOf_def)
  have "dsEntries st = tableOf (rows @ extra @ new)" using v(1) by (auto simp: holds_def memoryOf_def)
  with v c H(2) show ?thesis
    by (intro exI [of _ "rows @ extra @ new"] exI [of _ branch]) auto
qed

end
