(* ===== verification/RetryFacts.thy ===== *)
theory RetryFacts
  imports AppendFacts
begin

text \<open>What happens to a batch whose rows a store already holds.\<close>

text \<open>
  On a store that knows every input's ID, staging adds no row: it fails, or it returns the known
  rows, and it does so exactly when each input completes to the digest of its row.
\<close>

lemma stage_retry:
  assumes "list_all2 (\<lambda>e c. map_of (dsEntries s) (eID e) = Some c) ins canon"
  shows "(if list_all2 (\<lambda>e c. \<exists>row. completeRow h s e = Inr row \<and> storedPayloadDigest h c = Inr (ePayloadDigest row)) ins canon
    then foldR (stageRow h s) (initialStage s \<lparr> agCanonical := pre \<rparr>) ins = Inr (initialStage s \<lparr> agCanonical := pre @ canon \<rparr>)
    else \<exists>err. foldR (stageRow h s) (initialStage s \<lparr> agCanonical := pre \<rparr>) ins = Inl err)"
  using assms
proof (induction ins canon arbitrary: pre rule: list_all2_induct)
  case (Cons e es c cs)
  let ?ok = "\<exists>row. completeRow h s e = Inr row \<and> storedPayloadDigest h c = Inr (ePayloadDigest row)"
  show ?case
  proof (cases ?ok)
    case True
    then obtain row where row: "completeRow h s e = Inr row" "storedPayloadDigest h c = Inr (ePayloadDigest row)" by blast
    have "stageRow h s (initialStage s \<lparr> agCanonical := pre \<rparr>) e = Inr (initialStage s \<lparr> agCanonical := pre @ [c] \<rparr>)"
      using row Cons.hyps(1) completeRow_Inr(2) [OF row(1)]
      by (simp add: stageRow_def initialStage_def repeatRow_def)
    with Cons.IH [of "pre @ [c]"] True show ?thesis by simp
  next
    case False
    have "\<exists>err. stageRow h s (initialStage s \<lparr> agCanonical := pre \<rparr>) e = Inl err"
    proof (cases "completeRow h s e")
      case (Inr row)
      with False have "storedPayloadDigest h c \<noteq> Inr (ePayloadDigest row)" by blast
      then show ?thesis using Inr Cons.hyps(1) completeRow_Inr(2) [OF Inr]
        by (cases "storedPayloadDigest h c") (auto simp: stageRow_def initialStage_def repeatRow_def)
    qed (simp add: stageRow_def)
    with False show ?thesis by auto
  qed
qed simp

lemma append_retried:
  assumes A: "acknowledged h rows ins canon (d, s) p new"
    and H2: "holds h (d2, s2) rows2" and sub: "set canon \<subseteq> set rows2"
    and opn: "\<not> dsClosed s2" "\<not> dsPoisoned s2" and ctx: "fxCtx d2 = None"
  shows "\<exists>r. AppendAndSync h ins (d2, s2) = (r, (d2, s2)) \<and> (r = Inr canon \<or> (\<exists>err. r = Inl err))
    \<and> (r = Inr canon \<longleftrightarrow> (\<forall>i < length ins. \<exists>row. completeRow h s2 (ins ! i) = Inr row
         \<and> storedPayloadDigest h (canon ! i) = Inr (ePayloadDigest row)))"
proof -
  have len: "length canon = length ins" using A unfolding acknowledged_def by (metis length_map)
  obtain ls where M: "memoryOf h s2 rows2 ls" using H2 unfolding holds_def by auto
  then have tab: "dsEntries s2 = tableOf rows2" and load: "loadRows h (dsSessionID s2) rows2 = Inr ls"
    by (simp_all add: memoryOf_def accepted_iff)
  have dist: "distinct (map eID rows2)" using loadRows_inv [OF load] by (simp add: loadInv_def)
  let ?ok = "\<lambda>e c. \<exists>row. completeRow h s2 e = Inr row \<and> storedPayloadDigest h c = Inr (ePayloadDigest row)"
  have known: "list_all2 (\<lambda>e c. map_of (dsEntries s2) (eID e) = Some c) ins canon"
    unfolding list_all2_conv_all_nth
  proof (intro conjI allI impI)
    fix i assume i: "i < length ins"
    then have "canon ! i \<in> set rows2" using sub len by auto
    from tableOf_distinct [OF dist this] have "map_of (dsEntries s2) (eID (canon ! i)) = Some (canon ! i)"
      by (simp add: tab)
    moreover have "eID (canon ! i) = eID (ins ! i)"
      using A i len unfolding acknowledged_def by (metis nth_map)
    ultimately show "map_of (dsEntries s2) (eID (ins ! i)) = Some (canon ! i)" by simp
  qed (simp add: len)
  have start: "initialStage s2 \<lparr> agCanonical := [] \<rparr> = initialStage s2" by (simp add: initialStage_def)
  have st: "if list_all2 ?ok ins canon
      then foldR (stageRow h s2) (initialStage s2) ins = Inr (initialStage s2 \<lparr> agCanonical := canon \<rparr>)
      else \<exists>err. foldR (stageRow h s2) (initialStage s2) ins = Inl err"
    using stage_retry [OF known, of h "[]"] unfolding start append_Nil .
  have all: "list_all2 ?ok ins canon \<longleftrightarrow> (\<forall>i < length ins. ?ok (ins ! i) (canon ! i))"
    by (simp add: list_all2_conv_all_nth len)
  have c: "onDisk contextErr (d2, s) = (Inr (), (d2, s))" for s :: durable_store
    by (simp add: onDisk_def contextErr_def ctx)
  show ?thesis
  proof (cases "ins = []")
    case True
    with len opn show ?thesis by (simp add: AppendAndSync_def appendAndSyncLocked_def bindS_def c)
  next
    case False
    show ?thesis
    proof (cases "list_all2 ?ok ins canon")
      case True
      with st have f: "foldR (stageRow h s2) (initialStage s2) ins = Inr (initialStage s2 \<lparr> agCanonical := canon \<rparr>)" by simp
      have "AppendAndSync h ins (d2, s2) = (Inr canon, (d2, s2))" using False f opn
        by (simp add: AppendAndSync_def appendAndSyncLocked_def bindS_def c) (simp add: initialStage_def)
      with True all show ?thesis by blast
    next
      case no: False
      with st obtain err where f: "foldR (stageRow h s2) (initialStage s2) ins = Inl err" by auto
      have "AppendAndSync h ins (d2, s2) = (Inl err, (d2, s2))" using False f opn
        by (simp add: AppendAndSync_def appendAndSyncLocked_def bindS_def c)
      with no all show ?thesis by blast
    qed
  qed
qed

end
