(* ===== verification/StoreSamples.thy ===== *)
theory StoreSamples
  imports Recovery Samples
begin

text \<open>
  A concrete session directory and a concrete JSON codec, on which the theorems about the
  store are applied: a new session whose first row is appended.
\<close>

definition sampleDisk :: session_disk where
  "sampleDisk = \<lparr> fxCtx = None, fxIO = [], dkFiles = [], dkTorn = [], dkRandom = [''a''] \<rparr>"

definition sampleInput :: session_entry where
  "sampleInput = sampleUser \<lparr> eSessionID := [], eSeq := 0 \<rparr>"

definition encodeID :: "session_entry \<Rightarrow> string" where
  "encodeID e = CHR ''{'' # eID e @ ''}''"

definition sampleStored :: session_entry where
  "sampleStored = sampleUser \<lparr> eSessionID := ''s_61'', eSeq := 1,
     ePayloadDigest := ''sha256:'' @ hexEncode (encodeID sampleUser) \<rparr>"

definition sampleSessionHost :: session_host where
  "sampleSessionHost = \<lparr> shSha256 = (\<lambda>s. s), shMarshalEntry = (\<lambda>e. Some (encodeID e)),
     shUnmarshalEntry = (\<lambda>s. if s = encodeID sampleStored then Inr sampleStored else Inl TruncatedJSON),
     shMarshalRef = (\<lambda>r. Some (rActionID r)) \<rparr>"

definition sampleStore :: durable_store where
  "sampleStore = \<lparr> dsName = ''s_61.jsonl'', dsSessionID = ''s_61'', dsSessionLabel = [],
     dsActiveBranchID = ''main'', dsActiveLeafID = [], dsEntries = [], dsAppendOrder = [], dsMaxSeq = 0,
     dsView = emptyView \<lparr> svSessionID := ''s_61'', svBranchID := ''main'' \<rparr>,
     dsPoisoned = False, dsClosed = False \<rparr>"

definition sampleOpened :: session_disk where
  "sampleOpened = sampleDisk \<lparr> dkFiles := [(''s_61.jsonl'', [])], dkRandom := [] \<rparr>"

lemma sampleOpened_new: "PrepareNew ''dir'' [] sampleDisk = (Inr sampleStore, sampleOpened)"
  by code_simp

definition sampleAfter :: open_store where
  "sampleAfter = snd (AppendAndSync sampleSessionHost [sampleInput] (sampleOpened, sampleStore))"

lemma sampleAppend:
  "AppendAndSync sampleSessionHost [sampleInput] (sampleOpened, sampleStore) = (Inr [sampleStored], sampleAfter)"
proof -
  have "fst (AppendAndSync sampleSessionHost [sampleInput] (sampleOpened, sampleStore)) = Inr [sampleStored]"
    by code_simp
  then show ?thesis unfolding sampleAfter_def by (metis prod.collapse)
qed

lemma sampleStage:
  "\<exists>g. foldR (stageRow sampleSessionHost sampleStore) (initialStage sampleStore) [sampleInput] = Inr g
     \<and> agNewRows g = [sampleStored]"
proof -
  have "map_sum id agNewRows (foldR (stageRow sampleSessionHost sampleStore) (initialStage sampleStore) [sampleInput])
      = Inr [sampleStored]" by code_simp
  then show ?thesis
    by (cases "foldR (stageRow sampleSessionHost sampleStore) (initialStage sampleStore) [sampleInput]") auto
qed

end
