(* ===== verification/StoreProperties.thy ===== *)
theory StoreProperties
  imports RetryFacts StoreSamples SessionViewFacts
begin

text \<open>
  What the durable store guarantees: acknowledged rows survive failed writes, crashes and
  resumes, as long as the rows written survive the JSON codec; an acknowledgement means exactly
  the new rows are in the file; a refusal changes nothing or poisons the handle; a batch sent
  again writes nothing; recovery never claims success. A row that does not survive the codec is
  shown to make its session unreadable.
\<close>

section \<open>The sample session\<close>

lemma sampleStored_roundTrips: "roundTrips sampleSessionHost sampleStored"
proof -
  have s: "shMarshalEntry sampleSessionHost sampleStored = Some (encodeID sampleStored)"
    by (simp add: sampleSessionHost_def)
  have e: "encodeID sampleStored = ''{u}''" by (simp add: encodeID_def sampleStored_def sampleUser_def)
  have "shUnmarshalEntry sampleSessionHost p = Inl TruncatedJSON" if "strict_prefix p ''{u}''" for p
    using that unfolding strict_prefix_def by (simp add: sampleSessionHost_def e)
  then show ?thesis
    unfolding roundTrips_def s by (simp add: e) (simp add: sampleSessionHost_def e newline_def)
qed

lemma sample_writable: "writable sampleSessionHost sampleStore [sampleInput]"
proof -
  have "\<forall>r \<in> set (agNewRows g). roundTrips sampleSessionHost r" if "stagedBy sampleSessionHost sampleStore [sampleInput] g" for g
    using sampleStage that sampleStored_roundTrips by (auto simp: stagedBy_def)
  moreover have "dsMaxSeq sampleStore = 0" by (simp add: sampleStore_def)
  ultimately show ?thesis by (simp add: writable_def)
qed

lemma sample_holds: "holds sampleSessionHost (sampleOpened, sampleStore) []"
  by (rule PrepareNew_new(1) [OF sampleOpened_new])

lemma sampleAfter_store:
  "dsName (snd sampleAfter) = ''s_61.jsonl''" "dsSessionID (snd sampleAfter) = ''s_61''"
  "dsSessionLabel (snd sampleAfter) = []" "dsAppendOrder (snd sampleAfter) = [''u'']"
  "\<not> dsClosed (snd sampleAfter)" "\<not> dsPoisoned (snd sampleAfter)" "fxCtx (fst sampleAfter) = None"
proof -
  have "(\<lambda>(d, s). (dsName s, dsSessionID s, dsSessionLabel s, dsAppendOrder s, dsClosed s, dsPoisoned s, fxCtx d)) sampleAfter
      = (''s_61.jsonl'', ''s_61'', [], [''u''], False, False, None)" by code_simp
  then show "dsName (snd sampleAfter) = ''s_61.jsonl''" "dsSessionID (snd sampleAfter) = ''s_61''"
    "dsSessionLabel (snd sampleAfter) = []" "dsAppendOrder (snd sampleAfter) = [''u'']"
    "\<not> dsClosed (snd sampleAfter)" "\<not> dsPoisoned (snd sampleAfter)" "fxCtx (fst sampleAfter) = None"
    by (simp_all add: case_prod_beta)
qed

lemma sampleAfter_run:
  "AppendAndSync sampleSessionHost [sampleInput] (sampleOpened, sampleStore)
     = (Inr [sampleStored], (fst sampleAfter, snd sampleAfter))"
  by (simp add: sampleAppend)

lemma sampleAfter_holds: "holds sampleSessionHost (fst sampleAfter, snd sampleAfter) [sampleStored]"
proof -
  from append_acknowledged [OF sample_holds sample_writable sampleAfter_run]
  obtain new where new: "holds sampleSessionHost (fst sampleAfter, snd sampleAfter) new" "sampleStored \<in> set new"
    by (auto simp: acknowledged_def)
  from new(1) have "map eID new = [''u'']" using sampleAfter_store(4) by (auto simp: holds_def memoryOf_def)
  with new(2) have "new = [sampleStored]" by (cases new) auto
  with new(1) show ?thesis by simp
qed

lemma sample_lifecycle:
  "lifecycle sampleSessionHost (None :: unit recovery_authority option) (fst sampleAfter, snd sampleAfter) {sampleStored}"
proof -
  have "lifecycle sampleSessionHost (None :: unit recovery_authority option) (sampleOpened, sampleStore) {}"
    by (rule lifecycle.created [OF sampleOpened_new])
  then show ?thesis
    using lifecycle.appended [OF _ sample_writable sampleAfter_run] by fastforce
qed

section \<open>Properties\<close>

text \<open>
  C33. Acknowledged rows survive. Take a session after any sequence of creation, appends with
  any I/O failures, closes, crashes and resumes, in which every batch given to an append and every
  receipt a resume may write is safe: sequence numbers are left for it, and the rows it adds
  survive the JSON codec. Then reading the session's file fails for an I/O reason or returns rows
  that the loader accepts and that contain every row a successful append has ever returned.
  Without the condition this is false: \<open>unsafe_row_unreadable\<close> below.
\<close>

theorem acknowledged_rows_survive:
  assumes "storeHistory h authority (d, s) A evs" "\<forall>ev \<in> set evs. codecSafe h ev"
    and "readDurableJSONL h (dsName s) d = (r, d')"
  shows "r = Inl ErrIO \<or> (\<exists>rows ls. r = Inr rows \<and> A \<subseteq> set rows
    \<and> validateLoadedDurableEntries h rows (dsSessionID s) = Inr ls)"
  by (rule lifecycle_survives [OF storeHistory_lifecycle [OF assms(1,2)] assms(3)])

lemma sample_history:
  "storeHistory sampleSessionHost (None :: unit recovery_authority option) (fst sampleAfter, snd sampleAfter) {sampleStored}
     [BatchGiven sampleStore [sampleInput]]"
proof -
  have "storeHistory sampleSessionHost (None :: unit recovery_authority option) (sampleOpened, sampleStore) {} []"
    by (rule storeHistory.created [OF sampleOpened_new])
  then show ?thesis using storeHistory.appended [OF _ sampleAfter_run] by fastforce
qed

theorem acknowledged_rows_survive_witness:
  "fst (readDurableJSONL sampleSessionHost ''s_61.jsonl'' (fst sampleAfter)) = Inr [sampleStored]
    \<and> (\<exists>ls. validateLoadedDurableEntries sampleSessionHost [sampleStored] ''s_61'' = Inr ls)"
proof -
  have n: "map_sum id (map eID) (fst (readDurableJSONL sampleSessionHost ''s_61.jsonl'' (fst sampleAfter))) = Inr [''u'']"
    by code_simp
  have safe: "\<forall>ev \<in> set [BatchGiven sampleStore [sampleInput]]. codecSafe sampleSessionHost ev"
    using sample_writable by (simp add: codecSafe_def)
  from acknowledged_rows_survive [OF sample_history safe] sampleAfter_store(1,2) obtain rows ls where
    "fst (readDurableJSONL sampleSessionHost ''s_61.jsonl'' (fst sampleAfter)) = Inl ErrIO
     \<or> fst (readDurableJSONL sampleSessionHost ''s_61.jsonl'' (fst sampleAfter)) = Inr rows \<and> sampleStored \<in> set rows
       \<and> validateLoadedDurableEntries sampleSessionHost rows ''s_61'' = Inr ls"
    by (metis prod.collapse insert_subset)
  with n have r: "fst (readDurableJSONL sampleSessionHost ''s_61.jsonl'' (fst sampleAfter)) = Inr rows"
    "sampleStored \<in> set rows" "validateLoadedDurableEntries sampleSessionHost rows ''s_61'' = Inr ls" "length rows = 1"
    by auto
  then have "rows = [sampleStored]" by (cases rows) auto
  with r show ?thesis by auto
qed

text \<open>
  The codec as Go's is on text that is not UTF-8: it writes an escaped replacement character for
  the byte, reads it back as that character, and would then write the character itself. The row
  is acknowledged, and the digest it was stored under refuses the file from then on.
\<close>

definition brokenInput :: session_entry where
  "brokenInput = sampleInput \<lparr> eContent := [CHR 0xFF] \<rparr>"

definition encodeContent :: "session_entry \<Rightarrow> string" where
  "encodeContent e = CHR ''{'' # (if eContent e = [CHR 0xFF] then CHR 0x5C # ''ufffd'' else eContent e) @ ''}''"

definition brokenStored :: session_entry where
  "brokenStored = sampleStored \<lparr> eContent := [CHR 0xFF],
     ePayloadDigest := ''sha256:'' @ hexEncode (encodeContent brokenInput) \<rparr>"

definition replacingHost :: session_host where
  "replacingHost = \<lparr> shSha256 = (\<lambda>s. s), shMarshalEntry = (\<lambda>e. Some (encodeContent e)),
     shUnmarshalEntry = (\<lambda>s. if s = encodeContent brokenStored
       then Inr (brokenStored \<lparr> eContent := [CHR 0xEF, CHR 0xBF, CHR 0xBD] \<rparr>) else Inl TruncatedJSON),
     shMarshalRef = (\<lambda>r. Some (rActionID r)) \<rparr>"

lemma unsafe_row_unreadable:
  "fst (AppendAndSync replacingHost [brokenInput] (sampleOpened, sampleStore)) = Inr [brokenStored]
    \<and> map_sum (\<lambda>_. ()) (\<lambda>_. ()) (bindR (fst (readDurableJSONL replacingHost ''s_61.jsonl''
         (fst (snd (AppendAndSync replacingHost [brokenInput] (sampleOpened, sampleStore))))))
       (\<lambda>rows. validateLoadedDurableEntries replacingHost rows ''s_61'')) = Inl ()"
  by (intro conjI; code_simp)

text \<open>
  C34. An acknowledgement is exact. When an append on a store whose file holds some rows
  succeeds, the new rows are completions of inputs with the next sequence numbers, their lines
  are exactly what was added to the file, and the file and the memory then hold all rows. The
  returned rows carry the IDs of the inputs in order, are all stored, and each has the payload
  digest its input completes to.
\<close>

theorem acknowledged_append_exact:
  assumes "holds h (d, s) rows" "writable h s ins" "AppendAndSync h ins (d, s) = (Inr canon, (d', s'))"
  shows "\<exists>new. holds h (d', s') (rows @ new)
     \<and> map eID canon = map eID ins \<and> set canon \<subseteq> set (rows @ new)
     \<and> (\<forall>i < length ins. \<exists>row. completeRow h s (ins ! i) = Inr row
          \<and> storedPayloadDigest h (canon ! i) = Inr (ePayloadDigest row))
     \<and> (\<forall>r \<in> set new. \<exists>e \<in> set ins. completionOf h s e r)
     \<and> map eSeq new = map (\<lambda>i. dsMaxSeq s + of_nat (Suc i)) [0..<length new]
     \<and> fileBytes d' (dsName s) = fileBytes d (dsName s) @ concat (map (rowLine h) new)"
  using append_acknowledged [OF assms] by (simp add: acknowledged_def)

theorem acknowledged_append_exact_witness:
  "\<exists>new. holds sampleSessionHost sampleAfter new \<and> sampleStored \<in> set new
    \<and> fileBytes (fst sampleAfter) ''s_61.jsonl'' = concat (map (rowLine sampleSessionHost) new)"
proof -
  from acknowledged_append_exact [OF sample_holds sample_writable sampleAfter_run]
  show ?thesis by (auto simp: sampleStore_def sampleOpened_def fileBytes_def)
qed

text \<open>
  C35. A refused append is harmless. Either nothing has changed, or an I/O operation failed
  after the batch was decided: then at most a prefix of its bytes is in the file and the
  handle is poisoned, and a poisoned or closed handle acknowledges nothing, changes no file
  and gives no snapshot.
\<close>

theorem refused_append_harmless:
  assumes "AppendAndSync h ins (d, s) = (Inl err, (d', s'))"
  shows "(s' = s \<and> sameFiles d d'
     \<or> err = ErrIO \<and> s' = s \<lparr> dsPoisoned := True \<rparr>
       \<and> (\<exists>g a n. stagedBy h s ins g \<and> decideAppend h s g = Inr a \<and> grows d (dsName s) (take n (apBytes a)) d'))
    \<and> (dsClosed s' \<or> dsPoisoned s' \<longrightarrow> (\<forall>ins2 d2. \<exists>err2 d3.
         AppendAndSync h ins2 (d2, s') = (Inl err2, (d3, s')) \<and> sameFiles d2 d3)
       \<and> (\<exists>err2. snapshotLocked s' = Inl err2))"
proof -
  have "\<exists>err2 d3. AppendAndSync h ins2 (d2, s') = (Inl err2, (d3, s')) \<and> sameFiles d2 d3"
    if "dsClosed s' \<or> dsPoisoned s'" for ins2 d2
  proof -
    obtain r d3 s3 where run: "AppendAndSync h ins2 (d2, s') = (r, (d3, s3))" by (metis prod.collapse)
    from dead_store [OF that run] run show ?thesis by auto
  qed
  moreover have "\<exists>err2. snapshotLocked s' = Inl err2" if "dsClosed s' \<or> dsPoisoned s'"
    using dead_snapshot [OF that] .
  moreover from assms have "s' = s \<and> sameFiles d d'
     \<or> err = ErrIO \<and> s' = s \<lparr> dsPoisoned := True \<rparr>
       \<and> (\<exists>g a n. stagedBy h s ins g \<and> decideAppend h s g = Inr a \<and> grows d (dsName s) (take n (apBytes a)) d')"
    by (cases rule: append_refused) blast+
  ultimately show ?thesis by blast
qed

text \<open>A sync that fails after two bytes of the row reached the file.\<close>

theorem refused_append_harmless_witness:
  "\<exists>d' s'. AppendAndSync sampleSessionHost [sampleInput] (sampleOpened \<lparr> fxIO := [IoOk, IoFail 2] \<rparr>, sampleStore)
      = (Inl ErrIO, (d', s')) \<and> fileBytes d' ''s_61.jsonl'' = ''{u''
    \<and> (\<exists>err2. snapshotLocked s' = Inl err2)"
proof -
  let ?p = "AppendAndSync sampleSessionHost [sampleInput] (sampleOpened \<lparr> fxIO := [IoOk, IoFail 2] \<rparr>, sampleStore)"
  have c: "map_sum id (map eID) (fst ?p) = Inl ErrIO" "fileBytes (fst (snd ?p)) ''s_61.jsonl'' = ''{u''" "dsPoisoned (snd (snd ?p))"
    by code_simp+
  from c(1) have run: "?p = (Inl ErrIO, (fst (snd ?p), snd (snd ?p)))"
    by (cases "fst ?p") (simp_all add: prod_eq_iff)
  from refused_append_harmless [OF run] c(2,3) run show ?thesis by blast
qed



text \<open>
  C37. Recovery writes exactly one receipt for every pending call that has none, in order, as a
  chain that continues the active leaf, with the next transcript indices of each run. A
  receipt never claims success or error: a call whose marker is absent is interrupted and not
  dispatched, a marked one is dispatched with unknown outcome.
\<close>

theorem recovery_receipts_exact:
  assumes "buildRecoveryReceipts h plan decisions sid branch leaf entries = Inr rows"
  shows "length decisions = length (rpPending plan)
    \<and> list_all2 (receiptFor plan sid branch) (filter (lacksReceipt plan sid) (zip (rpPending plan) decisions)) rows
    \<and> map eParentID rows = butlast (leaf # map eID rows)
    \<and> (\<forall>i < length rows. eTranscriptIndex (rows ! i) = Some (nextIndexOf (rpNextTranscriptIndex plan)
         (eRunID (rows ! i)) + of_nat (runRows (eRunID (rows ! i)) (take i rows))))
    \<and> (\<forall>r \<in> set rows. eReceiptOutcome r = ReceiptOutcomeInterrupted \<or> eReceiptOutcome r = ReceiptOutcomeUnknown)"
proof -
  note B = buildRecoveryReceipts_built [OF assms]
  from B(2) have b: "list_all2 (receiptFor plan sid branch) (filter (lacksReceipt plan sid) (zip (rpPending plan) decisions)) rows"
    "map eParentID rows = butlast (leaf # map eID rows)"
    "\<forall>i < length rows. eTranscriptIndex (rows ! i) = Some (nextIndexOf (rpNextTranscriptIndex plan)
         (eRunID (rows ! i)) + of_nat (runRows (eRunID (rows ! i)) (take i rows)))"
    by (auto simp: builtFrom_def)
  have "eReceiptOutcome r = ReceiptOutcomeInterrupted \<or> eReceiptOutcome r = ReceiptOutcomeUnknown"
    if "r \<in> set rows" for r
    using b(1) that by (auto simp: list_all2_conv_all_nth in_set_conv_nth receiptFor_def outcomeOfMarker_def split: if_splits)
  with b B(1) show ?thesis by blast
qed

definition sampleDecision :: pending_decision where
  "sampleDecision = \<lparr> pdAction = sampleRef, pdMarkerState = DispatchMarkerPresent \<rparr>"

definition crashedRows :: "session_entry list" where
  "crashedRows = [sampleUser, sampleAssistant, sampleIntent]"

theorem recovery_receipts_exact_witness:
  "\<exists>plan row. analyzeDurableActionJournal crashedRows ''s'' = Inr plan
    \<and> buildRecoveryReceipts sampleSessionHost plan [sampleDecision] ''s'' ''main'' ''i'' (tableOf crashedRows) = Inr [row]
    \<and> receiptFor plan ''s'' ''main'' (sampleRef, sampleDecision) row \<and> eParentID row = ''i''"
proof -
  let ?built = "bindR (analyzeDurableActionJournal crashedRows ''s'') (\<lambda>plan. bindR
    (buildRecoveryReceipts sampleSessionHost plan [sampleDecision] ''s'' ''main'' ''i'' (tableOf crashedRows))
    (\<lambda>rows. Inr (plan, rows)))"
  have c: "map_sum id (\<lambda>(plan, rows). (rpPending plan, map eReceiptOutcome rows,
      map (lacksReceipt plan ''s'') (zip (rpPending plan) [sampleDecision]))) ?built
    = Inr ([sampleRef], [ReceiptOutcomeUnknown], [True])" by code_simp
  then obtain pr where "?built = Inr pr" by (cases ?built) simp_all
  then obtain plan rows where b: "analyzeDurableActionJournal crashedRows ''s'' = Inr plan"
    "buildRecoveryReceipts sampleSessionHost plan [sampleDecision] ''s'' ''main'' ''i'' (tableOf crashedRows) = Inr rows"
    by (auto simp: bindR_eq_Inr)
  from c b have r: "rpPending plan = [sampleRef]" "length rows = 1" "lacksReceipt plan ''s'' (sampleRef, sampleDecision)"
    by auto
  from r(2) obtain row where row: "rows = [row]" by (cases rows) auto
  from recovery_receipts_exact [OF b(2)] r have "receiptFor plan ''s'' ''main'' (sampleRef, sampleDecision) row"
    "eParentID row = ''i''" by (simp_all add: row)
  with b row show ?thesis by blast
qed

text \<open>
  C38. A session that is resumed with success is ready for the next turn: the store holds every
  acknowledged row, the handle is open, every tool call on the active branch has its receipt
  under the same tool name, and the published view consists of the projected messages of that
  branch with their source rows.
\<close>

theorem resumed_session_ready:
  assumes "lifecycle h authority (d, s) A"
    and "\<And>d0 d1 entries. sameFiles d d0 \<Longrightarrow> readDurableJSONL h (dsName s) d0 = (Inr entries, d1)
      \<Longrightarrow> recoveryWritable h (dsName s) (dsSessionID s) entries"
    and "PrepareResume h authority inspect directory (dsSessionID s) (d, a) = (Inr st, (d', a'))"
  shows "\<exists>rows branch. holds h (d', st) rows \<and> A \<subseteq> set rows \<and> \<not> dsClosed st \<and> \<not> dsPoisoned st
    \<and> orderedDurableBranch (dsActiveLeafID st) (tableOf rows) = Inr branch
    \<and> closedBranch (dsSessionID s) branch \<and> viewOf branch (dsView st)"
  by (rule lifecycle_resume [OF assms])

definition sampleInspection :: process_inspection where
  "sampleInspection = \<lparr> piStatus = ProcessGroupExitUnknown, piReason = ''none'', piObservedAt = 0 \<rparr>"

lemma sample_readable:
  "readComplete sampleSessionHost (fileBytes (fst sampleAfter) ''s_61.jsonl'') = Inr ([sampleStored], [])"
  using sampleAfter_holds sampleAfter_store by (simp add: holds_def)

lemma sample_recoverable:
  assumes "sameFiles (fst sampleAfter) d0" "readDurableJSONL sampleSessionHost ''s_61.jsonl'' d0 = (Inr entries, d1)"
  shows "recoveryWritable sampleSessionHost ''s_61.jsonl'' ''s_61'' entries"
proof -
  from assms(2) [unfolded readDurableJSONL_def] have "entries = [sampleStored]"
  proof (cases rule: bindS_cases)
    case (runs u d2)
    then have "fileBytes d2 ''s_61.jsonl'' = fileBytes (fst sampleAfter) ''s_61.jsonl''"
      using sameFiles_trans [OF assms(1) ioStep_files] sameFiles_bytes by blast
    with runs(2) show ?thesis by (simp add: sample_readable bindS_def repairTail_def)
  qed auto
  moreover have "map_sum id rpPending (analyzeDurableActionJournal [sampleStored] ''s_61'') = Inr []" by code_simp
  ultimately have idle: "rpPending plan = []" if "analyzeDurableActionJournal entries ''s_61'' = Inr plan" for plan
    using that by simp
  have none: "rows = []" if "rpPending plan = []" "buildRecoveryReceipts sampleSessionHost plan decisions sid branch leaf tab = Inr rows"
    for plan decisions sid branch leaf tab rows
    using that by (auto simp: buildRecoveryReceipts_def bindR_eq_Inr split: if_splits)
  have "writable sampleSessionHost st []" for st
    using unsigned_less [of "dsMaxSeq st"] by (auto simp: writable_def stagedBy_def initialStage_def)
  then show ?thesis unfolding recoveryWritable_def using idle none by blast
qed

theorem resumed_session_ready_witness:
  "\<exists>st d'. PrepareResume sampleSessionHost (None :: unit recovery_authority option) (\<lambda>_. sampleInspection) ''dir'' ''s_61''
      (fst sampleAfter, ()) = (Inr st, (d', ())) \<and> dsActiveLeafID st = ''u''
    \<and> (\<exists>rows. holds sampleSessionHost (d', st) rows \<and> sampleStored \<in> set rows)"
proof -
  let ?p = "PrepareResume sampleSessionHost (None :: unit recovery_authority option) (\<lambda>_. sampleInspection) ''dir'' ''s_61''
      (fst sampleAfter, ())"
  have "map_sum id dsActiveLeafID (fst ?p) = Inr ''u''" by code_simp
  then obtain st where st: "fst ?p = Inr st" "dsActiveLeafID st = ''u''" by (cases "fst ?p") auto
  then have run: "?p = (Inr st, (fst (snd ?p), ()))" by (simp add: prod_eq_iff)
  note n = sampleAfter_store(1,2)
  have run': "PrepareResume sampleSessionHost (None :: unit recovery_authority option) (\<lambda>_. sampleInspection) ''dir''
      (dsSessionID (snd sampleAfter)) (fst sampleAfter, ()) = (Inr st, (fst (snd ?p), ()))" unfolding n by (rule run)
  have "\<exists>rows branch. holds sampleSessionHost (fst (snd ?p), st) rows \<and> {sampleStored} \<subseteq> set rows \<and> \<not> dsClosed st \<and> \<not> dsPoisoned st
    \<and> orderedDurableBranch (dsActiveLeafID st) (tableOf rows) = Inr branch
    \<and> closedBranch (dsSessionID (snd sampleAfter)) branch \<and> viewOf branch (dsView st)"
    by (rule resumed_session_ready [OF sample_lifecycle _ run']) (unfold n, rule sample_recoverable)
  with run st(2) show ?thesis by auto
qed

text \<open>
  C39. The rows of a session are well formed. In every reachable state the store holds rows
  such that each has a known type and belongs to the session, its ID is new and its parent is
  an earlier row, the sequence numbers increase, a version 1 row is complete and only the
  first one is a root, and a payload digest is the digest of the canonical payload.
\<close>

theorem stored_rows_typed:
  assumes "lifecycle h authority (d, s) A"
  shows "\<exists>rows. holds h (d, s) rows \<and> A \<subseteq> set rows
    \<and> (\<forall>i < length rows. typedRow h (dsSessionID s) (take i rows) (rows ! i))"
  using lifecycle_inv [OF assms] holds_typed by (fastforce simp: lifecycleInv_def)

theorem stored_rows_typed_witness:
  "typedRow sampleSessionHost ''s_61'' [] sampleStored"
proof -
  from stored_rows_typed [OF sample_lifecycle] obtain rows where r: "holds sampleSessionHost (fst sampleAfter, snd sampleAfter) rows"
    "sampleStored \<in> set rows" "\<forall>i < length rows. typedRow sampleSessionHost ''s_61'' (take i rows) (rows ! i)"
    by (auto simp: sampleAfter_store)
  from r(1) have "map eID rows = [''u'']" using sampleAfter_store(4) by (auto simp: holds_def memoryOf_def)
  with r(2) have "rows = [sampleStored]" by (cases rows) auto
  with r(3) show ?thesis by simp
qed

text \<open>
  A snapshot of an open store has exactly the rows of its file, and the pending actions
  reported for a snapshot are those the journal analysis of these rows leaves pending.
\<close>

theorem snapshot_reports_pending:
  assumes "holds h (d, s) rows" "\<not> dsClosed s" "\<not> dsPoisoned s"
  shows "\<exists>snap. snapshotLocked s = Inr snap \<and> psDurableEntries snap = rows \<and> psSessionID snap = dsSessionID s
    \<and> psMaxSeq snap = dsMaxSeq s \<and> psActiveLeafEntryID snap = dsActiveLeafID s
    \<and> (\<forall>xs. InspectPendingActions snap = Inr xs \<longrightarrow>
        (\<exists>plan. analyzeDurableActionJournal rows (dsSessionID s) = Inr plan \<and> map paAction xs = rpPending plan))"
  using snapshot_of [OF assms] InspectPendingActions_exact by force

theorem snapshot_reports_pending_witness:
  "\<exists>snap. snapshotLocked (snd sampleAfter) = Inr snap \<and> sampleStored \<in> set (psDurableEntries snap)
    \<and> InspectPendingActions snap = Inr []"
proof -
  have c: "map_sum id (\<lambda>snap. map_sum id (map paAction) (InspectPendingActions snap)) (snapshotLocked (snd sampleAfter)) = Inr (Inr [])"
    by code_simp
  from snapshot_reports_pending [OF sampleAfter_holds sampleAfter_store(5,6)] obtain snap where
    "snapshotLocked (snd sampleAfter) = Inr snap" "psDurableEntries snap = [sampleStored]" by blast
  with c show ?thesis by (cases "InspectPendingActions snap") auto
qed

end
