(* ===== verification/SessionJournal.thy ===== *)
theory SessionJournal
  imports AppendFacts
begin

text \<open>
  The interface between a prepared session and its clients: a durable writer and snapshots
  (\<open>DurableSessionWriter\<close> and \<open>PreparedSession\<close> of \<open>durable_contract.go\<close>). The client sees
  a list of rows that only an acknowledged append extends; the durable JSONL store provides
  it.
\<close>

section \<open>The contract\<close>

text \<open>
  \<open>stored s rows\<close>: the session holds these rows. \<open>room s n\<close>: at least \<open>n\<close> sequence numbers
  are left. \<open>completes s e r\<close>: the row \<open>r\<close> is the input \<open>e\<close> as the writer completes it;
  \<open>stands s e r\<close>: \<open>r\<close> is that row or an earlier one with the same ID and content. An input whose ID is not in the session becomes a row of its own, at the end.
\<close>

locale session_journal =
  fixes append :: "session_entry list \<Rightarrow> ('s, session_entry list) op"
    and snapshot :: "'s \<Rightarrow> go_error + prepared_snapshot"
    and stored :: "'s \<Rightarrow> session_entry list \<Rightarrow> bool"
    and room :: "'s \<Rightarrow> nat \<Rightarrow> bool"
    and completes :: "'s \<Rightarrow> session_entry \<Rightarrow> session_entry \<Rightarrow> bool"
    and stands :: "'s \<Rightarrow> session_entry \<Rightarrow> session_entry \<Rightarrow> bool"
  assumes append_stored: "stored s rows \<Longrightarrow> room s (length ins) \<Longrightarrow> append ins s = (Inr canon, s') \<Longrightarrow>
      \<exists>new. stored s' (rows @ new) \<and> length new \<le> length ins \<and> map eID canon = map eID ins
        \<and> set canon \<subseteq> set (rows @ new) \<and> (\<forall>r \<in> set new. \<exists>e \<in> set ins. completes s e r)
        \<and> (\<forall>e \<in> set ins. \<exists>r \<in> set (rows @ new). stands s e r)
        \<and> (distinct (map eID ins) \<and> eID ` set ins \<inter> eID ` set rows = {} \<longrightarrow> new = canon \<and> list_all2 (completes s) ins new)
        \<and> (\<forall>n. room s (length new + n) \<longrightarrow> room s' n)"
    and append_refused: "stored s rows \<Longrightarrow> append ins s = (Inl err, s') \<Longrightarrow> stored s' rows \<and> (room s n \<longrightarrow> room s' n)"
    and snapshot_rows: "stored s rows \<Longrightarrow> snapshot s = Inr snap \<Longrightarrow> psDurableEntries snap = rows"
    and completes_id: "completes s e r \<Longrightarrow> eID r = eID e"
begin

text \<open>Whatever an append answers, the rows before it stay and at most the batch is added.\<close>

lemma append_extends:
  assumes "stored s rows" "room s (length ins)" "append ins s = (res, s')"
  shows "\<exists>new. stored s' (rows @ new) \<and> length new \<le> length ins
    \<and> (\<forall>n. room s (length new + n) \<longrightarrow> room s' n) \<and> (\<forall>err. res = Inl err \<longrightarrow> new = [])"
proof (cases res)
  case (Inl err)
  with append_refused [OF assms(1)] assms(3) show ?thesis by (intro exI [of _ "[]"]) auto
next
  case (Inr canon)
  with append_stored [OF assms(1,2)] assms(3) show ?thesis by blast
qed

text \<open>The row of an input whose ID is new to the session is its completion.\<close>

lemma append_fresh_one:
  assumes "stored s rows" "room s (length ins)" "append ins s = (Inr canon, s')" "ins = us @ [e]"
    and "eID e \<notin> eID ` set (rows @ us)"
  shows "completes s e (last canon) \<and> canon \<noteq> []"
proof -
  from append_stored [OF assms(1-3)] obtain new where new: "map eID canon = map eID ins"
    "set canon \<subseteq> set (rows @ new)" "\<forall>r \<in> set new. \<exists>e \<in> set ins. completes s e r" by blast
  from new(1) assms(4) have ne: "canon \<noteq> []" by auto
  have last: "eID (last canon) = eID e"
    using arg_cong [OF new(1), of last] assms(4) ne by (simp add: last_map)
  have "last canon \<in> set (rows @ new)" using new(2) ne last_in_set by blast
  with last assms(5) have "last canon \<in> set new" by (metis Un_iff image_eqI set_append)
  with new(3) obtain e' where e': "e' \<in> set ins" "completes s e' (last canon)" by blast
  with last assms(4,5) completes_id [OF e'(2)] have "e' = e" by (metis Un_iff image_eqI in_set_conv_decomp set_ConsD set_append empty_iff list.set(1))
  with e' ne show ?thesis by simp
qed

end

section \<open>The durable store provides it\<close>

definition storedRows :: "'h session_host_scheme \<Rightarrow> open_store \<Rightarrow> session_entry list \<Rightarrow> bool" where
  "storedRows h p rows \<longleftrightarrow> (\<exists>ls. memoryOf h (snd p) rows ls)"

definition seqRoom :: "open_store \<Rightarrow> nat \<Rightarrow> bool" where
  "seqRoom p n \<longleftrightarrow> unat (dsMaxSeq (snd p)) + n < 2 ^ 64"

definition completedBy :: "'h session_host_scheme \<Rightarrow> open_store \<Rightarrow> session_entry \<Rightarrow> session_entry \<Rightarrow> bool" where
  "completedBy h p e r \<longleftrightarrow> completionOf h (snd p) e r"

text \<open>The row has the ID of the input, and the payload digest of the input's completion.\<close>

definition standsFor :: "'h session_host_scheme \<Rightarrow> open_store \<Rightarrow> session_entry \<Rightarrow> session_entry \<Rightarrow> bool" where
  "standsFor h p e r \<longleftrightarrow> eID r = eID e
     \<and> (\<exists>row. completeRow h (snd p) e = Inr row \<and> storedPayloadDigest h r = Inr (ePayloadDigest row))"

lemma stageInv_stands:
  assumes "stageInv h s rows ins g" "e \<in> set ins"
  shows "\<exists>r \<in> set (rows @ agNewRows g). standsFor h (d, s) e r"
proof -
  from assms(2) obtain i where i: "i < length ins" "e = ins ! i" by (auto simp: in_set_conv_nth)
  with assms(1) show ?thesis unfolding stageInv_def standsFor_def by fastforce
qed

lemma completionOf_fields:
  assumes "completionOf h s e r"
  shows "eID r = eID e" "eParentID r = eParentID e" "eRecordVersion r = 1" "eSessionID r = dsSessionID s"
    "\<exists>label branch n digest. r = e \<lparr> eSessionID := dsSessionID s, eSessionLabel := label, eBranchID := branch,
       eRecordVersion := 1, eSeq := n, ePayloadDigest := digest \<rparr> \<and> (eBranchID e \<noteq> [] \<longrightarrow> branch = eBranchID e)"
proof -
  from assms obtain row where row: "completeRow h s e = Inr row" "r = row \<lparr> eSeq := eSeq r \<rparr>"
    unfolding completionOf_def by blast
  define base where "base = e \<lparr> eSessionID := dsSessionID s,
      eSessionLabel := (if eSessionLabel e = [] then dsSessionLabel s else eSessionLabel e),
      eBranchID := (if (if eBranchID e = [] then dsActiveBranchID s else eBranchID e) = [] then ''main''
        else (if eBranchID e = [] then dsActiveBranchID s else eBranchID e)),
      eRecordVersion := (if eRecordVersion e = 0 then 1 else eRecordVersion e) \<rparr>"
  from row(1) obtain p where p: "eRecordVersion base = 1" "row = base \<lparr> eSeq := 0, ePayloadDigest := snd p \<rparr>"
    unfolding completeRow_def base_def [symmetric] Let_def
    by (auto simp: bindR_eq_Inr split: if_split_asm)
  then have v: "(if eRecordVersion e = 0 then 1 else eRecordVersion e) = 1" by (simp add: base_def)
  have "row = e \<lparr> eSessionID := dsSessionID s, eSessionLabel := eSessionLabel base, eBranchID := eBranchID base,
       eRecordVersion := 1, eSeq := 0, ePayloadDigest := snd p \<rparr> \<and> (eBranchID e \<noteq> [] \<longrightarrow> eBranchID base = eBranchID e)"
    unfolding p(2) base_def v by simp
  then obtain label branch digest where f: "row = e \<lparr> eSessionID := dsSessionID s, eSessionLabel := label, eBranchID := branch,
       eRecordVersion := 1, eSeq := 0, ePayloadDigest := digest \<rparr>" "eBranchID e \<noteq> [] \<longrightarrow> branch = eBranchID e" by blast
  define n where "n = eSeq r"
  from row(2) have r: "r = e \<lparr> eSessionID := dsSessionID s, eSessionLabel := label, eBranchID := branch,
       eRecordVersion := 1, eSeq := n, ePayloadDigest := digest \<rparr>"
    unfolding n_def [symmetric] f(1) by simp
  then show "eID r = eID e" "eParentID r = eParentID e" "eRecordVersion r = 1" "eSessionID r = dsSessionID s" by simp_all
  from r f(2) show "\<exists>label branch n digest. r = e \<lparr> eSessionID := dsSessionID s, eSessionLabel := label, eBranchID := branch,
       eRecordVersion := 1, eSeq := n, ePayloadDigest := digest \<rparr> \<and> (eBranchID e \<noteq> [] \<longrightarrow> branch = eBranchID e)"
    by blast
qed

text \<open>Inputs with new IDs become rows one by one.\<close>

lemma stage_fresh:
  assumes M: "memoryOf h s rows ls" and run: "stagedBy h s ins g" and room: "unat (dsMaxSeq s) + length ins < 2 ^ 64"
    and new: "distinct (map eID ins)" "eID ` set ins \<inter> eID ` set rows = {}"
  shows "agCanonical g = agNewRows g \<and> list_all2 (completionOf h s) ins (agNewRows g)"
proof -
  have run': "foldR (stageRow h s) (initialStage s) ins = Inr g" using run by (simp add: stagedBy_def)
  have "stageInv h s rows ins g \<and> agCanonical g = agNewRows g \<and> list_all2 (completionOf h s) ins (agNewRows g)"
  proof (rule foldR_prefix_invariant [where I = "\<lambda>us g. stageInv h s rows us g \<and> agCanonical g = agNewRows g
        \<and> list_all2 (completionOf h s) us (agNewRows g)", OF run'])
    show "stageInv h s rows [] (initialStage s) \<and> agCanonical (initialStage s) = agNewRows (initialStage s)
        \<and> list_all2 (completionOf h s) [] (agNewRows (initialStage s))"
      using M by (simp add: stageInv_def initialStage_def memoryOf_def accepted_iff tableOf_def)
    fix us e vs t t'
    assume ins: "ins = us @ e # vs" and step: "stageRow h s t e = Inr t'"
      and I: "stageInv h s rows us t \<and> agCanonical t = agNewRows t \<and> list_all2 (completionOf h s) us (agNewRows t)"
    from step obtain row where row: "completeRow h s e = Inr row" by (auto simp: stageRow_def bindR_eq_Inr)
    note C = completeRow_Inr [OF row]
    have ids: "map eID (agNewRows t) = map eID us" using I stageInv_ids by metis
    have "eID e \<notin> eID ` set (rows @ agNewRows t)"
      using new ins arg_cong [OF ids, of set] by auto
    then have "map_of (agStaged t) (eID row) = None" "map_of (agAvailable t) (eID row) = None"
      using I C(2) by (simp_all add: stageInv_def tableOf_None image_Un)
    with step row have "newRow t row = Inr t'" by (simp add: stageRow_def)
    then have "agNewRows t' = agNewRows t @ [row \<lparr> eSeq := agNextSeq t + 1 \<rparr>]"
      "agCanonical t' = agCanonical t @ [row \<lparr> eSeq := agNextSeq t + 1 \<rparr>]"
      by (auto simp: newRow_def Let_def split: if_splits)
    moreover have "completionOf h s e (row \<lparr> eSeq := agNextSeq t + 1 \<rparr>)" by (simp add: completionOf_def row)
    moreover have "stageInv h s rows (us @ [e]) t'"
      using stageRow_inv [OF conjunct1 [OF I] step] room ins by simp
    ultimately show "stageInv h s rows (us @ [e]) t' \<and> agCanonical t' = agNewRows t'
        \<and> list_all2 (completionOf h s) (us @ [e]) (agNewRows t')"
      using I by (simp add: list_all2_appendI)
  qed
  then show ?thesis by blast
qed

lemma installed_memory:
  assumes M: "memoryOf h s rows ls" and I: "stageInv h s rows ins g" and a: "decideAppend h s g = Inr a"
  shows "\<exists>ls'. memoryOf h (installAppend a s) (rows @ agNewRows g) ls'"
proof -
  note D = decideAppend_Inr [OF a]
  from I obtain ls' where ls': "loadRows h (dsSessionID s) (rows @ agNewRows g) = Inr ls'" "lsMaxSeq ls' = agNextSeq g"
    "lsLeaf ls' = apLeaf a" "lsBranch ls' = apBranch a" unfolding stageInv_def D(2,3) by blast
  have acc: "accepted h (dsSessionID s) (rows @ agNewRows g) ls'"
    unfolding accepted_iff using ls'(1) D(4,5) by (simp add: memoryOf_sequence [OF M])
  have "dsEntries s = tableOf rows" "dsAppendOrder s = map eID rows" using M by (simp_all add: memoryOf_def)
  with acc ls' have "memoryOf h (installAppend a s) (rows @ agNewRows g) ls'"
    by (simp add: memoryOf_def installAppend_def D(1) tableOf_append) (simp add: tableOf_def)
  then show ?thesis by blast
qed

text \<open>One acknowledged append, as the store's memory and file see it.\<close>

definition journalAppend ::
  "'h session_host_scheme \<Rightarrow> session_entry list \<Rightarrow> session_entry list \<Rightarrow> session_entry list \<Rightarrow> open_store \<Rightarrow> open_store
     \<Rightarrow> session_entry list \<Rightarrow> bool" where
  "journalAppend h rows ins canon p p' new \<longleftrightarrow> storedRows h p' (rows @ new)
     \<and> length new \<le> length ins \<and> map eID canon = map eID ins \<and> set canon \<subseteq> set (rows @ new)
     \<and> (\<forall>r \<in> set new. \<exists>e \<in> set ins. completedBy h p e r)
     \<and> (\<forall>e \<in> set ins. \<exists>r \<in> set (rows @ new). standsFor h p e r)
     \<and> (distinct (map eID ins) \<and> eID ` set ins \<inter> eID ` set rows = {} \<longrightarrow> new = canon \<and> list_all2 (completedBy h p) ins new)
     \<and> unat (dsMaxSeq (snd p')) = unat (dsMaxSeq (snd p)) + length new
     \<and> fileBytes (fst p') (dsName (snd p)) = fileBytes (fst p) (dsName (snd p)) @ concat (map (rowLine h) new)
     \<and> \<not> dsPoisoned (snd p') \<and> \<not> dsClosed (snd p') \<and> \<not> dsPoisoned (snd p) \<and> \<not> dsClosed (snd p)
     \<and> (if new = [] then snd p' = snd p
        else \<exists>g a. agNewRows g = new \<and> agAvailable g = tableOf (rows @ new) \<and> decideAppend h (snd p) g = Inr a \<and> snd p' = installAppend a (snd p))"

lemma append_journal:
  assumes S: "storedRows h p rows" and room: "seqRoom p (length ins)"
    and run: "AppendAndSync h ins p = (Inr canon, p')"
  shows "\<exists>new. journalAppend h rows ins canon p p' new"
proof -
  obtain d s d' s' where p: "p = (d, s)" "p' = (d', s')" by fastforce
  obtain ls where M: "memoryOf h s rows ls" using S by (auto simp: storedRows_def p)
  have rm: "unat (dsMaxSeq s) + length ins < 2 ^ 64" using room by (simp add: seqRoom_def p)
  have stage: "stageInv h s rows ins g" if "stagedBy h s ins g" for g
    using stage_inv [OF M _ rm] that by (simp add: stagedBy_def)
  have fresh: "distinct (map eID ins) \<and> eID ` set ins \<inter> eID ` set rows = {}
      \<longrightarrow> agNewRows g = agCanonical g \<and> list_all2 (completedBy h p) ins (agNewRows g)" if "stagedBy h s ins g" for g
  proof (intro impI)
    assume new: "distinct (map eID ins) \<and> eID ` set ins \<inter> eID ` set rows = {}"
    have eq: "completedBy h p = completionOf h s" by (intro ext) (simp add: completedBy_def p)
    show "agNewRows g = agCanonical g \<and> list_all2 (completedBy h p) ins (agNewRows g)"
      using stage_fresh [OF M that rm conjunct1 [OF new] conjunct2 [OF new]] unfolding eq by simp
  qed
  from run [unfolded p] show ?thesis
  proof (cases rule: append_success)
    case empty
    with S show ?thesis
      by (intro exI [of _ "[]"]) (simp add: journalAppend_def p storedRows_def sameFiles_bytes)
  next
    case (repeated g)
    note I = stage [OF repeated(1)]
    from stageInv_stands [OF I, of _ d] repeated(2) fresh [OF repeated(1)] canonical_members [OF I] stageInv_ids [OF I] S repeated show ?thesis
      by (intro exI [of _ "[]"]) (auto simp: journalAppend_def p storedRows_def sameFiles_bytes)
  next
    case (written g a)
    note I = stage [OF written(1)] and D = decideAppend_Inr [OF written(3)]
    have st: "storedRows h p' (rows @ agNewRows g)"
      using installed_memory [OF M I written(3)] by (simp add: storedRows_def p written(5))
    have from_in: "\<forall>r \<in> set (agNewRows g). \<exists>e \<in> set ins. completedBy h p e r"
      using stage_from [OF written(1)] by (simp add: fromInputs_def completedBy_def p)
    have seq: "unat (dsMaxSeq s') = unat (dsMaxSeq s) + length (agNewRows g)"
      using I by (simp add: stageInv_def written(5) installAppend_def D(1))
    have bytes: "fileBytes d' (dsName s) = fileBytes d (dsName s) @ concat (map (rowLine h) (agNewRows g))"
      using written(6) serializeBatch_bytes [OF D(8)] by (simp add: grows_def)
    have len: "length (agNewRows g) \<le> length ins" using I by (simp add: stageInv_def)
    have ga: "agNewRows g = agNewRows g \<and> agAvailable g = tableOf (rows @ agNewRows g) \<and> decideAppend h s g = Inr a
        \<and> s' = installAppend a s"
      using written(3,5) I by (simp add: stageInv_def)
    have fl: "\<not> dsPoisoned s'" "\<not> dsClosed s'" using written(5,7,8) by (simp_all add: installAppend_def)
    show ?thesis
      unfolding journalAppend_def p fst_conv snd_conv
      using st [unfolded p] len stageInv_ids [OF I] canonical_members [OF I] from_in [unfolded p]
        stageInv_stands [OF I, of _ d] fresh [OF written(1), unfolded p] seq bytes fl written(2,4,7,8) ga
      by (intro exI [of _ "agNewRows g"] conjI) auto
  qed
qed

lemma append_refusal:
  assumes run: "AppendAndSync h ins p = (Inl err, p')"
  shows "snd p' = snd p \<and> sameFiles (fst p) (fst p') \<or> snd p' = (snd p) \<lparr> dsPoisoned := True \<rparr>"
proof -
  obtain d s d' s' where p: "p = (d, s)" "p' = (d', s')" by fastforce
  from run [unfolded p] show ?thesis by (cases rule: append_refused) (simp_all add: p)
qed

lemma memoryOf_poison [simp]: "memoryOf h (s \<lparr> dsPoisoned := True \<rparr>) rows ls = memoryOf h s rows ls"
  by (simp add: memoryOf_def)

lemma snapshot_memory:
  assumes M: "memoryOf h s rows ls" and opn: "\<not> dsClosed s" "\<not> dsPoisoned s"
  shows "snapshotLocked s = Inr \<lparr> psSessionID = dsSessionID s, psSessionLabel = dsSessionLabel s,
     psDurableEntries = rows, psActiveBranchID = dsActiveBranchID s,
     psActiveLeafEntryID = dsActiveLeafID s, psMaxSeq = dsMaxSeq s, psPublishedView = dsView s \<rparr>"
proof -
  from M have "dsEntries s = tableOf rows" "dsAppendOrder s = map eID rows" "loadRows h (dsSessionID s) rows = Inr ls"
    by (simp_all add: memoryOf_def accepted_iff)
  moreover from this(3) have "distinct (map eID rows)" using loadRows_inv by (auto simp: loadInv_def)
  ultimately show ?thesis
    using opn collectEntry_run entryCount_tableOf by (simp add: snapshotLocked_def)
qed

interpretation store: session_journal "AppendAndSync h" "\<lambda>p. snapshotLocked (snd p)" "storedRows h" seqRoom
  "completedBy h" "standsFor h"
proof
  fix s rows ins canon s'
  assume a: "storedRows h s rows" "seqRoom s (length ins)" "AppendAndSync h ins s = (Inr canon, s')"
  from append_journal [OF a] obtain new where J: "journalAppend h rows ins canon s s' new" by blast
  then have "\<forall>n. seqRoom s (length new + n) \<longrightarrow> seqRoom s' n" by (simp add: journalAppend_def seqRoom_def)
  with J show "\<exists>new. storedRows h s' (rows @ new) \<and> length new \<le> length ins \<and> map eID canon = map eID ins
      \<and> set canon \<subseteq> set (rows @ new) \<and> (\<forall>r \<in> set new. \<exists>e \<in> set ins. completedBy h s e r)
      \<and> (\<forall>e \<in> set ins. \<exists>r \<in> set (rows @ new). standsFor h s e r)
      \<and> (distinct (map eID ins) \<and> eID ` set ins \<inter> eID ` set rows = {} \<longrightarrow> new = canon \<and> list_all2 (completedBy h s) ins new)
      \<and> (\<forall>n. seqRoom s (length new + n) \<longrightarrow> seqRoom s' n)"
    unfolding journalAppend_def by blast
next
  fix s rows ins err s' n
  assume "storedRows h s rows" "AppendAndSync h ins s = (Inl err, s')"
  with append_refusal show "storedRows h s' rows \<and> (seqRoom s n \<longrightarrow> seqRoom s' n)"
    by (fastforce simp: storedRows_def seqRoom_def)
next
  fix s rows snap
  assume a: "storedRows h s rows" "snapshotLocked (snd s) = Inr snap"
  then obtain ls where M: "memoryOf h (snd s) rows ls" by (auto simp: storedRows_def)
  from a(2) have "\<not> dsClosed (snd s)" "\<not> dsPoisoned (snd s)" using dead_snapshot [of "snd s"] by auto
  from snapshot_memory [OF M this] a(2) show "psDurableEntries snap = rows" by simp
next
  fix s e r assume "completedBy h s e r"
  then show "eID r = eID e" by (simp add: completedBy_def completionOf_fields)
qed

end
