(* ===== verification/RunCommit.thy ===== *)
theory RunCommit
  imports Recovery WorkspaceOps
begin

text \<open>
  The run commit sink of \<open>internal/session/run_commit.go\<close>: the durable checkpoint boundary of
  one run. It writes inputs, assistant turns with their reserved actions, execution
  observations, receipts and resolutions through the writer of the prepared session, and asks
  the workspace index for the permit to dispatch. The payloads are those of
  \<open>internal/core/run_commit.go\<close>.

  The sink's mutex makes every operation one step. The prepared session, the workspace index
  and the sink itself are the three parts of the state; the clock is a host function of the
  number of earlier readings.
\<close>

section \<open>Payloads\<close>

record commit_binding =
  cbSessionID :: string
  cbWorkspaceID :: string
  cbCanonicalWorkspaceRoot :: string
  cbOwnerGeneration :: string

text \<open>What the sink reads from the context of a call; \<open>ctBound\<close>: it binds this very sink.\<close>

record call_context =
  ctBound :: bool
  ctBinding :: commit_binding
  ctRunID :: string
  ctGeneration :: "run_generation option"

record run_input =
  riGeneration :: "run_generation option"
  riRunID :: string
  riTranscriptIndex :: u64
  riMessage :: agent_message
  riInputKind :: input_kind

record action_intent =
  aiSessionID :: string
  aiWorkspaceID :: string
  aiRunID :: string
  aiActionBatchID :: string
  aiOwnerGeneration :: string
  aiOrdinal :: u64
  aiToolCallID :: string
  aiActionID :: string
  aiToolIdentity :: trusted_identity
  aiSchemaDigest :: string
  aiArgumentDigest :: string
  aiEffectSet :: "tool_effect list"
  aiScopedReadProof :: "scoped_read_proof option"
  aiManagedDelegationProof :: "managed_delegation_proof option"

record tool_receipt =
  trRunID :: string
  trOrdinal :: u64
  trToolCallID :: string
  trActionID :: string
  trTranscriptIndex :: u64
  trDispatchState :: dispatch_state
  trMessage :: agent_message
  trReceiptOutcome :: receipt_outcome

record intent_batch =
  ibRunID :: string
  ibActionBatchID :: string
  ibOrdinal :: u64
  ibAssistantMessage :: agent_message
  ibIntents :: "action_intent list"
  ibKnownReceipts :: "tool_receipt list"
  ibCanonicalWorkspaceRoot :: string

record action_execution =
  axRunID :: string
  axOrdinal :: u64
  axToolCallID :: string
  axActionID :: string
  axOwnerGeneration :: string
  axDispatchState :: dispatch_state
  axResourceState :: run_execution_state
  axExecutionIdentity :: "execution_identity option"
  axCompletionProof :: completion_proof

record compaction_projection =
  cpExpectedHistoryRevision :: string
  cpPriorHistoryCount :: u64
  cpTranscriptCount :: u64
  cpSummary :: string

record run_terminal =
  rtGeneration :: "run_generation option"
  rtRunID :: string
  rtTranscript :: "agent_message list"
  rtProjections :: "compaction_projection list"
  rtOutcome :: run_outcome
  rtTerminalCheckpointID :: string

definition validateBinding :: "commit_binding \<Rightarrow> go_error + unit" where
  "validateBinding b =
     checkAll (\<lambda>v. if v = [] \<or> CHR 0x00 \<in> set v then Inl (Fault ''invalid run commit binding'') else Inr ())
       [cbSessionID b, cbWorkspaceID b, cbOwnerGeneration b]"

section \<open>State and host\<close>

text \<open>
  The keys that identify rows; each is encoded as JSON and hashed together with the kind of
  the row.
\<close>

datatype commit_key =
    RunIndexKey string u64
  | RunOrdinalKey string u64
  | IntentKey string string string u64 string string string string
  | ExecutionKey pending_ref dispatch_state run_execution_state "execution_identity option" completion_proof
  | ActionOwnerKey pending_ref string
  | CompactionKey string string u64 u64 string string

record commit_host =
  chIndex :: host
  chSession :: session_host
  chMarshalKey :: "commit_key \<Rightarrow> string option"
  chClock :: "nat \<Rightarrow> int"
  chInspect :: "execution_identity \<Rightarrow> process_inspection"

definition stableRunCommitEntryID :: "commit_host \<Rightarrow> string \<Rightarrow> commit_key \<Rightarrow> go_error + string" where
  "stableRunCommitEntryID h domain key = (case chMarshalKey h key of
      None \<Rightarrow> Inl (Fault ''encode stable run-commit entry identity'')
    | Some encoded \<Rightarrow> Inr (''runcommit_'' @ hexEncode (shSha256 (chSession h) (domain @ CHR 0x00 # encoded))))"

record rejected_batch =
  rjBatch :: intent_batch
  rjReceipts :: "tool_receipt list"
  rjConsumed :: bool

record run_sink =
  rkSessionID :: string
  rkWorkspaceID :: string
  rkBranchID :: string
  rkLeafID :: string
  rkBaseView :: session_view
  rkAllRows :: "session_entry list"
  rkBranchRows :: "session_entry list"
  rkRunID :: string
  rkOwnerGen :: string
  rkTerminalID :: string
  rkReleases :: nat
  rkClosed :: bool
  rkRejectedBatch :: "rejected_batch option"

record run_world =
  rcDisk :: session_disk
  rcStore :: durable_store
  rcIndex :: index_world
  rcSink :: run_sink
  rcTick :: nat

definition onStore :: "(open_store, 'a) op \<Rightarrow> (run_world, 'a) op" where
  "onStore m w = (case m (rcDisk w, rcStore w) of (r, p) \<Rightarrow> (r, w \<lparr> rcDisk := fst p, rcStore := snd p \<rparr>))"

definition onIndex :: "(index_world, 'a) op \<Rightarrow> (run_world, 'a) op" where
  "onIndex m w = (case m (rcIndex w) of (r, x) \<Rightarrow> (r, w \<lparr> rcIndex := x \<rparr>))"

section \<open>Transcripts\<close>

definition transcriptRow :: "string \<Rightarrow> session_entry \<Rightarrow> bool" where
  "transcriptRow run e \<longleftrightarrow> eRecordVersion e = 1 \<and> eRunID e = run \<and> eTranscriptIndex e \<noteq> None
     \<and> eActionState e = ActionStateEmpty \<and> eType e \<noteq> EntryTypeCheckpoint \<and> eType e \<noteq> EntryTypeCompaction"

definition canonicalTranscriptType :: "session_entry \<Rightarrow> bool" where
  "canonicalTranscriptType e \<longleftrightarrow> eType e = EntryTypeUser \<or> eType e = EntryTypeAssistant \<or> eType e = EntryTypeTool"

definition indexTranscriptRow ::
  "string \<Rightarrow> (u64 \<times> session_entry) list \<Rightarrow> session_entry \<Rightarrow> go_error + (u64 \<times> session_entry) list" where
  "indexTranscriptRow run indexed e =
     (if \<not> transcriptRow run e then Inr indexed
      else if \<not> canonicalTranscriptType e then Inl (Fault ''row has a non-canonical transcript type'')
      else if map_of indexed (the (eTranscriptIndex e)) \<noteq> None then Inl (Fault ''duplicate transcript index'')
      else Inr ((the (eTranscriptIndex e), e) # indexed))"

definition transcriptRowsByIndex ::
  "session_entry list \<Rightarrow> string \<Rightarrow> go_error + (u64 \<times> session_entry) list" where
  "transcriptRowsByIndex rows run = foldR (indexTranscriptRow run) [] rows"

definition nextTranscriptIndex :: "(u64 \<times> session_entry) list \<Rightarrow> go_error + u64" where
  "nextTranscriptIndex m =
     (if list_ex (\<lambda>i. map_of m (of_nat i) = None) [0..<length m]
        then Inl (Fault ''canonical transcript has a hole'')
      else if map_of m (of_nat (length m)) \<noteq> None
        then Inl (Fault ''canonical transcript index range is not contiguous'')
      else Inr (of_nat (length m)))"

definition physicalOrderRow :: "string \<Rightarrow> u64 \<Rightarrow> session_entry \<Rightarrow> go_error + u64" where
  "physicalOrderRow run n e =
     (if \<not> transcriptRow run e then Inr n
      else if \<not> canonicalTranscriptType e then Inl (Fault ''row has a non-canonical transcript type'')
      else if eTranscriptIndex e \<noteq> Some n then Inl (Fault ''durable transcript is not a physical canonical prefix'')
      else if n = - 1 then Inl (Fault ''transcript index is exhausted'')
      else Inr (n + 1))"

definition validateTranscriptRowsInPhysicalOrder :: "session_entry list \<Rightarrow> string \<Rightarrow> go_error + unit" where
  "validateTranscriptRowsInPhysicalOrder rows run =
     bindR (foldR (physicalOrderRow run) 0 rows) (\<lambda>_. Inr ())"

definition validateAllRunTranscriptPhysicalPrefixes :: "session_entry list \<Rightarrow> go_error + unit" where
  "validateAllRunTranscriptPhysicalPrefixes rows =
     checkAll (validateTranscriptRowsInPhysicalOrder rows)
       (remdups (map eRunID (filter (\<lambda>e. eRunID e \<noteq> [] \<and> transcriptRow (eRunID e) e) rows)))"

section \<open>Finding rows of the branch\<close>

definition assistantOccurrence :: "session_entry list \<Rightarrow> string \<Rightarrow> u64 \<Rightarrow> go_error + session_entry option" where
  "assistantOccurrence rows run ordinal =
     findUnique (\<lambda>e. eRecordVersion e = 1 \<and> eType e = EntryTypeAssistant \<and> eRunID e = run
         \<and> eOrdinal e = Some ordinal \<and> eToolCalls e \<noteq> [])
       (Fault ''run has multiple assistant rows at this ordinal'') rows"

definition matchActionRow ::
  "string \<Rightarrow> session_entry \<Rightarrow> session_entry option \<Rightarrow> session_entry \<Rightarrow> go_error + session_entry option" where
  "matchActionRow sid candidate m row =
     (if eRecordVersion row \<noteq> 1 \<or> eActionState row \<noteq> eActionState candidate then Inr m
      else if eID row = eID candidate \<and> refFromEntry candidate sid \<noteq> refFromEntry row sid
        then Inl (Fault ''stable action row ID conflicts with its full action reference'')
      else if refFromEntry candidate sid \<noteq> refFromEntry row sid \<or> eOwnerGeneration row \<noteq> eOwnerGeneration candidate
        then Inr m
      else if eID row \<noteq> eID candidate then Inl (Fault ''action reference has conflicting stable row IDs'')
      else if m \<noteq> None then Inl (Fault ''action reference repeats journal row'')
      else Inr (Some row))"

definition actionRow :: "session_entry list \<Rightarrow> string \<Rightarrow> session_entry \<Rightarrow> go_error + session_entry option" where
  "actionRow rows sid candidate = foldR (matchActionRow sid candidate) None rows"

definition findOccurrenceIntent ::
  "session_entry list \<Rightarrow> string \<Rightarrow> u64 \<Rightarrow> string \<Rightarrow> go_error + session_entry option" where
  "findOccurrenceIntent rows run ordinal callID =
     findUnique (\<lambda>e. eRecordVersion e = 1 \<and> eType e = EntryTypeTool \<and> eActionState e = ActionStateIntent
         \<and> eRunID e = run \<and> eOrdinal e = Some ordinal \<and> eToolCallID e = callID)
       (Fault ''occurrence has multiple durable intents'') rows"

definition findActionIntent ::
  "run_sink \<Rightarrow> string \<Rightarrow> u64 \<Rightarrow> string \<Rightarrow> string \<Rightarrow> string \<Rightarrow> go_error + session_entry" where
  "findActionIntent s run ordinal callID actionID owner =
     bindR (findOccurrenceIntent (rkBranchRows s) run ordinal callID) (\<lambda>m. case m of
         None \<Rightarrow> Inl (Fault ''action has no durable intent'')
       | Some intent \<Rightarrow>
           if eActionID intent \<noteq> actionID \<or> eOwnerGeneration intent \<noteq> owner
              \<or> eWorkspaceID intent \<noteq> rkWorkspaceID s \<or> eActionBatchID intent = []
             then Inl (Fault ''action does not match the full durable intent reference'')
           else Inr intent)"

definition matchIntentByID ::
  "run_sink \<Rightarrow> string \<Rightarrow> string \<Rightarrow> string \<Rightarrow> session_entry option \<Rightarrow> session_entry \<Rightarrow> go_error + session_entry option" where
  "matchIntentByID s run actionID owner m row =
     (if eRecordVersion row \<noteq> 1 \<or> eType row \<noteq> EntryTypeTool \<or> eActionState row \<noteq> ActionStateIntent
         \<or> eActionID row \<noteq> actionID then Inr m
      else if eRunID row \<noteq> run \<or> eOwnerGeneration row \<noteq> owner \<or> eWorkspaceID row \<noteq> rkWorkspaceID s
        then Inl (Fault ''action ID belongs to a different run owner or workspace'')
      else if m \<noteq> None then Inl (Fault ''action ID has multiple durable intents'')
      else Inr (Some row))"

definition findIntentByActionID :: "run_sink \<Rightarrow> string \<Rightarrow> string \<Rightarrow> string \<Rightarrow> go_error + session_entry" where
  "findIntentByActionID s run actionID owner =
     bindR (foldR (matchIntentByID s run actionID owner) None (rkBranchRows s)) (\<lambda>m. case m of
         None \<Rightarrow> Inl (Fault ''action has no durable intent'') | Some row \<Rightarrow> Inr row)"

definition matchReceipt ::
  "string \<Rightarrow> pending_ref \<Rightarrow> session_entry \<Rightarrow> session_entry option \<Rightarrow> session_entry \<Rightarrow> go_error + session_entry option" where
  "matchReceipt sid ref intent m row =
     (if eRecordVersion row \<noteq> 1 \<or> eType row \<noteq> EntryTypeTool \<or> eActionState row \<noteq> ActionStateEmpty
         \<or> eRunID row \<noteq> rRunID ref \<or> eOrdinal row \<noteq> Some (rOrdinal ref) \<or> eToolCallID row \<noteq> rToolCallID ref
        then Inr m
      else if ref \<noteq> refFromEntry row sid
        then Inl (Fault ''durable receipt does not match the full reserved action reference'')
      else if eOwnerGeneration row \<noteq> eOwnerGeneration intent
        then Inl (Fault ''durable receipt owner generation differs from its intent'')
      else if m \<noteq> None then Inl (Fault ''action has multiple durable terminal receipts'')
      else Inr (Some row))"

definition findReceiptForIntent :: "run_sink \<Rightarrow> pending_ref \<Rightarrow> session_entry \<Rightarrow> go_error + session_entry" where
  "findReceiptForIntent s ref intent =
     bindR (foldR (matchReceipt (rkSessionID s) ref intent) None (rkBranchRows s)) (\<lambda>m. case m of
         None \<Rightarrow> Inl (Fault ''execution resolution requires an earlier durable terminal receipt'')
       | Some row \<Rightarrow> Inr row)"

definition findTerminalCheckpoint :: "session_entry list \<Rightarrow> string \<Rightarrow> go_error + session_entry option" where
  "findTerminalCheckpoint rows run =
     findUnique (\<lambda>e. eRecordVersion e = 1 \<and> eType e = EntryTypeCheckpoint
         \<and> eCheckpointKind e = CheckpointRunTerminal \<and> eRunID e = run)
       (Fault ''run has multiple terminal checkpoints'') rows"

definition assistantToolName :: "session_entry \<Rightarrow> string \<Rightarrow> string option" where
  "assistantToolName assistant callID = map_option tcName (find (\<lambda>c. tcID c = callID) (eToolCalls assistant))"

section \<open>Binding a call and writing rows\<close>

definition validateCallContext :: "call_context \<Rightarrow> string \<Rightarrow> (run_world, unit) op" where
  "validateCallContext ctx payloadRunID w =
     (if rkClosed (rcSink w) then (Inl (Fault ''run-commit lease is closed''), w)
      else bindS (onStore (onDisk contextErr)) (\<lambda>_ w.
        let s = rcSink w in
        if \<not> ctBound ctx then (Inl (Fault ''call context does not bind this sink''), w)
        else case validateBinding (ctBinding ctx) of
          Inl err \<Rightarrow> (Inl err, w)
        | Inr _ \<Rightarrow>
            if cbSessionID (ctBinding ctx) \<noteq> rkSessionID s \<or> cbWorkspaceID (ctBinding ctx) \<noteq> rkWorkspaceID s
              then (Inl (Fault ''call binding differs from the prepared session or workspace''), w)
            else if ctRunID ctx = [] \<or> payloadRunID = [] \<or> ctRunID ctx \<noteq> payloadRunID
              then (Inl (Fault ''payload does not match the owned run ID''), w)
            else if rkRunID s = [] then
              (Inr (), w \<lparr> rcSink := s \<lparr> rkRunID := ctRunID ctx, rkOwnerGen := cbOwnerGeneration (ctBinding ctx) \<rparr> \<rparr>)
            else if rkRunID s \<noteq> ctRunID ctx \<or> rkOwnerGen s \<noteq> cbOwnerGeneration (ctBinding ctx)
              then (Inl (Fault ''sink was reused by another run owner''), w)
            else (Inr (), w)) w)"

definition rejectAfterTerminal :: "(run_world, unit) op" where
  "rejectAfterTerminal w =
     (if rkTerminalID (rcSink w) \<noteq> [] then (Inl (Fault ''run already has a durable terminal checkpoint''), w)
      else (Inr (), w))"

definition refreshSink :: "(run_world, unit) op" where
  "refreshSink w =
     (case bindR (snapshotLocked (rcStore w)) (\<lambda>snap.
        if psSessionID snap \<noteq> rkSessionID (rcSink w) \<or> psActiveBranchID snap \<noteq> rkBranchID (rcSink w)
          then Inl (Fault ''prepared session changed physical identity or branch'')
        else bindR (validateRunCommitSnapshot snap) (\<lambda>rows.
          bindR (analyzeDurableActionJournal (fst rows) (rkSessionID (rcSink w))) (\<lambda>_.
            Inr (rcSink w \<lparr> rkAllRows := fst rows, rkBranchRows := snd rows,
              rkLeafID := psActiveLeafEntryID snap \<rparr>)))) of
        Inl err \<Rightarrow> (Inl err, w)
      | Inr s \<Rightarrow> (Inr (), w \<lparr> rcSink := s \<rparr>))"

text \<open>The rows of one write form a chain below the sink's leaf.\<close>

fun stampRows ::
  "commit_host \<Rightarrow> run_sink \<Rightarrow> nat \<Rightarrow> string \<Rightarrow> session_entry list \<Rightarrow> go_error + session_entry list \<times> nat" where
  "stampRows h s tick parent [] = Inr ([], tick)"
| "stampRows h s tick parent (r # rs) =
     (if eID r = [] \<or> eType r = EntryTypeEmpty then Inl (Fault ''run-commit row requires an ID and type'')
      else bindR (stampRows h s (if eTimestamp r = 0 then Suc tick else tick) (eID r) rs) (\<lambda>p.
        Inr (r \<lparr> eRecordVersion := 1, eSessionID := rkSessionID s, eBranchID := rkBranchID s,
               eParentID := parent, eTimestamp := (if eTimestamp r = 0 then chClock h tick else eTimestamp r) \<rparr>
             # fst p, snd p)))"

definition appendAndRefreshRows :: "commit_host \<Rightarrow> session_entry list \<Rightarrow> (run_world, session_entry list) op" where
  "appendAndRefreshRows h rows w =
     (if rows = [] then (Inr [], w)
      else case stampRows h (rcSink w) (rcTick w) (rkLeafID (rcSink w)) rows of
        Inl err \<Rightarrow> (Inl err, w)
      | Inr p \<Rightarrow> bindS (onStore (AppendAndSync (chSession h) (fst p)))
          (\<lambda>canonical. bindS refreshSink (\<lambda>_. okS canonical)) (w \<lparr> rcTick := snd p \<rparr>))"

definition timeNow :: "commit_host \<Rightarrow> (run_world, int) op" where
  "timeNow h w = (Inr (chClock h (rcTick w)), w \<lparr> rcTick := Suc (rcTick w) \<rparr>)"

section \<open>The lease\<close>

definition NewSessionRunCommitSink :: "durable_store \<Rightarrow> string \<Rightarrow> go_error + run_sink" where
  "NewSessionRunCommitSink store workspaceID =
     (if workspaceID = [] \<or> \<not> validWorkspaceID workspaceID
        then Inl (Fault ''sink requires a valid canonical workspace ID'')
      else bindR (snapshotLocked store) (\<lambda>snap.
        bindR (validateSessionView (psPublishedView snap)) (\<lambda>_.
        if psSessionID snap = [] \<or> svSessionID (psPublishedView snap) \<noteq> psSessionID snap
           \<or> psActiveBranchID snap = [] \<or> svBranchID (psPublishedView snap) \<noteq> psActiveBranchID snap
          then Inl (Fault ''prepared snapshot identity is inconsistent'')
        else bindR (validateRunCommitSnapshot snap) (\<lambda>rows.
          bindR (validateAllRunTranscriptPhysicalPrefixes (snd rows)) (\<lambda>_.
          bindR (analyzeDurableActionJournal (fst rows) (psSessionID snap)) (\<lambda>_.
            Inr \<lparr> rkSessionID = psSessionID snap, rkWorkspaceID = workspaceID,
              rkBranchID = psActiveBranchID snap, rkLeafID = psActiveLeafEntryID snap,
              rkBaseView = psPublishedView snap, rkAllRows = fst rows, rkBranchRows = snd rows,
              rkRunID = [], rkOwnerGen = [], rkTerminalID = [], rkReleases = 0, rkClosed = False,
              rkRejectedBatch = None \<rparr>))))))"

record compaction_source =
  csRevision :: string
  csBranchID :: string
  csMessages :: "agent_message list"
  csSourceEntryIDs :: "string list"

definition CompactionSource :: "run_sink \<Rightarrow> go_error + compaction_source" where
  "CompactionSource s =
     (if rkClosed s then Inl (Fault ''compaction source snapshot is unavailable after run sink close'')
      else Inr \<lparr> csRevision = svRevision (rkBaseView s), csBranchID = svBranchID (rkBaseView s),
             csMessages = svMessages (rkBaseView s), csSourceEntryIDs = svSourceEntryIDs (rkBaseView s) \<rparr>)"

definition validateCompactionSource :: "compaction_source \<Rightarrow> go_error + unit" where
  "validateCompactionSource c =
     (if csBranchID c = [] then Inl (Fault ''compaction source snapshot requires a branch ID'')
      else if length (csMessages c) \<noteq> length (csSourceEntryIDs c)
        then Inl (Fault ''compaction source messages and source IDs differ in number'')
      else if csMessages c \<noteq> [] \<and> csRevision c = []
        then Inl (Fault ''non-empty compaction source snapshot requires a revision'')
      else bindR (foldR noteSourceID [] (csSourceEntryIDs c)) (\<lambda>_. Inr ()))"

text \<open>The release callback runs once; \<open>rkReleases\<close> counts its calls.\<close>

definition CloseRunCommit :: "run_world \<Rightarrow> run_world" where
  "CloseRunCommit w =
     (if rkClosed (rcSink w) then w
      else w \<lparr> rcSink := rcSink w \<lparr> rkClosed := True, rkReleases := Suc (rkReleases (rcSink w)) \<rparr> \<rparr>)"

end
