(* ===== verification/RunCommitOps.thy ===== *)
theory RunCommitOps
  imports RunCommit
begin

text \<open>
  The operations of the run commit sink on inputs, execution observations, receipts,
  resolutions, compactions and the terminal checkpoint (\<open>internal/session/run_commit.go\<close>).
\<close>

section \<open>Inputs\<close>

definition inputRow :: "commit_host \<Rightarrow> call_context \<Rightarrow> run_sink \<Rightarrow> run_input \<Rightarrow> agent_message \<Rightarrow> int \<Rightarrow> go_error + session_entry" where
  "inputRow h ctx s input message now =
     bindR (stableRunCommitEntryID h ''input'' (RunIndexKey (riRunID input) (riTranscriptIndex input))) (\<lambda>entryID.
       Inr ((sessionEntryFromRunCommitMessage message EntryTypeUser)
         \<lparr> eID := entryID, eRunID := riRunID input, eWorkspaceID := rkWorkspaceID s,
           eInputKind := riInputKind input,
           eGeneration := (case ctGeneration ctx of Some g \<Rightarrow> Some g | None \<Rightarrow> riGeneration input),
           eTranscriptIndex := Some (riTranscriptIndex input), eTimestamp := now \<rparr>))"

text \<open>\<open>Inr None\<close>: the input is already durable; otherwise the message to write.\<close>

definition checkInput :: "run_sink \<Rightarrow> run_input \<Rightarrow> go_error + agent_message option" where
  "checkInput s input =
     (let kind = riInputKind input; message = riMessage input in
      if kind \<noteq> InputKindUser \<and> kind \<noteq> InputKindSteering \<and> kind \<noteq> InputKindFollowUp
        then Inl (Fault ''unsupported run input kind'')
      else if mRole message \<noteq> ''user'' then Inl (Fault ''run input transcript row must have role user'')
      else if mToolCalls message \<noteq> [] \<or> mToolCallID message \<noteq> [] \<or> mToolName message \<noteq> []
              \<or> mReceiptOutcome message \<noteq> ReceiptOutcomeEmpty
        then Inl (Fault ''run input message contains assistant or tool receipt fields'')
      else if mInputKind message \<noteq> InputKindEmpty \<and> mInputKind message \<noteq> kind
        then Inl (Fault ''run input kind conflicts with its canonical message'')
      else let message' = message \<lparr> mInputKind := kind \<rparr> in
        bindR (transcriptRowsByIndex (rkBranchRows s) (riRunID input)) (\<lambda>rowsByIndex.
          case map_of rowsByIndex (riTranscriptIndex input) of
            Some existing \<Rightarrow>
              if eType existing \<noteq> EntryTypeUser \<or> eInputKind existing \<noteq> kind
                 \<or> \<not> durableRowMatchesMessage existing message'
                then Inl (Fault ''transcript index conflicts with its durable input'')
              else Inr None
          | None \<Rightarrow> bindR (nextTranscriptIndex rowsByIndex) (\<lambda>nextIndex.
              if riTranscriptIndex input \<noteq> nextIndex
                then Inl (Fault ''input transcript index is not the next index'')
              else Inr (Some message'))))"

definition CommitInput :: "commit_host \<Rightarrow> call_context \<Rightarrow> run_input \<Rightarrow> (run_world, unit) op" where
  "CommitInput h ctx input =
     bindS (validateCallContext ctx (riRunID input)) (\<lambda>_.
     bindS rejectAfterTerminal (\<lambda>_ w.
       bindS (liftR (checkInput (rcSink w) input)) (\<lambda>todo. case todo of
           None \<Rightarrow> okS ()
         | Some message \<Rightarrow> bindS (timeNow h) (\<lambda>now w.
             bindS (liftR (inputRow h ctx (rcSink w) input message now)) (\<lambda>row.
             bindS (appendAndRefreshRows h [row]) (\<lambda>_. okS ())) w)) w))"

section \<open>Execution observations\<close>

definition validatePostTerminalAction :: "run_sink \<Rightarrow> string \<Rightarrow> session_entry \<Rightarrow> go_error + unit" where
  "validatePostTerminalAction s run receipt =
     bindR (findTerminalCheckpoint (rkBranchRows s) run) (\<lambda>m. case m of
         None \<Rightarrow> Inl (Fault ''post-terminal action proof requires this run's synced terminal checkpoint'')
       | Some terminal \<Rightarrow>
           if eID terminal \<noteq> rkTerminalID s \<or> eSeq terminal = 0
             then Inl (Fault ''post-terminal action proof requires this run's synced terminal checkpoint'')
           else if eRecordVersion receipt \<noteq> 1 \<or> eType receipt \<noteq> EntryTypeTool
                   \<or> eActionState receipt \<noteq> ActionStateEmpty \<or> eRunID receipt \<noteq> run
                   \<or> eSeq receipt = 0 \<or> eSeq terminal \<le> eSeq receipt
             then Inl (Fault ''post-terminal action proof requires an earlier synced receipt'')
           else Inr ())"

definition sameExecutionObservation :: "session_entry \<Rightarrow> session_entry \<Rightarrow> bool" where
  "sameExecutionObservation x c \<longleftrightarrow>
     eID x = eID c \<and> eType x = EntryTypeTool \<and> eActionState x = ActionStateExecution
     \<and> eRunID x = eRunID c \<and> eWorkspaceID x = eWorkspaceID c \<and> eActionBatchID x = eActionBatchID c
     \<and> eActionID x = eActionID c \<and> eOwnerGeneration x = eOwnerGeneration c \<and> eOrdinal x = eOrdinal c
     \<and> eToolCallID x = eToolCallID c \<and> eToolName x = eToolName c \<and> eDispatchState x = eDispatchState c
     \<and> eResourceState x = eResourceState c \<and> eCompletionProof x = eCompletionProof c
     \<and> eExecutionIdentity x = eExecutionIdentity c"

definition checkExecution :: "run_sink \<Rightarrow> action_execution \<Rightarrow> go_error + unit" where
  "checkExecution s x =
     (if axToolCallID x = [] \<or> axActionID x = [] \<or> axOwnerGeneration x = []
        then Inl (Fault ''execution observation requires a full reserved action identity'')
      else if axOwnerGeneration x \<noteq> rkOwnerGen s
        then Inl (Fault ''execution observation owner generation differs from the run owner'')
      else if axDispatchState x \<noteq> DispatchStateDispatched \<and> axDispatchState x \<noteq> DispatchStateNotDispatched
        then Inl (Fault ''execution observation has invalid dispatch state'')
      else if \<not> validRunExecutionState (axResourceState x)
        then Inl (Fault ''execution observation has invalid resource state'')
      else if \<not> validCompletionProof (axCompletionProof x)
        then Inl (Fault ''execution observation has invalid completion proof'')
      else if axCompletionProof x \<noteq> ProofEmpty \<and> axDispatchState x \<noteq> DispatchStateDispatched
        then Inl (Fault ''positive completion proof requires a dispatched action'')
      else case axExecutionIdentity x of None \<Rightarrow> Inr () | Some i \<Rightarrow> validateExecutionIdentity i)"

text \<open>A run that has ended still takes the positive proof of a receipted action.\<close>

definition checkLateExecution :: "run_sink \<Rightarrow> action_execution \<Rightarrow> session_entry \<Rightarrow> go_error + unit" where
  "checkLateExecution s x intent =
     (if rkTerminalID s = [] then Inr ()
      else if axDispatchState x \<noteq> DispatchStateDispatched \<or> axResourceState x \<noteq> RunExecutionQuiescent
        then Inl (Fault ''post-terminal execution requires a positive quiescent completion observation'')
      else bindR (findReceiptForIntent s (refFromEntry intent (rkSessionID s)) intent) (\<lambda>receipt.
        if eDispatchState receipt \<noteq> DispatchStateDispatched \<or> eSeq receipt = 0
          then Inl (Fault ''post-terminal completion requires a synced dispatched receipt'')
        else validatePostTerminalAction s (axRunID x) receipt))"

definition executionRow :: "commit_host \<Rightarrow> run_sink \<Rightarrow> action_execution \<Rightarrow> session_entry \<Rightarrow> go_error + session_entry" where
  "executionRow h s x intent =
     (let row = emptyEntry \<lparr> eType := EntryTypeTool, eRunID := axRunID x, eWorkspaceID := eWorkspaceID intent,
            eActionBatchID := eActionBatchID intent, eActionID := eActionID intent,
            eOwnerGeneration := eOwnerGeneration intent, eActionState := ActionStateExecution,
            eOrdinal := eOrdinal intent, eToolCallID := eToolCallID intent, eToolName := eToolName intent,
            eDispatchState := axDispatchState x, eResourceState := axResourceState x,
            eExecutionIdentity := axExecutionIdentity x, eCompletionProof := axCompletionProof x \<rparr>
      in bindR (stableRunCommitEntryID h ''execution'' (ExecutionKey (refFromEntry row (rkSessionID s))
             (axDispatchState x) (axResourceState x) (axExecutionIdentity x) (axCompletionProof x)))
           (\<lambda>entryID. Inr (row \<lparr> eID := entryID \<rparr>)))"

text \<open>Whether the observation is durable already, or conflicts with a row of the branch.\<close>

definition executionKnown :: "run_sink \<Rightarrow> session_entry \<Rightarrow> session_entry \<Rightarrow> go_error + bool" where
  "executionKnown s intent row =
     (let late = (if rkTerminalID s \<noteq> [] \<and> eCompletionProof row \<noteq> ProofEmpty
            then find (\<lambda>x. eRecordVersion x = 1 \<and> eActionState x = ActionStateExecution
                \<and> eCompletionProof x \<noteq> ProofEmpty
                \<and> refFromEntry intent (rkSessionID s) = refFromEntry x (rkSessionID s)) (rkBranchRows s)
            else None)
      in case late of
        Some x \<Rightarrow> if sameExecutionObservation x row then Inr True
          else Inl (Fault ''post-terminal completion conflicts with an existing positive proof'')
      | None \<Rightarrow> (case find (\<lambda>x. eID x = eID row) (rkBranchRows s) of
          Some x \<Rightarrow> if sameExecutionObservation x row then Inr True
            else Inl (Fault ''execution row ID conflicts with its durable payload'')
        | None \<Rightarrow> Inr False))"

definition decideExecution :: "commit_host \<Rightarrow> run_sink \<Rightarrow> action_execution \<Rightarrow> go_error + session_entry option" where
  "decideExecution h s x =
     bindR (checkExecution s x) (\<lambda>_.
     bindR (findActionIntent s (axRunID x) (axOrdinal x) (axToolCallID x) (axActionID x) (axOwnerGeneration x)) (\<lambda>intent.
     bindR (checkLateExecution s x intent) (\<lambda>_.
     bindR (executionRow h s x intent) (\<lambda>row.
     bindR (executionKnown s intent row) (\<lambda>known. Inr (if known then None else Some row))))))"

definition RecordExecution :: "commit_host \<Rightarrow> call_context \<Rightarrow> action_execution \<Rightarrow> (run_world, unit) op" where
  "RecordExecution h ctx x =
     bindS (validateCallContext ctx (axRunID x)) (\<lambda>_.
     bindS (if axCompletionProof x = ProofEmpty then rejectAfterTerminal else okS ()) (\<lambda>_ w.
       bindS (liftR (decideExecution h (rcSink w) x)) (\<lambda>todo. case todo of
           None \<Rightarrow> okS ()
         | Some row \<Rightarrow> bindS (appendAndRefreshRows h [row]) (\<lambda>_. okS ())) w))"

section \<open>Receipts\<close>

definition receiptEntry :: "run_sink \<Rightarrow> tool_receipt \<Rightarrow> agent_message \<Rightarrow> session_entry \<Rightarrow> session_entry" where
  "receiptEntry s receipt message intent =
     (let row = (sessionEntryFromRunCommitMessage message EntryTypeTool)
            \<lparr> eRunID := trRunID receipt, eWorkspaceID := rkWorkspaceID s, eToolCallID := trToolCallID receipt,
              eToolName := mToolName message, eReceiptOutcome := trReceiptOutcome receipt,
              eDispatchState := trDispatchState receipt, eOrdinal := Some (trOrdinal receipt),
              eTranscriptIndex := Some (trTranscriptIndex receipt) \<rparr>
      in if trActionID receipt = [] then row
         else row \<lparr> eActionBatchID := eActionBatchID intent, eActionID := eActionID intent,
                eOwnerGeneration := eOwnerGeneration intent \<rparr>)"

definition receiptRow :: "commit_host \<Rightarrow> run_sink \<Rightarrow> tool_receipt \<Rightarrow> agent_message \<Rightarrow> session_entry \<Rightarrow> go_error + session_entry" where
  "receiptRow h s receipt message intent =
     bindR (stableRunCommitEntryID h ''receipt'' (RunIndexKey (trRunID receipt) (trTranscriptIndex receipt)))
       (\<lambda>entryID. Inr ((receiptEntry s receipt message intent) \<lparr> eID := entryID \<rparr>))"

definition sameReceiptRow :: "session_entry \<Rightarrow> session_entry \<Rightarrow> bool" where
  "sameReceiptRow x c \<longleftrightarrow>
     eID x = eID c \<and> eType x = EntryTypeTool \<and> eActionState x = ActionStateEmpty \<and> eRunID x = eRunID c
     \<and> eWorkspaceID x = eWorkspaceID c \<and> eActionBatchID x = eActionBatchID c \<and> eActionID x = eActionID c
     \<and> eOwnerGeneration x = eOwnerGeneration c \<and> eOrdinal x \<noteq> None \<and> eOrdinal x = eOrdinal c
     \<and> eTranscriptIndex x \<noteq> None \<and> eTranscriptIndex x = eTranscriptIndex c
     \<and> eToolCallID x = eToolCallID c \<and> eToolName x = eToolName c \<and> eReceiptOutcome x = eReceiptOutcome c
     \<and> eDispatchState x = eDispatchState c
     \<and> durableRowMatchesMessage x (emptyMessage \<lparr> mRole := ''tool'', mContent := eContent c,
         mContentBlocks := eContentBlocks c, mUsage := eUsage c, mToolCallID := eToolCallID c,
         mToolName := eToolName c, mReceiptOutcome := eReceiptOutcome c,
         mMaterializedArtifactDigest := eMaterializedArtifactDigest c \<rparr>)"

definition checkReceiptMessage :: "tool_receipt \<Rightarrow> go_error + agent_message" where
  "checkReceiptMessage receipt =
     (let message = trMessage receipt in
      if trToolCallID receipt = [] then Inl (Fault ''tool receipt requires a tool-call ID'')
      else if trDispatchState receipt \<noteq> DispatchStateDispatched \<and> trDispatchState receipt \<noteq> DispatchStateNotDispatched
        then Inl (Fault ''tool receipt has invalid dispatch state'')
      else if \<not> validRunReceiptOutcome (trReceiptOutcome receipt) then Inl (Fault ''tool receipt has invalid outcome'')
      else if mRole message \<noteq> ''tool'' \<or> mToolCallID message \<noteq> trToolCallID receipt \<or> mToolName message = []
        then Inl (Fault ''tool receipt message does not match its occurrence'')
      else if mToolCalls message \<noteq> [] \<or> mInputKind message \<noteq> InputKindEmpty
        then Inl (Fault ''tool receipt message contains input or assistant call fields'')
      else if mReceiptOutcome message \<noteq> ReceiptOutcomeEmpty \<and> mReceiptOutcome message \<noteq> trReceiptOutcome receipt
        then Inl (Fault ''tool receipt outcome conflicts with its message'')
      else Inr (message \<lparr> mReceiptOutcome := trReceiptOutcome receipt \<rparr>))"

definition deniedOutcome :: "receipt_outcome \<Rightarrow> bool" where
  "deniedOutcome x \<longleftrightarrow> x = ReceiptOutcomeError \<or> x = ReceiptOutcomeInterrupted"

text \<open>The intent of the receipt; the zero row for a call that was never reserved.\<close>

definition receiptIntent :: "run_sink \<Rightarrow> tool_receipt \<Rightarrow> go_error + session_entry" where
  "receiptIntent s receipt =
     (if trActionID receipt = [] then
        (if trDispatchState receipt \<noteq> DispatchStateNotDispatched
           then Inl (Fault ''unreserved tool receipt must prove it was not dispatched'')
         else if \<not> deniedOutcome (trReceiptOutcome receipt)
           then Inl (Fault ''unreserved tool receipt must have a known denial outcome'')
         else bindR (findOccurrenceIntent (rkBranchRows s) (trRunID receipt) (trOrdinal receipt) (trToolCallID receipt)) (\<lambda>m.
           if m \<noteq> None then Inl (Fault ''unreserved receipt conflicts with a durable reserved intent'')
           else Inr emptyEntry))
      else if trDispatchState receipt = DispatchStateNotDispatched \<and> \<not> deniedOutcome (trReceiptOutcome receipt)
        then Inl (Fault ''not-dispatched tool receipt must have a known denial outcome'')
      else findActionIntent s (trRunID receipt) (trOrdinal receipt) (trToolCallID receipt) (trActionID receipt) (rkOwnerGen s))"

definition decideReceipt :: "commit_host \<Rightarrow> run_sink \<Rightarrow> tool_receipt \<Rightarrow> go_error + session_entry option" where
  "decideReceipt h s receipt =
     bindR (checkReceiptMessage receipt) (\<lambda>message.
     bindR (assistantOccurrence (rkBranchRows s) (trRunID receipt) (trOrdinal receipt)) (\<lambda>m. case m of
         None \<Rightarrow> Inl (Fault ''tool receipt occurrence has no durable assistant row'')
       | Some assistant \<Rightarrow>
     if assistantToolName assistant (trToolCallID receipt) \<noteq> Some (mToolName message)
       then Inl (Fault ''tool receipt does not match the durable assistant tool call'')
     else bindR (receiptIntent s receipt) (\<lambda>intent.
     bindR (transcriptRowsByIndex (rkBranchRows s) (trRunID receipt)) (\<lambda>transcriptRows.
     bindR (validateTranscriptRowsInPhysicalOrder (rkBranchRows s) (trRunID receipt)) (\<lambda>_.
     case map_of transcriptRows (trTranscriptIndex receipt) of
       Some existing \<Rightarrow> bindR (receiptRow h s receipt message intent) (\<lambda>candidate.
         if \<not> sameReceiptRow existing candidate then Inl (Fault ''transcript index conflicts with its durable receipt'')
         else Inr None)
     | None \<Rightarrow> bindR (nextTranscriptIndex transcriptRows) (\<lambda>nextIndex.
         if trTranscriptIndex receipt \<noteq> nextIndex then Inl (Fault ''receipt transcript index is not the next index'')
         else bindR (receiptRow h s receipt message intent) (\<lambda>row. Inr (Some row))))))))"

definition recordReceiptLocked :: "commit_host \<Rightarrow> tool_receipt \<Rightarrow> (run_world, unit) op" where
  "recordReceiptLocked h receipt =
     bindS rejectAfterTerminal (\<lambda>_ w.
       bindS (liftR (decideReceipt h (rcSink w) receipt)) (\<lambda>todo. case todo of
           None \<Rightarrow> okS ()
         | Some row \<Rightarrow> bindS (appendAndRefreshRows h [row]) (\<lambda>_. okS ())) w)"

definition RecordReceipt :: "commit_host \<Rightarrow> call_context \<Rightarrow> tool_receipt \<Rightarrow> (run_world, unit) op" where
  "RecordReceipt h ctx receipt =
     bindS (validateCallContext ctx (trRunID receipt)) (\<lambda>_. recordReceiptLocked h receipt)"

section \<open>Resolutions\<close>

definition selectExact :: "execution_resolution \<Rightarrow> session_entry list \<Rightarrow> go_error + string" where
  "selectExact r candidates =
     (if erEvidenceRef r \<noteq> [] then
        (if list_ex (\<lambda>c. eID c = erEvidenceRef r) candidates then Inr (erEvidenceRef r)
         else Inl (Fault ''evidence reference does not name a matching row''))
      else if length candidates \<noteq> 1 then Inl (Fault ''expected exactly one matching row'')
      else Inr (eID (hd candidates)))"

definition resolveEvidenceReference ::
  "run_sink \<Rightarrow> execution_resolution \<Rightarrow> pending_ref \<Rightarrow> session_entry \<Rightarrow> session_entry \<Rightarrow> go_error + execution_resolution" where
  "resolveEvidenceReference s r ref intent receipt =
     (let select = (\<lambda>candidates. bindR (selectExact r candidates) (\<lambda>i. Inr (r \<lparr> erEvidenceRef := i \<rparr>)));
          mine = (\<lambda>row. eOwnerGeneration row = eOwnerGeneration intent \<and> ref = refFromEntry row (rkSessionID s)) in
      case erEvidence r of
        ResolutionNeverDispatched \<Rightarrow>
          if eDispatchState receipt \<noteq> DispatchStateNotDispatched \<or> \<not> deniedOutcome (eReceiptOutcome receipt)
             \<or> eActionID receipt \<noteq> rActionID ref
            then Inl (Fault ''never-dispatched resolution lacks an exact not-dispatched denial receipt'')
          else select [receipt]
      | ResolutionLocalResourcesStopped \<Rightarrow>
          if eDispatchState receipt \<noteq> DispatchStateDispatched
            then Inl (Fault ''local quiescence resolution requires a dispatched terminal receipt'')
          else select (filter (\<lambda>row. eRecordVersion row = 1 \<and> eActionState row = ActionStateExecution
              \<and> eCompletionProof row \<noteq> ProofEmpty \<and> eDispatchState row = DispatchStateDispatched
              \<and> eSeq intent < eSeq row \<and> mine row) (rkBranchRows s))
      | ResolutionOperatorReconciled \<Rightarrow>
          select (filter (\<lambda>row. eRecordVersion row = 1 \<and> eType row = EntryTypeCheckpoint
              \<and> eCheckpointKind row = CheckpointReconciliation \<and> eSeq receipt < eSeq row \<and> mine row) (rkBranchRows s))
      | ResolutionRemoteTerminal \<Rightarrow>
          Inl (Fault ''remote terminal resolution requires unsupported typed protocol evidence'')
      | _ \<Rightarrow> Inl (Fault ''unsupported execution resolution evidence''))"

definition checkResolution ::
  "run_sink \<Rightarrow> execution_resolution \<Rightarrow> session_entry \<Rightarrow> bool \<Rightarrow> go_error + unit" where
  "checkResolution s r receipt allowOperator =
     (if rkTerminalID s \<noteq> [] \<and> erEvidence r \<noteq> ResolutionLocalResourcesStopped
         \<and> \<not> (allowOperator \<and> erEvidence r = ResolutionOperatorReconciled)
        then Inl (Fault ''run already has a durable terminal checkpoint'')
      else if eRecordVersion receipt \<noteq> 1 \<or> eSeq receipt = 0
        then Inl (Fault ''execution resolution requires a synced receipt on the active branch'')
      else bindR (if rkTerminalID s = [] then Inr ()
          else if eDispatchState receipt \<noteq> DispatchStateDispatched
            then Inl (Fault ''post-terminal resolution requires a dispatched receipt'')
          else validatePostTerminalAction s (erRunID r) receipt) (\<lambda>_.
        if erEvidence r = ResolutionRemoteTerminal
          then Inl (Fault ''remote terminal resolution requires unsupported typed protocol evidence'')
        else Inr ()))"

definition resolutionRow ::
  "commit_host \<Rightarrow> pending_ref \<Rightarrow> session_entry \<Rightarrow> execution_resolution \<Rightarrow> go_error + session_entry" where
  "resolutionRow h ref intent r =
     bindR (stableRunCommitEntryID h ''resolution'' (ActionOwnerKey ref (eOwnerGeneration intent))) (\<lambda>entryID.
       Inr (emptyEntry \<lparr> eID := entryID, eType := EntryTypeCheckpoint, eRunID := rRunID ref,
         eWorkspaceID := rWorkspaceID ref, eActionBatchID := rActionBatchID ref, eActionID := rActionID ref,
         eOwnerGeneration := eOwnerGeneration intent, eOrdinal := eOrdinal intent,
         eToolCallID := rToolCallID ref, eToolName := eToolName intent,
         eCheckpointKind := CheckpointExecutionResolution, eExecutionResolution := Some r \<rparr>))"

definition matchResolution ::
  "string \<Rightarrow> pending_ref \<Rightarrow> session_entry \<Rightarrow> session_entry option \<Rightarrow> session_entry \<Rightarrow> go_error + session_entry option" where
  "matchResolution sid ref intent m row =
     (if eRecordVersion row \<noteq> 1 \<or> eCheckpointKind row \<noteq> CheckpointExecutionResolution
         \<or> ref \<noteq> refFromEntry row sid then Inr m
      else if eOwnerGeneration row \<noteq> eOwnerGeneration intent
        then Inl (Fault ''execution resolution owner generation differs from its durable intent'')
      else if m \<noteq> None then Inl (Fault ''action has multiple durable execution-resolution checkpoints'')
      else Inr (Some row))"

text \<open>The resolution with its evidence, the checkpoint row, and the checkpoint if it is durable.\<close>

definition decideResolution ::
  "commit_host \<Rightarrow> run_sink \<Rightarrow> execution_resolution \<Rightarrow> pending_ref \<Rightarrow> session_entry \<Rightarrow> session_entry \<Rightarrow> bool
     \<Rightarrow> go_error + execution_resolution \<times> session_entry \<times> session_entry option" where
  "decideResolution h s r0 ref intent receipt allowOperator =
     bindR (checkResolution s r0 receipt allowOperator) (\<lambda>_.
     bindR (resolveEvidenceReference s r0 ref intent receipt) (\<lambda>r.
     bindR (resolutionRow h ref intent r) (\<lambda>row.
     bindR (foldR (matchResolution (rkSessionID s) ref intent) None (rkBranchRows s)) (\<lambda>m. case m of
         None \<Rightarrow> Inr (r, row, None)
       | Some durable \<Rightarrow>
           if eID durable \<noteq> eID row \<or> eExecutionResolution durable \<noteq> Some r
             then Inl (Fault ''execution resolution conflicts with the durable checkpoint'')
           else Inr (r, row, Some durable)))))"

definition appendCheckpoint :: "commit_host \<Rightarrow> session_entry \<Rightarrow> (run_world, session_entry) op" where
  "appendCheckpoint h row =
     bindS (appendAndRefreshRows h [row]) (\<lambda>canonical.
       case canonical of
         [c] \<Rightarrow> if eID c \<noteq> eID row \<or> eSeq c = 0
           then failS (Fault ''durable writer returned an invalid checkpoint identity'') else okS c
       | _ \<Rightarrow> failS (Fault ''durable writer returned an invalid checkpoint identity''))"

definition resolveExecutionLocked ::
  "commit_host \<Rightarrow> execution_resolution \<Rightarrow> pending_ref \<Rightarrow> session_entry \<Rightarrow> session_entry \<Rightarrow> bool \<Rightarrow> (run_world, unit) op" where
  "resolveExecutionLocked h r0 ref intent receipt allowOperator w =
     bindS (liftR (decideResolution h (rcSink w) r0 ref intent receipt allowOperator)) (\<lambda>(r, row, known).
     bindS (case known of Some durable \<Rightarrow> okS durable | None \<Rightarrow> appendCheckpoint h row) (\<lambda>durable.
       onIndex (ApplyDurableResolutions (chIndex h)
         [\<lparr> vrAction = ref, vrCheckpointEntryID = eID durable, vrCheckpointSeq = eSeq durable, vrResolution = r \<rparr>]))) w"

definition ResolveExecution :: "commit_host \<Rightarrow> call_context \<Rightarrow> execution_resolution \<Rightarrow> (run_world, unit) op" where
  "ResolveExecution h ctx r =
     bindS (validateCallContext ctx (erRunID r)) (\<lambda>_ w.
       if erActionID r = [] then (Inl (Fault ''execution resolution requires an action ID''), w)
       else bindS (liftR (findIntentByActionID (rcSink w) (erRunID r) (erActionID r) (rkOwnerGen (rcSink w)))) (\<lambda>intent.
         bindS (liftR (findReceiptForIntent (rcSink w) (refFromEntry intent (rkSessionID (rcSink w))) intent)) (\<lambda>receipt.
           resolveExecutionLocked h r (refFromEntry intent (rkSessionID (rcSink w))) intent receipt False)) w)"

section \<open>Compactions\<close>

definition positionOf :: "session_entry list \<Rightarrow> string \<Rightarrow> nat" where
  "positionOf rows x = (case map_of (rev (map (\<lambda>(i, e). (eID e, i)) (enumerate 0 rows))) x of
     None \<Rightarrow> 0 | Some i \<Rightarrow> i)"

text \<open>The receipts of one call, over all rows: the position so far and whether one was found.\<close>

definition receiptOfCall :: "session_entry \<Rightarrow> tool_call \<Rightarrow> session_entry \<Rightarrow> bool" where
  "receiptOfCall assistant c e \<longleftrightarrow> eRecordVersion e = 1 \<and> eType e = EntryTypeTool
     \<and> eActionState e = ActionStateEmpty \<and> eRunID e = eRunID assistant
     \<and> eOrdinal e = eOrdinal assistant \<and> eOrdinal e \<noteq> None \<and> eToolCallID e = tcID c"

definition scanCallReceipts ::
  "session_entry list \<Rightarrow> session_entry \<Rightarrow> nat \<times> bool \<Rightarrow> tool_call \<Rightarrow> nat \<times> bool" where
  "scanCallReceipts rows assistant acc c =
     (let r = foldl (\<lambda>(l, found) e.
          if receiptOfCall assistant c e
          then (if \<not> found \<or> l < positionOf rows (eID e) then positionOf rows (eID e) else l, True)
          else (l, found)) (fst acc, False) rows
      in (fst r, snd acc \<and> snd r))"

definition validateCompactionBoundary :: "session_entry list \<Rightarrow> nat \<Rightarrow> go_error + unit" where
  "validateCompactionBoundary rows boundary =
     checkAll (\<lambda>assistant.
       if eRecordVersion assistant \<noteq> 1 \<or> eType assistant \<noteq> EntryTypeAssistant \<or> eToolCalls assistant = []
         then Inr ()
       else let p = positionOf rows (eID assistant);
                g = foldl (scanCallReceipts rows assistant) (p, True) (eToolCalls assistant)
         in if p \<le> boundary \<and> (\<not> snd g \<or> boundary < fst g)
            then Inl (Fault ''compaction boundary splits or includes an open assistant tool-call group'')
            else Inr ()) rows"

text \<open>The source row a compaction cursor stands for.\<close>

definition compactionBoundaryID :: "run_sink \<Rightarrow> string \<Rightarrow> compaction_projection \<Rightarrow> go_error + string" where
  "compactionBoundaryID s run p =
     (let prior = cpPriorHistoryCount p; count = cpTranscriptCount p in
      if count = 0 then
        (if prior = 0 \<or> length (svSourceEntryIDs (rkBaseView s)) < unat prior
           then Inl (Fault ''compaction cursor does not map to a run-start history source'')
         else Inr (svSourceEntryIDs (rkBaseView s) ! (unat prior - 1)))
      else if prior \<noteq> of_nat (length (svMessages (rkBaseView s)))
        then Inl (Fault ''compaction cursor does not preserve the complete prior-history prefix'')
      else bindR (transcriptRowsByIndex (rkBranchRows s) run) (\<lambda>rows.
        bindR (validateTranscriptRowsInPhysicalOrder (rkBranchRows s) run) (\<lambda>_.
        if length rows < unat count
          then Inl (Fault ''compaction cursor extends beyond the durable run transcript'')
        else case map_of rows (count - 1) of
            None \<Rightarrow> Inl (Fault ''compaction cursor has no exact durable transcript boundary'')
          | Some boundary \<Rightarrow> Inr (eID boundary))))"

definition compactionEntry :: "commit_host \<Rightarrow> run_sink \<Rightarrow> string \<Rightarrow> compaction_projection \<Rightarrow> go_error + session_entry" where
  "compactionEntry h s run p =
     (if run = [] \<or> cpExpectedHistoryRevision p \<noteq> svRevision (rkBaseView s)
        then Inl (Fault ''compaction projection has a stale run-start history revision'')
      else if trimSpace (cpSummary p) = [] then Inl (Fault ''compaction projection requires a non-empty summary'')
      else bindR (compactionBoundaryID s run p) (\<lambda>boundaryID.
        case find (\<lambda>q. eID (snd q) = boundaryID) (enumerate 0 (rkBranchRows s)) of
          None \<Rightarrow> Inl (Fault ''compaction boundary is not on the selected active branch'')
        | Some q \<Rightarrow> bindR (validateCompactionBoundary (rkBranchRows s) (fst q)) (\<lambda>_.
            bindR (stableRunCommitEntryID h ''compaction'' (CompactionKey run (cpExpectedHistoryRevision p)
                (cpPriorHistoryCount p) (cpTranscriptCount p) boundaryID
                (hexEncode (shSha256 (chSession h) (cpSummary p))))) (\<lambda>entryID.
              Inr (emptyEntry \<lparr> eID := entryID, eType := EntryTypeCompaction, eContent := cpSummary p,
                eSummary := cpSummary p, eRunID := run, eWorkspaceID := rkWorkspaceID s,
                eCompactedThroughEntryID := boundaryID \<rparr>)))))"

definition sameCompactionRow :: "session_entry \<Rightarrow> session_entry \<Rightarrow> bool" where
  "sameCompactionRow x c \<longleftrightarrow> eID x = eID c \<and> eType x = EntryTypeCompaction \<and> eRunID x = eRunID c
     \<and> eWorkspaceID x = eWorkspaceID c \<and> eSummary x = eSummary c \<and> eContent x = eContent c
     \<and> eCompactedThroughEntryID x = eCompactedThroughEntryID c"

text \<open>Whether the first row of the branch that concerns this compaction is its own row.\<close>

fun compactionKnown :: "string \<Rightarrow> session_entry \<Rightarrow> session_entry list \<Rightarrow> go_error + bool" where
  "compactionKnown run row [] = Inr False"
| "compactionKnown run row (x # xs) =
     (if eID x = eID row then
        (if sameCompactionRow x row then Inr True
         else Inl (Fault ''compaction row ID conflicts with its durable payload''))
      else if eRecordVersion x = 1 \<and> eType x = EntryTypeCompaction \<and> eRunID x = run
              \<and> eCompactedThroughEntryID x = eCompactedThroughEntryID row
        then Inl (Fault ''run already has a different compaction at this source boundary'')
      else compactionKnown run row xs)"

definition CommitCompaction :: "commit_host \<Rightarrow> call_context \<Rightarrow> compaction_projection \<Rightarrow> (run_world, unit) op" where
  "CommitCompaction h ctx p =
     bindS (validateCallContext ctx (ctRunID ctx)) (\<lambda>_.
     bindS rejectAfterTerminal (\<lambda>_ w.
       bindS (liftR (compactionEntry h (rcSink w) (ctRunID ctx) p)) (\<lambda>row w.
         bindS (liftR (compactionKnown (ctRunID ctx) row (rkBranchRows (rcSink w)))) (\<lambda>known.
           if known then okS () else bindS (appendAndRefreshRows h [row]) (\<lambda>_. okS ())) w) w))"

section \<open>The terminal checkpoint\<close>

definition checkProjection ::
  "commit_host \<Rightarrow> run_sink \<Rightarrow> string \<Rightarrow> string list \<times> string list \<Rightarrow> session_entry \<times> compaction_projection
     \<Rightarrow> go_error + string list \<times> string list" where
  "checkProjection h s run seen q =
     bindR (compactionEntry h s run (snd q)) (\<lambda>candidate.
       if eID candidate \<in> set (fst seen) then Inl (Fault ''terminal repeats a compaction projection'')
       else if eCompactedThroughEntryID candidate \<in> set (snd seen)
         then Inl (Fault ''terminal repeats a compaction source boundary'')
       else if eID candidate \<noteq> eID (fst q) \<or> \<not> sameCompactionRow (fst q) candidate
         then Inl (Fault ''terminal projection does not match its durable ordered projection'')
       else Inr (eID candidate # fst seen, eCompactedThroughEntryID candidate # snd seen))"

definition verifyTerminalProjections ::
  "commit_host \<Rightarrow> run_sink \<Rightarrow> string \<Rightarrow> compaction_projection list \<Rightarrow> go_error + unit" where
  "verifyTerminalProjections h s run projections =
     (let durable = filter (\<lambda>e. eRecordVersion e = 1 \<and> eType e = EntryTypeCompaction \<and> eRunID e = run) (rkBranchRows s)
      in if length projections \<noteq> length durable
           then Inl (Fault ''terminal projection count differs from the durable run projections'')
         else bindR (foldR (checkProjection h s run) ([], []) (zip durable projections)) (\<lambda>_. Inr ()))"

text \<open>The durable rows of the run in transcript order.\<close>

definition durableTranscript :: "run_sink \<Rightarrow> string \<Rightarrow> go_error + session_entry list" where
  "durableTranscript s run =
     bindR (transcriptRowsByIndex (rkBranchRows s) run) (\<lambda>m.
     bindR (validateTranscriptRowsInPhysicalOrder (rkBranchRows s) run) (\<lambda>_.
       if list_ex (\<lambda>i. map_of m (of_nat i) = None) [0..<length m]
         then Inl (Fault ''terminal transcript has a durable hole'')
       else Inr (map (\<lambda>i. the (map_of m (of_nat i))) [0..<length m])))"

definition plainAssistant :: "agent_message \<Rightarrow> bool" where
  "plainAssistant m \<longleftrightarrow> mRole m = ''assistant'' \<and> mToolCalls m = [] \<and> mToolCallID m = [] \<and> mToolName m = []
     \<and> mInputKind m = InputKindEmpty \<and> mReceiptOutcome m = ReceiptOutcomeEmpty"

fun terminalRows ::
  "commit_host \<Rightarrow> run_sink \<Rightarrow> string \<Rightarrow> nat \<Rightarrow> agent_message list \<Rightarrow> go_error + session_entry list" where
  "terminalRows h s run i [] = Inr []"
| "terminalRows h s run i (m # ms) =
     (if \<not> plainAssistant m then Inl (Fault ''terminal transcript suffix is not a plain assistant message'')
      else bindR (stableRunCommitEntryID h ''assistant-terminal'' (RunIndexKey run (of_nat i))) (\<lambda>entryID.
        bindR (terminalRows h s run (Suc i) ms) (\<lambda>rows.
          Inr ((sessionEntryFromRunCommitMessage m EntryTypeAssistant)
            \<lparr> eRunID := run, eWorkspaceID := rkWorkspaceID s, eTranscriptIndex := Some (of_nat i),
              eID := entryID \<rparr> # rows))))"

definition terminalCheckpoint :: "call_context \<Rightarrow> run_sink \<Rightarrow> run_terminal \<Rightarrow> session_entry" where
  "terminalCheckpoint ctx s t = emptyEntry \<lparr> eID := rtTerminalCheckpointID t, eType := EntryTypeCheckpoint,
     eRunID := rtRunID t, eWorkspaceID := rkWorkspaceID s, eCheckpointKind := CheckpointRunTerminal,
     eRunOutcome := rtOutcome t,
     eGeneration := (case ctGeneration ctx of Some g \<Rightarrow> Some g | None \<Rightarrow> rtGeneration t) \<rparr>"

definition checkTerminal :: "call_context \<Rightarrow> run_sink \<Rightarrow> run_terminal \<Rightarrow> go_error + unit" where
  "checkTerminal ctx s t =
     (if rtRunID t = [] \<or> ctRunID ctx \<noteq> rtRunID t
        then Inl (Fault ''terminal checkpoint does not match the owned run'')
      else if rtTerminalCheckpointID t = [] \<or> CHR 0x00 \<in> set (rtTerminalCheckpointID t)
        then Inl (Fault ''terminal checkpoint requires a non-empty NUL-free ID'')
      else if \<not> validRunOutcome (rtOutcome t) then Inl (Fault ''terminal checkpoint has invalid run outcome'')
      else if rtTranscript t = [] then Inl (Fault ''terminal checkpoint requires the canonical run transcript'')
      else if rkTerminalID s \<noteq> [] \<and> rkTerminalID s \<noteq> rtTerminalCheckpointID t
        then Inl (Fault ''run already has a different terminal checkpoint'')
      else Inr ())"

text \<open>\<open>Inr None\<close>: the terminal checkpoint is already durable; otherwise the rows to write.\<close>

definition decideTerminal ::
  "commit_host \<Rightarrow> call_context \<Rightarrow> run_sink \<Rightarrow> run_terminal \<Rightarrow> go_error + session_entry list option" where
  "decideTerminal h ctx s t =
     bindR (checkTerminal ctx s t) (\<lambda>_.
     bindR (durableTranscript s (rtRunID t)) (\<lambda>existing.
     if length (rtTranscript t) < length existing
       then Inl (Fault ''durable run transcript is longer than the terminal transcript'')
     else if \<not> list_all2 durableRowMatchesMessage existing (take (length existing) (rtTranscript t))
       then Inl (Fault ''terminal transcript conflicts with a durable row'')
     else bindR (findTerminalCheckpoint (rkBranchRows s) (rtRunID t)) (\<lambda>terminalRow.
     bindR (verifyTerminalProjections h s (rtRunID t) (rtProjections t)) (\<lambda>_.
     case terminalRow of
       Some row \<Rightarrow>
         if eID row \<noteq> rtTerminalCheckpointID t \<or> eRunOutcome row \<noteq> rtOutcome t
           then Inl (Fault ''terminal checkpoint conflicts with its durable row'')
         else if length existing \<noteq> length (rtTranscript t)
           then Inl (Fault ''terminal checkpoint exists before the complete transcript prefix'')
         else Inr None
     | None \<Rightarrow> bindR (terminalRows h s (rtRunID t) (length existing) (drop (length existing) (rtTranscript t))) (\<lambda>rows.
         if list_ex (\<lambda>row. eID row = rtTerminalCheckpointID t) (rkAllRows s)
           then Inl (Fault ''terminal checkpoint ID is already used by another durable row'')
         else if list_ex (\<lambda>row. eID row = rtTerminalCheckpointID t) rows
           then Inl (Fault ''terminal checkpoint ID conflicts with a terminal transcript row'')
         else Inr (Some (rows @ [terminalCheckpoint ctx s t])))))))"

definition CommitTerminal :: "commit_host \<Rightarrow> call_context \<Rightarrow> run_terminal \<Rightarrow> (run_world, unit) op" where
  "CommitTerminal h ctx t =
     bindS (validateCallContext ctx (rtRunID t)) (\<lambda>_ w.
       bindS (liftR (decideTerminal h ctx (rcSink w) t)) (\<lambda>todo. case todo of
           None \<Rightarrow> (\<lambda>w. (Inr (), w \<lparr> rcSink := rcSink w \<lparr> rkTerminalID := rtTerminalCheckpointID t \<rparr> \<rparr>))
         | Some rows \<Rightarrow> bindS (appendAndRefreshRows h rows) (\<lambda>canonical w.
             if length canonical \<noteq> length rows \<or> eID (last canonical) \<noteq> rtTerminalCheckpointID t
                \<or> eSeq (last canonical) = 0
               then (Inl (Fault ''durable writer returned an invalid terminal checkpoint identity''), w)
             else (Inr (), w \<lparr> rcSink := rcSink w \<lparr> rkTerminalID := rtTerminalCheckpointID t \<rparr> \<rparr>))) w)"

end
