(* ===== verification/RunCommitBatch.thy ===== *)
theory RunCommitBatch
  imports RunCommitOps
begin

text \<open>
  The parts of the sink that combine the session file with the workspace index: reserving a
  batch of intents and asking for its dispatch permit (\<open>run_commit.go\<close>), closing a batch the
  index has denied (\<open>run_commit_rejection.go\<close>) and accepting an unknown outcome on an
  operator's word (\<open>operator_reconciliation.go\<close>).
\<close>

section \<open>The assistant turn\<close>

definition checkToolCall :: "string list \<Rightarrow> tool_call \<Rightarrow> go_error + string list" where
  "checkToolCall seen c =
     (if tcID c = [] \<or> tcName c = [] then Inl (Fault ''assistant tool call has incomplete identity'')
      else if tcID c \<in> set seen then Inl (Fault ''assistant message repeats tool call ID'')
      else bindR (validateProtocolJSONArgument (tcArgs c)) (\<lambda>_. Inr (tcID c # seen)))"

definition validateRunCommitToolCalls :: "tool_call list \<Rightarrow> go_error + unit" where
  "validateRunCommitToolCalls calls = bindR (foldR checkToolCall [] calls) (\<lambda>_. Inr ())"

definition callNamed :: "tool_call list \<Rightarrow> string \<Rightarrow> (nat \<times> tool_call) option" where
  "callNamed calls x = find (\<lambda>p. tcID (snd p) = x) (enumerate 0 calls)"

definition checkKnownReceipt :: "intent_batch \<Rightarrow> string list \<Rightarrow> tool_receipt \<Rightarrow> go_error + string list" where
  "checkKnownReceipt b seen r =
     (let m = trMessage r in
      if trRunID r \<noteq> ibRunID b \<or> trOrdinal r \<noteq> ibOrdinal b \<or> trActionID r \<noteq> []
         \<or> trDispatchState r \<noteq> DispatchStateNotDispatched
        then Inl (Fault ''known pre-dispatch receipt has reserved or mismatched identity'')
      else case callNamed (mToolCalls (ibAssistantMessage b)) (trToolCallID r) of
        None \<Rightarrow> Inl (Fault ''known pre-dispatch receipt does not match an assistant tool call'')
      | Some p \<Rightarrow>
          if mRole m \<noteq> ''tool'' \<or> mToolCallID m \<noteq> trToolCallID r \<or> mToolName m \<noteq> tcName (snd p)
             \<or> mToolCalls m \<noteq> [] \<or> mInputKind m \<noteq> InputKindEmpty
            then Inl (Fault ''known pre-dispatch receipt does not match an assistant tool call'')
          else if \<not> deniedOutcome (trReceiptOutcome r)
            then Inl (Fault ''known pre-dispatch receipt has a non-denial outcome'')
          else if mReceiptOutcome m \<noteq> ReceiptOutcomeEmpty \<and> mReceiptOutcome m \<noteq> trReceiptOutcome r
            then Inl (Fault ''known pre-dispatch receipt conflicts with its message outcome'')
          else if trToolCallID r \<in> set seen
            then Inl (Fault ''known pre-dispatch receipts repeat tool call'')
          else Inr (trToolCallID r # seen))"

definition validateKnownPreDispatchReceipts :: "intent_batch \<Rightarrow> go_error + unit" where
  "validateKnownPreDispatchReceipts b =
     bindR (foldR (checkKnownReceipt b) [] (ibKnownReceipts b)) (\<lambda>_. Inr ())"

definition checkBatch :: "run_sink \<Rightarrow> intent_batch \<Rightarrow> go_error + unit" where
  "checkBatch s b =
     (let m = ibAssistantMessage b in
      if rkRejectedBatch s \<noteq> None then Inl (Fault ''this run already closed a denied batch'')
      else if mRole m \<noteq> ''assistant'' \<or> mToolCalls m = []
        then Inl (Fault ''intent batch requires an assistant message with tool calls'')
      else if mInputKind m \<noteq> InputKindEmpty \<or> mToolCallID m \<noteq> [] \<or> mToolName m \<noteq> []
              \<or> mReceiptOutcome m \<noteq> ReceiptOutcomeEmpty
        then Inl (Fault ''assistant intent message contains input or receipt fields'')
      else if ibActionBatchID b = [] \<and> ibIntents b \<noteq> []
        then Inl (Fault ''reserved intent batch requires an action batch ID'')
      else bindR (validateRunCommitToolCalls (mToolCalls m)) (\<lambda>_.
        bindR (validateKnownPreDispatchReceipts b) (\<lambda>_.
        if list_ex (\<lambda>r. list_ex (\<lambda>i. aiToolCallID i = trToolCallID r) (ibIntents b)) (ibKnownReceipts b)
          then Inl (Fault ''tool call cannot be both reserved and a known pre-dispatch denial'')
        else Inr ())))"

text \<open>The assistant row of the batch, and whether it is durable already.\<close>

definition assistantRow ::
  "commit_host \<Rightarrow> run_sink \<Rightarrow> intent_batch \<Rightarrow> int \<Rightarrow> go_error + bool \<times> session_entry" where
  "assistantRow h s b now =
     bindR (assistantOccurrence (rkBranchRows s) (ibRunID b) (ibOrdinal b)) (\<lambda>m. case m of
         Some assistant \<Rightarrow>
           if eWorkspaceID assistant \<noteq> rkWorkspaceID s \<or> \<not> durableRowMatchesMessage assistant (ibAssistantMessage b)
             then Inl (Fault ''assistant occurrence conflicts with its durable row'')
           else Inr (True, assistant)
       | None \<Rightarrow>
           bindR (transcriptRowsByIndex (rkBranchRows s) (ibRunID b)) (\<lambda>rows.
           bindR (nextTranscriptIndex rows) (\<lambda>nextIndex.
           bindR (stableRunCommitEntryID h ''assistant'' (RunOrdinalKey (ibRunID b) (ibOrdinal b))) (\<lambda>entryID.
             Inr (False, (sessionEntryFromRunCommitMessage (ibAssistantMessage b) EntryTypeAssistant)
               \<lparr> eID := entryID, eRunID := ibRunID b, eWorkspaceID := rkWorkspaceID s,
                 eOrdinal := Some (ibOrdinal b), eTranscriptIndex := Some nextIndex, eTimestamp := now \<rparr>)))))"

section \<open>Reserving the intents\<close>

text \<open>
  The loop over the intents: rows to write, actions to dispatch, calls and action IDs seen,
  the position after the last call, and how many intents are durable already.
\<close>

record intent_loop =
  ilRows :: "session_entry list"
  ilActions :: "dispatch_action list"
  ilCalls :: "string list"
  ilActionIDs :: "string list"
  ilNext :: nat
  ilExisting :: nat

definition intentIdentity :: "run_sink \<Rightarrow> intent_batch \<Rightarrow> action_intent \<Rightarrow> bool" where
  "intentIdentity s b i \<longleftrightarrow> aiSessionID i = rkSessionID s \<and> aiWorkspaceID i = rkWorkspaceID s
     \<and> aiRunID i = ibRunID b \<and> aiActionBatchID i = ibActionBatchID b \<and> aiOrdinal i = ibOrdinal b
     \<and> aiOwnerGeneration i = rkOwnerGen s"

definition checkIntentProofs :: "commit_host \<Rightarrow> index_world \<Rightarrow> run_sink \<Rightarrow> intent_batch \<Rightarrow> action_intent \<Rightarrow> go_error + unit" where
  "checkIntentProofs h ix s b i =
     (let resolve = hResolveSymlinks (chIndex h); root = ibCanonicalWorkspaceRoot b in
      if (case aiScopedReadProof i of None \<Rightarrow> False | Some p \<Rightarrow>
            WorkspaceIDForCanonicalRoot (chIndex h) root \<noteq> Inr (rkWorkspaceID s)
            \<or> \<not> readMatchesAction resolve (iwFences ix) (iwClaimed ix) p (aiToolIdentity i) (aiEffectSet i)
                (aiSchemaDigest i) (aiArgumentDigest i) (aiToolCallID i) root)
        then Inl (Fault ''scoped read proof does not match prepared intent'')
      else if (case aiManagedDelegationProof i of None \<Rightarrow> False | Some p \<Rightarrow>
            \<not> delegationMatchesAction resolve (iwFences ix) (iwClaimed ix) p (aiToolIdentity i) (aiEffectSet i)
                (aiSchemaDigest i) (aiArgumentDigest i) (aiToolCallID i) root)
        then Inl (Fault ''managed delegation proof differs from prepared intent'')
      else Inr ())"

definition intentRow ::
  "commit_host \<Rightarrow> action_intent \<Rightarrow> string \<Rightarrow> tool_effect list \<Rightarrow> int \<Rightarrow> go_error + session_entry" where
  "intentRow h i name effects now =
     bindR (stableRunCommitEntryID h ''intent'' (IntentKey (aiSessionID i) (aiWorkspaceID i) (aiRunID i)
         (aiOrdinal i) (aiToolCallID i) (aiActionBatchID i) (aiActionID i) (aiOwnerGeneration i))) (\<lambda>entryID.
       Inr (emptyEntry \<lparr> eID := entryID, eType := EntryTypeTool, eRunID := aiRunID i,
         eWorkspaceID := aiWorkspaceID i, eActionBatchID := aiActionBatchID i, eActionID := aiActionID i,
         eOwnerGeneration := aiOwnerGeneration i, eActionState := ActionStateIntent,
         eOrdinal := Some (aiOrdinal i), eToolCallID := aiToolCallID i, eToolName := name,
         eArgumentDigest := hexEncode (aiArgumentDigest i), eSchemaDigest := hexEncode (aiSchemaDigest i),
         eToolIdentity := Some (identitySnapshot (aiToolIdentity i)), eEffectSet := effects,
         eTimestamp := now \<rparr>))"

definition sameIntentPayload :: "session_entry \<Rightarrow> session_entry \<Rightarrow> bool" where
  "sameIntentPayload x c \<longleftrightarrow> eID x = eID c \<and> eType x = eType c \<and> eRunID x = eRunID c
     \<and> eWorkspaceID x = eWorkspaceID c \<and> eActionBatchID x = eActionBatchID c \<and> eActionID x = eActionID c
     \<and> eOwnerGeneration x = eOwnerGeneration c \<and> eActionState x = eActionState c \<and> eOrdinal x = eOrdinal c
     \<and> eToolCallID x = eToolCallID c \<and> eToolName x = eToolName c \<and> eArgumentDigest x = eArgumentDigest c
     \<and> eSchemaDigest x = eSchemaDigest c \<and> eToolIdentity x = eToolIdentity c \<and> eEffectSet x = eEffectSet c"

definition intentRef :: "action_intent \<Rightarrow> pending_ref" where
  "intentRef i = \<lparr> rSessionID = aiSessionID i, rWorkspaceID = aiWorkspaceID i, rRunID = aiRunID i,
     rActionBatchID = aiActionBatchID i, rOrdinal = aiOrdinal i, rToolCallID = aiToolCallID i,
     rActionID = aiActionID i \<rparr>"

definition intentAction :: "action_intent \<Rightarrow> tool_effect list \<Rightarrow> dispatch_action" where
  "intentAction i effects = \<lparr> daNonBlockingDelegation = False,
     daManagedDelegationProof = aiManagedDelegationProof i, daAction = intentRef i,
     daToolIdentity = Some (identitySnapshot (aiToolIdentity i)), daEffectSet = effects,
     daExecutionIdentity = None, daScopedReadProof = aiScopedReadProof i \<rparr>"

text \<open>The \<open>n\<close>-th intent reads the clock after the earlier ones and the assistant row.\<close>

definition reserveIntent ::
  "commit_host \<Rightarrow> index_world \<Rightarrow> run_sink \<Rightarrow> intent_batch \<Rightarrow> nat \<Rightarrow> intent_loop \<Rightarrow> action_intent \<Rightarrow> go_error + intent_loop" where
  "reserveIntent h ix s b tick l i =
     (if \<not> intentIdentity s b i
        then Inl (Fault ''intent identity does not match its run, session, workspace, batch, occurrence, or owner'')
      else if aiToolCallID i = [] \<or> aiActionID i = []
        then Inl (Fault ''reserved intent requires tool-call and action IDs'')
      else case callNamed (mToolCalls (ibAssistantMessage b)) (aiToolCallID i) of
        None \<Rightarrow> Inl (Fault ''intent does not match a tool call in its assistant message'')
      | Some (position, call) \<Rightarrow>
          if tcName call \<noteq> ttToolName (aiToolIdentity i)
            then Inl (Fault ''intent does not match a tool call in its assistant message'')
          else if position < ilNext l
            then Inl (Fault ''reserved intents are not in canonical assistant tool-call order'')
          else if aiToolCallID i \<in> set (ilCalls l) then Inl (Fault ''intent batch repeats tool call'')
          else if aiActionID i \<in> set (ilActionIDs l) then Inl (Fault ''intent batch repeats action ID'')
          else bindR (validateToolIdentitySnapshot (Some (identitySnapshot (aiToolIdentity i))) (tcName call)) (\<lambda>_.
            if \<not> isHexDigest (hexEncode (aiArgumentDigest i)) \<or> \<not> isHexDigest (hexEncode (aiSchemaDigest i))
              then Inl (Fault ''intent has malformed argument or schema digest'')
            else bindR (normalizeEffectFacts (effectSetValues (aiEffectSet i))) (\<lambda>effects.
              bindR (checkIntentProofs h ix s b i) (\<lambda>_.
              bindR (intentRow h i (tcName call) effects (chClock h (tick + length (ilCalls l)))) (\<lambda>row.
              bindR (actionRow (rkBranchRows s) (rkSessionID s) row) (\<lambda>m.
              bindR (case m of
                  None \<Rightarrow> Inr (l \<lparr> ilRows := ilRows l @ [row] \<rparr>)
                | Some existing \<Rightarrow>
                    if \<not> sameIntentPayload existing row then Inl (Fault ''intent conflicts with its durable row'')
                    else Inr (l \<lparr> ilExisting := Suc (ilExisting l) \<rparr>)) (\<lambda>l'.
                Inr (l' \<lparr> ilActions := ilActions l @ [intentAction i effects],
                       ilCalls := aiToolCallID i # ilCalls l, ilActionIDs := aiActionID i # ilActionIDs l,
                       ilNext := Suc position \<rparr>))))))))"

definition emptyLoop :: intent_loop where
  "emptyLoop = \<lparr> ilRows = [], ilActions = [], ilCalls = [], ilActionIDs = [], ilNext = 0, ilExisting = 0 \<rparr>"

text \<open>The rows to write and the actions to dispatch.\<close>

definition decideBatch ::
  "commit_host \<Rightarrow> index_world \<Rightarrow> run_sink \<Rightarrow> nat \<Rightarrow> intent_batch \<Rightarrow> go_error + session_entry list \<times> dispatch_action list" where
  "decideBatch h ix s tick b =
     bindR (checkBatch s b) (\<lambda>_.
     bindR (assistantRow h s b (chClock h tick)) (\<lambda>a.
     bindR (foldR (reserveIntent h ix s b (Suc tick)) emptyLoop (ibIntents b)) (\<lambda>l.
       if ilExisting l \<noteq> 0 \<and> ilExisting l \<noteq> length (ibIntents b)
         then Inl (Fault ''intent batch is partially present; refusing to publish a dispatch marker'')
       else Inr (if fst a then ilRows l else snd a # ilRows l, ilActions l))))"

section \<open>Closing a denied batch\<close>

definition rejectedBatchReservedOutput :: string where
  "rejectedBatchReservedOutput = ''Tool call not dispatched because the workspace is quarantined''"

definition rejectedBatchSuffixOutput :: string where
  "rejectedBatchSuffixOutput = ''Tool call not dispatched because a prior tool call stopped the group''"

definition deniedReceipt :: "intent_batch \<Rightarrow> tool_call \<Rightarrow> u64 \<Rightarrow> action_intent option \<Rightarrow> tool_receipt" where
  "deniedReceipt b c index reserved =
     (let outcome = (if reserved = None then ReceiptOutcomeInterrupted else ReceiptOutcomeError) in
      \<lparr> trRunID = ibRunID b, trOrdinal = ibOrdinal b, trToolCallID = tcID c,
        trActionID = (case reserved of None \<Rightarrow> [] | Some i \<Rightarrow> aiActionID i), trTranscriptIndex = index,
        trDispatchState = DispatchStateNotDispatched,
        trMessage = emptyMessage \<lparr> mRole := ''tool'', mToolCallID := tcID c, mToolName := tcName c,
          mContent := (if reserved = None then rejectedBatchSuffixOutput else rejectedBatchReservedOutput),
          mReceiptOutcome := outcome \<rparr>,
        trReceiptOutcome = outcome \<rparr>)"

text \<open>The rows after the assistant row must be closed receipts of its first calls.\<close>

definition closedPrefixRow ::
  "(u64 \<times> session_entry) list \<Rightarrow> string list \<Rightarrow> session_entry \<Rightarrow> u64 \<Rightarrow> nat \<Rightarrow> nat \<Rightarrow> go_error + nat" where
  "closedPrefixRow rows resolved assistant start closed k =
     (if length (eToolCalls assistant) \<le> k
        then Inl (Fault ''denied batch has rows beyond its open tool group'')
      else let row = (case map_of rows (start + of_nat k) of None \<Rightarrow> emptyEntry | Some r \<Rightarrow> r);
               c = eToolCalls assistant ! k in
        if eType row \<noteq> EntryTypeTool \<or> eToolCallID row \<noteq> tcID c \<or> eToolName row \<noteq> tcName c
           \<or> eActionState row \<noteq> ActionStateEmpty
          then Inl (Fault ''denied batch existing receipts are not its closed canonical prefix'')
        else if eReceiptOutcome row = ReceiptOutcomeUnknown
                \<or> (eActionID row \<noteq> [] \<and> eActionID row \<notin> set resolved)
          then Inl (Fault ''denied batch cannot pass a pending prior receipt'')
        else Inr (Suc k))"

text \<open>The calls still to close and the next transcript index.\<close>

definition openCalls :: "run_sink \<Rightarrow> intent_batch \<Rightarrow> go_error + tool_call list \<times> u64" where
  "openCalls s b =
     bindR (assistantOccurrence (rkBranchRows s) (ibRunID b) (ibOrdinal b)) (\<lambda>m.
       case m of None \<Rightarrow> Inl (Fault ''denied batch has no canonical assistant'')
       | Some assistant \<Rightarrow> (case eTranscriptIndex assistant of
           None \<Rightarrow> Inl (Fault ''denied batch has no canonical assistant'')
         | Some index \<Rightarrow>
       bindR (transcriptRowsByIndex (rkBranchRows s) (ibRunID b)) (\<lambda>rows.
       bindR (nextTranscriptIndex rows) (\<lambda>nextIndex.
       bindR (analyzeDurableActionJournal (rkAllRows s) (rkSessionID s)) (\<lambda>plan.
         let resolved = map (\<lambda>occ. eActionID (the (oIntent occ)))
               (filter (\<lambda>occ. oIntent occ \<noteq> None \<and> oResolution occ \<noteq> None) (rpOccurrences plan)) in
         bindR (foldR (closedPrefixRow rows resolved assistant (index + 1)) 0
             [0..<unat nextIndex - unat (index + 1)]) (\<lambda>k.
           Inr (drop k (eToolCalls assistant), nextIndex)))))))"

definition deniedCall :: "run_sink \<Rightarrow> intent_batch \<Rightarrow> u64 \<Rightarrow> tool_call
     \<Rightarrow> go_error + tool_receipt \<times> (action_intent \<times> session_entry) option" where
  "deniedCall s b index c =
     (let reserved = find (\<lambda>i. aiToolCallID i = tcID c) (rev (ibIntents b));
          known = find (\<lambda>r. trToolCallID r = tcID c) (rev (ibKnownReceipts b)) in
      bindR (findOccurrenceIntent (rkBranchRows s) (ibRunID b) (ibOrdinal b) (tcID c)) (\<lambda>existing.
        if (case existing of None \<Rightarrow> False | Some e \<Rightarrow> (case reserved of None \<Rightarrow> True
            | Some i \<Rightarrow> eActionID e \<noteq> aiActionID i \<or> eActionBatchID e \<noteq> ibActionBatchID b
                \<or> eOwnerGeneration e \<noteq> rkOwnerGen s))
          then Inl (Fault ''denied batch cannot close an unrelated pending intent'')
        else case reserved of
          Some i \<Rightarrow> (case existing of
              None \<Rightarrow> Inl (Fault ''denied batch lost its reserved intent'')
            | Some e \<Rightarrow> if known \<noteq> None then Inl (Fault ''denied batch pre-known receipt coordinates conflict'')
                else Inr (deniedReceipt b c index (Some i), Some (i, e)))
        | None \<Rightarrow> (case known of
              None \<Rightarrow> Inr (deniedReceipt b c index None, None)
            | Some r \<Rightarrow> if trTranscriptIndex r \<noteq> index
                then Inl (Fault ''denied batch pre-known receipt coordinates conflict'')
                else Inr (r, None))))"

definition resolveDenied :: "commit_host \<Rightarrow> intent_batch \<Rightarrow> action_intent \<Rightarrow> session_entry \<Rightarrow> (run_world, unit) op" where
  "resolveDenied h b i e w =
     (let ref = refFromEntry e (rkSessionID (rcSink w)) in
      bindS (liftR (findReceiptForIntent (rcSink w) ref e)) (\<lambda>receipt.
        resolveExecutionLocked h \<lparr> erRunID = ibRunID b, erActionID = aiActionID i,
          erEvidence = ResolutionNeverDispatched, erEvidenceRef = eID receipt \<rparr> ref e receipt False) w)"

fun closeCalls ::
  "commit_host \<Rightarrow> intent_batch \<Rightarrow> u64 \<Rightarrow> tool_call list \<Rightarrow> (run_world, tool_receipt list) op" where
  "closeCalls h b index [] w = (Inr [], w)"
| "closeCalls h b index (c # cs) w =
     bindS (liftR (deniedCall (rcSink w) b index c)) (\<lambda>p.
     bindS (recordReceiptLocked h (fst p)) (\<lambda>_.
     bindS (case snd p of None \<Rightarrow> okS () | Some (i, e) \<Rightarrow> resolveDenied h b i e) (\<lambda>_ w1.
     bindS (closeCalls h b (index + 1) cs) (\<lambda>rs. okS (fst p # rs)) w1))) w"

definition closeRejectedBatch :: "commit_host \<Rightarrow> intent_batch \<Rightarrow> (run_world, unit) op" where
  "closeRejectedBatch h b w =
     bindS (liftR (openCalls (rcSink w) b)) (\<lambda>p.
     bindS (closeCalls h b (snd p) (fst p)) (\<lambda>closed w.
       if closed = [] then (Inl (Fault ''denied batch had no unreceipted calls''), w)
       else (Inr (), w \<lparr> rcSink := rcSink w \<lparr> rkRejectedBatch :=
              Some \<lparr> rjBatch = b, rjReceipts = closed, rjConsumed = False \<rparr> \<rparr> \<rparr>))) w"

definition TakeRejectedIntentBatch ::
  "call_context \<Rightarrow> intent_batch \<Rightarrow> (run_world, tool_receipt list option) op" where
  "TakeRejectedIntentBatch ctx b =
     bindS (validateCallContext ctx (ibRunID b)) (\<lambda>_ w. case rkRejectedBatch (rcSink w) of
         None \<Rightarrow> (Inr None, w)
       | Some j \<Rightarrow>
           if rjConsumed j then (Inr None, w)
           else if rjBatch j \<noteq> b
             then (Inl (Fault ''rejected-batch lookup does not match its exact captured batch''), w)
           else (Inr (Some (rjReceipts j)),
             w \<lparr> rcSink := rcSink w \<lparr> rkRejectedBatch := Some (j \<lparr> rjConsumed := True \<rparr>) \<rparr> \<rparr>))"

section \<open>The dispatch permit\<close>

text \<open>Two joined errors keep the first one's identity.\<close>

definition publishMarker :: "commit_host \<Rightarrow> intent_batch \<Rightarrow> dispatch_action list \<Rightarrow> (run_world, unit) op" where
  "publishMarker h b actions w =
     (case beginDispatchBatch (chIndex h) \<lparr> dbWorkspaceID = rkWorkspaceID (rcSink w),
          dbSessionID = rkSessionID (rcSink w), dbRunID = ibRunID b, dbActionBatchID = ibActionBatchID b,
          dbActions = actions, dbCanonicalWorkspaceRoot = ibCanonicalWorkspaceRoot b \<rparr> (rcIndex w) of
        ((result, definiteNoIO, err), ix) \<Rightarrow>
          let w1 = w \<lparr> rcIndex := ix \<rparr> in
          (case err of
             Some e \<Rightarrow> (Inl e, if definiteNoIO then snd (closeRejectedBatch h b w1) else w1)
           | None \<Rightarrow>
               if result \<noteq> WorkspaceDispatchCommittedNow
                 then (Inl (Fault ''workspace dispatch marker state does not grant a new dispatch permit''), w1)
               else (Inr (), w1)))"

definition BeginIntentBatch :: "commit_host \<Rightarrow> call_context \<Rightarrow> intent_batch \<Rightarrow> (run_world, unit) op" where
  "BeginIntentBatch h ctx b =
     bindS (validateCallContext ctx (ibRunID b)) (\<lambda>_.
     bindS rejectAfterTerminal (\<lambda>_ w.
       bindS (liftR (decideBatch h (rcIndex w) (rcSink w) (rcTick w) b)) (\<lambda>p.
       bindS (appendAndRefreshRows h (fst p)) (\<lambda>_.
         if snd p = [] then okS () else publishMarker h b (snd p)))
       (w \<lparr> rcTick := rcTick w + Suc (length (ibIntents b)) \<rparr>)))"

section \<open>Operator reconciliation\<close>

definition SyncRecordedResolutions :: "commit_host \<Rightarrow> (run_world, unit) op" where
  "SyncRecordedResolutions h w =
     (if rkClosed (rcSink w) then (Inl (Fault ''run-commit lease is closed''), w)
      else bindS (onStore (onDisk contextErr)) (\<lambda>_ w.
        bindS (liftR (analyzeDurableActionJournal (rkAllRows (rcSink w)) (rkSessionID (rcSink w)))) (\<lambda>plan.
          if rpResolutions plan = [] then okS ()
          else onIndex (ApplyDurableResolutions (chIndex h) (rpResolutions plan))) w) w)"

record reconciliation_request =
  rqAction :: pending_ref
  rqExpectedRevision :: string
  rqReason :: string
  rqReference :: string
  rqAcceptUnknownRisk :: bool

definition requestRecord :: "reconciliation_request \<Rightarrow> operator_reconciliation" where
  "requestRecord q = \<lparr> orReason = trimSpace (rqReason q), orReference = trimSpace (rqReference q),
     orAcceptedUnknownRisk = rqAcceptUnknownRisk q \<rparr>"

definition findOperatorReconciliation ::
  "session_entry list \<Rightarrow> pending_ref \<Rightarrow> string \<Rightarrow> go_error + session_entry option" where
  "findOperatorReconciliation rows ref owner =
     findUnique (\<lambda>e. eRecordVersion e = 1 \<and> eType e = EntryTypeCheckpoint
         \<and> eCheckpointKind e = CheckpointReconciliation \<and> eOwnerGeneration e = owner
         \<and> ref = refFromEntry e (rSessionID ref))
       (Fault ''action has ambiguous operator reconciliation checkpoints'') rows"

text \<open>The reserved, receipted occurrence whose outcome is unknown: its intent and receipt.\<close>

definition unknownOccurrence ::
  "run_sink \<Rightarrow> reconciliation_request \<Rightarrow> go_error + action_occurrence \<times> session_entry \<times> session_entry" where
  "unknownOccurrence s q =
     bindR (validatePendingRef (rqAction q)) (\<lambda>_.
     if rqExpectedRevision q = [] \<or> rqExpectedRevision q \<noteq> svRevision (rkBaseView s)
       then Inl (Fault ''operator reconciliation has a stale or missing session revision'')
     else bindR (validateOperatorReconciliation (requestRecord q)) (\<lambda>_.
     if rSessionID (rqAction q) \<noteq> rkSessionID s \<or> rWorkspaceID (rqAction q) \<noteq> rkWorkspaceID s
       then Inl (Fault ''operator reconciliation action belongs to another session or workspace'')
     else bindR (analyzeDurableActionJournal (rkBranchRows s) (rkSessionID s)) (\<lambda>plan.
     case find (\<lambda>occ. oRef occ = rqAction q) (rpOccurrences plan) of
       None \<Rightarrow> Inl (Fault ''operator reconciliation action is not a reserved, receipted occurrence'')
     | Some occ \<Rightarrow> (case (oIntent occ, oReceipt occ) of
         (Some intent, Some receipt) \<Rightarrow>
           if eDispatchState receipt \<noteq> DispatchStateDispatched \<or> eReceiptOutcome receipt \<noteq> ReceiptOutcomeUnknown
             then Inl (Fault ''operator reconciliation requires the exact dispatched unknown receipt'')
           else Inr (occ, intent, receipt)
       | _ \<Rightarrow> Inl (Fault ''operator reconciliation action is not a reserved, receipted occurrence'')))))"

definition checkRecordedReconciliation ::
  "run_sink \<Rightarrow> reconciliation_request \<Rightarrow> session_entry \<Rightarrow> validated_resolution \<Rightarrow> go_error + unit" where
  "checkRecordedReconciliation s q intent v =
     (if erEvidence (vrResolution v) \<noteq> ResolutionOperatorReconciled
        then Inl (Fault ''action already has a different durable execution resolution'')
      else bindR (findOperatorReconciliation (rkBranchRows s) (rqAction q) (eOwnerGeneration intent)) (\<lambda>m. case m of
          None \<Rightarrow> Inl (Fault ''retry conflicts with the durable operator reconciliation record'')
        | Some c \<Rightarrow>
            if eOperatorReconciliation c \<noteq> Some (requestRecord q) \<or> eID c \<noteq> erEvidenceRef (vrResolution v)
              then Inl (Fault ''retry conflicts with the durable operator reconciliation record'')
            else Inr ()))"

definition reconciliationRow ::
  "commit_host \<Rightarrow> reconciliation_request \<Rightarrow> action_occurrence \<Rightarrow> session_entry \<Rightarrow> go_error + session_entry" where
  "reconciliationRow h q occ intent =
     bindR (stableRunCommitEntryID h ''operator-reconciliation'' (ActionOwnerKey (rqAction q) (eOwnerGeneration intent)))
       (\<lambda>checkpointID. Inr (emptyEntry \<lparr> eID := checkpointID, eType := EntryTypeCheckpoint,
         eRunID := rRunID (rqAction q), eWorkspaceID := rWorkspaceID (rqAction q),
         eActionBatchID := rActionBatchID (rqAction q), eActionID := rActionID (rqAction q),
         eOwnerGeneration := eOwnerGeneration intent, eOrdinal := eOrdinal intent,
         eToolCallID := rToolCallID (rqAction q), eToolName := oToolName occ,
         eCheckpointKind := CheckpointReconciliation, eOperatorReconciliation := Some (requestRecord q) \<rparr>))"

definition reconcileOccurrence ::
  "commit_host \<Rightarrow> reconciliation_request \<Rightarrow> action_occurrence \<Rightarrow> session_entry \<Rightarrow> session_entry \<Rightarrow> (run_world, unit) op" where
  "reconcileOccurrence h q occ intent receipt =
     bindS (onIndex (InspectDispatchMarkers (chIndex h) [rqAction q])) (\<lambda>decisions w.
       if decisions \<noteq> [\<lparr> pdAction = rqAction q, pdMarkerState = DispatchMarkerPresent \<rparr>]
         then (Inl (Fault ''operator reconciliation requires one present, unresolved workspace marker''), w)
       else bindS (liftR (reconciliationRow h q occ intent)) (\<lambda>row.
         bindS (liftR (findOperatorReconciliation (rkBranchRows (rcSink w)) (rqAction q) (eOwnerGeneration intent))) (\<lambda>m.
         bindS (case m of
             Some c \<Rightarrow>
               if eID c \<noteq> eID row \<or> eOperatorReconciliation c \<noteq> Some (requestRecord q)
                 then failS (Fault ''existing operator reconciliation checkpoint conflicts with this request'')
               else okS c
           | None \<Rightarrow> appendCheckpoint h row) (\<lambda>checkpoint.
           resolveExecutionLocked h \<lparr> erRunID = rRunID (rqAction q), erActionID = rActionID (rqAction q),
             erEvidence = ResolutionOperatorReconciled, erEvidenceRef = eID checkpoint \<rparr>
             (rqAction q) intent receipt True))) w)"

definition ReconcileUnknownAction :: "commit_host \<Rightarrow> reconciliation_request \<Rightarrow> (run_world, unit) op" where
  "ReconcileUnknownAction h q w =
     (if rkClosed (rcSink w) then (Inl (Fault ''run-commit lease is closed''), w)
      else bindS (onStore (onDisk contextErr)) (\<lambda>_ w.
        bindS (liftR (unknownOccurrence (rcSink w) q)) (\<lambda>(occ, intent, receipt). case oResolution occ of
            Some v \<Rightarrow> bindS (liftR (checkRecordedReconciliation (rcSink w) q intent v)) (\<lambda>_.
              onIndex (ApplyDurableResolutions (chIndex h) [v]))
          | None \<Rightarrow>
              if list_ex (\<lambda>x. case eExecutionIdentity x of None \<Rightarrow> False
                   | Some i \<Rightarrow> piStatus (chInspect h i) = ProcessGroupExitPresent) (oExecutions occ)
                then failS (Fault ''operator reconciliation is blocked while the process group is present'')
              else reconcileOccurrence h q occ intent receipt) w) w)"

end
