(* ===== verification/RunCommitFacts.thy ===== *)
theory RunCommitFacts
  imports SessionJournal RunCommitBatch RecoveryAuthority
begin

text \<open>
  The sink against the session it writes to: its copy of the rows is always the session's
  (\<open>synced\<close>), and every operation only adds rows to the session file and to the workspace
  index (\<open>progress\<close>). \<open>commits h n m\<close> says so of an operation that adds at most \<open>n\<close> rows;
  the rules for it follow the way the operations are built.
\<close>

section \<open>Snapshots of the session\<close>

definition snapshotOf :: "durable_store \<Rightarrow> session_entry list \<Rightarrow> prepared_snapshot" where
  "snapshotOf s rows = \<lparr> psSessionID = dsSessionID s, psSessionLabel = dsSessionLabel s,
     psDurableEntries = rows, psActiveBranchID = dsActiveBranchID s,
     psActiveLeafEntryID = dsActiveLeafID s, psMaxSeq = dsMaxSeq s, psPublishedView = dsView s \<rparr>"

lemma noteSnapshot_total:
  assumes "\<forall>e \<in> set rows. eID e \<noteq> [] \<and> (eRecordVersion e = 1 \<longrightarrow> eSeq e \<noteq> 0) \<and> eSeq e \<le> m" "distinct (map eID rows)"
  shows "\<exists>n \<le> m. foldR noteSnapshotRow ([], 0) rows = Inr (rev (map eID rows), n)"
  using assms
proof (induction rows rule: rev_induct)
  case (snoc e rows)
  then obtain n where n: "n \<le> m" "foldR noteSnapshotRow ([], 0) rows = Inr (rev (map eID rows), n)" by auto
  then have "foldR noteSnapshotRow ([], 0) (rows @ [e])
      = Inr (rev (map eID (rows @ [e])), if n < eSeq e then eSeq e else n)"
    using snoc.prems by (simp add: foldR_snoc noteSnapshotRow_def)
  with n snoc.prems show ?case by (intro exI [of _ "if n < eSeq e then eSeq e else n"]) simp
qed simp

lemma noteSnapshot_ids:
  assumes "foldR noteSnapshotRow ([], 0) rows = Inr s"
  shows "\<forall>e \<in> set rows. eID e \<noteq> []"
  by (rule foldR_prefix_invariant [where I = "\<lambda>rows s. \<forall>e \<in> set rows. eID e \<noteq> []", OF assms])
    (auto simp: noteSnapshotRow_def split: if_splits)

lemma validateSnapshot_ids:
  assumes "validateRunCommitSnapshot (snapshotOf s rows) = Inr p"
  shows "\<forall>e \<in> set rows. eID e \<noteq> []" "fst p = rows"
  using assms noteSnapshot_ids
  by (auto simp: validateRunCommitSnapshot_def snapshotOf_def Let_def bindR_eq_Inr split: if_splits)

text \<open>A session with rows and a leaf on a path passes the snapshot check.\<close>

lemma validateSnapshot_total:
  assumes M: "memoryOf h s rows ls" and ids: "\<forall>e \<in> set rows. eID e \<noteq> []"
    and br: "orderedDurableBranch (dsActiveLeafID s) (tableOf rows) = Inr br" "dsActiveLeafID s \<noteq> []"
  shows "validateRunCommitSnapshot (snapshotOf s rows) = Inr (rows, br)"
proof -
  from M have load: "loadRows h (dsSessionID s) rows = Inr ls" and mx: "dsMaxSeq s = lsMaxSeq ls"
    by (simp_all add: memoryOf_def accepted_iff)
  note L = loadRows_inv [OF load, unfolded loadInv_def]
  from L ids mx obtain n where n: "n \<le> dsMaxSeq s" "foldR noteSnapshotRow ([], 0) rows = Inr (rev (map eID rows), n)"
    using noteSnapshot_total [of rows "dsMaxSeq s"] by auto
  have "br \<noteq> []" using br by (auto simp: orderedDurableBranch_iff elim: rootPath_step_cases)
  with n br show ?thesis
    by (simp add: validateRunCommitSnapshot_def snapshotOf_def not_less [symmetric])
qed

section \<open>The sink's copy of the session\<close>

definition synced :: "commit_host \<Rightarrow> run_world \<Rightarrow> session_entry list \<Rightarrow> bool" where
  "synced h w rows \<longleftrightarrow> storedRows (chSession h) (rcDisk w, rcStore w) rows
     \<and> rkAllRows (rcSink w) = rows \<and> rkSessionID (rcSink w) = dsSessionID (rcStore w)
     \<and> rkBranchID (rcSink w) = dsActiveBranchID (rcStore w) \<and> dsActiveBranchID (rcStore w) \<noteq> []
     \<and> rkLeafID (rcSink w) = dsActiveLeafID (rcStore w)
     \<and> validateRunCommitSnapshot (snapshotOf (rcStore w) rows) = Inr (rows, rkBranchRows (rcSink w))
     \<and> (\<exists>plan. analyzeDurableActionJournal rows (dsSessionID (rcStore w)) = Inr plan)"

text \<open>What of the sink stays for good: its bindings, the run once bound, the terminal once written.\<close>

definition sinkKept :: "run_sink \<Rightarrow> run_sink \<Rightarrow> bool" where
  "sinkKept s s' \<longleftrightarrow> rkSessionID s' = rkSessionID s \<and> rkWorkspaceID s' = rkWorkspaceID s
     \<and> rkBranchID s' = rkBranchID s \<and> rkBaseView s' = rkBaseView s
     \<and> rkClosed s' = rkClosed s \<and> rkReleases s' = rkReleases s
     \<and> (rkRunID s \<noteq> [] \<longrightarrow> rkRunID s' = rkRunID s \<and> rkOwnerGen s' = rkOwnerGen s)
     \<and> (rkTerminalID s \<noteq> [] \<longrightarrow> rkTerminalID s' = rkTerminalID s)"

lemma sinkKept_refl [simp]: "sinkKept s s"
  by (simp add: sinkKept_def)

lemma sinkKept_trans: "sinkKept a b \<Longrightarrow> sinkKept b c \<Longrightarrow> sinkKept a c"
  by (auto simp: sinkKept_def)

definition seqLeft :: "run_world \<Rightarrow> nat \<Rightarrow> bool" where
  "seqLeft w n \<longleftrightarrow> unat (dsMaxSeq (rcStore w)) + n < 2 ^ 64"

text \<open>
  From \<open>w\<close> to \<open>w'\<close> the rows \<open>new\<close> were written: the sink is in step with the session, and unless
  a write has failed and poisoned the session its file has grown by their lines. A terminal
  checkpoint the sink has taken over is a row of the session.
\<close>

definition progress :: "commit_host \<Rightarrow> run_world \<Rightarrow> run_world \<Rightarrow> session_entry list \<Rightarrow> session_entry list \<Rightarrow> bool" where
  "progress h w w' rows new \<longleftrightarrow> synced h w' (rows @ new)
     \<and> unat (dsMaxSeq (rcStore w')) = unat (dsMaxSeq (rcStore w)) + length new
     \<and> dsName (rcStore w') = dsName (rcStore w)
     \<and> (dsPoisoned (rcStore w) \<longrightarrow> dsPoisoned (rcStore w'))
     \<and> (\<not> dsPoisoned (rcStore w') \<longrightarrow> fileBytes (rcDisk w') (dsName (rcStore w))
          = fileBytes (rcDisk w) (dsName (rcStore w)) @ concat (map (rowLine (chSession h)) new))
     \<and> sinkKept (rcSink w) (rcSink w') \<and> filesGrow (rcIndex w) (rcIndex w')
     \<and> (rkTerminalID (rcSink w') \<noteq> rkTerminalID (rcSink w) \<longrightarrow> rkTerminalID (rcSink w') \<in> eID ` set (rows @ new))"

lemma progress_refl [simp]: "progress h w w rows [] = synced h w rows"
  by (auto simp: progress_def)

lemma progress_trans:
  assumes "progress h w w1 rows new" "progress h w1 w2 (rows @ new) extra"
  shows "progress h w w2 rows (new @ extra)"
proof -
  note A = assms(1) [unfolded progress_def] and B = assms(2) [unfolded progress_def]
  have "sinkKept (rcSink w) (rcSink w2)" "filesGrow (rcIndex w) (rcIndex w2)"
    using A B sinkKept_trans filesGrow_trans by metis+
  moreover have "synced h w2 (rows @ new @ extra)" using B by simp
  moreover have "rkTerminalID (rcSink w2) \<noteq> rkTerminalID (rcSink w) \<longrightarrow> rkTerminalID (rcSink w2) \<in> eID ` set (rows @ new @ extra)"
    using A B by (cases "rkTerminalID (rcSink w2) = rkTerminalID (rcSink w1)") auto
  ultimately show ?thesis unfolding progress_def using A B by (simp, blast)
qed

lemma progress_synced: "progress h w w' rows new \<Longrightarrow> synced h w' (rows @ new)"
  by (simp add: progress_def)

lemma progress_room: "progress h w w' rows new \<Longrightarrow> seqLeft w (length new + n) \<Longrightarrow> seqLeft w' n"
  by (simp add: progress_def seqLeft_def)

section \<open>Operations that add at most some rows\<close>

definition commits :: "commit_host \<Rightarrow> nat \<Rightarrow> (run_world, 'a) op \<Rightarrow> bool" where
  "commits h n m \<longleftrightarrow> (\<forall>w rows r w'. synced h w rows \<longrightarrow> seqLeft w n \<longrightarrow> m w = (r, w')
     \<longrightarrow> (\<exists>new. length new \<le> n \<and> progress h w w' rows new))"

lemma commitsD:
  assumes "commits h n m" "synced h w rows" "seqLeft w n" "m w = (r, w')"
  obtains new where "length new \<le> n" "progress h w w' rows new"
  using assms unfolding commits_def by blast

lemma commits_weaken: "commits h n m \<Longrightarrow> n \<le> k \<Longrightarrow> commits h k m"
  unfolding commits_def seqLeft_def by (meson add_le_cancel_left le_trans order_le_less_trans)

lemma commits_bind:
  assumes "commits h n m" "\<And>x. commits h k (f x)"
  shows "commits h (n + k) (bindS m f)"
  unfolding commits_def
proof (intro allI impI)
  fix w rows r w' assume s: "synced h w rows" and room: "seqLeft w (n + k)" and run: "bindS m f w = (r, w')"
  obtain r1 w1 where 1: "m w = (r1, w1)" by force
  have rn: "seqLeft w n" using room by (simp add: seqLeft_def)
  obtain new where new: "length new \<le> n" "progress h w w1 rows new" by (rule commitsD [OF assms(1) s rn 1])
  show "\<exists>new. length new \<le> n + k \<and> progress h w w' rows new"
  proof (cases r1)
    case (Inl e)
    with run 1 new show ?thesis by (intro exI [of _ new]) (simp add: bindS_def)
  next
    case (Inr x)
    with run 1 have 2: "f x w1 = (r, w')" by (simp add: bindS_def)
    have "seqLeft w (length new + k)" using room new(1) by (simp add: seqLeft_def)
    then obtain extra where extra: "length extra \<le> k" "progress h w1 w' (rows @ new) extra"
      using commitsD [OF assms(2) progress_synced [OF new(2)] progress_room [OF new(2)] 2] by blast
    with new progress_trans [OF new(2)] show ?thesis by (intro exI [of _ "new @ extra"]) simp
  qed
qed

lemma commits_silent: "(\<And>w. snd (m w) = w) \<Longrightarrow> commits h n m"
  unfolding commits_def by (metis le0 list.size(3) progress_refl snd_conv)

lemma commits_basic [journal_intro]:
  "commits h n (okS x)" "commits h n (failS e)" "commits h n (liftR r)" "commits h n rejectAfterTerminal"
  by (rule commits_silent; simp add: rejectAfterTerminal_def)+

text \<open>The operation may look at the state it starts in.\<close>

lemma commits_read: "(\<And>v. commits h n (g v)) \<Longrightarrow> commits h n (\<lambda>w. g w w)"
  unfolding commits_def by blast

lemma commits_same: "commits h n m \<Longrightarrow> commits h n (\<lambda>w. m w)"
  by simp

section \<open>Writing rows\<close>

lemma contextErr_disk: "onDisk contextErr (d, p) = (r, (d', p')) \<Longrightarrow> sameFiles d d' \<and> p' = p"
  using contextErr_files [of d] by (auto simp: onDisk_def split: prod.splits)

lemma progress_disk:
  assumes "synced h w rows" "sameFiles (rcDisk w) d"
  shows "progress h w (w \<lparr> rcDisk := d \<rparr>) rows []"
  using assms by (simp add: progress_def synced_def storedRows_def sameFiles_bytes)

lemma progress_tick: "synced h w rows \<Longrightarrow> progress h w (w \<lparr> rcTick := n \<rparr>) rows []"
  by (simp add: progress_def synced_def)

lemma commits_context [journal_intro]: "commits h n (onStore (onDisk contextErr))"
  unfolding commits_def
proof (intro allI impI)
  fix w rows r w' assume s: "synced h w rows" and run: "onStore (onDisk contextErr) w = (r, w')"
  obtain r1 d p where c: "onDisk contextErr (rcDisk w, rcStore w) = (r1, (d, p))" by (rule prod_cases3)
  note d = contextErr_disk [OF c]
  with run c have "w' = w \<lparr> rcDisk := d \<rparr>" by (simp add: onStore_def)
  with progress_disk [OF s conjunct1 [OF d]] show "\<exists>new. length new \<le> n \<and> progress h w w' rows new"
    by (intro exI [of _ "[]"]) simp
qed

lemma commits_time [journal_intro]: "commits h n (timeNow k)"
  unfolding commits_def timeNow_def using progress_tick by (metis le0 list.size(3) prod.inject)

text \<open>A refresh finds the session as it is.\<close>

lemma refreshSink_total:
  assumes M: "memoryOf (chSession h) (rcStore w) rows ls" and opn: "\<not> dsClosed (rcStore w)" "\<not> dsPoisoned (rcStore w)"
    and ids: "rkSessionID (rcSink w) = dsSessionID (rcStore w)" "rkBranchID (rcSink w) = dsActiveBranchID (rcStore w)"
    and v: "validateRunCommitSnapshot (snapshotOf (rcStore w) rows) = Inr (rows, br)"
    and plan: "analyzeDurableActionJournal rows (dsSessionID (rcStore w)) = Inr plan"
  shows "refreshSink w = (Inr (), w \<lparr> rcSink := rcSink w \<lparr> rkAllRows := rows, rkBranchRows := br,
      rkLeafID := dsActiveLeafID (rcStore w) \<rparr> \<rparr>)"
  using snapshot_memory [OF M opn] v plan ids
  by (simp add: refreshSink_def snapshotOf_def)

lemma stampRows_Inr:
  assumes "stampRows h s tick parent ins = Inr p"
  shows "map eID (fst p) = map eID ins" "\<forall>e \<in> set (fst p). eBranchID e = rkBranchID s \<and> eID e \<noteq> []"
  using assms by (induction ins arbitrary: tick parent p) (auto simp: bindR_eq_Inr split: if_splits)

lemma foldl_constant: "\<forall>r \<in> set xs. f r = c \<Longrightarrow> foldl (\<lambda>_ r. f r) b xs = (if xs = [] then b else c)"
  by (induction xs arbitrary: b) auto

lemma leaf_nonempty: "\<forall>r \<in> set xs. eID r \<noteq> [] \<Longrightarrow> xs \<noteq> [] \<Longrightarrow> foldl nextLeaf b xs \<noteq> []"
  by (induction xs rule: rev_induct) (auto simp: nextLeaf_def)

text \<open>Rows the session has taken: the session after them passes the check of a refresh.\<close>

lemma synced_append:
  assumes s: "synced h w rows" and J: "journalAppend (chSession h) rows ins canon (rcDisk w, rcStore w) (d', p') new"
    and ins: "\<forall>e \<in> set ins. eBranchID e = rkBranchID (rcSink w) \<and> eID e \<noteq> []"
  shows "\<exists>br. validateRunCommitSnapshot (snapshotOf p' (rows @ new)) = Inr (rows @ new, br)
    \<and> dsSessionID p' = dsSessionID (rcStore w) \<and> dsActiveBranchID p' = rkBranchID (rcSink w)
    \<and> dsName p' = dsName (rcStore w)
    \<and> (\<exists>plan. analyzeDurableActionJournal (rows @ new) (dsSessionID p') = Inr plan)
    \<and> (new = [] \<longrightarrow> br = rkBranchRows (rcSink w))"
proof (cases "new = []")
  case True
  with J have "p' = rcStore w" by (simp add: journalAppend_def)
  with s True show ?thesis by (auto simp: synced_def)
next
  case False
  with J obtain g a where av: "agAvailable g = tableOf (rows @ new)" and a: "agNewRows g = new" "decideAppend (chSession h) (rcStore w) g = Inr a"
    "p' = installAppend a (rcStore w)" by (auto simp: journalAppend_def)
  note D = decideAppend_Inr [OF a(2)]
  obtain ls where M: "memoryOf (chSession h) (rcStore w) rows ls" using s by (auto simp: synced_def storedRows_def)
  obtain ls' where M': "memoryOf (chSession h) p' (rows @ new) ls'" using J by (auto simp: journalAppend_def storedRows_def)
  have branches: "\<forall>r \<in> set new. eBranchID r = rkBranchID (rcSink w) \<and> eID r \<noteq> []"
  proof
    fix r assume "r \<in> set new"
    moreover have "\<forall>r \<in> set new. \<exists>e \<in> set ins. completionOf (chSession h) (rcStore w) e r"
      using J by (simp add: journalAppend_def completedBy_def)
    ultimately obtain e where e: "e \<in> set ins" "completionOf (chSession h) (rcStore w) e r" by blast
    have "rkBranchID (rcSink w) \<noteq> []" using s by (simp add: synced_def)
    with completionOf_fields(5) [OF e(2)] completionOf_fields(1) [OF e(2)] ins e(1)
    show "eBranchID r = rkBranchID (rcSink w) \<and> eID r \<noteq> []" by auto
  qed
  have leaf: "dsActiveLeafID p' = foldl nextLeaf (dsActiveLeafID (rcStore w)) new" "dsActiveBranchID p' = rkBranchID (rcSink w)"
    using D(2,3) foldl_constant [of new eBranchID "rkBranchID (rcSink w)"] branches False
    by (simp_all add: a(1,3) installAppend_def)
  have tab: "dsEntries p' = tableOf (rows @ new)" "dsEntries (rcStore w) = tableOf rows"
    using M M' by (simp_all add: memoryOf_def)
  have fields: "dsSessionID p' = dsSessionID (rcStore w)" "dsName p' = dsName (rcStore w)"
    by (simp_all add: a(3) installAppend_def)
  from a(2) obtain plan br where plan: "analyzeDurableActionJournal (entriesInSequence (dsEntries (rcStore w)) @ new) (dsSessionID (rcStore w)) = Inr plan"
    and br: "orderedDurableBranch (foldl nextLeaf (dsActiveLeafID (rcStore w)) new) (agAvailable g) = Inr br"
    by (auto simp: decideAppend_def Let_def bindR_eq_Inr a(1))
  have ids: "\<forall>e \<in> set (rows @ new). eID e \<noteq> []"
    using branches s validateSnapshot_ids(1) [of "rcStore w" rows] by (auto simp: synced_def)
  have "validateRunCommitSnapshot (snapshotOf p' (rows @ new)) = Inr (rows @ new, br)"
    using validateSnapshot_total [OF M' ids] br leaf_nonempty [of new] branches False by (simp add: leaf(1) av)
  with plan fields leaf(2) False show ?thesis by (simp add: memoryOf_sequence [OF M])
qed

definition refreshed :: "run_sink \<Rightarrow> run_sink \<Rightarrow> bool" where
  "refreshed s s' \<longleftrightarrow> (\<exists>a b l. s' = s \<lparr> rkAllRows := a, rkBranchRows := b, rkLeafID := l \<rparr>)"

lemma refreshed_refl [simp]: "refreshed s s"
  unfolding refreshed_def
  by (intro exI [of _ "rkAllRows s"] exI [of _ "rkBranchRows s"] exI [of _ "rkLeafID s"]) simp

lemma refreshed_fields:
  assumes "refreshed s s'"
  shows "rkSessionID s' = rkSessionID s" "rkWorkspaceID s' = rkWorkspaceID s" "rkBranchID s' = rkBranchID s"
    "rkBaseView s' = rkBaseView s" "rkRunID s' = rkRunID s" "rkOwnerGen s' = rkOwnerGen s"
    "rkTerminalID s' = rkTerminalID s" "rkReleases s' = rkReleases s" "rkClosed s' = rkClosed s"
    "rkRejectedBatch s' = rkRejectedBatch s"
  using assms by (auto simp: refreshed_def)

text \<open>What a successful write has done; the inputs were stamped as a chain below the leaf.\<close>

definition landed ::
  "commit_host \<Rightarrow> run_world \<Rightarrow> session_entry list \<Rightarrow> session_entry list \<Rightarrow> session_entry list \<Rightarrow> run_world
     \<Rightarrow> session_entry list \<Rightarrow> bool" where
  "landed h w rows ins canon w' new \<longleftrightarrow> (\<exists>p. stampRows h (rcSink w) (rcTick w) (rkLeafID (rcSink w)) ins = Inr p
     \<and> journalAppend (chSession h) rows (fst p) canon (rcDisk w, rcStore w) (rcDisk w', rcStore w') new)"

lemma appendAndRefreshRows_run:
  assumes s: "synced h w rows" and room: "seqLeft w (length ins)" and run: "appendAndRefreshRows h ins w = (r, w')"
  shows "\<exists>new. length new \<le> length ins \<and> progress h w w' rows new
    \<and> rcIndex w' = rcIndex w \<and> refreshed (rcSink w) (rcSink w')
    \<and> (\<forall>err. r = Inl err \<longrightarrow> new = [])
    \<and> (\<forall>canon. r = Inr canon \<and> ins \<noteq> [] \<longrightarrow> landed h w rows ins canon w' new)"
proof -
  have idle: ?thesis if "w' = w" "\<exists>e. r = Inl e \<or> ins = []"
    using s that by (intro exI [of _ "[]"]) auto
  consider (none) "ins = []" | (bad) e where "ins \<noteq> []" "stampRows h (rcSink w) (rcTick w) (rkLeafID (rcSink w)) ins = Inl e"
    | (go) p where "ins \<noteq> []" "stampRows h (rcSink w) (rcTick w) (rkLeafID (rcSink w)) ins = Inr p"
    by (cases "stampRows h (rcSink w) (rcTick w) (rkLeafID (rcSink w)) ins") auto
  then show ?thesis
  proof cases
    case none
    with run idle show ?thesis by (simp add: appendAndRefreshRows_def)
  next
    case (bad e)
    with run have "w' = w" "r = Inl e" by (simp_all add: appendAndRefreshRows_def)
    then show ?thesis by (intro idle) auto
  next
    case (go p)
    note st = stampRows_Inr [OF go(2)]
    have len: "length (fst p) = length ins" using arg_cong [OF st(1), of length] by simp
    obtain ra d q where ap: "AppendAndSync (chSession h) (fst p) (rcDisk w, rcStore w) = (ra, (d, q))" by (rule prod_cases3)
    have S: "storedRows (chSession h) (rcDisk w, rcStore w) rows" using s by (simp add: synced_def)
    define w1 where "w1 = w \<lparr> rcTick := snd p, rcDisk := d, rcStore := q \<rparr>"
    have w1: "(case ra of Inl e \<Rightarrow> (Inl e, w1) | Inr canon \<Rightarrow> bindS refreshSink (\<lambda>_. okS canon) w1) = (r, w')"
      using run go ap by (cases ra) (auto simp: appendAndRefreshRows_def bindS_def [of "onStore _"] onStore_def w1_def)
    show ?thesis
    proof (cases ra)
      case (Inl e)
      with w1 have w': "w' = w1" "r = Inl e" by simp_all
      from append_refusal [OF ap [unfolded Inl]] have q: "q = rcStore w \<and> sameFiles (rcDisk w) d \<or> q = rcStore w \<lparr> dsPoisoned := True \<rparr>"
        by simp
      have "progress h w w' rows []"
        using s q by (auto simp: w'(1) w1_def progress_def synced_def storedRows_def sameFiles_bytes snapshotOf_def)
      with w' show ?thesis by (intro exI [of _ "[]"]) (simp add: w1_def)
    next
      case (Inr canon)
      have "seqRoom (rcDisk w, rcStore w) (length (fst p))" using room by (simp add: seqRoom_def seqLeft_def len)
      from append_journal [OF S this ap [unfolded Inr]] obtain new where
        J: "journalAppend (chSession h) rows (fst p) canon (rcDisk w, rcStore w) (d, q) new" by blast
      from synced_append [OF s J st(2)] obtain br plan where
        B: "validateRunCommitSnapshot (snapshotOf q (rows @ new)) = Inr (rows @ new, br)"
        "dsSessionID q = dsSessionID (rcStore w)" "dsActiveBranchID q = rkBranchID (rcSink w)" "dsName q = dsName (rcStore w)"
        "analyzeDurableActionJournal (rows @ new) (dsSessionID q) = Inr plan" by blast
      from J obtain ls where M: "memoryOf (chSession h) q (rows @ new) ls" and opn: "\<not> dsClosed q" "\<not> dsPoisoned q"
        by (auto simp: journalAppend_def storedRows_def)
      have ids: "rkSessionID (rcSink w) = dsSessionID q" "rkBranchID (rcSink w) \<noteq> []" using s B(2) by (simp_all add: synced_def)
      have ref: "refreshSink w1 = (Inr (), w1 \<lparr> rcSink := rcSink w \<lparr> rkAllRows := rows @ new, rkBranchRows := br,
          rkLeafID := dsActiveLeafID q \<rparr> \<rparr>)"
        using refreshSink_total [of h w1 "rows @ new" ls br plan] M opn ids B by (simp add: w1_def)
      with w1 Inr have w': "w' = w1 \<lparr> rcSink := rcSink w \<lparr> rkAllRows := rows @ new, rkBranchRows := br,
          rkLeafID := dsActiveLeafID q \<rparr> \<rparr>" "r = Inr canon" by (simp_all add: bindS_def)
      have sy: "synced h w' (rows @ new)"
        using M ids B by (auto simp: synced_def storedRows_def w'(1) w1_def)
      have seq: "unat (dsMaxSeq q) = unat (dsMaxSeq (rcStore w)) + length new"
        and bytes: "fileBytes d (dsName (rcStore w)) = fileBytes (rcDisk w) (dsName (rcStore w)) @ concat (map (rowLine (chSession h)) new)"
        and pois: "\<not> dsPoisoned (rcStore w)" and short: "length new \<le> length ins"
        using J len by (simp_all add: journalAppend_def)
      have pr: "progress h w w' rows new"
        unfolding progress_def using sy seq bytes pois B(4) by (simp add: w'(1) w1_def sinkKept_def)
      have la: "landed h w rows ins canon w' new"
        unfolding landed_def using go(2) J by (intro exI [of _ p]) (simp add: w'(1) w1_def)
      show ?thesis
        using short pr la w'(2) by (intro exI [of _ new]) (auto simp: w'(1) w1_def refreshed_def)
    qed
  qed
qed

lemma commits_append [journal_intro]: "length ins \<le> n \<Longrightarrow> commits h n (appendAndRefreshRows h ins)"
  unfolding commits_def
proof (intro allI impI)
  fix w rows r w' assume a: "length ins \<le> n" "synced h w rows" "seqLeft w n" "appendAndRefreshRows h ins w = (r, w')"
  then have "seqLeft w (length ins)" by (simp add: seqLeft_def)
  from appendAndRefreshRows_run [OF a(2) this a(4)] a(1)
  show "\<exists>new. length new \<le> n \<and> progress h w w' rows new" using le_trans by blast
qed

section \<open>The rows a write leaves\<close>

lemma branch_rows:
  assumes "synced h w rows"
  shows "set (rkBranchRows (rcSink w)) \<subseteq> set rows"
proof -
  have v: "validateRunCommitSnapshot (snapshotOf (rcStore w) rows) = Inr (rows, rkBranchRows (rcSink w))"
    using assms by (simp add: synced_def)
  show ?thesis
  proof (cases "rkBranchRows (rcSink w) = []")
    case False
    with v have "orderedDurableBranch (dsActiveLeafID (rcStore w)) (tableOf rows) = Inr (rkBranchRows (rcSink w))"
      by (auto simp: validateRunCommitSnapshot_def snapshotOf_def Let_def bindR_eq_Inr split: if_splits)
    then have path: "rootPath (tableOf rows) (dsActiveLeafID (rcStore w)) (rkBranchRows (rcSink w))"
      by (simp add: orderedDurableBranch_iff)
    show ?thesis using rootPath_mem [OF path] tableOf_SomeD by blast
  qed simp
qed

lemma synced_distinct:
  assumes "synced h w rows"
  shows "distinct (map eID rows)"
proof -
  from assms obtain ls where "loadRows (chSession h) (dsSessionID (rcStore w)) rows = Inr ls"
    by (auto simp: synced_def storedRows_def memoryOf_def accepted_iff)
  from loadRows_inv [OF this] show ?thesis by (simp add: loadInv_def)
qed

text \<open>A stamped row is its input with the version, the session, the branch, a parent and a time.\<close>

definition stampOf :: "run_sink \<Rightarrow> session_entry \<Rightarrow> session_entry \<Rightarrow> bool" where
  "stampOf s e x \<longleftrightarrow> (\<exists>parent t. x = e \<lparr> eRecordVersion := 1, eSessionID := rkSessionID s, eBranchID := rkBranchID s,
     eParentID := parent, eTimestamp := t \<rparr> \<and> (eTimestamp e \<noteq> 0 \<longrightarrow> t = eTimestamp e))"

lemma stampRows_stampOf:
  "stampRows h s tick parent ins = Inr p \<Longrightarrow> list_all2 (stampOf s) ins (fst p)"
proof (induction ins arbitrary: tick parent p)
  case (Cons e es)
  from Cons.prems obtain q where q: "stampRows h s (if eTimestamp e = 0 then Suc tick else tick) (eID e) es = Inr q"
    "fst p = e \<lparr> eRecordVersion := 1, eSessionID := rkSessionID s, eBranchID := rkBranchID s,
               eParentID := parent, eTimestamp := (if eTimestamp e = 0 then chClock h tick else eTimestamp e) \<rparr> # fst q"
    by (auto simp: bindR_eq_Inr split: if_splits)
  from Cons.IH [OF q(1)] show ?case unfolding q(2) by (auto simp: stampOf_def)
qed simp

text \<open>A row of the session that comes from an input of a write differs from it only in these fields.\<close>

definition writtenFrom :: "run_sink \<Rightarrow> session_entry \<Rightarrow> session_entry \<Rightarrow> bool" where
  "writtenFrom s e r \<longleftrightarrow> (\<exists>session label parent t n digest. r = e \<lparr> eRecordVersion := 1, eSessionID := session,
     eSessionLabel := label, eBranchID := rkBranchID s, eParentID := parent, eTimestamp := t, eSeq := n,
     ePayloadDigest := digest \<rparr>)"

lemma stamped_written:
  assumes "stampOf s e x" "completionOf h d x r" "rkBranchID s \<noteq> []"
  shows "writtenFrom s e r"
proof -
  obtain parent t where x: "x = e \<lparr> eRecordVersion := 1, eSessionID := rkSessionID s, eBranchID := rkBranchID s,
     eParentID := parent, eTimestamp := t \<rparr>" using assms(1) by (auto simp: stampOf_def)
  obtain label branch n digest where r: "r = x \<lparr> eSessionID := dsSessionID d, eSessionLabel := label, eBranchID := branch,
       eRecordVersion := 1, eSeq := n, ePayloadDigest := digest \<rparr>" "eBranchID x \<noteq> [] \<longrightarrow> branch = eBranchID x"
    using completionOf_fields(5) [OF assms(2)] by blast
  have "branch = rkBranchID s" using r(2) assms(3) by (simp add: x)
  then have "r = e \<lparr> eRecordVersion := 1, eSessionID := dsSessionID d, eSessionLabel := label, eBranchID := rkBranchID s,
     eParentID := parent, eTimestamp := t, eSeq := n, ePayloadDigest := digest \<rparr>"
    unfolding r(1) x by simp
  then show ?thesis unfolding writtenFrom_def by blast
qed

lemma landed_from:
  assumes "landed h w rows ins canon w' new" "r \<in> set new" "synced h w rows"
  shows "\<exists>e \<in> set ins. writtenFrom (rcSink w) e r"
proof -
  from assms(1) obtain p where p: "stampRows h (rcSink w) (rcTick w) (rkLeafID (rcSink w)) ins = Inr p"
    "\<forall>r \<in> set new. \<exists>x \<in> set (fst p). completedBy (chSession h) (rcDisk w, rcStore w) x r"
    unfolding landed_def journalAppend_def by blast
  with assms(2) obtain x where x: "x \<in> set (fst p)" "completionOf (chSession h) (rcStore w) x r"
    by (auto simp: completedBy_def)
  obtain e where e: "e \<in> set ins" "stampOf (rcSink w) e x"
    using stampRows_stampOf [OF p(1)] x(1) unfolding list_all2_conv_all_nth in_set_conv_nth by metis
  have "rkBranchID (rcSink w) \<noteq> []" using assms(3) by (simp add: synced_def)
  with stamped_written [OF e(2) x(2)] e(1) show ?thesis by blast
qed

lemma landed_stands:
  assumes "landed h w rows ins canon w' new" "e \<in> set ins"
  shows "\<exists>x. stampOf (rcSink w) e x \<and> (\<exists>r \<in> set (rows @ new). standsFor (chSession h) (rcDisk w, rcStore w) x r)"
proof -
  from assms(1) obtain p where p: "stampRows h (rcSink w) (rcTick w) (rkLeafID (rcSink w)) ins = Inr p"
    "\<forall>x \<in> set (fst p). \<exists>r \<in> set (rows @ new). standsFor (chSession h) (rcDisk w, rcStore w) x r"
    unfolding landed_def journalAppend_def by blast
  obtain x where "x \<in> set (fst p)" "stampOf (rcSink w) e x"
    using stampRows_stampOf [OF p(1)] assms(2) unfolding list_all2_conv_all_nth in_set_conv_nth by metis
  with p(2) show ?thesis by blast
qed

text \<open>An input whose ID is new to the session and to the other inputs becomes a row.\<close>

lemma landed_fresh:
  assumes L: "landed h w rows ins canon w' new" and s: "synced h w rows"
    and e: "e \<in> set ins" "eID e \<notin> eID ` set rows" "\<And>e'. e' \<in> set ins \<Longrightarrow> eID e' = eID e \<Longrightarrow> e' = e"
  shows "\<exists>r \<in> set new. writtenFrom (rcSink w) e r"
proof -
  from landed_stands [OF L e(1)] obtain x r where x: "stampOf (rcSink w) e x" "r \<in> set (rows @ new)" "eID r = eID x"
    by (auto simp: standsFor_def)
  have id: "eID r = eID e" using x(1,3) by (auto simp: stampOf_def)
  with e(2) x(2) have "r \<in> set new" by (metis UnE imageI set_append)
  with landed_from [OF L _ s] obtain e' where "e' \<in> set ins" "writtenFrom (rcSink w) e' r" by blast
  moreover from this(2) id have "eID e' = eID e" by (auto simp: writtenFrom_def)
  ultimately show ?thesis using e(3) \<open>r \<in> set new\<close> by blast
qed

end
