(* ===== verification/RunCommitSteps.thy ===== *)
theory RunCommitSteps
  imports RunCommitFacts
begin

text \<open>
  Every operation of the run commit sink keeps the sink in step with the session and adds at
  most a known number of rows to it.
\<close>

section \<open>Rules\<close>

lemma commits_then: "commits h 0 m \<Longrightarrow> (\<And>x. commits h n (f x)) \<Longrightarrow> commits h n (bindS m f)"
  using commits_bind [of h 0 m n f] by simp

lemma commits_first: "commits h n m \<Longrightarrow> (\<And>x. commits h 0 (f x)) \<Longrightarrow> commits h n (bindS m f)"
  using commits_bind [of h n m 0 f] by simp

text \<open>A decision taken on the state, and an operation on the state as it is.\<close>

lemma commits_decide:
  "(\<And>v x. F v = Inr x \<Longrightarrow> commits h n (f v x)) \<Longrightarrow> commits h n (\<lambda>w. bindS (liftR (F w)) (f w) w)"
  unfolding commits_def by (auto simp: bindS_def split: sum.splits) (metis le0 list.size(3) progress_refl)

lemma commits_index [journal_intro]: "keepsS filesGrow m \<Longrightarrow> commits h n (onIndex m)"
  unfolding commits_def
proof (intro allI impI)
  fix w rows r w' assume g: "keepsS filesGrow m" and s: "synced h w rows" and run: "onIndex m w = (r, w')"
  obtain r1 x where m: "m (rcIndex w) = (r1, x)" by force
  have "progress h w (w \<lparr> rcIndex := x \<rparr>) rows []"
    using s keepsS_D [OF g m] by (simp add: progress_def synced_def)
  with run m show "\<exists>new. length new \<le> n \<and> progress h w w' rows new"
    by (intro exI [of _ "[]"]) (simp add: onIndex_def)
qed

text \<open>A change of the sink alone that keeps its bindings.\<close>

definition sinkOnly :: "run_sink \<Rightarrow> run_sink \<Rightarrow> bool" where
  "sinkOnly s s' \<longleftrightarrow> sinkKept s s' \<and> rkTerminalID s' = rkTerminalID s \<and> rkAllRows s' = rkAllRows s \<and> rkBranchRows s' = rkBranchRows s \<and> rkLeafID s' = rkLeafID s"

lemma progress_sink: "synced h w rows \<Longrightarrow> sinkOnly (rcSink w) s \<Longrightarrow> progress h w (w \<lparr> rcSink := s \<rparr>) rows []"
  by (auto simp: progress_def synced_def sinkOnly_def sinkKept_def)

lemma commits_sink: "(\<And>w. sinkOnly (rcSink w) (f w)) \<Longrightarrow> commits h n (\<lambda>w. (r w, w \<lparr> rcSink := f w \<rparr>))"
  unfolding commits_def
proof (intro allI impI)
  fix w rows r' w' assume k: "\<And>w. sinkOnly (rcSink w) (f w)" and s: "synced h w rows"
    and run: "(r w, w \<lparr> rcSink := f w \<rparr>) = (r', w')"
  from progress_sink [OF s k] run show "\<exists>new. length new \<le> n \<and> progress h w w' rows new"
    by (intro exI [of _ "[]"]) auto
qed

lemma commits_if: "(b \<Longrightarrow> commits h n m) \<Longrightarrow> (\<not> b \<Longrightarrow> commits h n m') \<Longrightarrow> commits h n (if b then m else m')"
  by simp

lemma validateCallContext_outcome:
  assumes "validateCallContext ctx run w = (r, w')"
  obtains d s where "w' = w \<lparr> rcDisk := d, rcSink := s \<rparr>" "sameFiles (rcDisk w) d" "sinkOnly (rcSink w) s"
    "r = Inr () \<Longrightarrow> s = rcSink w \<lparr> rkRunID := run, rkOwnerGen := cbOwnerGeneration (ctBinding ctx) \<rparr>
       \<and> ctRunID ctx = run \<and> run \<noteq> [] \<and> \<not> rkClosed s"
    "(\<exists>e. r = Inl e) \<Longrightarrow> s = rcSink w" "rkRejectedBatch s = rkRejectedBatch (rcSink w)"
proof -
  obtain rc d p where c: "onDisk contextErr (rcDisk w, rcStore w) = (rc, (d, p))" by (rule prod_cases3)
  note same = contextErr_disk [OF c]
  have kept: "sinkOnly s s" for s by (simp add: sinkOnly_def)
  show thesis
  proof (cases "rkClosed (rcSink w)")
    case True
    with assms have w: "w' = w" "\<exists>e. r = Inl e" by (auto simp: validateCallContext_def)
    show ?thesis by (rule that [of "rcSink w" "rcDisk w"]) (use w kept in auto)
  next
    case False
    let ?w = "w \<lparr> rcDisk := d \<rparr>"
    have st: "onStore (onDisk contextErr) w = (rc, ?w)" using c same by (simp add: onStore_def)
    show ?thesis
    proof (cases "\<exists>e. r = Inl e")
      case True
      have "w' = ?w"
        using assms st False True unfolding validateCallContext_def bindS_def Let_def
        by (auto split: sum.splits if_splits)
      then show ?thesis by (intro that [of "rcSink w" d]) (use True same kept in auto)
    next
      case ok: False
      let ?s = "rcSink w \<lparr> rkRunID := run, rkOwnerGen := cbOwnerGeneration (ctBinding ctx) \<rparr>"
      from ok have r: "r = Inr ()" by (cases r) auto
      from assms [unfolded r] st False have o: "rc = Inr ()" "run \<noteq> []" "ctRunID ctx = run"
        "rkRunID (rcSink w) = [] \<and> w' = ?w \<lparr> rcSink := ?s \<rparr>
         \<or> rkRunID (rcSink w) = run \<and> rkOwnerGen (rcSink w) = cbOwnerGeneration (ctBinding ctx) \<and> w' = ?w"
        unfolding validateCallContext_def bindS_def Let_def by (auto split: sum.splits if_splits)
      have "?s = rcSink w" if "rkRunID (rcSink w) = run" "rkOwnerGen (rcSink w) = cbOwnerGeneration (ctBinding ctx)"
        unfolding that [symmetric] by simp
      then have "w' = ?w \<lparr> rcSink := ?s \<rparr>" using o(4) by (elim disjE conjE) simp_all
      moreover have "sinkOnly (rcSink w) ?s" using o(2,4) by (auto simp: sinkOnly_def sinkKept_def)
      ultimately show ?thesis by (intro that [of ?s d]) (use o r same False in auto)
    qed
  qed
qed

lemma commits_callContext [journal_intro]: "commits h n (validateCallContext ctx run)"
  unfolding commits_def
proof (intro allI impI)
  fix w rows r w' assume s: "synced h w rows" and run: "validateCallContext ctx run w = (r, w')"
  from run obtain d t where w': "w' = w \<lparr> rcDisk := d, rcSink := t \<rparr>" "sameFiles (rcDisk w) d" "sinkOnly (rcSink w) t"
    by (rule validateCallContext_outcome)
  from progress_trans [OF progress_disk [OF s w'(2)], of "w'" "[]"]
    progress_sink [of h "w \<lparr> rcDisk := d \<rparr>" rows t] progress_synced [OF progress_disk [OF s w'(2)]] w'
  show "\<exists>new. length new \<le> n \<and> progress h w w' rows new" by (intro exI [of _ "[]"]) simp
qed

section \<open>Every operation\<close>

lemma commits_write: "length ins \<le> n \<Longrightarrow> commits h n (bindS (appendAndRefreshRows h ins) (\<lambda>_. okS ()))"
  by (intro commits_first journal_intro)

lemma CommitInput_commits: "commits h 1 (CommitInput h ctx input)"
proof -
  have "commits h 1 (case m of None \<Rightarrow> okS () | Some message \<Rightarrow> bindS (timeNow h) (\<lambda>now w.
      bindS (liftR (inputRow h ctx (rcSink w) input message now)) (\<lambda>row. bindS (appendAndRefreshRows h [row]) (\<lambda>_. okS ())) w))" for m
    by (cases m) (simp_all add: journal_intro commits_then commits_decide commits_write)
  then show ?thesis unfolding CommitInput_def
    by (intro commits_then journal_intro commits_decide) simp
qed

lemma RecordExecution_commits: "commits h 1 (RecordExecution h ctx x)"
proof -
  have "commits h 1 (case m of None \<Rightarrow> okS () | Some row \<Rightarrow> bindS (appendAndRefreshRows h [row]) (\<lambda>_. okS ()))" for m
    by (cases m) (simp_all add: journal_intro commits_write)
  then show ?thesis unfolding RecordExecution_def
    by (intro commits_then journal_intro commits_decide commits_if) simp_all
qed

lemma recordReceiptLocked_commits: "commits h 1 (recordReceiptLocked h receipt)"
proof -
  have "commits h 1 (case m of None \<Rightarrow> okS () | Some row \<Rightarrow> bindS (appendAndRefreshRows h [row]) (\<lambda>_. okS ()))" for m
    by (cases m) (simp_all add: journal_intro commits_write)
  then show ?thesis unfolding recordReceiptLocked_def
    by (intro commits_then journal_intro commits_decide)
qed

lemma RecordReceipt_commits: "commits h 1 (RecordReceipt h ctx receipt)"
  unfolding RecordReceipt_def by (intro commits_then journal_intro recordReceiptLocked_commits)

lemma appendCheckpoint_commits: "commits h 1 (appendCheckpoint h row)"
  unfolding appendCheckpoint_def
  by (intro commits_first journal_intro) (auto simp: journal_intro split: list.splits)

lemma resolveExecutionLocked_commits: "commits h 1 (resolveExecutionLocked h r ref intent receipt allow)"
proof -
  have "commits h 1 (bindS (case known of Some durable \<Rightarrow> okS durable | None \<Rightarrow> appendCheckpoint h row) (\<lambda>durable.
       onIndex (ApplyDurableResolutions (chIndex h) (vs durable))))" for known row vs
    by (cases known) (simp_all add: commits_first appendCheckpoint_commits journal_intro Apply_grow del: One_nat_def)
  then show ?thesis unfolding resolveExecutionLocked_def
    by (intro commits_decide) (auto split: prod.splits)
qed

lemma ResolveExecution_commits: "commits h 1 (ResolveExecution h ctx r)"
  unfolding ResolveExecution_def
proof (intro commits_then journal_intro)
  fix u :: unit
  have silent: "commits h 1 (\<lambda>w. (Inl e, w))" for e by (rule commits_silent) simp
  have "commits h 1 (\<lambda>w. bindS (liftR (findIntentByActionID (rcSink w) (erRunID r) (erActionID r) (rkOwnerGen (rcSink w)))) (\<lambda>intent.
         bindS (liftR (findReceiptForIntent (rcSink w) (refFromEntry intent (rkSessionID (rcSink w))) intent)) (\<lambda>receipt.
           resolveExecutionLocked h r (refFromEntry intent (rkSessionID (rcSink w))) intent receipt False)) w)"
    by (intro commits_decide) (intro commits_then journal_intro resolveExecutionLocked_commits)
  with silent show "commits h 1 (\<lambda>w. if erActionID r = [] then (Inl (Fault ''execution resolution requires an action ID''), w)
       else bindS (liftR (findIntentByActionID (rcSink w) (erRunID r) (erActionID r) (rkOwnerGen (rcSink w)))) (\<lambda>intent.
         bindS (liftR (findReceiptForIntent (rcSink w) (refFromEntry intent (rkSessionID (rcSink w))) intent)) (\<lambda>receipt.
           resolveExecutionLocked h r (refFromEntry intent (rkSessionID (rcSink w))) intent receipt False)) w)"
    by (cases "erActionID r = []") (simp_all del: One_nat_def)
qed

lemma CommitCompaction_commits: "commits h 1 (CommitCompaction h ctx p)"
  unfolding CommitCompaction_def
  by (intro commits_then journal_intro commits_decide) (simp add: journal_intro commits_write)

lemma terminalRows_length: "terminalRows h s run i ms = Inr rows \<Longrightarrow> length rows = length ms"
  by (induction ms arbitrary: i rows) (auto simp: bindR_eq_Inr split: if_splits)

lemma decideTerminal_Inr:
  assumes "decideTerminal h ctx s t = Inr x"
  shows "checkTerminal ctx s t = Inr ()" "\<And>rows. x = Some rows \<Longrightarrow> length rows \<le> Suc (length (rtTranscript t)) \<and> rows \<noteq> []"
  using assms
  by (auto simp: decideTerminal_def bindR_eq_Inr split: if_splits option.splits dest!: terminalRows_length)

text \<open>The terminal checkpoint, once it is a row of the session, becomes the sink's.\<close>

lemma progress_terminal:
  assumes "checkTerminal ctx s t = Inr ()" "rkTerminalID (rcSink w) = rkTerminalID s" "synced h w rows"
    and "rtTerminalCheckpointID t \<in> eID ` set rows"
  shows "progress h w (w \<lparr> rcSink := rcSink w \<lparr> rkTerminalID := rtTerminalCheckpointID t \<rparr> \<rparr>) rows []"
  using assms by (auto simp: checkTerminal_def progress_def synced_def sinkKept_def split: if_splits)

lemma findTerminalCheckpoint_mem: "findTerminalCheckpoint rows run = Inr (Some e) \<Longrightarrow> e \<in> set rows"
  unfolding findTerminalCheckpoint_def by (auto dest: findUnique_SomeD)

text \<open>The row of the session that ends the run as the terminal says.\<close>

definition endsRun :: "run_terminal \<Rightarrow> session_entry \<Rightarrow> bool" where
  "endsRun t e \<longleftrightarrow> eID e = rtTerminalCheckpointID t \<and> eRecordVersion e = 1 \<and> eType e = EntryTypeCheckpoint
     \<and> eCheckpointKind e = CheckpointRunTerminal \<and> eRunID e = rtRunID t \<and> eRunOutcome e = rtOutcome t"

lemma endsRun_ids: "endsRun t e \<Longrightarrow> e \<in> set rows \<Longrightarrow> rtTerminalCheckpointID t \<in> eID ` set rows"
  by (metis endsRun_def imageI)

lemma decideTerminal_known:
  assumes "decideTerminal h ctx s t = Inr None"
  shows "\<exists>e \<in> set (rkBranchRows s). endsRun t e"
  using assms unfolding decideTerminal_def findTerminalCheckpoint_def endsRun_def
  by (auto simp: bindR_eq_Inr split: if_splits option.splits dest: findUnique_SomeD)

lemma decideTerminal_rows:
  assumes "decideTerminal h ctx s t = Inr (Some ins)"
  obtains rows where "ins = rows @ [terminalCheckpoint ctx s t]" "\<forall>e \<in> set (rows @ rkAllRows s). eID e \<noteq> rtTerminalCheckpointID t"
  using assms unfolding decideTerminal_def
  by (auto simp: bindR_eq_Inr list_ex_iff split: if_splits option.splits)

lemma writtenFrom_endsRun: "writtenFrom s (terminalCheckpoint ctx s' t) r \<Longrightarrow> endsRun t r"
  by (auto simp: writtenFrom_def endsRun_def terminalCheckpoint_def)

lemma CommitTerminal_run:
  assumes s: "synced h w rows" and room: "seqLeft w (Suc (length (rtTranscript t)))"
    and run: "CommitTerminal h ctx t w = (r, w')"
  shows "\<exists>new. length new \<le> Suc (length (rtTranscript t)) \<and> progress h w w' rows new \<and> rcIndex w' = rcIndex w
    \<and> (r = Inr () \<longrightarrow> rkTerminalID (rcSink w') = rtTerminalCheckpointID t \<and> (\<exists>e \<in> set (rows @ new). endsRun t e))
    \<and> (rkTerminalID (rcSink w) \<noteq> [] \<and> rkTerminalID (rcSink w) \<in> eID ` set rows \<longrightarrow> new = [])"
proof -
  let ?n = "Suc (length (rtTranscript t))"
  obtain r0 w0 where c: "validateCallContext ctx (rtRunID t) w = (r0, w0)" by force
  from c obtain d k where w0: "w0 = w \<lparr> rcDisk := d, rcSink := k \<rparr>" "sameFiles (rcDisk w) d" "sinkOnly (rcSink w) k"
    by (rule validateCallContext_outcome)
  have p0: "progress h w w0 rows []"
    by (rule commitsD [OF commits_callContext [where n = 0] s _ c]) (use room in \<open>auto simp: seqLeft_def\<close>)
  have tid: "rkTerminalID (rcSink w0) = rkTerminalID (rcSink w)" using w0 by (simp add: sinkOnly_def)
  have s0: "synced h w0 rows" using progress_synced [OF p0] by simp
  have refused: ?thesis if "\<exists>e. r = Inl e" "w' = w0"
    using p0 that w0 by (intro exI [of _ "[]"]) auto
  show ?thesis
  proof (cases "r0 = Inr () \<longrightarrow> (\<exists>e. decideTerminal h ctx (rcSink w0) t = Inl e)")
    case True
    with run c show ?thesis by (intro refused) (auto simp: CommitTerminal_def bindS_def split: sum.splits)
  next
    case False
    then obtain todo where todo: "decideTerminal h ctx (rcSink w0) t = Inr todo" and r0: "r0 = Inr ()"
      by (cases "decideTerminal h ctx (rcSink w0) t") auto
    note D = decideTerminal_Inr [OF todo]
    show ?thesis
    proof (cases todo)
      case None
      obtain e where e: "e \<in> set rows" "endsRun t e"
        using decideTerminal_known [OF todo [unfolded None]] branch_rows [OF s0] by blast
      then have "rtTerminalCheckpointID t \<in> eID ` set rows" by (intro endsRun_ids)
      from progress_trans [OF p0, of _ "[]"] progress_terminal [OF D(1) refl s0 this]
      have "progress h w (w0 \<lparr> rcSink := rcSink w0 \<lparr> rkTerminalID := rtTerminalCheckpointID t \<rparr> \<rparr>) rows []" by simp
      with run c r0 todo None e w0 show ?thesis
        by (intro exI [of _ "[]"]) (auto simp: CommitTerminal_def bindS_def)
    next
      case (Some ins)
      obtain front where front: "ins = front @ [terminalCheckpoint ctx (rcSink w0) t]"
        "\<forall>e \<in> set (front @ rkAllRows (rcSink w0)). eID e \<noteq> rtTerminalCheckpointID t"
        by (rule decideTerminal_rows [OF todo [unfolded Some]])
      obtain r1 w1 where ap: "appendAndRefreshRows h ins w0 = (r1, w1)" by force
      have len: "length ins \<le> ?n" "ins \<noteq> []" using D(2) [OF Some] by simp_all
      have "seqLeft w0 (length ins)" using progress_room [OF p0] room len by (simp add: seqLeft_def)
      from appendAndRefreshRows_run [OF s0 this ap] obtain new where
        new: "length new \<le> length ins" "progress h w0 w1 rows new" "refreshed (rcSink w0) (rcSink w1)"
        "rcIndex w1 = rcIndex w0" "\<forall>canon. r1 = Inr canon \<longrightarrow> landed h w0 rows ins canon w1 new" using len(2) by blast
      have all: "rkAllRows (rcSink w0) = rows" using s0 by (simp add: synced_def)
      have idle: "new = []" if "rkTerminalID (rcSink w) \<noteq> []" "rkTerminalID (rcSink w) \<in> eID ` set rows"
        using that D(1) front(2) by (auto simp: checkTerminal_def tid all split: if_splits)
      note p1 = progress_trans [OF p0, of w1 new, simplified, OF new(2)]
      have fail: ?thesis if "w' = w1" "\<exists>e. r = Inl e"
        using that p1 new(1,4) len idle w0 by (intro exI [of _ new]) auto
      show ?thesis
      proof (cases r1)
        case (Inl e)
        with run c r0 todo Some ap show ?thesis
          by (intro fail) (auto simp: CommitTerminal_def bindS_def)
      next
        case (Inr canon)
        from new(5) Inr have L: "landed h w0 rows ins canon w1 new" by blast
        have "terminalCheckpoint ctx (rcSink w0) t \<in> set ins" "eID (terminalCheckpoint ctx (rcSink w0) t) = rtTerminalCheckpointID t"
          using front(1) by (simp_all add: terminalCheckpoint_def)
        then obtain e where "e \<in> set new" "writtenFrom (rcSink w0) (terminalCheckpoint ctx (rcSink w0) t) e"
          using landed_fresh [OF L s0, of "terminalCheckpoint ctx (rcSink w0) t"] front by (fastforce simp: all)
        with writtenFrom_endsRun have e: "e \<in> set new" "endsRun t e" by blast+
        show ?thesis
        proof (cases "length canon \<noteq> length ins \<or> eID (last canon) \<noteq> rtTerminalCheckpointID t \<or> eSeq (last canon) = 0")
          case True
          with run c r0 todo Some ap Inr show ?thesis
            by (intro fail) (auto simp: CommitTerminal_def bindS_def)
        next
          case False
          with run c r0 todo Some ap Inr
          have w': "w' = w1 \<lparr> rcSink := rcSink w1 \<lparr> rkTerminalID := rtTerminalCheckpointID t \<rparr> \<rparr>" "r = Inr ()"
            by (auto simp: CommitTerminal_def bindS_def)
          have "rtTerminalCheckpointID t \<in> eID ` set (rows @ new)" using e endsRun_ids [of t e "rows @ new"] by simp
          from progress_terminal [OF D(1) _ progress_synced [OF new(2)] this] refreshed_fields(7) [OF new(3)]
            progress_trans [OF p1] have "progress h w w' rows new" unfolding w'(1) by fastforce
          with w' e new(1,4) len idle w0 show ?thesis by (intro exI [of _ new]) auto
        qed
      qed
    qed
  qed
qed

lemma CommitTerminal_named:
  assumes "CommitTerminal h ctx t w = (Inr (), w')"
  shows "rtTerminalCheckpointID t \<noteq> []"
proof -
  obtain r0 w0 where c: "validateCallContext ctx (rtRunID t) w = (r0, w0)" by force
  with assms obtain x where "decideTerminal h ctx (rcSink w0) t = Inr x"
    by (cases r0; cases "decideTerminal h ctx (rcSink w0) t") (auto simp: CommitTerminal_def bindS_def)
  from decideTerminal_Inr(1) [OF this] show ?thesis by (auto simp: checkTerminal_def split: if_splits)
qed

lemma CommitTerminal_commits: "commits h (Suc (length (rtTranscript t))) (CommitTerminal h ctx t)"
  unfolding commits_def using CommitTerminal_run by blast

lemma commits_silent_pair [journal_intro]: "commits h n (\<lambda>w. (r, w))"
  by (rule commits_silent) simp

lemma resolveDenied_commits: "commits h 1 (resolveDenied h b i e)"
proof -
  have "resolveDenied h b i e = (\<lambda>w. bindS (liftR (findReceiptForIntent (rcSink w) (refFromEntry e (rkSessionID (rcSink w))) e)) (\<lambda>receipt.
        resolveExecutionLocked h \<lparr> erRunID = ibRunID b, erActionID = aiActionID i,
          erEvidence = ResolutionNeverDispatched, erEvidenceRef = eID receipt \<rparr>
          (refFromEntry e (rkSessionID (rcSink w))) e receipt False) w)"
    by (intro ext) (simp add: resolveDenied_def Let_def)
  then show ?thesis by (simp only:) (intro commits_decide resolveExecutionLocked_commits)
qed

lemma closeCalls_commits: "commits h (2 * length cs) (closeCalls h b index cs)"
proof (induction cs arbitrary: index)
  case Nil
  have "closeCalls h b index [] = okS []" by (intro ext) simp
  then show ?case by (simp add: journal_intro)
next
  case (Cons c cs)
  let ?rest = "\<lambda>p. bindS (case snd p of None \<Rightarrow> okS () | Some (i, e) \<Rightarrow> resolveDenied h b i e) (\<lambda>_ w1.
      bindS (closeCalls h b (index + 1) cs) (\<lambda>rs. okS (fst p # rs)) w1)"
  have step: "commits h 1 (case q of None \<Rightarrow> okS () | Some (i, e) \<Rightarrow> resolveDenied h b i e)" for q
    by (cases q) (auto simp: journal_intro resolveDenied_commits simp del: One_nat_def)
  have tail: "commits h (2 * length cs) (bindS (closeCalls h b (index + 1) cs) (\<lambda>rs. okS (fst p # rs)))" for p :: "tool_receipt \<times> (action_intent \<times> session_entry) option"
    by (intro commits_first Cons.IH journal_intro)
  have rest: "commits h (1 + 2 * length cs) (?rest p)" for p by (rule commits_bind [OF step tail])
  have "commits h (1 + (1 + 2 * length cs)) (bindS (recordReceiptLocked h (fst p)) (\<lambda>_. ?rest p))" for p
    by (rule commits_bind [OF recordReceiptLocked_commits rest])
  then have "commits h (2 * length (c # cs)) (bindS (recordReceiptLocked h (fst p)) (\<lambda>_. ?rest p))" for p by simp
  then have "commits h (2 * length (c # cs)) (\<lambda>w. bindS (liftR (deniedCall (rcSink w) b index c))
      (\<lambda>p. bindS (recordReceiptLocked h (fst p)) (\<lambda>_. ?rest p)) w)" by (rule commits_decide)
  moreover have "closeCalls h b index (c # cs) = (\<lambda>w. bindS (liftR (deniedCall (rcSink w) b index c))
      (\<lambda>p. bindS (recordReceiptLocked h (fst p)) (\<lambda>_. ?rest p)) w)" by (intro ext) simp
  ultimately show ?case by (simp only:)
qed

text \<open>At most two rows for every call of the assistant turn that is closed.\<close>

lemma openCalls_bound:
  assumes "openCalls s b = Inr (cs, i)"
  shows "\<exists>assistant. assistantOccurrence (rkBranchRows s) (ibRunID b) (ibOrdinal b) = Inr (Some assistant)
    \<and> length cs \<le> length (eToolCalls assistant)"
proof -
  from assms obtain m where m: "assistantOccurrence (rkBranchRows s) (ibRunID b) (ibOrdinal b) = Inr m"
    by (auto simp: openCalls_def bindR_eq_Inr)
  obtain assistant where a: "m = Some assistant" using assms m by (cases m) (auto simp: openCalls_def)
  obtain index where "eTranscriptIndex assistant = Some index"
    using assms m a by (cases "eTranscriptIndex assistant") (auto simp: openCalls_def)
  with assms m a show ?thesis by (auto simp: openCalls_def Let_def bindR_eq_Inr)
qed

lemma closeRejectedBatch_run:
  assumes s: "synced h w rows" and run: "closeRejectedBatch h b w = (r, w')"
    and calls: "\<forall>e \<in> set (rkBranchRows (rcSink w)). length (eToolCalls e) \<le> k" and room: "seqLeft w (2 * k)"
  shows "\<exists>new. length new \<le> 2 * k \<and> progress h w w' rows new"
proof (cases "openCalls (rcSink w) b")
  case (Inl e)
  with run s show ?thesis by (intro exI [of _ "[]"]) (simp add: closeRejectedBatch_def bindS_def)
next
  case (Inr p)
  obtain cs i where p: "p = (cs, i)" by force
  from openCalls_bound [OF Inr [unfolded p]] obtain assistant where
    "assistantOccurrence (rkBranchRows (rcSink w)) (ibRunID b) (ibOrdinal b) = Inr (Some assistant)"
    "length cs \<le> length (eToolCalls assistant)" by blast
  moreover from this(1) have "assistant \<in> set (rkBranchRows (rcSink w))"
    unfolding assistantOccurrence_def by (rule findUnique_SomeD)
  ultimately have len: "length cs \<le> k" using calls le_trans by blast
  obtain r1 w1 where c: "closeCalls h b i cs w = (r1, w1)" by force
  have "seqLeft w (2 * length cs)" using room len by (simp add: seqLeft_def)
  from commitsD [OF closeCalls_commits s this c] obtain new where new: "length new \<le> 2 * length cs" "progress h w w1 rows new" .
  have w': "w' = w1 \<or> (\<exists>x. w' = w1 \<lparr> rcSink := rcSink w1 \<lparr> rkRejectedBatch := x \<rparr> \<rparr>)"
    using run Inr p c by (auto simp: closeRejectedBatch_def bindS_def split: sum.splits if_splits)
  have "sinkOnly (rcSink w1) (rcSink w1 \<lparr> rkRejectedBatch := x \<rparr>)" for x by (simp add: sinkOnly_def sinkKept_def)
  then have "progress h w w' rows new"
    using w' progress_trans [OF new(2) progress_sink [OF progress_synced [OF new(2)]]] new(2) by auto
  with new(1) len show ?thesis by (intro exI [of _ new]) auto
qed

end
