(* ===== verification/IntentBatchFacts.thy ===== *)
theory IntentBatchFacts
  imports RunCommitSteps
begin

text \<open>
  Reserving a batch of intents: what the decision contains, that the intents are in the
  session before their marker is in the workspace index, and what closing a denied batch
  leaves behind.
\<close>

section \<open>The decision\<close>

text \<open>A row that reserves the action of an intent.\<close>

definition reserves :: "run_sink \<Rightarrow> action_intent \<Rightarrow> session_entry \<Rightarrow> bool" where
  "reserves s i e \<longleftrightarrow> eType e = EntryTypeTool \<and> eActionState e = ActionStateIntent
     \<and> refFromEntry e (rkSessionID s) = intentRef i \<and> eOwnerGeneration e = rkOwnerGen s
     \<and> eArgumentDigest e = hexEncode (aiArgumentDigest i) \<and> eSchemaDigest e = hexEncode (aiSchemaDigest i)
     \<and> eToolIdentity e = Some (identitySnapshot (aiToolIdentity i))"

lemma intentRow_reserves:
  assumes "intentRow h i name effects now = Inr row" "intentIdentity s b i"
  shows "reserves s i row" "eToolCalls row = []"
  using assms
  by (auto simp: intentRow_def bindR_eq_Inr reserves_def intentIdentity_def refFromEntry_def intentRef_def emptyEntry_def)

lemma sameIntentPayload_reserves:
  assumes "sameIntentPayload x row" "reserves s i row"
  shows "reserves s i x"
  using assms by (auto simp: sameIntentPayload_def reserves_def refFromEntry_def)

lemma actionRow_mem:
  assumes "actionRow rows sid c = Inr (Some x)"
  shows "x \<in> set rows"
proof -
  have "(Some x) = None \<or> (\<exists>y. Some x = Some y \<and> y \<in> set rows)"
    by (rule foldR_invariant [where I = "\<lambda>m. m = None \<or> (\<exists>y. m = Some y \<and> y \<in> set rows)", OF assms [unfolded actionRow_def]])
      (auto simp: matchActionRow_def split: if_splits)
  then show ?thesis by auto
qed

text \<open>
  After the loop every intent has its action and its row: one to write, or one the branch has
  already.
\<close>

definition reservedIn :: "run_sink \<Rightarrow> session_entry list \<Rightarrow> action_intent \<Rightarrow> bool" where
  "reservedIn s ins i \<longleftrightarrow> (\<exists>e \<in> set ins \<union> set (rkBranchRows s). reserves s i e)"

definition loopInv :: "run_sink \<Rightarrow> action_intent list \<Rightarrow> intent_loop \<Rightarrow> bool" where
  "loopInv s us l \<longleftrightarrow> map daAction (ilActions l) = map intentRef us \<and> (\<forall>i \<in> set us. reservedIn s (ilRows l) i)
     \<and> length (ilRows l) \<le> length us \<and> (\<forall>e \<in> set (ilRows l). eToolCalls e = [])
     \<and> (\<forall>i \<in> set us. rWorkspaceID (intentRef i) = rkWorkspaceID s)"

lemma reserveIntent_inv:
  assumes I: "loopInv s us l" and step: "reserveIntent h ix s b tick l i = Inr l'"
  shows "loopInv s (us @ [i]) l'"
proof -
  have id: "intentIdentity s b i" using step by (auto simp: reserveIntent_def split: if_splits)
  from step obtain p where p: "callNamed (mToolCalls (ibAssistantMessage b)) (aiToolCallID i) = Some p"
    by (cases "callNamed (mToolCalls (ibAssistantMessage b)) (aiToolCallID i)") (auto simp: reserveIntent_def split: if_splits)
  from step p obtain effects row m l1 where
    row: "intentRow h i (tcName (snd p)) effects (chClock h (tick + length (ilCalls l))) = Inr row"
    and m: "actionRow (rkBranchRows s) (rkSessionID s) row = Inr m"
    and l1: "(case m of None \<Rightarrow> Inr (l \<lparr> ilRows := ilRows l @ [row] \<rparr>)
       | Some existing \<Rightarrow> if \<not> sameIntentPayload existing row then Inl (Fault ''intent conflicts with its durable row'')
            else Inr (l \<lparr> ilExisting := Suc (ilExisting l) \<rparr>)) = Inr l1"
    and l': "ilRows l' = ilRows l1" "ilActions l' = ilActions l @ [intentAction i effects]"
    unfolding reserveIntent_def by (cases p) (auto simp: bindR_eq_Inr split: if_splits)
  note R = intentRow_reserves [OF row id]
  have act: "daAction (intentAction i effects) = intentRef i" by (simp add: intentAction_def)
  have ws: "rWorkspaceID (intentRef i) = rkWorkspaceID s" using id by (simp add: intentIdentity_def intentRef_def)
  show ?thesis
  proof (cases m)
    case None
    with l1 have "ilRows l1 = ilRows l @ [row]" by auto
    with I R l' act ws show ?thesis by (auto simp: loopInv_def reservedIn_def)
  next
    case (Some x)
    with l1 have same: "sameIntentPayload x row" "ilRows l1 = ilRows l" by (auto split: if_splits)
    have "x \<in> set (rkBranchRows s)" using actionRow_mem m Some by blast
    with sameIntentPayload_reserves [OF same(1) R(1)] I same(2) l' act ws show ?thesis
      by (auto simp: loopInv_def reservedIn_def)
  qed
qed

lemma assistantRow_calls:
  assumes "assistantRow h s b now = Inr (False, e)"
  shows "eToolCalls e = mToolCalls (ibAssistantMessage b)"
  using assms
  by (auto simp: assistantRow_def bindR_eq_Inr sessionEntryFromRunCommitMessage_def split: option.splits if_splits)

lemma decideBatch_Inr:
  assumes "decideBatch h ix s tick b = Inr (ins, actions)"
  shows "map daAction actions = map intentRef (ibIntents b)" "\<forall>i \<in> set (ibIntents b). reservedIn s ins i"
    "length ins \<le> Suc (length (ibIntents b))" "\<forall>e \<in> set ins. length (eToolCalls e) \<le> length (mToolCalls (ibAssistantMessage b))"
    "\<forall>i \<in> set (ibIntents b). rWorkspaceID (intentRef i) = rkWorkspaceID s" "rkRejectedBatch s = None"
proof -
  from assms obtain a l where a: "assistantRow h s b (chClock h tick) = Inr a"
    and l: "foldR (reserveIntent h ix s b (Suc tick)) emptyLoop (ibIntents b) = Inr l"
    and ins: "ins = (if fst a then ilRows l else snd a # ilRows l)" "actions = ilActions l"
    and c: "checkBatch s b = Inr ()"
    by (auto simp: decideBatch_def bindR_eq_Inr split: if_splits)
  have L: "loopInv s (ibIntents b) l"
  proof (rule foldR_prefix_invariant [where I = "loopInv s", OF l])
    show "loopInv s [] emptyLoop" by (simp add: loopInv_def emptyLoop_def)
  qed (rule reserveIntent_inv)
  show "map daAction actions = map intentRef (ibIntents b)" "\<forall>i \<in> set (ibIntents b). reservedIn s ins i"
    "length ins \<le> Suc (length (ibIntents b))" "\<forall>i \<in> set (ibIntents b). rWorkspaceID (intentRef i) = rkWorkspaceID s"
    using L ins by (auto simp: loopInv_def reservedIn_def)
  show "\<forall>e \<in> set ins. length (eToolCalls e) \<le> length (mToolCalls (ibAssistantMessage b))"
    using L ins assistantRow_calls a by (cases a) (auto simp: loopInv_def)
  show "rkRejectedBatch s = None" using c by (auto simp: checkBatch_def Let_def split: if_splits)
qed

section \<open>The call\<close>

text \<open>How far a call to reserve a batch gets.\<close>

lemma BeginIntentBatch_cases:
  assumes "BeginIntentBatch h ctx b w = (r, w')"
  obtains (refused) d s n where "w' = w \<lparr> rcDisk := d, rcSink := s, rcTick := n \<rparr>" "sameFiles (rcDisk w) d"
      "sinkOnly (rcSink w) s" "\<exists>e. r = Inl e" "rkRejectedBatch s = rkRejectedBatch (rcSink w)"
  | (decided) d s n ins actions r1 w1 where "sameFiles (rcDisk w) d" "sinkOnly (rcSink w) s" "rkRunID s \<noteq> []"
      "decideBatch h (rcIndex w) s (rcTick w) b = Inr (ins, actions)"
      "appendAndRefreshRows h ins (w \<lparr> rcDisk := d, rcSink := s, rcTick := n \<rparr>) = (r1, w1)"
      "(\<exists>e. r1 = Inl e \<and> r = Inl e) \<and> w' = w1
       \<or> (\<exists>canon. r1 = Inr canon) \<and> (if actions = [] then r = Inr () \<and> w' = w1 else publishMarker h b actions w1 = (r, w'))"
proof -
  obtain rc wc where c: "validateCallContext ctx (ibRunID b) w = (rc, wc)" by force
  from c obtain d s where wc: "wc = w \<lparr> rcDisk := d, rcSink := s \<rparr>" "sameFiles (rcDisk w) d" "sinkOnly (rcSink w) s"
    "rkRejectedBatch s = rkRejectedBatch (rcSink w)" "rc = Inr () \<longrightarrow> rkRunID s \<noteq> []"
    by (rule validateCallContext_outcome) simp
  have tick: "wc = wc \<lparr> rcTick := rcTick w \<rparr>" by (simp add: wc(1))
  let ?n = "rcTick w + Suc (length (ibIntents b))"
  show thesis
  proof (cases "rc = Inr () \<and> rejectAfterTerminal wc = (Inr (), wc)")
    case False
    with assms c have "w' = wc" "\<exists>e. r = Inl e"
      by (auto simp: BeginIntentBatch_def bindS_def rejectAfterTerminal_def split: sum.splits if_splits)
    then show thesis by (intro refused [of "rcTick w" s d]) (use wc in auto)
  next
    case True
    with assms c have run: "bindS (liftR (decideBatch h (rcIndex w) s (rcTick w) b)) (\<lambda>p.
         bindS (appendAndRefreshRows h (fst p)) (\<lambda>_. if snd p = [] then okS () else publishMarker h b (snd p)))
       (w \<lparr> rcDisk := d, rcSink := s, rcTick := ?n \<rparr>) = (r, w')"
      by (simp add: BeginIntentBatch_def bindS_def [of "validateCallContext _ _"] bindS_def [of rejectAfterTerminal] wc(1))
    show thesis
    proof (cases "decideBatch h (rcIndex w) s (rcTick w) b")
      case (Inl e)
      with run have "w' = w \<lparr> rcDisk := d, rcSink := s, rcTick := ?n \<rparr>" "r = Inl e" by (auto simp: bindS_def)
      then show thesis by (intro refused [of ?n s d]) (use wc in auto)
    next
      case (Inr p)
      obtain ins actions where p: "p = (ins, actions)" by force
      obtain r1 w1 where ap: "appendAndRefreshRows h ins (w \<lparr> rcDisk := d, rcSink := s, rcTick := ?n \<rparr>) = (r1, w1)" by force
      from run Inr p ap have "(\<exists>e. r1 = Inl e \<and> r = Inl e) \<and> w' = w1
         \<or> (\<exists>canon. r1 = Inr canon) \<and> (if actions = [] then r = Inr () \<and> w' = w1 else publishMarker h b actions w1 = (r, w'))"
        by (cases r1) (auto simp: bindS_def)
      moreover have "rkRunID s \<noteq> []" using wc(5) True by simp
      ultimately show thesis using decided [OF wc(2,3) _ Inr [unfolded p] ap] by blast
    qed
  qed
qed

text \<open>The permit, or the closing of a batch that the index has denied.\<close>

lemma publishMarker_cases:
  assumes "publishMarker h b actions w = (r, w')"
  obtains (answered) ix res denied err where
      "beginDispatchBatch (chIndex h) \<lparr> dbWorkspaceID = rkWorkspaceID (rcSink w),
          dbSessionID = rkSessionID (rcSink w), dbRunID = ibRunID b, dbActionBatchID = ibActionBatchID b,
          dbActions = actions, dbCanonicalWorkspaceRoot = ibCanonicalWorkspaceRoot b \<rparr> (rcIndex w) = ((res, denied, err), ix)"
      "w' = w \<lparr> rcIndex := ix \<rparr>" "r = Inr () \<longleftrightarrow> err = None \<and> res = WorkspaceDispatchCommittedNow"
      "err \<noteq> None \<longrightarrow> \<not> denied"
  | (closing) ix res err r1 where
      "beginDispatchBatch (chIndex h) \<lparr> dbWorkspaceID = rkWorkspaceID (rcSink w),
          dbSessionID = rkSessionID (rcSink w), dbRunID = ibRunID b, dbActionBatchID = ibActionBatchID b,
          dbActions = actions, dbCanonicalWorkspaceRoot = ibCanonicalWorkspaceRoot b \<rparr> (rcIndex w) = ((res, True, Some err), ix)"
      "closeRejectedBatch h b (w \<lparr> rcIndex := ix \<rparr>) = (r1, w')" "r = Inl err"
proof -
  obtain res denied err ix where run: "beginDispatchBatch (chIndex h) \<lparr> dbWorkspaceID = rkWorkspaceID (rcSink w),
          dbSessionID = rkSessionID (rcSink w), dbRunID = ibRunID b, dbActionBatchID = ibActionBatchID b,
          dbActions = actions, dbCanonicalWorkspaceRoot = ibCanonicalWorkspaceRoot b \<rparr> (rcIndex w) = ((res, denied, err), ix)"
    by (metis prod.exhaust)
  show thesis
  proof (cases "err \<noteq> None \<and> denied")
    case True
    then obtain e where e: "err = Some e" "denied" by auto
    obtain r1 w2 where cl: "closeRejectedBatch h b (w \<lparr> rcIndex := ix \<rparr>) = (r1, w2)" by force
    from assms run e cl have "r = Inl e" "w' = w2" by (simp_all add: publishMarker_def)
    then show thesis by (intro closing [of res e ix r1]) (use run e cl in auto)
  next
    case False
    with assms run have "w' = w \<lparr> rcIndex := ix \<rparr>" "r = Inr () \<longleftrightarrow> err = None \<and> res = WorkspaceDispatchCommittedNow"
      by (auto simp: publishMarker_def Let_def split: option.splits if_splits)
    with answered run False show thesis by blast
  qed
qed

section \<open>Markers\<close>

definition markedAt :: "index_world \<Rightarrow> pending_ref \<Rightarrow> bool" where
  "markedAt x ref \<longleftrightarrow> (\<exists>rows. indexFile x (rWorkspaceID ref) = Some rows \<and> markedIn rows ref)"

lemma markedAt_grow: "filesGrow x x' \<Longrightarrow> markedAt x ref \<Longrightarrow> markedAt x' ref"
  unfolding filesGrow_def markedAt_def markedIn_def by fastforce

lemma markedAt_resolutions:
  assumes "resolutionsGrow x x'" "markedAt x' ref"
  shows "markedAt x ref"
proof -
  from assms(2) obtain rows' where r: "indexFile x' (rWorkspaceID ref) = Some rows'" "markedIn rows' ref"
    by (auto simp: markedAt_def)
  then obtain rows where x: "indexFile x (rWorkspaceID ref) = Some rows"
    using resolutionsGrow_None [OF assms(1)] by (cases "indexFile x (rWorkspaceID ref)") auto
  from resolutionsGrow_Some [OF assms(1) x] r(1) obtain rs where
    rs: "rows' = rows @ rs" "\<forall>q \<in> set rs. irKind q = WorkspaceIndexResolution" by auto
  from r(2) obtain q where q: "q \<in> set rows'" "irKind q = WorkspaceIndexDispatchReady" "ref \<in> daAction ` set (irActions q)"
    unfolding markedIn_def by blast
  with rs have "q \<in> set rows" by auto
  with q(2,3) have "markedIn rows ref" unfolding markedIn_def by blast
  with x show ?thesis by (auto simp: markedAt_def)
qed

text \<open>One call of the index marks actions of its batch only; a permit marks them all, afresh.\<close>

lemma begin_markers:
  assumes run: "beginDispatchBatch h batch x = ((res, denied, err), x')"
    and ws: "\<forall>a \<in> set (dbActions batch). rWorkspaceID (daAction a) = dbWorkspaceID batch"
  shows "markedAt x' ref \<Longrightarrow> markedAt x ref \<or> \<not> denied \<and> ref \<in> daAction ` set (dbActions batch)"
    "res = WorkspaceDispatchCommittedNow \<Longrightarrow> a \<in> set (dbActions batch) \<Longrightarrow>
      markedAt x' (daAction a) \<and> \<not> markedAt x (daAction a)"
    "filesGrow x x'" "denied \<Longrightarrow> (\<forall>wid. indexFile x' wid = indexFile x wid)"
proof -
  have same: "markedAt x' ref = markedAt x ref" if "\<And>wid. indexFile x' wid = indexFile x wid" for ref
    by (simp add: markedAt_def that)
  have "(markedAt x' ref \<longrightarrow> markedAt x ref \<or> \<not> denied \<and> ref \<in> daAction ` set (dbActions batch))
      \<and> (res = WorkspaceDispatchCommittedNow \<longrightarrow> (\<forall>a \<in> set (dbActions batch). markedAt x' (daAction a) \<and> \<not> markedAt x (daAction a)))
      \<and> (denied \<longrightarrow> (\<forall>wid. indexFile x' wid = indexFile x wid))"
    using run
  proof (cases rule: begin_run)
    case (rejected e)
    with same sameBut_file [OF rejected(5)] show ?thesis by simp
  next
    case (same b)
    then show ?thesis by (simp add: markedAt_def)
  next
    case (marked b)
    note ids = normalizeBatch_ids [OF marked(1)]
    have refs: "daAction ` set (dbActions b) = daAction ` set (dbActions batch)"
      using arg_cong [OF ids(5), of set] by simp
    from marked(2) obtain rows where rows: "indexFile x (dbWorkspaceID b) = Some rows"
      "indexFile x' (dbWorkspaceID b) = Some (rows @ [markerRow h (length rows) b])"
      "\<forall>wid. wid \<noteq> dbWorkspaceID b \<longrightarrow> indexFile x' wid = indexFile x wid" unfolding marks_def by blast
    have "markedAt x' ref \<longrightarrow> markedAt x ref \<or> ref \<in> daAction ` set (dbActions batch)"
      using rows refs by (cases "rWorkspaceID ref = dbWorkspaceID b") (auto simp: markedAt_def markedIn_def)
    moreover have "markedAt x' (daAction a) \<and> \<not> markedAt x (daAction a)" if "a \<in> set (dbActions batch)" for a
    proof -
      have wid: "rWorkspaceID (daAction a) = dbWorkspaceID b" using ws that ids(1) by simp
      have mem: "daAction a \<in> daAction ` set (dbActions b)" using refs that by simp
      from marks_after [OF marked(2) mem, of "\<lambda>r. r = daAction a"] marks_before(2) [OF marked(2) mem]
      show ?thesis by (auto simp: markedAt_def fileMarks_def wid)
    qed
    ultimately show ?thesis using marked(3) by blast
  qed
  then show "markedAt x' ref \<Longrightarrow> markedAt x ref \<or> \<not> denied \<and> ref \<in> daAction ` set (dbActions batch)"
    "res = WorkspaceDispatchCommittedNow \<Longrightarrow> a \<in> set (dbActions batch) \<Longrightarrow>
      markedAt x' (daAction a) \<and> \<not> markedAt x (daAction a)"
    "denied \<Longrightarrow> (\<forall>wid. indexFile x' wid = indexFile x wid)" by blast+
  show "filesGrow x x'"
    using run
  proof (cases rule: begin_run)
    case (rejected e)
    then show ?thesis by (simp add: sameBut_grow)
  next
    case (same b)
    then show ?thesis by (auto simp: filesGrow_def)
  next
    case (marked b)
    then obtain rows where rows: "indexFile x (dbWorkspaceID b) = Some rows"
      "indexFile x' (dbWorkspaceID b) = Some (rows @ [markerRow h (length rows) b])"
      "\<forall>wid. wid \<noteq> dbWorkspaceID b \<longrightarrow> indexFile x' wid = indexFile x wid" unfolding marks_def by blast
    show ?thesis unfolding filesGrow_def
    proof (intro allI impI)
      fix wid rs assume "indexFile x wid = Some rs"
      with rows show "\<exists>rows'. indexFile x' wid = Some (rs @ rows')"
        by (cases "wid = dbWorkspaceID b") auto
    qed
  qed
qed

text \<open>Closing a denied batch adds resolutions to the index, and no marker.\<close>

definition resolutionsOnly :: "run_world \<Rightarrow> run_world \<Rightarrow> bool" where
  "resolutionsOnly w w' \<longleftrightarrow> resolutionsGrow (rcIndex w) (rcIndex w')"

lemma resolutionsOnly_trans: "resolutionsOnly a b \<Longrightarrow> resolutionsOnly b c \<Longrightarrow> resolutionsOnly a c"
  unfolding resolutionsOnly_def by (rule resolutionsGrow_trans)

lemma resolutionsOnly_same: "rcIndex w' = rcIndex w \<Longrightarrow> resolutionsOnly w w'"
  by (simp add: resolutionsOnly_def resolutionsGrow_same)

lemma resolutionsOnly_bind:
  "keepsS resolutionsOnly m \<Longrightarrow> (\<And>x. keepsS resolutionsOnly (f x)) \<Longrightarrow> keepsS resolutionsOnly (bindS m f)"
  by (rule keepsS_bind [where R = resolutionsOnly]) (rule resolutionsOnly_trans)

lemma resolutionsOnly_silent: "(\<And>w. rcIndex (snd (m w)) = rcIndex w) \<Longrightarrow> keepsS resolutionsOnly m"
  unfolding keepsS_def using resolutionsOnly_same by blast

lemma resolutionsOnly_decide:
  "(\<And>v x. keepsS resolutionsOnly (f v x)) \<Longrightarrow> keepsS resolutionsOnly (\<lambda>w. bindS (liftR (F w)) (f w) w)"
  unfolding keepsS_def by (auto simp: bindS_def resolutionsOnly_same split: sum.splits)

lemma onStore_index: "rcIndex (snd (onStore m w)) = rcIndex w"
  by (simp add: onStore_def split: prod.splits)

lemma appendAndRefreshRows_index: "rcIndex (snd (appendAndRefreshRows h ins w)) = rcIndex w"
proof -
  have ref: "rcIndex (snd (refreshSink v)) = rcIndex v" for v by (simp add: refreshSink_def split: sum.splits)
  have "rcIndex (snd (bindS (onStore m) (\<lambda>canonical. bindS refreshSink (\<lambda>_. okS canonical)) v)) = rcIndex v" for m :: "(open_store, session_entry list) op" and v
    using onStore_index [of m v] ref by (auto simp: bindS_def split: prod.splits sum.splits) (metis snd_conv)+
  then show ?thesis by (simp add: appendAndRefreshRows_def split: sum.splits)
qed

lemma write_resolutions: "keepsS resolutionsOnly (bindS (appendAndRefreshRows h ins) (\<lambda>_. okS ()))"
  by (intro resolutionsOnly_bind resolutionsOnly_silent appendAndRefreshRows_index) simp

lemma recordReceiptLocked_resolutions: "keepsS resolutionsOnly (recordReceiptLocked h receipt)"
proof -
  have "keepsS resolutionsOnly (case m of None \<Rightarrow> okS () | Some row \<Rightarrow> bindS (appendAndRefreshRows h [row]) (\<lambda>_. okS ()))" for m
    by (cases m) (simp_all add: write_resolutions resolutionsOnly_silent)
  moreover have "keepsS resolutionsOnly rejectAfterTerminal"
    by (rule resolutionsOnly_silent) (simp add: rejectAfterTerminal_def)
  ultimately show ?thesis unfolding recordReceiptLocked_def
    by (intro resolutionsOnly_bind resolutionsOnly_decide)
qed

lemma onIndex_resolutions: "keepsS resolutionsOnly (onIndex (ApplyDurableResolutions k vs))"
  unfolding keepsS_def resolutionsOnly_def
proof
  fix w :: run_world
  obtain r x where a: "ApplyDurableResolutions k vs (rcIndex w) = (r, x)" by force
  with Apply_run(1) [OF a] show "resolutionsGrow (rcIndex w) (rcIndex (snd (onIndex (ApplyDurableResolutions k vs) w)))"
    by (simp add: onIndex_def)
qed

lemma resolveExecutionLocked_resolutions: "keepsS resolutionsOnly (resolveExecutionLocked h r ref intent receipt allow)"
proof -
  have cp: "keepsS resolutionsOnly (appendCheckpoint h row)" for row
    unfolding appendCheckpoint_def
    by (intro resolutionsOnly_bind resolutionsOnly_silent appendAndRefreshRows_index) (simp split: list.splits)
  have "keepsS resolutionsOnly (bindS (case known of Some durable \<Rightarrow> okS durable | None \<Rightarrow> appendCheckpoint h row) (\<lambda>durable.
       onIndex (ApplyDurableResolutions (chIndex h) (vs durable))))" for known row vs
    by (cases known) (simp_all add: resolutionsOnly_bind cp onIndex_resolutions resolutionsOnly_silent)
  then show ?thesis unfolding resolveExecutionLocked_def
    by (intro resolutionsOnly_decide) (auto split: prod.splits)
qed

lemma closeCalls_resolutions: "keepsS resolutionsOnly (closeCalls h b index cs)"
proof (induction cs arbitrary: index)
  case Nil
  then show ?case by (simp add: keepsS_def resolutionsOnly_same)
next
  case (Cons c cs)
  have deny: "keepsS resolutionsOnly (resolveDenied h b i e)" for i e
    unfolding resolveDenied_def Let_def by (intro resolutionsOnly_decide resolveExecutionLocked_resolutions)
  have step: "keepsS resolutionsOnly (case q of None \<Rightarrow> okS () | Some (i, e) \<Rightarrow> resolveDenied h b i e)" for q
    by (cases q) (auto simp: deny resolutionsOnly_silent)
  let ?rest = "\<lambda>p. bindS (case snd p of None \<Rightarrow> okS () | Some (i, e) \<Rightarrow> resolveDenied h b i e) (\<lambda>_ w1.
      bindS (closeCalls h b (index + 1) cs) (\<lambda>rs. okS (fst p # rs)) w1)"
  have "keepsS resolutionsOnly (\<lambda>w. bindS (liftR (deniedCall (rcSink w) b index c))
      (\<lambda>p. bindS (recordReceiptLocked h (fst p)) (\<lambda>_. ?rest p)) w)"
    by (intro resolutionsOnly_decide resolutionsOnly_bind recordReceiptLocked_resolutions step Cons.IH)
      (simp add: resolutionsOnly_silent)
  moreover have "closeCalls h b index (c # cs) = (\<lambda>w. bindS (liftR (deniedCall (rcSink w) b index c))
      (\<lambda>p. bindS (recordReceiptLocked h (fst p)) (\<lambda>_. ?rest p)) w)" by (intro ext) simp
  ultimately show ?case by (simp only:)
qed

lemma closeRejectedBatch_resolutions: "keepsS resolutionsOnly (closeRejectedBatch h b)"
  unfolding closeRejectedBatch_def
  by (intro resolutionsOnly_decide resolutionsOnly_bind closeCalls_resolutions resolutionsOnly_silent) simp

section \<open>Reservations are durable before they are marked\<close>

text \<open>The session holds a row that reserves the intent, or one with the ID and content of such a row.\<close>

definition reservationHeld :: "commit_host \<Rightarrow> run_world \<Rightarrow> run_sink \<Rightarrow> session_entry list \<Rightarrow> action_intent \<Rightarrow> bool" where
  "reservationHeld h w s rows i \<longleftrightarrow> (\<exists>e. reserves s i e \<and>
     (\<exists>r \<in> set rows. r = e \<or> standsFor (chSession h) (rcDisk w, rcStore w) e r))"

lemma reserves_stamp: "stampOf s' e x \<Longrightarrow> reserves s i x = reserves s i e"
  by (auto simp: stampOf_def reserves_def refFromEntry_def)

lemma landed_calls:
  assumes "landed h w rows ins canon w' new" "r \<in> set new" "synced h w rows"
  shows "\<exists>e \<in> set ins. eToolCalls r = eToolCalls e"
  using landed_from [OF assms] by (auto simp: writtenFrom_def)

lemma standsFor_store: "standsFor h (d, s) e r = standsFor h (d', s) e r"
  by (simp add: standsFor_def)

text \<open>What holds once the rows of a decided batch are written.\<close>

lemma batch_written:
  assumes d: "decideBatch h ix s tick b = Inr (ins, actions)"
    and w0: "rcSink w0 = s" "synced h w0 rows"
    and run: "appendAndRefreshRows h ins w0 = (Inr canon, w1)" and room: "seqLeft w0 (Suc (length (ibIntents b)))"
    and k: "\<forall>e \<in> set rows. length (eToolCalls e) \<le> k" "length (mToolCalls (ibAssistantMessage b)) \<le> k"
  shows "\<exists>new. length new \<le> Suc (length (ibIntents b)) \<and> progress h w0 w1 rows new \<and> rcIndex w1 = rcIndex w0
    \<and> refreshed s (rcSink w1) \<and> (\<forall>e \<in> set (rows @ new). length (eToolCalls e) \<le> k)
    \<and> (\<forall>i \<in> set (ibIntents b). reservationHeld h w0 s (rows @ new) i)"
proof -
  note D = decideBatch_Inr [OF d]
  have "seqLeft w0 (length ins)" using room D(3) by (simp add: seqLeft_def)
  from appendAndRefreshRows_run [OF w0(2) this run] obtain new where new: "length new \<le> length ins"
    "progress h w0 w1 rows new" "rcIndex w1 = rcIndex w0" "refreshed (rcSink w0) (rcSink w1)"
    "ins \<noteq> [] \<longrightarrow> landed h w0 rows ins canon w1 new" by auto
  have calls: "\<forall>e \<in> set (rows @ new). length (eToolCalls e) \<le> k"
  proof
    fix e assume e: "e \<in> set (rows @ new)"
    show "length (eToolCalls e) \<le> k"
    proof (cases "e \<in> set rows")
      case False
      with e new(1) have "e \<in> set new" "ins \<noteq> []" by auto
      with landed_calls [OF new(5) [rule_format] _ w0(2)] obtain x where "x \<in> set ins" "eToolCalls e = eToolCalls x" by blast
      with D(4) k(2) le_trans show ?thesis by metis
    qed (use k in simp)
  qed
  have "reservationHeld h w0 s (rows @ new) i" if i: "i \<in> set (ibIntents b)" for i
  proof -
    from D(2) i obtain e where e: "e \<in> set ins \<union> set (rkBranchRows s)" "reserves s i e" by (auto simp: reservedIn_def)
    show ?thesis
    proof (cases "e \<in> set ins")
      case True
      then have "ins \<noteq> []" by auto
      with landed_stands [OF new(5) [rule_format] True] obtain x r where
        "stampOf (rcSink w0) e x" "r \<in> set (rows @ new)" "standsFor (chSession h) (rcDisk w0, rcStore w0) x r" by blast
      with reserves_stamp e(2) show ?thesis unfolding reservationHeld_def by blast
    next
      case False
      with e branch_rows [OF w0(2)] w0(1) have "e \<in> set (rows @ new)" by auto
      with e(2) show ?thesis unfolding reservationHeld_def by blast
    qed
  qed
  with new calls D(3) w0(1) show ?thesis using le_trans by blast
qed

lemma publishMarker_run:
  assumes run: "publishMarker h b actions w = (r, w')" and s: "synced h w rows"
    and refs: "map daAction actions = map intentRef (ibIntents b)"
    and ws: "\<forall>i \<in> set (ibIntents b). rWorkspaceID (intentRef i) = rkWorkspaceID (rcSink w)"
    and k: "\<forall>e \<in> set rows. length (eToolCalls e) \<le> k" and room: "seqLeft w (2 * k)"
  shows "\<exists>new. length new \<le> 2 * k \<and> progress h w w' rows new
    \<and> (\<forall>ref. markedAt (rcIndex w') ref \<longrightarrow> markedAt (rcIndex w) ref \<or> ref \<in> intentRef ` set (ibIntents b))
    \<and> (r = Inr () \<longrightarrow> (\<forall>i \<in> set (ibIntents b). markedAt (rcIndex w') (intentRef i) \<and> \<not> markedAt (rcIndex w) (intentRef i)))"
proof -
  let ?batch = "\<lparr> dbWorkspaceID = rkWorkspaceID (rcSink w), dbSessionID = rkSessionID (rcSink w), dbRunID = ibRunID b,
      dbActionBatchID = ibActionBatchID b, dbActions = actions, dbCanonicalWorkspaceRoot = ibCanonicalWorkspaceRoot b \<rparr>"
  have refs': "daAction ` set actions = intentRef ` set (ibIntents b)" using arg_cong [OF refs, of set] by simp
  have ws': "\<forall>a \<in> set (dbActions ?batch). rWorkspaceID (daAction a) = dbWorkspaceID ?batch"
  proof
    fix a assume "a \<in> set (dbActions ?batch)"
    then have "daAction a \<in> intentRef ` set (ibIntents b)" using refs' by (simp add: image_iff) (metis image_iff)
    with ws show "rWorkspaceID (daAction a) = dbWorkspaceID ?batch" by auto
  qed
  have pr: "progress h w (w \<lparr> rcIndex := ix \<rparr>) rows []" if "filesGrow (rcIndex w) ix" for ix
    using s that by (simp add: progress_def synced_def)
  from run show ?thesis
  proof (cases rule: publishMarker_cases)
    case (answered ix res denied err)
    note B = begin_markers [OF answered(1) ws']
    have marks: "\<forall>i \<in> set (ibIntents b). markedAt ix (intentRef i) \<and> \<not> markedAt (rcIndex w) (intentRef i)" if "r = Inr ()"
    proof
      fix i assume "i \<in> set (ibIntents b)"
      then obtain a where a: "a \<in> set actions" "daAction a = intentRef i" using refs' by (metis image_iff)
      with B(2) [of a] that answered(3) show "markedAt ix (intentRef i) \<and> \<not> markedAt (rcIndex w) (intentRef i)" by simp
    qed
    have only: "markedAt ix ref \<longrightarrow> markedAt (rcIndex w) ref \<or> ref \<in> intentRef ` set (ibIntents b)" for ref
      using B(1) [of ref] refs' by auto
    show ?thesis
      using pr [OF B(3)] marks only by (intro exI [of _ "[]"]) (simp add: answered(2))
  next
    case (closing ix res err r1)
    note B = begin_markers [OF closing(1) ws']
    let ?w = "w \<lparr> rcIndex := ix \<rparr>"
    have sy: "synced h ?w rows" using progress_synced [OF pr [OF B(3)]] by simp
    have kb: "\<forall>e \<in> set (rkBranchRows (rcSink ?w)). length (eToolCalls e) \<le> k" using branch_rows [OF sy] k by auto
    have "seqLeft ?w (2 * k)" using room by (simp add: seqLeft_def)
    from closeRejectedBatch_run [OF sy closing(2) kb this] obtain new where
      new: "length new \<le> 2 * k" "progress h ?w w' rows new" by blast
    have "progress h w w' rows new" using progress_trans [OF pr [OF B(3)], of w' new] new(2) by simp
    moreover have "markedAt (rcIndex w') ref \<longrightarrow> markedAt (rcIndex w) ref" for ref
    proof
      assume m: "markedAt (rcIndex w') ref"
      have "resolutionsOnly ?w w'" using keepsS_D [OF closeRejectedBatch_resolutions closing(2)] .
      with m have "markedAt ix ref" using markedAt_resolutions by (auto simp: resolutionsOnly_def)
      with B(4) show "markedAt (rcIndex w) ref" by (simp add: markedAt_def)
    qed
    ultimately show ?thesis using new(1) closing(3) by (intro exI [of _ new]) auto
  qed
qed

lemma reservationHeld_frame:
  assumes "rkSessionID s' = rkSessionID s" "rkOwnerGen s' = rkOwnerGen s" "rcStore w' = rcStore w"
  shows "reservationHeld h w' s' rows i = reservationHeld h w s rows i"
  using standsFor_store [of "chSession h" "rcDisk w'" "rcStore w" _ _ "rcDisk w"]
  by (simp add: reservationHeld_def reserves_def assms)

lemma reservationHeld_mono: "reservationHeld h w s rows i \<Longrightarrow> reservationHeld h w s (rows @ new) i"
  unfolding reservationHeld_def by auto

text \<open>
  Reserving a batch: markers appear for intents of the batch only, and only when each of them
  is in the session already; success is a fresh marker for every intent.
\<close>

lemma BeginIntentBatch_run:
  assumes run: "BeginIntentBatch h ctx b w = (r, w')" and s: "synced h w rows"
    and k: "\<forall>e \<in> set rows. length (eToolCalls e) \<le> k" "length (mToolCalls (ibAssistantMessage b)) \<le> k"
    and room: "seqLeft w (Suc (length (ibIntents b)) + 2 * k)"
  shows "\<exists>new. length new \<le> Suc (length (ibIntents b)) + 2 * k \<and> progress h w w' rows new
    \<and> (\<forall>ref. markedAt (rcIndex w') ref \<longrightarrow> markedAt (rcIndex w) ref \<or> ref \<in> intentRef ` set (ibIntents b)
          \<and> (\<forall>i \<in> set (ibIntents b). reservationHeld h w (rcSink w') (rows @ new) i))
    \<and> (r = Inr () \<longrightarrow> (\<forall>i \<in> set (ibIntents b). reservationHeld h w (rcSink w') (rows @ new) i
          \<and> markedAt (rcIndex w') (intentRef i) \<and> \<not> markedAt (rcIndex w) (intentRef i)))"
  using run
proof (cases rule: BeginIntentBatch_cases)
  case (refused d t n)
  have "progress h w w' rows []"
    using progress_sink [OF s refused(3)] refused(2) unfolding progress_def synced_def storedRows_def refused(1)
    by (simp add: sameFiles_bytes)
  with refused show ?thesis by (intro exI [of _ "[]"]) auto
next
  case (decided d t n ins actions r1 w1)
  let ?w = "w \<lparr> rcDisk := d, rcSink := t, rcTick := n \<rparr>"
  have p0: "progress h w ?w rows []"
    using progress_sink [OF s decided(2)] decided(1) unfolding progress_def synced_def storedRows_def
    by (simp add: sameFiles_bytes)
  have s0: "synced h ?w rows" using progress_synced [OF p0] by simp
  have room0: "seqLeft ?w (Suc (length (ibIntents b)))" using room by (simp add: seqLeft_def)
  note D = decideBatch_Inr [OF decided(4)]
  show ?thesis
  proof (cases r1)
    case (Inl e)
    with decided(6) have w': "w' = w1" "r = Inl e" by auto
    have "seqLeft ?w (length ins)" using room0 D(3) by (simp add: seqLeft_def)
    from appendAndRefreshRows_run [OF s0 this decided(5)] Inl have "progress h ?w w1 rows []" "rcIndex w1 = rcIndex ?w" by auto
    with progress_trans [OF p0, of w1 "[]"] w' show ?thesis by (intro exI [of _ "[]"]) simp
  next
    case (Inr canon)
    have sink: "rcSink ?w = t" by simp
    from batch_written [OF decided(4) sink s0 decided(5) [unfolded Inr] room0 k] obtain new where
      new: "length new \<le> Suc (length (ibIntents b))" "progress h ?w w1 rows new" "rcIndex w1 = rcIndex ?w"
      "refreshed t (rcSink w1)" "\<forall>e \<in> set (rows @ new). length (eToolCalls e) \<le> k"
      "\<forall>i \<in> set (ibIntents b). reservationHeld h ?w t (rows @ new) i" by blast
    have p1: "progress h w w1 rows new" using progress_trans [OF p0, of w1 new] new(2) by simp
    note fields = refreshed_fields [OF new(4)]
    show ?thesis
    proof (cases "actions = []")
      case True
      with D(1) have "ibIntents b = []" by simp
      with True Inr decided(6) p1 new(1,3) show ?thesis by (intro exI [of _ new]) auto
    next
      case False
      with Inr decided(6) have pub: "publishMarker h b actions w1 = (r, w')" by auto
      have "seqLeft w (length new + 2 * k)" using room new(1) by (simp add: seqLeft_def)
      then have "seqLeft w1 (2 * k)" by (rule progress_room [OF p1])
      with publishMarker_run [OF pub progress_synced [OF p1] D(1) _ new(5)] D(5) fields(2) obtain extra where
        ex: "length extra \<le> 2 * k" "progress h w1 w' (rows @ new) extra"
        "\<forall>ref. markedAt (rcIndex w') ref \<longrightarrow> markedAt (rcIndex w1) ref \<or> ref \<in> intentRef ` set (ibIntents b)"
        "r = Inr () \<longrightarrow> (\<forall>i \<in> set (ibIntents b). markedAt (rcIndex w') (intentRef i) \<and> \<not> markedAt (rcIndex w1) (intentRef i))"
        by auto
      have p2: "progress h w w' rows (new @ extra)" by (rule progress_trans [OF p1 ex(2)])
      have held: "\<forall>i \<in> set (ibIntents b). reservationHeld h w (rcSink w') (rows @ new @ extra) i"
      proof
        fix i assume i: "i \<in> set (ibIntents b)"
        have "sinkKept (rcSink w1) (rcSink w')" using ex(2) by (simp add: progress_def)
        then have "rkSessionID (rcSink w') = rkSessionID t" "rkOwnerGen (rcSink w') = rkOwnerGen t"
          using decided(3) fields by (simp_all add: sinkKept_def)
        then have "reservationHeld h w (rcSink w') (rows @ new) i = reservationHeld h ?w t (rows @ new) i"
          by (rule reservationHeld_frame) simp
        with new(6) i reservationHeld_mono [of h w "rcSink w'" "rows @ new" i extra]
        show "reservationHeld h w (rcSink w') (rows @ new @ extra) i" by simp
      qed
      from p2 ex held new(1,3) show ?thesis by (intro exI [of _ "new @ extra"]) auto
    qed
  qed
qed

end
