(* ===== verification/RunTrace.thy ===== *)
theory RunTrace
  imports IntentBatchFacts
begin

text \<open>
  The life of a run commit sink as a transition system: the operations the run owner may call
  (the interface \<open>core.RunCommitSink\<close> and the reconciliation of \<open>internal/session\<close>), in any
  order and with any outcome, the release of the lease, and what others do in between: another
  session working on the same workspace index, a cancelled context, a failing device.
\<close>

section \<open>The remaining operations\<close>

lemma TakeRejectedIntentBatch_commits: "commits h 0 (TakeRejectedIntentBatch ctx b)"
  unfolding TakeRejectedIntentBatch_def
proof (intro commits_then journal_intro)
  fix u :: unit
  show "commits h 0 (\<lambda>w. case rkRejectedBatch (rcSink w) of
         None \<Rightarrow> (Inr None, w)
       | Some j \<Rightarrow>
           if rjConsumed j then (Inr None, w)
           else if rjBatch j \<noteq> b
             then (Inl (Fault ''rejected-batch lookup does not match its exact captured batch''), w)
           else (Inr (Some (rjReceipts j)),
             w \<lparr> rcSink := rcSink w \<lparr> rkRejectedBatch := Some (j \<lparr> rjConsumed := True \<rparr>) \<rparr> \<rparr>))"
    unfolding commits_def
  proof (intro allI impI)
    fix w rows r w' assume s: "synced h w rows"
      and run: "(case rkRejectedBatch (rcSink w) of
         None \<Rightarrow> (Inr None, w)
       | Some j \<Rightarrow>
           if rjConsumed j then (Inr None, w)
           else if rjBatch j \<noteq> b
             then (Inl (Fault ''rejected-batch lookup does not match its exact captured batch''), w)
           else (Inr (Some (rjReceipts j)),
             w \<lparr> rcSink := rcSink w \<lparr> rkRejectedBatch := Some (j \<lparr> rjConsumed := True \<rparr>) \<rparr> \<rparr>)) = (r, w')"
    have only: "sinkOnly (rcSink w) (rcSink w \<lparr> rkRejectedBatch := x \<rparr>)" for x
      by (simp add: sinkOnly_def sinkKept_def)
    from run have "w' = w \<or> (\<exists>x. w' = w \<lparr> rcSink := rcSink w \<lparr> rkRejectedBatch := x \<rparr> \<rparr>)"
      by (auto split: option.splits if_splits)
    with s progress_sink [OF s only] show "\<exists>new. length new \<le> 0 \<and> progress h w w' rows new" by auto
  qed
qed

lemma SyncRecordedResolutions_commits: "commits h 0 (SyncRecordedResolutions h)"
proof -
  have apply_: "commits h 0 (onIndex (ApplyDurableResolutions (chIndex h) vs))" for vs
    by (intro commits_index Apply_grow)
  have tail: "commits h 0 (\<lambda>w. bindS (liftR (analyzeDurableActionJournal (rkAllRows (rcSink w)) (rkSessionID (rcSink w)))) (\<lambda>plan.
          if rpResolutions plan = [] then okS ()
          else onIndex (ApplyDurableResolutions (chIndex h) (rpResolutions plan))) w)"
    by (intro commits_decide) (simp add: journal_intro apply_)
  have "commits h 0 (\<lambda>w. (if rkClosed (rcSink v) then (\<lambda>w. (Inl (Fault ''run-commit lease is closed''), w))
      else bindS (onStore (onDisk contextErr)) (\<lambda>_ w.
        bindS (liftR (analyzeDurableActionJournal (rkAllRows (rcSink w)) (rkSessionID (rcSink w)))) (\<lambda>plan.
          if rpResolutions plan = [] then okS ()
          else onIndex (ApplyDurableResolutions (chIndex h) (rpResolutions plan))) w)) w)" for v
    using tail by (cases "rkClosed (rcSink v)") (simp_all add: journal_intro commits_then)
  from commits_read [OF this] show ?thesis unfolding SyncRecordedResolutions_def if_distrib [of "\<lambda>f. f _"] .
qed

lemma reconcileOccurrence_commits: "commits h 2 (reconcileOccurrence h q occ intent receipt)"
proof -
  let ?k = "\<lambda>checkpoint. resolveExecutionLocked h \<lparr> erRunID = rRunID (rqAction q), erActionID = rActionID (rqAction q),
             erEvidence = ResolutionOperatorReconciled, erEvidenceRef = eID checkpoint \<rparr> (rqAction q) intent receipt True"
  let ?c = "\<lambda>row m. case m of
             Some c \<Rightarrow>
               if eID c \<noteq> eID row \<or> eOperatorReconciliation c \<noteq> Some (requestRecord q)
                 then failS (Fault ''existing operator reconciliation checkpoint conflicts with this request'')
               else okS c
           | None \<Rightarrow> appendCheckpoint h row"
  have c: "commits h 1 (?c row m)" for row m
    using appendCheckpoint_commits [of h row] by (cases m) (simp_all add: journal_intro)
  have "commits h (1 + 1) (bindS (?c row m) ?k)" for row m
    by (intro commits_bind c resolveExecutionLocked_commits)
  then have k: "commits h 2 (bindS (?c row m) ?k)" for row m by (simp add: numeral_2_eq_2)
  have r: "commits h 2 (bindS (liftR (reconciliationRow h q occ intent)) (\<lambda>row.
         bindS (liftR (findOperatorReconciliation (rkBranchRows (rcSink v)) (rqAction q) (eOwnerGeneration intent))) (\<lambda>m.
         bindS (?c row m) ?k)))" for v
    by (intro commits_then [OF commits_basic(3)] k)
  have "commits h 2 (\<lambda>w. (if decisions \<noteq> [\<lparr> pdAction = rqAction q, pdMarkerState = DispatchMarkerPresent \<rparr>]
         then (\<lambda>w. (Inl (Fault ''operator reconciliation requires one present, unresolved workspace marker''), w))
       else bindS (liftR (reconciliationRow h q occ intent)) (\<lambda>row.
         bindS (liftR (findOperatorReconciliation (rkBranchRows (rcSink v)) (rqAction q) (eOwnerGeneration intent))) (\<lambda>m.
         bindS (?c row m) ?k))) w)" for decisions v
    by (rule commits_if) (rule commits_silent_pair, rule r)
  from commits_read [OF this] show ?thesis unfolding reconcileOccurrence_def if_distrib [of "\<lambda>f. f _"]
    by (intro commits_then commits_index Inspect_grow)
qed

lemma ReconcileUnknownAction_commits: "commits h 2 (ReconcileUnknownAction h q)"
proof -
  let ?blocked = "\<lambda>occ. list_ex (\<lambda>x. case eExecutionIdentity x of None \<Rightarrow> False
                   | Some i \<Rightarrow> piStatus (chInspect h i) = ProcessGroupExitPresent) (oExecutions occ)"
  let ?k = "\<lambda>v (occ, intent, receipt). case oResolution occ of
            Some x \<Rightarrow> bindS (liftR (checkRecordedReconciliation (rcSink v) q intent x)) (\<lambda>_.
              onIndex (ApplyDurableResolutions (chIndex h) [x]))
          | None \<Rightarrow>
              if ?blocked occ
                then failS (Fault ''operator reconciliation is blocked while the process group is present'')
              else reconcileOccurrence h q occ intent receipt"
  have k: "commits h 2 (?k v p)" for v p
    using reconcileOccurrence_commits
    by (auto split: prod.splits option.splits intro!: commits_then journal_intro Apply_grow)
  have "commits h 2 (\<lambda>w. bindS (liftR (unknownOccurrence (rcSink v) q)) (?k v) w)" for v
    by (intro commits_then journal_intro k)
  from commits_read [OF this]
  have "commits h 2 (bindS (onStore (onDisk contextErr)) (\<lambda>_ w. bindS (liftR (unknownOccurrence (rcSink w) q)) (?k w) w))"
    by (intro commits_then journal_intro)
  then have "commits h 2 (\<lambda>w. (if rkClosed (rcSink v) then (\<lambda>w. (Inl (Fault ''run-commit lease is closed''), w))
      else bindS (onStore (onDisk contextErr)) (\<lambda>_ w. bindS (liftR (unknownOccurrence (rcSink w) q)) (?k w) w)) w)" for v
    by (cases "rkClosed (rcSink v)") (simp_all add: journal_intro)
  from commits_read [OF this] show ?thesis unfolding ReconcileUnknownAction_def if_distrib [of "\<lambda>f. f _"] .
qed

section \<open>The transition system\<close>

datatype run_op =
    OpInput call_context run_input
  | OpIntents call_context intent_batch
  | OpTakeRejected call_context intent_batch
  | OpExecution call_context action_execution
  | OpReceipt call_context tool_receipt
  | OpResolve call_context execution_resolution
  | OpCompaction call_context compaction_projection
  | OpTerminal call_context run_terminal
  | OpSync
  | OpReconcile reconciliation_request

fun perform :: "commit_host \<Rightarrow> run_op \<Rightarrow> (run_world, unit) op" where
  "perform h (OpInput ctx input) = CommitInput h ctx input"
| "perform h (OpIntents ctx b) = BeginIntentBatch h ctx b"
| "perform h (OpTakeRejected ctx b) = bindS (TakeRejectedIntentBatch ctx b) (\<lambda>_. okS ())"
| "perform h (OpExecution ctx x) = RecordExecution h ctx x"
| "perform h (OpReceipt ctx t) = RecordReceipt h ctx t"
| "perform h (OpResolve ctx r) = ResolveExecution h ctx r"
| "perform h (OpCompaction ctx p) = CommitCompaction h ctx p"
| "perform h (OpTerminal ctx t) = CommitTerminal h ctx t"
| "perform h OpSync = SyncRecordedResolutions h"
| "perform h (OpReconcile q) = ReconcileUnknownAction h q"

text \<open>How many rows the operation may add; a rejected batch closes the calls of one turn.\<close>

definition mostCalls :: "session_entry list \<Rightarrow> nat" where
  "mostCalls rows = foldr (\<lambda>e. max (length (eToolCalls e))) rows 0"

fun opRows :: "session_entry list \<Rightarrow> run_op \<Rightarrow> nat" where
  "opRows rows (OpIntents ctx b) = Suc (length (ibIntents b))
     + 2 * max (mostCalls rows) (length (mToolCalls (ibAssistantMessage b)))"
| "opRows rows (OpTerminal ctx t) = Suc (length (rtTranscript t))"
| "opRows rows (OpReconcile q) = 2"
| "opRows rows (OpTakeRejected ctx b) = 0"
| "opRows rows OpSync = 0"
| "opRows rows (OpInput ctx input) = 1"
| "opRows rows (OpExecution ctx x) = 1"
| "opRows rows (OpReceipt ctx t) = 1"
| "opRows rows (OpResolve ctx r) = 1"
| "opRows rows (OpCompaction ctx p) = 1"

inductive runStep :: "commit_host \<Rightarrow> run_world \<Rightarrow> run_world \<Rightarrow> bool" for h where
  performed: "perform h op w = (r, w') \<Longrightarrow> seqLeft w (opRows (rkAllRows (rcSink w)) op) \<Longrightarrow> runStep h w w'"
| released: "runStep h w (CloseRunCommit w)"
| otherSession: "filesGrow (rcIndex w) x \<Longrightarrow> runStep h w (w \<lparr> rcIndex := x \<rparr>)"
| disturbed: "sameFiles (rcDisk w) d \<Longrightarrow> runStep h w (w \<lparr> rcDisk := d \<rparr>)"

inductive_cases runStep_cases: "runStep h w w'"

lemma mostCalls_bound: "e \<in> set rows \<Longrightarrow> length (eToolCalls e) \<le> mostCalls rows"
  unfolding mostCalls_def by (induction rows) auto

lemma BeginIntentBatch_progress:
  assumes s: "synced h w rows" and run: "BeginIntentBatch h ctx b w = (r, w')"
    and room: "seqLeft w (opRows rows (OpIntents ctx b))"
  shows "\<exists>new. progress h w w' rows new"
proof -
  have "\<forall>e \<in> set rows. length (eToolCalls e) \<le> max (mostCalls rows) (length (mToolCalls (ibAssistantMessage b)))"
    using mostCalls_bound by (simp add: le_max_iff_disj)
  from BeginIntentBatch_run [OF run s this] room show ?thesis by auto
qed

lemma perform_commits: "(\<forall>ctx b. op \<noteq> OpIntents ctx b) \<Longrightarrow> commits h (opRows rows op) (perform h op)"
  by (cases op) (simp_all add: CommitInput_commits RecordExecution_commits RecordReceipt_commits ResolveExecution_commits
    CommitCompaction_commits CommitTerminal_commits SyncRecordedResolutions_commits ReconcileUnknownAction_commits
    TakeRejectedIntentBatch_commits commits_then commits_basic del: One_nat_def)

lemma perform_progress:
  assumes s: "synced h w rows" and run: "perform h op w = (r, w')" and room: "seqLeft w (opRows rows op)"
  shows "\<exists>new. progress h w w' rows new"
proof (cases "\<exists>ctx b. op = OpIntents ctx b")
  case True
  with assms BeginIntentBatch_progress show ?thesis by fastforce
next
  case False
  then have "commits h (opRows rows op) (perform h op)" by (intro perform_commits) blast
  from commitsD [OF this s room run] show ?thesis by blast
qed

section \<open>What a run keeps\<close>

definition sinkStays :: "run_sink \<Rightarrow> run_sink \<Rightarrow> bool" where
  "sinkStays s s' \<longleftrightarrow> rkSessionID s' = rkSessionID s \<and> rkWorkspaceID s' = rkWorkspaceID s
     \<and> rkBranchID s' = rkBranchID s \<and> rkBaseView s' = rkBaseView s
     \<and> (rkClosed s \<longrightarrow> rkClosed s') \<and> (rkReleases s = of_bool (rkClosed s) \<longrightarrow> rkReleases s' = of_bool (rkClosed s'))
     \<and> (rkRunID s \<noteq> [] \<longrightarrow> rkRunID s' = rkRunID s \<and> rkOwnerGen s' = rkOwnerGen s)
     \<and> (rkTerminalID s \<noteq> [] \<longrightarrow> rkTerminalID s' = rkTerminalID s)"

lemma sinkStays_kept: "sinkKept s s' \<Longrightarrow> sinkStays s s'"
  by (simp add: sinkKept_def sinkStays_def)

lemma sinkStays_trans: "sinkStays a b \<Longrightarrow> sinkStays b c \<Longrightarrow> sinkStays a c"
  by (auto simp: sinkStays_def)

definition advances :: "commit_host \<Rightarrow> run_world \<Rightarrow> run_world \<Rightarrow> session_entry list \<Rightarrow> session_entry list \<Rightarrow> bool" where
  "advances h w w' rows new \<longleftrightarrow> synced h w' (rows @ new) \<and> dsName (rcStore w') = dsName (rcStore w)
     \<and> (dsPoisoned (rcStore w) \<longrightarrow> dsPoisoned (rcStore w'))
     \<and> (\<not> dsPoisoned (rcStore w') \<longrightarrow> fileBytes (rcDisk w') (dsName (rcStore w))
          = fileBytes (rcDisk w) (dsName (rcStore w)) @ concat (map (rowLine (chSession h)) new))
     \<and> sinkStays (rcSink w) (rcSink w') \<and> filesGrow (rcIndex w) (rcIndex w')
     \<and> (rkTerminalID (rcSink w') \<noteq> rkTerminalID (rcSink w) \<longrightarrow> rkTerminalID (rcSink w') \<in> eID ` set (rows @ new))"

lemma progress_advances: "progress h w w' rows new \<Longrightarrow> advances h w w' rows new"
  by (simp add: progress_def advances_def sinkStays_kept)

lemma advances_refl: "synced h w rows \<Longrightarrow> advances h w w rows []"
  by (auto simp: advances_def sinkStays_def)

lemma advances_trans:
  assumes "advances h w w1 rows new" "advances h w1 w2 (rows @ new) extra"
  shows "advances h w w2 rows (new @ extra)"
proof -
  note A = assms(1) [unfolded advances_def] and B = assms(2) [unfolded advances_def]
  have "sinkStays (rcSink w) (rcSink w2)" "filesGrow (rcIndex w) (rcIndex w2)"
    using A B sinkStays_trans filesGrow_trans by metis+
  moreover have "synced h w2 (rows @ new @ extra)" using B by simp
  moreover have "rkTerminalID (rcSink w2) \<noteq> rkTerminalID (rcSink w) \<longrightarrow> rkTerminalID (rcSink w2) \<in> eID ` set (rows @ new @ extra)"
    using A B by (cases "rkTerminalID (rcSink w2) = rkTerminalID (rcSink w1)") auto
  ultimately show ?thesis unfolding advances_def using A B by (simp, blast)
qed

lemma runStep_split:
  assumes "runStep h w w'" "synced h w rows"
  obtains (operation) op r where "perform h op w = (r, w')" "seqLeft w (opRows rows op)"
    | (environment) "advances h w w' rows []"
  using assms(1)
proof (cases rule: runStep.cases)
  case (performed op r)
  moreover have "rkAllRows (rcSink w) = rows" using assms(2) by (simp add: synced_def)
  ultimately show ?thesis using operation by metis
next
  case released
  with assms(2) have "advances h w w' rows []"
    by (auto simp: advances_def CloseRunCommit_def sinkStays_def synced_def)
  then show ?thesis by (rule environment)
next
  case (otherSession x)
  with assms(2) have "advances h w w' rows []"
    by (simp add: advances_def sinkStays_def synced_def)
  then show ?thesis by (rule environment)
next
  case (disturbed d)
  with progress_disk [OF assms(2)] progress_advances show ?thesis by (intro environment) blast
qed

lemma runStep_advances:
  assumes "runStep h w w'" "synced h w rows"
  shows "\<exists>new. advances h w w' rows new"
  using assms perform_progress progress_advances by (metis runStep_split)

lemma runSteps_advance:
  assumes "(runStep h)\<^sup>*\<^sup>* w w'" "synced h w rows"
  shows "\<exists>new. advances h w w' rows new"
  using assms
proof (induction rule: rtranclp_induct)
  case base
  with advances_refl show ?case by blast
next
  case (step w1 w2)
  then obtain new where 1: "advances h w w1 rows new" by blast
  then have "synced h w1 (rows @ new)" by (simp add: advances_def)
  with runStep_advances [OF step.hyps(2)] obtain extra where "advances h w1 w2 (rows @ new) extra" by blast
  with advances_trans [OF 1] show ?case by blast
qed

section \<open>A new sink\<close>

lemma NewSink_synced:
  assumes S: "storedRows (chSession h) (rcDisk w, rcStore w) rows"
    and new: "NewSessionRunCommitSink (rcStore w) wid = Inr (rcSink w)"
  shows "synced h w rows" "rkRunID (rcSink w) = []" "rkTerminalID (rcSink w) = []"
    "\<not> rkClosed (rcSink w)" "rkReleases (rcSink w) = 0" "rkWorkspaceID (rcSink w) = wid"
proof -
  obtain ls where M: "memoryOf (chSession h) (rcStore w) rows ls" using S by (auto simp: storedRows_def)
  from new obtain snap where snap: "snapshotLocked (rcStore w) = Inr snap"
    by (auto simp: NewSessionRunCommitSink_def bindR_eq_Inr split: if_splits)
  then have "\<not> dsClosed (rcStore w)" "\<not> dsPoisoned (rcStore w)" using dead_snapshot [of "rcStore w"] by auto
  from snapshot_memory [OF M this] snap have eq: "snap = snapshotOf (rcStore w) rows" by (simp add: snapshotOf_def)
  from new snap obtain all br plan where
    v: "validateRunCommitSnapshot snap = Inr (all, br)" "analyzeDurableActionJournal all (psSessionID snap) = Inr plan"
    "psActiveBranchID snap \<noteq> []"
    "rcSink w = \<lparr> rkSessionID = psSessionID snap, rkWorkspaceID = wid,
              rkBranchID = psActiveBranchID snap, rkLeafID = psActiveLeafEntryID snap,
              rkBaseView = psPublishedView snap, rkAllRows = all, rkBranchRows = br,
              rkRunID = [], rkOwnerGen = [], rkTerminalID = [], rkReleases = 0, rkClosed = False,
              rkRejectedBatch = None \<rparr>"
    by (auto simp: NewSessionRunCommitSink_def bindR_eq_Inr split: if_splits)
  have "all = rows" using validateSnapshot_ids(2) [of "rcStore w" rows] v(1) by (simp add: eq)
  with v show "synced h w rows" using S by (simp add: synced_def eq) (simp add: snapshotOf_def)
  from v(4) show "rkRunID (rcSink w) = []" "rkTerminalID (rcSink w) = []"
    "\<not> rkClosed (rcSink w)" "rkReleases (rcSink w) = 0" "rkWorkspaceID (rcSink w) = wid" by simp_all
qed

text \<open>A sink made for an open session, and the worlds its run can reach.\<close>

definition started :: "commit_host \<Rightarrow> run_world \<Rightarrow> session_entry list \<Rightarrow> bool" where
  "started h w rows \<longleftrightarrow> storedRows (chSession h) (rcDisk w, rcStore w) rows
     \<and> (\<exists>workspaceID. NewSessionRunCommitSink (rcStore w) workspaceID = Inr (rcSink w))"

lemma started_run:
  assumes "started h w0 rows" "(runStep h)\<^sup>*\<^sup>* w0 w"
  obtains new where "advances h w0 w rows new" "synced h w (rows @ new)" "rkAllRows (rcSink w) = rows @ new"
proof -
  from assms(1) NewSink_synced(1) have "synced h w0 rows" unfolding started_def by blast
  from runSteps_advance [OF assms(2) this] obtain new where a: "advances h w0 w rows new" ..
  then have s: "synced h w (rows @ new)" by (simp add: advances_def)
  then have "rkAllRows (rcSink w) = rows @ new" by (simp add: synced_def)
  with a s show thesis by (rule that)
qed

section \<open>Calls a sink refuses\<close>

fun opContext :: "run_op \<Rightarrow> call_context option" where
  "opContext (OpInput ctx input) = Some ctx"
| "opContext (OpIntents ctx b) = Some ctx"
| "opContext (OpTakeRejected ctx b) = Some ctx"
| "opContext (OpExecution ctx x) = Some ctx"
| "opContext (OpReceipt ctx t) = Some ctx"
| "opContext (OpResolve ctx r) = Some ctx"
| "opContext (OpCompaction ctx p) = Some ctx"
| "opContext (OpTerminal ctx t) = Some ctx"
| "opContext OpSync = None"
| "opContext (OpReconcile q) = None"

text \<open>A call bound to another sink, session or workspace, or made for another run or owner.\<close>

definition foreignCall :: "call_context \<Rightarrow> run_sink \<Rightarrow> bool" where
  "foreignCall ctx s \<longleftrightarrow> \<not> ctBound ctx \<or> cbSessionID (ctBinding ctx) \<noteq> rkSessionID s
     \<or> cbWorkspaceID (ctBinding ctx) \<noteq> rkWorkspaceID s
     \<or> rkRunID s \<noteq> [] \<and> (ctRunID ctx \<noteq> rkRunID s \<or> cbOwnerGeneration (ctBinding ctx) \<noteq> rkOwnerGen s)"

definition turnedAway :: "run_world \<Rightarrow> (run_world, 'a) op \<Rightarrow> bool" where
  "turnedAway w m \<longleftrightarrow> (\<exists>e d. m w = (Inl e, w \<lparr> rcDisk := d \<rparr>) \<and> sameFiles (rcDisk w) d)"

lemma turnedAway_bind: "turnedAway w m \<Longrightarrow> turnedAway w (bindS m f)"
  by (auto simp: turnedAway_def bindS_def)

lemma validateCallContext_refuses:
  assumes "rkClosed (rcSink w) \<or> foreignCall ctx (rcSink w)"
  shows "turnedAway w (validateCallContext ctx run)"
proof (cases "rkClosed (rcSink w)")
  case True
  then show ?thesis
    by (auto simp: turnedAway_def validateCallContext_def intro!: exI [of _ "rcDisk w"])
next
  case False
  obtain r d p where c: "onDisk contextErr (rcDisk w, rcStore w) = (r, (d, p))" by (rule prod_cases3)
  note same = contextErr_disk [OF c]
  have "\<exists>e. validateCallContext ctx run w = (Inl e, w \<lparr> rcDisk := d \<rparr>)"
    using False assms c same by (cases r) (auto simp: validateCallContext_def bindS_def onStore_def Let_def foreignCall_def split: sum.split)
  with same show ?thesis by (auto simp: turnedAway_def)
qed

lemma closed_refuses: "rkClosed (rcSink w) \<Longrightarrow> opContext op = None \<Longrightarrow> turnedAway w (perform h op)"
  by (cases op) (auto simp: turnedAway_def SyncRecordedResolutions_def ReconcileUnknownAction_def intro!: exI [of _ "rcDisk w"])

lemma perform_refuses:
  assumes "rkClosed (rcSink w) \<or> (\<exists>ctx. opContext op = Some ctx \<and> foreignCall ctx (rcSink w))"
  shows "turnedAway w (perform h op)"
proof (cases "opContext op")
  case None
  with assms closed_refuses show ?thesis by simp
next
  case (Some ctx)
  with assms have "\<And>run. turnedAway w (validateCallContext ctx run)" by (intro validateCallContext_refuses) auto
  with Some show ?thesis
    by (cases op) (auto simp: CommitInput_def BeginIntentBatch_def TakeRejectedIntentBatch_def RecordExecution_def
      RecordReceipt_def ResolveExecution_def CommitCompaction_def CommitTerminal_def intro!: turnedAway_bind)
qed

end
