(* ===== verification/TerminalFacts.thy ===== *)
theory TerminalFacts
  imports RunTrace
begin

text \<open>
  A run that has ended: after its terminal checkpoint the session takes only the positive
  proofs of dispatched actions and the checkpoints that resolve or reconcile them.
\<close>

definition lateRow :: "session_entry \<Rightarrow> bool" where
  "lateRow r \<longleftrightarrow> eTranscriptIndex r = None \<and> eToolCalls r = []
     \<and> (eType r = EntryTypeTool \<and> eActionState r = ActionStateExecution \<and> eCompletionProof r \<noteq> ProofEmpty
        \<or> eType r = EntryTypeCheckpoint
          \<and> (eCheckpointKind r = CheckpointExecutionResolution \<or> eCheckpointKind r = CheckpointReconciliation))"

lemma lateRow_written: "writtenFrom s e r \<Longrightarrow> lateRow r = lateRow e"
  by (auto simp: writtenFrom_def lateRow_def)

definition ended :: "commit_host \<Rightarrow> run_world \<Rightarrow> session_entry list \<Rightarrow> bool" where
  "ended h w rows \<longleftrightarrow> synced h w rows \<and> rkTerminalID (rcSink w) \<noteq> [] \<and> rkTerminalID (rcSink w) \<in> eID ` set rows"

lemma ended_progress: "ended h w rows \<Longrightarrow> progress h w w' rows new \<Longrightarrow> ended h w' (rows @ new)"
  by (auto simp: ended_def progress_def sinkKept_def)

definition late :: "commit_host \<Rightarrow> nat \<Rightarrow> (run_world, 'a) op \<Rightarrow> bool" where
  "late h n m \<longleftrightarrow> (\<forall>w rows r w'. ended h w rows \<longrightarrow> seqLeft w n \<longrightarrow> m w = (r, w')
     \<longrightarrow> (\<exists>new. length new \<le> n \<and> progress h w w' rows new \<and> (\<forall>e \<in> set new. lateRow e)))"

lemma late_silent: "commits h 0 m \<Longrightarrow> late h n m"
  unfolding late_def
proof (intro allI impI)
  fix w rows r w' assume c: "commits h 0 m" and e: "ended h w rows" "seqLeft w n" "m w = (r, w')"
  from e have "synced h w rows" "seqLeft w 0" by (simp_all add: ended_def seqLeft_def)
  from commitsD [OF c this e(3)] show "\<exists>new. length new \<le> n \<and> progress h w w' rows new \<and> (\<forall>e \<in> set new. lateRow e)"
    by (metis empty_iff le_zero_eq length_0_conv list.set(1) zero_le)
qed

lemma late_bind:
  assumes "late h n m" "\<And>x. late h k (f x)"
  shows "late h (n + k) (bindS m f)"
  unfolding late_def
proof (intro allI impI)
  fix w rows r w' assume s: "ended h w rows" and room: "seqLeft w (n + k)" and run: "bindS m f w = (r, w')"
  obtain r1 w1 where 1: "m w = (r1, w1)" by force
  have "seqLeft w n" using room by (simp add: seqLeft_def)
  with assms(1) s 1 obtain new where new: "length new \<le> n" "progress h w w1 rows new" "\<forall>e \<in> set new. lateRow e"
    unfolding late_def by blast
  show "\<exists>new. length new \<le> n + k \<and> progress h w w' rows new \<and> (\<forall>e \<in> set new. lateRow e)"
  proof (cases r1)
    case (Inl e)
    with run 1 new show ?thesis by (intro exI [of _ new]) (simp add: bindS_def)
  next
    case (Inr x)
    with run 1 have 2: "f x w1 = (r, w')" by (simp add: bindS_def)
    have "seqLeft w (length new + k)" using room new(1) by (simp add: seqLeft_def)
    then have "seqLeft w1 k" by (rule progress_room [OF new(2)])
    with assms(2) ended_progress [OF s new(2)] 2 obtain extra where
      "length extra \<le> k" "progress h w1 w' (rows @ new) extra" "\<forall>e \<in> set extra. lateRow e"
      unfolding late_def by blast
    with new progress_trans [OF new(2)] show ?thesis by (intro exI [of _ "new @ extra"]) auto
  qed
qed

lemma late_then: "commits h 0 m \<Longrightarrow> (\<And>x. late h n (f x)) \<Longrightarrow> late h n (bindS m f)"
  using late_bind [of h 0 m n f] late_silent [of h m 0] by simp

lemma late_first: "late h n m \<Longrightarrow> (\<And>x. commits h 0 (f x)) \<Longrightarrow> late h n (bindS m f)"
  using late_bind [of h n m 0 f] late_silent [of h "f _" 0] by simp

lemma late_read: "(\<And>v. late h n (g v)) \<Longrightarrow> late h n (\<lambda>w. g w w)"
  unfolding late_def by blast

lemma late_decide: "(\<And>v x. F v = Inr x \<Longrightarrow> late h n (f v x)) \<Longrightarrow> late h n (\<lambda>w. bindS (liftR (F w)) (f w) w)"
proof (rule late_read [of h n "\<lambda>v. bindS (liftR (F v)) (f v)"])
  fix v assume a: "\<And>v x. F v = Inr x \<Longrightarrow> late h n (f v x)"
  show "late h n (bindS (liftR (F v)) (f v))"
  proof (cases "F v")
    case (Inl e)
    then have "bindS (liftR (F v)) (f v) = liftR (Inl e)" by (intro ext) (simp add: bindS_def)
    then show ?thesis by (simp add: late_silent journal_intro)
  next
    case (Inr x)
    then have "bindS (liftR (F v)) (f v) = f v x" by (intro ext) (simp add: bindS_def)
    with a [OF Inr] show ?thesis by simp
  qed
qed

lemma late_write: "lateRow row \<Longrightarrow> late h 1 (appendAndRefreshRows h [row])"
  unfolding late_def
proof (intro allI impI)
  fix w rows r w' assume row: "lateRow row" and e: "ended h w rows" and room: "seqLeft w 1"
    and run: "appendAndRefreshRows h [row] w = (r, w')"
  have s: "synced h w rows" using e by (simp add: ended_def)
  from appendAndRefreshRows_run [OF s _ run] room obtain new where
    new: "length new \<le> 1" "progress h w w' rows new" "\<forall>err. r = Inl err \<longrightarrow> new = []"
    "\<forall>canon. r = Inr canon \<longrightarrow> landed h w rows [row] canon w' new" by auto
  have "lateRow e" if "e \<in> set new" for e
  proof -
    from that new(3) obtain canon where "r = Inr canon" by (cases r) auto
    with new(4) landed_from [OF _ that s] have "writtenFrom (rcSink w) row e" by fastforce
    with lateRow_written row show ?thesis by blast
  qed
  with new(1,2) show "\<exists>new. length new \<le> 1 \<and> progress h w w' rows new \<and> (\<forall>e \<in> set new. lateRow e)" by blast
qed

section \<open>Operations an ended run refuses\<close>

lemma late_refused: "late h n (bindS rejectAfterTerminal f)"
  unfolding late_def
proof (intro allI impI)
  fix w rows r w' assume "ended h w rows" "bindS rejectAfterTerminal f w = (r, w')"
  then have "w' = w" "synced h w rows" by (auto simp: ended_def bindS_def rejectAfterTerminal_def)
  then show "\<exists>new. length new \<le> n \<and> progress h w w' rows new \<and> (\<forall>e \<in> set new. lateRow e)"
    by (intro exI [of _ "[]"]) simp
qed

lemma late_owner: "(\<And>x. late h n (f x)) \<Longrightarrow> late h n (bindS (validateCallContext ctx run) f)"
  by (intro late_then journal_intro)

lemma recordReceiptLocked_late: "late h n (recordReceiptLocked h receipt)"
  unfolding recordReceiptLocked_def by (rule late_refused)

section \<open>Operations it takes\<close>

lemma executionRow_late:
  "executionRow h s x intent = Inr row \<Longrightarrow> axCompletionProof x \<noteq> ProofEmpty \<Longrightarrow> lateRow row"
  by (auto simp: executionRow_def Let_def bindR_eq_Inr lateRow_def emptyEntry_def)

lemma RecordExecution_late: "late h 1 (RecordExecution h ctx x)"
proof (cases "axCompletionProof x = ProofEmpty")
  case True
  then show ?thesis unfolding RecordExecution_def by (intro late_owner) (simp add: late_refused del: One_nat_def)
next
  case False
  have "late h 1 (case todo of None \<Rightarrow> okS () | Some row \<Rightarrow> bindS (appendAndRefreshRows h [row]) (\<lambda>_. okS ()))"
    if "decideExecution h s x = Inr todo" for todo s
  proof (cases todo)
    case None
    then show ?thesis by (simp add: late_silent journal_intro)
  next
    case (Some row)
    with that False have "lateRow row"
      by (auto simp: decideExecution_def bindR_eq_Inr dest: executionRow_late split: if_splits)
    with Some show ?thesis by (simp add: late_first late_write journal_intro del: One_nat_def)
  qed
  then show ?thesis using False unfolding RecordExecution_def
    by (intro late_owner) (simp add: late_decide late_then journal_intro del: One_nat_def)
qed

lemma appendCheckpoint_late: "lateRow row \<Longrightarrow> late h 1 (appendCheckpoint h row)"
  unfolding appendCheckpoint_def
  by (intro late_first late_write) (auto intro!: journal_intro split: list.splits)

lemma resolutionRow_late: "resolutionRow h ref intent r = Inr row \<Longrightarrow> lateRow row"
  by (auto simp: resolutionRow_def bindR_eq_Inr lateRow_def emptyEntry_def)

lemma decideResolution_row:
  "decideResolution h s r0 ref intent receipt allow = Inr (r, row, known) \<Longrightarrow> resolutionRow h ref intent r = Inr row"
  by (auto simp: decideResolution_def bindR_eq_Inr split: option.splits if_splits)

lemma resolveExecutionLocked_late: "late h 1 (resolveExecutionLocked h r0 ref intent receipt allow)"
  unfolding resolveExecutionLocked_def
proof (rule late_decide)
  fix v x assume d: "decideResolution h (rcSink v) r0 ref intent receipt allow = Inr x"
  obtain r row known where x: "x = (r, row, known)" by (cases x)
  have "lateRow row" using decideResolution_row [OF d [unfolded x]] resolutionRow_late by blast
  then have "late h 1 (case known of Some durable \<Rightarrow> okS durable | None \<Rightarrow> appendCheckpoint h row)"
    by (cases known) (simp_all add: late_silent journal_intro appendCheckpoint_late del: One_nat_def)
  then show "late h 1 (case x of (r, row, known) \<Rightarrow>
     bindS (case known of Some durable \<Rightarrow> okS durable | None \<Rightarrow> appendCheckpoint h row) (\<lambda>durable.
       onIndex (ApplyDurableResolutions (chIndex h)
         [\<lparr> vrAction = ref, vrCheckpointEntryID = eID durable, vrCheckpointSeq = eSeq durable, vrResolution = r \<rparr>])))"
    unfolding x by (simp add: late_first journal_intro Apply_grow del: One_nat_def)
qed

lemma late_refuse [journal_intro]: "late h n (\<lambda>w. (Inl e, w))" "late h n (failS e)"
  by (rule late_silent, intro journal_intro)+

lemma late_if: "(b \<Longrightarrow> late h n m) \<Longrightarrow> (\<not> b \<Longrightarrow> late h n m') \<Longrightarrow> late h n (if b then m else m')"
  by simp

lemma ResolveExecution_late: "late h 1 (ResolveExecution h ctx r)"
  unfolding ResolveExecution_def
proof (intro late_owner)
  fix u :: unit
  let ?f = "\<lambda>v. bindS (liftR (findIntentByActionID (rcSink v) (erRunID r) (erActionID r) (rkOwnerGen (rcSink v)))) (\<lambda>intent.
         bindS (liftR (findReceiptForIntent (rcSink v) (refFromEntry intent (rkSessionID (rcSink v))) intent)) (\<lambda>receipt.
           resolveExecutionLocked h r (refFromEntry intent (rkSessionID (rcSink v))) intent receipt False))"
  have "late h 1 (?f v)" for v
    by (intro late_then [OF commits_basic(3)] resolveExecutionLocked_late)
  then have "late h 1 (if erActionID r = [] then (\<lambda>w. (Inl (Fault ''execution resolution requires an action ID''), w)) else ?f v)" for v
    by (intro late_if late_refuse)
  from late_read [OF this]
  show "late h 1 (\<lambda>w. if erActionID r = [] then (Inl (Fault ''execution resolution requires an action ID''), w) else ?f w w)"
    unfolding if_distrib [of "\<lambda>f. f _"] .
qed

lemma reconciliationRow_late: "reconciliationRow h q occ intent = Inr row \<Longrightarrow> lateRow row"
  by (auto simp: reconciliationRow_def bindR_eq_Inr lateRow_def emptyEntry_def)

lemma reconcileOccurrence_late: "late h 2 (reconcileOccurrence h q occ intent receipt)"
proof -
  let ?k = "\<lambda>checkpoint. resolveExecutionLocked h \<lparr> erRunID = rRunID (rqAction q), erActionID = rActionID (rqAction q),
             erEvidence = ResolutionOperatorReconciled, erEvidenceRef = eID checkpoint \<rparr> (rqAction q) intent receipt True"
  let ?c = "\<lambda>row m. case m of
             Some c \<Rightarrow>
               if eID c \<noteq> eID row \<or> eOperatorReconciliation c \<noteq> Some (requestRecord q)
                 then failS (Fault ''existing operator reconciliation checkpoint conflicts with this request'')
               else okS c
           | None \<Rightarrow> appendCheckpoint h row"
  let ?row = "\<lambda>v row. bindS (liftR (findOperatorReconciliation (rkBranchRows (rcSink v)) (rqAction q) (eOwnerGeneration intent))) (\<lambda>m.
         bindS (?c row m) ?k)"
  have c: "late h 1 (?c row m)" if "lateRow row" for row m
    using appendCheckpoint_late [OF that, of h] by (cases m) (simp_all add: late_silent journal_intro)
  have "late h (1 + 1) (bindS (?c row m) ?k)" if "lateRow row" for row m
    by (intro late_bind c [OF that] resolveExecutionLocked_late)
  then have "late h 2 (bindS (?c row m) ?k)" if "lateRow row" for row m using that by (simp add: numeral_2_eq_2)
  then have "late h 2 (?row v row)" if "lateRow row" for v row
    using that by (intro late_then [OF commits_basic(3)])
  then have r: "late h 2 (bindS (liftR (reconciliationRow h q occ intent)) (?row v))" for v
    using late_decide [of "\<lambda>_. reconciliationRow h q occ intent" h 2 "\<lambda>_. ?row v"] reconciliationRow_late by blast
  have "late h 2 (\<lambda>w. (if decisions \<noteq> [\<lparr> pdAction = rqAction q, pdMarkerState = DispatchMarkerPresent \<rparr>]
         then (\<lambda>w. (Inl (Fault ''operator reconciliation requires one present, unresolved workspace marker''), w))
       else bindS (liftR (reconciliationRow h q occ intent)) (?row v)) w)" for decisions v
    by (rule late_if) (rule late_refuse, rule r)
  from late_read [OF this] show ?thesis unfolding reconcileOccurrence_def if_distrib [of "\<lambda>f. f _"]
    by (intro late_then commits_index Inspect_grow)
qed

lemma ReconcileUnknownAction_late: "late h 2 (ReconcileUnknownAction h q)"
proof -
  let ?blocked = "\<lambda>occ. list_ex (\<lambda>x. case eExecutionIdentity x of None \<Rightarrow> False
                   | Some i \<Rightarrow> piStatus (chInspect h i) = ProcessGroupExitPresent) (oExecutions occ)"
  let ?k = "\<lambda>v (occ, intent, receipt). case oResolution occ of
            Some x \<Rightarrow> bindS (liftR (checkRecordedReconciliation (rcSink v) q intent x)) (\<lambda>_.
              onIndex (ApplyDurableResolutions (chIndex h) [x]))
          | None \<Rightarrow>
              if ?blocked occ
                then failS (Fault ''operator reconciliation is blocked while the process group is present'')
              else reconcileOccurrence h q occ intent receipt"
  have k: "late h 2 (?k v p)" for v p
    using reconcileOccurrence_late
    by (auto split: prod.splits option.splits intro!: late_silent commits_then journal_intro Apply_grow)
  have "late h 2 (\<lambda>w. bindS (liftR (unknownOccurrence (rcSink v) q)) (?k v) w)" for v
    by (intro late_then [OF commits_basic(3)] k)
  from late_read [OF this]
  have "late h 2 (bindS (onStore (onDisk contextErr)) (\<lambda>_ w. bindS (liftR (unknownOccurrence (rcSink w) q)) (?k w) w))"
    by (intro late_then journal_intro)
  then have "late h 2 (\<lambda>w. (if rkClosed (rcSink v) then (\<lambda>w. (Inl (Fault ''run-commit lease is closed''), w))
      else bindS (onStore (onDisk contextErr)) (\<lambda>_ w. bindS (liftR (unknownOccurrence (rcSink w) q)) (?k w) w)) w)" for v
    by (cases "rkClosed (rcSink v)") (simp_all add: journal_intro)
  from late_read [OF this] show ?thesis unfolding ReconcileUnknownAction_def if_distrib [of "\<lambda>f. f _"] .
qed

lemma CommitTerminal_late: "late h (Suc (length (rtTranscript t))) (CommitTerminal h ctx t)"
  unfolding late_def ended_def using CommitTerminal_run by (metis empty_iff list.set(1))

section \<open>The run from its terminal on\<close>

lemma perform_late: "late h (opRows rows op) (perform h op)"
proof (cases op)
  case (OpInput ctx input)
  then show ?thesis by (simp add: CommitInput_def late_owner late_refused del: One_nat_def)
next
  case (OpIntents ctx b)
  then show ?thesis by (simp add: BeginIntentBatch_def late_owner late_refused)
next
  case (OpTakeRejected ctx b)
  then show ?thesis
    by (simp add: late_silent commits_then TakeRejectedIntentBatch_commits journal_intro)
next
  case (OpReceipt ctx t)
  then show ?thesis by (simp add: RecordReceipt_def late_owner recordReceiptLocked_late del: One_nat_def)
next
  case (OpCompaction ctx p)
  then show ?thesis by (simp add: CommitCompaction_def late_owner late_refused del: One_nat_def)
next
  case OpSync
  then show ?thesis by (simp add: late_silent SyncRecordedResolutions_commits)
qed (simp_all add: RecordExecution_late ResolveExecution_late CommitTerminal_late ReconcileUnknownAction_late del: One_nat_def)

lemma runSteps_late:
  assumes "(runStep h)\<^sup>*\<^sup>* w w'" "ended h w rows"
  shows "\<exists>new. advances h w w' rows new \<and> (\<forall>e \<in> set new. lateRow e)"
  using assms
proof (induction rule: rtranclp_induct)
  case base
  then show ?case using advances_refl by (intro exI [of _ "[]"]) (auto simp: ended_def)
next
  case (step w1 w2)
  then obtain new where 1: "advances h w w1 rows new" "\<forall>e \<in> set new. lateRow e" by blast
  have e1: "ended h w1 (rows @ new)"
    using step.prems 1(1) by (auto simp: ended_def advances_def sinkStays_def)
  then have s1: "synced h w1 (rows @ new)" by (simp add: ended_def)
  have "\<exists>extra. advances h w1 w2 (rows @ new) extra \<and> (\<forall>e \<in> set extra. lateRow e)"
    using step.hyps(2) s1
  proof (cases rule: runStep_split)
    case (operation op r)
    with perform_late e1 have "\<exists>extra. progress h w1 w2 (rows @ new) extra \<and> (\<forall>e \<in> set extra. lateRow e)"
      unfolding late_def by blast
    with progress_advances show ?thesis by blast
  qed (intro exI [of _ "[]"], simp)
  then obtain extra where "advances h w1 w2 (rows @ new) extra" "\<forall>e \<in> set extra. lateRow e" by blast
  with advances_trans [OF 1(1)] 1(2) show ?case by (intro exI [of _ "new @ extra"]) auto
qed

text \<open>A terminal the sink holds is a row of the session.\<close>

lemma runSteps_terminal:
  assumes "(runStep h)\<^sup>*\<^sup>* w w'" "synced h w rows" "rkTerminalID (rcSink w) = []" "rkTerminalID (rcSink w') \<noteq> []"
  shows "\<exists>new. advances h w w' rows new \<and> ended h w' (rows @ new)"
  using runSteps_advance [OF assms(1,2)] assms(3,4) by (auto simp: advances_def ended_def)

end
