(* ===== verification/ResolutionFacts.thy ===== *)
theory ResolutionFacts
  imports TerminalFacts
begin

text \<open>
  Resolutions are written ahead: the workspace index learns of a resolution only after its
  checkpoint is a row of the session.
\<close>

definition resolves :: "string \<Rightarrow> pending_ref \<Rightarrow> execution_resolution \<Rightarrow> session_entry \<Rightarrow> bool" where
  "resolves sid ref r e \<longleftrightarrow> eCheckpointKind e = CheckpointExecutionResolution
     \<and> refFromEntry e sid = ref \<and> eExecutionResolution e = Some r"

definition resolutionHeld ::
  "commit_host \<Rightarrow> run_world \<Rightarrow> session_entry list \<Rightarrow> pending_ref \<Rightarrow> execution_resolution \<Rightarrow> session_entry \<Rightarrow> bool" where
  "resolutionHeld h w rows ref r c \<longleftrightarrow> c \<in> set rows \<and> (\<exists>e. resolves (rkSessionID (rcSink w)) ref r e
     \<and> (c = e \<or> standsFor (chSession h) (rcDisk w, rcStore w) e c))"

lemma resolves_stamp: "stampOf s e x \<Longrightarrow> resolves sid ref r x = resolves sid ref r e"
  by (auto simp: stampOf_def resolves_def refFromEntry_def)

lemma resolutionRow_resolves:
  "resolutionRow h ref intent r = Inr row \<Longrightarrow> ref = refFromEntry intent sid
   \<Longrightarrow> resolves sid ref r row"
  by (auto simp: resolutionRow_def bindR_eq_Inr resolves_def refFromEntry_def emptyEntry_def)

lemma matchResolution_found:
  assumes "foldR (matchResolution sid ref intent) None rows = Inr (Some c)"
  shows "c \<in> set rows \<and> eCheckpointKind c = CheckpointExecutionResolution \<and> refFromEntry c sid = ref"
proof -
  have "\<forall>c. Some c = m \<longrightarrow> c \<in> set rows \<and> eCheckpointKind c = CheckpointExecutionResolution \<and> refFromEntry c sid = ref"
    if "foldR (matchResolution sid ref intent) None rows = Inr m" for m
    by (rule foldR_invariant [where I = "\<lambda>m. \<forall>c. Some c = m \<longrightarrow> c \<in> set rows
        \<and> eCheckpointKind c = CheckpointExecutionResolution \<and> refFromEntry c sid = ref", OF that])
      (auto simp: matchResolution_def split: if_splits)
  with assms show ?thesis by blast
qed

lemma decideResolution_Inr:
  assumes "decideResolution h s r0 ref intent receipt allow = Inr (r, row, known)"
  shows "resolutionRow h ref intent r = Inr row" "erEvidence r = erEvidence r0" "erActionID r = erActionID r0"
    "known = Some c \<Longrightarrow> c \<in> set (rkBranchRows s) \<and> resolves (rkSessionID s) ref r c"
proof -
  from assms obtain m r1 row1 where f: "resolveEvidenceReference s r0 ref intent receipt = Inr r1"
    "resolutionRow h ref intent r1 = Inr row1"
    "foldR (matchResolution (rkSessionID s) ref intent) None (rkBranchRows s) = Inr m"
    "(case m of None \<Rightarrow> Inr (r1, row1, None) | Some durable \<Rightarrow>
        if eID durable \<noteq> eID row1 \<or> eExecutionResolution durable \<noteq> Some r1
          then Inl (Fault ''execution resolution conflicts with the durable checkpoint'')
        else Inr (r1, row1, Some durable)) = Inr (r, row, known)"
    unfolding decideResolution_def bindR_eq_Inr by blast
  then have m: "resolveEvidenceReference s r0 ref intent receipt = Inr r" "resolutionRow h ref intent r = Inr row"
    "foldR (matchResolution (rkSessionID s) ref intent) None (rkBranchRows s) = Inr m"
    "known = m" "\<forall>c. m = Some c \<longrightarrow> eExecutionResolution c = Some r"
    by (cases m; auto split: if_splits)+
  then show "resolutionRow h ref intent r = Inr row" by simp
  show "erEvidence r = erEvidence r0" "erActionID r = erActionID r0"
    using m(1) by (auto simp: resolveEvidenceReference_def Let_def bindR_eq_Inr split: if_splits resolution_evidence.splits)
  show "c \<in> set (rkBranchRows s) \<and> resolves (rkSessionID s) ref r c" if "known = Some c"
    using matchResolution_found that m by (auto simp: resolves_def)
qed

lemma appendCheckpoint_run:
  assumes s: "synced h w rows" and room: "seqLeft w 1" and run: "appendCheckpoint h row w = (r, w')"
  shows "\<exists>new. length new \<le> 1 \<and> progress h w w' rows new \<and> rcIndex w' = rcIndex w \<and> refreshed (rcSink w) (rcSink w')
    \<and> (\<forall>c. r = Inr c \<longrightarrow> c \<in> set (rows @ new) \<and> (\<exists>x. stampOf (rcSink w) row x
          \<and> standsFor (chSession h) (rcDisk w, rcStore w) x c))"
proof -
  obtain r1 w1 where ap: "appendAndRefreshRows h [row] w = (r1, w1)" by force
  from appendAndRefreshRows_run [OF s _ ap] room obtain new where
    new: "length new \<le> 1" "progress h w w1 rows new" "rcIndex w1 = rcIndex w" "refreshed (rcSink w) (rcSink w1)"
    "\<forall>canon. r1 = Inr canon \<longrightarrow> landed h w rows [row] canon w1 new" by auto
  have w': "w' = w1" using run ap by (auto simp: appendCheckpoint_def bindS_def split: sum.splits list.splits if_splits)
  have held: "c \<in> set (rows @ new) \<and> (\<exists>x. stampOf (rcSink w) row x
          \<and> standsFor (chSession h) (rcDisk w, rcStore w) x c)" if "r = Inr c" for c
  proof -
    from that run ap have r1: "r1 = Inr [c]" and id: "eID c = eID row"
      by (auto simp: appendCheckpoint_def bindS_def split: sum.splits list.splits if_splits)
    from new(5) r1 have L: "landed h w rows [row] [c] w1 new" by blast
    then have c: "c \<in> set (rows @ new)" by (auto simp: landed_def journalAppend_def)
    from landed_stands [OF L] obtain x e where x: "stampOf (rcSink w) row x" "e \<in> set (rows @ new)"
      "standsFor (chSession h) (rcDisk w, rcStore w) x e" by auto
    have "eID e = eID c" using x id by (auto simp: standsFor_def stampOf_def)
    with synced_distinct [OF progress_synced [OF new(2)]] x(2) c have "e = c" by (metis distinct_map inj_onD)
    with c x show ?thesis by blast
  qed
  with new w' show ?thesis by blast
qed

lemma resolutionHeld_mono: "resolutionHeld h w rows ref r c \<Longrightarrow> resolutionHeld h w (rows @ new) ref r c"
  by (auto simp: resolutionHeld_def)

text \<open>
  What a resolution has done: the index changes only when the checkpoint is in the session;
  success means that the index covers the action.
\<close>

definition resolvedAhead :: "commit_host \<Rightarrow> run_world \<Rightarrow> run_world \<Rightarrow> session_entry list \<Rightarrow> pending_ref
    \<Rightarrow> execution_resolution \<Rightarrow> go_error + unit \<Rightarrow> bool" where
  "resolvedAhead h w w' rows ref r res \<longleftrightarrow> (rcIndex w' = rcIndex w \<and> res \<noteq> Inr ()) \<or>
     (\<exists>c. resolutionHeld h w rows ref r c \<and> resolutionsGrow (rcIndex w) (rcIndex w')
        \<and> (res = Inr () \<longrightarrow> coveredAt (chIndex h) (rcIndex w')
             \<lparr> vrAction = ref, vrCheckpointEntryID = eID c, vrCheckpointSeq = eSeq c, vrResolution = r \<rparr>))"

lemma onIndex_apply_run:
  assumes s: "synced h w rows" and run: "onIndex (ApplyDurableResolutions (chIndex h) vs) w = (r, w')"
  shows "progress h w w' rows []" "resolutionsGrow (rcIndex w) (rcIndex w')"
    "r = Inr () \<Longrightarrow> v \<in> set vs \<Longrightarrow> coveredAt (chIndex h) (rcIndex w') v"
proof -
  obtain r1 x where a: "ApplyDurableResolutions (chIndex h) vs (rcIndex w) = (r1, x)" by force
  with run have w': "w' = w \<lparr> rcIndex := x \<rparr>" "r = r1" by (simp_all add: onIndex_def)
  show "progress h w w' rows []"
    using s keepsS_D [OF Apply_grow a] by (simp add: w' progress_def synced_def)
  show "resolutionsGrow (rcIndex w) (rcIndex w')" using Apply_run(1) [OF a] by (simp add: w')
  show "coveredAt (chIndex h) (rcIndex w') v" if "r = Inr ()" "v \<in> set vs" using Apply_run(2) [OF a] that by (simp add: w')
qed

lemma resolveExecutionLocked_run:
  assumes s: "synced h w rows" and room: "seqLeft w 1" and ref: "ref = refFromEntry intent (rkSessionID (rcSink w))"
    and run: "resolveExecutionLocked h r0 ref intent receipt allow w = (res, w')"
  shows "\<exists>new r. length new \<le> 1 \<and> progress h w w' rows new \<and> erEvidence r = erEvidence r0
    \<and> resolvedAhead h w w' (rows @ new) ref r res"
proof (cases "decideResolution h (rcSink w) r0 ref intent receipt allow")
  case (Inl e)
  with run have "w' = w" "res = Inl e" by (simp_all add: resolveExecutionLocked_def bindS_def)
  with s show ?thesis by (intro exI [of _ "[]"] exI [of _ r0]) (simp add: resolvedAhead_def)
next
  case (Inr d)
  obtain r row known where d: "d = (r, row, known)" by (cases d)
  note D = decideResolution_Inr [OF Inr [unfolded d]]
  have row: "resolves (rkSessionID (rcSink w)) ref r row" by (rule resolutionRow_resolves [OF D(1) ref])
  let ?v = "\<lambda>c. \<lparr> vrAction = ref, vrCheckpointEntryID = eID c, vrCheckpointSeq = eSeq c, vrResolution = r \<rparr>"
  have finish: ?thesis if w1: "progress h w w1 rows new" "length new \<le> 1" "rcIndex w1 = rcIndex w"
    and c: "resolutionHeld h w (rows @ new) ref r c"
    and a: "onIndex (ApplyDurableResolutions (chIndex h) [?v c]) w1 = (res, w')" for w1 new c
  proof -
    note A = onIndex_apply_run [OF progress_synced [OF w1(1)] a]
    have "progress h w w' rows new" using progress_trans [OF w1(1) A(1)] by simp
    with w1 c A(2,3) D(2) show ?thesis
      by (intro exI [of _ new] exI [of _ r]) (auto simp: resolvedAhead_def)
  qed
  show ?thesis
  proof (cases known)
    case (Some c)
    with run Inr d have "onIndex (ApplyDurableResolutions (chIndex h) [?v c]) w = (res, w')"
      by (simp add: resolveExecutionLocked_def bindS_def)
    moreover have "resolutionHeld h w rows ref r c"
      using D(4) [OF Some] branch_rows [OF s] by (auto simp: resolutionHeld_def)
    ultimately show ?thesis using s by (intro finish [of w "[]" c]) simp_all
  next
    case None
    obtain r1 w1 where ap: "appendCheckpoint h row w = (r1, w1)" by force
    from appendCheckpoint_run [OF s room ap] obtain new where
      new: "length new \<le> 1" "progress h w w1 rows new" "rcIndex w1 = rcIndex w"
      "\<forall>c. r1 = Inr c \<longrightarrow> c \<in> set (rows @ new) \<and> (\<exists>x. stampOf (rcSink w) row x
          \<and> standsFor (chSession h) (rcDisk w, rcStore w) x c)" by blast
    show ?thesis
    proof (cases r1)
      case (Inl e)
      with run Inr d None ap have "w' = w1" "res = Inl e" by (simp_all add: resolveExecutionLocked_def bindS_def)
      with new D(2) show ?thesis by (intro exI [of _ new] exI [of _ r]) (simp add: resolvedAhead_def)
    next
      case (Inr c)
      with run \<open>decideResolution h (rcSink w) r0 ref intent receipt allow = Inr d\<close> d None ap
      have "onIndex (ApplyDurableResolutions (chIndex h) [?v c]) w1 = (res, w')"
        by (simp add: resolveExecutionLocked_def bindS_def)
      moreover have "resolutionHeld h w (rows @ new) ref r c"
        using new(4) Inr row resolves_stamp unfolding resolutionHeld_def by blast
      ultimately show ?thesis using new by (intro finish [of w1 new c])
    qed
  qed
qed

lemma findIntentByActionID_id:
  assumes "findIntentByActionID s run a owner = Inr e"
  shows "e \<in> set (rkBranchRows s) \<and> eActionID e = a \<and> eActionState e = ActionStateIntent \<and> eRunID e = run"
proof -
  from assms obtain m where m: "foldR (matchIntentByID s run a owner) None (rkBranchRows s) = Inr m" "m = Some e"
    by (auto simp: findIntentByActionID_def bindR_eq_Inr split: option.splits)
  have "\<forall>e. m = Some e \<longrightarrow> e \<in> set (rkBranchRows s) \<and> eActionID e = a \<and> eActionState e = ActionStateIntent \<and> eRunID e = run"
    by (rule foldR_invariant [where I = "\<lambda>m. \<forall>e. m = Some e \<longrightarrow> e \<in> set (rkBranchRows s) \<and> eActionID e = a
        \<and> eActionState e = ActionStateIntent \<and> eRunID e = run", OF m(1)]) (auto simp: matchIntentByID_def split: if_splits)
  with m(2) show ?thesis by blast
qed

text \<open>
  \<open>ResolveExecution\<close>: the index is touched only for an action the session has reserved, and
  only after its resolution is a row.
\<close>

lemma ResolveExecution_run:
  assumes s: "synced h w rows" and room: "seqLeft w 1" and run: "ResolveExecution h ctx r0 w = (res, w')"
  shows "\<exists>new. length new \<le> 1 \<and> progress h w w' rows new \<and> (rcIndex w' = rcIndex w \<and> res \<noteq> Inr ()
    \<or> (\<exists>intent \<in> set rows. \<exists>r. eActionState intent = ActionStateIntent \<and> eActionID intent = erActionID r0
        \<and> eRunID intent = erRunID r0 \<and> erEvidence r = erEvidence r0
        \<and> resolvedAhead h w w' (rows @ new) (refFromEntry intent (dsSessionID (rcStore w))) r res))"
proof -
  obtain r1 w0 where c: "validateCallContext ctx (erRunID r0) w = (r1, w0)" by force
  from c obtain d k where w0: "w0 = w \<lparr> rcDisk := d, rcSink := k \<rparr>" "sinkOnly (rcSink w) k"
    by (rule validateCallContext_outcome)
  have p0: "progress h w w0 rows []"
    by (rule commitsD [OF commits_callContext [where n = 0] s _ c]) (use room in \<open>auto simp: seqLeft_def\<close>)
  have s0: "synced h w0 rows" using progress_synced [OF p0] by simp
  let ?intent = "findIntentByActionID (rcSink w0) (erRunID r0) (erActionID r0) (rkOwnerGen (rcSink w0))"
  let ?ref = "\<lambda>e. refFromEntry e (rkSessionID (rcSink w0))"
  have refused: ?thesis if "w' = w0" "res \<noteq> Inr ()"
    using p0 that w0 by (intro exI [of _ "[]"]) simp
  show ?thesis
  proof (cases "r1 = Inr () \<and> erActionID r0 \<noteq> [] \<and> (\<exists>e. ?intent = Inr e \<and> (\<exists>x. findReceiptForIntent (rcSink w0) (?ref e) e = Inr x))")
    case False
    with run c show ?thesis
      by (intro refused; cases ?intent) (auto simp: ResolveExecution_def bindS_def split: sum.splits if_splits)
  next
    case True
    then obtain e x where e: "?intent = Inr e" "findReceiptForIntent (rcSink w0) (?ref e) e = Inr x" by blast
    with True run c have res: "resolveExecutionLocked h r0 (?ref e) e x False w0 = (res, w')"
      by (auto simp: ResolveExecution_def bindS_def)
    have "seqLeft w0 1" using progress_room [OF p0, of 1] room by simp
    from resolveExecutionLocked_run [OF s0 this refl res] obtain new r where
      new: "length new \<le> 1" "progress h w0 w' rows new" "erEvidence r = erEvidence r0"
      "resolvedAhead h w0 w' (rows @ new) (?ref e) r res" by blast
    have sid: "rkSessionID (rcSink w0) = dsSessionID (rcStore w)" "rkSessionID (rcSink w) = dsSessionID (rcStore w)"
      using s s0 w0 by (simp_all add: synced_def)
    have "resolvedAhead h w w' (rows @ new) (?ref e) r res"
      using new(4) w0 sid standsFor_store unfolding resolvedAhead_def resolutionHeld_def by fastforce
    moreover have "e \<in> set rows" using findIntentByActionID_id [OF e(1)] branch_rows [OF s0] by blast
    ultimately show ?thesis
      using findIntentByActionID_id [OF e(1)] new progress_trans [OF p0, of w' new] sid
      by (intro exI [of _ new]) (auto intro!: bexI [of _ e])
  qed
qed

end
