(* ===== verification/RunCommitSamples.thy ===== *)
theory RunCommitSamples
  imports RunCommitBatch StoreSamples
begin

text \<open>
  A run on the sample session: its owner commits one input, then an assistant turn with one
  tool call and the intent for it.
\<close>

fun keyText :: "commit_key \<Rightarrow> string" where
  "keyText (RunIndexKey run index) = ''i'' @ run"
| "keyText (RunOrdinalKey run ordinal) = ''o'' @ run"
| "keyText (IntentKey session workspace run ordinal call batch action owner) = ''n'' @ action"
| "keyText (ExecutionKey ref d s i p) = ''e'' @ rActionID ref"
| "keyText (ActionOwnerKey ref owner) = ''a'' @ rActionID ref"
| "keyText (CompactionKey run revision prior count boundary summary) = ''k'' @ run"

text \<open>The first character and the last two: enough to tell the keys of one run apart.\<close>

definition shortHash :: "string \<Rightarrow> string" where
  "shortHash s = take 1 s @ drop (length s - 2) s"

definition sampleCommitHost :: commit_host where
  "sampleCommitHost = \<lparr> chIndex = sampleHost, chSession = sampleSessionHost \<lparr> shSha256 := shortHash \<rparr>, chMarshalKey = (\<lambda>k. Some (keyText k)),
     chClock = (\<lambda>n. int n + 1),
     chInspect = (\<lambda>i. \<lparr> piStatus = ProcessGroupExitUnknown, piReason = [], piObservedAt = 0 \<rparr>) \<rparr>"

definition sampleSink :: run_sink where
  "sampleSink = \<lparr> rkSessionID = ''s_61'', rkWorkspaceID = ''w'', rkBranchID = ''main'', rkLeafID = [],
     rkBaseView = dsView sampleStore, rkAllRows = [], rkBranchRows = [], rkRunID = [], rkOwnerGen = [],
     rkTerminalID = [], rkReleases = 0, rkClosed = False, rkRejectedBatch = None \<rparr>"

lemma sampleSink_new: "NewSessionRunCommitSink sampleStore ''w'' = Inr sampleSink"
  by code_simp

definition sampleRunWorld :: run_world where
  "sampleRunWorld = \<lparr> rcDisk = sampleOpened, rcStore = sampleStore, rcIndex = readyWorld, rcSink = sampleSink, rcTick = 0 \<rparr>"

definition sampleContext :: call_context where
  "sampleContext = \<lparr> ctBound = True,
     ctBinding = \<lparr> cbSessionID = ''s_61'', cbWorkspaceID = ''w'', cbCanonicalWorkspaceRoot = ''/w'', cbOwnerGeneration = ''g'' \<rparr>,
     ctRunID = ''r'', ctGeneration = None \<rparr>"

definition sampleRunInput :: run_input where
  "sampleRunInput = \<lparr> riGeneration = None, riRunID = ''r'', riTranscriptIndex = 0,
     riMessage = emptyMessage \<lparr> mRole := ''user'', mContent := ''run it'' \<rparr>, riInputKind = InputKindUser \<rparr>"

definition sampleActionIntent :: action_intent where
  "sampleActionIntent = \<lparr> aiSessionID = ''s_61'', aiWorkspaceID = ''w'', aiRunID = ''r'', aiActionBatchID = ''b'',
     aiOwnerGeneration = ''g'', aiOrdinal = 1, aiToolCallID = ''c'', aiActionID = ''x'',
     aiToolIdentity = sampleTrusted \<lparr> ttToolName := ''bash'' \<rparr>, aiSchemaDigest = replicate 32 CHR ''s'',
     aiArgumentDigest = replicate 32 CHR ''d'', aiEffectSet = [EffectGitMutation, EffectWorkspaceWrite],
     aiScopedReadProof = None, aiManagedDelegationProof = None \<rparr>"

definition sampleIntentBatch :: intent_batch where
  "sampleIntentBatch = \<lparr> ibRunID = ''r'', ibActionBatchID = ''b'', ibOrdinal = 1,
     ibAssistantMessage = emptyMessage \<lparr> mRole := ''assistant'', mToolCalls := [sampleCall] \<rparr>,
     ibIntents = [sampleActionIntent], ibKnownReceipts = [], ibCanonicalWorkspaceRoot = ''/w'' \<rparr>"

text \<open>The world after the input: the session has its first row.\<close>

definition storedRun :: session_entry where
  "storedRun = emptyEntry \<lparr> eRecordVersion := 1, eSessionID := ''s_61'', eBranchID := ''main'', eRunID := ''r'',
     eWorkspaceID := ''w'' \<rparr>"

definition storedInput :: session_entry where
  "storedInput = storedRun \<lparr> eID := ''runcommit_696972'', eType := EntryTypeUser, eContent := ''run it'',
     eTimestamp := 1, eSeq := 1, eInputKind := InputKindUser, ePayloadDigest := ''sha256:7b327d'',
     eTranscriptIndex := Some 0 \<rparr>"

definition sampleInputWorld :: run_world where
  "sampleInputWorld = \<lparr> rcDisk = sampleOpened \<lparr> dkFiles :=
       (''s_61.jsonl'', encodeID storedInput @ [newline]) # dkFiles sampleOpened \<rparr>,
     rcStore = sampleStore \<lparr> dsActiveLeafID := eID storedInput, dsEntries := [(eID storedInput, storedInput)],
       dsAppendOrder := [eID storedInput], dsMaxSeq := 1,
       dsView := emptyView \<lparr> svSessionID := ''s_61'', svBranchID := ''main'', svRevision := ''sha256:72640a:1'',
         svMessages := [riMessage sampleRunInput \<lparr> mInputKind := InputKindUser \<rparr>],
         svSourceEntryIDs := [eID storedInput] \<rparr> \<rparr>,
     rcIndex = readyWorld,
     rcSink = sampleSink \<lparr> rkLeafID := eID storedInput, rkAllRows := [storedInput], rkBranchRows := [storedInput],
       rkRunID := ''r'', rkOwnerGen := ''g'' \<rparr>,
     rcTick = 1 \<rparr>"

lemma sampleInput_run:
  "CommitInput sampleCommitHost sampleContext sampleRunInput sampleRunWorld = (Inr (), sampleInputWorld)"
  by code_simp

definition sampleRunTerminal :: run_terminal where
  "sampleRunTerminal = \<lparr> rtGeneration = None, rtRunID = ''r'',
     rtTranscript = [emptyMessage \<lparr> mRole := ''user'', mContent := ''run it'', mInputKind := InputKindUser \<rparr>,
       emptyMessage \<lparr> mRole := ''assistant'', mContent := ''done'' \<rparr>],
     rtProjections = [], rtOutcome = RunOutcomeSuccess, rtTerminalCheckpointID = ''fin'' \<rparr>"

section \<open>A later point of the run\<close>

text \<open>
  The rows after the assistant's turn was reserved, dispatched and answered: the next step is
  the resolution of its action. The workspace index holds the marker.
\<close>

definition storedAssistant :: session_entry where
  "storedAssistant = storedRun \<lparr> eID := ''runcommit_616f72'', eParentID := ''runcommit_696972'',
     eType := EntryTypeAssistant, eTimestamp := 2, eToolCalls := [sampleCall], eSeq := 2,
     ePayloadDigest := ''sha256:7b327d'', eOrdinal := Some 1, eTranscriptIndex := Some 1 \<rparr>"

definition storedAction :: session_entry where
  "storedAction = storedRun \<lparr> eType := EntryTypeTool, eToolCallID := ''c'', eToolName := ''bash'',
     eActionBatchID := ''b'', eActionID := ''x'', eOwnerGeneration := ''g'', eOrdinal := Some 1 \<rparr>"

definition storedIntent :: session_entry where
  "storedIntent = storedAction \<lparr> eID := ''runcommit_696e78'', eParentID := ''runcommit_616f72'',
     eTimestamp := 3, eSeq := 3, eActionState := ActionStateIntent, ePayloadDigest := ''sha256:7b387d'',
     eArgumentDigest := hexEncode (replicate 32 CHR ''d''), eSchemaDigest := hexEncode (replicate 32 CHR ''s''),
     eToolIdentity := Some (identitySnapshot (sampleTrusted \<lparr> ttToolName := ''bash'' \<rparr>)),
     eEffectSet := [EffectGitMutation, EffectWorkspaceWrite] \<rparr>"

definition storedExecution :: session_entry where
  "storedExecution = storedAction \<lparr> eID := ''runcommit_656578'', eParentID := ''runcommit_696e78'',
     eTimestamp := 4, eSeq := 4, eActionState := ActionStateExecution, eDispatchState := DispatchStateDispatched,
     eResourceState := RunExecutionQuiescent, ePayloadDigest := ''sha256:7b387d'',
     eCompletionProof := CompletionOwnedProcessGroupJoined \<rparr>"

definition storedReceipt :: session_entry where
  "storedReceipt = storedAction \<lparr> eID := ''runcommit_726972'', eParentID := ''runcommit_656578'',
     eContent := ''ok'', eTimestamp := 5, eSeq := 5, eDispatchState := DispatchStateDispatched,
     eReceiptOutcome := ReceiptOutcomeSuccess, ePayloadDigest := ''sha256:7b327d'', eTranscriptIndex := Some 2 \<rparr>"

definition answeredRows :: "session_entry list" where
  "answeredRows = [storedInput, storedAssistant, storedIntent, storedExecution, storedReceipt]"

definition answeredStore :: durable_store where
  "answeredStore = sampleStore \<lparr> dsActiveLeafID := eID storedReceipt, dsEntries := tableOf answeredRows,
     dsAppendOrder := map eID answeredRows, dsMaxSeq := 5 \<rparr>"

definition answeredIndex :: index_world where
  "answeredIndex = snd (beginDispatchBatch sampleHost (sampleBatch \<lparr> dbSessionID := ''s_61'',
     dbActions := [sampleDispatch \<lparr> daAction := sampleRef \<lparr> rSessionID := ''s_61'' \<rparr> \<rparr>] \<rparr>) readyWorld)"

definition answeredWorld :: run_world where
  "answeredWorld = \<lparr> rcDisk = sampleOpened \<lparr> dkFiles := [(''s_61.jsonl'', concat (map (\<lambda>e. encodeID e @ [newline]) answeredRows))] \<rparr>,
     rcStore = answeredStore, rcIndex = answeredIndex,
     rcSink = sampleSink \<lparr> rkLeafID := eID storedReceipt, rkAllRows := answeredRows, rkBranchRows := answeredRows \<rparr>,
     rcTick = 3 \<rparr>"

lemma answeredWorld_sink: "NewSessionRunCommitSink (rcStore answeredWorld) ''w'' = Inr (rcSink answeredWorld)"
  by code_simp

definition sampleRunResolution :: execution_resolution where
  "sampleRunResolution = \<lparr> erRunID = ''r'', erActionID = ''x'', erEvidence = ResolutionLocalResourcesStopped, erEvidenceRef = [] \<rparr>"

end
