(* ===== verification/RunCommitProperties.thy ===== *)
theory RunCommitProperties
  imports ResolutionFacts RunCommitSamples
begin

text \<open>
  What the run commit sink guarantees over the life of a run: the session only grows, actions
  are reserved before they are dispatched and resolved in the session before they are resolved
  in the workspace index, and an ended run takes no more transcript.
\<close>

section \<open>The sample run\<close>

lemma sampleStore_memory: "memoryOf h sampleStore [] initialLoad"
proof -
  have "validateDurableBranchJournal [] = Inr ()" "validateDurableTranscriptCoordinates [] = Inr ()" by code_simp+
  then show ?thesis
    by (simp add: memoryOf_def accepted_iff loadRows_def sampleStore_def initialLoad_def tableOf_def)
qed

lemma sample_started: "started sampleCommitHost sampleRunWorld []"
  using sampleStore_memory sampleSink_new
  unfolding started_def storedRows_def sampleRunWorld_def run_world.simps snd_conv by blast

lemma sampleInput_step: "runStep sampleCommitHost sampleRunWorld sampleInputWorld"
proof (rule runStep.performed [of _ "OpInput sampleContext sampleRunInput"])
  show "perform sampleCommitHost (OpInput sampleContext sampleRunInput) sampleRunWorld = (Inr (), sampleInputWorld)"
    by (simp add: sampleInput_run)
  show "seqLeft sampleRunWorld (opRows (rkAllRows (rcSink sampleRunWorld)) (OpInput sampleContext sampleRunInput))"
    by (simp add: seqLeft_def sampleRunWorld_def sampleStore_def)
qed

lemma sampleInput_steps: "(runStep sampleCommitHost)\<^sup>*\<^sup>* sampleRunWorld sampleInputWorld"
  using sampleInput_step by blast

lemma sampleInput_room: "n < 1000 \<Longrightarrow> seqLeft sampleInputWorld n"
  by (simp add: seqLeft_def sampleInputWorld_def)

lemma answered_started: "started sampleCommitHost answeredWorld answeredRows"
proof -
  let ?load = "validateLoadedDurableEntries (chSession sampleCommitHost) answeredRows ''s_61''"
  have "map_sum id (\<lambda>ls. (lsMaxSeq ls, lsLeaf ls, lsBranch ls)) ?load = Inr (5, eID storedReceipt, ''main'')" by code_simp
  then obtain ls where "?load = Inr ls" "lsMaxSeq ls = 5" "lsLeaf ls = eID storedReceipt" "lsBranch ls = ''main''"
    by (cases ?load) auto
  then have "memoryOf (chSession sampleCommitHost) answeredStore answeredRows ls"
    by (simp add: memoryOf_def accepted_def answeredStore_def sampleStore_def)
  then have "storedRows (chSession sampleCommitHost) (rcDisk answeredWorld, rcStore answeredWorld) answeredRows"
    unfolding storedRows_def by (auto simp: answeredWorld_def)
  with answeredWorld_sink show ?thesis unfolding started_def by blast
qed

section \<open>Properties\<close>



text \<open>
  C6. Write-ahead of dispatch. After \<open>BeginIntentBatch\<close> the workspace index holds no marker it
  did not hold before except for the intents of the batch, and then the session already holds
  the reservation of every intent of the batch; success means that every intent is reserved in
  the session and has a marker which was not there before.
\<close>

theorem begin_intents_write_ahead:
  assumes "started h w0 rows" "(runStep h)\<^sup>*\<^sup>* w0 w" "BeginIntentBatch h ctx b w = (r, w')"
    and "seqLeft w (opRows (rkAllRows (rcSink w)) (OpIntents ctx b))"
  shows "(\<forall>ref. markedAt (rcIndex w') ref \<and> \<not> markedAt (rcIndex w) ref \<longrightarrow> ref \<in> intentRef ` set (ibIntents b)
       \<and> (\<forall>i \<in> set (ibIntents b). reservationHeld h w (rcSink w') (rkAllRows (rcSink w')) i))
    \<and> (r = Inr () \<longrightarrow> (\<forall>i \<in> set (ibIntents b). reservationHeld h w (rcSink w') (rkAllRows (rcSink w')) i
         \<and> markedAt (rcIndex w') (intentRef i) \<and> \<not> markedAt (rcIndex w) (intentRef i)))"
proof -
  obtain old where s: "synced h w (rows @ old)" "rkAllRows (rcSink w) = rows @ old"
    using assms(1,2) by (rule started_run)
  let ?k = "max (mostCalls (rows @ old)) (length (mToolCalls (ibAssistantMessage b)))"
  have k: "\<forall>e \<in> set (rows @ old). length (eToolCalls e) \<le> ?k"
    using mostCalls_bound by (simp add: le_max_iff_disj)
  have room: "seqLeft w (Suc (length (ibIntents b)) + 2 * ?k)" using assms(4) by (simp add: s(2))
  from BeginIntentBatch_run [OF assms(3) s(1) k max.cobounded2 room] obtain new where
    "progress h w w' (rows @ old) new" and
    B: "\<forall>ref. markedAt (rcIndex w') ref \<longrightarrow> markedAt (rcIndex w) ref \<or> ref \<in> intentRef ` set (ibIntents b)
          \<and> (\<forall>i \<in> set (ibIntents b). reservationHeld h w (rcSink w') ((rows @ old) @ new) i)"
    "r = Inr () \<longrightarrow> (\<forall>i \<in> set (ibIntents b). reservationHeld h w (rcSink w') ((rows @ old) @ new) i
          \<and> markedAt (rcIndex w') (intentRef i) \<and> \<not> markedAt (rcIndex w) (intentRef i))" by blast
  then have "rkAllRows (rcSink w') = (rows @ old) @ new" by (simp add: progress_def synced_def)
  with B show ?thesis by auto
qed

theorem begin_intents_write_ahead_witness:
  "\<exists>w'. BeginIntentBatch sampleCommitHost sampleContext sampleIntentBatch sampleInputWorld = (Inr (), w')
     \<and> markedAt (rcIndex w') (intentRef sampleActionIntent)
     \<and> reservationHeld sampleCommitHost sampleInputWorld (rcSink w') (rkAllRows (rcSink w')) sampleActionIntent"
proof -
  let ?run = "BeginIntentBatch sampleCommitHost sampleContext sampleIntentBatch sampleInputWorld"
  have "fst ?run = Inr ()" by code_simp
  then have run: "?run = (Inr (), snd ?run)" by (metis prod.collapse)
  have "opRows (rkAllRows (rcSink sampleInputWorld)) (OpIntents sampleContext sampleIntentBatch) < 1000"
    by (simp add: sampleInputWorld_def mostCalls_def storedInput_def storedRun_def emptyEntry_def sampleIntentBatch_def
      emptyMessage_def)
  from begin_intents_write_ahead [OF sample_started sampleInput_steps run sampleInput_room [OF this]] run
  show ?thesis by (intro exI [of _ "snd ?run"]) (simp add: sampleIntentBatch_def)
qed

text \<open>
  C8. Write-ahead of resolution. \<open>ResolveExecution\<close> leaves the workspace index alone and fails,
  or there is an intent of the action in the session and a checkpoint that resolves it with the
  requested evidence; the index then only gains resolutions, and on success it covers the
  action with that very checkpoint.
\<close>

theorem resolution_write_ahead:
  assumes "started h w0 rows" "(runStep h)\<^sup>*\<^sup>* w0 w" "ResolveExecution h ctx r0 w = (res, w')" "seqLeft w 1"
  shows "rcIndex w' = rcIndex w \<and> res \<noteq> Inr ()
    \<or> (\<exists>intent \<in> set (rkAllRows (rcSink w')). \<exists>r c. eActionState intent = ActionStateIntent
        \<and> eActionID intent = erActionID r0 \<and> eRunID intent = erRunID r0 \<and> erEvidence r = erEvidence r0
        \<and> resolutionHeld h w (rkAllRows (rcSink w')) (refFromEntry intent (rkSessionID (rcSink w))) r c
        \<and> resolutionsGrow (rcIndex w) (rcIndex w')
        \<and> (res = Inr () \<longrightarrow> coveredAt (chIndex h) (rcIndex w') \<lparr> vrAction = refFromEntry intent (rkSessionID (rcSink w)),
             vrCheckpointEntryID = eID c, vrCheckpointSeq = eSeq c, vrResolution = r \<rparr>))"
proof -
  obtain old where s: "synced h w (rows @ old)" using assms(1,2) by (rule started_run)
  have sid: "rkSessionID (rcSink w) = dsSessionID (rcStore w)" using s by (simp add: synced_def)
  from ResolveExecution_run [OF s assms(4,3)] obtain new where p: "progress h w w' (rows @ old) new" and
    R: "rcIndex w' = rcIndex w \<and> res \<noteq> Inr () \<or> (\<exists>intent \<in> set (rows @ old). \<exists>r. eActionState intent = ActionStateIntent
        \<and> eActionID intent = erActionID r0 \<and> eRunID intent = erRunID r0 \<and> erEvidence r = erEvidence r0
        \<and> resolvedAhead h w w' ((rows @ old) @ new) (refFromEntry intent (dsSessionID (rcStore w))) r res)" by blast
  from p have all: "rkAllRows (rcSink w') = (rows @ old) @ new" by (simp add: progress_def synced_def)
  show ?thesis
  proof (rule disjE [OF R])
    assume "\<exists>intent \<in> set (rows @ old). \<exists>r. eActionState intent = ActionStateIntent
        \<and> eActionID intent = erActionID r0 \<and> eRunID intent = erRunID r0 \<and> erEvidence r = erEvidence r0
        \<and> resolvedAhead h w w' ((rows @ old) @ new) (refFromEntry intent (dsSessionID (rcStore w))) r res"
    then obtain intent r where i: "intent \<in> set (rows @ old)" "eActionState intent = ActionStateIntent"
      "eActionID intent = erActionID r0" "eRunID intent = erRunID r0" "erEvidence r = erEvidence r0"
      "resolvedAhead h w w' ((rows @ old) @ new) (refFromEntry intent (dsSessionID (rcStore w))) r res" by blast
    then have "intent \<in> set (rkAllRows (rcSink w'))" by (auto simp: all)
    with i show ?thesis unfolding resolvedAhead_def all sid by blast
  qed simp
qed

theorem resolution_write_ahead_witness:
  "\<exists>w' c. ResolveExecution sampleCommitHost sampleContext sampleRunResolution answeredWorld = (Inr (), w')
     \<and> c \<in> set (rkAllRows (rcSink w')) \<and> resolutionsGrow (rcIndex answeredWorld) (rcIndex w')"
proof -
  let ?run = "ResolveExecution sampleCommitHost sampleContext sampleRunResolution answeredWorld"
  have "fst ?run = Inr ()" by code_simp
  then have run: "?run = (Inr (), snd ?run)" by (metis prod.collapse)
  have "seqLeft answeredWorld 1" by (simp add: seqLeft_def answeredWorld_def answeredStore_def)
  from resolution_write_ahead [OF answered_started rtranclp.rtrancl_refl run this] obtain c where
    "c \<in> set (rkAllRows (rcSink (snd ?run)))" "resolutionsGrow (rcIndex answeredWorld) (rcIndex (snd ?run))"
    by (auto simp: resolutionHeld_def)
  with run show ?thesis by blast
qed

text \<open>
  C9. A successful \<open>CommitTerminal\<close> leaves the terminal checkpoint with its outcome as a row of
  the session, and from then on the session takes only positive proofs of dispatched actions
  and the checkpoints that resolve or reconcile them: no input, assistant turn, reservation,
  receipt, compaction or second terminal, whatever is called in whatever order.
\<close>

theorem ended_run_frozen:
  assumes "started h w0 rows" "(runStep h)\<^sup>*\<^sup>* w0 w" "CommitTerminal h ctx t w = (Inr (), w1)"
    and "seqLeft w (Suc (length (rtTranscript t)))" "(runStep h)\<^sup>*\<^sup>* w1 w2"
  shows "(\<exists>e \<in> set (rkAllRows (rcSink w1)). endsRun t e)
    \<and> (\<exists>new. rkAllRows (rcSink w2) = rkAllRows (rcSink w1) @ new \<and> (\<forall>e \<in> set new. lateRow e))"
proof -
  obtain old where s: "synced h w (rows @ old)" using assms(1,2) by (rule started_run)
  from CommitTerminal_run [OF s assms(4,3)] obtain new where p: "progress h w w1 (rows @ old) new"
    and t: "rkTerminalID (rcSink w1) = rtTerminalCheckpointID t" "\<exists>e \<in> set ((rows @ old) @ new). endsRun t e" by blast
  have all: "rkAllRows (rcSink w1) = (rows @ old) @ new" using p by (simp add: progress_def synced_def)
  have "rtTerminalCheckpointID t \<in> eID ` set ((rows @ old) @ new)" using t(2) endsRun_ids by blast
  moreover have "rtTerminalCheckpointID t \<noteq> []" using assms(3) by (rule CommitTerminal_named)
  ultimately have "ended h w1 ((rows @ old) @ new)" using progress_synced [OF p] t(1) by (simp add: ended_def)
  from runSteps_late [OF assms(5) this] obtain more where "advances h w1 w2 ((rows @ old) @ new) more" "\<forall>e \<in> set more. lateRow e"
    by blast
  with all t(2) show ?thesis by (auto simp: advances_def synced_def)
qed

theorem ended_run_frozen_witness:
  "\<exists>w1. CommitTerminal sampleCommitHost sampleContext sampleRunTerminal sampleInputWorld = (Inr (), w1)
     \<and> (\<exists>e \<in> set (rkAllRows (rcSink w1)). eRunOutcome e = RunOutcomeSuccess)"
proof -
  let ?run = "CommitTerminal sampleCommitHost sampleContext sampleRunTerminal sampleInputWorld"
  have "fst ?run = Inr ()" by code_simp
  then have run: "?run = (Inr (), snd ?run)" by (metis prod.collapse)
  have "Suc (length (rtTranscript sampleRunTerminal)) < 1000" by (simp add: sampleRunTerminal_def)
  from ended_run_frozen [OF sample_started sampleInput_steps run sampleInput_room [OF this] rtranclp.rtrancl_refl] run
  show ?thesis by (intro exI [of _ "snd ?run"]) (auto simp: endsRun_def sampleRunTerminal_def)
qed

text \<open>
  C10. A sink turns away every call once it is closed, and every call that is bound to another
  sink, session or workspace or comes from another run or owner than the first: the call fails
  and no file, row, marker or field of the sink changes.
\<close>

theorem lease_refuses:
  assumes "rkClosed (rcSink w) \<or> (\<exists>ctx. opContext op = Some ctx \<and> foreignCall ctx (rcSink w))"
  shows "\<exists>e d. perform h op w = (Inl e, w \<lparr> rcDisk := d \<rparr>) \<and> dkFiles d = dkFiles (rcDisk w)"
  using perform_refuses [OF assms] by (auto simp: turnedAway_def sameFiles_def)

theorem lease_refuses_witness:
  "\<exists>e d. perform sampleCommitHost OpSync (CloseRunCommit sampleRunWorld) = (Inl e, CloseRunCommit sampleRunWorld \<lparr> rcDisk := d \<rparr>)"
proof -
  have "rkClosed (rcSink (CloseRunCommit sampleRunWorld))" by (simp add: CloseRunCommit_def)
  then show ?thesis using lease_refuses by blast
qed

end
