(* ===== verification/RunSlot.thy ===== *)
theory RunSlot
  imports Prelude
begin

text \<open>
  The run slot of \<open>internal/core/run_slot.go\<close>: one primary run at a time. The guard's mutex makes
  each locked section one step. A channel is a number; closing one twice, or closing nil, is a
  panic and an error of its own. Status handles are opaque addresses.
\<close>

section \<open>Channels\<close>

type_synonym channel = nat

datatype slot_error =
    ClaimCanceled | AdmissionClosed | SlotBusy | StaleClaim | InvalidClaim
  | WrapperAlreadyRegistered | WrapperStatusAlreadySet | NilStatusHandle | ClosePanic

record run_claim =
  clID :: string
  clAcquiredAt :: int

record active_run_claim =
  acClaim :: run_claim
  acOwnerReleased :: bool
  acWrapperRegistered :: bool
  acWrapperFinished :: bool
  acStatusAttached :: bool
  acStatus :: "nat option"

record run_slot =
  slCurrent :: "active_run_claim option"
  slAvailableCh :: "channel option"
  slClosedCh :: "channel option"
  slIdleCh :: "channel option"
  slClosed :: bool
  slShut :: "channel list"
  slFresh :: channel

definition zeroSlot :: run_slot where
  "zeroSlot = \<lparr> slCurrent = None, slAvailableCh = None, slClosedCh = None, slIdleCh = None, slClosed = False,
     slShut = [], slFresh = 0 \<rparr>"

definition closeChannel :: "channel option \<Rightarrow> run_slot \<Rightarrow> slot_error + run_slot" where
  "closeChannel c s = (case c of
      None \<Rightarrow> Inl ClosePanic
    | Some n \<Rightarrow> if n \<in> set (slShut s) then Inl ClosePanic else Inr (s \<lparr> slShut := n # slShut s \<rparr>))"

definition ensureNotifications :: "run_slot \<Rightarrow> run_slot" where
  "ensureNotifications s =
     (let s1 = (if slAvailableCh s = None then s \<lparr> slAvailableCh := Some (slFresh s), slFresh := Suc (slFresh s) \<rparr> else s);
          s2 = (if slClosedCh s1 = None then s1 \<lparr> slClosedCh := Some (slFresh s1), slFresh := Suc (slFresh s1) \<rparr> else s1)
      in if slIdleCh s2 = None then s2 \<lparr> slIdleCh := Some (slFresh s2), slFresh := Suc (slFresh s2) \<rparr> else s2)"

definition NewDefaultRunSlotGuard :: run_slot where
  "NewDefaultRunSlotGuard = ensureNotifications zeroSlot"

section \<open>Admission and claims\<close>

definition CloseAdmission :: "run_slot \<Rightarrow> slot_error + channel option \<times> run_slot" where
  "CloseAdmission s0 =
     (let s = ensureNotifications s0 in
      if slClosed s then Inr (slIdleCh s, s)
      else (case closeChannel (slClosedCh s) (s \<lparr> slClosed := True \<rparr>) of
          Inl e \<Rightarrow> Inl e
        | Inr s1 \<Rightarrow>
            if slCurrent s1 = None
              then (case closeChannel (slIdleCh s1) s1 of Inl e \<Rightarrow> Inl e | Inr s2 \<Rightarrow> Inr (slIdleCh s2, s2))
            else Inr (slIdleCh s1, s1)))"

definition newClaim :: "string \<Rightarrow> int \<Rightarrow> active_run_claim" where
  "newClaim i now = \<lparr> acClaim = \<lparr> clID = i, clAcquiredAt = now \<rparr>, acOwnerReleased = False,
     acWrapperRegistered = False, acWrapperFinished = False, acStatusAttached = False, acStatus = None \<rparr>"

text \<open>
  One round of \<open>ClaimRun\<close>: it claims the slot, gives up, or waits for one of two channels.
  \<open>canceled\<close> and \<open>canceledLate\<close> are the two readings of its context in that round.
\<close>

datatype claim_round = Claimed run_claim | GaveUp slot_error | AwaitChannels channel channel

definition claimRound :: "string \<Rightarrow> int \<Rightarrow> bool \<Rightarrow> bool \<Rightarrow> run_slot \<Rightarrow> claim_round \<times> run_slot" where
  "claimRound i now canceled canceledLate s0 =
     (if canceled then (GaveUp ClaimCanceled, s0)
      else let s = ensureNotifications s0 in
        if slClosed s then (GaveUp (if canceledLate then ClaimCanceled else AdmissionClosed), s)
        else case slCurrent s of
          None \<Rightarrow> (Claimed (acClaim (newClaim i now)), s \<lparr> slCurrent := Some (newClaim i now) \<rparr>)
        | Some _ \<Rightarrow> (AwaitChannels (the (slAvailableCh s)) (the (slClosedCh s)), s))"

definition TryClaimRun :: "string \<Rightarrow> int \<Rightarrow> run_slot \<Rightarrow> (slot_error + run_claim) \<times> run_slot" where
  "TryClaimRun i now s0 =
     (let s = ensureNotifications s0 in
      if slClosed s then (Inl AdmissionClosed, s)
      else if slCurrent s \<noteq> None then (Inl SlotBusy, s)
      else (Inr (acClaim (newClaim i now)), s \<lparr> slCurrent := Some (newClaim i now) \<rparr>))"

section \<open>Release\<close>

text \<open>The claim the slot holds, if it is the one with this ID.\<close>

definition holding :: "string \<Rightarrow> run_slot \<Rightarrow> active_run_claim option" where
  "holding i s = (case slCurrent s of None \<Rightarrow> None | Some c \<Rightarrow> if clID (acClaim c) = i then Some c else None)"

definition finalizeRelease :: "string \<Rightarrow> run_slot \<Rightarrow> slot_error + bool \<times> run_slot" where
  "finalizeRelease i s = (case holding i s of
      None \<Rightarrow> Inr (False, s)
    | Some c \<Rightarrow>
        if \<not> acOwnerReleased c then Inr (False, s)
        else (case closeChannel (slAvailableCh s) (s \<lparr> slCurrent := None \<rparr>) of
            Inl e \<Rightarrow> Inl e
          | Inr s1 \<Rightarrow>
              let s2 = s1 \<lparr> slAvailableCh := Some (slFresh s1), slFresh := Suc (slFresh s1) \<rparr> in
              if slClosed s2 then (case closeChannel (slIdleCh s2) s2 of Inl e \<Rightarrow> Inl e | Inr s3 \<Rightarrow> Inr (True, s3))
              else Inr (True, s2)))"

definition Release :: "string \<Rightarrow> run_slot \<Rightarrow> slot_error + run_slot" where
  "Release i s = (case holding i s of
      None \<Rightarrow> Inr s
    | Some c \<Rightarrow>
        let s1 = s \<lparr> slCurrent := Some (c \<lparr> acOwnerReleased := True \<rparr>) \<rparr> in
        if acWrapperRegistered c \<and> \<not> acWrapperFinished c then Inr s1
        else map_sum id snd (finalizeRelease i s1))"

text \<open>\<open>run\<close> is the run itself: its result, and the slot as it leaves it, even when it panics.\<close>

definition ExecuteClaimedRun ::
  "string \<Rightarrow> (run_slot \<Rightarrow> 'r \<times> run_slot) \<Rightarrow> run_slot \<Rightarrow> slot_error + 'r \<times> run_slot" where
  "ExecuteClaimedRun i run s =
     (if holding i s = None then Inl InvalidClaim
      else case run s of (r, s1) \<Rightarrow> map_sum id (Pair r) (Release i s1))"

section \<open>Wrapper leases\<close>

definition RegisterRunWrapper :: "string \<Rightarrow> nat option \<Rightarrow> run_slot \<Rightarrow> slot_error + run_slot" where
  "RegisterRunWrapper i status s = (case holding i s of
      None \<Rightarrow> Inl StaleClaim
    | Some c \<Rightarrow>
        if acWrapperRegistered c then Inl WrapperAlreadyRegistered
        else Inr (s \<lparr> slCurrent := Some (c \<lparr> acWrapperRegistered := True, acStatus := status,
               acStatusAttached := status \<noteq> None \<rparr>) \<rparr>))"

text \<open>The callback of a registered wrapper; \<open>fired\<close>: it has run before.\<close>

definition wrapperDone :: "string \<Rightarrow> bool \<Rightarrow> run_slot \<Rightarrow> slot_error + run_slot" where
  "wrapperDone i fired s =
     (if fired then Inr s
      else case holding i s of
        None \<Rightarrow> Inr s
      | Some c \<Rightarrow>
          let s1 = s \<lparr> slCurrent := Some (c \<lparr> acWrapperFinished := True \<rparr>) \<rparr> in
          if acOwnerReleased c then map_sum id snd (finalizeRelease i s1) else Inr s1)"

definition SetRunWrapperStatus :: "string \<Rightarrow> nat option \<Rightarrow> run_slot \<Rightarrow> slot_error + run_slot" where
  "SetRunWrapperStatus i status s =
     (if status = None then Inl NilStatusHandle
      else case holding i s of
        None \<Rightarrow> Inl StaleClaim
      | Some c \<Rightarrow>
          if \<not> acWrapperRegistered c \<or> acWrapperFinished c then Inl StaleClaim
          else if acStatusAttached c then Inl WrapperStatusAlreadySet
          else Inr (s \<lparr> slCurrent := Some (c \<lparr> acStatus := status, acStatusAttached := True \<rparr>) \<rparr>))"

text \<open>
  The status of the active claim: \<open>snapshot\<close> reads a handle; without one the claim is reported
  as a running run of its own ID, by \<open>running\<close>.
\<close>

definition ActiveRunStatus :: "(nat \<Rightarrow> 's) \<Rightarrow> (string \<Rightarrow> 's) \<Rightarrow> run_slot \<Rightarrow> 's option" where
  "ActiveRunStatus snapshot running s = (case slCurrent s of
      None \<Rightarrow> None
    | Some c \<Rightarrow> Some (case acStatus c of None \<Rightarrow> running (clID (acClaim c)) | Some handle \<Rightarrow> snapshot handle))"

section \<open>The guard and its callers\<close>

text \<open>
  Callers of \<open>ClaimRun\<close> poll, wait on two channels, or have returned. The wrapper callbacks
  carry the claim they were made for. Every accepted step is an event.
\<close>

datatype claimant = Polling | Waiting channel channel | Returned

record slot_world =
  swSlot :: run_slot
  swClaimants :: "(string \<times> claimant) list"
  swCallbacks :: "(string \<times> bool) list"

datatype slot_event = Granted string | OwnerReleased string | WrapperRegistered string | WrapperFinished string | Quiet

text \<open>IDs of claims are new: \<open>newClaimID\<close> draws eight random bytes.\<close>

inductive slotRun :: "slot_event list \<Rightarrow> slot_world \<Rightarrow> bool" where
  start: "s = zeroSlot \<or> s = NewDefaultRunSlotGuard \<Longrightarrow> slotRun [] \<lparr> swSlot = s, swClaimants = [], swCallbacks = [] \<rparr>"
| call: "slotRun es w \<Longrightarrow> i \<notin> fst ` set (swClaimants w)
     \<Longrightarrow> slotRun es (w \<lparr> swClaimants := (i, Polling) # swClaimants w \<rparr>)"
| granted: "slotRun es w \<Longrightarrow> map_of (swClaimants w) i = Some Polling
     \<Longrightarrow> claimRound i now canceled late (swSlot w) = (Claimed c, s)
     \<Longrightarrow> slotRun (es @ [Granted i]) (w \<lparr> swSlot := s, swClaimants := (i, Returned) # swClaimants w \<rparr>)"
| gaveUp: "slotRun es w \<Longrightarrow> map_of (swClaimants w) i = Some Polling
     \<Longrightarrow> claimRound i now canceled late (swSlot w) = (GaveUp e, s)
     \<Longrightarrow> slotRun es (w \<lparr> swSlot := s, swClaimants := (i, Returned) # swClaimants w \<rparr>)"
| awaits: "slotRun es w \<Longrightarrow> map_of (swClaimants w) i = Some Polling
     \<Longrightarrow> claimRound i now canceled late (swSlot w) = (AwaitChannels a c, s)
     \<Longrightarrow> slotRun es (w \<lparr> swSlot := s, swClaimants := (i, Waiting a c) # swClaimants w \<rparr>)"
| woken: "slotRun es w \<Longrightarrow> map_of (swClaimants w) i = Some (Waiting a c)
     \<Longrightarrow> a \<in> set (slShut (swSlot w)) \<or> c \<in> set (slShut (swSlot w))
     \<Longrightarrow> slotRun es (w \<lparr> swClaimants := (i, Polling) # swClaimants w \<rparr>)"
| canceled: "slotRun es w \<Longrightarrow> map_of (swClaimants w) i = Some (Waiting a c)
     \<Longrightarrow> slotRun es (w \<lparr> swClaimants := (i, Returned) # swClaimants w \<rparr>)"
| tried: "slotRun es w \<Longrightarrow> i \<notin> fst ` set (swClaimants w) \<Longrightarrow> TryClaimRun i now (swSlot w) = (r, s)
     \<Longrightarrow> slotRun (es @ [case r of Inr _ \<Rightarrow> Granted i | Inl _ \<Rightarrow> Quiet])
           (w \<lparr> swSlot := s, swClaimants := (i, Returned) # swClaimants w \<rparr>)"
| ownerReleased: "slotRun es w \<Longrightarrow> Release i (swSlot w) = Inr s
     \<Longrightarrow> slotRun (es @ [OwnerReleased i]) (w \<lparr> swSlot := s \<rparr>)"
| registered: "slotRun es w \<Longrightarrow> RegisterRunWrapper i status (swSlot w) = Inr s
     \<Longrightarrow> slotRun (es @ [WrapperRegistered i]) (w \<lparr> swSlot := s, swCallbacks := swCallbacks w @ [(i, False)] \<rparr>)"
| finished: "slotRun es w \<Longrightarrow> k < length (swCallbacks w) \<Longrightarrow> swCallbacks w ! k = (i, fired)
     \<Longrightarrow> wrapperDone i fired (swSlot w) = Inr s
     \<Longrightarrow> slotRun (es @ [WrapperFinished i]) (w \<lparr> swSlot := s, swCallbacks := (swCallbacks w)[k := (i, True)] \<rparr>)"
| statusSet: "slotRun es w \<Longrightarrow> SetRunWrapperStatus i status (swSlot w) = Inr s \<Longrightarrow> slotRun es (w \<lparr> swSlot := s \<rparr>)"
| admissionClosed: "slotRun es w \<Longrightarrow> CloseAdmission (swSlot w) = Inr (c, s) \<Longrightarrow> slotRun es (w \<lparr> swSlot := s \<rparr>)"

end
