(* ===== verification/RunSlotFacts.thy ===== *)
theory RunSlotFacts
  imports RunSlot
begin

text \<open>
  The run slot's invariant: no operation panics, the three channels say what they stand for,
  and a claim that is done no longer holds the slot.
\<close>

named_theorems slot_defs

lemmas slot_ops [slot_defs] = closeChannel_def finalizeRelease_def holding_def Release_def RegisterRunWrapper_def
  wrapperDone_def SetRunWrapperStatus_def CloseAdmission_def claimRound_def TryClaimRun_def newClaim_def

section \<open>The invariant\<close>

definition claimOpen :: "active_run_claim \<Rightarrow> bool" where
  "claimOpen k \<longleftrightarrow> (acWrapperFinished k \<longrightarrow> acWrapperRegistered k)
     \<and> (acOwnerReleased k \<longrightarrow> acWrapperRegistered k \<and> \<not> acWrapperFinished k)"

definition channelsOK :: "run_slot \<Rightarrow> bool" where
  "channelsOK s \<longleftrightarrow> (\<exists>a c i. slAvailableCh s = Some a \<and> slClosedCh s = Some c \<and> slIdleCh s = Some i
     \<and> distinct [a, c, i] \<and> a < slFresh s \<and> c < slFresh s \<and> i < slFresh s \<and> a \<notin> set (slShut s)
     \<and> (c \<in> set (slShut s) \<longleftrightarrow> slClosed s) \<and> (i \<in> set (slShut s) \<longleftrightarrow> slClosed s \<and> slCurrent s = None))"

definition untouched :: "run_slot \<Rightarrow> bool" where
  "untouched s \<longleftrightarrow> slAvailableCh s = None \<and> slClosedCh s = None \<and> slIdleCh s = None \<and> slCurrent s = None
     \<and> \<not> slClosed s \<and> slShut s = []"

definition slotOK :: "run_slot \<Rightarrow> bool" where
  "slotOK s \<longleftrightarrow> (untouched s \<or> channelsOK s) \<and> (\<forall>n \<in> set (slShut s). n < slFresh s)
     \<and> (\<forall>k. slCurrent s = Some k \<longrightarrow> claimOpen k)"

lemma ensure_idle: "channelsOK s \<Longrightarrow> ensureNotifications s = s"
  by (auto simp: channelsOK_def ensureNotifications_def)

lemma ensure_OK:
  assumes "slotOK s"
  shows "slotOK (ensureNotifications s)" "channelsOK (ensureNotifications s)"
    "slCurrent (ensureNotifications s) = slCurrent s" "slClosed (ensureNotifications s) = slClosed s"
    "set (slShut (ensureNotifications s)) = set (slShut s)"
proof -
  have *: "slotOK (ensureNotifications s) \<and> channelsOK (ensureNotifications s) \<and> slCurrent (ensureNotifications s) = slCurrent s
    \<and> slClosed (ensureNotifications s) = slClosed s \<and> slShut (ensureNotifications s) = slShut s"
  proof (cases "channelsOK s")
    case True
    with assms show ?thesis by (simp add: ensure_idle)
  next
    case False
    with assms have u: "untouched s" by (simp add: slotOK_def)
    let ?n = "slFresh s"
    have e: "ensureNotifications s = s \<lparr> slAvailableCh := Some ?n, slClosedCh := Some (Suc ?n), slIdleCh := Some (Suc (Suc ?n)),
        slFresh := Suc (Suc (Suc ?n)) \<rparr>"
      using u by (simp add: untouched_def ensureNotifications_def)
    have "channelsOK (ensureNotifications s)"
      unfolding channelsOK_def e using u
      by (intro exI [of _ ?n] exI [of _ "Suc ?n"] exI [of _ "Suc (Suc ?n)"]) (simp add: untouched_def)
    with u e show ?thesis by (simp add: slotOK_def untouched_def)
  qed
  then show "slotOK (ensureNotifications s)" "channelsOK (ensureNotifications s)"
    "slCurrent (ensureNotifications s) = slCurrent s" "slClosed (ensureNotifications s) = slClosed s"
    "set (slShut (ensureNotifications s)) = set (slShut s)" by simp_all
qed

lemma new_OK: "slotOK zeroSlot" "slotOK NewDefaultRunSlotGuard"
proof -
  show z: "slotOK zeroSlot" by (simp add: slotOK_def untouched_def zeroSlot_def)
  show "slotOK NewDefaultRunSlotGuard" unfolding NewDefaultRunSlotGuard_def by (rule ensure_OK(1) [OF z])
qed

section \<open>Steps\<close>

text \<open>What a step may do to the slot as far as waiting callers are concerned.\<close>

definition slotMoves :: "run_slot \<Rightarrow> run_slot \<Rightarrow> bool" where
  "slotMoves s s' \<longleftrightarrow> set (slShut s) \<subseteq> set (slShut s') \<and> (slClosed s \<longrightarrow> slClosed s')
     \<and> (channelsOK s \<longrightarrow> slClosedCh s' = slClosedCh s \<and> slIdleCh s' = slIdleCh s
          \<and> (slAvailableCh s' = slAvailableCh s \<and> (slCurrent s \<noteq> None \<longrightarrow> slCurrent s' \<noteq> None)
             \<or> the (slAvailableCh s) \<in> set (slShut s')))"

lemma slotMoves_refl [simp]: "slotMoves s s"
  by (auto simp: slotMoves_def)

lemma ensure_moves: "slotOK s \<Longrightarrow> slotMoves s (ensureNotifications s)"
  by (cases "channelsOK s") (auto simp: ensure_idle slotMoves_def slotOK_def untouched_def)

lemma update_OK:
  assumes "slotOK s" "holding i s = Some c" "claimOpen k"
  shows "slotOK (s \<lparr> slCurrent := Some k \<rparr>)" "slotMoves s (s \<lparr> slCurrent := Some k \<rparr>)"
  using assms
  by (auto simp: slotOK_def untouched_def channelsOK_def slotMoves_def holding_def split: option.splits if_splits)

text \<open>The last release of a claim frees the slot and wakes the waiting callers; it never panics.\<close>

lemma finalize_run:
  fixes f :: bool
  assumes ok: "slotOK s" and c: "holding i s = Some c"
  defines "t \<equiv> s \<lparr> slCurrent := Some (c \<lparr> acOwnerReleased := True, acWrapperFinished := f \<rparr>) \<rparr>"
  obtains s' where "finalizeRelease i t = Inr (True, s')" "slotOK s'" "slotMoves s s'" "slCurrent s' = None"
proof -
  from c have cur: "slCurrent s = Some c" "clID (acClaim c) = i" by (auto simp: holding_def split: option.splits if_splits)
  with ok have "channelsOK s" by (auto simp: slotOK_def untouched_def)
  then obtain a e d where ch: "slAvailableCh s = Some a" "slClosedCh s = Some e" "slIdleCh s = Some d"
    "distinct [a, e, d]" "a < slFresh s" "e < slFresh s" "d < slFresh s" "a \<notin> set (slShut s)"
    "e \<in> set (slShut s) \<longleftrightarrow> slClosed s" "d \<notin> set (slShut s)" using cur by (auto simp: channelsOK_def)
  let ?s = "s \<lparr> slCurrent := None, slShut := (if slClosed s then [d, a] else [a]) @ slShut s,
      slAvailableCh := Some (slFresh s), slFresh := Suc (slFresh s) \<rparr>"
  have low: "\<forall>n \<in> set (slShut s). n < slFresh s" using ok by (simp add: slotOK_def)
  have "finalizeRelease i t = Inr (True, ?s)"
    using cur ch by (auto simp: finalizeRelease_def holding_def closeChannel_def t_def)
  moreover have "channelsOK ?s"
    unfolding channelsOK_def using ch low by (intro exI [of _ "slFresh s"] exI [of _ e] exI [of _ d]) auto
  then have "slotOK ?s" using ch low by (auto simp: slotOK_def)
  moreover have "slotMoves s ?s" using ch by (auto simp: slotMoves_def)
  moreover have "slCurrent ?s = None" by simp
  ultimately show thesis by (rule that)
qed

lemma Release_run:
  assumes "slotOK s"
  obtains s' where "Release i s = Inr s'" "slotOK s'" "slotMoves s s'"
    "holding i s = None \<longrightarrow> s' = s"
    "\<forall>c. holding i s = Some c \<longrightarrow> (slCurrent s' = Some (c \<lparr> acOwnerReleased := True \<rparr>) \<and> acWrapperRegistered c)
       \<or> slCurrent s' = None \<and> (acWrapperRegistered c \<longrightarrow> acWrapperFinished c)"
proof (cases "holding i s")
  case None
  with assms that show thesis by (simp add: Release_def)
next
  case (Some c)
  then have cl: "slCurrent s = Some c" by (auto simp: holding_def split: option.splits if_splits)
  show thesis
  proof (cases "acWrapperRegistered c \<and> \<not> acWrapperFinished c")
    case True
    then have "claimOpen (c \<lparr> acOwnerReleased := True \<rparr>)" by (simp add: claimOpen_def)
    note u = update_OK [OF assms Some this]
    show thesis by (rule that [OF _ u]) (use Some True in \<open>simp_all add: Release_def\<close>)
  next
    case False
    have eq: "c \<lparr> acOwnerReleased := True, acWrapperFinished := acWrapperFinished c \<rparr> = c \<lparr> acOwnerReleased := True \<rparr>" by simp
    obtain s' where s': "finalizeRelease i (s \<lparr> slCurrent := Some (c \<lparr> acOwnerReleased := True \<rparr>) \<rparr>) = Inr (True, s')"
      "slotOK s'" "slotMoves s s'" "slCurrent s' = None"
      by (rule finalize_run [OF assms Some, of "acWrapperFinished c", unfolded eq])
    show thesis by (rule that [OF _ s'(2,3)]) (use Some False s' in \<open>auto simp: Release_def\<close>)
  qed
qed

lemma wrapperDone_run:
  assumes "slotOK s" "\<And>c. holding i s = Some c \<Longrightarrow> \<not> fired \<Longrightarrow> acWrapperRegistered c"
  obtains s' where "wrapperDone i fired s = Inr s'" "slotOK s'" "slotMoves s s'"
    "fired \<or> holding i s = None \<longrightarrow> s' = s"
    "\<forall>c. holding i s = Some c \<and> \<not> fired \<longrightarrow> slCurrent s' = Some (c \<lparr> acWrapperFinished := True \<rparr>)
       \<or> slCurrent s' = None \<and> acOwnerReleased c"
proof (cases "fired \<or> holding i s = None")
  case True
  with assms that show thesis by (cases fired) (simp_all add: wrapperDone_def)
next
  case False
  then obtain c where c: "holding i s = Some c" "\<not> fired" by auto
  show thesis
  proof (cases "acOwnerReleased c")
    case True
    have eq: "c \<lparr> acOwnerReleased := True, acWrapperFinished := True \<rparr> = c \<lparr> acWrapperFinished := True \<rparr>"
      using True by (cases c) simp
    obtain s' where s': "finalizeRelease i (s \<lparr> slCurrent := Some (c \<lparr> acWrapperFinished := True \<rparr>) \<rparr>) = Inr (True, s')"
      "slotOK s'" "slotMoves s s'" "slCurrent s' = None"
      by (rule finalize_run [OF assms(1) c(1), of True, unfolded eq])
    show thesis by (rule that [OF _ s'(2,3)]) (use c True s' in \<open>auto simp: wrapperDone_def\<close>)
  next
    case False
    have "claimOpen (c \<lparr> acWrapperFinished := True \<rparr>)" using assms(2) [OF c] False by (simp add: claimOpen_def)
    note u = update_OK [OF assms(1) c(1) this]
    show thesis by (rule that [OF _ u]) (use c False in \<open>simp_all add: wrapperDone_def\<close>)
  qed
qed

lemma register_OK:
  assumes "slotOK s" "RegisterRunWrapper i status s = Inr s'"
  shows "slotOK s'" "slotMoves s s'" "\<exists>c. holding i s = Some c \<and> \<not> acWrapperRegistered c \<and> slCurrent s'
    = Some (c \<lparr> acWrapperRegistered := True, acStatus := status, acStatusAttached := status \<noteq> None \<rparr>)"
proof -
  from assms(2) obtain c where c: "holding i s = Some c" "\<not> acWrapperRegistered c" "s' = s \<lparr> slCurrent
    := Some (c \<lparr> acWrapperRegistered := True, acStatus := status, acStatusAttached := status \<noteq> None \<rparr>) \<rparr>"
    by (auto simp: RegisterRunWrapper_def split: option.splits if_splits)
  have "claimOpen c" using assms(1) c(1) by (auto simp: slotOK_def holding_def split: option.splits if_splits)
  with c(2) have "claimOpen (c \<lparr> acWrapperRegistered := True, acStatus := status, acStatusAttached := status \<noteq> None \<rparr>)"
    by (auto simp: claimOpen_def)
  note u = update_OK [OF assms(1) c(1) this]
  from u c show "slotOK s'" "slotMoves s s'" "\<exists>c. holding i s = Some c \<and> \<not> acWrapperRegistered c \<and> slCurrent s'
    = Some (c \<lparr> acWrapperRegistered := True, acStatus := status, acStatusAttached := status \<noteq> None \<rparr>)" by simp_all
qed

lemma status_OK:
  assumes "slotOK s" "SetRunWrapperStatus i status s = Inr s'"
  shows "slotOK s'" "slotMoves s s'" "\<exists>c. slCurrent s = Some c \<and> slCurrent s' = Some (c \<lparr> acStatus := status, acStatusAttached := True \<rparr>)"
proof -
  from assms(2) obtain c where c: "holding i s = Some c" "s' = s \<lparr> slCurrent := Some (c \<lparr> acStatus := status, acStatusAttached := True \<rparr>) \<rparr>"
    by (auto simp: SetRunWrapperStatus_def split: option.splits if_splits)
  then have cur: "slCurrent s = Some c" by (auto simp: holding_def split: option.splits if_splits)
  with assms(1) have "claimOpen (c \<lparr> acStatus := status, acStatusAttached := True \<rparr>)" by (auto simp: slotOK_def claimOpen_def)
  note u = update_OK [OF assms(1) c(1) this]
  from u c cur show "slotOK s'" "slotMoves s s'"
    "\<exists>c. slCurrent s = Some c \<and> slCurrent s' = Some (c \<lparr> acStatus := status, acStatusAttached := True \<rparr>)" by simp_all
qed

lemma close_run:
  assumes "slotOK s"
  obtains c s' where "CloseAdmission s = Inr (c, s')" "slotOK s'" "slotMoves s s'" "slCurrent s' = slCurrent s"
    "slClosed s'" "c = slIdleCh s'"
proof -
  define t where "t = ensureNotifications s"
  note E = ensure_OK [OF assms, folded t_def] and M = ensure_moves [OF assms, folded t_def]
  obtain a e d where ch: "slAvailableCh t = Some a" "slClosedCh t = Some e" "slIdleCh t = Some d"
    "distinct [a, e, d]" "a < slFresh t" "e < slFresh t" "d < slFresh t" "a \<notin> set (slShut t)"
    "e \<in> set (slShut t) \<longleftrightarrow> slClosed t" "d \<in> set (slShut t) \<longleftrightarrow> slClosed t \<and> slCurrent t = None"
    using E(2) by (auto simp: channelsOK_def)
  show thesis
  proof (cases "slClosed t")
    case True
    show thesis by (rule that [of "slIdleCh t" t]) (use True E M in \<open>simp_all add: CloseAdmission_def t_def [symmetric]\<close>)
  next
    case False
    let ?s = "t \<lparr> slClosed := True, slShut := (if slCurrent t = None then [d, e] else [e]) @ slShut t \<rparr>"
    have low: "\<forall>n \<in> set (slShut t). n < slFresh t" using E(1) by (simp add: slotOK_def)
    have run: "CloseAdmission s = Inr (Some d, ?s)"
      using False ch by (auto simp: CloseAdmission_def t_def [symmetric] closeChannel_def)
    have "channelsOK ?s"
      unfolding channelsOK_def using ch False by (intro exI [of _ a] exI [of _ e] exI [of _ d]) auto
    then have ok: "slotOK ?s" using ch low E(1) by (auto simp: slotOK_def)
    have mv: "slotMoves s ?s"
      using M ch by (auto simp: slotMoves_def)
    show thesis by (rule that [OF run ok mv]) (use E ch in simp_all)
  qed
qed

lemma grant_OK:
  assumes "slotOK s" "channelsOK s" "slCurrent s = None" "\<not> slClosed s"
  shows "slotOK (s \<lparr> slCurrent := Some (newClaim i now) \<rparr>)" "slotMoves s (s \<lparr> slCurrent := Some (newClaim i now) \<rparr>)"
  using assms by (auto simp: slotOK_def channelsOK_def slotMoves_def claimOpen_def newClaim_def)

lemma slotMoves_trans:
  assumes "slotMoves a b" "slotMoves b c" "slotOK a" "slotOK b"
  shows "slotMoves a c"
proof (cases "channelsOK a")
  case True
  with assms have "channelsOK b"
    by (fastforce simp: slotMoves_def slotOK_def untouched_def channelsOK_def)
  with True assms show ?thesis by (fastforce simp: slotMoves_def)
next
  case False
  with assms show ?thesis by (auto simp: slotMoves_def)
qed

lemma claimRound_OK:
  assumes ok: "slotOK s" and run: "claimRound i now canceled late s = (x, s')"
  shows "slotOK s'" "slotMoves s s'"
    "\<And>c. x = Claimed c \<Longrightarrow> slCurrent s = None \<and> \<not> slClosed s \<and> slCurrent s' = Some (newClaim i now)"
    "\<And>e. x = GaveUp e \<Longrightarrow> slCurrent s' = slCurrent s"
    "\<And>a c. x = AwaitChannels a c \<Longrightarrow> channelsOK s' \<and> slCurrent s' = slCurrent s \<and> slCurrent s' \<noteq> None
        \<and> slAvailableCh s' = Some a \<and> slClosedCh s' = Some c"
proof -
  define t where "t = ensureNotifications s"
  note E = ensure_OK [OF ok, folded t_def] and M = ensure_moves [OF ok, folded t_def]
  obtain a c where ch: "slAvailableCh t = Some a" "slClosedCh t = Some c" using E(2) by (auto simp: channelsOK_def)
  consider "canceled" "x = GaveUp ClaimCanceled" "s' = s"
    | e where "slClosed t" "x = GaveUp e" "s' = t"
    | "\<not> slClosed t" "slCurrent t = None" "x = Claimed (acClaim (newClaim i now))" "s' = t \<lparr> slCurrent := Some (newClaim i now) \<rparr>"
    | "\<not> slClosed t" "slCurrent t \<noteq> None" "x = AwaitChannels a c" "s' = t"
    using run ch by (cases "slCurrent t") (auto simp: claimRound_def t_def [symmetric] split: if_splits)
  then have "slotOK s' \<and> slotMoves s s'
    \<and> (\<forall>c. x = Claimed c \<longrightarrow> slCurrent s = None \<and> \<not> slClosed s \<and> slCurrent s' = Some (newClaim i now))
    \<and> (\<forall>e. x = GaveUp e \<longrightarrow> slCurrent s' = slCurrent s)
    \<and> (\<forall>a c. x = AwaitChannels a c \<longrightarrow> channelsOK s' \<and> slCurrent s' = slCurrent s \<and> slCurrent s' \<noteq> None
        \<and> slAvailableCh s' = Some a \<and> slClosedCh s' = Some c)"
  proof cases
    case 3
    note g = grant_OK [OF E(1,2) 3(2,1), of i now]
    with slotMoves_trans [OF M g(2) ok E(1)] 3 E show ?thesis by simp
  qed (use ok E M ch in auto)
  then show "slotOK s'" "slotMoves s s'"
    "\<And>c. x = Claimed c \<Longrightarrow> slCurrent s = None \<and> \<not> slClosed s \<and> slCurrent s' = Some (newClaim i now)"
    "\<And>e. x = GaveUp e \<Longrightarrow> slCurrent s' = slCurrent s"
    "\<And>a c. x = AwaitChannels a c \<Longrightarrow> channelsOK s' \<and> slCurrent s' = slCurrent s \<and> slCurrent s' \<noteq> None
        \<and> slAvailableCh s' = Some a \<and> slClosedCh s' = Some c" by blast+
qed

lemma TryClaimRun_OK:
  assumes ok: "slotOK s" and run: "TryClaimRun i now s = (r, s')"
  shows "slotOK s'" "slotMoves s s'"
    "\<And>c. r = Inr c \<Longrightarrow> slCurrent s = None \<and> \<not> slClosed s \<and> slCurrent s' = Some (newClaim i now)"
    "\<And>e. r = Inl e \<Longrightarrow> slCurrent s' = slCurrent s"
proof -
  define t where "t = ensureNotifications s"
  note E = ensure_OK [OF ok, folded t_def] and M = ensure_moves [OF ok, folded t_def]
  consider e where "r = Inl e" "s' = t"
    | "\<not> slClosed t" "slCurrent t = None" "r = Inr (acClaim (newClaim i now))" "s' = t \<lparr> slCurrent := Some (newClaim i now) \<rparr>"
    using run by (auto simp: TryClaimRun_def t_def [symmetric] Let_def split: if_splits)
  then have "slotOK s' \<and> slotMoves s s'
    \<and> (\<forall>c. r = Inr c \<longrightarrow> slCurrent s = None \<and> \<not> slClosed s \<and> slCurrent s' = Some (newClaim i now))
    \<and> (\<forall>e. r = Inl e \<longrightarrow> slCurrent s' = slCurrent s)"
  proof cases
    case 2
    note g = grant_OK [OF E(1,2) 2(2,1), of i now]
    with slotMoves_trans [OF M g(2) ok E(1)] 2 E show ?thesis by simp
  qed (use E M in auto)
  then show "slotOK s'" "slotMoves s s'"
    "\<And>c. r = Inr c \<Longrightarrow> slCurrent s = None \<and> \<not> slClosed s \<and> slCurrent s' = Some (newClaim i now)"
    "\<And>e. r = Inl e \<Longrightarrow> slCurrent s' = slCurrent s" by auto
qed

section \<open>The guard with its callers\<close>

text \<open>A waiting caller waits on the channels that will wake it.\<close>

definition waitsOK :: "slot_world \<Rightarrow> bool" where
  "waitsOK w \<longleftrightarrow> (\<forall>i a c. map_of (swClaimants w) i = Some (Waiting a c) \<longrightarrow> channelsOK (swSlot w)
     \<and> slClosedCh (swSlot w) = Some c
     \<and> (a \<in> set (slShut (swSlot w)) \<or> slAvailableCh (swSlot w) = Some a \<and> slCurrent (swSlot w) \<noteq> None))"

definition callbacksOK :: "(string \<times> bool) list \<Rightarrow> run_slot \<Rightarrow> bool" where
  "callbacksOK cb s \<longleftrightarrow> (\<forall>p \<in> set cb. \<forall>c. holding (fst p) s = Some c \<longrightarrow> acWrapperRegistered c)"

text \<open>What the events after its grant say of a claim.\<close>

definition claimTold :: "slot_event list \<Rightarrow> active_run_claim option \<Rightarrow> string \<Rightarrow> bool" where
  "claimTold es m i \<longleftrightarrow> (case m of
      None \<Rightarrow> OwnerReleased i \<in> set es \<and> (WrapperRegistered i \<in> set es \<longrightarrow> WrapperFinished i \<in> set es)
    | Some c \<Rightarrow> (acOwnerReleased c \<longrightarrow> OwnerReleased i \<in> set es)
        \<and> (WrapperRegistered i \<in> set es \<longrightarrow> acWrapperRegistered c)
        \<and> (acWrapperFinished c \<longrightarrow> WrapperFinished i \<in> set es))"

definition grantsOK :: "slot_event list \<Rightarrow> slot_world \<Rightarrow> bool" where
  "grantsOK es w \<longleftrightarrow> (\<forall>us i vs. es = us @ Granted i # vs \<longrightarrow> map_of (swClaimants w) i = Some Returned
     \<and> claimTold vs (holding i (swSlot w)) i)
   \<and> (\<forall>c. slCurrent (swSlot w) = Some c \<longrightarrow> map_of (swClaimants w) (clID (acClaim c)) = Some Returned)"

lemma channelsOK_moves: "channelsOK s \<Longrightarrow> slotMoves s s' \<Longrightarrow> slotOK s' \<Longrightarrow> channelsOK s'"
  by (auto simp: slotMoves_def slotOK_def untouched_def channelsOK_def)

lemma waits_moves:
  assumes "waitsOK w" "slotMoves (swSlot w) s" "slotOK s"
  shows "waitsOK (w \<lparr> swSlot := s \<rparr>)"
  unfolding waitsOK_def
proof (intro allI impI)
  fix i a c assume "map_of (swClaimants (w \<lparr> swSlot := s \<rparr>)) i = Some (Waiting a c)"
  with assms(1) have w: "channelsOK (swSlot w)" "slClosedCh (swSlot w) = Some c"
    "a \<in> set (slShut (swSlot w)) \<or> slAvailableCh (swSlot w) = Some a \<and> slCurrent (swSlot w) \<noteq> None"
    by (auto simp: waitsOK_def)
  with channelsOK_moves [OF w(1) assms(2,3)] assms(2)
  show "channelsOK (swSlot (w \<lparr> swSlot := s \<rparr>)) \<and> slClosedCh (swSlot (w \<lparr> swSlot := s \<rparr>)) = Some c
     \<and> (a \<in> set (slShut (swSlot (w \<lparr> swSlot := s \<rparr>)))
        \<or> slAvailableCh (swSlot (w \<lparr> swSlot := s \<rparr>)) = Some a \<and> slCurrent (swSlot (w \<lparr> swSlot := s \<rparr>)) \<noteq> None)"
    by (auto simp: slotMoves_def)
qed

lemma waits_claimant:
  assumes "waitsOK w" "\<And>a c. x = Waiting a c \<Longrightarrow> channelsOK (swSlot w) \<and> slClosedCh (swSlot w) = Some c
     \<and> (a \<in> set (slShut (swSlot w)) \<or> slAvailableCh (swSlot w) = Some a \<and> slCurrent (swSlot w) \<noteq> None)"
  shows "waitsOK (w \<lparr> swClaimants := (i, x) # swClaimants w, swCallbacks := cb \<rparr>)"
  using assms by (auto simp: waitsOK_def)

lemma waits_callbacks: "waitsOK (w \<lparr> swCallbacks := cb \<rparr>) = waitsOK w"
  by (simp add: waitsOK_def)

lemma holding_current: "holding i s = (case slCurrent s of None \<Rightarrow> None | Some c \<Rightarrow> if clID (acClaim c) = i then Some c else None)"
  by (simp add: holding_def)

lemma grants_quiet:
  assumes "grantsOK es w" "slCurrent s = slCurrent (swSlot w)"
    and "\<And>i. map_of (swClaimants w) i = Some Returned \<Longrightarrow> map_of cs i = Some Returned"
  shows "grantsOK es (w \<lparr> swSlot := s, swClaimants := cs, swCallbacks := cb \<rparr>)"
  using assms unfolding grantsOK_def holding_current by simp

lemma snoc_event:
  "es @ [x] = us @ Granted i # vs \<longleftrightarrow> (vs = [] \<and> x = Granted i \<and> us = es) \<or> (\<exists>vs'. vs = vs' @ [x] \<and> es = us @ Granted i # vs')"
  by (cases vs rule: rev_cases) auto

text \<open>An event that grants nothing, and the claim the slot then holds.\<close>

lemma grants_event:
  assumes g: "grantsOK es w" and x: "\<And>i. x \<noteq> Granted i"
    and told: "\<And>i vs. claimTold vs (holding i (swSlot w)) i \<Longrightarrow> claimTold (vs @ [x]) (holding i s) i"
    and cur: "\<And>c. slCurrent s = Some c \<Longrightarrow> \<exists>c'. slCurrent (swSlot w) = Some c' \<and> acClaim c = acClaim c'"
  shows "grantsOK (es @ [x]) (w \<lparr> swSlot := s, swCallbacks := cb \<rparr>)"
  using g x told cur unfolding grantsOK_def snoc_event by (simp, metis)

lemma claimTold_more: "claimTold vs m i \<Longrightarrow> x \<noteq> WrapperRegistered i \<Longrightarrow> claimTold (vs @ [x]) m i"
  by (auto simp: claimTold_def split: option.splits)

lemma grants_grant:
  assumes g: "grantsOK es w" and free: "slCurrent (swSlot w) = None" and cur: "slCurrent s = Some (newClaim i now)"
    and i: "map_of (swClaimants w) i \<noteq> Some Returned"
  shows "grantsOK (es @ [Granted i]) (w \<lparr> swSlot := s, swClaimants := (i, Returned) # swClaimants w \<rparr>)"
proof -
  have old: "map_of (swClaimants w) j = Some Returned \<and> claimTold vs None j" if "es = us @ Granted j # vs" for us j vs
    using g that free unfolding grantsOK_def holding_current by (metis option.case(1))
  have "map_of ((i, Returned) # swClaimants w) j = Some Returned \<and> claimTold vs (holding j s) j"
    if "es @ [Granted i] = us @ Granted j # vs" for us j vs
    using that unfolding snoc_event
  proof
    assume "vs = [] \<and> Granted i = Granted j \<and> us = es"
    with cur show ?thesis by (simp add: holding_current newClaim_def claimTold_def)
  next
    assume "\<exists>vs'. vs = vs' @ [Granted i] \<and> es = us @ Granted j # vs'"
    then obtain vs' where vs: "vs = vs' @ [Granted i]" "es = us @ Granted j # vs'" by blast
    note o = old [OF vs(2)]
    with i have "j \<noteq> i" by auto
    with o claimTold_more [of vs' None j "Granted i"] cur show ?thesis by (simp add: vs(1) holding_current newClaim_def)
  qed
  with cur show ?thesis by (simp add: grantsOK_def newClaim_def)
qed

lemma callbacks_moves:
  assumes "callbacksOK cb s" "\<And>c. slCurrent s' = Some c
      \<Longrightarrow> \<exists>c'. slCurrent s = Some c' \<and> acClaim c = acClaim c' \<and> (acWrapperRegistered c' \<longrightarrow> acWrapperRegistered c)"
  shows "callbacksOK cb s'"
  unfolding callbacksOK_def
proof (intro ballI allI impI)
  fix p c assume p: "p \<in> set cb" and h: "holding (fst p) s' = Some c"
  then have "slCurrent s' = Some c" "clID (acClaim c) = fst p" by (auto simp: holding_current split: option.splits if_splits)
  with assms(2) obtain c' where "holding (fst p) s = Some c'" "acWrapperRegistered c' \<longrightarrow> acWrapperRegistered c"
    by (fastforce simp: holding_current)
  with assms(1) p show "acWrapperRegistered c" by (auto simp: callbacksOK_def)
qed

text \<open>The invariant of the guard together with its callers and callbacks.\<close>

definition worldOK :: "slot_event list \<Rightarrow> slot_world \<Rightarrow> bool" where
  "worldOK es w \<longleftrightarrow> slotOK (swSlot w) \<and> waitsOK w \<and> callbacksOK (swCallbacks w) (swSlot w) \<and> grantsOK es w
     \<and> (\<forall>p \<in> set (swCallbacks w). map_of (swClaimants w) (fst p) = Some Returned)"

lemma worldOK_D:
  assumes "worldOK es w"
  shows "slotOK (swSlot w)" "waitsOK w" "callbacksOK (swCallbacks w) (swSlot w)" "grantsOK es w"
    "p \<in> set (swCallbacks w) \<Longrightarrow> map_of (swClaimants w) (fst p) = Some Returned"
  using assms by (simp_all add: worldOK_def)

text \<open>Steps that leave the current claim as it is.\<close>

lemma world_quiet:
  assumes w: "worldOK es w" and s: "slotOK s" "slotMoves (swSlot w) s" "slCurrent s = slCurrent (swSlot w)"
    and i: "map_of (swClaimants w) i \<noteq> Some Returned"
    and x: "\<And>a c. x = Waiting a c \<Longrightarrow> channelsOK s \<and> slClosedCh s = Some c
       \<and> (a \<in> set (slShut s) \<or> slAvailableCh s = Some a \<and> slCurrent s \<noteq> None)"
  shows "worldOK es (w \<lparr> swSlot := s, swClaimants := (i, x) # swClaimants w \<rparr>)"
proof -
  note W = worldOK_D [OF w]
  have "waitsOK (w \<lparr> swSlot := s, swClaimants := (i, x) # swClaimants w \<rparr>)"
    using waits_claimant [OF waits_moves [OF W(2) s(2,1)], where x = x and i = i and cb = "swCallbacks w"] x by simp
  moreover have "grantsOK es (w \<lparr> swSlot := s, swClaimants := (i, x) # swClaimants w \<rparr>)"
  proof -
    have "map_of ((i, x) # swClaimants w) j = Some Returned" if "map_of (swClaimants w) j = Some Returned" for j
      using that i by auto
    from grants_quiet [OF W(4) s(3) this, where cb = "swCallbacks w"] show ?thesis by simp
  qed
  moreover have "callbacksOK (swCallbacks w) s"
    by (rule callbacks_moves [OF W(3)]) (simp add: s(3))
  ultimately show ?thesis using s(1) W(5) i by (auto simp: worldOK_def)
qed

lemma world_grant:
  assumes w: "worldOK es w" and s: "slotOK s" "slotMoves (swSlot w) s" "slCurrent (swSlot w) = None"
    "slCurrent s = Some (newClaim i now)" and i: "map_of (swClaimants w) i \<noteq> Some Returned"
  shows "worldOK (es @ [Granted i]) (w \<lparr> swSlot := s, swClaimants := (i, Returned) # swClaimants w \<rparr>)"
proof -
  note W = worldOK_D [OF w]
  have "waitsOK (w \<lparr> swSlot := s, swClaimants := (i, Returned) # swClaimants w \<rparr>)"
    using waits_claimant [OF waits_moves [OF W(2) s(2,1)], where x = Returned and i = i and cb = "swCallbacks w"] by simp
  moreover have "callbacksOK (swCallbacks w) s"
    using W(5) i s(4) by (fastforce simp: callbacksOK_def holding_current newClaim_def split: if_splits)
  ultimately show ?thesis using s(1) W(5) i grants_grant [OF W(4) s(3,4) i] by (auto simp: worldOK_def)
qed

text \<open>Steps of the holder and its wrapper.\<close>

lemma world_event:
  assumes w: "worldOK es w" and s: "slotOK s" "slotMoves (swSlot w) s" and x: "\<And>i. x \<noteq> Granted i"
    and told: "\<And>i vs. claimTold vs (holding i (swSlot w)) i \<Longrightarrow> claimTold (vs @ [x]) (holding i s) i"
    and cur: "\<And>c. slCurrent s = Some c \<Longrightarrow> \<exists>c'. slCurrent (swSlot w) = Some c' \<and> acClaim c = acClaim c'
       \<and> (acWrapperRegistered c' \<longrightarrow> acWrapperRegistered c)"
    and cb: "\<And>p. p \<in> set cb \<Longrightarrow> (\<exists>q \<in> set (swCallbacks w). fst q = fst p)
       \<or> (\<exists>c. slCurrent s = Some c \<and> clID (acClaim c) = fst p \<and> acWrapperRegistered c)"
  shows "worldOK (es @ [x]) (w \<lparr> swSlot := s, swCallbacks := cb \<rparr>)"
proof -
  note W = worldOK_D [OF w]
  have "waitsOK (w \<lparr> swSlot := s, swCallbacks := cb \<rparr>)"
    using waits_callbacks [where w = "w \<lparr> swSlot := s \<rparr>" and cb = cb] waits_moves [OF W(2) s(2,1)] by simp
  moreover have "grantsOK (es @ [x]) (w \<lparr> swSlot := s, swCallbacks := cb \<rparr>)"
    using cur by (intro grants_event [OF W(4) x told]) blast+
  moreover have k: "callbacksOK (swCallbacks w) s" by (rule callbacks_moves [OF W(3) cur])
  have "callbacksOK cb s"
    unfolding callbacksOK_def
  proof (intro ballI allI impI)
    fix p c assume p: "p \<in> set cb" and h: "holding (fst p) s = Some c"
    from cb [OF p] show "acWrapperRegistered c"
    proof
      assume "\<exists>q \<in> set (swCallbacks w). fst q = fst p"
      with k h show ?thesis by (auto simp: callbacksOK_def)
    next
      assume "\<exists>c. slCurrent s = Some c \<and> clID (acClaim c) = fst p \<and> acWrapperRegistered c"
      with h show ?thesis by (auto simp: holding_current)
    qed
  qed
  moreover have "map_of (swClaimants w) (fst p) = Some Returned" if "p \<in> set cb" for p
    using cb [OF that] cur W(4,5) unfolding grantsOK_def by metis
  ultimately show ?thesis using s(1) by (simp add: worldOK_def)
qed

lemma world_note:
  assumes w: "worldOK es w" and x: "\<And>i. x \<noteq> Granted i \<and> x \<noteq> WrapperRegistered i"
  shows "worldOK (es @ [x]) w"
proof -
  have "worldOK (es @ [x]) (w \<lparr> swSlot := swSlot w, swCallbacks := swCallbacks w \<rparr>)"
    using x by (intro world_event [OF w worldOK_D(1) [OF w] slotMoves_refl] claimTold_more) auto
  then show ?thesis by simp
qed

text \<open>A step of the claim the slot holds.\<close>

lemma world_claim:
  assumes w: "worldOK es w" and s: "slotOK s" "slotMoves (swSlot w) s" and h: "holding i (swSlot w) = Some c"
    and x: "\<And>j. x \<noteq> Granted j" "\<And>j. x = WrapperRegistered j \<Longrightarrow> j = i"
    and told: "\<And>vs. claimTold vs (Some c) i \<Longrightarrow> claimTold (vs @ [x]) (holding i s) i"
    and cur: "slCurrent s = None \<or> (\<exists>c'. slCurrent s = Some c' \<and> acClaim c' = acClaim c
       \<and> (acWrapperRegistered c \<longrightarrow> acWrapperRegistered c'))"
    and cb: "\<And>p. p \<in> set cb \<Longrightarrow> (\<exists>q \<in> set (swCallbacks w). fst q = fst p)
       \<or> fst p = i \<and> (\<exists>c'. slCurrent s = Some c' \<and> acWrapperRegistered c')"
  shows "worldOK (es @ [x]) (w \<lparr> swSlot := s, swCallbacks := cb \<rparr>)"
proof -
  from h have old: "slCurrent (swSlot w) = Some c" "clID (acClaim c) = i"
    by (auto simp: holding_current split: option.splits if_splits)
  have others: "holding j (swSlot w) = None" "holding j s = None" if "j \<noteq> i" for j
    using that old cur by (auto simp: holding_current)
  show ?thesis
  proof (rule world_event [OF w s x(1)])
    fix j vs assume t: "claimTold vs (holding j (swSlot w)) j"
    show "claimTold (vs @ [x]) (holding j s) j"
    proof (cases "j = i")
      case True
      with t h told show ?thesis by simp
    next
      case False
      with x(2) have "x \<noteq> WrapperRegistered j" by blast
      with t others [OF False] claimTold_more show ?thesis by simp
    qed
  qed (use cur old cb in \<open>auto, fastforce+\<close>)
qed

text \<open>The invariant holds in every state the guard can reach.\<close>

lemma released_worldOK:
  assumes w: "worldOK es w" and run: "Release i (swSlot w) = Inr s"
  shows "worldOK (es @ [OwnerReleased i]) (w \<lparr> swSlot := s \<rparr>)"
proof -
  note W = worldOK_D [OF w]
  obtain s' where s': "Release i (swSlot w) = Inr s'" "slotOK s'" "slotMoves (swSlot w) s'"
    "holding i (swSlot w) = None \<longrightarrow> s' = swSlot w"
    "\<forall>c. holding i (swSlot w) = Some c \<longrightarrow> (slCurrent s' = Some (c \<lparr> acOwnerReleased := True \<rparr>) \<and> acWrapperRegistered c)
       \<or> slCurrent s' = None \<and> (acWrapperRegistered c \<longrightarrow> acWrapperFinished c)"
    by (rule Release_run [OF W(1), where i = i])
  have s: "s = s'" using run s'(1) by simp
  show ?thesis
  proof (cases "holding i (swSlot w)")
    case None
    with s'(4) s world_note [OF w, of "OwnerReleased i"] show ?thesis by simp
  next
    case (Some c)
    note c = s'(5) [rule_format, OF Some]
    have i: "clID (acClaim c) = i" using Some by (auto simp: holding_current split: option.splits if_splits)
    have "worldOK (es @ [OwnerReleased i]) (w \<lparr> swSlot := s', swCallbacks := swCallbacks w \<rparr>)"
      by (rule world_claim [OF w s'(2,3) Some]) (use c i in \<open>auto simp: claimTold_def holding_current\<close>)
    then show ?thesis by (simp add: s)
  qed
qed

lemma registered_worldOK:
  assumes w: "worldOK es w" and run: "RegisterRunWrapper i status (swSlot w) = Inr s"
  shows "worldOK (es @ [WrapperRegistered i]) (w \<lparr> swSlot := s, swCallbacks := swCallbacks w @ [(i, False)] \<rparr>)"
proof -
  note R = register_OK [OF worldOK_D(1) [OF w] run]
  from R(3) obtain c where c: "holding i (swSlot w) = Some c" "slCurrent s
    = Some (c \<lparr> acWrapperRegistered := True, acStatus := status, acStatusAttached := status \<noteq> None \<rparr>)" by blast
  have "clID (acClaim c) = i" using c(1) by (auto simp: holding_current split: option.splits if_splits)
  with c show ?thesis by (intro world_claim [OF w R(1,2) c(1)]) (auto simp: claimTold_def holding_current)
qed

lemma finished_worldOK:
  assumes w: "worldOK es w" and k: "k < length (swCallbacks w)" "swCallbacks w ! k = (i, fired)"
    and run: "wrapperDone i fired (swSlot w) = Inr s"
  shows "worldOK (es @ [WrapperFinished i]) (w \<lparr> swSlot := s, swCallbacks := (swCallbacks w)[k := (i, True)] \<rparr>)"
proof -
  note W = worldOK_D [OF w]
  have mem: "(i, fired) \<in> set (swCallbacks w)" using k nth_mem by metis
  have reg: "acWrapperRegistered c" if "holding i (swSlot w) = Some c" for c
    using W(3) mem that by (fastforce simp: callbacksOK_def)
  have cb: "\<exists>q \<in> set (swCallbacks w). fst q = fst p" if "p \<in> set ((swCallbacks w)[k := (i, True)])" for p
    using set_update_subset_insert [of "swCallbacks w" k "(i, True)"] that mem by force
  obtain s' where s': "wrapperDone i fired (swSlot w) = Inr s'" "slotOK s'" "slotMoves (swSlot w) s'"
    "fired \<or> holding i (swSlot w) = None \<longrightarrow> s' = swSlot w"
    "\<forall>c. holding i (swSlot w) = Some c \<and> \<not> fired \<longrightarrow> slCurrent s' = Some (c \<lparr> acWrapperFinished := True \<rparr>)
       \<or> slCurrent s' = None \<and> acOwnerReleased c"
    by (rule wrapperDone_run [OF W(1), where i = i and fired = fired]) (rule reg)
  have s: "s = s'" using run s'(1) by simp
  show ?thesis
  proof (cases "fired \<or> holding i (swSlot w) = None")
    case True
    have "worldOK (es @ [WrapperFinished i]) (w \<lparr> swSlot := swSlot w, swCallbacks := (swCallbacks w)[k := (i, True)] \<rparr>)"
      by (intro world_event [OF w W(1) slotMoves_refl] claimTold_more) (use cb in auto)
    with s'(4) True s show ?thesis by simp
  next
    case False
    then obtain c where c: "holding i (swSlot w) = Some c" "\<not> fired" by auto
    have i: "clID (acClaim c) = i" using c(1) by (auto simp: holding_current split: option.splits if_splits)
    show ?thesis unfolding s
      by (rule world_claim [OF w s'(2,3) c(1)]) (use s'(5) c i cb in \<open>auto simp: claimTold_def holding_current\<close>)
  qed
qed

text \<open>Steps that change nothing of the current claim that counts.\<close>

definition sameClaim :: "active_run_claim option \<Rightarrow> active_run_claim option \<Rightarrow> bool" where
  "sameClaim m m' \<longleftrightarrow> map_option (\<lambda>c. (acClaim c, acOwnerReleased c, acWrapperRegistered c, acWrapperFinished c)) m
     = map_option (\<lambda>c. (acClaim c, acOwnerReleased c, acWrapperRegistered c, acWrapperFinished c)) m'"

lemma sameClaim_told: "sameClaim (slCurrent s) (slCurrent t) \<Longrightarrow> claimTold vs (holding i s) i = claimTold vs (holding i t) i"
  by (cases "slCurrent s"; cases "slCurrent t") (auto simp: sameClaim_def holding_current claimTold_def)

lemma world_keep:
  assumes w: "worldOK es w" and s: "slotOK s" "slotMoves (swSlot w) s" and c: "sameClaim (slCurrent (swSlot w)) (slCurrent s)"
  shows "worldOK es (w \<lparr> swSlot := s \<rparr>)"
proof -
  note W = worldOK_D [OF w]
  have cur: "\<exists>c'. slCurrent (swSlot w) = Some c' \<and> acClaim c = acClaim c' \<and> (acWrapperRegistered c' \<longrightarrow> acWrapperRegistered c)"
    if "slCurrent s = Some c" for c
    using c that by (auto simp: sameClaim_def)
  have "grantsOK es (w \<lparr> swSlot := s \<rparr>)"
    using W(4) cur sameClaim_told [OF c] unfolding grantsOK_def by (simp, metis)
  with s(1) W(5) waits_moves [OF W(2) s(2,1)] callbacks_moves [OF W(3) cur] show ?thesis by (simp add: worldOK_def)
qed

lemma status_worldOK:
  assumes w: "worldOK es w" and run: "SetRunWrapperStatus i status (swSlot w) = Inr s"
  shows "worldOK es (w \<lparr> swSlot := s \<rparr>)"
  using status_OK [OF worldOK_D(1) [OF w] run] by (intro world_keep [OF w]) (auto simp: sameClaim_def)

lemma closed_worldOK:
  assumes w: "worldOK es w" and run: "CloseAdmission (swSlot w) = Inr (c, s)"
  shows "worldOK es (w \<lparr> swSlot := s \<rparr>)"
proof -
  obtain c' s' where "CloseAdmission (swSlot w) = Inr (c', s')" "slotOK s'" "slotMoves (swSlot w) s'"
    "slCurrent s' = slCurrent (swSlot w)" "slClosed s'" "c' = slIdleCh s'"
    by (rule close_run [OF worldOK_D(1) [OF w]])
  with run show ?thesis by (intro world_keep [OF w]) (auto simp: sameClaim_def)
qed

lemma slotRun_worldOK: "slotRun es w \<Longrightarrow> worldOK es w"
proof (induction rule: slotRun.induct)
  case (start s)
  then show ?case using new_OK
    by (auto simp: worldOK_def waitsOK_def callbacksOK_def grantsOK_def NewDefaultRunSlotGuard_def ensureNotifications_def zeroSlot_def)
next
  case (call es w i)
  then have "map_of (swClaimants w) i \<noteq> Some Returned" by (metis map_of_eq_None_iff option.distinct(1))
  from world_quiet [OF call.IH worldOK_D(1) [OF call.IH] slotMoves_refl refl this, of Polling] show ?case by simp
next
  case (granted es w i now canceled late c s)
  note R = claimRound_OK [OF worldOK_D(1) [OF granted.IH] granted.hyps(3)]
  show ?case by (rule world_grant [OF granted.IH R(1,2)]) (use R(3) granted.hyps(2) in auto)
next
  case (gaveUp es w i now canceled late e s)
  note R = claimRound_OK [OF worldOK_D(1) [OF gaveUp.IH] gaveUp.hyps(3)]
  show ?case by (rule world_quiet [OF gaveUp.IH R(1,2)]) (use R(4) gaveUp.hyps(2) in auto)
next
  case (awaits es w i now canceled late a c s)
  note R = claimRound_OK [OF worldOK_D(1) [OF awaits.IH] awaits.hyps(3)]
  show ?case by (rule world_quiet [OF awaits.IH R(1,2)]) (use R(5) awaits.hyps(2) in auto)
next
  case (woken es w i a c)
  then have "map_of (swClaimants w) i \<noteq> Some Returned" by simp
  from world_quiet [OF woken.IH worldOK_D(1) [OF woken.IH] slotMoves_refl refl this, of Polling] show ?case by simp
next
  case (canceled es w i a c)
  then have "map_of (swClaimants w) i \<noteq> Some Returned" by simp
  from world_quiet [OF canceled.IH worldOK_D(1) [OF canceled.IH] slotMoves_refl refl this, of Returned] show ?case by simp
next
  case (tried es w i now r s)
  note R = TryClaimRun_OK [OF worldOK_D(1) [OF tried.IH] tried.hyps(3)]
  have i: "map_of (swClaimants w) i \<noteq> Some Returned" using tried.hyps(2) by (metis map_of_eq_None_iff option.distinct(1))
  show ?case
  proof (cases r)
    case (Inl e)
    have "worldOK es (w \<lparr> swSlot := s, swClaimants := (i, Returned) # swClaimants w \<rparr>)"
      by (rule world_quiet [OF tried.IH R(1,2) R(4) [OF Inl] i]) simp
    from world_note [OF this, of Quiet] Inl show ?thesis by simp
  next
    case (Inr c)
    with R(3) show ?thesis using world_grant [OF tried.IH R(1,2) _ _ i] by simp
  qed
qed (rule released_worldOK registered_worldOK finished_worldOK status_worldOK closed_worldOK; assumption)+

section \<open>Later states\<close>

text \<open>The operations an idle, closed guard still allows leave it idle and closed.\<close>

lemma slotRun_closed_refuses:
  assumes "slotRun es w" "slClosed (swSlot w)"
  shows "claimRound i now canceled late (swSlot w) = (x, s) \<Longrightarrow> \<exists>e. x = GaveUp e"
    "TryClaimRun i now (swSlot w) = (r, s) \<Longrightarrow> r = Inl AdmissionClosed"
  using assms(2) ensure_OK(4) [OF worldOK_D(1) [OF slotRun_worldOK [OF assms(1)]]]
  by (auto simp: claimRound_def TryClaimRun_def Let_def split: if_splits)

end
