(* ===== verification/RunSlotProperties.thy ===== *)
theory RunSlotProperties
  imports RunSlotFacts
begin

text \<open>
  What the run slot guarantees: one claim at a time until its owner and its wrapper are done,
  no lost wake-up, and an idle signal that means what it says.
\<close>

text \<open>Just before a grant the slot is free.\<close>

lemma slotRun_before_grant:
  "slotRun es w \<Longrightarrow> es = xs @ Granted b # zs \<Longrightarrow> \<exists>v. slotRun xs v \<and> slCurrent (swSlot v) = None"
proof (induction arbitrary: zs rule: slotRun.induct)
  case (granted es w i now canceled late c s)
  note R = claimRound_OK [OF worldOK_D(1) [OF slotRun_worldOK [OF granted.hyps(1)]] granted.hyps(3)]
  from granted.prems consider "xs = es" | zs' where "es = xs @ Granted b # zs'" by (auto simp: snoc_event)
  then show ?case using granted.hyps(1) granted.IH R(3) by cases blast+
next
  case (tried es w i now r s)
  note R = TryClaimRun_OK [OF worldOK_D(1) [OF slotRun_worldOK [OF tried.hyps(1)]] tried.hyps(3)]
  from tried.prems consider c where "xs = es" "r = Inr c" | zs' where "es = xs @ Granted b # zs'"
    by (cases r) (auto simp: snoc_event)
  then show ?case using tried.hyps(1) tried.IH R(3) by cases blast+
qed (auto simp: snoc_event)

text \<open>
  C12. Only one run at a time: between the grant of a claim and the next grant of any claim, the
  first claim's owner has released it, and if a wrapper was registered for it the wrapper has
  finished. This holds for any interleaving of callers, releases, callbacks (also stale or
  repeated ones) and closing.
\<close>

theorem run_slot_exclusive:
  assumes "slotRun (us @ Granted a # vs @ Granted b # zs) w"
  shows "OwnerReleased a \<in> set vs \<and> (WrapperRegistered a \<in> set vs \<longrightarrow> WrapperFinished a \<in> set vs)"
proof -
  have "us @ Granted a # vs @ Granted b # zs = (us @ Granted a # vs) @ Granted b # zs" by simp
  from slotRun_before_grant [OF assms this] obtain v where v: "slotRun (us @ Granted a # vs) v" "slCurrent (swSlot v) = None"
    by blast
  from worldOK_D(4) [OF slotRun_worldOK [OF v(1)]] have "claimTold vs (holding a (swSlot v)) a" by (auto simp: grantsOK_def)
  with v(2) show ?thesis by (simp add: holding_current claimTold_def)
qed

definition sampleSlot1 :: run_slot where
  "sampleSlot1 = snd (TryClaimRun ''a'' 0 NewDefaultRunSlotGuard)"

definition sampleSlot2 :: run_slot where
  "sampleSlot2 = (case Release ''a'' sampleSlot1 of Inr s \<Rightarrow> s | Inl _ \<Rightarrow> sampleSlot1)"

definition sampleSlot3 :: run_slot where
  "sampleSlot3 = snd (TryClaimRun ''b'' 1 sampleSlot2)"

lemma sample_slotRun:
  "slotRun [Granted ''a''] \<lparr> swSlot = sampleSlot1, swClaimants = [(''a'', Returned)], swCallbacks = [] \<rparr>"
  "slotRun [Granted ''a'', OwnerReleased ''a'', Granted ''b'']
     \<lparr> swSlot = sampleSlot3, swClaimants = [(''b'', Returned), (''a'', Returned)], swCallbacks = [] \<rparr>"
  "slotRun [Granted ''a'', OwnerReleased ''a''] \<lparr> swSlot = sampleSlot2,
     swClaimants = [(''b'', Waiting 0 1), (''b'', Polling), (''a'', Returned)], swCallbacks = [] \<rparr>"
proof -
  let ?w = "\<lambda>s cs. \<lparr> swSlot = s, swClaimants = cs, swCallbacks = [] \<rparr>"
  have t1: "TryClaimRun ''a'' 0 NewDefaultRunSlotGuard = (Inr \<lparr> clID = ''a'', clAcquiredAt = 0 \<rparr>, sampleSlot1)" by code_simp
  have r: "Release ''a'' sampleSlot1 = Inr sampleSlot2" by code_simp
  have t2: "TryClaimRun ''b'' 1 sampleSlot2 = (Inr \<lparr> clID = ''b'', clAcquiredAt = 1 \<rparr>, sampleSlot3)" by code_simp
  have aw: "claimRound ''b'' 0 False False sampleSlot1 = (AwaitChannels 0 1, sampleSlot1)" by code_simp
  have 1: "slotRun [Granted ''a''] (?w sampleSlot1 [(''a'', Returned)])"
    using slotRun.tried [OF slotRun.start [OF disjI2, OF refl], of "''a''" 0] t1 by simp
  have 2: "slotRun [Granted ''a'', OwnerReleased ''a''] (?w sampleSlot2 [(''a'', Returned)])"
    using slotRun.ownerReleased [OF 1, of "''a''"] r by simp
  show "slotRun [Granted ''a'', OwnerReleased ''a'', Granted ''b''] (?w sampleSlot3 [(''b'', Returned), (''a'', Returned)])"
    using slotRun.tried [OF 2, of "''b''" 1] t2 by simp
  have 3: "slotRun [Granted ''a''] (?w sampleSlot1 [(''b'', Polling), (''a'', Returned)])"
    using slotRun.call [OF 1, of "''b''"] by simp
  have 4: "slotRun [Granted ''a''] (?w sampleSlot1 [(''b'', Waiting 0 1), (''b'', Polling), (''a'', Returned)])"
    using slotRun.awaits [OF 3, of "''b''" 0 False False 0 1 sampleSlot1] aw by simp
  show "slotRun [Granted ''a'', OwnerReleased ''a''] (?w sampleSlot2 [(''b'', Waiting 0 1), (''b'', Polling), (''a'', Returned)])"
    using slotRun.ownerReleased [OF 4, of "''a''"] r by simp
  show "slotRun [Granted ''a''] (?w sampleSlot1 [(''a'', Returned)])" by (rule 1)
qed

theorem run_slot_exclusive_witness:
  "OwnerReleased ''a'' \<in> set [OwnerReleased ''a'']"
proof -
  have "slotRun ([] @ Granted ''a'' # [OwnerReleased ''a''] @ Granted ''b'' # [])
     \<lparr> swSlot = sampleSlot3, swClaimants = [(''b'', Returned), (''a'', Returned)], swCallbacks = [] \<rparr>"
    using sample_slotRun(2) by simp
  from run_slot_exclusive [OF this] show ?thesis by blast
qed

text \<open>
  C13. No lost wake-up: when the slot is free or admission is closed, one of the two channels a
  waiting caller selects on is closed, so it runs again; and its next round returns, with the
  claim or an error, instead of waiting.
\<close>

theorem waiting_callers_wake:
  assumes "slotRun es w" "map_of (swClaimants w) i = Some (Waiting a c)"
    and "slCurrent (swSlot w) = None \<or> slClosed (swSlot w)"
  shows "(a \<in> set (slShut (swSlot w)) \<or> c \<in> set (slShut (swSlot w)))
    \<and> (\<forall>now canceled late a' c'. fst (claimRound i now canceled late (swSlot w)) \<noteq> AwaitChannels a' c')"
proof -
  note W = worldOK_D [OF slotRun_worldOK [OF assms(1)]]
  from W(2) assms(2) have ch: "channelsOK (swSlot w)" "slClosedCh (swSlot w) = Some c"
    "a \<in> set (slShut (swSlot w)) \<or> slAvailableCh (swSlot w) = Some a \<and> slCurrent (swSlot w) \<noteq> None"
    by (auto simp: waitsOK_def)
  with assms(3) have "a \<in> set (slShut (swSlot w)) \<or> c \<in> set (slShut (swSlot w))" by (auto simp: channelsOK_def)
  moreover have "fst (claimRound i now canceled late (swSlot w)) \<noteq> AwaitChannels a' c'" for now canceled late a' c'
    using assms(3) ensure_idle [OF ch(1)] by (auto simp: claimRound_def Let_def)
  ultimately show ?thesis by blast
qed

theorem waiting_callers_wake_witness:
  "(0 \<in> set (slShut sampleSlot2) \<or> 1 \<in> set (slShut sampleSlot2))
    \<and> fst (claimRound ''b'' 0 False False sampleSlot2) \<noteq> AwaitChannels 0 1"
proof -
  have "slCurrent sampleSlot2 = None" by code_simp
  then show ?thesis
    using waiting_callers_wake [OF sample_slotRun(3), of "''b''" 0 1] by (simp del: One_nat_def)
qed

text \<open>
  The idle signal is exact: the channel \<open>CloseAdmission\<close> returns is closed exactly when
  admission is closed and no claim holds the slot, so that every claim ever granted has been
  released and its wrapper has finished; nobody is granted the slot once admission is closed;
  and releasing, finishing and closing never close a channel twice.
\<close>

theorem idle_signal_exact:
  assumes "slotRun es w" "CloseAdmission (swSlot w) = Inr (ch, s)"
  shows "\<exists>n. ch = Some n \<and> (n \<in> set (slShut s) \<longleftrightarrow> slCurrent s = None)
    \<and> (n \<in> set (slShut s) \<longrightarrow> (\<forall>us a vs. es = us @ Granted a # vs \<longrightarrow> OwnerReleased a \<in> set vs
         \<and> (WrapperRegistered a \<in> set vs \<longrightarrow> WrapperFinished a \<in> set vs)))
    \<and> (\<forall>i now canceled late c. fst (claimRound i now canceled late s) \<noteq> Claimed c)
    \<and> (\<forall>i now c. fst (TryClaimRun i now s) \<noteq> Inr c)
    \<and> (\<forall>i. \<exists>t. Release i s = Inr t) \<and> (\<forall>p \<in> set (swCallbacks w). \<exists>t. wrapperDone (fst p) (snd p) s = Inr t)"
proof -
  let ?w = "w \<lparr> swSlot := s \<rparr>"
  have run: "slotRun es ?w" by (rule slotRun.admissionClosed [OF assms])
  note W = worldOK_D [OF slotRun_worldOK [OF run], simplified]
  obtain c s' where "CloseAdmission (swSlot w) = Inr (c, s')" "slotOK s'" "slotMoves (swSlot w) s'"
    "slCurrent s' = slCurrent (swSlot w)" "slClosed s'" "c = slIdleCh s'"
    by (rule close_run [OF worldOK_D(1) [OF slotRun_worldOK [OF assms(1)]]])
  with assms(2) have closed: "slClosed s" "ch = slIdleCh s" by auto
  with W(1) obtain n where n: "ch = Some n" "n \<in> set (slShut s) \<longleftrightarrow> slCurrent s = None"
    by (auto simp: slotOK_def untouched_def channelsOK_def)
  have told: "claimTold vs (holding a s) a" if "es = us @ Granted a # vs" for us a vs
    using W(4) that by (auto simp: grantsOK_def)
  have "OwnerReleased a \<in> set vs \<and> (WrapperRegistered a \<in> set vs \<longrightarrow> WrapperFinished a \<in> set vs)"
    if "slCurrent s = None" "es = us @ Granted a # vs" for us a vs
    using told [OF that(2)] that(1) by (simp add: holding_current claimTold_def)
  moreover have "fst (claimRound i now canceled late s) \<noteq> Claimed c" for i now canceled late c
    using slotRun_closed_refuses(1) [OF run, of i now canceled late] closed(1)
    by (cases "claimRound i now canceled late s") auto
  moreover have "fst (TryClaimRun i now s) \<noteq> Inr c" for i now c
    using slotRun_closed_refuses(2) [OF run, of i now] closed(1) by (cases "TryClaimRun i now s") auto
  moreover have "\<exists>t. Release i s = Inr t" for i by (rule Release_run [OF W(1), where i = i]) blast
  moreover have "\<exists>t. wrapperDone i f s = Inr t" if "(i, f) \<in> set (swCallbacks w)" for i f
    by (rule wrapperDone_run [OF W(1), where i = i and fired = f]) (use W(3) that in \<open>auto simp: callbacksOK_def\<close>)
  ultimately show ?thesis using n by (intro exI [of _ n]) auto
qed

definition sampleSlot4 :: run_slot where
  "sampleSlot4 = (case CloseAdmission sampleSlot1 of Inr (_, s) \<Rightarrow> s | Inl _ \<Rightarrow> sampleSlot1)"

theorem idle_signal_exact_witness:
  "2 \<notin> set (slShut sampleSlot4) \<and> slCurrent sampleSlot4 \<noteq> None \<and> (\<exists>t. Release ''a'' sampleSlot4 = Inr t)"
proof -
  have "CloseAdmission sampleSlot1 = Inr (Some 2, sampleSlot4)" by code_simp
  moreover have "slCurrent sampleSlot4 \<noteq> None" by code_simp
  ultimately show ?thesis using idle_signal_exact [OF sample_slotRun(1), of "Some 2" sampleSlot4] by simp
qed

end
