(* ===== verification/ModelErrors.thy ===== *)
theory ModelErrors
  imports Prelude
begin

text \<open>
  Provider errors and their classes: \<open>internal/llm/provider_error.go\<close> and \<open>classifyError\<close> of
  \<open>internal/llm/middleware_retry.go\<close>. An error is a tree, as \<open>errors.Is\<close>, \<open>errors.As\<close> and
  \<open>errors.Unwrap\<close> see it; besides provider errors it may hold the errors with a category of
  \<open>internal/production/retry.go\<close> and those with a code of \<open>internal/core/harness_error.go\<close>.
\<close>

section \<open>Text\<close>

text \<open>
  \<open>strings.ToLower\<close> as far as a search for ASCII keywords can see: besides the ASCII capitals only
  the Kelvin sign and the capital I with a dot above have ASCII letters as lower case.
\<close>

function toLower :: "string \<Rightarrow> string" where
  "toLower s = (case s of
      [] \<Rightarrow> []
    | v # t \<Rightarrow>
        if prefix (map char_of [0xE2, 0x84, 0xAA :: nat]) s then CHR ''k'' # toLower (drop 2 t)
        else if prefix (map char_of [0xC4, 0xB0 :: nat]) s then CHR ''i'' # toLower (drop 1 t)
        else (if CHR ''A'' \<le> v \<and> v \<le> CHR ''Z'' then char_of (of_char v + 32 :: nat) else v) # toLower t)"
  by pat_completeness auto
termination by (relation "measure length") auto

declare toLower.simps [simp del]

abbreviation contains :: "string \<Rightarrow> string \<Rightarrow> bool" where
  "contains s keyword \<equiv> sublist keyword s"

section \<open>Provider errors\<close>

datatype error_type =
    ErrTypeRateLimit | ErrTypeAuth | ErrTypeOverflow | ErrTypeInvalidRequest | ErrTypeServer | ErrTypeNetwork
  | ErrTypeOther string

fun errorTypeText :: "error_type \<Rightarrow> string" where
  "errorTypeText ErrTypeRateLimit = ''rate_limit''"
| "errorTypeText ErrTypeAuth = ''auth''"
| "errorTypeText ErrTypeOverflow = ''overflow''"
| "errorTypeText ErrTypeInvalidRequest = ''invalid_request''"
| "errorTypeText ErrTypeServer = ''server''"
| "errorTypeText ErrTypeNetwork = ''network''"
| "errorTypeText (ErrTypeOther s) = s"

record provider_error =
  peStatusCode :: int
  peErrorType :: error_type
  peProvider :: string
  peMessage :: string
  peBodyTruncated :: bool

definition intText :: "int \<Rightarrow> string" where
  "intText n = (if n < 0 then CHR ''-'' # decimal (nat (- n)) else decimal (nat n))"

definition providerErrorText :: "provider_error \<Rightarrow> string" where
  "providerErrorText e = errorTypeText (peErrorType e) @ '' error from '' @ peProvider e @ '' (HTTP ''
     @ intText (peStatusCode e) @ '')''"

definition overflowIndicators :: "string list" where
  "overflowIndicators = [''context_length_exceeded'', ''maximum context length'', ''context window'',
     ''token limit exceeded'', ''context_length'']"

definition containsOverflowIndicator :: "string \<Rightarrow> bool" where
  "containsOverflowIndicator msg \<longleftrightarrow> list_ex (contains (toLower msg)) overflowIndicators"

definition newProviderError :: "int \<Rightarrow> string \<Rightarrow> string \<Rightarrow> provider_error" where
  "newProviderError statusCode provider payload =
     (let msg = trimSpace payload in
      \<lparr> peStatusCode = statusCode,
        peErrorType =
          (if statusCode = 429 then ErrTypeRateLimit
           else if statusCode = 401 \<or> statusCode = 403 then ErrTypeAuth
           else if statusCode = 400 \<and> containsOverflowIndicator msg then ErrTypeOverflow
           else if statusCode = 400 \<or> statusCode = 404 then ErrTypeInvalidRequest
           else ErrTypeServer),
        peProvider = provider, peMessage = msg, peBodyTruncated = False \<rparr>)"

section \<open>Error trees\<close>

text \<open>
  A leaf is a sentinel, a provider error, plain text or an error with a code and no cause;
  \<open>Wrapped\<close>, \<open>Categorized\<close> and \<open>Harness\<close> are errors with one cause, \<open>Joined\<close> is one with several,
  which \<open>errors.Unwrap\<close> does not follow.
\<close>

datatype error_leaf =
    PlainText string | Canceled | DeadlineExceeded | ProviderResponseTooLarge | ProviderFailure provider_error
  | HarnessLeaf string string

datatype production_category = ErrorTransient | ErrorRateLimit | ErrorTimeout | ErrorFatal | ErrorOther string

datatype model_error =
    Leaf error_leaf
  | Wrapped string model_error
  | Joined string "model_error list"
  | Categorized production_category model_error
  | Harness string string model_error

fun leafText :: "error_leaf \<Rightarrow> string" where
  "leafText (PlainText s) = s"
| "leafText Canceled = ''context canceled''"
| "leafText DeadlineExceeded = ''context deadline exceeded''"
| "leafText ProviderResponseTooLarge = ''llm: provider response body exceeds configured limit''"
| "leafText (ProviderFailure e) = providerErrorText e"
| "leafText (HarnessLeaf code m) = code @ '': '' @ m"

fun errorText :: "model_error \<Rightarrow> string" where
  "errorText (Leaf x) = leafText x"
| "errorText (Wrapped s _) = s"
| "errorText (Joined s _) = s"
| "errorText (Categorized _ e) = errorText e"
| "errorText (Harness code m e) = code @ '': '' @ m @ '': '' @ errorText e"

text \<open>The leaves in the depth-first order of \<open>errors.Is\<close> and \<open>errors.As\<close>.\<close>

fun errorLeaves :: "model_error \<Rightarrow> error_leaf list" where
  "errorLeaves (Leaf x) = [x]"
| "errorLeaves (Wrapped _ e) = errorLeaves e"
| "errorLeaves (Joined _ es) = concat (map errorLeaves es)"
| "errorLeaves (Categorized _ e) = errorLeaves e"
| "errorLeaves (Harness _ _ e) = errorLeaves e"

definition errorsIs :: "model_error \<Rightarrow> error_leaf \<Rightarrow> bool" where
  "errorsIs e target \<longleftrightarrow> target \<in> set (errorLeaves e)"

definition asProviderError :: "model_error \<Rightarrow> provider_error option" where
  "asProviderError e =
     (case List.map_filter (\<lambda>x. case x of ProviderFailure p \<Rightarrow> Some p | _ \<Rightarrow> None) (errorLeaves e) of
        [] \<Rightarrow> None | p # _ \<Rightarrow> Some p)"

text \<open>The text of an error and, after a blank each, of the chain \<open>errors.Unwrap\<close> follows.\<close>

fun chainText :: "model_error \<Rightarrow> string" where
  "chainText (Leaf x) = toLower (leafText x)"
| "chainText (Wrapped s e) = toLower s @ '' '' @ chainText e"
| "chainText (Joined s _) = toLower s"
| "chainText (Categorized c e) = toLower (errorText e) @ '' '' @ chainText e"
| "chainText (Harness code m e) = toLower (errorText (Harness code m e)) @ '' '' @ chainText e"

section \<open>Classification\<close>

datatype error_category = CategoryNone | CategoryFatal | CategoryRateLimit | CategoryTimeout | CategoryTransient

definition retryable :: "error_category \<Rightarrow> bool" where
  "retryable c \<longleftrightarrow> c \<noteq> CategoryNone \<and> c \<noteq> CategoryFatal"

definition classifyText :: "string \<Rightarrow> error_category" where
  "classifyText msg =
     (if contains msg ''busy'' \<or> contains msg ''already running'' then CategoryFatal
      else if contains msg ''hook'' \<and> (contains msg ''reject'' \<or> contains msg ''halt'') then CategoryFatal
      else if contains msg ''permission denied'' \<or> contains msg ''unauthorized'' \<or> contains msg ''invalid api key''
        then CategoryFatal
      else if contains msg ''rate limit'' \<or> contains msg ''429'' \<or> contains msg ''too many requests'' then CategoryRateLimit
      else if contains msg ''timeout'' \<or> contains msg ''deadline exceeded'' then CategoryTimeout
      else if contains msg ''connection reset'' \<or> contains msg ''connection refused'' \<or> contains msg ''transient''
        then CategoryTransient
      else CategoryTransient)"

definition classifyError :: "model_error option \<Rightarrow> error_category" where
  "classifyError err = (case err of
      None \<Rightarrow> CategoryNone
    | Some e \<Rightarrow>
        if errorsIs e ProviderResponseTooLarge then CategoryFatal
        else case map_option peErrorType (asProviderError e) of
          Some ErrTypeRateLimit \<Rightarrow> CategoryRateLimit
        | Some ErrTypeAuth \<Rightarrow> CategoryFatal
        | Some ErrTypeOverflow \<Rightarrow> CategoryFatal
        | Some ErrTypeInvalidRequest \<Rightarrow> CategoryFatal
        | Some ErrTypeServer \<Rightarrow> CategoryTransient
        | Some ErrTypeNetwork \<Rightarrow> CategoryTransient
        | _ \<Rightarrow> classifyText (chainText e))"

end
