(* ===== verification/ContentSanitizer.thy ===== *)
theory ContentSanitizer
  imports Prelude
begin

text \<open>
  The response sanitizer of \<open>internal/llm/middleware_sanitize.go\<close>: it removes thinking blocks from
  text that arrives in chunks and keeps only a possible marker prefix between them. The bytes of
  a chunk are consumed one at a time; \<open>shown\<close> is the visible text of the chunk so far.
\<close>

section \<open>The automaton\<close>

record sanitize_marker =
  mkOpen :: string
  mkClose :: string

definition streamSanitizeMarkers :: "sanitize_marker list" where
  "streamSanitizeMarkers =
     [\<lparr> mkOpen = ''<antThinking>'', mkClose = ''</antThinking>'' \<rparr>,
      \<lparr> mkOpen = ''```thinking'' @ [CHR 0x0A], mkClose = ''```'' \<rparr>]"

record content_sanitizer =
  csBlock :: "sanitize_marker option"
  csPending :: string
  csClosing :: string
  csNewlineRun :: nat

definition newSanitizer :: content_sanitizer where
  "newSanitizer = \<lparr> csBlock = None, csPending = [], csClosing = [], csNewlineRun = 0 \<rparr>"

text \<open>The scan of the markers: the one that is complete, or whether some is possible.\<close>

fun scanMarkers :: "sanitize_marker list \<Rightarrow> string \<Rightarrow> bool \<Rightarrow> sanitize_marker option \<times> bool" where
  "scanMarkers [] pending possible = (None, possible)"
| "scanMarkers (m # ms) pending possible =
     (if pending = mkOpen m then (Some m, possible)
      else scanMarkers ms pending
        (possible \<or> length pending < length (mkOpen m) \<and> pending = take (length pending) (mkOpen m)))"

definition writeVisible :: "char \<Rightarrow> content_sanitizer \<times> string \<Rightarrow> content_sanitizer \<times> string" where
  "writeVisible v p = (case p of (s, shown) \<Rightarrow>
     if v = CHR 0x0A
       then if csNewlineRun s < 2 then (s \<lparr> csNewlineRun := csNewlineRun s + 1 \<rparr>, shown @ [v]) else (s, shown)
     else (s \<lparr> csNewlineRun := 0 \<rparr>, shown @ [v]))"

lemma writeVisible_pending: "csPending (fst (writeVisible v p)) = csPending (fst p)"
  by (auto simp: writeVisible_def split: prod.splits)

function settlePending :: "content_sanitizer \<times> string \<Rightarrow> content_sanitizer \<times> string" where
  "settlePending (s, shown) =
     (if csPending s = [] then (s, shown)
      else case scanMarkers streamSanitizeMarkers (csPending s) False of
        (Some m, _) \<Rightarrow> (s \<lparr> csBlock := Some m, csPending := [], csClosing := [] \<rparr>, shown)
      | (None, True) \<Rightarrow> (s, shown)
      | (None, False) \<Rightarrow>
          settlePending (apfst (\<lambda>t. t \<lparr> csPending := tl (csPending t) \<rparr>) (writeVisible (hd (csPending s)) (s, shown))))"
  by pat_completeness auto
termination
  by (relation "measure (\<lambda>(s, _). length (csPending s))")
    (auto simp: writeVisible_def split: if_splits)

declare settlePending.simps [simp del]

text \<open>The longest border: the longest end of \<open>closing\<close> that begins the closing marker.\<close>

fun longestBorder :: "string \<Rightarrow> string \<Rightarrow> nat \<Rightarrow> nat" where
  "longestBorder close closing 0 = 0"
| "longestBorder close closing (Suc n) =
     (if drop (length closing - Suc n) closing = take (Suc n) close then Suc n else longestBorder close closing n)"

definition consumeSensitive :: "sanitize_marker \<Rightarrow> char \<Rightarrow> content_sanitizer \<Rightarrow> content_sanitizer" where
  "consumeSensitive m v s =
     (let closing = csClosing s @ [v] in
      if closing = mkClose m then s \<lparr> csBlock := None, csClosing := [] \<rparr>
      else let keep = longestBorder (mkClose m) closing (min (length (mkClose m) - 1) (length closing))
        in s \<lparr> csClosing := drop (length closing - keep) closing \<rparr>)"

definition sanitizeByte :: "content_sanitizer \<times> string \<Rightarrow> char \<Rightarrow> content_sanitizer \<times> string" where
  "sanitizeByte p v = (case csBlock (fst p) of
      Some m \<Rightarrow> apfst (consumeSensitive m v) p
    | None \<Rightarrow> settlePending (apfst (\<lambda>s. s \<lparr> csPending := csPending s @ [v] \<rparr>) p))"

definition sanitizeChunk :: "content_sanitizer \<Rightarrow> string \<Rightarrow> content_sanitizer \<times> string" where
  "sanitizeChunk s content = foldl sanitizeByte (s, []) content"

definition sanitizeContent :: "string \<Rightarrow> string" where
  "sanitizeContent content = snd (sanitizeChunk newSanitizer content)"

text \<open>\<open>Generate\<close> sanitizes and trims a complete response; \<open>Stream\<close> each chunk of a stream.\<close>

definition sanitizeResponse :: "string \<Rightarrow> string" where
  "sanitizeResponse content = trimSpace (sanitizeContent content)"

fun sanitizeChunks :: "content_sanitizer \<Rightarrow> string list \<Rightarrow> content_sanitizer \<times> string list" where
  "sanitizeChunks s [] = (s, [])"
| "sanitizeChunks s (c # cs) = (case sanitizeChunk s c of (s', out) \<Rightarrow> apsnd (Cons out) (sanitizeChunks s' cs))"

section \<open>What it should do\<close>

text \<open>The text after the first occurrence of a marker.\<close>

fun afterMarker :: "string \<Rightarrow> string \<Rightarrow> string option" where
  "afterMarker c s = (if prefix c s then Some (drop (length c) s)
     else case s of [] \<Rightarrow> None | _ # t \<Rightarrow> afterMarker c t)"

declare afterMarker.simps [simp del]

lemma afterMarker_shorter: "afterMarker c s = Some t \<Longrightarrow> length t \<le> length s"
  by (induction s arbitrary: t) (fastforce simp: afterMarker.simps [of c "[]"] afterMarker.simps [of c "_ # _"] split: if_splits)+

text \<open>The text outside blocks; an unfinished block or opening marker hides the rest.\<close>

function visibleText :: "string \<Rightarrow> string" where
  "visibleText s = (case find (\<lambda>m. mkOpen m \<noteq> [] \<and> prefix (mkOpen m) s) streamSanitizeMarkers of
      Some m \<Rightarrow> (case afterMarker (mkClose m) (drop (length (mkOpen m)) s) of None \<Rightarrow> [] | Some t \<Rightarrow> visibleText t)
    | None \<Rightarrow> (case s of
          [] \<Rightarrow> []
        | v # t \<Rightarrow> if \<exists>m \<in> set streamSanitizeMarkers. strict_prefix s (mkOpen m) then [] else v # visibleText t))"
  by pat_completeness auto
termination
proof (relation "measure length")
  fix s m t
  assume m: "find (\<lambda>m. mkOpen m \<noteq> [] \<and> prefix (mkOpen m) s) streamSanitizeMarkers = Some m"
    and t: "afterMarker (mkClose m) (drop (length (mkOpen m)) s) = Some t"
  from m have "mkOpen m \<noteq> []" "prefix (mkOpen m) s" by (auto simp: find_Some_iff)
  with afterMarker_shorter [OF t] show "(t, s) \<in> measure length"
    by (cases "mkOpen m"; cases s) auto
qed simp_all

declare visibleText.simps [simp del]

text \<open>At most two line breaks in a row; \<open>n\<close> have been written already.\<close>

fun capNewlines :: "nat \<Rightarrow> string \<Rightarrow> string" where
  "capNewlines n [] = []"
| "capNewlines n (v # s) =
     (if v = CHR 0x0A then if n < 2 then v # capNewlines (n + 1) s else capNewlines n s
      else v # capNewlines 0 s)"

end
