(* ===== verification/ModelCalls.thy ===== *)
theory ModelCalls
  imports ModelErrors ContentSanitizer SessionTypes "HOL-Library.Monad_Syntax"
begin

text \<open>
  The complete (\<open>Generate\<close>) calls of the model middlewares of \<open>internal/llm\<close>: retry, failover,
  overflow recovery, sanitizing, loop detection and validation. A chat model is a function of
  the call's flags, its messages and the outside world; \<open>None\<close> is a call that never returns.
\<close>

section \<open>Calls\<close>

record chat_message =
  cmRole :: string
  cmContent :: string
  cmContentBlocks :: "content_block list"
  cmToolCalls :: "tool_call list"
  cmToolCallID :: string
  cmName :: string
  cmUsage :: "llm_usage option"
  cmFinishReason :: string

text \<open>What the code reads of a call's context, besides its cancellation.\<close>

record call_flags =
  cfOperationActive :: bool
  cfNoReplay :: bool
  cfLoopOwnsContinuation :: bool
  cfProposal :: "nat option option"

text \<open>A response, which may be nil, an error, or a panic.\<close>

datatype generate_result = Answered "chat_message option" | Failed model_error | Panicked

type_synonym 'w chat_model = "call_flags \<Rightarrow> chat_message list \<Rightarrow> 'w \<Rightarrow> (generate_result \<times> 'w) option"

type_synonym duration = "64 word"

text \<open>
  The outside world of a call: reading \<open>ctx.Err()\<close>, waiting for a timer or the context, eight
  random bytes, the JSON encoder's length and the float product of the overflow middleware.
\<close>

record 'w call_host =
  ckErr :: "'w \<Rightarrow> model_error option \<times> 'w"
  ckWait :: "duration \<Rightarrow> 'w \<Rightarrow> model_error option \<times> 'w"
  ckRandom :: "'w \<Rightarrow> u64 option \<times> 'w"
  ckEncodedLength :: "chat_message \<Rightarrow> nat option"
  ckTrimFraction :: "nat \<Rightarrow> int"

text \<open>\<open>fmt.Errorf\<close> with a text, a colon and the wrapped error.\<close>

definition wrapError :: "string \<Rightarrow> model_error \<Rightarrow> model_error" where
  "wrapError s e = Wrapped (s @ '': '' @ errorText e) e"

abbreviation plainError :: "string \<Rightarrow> generate_result" where
  "plainError s \<equiv> Failed (Leaf (PlainText s))"

section \<open>Retry policies\<close>

record 'w retry_policy =
  rpShouldRetry :: "model_error option \<Rightarrow> int \<Rightarrow> 'w \<Rightarrow> bool \<times> 'w"
  rpNextBackoff :: "int \<Rightarrow> 'w \<Rightarrow> duration \<times> 'w"

record retry_config =
  rcMaxAttempts :: int
  rcBaseDelay :: duration
  rcMaxDelay :: duration
  rcJitter :: duration

definition milliseconds :: "nat \<Rightarrow> duration" where
  "milliseconds n = of_nat n * 1000000"

text \<open>The configuration \<open>NewRetryModelMiddleware\<close> starts from.\<close>

definition defaultRetryConfig :: retry_config where
  "defaultRetryConfig = \<lparr> rcMaxAttempts = 3, rcBaseDelay = milliseconds 100, rcMaxDelay = 0, rcJitter = milliseconds 50 \<rparr>"

definition completeRetryConfig :: "retry_config \<Rightarrow> retry_config" where
  "completeRetryConfig cfg = cfg \<lparr>
     rcMaxAttempts := (if rcMaxAttempts cfg \<le> 0 then 3 else rcMaxAttempts cfg),
     rcBaseDelay := (if sint (rcBaseDelay cfg) \<le> 0 then milliseconds 100 else rcBaseDelay cfg) \<rparr>"

definition shouldRetry :: "'w call_host \<Rightarrow> retry_config \<Rightarrow> model_error option \<Rightarrow> int \<Rightarrow> 'w \<Rightarrow> bool \<times> 'w" where
  "shouldRetry h cfg err attempt w = (case ckErr h w of (ctx, w1) \<Rightarrow>
     (if ctx \<noteq> None \<or> (\<exists>e \<in> set_option err. errorsIs e Canceled) \<or> (\<exists>e \<in> set_option err. errorsIs e DeadlineExceeded)
        then False
      else if err = None \<or> attempt < 0 \<or> attempt \<ge> rcMaxAttempts cfg - 1 then False
      else retryable (classifyError err), w1))"

text \<open>The doubling loop of \<open>NextBackoff\<close>; durations wrap like 64-bit integers.\<close>

fun doubleBackoff :: "duration \<Rightarrow> nat \<Rightarrow> duration \<Rightarrow> duration" where
  "doubleBackoff maxDelay 0 d = d"
| "doubleBackoff maxDelay (Suc n) d =
     (if sint maxDelay > 0 \<and> sint (d * 2) \<ge> sint maxDelay then maxDelay else doubleBackoff maxDelay n (d * 2))"

definition retryRandomJitter :: "duration \<Rightarrow> u64 option \<Rightarrow> duration option" where
  "retryRandomJitter jitter bytes =
     (if sint jitter \<le> 0 then None else map_option (\<lambda>n. n mod jitter) bytes)"

definition backoffOf :: "retry_config \<Rightarrow> int \<Rightarrow> u64 option \<Rightarrow> duration" where
  "backoffOf cfg attempt bytes =
     (let d = doubleBackoff (rcMaxDelay cfg) (nat attempt) (rcBaseDelay cfg);
          d1 = (if sint (rcJitter cfg) > 0
                then (case retryRandomJitter (rcJitter cfg) bytes of None \<Rightarrow> d | Some j \<Rightarrow> d + j) else d)
      in if sint (rcMaxDelay cfg) > 0 \<and> sint d1 > sint (rcMaxDelay cfg) then rcMaxDelay cfg else d1)"

definition nextBackoff :: "'w call_host \<Rightarrow> retry_config \<Rightarrow> int \<Rightarrow> 'w \<Rightarrow> duration \<times> 'w" where
  "nextBackoff h cfg attempt w =
     (if sint (rcJitter cfg) > 0 then map_prod (backoffOf cfg attempt) id (ckRandom h w)
      else (backoffOf cfg attempt None, w))"

definition newDefaultRetryPolicy :: "'w call_host \<Rightarrow> retry_config \<Rightarrow> 'w retry_policy" where
  "newDefaultRetryPolicy h cfg = \<lparr> rpShouldRetry = shouldRetry h (completeRetryConfig cfg),
     rpNextBackoff = nextBackoff h (completeRetryConfig cfg) \<rparr>"

section \<open>Retry\<close>

partial_function (option) retryLoop ::
  "'w call_host \<Rightarrow> 'w retry_policy \<Rightarrow> 'w chat_model \<Rightarrow> call_flags \<Rightarrow> chat_message list \<Rightarrow> int \<Rightarrow> 'w
     \<Rightarrow> (generate_result \<times> 'w) option" where
  "retryLoop h pol inner fl msgs attempt w =
     (let (ctx, w1) = ckErr h w in
      if ctx \<noteq> None then Some (Failed (the ctx), w1)
      else Option.bind (inner fl msgs w1) (\<lambda>(r, w2).
        case r of
          Answered m \<Rightarrow> Some (Answered m, w2)
        | Panicked \<Rightarrow> Some (Panicked, w2)
        | Failed err \<Rightarrow>
            if cfNoReplay fl then Some (Failed err, w2)
            else let (again, w3) = rpShouldRetry pol (Some err) attempt w2 in
              if \<not> again then Some (Failed err, w3)
              else let (backoff, w4) = rpNextBackoff pol attempt w3; (woken, w5) = ckWait h backoff w4 in
                if woken \<noteq> None then Some (Failed (the woken), w5)
                else retryLoop h pol inner fl msgs (attempt + 1) w5))"

definition retryGenerate :: "'w call_host \<Rightarrow> 'w retry_policy \<Rightarrow> 'w chat_model \<Rightarrow> 'w chat_model" where
  "retryGenerate h pol inner fl msgs w =
     (if cfOperationActive fl then inner fl msgs w else retryLoop h pol inner fl msgs 0 w)"

section \<open>Failover\<close>

text \<open>A model and the provider candidates it stands for.\<close>

type_synonym 'w failover_member = "nat list \<times> 'w chat_model"

fun failoverLoop ::
  "call_flags \<Rightarrow> chat_message list \<Rightarrow> 'w failover_member list \<Rightarrow> model_error option \<Rightarrow> 'w
     \<Rightarrow> (generate_result \<times> 'w) option" where
  "failoverLoop fl msgs [] lastErr w =
     Some (case lastErr of None \<Rightarrow> Answered None | Some e \<Rightarrow> Failed e, w)"
| "failoverLoop fl msgs (m # ms) lastErr w = Option.bind (snd m fl msgs w) (\<lambda>(r, w1).
     case r of
       Failed err \<Rightarrow>
         if cfNoReplay fl \<or> classifyError (Some err) = CategoryFatal then Some (Failed err, w1)
         else failoverLoop fl msgs ms (Some err) w1
     | _ \<Rightarrow> Some (r, w1))"

fun failoverModelIndex :: "'w failover_member list \<Rightarrow> nat option \<Rightarrow> 'w failover_member option" where
  "failoverModelIndex ms None = None"
| "failoverModelIndex ms (Some c) = find (\<lambda>m. c \<in> set (fst m)) ms"

definition failoverWithOperation ::
  "call_flags \<Rightarrow> chat_message list \<Rightarrow> 'w failover_member list \<Rightarrow> 'w \<Rightarrow> (generate_result \<times> 'w) option" where
  "failoverWithOperation fl msgs ms w = (case ms of
      [] \<Rightarrow> Some (plainError ''llm: failover has no candidate models'', w)
    | m # _ \<Rightarrow> (case cfProposal fl of
          Some c \<Rightarrow> (case failoverModelIndex ms c of
              None \<Rightarrow> Some (plainError ''llm: guarded provider dispatch requires a matching permit'', w)
            | Some m' \<Rightarrow> snd m' fl msgs w)
        | None \<Rightarrow> if fst m = [] then Some (plainError ''llm: guarded provider model requires an operation authority'', w) else snd m fl msgs w))"

definition failoverGenerate :: "'w failover_member list \<Rightarrow> 'w failover_member \<Rightarrow> 'w chat_model" where
  "failoverGenerate fallbacks primary fl msgs w =
     (if cfOperationActive fl then failoverWithOperation fl msgs (primary # fallbacks) w
      else failoverLoop fl msgs (primary # fallbacks) None w)"

section \<open>Overflow recovery\<close>

definition finishReasonLength :: string where
  "finishReasonLength = ''length''"

definition isOverflowError :: "model_error option \<Rightarrow> bool" where
  "isOverflowError err = (case err of
      None \<Rightarrow> False
    | Some e \<Rightarrow> (case asProviderError e of
          Some p \<Rightarrow> peErrorType p = ErrTypeOverflow
        | None \<Rightarrow> containsOverflowIndicator (errorText e)))"

text \<open>\<open>None\<close> is the panic of a slice expression out of range.\<close>

definition trimMessages :: "(nat \<Rightarrow> int) \<Rightarrow> chat_message list \<Rightarrow> chat_message list option" where
  "trimMessages fraction msgs =
     (if length msgs \<le> 1 then Some msgs
      else let startIdx = (if cmRole (hd msgs) = ''system'' then 1 else 0);
               removable = length msgs - startIdx
        in if removable \<le> 0 then Some msgs
        else let trimCount = (if fraction removable < 1 then 1 else fraction removable)
          in if int startIdx + trimCount > int (length msgs) then None
          else Some (take startIdx msgs @ drop (startIdx + nat trimCount) msgs))"

definition addUsage :: "llm_usage option \<Rightarrow> llm_usage option \<Rightarrow> llm_usage option" where
  "addUsage mine extra = (case extra of
      None \<Rightarrow> mine
    | Some u \<Rightarrow> (case mine of
          None \<Rightarrow> Some u
        | Some v \<Rightarrow> Some (v \<lparr> uInputTokens := uInputTokens v + uInputTokens u,
            uOutputTokens := uOutputTokens v + uOutputTokens u,
            uTotalTokens := uTotalTokens v + uTotalTokens u \<rparr>)))"

definition guardedStreamMaxBytes :: nat where
  "guardedStreamMaxBytes = 400000"

definition maxContinuations :: nat where
  "maxContinuations = 3"

definition continuationMessage :: "chat_message \<Rightarrow> chat_message" where
  "continuationMessage r = \<lparr> cmRole = ''assistant'', cmContent = cmContent r, cmContentBlocks = [], cmToolCalls = [],
     cmToolCallID = [], cmName = [], cmUsage = None, cmFinishReason = cmFinishReason r \<rparr>"

text \<open>The continuation loop; \<open>n\<close> continuations are left.\<close>

fun continueLoop ::
  "'w call_host \<Rightarrow> 'w chat_model \<Rightarrow> call_flags \<Rightarrow> chat_message list \<Rightarrow> nat \<Rightarrow> chat_message \<Rightarrow> 'w
     \<Rightarrow> (generate_result \<times> 'w) option" where
  "continueLoop h inner fl msgs 0 r w =
     Some (if cmFinishReason r = finishReasonLength then plainError ''overflow: response remains truncated after 3 continuations''
           else Answered (Some r), w)"
| "continueLoop h inner fl msgs (Suc n) r w =
     (if cmFinishReason r \<noteq> finishReasonLength then Some (Answered (Some r), w)
      else (case ckErr h w of
          (Some e, w1) \<Rightarrow> Some (Failed (wrapError ''overflow: continuation canceled'' e), w1)
        | (None, w1) \<Rightarrow> Option.bind (inner (fl \<lparr> cfNoReplay := True \<rparr>) (msgs @ [continuationMessage r]) w1) (\<lambda>(x, w2).
            case x of
              Panicked \<Rightarrow> Some (Panicked, w2)
            | Failed e \<Rightarrow> Some (Failed (wrapError (''overflow: continuation '' @ decimal (maxContinuations - n) @ '' failed'') e), w2)
            | Answered None \<Rightarrow> Some (plainError ''overflow: continuation returned a nil response'', w2)
            | Answered (Some c) \<Rightarrow>
                if length (cmContent c) + length (cmContent r) > guardedStreamMaxBytes
                  then Some (plainError ''overflow: continuation exceeds content limit'', w2)
                else let r' = r \<lparr> cmContent := cmContent r @ cmContent c, cmFinishReason := cmFinishReason c,
                       cmToolCalls := cmToolCalls c, cmUsage := addUsage (cmUsage r) (cmUsage c) \<rparr>
                  in (case ckEncodedLength h r' of
                      None \<Rightarrow> Some (plainError ''overflow: encode complete continuation'', w2)
                    | Some k \<Rightarrow>
                        if k > guardedStreamMaxBytes
                          then Some (plainError ''overflow: complete continuation exceeds limit'', w2)
                        else continueLoop h inner fl msgs n r' w2))))"

definition continueGeneration ::
  "'w call_host \<Rightarrow> 'w chat_model \<Rightarrow> call_flags \<Rightarrow> chat_message list \<Rightarrow> chat_message \<Rightarrow> 'w
     \<Rightarrow> (generate_result \<times> 'w) option" where
  "continueGeneration h inner fl msgs r w = continueLoop h inner fl msgs maxContinuations r w"

function overflowLoop ::
  "'w call_host \<Rightarrow> int \<Rightarrow> 'w chat_model \<Rightarrow> call_flags \<Rightarrow> int \<Rightarrow> chat_message list \<Rightarrow> 'w
     \<Rightarrow> (generate_result \<times> 'w) option" where
  "overflowLoop h maxRetries inner fl attempt msgs w =
     (if attempt > maxRetries then Some (plainError ''overflow: unexpected state'', w)
      else Option.bind (inner fl msgs w) (\<lambda>(x, w1).
        case x of
          Panicked \<Rightarrow> Some (Panicked, w1)
        | Answered None \<Rightarrow> Some (Answered None, w1)
        | Answered (Some r) \<Rightarrow>
            if cmFinishReason r = finishReasonLength \<and> \<not> cfLoopOwnsContinuation fl \<and> \<not> cfNoReplay fl
              then continueGeneration h inner fl msgs r w1
            else Some (Answered (Some r), w1)
        | Failed err \<Rightarrow>
            if cfOperationActive fl \<or> \<not> isOverflowError (Some err) \<or> cfNoReplay fl then Some (Failed err, w1)
            else if attempt \<ge> maxRetries
              then Some (Failed (wrapError (''overflow: max retries ('' @ intText maxRetries @ '') exhausted'') err), w1)
            else (case trimMessages (ckTrimFraction h) msgs of
                None \<Rightarrow> Some (Panicked, w1)
              | Some trimmed \<Rightarrow>
                  if trimmed = [] then Some (Failed (wrapError ''overflow: all messages trimmed'' err), w1)
                  else overflowLoop h maxRetries inner fl (attempt + 1) trimmed w1)))"
  by pat_completeness auto
termination
  by (relation "measure (\<lambda>(_, maxRetries, _, _, attempt, _, _). nat (maxRetries + 1 - attempt))") auto

declare overflowLoop.simps [simp del]

definition overflowGenerate :: "'w call_host \<Rightarrow> int \<Rightarrow> 'w chat_model \<Rightarrow> 'w chat_model" where
  "overflowGenerate h maxRetries inner fl msgs w = overflowLoop h maxRetries inner fl 0 msgs w"

section \<open>Sanitizing and validation\<close>

definition sanitizeGenerate :: "'w chat_model \<Rightarrow> 'w chat_model" where
  "sanitizeGenerate inner fl msgs w = Option.bind (inner fl msgs w) (\<lambda>(x, w1).
     Some (case x of
       Answered None \<Rightarrow> Panicked
     | Answered (Some r) \<Rightarrow> Answered (Some (r \<lparr> cmContent := sanitizeResponse (cmContent r) \<rparr>))
     | _ \<Rightarrow> x, w1))"

definition validateGenerate :: "'w chat_model \<Rightarrow> 'w chat_model" where
  "validateGenerate inner fl msgs w = Option.bind (inner fl msgs w) (\<lambda>(x, w1).
     Some (case x of
       Answered None \<Rightarrow> plainError ''validate: empty response''
     | Answered (Some r) \<Rightarrow> if cmContent r = [] \<and> cmToolCalls r = [] then plainError ''validate: empty response content'' else x
     | _ \<Rightarrow> x, w1))"

end
