(* ===== verification/LoopDetection.thy ===== *)
theory LoopDetection
  imports ModelCalls Effects
begin

text \<open>
  The loop detector of \<open>internal/llm/middleware_loopdetect.go\<close>: fingerprints of complete
  responses, the window of recent ones, and the check of the run at its end. SHA-256 and the
  JSON encoder are parameters.
\<close>

section \<open>Fingerprints\<close>

record detect_host =
  dhSha256 :: "string \<Rightarrow> string"
  dhMarshal :: "go_any \<Rightarrow> string option"

definition guardedStreamMaxToolCalls :: nat where
  "guardedStreamMaxToolCalls = 4096"

definition addBoundedStreamBytes :: "int \<Rightarrow> int \<Rightarrow> int \<times> bool" where
  "addBoundedStreamBytes current additional =
     (if current < 0 \<or> additional < 0 \<or> current > int guardedStreamMaxBytes
         \<or> additional > int guardedStreamMaxBytes - current then (current, False)
      else (current + additional, True))"

text \<open>\<open>binary.BigEndian.PutUint64\<close>.\<close>

definition putUint64 :: "nat \<Rightarrow> string" where
  "putUint64 n = map (\<lambda>i. char_of (n div 256 ^ (7 - i) mod 256)) [0..<8]"

definition hashedField :: "string \<Rightarrow> string" where
  "hashedField v = putUint64 (length v) @ v"

definition writeField :: "int \<times> string \<Rightarrow> string \<Rightarrow> string + int \<times> string" where
  "writeField p v = (case addBoundedStreamBytes (fst p) (int (length v)) of
      (_, False) \<Rightarrow> Inl ''loopdetection: response exceeds 400000-byte candidate limit''
    | (n, True) \<Rightarrow> Inr (n, snd p @ hashedField v))"

definition writeCall :: "detect_host \<Rightarrow> int \<times> string \<Rightarrow> tool_call \<Rightarrow> string + int \<times> string" where
  "writeCall h p c = bindR (writeField p (tcName c)) (\<lambda>p1.
     case dhMarshal h (tcArgs c) of
       None \<Rightarrow> Inl ''loopdetection: encode tool arguments for fingerprint''
     | Some args \<Rightarrow> writeField p1 args)"

definition fingerprintInput :: "detect_host \<Rightarrow> string \<Rightarrow> tool_call list \<Rightarrow> string + string" where
  "fingerprintInput h content calls =
     (if length calls > guardedStreamMaxToolCalls then Inl ''loopdetection: response exceeds 4096 tool calls''
      else bindR (writeField (0, []) content) (\<lambda>p.
        bindR (foldR (writeCall h) (fst p, snd p @ hashedField (putUint64 (length calls))) calls) (\<lambda>q. Inr (snd q))))"

definition responseFingerprint :: "detect_host \<Rightarrow> string \<Rightarrow> tool_call list \<Rightarrow> string + string" where
  "responseFingerprint h content calls =
     map_sum id (\<lambda>b. hexEncode (dhSha256 h b)) (fingerprintInput h content calls)"

section \<open>The window\<close>

record loop_detector =
  ldThreshold :: int
  ldWindowSize :: int

definition newLoopDetector :: loop_detector where
  "newLoopDetector = \<lparr> ldThreshold = 3, ldWindowSize = 5 \<rparr>"

text \<open>The length of the run of one fingerprint at the end of a list.\<close>

fun runFrom :: "string \<Rightarrow> string list \<Rightarrow> int" where
  "runFrom fp [] = 0"
| "runFrom fp (x # xs) = (if x = fp then 1 + runFrom fp xs else 0)"

text \<open>\<open>None\<close> is the panic of a negative window; the number is the repeat count of a detected loop.\<close>

definition trimRecent :: "int \<Rightarrow> string list \<Rightarrow> string list option" where
  "trimRecent windowSize r =
     (if int (length r) > windowSize
        then let low = int (length r) - windowSize in if low > int (length r) then None else Some (drop (nat low) r)
      else Some r)"

definition checkLoop :: "loop_detector \<Rightarrow> string list \<Rightarrow> string \<Rightarrow> (int option \<times> string list) option" where
  "checkLoop d recent fp = (case trimRecent (ldWindowSize d) (recent @ [fp]) of
      None \<Rightarrow> None
    | Some r \<Rightarrow>
        let count = 1 + runFrom fp (rev (butlast r))
        in Some (if count \<ge> ldThreshold d then Some count else None, r))"

definition noteResponse :: "detect_host \<Rightarrow> loop_detector \<Rightarrow> string list \<Rightarrow> chat_message \<Rightarrow> generate_result \<times> string list" where
  "noteResponse h d recent m = (case responseFingerprint h (cmContent m) (cmToolCalls m) of
      Inl e \<Rightarrow> (plainError e, recent)
    | Inr fp \<Rightarrow> (case checkLoop d recent fp of
          None \<Rightarrow> (Panicked, recent @ [fp])
        | Some (Some count, r) \<Rightarrow>
            (plainError (''loopdetection: detected repeated response (count='' @ intText count @ '')''), r)
        | Some (None, r) \<Rightarrow> (Answered (Some m), r)))"

text \<open>The wrapped model; its world carries the middleware's window.\<close>

definition detectGenerate :: "detect_host \<Rightarrow> loop_detector \<Rightarrow> 'w chat_model \<Rightarrow> ('w \<times> string list) chat_model" where
  "detectGenerate h d inner fl msgs p = Option.bind (inner fl msgs (fst p)) (\<lambda>(x, w1).
     Some (case x of
       Answered None \<Rightarrow> (Panicked, w1, snd p)
     | Answered (Some m) \<Rightarrow> (case noteResponse h d (snd p) m of (r, recent) \<Rightarrow> (r, w1, recent))
     | _ \<Rightarrow> (x, w1, snd p)))"

end
