(* ===== verification/ProviderStack.thy ===== *)
theory ProviderStack
  imports LoopDetection
begin

text \<open>
  The model stack the program assembles (\<open>assembleProductionResilience\<close> in
  \<open>internal/cli/assemble.go\<close>): the retry policy of \<open>internal/production/retry.go\<close> with its own
  classification of errors, the timeout layer of \<open>internal/llm/middleware_timeout.go\<close>, and the
  layers in the order of \<open>NewStandardMiddlewareChain\<close>.
\<close>

section \<open>Classes of errors\<close>

text \<open>The errors of a tree in the order \<open>errors.As\<close> visits them.\<close>

fun errorNodes :: "model_error \<Rightarrow> model_error list" where
  "errorNodes (Leaf x) = [Leaf x]"
| "errorNodes (Wrapped s e) = Wrapped s e # errorNodes e"
| "errorNodes (Joined s es) = Joined s es # concat (map errorNodes es)"
| "errorNodes (Categorized c e) = Categorized c e # errorNodes e"
| "errorNodes (Harness code m e) = Harness code m e # errorNodes e"

fun categoryOf :: "model_error \<Rightarrow> production_category option" where
  "categoryOf (Categorized c _) = Some c"
| "categoryOf _ = None"

fun harnessCode :: "model_error \<Rightarrow> string option" where
  "harnessCode (Harness code _ _) = Some code"
| "harnessCode (Leaf (HarnessLeaf code _)) = Some code"
| "harnessCode _ = None"

definition firstOf :: "(model_error \<Rightarrow> 'a option) \<Rightarrow> model_error \<Rightarrow> 'a option" where
  "firstOf f e = (case List.map_filter f (errorNodes e) of [] \<Rightarrow> None | x # _ \<Rightarrow> Some x)"

text \<open>The texts of an error and of the chain \<open>errors.Unwrap\<close> follows.\<close>

fun errorChain :: "model_error \<Rightarrow> string list" where
  "errorChain (Leaf x) = [leafText x]"
| "errorChain (Wrapped s e) = s # errorChain e"
| "errorChain (Joined s _) = [s]"
| "errorChain (Categorized c e) = errorText e # errorChain e"
| "errorChain (Harness code m e) = errorText (Harness code m e) # errorChain e"

fun joinSpaced :: "string list \<Rightarrow> string" where
  "joinSpaced [] = []"
| "joinSpaced [s] = s"
| "joinSpaced (s # ss) = s @ '' '' @ joinSpaced ss"

definition errContains :: "model_error \<Rightarrow> string list \<Rightarrow> bool" where
  "errContains e subs = list_ex (contains (toLower (joinSpaced (errorChain e)))) subs"

definition isRateLimit :: "model_error \<Rightarrow> bool" where
  "isRateLimit e = errContains e [''rate limit'', ''too many requests'', ''429'', ''throttl'']"

definition isTimeout :: "model_error \<Rightarrow> bool" where
  "isTimeout e = errContains e [''timeout'', ''deadline exceeded'', ''context deadline'']"

definition isTransient :: "model_error \<Rightarrow> bool" where
  "isTransient e = errContains e [''transient'', ''temporary'', ''connection reset'', ''connection refused'']"

definition classifyProviderError :: "model_error \<Rightarrow> production_category option" where
  "classifyProviderError e =
     (if errorsIs e ProviderResponseTooLarge then Some ErrorFatal
      else case map_option peErrorType (asProviderError e) of
        Some ErrTypeRateLimit \<Rightarrow> Some ErrorRateLimit
      | Some ErrTypeServer \<Rightarrow> Some ErrorTransient
      | Some ErrTypeNetwork \<Rightarrow> Some ErrorTransient
      | Some ErrTypeAuth \<Rightarrow> Some ErrorFatal
      | Some ErrTypeOverflow \<Rightarrow> Some ErrorFatal
      | Some ErrTypeInvalidRequest \<Rightarrow> Some ErrorFatal
      | _ \<Rightarrow> None)"

definition classifyHarnessError :: "string \<Rightarrow> production_category" where
  "classifyHarnessError code =
     (if code = ''busy'' \<or> code = ''hook_rejected'' then ErrorFatal
      else if code = ''timeout'' then ErrorTimeout
      else ErrorTransient)"

definition classify :: "model_error option \<Rightarrow> production_category" where
  "classify err = (case err of
      None \<Rightarrow> ErrorFatal
    | Some e \<Rightarrow>
        if errorsIs e Canceled \<or> errorsIs e DeadlineExceeded then ErrorFatal
        else (case firstOf categoryOf e of
          Some c \<Rightarrow> c
        | None \<Rightarrow> (case firstOf harnessCode e of
            Some code \<Rightarrow>
              if code = ''busy'' \<or> code = ''hook_rejected'' then ErrorFatal
              else (case (if code = ''model_error'' \<or> code = ''tool_error'' then classifyProviderError e else None) of
                  Some c \<Rightarrow> c | None \<Rightarrow> classifyHarnessError code)
          | None \<Rightarrow> (case classifyProviderError e of
              Some c \<Rightarrow> c
            | None \<Rightarrow>
                if isRateLimit e then ErrorRateLimit
                else if isTimeout e then ErrorTimeout
                else if isTransient e then ErrorTransient
                else ErrorFatal))))"

section \<open>The retry policy\<close>

text \<open>The delay of \<open>NextBackoff\<close>: never negative, unlike that of the default policy.\<close>

definition productionBackoff :: "'w call_host \<Rightarrow> retry_config \<Rightarrow> int \<Rightarrow> 'w \<Rightarrow> duration \<times> 'w" where
  "productionBackoff h cfg attempt w =
     map_prod (\<lambda>d. if sint d < 0 then 0 else d) id (nextBackoff h cfg attempt w)"

text \<open>A retry that is granted draws a delay, for the log only.\<close>

definition productionShouldRetry :: "'w call_host \<Rightarrow> retry_config \<Rightarrow> model_error option \<Rightarrow> int \<Rightarrow> 'w \<Rightarrow> bool \<times> 'w" where
  "productionShouldRetry h cfg err attempt w = (case ckErr h w of (ctx, w1) \<Rightarrow>
     if ctx \<noteq> None then (False, w1)
     else if (\<exists>e \<in> set_option err. errorsIs e Canceled \<or> errorsIs e DeadlineExceeded) then (False, w1)
     else if err = None \<or> attempt < 0 \<or> attempt \<ge> rcMaxAttempts cfg - 1 then (False, w1)
     else if classify err = ErrorFatal then (False, w1)
     else (True, snd (productionBackoff h cfg attempt w1)))"

definition productionRetryPolicy :: "'w call_host \<Rightarrow> retry_config \<Rightarrow> 'w retry_policy" where
  "productionRetryPolicy h cfg = \<lparr> rpShouldRetry = productionShouldRetry h (completeRetryConfig cfg),
     rpNextBackoff = productionBackoff h (completeRetryConfig cfg) \<rparr>"

section \<open>The timeout layer\<close>

text \<open>Contexts of the outside world: a child with a deadline, its end, and the text of a duration.\<close>

record 'w deadline_host =
  dlStart :: "duration \<Rightarrow> 'w \<Rightarrow> 'w"
  dlCancel :: "'w \<Rightarrow> 'w"
  dlText :: "duration \<Rightarrow> string"

definition timeoutGenerate :: "'w call_host \<Rightarrow> 'w deadline_host \<Rightarrow> duration \<Rightarrow> 'w chat_model \<Rightarrow> 'w chat_model" where
  "timeoutGenerate h dl budget inner fl msgs w =
     Option.bind (inner fl msgs (dlStart dl budget w)) (\<lambda>(x, w1).
       case ckErr h w1 of (ctx, w2) \<Rightarrow>
         Some (case ctx of
             Some e \<Rightarrow> Failed (wrapError (''timeout: generate exceeded '' @ dlText dl budget) e)
           | None \<Rightarrow> x, dlCancel dl w2))"

section \<open>The assembled stack\<close>

text \<open>The outside world next to a state of the program, such as the window of the loop detector.\<close>

definition pairedHost :: "'w call_host \<Rightarrow> ('w \<times> 's) call_host" where
  "pairedHost h = \<lparr> ckErr = (\<lambda>p. apsnd (\<lambda>w. (w, snd p)) (ckErr h (fst p))),
     ckWait = (\<lambda>d p. apsnd (\<lambda>w. (w, snd p)) (ckWait h d (fst p))),
     ckRandom = (\<lambda>p. apsnd (\<lambda>w. (w, snd p)) (ckRandom h (fst p))),
     ckEncodedLength = ckEncodedLength h, ckTrimFraction = ckTrimFraction h \<rparr>"

definition pairedDeadlines :: "'w deadline_host \<Rightarrow> ('w \<times> 's) deadline_host" where
  "pairedDeadlines dl = \<lparr> dlStart = (\<lambda>t. apfst (dlStart dl t)), dlCancel = apfst (dlCancel dl), dlText = dlText dl \<rparr>"

definition assembledRetryConfig :: retry_config where
  "assembledRetryConfig =
     \<lparr> rcMaxAttempts = 3, rcBaseDelay = milliseconds 1000, rcMaxDelay = milliseconds 10000, rcJitter = 0 \<rparr>"

definition overflowMaxRetries :: int where
  "overflowMaxRetries = 2"

definition assembledGenerate ::
  "'w call_host \<Rightarrow> 'w deadline_host \<Rightarrow> detect_host \<Rightarrow> duration \<Rightarrow> nat list \<Rightarrow> 'w chat_model \<Rightarrow> ('w \<times> string list) chat_model" where
  "assembledGenerate h dl dh budget candidates provider =
     failoverGenerate [] (candidates,
       retryGenerate (pairedHost h) (productionRetryPolicy (pairedHost h) assembledRetryConfig)
         (timeoutGenerate (pairedHost h) (pairedDeadlines dl) budget
           (sanitizeGenerate
             (detectGenerate dh newLoopDetector
               (validateGenerate (overflowGenerate h overflowMaxRetries provider))))))"

end
