(* ===== verification/ContentSanitizerFacts.thy ===== *)
theory ContentSanitizerFacts
  imports ContentSanitizer
begin

text \<open>
  The sanitizer shows the visible text of what it was given, however the text is cut into
  chunks, and keeps less than a marker in between.
\<close>

section \<open>Markers\<close>

text \<open>No marker begins another one, and none lies inside the unfinished part of one.\<close>

lemma markers_opening:
  "m \<in> set streamSanitizeMarkers \<Longrightarrow> mkOpen m \<noteq> [] \<and> mkClose m \<noteq> []"
  by (auto simp: streamSanitizeMarkers_def)

lemma markers_prefix_free:
  "m \<in> set streamSanitizeMarkers \<Longrightarrow> m' \<in> set streamSanitizeMarkers \<Longrightarrow> prefix (mkOpen m) (mkOpen m') \<Longrightarrow> m = m'"
  by (auto simp: streamSanitizeMarkers_def)

lemma markers_not_inside:
  "m \<in> set streamSanitizeMarkers \<Longrightarrow> m' \<in> set streamSanitizeMarkers \<Longrightarrow> \<not> sublist (mkOpen m) (butlast (mkOpen m'))"
proof -
  have "\<forall>m \<in> set streamSanitizeMarkers. \<forall>m' \<in> set streamSanitizeMarkers. \<not> sublist (mkOpen m) (butlast (mkOpen m'))"
    by code_simp
  then show "m \<in> set streamSanitizeMarkers \<Longrightarrow> m' \<in> set streamSanitizeMarkers \<Longrightarrow> \<not> sublist (mkOpen m) (butlast (mkOpen m'))"
    by blast
qed

definition possibleOpening :: "string \<Rightarrow> bool" where
  "possibleOpening p \<longleftrightarrow> (\<exists>m \<in> set streamSanitizeMarkers. strict_prefix p (mkOpen m))"

lemma strict_prefix_take: "strict_prefix p q \<longleftrightarrow> length p < length q \<and> p = take (length p) q"
proof
  assume "strict_prefix p q"
  then show "length p < length q \<and> p = take (length p) q" by (auto elim!: strict_prefixE' simp: prefix_length_less)
next
  assume *: "length p < length q \<and> p = take (length p) q"
  then have "prefix p q" by (metis take_is_prefix)
  with * show "strict_prefix p q" by (auto simp: strict_prefix_def)
qed

lemma scanMarkers_all:
  "scanMarkers ms p b = (case find (\<lambda>m. p = mkOpen m) ms of
      Some m \<Rightarrow> (Some m, b \<or> (\<exists>m' \<in> set (takeWhile (\<lambda>m. p \<noteq> mkOpen m) ms). strict_prefix p (mkOpen m')))
    | None \<Rightarrow> (None, b \<or> (\<exists>m \<in> set ms. strict_prefix p (mkOpen m))))"
  by (induction ms arbitrary: b) (auto simp: strict_prefix_take split: option.splits)

text \<open>Opening markers at the front of a text.\<close>

definition openingAt :: "string \<Rightarrow> sanitize_marker option" where
  "openingAt s = find (\<lambda>m. mkOpen m \<noteq> [] \<and> prefix (mkOpen m) s) streamSanitizeMarkers"

lemma openingAt_Some: "openingAt s = Some m \<longleftrightarrow> m \<in> set streamSanitizeMarkers \<and> prefix (mkOpen m) s"
proof
  assume "openingAt s = Some m"
  then show "m \<in> set streamSanitizeMarkers \<and> prefix (mkOpen m) s"
    unfolding openingAt_def by (auto dest: find_SomeD)
next
  assume m: "m \<in> set streamSanitizeMarkers \<and> prefix (mkOpen m) s"
  then obtain m' where m': "openingAt s = Some m'"
    unfolding openingAt_def using markers_opening by (fastforce simp: find_None_iff)
  then have "m' \<in> set streamSanitizeMarkers" "prefix (mkOpen m') s"
    unfolding openingAt_def by (auto dest: find_SomeD)
  with m have "m = m'" using markers_prefix_free prefix_same_cases by metis
  with m' show "openingAt s = Some m" by simp
qed

lemma openingAt_None: "openingAt s = None \<longleftrightarrow> (\<forall>m \<in> set streamSanitizeMarkers. \<not> prefix (mkOpen m) s)"
  using openingAt_Some by (metis not_None_eq option.distinct(1))

lemma visibleText_block:
  "m \<in> set streamSanitizeMarkers \<Longrightarrow> visibleText (mkOpen m @ s)
     = (case afterMarker (mkClose m) s of None \<Rightarrow> [] | Some t \<Rightarrow> visibleText t)"
  using openingAt_Some [of "mkOpen m @ s" m] visibleText.simps [of "mkOpen m @ s"]
  by (simp add: openingAt_def)

lemma visibleText_emit:
  assumes "\<forall>m \<in> set streamSanitizeMarkers. \<not> prefix (mkOpen m) (v # s)" "\<not> possibleOpening (v # s)"
  shows "visibleText (v # s) = v # visibleText s"
  using assms openingAt_None [of "v # s"] visibleText.simps [of "v # s"]
  by (simp add: openingAt_def possibleOpening_def)

lemma visibleText_unfinished:
  assumes "possibleOpening s"
  shows "visibleText s = []"
proof -
  have "openingAt s = None"
    using assms unfolding openingAt_None possibleOpening_def
    by (metis markers_prefix_free prefix_order.less_le_trans prefix_order.less_irrefl strict_prefix_def)
  with assms visibleText.simps [of s] show ?thesis
    by (auto simp: openingAt_def possibleOpening_def split: list.splits)
qed

section \<open>The automaton computes the visible text\<close>

text \<open>Between two bytes only unfinished markers are kept.\<close>

definition sanitizerOK :: "content_sanitizer \<Rightarrow> bool" where
  "sanitizerOK s \<longleftrightarrow> (case csBlock s of
      Some m \<Rightarrow> m \<in> set streamSanitizeMarkers \<and> strict_prefix (csClosing s) (mkClose m) \<and> csPending s = []
    | None \<Rightarrow> (csPending s = [] \<or> possibleOpening (csPending s)) \<and> csClosing s = [])"

text \<open>What a sanitizer in a given state should still show of the text to come.\<close>

definition stillVisible :: "content_sanitizer \<Rightarrow> string \<Rightarrow> string" where
  "stillVisible s rest = (case csBlock s of
      Some m \<Rightarrow> (case afterMarker (mkClose m) (csClosing s @ rest) of None \<Rightarrow> [] | Some t \<Rightarrow> visibleText t)
    | None \<Rightarrow> visibleText (csPending s @ rest))"

definition stillShown :: "content_sanitizer \<Rightarrow> string \<Rightarrow> string" where
  "stillShown s rest = capNewlines (csNewlineRun s) (stillVisible s rest)"

lemma writeVisible_shown:
  "capNewlines (csNewlineRun s) (v # t) = x @ capNewlines (csNewlineRun s') t" if "writeVisible v (s, shown) = (s', shown @ x)"
  using that by (auto simp: writeVisible_def split: if_splits)

lemma writeVisible_run:
  obtains x n where "writeVisible v (s, shown) = (s \<lparr> csNewlineRun := n \<rparr>, shown @ x)"
proof (cases "v = CHR 0x0A \<and> \<not> csNewlineRun s < 2")
  case True
  then have "writeVisible v (s, shown) = (s \<lparr> csNewlineRun := csNewlineRun s \<rparr>, shown @ [])" by (simp add: writeVisible_def)
  then show thesis by (rule that)
next
  case False
  then have "writeVisible v (s, shown)
      = (s \<lparr> csNewlineRun := (if v = CHR 0x0A then csNewlineRun s + 1 else 0) \<rparr>, shown @ [v])"
    by (auto simp: writeVisible_def)
  then show thesis by (rule that)
qed

text \<open>Pending bytes end in a byte that may have broken an unfinished opening marker.\<close>

definition pendingOK :: "string \<Rightarrow> bool" where
  "pendingOK p \<longleftrightarrow> (\<exists>m \<in> set streamSanitizeMarkers. sublist (butlast p) (butlast (mkOpen m)))"

lemma strict_prefix_butlast: "strict_prefix p q \<longleftrightarrow> q \<noteq> [] \<and> prefix p (butlast q)"
  by (cases q rule: rev_cases) (auto simp: strict_prefix_def prefix_snoc)

lemma pendingOK_snoc:
  assumes "p = [] \<or> possibleOpening p"
  shows "pendingOK (p @ [v])"
  using assms
proof
  assume "p = []"
  moreover have "hd streamSanitizeMarkers \<in> set streamSanitizeMarkers" by (simp add: streamSanitizeMarkers_def)
  ultimately show ?thesis unfolding pendingOK_def by (intro bexI) auto
next
  assume "possibleOpening p"
  then show ?thesis by (auto simp: possibleOpening_def pendingOK_def strict_prefix_butlast)
qed

lemma pendingOK_tl: "pendingOK (v # p) \<Longrightarrow> pendingOK p"
  by (cases "p = []") (auto simp: pendingOK_def intro: sublist_order.order_trans [of _ "v # butlast p"] sublist_append_leftI [of _ "[v]", simplified])

text \<open>A byte that neither ends nor continues a marker is visible.\<close>

lemma settled_byte:
  assumes "pendingOK (v # t)" "\<forall>m \<in> set streamSanitizeMarkers. v # t \<noteq> mkOpen m" "\<not> possibleOpening (v # t)"
  shows "visibleText (v # t @ rest) = v # visibleText (t @ rest)"
proof (rule visibleText_emit)
  have *: "\<not> prefix (v # t) (mkOpen m)" if "m \<in> set streamSanitizeMarkers" for m
    using assms(2,3) that by (auto simp: possibleOpening_def strict_prefix_def)
  show "\<forall>m \<in> set streamSanitizeMarkers. \<not> prefix (mkOpen m) (v # t @ rest)"
  proof (intro ballI notI)
    fix m assume m: "m \<in> set streamSanitizeMarkers" and p: "prefix (mkOpen m) (v # t @ rest)"
    have "prefix (v # t) (v # t @ rest)" by simp
    from prefix_same_cases [OF this p] * [OF m] have "prefix (mkOpen m) (v # t)" by blast
    with assms(2) m have "prefix (mkOpen m) (butlast (v # t))"
      by (metis strict_prefix_def strict_prefix_butlast)
    then have "sublist (mkOpen m) (butlast (v # t))" by simp
    with assms(1) markers_not_inside [OF m] show False
      unfolding pendingOK_def using sublist_order.order_trans by blast
  qed
  show "\<not> possibleOpening (v # t @ rest)"
    using * by (auto simp: possibleOpening_def strict_prefix_def dest: append_prefixD [of "v # t" rest, simplified])
qed

lemma settle_shown:
  assumes "settlePending (s, shown) = (s', shown')" "csBlock s = None" "csClosing s = []" "pendingOK (csPending s)"
  shows "sanitizerOK s' \<and> (\<exists>x. shown' = shown @ x \<and> (\<forall>rest. stillShown s rest = x @ stillShown s' rest))"
  using assms
proof (induction "length (csPending s)" arbitrary: s shown rule: less_induct)
  case less
  note prems = less.prems
  show ?case
  proof (cases "csPending s")
    case Nil
    with prems show ?thesis by (subst (asm) settlePending.simps) (auto simp: sanitizerOK_def)
  next
    case (Cons v t)
    show ?thesis
    proof (cases "find (\<lambda>m. csPending s = mkOpen m) streamSanitizeMarkers")
      case (Some m)
      then have m: "m \<in> set streamSanitizeMarkers" "csPending s = mkOpen m" by (auto dest: find_SomeD)
      with Cons Some prems(1) have s': "s' = s \<lparr> csBlock := Some m, csPending := [], csClosing := [] \<rparr>" "shown' = shown"
        by (subst (asm) settlePending.simps, simp add: scanMarkers_all)+
      have "stillVisible s' rest = stillVisible s rest" for rest
        using m prems(2) visibleText_block [OF m(1), of rest] by (simp add: s' stillVisible_def)
      with s' m show ?thesis
        using markers_opening [OF m(1)] by (auto simp: sanitizerOK_def stillShown_def strict_prefix_def)
    next
      case None
      then have no: "\<forall>m \<in> set streamSanitizeMarkers. csPending s \<noteq> mkOpen m" by (auto simp: find_None_iff)
      show ?thesis
      proof (cases "possibleOpening (csPending s)")
        case True
        with Cons None prems show ?thesis
          by (subst (asm) settlePending.simps) (auto simp: scanMarkers_all sanitizerOK_def possibleOpening_def)
      next
        case False
        then have scan: "scanMarkers streamSanitizeMarkers (csPending s) False = (None, False)"
          using None by (simp add: scanMarkers_all possibleOpening_def)
        obtain x n where w: "writeVisible v (s, shown) = (s \<lparr> csNewlineRun := n \<rparr>, shown @ x)"
          by (rule writeVisible_run)
        let ?u = "s \<lparr> csNewlineRun := n, csPending := t \<rparr>"
        have u: "csBlock ?u = None" "csClosing ?u = []" using prems(2,3) by simp_all
        have run: "settlePending (?u, shown @ x) = (s', shown')"
          using prems(1) Cons scan w by (subst (asm) settlePending.simps) simp
        have "pendingOK (csPending ?u)" using prems(4) Cons pendingOK_tl by auto
        then obtain y where y: "sanitizerOK s'" "shown' = (shown @ x) @ y" "\<forall>rest. stillShown ?u rest = y @ stillShown s' rest"
          using less.hyps [OF _ run u(1,2)] Cons by auto
        have "stillShown s rest = x @ stillShown ?u rest" for rest
          using settled_byte [of v t rest] prems(2,4) Cons no False u writeVisible_shown [OF w]
          by (simp add: stillShown_def stillVisible_def)
        with y show ?thesis by simp
      qed
    qed
  qed
qed

text \<open>Inside a block the kept bytes are the longest possible beginning of its closing marker.\<close>

lemma longestBorder_border:
  "drop (length p - longestBorder c p n) p = take (longestBorder c p n) c"
  by (induction n) auto

lemma longestBorder_le: "longestBorder c p n \<le> n"
  by (induction n) auto

lemma longestBorder_max: "k \<le> n \<Longrightarrow> drop (length p - k) p = take k c \<Longrightarrow> k \<le> longestBorder c p n"
  by (induction n) (auto simp: le_Suc_eq)

lemma afterMarker_skip:
  assumes "\<And>j. j < length u \<Longrightarrow> \<not> prefix c (drop j (u @ s))"
  shows "afterMarker c (u @ s) = afterMarker c s"
  using assms
proof (induction u)
  case (Cons v u)
  have "\<not> prefix c (v # u @ s)" using Cons.prems [of 0] by simp
  moreover have "\<not> prefix c (drop j (u @ s))" if "j < length u" for j using Cons.prems [of "Suc j"] that by simp
  ultimately show ?case using Cons.IH by (subst afterMarker.simps) simp
qed simp

lemma longestBorder_skips:
  assumes "strict_prefix p c" "p @ [v] \<noteq> c"
  defines "k \<equiv> longestBorder c (p @ [v]) (min (length c - 1) (length (p @ [v])))"
  shows "afterMarker c (p @ v # rest) = afterMarker c (drop (length (p @ [v]) - k) (p @ [v]) @ rest)"
    "strict_prefix (drop (length (p @ [v]) - k) (p @ [v])) c"
proof -
  let ?p = "p @ [v]" and ?n = "min (length c - 1) (length (p @ [v]))"
  have len: "length p < length c" using assms(1) by (rule prefix_length_less)
  have k: "k \<le> length ?p" "k < length c" "drop (length ?p - k) ?p = take k c"
    using longestBorder_le [of c ?p ?n] longestBorder_border [of ?p c ?n] len by (auto simp: k_def)
  have "\<not> prefix c (drop j (?p @ rest))" if j: "j < length ?p - k" for j
  proof
    define q where "q = drop j ?p"
    have q: "length q = length ?p - j" "k < length q" "length q \<le> length c" "drop j (?p @ rest) = q @ rest"
      using j len by (simp_all add: q_def)
    assume "prefix c (drop j (?p @ rest))"
    then have "prefix c (q @ rest)" by (simp only: q(4))
    then have "prefix c q \<or> prefix q c" by (rule prefix_same_cases) simp
    with q(3) have pre: "prefix q c" by (auto simp: prefix_def)
    have "q \<noteq> c"
    proof
      assume "q = c"
      with q(1) len have "j = 0" by simp
      with \<open>q = c\<close> assms(2) show False by (simp add: q_def)
    qed
    with pre have short: "length q < length c" by (auto simp: strict_prefix_def intro: prefix_length_less)
    have "drop (length ?p - length q) ?p = take (length q) c"
      using pre q(1) j by (auto simp: q_def prefix_def)
    then have "length q \<le> k"
      unfolding k_def using short q(1) by (intro longestBorder_max) auto
    with q(2) show False by simp
  qed
  then have "afterMarker c (take (length ?p - k) ?p @ drop (length ?p - k) ?p @ rest) = afterMarker c (drop (length ?p - k) ?p @ rest)"
    by (intro afterMarker_skip) (simp only: append_assoc [symmetric] append_take_drop_id, simp)
  then show "afterMarker c (p @ v # rest) = afterMarker c (drop (length ?p - k) ?p @ rest)"
    by (simp only: append_assoc [symmetric] append_take_drop_id) simp
  show "strict_prefix (drop (length ?p - k) ?p) c"
    unfolding k(3) using k(2) by (auto simp: strict_prefix_def take_is_prefix)
qed

lemma consume_shown:
  assumes "sanitizerOK s" "csBlock s = Some m"
  shows "sanitizerOK (consumeSensitive m v s) \<and> stillShown s (v # rest) = stillShown (consumeSensitive m v s) rest"
proof -
  from assms have m: "m \<in> set streamSanitizeMarkers" "strict_prefix (csClosing s) (mkClose m)" "csPending s = []"
    by (auto simp: sanitizerOK_def)
  show ?thesis
  proof (cases "csClosing s @ [v] = mkClose m")
    case True
    then have "afterMarker (mkClose m) (csClosing s @ v # rest) = Some rest"
      by (subst afterMarker.simps) (metis append.assoc append_Cons append_Nil append_eq_conv_conj prefixI)
    with True m assms(2) show ?thesis
      by (simp add: consumeSensitive_def sanitizerOK_def stillShown_def stillVisible_def)
  next
    case False
    note k = longestBorder_skips [OF m(2) False]
    from k(1) [of rest] k(2) False m(1,3) assms(2) show ?thesis
      by (simp add: consumeSensitive_def Let_def sanitizerOK_def stillShown_def stillVisible_def)
  qed
qed

lemma byte_shown:
  assumes "sanitizerOK s" "sanitizeByte (s, shown) v = (s', shown')"
  shows "sanitizerOK s' \<and> (\<exists>x. shown' = shown @ x \<and> (\<forall>rest. stillShown s (v # rest) = x @ stillShown s' rest))"
proof (cases "csBlock s")
  case None
  let ?s = "s \<lparr> csPending := csPending s @ [v] \<rparr>"
  have "settlePending (?s, shown) = (s', shown')" "csBlock ?s = None" "csClosing ?s = []" "pendingOK (csPending ?s)"
    using assms None pendingOK_snoc by (auto simp: sanitizeByte_def sanitizerOK_def)
  from settle_shown [OF this] None show ?thesis by (simp add: stillShown_def stillVisible_def)
next
  case (Some m)
  with assms(2) have "s' = consumeSensitive m v s" "shown' = shown" by (simp_all add: sanitizeByte_def)
  with consume_shown [OF assms(1) Some] show ?thesis by simp
qed

lemma bytes_shown:
  "sanitizerOK s \<Longrightarrow> foldl sanitizeByte (s, shown) content = (s', shown') \<Longrightarrow>
     sanitizerOK s' \<and> (\<exists>x. shown' = shown @ x \<and> (\<forall>rest. stillShown s (content @ rest) = x @ stillShown s' rest))"
proof (induction content arbitrary: s shown)
  case (Cons v content)
  obtain t y where v: "sanitizeByte (s, shown) v = (t, y)" by fastforce
  from byte_shown [OF Cons.prems(1) v] obtain x where x: "sanitizerOK t" "y = shown @ x"
    "\<forall>rest. stillShown s (v # rest) = x @ stillShown t rest" by blast
  have "foldl sanitizeByte (t, y) content = (s', shown')" using Cons.prems(2) v by simp
  from Cons.IH [OF x(1) this] x(2,3) show ?case by auto
qed simp

lemma chunks_shown:
  "sanitizerOK s \<Longrightarrow> sanitizeChunks s cs = (s', outs) \<Longrightarrow>
     sanitizerOK s' \<and> length outs = length cs \<and> (\<forall>rest. stillShown s (concat cs @ rest) = concat outs @ stillShown s' rest)"
proof (induction cs arbitrary: s outs)
  case (Cons c cs)
  obtain t out where c: "sanitizeChunk s c = (t, out)" by fastforce
  from bytes_shown [OF Cons.prems(1), of "[]" c t out] c
  have t: "sanitizerOK t" "\<forall>rest. stillShown s (c @ rest) = out @ stillShown t rest" by (auto simp: sanitizeChunk_def)
  obtain u outs' where cs: "sanitizeChunks t cs = (u, outs')" by fastforce
  with Cons.prems(2) c have "u = s'" "outs = out # outs'" by auto
  with Cons.IH [OF t(1) cs [unfolded \<open>u = s'\<close>]] t(2) show ?case by simp
qed simp

lemma sanitizerOK_new: "sanitizerOK newSanitizer"
  by (simp add: sanitizerOK_def newSanitizer_def)

text \<open>What is kept at the end of the text is never shown.\<close>

lemma afterMarker_short: "length s < length c \<Longrightarrow> afterMarker c s = None"
  by (induction s) (auto simp: afterMarker.simps [of c "[]"] afterMarker.simps [of c "_ # _"] dest: prefix_length_le)

lemma nothing_left: "sanitizerOK s \<Longrightarrow> stillShown s [] = []"
  using visibleText_unfinished
  by (auto simp: sanitizerOK_def stillShown_def stillVisible_def afterMarker_short prefix_length_less visibleText.simps [of "[]"]
      streamSanitizeMarkers_def split: option.splits)

lemma new_shown: "stillShown newSanitizer content = capNewlines 0 (visibleText content)"
  by (simp add: stillShown_def stillVisible_def newSanitizer_def)

lemma sanitizerOK_small:
  assumes "sanitizerOK s"
  shows "length (csPending s) + length (csClosing s) \<le> 13"
proof -
  have "length (mkOpen m) \<le> 13 \<and> length (mkClose m) \<le> 14" if "m \<in> set streamSanitizeMarkers" for m
    using that by (auto simp: streamSanitizeMarkers_def)
  with assms show ?thesis
    by (force simp: sanitizerOK_def possibleOpening_def split: option.splits dest: prefix_length_less)
qed

end
