(* ===== verification/ModelCallsFacts.thy ===== *)
theory ModelCallsFacts
  imports ModelCalls ContentSanitizerFacts
begin

text \<open>
  The retry middleware returns after a bounded number of calls, its delays are the documented
  formula while they fit in 64 bits, and overflow recovery returns after a bounded number of
  calls on messages that only shrink.
\<close>

section \<open>Delays\<close>

lemma sint_plus:
  assumes "0 \<le> sint (d :: duration)" "0 \<le> sint j" "sint d + sint j < 2 ^ 63"
  shows "sint (d + j) = sint d + sint j"
  using assms by (simp add: sint_word_ariths signed_take_bit_int_eq_self)

lemma sint_double:
  assumes "0 \<le> sint (d :: duration)" "sint d < 2 ^ 62"
  shows "sint (d * 2) = sint d * 2"
  using assms sint_plus [of d d] by (simp add: mult_2_right)

lemma sint_small: "uint (d :: duration) < 2 ^ 63 \<Longrightarrow> sint d = uint d"
proof -
  assume u: "uint d < 2 ^ 63"
  have "signed_take_bit 63 (uint d) = uint d"
    by (rule signed_take_bit_int_eq_self) (use u in \<open>auto intro: order_trans [of _ 0]\<close>)
  then show "sint d = uint d" by (simp add: sint_uint)
qed

lemma uint_nonneg: "0 \<le> sint (d :: duration) \<Longrightarrow> uint d = sint d"
  using sint_lt [of d] by (simp add: uint_sint take_bit_int_eq_self)

lemma times_power: "0 < (d :: int) \<Longrightarrow> d \<le> d * 2 ^ n"
  by simp

lemma doubleBackoff_capped:
  assumes "0 < sint m" "sint m \<le> 2 ^ 62" "0 < sint d" "sint d < 2 ^ 62"
  shows "sint (doubleBackoff m n d) = (if n = 0 then sint d else min (sint d * 2 ^ n) (sint m))"
  using assms(3,4)
proof (induction n arbitrary: d)
  case (Suc n)
  have d: "sint (d * 2) = sint d * 2" using Suc.prems by (intro sint_double) auto
  show ?case
  proof (cases "sint (d * 2) \<ge> sint m")
    case True
    have "sint d * 2 \<le> sint d * 2 * 2 ^ n" using Suc.prems by (intro times_power) simp
    then have "sint m \<le> sint d * 2 ^ Suc n" using True d by (simp only: power_Suc mult.assoc order_trans)
    with True assms(1) show ?thesis by (simp add: min.absorb2)
  next
    case False
    with d Suc.prems assms have "0 < sint (d * 2)" "sint (d * 2) < 2 ^ 62" by auto
    from Suc.IH [OF this] False d show ?thesis by (auto simp: mult.assoc)
  qed
qed simp

lemma doubleBackoff_free:
  assumes "sint m \<le> 0" "0 < sint d" "sint d * 2 ^ n < 2 ^ 63"
  shows "sint (doubleBackoff m n d) = sint d * 2 ^ n"
  using assms(2,3)
proof (induction n arbitrary: d)
  case (Suc n)
  have "sint d * 2 \<le> sint d * 2 * 2 ^ n" using Suc.prems by (intro times_power) simp
  moreover have "sint d * 2 * 2 ^ n < 2 ^ 63" using Suc.prems(2) by (simp only: power_Suc mult.assoc)
  ultimately have "sint d * 2 < 2 ^ 63" by (rule le_less_trans)
  then have "sint d < 2 ^ 62" by simp
  with Suc.prems have d: "sint (d * 2) = sint d * 2" by (intro sint_double) auto
  with Suc.prems Suc.IH [of "d * 2"] assms(1) show ?case by (simp add: mult.assoc)
qed simp

text \<open>The jitter drawn, as a number.\<close>

definition jitterOf :: "retry_config \<Rightarrow> u64 option \<Rightarrow> int" where
  "jitterOf cfg bytes = (case bytes of None \<Rightarrow> 0
     | Some n \<Rightarrow> if sint (rcJitter cfg) > 0 then uint n mod sint (rcJitter cfg) else 0)"

lemma jitter_drawn:
  assumes "sint (rcJitter cfg) > 0"
  shows "sint (case retryRandomJitter (rcJitter cfg) bytes of None \<Rightarrow> 0 | Some j \<Rightarrow> j) = jitterOf cfg bytes"
    "0 \<le> jitterOf cfg bytes" "jitterOf cfg bytes < sint (rcJitter cfg)"
proof -
  have u: "uint (rcJitter cfg) = sint (rcJitter cfg)"
    using assms by (simp add: uint_nonneg)
  show "0 \<le> jitterOf cfg bytes" "jitterOf cfg bytes < sint (rcJitter cfg)"
    using assms by (auto simp: jitterOf_def split: option.splits)
  show "sint (case retryRandomJitter (rcJitter cfg) bytes of None \<Rightarrow> 0 | Some j \<Rightarrow> j) = jitterOf cfg bytes"
  proof (cases bytes)
    case (Some n)
    have "uint (n mod rcJitter cfg) = uint n mod sint (rcJitter cfg)" by (simp add: uint_mod u)
    moreover from this have "uint (n mod rcJitter cfg) < 2 ^ 63"
      using less_trans [OF pos_mod_bound [OF assms, of "uint n"] sint_lt [of "rcJitter cfg", simplified]] by simp
    then have "sint (n mod rcJitter cfg) = uint (n mod rcJitter cfg)"
      by (rule sint_small)
    ultimately show ?thesis using assms Some by (simp add: retryRandomJitter_def jitterOf_def)
  qed (use assms in \<open>simp add: retryRandomJitter_def jitterOf_def\<close>)
qed

lemma backoffOf_exact:
  assumes "0 < sint (rcBaseDelay cfg)" "sint (rcJitter cfg) \<le> 2 ^ 62"
    and "0 < sint (rcMaxDelay cfg) \<and> sint (rcMaxDelay cfg) \<le> 2 ^ 62 \<and> sint (rcBaseDelay cfg) < 2 ^ 62
      \<or> sint (rcMaxDelay cfg) \<le> 0 \<and> sint (rcBaseDelay cfg) * 2 ^ nat attempt + max 0 (sint (rcJitter cfg)) < 2 ^ 63"
  shows "sint (backoffOf cfg attempt bytes) =
    (let d = sint (rcBaseDelay cfg) * 2 ^ nat attempt + jitterOf cfg bytes
     in if 0 < sint (rcMaxDelay cfg) then min d (sint (rcMaxDelay cfg)) else d)"
proof -
  define d where "d = doubleBackoff (rcMaxDelay cfg) (nat attempt) (rcBaseDelay cfg)"
  define j where "j = (if sint (rcJitter cfg) > 0
    then (case retryRandomJitter (rcJitter cfg) bytes of None \<Rightarrow> 0 | Some j \<Rightarrow> j) else 0)"
  have j: "sint j = jitterOf cfg bytes" "0 \<le> sint j" "sint j \<le> max 0 (sint (rcJitter cfg))"
  proof -
    have "sint j = jitterOf cfg bytes \<and> 0 \<le> sint j \<and> sint j \<le> max 0 (sint (rcJitter cfg))"
    proof (cases "sint (rcJitter cfg) > 0")
      case True
      with jitter_drawn [OF True, of bytes] show ?thesis by (simp add: j_def)
    next
      case False
      then show ?thesis by (simp add: j_def jitterOf_def split: option.splits)
    qed
    then show "sint j = jitterOf cfg bytes" "0 \<le> sint j" "sint j \<le> max 0 (sint (rcJitter cfg))" by simp_all
  qed
  have base: "0 < sint (rcBaseDelay cfg) * 2 ^ nat attempt" using assms(1) by simp
  have run: "backoffOf cfg attempt bytes = (if sint (rcMaxDelay cfg) > 0 \<and> sint (d + j) > sint (rcMaxDelay cfg)
      then rcMaxDelay cfg else d + j)"
    by (auto simp: backoffOf_def d_def j_def Let_def split: option.splits)
  from assms(3) show ?thesis
  proof
    assume m: "0 < sint (rcMaxDelay cfg) \<and> sint (rcMaxDelay cfg) \<le> 2 ^ 62 \<and> sint (rcBaseDelay cfg) < 2 ^ 62"
    then have d: "sint d = (if nat attempt = 0 then sint (rcBaseDelay cfg)
        else min (sint (rcBaseDelay cfg) * 2 ^ nat attempt) (sint (rcMaxDelay cfg)))"
      unfolding d_def using assms(1) by (intro doubleBackoff_capped) auto
    have low: "0 \<le> sint d" using base m assms(1) by (simp add: d)
    have high: "sint d \<le> 2 ^ 62" using m by (auto simp: d min_def)
    have strict: "sint d + sint j < 2 ^ 63"
    proof (cases "sint (rcJitter cfg) > 0")
      case True
      with j(1) jitter_drawn(3) [OF True, of bytes] assms(2) high show ?thesis by simp
    next
      case False
      with j(2,3) high show ?thesis by simp
    qed
    have s: "sint (d + j) = sint d + sint j" by (rule sint_plus [OF low j(2) strict])
    show ?thesis unfolding run Let_def using m j(1,2) by (auto simp: s d min_def)
  next
    assume m: "sint (rcMaxDelay cfg) \<le> 0 \<and> sint (rcBaseDelay cfg) * 2 ^ nat attempt + max 0 (sint (rcJitter cfg)) < 2 ^ 63"
    have "sint d = sint (rcBaseDelay cfg) * 2 ^ nat attempt"
      unfolding d_def using m assms(1) by (intro doubleBackoff_free) auto
    moreover from this have "sint (d + j) = sint d + sint j"
      using m j(2,3) base by (intro sint_plus) auto
    ultimately show ?thesis using m j(1) by (simp add: run)
  qed
qed

text \<open>The default policy stays far from the end of the 64 bits.\<close>

lemma default_backoff:
  assumes "0 \<le> attempt" "attempt < rcMaxAttempts defaultRetryConfig"
  shows "sint (backoffOf defaultRetryConfig attempt bytes) = 100000000 * 2 ^ nat attempt + jitterOf defaultRetryConfig bytes"
proof -
  have c: "sint (rcBaseDelay defaultRetryConfig) = 100000000" "sint (rcMaxDelay defaultRetryConfig) = 0"
    "sint (rcJitter defaultRetryConfig) = 50000000"
    by (simp_all add: defaultRetryConfig_def milliseconds_def)
  have "attempt = 0 \<or> attempt = 1 \<or> attempt = 2" using assms by (auto simp: defaultRetryConfig_def)
  then have "(2 :: int) ^ nat attempt \<le> 4" by auto
  then show ?thesis using backoffOf_exact [of defaultRetryConfig attempt bytes] by (simp add: c)
qed

section \<open>Observed calls\<close>

text \<open>The inner model with a record of its calls, in order, in a world that carries it.\<close>

type_synonym call_record = "chat_message list \<times> generate_result"

definition observed :: "'w chat_model \<Rightarrow> ('w \<times> call_record list) chat_model" where
  "observed inner fl msgs p = map_option (\<lambda>(r, w). (r, w, snd p @ [(msgs, r)])) (inner fl msgs (fst p))"

definition observedHost :: "'w call_host \<Rightarrow> ('w \<times> call_record list) call_host" where
  "observedHost h = \<lparr> ckErr = (\<lambda>p. apsnd (\<lambda>w. (w, snd p)) (ckErr h (fst p))),
     ckWait = (\<lambda>d p. apsnd (\<lambda>w. (w, snd p)) (ckWait h d (fst p))),
     ckRandom = (\<lambda>p. apsnd (\<lambda>w. (w, snd p)) (ckRandom h (fst p))),
     ckEncodedLength = ckEncodedLength h, ckTrimFraction = ckTrimFraction h \<rparr>"

text \<open>Context errors: what \<open>ctx.Err()\<close> or an interrupted wait may return.\<close>

definition contextError :: "'w call_host \<Rightarrow> model_error \<Rightarrow> bool" where
  "contextError h e \<longleftrightarrow> (\<exists>w. fst (ckErr h w) = Some e) \<or> (\<exists>d w. fst (ckWait h d w) = Some e)"

definition returns :: "'w chat_model \<Rightarrow> bool" where
  "returns inner \<longleftrightarrow> (\<forall>fl msgs w. inner fl msgs w \<noteq> None)"

section \<open>Retry\<close>

text \<open>A failure after which the default policy lets another call be made.\<close>

definition retriedFailure :: "generate_result \<Rightarrow> bool" where
  "retriedFailure r \<longleftrightarrow> (\<exists>e. r = Failed e \<and> retryable (classifyError (Some e))
     \<and> \<not> errorsIs e Canceled \<and> \<not> errorsIs e DeadlineExceeded)"

lemma shouldRetry_yes:
  "fst (shouldRetry h cfg (Some e) attempt w) \<Longrightarrow> retriedFailure (Failed e) \<and> attempt < rcMaxAttempts cfg - 1"
  by (auto simp: shouldRetry_def retriedFailure_def split: prod.splits if_splits)

lemma observed_simps [simp]:
  "ckErr (observedHost h) (w, rs) = apsnd (\<lambda>w. (w, rs)) (ckErr h w)"
  "ckWait (observedHost h) d (w, rs) = apsnd (\<lambda>w. (w, rs)) (ckWait h d w)"
  "ckRandom (observedHost h) (w, rs) = apsnd (\<lambda>w. (w, rs)) (ckRandom h w)"
  "ckEncodedLength (observedHost h) = ckEncodedLength h" "ckTrimFraction (observedHost h) = ckTrimFraction h"
  "observed inner fl msgs (w, rs) = map_option (\<lambda>(r, w). (r, w, rs @ [(msgs, r)])) (inner fl msgs w)"
  by (simp_all add: observedHost_def observed_def)

lemma shouldRetry_observed:
  "shouldRetry (observedHost h) cfg err a (w, rs) = apsnd (\<lambda>w. (w, rs)) (shouldRetry h cfg err a w)"
  by (simp add: shouldRetry_def split: prod.splits)

lemma nextBackoff_observed:
  "nextBackoff (observedHost h) cfg a (w, rs) = apsnd (\<lambda>w. (w, rs)) (nextBackoff h cfg a w)"
  by (cases "ckRandom h w") (simp add: nextBackoff_def)

text \<open>One round of the loop: it ends with at most one call, or makes one call and goes on.\<close>

lemma retryLoop_round:
  fixes h cfg inner
  defines "L \<equiv> retryLoop (observedHost h) \<lparr> rpShouldRetry = shouldRetry (observedHost h) cfg,
        rpNextBackoff = nextBackoff (observedHost h) cfg \<rparr> (observed inner)"
  assumes inner: "returns inner"
  obtains (ctx) e w1 where "L fl msgs a (w, rs) = Some (Failed e, w1, rs)" "contextError h e"
  | (ended) r w1 where "L fl msgs a (w, rs) = Some (r, w1, rs @ [(msgs, r)])"
  | (woken) r e w1 where "L fl msgs a (w, rs) = Some (Failed e, w1, rs @ [(msgs, r)])" "contextError h e" "retriedFailure r"
  | (again) r w1 where "L fl msgs a (w, rs) = L fl msgs (a + 1) (w1, rs @ [(msgs, r)])" "retriedFailure r" "a < rcMaxAttempts cfg - 1"
proof -
  note unroll = retryLoop.simps [of "observedHost h" "\<lparr> rpShouldRetry = shouldRetry (observedHost h) cfg,
        rpNextBackoff = nextBackoff (observedHost h) cfg \<rparr>" "observed inner" fl msgs a "(w, rs)", folded L_def]
  obtain c w1 where c: "ckErr h w = (c, w1)" by fastforce
  show thesis
  proof (cases c)
    case (Some e)
    have "contextError h e" unfolding contextError_def using c Some by (metis fst_conv)
    then show thesis using c Some unroll by (intro ctx) auto
  next
    case None
    obtain x w2 where x: "inner fl msgs w1 = Some (x, w2)" using inner unfolding returns_def by fastforce
    show thesis
    proof (cases "\<exists>err. x = Failed err \<and> \<not> cfNoReplay fl")
      case False
      then have "L fl msgs a (w, rs) = Some (x, w2, rs @ [(msgs, x)])"
        using c None x unroll by (cases x) auto
      then show thesis by (rule ended)
    next
      case True
      then obtain err where err: "x = Failed err" "\<not> cfNoReplay fl" by blast
      obtain b w3 where b: "shouldRetry h cfg (Some err) a w2 = (b, w3)" by fastforce
      obtain d w4 where d: "nextBackoff h cfg a w3 = (d, w4)" by fastforce
      obtain k w5 where k: "ckWait h d w4 = (k, w5)" by fastforce
      have "shouldRetry (observedHost h) cfg (Some err) a (w2, rs @ [(msgs, x)]) = (b, w3, rs @ [(msgs, x)])"
        "nextBackoff (observedHost h) cfg a (w3, rs @ [(msgs, x)]) = (d, w4, rs @ [(msgs, x)])"
        by (simp_all add: shouldRetry_observed nextBackoff_observed b d)
      note run = unroll c None x err this k
      show thesis
      proof (cases b)
        case False
        then show thesis using run by (intro ended) simp
      next
        case True
        then have ok: "retriedFailure x" "a < rcMaxAttempts cfg - 1"
          using shouldRetry_yes [of h cfg err a w2] b err(1) by auto
        show thesis
        proof (cases k)
          case (Some e)
          have "contextError h e" unfolding contextError_def using k Some by (metis fst_conv)
          then show thesis using run True Some ok by (intro woken [of e w5 x]) simp_all
        next
          case None
          then show thesis using run True ok by (intro again [of w5 x]) simp_all
        qed
      qed
    qed
  qed
qed

lemma retryLoop_bounded:
  fixes h cfg inner
  defines "L \<equiv> retryLoop (observedHost h) \<lparr> rpShouldRetry = shouldRetry (observedHost h) cfg,
        rpNextBackoff = nextBackoff (observedHost h) cfg \<rparr> (observed inner)"
  assumes inner: "returns inner" and a: "a < rcMaxAttempts cfg"
  shows "\<exists>r w' rs. L fl msgs a (w, rs0) = Some (r, w', rs0 @ rs)
    \<and> int (length rs) \<le> rcMaxAttempts cfg - a \<and> (\<forall>x \<in> set rs. fst x = msgs)
    \<and> (\<forall>x \<in> set (butlast rs). retriedFailure (snd x))
    \<and> (rs \<noteq> [] \<and> r = snd (last rs)
        \<or> (\<exists>e. r = Failed e \<and> contextError h e \<and> (\<forall>x \<in> set rs. retriedFailure (snd x))))"
  using a
proof (induction "nat (rcMaxAttempts cfg - 1 - a)" arbitrary: a w rs0 rule: less_induct)
  case less
  show ?case
  proof (cases rule: retryLoop_round [OF inner, of h cfg fl msgs a w rs0, folded L_def, case_names ctx ended woken again])
    case (ctx e w1)
    then show ?thesis using less.prems by (intro exI [of _ "Failed e"] exI [of _ w1] exI [of _ "[]"]) auto
  next
    case (ended r w1)
    then show ?thesis using less.prems by (intro exI [of _ r] exI [of _ w1] exI [of _ "[(msgs, r)]"]) auto
  next
    case (woken r e w1)
    then show ?thesis using less.prems by (intro exI [of _ "Failed e"] exI [of _ w1] exI [of _ "[(msgs, r)]"]) auto
  next
    case (again r w1)
    have "nat (rcMaxAttempts cfg - 1 - (a + 1)) < nat (rcMaxAttempts cfg - 1 - a)" "a + 1 < rcMaxAttempts cfg"
      using again(3) by auto
    from less.hyps [OF this, of w1 "rs0 @ [(msgs, r)]"] obtain x w' rs where
      "L fl msgs (a + 1) (w1, rs0 @ [(msgs, r)]) = Some (x, w', (rs0 @ [(msgs, r)]) @ rs)" "int (length rs) \<le> rcMaxAttempts cfg - (a + 1)"
      "\<forall>x \<in> set rs. fst x = msgs" "\<forall>y \<in> set (butlast rs). retriedFailure (snd y)"
      "rs \<noteq> [] \<and> x = snd (last rs) \<or> (\<exists>e. x = Failed e \<and> contextError h e \<and> (\<forall>x \<in> set rs. retriedFailure (snd x)))"
      by blast
    with again show ?thesis by (intro exI [of _ x] exI [of _ w'] exI [of _ "(msgs, r) # rs"]) auto
  qed
qed

section \<open>Overflow recovery\<close>

lemma subseq_take_drop: "m \<le> n \<Longrightarrow> subseq (take m xs @ drop n xs) xs"
proof -
  assume "m \<le> n"
  then have "subseq (drop n xs) (drop m xs)"
    by (metis le_add_diff_inverse2 drop_drop suffix_drop suffix_imp_subseq)
  from list_emb_append_mono [OF subseq_order.order_refl [of "take m xs"] this]
  show "subseq (take m xs @ drop n xs) xs" by simp
qed

lemma trimMessages_cut:
  fixes f msgs
  defines "s \<equiv> (if cmRole (hd msgs) = ''system'' then 1 else 0) :: nat"
  defines "c \<equiv> max 1 (f (length msgs - s))"
  assumes "1 < length msgs"
  shows "trimMessages f msgs = (if int s + c > int (length msgs) then None
    else Some (take s msgs @ drop (s + nat c) msgs))"
proof -
  have "\<not> length msgs - s \<le> 0" using assms(3) by (auto simp: s_def)
  then show ?thesis using assms(3) by (simp add: trimMessages_def Let_def s_def [symmetric] c_def max_def)
qed

lemma trimMessages_total: 
  assumes "\<And>n. f n \<le> int n"
  shows "trimMessages f msgs \<noteq> None"
proof (cases "1 < length msgs")
  case True
  define s where "s = (if cmRole (hd msgs) = ''system'' then 1 else 0 :: nat)"
  have "s < length msgs" using True by (auto simp: s_def)
  with assms [of "length msgs - s"] have "int s + max 1 (f (length msgs - s)) \<le> int (length msgs)" by simp
  then show ?thesis using trimMessages_cut [OF True, of f] by (simp add: s_def)
qed (simp add: trimMessages_def)

text \<open>What the messages of a recovered call have to do with the given ones.\<close>

definition recoveredFrom :: "chat_message list \<Rightarrow> chat_message list \<Rightarrow> bool" where
  "recoveredFrom msgs ms \<longleftrightarrow> subseq ms msgs \<and> (msgs \<noteq> [] \<longrightarrow> ms \<noteq> [])
     \<and> (msgs \<noteq> [] \<and> cmRole (hd msgs) = ''system'' \<longrightarrow> hd ms = hd msgs)"

lemma trimMessages_recovered:
  assumes "trimMessages f ms = Some t" "recoveredFrom msgs ms" "t \<noteq> []"
  shows "recoveredFrom msgs t"
proof (cases "t = ms")
  case False
  then obtain s k where t: "t = take s ms @ drop k ms" "s \<le> k" "cmRole (hd ms) = ''system'' \<longrightarrow> s = 1" "ms \<noteq> []"
  proof (cases "1 < length ms")
    case True
    show thesis
    proof (rule that)
      show "t = take (if cmRole (hd ms) = ''system'' then 1 else 0) ms
        @ drop ((if cmRole (hd ms) = ''system'' then 1 else 0) + nat (max 1 (f (length ms - (if cmRole (hd ms) = ''system'' then 1 else 0))))) ms"
        using assms(1) trimMessages_cut [OF True, of f] by (simp split: if_splits)
    qed (use True in auto)
  next
    case False
    with assms(1) \<open>t \<noteq> ms\<close> show thesis by (simp add: trimMessages_def)
  qed
  have "subseq t msgs"
    using subseq_take_drop [OF t(2)] assms(2) t(1) unfolding recoveredFrom_def by (metis subseq_order.order_trans)
  moreover have "hd t = hd ms" if "cmRole (hd ms) = ''system''"
    using t(1,3,4) that by (cases ms) auto
  ultimately show ?thesis using assms(2,3) unfolding recoveredFrom_def by metis
qed (use assms in simp)

text \<open>The calls of a recovery: on trimmed messages, and on them with a partial answer at the back.\<close>

definition recoveryCall :: "chat_message list \<Rightarrow> call_record \<Rightarrow> bool" where
  "recoveryCall msgs c \<longleftrightarrow> recoveredFrom msgs (fst c)
     \<or> (\<exists>ms r. recoveredFrom msgs ms \<and> fst c = ms @ [continuationMessage r])"

definition panicFrom :: "generate_result \<Rightarrow> call_record list \<Rightarrow> bool" where
  "panicFrom r cs \<longleftrightarrow> (r = Panicked \<longrightarrow> (\<exists>c \<in> set cs. snd c = Panicked))"

text \<open>
  An answer and the answers it is made of: their texts one after the other, with the tool calls
  and the finish reason of the last.
\<close>

definition joinedFrom :: "chat_message \<Rightarrow> chat_message list \<Rightarrow> bool" where
  "joinedFrom m ps \<longleftrightarrow> ps \<noteq> [] \<and> cmContent m = concat (map cmContent ps)
     \<and> cmToolCalls m = cmToolCalls (last ps) \<and> cmFinishReason m = cmFinishReason (last ps)"

definition answerFrom :: "generate_result \<Rightarrow> call_record list \<Rightarrow> bool" where
  "answerFrom x cs \<longleftrightarrow> (\<forall>m. x = Answered (Some m) \<longrightarrow>
     (\<exists>cs0 cs1 ps. cs = cs0 @ cs1 \<and> map snd cs1 = map (\<lambda>p. Answered (Some p)) ps \<and> joinedFrom m ps))"

definition continuedFrom :: "chat_message \<Rightarrow> generate_result \<Rightarrow> call_record list \<Rightarrow> bool" where
  "continuedFrom r x cs \<longleftrightarrow> (\<forall>m. x = Answered (Some m) \<longrightarrow>
     (\<exists>ps. map snd cs = map (\<lambda>p. Answered (Some p)) ps \<and> joinedFrom m (r # ps)))"

lemma continuedFrom_answer:
  assumes "continuedFrom r x cs" "snd c = Answered (Some r)"
  shows "answerFrom x (c # cs)"
proof (unfold answerFrom_def, intro allI impI)
  fix m assume "x = Answered (Some m)"
  with assms(1) obtain ps where "map snd cs = map (\<lambda>p. Answered (Some p)) ps" "joinedFrom m (r # ps)"
    unfolding continuedFrom_def by blast
  with assms(2) show "\<exists>cs0 cs1 ps. c # cs = cs0 @ cs1 \<and> map snd cs1 = map (\<lambda>p. Answered (Some p)) ps \<and> joinedFrom m ps"
    by (intro exI [of _ "[]"] exI [of _ "c # cs"] exI [of _ "r # ps"]) simp
qed

lemma answerFrom_append: "answerFrom x cs \<Longrightarrow> answerFrom x (cs0 @ cs)"
  unfolding answerFrom_def by (metis append.assoc)

lemma answerFrom_single: "answerFrom x [(ms, x)]"
proof (unfold answerFrom_def, intro allI impI)
  fix m assume "x = Answered (Some m)"
  then show "\<exists>cs0 cs1 ps. [(ms, x)] = cs0 @ cs1 \<and> map snd cs1 = map (\<lambda>p. Answered (Some p)) ps \<and> joinedFrom m ps"
    by (intro exI [of _ "[]"] exI [of _ "[(ms, x)]"] exI [of _ "[m]"]) (simp add: joinedFrom_def)
qed

lemma continueLoop_bounded:
  assumes "returns inner"
  shows "\<exists>x w' cs. continueLoop (observedHost h) (observed inner) fl ms n r (w, cs0) = Some (x, w', cs0 @ cs)
    \<and> length cs \<le> n \<and> (\<forall>c \<in> set cs. \<exists>r. fst c = ms @ [continuationMessage r]) \<and> panicFrom x cs \<and> continuedFrom r x cs"
proof (induction n arbitrary: r w cs0)
  case 0
  then show ?case by (auto simp: panicFrom_def continuedFrom_def joinedFrom_def)
next
  case (Suc n)
  let ?L = "continueLoop (observedHost h) (observed inner) fl ms"
  obtain c w1 where c: "ckErr h w = (c, w1)" by fastforce
  obtain y w2 where y: "inner (fl \<lparr> cfNoReplay := True \<rparr>) (ms @ [continuationMessage r]) w1 = Some (y, w2)"
    using assms unfolding returns_def by fastforce
  let ?c = "(ms @ [continuationMessage r], y)"
  consider x where "?L (Suc n) r (w, cs0) = Some (x, w1, cs0)" "x \<noteq> Panicked" "\<forall>m. x \<noteq> Answered m"
    | "?L (Suc n) r (w, cs0) = Some (Answered (Some r), w, cs0)"
    | x where "?L (Suc n) r (w, cs0) = Some (x, w2, cs0 @ [?c])" "x = Panicked \<longrightarrow> y = Panicked" "\<forall>m. x \<noteq> Answered m"
    | m r' where "?L (Suc n) r (w, cs0) = ?L n r' (w2, cs0 @ [?c])" "y = Answered (Some m)"
      "cmContent r' = cmContent r @ cmContent m" "cmToolCalls r' = cmToolCalls m" "cmFinishReason r' = cmFinishReason m"
  proof (cases "cmFinishReason r = finishReasonLength \<and> c = None")
    case False
    show thesis
    proof (cases "cmFinishReason r = finishReasonLength")
      case True
      with False obtain e where "c = Some e" by auto
      with True c show thesis by (intro that(1)) (simp, simp, simp)
    next
      case False
      then show thesis by (intro that(2)) simp
    qed
  next
    case True
    show thesis
    proof (cases "\<exists>m. y = Answered (Some m) \<and> length (cmContent m) + length (cmContent r) \<le> guardedStreamMaxBytes")
      case False
      have "\<exists>x. ?L (Suc n) r (w, cs0) = Some (x, w2, cs0 @ [?c]) \<and> (x = Panicked \<longrightarrow> y = Panicked) \<and> (\<forall>m. x \<noteq> Answered m)"
      proof (cases y)
        case (Answered m)
        with False True c y show ?thesis by (cases m) auto
      qed (use True c y in simp_all)
      then show thesis using that(3) by blast
    next
      case ok: True
      then obtain m where m: "y = Answered (Some m)" "length (cmContent m) + length (cmContent r) \<le> guardedStreamMaxBytes" by blast
      define r' where "r' = r \<lparr> cmContent := cmContent r @ cmContent m, cmFinishReason := cmFinishReason m,
        cmToolCalls := cmToolCalls m, cmUsage := addUsage (cmUsage r) (cmUsage m) \<rparr>"
      show thesis
      proof (cases "\<exists>k \<le> guardedStreamMaxBytes. ckEncodedLength h r' = Some k")
        case False
        with True c y m have "\<exists>x. ?L (Suc n) r (w, cs0) = Some (x, w2, cs0 @ [?c]) \<and> (x = Panicked \<longrightarrow> y = Panicked) \<and> (\<forall>m. x \<noteq> Answered m)"
          by (cases "ckEncodedLength h r'") (auto simp: Let_def r'_def [symmetric])
        then show thesis using that(3) by blast
      next
        case fits: True
        with True c y m show thesis
          by (intro that(4) [of r' m]) (auto simp: Let_def r'_def [symmetric], simp_all add: r'_def)
      qed
    qed
  qed
  then show ?case
  proof cases
    case 4
    from Suc.IH [of r' w2 "cs0 @ [?c]"] obtain x w' cs where
      "?L n r' (w2, cs0 @ [?c]) = Some (x, w', (cs0 @ [?c]) @ cs)" "length cs \<le> n"
      "\<forall>c \<in> set cs. \<exists>r. fst c = ms @ [continuationMessage r]" "panicFrom x cs" "continuedFrom r' x cs" by blast
    moreover from this 4 have "continuedFrom r x (?c # cs)"
      unfolding continuedFrom_def joinedFrom_def
      by (intro allI impI) (elim allE impE, assumption, elim exE, rule_tac x = "m # ps" in exI, auto split: if_splits)
    ultimately show ?thesis using 4 by (intro exI [of _ x] exI [of _ w'] exI [of _ "?c # cs"]) (auto simp: panicFrom_def)
  next
    case 2
    then show ?thesis by (fastforce simp: panicFrom_def continuedFrom_def joinedFrom_def)
  qed (fastforce simp: panicFrom_def continuedFrom_def)+
qed

lemma overflowLoop_round:
  fixes h inner fl maxRetries
  defines "L \<equiv> overflowLoop (observedHost h) maxRetries (observed inner) fl"
  assumes inner: "returns inner" and fraction: "\<And>n. ckTrimFraction h n \<le> int n" and a: "a \<le> maxRetries"
  obtains (ended) x w' y where "L a ms (w, cs) = Some (x, w', cs @ [(ms, y)])" "x = Panicked \<longrightarrow> y = Panicked" "\<forall>m. x = Answered m \<longrightarrow> y = x"
  | (continued) r w' y where "L a ms (w, cs) = continueGeneration (observedHost h) (observed inner) fl ms r (w', cs @ [(ms, y)])"
      "y = Answered (Some r)"
  | (again) t w' y where "L a ms (w, cs) = L (a + 1) t (w', cs @ [(ms, y)])" "a < maxRetries"
      "trimMessages (ckTrimFraction h) ms = Some t" "t \<noteq> []"
proof -
  note unroll = overflowLoop.simps [of "observedHost h" maxRetries "observed inner" fl a ms "(w, cs)", folded L_def]
  obtain y w' where y: "inner fl ms w = Some (y, w')" using inner unfolding returns_def by fastforce
  show thesis
  proof (cases y)
    case (Answered m)
    show thesis
    proof (cases "\<exists>r. m = Some r \<and> cmFinishReason r = finishReasonLength \<and> \<not> cfLoopOwnsContinuation fl \<and> \<not> cfNoReplay fl")
      case True
      then obtain r where "m = Some r" "cmFinishReason r = finishReasonLength" "\<not> cfLoopOwnsContinuation fl" "\<not> cfNoReplay fl"
        by blast
      then show thesis using unroll a y Answered by (intro continued [of r w' y]) simp_all
    next
      case False
      then have "L a ms (w, cs) = Some (Answered m, w', cs @ [(ms, y)])"
        using unroll a y Answered by (cases m) auto
      then show thesis by (rule ended) (simp_all add: Answered)
    qed
  next
    case (Failed err)
    show thesis
    proof (cases "cfOperationActive fl \<or> \<not> isOverflowError (Some err) \<or> cfNoReplay fl \<or> a \<ge> maxRetries")
      case True
      then show thesis using unroll a y Failed by (auto intro!: ended split: if_splits)
    next
      case False
      obtain t where t: "trimMessages (ckTrimFraction h) ms = Some t"
        using trimMessages_total [of "ckTrimFraction h" ms] fraction by auto
      show thesis
      proof (cases "t = []")
        case True
        then show thesis using unroll a y Failed False t by (auto intro!: ended)
      next
        case ne: False
        then show thesis using unroll a y Failed False t by (intro again [of t w' y]) auto
      qed
    qed
  next
    case Panicked
    then show thesis using unroll a y by (auto intro!: ended)
  qed
qed

lemma overflowLoop_bounded:
  fixes h inner fl maxRetries
  defines "L \<equiv> overflowLoop (observedHost h) maxRetries (observed inner) fl"
  assumes inner: "returns inner" and fraction: "\<And>n. ckTrimFraction h n \<le> int n"
    and "a \<le> maxRetries" "recoveredFrom msgs ms"
  shows "\<exists>x w' cs. L a ms (w, cs0) = Some (x, w', cs0 @ cs)
    \<and> int (length cs) \<le> maxRetries - a + 1 + int maxContinuations
    \<and> (\<forall>c \<in> set cs. recoveryCall msgs c) \<and> panicFrom x cs \<and> answerFrom x cs"
  using assms(4,5)
proof (induction "nat (maxRetries - a)" arbitrary: a ms w cs0 rule: less_induct)
  case less
  have mine: "recoveryCall msgs (ms, y)" for y using less.prems(2) by (simp add: recoveryCall_def)
  show ?case
  proof (cases rule: overflowLoop_round [OF inner fraction less.prems(1), of fl ms w cs0, folded L_def, case_names ended continued again])
    case (ended x w' y)
    then have "answerFrom x [(ms, y)]" using answerFrom_single [of x ms] by (cases x) (auto simp: answerFrom_def)
    with ended show ?thesis using less.prems(1) mine
      by (intro exI [of _ x] exI [of _ w'] exI [of _ "[(ms, y)]"]) (auto simp: panicFrom_def)
  next
    case (continued r w' y)
    obtain x v cs where c: "continueLoop (observedHost h) (observed inner) fl ms maxContinuations r (w', cs0 @ [(ms, y)])
        = Some (x, v, (cs0 @ [(ms, y)]) @ cs)" "length cs \<le> maxContinuations"
      "\<forall>c \<in> set cs. \<exists>r. fst c = ms @ [continuationMessage r]" "panicFrom x cs" "continuedFrom r x cs"
      using continueLoop_bounded [OF inner] by blast
    from continuedFrom_answer [OF c(5), of "(ms, y)"] continued(2) have "answerFrom x ((ms, y) # cs)" by simp
    moreover from c(3) less.prems(2) have "\<forall>c \<in> set cs. recoveryCall msgs c" unfolding recoveryCall_def by blast
    ultimately show ?thesis using continued c less.prems(1) mine
      by (intro exI [of _ x] exI [of _ v] exI [of _ "(ms, y) # cs"]) (auto simp: panicFrom_def continueGeneration_def)
  next
    case (again t w' y)
    have "nat (maxRetries - (a + 1)) < nat (maxRetries - a)" "a + 1 \<le> maxRetries" using again(2) by auto
    from less.hyps [OF this trimMessages_recovered [OF again(3) less.prems(2) again(4)], of w' "cs0 @ [(ms, y)]"]
    obtain x v cs where "L (a + 1) t (w', cs0 @ [(ms, y)]) = Some (x, v, (cs0 @ [(ms, y)]) @ cs)"
      "int (length cs) \<le> maxRetries - (a + 1) + 1 + int maxContinuations"
      "\<forall>c \<in> set cs. recoveryCall msgs c" "panicFrom x cs" "answerFrom x cs" by blast
    then show ?thesis using again(1) mine answerFrom_append [of x cs "[(ms, y)]"]
      by (intro exI [of _ x] exI [of _ v] exI [of _ "(ms, y) # cs"]) (auto simp: panicFrom_def)
  qed
qed

section \<open>Layers return\<close>

lemma retryLoop_returns:
  assumes "returns inner"
  shows "a < rcMaxAttempts cfg \<Longrightarrow>
    retryLoop h \<lparr> rpShouldRetry = shouldRetry h cfg, rpNextBackoff = nextBackoff h cfg \<rparr> inner fl msgs a w \<noteq> None"
proof (induction "nat (rcMaxAttempts cfg - 1 - a)" arbitrary: a w rule: less_induct)
  case less
  let ?L = "retryLoop h \<lparr> rpShouldRetry = shouldRetry h cfg, rpNextBackoff = nextBackoff h cfg \<rparr> inner fl msgs"
  have again: "?L (a + 1) v \<noteq> None" if "fst (shouldRetry h cfg (Some e) a u)" for e u v
  proof -
    have "a < rcMaxAttempts cfg - 1" using shouldRetry_yes [OF that] by blast
    then show ?thesis by (intro less.hyps) auto
  qed
  obtain c w1 where c: "ckErr h w = (c, w1)" by fastforce
  obtain x w2 where x: "inner fl msgs w1 = Some (x, w2)" using assms unfolding returns_def by fastforce
  show ?case
  proof (cases "\<exists>e. x = Failed e")
    case True
    then obtain e where e: "x = Failed e" by blast
    obtain b w3 where b: "shouldRetry h cfg (Some e) a w2 = (b, w3)" by fastforce
    obtain d w4 where d: "nextBackoff h cfg a w3 = (d, w4)" by fastforce
    obtain k w5 where k: "ckWait h d w4 = (k, w5)" by fastforce
    show ?thesis using again [of e w2] c x e b d k
      by (subst retryLoop.simps) (auto split: if_splits)
  next
    case False
    then show ?thesis using c x by (subst retryLoop.simps) (cases x; auto)
  qed
qed

lemma returns_D: "returns inner \<Longrightarrow> \<exists>x w'. inner fl msgs w = Some (x, w')"
  unfolding returns_def by fastforce

lemma returns_I: "(\<And>fl msgs w. inner fl msgs w \<noteq> None) \<Longrightarrow> returns inner"
  by (simp add: returns_def)

text \<open>A layer that makes one call and then maps its outcome.\<close>

lemma returns_map:
  assumes "returns inner" "\<And>fl msgs w. outer fl msgs w = Option.bind (inner fl msgs (f w)) (\<lambda>p. Some (g w p))"
  shows "returns outer"
proof (rule returns_I)
  fix fl msgs w
  from returns_D [OF assms(1)] obtain p where "inner fl msgs (f w) = Some p" by fastforce
  then show "outer fl msgs w \<noteq> None" by (simp add: assms(2))
qed

lemma returns_retry: 
  assumes "returns inner"
  shows "returns (retryGenerate h (newDefaultRetryPolicy h cfg) inner)"
proof -
  have "0 < rcMaxAttempts (completeRetryConfig cfg)" by (simp add: completeRetryConfig_def)
  from retryLoop_returns [OF assms this] assms show ?thesis
    by (simp add: returns_def retryGenerate_def newDefaultRetryPolicy_def)
qed

lemma failoverLoop_returns:
  "\<forall>m \<in> set ms. returns (snd m) \<Longrightarrow> failoverLoop fl msgs ms lastErr w \<noteq> None"
proof (induction ms arbitrary: lastErr w)
  case (Cons m ms)
  obtain x w1 where "snd m fl msgs w = Some (x, w1)" using returns_D Cons.prems by fastforce
  with Cons show ?case by (cases x) auto
qed simp

lemma returns_failover:
  assumes "\<forall>m \<in> set (primary # fallbacks). returns (snd m)"
  shows "returns (failoverGenerate fallbacks primary)"
proof -
  have "failoverWithOperation fl msgs (primary # fallbacks) w \<noteq> None" for fl msgs w
  proof (cases "cfProposal fl")
    case None
    then show ?thesis using assms by (simp add: failoverWithOperation_def returns_def)
  next
    case (Some c)
    show ?thesis
    proof (cases "failoverModelIndex (primary # fallbacks) c")
      case None
      with Some show ?thesis by (simp add: failoverWithOperation_def)
    next
      case m: (Some m)
      then obtain c' where "c = Some c'" "find (\<lambda>m. c' \<in> set (fst m)) (primary # fallbacks) = Some m"
        by (cases c) auto
      then have "m \<in> set (primary # fallbacks)" by (metis find_SomeD(1))
      with assms have "returns (snd m)" by blast
      with Some m show ?thesis by (simp add: failoverWithOperation_def returns_def)
    qed
  qed
  with failoverLoop_returns [OF assms] show ?thesis unfolding returns_def failoverGenerate_def by simp
qed

lemma continueLoop_returns: "returns inner \<Longrightarrow> continueLoop h inner fl msgs n r w \<noteq> None"
proof (induction n arbitrary: r w)
  case (Suc n)
  obtain c w1 where c: "ckErr h w = (c, w1)" by fastforce
  obtain x w2 where "inner (fl \<lparr> cfNoReplay := True \<rparr>) (msgs @ [continuationMessage r]) w1 = Some (x, w2)"
    using returns_D [OF Suc.prems] by blast
  with c Suc.IH [OF Suc.prems] show ?case
    by (auto simp: Let_def split: generate_result.splits option.splits)
qed simp

lemma overflowLoop_returns:
  assumes "returns inner"
  shows "overflowLoop h maxRetries inner fl a msgs w \<noteq> None"
proof (induction "nat (maxRetries + 1 - a)" arbitrary: a msgs w rule: less_induct)
  case less
  obtain x w1 where x: "inner fl msgs w = Some (x, w1)" using returns_D [OF assms] by blast
  have again: "overflowLoop h maxRetries inner fl (a + 1) t v \<noteq> None" if "a \<le> maxRetries" for t v
    using that by (intro less.hyps) auto
  show ?case
    using x again continueLoop_returns [OF assms]
    by (subst overflowLoop.simps) (auto simp: continueGeneration_def split: generate_result.splits option.splits)
qed

lemma returns_overflow: "returns inner \<Longrightarrow> returns (overflowGenerate h maxRetries inner)"
  unfolding overflowGenerate_def by (rule returns_I) (rule overflowLoop_returns)

lemma returns_sanitize: "returns inner \<Longrightarrow> returns (sanitizeGenerate inner)"
  by (rule returns_map [where f = "\<lambda>w. w"]) (simp_all add: sanitizeGenerate_def case_prod_unfold)

lemma returns_validate: "returns inner \<Longrightarrow> returns (validateGenerate inner)"
  by (rule returns_map [where f = "\<lambda>w. w"]) (simp_all add: validateGenerate_def case_prod_unfold)

end
