(* ===== verification/LoopDetectionFacts.thy ===== *)
theory LoopDetectionFacts
  imports LoopDetection ModelCallsFacts
begin

text \<open>
  Fingerprints tell apart every two answers that differ, and the window reports a loop exactly
  when the last answers are the same.
\<close>

section \<open>Hashed fields\<close>

lemma putUint64_length [simp]: "length (putUint64 n) = 8"
  by (simp add: putUint64_def)

lemma putUint64_inj:
  assumes "m < 2 ^ 64" "n < 2 ^ 64" "putUint64 m = putUint64 n"
  shows "m = n"
proof -
  have all: "\<forall>i \<in> {0..<8}. m div 256 ^ (7 - i) mod 256 = n div 256 ^ (7 - i) mod 256"
    using assms(3) by (simp add: putUint64_def)
  have digit: "m div 256 ^ k mod 256 = n div 256 ^ k mod 256" if "k < 8" for k
    using bspec [OF all, of "7 - k"] that by simp
  have "m mod 256 ^ k = n mod 256 ^ k" if "k \<le> 8" for k
    using that
  proof (induction k)
    case (Suc k)
    then have "m mod 256 ^ k = n mod 256 ^ k" "m div 256 ^ k mod 256 = n div 256 ^ k mod 256" using digit by auto
    then show ?case by (simp add: mod_mult2_eq power_Suc2 del: power_Suc)
  qed simp
  from this [of 8] show ?thesis using assms(1,2) by simp
qed

text \<open>Hashed fields form a prefix code.\<close>

lemma hashedField_append:
  assumes "length a < 2 ^ 64" "length b < 2 ^ 64" "hashedField a @ x = hashedField b @ y"
  shows "a = b \<and> x = y"
proof -
  have "putUint64 (length a) = putUint64 (length b)" "a @ x = b @ y"
    using assms(3) by (simp_all add: hashedField_def append_eq_append_conv)
  with putUint64_inj [OF assms(1,2)] show ?thesis by simp
qed

lemma hashedFields_inj:
  "\<forall>f \<in> set fs \<union> set gs. length f < 2 ^ 64 \<Longrightarrow> concat (map hashedField fs) = concat (map hashedField gs) \<Longrightarrow> fs = gs"
proof (induction fs arbitrary: gs)
  case Nil
  then show ?case by (cases gs) (auto simp: hashedField_def putUint64_def upt_rec)
next
  case (Cons f fs)
  show ?case
  proof (cases gs)
    case Nil
    with Cons.prems(2) show ?thesis by (auto simp: hashedField_def putUint64_def upt_rec)
  next
    case (Cons g gs')
    with Cons.prems hashedField_append [of f g] have "f = g" "concat (map hashedField fs) = concat (map hashedField gs')" by auto
    with Cons.IH [of gs'] Cons.prems(1) Cons show ?thesis by auto
  qed
qed

section \<open>What is hashed\<close>

lemma hexEncode_inj: "hexEncode a = hexEncode b \<Longrightarrow> a = b"
proof (induction a arbitrary: b)
  case Nil
  then show ?case by (cases b) (auto simp: hexEncode_def)
next
  case (Cons c a)
  then obtain d b' where b: "b = d # b'" by (cases b) (auto simp: hexEncode_def)
  have inj: "hexDigit i = hexDigit j \<Longrightarrow> i < 16 \<Longrightarrow> j < 16 \<Longrightarrow> i = j" for i j
    by (auto simp: hexDigit_def split: if_splits dest: arg_cong [of _ _ of_char])
  have small: "(of_char c :: nat) < 256" "(of_char d :: nat) < 256" by simp_all
  from Cons.prems b have "hexDigit (of_char c div 16) = hexDigit (of_char d div 16)"
    "hexDigit (of_char c mod 16) = hexDigit (of_char d mod 16)" "hexEncode a = hexEncode b'" by (auto simp: hexEncode_def)
  then have "(of_char c :: nat) div 16 = of_char d div 16" "(of_char c :: nat) mod 16 = of_char d mod 16" "a = b'"
    using inj small Cons.IH by (auto simp: less_mult_imp_div_less)
  then have "(of_char c :: nat) = of_char d" by (metis div_mult_mod_eq)
  with b \<open>a = b'\<close> show ?case by simp
qed

text \<open>What two responses must share to have the same fingerprint: text, tool names, arguments.\<close>

definition answerFields :: "detect_host \<Rightarrow> chat_message \<Rightarrow> string list" where
  "answerFields h m = cmContent m # putUint64 (length (cmToolCalls m))
     # concat (map (\<lambda>c. [tcName c, the (dhMarshal h (tcArgs c))]) (cmToolCalls m))"

definition sameAnswer :: "detect_host \<Rightarrow> chat_message \<Rightarrow> chat_message \<Rightarrow> bool" where
  "sameAnswer h m m' \<longleftrightarrow> cmContent m = cmContent m'
     \<and> map (\<lambda>c. (tcName c, dhMarshal h (tcArgs c))) (cmToolCalls m) = map (\<lambda>c. (tcName c, dhMarshal h (tcArgs c))) (cmToolCalls m')"

lemma writeField_Inr:
  "writeField p v = Inr q \<Longrightarrow> snd q = snd p @ hashedField v \<and> length v \<le> guardedStreamMaxBytes"
  by (auto simp: writeField_def addBoundedStreamBytes_def split: if_splits)

lemma writeCall_Inr:
  assumes "writeCall h p c = Inr q"
  obtains p1 args where "writeField p (tcName c) = Inr p1" "dhMarshal h (tcArgs c) = Some args" "writeField p1 args = Inr q"
  using assms by (auto simp: writeCall_def bindR_eq_Inr split: option.splits)

lemma writeCalls_Inr:
  "foldR (writeCall h) p calls = Inr q \<Longrightarrow>
     snd q = snd p @ concat (map hashedField (concat (map (\<lambda>c. [tcName c, the (dhMarshal h (tcArgs c))]) calls)))
     \<and> (\<forall>c \<in> set calls. dhMarshal h (tcArgs c) \<noteq> None \<and> length (tcName c) \<le> guardedStreamMaxBytes
          \<and> length (the (dhMarshal h (tcArgs c))) \<le> guardedStreamMaxBytes)"
proof (induction calls arbitrary: p)
  case (Cons c calls)
  obtain p2 where p2: "writeCall h p c = Inr p2" "foldR (writeCall h) p2 calls = Inr q"
    using Cons.prems by (rule foldR_cons)
  obtain p1 args where w: "writeField p (tcName c) = Inr p1" "dhMarshal h (tcArgs c) = Some args" "writeField p1 args = Inr p2"
    using p2(1) by (rule writeCall_Inr)
  from Cons.IH [OF p2(2)] writeField_Inr [OF w(1)] writeField_Inr [OF w(3)] w(2) show ?case by auto
qed simp

lemma fingerprintInput_fields:
  assumes "fingerprintInput h (cmContent m) (cmToolCalls m) = Inr b"
  shows "b = concat (map hashedField (answerFields h m))" "\<forall>f \<in> set (answerFields h m). length f < 2 ^ 64"
    "\<forall>c \<in> set (cmToolCalls m). dhMarshal h (tcArgs c) \<noteq> None" "length (cmToolCalls m) < 2 ^ 64"
proof -
  obtain p q where w: "length (cmToolCalls m) \<le> guardedStreamMaxToolCalls" "writeField (0, []) (cmContent m) = Inr p"
    "foldR (writeCall h) (fst p, snd p @ hashedField (putUint64 (length (cmToolCalls m)))) (cmToolCalls m) = Inr q" "b = snd q"
    using assms by (auto simp: fingerprintInput_def bindR_def split: sum.splits if_splits)
  note f = writeField_Inr [OF w(2)] writeCalls_Inr [OF w(3)]
  show "b = concat (map hashedField (answerFields h m))" using f w(4) by (simp add: answerFields_def)
  have "(guardedStreamMaxBytes :: nat) < 2 ^ 64" "guardedStreamMaxToolCalls < (2 :: nat) ^ 64"
    by (simp_all add: guardedStreamMaxBytes_def guardedStreamMaxToolCalls_def)
  then show "\<forall>f \<in> set (answerFields h m). length f < 2 ^ 64" "length (cmToolCalls m) < 2 ^ 64"
    using f w(1) by (auto simp: answerFields_def)
  show "\<forall>c \<in> set (cmToolCalls m). dhMarshal h (tcArgs c) \<noteq> None" using f by blast
qed

lemma pairs_concat:
  "length xs = length ys \<Longrightarrow> concat (map (\<lambda>c. [f c, g c]) xs) = concat (map (\<lambda>c. [f c, g c]) ys) \<Longrightarrow>
     map (\<lambda>c. (f c, g c)) xs = map (\<lambda>c. (f c, g c)) ys"
  by (induction xs ys rule: list_induct2) auto

lemma answerFields_same:
  assumes "\<forall>c \<in> set (cmToolCalls m). dhMarshal h (tcArgs c) \<noteq> None" "\<forall>c \<in> set (cmToolCalls m'). dhMarshal h (tcArgs c) \<noteq> None"
    and "length (cmToolCalls m) < 2 ^ 64" "length (cmToolCalls m') < 2 ^ 64"
  shows "answerFields h m = answerFields h m' \<longleftrightarrow> sameAnswer h m m'"
proof
  assume e: "answerFields h m = answerFields h m'"
  with putUint64_inj [OF assms(3,4)] have l: "length (cmToolCalls m) = length (cmToolCalls m')" by (simp add: answerFields_def)
  with e have "map (\<lambda>c. (tcName c, the (dhMarshal h (tcArgs c)))) (cmToolCalls m)
      = map (\<lambda>c. (tcName c, the (dhMarshal h (tcArgs c)))) (cmToolCalls m')"
    by (intro pairs_concat) (simp_all add: answerFields_def)
  then have "map (apsnd Some) (map (\<lambda>c. (tcName c, the (dhMarshal h (tcArgs c)))) (cmToolCalls m))
      = map (apsnd Some) (map (\<lambda>c. (tcName c, the (dhMarshal h (tcArgs c)))) (cmToolCalls m'))" by simp
  moreover have both: "map (apsnd Some) (map (\<lambda>c. (tcName c, the (dhMarshal h (tcArgs c)))) cs)
      = map (\<lambda>c. (tcName c, dhMarshal h (tcArgs c))) cs" if "\<forall>c \<in> set cs. dhMarshal h (tcArgs c) \<noteq> None" for cs
    using that by auto
  ultimately have "map (\<lambda>c. (tcName c, dhMarshal h (tcArgs c))) (cmToolCalls m) = map (\<lambda>c. (tcName c, dhMarshal h (tcArgs c))) (cmToolCalls m')"
    by (simp only: both [OF assms(1)] both [OF assms(2)])
  with e show "sameAnswer h m m'" by (simp add: sameAnswer_def answerFields_def)
next
  assume s: "sameAnswer h m m'"
  then have "map (\<lambda>p. [fst p, the (snd p)]) (map (\<lambda>c. (tcName c, dhMarshal h (tcArgs c))) (cmToolCalls m))
      = map (\<lambda>p. [fst p, the (snd p)]) (map (\<lambda>c. (tcName c, dhMarshal h (tcArgs c))) (cmToolCalls m'))"
    by (simp add: sameAnswer_def)
  moreover have "length (cmToolCalls m) = length (cmToolCalls m')" using s by (auto simp: sameAnswer_def dest: map_eq_imp_length_eq)
  ultimately show "answerFields h m = answerFields h m'" using s by (simp add: sameAnswer_def answerFields_def comp_def)
qed

text \<open>The two responses are not a collision: equal digests of what is hashed mean equal inputs.\<close>

definition noCollision :: "detect_host \<Rightarrow> chat_message \<Rightarrow> chat_message \<Rightarrow> bool" where
  "noCollision h m m' \<longleftrightarrow>
     (case (fingerprintInput h (cmContent m) (cmToolCalls m), fingerprintInput h (cmContent m') (cmToolCalls m')) of
        (Inr b, Inr b') \<Rightarrow> dhSha256 h b = dhSha256 h b' \<longrightarrow> b = b'
      | _ \<Rightarrow> True)"

lemma fingerprints_agree:
  assumes "noCollision h m m'" "responseFingerprint h (cmContent m) (cmToolCalls m) = Inr fp"
    "responseFingerprint h (cmContent m') (cmToolCalls m') = Inr fp'"
  shows "fp = fp' \<longleftrightarrow> sameAnswer h m m'"
proof -
  obtain b b' where b: "fingerprintInput h (cmContent m) (cmToolCalls m) = Inr b" "fp = hexEncode (dhSha256 h b)"
    "fingerprintInput h (cmContent m') (cmToolCalls m') = Inr b'" "fp' = hexEncode (dhSha256 h b')"
    using assms(2,3)
    by (cases "fingerprintInput h (cmContent m) (cmToolCalls m)"; cases "fingerprintInput h (cmContent m') (cmToolCalls m')")
      (auto simp: responseFingerprint_def)
  note f = fingerprintInput_fields [OF b(1)] and f' = fingerprintInput_fields [OF b(3)]
  have "fp = fp' \<longleftrightarrow> b = b'"
  proof
    assume "fp = fp'"
    then have "dhSha256 h b = dhSha256 h b'" unfolding b(2,4) by (rule hexEncode_inj)
    with assms(1) show "b = b'" by (simp add: noCollision_def b(1,3))
  qed (simp add: b(2,4))
  also have "\<dots> \<longleftrightarrow> answerFields h m = answerFields h m'"
    unfolding f(1) f'(1) using hashedFields_inj [of "answerFields h m" "answerFields h m'"] f(2) f'(2) by auto
  also have "\<dots> \<longleftrightarrow> sameAnswer h m m'" by (rule answerFields_same [OF f(3) f'(3) f(4) f'(4)])
  finally show ?thesis .
qed

section \<open>The detector over a history\<close>

definition lastOf :: "nat \<Rightarrow> 'a list \<Rightarrow> 'a list" where
  "lastOf n xs = drop (length xs - n) xs"

lemma lastOf_rev: "rev (lastOf n xs) = take n (rev xs)"
  by (simp add: lastOf_def take_rev)

lemma lastOf_snoc: "lastOf (Suc n) (xs @ [x]) = lastOf n xs @ [x]"
  by (simp add: lastOf_def)

lemma runFrom_nonneg: "0 \<le> runFrom f ys"
  by (induction ys) auto

lemma runFrom_take: "k \<le> n \<Longrightarrow> int k \<le> runFrom f (take n ys) \<longleftrightarrow> k \<le> length ys \<and> (\<forall>x \<in> set (take k ys). x = f)"
proof (induction ys arbitrary: k n)
  case (Cons y ys)
  show ?case
  proof (cases k)
    case (Suc k')
    with Cons.prems obtain n' where "n = Suc n'" "k' \<le> n'" by (cases n) auto
    with Suc Cons.IH [of k' n'] runFrom_nonneg [of f "take n' ys"] show ?thesis by auto
  qed (simp add: runFrom_nonneg)
qed simp

lemma checkLoop_window:
  assumes "0 < ldWindowSize d"
  shows "checkLoop d (lastOf (nat (ldWindowSize d)) fs) f =
    (let count = 1 + runFrom f (take (nat (ldWindowSize d) - 1) (rev fs))
     in Some (if count \<ge> ldThreshold d then Some count else None, lastOf (nat (ldWindowSize d)) (fs @ [f])))"
proof -
  obtain n where n: "nat (ldWindowSize d) = Suc n" "ldWindowSize d = int (Suc n)"
    using assms by (metis Suc_pred' nat_0_le order_less_imp_le zero_less_nat_eq)
  have "trimRecent (ldWindowSize d) (lastOf (Suc n) fs @ [f]) = Some (lastOf n fs @ [f])"
  proof (cases "Suc n \<le> length fs")
    case True
    then have "Suc (length fs - Suc n) = length fs - n" by simp
    with True n(2) show ?thesis by (simp add: lastOf_def trimRecent_def)
  qed (use n(2) in \<open>simp add: lastOf_def trimRecent_def\<close>)
  then show ?thesis using n(1) by (simp add: checkLoop_def Let_def lastOf_snoc lastOf_rev)
qed

lemma loop_detected:
  assumes "0 < ldWindowSize d" "1 \<le> t" "ldThreshold d = int t" "t \<le> nat (ldWindowSize d)"
  shows "1 + runFrom f (take (nat (ldWindowSize d) - 1) (rev fs)) \<ge> ldThreshold d
    \<longleftrightarrow> t \<le> Suc (length fs) \<and> (\<forall>x \<in> set (lastOf (t - 1) fs). x = f)"
proof -
  have "t - 1 \<le> nat (ldWindowSize d) - 1" using assms(4) by simp
  from runFrom_take [OF this, of f "rev fs"] assms(2,3)
  have "1 + runFrom f (take (nat (ldWindowSize d) - 1) (rev fs)) \<ge> ldThreshold d
    \<longleftrightarrow> t - 1 \<le> length fs \<and> (\<forall>x \<in> set (take (t - 1) (rev fs)). x = f)" by (simp add: of_nat_diff algebra_simps)
  also have "set (take (t - 1) (rev fs)) = set (lastOf (t - 1) fs)" by (simp flip: lastOf_rev)
  finally show ?thesis using assms(2) by auto
qed

text \<open>A history of responses, and the window it leaves.\<close>

definition windowAfter :: "detect_host \<Rightarrow> loop_detector \<Rightarrow> chat_message list \<Rightarrow> string list" where
  "windowAfter h d ms = foldl (\<lambda>recent m. snd (noteResponse h d recent m)) [] ms"

definition fingerprinted :: "detect_host \<Rightarrow> chat_message \<Rightarrow> bool" where
  "fingerprinted h m \<longleftrightarrow> (\<exists>fp. responseFingerprint h (cmContent m) (cmToolCalls m) = Inr fp)"

definition printOf :: "detect_host \<Rightarrow> chat_message \<Rightarrow> string" where
  "printOf h m = (case responseFingerprint h (cmContent m) (cmToolCalls m) of Inr fp \<Rightarrow> fp | Inl _ \<Rightarrow> [])"

lemma noteResponse_window:
  assumes "0 < ldWindowSize d" "fingerprinted h m"
  shows "snd (noteResponse h d (lastOf (nat (ldWindowSize d)) fs) m) = lastOf (nat (ldWindowSize d)) (fs @ [printOf h m])"
  using assms checkLoop_window [OF assms(1), of fs "printOf h m"]
  by (auto simp: noteResponse_def fingerprinted_def printOf_def Let_def split: option.splits)

lemma noteResponse_refused:
  assumes "\<not> fingerprinted h m"
  shows "\<exists>e. noteResponse h d recent m = (plainError e, recent)"
  using assms by (cases "responseFingerprint h (cmContent m) (cmToolCalls m)") (auto simp: noteResponse_def fingerprinted_def)

lemma windowAfter_last:
  assumes "0 < ldWindowSize d"
  shows "windowAfter h d ms = lastOf (nat (ldWindowSize d)) (map (printOf h) (filter (fingerprinted h) ms))"
proof (induction ms rule: rev_induct)
  case Nil
  then show ?case by (simp add: windowAfter_def lastOf_def)
next
  case (snoc m ms)
  have step: "windowAfter h d (ms @ [m]) = snd (noteResponse h d (windowAfter h d ms) m)" by (simp add: windowAfter_def)
  show ?case
  proof (cases "fingerprinted h m")
    case True
    with noteResponse_window [OF assms True] snoc step show ?thesis by simp
  next
    case False
    with noteResponse_refused [OF False, of d "windowAfter h d ms"] snoc step show ?thesis by auto
  qed
qed

lemma noteResponse_outcome:
  assumes "0 < ldWindowSize d" "fingerprinted h m" "recent = lastOf (nat (ldWindowSize d)) fs"
  shows "fst (noteResponse h d recent m) =
    (let count = 1 + runFrom (printOf h m) (take (nat (ldWindowSize d) - 1) (rev fs))
     in if count \<ge> ldThreshold d
        then plainError (''loopdetection: detected repeated response (count='' @ intText count @ '')'')
        else Answered (Some m))"
  using assms checkLoop_window [OF assms(1), of fs "printOf h m"]
  by (auto simp: noteResponse_def fingerprinted_def printOf_def Let_def)

lemma lastOf_map: "lastOf n (map f xs) = map f (lastOf n xs)"
  by (simp add: lastOf_def drop_map)

lemma lastOf_subset: "set (lastOf n xs) \<subseteq> set xs"
  by (simp add: lastOf_def set_drop_subset)

lemma returns_detect: "returns inner \<Longrightarrow> returns (detectGenerate h d inner)"
  by (rule returns_map [where f = fst]) (simp_all add: detectGenerate_def case_prod_unfold)

end
