(* ===== verification/ProviderStackFacts.thy ===== *)
theory ProviderStackFacts
  imports ProviderStack ModelCallsFacts LoopDetectionFacts
begin

text \<open>
  What each layer of the assembled stack makes of a bound on the calls below it: layers that map
  a result keep it, a bounded retry policy multiplies it, and the answer of the stack is the
  sanitized answer of its last calls.
\<close>

section \<open>Calls that pass through a layer\<close>

text \<open>
  An answer and the calls it comes from: the texts of the last of them, one after the other and
  changed by \<open>g\<close>, with the tool calls and the finish reason of the very last; and not empty before
  the change.
\<close>

definition shownFrom :: "(string \<Rightarrow> string) \<Rightarrow> chat_message \<Rightarrow> call_record list \<Rightarrow> bool" where
  "shownFrom g m cs \<longleftrightarrow> (\<exists>cs0 cs1 ps. cs = cs0 @ cs1 \<and> map snd cs1 = map (\<lambda>p. Answered (Some p)) ps \<and> ps \<noteq> []
     \<and> (concat (map cmContent ps) \<noteq> [] \<or> cmToolCalls (last ps) \<noteq> [])
     \<and> cmContent m = g (concat (map cmContent ps))
     \<and> cmToolCalls m = cmToolCalls (last ps) \<and> cmFinishReason m = cmFinishReason (last ps))"

definition stackPass :: "(string \<Rightarrow> string) \<Rightarrow> chat_message list \<Rightarrow> generate_result \<Rightarrow> call_record list \<Rightarrow> bool" where
  "stackPass g msgs x cs \<longleftrightarrow> (\<forall>c \<in> set cs. recoveryCall msgs c) \<and> panicFrom x cs
     \<and> x \<noteq> Answered None \<and> (\<forall>m. x = Answered (Some m) \<longrightarrow> shownFrom g m cs)"

text \<open>A model that always returns, after at most \<open>k\<close> calls, with a result that agrees with them.\<close>

definition passes :: "('v \<Rightarrow> call_record list) \<Rightarrow> nat \<Rightarrow>
    (chat_message list \<Rightarrow> generate_result \<Rightarrow> call_record list \<Rightarrow> bool) \<Rightarrow> 'v chat_model \<Rightarrow> bool" where
  "passes log k P inner \<longleftrightarrow> (\<forall>fl msgs w. \<exists>x w' cs. inner fl msgs w = Some (x, w')
     \<and> log w' = log w @ cs \<and> length cs \<le> k \<and> P msgs x cs)"

lemma passesD:
  assumes "passes log k P inner"
  obtains x w' cs where "inner fl msgs w = Some (x, w')" "log w' = log w @ cs" "length cs \<le> k" "P msgs x cs"
  using assms unfolding passes_def by blast

lemma passesI:
  assumes "\<And>fl msgs w. \<exists>x w' cs. inner fl msgs w = Some (x, w') \<and> log w' = log w @ cs \<and> length cs \<le> k \<and> P msgs x cs"
  shows "passes log k P inner"
  using assms by (simp add: passes_def)

lemma shownFrom_append: "shownFrom g m cs \<Longrightarrow> shownFrom g m (cs0 @ cs)"
  unfolding shownFrom_def by (metis append.assoc)

lemma stackPass_append:
  assumes "\<forall>c \<in> set cs0. recoveryCall msgs c" "stackPass g msgs x cs"
  shows "stackPass g msgs x (cs0 @ cs)"
  using assms shownFrom_append [of g _ cs cs0] by (auto simp: stackPass_def panicFrom_def)

lemma stackPass_failed: "\<forall>c \<in> set cs. recoveryCall msgs c \<Longrightarrow> stackPass g msgs (Failed e) cs"
  by (simp add: stackPass_def panicFrom_def)

lemma stackPass_calls: "stackPass g msgs x cs \<Longrightarrow> c \<in> set cs \<Longrightarrow> recoveryCall msgs c"
  by (simp add: stackPass_def)

text \<open>A layer that makes one call and maps its result.\<close>

lemma passes_map:
  assumes "passes log k P inner"
    and "\<And>fl msgs w. outer fl msgs w = Option.bind (inner fl msgs (f w)) (\<lambda>(x, w1). Some (g w x w1, s w x w1))"
    and "\<And>w x w1. log' (s w x w1) = log w1" "\<And>w. log (f w) = log' w"
    and "\<And>msgs w x w1 cs. P msgs x cs \<Longrightarrow> Q msgs (g w x w1) cs"
  shows "passes log' k Q outer"
proof (rule passesI)
  fix fl msgs w
  obtain x w1 cs where i: "inner fl msgs (f w) = Some (x, w1)" "log w1 = log (f w) @ cs" "length cs \<le> k" "P msgs x cs"
    using assms(1) by (rule passesD)
  from i(1) have "outer fl msgs w = Some (g w x w1, s w x w1)" by (simp add: assms(2))
  with i(2-) assms(3,4) assms(5) [OF i(4)] show
    "\<exists>x w' cs. outer fl msgs w = Some (x, w') \<and> log' w' = log' w @ cs \<and> length cs \<le> k \<and> Q msgs x cs" by auto
qed

section \<open>The layers\<close>

abbreviation recoveredPass :: "chat_message list \<Rightarrow> generate_result \<Rightarrow> call_record list \<Rightarrow> bool" where
  "recoveredPass msgs x cs \<equiv> (\<forall>c \<in> set cs. recoveryCall msgs c) \<and> panicFrom x cs \<and> answerFrom x cs"

lemma passes_overflow:
  assumes "returns provider" "\<And>n. ckTrimFraction h n \<le> int n"
  shows "passes snd 6 recoveredPass (overflowGenerate (observedHost h) overflowMaxRetries (observed provider))"
proof (rule passesI)
  fix fl msgs and w :: "'a \<times> call_record list"
  obtain v rs where w: "w = (v, rs)" by (cases w)
  have "recoveredFrom msgs msgs" by (simp add: recoveredFrom_def)
  from overflowLoop_bounded [OF assms, of 0 overflowMaxRetries msgs msgs fl v rs] this
  show "\<exists>x w' cs. overflowGenerate (observedHost h) overflowMaxRetries (observed provider) fl msgs w = Some (x, w')
      \<and> snd w' = snd w @ cs \<and> length cs \<le> 6 \<and> recoveredPass msgs x cs"
    by (fastforce simp: overflowGenerate_def overflowMaxRetries_def maxContinuations_def w)
qed

lemma answerFrom_shown:
  assumes "answerFrom (Answered (Some m)) cs" "cmContent m \<noteq> [] \<or> cmToolCalls m \<noteq> []"
  shows "shownFrom id m cs"
  using assms unfolding answerFrom_def shownFrom_def joinedFrom_def by (metis id_apply)

lemma passes_validate:
  assumes "passes log k recoveredPass inner"
  shows "passes log k (stackPass id) (validateGenerate inner)"
proof (rule passes_map [OF assms, where f = "\<lambda>w. w" and s = "\<lambda>_ _ w1. w1"
      and g = "\<lambda>_ x _. case x of Answered None \<Rightarrow> plainError ''validate: empty response''
        | Answered (Some r) \<Rightarrow> if cmContent r = [] \<and> cmToolCalls r = [] then plainError ''validate: empty response content'' else x
        | _ \<Rightarrow> x"])
  fix msgs cs and w w1 :: 'a and x
  assume p: "recoveredPass msgs x cs"
  show "stackPass id msgs (case x of Answered None \<Rightarrow> plainError ''validate: empty response''
        | Answered (Some r) \<Rightarrow> if cmContent r = [] \<and> cmToolCalls r = [] then plainError ''validate: empty response content'' else x
        | _ \<Rightarrow> x) cs"
  proof (cases "\<exists>r. x = Answered (Some r) \<and> \<not> (cmContent r = [] \<and> cmToolCalls r = [])")
    case True
    then obtain r where r: "x = Answered (Some r)" "cmContent r \<noteq> [] \<or> cmToolCalls r \<noteq> []" by blast
    with p answerFrom_shown [of r cs] show ?thesis by (auto simp: stackPass_def panicFrom_def)
  next
    case False
    with p show ?thesis by (auto simp: stackPass_def panicFrom_def split: generate_result.splits option.splits)
  qed
qed (simp_all add: validateGenerate_def)

lemma newLoopDetector_safe: "fst (noteResponse dh newLoopDetector recent m) \<in> {Answered (Some m)} \<union> range Failed"
  by (auto simp: noteResponse_def checkLoop_def trimRecent_def newLoopDetector_def Let_def split: sum.splits)

lemma passes_detect:
  assumes "passes log k (stackPass id) inner"
  shows "passes (log \<circ> fst) k (stackPass id) (detectGenerate dh newLoopDetector inner)"
proof (rule passes_map [OF assms, where f = fst
      and s = "\<lambda>w x w1. (w1, case x of Answered (Some m) \<Rightarrow> snd (noteResponse dh newLoopDetector (snd w) m) | _ \<Rightarrow> snd w)"
      and g = "\<lambda>w x _. case x of Answered None \<Rightarrow> Panicked
        | Answered (Some m) \<Rightarrow> fst (noteResponse dh newLoopDetector (snd w) m) | _ \<Rightarrow> x"])
  fix msgs cs and w :: "'a \<times> string list" and w1 :: 'a and x
  assume p: "stackPass id msgs x cs"
  show "stackPass id msgs (case x of Answered None \<Rightarrow> Panicked
      | Answered (Some m) \<Rightarrow> fst (noteResponse dh newLoopDetector (snd w) m) | _ \<Rightarrow> x) cs"
  proof (cases "\<exists>m. x = Answered (Some m)")
    case True
    then obtain m where m: "x = Answered (Some m)" by blast
    with newLoopDetector_safe [of dh "snd w" m] p show ?thesis by (auto simp: stackPass_def panicFrom_def)
  next
    case False
    with p show ?thesis by (auto simp: stackPass_def split: generate_result.splits option.splits)
  qed
next
  fix fl msgs and w :: "'a \<times> string list"
  show "detectGenerate dh newLoopDetector inner fl msgs w = Option.bind (inner fl msgs (fst w)) (\<lambda>(x, w1).
      Some (case x of Answered None \<Rightarrow> Panicked
        | Answered (Some m) \<Rightarrow> fst (noteResponse dh newLoopDetector (snd w) m) | _ \<Rightarrow> x,
      w1, case x of Answered (Some m) \<Rightarrow> snd (noteResponse dh newLoopDetector (snd w) m) | _ \<Rightarrow> snd w))"
    unfolding detectGenerate_def
    by (intro arg_cong [where f = "Option.bind _"] ext) (auto split: generate_result.splits option.splits prod.splits)
qed simp_all

lemma passes_sanitize:
  assumes "passes log k (stackPass id) inner"
  shows "passes log k (stackPass sanitizeResponse) (sanitizeGenerate inner)"
proof (rule passes_map [OF assms, where f = "\<lambda>w. w" and s = "\<lambda>_ _ w1. w1"
      and g = "\<lambda>_ x _. case x of Answered None \<Rightarrow> Panicked
        | Answered (Some r) \<Rightarrow> Answered (Some (r \<lparr> cmContent := sanitizeResponse (cmContent r) \<rparr>)) | _ \<Rightarrow> x"])
  fix msgs cs and w w1 :: 'a and x
  assume p: "stackPass id msgs x cs"
  then have "shownFrom sanitizeResponse (r \<lparr> cmContent := sanitizeResponse (cmContent r) \<rparr>) cs" if "x = Answered (Some r)" for r
    using that unfolding stackPass_def shownFrom_def by fastforce
  with p show "stackPass sanitizeResponse msgs (case x of Answered None \<Rightarrow> Panicked
      | Answered (Some r) \<Rightarrow> Answered (Some (r \<lparr> cmContent := sanitizeResponse (cmContent r) \<rparr>)) | _ \<Rightarrow> x) cs"
    by (auto simp: stackPass_def panicFrom_def split: generate_result.splits option.splits)
qed (simp_all add: sanitizeGenerate_def)

lemma passes_timeout:
  assumes "passes log k (stackPass g) inner"
    and "\<And>w. log (snd (ckErr h w)) = log w" "\<And>t w. log (dlStart dl t w) = log w" "\<And>w. log (dlCancel dl w) = log w"
  shows "passes log k (stackPass g) (timeoutGenerate h dl budget inner)"
proof (rule passes_map [OF assms(1), where f = "dlStart dl budget" and s = "\<lambda>_ _ w1. dlCancel dl (snd (ckErr h w1))"
      and g = "\<lambda>_ x w1. case fst (ckErr h w1) of
        Some e \<Rightarrow> Failed (wrapError (''timeout: generate exceeded '' @ dlText dl budget) e) | None \<Rightarrow> x"])
  fix msgs cs and w w1 :: 'a and x
  assume "stackPass g msgs x cs"
  then show "stackPass g msgs (case fst (ckErr h w1) of
      Some e \<Rightarrow> Failed (wrapError (''timeout: generate exceeded '' @ dlText dl budget) e) | None \<Rightarrow> x) cs"
    by (auto simp: stackPass_def panicFrom_def split: option.splits)
qed (simp_all add: timeoutGenerate_def assms case_prod_unfold)

section \<open>Bounded policies\<close>

text \<open>
  What the retry loop needs of its policy: it grants no retry after the last allowed attempt, and
  neither it nor the waiting makes a call.
\<close>

locale bounded_policy =
  fixes h :: "'v call_host" and pol :: "'v retry_policy" and n :: nat and log :: "'v \<Rightarrow> call_record list"
  assumes granted: "fst (rpShouldRetry pol (Some e) (int a) w) \<Longrightarrow> Suc a < n"
    and log_should: "log (snd (rpShouldRetry pol err b w)) = log w"
    and log_backoff: "log (snd (rpNextBackoff pol b w)) = log w"
    and log_ctx: "log (snd (ckErr h w)) = log w"
    and log_wait: "log (snd (ckWait h d w)) = log w"
begin

lemma round:
  assumes inner: "passes log k (stackPass g) inner"
  obtains (ended) x w' cs where "retryLoop h pol inner fl msgs (int a) w = Some (x, w')" "log w' = log w @ cs"
      "length cs \<le> k" "stackPass g msgs x cs"
  | (again) w' cs where "retryLoop h pol inner fl msgs (int a) w = retryLoop h pol inner fl msgs (int (Suc a)) w'"
      "log w' = log w @ cs" "length cs \<le> k" "\<forall>c \<in> set cs. recoveryCall msgs c" "Suc a < n"
proof -
  obtain c w1 where c: "ckErr h w = (c, w1)" by fastforce
  with log_ctx [of w] have l1: "log w1 = log w" by simp
  show thesis
  proof (cases c)
    case (Some e)
    have "retryLoop h pol inner fl msgs (int a) w = Some (Failed e, w1)" by (subst retryLoop.simps) (simp add: c Some)
    then show thesis by (rule ended [of _ _ "[]"]) (simp_all add: l1 stackPass_failed)
  next
    case None
    obtain x w2 cs where x: "inner fl msgs w1 = Some (x, w2)" "log w2 = log w @ cs" "length cs \<le> k" "stackPass g msgs x cs"
      using passesD [OF inner] l1 by metis
    have calls: "\<forall>c \<in> set cs. recoveryCall msgs c" using stackPass_calls [OF x(4)] by blast
    show thesis
    proof (cases "\<exists>e. x = Failed e \<and> \<not> cfNoReplay fl")
      case False
      then have "retryLoop h pol inner fl msgs (int a) w = Some (x, w2)"
        by (subst retryLoop.simps) (cases x; simp add: c None x(1))
      then show thesis using x(2-) by (rule ended)
    next
      case True
      then obtain e where e: "x = Failed e" "\<not> cfNoReplay fl" by blast
      obtain b w3 where b: "rpShouldRetry pol (Some e) (int a) w2 = (b, w3)" by fastforce
      obtain d w4 where d: "rpNextBackoff pol (int a) w3 = (d, w4)" by fastforce
      obtain v w5 where v: "ckWait h d w4 = (v, w5)" by fastforce
      have l: "log w3 = log w @ cs" "log w5 = log w @ cs"
        using log_should [of "Some e" "int a" w2] log_backoff [of "int a" w3] log_wait [of d w4] b d v x(2) by simp_all
      have run: "retryLoop h pol inner fl msgs (int a) w =
          (if \<not> b then Some (Failed e, w3) else if v \<noteq> None then Some (Failed (the v), w5)
           else retryLoop h pol inner fl msgs (int (Suc a)) w5)"
        by (subst retryLoop.simps) (simp add: c None x(1) e b d v add.commute)
      consider "\<not> b" | "b" "v \<noteq> None" | "b" "v = None" by blast
      then show thesis
      proof cases
        case 1
        with run l x(3) stackPass_failed [OF calls] show thesis by (intro ended [of "Failed e" w3 cs]) simp_all
      next
        case 2
        with run l x(3) stackPass_failed [OF calls] show thesis by (intro ended [of "Failed (the v)" w5 cs]) simp_all
      next
        case 3
        with run l x(3) calls granted [of e a w2] b show thesis by (intro again [of w5 cs]) simp_all
      qed
    qed
  qed
qed

lemma loop_passes:
  assumes inner: "passes log k (stackPass g) inner"
  shows "a < n \<Longrightarrow> \<exists>x w' cs. retryLoop h pol inner fl msgs (int a) w = Some (x, w') \<and> log w' = log w @ cs
    \<and> length cs \<le> (n - a) * k \<and> stackPass g msgs x cs"
proof (induction "n - a" arbitrary: a w rule: less_induct)
  case less
  show ?case
  proof (cases rule: round [OF inner, of fl msgs a w, case_names ended again])
    case (ended x w' cs)
    have "n - a = Suc (n - Suc a)" using less.prems by simp
    then have "k \<le> (n - a) * k" by simp
    then have "length cs \<le> (n - a) * k" by (rule order_trans [OF ended(3)])
    with ended show ?thesis by blast
  next
    case (again w' cs)
    have "n - Suc a < n - a" using less.prems by simp
    from less.hyps [OF this again(5), of w'] obtain x w2 cs' where
      "retryLoop h pol inner fl msgs (int (Suc a)) w' = Some (x, w2)" "log w2 = log w' @ cs'"
      "length cs' \<le> (n - Suc a) * k" "stackPass g msgs x cs'" by blast
    moreover have "n - a = Suc (n - Suc a)" using less.prems by simp
    ultimately show ?thesis using again stackPass_append [OF again(4), of g x cs']
      by (intro exI [of _ x] exI [of _ w2] exI [of _ "cs @ cs'"]) simp
  qed
qed

lemma passes_retry:
  assumes "passes log k (stackPass g) inner" "0 < n"
  shows "passes log (n * k) (stackPass g) (retryGenerate h pol inner)"
proof (rule passesI)
  fix fl msgs w
  show "\<exists>x w' cs. retryGenerate h pol inner fl msgs w = Some (x, w') \<and> log w' = log w @ cs
      \<and> length cs \<le> n * k \<and> stackPass g msgs x cs"
  proof (cases "cfOperationActive fl")
    case True
    obtain x w' cs where "inner fl msgs w = Some (x, w')" "log w' = log w @ cs" "length cs \<le> k" "stackPass g msgs x cs"
      using assms(1) by (rule passesD)
    moreover from this(3) have "length cs \<le> n * k" by (rule order_trans) (use assms(2) in simp)
    ultimately show ?thesis using True by (auto simp: retryGenerate_def)
  next
    case False
    then show ?thesis using loop_passes [OF assms, of fl msgs w] by (simp add: retryGenerate_def)
  qed
qed

end

text \<open>Both policies of the code are bounded by their configured number of attempts.\<close>

abbreviation stackLog :: "('w \<times> call_record list) \<times> string list \<Rightarrow> call_record list" where
  "stackLog \<equiv> snd \<circ> fst"

abbreviation stackHost :: "'w call_host \<Rightarrow> (('w \<times> call_record list) \<times> string list) call_host" where
  "stackHost h \<equiv> pairedHost (observedHost h)"

definition attemptsOf :: "retry_config \<Rightarrow> nat" where
  "attemptsOf cfg = nat (rcMaxAttempts (completeRetryConfig cfg))"

lemma stackHost_log [simp]:
  "stackLog (snd (ckErr (stackHost h) w)) = stackLog w" "stackLog (snd (ckWait (stackHost h) d w)) = stackLog w"
  "stackLog (snd (ckRandom (stackHost h) w)) = stackLog w"
  by (simp_all add: pairedHost_def observedHost_def)

lemma nextBackoff_log [simp]: "stackLog (snd (nextBackoff (stackHost h) cfg a w)) = stackLog w"
  using stackHost_log(3) [of h w] by (simp add: nextBackoff_def)

lemma productionBackoff_log [simp]: "stackLog (snd (productionBackoff (stackHost h) cfg a w)) = stackLog w"
  using nextBackoff_log [of h cfg a w] by (simp add: productionBackoff_def)

interpretation default_policy: bounded_policy "stackHost h" "newDefaultRetryPolicy (stackHost h) cfg" "attemptsOf cfg" stackLog
  for h :: "'w call_host" and cfg
proof unfold_locales
  fix e a and w :: "('w \<times> call_record list) \<times> string list"
  assume "fst (rpShouldRetry (newDefaultRetryPolicy (stackHost h) cfg) (Some e) (int a) w)"
  then show "Suc a < attemptsOf cfg"
    using shouldRetry_yes [of "stackHost h" "completeRetryConfig cfg" e "int a" w]
    by (auto simp: newDefaultRetryPolicy_def attemptsOf_def)
next
  fix err b and w :: "('w \<times> call_record list) \<times> string list"
  have "snd (shouldRetry (stackHost h) (completeRetryConfig cfg) err b w) = snd (ckErr (stackHost h) w)"
    by (simp add: shouldRetry_def case_prod_unfold)
  with stackHost_log(1) [of h w]
  show "stackLog (snd (rpShouldRetry (newDefaultRetryPolicy (stackHost h) cfg) err b w)) = stackLog w"
    by (simp add: newDefaultRetryPolicy_def)
next
  fix b and w :: "('w \<times> call_record list) \<times> string list"
  show "stackLog (snd (rpNextBackoff (newDefaultRetryPolicy (stackHost h) cfg) b w)) = stackLog w"
    using nextBackoff_log [of h _ b w] by (simp add: newDefaultRetryPolicy_def)
qed (rule stackHost_log)+

lemma productionShouldRetry_granted: 
  "fst (productionShouldRetry h cfg (Some e) a w) \<Longrightarrow> a < rcMaxAttempts cfg - 1"
  by (auto simp: productionShouldRetry_def split: prod.splits if_splits)

interpretation production: bounded_policy "stackHost h" "productionRetryPolicy (stackHost h) cfg" "attemptsOf cfg" stackLog
  for h :: "'w call_host" and cfg
proof unfold_locales
  fix e a and w :: "('w \<times> call_record list) \<times> string list"
  assume "fst (rpShouldRetry (productionRetryPolicy (stackHost h) cfg) (Some e) (int a) w)"
  then show "Suc a < attemptsOf cfg"
    using productionShouldRetry_granted [of "stackHost h" "completeRetryConfig cfg" e "int a" w]
    by (auto simp: productionRetryPolicy_def attemptsOf_def)
next
  fix err b and w :: "('w \<times> call_record list) \<times> string list"
  obtain c w1 where c: "ckErr (stackHost h) w = (c, w1)" by (rule prod.exhaust)
  with stackHost_log(1) [of h w] have "stackLog w1 = stackLog w" by simp
  with productionBackoff_log [of h "completeRetryConfig cfg" b w1] c
  show "stackLog (snd (rpShouldRetry (productionRetryPolicy (stackHost h) cfg) err b w)) = stackLog w"
    by (simp add: productionRetryPolicy_def productionShouldRetry_def)
next
  fix b and w :: "('w \<times> call_record list) \<times> string list"
  show "stackLog (snd (rpNextBackoff (productionRetryPolicy (stackHost h) cfg) b w)) = stackLog w"
    using productionBackoff_log [of h _ b w] by (simp add: productionRetryPolicy_def)
qed (rule stackHost_log)+

section \<open>Failover without fallbacks\<close>

lemma passes_failover:
  assumes "passes log k (stackPass g) primary"
  shows "passes log k (stackPass g) (failoverGenerate [] (candidates, primary))"
proof (rule passesI)
  fix fl msgs w
  let ?F = "failoverGenerate [] (candidates, primary) fl msgs w"
  obtain x w' cs where p: "primary fl msgs w = Some (x, w')" "log w' = log w @ cs" "length cs \<le> k" "stackPass g msgs x cs"
    using assms by (rule passesD)
  have "failoverLoop fl msgs [(candidates, primary)] None w = primary fl msgs w"
    using p(1) by (cases x) auto
  then have "?F = primary fl msgs w \<or> (\<exists>s. ?F = Some (plainError s, w))"
    by (cases "cfProposal fl"; cases "failoverModelIndex [(candidates, primary)] (the (cfProposal fl))")
      (auto simp: failoverGenerate_def failoverWithOperation_def elim!: failoverModelIndex.elims split: if_splits)
  then show "\<exists>x w' cs. ?F = Some (x, w') \<and> log w' = log w @ cs \<and> length cs \<le> k \<and> stackPass g msgs x cs"
  proof
    assume "\<exists>s. ?F = Some (plainError s, w)"
    then show ?thesis using stackPass_failed [of "[]" msgs g] by auto
  qed (use p in auto)
qed

lemma assembled_passes:
  assumes "returns provider" "\<And>n. ckTrimFraction h n \<le> int n"
  shows "passes stackLog 18 (stackPass sanitizeResponse)
    (assembledGenerate (observedHost h) (pairedDeadlines dl) dh budget candidates (observed provider))"
proof -
  let ?T = "timeoutGenerate (stackHost h) (pairedDeadlines (pairedDeadlines dl)) budget (sanitizeGenerate
    (detectGenerate dh newLoopDetector (validateGenerate
      (overflowGenerate (observedHost h) overflowMaxRetries (observed provider)))))"
  have t: "passes stackLog 6 (stackPass sanitizeResponse) ?T"
    by (intro passes_timeout passes_sanitize passes_detect passes_validate passes_overflow assms)
      (simp_all add: pairedDeadlines_def pairedHost_def observedHost_def)
  have "attemptsOf assembledRetryConfig = 3"
    by (simp add: attemptsOf_def assembledRetryConfig_def completeRetryConfig_def)
  with production.passes_retry [OF t, of assembledRetryConfig]
  have "passes stackLog 18 (stackPass sanitizeResponse)
      (retryGenerate (stackHost h) (productionRetryPolicy (stackHost h) assembledRetryConfig) ?T)" by simp
  from passes_failover [OF this] show ?thesis unfolding assembledGenerate_def .
qed

end
