(* ===== verification/ModelProperties.thy ===== *)
theory ModelProperties
  imports ProviderStackFacts
begin

text \<open>
  What the model middlewares guarantee: sanitized text, bounded retries and recoveries, exact
  delays, and exact loop detection.
\<close>

section \<open>Sanitizing\<close>

text \<open>
  C15. However a response is cut into chunks, the sanitizer shows exactly the text outside the
  thinking blocks, with at most two line breaks in a row, one output chunk per input chunk; and
  it never keeps more than thirteen bytes between chunks.
\<close>

theorem sanitizer_exact:
  "concat (snd (sanitizeChunks newSanitizer chunks)) = capNewlines 0 (visibleText (concat chunks))
    \<and> length (snd (sanitizeChunks newSanitizer chunks)) = length chunks
    \<and> sanitizeContent (concat chunks) = capNewlines 0 (visibleText (concat chunks))
    \<and> length (csPending (fst (sanitizeChunks newSanitizer chunks)))
        + length (csClosing (fst (sanitizeChunks newSanitizer chunks))) \<le> 13"
proof -
  obtain s outs where s: "sanitizeChunks newSanitizer chunks = (s, outs)" by fastforce
  note c = chunks_shown [OF sanitizerOK_new s]
  from c have "capNewlines 0 (visibleText (concat chunks)) = concat outs"
    using nothing_left [of s] by (metis append.right_neutral new_shown)
  moreover have "sanitizeContent content = capNewlines 0 (visibleText content)" for content
  proof -
    obtain t out where t: "foldl sanitizeByte (newSanitizer, []) content = (t, out)" by fastforce
    from bytes_shown [OF sanitizerOK_new t] have "capNewlines 0 (visibleText content) = out"
      using nothing_left [of t] by (metis append.right_neutral append_Nil new_shown)
    with t show ?thesis by (simp add: sanitizeContent_def sanitizeChunk_def)
  qed
  ultimately show ?thesis using c s sanitizerOK_small by simp
qed

section \<open>Delays\<close>

text \<open>
  C17. The backoff before a retry is \<open>min(BaseDelay * 2^attempt + jitter, MaxDelay)\<close> as documented,
  with the jitter below its configured bound, provided a positive cap of at most \<open>2^62\<close>
  nanoseconds is set, or without a cap as long as the delay itself fits in 63 bits.
\<close>

theorem backoff_exact:
  assumes "0 < sint (rcBaseDelay cfg)" "sint (rcJitter cfg) \<le> 2 ^ 62"
    and "0 < sint (rcMaxDelay cfg) \<and> sint (rcMaxDelay cfg) \<le> 2 ^ 62 \<and> sint (rcBaseDelay cfg) < 2 ^ 62
      \<or> sint (rcMaxDelay cfg) \<le> 0 \<and> sint (rcBaseDelay cfg) * 2 ^ nat attempt + max 0 (sint (rcJitter cfg)) < 2 ^ 63"
  shows "sint (backoffOf cfg attempt bytes) =
      (let d = sint (rcBaseDelay cfg) * 2 ^ nat attempt + jitterOf cfg bytes
       in if 0 < sint (rcMaxDelay cfg) then min d (sint (rcMaxDelay cfg)) else d)
    \<and> 0 \<le> jitterOf cfg bytes \<and> jitterOf cfg bytes \<le> max 0 (sint (rcJitter cfg) - 1)"
proof -
  have "0 \<le> jitterOf cfg bytes \<and> jitterOf cfg bytes \<le> max 0 (sint (rcJitter cfg) - 1)"
  proof (cases "sint (rcJitter cfg) > 0")
    case True
    with jitter_drawn(2,3) [OF True, of bytes] show ?thesis by simp
  next
    case False
    then show ?thesis by (simp add: jitterOf_def split: option.splits)
  qed
  with backoffOf_exact [OF assms] show ?thesis by blast
qed

definition sampleRetryConfig :: retry_config where
  "sampleRetryConfig = \<lparr> rcMaxAttempts = 3, rcBaseDelay = milliseconds 100, rcMaxDelay = milliseconds 250, rcJitter = milliseconds 50 \<rparr>"

theorem backoff_exact_witness:
  "sint (backoffOf sampleRetryConfig 1 (Some 7)) = 200000007 \<and> sint (backoffOf sampleRetryConfig 2 (Some 7)) = 250000000"
proof -
  have c: "sint (rcBaseDelay sampleRetryConfig) = 100000000" "sint (rcMaxDelay sampleRetryConfig) = 250000000"
    "sint (rcJitter sampleRetryConfig) = 50000000"
    by (simp_all add: sampleRetryConfig_def milliseconds_def)
  have j: "jitterOf sampleRetryConfig (Some 7) = 7" by (simp add: jitterOf_def c)
  show ?thesis
    using backoff_exact [of sampleRetryConfig 1 "Some 7"] backoff_exact [of sampleRetryConfig 2 "Some 7"] by (simp add: c j)
qed

section \<open>Retry\<close>

text \<open>
  C14. A retried call returns when the inner model does, after at most \<open>MaxAttempts\<close> calls on the
  same messages. Every call but the last failed with a retryable error that is no cancellation,
  and the result is that of the last call, or the context's error.
\<close>

theorem retry_bounded:
  assumes "returns inner" "\<not> cfOperationActive fl"
  shows "\<exists>r w' calls. retryGenerate (observedHost h) (newDefaultRetryPolicy (observedHost h) cfg) (observed inner) fl msgs (w, [])
        = Some (r, w', calls)
    \<and> int (length calls) \<le> (if rcMaxAttempts cfg \<le> 0 then 3 else rcMaxAttempts cfg)
    \<and> (\<forall>c \<in> set calls. fst c = msgs) \<and> (\<forall>c \<in> set (butlast calls). retriedFailure (snd c))
    \<and> (calls \<noteq> [] \<and> r = snd (last calls)
        \<or> (\<exists>e. r = Failed e \<and> contextError h e \<and> (\<forall>c \<in> set calls. retriedFailure (snd c))))"
proof -
  have m: "rcMaxAttempts (completeRetryConfig cfg) = (if rcMaxAttempts cfg \<le> 0 then 3 else rcMaxAttempts cfg)"
    by (simp add: completeRetryConfig_def)
  then have "0 < rcMaxAttempts (completeRetryConfig cfg)" by simp
  from retryLoop_bounded [OF assms(1) this, of h fl msgs w "[]"] assms(2) show ?thesis
    by (simp add: retryGenerate_def newDefaultRetryPolicy_def m)
qed

definition sampleHost :: "'w call_host" where
  "sampleHost = \<lparr> ckErr = Pair None, ckWait = (\<lambda>_ w. (None, w)), ckRandom = Pair None,
     ckEncodedLength = (\<lambda>m. Some (length (cmContent m))), ckTrimFraction = (\<lambda>n. int (n div 3)) \<rparr>"

definition sampleFlags :: call_flags where
  "sampleFlags = \<lparr> cfOperationActive = False, cfNoReplay = False, cfLoopOwnsContinuation = False, cfProposal = None \<rparr>"

definition busyModel :: "nat chat_model" where
  "busyModel fl msgs w = Some (Failed (Leaf (PlainText ''429 too many requests'')), Suc w)"

theorem retry_bounded_witness:
  "\<exists>r w' calls. retryGenerate (observedHost sampleHost) (newDefaultRetryPolicy (observedHost sampleHost) sampleRetryConfig)
     (observed busyModel) sampleFlags [] (0, []) = Some (r, w', calls) \<and> length calls \<le> 3"
proof -
  have "returns busyModel" "\<not> cfOperationActive sampleFlags" by (simp_all add: returns_def busyModel_def sampleFlags_def)
  from retry_bounded [OF this, of sampleHost sampleRetryConfig "[]" 0] show ?thesis by (auto simp: sampleRetryConfig_def)
qed

section \<open>Overflow recovery\<close>

text \<open>
  A call with overflow recovery returns when the inner model does, after at most one call per
  allowed retry and one more, and three continuations. Every call sends a part of the given
  messages, in order and with the leading system message, or such a part followed by the
  partial answer to continue; and it panics only if the inner model does.
\<close>

theorem overflow_recovery_bounded:
  assumes "returns inner" "\<And>n. ckTrimFraction h n \<le> int n" "0 \<le> maxRetries"
  shows "\<exists>r w' calls. overflowGenerate (observedHost h) maxRetries (observed inner) fl msgs (w, []) = Some (r, w', calls)
    \<and> int (length calls) \<le> maxRetries + 1 + 3
    \<and> (\<forall>c \<in> set calls. recoveryCall msgs c) \<and> panicFrom r calls"
proof -
  have "recoveredFrom msgs msgs" by (simp add: recoveredFrom_def)
  from overflowLoop_bounded [OF assms this, of fl w "[]"] show ?thesis
    unfolding overflowGenerate_def maxContinuations_def append_Nil by fastforce
qed

theorem overflow_recovery_bounded_witness:
  "\<exists>r w' calls. overflowGenerate (observedHost sampleHost) 2 (observed busyModel) sampleFlags [] (0, []) = Some (r, w', calls)
     \<and> length calls \<le> 6"
proof -
  have "returns busyModel" "\<And>n. ckTrimFraction sampleHost n \<le> int n"
    by (simp_all add: returns_def busyModel_def sampleHost_def)
  from overflow_recovery_bounded [OF this, of 2 sampleFlags "[]" 0] show ?thesis by auto
qed

section \<open>Loops\<close>

text \<open>
  C16. A response whose fingerprint can be taken, within the byte limits and with arguments that
  encode, is reported exactly when it repeats the last \<open>threshold - 1\<close> such responses in text, tool
  names and arguments, whatever the call IDs are, and passes unchanged otherwise; any other response
  is refused and leaves the window as it is. The threshold fits in the window, and SHA-256 gives
  different digests to what is hashed of this response and of any earlier one that differs.
\<close>

theorem loop_detected_exact:
  assumes "ldThreshold d = int t" "1 \<le> t" "int t \<le> ldWindowSize d"
    and "\<forall>x \<in> set ms. noCollision h x m"
  shows "let r = noteResponse h d (windowAfter h d ms) m; seen = filter (fingerprinted h) ms in
    if \<not> fingerprinted h m then (\<exists>e. r = (plainError e, windowAfter h d ms))
    else if t \<le> Suc (length seen) \<and> (\<forall>x \<in> set (lastOf (t - 1) seen). sameAnswer h x m) then (\<exists>e. fst r = plainError e)
    else fst r = Answered (Some m)"
proof (cases "fingerprinted h m")
  case True
  let ?w = "nat (ldWindowSize d)" and ?ms = "filter (fingerprinted h) ms"
  let ?fs = "map (printOf h) ?ms"
  have w: "0 < ldWindowSize d" "t \<le> ?w" using assms(2,3) by auto
  have agree: "printOf h x = printOf h m \<longleftrightarrow> sameAnswer h x m" if "x \<in> set ?ms" for x
    using fingerprints_agree [of h x m] assms(4) that True by (auto simp: fingerprinted_def printOf_def)
  have "1 + runFrom (printOf h m) (take (?w - 1) (rev ?fs)) \<ge> ldThreshold d
      \<longleftrightarrow> t \<le> Suc (length ?ms) \<and> (\<forall>x \<in> set (lastOf (t - 1) ?ms). sameAnswer h x m)"
    using loop_detected [OF w(1) assms(2,1) w(2), of "printOf h m" ?fs] agree lastOf_subset [of "t - 1" ?ms]
    by (auto simp: lastOf_map)
  then show ?thesis
    using noteResponse_outcome [OF w(1) True windowAfter_last [OF w(1)], of h ms] True by (auto simp: Let_def)
qed (use noteResponse_refused [of h m d "windowAfter h d ms"] in \<open>simp add: Let_def\<close>)

definition sampleDetectHost :: detect_host where
  "sampleDetectHost = \<lparr> dhSha256 = (\<lambda>b. take 32 (b @ replicate 32 CHR 0x00)), dhMarshal = (\<lambda>_. Some []) \<rparr>"

definition sampleAnswer :: "string \<Rightarrow> string \<Rightarrow> chat_message" where
  "sampleAnswer i s = \<lparr> cmRole = ''assistant'', cmContent = s, cmContentBlocks = [],
     cmToolCalls = [\<lparr> tcID = i, tcName = ''ls'', tcArgs = AnyNil \<rparr>], cmToolCallID = [], cmName = [], cmUsage = None,
     cmFinishReason = ''stop'' \<rparr>"

theorem loop_detected_exact_witness:
  "(\<exists>e. fst (noteResponse sampleDetectHost newLoopDetector
     (windowAfter sampleDetectHost newLoopDetector [sampleAnswer ''0'' ''go'', sampleAnswer ''1'' ''hi'', sampleAnswer ''2'' ''hi''])
     (sampleAnswer ''3'' ''hi'')) = plainError e)"
proof -
  let ?p = "\<lambda>s. concat (map hashedField [s, putUint64 1, ''ls'', []])"
  have i: "fingerprintInput sampleDetectHost s (cmToolCalls (sampleAnswer i u)) = Inr (?p s)" if "length s = 2" for i s u
    using that by (simp add: fingerprintInput_def sampleAnswer_def sampleDetectHost_def bindR_def
        writeField_def writeCall_def addBoundedStreamBytes_def guardedStreamMaxToolCalls_def guardedStreamMaxBytes_def)
  then have f: "fingerprinted sampleDetectHost (sampleAnswer i s)" if "length s = 2" for i s
    using that i [of s] by (simp add: fingerprinted_def responseFingerprint_def) (simp add: sampleAnswer_def)
  have n: "noCollision sampleDetectHost (sampleAnswer i s) (sampleAnswer ''3'' ''hi'')" if "length s = 2" for i s
    using that i [of s i s] i [of "''hi''" "''3''" "''hi''"]
    by (auto simp: noCollision_def sampleAnswer_def sampleDetectHost_def hashedField_def)
  have "sameAnswer sampleDetectHost (sampleAnswer i ''hi'') (sampleAnswer ''3'' ''hi'')" for i
    by (simp add: sameAnswer_def sampleAnswer_def sampleDetectHost_def)
  with loop_detected_exact [of newLoopDetector 3 "[sampleAnswer ''0'' ''go'', sampleAnswer ''1'' ''hi'', sampleAnswer ''2'' ''hi'']"
      sampleDetectHost "sampleAnswer ''3'' ''hi''"] f n
  show ?thesis by (simp add: newLoopDetector_def lastOf_def Let_def)
qed

section \<open>The assembled stack\<close>

text \<open>
  C18. A complete call of the stack the program assembles, failover over production retry, timeout,
  sanitizing, loop detection, validation and overflow recovery, returns whenever the provider
  below it returns, after at most 18 provider calls: three attempts of three calls and three
  continuations. Every call sends a part of the given messages with the leading system message,
  or such a part and the partial answer to continue. The stack panics only if the provider does,
  and never answers nil. An answer is that of the last provider calls: the sanitized
  concatenation of their texts with the tool calls and the finish reason of the last, not empty
  before it was sanitized. The float product that says how much to trim is at most its integer
  factor, as it is for the ratio 0.3 of the code.
\<close>

theorem model_stack_bounded:
  assumes "returns provider" "\<And>n. ckTrimFraction h n \<le> int n"
  shows "\<exists>r w' recent calls.
      assembledGenerate (observedHost h) (pairedDeadlines dl) dh budget candidates (observed provider) fl msgs ((w, []), window)
        = Some (r, ((w', calls), recent))
    \<and> length calls \<le> 18 \<and> (\<forall>c \<in> set calls. recoveryCall msgs c)
    \<and> (r = Panicked \<longrightarrow> (\<exists>c \<in> set calls. snd c = Panicked)) \<and> r \<noteq> Answered None
    \<and> (\<forall>m. r = Answered (Some m) \<longrightarrow> shownFrom sanitizeResponse m calls)"
proof -
  obtain x w' cs where "assembledGenerate (observedHost h) (pairedDeadlines dl) dh budget candidates (observed provider) fl msgs
      ((w, []), window) = Some (x, w')" "stackLog w' = stackLog ((w, []), window) @ cs" "length cs \<le> 18"
    "stackPass sanitizeResponse msgs x cs"
    using assembled_passes [OF assms] by (rule passesD)
  then show ?thesis unfolding stackPass_def panicFrom_def by (cases w'; cases "fst w'") simp
qed

definition sampleDeadlines :: "nat deadline_host" where
  "sampleDeadlines = \<lparr> dlStart = (\<lambda>_ w. w), dlCancel = (\<lambda>w. w), dlText = (\<lambda>_. ''30s'') \<rparr>"

theorem model_stack_bounded_witness:
  "\<exists>r w' recent calls. assembledGenerate (observedHost sampleHost) (pairedDeadlines sampleDeadlines) sampleDetectHost
      (milliseconds 30000) [] (observed busyModel) sampleFlags [] ((0, []), []) = Some (r, ((w', calls), recent)) \<and> length calls \<le> 18"
proof -
  have "returns busyModel" "\<And>n. ckTrimFraction sampleHost n \<le> int n"
    by (simp_all add: returns_def busyModel_def sampleHost_def)
  from model_stack_bounded [OF this, of sampleDeadlines sampleDetectHost "milliseconds 30000" "[]" sampleFlags "[]" 0 "[]"]
  show ?thesis by blast
qed

text \<open>
  An answer that holds only a thinking block passes validation, which lies below sanitizing, and
  reaches the caller without content.
\<close>

definition thinkingModel :: "nat chat_model" where
  "thinkingModel fl msgs w = Some (Answered (Some \<lparr> cmRole = ''assistant'', cmContent = ''<antThinking>x</antThinking>'',
     cmContentBlocks = [], cmToolCalls = [], cmToolCallID = [], cmName = [], cmUsage = None, cmFinishReason = ''stop'' \<rparr>), w)"

lemma thinking_only_answer_empty:
  "\<exists>m v. sanitizeGenerate (validateGenerate thinkingModel) sampleFlags [] w = Some (Answered (Some m), v)
     \<and> cmContent m = [] \<and> cmToolCalls m = []"
proof -
  have "sanitizeResponse ''<antThinking>x</antThinking>'' = []" by code_simp
  then show ?thesis by (simp add: sanitizeGenerate_def validateGenerate_def thinkingModel_def)
qed

section \<open>At the edges\<close>

text \<open>
  Without a cap the doubled delay is a 64-bit integer that wraps: at attempt 37 a base of 100
  milliseconds has become negative.
\<close>

lemma uncapped_backoff_wraps:
  "sint (backoffOf \<lparr> rcMaxAttempts = 100, rcBaseDelay = milliseconds 100, rcMaxDelay = 0, rcJitter = 0 \<rparr> 37 None) < 0"
  by code_simp

text \<open>A threshold above the size of the window is never reached, however often a response repeats.\<close>

lemma runFrom_le: "runFrom fp xs \<le> int (length xs)"
  by (induction xs) auto

lemma threshold_above_window_silent:
  assumes "0 < ldWindowSize d" "ldWindowSize d < ldThreshold d"
  shows "\<exists>r. checkLoop d recent fp = Some (None, r)"
proof -
  have "\<exists>r. trimRecent (ldWindowSize d) (recent @ [fp]) = Some r \<and> r \<noteq> [] \<and> int (length r) \<le> ldWindowSize d"
    using assms(1) by (cases "int (length (recent @ [fp])) > ldWindowSize d") (auto simp: trimRecent_def Let_def)
  then obtain r where r: "trimRecent (ldWindowSize d) (recent @ [fp]) = Some r" "r \<noteq> []" "int (length r) \<le> ldWindowSize d"
    by blast
  have "1 + runFrom fp (rev (butlast r)) \<le> int (length r)"
    using runFrom_le [of fp "rev (butlast r)"] r(2) by (cases r) auto
  then show ?thesis using r(1,3) assms(2) by (simp add: checkLoop_def)
qed

text \<open>
  Removing a block can join the text around it to an opening marker, which stays in the output:
  sanitizing is not idempotent.
\<close>

lemma sanitized_text_may_hold_marker:
  "sanitizeContent ''<ant<antThinking>x</antThinking>Thinking>y'' = ''<antThinking>y''"
  by code_simp

end
