(* ===== verification/DispatchFence.thy ===== *)
theory DispatchFence
  imports AdmissionProofs
begin

text \<open>
  The generation fence of \<open>internal/tools/prepared.go\<close> and the inherited Plan restrictions of
  \<open>dispatch_plan_restriction.go\<close>. A fence counts publications per domain in 64-bit words, which
  wrap; a prepared decision captures the whole tuple and is dispatched only while the tuple is
  the same. Every operation runs under the locks of the fence and its ancestors, so it is one step.
\<close>

section \<open>Errors of prepared dispatch\<close>

text \<open>
  The sentinels of the tools and approval packages. \<open>fmt.Errorf\<close> with \<open>%w\<close> keeps the sentinel it
  wraps, \<open>errors.Join\<close> of two errors is \<open>ToolJoined\<close>, any other error is a \<open>ToolFault\<close>.
\<close>

datatype tool_error =
    ToolFault string
  | ToolContext
  | ToolJoined "tool_error list"
  | ErrDispatchFenceChanged
  | ErrDispatchFenceUnavailable
  | ErrInvalidDispatchFenceDomain
  | ErrPreparedInvocationConsumed
  | ErrPreparedDispatchLeaseUnavailable
  | ErrPreparedToolPolicyUnavailable
  | ErrPreparedToolPolicyDenied
  | ErrPreparedCallMutation
  | ErrPreparedProxyRegistrationStale
  | ErrPreparedOpaqueWrapperUnsupported
  | ErrPreparedRegistrationUnavailable
  | ErrPreparedMutationQueueUnavailable
  | ErrPreparedNormalizerUnsupported
  | ErrPreparedSchemaInvalid
  | ErrPreparedValueNotJSON
  | ErrToolNotFound
  | ErrToolDenied
  | ErrInvalidPermissionMode
  | ErrPreparedPolicyUnavailable
  | ErrPreparedIdentityInvalid
  | ApprovalDenial string string

section \<open>Generations\<close>

datatype fence_domain =
    DispatchFenceRegistry | DispatchFenceApproval | DispatchFencePlan | DispatchFenceDecision
  | OtherFenceDomain "8 word"

text \<open>A fence with the generations of its ancestors, the nearest first.\<close>

record dispatch_fence =
  fenceOwn :: fence_snapshot
  fenceAncestors :: "fence_snapshot list"

definition newGenerations :: fence_snapshot where
  "newGenerations = \<lparr> fnRegistry = 0, fnApproval = 0, fnPlan = 0, fnPlanRestriction = 0, fnDecision = 0 \<rparr>"

definition newDispatchFence :: dispatch_fence where
  "newDispatchFence = \<lparr> fenceOwn = newGenerations, fenceAncestors = [] \<rparr>"

fun parentPlan :: "fence_snapshot list \<Rightarrow> u64" where
  "parentPlan [] = 0"
| "parentPlan (p # ps) = fnPlan p + parentPlan ps"

definition fenceSnapshot :: "dispatch_fence \<Rightarrow> fence_snapshot" where
  "fenceSnapshot f = (fenceOwn f) \<lparr> fnPlanRestriction := parentPlan (fenceAncestors f) \<rparr>"

fun advanceGeneration :: "fence_domain \<Rightarrow> fence_snapshot \<Rightarrow> fence_snapshot" where
  "advanceGeneration DispatchFenceRegistry g = g \<lparr> fnRegistry := fnRegistry g + 1 \<rparr>"
| "advanceGeneration DispatchFenceApproval g = g \<lparr> fnApproval := fnApproval g + 1 \<rparr>"
| "advanceGeneration DispatchFencePlan g = g \<lparr> fnPlan := fnPlan g + 1 \<rparr>"
| "advanceGeneration DispatchFenceDecision g = g \<lparr> fnDecision := fnDecision g + 1 \<rparr>"
| "advanceGeneration (OtherFenceDomain _) g = g"

text \<open>
  The update runs inside the publication, between the check and the new generation, so the
  result is the new fence for a caller that applies its update exactly when there is one.
\<close>

definition publishFence :: "fence_domain \<Rightarrow> fence_snapshot option \<Rightarrow> dispatch_fence \<Rightarrow> tool_error + dispatch_fence" where
  "publishFence d expected f =
     (case d of OtherFenceDomain _ \<Rightarrow> Inl ErrInvalidDispatchFenceDomain
      | _ \<Rightarrow>
        if (case expected of None \<Rightarrow> False | Some e \<Rightarrow> fenceSnapshot f \<noteq> e) then Inl ErrDispatchFenceChanged
        else Inr (f \<lparr> fenceOwn := advanceGeneration d (fenceOwn f) \<rparr>))"

definition publishApprovalGrant :: "fence_snapshot \<Rightarrow> dispatch_fence \<Rightarrow> tool_error + fence_snapshot" where
  "publishApprovalGrant expected f =
     (if fenceSnapshot f \<noteq> expected then Inl ErrDispatchFenceChanged else Inr (fenceSnapshot f))"

definition commitFence :: "fence_snapshot \<Rightarrow> dispatch_fence \<Rightarrow> tool_error + unit" where
  "commitFence expected f = (if fenceSnapshot f \<noteq> expected then Inl ErrDispatchFenceChanged else Inr ())"

text \<open>A publication of the \<open>i\<close>-th ancestor's own Plan Mode.\<close>

definition ancestorPlanPublished :: "nat \<Rightarrow> dispatch_fence \<Rightarrow> dispatch_fence" where
  "ancestorPlanPublished i f =
     (if i < length (fenceAncestors f)
      then f \<lparr> fenceAncestors := (fenceAncestors f)[i := advanceGeneration DispatchFencePlan (fenceAncestors f ! i)] \<rparr>
      else f)"

section \<open>Inherited Plan restrictions\<close>

text \<open>
  Fences are numbered; \<open>r f = Some p\<close> is the stored parent of \<open>f\<close>. The walk over the ancestors
  follows pointers, so on a cyclic table it would not return.
\<close>

type_synonym plan_restrictions = "nat \<Rightarrow> nat option"

partial_function (option) reachesFence :: "plan_restrictions \<Rightarrow> nat \<Rightarrow> nat option \<Rightarrow> bool option" where
  "reachesFence r f ancestor =
     (case ancestor of None \<Rightarrow> Some False
      | Some a \<Rightarrow> if a = f then Some True else reachesFence r f (r a))"

definition restrictPlanBy ::
  "plan_restrictions \<Rightarrow> nat option \<Rightarrow> nat option \<Rightarrow> (tool_error + plan_restrictions) option" where
  "restrictPlanBy r fence parent = (case (fence, parent) of
      (Some f, Some p) \<Rightarrow>
        (case r f of
           Some previous \<Rightarrow>
             Some (if previous = p then Inr r else Inl (ToolFault ''parent Plan restriction is immutable''))
         | None \<Rightarrow>
             (case reachesFence r f (Some p) of
                None \<Rightarrow> None
              | Some True \<Rightarrow> Some (Inl (ToolFault ''cyclic parent Plan restriction''))
              | Some False \<Rightarrow> Some (Inr (r (f := Some p)))))
    | _ \<Rightarrow> Some (Inl ErrDispatchFenceUnavailable))"

text \<open>The nested read locks of a snapshot: all ancestors of a fence, the nearest first.\<close>

partial_function (option) planAncestors :: "plan_restrictions \<Rightarrow> nat \<Rightarrow> nat list option" where
  "planAncestors r f =
     (case r f of None \<Rightarrow> Some []
      | Some p \<Rightarrow> Option.bind (planAncestors r p) (\<lambda>ps. Some (p # ps)))"

definition readFence :: "plan_restrictions \<Rightarrow> (nat \<Rightarrow> fence_snapshot) \<Rightarrow> nat \<Rightarrow> dispatch_fence option" where
  "readFence r gens f =
     (case planAncestors r f of None \<Rightarrow> None
      | Some ps \<Rightarrow> Some \<lparr> fenceOwn = gens f, fenceAncestors = map gens ps \<rparr>)"

text \<open>Tables that a sequence of calls can build from the empty one.\<close>

fun restrictAll :: "plan_restrictions \<Rightarrow> (nat \<times> nat) list \<Rightarrow> plan_restrictions option" where
  "restrictAll r [] = Some r"
| "restrictAll r ((f, p) # calls) =
     (case restrictPlanBy r (Some f) (Some p) of
        None \<Rightarrow> None
      | Some (Inl _) \<Rightarrow> restrictAll r calls
      | Some (Inr r') \<Rightarrow> restrictAll r' calls)"

section \<open>Facts about fences\<close>

lemma publishFence_Inr:
  "publishFence d expected f = Inr f' \<Longrightarrow>
     f' = f \<lparr> fenceOwn := advanceGeneration d (fenceOwn f) \<rparr> \<and>
     (\<forall>e. expected = Some e \<longrightarrow> fenceSnapshot f = e) \<and> (\<forall>w. d \<noteq> OtherFenceDomain w)"
  by (cases d) (auto simp: publishFence_def split: option.splits if_splits)

lemma publishApprovalGrant_Inr:
  "publishApprovalGrant e f = Inr g \<longleftrightarrow> fenceSnapshot f = e \<and> g = e"
  by (auto simp: publishApprovalGrant_def)

lemma commitFence_Inr: "commitFence e f = Inr u \<longleftrightarrow> fenceSnapshot f = e"
  by (auto simp: commitFence_def)

lemma parentPlan_update:
  "i < length ps \<Longrightarrow> parentPlan (ps[i := advanceGeneration DispatchFencePlan (ps ! i)]) = parentPlan ps + 1"
proof (induction ps arbitrary: i)
  case (Cons p ps)
  then show ?case by (cases i) simp_all
qed simp

section \<open>Termination of the walk\<close>

definition parentOf :: "plan_restrictions \<Rightarrow> (nat \<times> nat) set" where
  "parentOf r = {(f, p). r f = Some p}"

definition wellRestricted :: "plan_restrictions \<Rightarrow> bool" where
  "wellRestricted r \<longleftrightarrow> finite (dom r) \<and> acyclic (parentOf r)"

lemma finite_parentOf: "finite (dom r) \<Longrightarrow> finite (parentOf r)"
proof -
  assume "finite (dom r)"
  moreover have "parentOf r \<subseteq> (\<lambda>f. (f, the (r f))) ` dom r"
    by (force simp: parentOf_def)
  ultimately show ?thesis by (meson finite_imageI finite_subset)
qed

lemma wellRestricted_wf: "wellRestricted r \<Longrightarrow> wf ((parentOf r)\<inverse>)"
  by (simp add: wellRestricted_def finite_acyclic_wf_converse finite_parentOf)

lemma reachesFence_exact:
  assumes "wellRestricted r"
  shows "reachesFence r f (Some a) = Some ((a, f) \<in> (parentOf r)\<^sup>*)"
  using wellRestricted_wf [OF assms]
proof (induction a rule: wf_induct_rule)
  case (less a)
  show ?case
  proof (cases "a = f")
    case True
    then show ?thesis by (simp add: reachesFence.simps)
  next
    case False
    show ?thesis
    proof (cases "r a")
      case None
      then have "(a, f) \<notin> (parentOf r)\<^sup>*"
        using False by (auto simp: parentOf_def elim: converse_rtranclE)
      with False None show ?thesis by (simp add: reachesFence.simps)
    next
      case (Some p)
      then have edge: "(a, p) \<in> parentOf r" by (simp add: parentOf_def)
      have "(a, f) \<in> (parentOf r)\<^sup>* \<longleftrightarrow> (p, f) \<in> (parentOf r)\<^sup>*"
      proof
        assume "(a, f) \<in> (parentOf r)\<^sup>*"
        with False obtain q where "(a, q) \<in> parentOf r" "(q, f) \<in> (parentOf r)\<^sup>*"
          by (meson converse_rtranclE)
        with Some show "(p, f) \<in> (parentOf r)\<^sup>*" by (simp add: parentOf_def)
      next
        assume "(p, f) \<in> (parentOf r)\<^sup>*"
        with edge show "(a, f) \<in> (parentOf r)\<^sup>*" by (rule converse_rtrancl_into_rtrancl)
      qed
      moreover have "reachesFence r f (Some p) = Some ((p, f) \<in> (parentOf r)\<^sup>*)"
        using less edge by simp
      ultimately show ?thesis
        using False Some by (subst reachesFence.simps) simp
    qed
  qed
qed

lemma planAncestors_returns:
  assumes "wellRestricted r"
  shows "\<exists>ps. planAncestors r f = Some ps \<and> set ps = {p. (f, p) \<in> (parentOf r)\<^sup>+}"
  using wellRestricted_wf [OF assms]
proof (induction f rule: wf_induct_rule)
  case (less f)
  show ?case
  proof (cases "r f")
    case None
    then have "{p. (f, p) \<in> (parentOf r)\<^sup>+} = {}"
      by (auto simp: parentOf_def dest: tranclD)
    with None show ?thesis by (simp add: planAncestors.simps)
  next
    case (Some p)
    then have edge: "(f, p) \<in> parentOf r" by (simp add: parentOf_def)
    with less obtain ps where ps: "planAncestors r p = Some ps" "set ps = {q. (p, q) \<in> (parentOf r)\<^sup>+}"
      by auto
    have "{q. (f, q) \<in> (parentOf r)\<^sup>+} = insert p {q. (p, q) \<in> (parentOf r)\<^sup>+}"
    proof -
      have "(f, q) \<in> (parentOf r)\<^sup>+ \<longleftrightarrow> q = p \<or> (p, q) \<in> (parentOf r)\<^sup>+" for q
      proof
        assume "(f, q) \<in> (parentOf r)\<^sup>+"
        then obtain z where "(f, z) \<in> parentOf r" "(z, q) \<in> (parentOf r)\<^sup>*" by (meson tranclD)
        with Some have "(p, q) \<in> (parentOf r)\<^sup>*" by (simp add: parentOf_def)
        then show "q = p \<or> (p, q) \<in> (parentOf r)\<^sup>+" by (auto simp: rtrancl_eq_or_trancl)
      next
        assume "q = p \<or> (p, q) \<in> (parentOf r)\<^sup>+"
        with edge show "(f, q) \<in> (parentOf r)\<^sup>+" by (auto intro: trancl_into_trancl2)
      qed
      then show ?thesis by auto
    qed
    with Some ps show ?thesis by (subst planAncestors.simps) simp
  qed
qed

lemma restrictPlanBy_keeps:
  assumes "wellRestricted r"
  shows "\<exists>res. restrictPlanBy r fence parent = Some res \<and> (\<forall>r'. res = Inr r' \<longrightarrow> wellRestricted r')"
proof (cases "\<exists>f p. fence = Some f \<and> parent = Some p \<and> r f = None \<and> (p, f) \<notin> (parentOf r)\<^sup>*")
  case True
  then obtain f p where fp: "fence = Some f" "parent = Some p" "r f = None" "(p, f) \<notin> (parentOf r)\<^sup>*"
    by auto
  have "parentOf (r (f \<mapsto> p)) = insert (f, p) (parentOf r)"
    using fp(3) by (auto simp: parentOf_def split: if_splits)
  then have "wellRestricted (r (f \<mapsto> p))"
    using assms fp(4) by (simp add: wellRestricted_def)
  with fp show ?thesis
    by (simp add: restrictPlanBy_def reachesFence_exact [OF assms])
next
  case False
  with assms show ?thesis
    by (auto simp: restrictPlanBy_def reachesFence_exact [OF assms] split: option.splits)
qed

lemma restrictAll_returns:
  "wellRestricted r \<Longrightarrow> \<exists>r'. restrictAll r calls = Some r' \<and> wellRestricted r'"
proof (induction calls arbitrary: r)
  case (Cons c calls)
  obtain f p where c: "c = (f, p)" by (cases c)
  from restrictPlanBy_keeps [OF Cons.prems, of "Some f" "Some p"]
  obtain res where res: "restrictPlanBy r (Some f) (Some p) = Some res" "\<And>r'. res = Inr r' \<Longrightarrow> wellRestricted r'"
    by auto
  show ?case
    using Cons.IH [OF Cons.prems] Cons.IH [OF res(2)] c res(1) by (cases res) auto
qed simp

lemma wellRestricted_empty: "wellRestricted Map.empty"
  by (simp add: wellRestricted_def parentOf_def acyclic_def)

text \<open>
  Whatever calls of \<open>RestrictPlanBy\<close> are made, each returns and every snapshot of every fence
  returns; the ancestors a snapshot counts are exactly the fences reachable over parents.
\<close>

lemma plan_restrictions_return:
  "\<exists>r. restrictAll Map.empty calls = Some r \<and>
       (\<forall>f gens. \<exists>ps. readFence r gens f = Some \<lparr> fenceOwn = gens f, fenceAncestors = map gens ps \<rparr> \<and>
          set ps = {p. (f, p) \<in> (parentOf r)\<^sup>+} \<and> f \<notin> set ps)"
proof -
  obtain r where r: "restrictAll Map.empty calls = Some r" "wellRestricted r"
    using restrictAll_returns [OF wellRestricted_empty] by blast
  have "\<exists>ps. readFence r gens f = Some \<lparr> fenceOwn = gens f, fenceAncestors = map gens ps \<rparr> \<and>
          set ps = {p. (f, p) \<in> (parentOf r)\<^sup>+} \<and> f \<notin> set ps" for f gens
  proof -
    obtain ps where "planAncestors r f = Some ps" "set ps = {p. (f, p) \<in> (parentOf r)\<^sup>+}"
      using planAncestors_returns [OF r(2)] by blast
    then show ?thesis
      using r(2) by (auto simp: readFence_def wellRestricted_def acyclic_def)
  qed
  with r(1) show ?thesis by blast
qed

end
