(* ===== verification/ToolRuntime.thy ===== *)
theory ToolRuntime
  imports DispatchFence
begin

text \<open>
  The state behind prepared tool dispatch: the tool registry (\<open>tools/trusted_registry.go\<close>), Plan
  Mode (\<open>core/plan_mode.go\<close>), the approval store and the always-allow cache
  (\<open>approval/store.go\<close>, \<open>callback.go\<close>) and the session cache and mode of the approval middleware
  (\<open>approval/middleware.go\<close>), with every operation that publishes on the shared fence.
\<close>

section \<open>Permission modes and classifications\<close>

datatype permission_mode =
  PermissionDefault | PermissionPlan | PermissionAuto | PermissionAutoFull | OtherMode int

definition validPermissionMode :: "permission_mode \<Rightarrow> bool" where
  "validPermissionMode m \<longleftrightarrow> m \<in> {PermissionDefault, PermissionPlan, PermissionAuto, PermissionAutoFull}"

fun permissionModeString :: "permission_mode \<Rightarrow> string" where
  "permissionModeString PermissionPlan = ''plan''"
| "permissionModeString PermissionAuto = ''auto''"
| "permissionModeString PermissionAutoFull = ''auto_full''"
| "permissionModeString PermissionDefault = ''default''"
| "permissionModeString (OtherMode _) = ''default''"

datatype classification = Allow | Deny | Ask | OtherClassification int

fun classificationString :: "classification \<Rightarrow> string" where
  "classificationString Deny = ''deny''"
| "classificationString Ask = ''ask''"
| "classificationString Allow = ''allow''"
| "classificationString (OtherClassification _) = ''allow''"

section \<open>Maps\<close>

text \<open>A Go map is an association list; setting a key replaces its entry.\<close>

definition mapSet :: "'k \<Rightarrow> 'v \<Rightarrow> ('k \<times> 'v) list \<Rightarrow> ('k \<times> 'v) list" where
  "mapSet k v m = (k, v) # filter (\<lambda>p. fst p \<noteq> k) m"

definition mapDelete :: "'k \<Rightarrow> ('k \<times> 'v) list \<Rightarrow> ('k \<times> 'v) list" where
  "mapDelete k m = filter (\<lambda>p. fst p \<noteq> k) m"

lemma map_of_filter_key: "map_of (filter (\<lambda>p. fst p \<noteq> k) m) = (map_of m) (k := None)"
  by (induction m) (auto simp: fun_eq_iff)

lemma map_of_mapSet [simp]: "map_of (mapSet k v m) = (map_of m) (k \<mapsto> v)"
  by (simp add: mapSet_def map_of_filter_key)

lemma map_of_mapDelete [simp]: "map_of (mapDelete k m) = (map_of m) (k := None)"
  by (simp add: mapDelete_def map_of_filter_key)

section \<open>The runtime\<close>

text \<open>
  What a registration captures. The executor is a number, its behaviour a parameter of dispatch;
  a trust binding of a project-sourced tool is the canonical root it was minted for.
\<close>

record tool_registration =
  trDefinition :: nat
  trIdentity :: trusted_identity
  trEffects :: "tool_effect list"
  trSchema :: "go_any option"
  trSchemaDigest :: string
  trStreaming :: bool
  trTrustRoot :: "string option"

record plan_mode =
  pmActive :: bool
  pmReason :: string

record approval_store =
  asDecisions :: "(string \<times> classification) list"
  asPolicyEpoch :: u64

record approval_cache =
  acEntries :: "(string \<times> bool) list"
  acEpoch :: u64

text \<open>
  \<open>rtRegistryFence\<close> is the address of the fence of the registry, whose state is \<open>rtFence\<close>;
  \<open>rtMiddlewareFence\<close> is the one the approval middleware was built with. The middleware binds
  its cache and store to its own fence when it is built.
\<close>

record tool_runtime =
  rtRegistryFence :: nat
  rtMiddlewareFence :: "nat option"
  rtFence :: dispatch_fence
  rtTools :: "(string \<times> tool_registration) list"
  rtReserved :: "string list"
  rtPlan :: plan_mode
  rtMode :: permission_mode
  rtPolicyEpoch :: u64
  rtSession :: "(string \<times> classification) list"
  rtCache :: "approval_cache option"
  rtStore :: "approval_store option"

definition runtimeSnapshot :: "tool_runtime \<Rightarrow> fence_snapshot" where
  "runtimeSnapshot s = fenceSnapshot (rtFence s)"

definition sharesFence :: "tool_runtime \<Rightarrow> bool" where
  "sharesFence s \<longleftrightarrow> rtMiddlewareFence s = Some (rtRegistryFence s)"

text \<open>
  A publication with its update. A middleware on another fence advances that one, and a
  middleware without a fence none; the fence of the registry is then unchanged.
\<close>

definition publishWith :: "fence_domain \<Rightarrow> fence_snapshot option \<Rightarrow> (tool_runtime \<Rightarrow> tool_runtime)
    \<Rightarrow> tool_runtime \<Rightarrow> tool_error + tool_runtime" where
  "publishWith d expected upd s =
     bindR (publishFence d expected (rtFence s)) (\<lambda>f. Inr (upd s \<lparr> rtFence := f \<rparr>))"

definition publishApproval :: "(tool_runtime \<Rightarrow> tool_runtime) \<Rightarrow> tool_runtime \<Rightarrow> tool_error + tool_runtime" where
  "publishApproval upd s =
     (if sharesFence s then publishWith DispatchFenceApproval None upd s else Inr (upd s))"

text \<open>An operation that logs the error of its publication and returns.\<close>

definition orElse :: "'a \<Rightarrow> 'e + 'a \<Rightarrow> 'a" where
  "orElse s r = (case r of Inl _ \<Rightarrow> s | Inr s' \<Rightarrow> s')"

section \<open>Approval middleware state\<close>

definition dropSession :: "tool_runtime \<Rightarrow> tool_runtime" where
  "dropSession s = s \<lparr> rtPolicyEpoch := rtPolicyEpoch s + 1, rtSession := [] \<rparr>"

definition setPermissionMode :: "permission_mode \<Rightarrow> tool_runtime \<Rightarrow> tool_runtime" where
  "setPermissionMode m s = orElse s (publishApproval (\<lambda>s. dropSession (s \<lparr> rtMode := m \<rparr>)) s)"

definition clearSession :: "tool_runtime \<Rightarrow> tool_runtime" where
  "clearSession s = orElse s (publishApproval dropSession s)"

definition sessionStore :: "string \<Rightarrow> classification \<Rightarrow> tool_runtime \<Rightarrow> tool_runtime" where
  "sessionStore key c s = s \<lparr> rtSession := mapSet key c (rtSession s) \<rparr>"

definition publishPreparedRevocation :: "fence_snapshot \<Rightarrow> tool_runtime \<Rightarrow> tool_error + tool_runtime" where
  "publishPreparedRevocation expected s =
     (if \<not> sharesFence s then Inl ErrPreparedPolicyUnavailable
      else publishWith DispatchFenceDecision (Some expected) dropSession s)"

section \<open>Approval store\<close>

definition storeGet :: "approval_store \<Rightarrow> string \<Rightarrow> classification option" where
  "storeGet st key = map_of (asDecisions st) key"

definition storeUpdate :: "string \<Rightarrow> classification \<Rightarrow> approval_store \<Rightarrow> approval_store" where
  "storeUpdate key c st = st \<lparr> asDecisions := mapSet key c (asDecisions st),
     asPolicyEpoch := (if c \<noteq> Allow then asPolicyEpoch st + 1 else asPolicyEpoch st) \<rparr>"

definition storeSet :: "string \<Rightarrow> classification \<Rightarrow> tool_runtime \<Rightarrow> tool_error + tool_runtime" where
  "storeSet key c s =
     (let upd = (\<lambda>s. s \<lparr> rtStore := map_option (storeUpdate key c) (rtStore s) \<rparr>) in
      if c = Allow then Inr (upd s) else publishApproval upd s)"

definition storeDelete :: "string \<Rightarrow> tool_runtime \<Rightarrow> tool_error + tool_runtime" where
  "storeDelete key = publishApproval (\<lambda>s. s \<lparr> rtStore :=
     map_option (\<lambda>st. st \<lparr> asDecisions := mapDelete key (asDecisions st), asPolicyEpoch := asPolicyEpoch st + 1 \<rparr>)
       (rtStore s) \<rparr>)"

definition setPreparedGrant :: "fence_snapshot \<Rightarrow> string \<Rightarrow> tool_runtime \<Rightarrow> tool_error + tool_runtime" where
  "setPreparedGrant expected key s =
     (if \<not> sharesFence s then Inl ErrDispatchFenceUnavailable
      else bindR (publishApprovalGrant expected (rtFence s)) (\<lambda>_.
        Inr (s \<lparr> rtStore := map_option (\<lambda>st. st \<lparr> asDecisions := mapSet key Allow (asDecisions st) \<rparr>) (rtStore s) \<rparr>)))"

section \<open>Always-allow cache\<close>

definition cacheGet :: "approval_cache \<Rightarrow> string \<Rightarrow> bool option" where
  "cacheGet c key = map_of (acEntries c) key"

definition cacheReplace :: "(string \<times> bool) list \<Rightarrow> approval_cache \<Rightarrow> approval_cache" where
  "cacheReplace entries c =
     c \<lparr> acEpoch := (if acEntries c \<noteq> [] then acEpoch c + 1 else acEpoch c), acEntries := entries \<rparr>"

text \<open>
  \<open>LoadFromFile\<close>: the entries are those of the file, or none when it is missing, unsafe or
  unreadable; the replacement is published in every case.
\<close>

definition cacheLoad :: "tool_error + (string \<times> bool) list \<Rightarrow> tool_runtime \<Rightarrow> tool_error option \<times> tool_runtime" where
  "cacheLoad file s =
     (let entries = (case file of Inl _ \<Rightarrow> [] | Inr es \<Rightarrow> es);
          loadErr = (case file of Inl e \<Rightarrow> Some e | Inr _ \<Rightarrow> None)
      in case publishApproval (\<lambda>s. s \<lparr> rtCache := map_option (cacheReplace entries) (rtCache s) \<rparr>) s of
           Inl e \<Rightarrow> (Some (ToolJoined (case loadErr of None \<Rightarrow> [e] | Some l \<Rightarrow> [l, e])), s)
         | Inr s' \<Rightarrow> (loadErr, s'))"

definition cacheSet :: "string \<Rightarrow> tool_runtime \<Rightarrow> tool_runtime" where
  "cacheSet key s = s \<lparr> rtCache := map_option (\<lambda>c. c \<lparr> acEntries := mapSet key True (acEntries c) \<rparr>) (rtCache s) \<rparr>"

text \<open>
  The grant of a prepared decision: the session cache, and the always-allow cache too when the
  user asked for that, under the snapshot the decision was made against.
\<close>

definition publishGrant :: "bool \<Rightarrow> fence_snapshot \<Rightarrow> string \<Rightarrow> tool_runtime \<Rightarrow> tool_error + tool_runtime" where
  "publishGrant cacheGrant expected key s =
     (if \<not> sharesFence s then Inl ErrDispatchFenceUnavailable
      else bindR (publishApprovalGrant expected (rtFence s)) (\<lambda>_.
        Inr (sessionStore key Allow (if cacheGrant \<and> rtCache s \<noteq> None then cacheSet key s else s))))"

section \<open>Plan Mode\<close>

definition planEnter :: "string \<Rightarrow> tool_runtime \<Rightarrow> tool_error + tool_runtime" where
  "planEnter reason =
     publishWith DispatchFencePlan None (\<lambda>s. s \<lparr> rtPlan := \<lparr> pmActive = True, pmReason = reason \<rparr> \<rparr>)"

definition planExit :: "tool_runtime \<Rightarrow> tool_error + tool_runtime" where
  "planExit =
     publishWith DispatchFencePlan None (\<lambda>s. s \<lparr> rtPlan := \<lparr> pmActive = False, pmReason = [] \<rparr> \<rparr>)"

text \<open>A process starts only while Plan Mode is inactive under the fence.\<close>

definition startIfInactive :: "tool_runtime \<Rightarrow> bool" where
  "startIfInactive s \<longleftrightarrow> \<not> pmActive (rtPlan s)"

definition planModeReadOnlyToolNames :: "string list" where
  "planModeReadOnlyToolNames =
     [''read'', ''ls'', ''grep'', ''find'', ''web_search'', ''web_fetch'', ''git_diff'', ''git_status'', ''git_log'',
      ''git_branch'', ''git_blame'', ''git_remote'', ''lsp_query'', ''tool_search'', ''ask_user'', ''goal_get'',
      ''goal_list'', ''task_get'', ''task_list'', ''enter_plan_mode'', ''exit_plan_mode'']"

definition shouldBlockWrite :: "plan_mode \<Rightarrow> string \<Rightarrow> bool" where
  "shouldBlockWrite p name \<longleftrightarrow> pmActive p \<and> name \<notin> set planModeReadOnlyToolNames"

section \<open>Tool registry\<close>

text \<open>
  A registration replaces the one of the same name under the next generation of that name. The
  registration argument carries the source, effects and schema; its identity is minted here.
\<close>

definition registeredIdentity ::
  "(string \<times> tool_registration) list \<Rightarrow> tool_registration \<Rightarrow> string \<Rightarrow> trusted_identity" where
  "registeredIdentity tools reg fingerprint = (trIdentity reg)
     \<lparr> ttRegistrationGeneration :=
         (case map_of tools (ttToolName (trIdentity reg)) of
            None \<Rightarrow> 1 | Some previous \<Rightarrow> ttRegistrationGeneration (trIdentity previous) + 1),
       ttExecutorFingerprint := fingerprint \<rparr>"

definition registerTool :: "tool_registration \<Rightarrow> string \<Rightarrow> tool_runtime \<Rightarrow> tool_error + tool_runtime" where
  "registerTool reg fingerprint s =
     (let name = ttToolName (trIdentity reg) in
      if name = [] then Inl (ToolFault ''cannot register a tool with an empty name'')
      else if name \<in> set (rtReserved s) then Inl (ToolFault ''MCP name reserved'')
      else publishWith DispatchFenceRegistry None (\<lambda>s. s \<lparr> rtTools := mapSet name
             (reg \<lparr> trIdentity := registeredIdentity (rtTools s) reg fingerprint,
                    trEffects := newTrustedEffectSet (effectSetValues (trEffects reg)) \<rparr>) (rtTools s) \<rparr>) s)"

text \<open>\<open>toolRegistrationSnapshot\<close>: registration and generations, read under the fence.\<close>

definition toolRegistrationSnapshot ::
  "string \<Rightarrow> tool_runtime \<Rightarrow> tool_error + (tool_registration \<times> fence_snapshot)" where
  "toolRegistrationSnapshot name s = (case map_of (rtTools s) name of
      None \<Rightarrow> Inl ErrToolNotFound
    | Some reg \<Rightarrow> Inr (reg \<lparr> trEffects := newTrustedEffectSet (effectSetValues (trEffects reg)) \<rparr>, runtimeSnapshot s))"

section \<open>What other goroutines may do\<close>

text \<open>
  The atomic steps that run beside a prepared decision: every operation above, grants of other
  decisions, a replacement of the registry (an MCP generation) and Plan Mode of an ancestor.
\<close>

datatype runtime_op =
    OpSetMode permission_mode
  | OpClearSession
  | OpRevoke fence_snapshot
  | OpStoreSet string classification
  | OpStoreDelete string
  | OpStoreGrant fence_snapshot string
  | OpCacheLoad "tool_error + (string \<times> bool) list"
  | OpCacheSet string
  | OpGrant bool fence_snapshot string
  | OpPlanEnter string
  | OpPlanExit
  | OpRegister tool_registration string
  | OpReplaceTools "(string \<times> tool_registration) list" "string list"
  | OpAncestorPlan nat

fun applyOp :: "runtime_op \<Rightarrow> tool_runtime \<Rightarrow> tool_runtime" where
  "applyOp (OpSetMode m) s = setPermissionMode m s"
| "applyOp OpClearSession s = clearSession s"
| "applyOp (OpRevoke g) s = orElse s (publishPreparedRevocation g s)"
| "applyOp (OpStoreSet k c) s = orElse s (storeSet k c s)"
| "applyOp (OpStoreDelete k) s = orElse s (storeDelete k s)"
| "applyOp (OpStoreGrant g k) s = orElse s (setPreparedGrant g k s)"
| "applyOp (OpCacheLoad es) s = snd (cacheLoad es s)"
| "applyOp (OpCacheSet k) s = cacheSet k s"
| "applyOp (OpGrant b g k) s = orElse s (publishGrant b g k s)"
| "applyOp (OpPlanEnter r) s = orElse s (planEnter r s)"
| "applyOp OpPlanExit s = orElse s (planExit s)"
| "applyOp (OpRegister reg fp) s = orElse s (registerTool reg fp s)"
| "applyOp (OpReplaceTools tools reserved) s =
     orElse s (publishWith DispatchFenceRegistry None (\<lambda>s. s \<lparr> rtTools := tools, rtReserved := reserved \<rparr>) s)"
| "applyOp (OpAncestorPlan i) s = s \<lparr> rtFence := ancestorPlanPublished i (rtFence s) \<rparr>"

definition applyOps :: "runtime_op list \<Rightarrow> tool_runtime \<Rightarrow> tool_runtime" where
  "applyOps os s = foldl (\<lambda>t op. applyOp op t) s os"

lemma applyOps_simps [simp]:
  "applyOps [] s = s"
  "applyOps (op # os) s = applyOps os (applyOp op s)"
  "applyOps (os @ os') s = applyOps os' (applyOps os s)"
  by (simp_all add: applyOps_def)

end
