(* ===== verification/PreparedPolicy.thy ===== *)
theory PreparedPolicy
  imports ToolRuntime
begin

text \<open>
  The classifiers and callbacks of the approval package and \<open>PreparedPolicy\<close>
  (\<open>approval/classifier.go\<close>, \<open>resolver.go\<close>, \<open>callback.go\<close>, \<open>prepared_policy.go\<close>). A policy
  evaluation does not hold the fence: \<open>env r i\<close> are the steps of other goroutines at its
  \<open>i\<close>-th interruption point, among them the time a user takes to answer.
\<close>

section \<open>Classifiers\<close>

record approval_classifier =
  clName :: string
  clClassify :: "tool_call \<Rightarrow> classification"
  clAudited :: bool

definition allowAllClassify :: "tool_call \<Rightarrow> classification" where
  "allowAllClassify call = Allow"

definition denyAllClassify :: "tool_call \<Rightarrow> classification" where
  "denyAllClassify call = Deny"

definition staticClassify :: "string list \<Rightarrow> string list \<Rightarrow> tool_call \<Rightarrow> classification" where
  "staticClassify allowlist denylist call =
     (if tcName call \<in> set denylist then Deny else if tcName call \<in> set allowlist then Allow else Deny)"

definition builtinReadOnlyTools :: "string list" where
  "builtinReadOnlyTools =
     [''read'', ''read_file'', ''ls'', ''grep'', ''glob'', ''find'', ''search'', ''list'']"

definition safetyPolicyClassify :: "string list \<Rightarrow> tool_call \<Rightarrow> classification" where
  "safetyPolicyClassify forbidden call =
     (if tcName call \<in> set forbidden then Deny
      else if tcName call \<in> set builtinReadOnlyTools then Allow else Ask)"

definition planClassify :: "tool_call \<Rightarrow> classification" where
  "planClassify call = Ask"

definition autoClassify :: "string list \<Rightarrow> string list \<Rightarrow> tool_call \<Rightarrow> classification" where
  "autoClassify safe dangerous call =
     (if tcName call \<in> set dangerous then Ask else if tcName call \<in> set safe then Allow else Allow)"

fun resolveMode :: "permission_mode \<Rightarrow> approval_classifier" where
  "resolveMode PermissionPlan = \<lparr> clName = ''plan-classifier'', clClassify = planClassify, clAudited = False \<rparr>"
| "resolveMode PermissionAuto = \<lparr> clName = ''auto-classifier'', clClassify = autoClassify [] [], clAudited = False \<rparr>"
| "resolveMode PermissionAutoFull = \<lparr> clName = ''allow_all'', clClassify = allowAllClassify, clAudited = False \<rparr>"
| "resolveMode PermissionDefault = \<lparr> clName = ''safety_policy'', clClassify = safetyPolicyClassify [], clAudited = False \<rparr>"
| "resolveMode (OtherMode _) = \<lparr> clName = ''safety_policy'', clClassify = safetyPolicyClassify [], clAudited = False \<rparr>"

text \<open>\<open>AuditResolver\<close> decorates what the inner resolver returns.\<close>

definition auditResolve :: "(permission_mode \<Rightarrow> approval_classifier) \<Rightarrow> bool \<Rightarrow> permission_mode \<Rightarrow> approval_classifier" where
  "auditResolve inner trail mode = (if trail then (inner mode) \<lparr> clAudited := True \<rparr> else inner mode)"

section \<open>Approval callbacks\<close>

datatype approval_result = ApprovalDeny | ApprovalAllow | ApprovalAlwaysAllow | OtherApproval int

record callback_answer =
  cbResult :: approval_result
  cbChoice :: string
  cbResolution :: string
  cbError :: "tool_error option"

definition answer :: "approval_result \<Rightarrow> string \<Rightarrow> string \<Rightarrow> tool_error option \<Rightarrow> callback_answer" where
  "answer res choice resolution err =
     \<lparr> cbResult = res, cbChoice = choice, cbResolution = resolution, cbError = err \<rparr>"

text \<open>
  One read of the terminal: the line, the error beside it and whether the context was cancelled
  when the read returned. A prompt whose reads run out is still waiting (\<open>None\<close>).
\<close>

datatype read_error = ReadOk | ReadEOF | ReadFailed

fun asciiLower :: "char \<Rightarrow> char" where
  "asciiLower c = (if CHR ''A'' \<le> c \<and> c \<le> CHR ''Z'' then char_of (of_char c + 32 :: nat) else c)"

fun promptLoop :: "(string \<times> read_error \<times> bool) list \<Rightarrow> callback_answer option" where
  "promptLoop [] = None"
| "promptLoop ((line, err, cancelled) # rest) =
     (if cancelled then Some (answer ApprovalDeny [] ''canceled'' (Some ToolContext))
      else if err = ReadFailed
        then Some (answer ApprovalDeny [] ''callback_error'' (Some (ToolFault ''read approval input'')))
      else let reply = trimSpace (map asciiLower line) in
        if reply \<in> {''y'', ''yes''} then Some (answer ApprovalAllow ''allow_once'' ''user'' None)
        else if reply \<in> {''n'', ''no''} then Some (answer ApprovalDeny ''deny'' ''user'' None)
        else if reply \<in> {''a'', ''always''} then Some (answer ApprovalAlwaysAllow ''allow_always'' ''user'' None)
        else if err = ReadEOF then Some (answer ApprovalDeny [] ''input_ended'' None)
        else promptLoop rest)"

definition interactiveRequest :: "bool \<Rightarrow> bool \<Rightarrow> (string \<times> read_error \<times> bool) list \<Rightarrow> callback_answer option" where
  "interactiveRequest cancelled terminal reads =
     (if cancelled then Some (answer ApprovalDeny [] ''canceled'' (Some ToolContext))
      else if \<not> terminal then Some (answer ApprovalDeny [] ''non_tty_deny'' None)
      else promptLoop reads)"

datatype interactive_decision = InteractiveDeny | InteractiveAllow | InteractiveAlwaysAllow | OtherInteractive int

text \<open>What the TUI callback makes of a response, or of a cancelled wait.\<close>

fun approvalResultFromResponse :: "interactive_decision \<Rightarrow> approval_result" where
  "approvalResultFromResponse InteractiveAllow = ApprovalAllow"
| "approvalResultFromResponse InteractiveAlwaysAllow = ApprovalAlwaysAllow"
| "approvalResultFromResponse _ = ApprovalDeny"

fun interactiveChoice :: "interactive_decision \<Rightarrow> string option" where
  "interactiveChoice InteractiveAllow = Some ''allow_once''"
| "interactiveChoice InteractiveAlwaysAllow = Some ''allow_always''"
| "interactiveChoice InteractiveDeny = Some ''deny''"
| "interactiveChoice (OtherInteractive _) = None"

definition teaAnswer :: "bool \<Rightarrow> (interactive_decision \<times> string) option \<Rightarrow> callback_answer" where
  "teaAnswer cancelled response = (case response of
      None \<Rightarrow> answer ApprovalDeny [] ''canceled'' (Some ToolContext)
    | Some (decision, source) \<Rightarrow>
        if cancelled then answer ApprovalDeny [] ''canceled'' (Some ToolContext)
        else (case interactiveChoice decision of
            None \<Rightarrow> answer ApprovalDeny [] ''invalid_response'' None
          | Some choice \<Rightarrow>
              if source = ''user'' then answer (approvalResultFromResponse decision) choice ''user'' None
              else if source = ''canceled'' then answer ApprovalDeny [] ''canceled'' None
              else answer (approvalResultFromResponse decision) choice ''callback'' None))"

text \<open>A callback without the choice interface: the choice is read off its result.\<close>

definition plainAnswer :: "approval_result \<Rightarrow> tool_error option \<Rightarrow> callback_answer" where
  "plainAnswer res err = (case res of
      ApprovalAllow \<Rightarrow> answer res ''allow_once'' ''callback'' err
    | ApprovalAlwaysAllow \<Rightarrow> answer res ''allow_always'' ''callback'' err
    | ApprovalDeny \<Rightarrow> answer res ''deny'' ''callback'' err
    | OtherApproval _ \<Rightarrow> answer res [] ''invalid_response'' err)"

definition preparedApprovalDenial :: "string \<Rightarrow> string \<Rightarrow> tool_error" where
  "preparedApprovalDenial choice resolution =
     (if resolution = ''user'' then ApprovalDenial (if choice = ''deny'' then ''user'' else ''callback'') ''deny''
      else if resolution \<in> {''canceled'', ''non_tty_deny'', ''input_ended'', ''invalid_response''}
        then ApprovalDenial resolution ''none''
      else ApprovalDenial ''callback'' ''deny'')"

section \<open>Configuration and one evaluation\<close>

text \<open>
  \<open>cfInitErr\<close> is the error of building the middleware (a store without a fence adapter, or a
  cache or store bound to another fence); \<open>cfPlanBound\<close> says that a Plan controller on the
  same fence was set.
\<close>

record approval_config =
  cfClassifier :: approval_classifier
  cfResolver :: "(permission_mode \<Rightarrow> approval_classifier) option"
  cfAutoApprove :: bool
  cfCallback :: bool
  cfInitErr :: "tool_error option"
  cfPlanBound :: bool

definition preparedClassifiers :: "approval_config \<Rightarrow> permission_mode \<Rightarrow> approval_classifier option" where
  "preparedClassifiers cf mode = (case cfResolver cf of
      Some resolver \<Rightarrow> if validPermissionMode mode then Some (resolver mode) else None
    | None \<Rightarrow> if mode = PermissionDefault then Some (cfClassifier cf) else None)"

record prepared_request =
  rqCall :: tool_call
  rqArgumentDigest :: string
  rqIdentity :: trusted_identity
  rqEffects :: "tool_effect list"
  rqSchemaDigest :: string
  rqGenerations :: fence_snapshot
  rqFence :: "nat option"

record decision_key =
  dkIdentity :: tool_identity
  dkEffects :: "tool_effect list"
  dkSchemaDigest :: string
  dkArgumentDigest :: string
  dkRegistryGeneration :: u64
  dkApprovalGeneration :: u64
  dkPlanGeneration :: u64
  dkPermissionMode :: permission_mode
  dkPolicyEpoch :: u64
  dkCacheEpoch :: u64
  dkStoreEpoch :: u64

datatype audit_record =
    ClassifierProposal string
  | ApprovalResolution string string string

text \<open>
  What one evaluation meets: the steps of other goroutines, the key digest (JSON and SHA-256),
  the audit trail's errors and the user's answer.
\<close>

record policy_run =
  prOps :: "nat \<Rightarrow> runtime_op list"
  prDigest :: "decision_key \<Rightarrow> tool_error + string"
  prAudit :: "audit_record \<Rightarrow> tool_error option"
  prAnswer :: callback_answer

definition env :: "policy_run \<Rightarrow> nat \<Rightarrow> tool_runtime \<Rightarrow> tool_runtime" where
  "env r i s = applyOps (prOps r i) s"

record policy_decision =
  pdGenerations :: fence_snapshot
  pdObserver :: "(string \<times> string \<times> string) option"
  pdOutcome :: string

type_synonym policy_result = "(tool_error + policy_decision) \<times> tool_runtime"

section \<open>Trust rules\<close>

definition zeroFingerprint :: string where
  "zeroFingerprint = replicate 32 (CHR 0x00)"

definition validPreparedIdentity :: "trusted_identity \<Rightarrow> string \<Rightarrow> bool" where
  "validPreparedIdentity i callName =
     (let snapshot = identitySnapshot i in
      if tiRegistrationSource snapshot = [] \<or> tiToolName snapshot = [] \<or> tiToolName snapshot \<noteq> callName
         \<or> tiRegistrationGeneration snapshot = 0 then False
      else tiExecutorFingerprint snapshot \<noteq> hexEncode zeroFingerprint)"

definition planModeTrustedControlNames :: "string list" where
  "planModeTrustedControlNames =
     [''ask_user'', ''tool_search'', ''task_get'', ''task_list'', ''goal_get'', ''goal_list'',
      ''enter_plan_mode'', ''exit_plan_mode'']"

definition preparedTrustedNetworkRead :: "prepared_request \<Rightarrow> string \<Rightarrow> bool" where
  "preparedTrustedNetworkRead req name =
     (let identity = rqIdentity req; effects = effectSetValues (rqEffects req) in
      if ttRegistrationSource identity \<noteq> ''builtin_network_read'' \<or> ttToolName identity \<noteq> name then False
      else if effects \<noteq> [EffectNetworkRead] then False
      else name \<in> {''web_fetch'', ''web_search''})"

definition preparedPlanCallAllowed :: "prepared_request \<Rightarrow> string \<Rightarrow> bool" where
  "preparedPlanCallAllowed req name =
     (if \<not> validPreparedIdentity (rqIdentity req) name then False
      else case effectSetValues (rqEffects req) of
          [EffectWorkspaceRead] \<Rightarrow>
            ttRegistrationSource (rqIdentity req) = ''builtin_tool'' \<and>
            ttScopeFingerprint (rqIdentity req) \<noteq> zeroFingerprint \<and> ttToolName (rqIdentity req) = name
        | [EffectNetworkRead] \<Rightarrow> preparedTrustedNetworkRead req name
        | [EffectControl] \<Rightarrow>
            ttRegistrationSource (rqIdentity req) = ''builtin_control'' \<and>
            name \<in> set planModeTrustedControlNames \<and> ttToolName (rqIdentity req) = name
        | _ \<Rightarrow> False)"

definition preparedClassifierAllowTrusted :: "prepared_request \<Rightarrow> permission_mode \<Rightarrow> bool" where
  "preparedClassifierAllowTrusted req mode =
     (if mode = PermissionAutoFull then True
      else case effectSetValues (rqEffects req) of
          [EffectWorkspaceRead] \<Rightarrow>
            ttRegistrationSource (rqIdentity req) = ''builtin_tool'' \<and>
            ttScopeFingerprint (rqIdentity req) \<noteq> zeroFingerprint
        | [EffectNetworkRead] \<Rightarrow> preparedTrustedNetworkRead req (ttToolName (rqIdentity req))
        | [EffectControl] \<Rightarrow>
            ttRegistrationSource (rqIdentity req) = ''builtin_control'' \<and>
            ttToolName (rqIdentity req) \<in> set planModeTrustedControlNames
        | _ \<Rightarrow> False)"

section \<open>The prepared policy\<close>

definition preparedMode :: "approval_config \<Rightarrow> tool_runtime \<Rightarrow> permission_mode" where
  "preparedMode cf s =
     (if cfResolver cf = None \<and> validPermissionMode (rtMode s) then PermissionDefault else rtMode s)"

definition cacheEpochOf :: "tool_runtime \<Rightarrow> u64" where
  "cacheEpochOf s = (case rtCache s of None \<Rightarrow> 0 | Some c \<Rightarrow> acEpoch c)"

definition storeEpochOf :: "tool_runtime \<Rightarrow> u64" where
  "storeEpochOf s = (case rtStore s of None \<Rightarrow> 0 | Some st \<Rightarrow> asPolicyEpoch st)"

definition decisionKeyInput ::
  "prepared_request \<Rightarrow> permission_mode \<Rightarrow> u64 \<Rightarrow> u64 \<Rightarrow> u64 \<Rightarrow> decision_key" where
  "decisionKeyInput req mode policyEpoch cacheEpoch storeEpoch =
     \<lparr> dkIdentity = identitySnapshot (rqIdentity req), dkEffects = effectSetValues (rqEffects req),
       dkSchemaDigest = hexEncode (rqSchemaDigest req), dkArgumentDigest = hexEncode (rqArgumentDigest req),
       dkRegistryGeneration = fnRegistry (rqGenerations req), dkApprovalGeneration = fnApproval (rqGenerations req),
       dkPlanGeneration = fnPlan (rqGenerations req), dkPermissionMode = mode, dkPolicyEpoch = policyEpoch,
       dkCacheEpoch = cacheEpoch, dkStoreEpoch = storeEpoch \<rparr>"

definition preparedDecisionKey :: "policy_run \<Rightarrow> decision_key \<Rightarrow> tool_error + string" where
  "preparedDecisionKey r k = bindR (prDigest r k) (\<lambda>sum. Inr (''prepared:'' @ sum))"

definition current :: "prepared_request \<Rightarrow> tool_runtime \<Rightarrow> bool" where
  "current req s \<longleftrightarrow> runtimeSnapshot s = rqGenerations req"

definition isAudited :: "approval_config \<Rightarrow> permission_mode \<Rightarrow> bool" where
  "isAudited cf mode = (case preparedClassifiers cf mode of None \<Rightarrow> False | Some c \<Rightarrow> clAudited c)"

definition recordPreparedResolution :: "policy_run \<Rightarrow> bool \<Rightarrow> string \<Rightarrow> string \<Rightarrow> string \<Rightarrow> tool_error option" where
  "recordPreparedResolution r audited proposal choice resolution =
     (if \<not> audited then None else prAudit r (ApprovalResolution proposal choice resolution))"

definition preparedTerminalAuditObserver :: "bool \<Rightarrow> string \<Rightarrow> string \<Rightarrow> string \<Rightarrow> (string \<times> string \<times> string) option" where
  "preparedTerminalAuditObserver audited proposal choice resolution =
     (if audited then Some (proposal, choice, resolution) else None)"

definition allowed :: "prepared_request \<Rightarrow> string \<Rightarrow> (string \<times> string \<times> string) option \<Rightarrow> tool_runtime \<Rightarrow> policy_result" where
  "allowed req outcome observer s =
     (Inr \<lparr> pdGenerations = rqGenerations req, pdObserver = observer, pdOutcome = outcome \<rparr>, s)"

definition allowedIfCurrent :: "prepared_request \<Rightarrow> string \<Rightarrow> (string \<times> string \<times> string) option \<Rightarrow> tool_runtime \<Rightarrow> policy_result" where
  "allowedIfCurrent req outcome observer s =
     (if \<not> current req s then (Inl ErrDispatchFenceChanged, s) else allowed req outcome observer s)"

definition joinAudit :: "tool_error \<Rightarrow> tool_error option \<Rightarrow> tool_error" where
  "joinAudit e audit = (case audit of None \<Rightarrow> e | Some a \<Rightarrow> ToolJoined [e, a])"

definition publishPreparedAllow ::
  "policy_run \<Rightarrow> prepared_request \<Rightarrow> string \<Rightarrow> bool \<Rightarrow> (string \<times> string \<times> string) option \<Rightarrow> tool_runtime \<Rightarrow> policy_result" where
  "publishPreparedAllow r req key cacheGrant observer s =
     (let s1 = env r 14 s in
      case publishGrant cacheGrant (rqGenerations req) key s1 of
        Inl e \<Rightarrow> (Inl e, s1)
      | Inr s2 \<Rightarrow>
          (let s3 = env r 15 s2 in
           case (if rtStore s3 = None then Inr s3 else setPreparedGrant (rqGenerations req) key s3) of
             Inl e \<Rightarrow> (Inl e, s3)
           | Inr s4 \<Rightarrow>
               allowedIfCurrent req (if cacheGrant then ''always_allow'' else ''classifier_allow'') observer (env r 16 s4)))"

definition resolvePreparedAsk ::
  "approval_config \<Rightarrow> policy_run \<Rightarrow> prepared_request \<Rightarrow> string \<Rightarrow> bool \<Rightarrow> string \<Rightarrow> tool_runtime \<Rightarrow> policy_result" where
  "resolvePreparedAsk cf r req key audited proposal s =
     (if \<not> cfCallback cf then
        if cfAutoApprove cf then
          (case recordPreparedResolution r audited proposal [] ''auto_approve'' of
             Some e \<Rightarrow> (Inl e, s)
           | None \<Rightarrow> allowedIfCurrent req ''auto_approve''
               (preparedTerminalAuditObserver audited proposal [] ''auto_approve'') (env r 12 s))
        else (Inl (joinAudit ErrToolDenied (recordPreparedResolution r audited proposal [] ''policy_deny'')), s)
      else
        let s1 = env r 12 s; a = prAnswer r; choice = cbChoice a; resolution = cbResolution a in
        case cbError a of
          Some e \<Rightarrow> (Inl (joinAudit e (recordPreparedResolution r audited proposal [] ''callback_error'')), s1)
        | None \<Rightarrow>
            (case cbResult a of
               ApprovalAllow \<Rightarrow>
                 (case recordPreparedResolution r audited proposal choice resolution of
                    Some e \<Rightarrow> (Inl e, s1)
                  | None \<Rightarrow> allowedIfCurrent req ''allow_once''
                      (preparedTerminalAuditObserver audited proposal choice resolution) (env r 13 s1))
             | ApprovalAlwaysAllow \<Rightarrow>
                 (case recordPreparedResolution r audited proposal choice resolution of
                    Some e \<Rightarrow> (Inl e, s1)
                  | None \<Rightarrow>
                      let s2 = env r 13 s1 in
                      if \<not> current req s2 then (Inl ErrDispatchFenceChanged, s2)
                      else publishPreparedAllow r req key True
                             (preparedTerminalAuditObserver audited proposal choice resolution) s2)
             | ApprovalDeny \<Rightarrow>
                 (let auditErr = recordPreparedResolution r audited proposal choice resolution;
                      s2 = env r 13 s1
                  in if \<not> current req s2 then (Inl (joinAudit ErrDispatchFenceChanged auditErr), s2)
                     else let s3 = env r 14 s2 in
                       case publishPreparedRevocation (rqGenerations req) s3 of
                         Inl e \<Rightarrow> (Inl (joinAudit e auditErr), s3)
                       | Inr s4 \<Rightarrow> (Inl (joinAudit (preparedApprovalDenial choice resolution) auditErr), s4))
             | OtherApproval _ \<Rightarrow>
                 (Inl (joinAudit ErrToolDenied (recordPreparedResolution r audited proposal [] ''invalid_response'')), s1)))"

definition classifyPrepared ::
  "approval_config \<Rightarrow> policy_run \<Rightarrow> prepared_request \<Rightarrow> permission_mode \<Rightarrow> string \<Rightarrow> tool_runtime \<Rightarrow> policy_result" where
  "classifyPrepared cf r req mode key s =
     (case preparedClassifiers cf mode of
        None \<Rightarrow> (Inl ErrToolDenied, s)
      | Some c \<Rightarrow>
          (let proposed = clClassify c (rqCall req); proposal = classificationString proposed; audited = clAudited c in
           case (if audited then prAudit r (ClassifierProposal proposal) else None) of
             Some e \<Rightarrow> (Inl e, s)
           | None \<Rightarrow>
               (case (if proposed = Allow \<and> \<not> preparedClassifierAllowTrusted req mode then Ask else proposed) of
                  Allow \<Rightarrow>
                    (case recordPreparedResolution r audited proposal [] ''classifier'' of
                       Some e \<Rightarrow> (Inl e, s)
                     | None \<Rightarrow> publishPreparedAllow r req key False
                         (preparedTerminalAuditObserver audited proposal [] ''classifier'') s)
                | Deny \<Rightarrow> (Inl (joinAudit ErrToolDenied (recordPreparedResolution r audited proposal [] ''classifier'')), s)
                | Ask \<Rightarrow> resolvePreparedAsk cf r req key audited proposal s
                | OtherClassification _ \<Rightarrow>
                    (Inl (joinAudit ErrToolDenied (recordPreparedResolution r audited proposal [] ''invalid_classification'')), s))))"

text \<open>A remembered decision counts only while the fence is as captured.\<close>

definition rememberedDecision ::
  "policy_run \<Rightarrow> prepared_request \<Rightarrow> bool \<Rightarrow> bool \<Rightarrow> string \<Rightarrow> string \<Rightarrow> nat \<Rightarrow> tool_runtime \<Rightarrow> policy_result" where
  "rememberedDecision r req audited isAllow outcome resolution i s =
     (let s1 = env r i s in
      if \<not> current req s1 then (Inl ErrDispatchFenceChanged, s1)
      else if \<not> isAllow then (Inl ErrToolDenied, s1)
      else allowed req outcome (preparedTerminalAuditObserver audited [] [] resolution) s1)"

definition decideByKey ::
  "approval_config \<Rightarrow> policy_run \<Rightarrow> prepared_request \<Rightarrow> permission_mode \<Rightarrow> string \<Rightarrow> tool_runtime \<Rightarrow> policy_result" where
  "decideByKey cf r req mode key s =
     (let audited = isAudited cf mode; s1 = env r 5 s in
      case map_of (rtSession s1) key of
        Some c \<Rightarrow> rememberedDecision r req audited (c = Allow) ''cached'' ''session_cache'' 6 s1
      | None \<Rightarrow>
          (let s2 = env r 7 s1 in
           if (case rtCache s2 of None \<Rightarrow> False | Some c \<Rightarrow> cacheGet c key = Some True)
           then rememberedDecision r req audited True ''always_allow_cache'' ''always_allow_cache'' 8 s2
           else
             let s3 = env r 9 s2 in
             case (case rtStore s3 of None \<Rightarrow> None | Some st \<Rightarrow> storeGet st key) of
               Some c \<Rightarrow> rememberedDecision r req audited (c = Allow) ''approval_store'' ''approval_store'' 10 s3
             | None \<Rightarrow> classifyPrepared cf r req mode key (env r 11 s3)))"

definition preparedPolicy :: "approval_config \<Rightarrow> policy_run \<Rightarrow> prepared_request \<Rightarrow> tool_runtime \<Rightarrow> policy_result" where
  "preparedPolicy cf r req s =
     (case cfInitErr cf of
        Some e \<Rightarrow> (Inl (ToolJoined [ErrPreparedPolicyUnavailable, e]), s)
      | None \<Rightarrow>
          if rtMiddlewareFence s = None \<or> rqFence req = None \<or> rqFence req \<noteq> rtMiddlewareFence s
            then (Inl ErrPreparedPolicyUnavailable, s)
          else if \<not> current req s then (Inl ErrDispatchFenceChanged, s)
          else if \<not> validPreparedIdentity (rqIdentity req) (tcName (rqCall req)) then (Inl ErrPreparedIdentityInvalid, s)
          else
            let s1 = env r 0 s; mode = preparedMode cf s1; policyEpoch = rtPolicyEpoch s1 in
            if \<not> validPermissionMode mode then (Inl ErrInvalidPermissionMode, s1)
            else if \<not> cfPlanBound cf then (Inl ErrPreparedPolicyUnavailable, s1)
            else
              let s2 = env r 1 s1; planActive = pmActive (rtPlan s2); s3 = env r 2 s2 in
              if \<not> current req s3 then (Inl ErrDispatchFenceChanged, s3)
              else if planActive then
                if \<not> preparedPlanCallAllowed req (tcName (rqCall req)) then (Inl ErrToolDenied, s3)
                else allowed req ''plan'' (preparedTerminalAuditObserver (isAudited cf mode) [] [] ''plan_mode'') s3
              else
                let s4 = env r 3 s3; s5 = env r 4 s4 in
                (case preparedDecisionKey r (decisionKeyInput req mode policyEpoch (cacheEpochOf s4) (storeEpochOf s5)) of
                  Inl e \<Rightarrow> (Inl e, s5)
                | Inr key \<Rightarrow> decideByKey cf r req mode key s5))"

end
