(* ===== verification/FenceFacts.thy ===== *)
theory FenceFacts
  imports PreparedPolicy
begin

text \<open>
  Counting publications. A step of the runtime either advances exactly one generation or changes
  nothing a decision rests on except to add grants; as fewer than 2^64 steps cannot wrap a word,
  equal snapshots mean that no publication came between.
\<close>

named_theorems stepsBetween_intro \<open>how the state of a policy evaluation is reached\<close>

section \<open>What a decision rests on\<close>

definition grantsKept :: "tool_runtime \<Rightarrow> tool_runtime \<Rightarrow> bool" where
  "grantsKept s t \<longleftrightarrow>
     (\<forall>k. map_of (rtSession s) k = Some Allow \<longrightarrow> map_of (rtSession t) k = Some Allow) \<and>
     (\<forall>c k. rtCache s = Some c \<longrightarrow> cacheGet c k = Some True \<longrightarrow> (\<exists>c'. rtCache t = Some c' \<and> cacheGet c' k = Some True)) \<and>
     (\<forall>c k. rtStore s = Some c \<longrightarrow> storeGet c k = Some Allow \<longrightarrow> (\<exists>c'. rtStore t = Some c' \<and> storeGet c' k = Some Allow))"

definition samePolicy :: "tool_runtime \<Rightarrow> tool_runtime \<Rightarrow> bool" where
  "samePolicy s t \<longleftrightarrow>
     rtTools t = rtTools s \<and> rtReserved t = rtReserved s \<and> rtPlan t = rtPlan s \<and> rtMode t = rtMode s \<and>
     rtPolicyEpoch t = rtPolicyEpoch s \<and> cacheEpochOf t = cacheEpochOf s \<and> storeEpochOf t = storeEpochOf s \<and>
     grantsKept s t"

lemma samePolicy_refl [simp]: "samePolicy s s"
  by (simp add: samePolicy_def grantsKept_def)

lemma grantsKept_trans: "grantsKept s t \<Longrightarrow> grantsKept t u \<Longrightarrow> grantsKept s u"
  unfolding grantsKept_def by blast

lemma samePolicy_trans: "samePolicy s t \<Longrightarrow> samePolicy t u \<Longrightarrow> samePolicy s u"
  unfolding samePolicy_def using grantsKept_trans by metis

section \<open>Moves\<close>

definition snapshotAdd :: "nat \<Rightarrow> nat \<Rightarrow> nat \<Rightarrow> nat \<Rightarrow> nat \<Rightarrow> fence_snapshot \<Rightarrow> fence_snapshot" where
  "snapshotAdd a b c d e g = \<lparr> fnRegistry = fnRegistry g + of_nat a, fnApproval = fnApproval g + of_nat b,
     fnPlan = fnPlan g + of_nat c, fnPlanRestriction = fnPlanRestriction g + of_nat d,
     fnDecision = fnDecision g + of_nat e \<rparr>"

lemma snapshotAdd_zero [simp]: "snapshotAdd 0 0 0 0 0 g = g"
  by (simp add: snapshotAdd_def)

lemma snapshotAdd_add:
  "snapshotAdd a b c d e (snapshotAdd a' b' c' d' e' g) = snapshotAdd (a' + a) (b' + b) (c' + c) (d' + d) (e' + e) g"
  by (simp add: snapshotAdd_def add.assoc)

lemma of_nat_eq_zero_u64: "(of_nat a :: u64) = 0 \<Longrightarrow> a < 2 ^ 64 \<Longrightarrow> a = 0"
  by (cases "a = 0") (auto simp: word_of_nat_eq_0_iff dest: nat_dvd_not_less)

lemma snapshotAdd_same:
  assumes "snapshotAdd a b c d e g = g" and "a + b + c + d + e < 2 ^ 64"
  shows "a + b + c + d + e = 0"
proof -
  have eqs: "fnRegistry g + of_nat a = fnRegistry g" "fnApproval g + of_nat b = fnApproval g"
      "fnPlan g + of_nat c = fnPlan g" "fnPlanRestriction g + of_nat d = fnPlanRestriction g"
      "fnDecision g + of_nat e = fnDecision g"
    using arg_cong [OF assms(1), of fnRegistry] arg_cong [OF assms(1), of fnApproval]
      arg_cong [OF assms(1), of fnPlan] arg_cong [OF assms(1), of fnPlanRestriction]
      arg_cong [OF assms(1), of fnDecision]
    by (simp_all add: snapshotAdd_def)
  have "a = 0" "b = 0" "c = 0" "d = 0" "e = 0"
    using eqs assms(2) by (auto intro!: of_nat_eq_zero_u64)
  then show ?thesis by simp
qed

definition moved :: "nat \<Rightarrow> tool_runtime \<Rightarrow> tool_runtime \<Rightarrow> bool" where
  "moved n s t \<longleftrightarrow> sharesFence s \<and> rtRegistryFence t = rtRegistryFence s \<and> rtMiddlewareFence t = rtMiddlewareFence s \<and>
     (\<exists>a b c d e. a + b + c + d + e \<le> n \<and> runtimeSnapshot t = snapshotAdd a b c d e (runtimeSnapshot s) \<and>
        (a + b + c + d + e = 0 \<longrightarrow> samePolicy s t))"

lemma moved_shares: "moved n s t \<Longrightarrow> sharesFence s \<and> sharesFence t"
  by (auto simp: moved_def sharesFence_def)

lemma moved_refl: "sharesFence s \<Longrightarrow> moved n s s"
  unfolding moved_def by (auto intro!: exI [of _ "0 :: nat"])

lemma moved_mono: "moved n s t \<Longrightarrow> n \<le> m \<Longrightarrow> moved m s t"
  unfolding moved_def by (blast intro: order_trans)

lemma moved_trans:
  assumes "moved n s t" and "moved m t u"
  shows "moved (n + m) s u"
proof -
  from assms(1) obtain a b c d e where 1: "a + b + c + d + e \<le> n"
      "runtimeSnapshot t = snapshotAdd a b c d e (runtimeSnapshot s)" "a + b + c + d + e = 0 \<longrightarrow> samePolicy s t"
    unfolding moved_def by blast
  from assms(2) obtain a' b' c' d' e' where 2: "a' + b' + c' + d' + e' \<le> m"
      "runtimeSnapshot u = snapshotAdd a' b' c' d' e' (runtimeSnapshot t)" "a' + b' + c' + d' + e' = 0 \<longrightarrow> samePolicy t u"
    unfolding moved_def by blast
  have "(a + a') + (b + b') + (c + c') + (d + d') + (e + e') \<le> n + m" using 1(1) 2(1) by linarith
  moreover have "runtimeSnapshot u = snapshotAdd (a + a') (b + b') (c + c') (d + d') (e + e') (runtimeSnapshot s)"
    using 1(2) 2(2) by (simp add: snapshotAdd_add)
  moreover have "(a + a') + (b + b') + (c + c') + (d + d') + (e + e') = 0 \<longrightarrow> samePolicy s u"
    using 1(3) 2(3) by (auto intro: samePolicy_trans)
  ultimately show ?thesis
    using assms unfolding moved_def by (metis (no_types))
qed

lemma moved_samePolicy:
  assumes "moved n s t" and "n < 2 ^ 64" and "runtimeSnapshot t = runtimeSnapshot s"
  shows "samePolicy s t"
proof -
  from assms(1) obtain a b c d e where m: "a + b + c + d + e \<le> n"
      "runtimeSnapshot t = snapshotAdd a b c d e (runtimeSnapshot s)" "a + b + c + d + e = 0 \<longrightarrow> samePolicy s t"
    unfolding moved_def by blast
  have "a + b + c + d + e = 0"
    by (rule snapshotAdd_same [of _ _ _ _ _ "runtimeSnapshot s"]) (use m assms in simp_all)
  with m(3) show ?thesis by simp
qed

text \<open>Nothing was published on either half of a way that comes back to its snapshot.\<close>

lemma moved_between:
  assumes "moved n s t" and "moved m t u" and "n + m < 2 ^ 64" and "runtimeSnapshot u = runtimeSnapshot s"
  shows "samePolicy s t" and "samePolicy t u" and "runtimeSnapshot t = runtimeSnapshot s"
proof -
  from assms(1) obtain a b c d e where 1: "a + b + c + d + e \<le> n"
      "runtimeSnapshot t = snapshotAdd a b c d e (runtimeSnapshot s)" "a + b + c + d + e = 0 \<longrightarrow> samePolicy s t"
    unfolding moved_def by blast
  from assms(2) obtain a' b' c' d' e' where 2: "a' + b' + c' + d' + e' \<le> m"
      "runtimeSnapshot u = snapshotAdd a' b' c' d' e' (runtimeSnapshot t)" "a' + b' + c' + d' + e' = 0 \<longrightarrow> samePolicy t u"
    unfolding moved_def by blast
  have "(a + a') + (b + b') + (c + c') + (d + d') + (e + e') = 0"
  proof (rule snapshotAdd_same)
    show "snapshotAdd (a + a') (b + b') (c + c') (d + d') (e + e') (runtimeSnapshot s) = runtimeSnapshot s"
      using 1(2) 2(2) assms(4) by (simp add: snapshotAdd_add)
    show "(a + a') + (b + b') + (c + c') + (d + d') + (e + e') < 2 ^ 64"
      using 1(1) 2(1) assms(3) by linarith
  qed
  then show "samePolicy s t" and "samePolicy t u" and "runtimeSnapshot t = runtimeSnapshot s"
    using 1(2,3) 2(3) by simp_all
qed

section \<open>Every step is a move\<close>

lemma moved_grant:
  assumes "sharesFence s" and "rtFence t = rtFence s" and "samePolicy s t"
    and "rtRegistryFence t = rtRegistryFence s" and "rtMiddlewareFence t = rtMiddlewareFence s"
  shows "moved n s t"
  unfolding moved_def using assms by (auto simp: runtimeSnapshot_def intro!: exI [of _ "0 :: nat"])

lemma fenceSnapshot_advance:
  assumes "\<forall>w. d \<noteq> OtherFenceDomain w"
  shows "\<exists>a b c e. a + b + c + 0 + e = 1 \<and>
    fenceSnapshot (f \<lparr> fenceOwn := advanceGeneration d (fenceOwn f) \<rparr>) = snapshotAdd a b c 0 e (fenceSnapshot f)"
proof (cases d)
  case DispatchFenceRegistry
  show ?thesis
    by (rule exI [of _ "1 :: nat"], rule exI [of _ "0 :: nat"], rule exI [of _ "0 :: nat"], rule exI [of _ "0 :: nat"])
      (simp add: fenceSnapshot_def snapshotAdd_def DispatchFenceRegistry)
next
  case DispatchFenceApproval
  show ?thesis
    by (rule exI [of _ "0 :: nat"], rule exI [of _ "1 :: nat"], rule exI [of _ "0 :: nat"], rule exI [of _ "0 :: nat"])
      (simp add: fenceSnapshot_def snapshotAdd_def DispatchFenceApproval)
next
  case DispatchFencePlan
  show ?thesis
    by (rule exI [of _ "0 :: nat"], rule exI [of _ "0 :: nat"], rule exI [of _ "1 :: nat"], rule exI [of _ "0 :: nat"])
      (simp add: fenceSnapshot_def snapshotAdd_def DispatchFencePlan)
next
  case DispatchFenceDecision
  show ?thesis
    by (rule exI [of _ "0 :: nat"], rule exI [of _ "0 :: nat"], rule exI [of _ "0 :: nat"], rule exI [of _ "1 :: nat"])
      (simp add: fenceSnapshot_def snapshotAdd_def DispatchFenceDecision)
next
  case (OtherFenceDomain w)
  with assms show ?thesis by simp
qed

lemma publishWith_snapshot:
  assumes "publishWith d expected upd s = Inr t"
  shows "\<exists>a b c e. a + b + c + 0 + e = 1 \<and> runtimeSnapshot t = snapshotAdd a b c 0 e (runtimeSnapshot s)"
proof -
  from assms obtain f where f: "publishFence d expected (rtFence s) = Inr f" "t = upd s \<lparr> rtFence := f \<rparr>"
    by (auto simp: publishWith_def bindR_eq_Inr)
  then have "runtimeSnapshot t = fenceSnapshot ((rtFence s) \<lparr> fenceOwn := advanceGeneration d (fenceOwn (rtFence s)) \<rparr>)"
    and "\<forall>w. d \<noteq> OtherFenceDomain w"
    using publishFence_Inr [OF f(1)] by (simp_all add: runtimeSnapshot_def)
  with fenceSnapshot_advance [of d "rtFence s"] show ?thesis by (simp add: runtimeSnapshot_def)
qed

lemma moved_publish:
  assumes "publishWith d expected upd s = Inr t" and "sharesFence s"
    and "\<And>s. rtRegistryFence (upd s) = rtRegistryFence s \<and> rtMiddlewareFence (upd s) = rtMiddlewareFence s"
  shows "moved 1 s t"
proof -
  obtain a b c e where abce: "a + b + c + 0 + e = (1 :: nat)" "runtimeSnapshot t = snapshotAdd a b c 0 e (runtimeSnapshot s)"
    using publishWith_snapshot [OF assms(1)] by blast
  have "rtRegistryFence t = rtRegistryFence s" "rtMiddlewareFence t = rtMiddlewareFence s"
    using assms(1,3) by (auto simp: publishWith_def bindR_eq_Inr)
  moreover have "a + b + c + 0 + e \<le> 1" "a + b + c + 0 + e = 0 \<longrightarrow> samePolicy s t"
    using abce(1) by simp_all
  ultimately show ?thesis
    unfolding moved_def using assms(2) abce(2) by blast
qed

lemma moved_orElse:
  "sharesFence s \<Longrightarrow> (\<And>t. r = Inr t \<Longrightarrow> moved n s t) \<Longrightarrow> moved n s (orElse s r)"
  by (cases r) (auto simp: orElse_def intro: moved_refl)

lemma moved_publishApproval:
  assumes "publishApproval upd s = Inr t" and "sharesFence s"
    and "\<And>s. rtRegistryFence (upd s) = rtRegistryFence s \<and> rtMiddlewareFence (upd s) = rtMiddlewareFence s"
  shows "moved 1 s t"
  using moved_publish [of DispatchFenceApproval None upd s t] assms by (simp add: publishApproval_def)

lemma samePolicy_sessionStore: "samePolicy s (sessionStore k Allow s)"
  by (simp add: samePolicy_def grantsKept_def sessionStore_def cacheEpochOf_def storeEpochOf_def)

lemma samePolicy_cacheSet: "samePolicy s (cacheSet k s)"
  by (cases "rtCache s") (auto simp: samePolicy_def grantsKept_def cacheSet_def cacheEpochOf_def storeEpochOf_def cacheGet_def)

lemma samePolicy_storeAllow:
  "samePolicy s (s \<lparr> rtStore := map_option (\<lambda>st. st \<lparr> asDecisions := mapSet k Allow (asDecisions st) \<rparr>) (rtStore s) \<rparr>)"
  by (cases "rtStore s") (auto simp: samePolicy_def grantsKept_def cacheEpochOf_def storeEpochOf_def storeGet_def)

lemma moved_publishGrant:
  assumes "publishGrant b g k s = Inr t"
  shows "moved n s t"
proof (rule moved_grant)
  from assms have t: "t = sessionStore k Allow (if b \<and> rtCache s \<noteq> None then cacheSet k s else s)"
    and sh: "sharesFence s"
    by (auto simp: publishGrant_def bindR_eq_Inr split: if_splits)
  show "sharesFence s" by fact
  show "rtFence t = rtFence s" "rtRegistryFence t = rtRegistryFence s" "rtMiddlewareFence t = rtMiddlewareFence s"
    using t by (simp_all add: sessionStore_def cacheSet_def)
  show "samePolicy s t"
    using t samePolicy_trans [OF samePolicy_cacheSet samePolicy_sessionStore] by (simp add: samePolicy_sessionStore)
qed

lemma moved_setPreparedGrant:
  assumes "setPreparedGrant g k s = Inr t"
  shows "moved n s t"
proof (rule moved_grant)
  from assms have t: "t = s \<lparr> rtStore := map_option (\<lambda>st. st \<lparr> asDecisions := mapSet k Allow (asDecisions st) \<rparr>) (rtStore s) \<rparr>"
    and sh: "sharesFence s"
    by (auto simp: setPreparedGrant_def bindR_eq_Inr split: if_splits)
  show "sharesFence s" by fact
  show "rtFence t = rtFence s" "rtRegistryFence t = rtRegistryFence s" "rtMiddlewareFence t = rtMiddlewareFence s"
    using t by simp_all
  show "samePolicy s t" using t by (simp add: samePolicy_storeAllow)
qed

lemma moved_ancestorPlan: "sharesFence s \<Longrightarrow> moved 1 s (s \<lparr> rtFence := ancestorPlanPublished i (rtFence s) \<rparr>)"
proof (cases "i < length (fenceAncestors (rtFence s))")
  case True
  assume "sharesFence s"
  moreover have "fenceSnapshot (ancestorPlanPublished i (rtFence s)) = snapshotAdd 0 0 0 1 0 (fenceSnapshot (rtFence s))"
    using True parentPlan_update [of i "fenceAncestors (rtFence s)"]
    by (simp add: fenceSnapshot_def snapshotAdd_def ancestorPlanPublished_def)
  ultimately show ?thesis
    unfolding moved_def
    by (intro conjI exI [of _ "0 :: nat"] exI [of _ "Suc 0"]) (simp_all add: runtimeSnapshot_def)
next
  case False
  assume "sharesFence s"
  with False show ?thesis by (simp add: ancestorPlanPublished_def moved_refl)
qed

lemma moved_storeSet:
  assumes "storeSet k c s = Inr t" and "sharesFence s"
  shows "moved 1 s t"
proof (cases "c = Allow")
  case True
  with assms have t: "t = s \<lparr> rtStore := map_option (storeUpdate k Allow) (rtStore s) \<rparr>"
    by (simp add: storeSet_def)
  have "storeUpdate k Allow = (\<lambda>st. st \<lparr> asDecisions := mapSet k Allow (asDecisions st) \<rparr>)"
    by (simp add: storeUpdate_def fun_eq_iff)
  with t samePolicy_storeAllow have "samePolicy s t" by simp
  with t assms(2) show ?thesis by (auto intro: moved_grant)
next
  case False
  with assms show ?thesis
    by (auto simp: storeSet_def simp del: One_nat_def intro: moved_publishApproval)
qed

lemma moved_applyOp:
  assumes "sharesFence s"
  shows "moved 1 s (applyOp op s)"
proof (cases op)
  case (OpSetMode m)
  show ?thesis
    unfolding OpSetMode applyOp.simps setPermissionMode_def
    by (rule moved_orElse [OF assms], erule moved_publishApproval [OF _ assms]) (simp add: dropSession_def)
next
  case OpClearSession
  show ?thesis
    unfolding OpClearSession applyOp.simps clearSession_def
    by (rule moved_orElse [OF assms], erule moved_publishApproval [OF _ assms]) (simp add: dropSession_def)
next
  case (OpRevoke g)
  show ?thesis
    unfolding OpRevoke applyOp.simps
    by (rule moved_orElse [OF assms])
      (use assms in \<open>auto simp: publishPreparedRevocation_def dropSession_def simp del: One_nat_def intro: moved_publish\<close>)
next
  case (OpStoreSet k c)
  then show ?thesis using assms by (auto simp del: One_nat_def intro: moved_orElse moved_storeSet)
next
  case (OpStoreDelete k)
  show ?thesis
    unfolding OpStoreDelete applyOp.simps storeDelete_def
    by (rule moved_orElse [OF assms], erule moved_publishApproval [OF _ assms]) simp
next
  case (OpStoreGrant g k)
  then show ?thesis using assms by (auto intro: moved_orElse moved_setPreparedGrant)
next
  case (OpCacheLoad es)
  then show ?thesis
    using assms moved_refl [OF assms]
    by (auto simp: cacheLoad_def Let_def simp del: One_nat_def intro: moved_publishApproval split: sum.splits)
next
  case (OpCacheSet k)
  show ?thesis
    unfolding OpCacheSet applyOp.simps
    by (rule moved_grant [OF assms]) (simp_all add: samePolicy_cacheSet, simp_all add: cacheSet_def)
next
  case (OpGrant b g k)
  then show ?thesis using assms by (auto intro: moved_orElse moved_publishGrant)
next
  case (OpPlanEnter r)
  show ?thesis
    unfolding OpPlanEnter applyOp.simps planEnter_def
    by (rule moved_orElse [OF assms], erule moved_publish [OF _ assms]) simp
next
  case OpPlanExit
  show ?thesis
    unfolding OpPlanExit applyOp.simps planExit_def
    by (rule moved_orElse [OF assms], erule moved_publish [OF _ assms]) simp
next
  case (OpRegister reg fp)
  show ?thesis
    unfolding OpRegister applyOp.simps
    by (rule moved_orElse [OF assms])
      (use assms in \<open>auto simp: registerTool_def Let_def simp del: One_nat_def intro: moved_publish split: if_splits\<close>)
next
  case (OpReplaceTools tools reserved)
  show ?thesis
    unfolding OpReplaceTools applyOp.simps
    by (rule moved_orElse [OF assms], erule moved_publish [OF _ assms]) simp
next
  case (OpAncestorPlan i)
  show ?thesis unfolding OpAncestorPlan applyOp.simps by (rule moved_ancestorPlan [OF assms])
qed

lemma moved_applyOps: "sharesFence s \<Longrightarrow> moved (length os) s (applyOps os s)"
proof (induction os arbitrary: s)
  case Nil
  then show ?case by (simp add: moved_refl)
next
  case (Cons op os)
  have 1: "moved 1 s (applyOp op s)" by (rule moved_applyOp [OF Cons.prems])
  have "moved (length os) (applyOp op s) (applyOps os (applyOp op s))"
    by (rule Cons.IH) (use moved_shares [OF 1] in simp)
  from moved_trans [OF 1 this] show ?case by simp
qed

lemma applyOps_shares: "sharesFence s \<Longrightarrow> sharesFence (applyOps os s)"
  using moved_shares [OF moved_applyOps] by blast

section \<open>Spans of an evaluation\<close>

definition opsBetween :: "policy_run \<Rightarrow> nat \<Rightarrow> nat \<Rightarrow> nat" where
  "opsBetween r i j = (\<Sum>k\<in>{i..<j}. length (prOps r k))"

definition stepsBetween :: "policy_run \<Rightarrow> nat \<Rightarrow> nat \<Rightarrow> tool_runtime \<Rightarrow> tool_runtime \<Rightarrow> bool" where
  "stepsBetween r i j s t \<longleftrightarrow> i \<le> j \<and> moved (opsBetween r i j) s t"

lemma opsBetween_split: "i \<le> j \<Longrightarrow> j \<le> k \<Longrightarrow> opsBetween r i j + opsBetween r j k = opsBetween r i k"
  by (simp add: opsBetween_def sum.atLeastLessThan_concat)

lemma stepsBetween_refl: "sharesFence s \<Longrightarrow> i \<le> j \<Longrightarrow> stepsBetween r i j s s"
  by (simp add: stepsBetween_def moved_refl)

lemma stepsBetween_shares: "stepsBetween r i j s t \<Longrightarrow> sharesFence t"
  using moved_shares by (auto simp: stepsBetween_def)

lemma stepsBetween_trans:
  assumes "stepsBetween r i j s t" and "stepsBetween r j k t u"
  shows "stepsBetween r i k s u"
  using assms moved_trans [of "opsBetween r i j" s t "opsBetween r j k" u] opsBetween_split [of i j k r]
  by (simp add: stepsBetween_def)

lemma stepsBetween_widen: "stepsBetween r i j s t \<Longrightarrow> i' \<le> i \<Longrightarrow> j \<le> j' \<Longrightarrow> stepsBetween r i' j' s t"
proof -
  assume s: "stepsBetween r i j s t" and le: "i' \<le> i" "j \<le> j'"
  have "opsBetween r i j \<le> opsBetween r i' j'"
    unfolding opsBetween_def using le by (intro sum_mono2) auto
  with s le show "stepsBetween r i' j' s t" by (auto simp: stepsBetween_def intro: moved_mono)
qed

lemma stepsBetween_env: "sharesFence s \<Longrightarrow> stepsBetween r i (Suc i) s (env r i s)"
  using moved_applyOps [of s "prOps r i"] by (simp add: stepsBetween_def env_def opsBetween_def)

lemma stepsBetween_env_after [stepsBetween_intro]:
  assumes "stepsBetween r i j s t" and "j \<le> k"
  shows "stepsBetween r i (Suc k) s (env r k t)"
proof (rule stepsBetween_trans)
  show "stepsBetween r i k s t" by (rule stepsBetween_widen [OF assms(1)]) (use assms(2) in simp_all)
  show "stepsBetween r k (Suc k) t (env r k t)" by (rule stepsBetween_env [OF stepsBetween_shares [OF assms(1)]])
qed

lemma stepsBetween_moved:
  assumes "stepsBetween r i j s t" and "\<And>n. moved n t u"
  shows "stepsBetween r i j s u"
  using assms moved_trans [of "opsBetween r i j" s t 0 u] by (simp add: stepsBetween_def)

lemma stepsBetween_between:
  assumes "stepsBetween r i j s t" and "stepsBetween r j k t u" and "opsBetween r i k < 2 ^ 64"
    and "runtimeSnapshot u = runtimeSnapshot s"
  shows "samePolicy s t" and "samePolicy t u" and "runtimeSnapshot t = runtimeSnapshot s"
proof -
  have le: "i \<le> j" "j \<le> k" and m: "moved (opsBetween r i j) s t" "moved (opsBetween r j k) t u"
    using assms(1,2) by (simp_all add: stepsBetween_def)
  have "opsBetween r i j + opsBetween r j k < 2 ^ 64"
    using assms(3) opsBetween_split [OF le] by simp
  from moved_between [OF m this assms(4)]
  show "samePolicy s t" and "samePolicy t u" and "runtimeSnapshot t = runtimeSnapshot s" by blast+
qed

end
