(* ===== verification/PreparedSchema.thy ===== *)
theory PreparedSchema
  imports Complex_Main DispatchFence
begin

text \<open>
  The parameter schemas of prepared calls (\<open>tools/prepared_registry.go\<close>): the closed subset of JSON
  schema a registration may use, and the check of the frozen arguments against it. Every fault of
  a schema is \<open>ErrPreparedSchemaInvalid\<close>, so the check of a schema is a Boolean here; a fault of the
  arguments is a \<open>ToolFault\<close>. Go visits maps in any order, the model in the order of the list, so
  only the choice among several faults differs.
\<close>

section \<open>Values\<close>

definition argOf :: "go_any \<Rightarrow> string \<Rightarrow> go_any option" where
  "argOf args key = (case args of AnyMap kvs \<Rightarrow> map_of kvs key | _ \<Rightarrow> None)"

definition stringArg :: "go_any \<Rightarrow> string \<Rightarrow> string option" where
  "stringArg args key = (case argOf args key of Some (AnyString s) \<Rightarrow> Some s | _ \<Rightarrow> None)"

definition schemaArray :: "go_any \<Rightarrow> go_any list option" where
  "schemaArray v = (case v of AnyList vs \<Rightarrow> Some vs | _ \<Rightarrow> None)"

text \<open>The first fault in a list of checks.\<close>

fun firstFault :: "'e option list \<Rightarrow> 'e option" where
  "firstFault [] = None"
| "firstFault (Some e # es) = Some e"
| "firstFault (None # es) = firstFault es"

lemma firstFault_None: "firstFault es = None \<longleftrightarrow> (\<forall>e \<in> set es. e = None)"
  by (induction es rule: firstFault.induct) auto

lemma firstFault_Some: "firstFault es = Some e \<Longrightarrow> Some e \<in> set es"
  by (induction es rule: firstFault.induct) auto

lemma firstFault_cong [fundef_cong]:
  "xs = ys \<Longrightarrow> firstFault xs = firstFault ys"
  by simp

section \<open>Numbers\<close>

text \<open>
  \<open>schemaRational\<close>: the text of a number, at most 256 bytes, is a JSON number with an exponent of
  at most 1024; its value is an exact rational.
\<close>

definition isDigit :: "char \<Rightarrow> bool" where
  "isDigit c \<longleftrightarrow> CHR ''0'' \<le> c \<and> c \<le> CHR ''9''"

definition digitsValue :: "string \<Rightarrow> nat" where
  "digitsValue ds = foldl (\<lambda>n c. 10 * n + (of_char c - 48)) 0 ds"

text \<open>The integer digits, without leading zeros, and the rest.\<close>

definition readInteger :: "string \<Rightarrow> (string \<times> string) option" where
  "readInteger t = (let ds = takeWhile isDigit t; rest = dropWhile isDigit t in
     if ds = [] \<or> (hd ds = CHR ''0'' \<and> ds \<noteq> ''0'') then None else Some (ds, rest))"

definition readFraction :: "string \<Rightarrow> (string \<times> string) option" where
  "readFraction t = (case t of
      c # u \<Rightarrow> if c = CHR ''.'' then
          let ds = takeWhile isDigit u in if ds = [] then None else Some (ds, dropWhile isDigit u)
        else Some ([], t)
    | [] \<Rightarrow> Some ([], t))"

definition readExponent :: "string \<Rightarrow> int option" where
  "readExponent t = (case t of
      [] \<Rightarrow> Some 0
    | c # u \<Rightarrow>
        if c \<noteq> CHR ''e'' \<and> c \<noteq> CHR ''E'' then None
        else let neg = (u \<noteq> [] \<and> hd u = CHR ''-''); ds = (if u \<noteq> [] \<and> hd u \<in> {CHR ''-'', CHR ''+''} then tl u else u) in
          if ds = [] \<or> \<not> list_all isDigit ds \<or> digitsValue ds > 1024 then None
          else Some (if neg then - int (digitsValue ds) else int (digitsValue ds)))"

definition scaleTen :: "int \<Rightarrow> int \<Rightarrow> rat" where
  "scaleTen n e = (if 0 \<le> e then of_int n * 10 ^ nat e else of_int n / 10 ^ nat (- e))"

definition schemaNumber :: "string \<Rightarrow> rat option" where
  "schemaNumber text =
     (if text = [] \<or> 256 < length text then None
      else let neg = (hd text = CHR ''-''); t = (if neg then tl text else text) in
        case readInteger t of
          None \<Rightarrow> None
        | Some (ds, r1) \<Rightarrow>
            (case readFraction r1 of
               None \<Rightarrow> None
             | Some (fs, r2) \<Rightarrow>
                 (case readExponent r2 of
                    None \<Rightarrow> None
                  | Some e \<Rightarrow>
                      let n = int (digitsValue (ds @ fs)) in
                      Some (scaleTen (if neg then - n else n) (e - int (length fs))))))"

definition schemaRational :: "go_any \<Rightarrow> rat option" where
  "schemaRational v = (case v of AnyNumber text \<Rightarrow> schemaNumber text | _ \<Rightarrow> None)"

definition ratIsInt :: "rat \<Rightarrow> bool" where
  "ratIsInt r \<longleftrightarrow> snd (quotient_of r) = 1"

text \<open>Elements are smaller than the tree that holds them.\<close>

lemma size_in_list: "v \<in> set vs \<Longrightarrow> size v < size (AnyList vs)"
  by (induction vs) auto

lemma size_in_zip: "p \<in> set (zip vs ws) \<Longrightarrow> size (fst p) < size (AnyList vs)"
  by (metis size_in_list set_zip_leftD prod.collapse)

lemma size_in_map: "p \<in> set kvs \<Longrightarrow> size (snd p) < size (AnyMap kvs)"
  by (induction kvs) auto

lemma size_lookup: "map_of kvs k = Some v \<Longrightarrow> size v < size (AnyMap kvs)"
  using size_in_map [OF map_of_SomeD] by fastforce

lemma size_in_lookup: "p \<in> set ps \<Longrightarrow> map_of kvs k = Some (AnyMap ps) \<Longrightarrow> size (snd p) < size (AnyMap kvs)"
  by (rule less_trans [OF size_in_map size_lookup])

section \<open>Types\<close>

definition valueMatchesType :: "go_any \<Rightarrow> string \<Rightarrow> bool" where
  "valueMatchesType v t =
     (if t = ''string'' then (case v of AnyString _ \<Rightarrow> True | _ \<Rightarrow> False)
      else if t = ''number'' then schemaRational v \<noteq> None
      else if t = ''integer'' then (case schemaRational v of None \<Rightarrow> False | Some r \<Rightarrow> ratIsInt r)
      else if t = ''boolean'' then (case v of AnyBool _ \<Rightarrow> True | _ \<Rightarrow> False)
      else if t = ''array'' then schemaArray v \<noteq> None
      else if t = ''object'' then (case v of AnyMap _ \<Rightarrow> True | _ \<Rightarrow> False)
      else False)"

text \<open>\<open>reflect.DeepEqual\<close> on JSON trees: objects are compared as maps.\<close>

function deepEqual :: "go_any \<Rightarrow> go_any \<Rightarrow> bool" where
  "deepEqual v w = (case (v, w) of
      (AnyList vs, AnyList ws) \<Rightarrow> length vs = length ws \<and> (\<forall>p \<in> set (zip vs ws). deepEqual (fst p) (snd p))
    | (AnyMap kvs, AnyMap kws) \<Rightarrow>
        length kvs = length kws \<and>
        (\<forall>p \<in> set kvs. (case map_of kws (fst p) of None \<Rightarrow> False | Some w' \<Rightarrow> deepEqual (snd p) w'))
    | _ \<Rightarrow> v = w)"
  by pat_completeness auto
termination
  by (relation "measure (size \<circ> fst)")
    (auto simp del: go_any.size dest: size_in_list size_in_zip size_in_map size_lookup size_in_lookup)

declare deepEqual.simps [simp del]

section \<open>Schemas\<close>

definition schemaKeywords :: "string list" where
  "schemaKeywords = [''type'', ''description'', ''properties'', ''required'', ''additionalProperties'', ''enum'', ''items'',
     ''minimum'', ''maximum'']"

definition schemaTypes :: "string list" where
  "schemaTypes = [''object'', ''array'', ''string'', ''number'', ''integer'', ''boolean'']"

text \<open>The declared names of \<open>required\<close>; \<open>None\<close> is a malformed list.\<close>

fun requiredFrom :: "string list \<Rightarrow> string list \<Rightarrow> go_any list \<Rightarrow> string list option" where
  "requiredFrom props seen [] = Some seen"
| "requiredFrom props seen (item # items) = (case item of
      AnyString name \<Rightarrow>
        if name = [] \<or> name \<in> set seen \<or> name \<notin> set props then None
        else requiredFrom props (seen @ [name]) items
    | _ \<Rightarrow> None)"

definition propertiesOf :: "(string \<times> go_any) list \<Rightarrow> (string \<times> go_any) list option" where
  "propertiesOf schema = (case map_of schema ''properties'' of Some (AnyMap ps) \<Rightarrow> Some ps | _ \<Rightarrow> None)"

definition preparedRequiredNames :: "(string \<times> go_any) list \<Rightarrow> string list option" where
  "preparedRequiredNames schema = (case map_of schema ''required'' of
      None \<Rightarrow> Some []
    | Some v \<Rightarrow> (case schemaArray v of
        None \<Rightarrow> None
      | Some items \<Rightarrow> requiredFrom (map fst (case propertiesOf schema of None \<Rightarrow> [] | Some ps \<Rightarrow> ps)) [] items))"

definition boundOf :: "(string \<times> go_any) list \<Rightarrow> string \<Rightarrow> rat option" where
  "boundOf schema key = (case map_of schema key of None \<Rightarrow> None | Some v \<Rightarrow> schemaRational v)"

definition hasKey :: "(string \<times> go_any) list \<Rightarrow> string \<Rightarrow> bool" where
  "hasKey schema key \<longleftrightarrow> map_of schema key \<noteq> None"

text \<open>The checks of one node without those of its children.\<close>

definition nodeShape :: "(string \<times> go_any) list \<Rightarrow> bool \<Rightarrow> bool" where
  "nodeShape schema atRoot \<longleftrightarrow>
     list_all (\<lambda>kv. fst kv \<in> set schemaKeywords) schema \<and>
     (case map_of schema ''type'' of
        Some (AnyString t) \<Rightarrow>
          (atRoot \<longrightarrow> t = ''object'') \<and> t \<in> set schemaTypes \<and>
          (case map_of schema ''description'' of None \<Rightarrow> True | Some (AnyString _) \<Rightarrow> True | _ \<Rightarrow> False) \<and>
          (case map_of schema ''enum'' of None \<Rightarrow> True
           | Some v \<Rightarrow> (case schemaArray v of None \<Rightarrow> False
               | Some values \<Rightarrow> values \<noteq> [] \<and> list_all (\<lambda>item. valueMatchesType item t) values)) \<and>
          (t \<noteq> ''object'' \<longrightarrow> \<not> hasKey schema ''properties'' \<and> \<not> hasKey schema ''required''
             \<and> \<not> hasKey schema ''additionalProperties'') \<and>
          (t \<noteq> ''array'' \<longrightarrow> \<not> hasKey schema ''items'') \<and>
          (t \<noteq> ''number'' \<and> t \<noteq> ''integer'' \<longrightarrow> \<not> hasKey schema ''minimum'' \<and> \<not> hasKey schema ''maximum'') \<and>
          (hasKey schema ''minimum'' \<longrightarrow> boundOf schema ''minimum'' \<noteq> None) \<and>
          (hasKey schema ''maximum'' \<longrightarrow> boundOf schema ''maximum'' \<noteq> None) \<and>
          (case (boundOf schema ''minimum'', boundOf schema ''maximum'') of
             (Some lo, Some hi) \<Rightarrow> lo \<le> hi | _ \<Rightarrow> True)
      | _ \<Rightarrow> False)"

definition additionalShape :: "(string \<times> go_any) list \<Rightarrow> bool" where
  "additionalShape schema \<longleftrightarrow>
     (case map_of schema ''additionalProperties'' of None \<Rightarrow> True | Some (AnyBool _) \<Rightarrow> True | _ \<Rightarrow> False)"

function validSchemaNode :: "go_any \<Rightarrow> bool \<Rightarrow> bool" where
  "validSchemaNode value atRoot = (case value of
      AnyMap schema \<Rightarrow>
        nodeShape schema atRoot \<and>
        (if map_of schema ''type'' = Some (AnyString ''object'') then
           (case map_of schema ''properties'' of
              Some (AnyMap ps) \<Rightarrow>
                additionalShape schema \<and>
                (\<forall>p \<in> set ps. fst p \<noteq> [] \<and> validSchemaNode (snd p) False) \<and>
                preparedRequiredNames schema \<noteq> None
            | _ \<Rightarrow> False)
         else if map_of schema ''type'' = Some (AnyString ''array'') then
           (case map_of schema ''items'' of None \<Rightarrow> False | Some item \<Rightarrow> validSchemaNode item False)
         else True)
    | _ \<Rightarrow> False)"
  by pat_completeness auto
termination
  by (relation "measure (size \<circ> fst)")
    (auto simp del: go_any.size dest: size_in_list size_in_zip size_in_map size_lookup size_in_lookup)

declare validSchemaNode.simps [simp del]

section \<open>Arguments\<close>

definition argumentFault :: "string \<Rightarrow> tool_error" where
  "argumentFault what = ToolFault what"

definition validateRequired :: "(string \<times> go_any) list \<Rightarrow> (string \<times> go_any) list \<Rightarrow> tool_error option" where
  "validateRequired args schema = (case preparedRequiredNames schema of
      None \<Rightarrow> Some ErrPreparedSchemaInvalid
    | Some names \<Rightarrow> firstFault (map (\<lambda>name.
        if hasKey args name then None else Some (argumentFault ''missing required parameter'')) names))"

definition enumFault :: "go_any \<Rightarrow> (string \<times> go_any) list \<Rightarrow> tool_error option" where
  "enumFault value schema = (case map_of schema ''enum'' of
      None \<Rightarrow> None
    | Some enum \<Rightarrow> (case schemaArray enum of
        None \<Rightarrow> Some ErrPreparedSchemaInvalid
      | Some values \<Rightarrow>
          if list_ex (\<lambda>candidate. deepEqual value candidate \<or>
               (case (schemaRational value, schemaRational candidate) of
                  (Some left, Some right) \<Rightarrow> left = right | _ \<Rightarrow> False)) values
          then None else Some (argumentFault ''not an allowed value'')))"

definition boundFault :: "rat \<Rightarrow> (string \<times> go_any) list \<Rightarrow> string \<Rightarrow> (rat \<Rightarrow> rat \<Rightarrow> bool) \<Rightarrow> tool_error option" where
  "boundFault n schema key inside = (case map_of schema key of
      None \<Rightarrow> None
    | Some raw \<Rightarrow> (case schemaRational raw of
        None \<Rightarrow> Some ErrPreparedSchemaInvalid
      | Some b \<Rightarrow> if inside n b then None else Some (argumentFault ''out of bounds'')))"

definition numberFault :: "rat \<Rightarrow> (string \<times> go_any) list \<Rightarrow> tool_error option" where
  "numberFault n schema = (case boundFault n schema ''minimum'' (\<ge>) of
      Some e \<Rightarrow> Some e
    | None \<Rightarrow> boundFault n schema ''maximum'' (\<le>))"

definition isFalse :: "(string \<times> go_any) list \<Rightarrow> bool" where
  "isFalse schema \<longleftrightarrow> map_of schema ''additionalProperties'' = Some (AnyBool False)"

function validateSchemaValue :: "go_any \<Rightarrow> (string \<times> go_any) list \<Rightarrow> tool_error option" where
  "validateSchemaValue value schema = (case map_of schema ''type'' of
      Some (AnyString t) \<Rightarrow>
        if \<not> valueMatchesType value t then Some (argumentFault ''wrong type'')
        else (case enumFault value schema of
            Some e \<Rightarrow> Some e
          | None \<Rightarrow>
              if t = ''object'' then
                (case value of
                   AnyMap obj \<Rightarrow>
                     (case validateRequired obj schema of
                        Some e \<Rightarrow> Some e
                      | None \<Rightarrow>
                          (case propertiesOf schema of
                             None \<Rightarrow> Some ErrPreparedSchemaInvalid
                           | Some ps \<Rightarrow> firstFault (map (\<lambda>p.
                               (case map_of ps (fst p) of
                                  None \<Rightarrow> if isFalse schema then Some (argumentFault ''unexpected property'') else None
                                | Some (AnyMap s) \<Rightarrow> validateSchemaValue (snd p) s
                                | Some _ \<Rightarrow> Some ErrPreparedSchemaInvalid)) obj)))
                 | _ \<Rightarrow> Some (argumentFault ''must be an object''))
              else if t = ''array'' then
                (case value of
                   AnyList items \<Rightarrow>
                     (case map_of schema ''items'' of
                        Some (AnyMap s) \<Rightarrow> firstFault (map (\<lambda>item. validateSchemaValue item s) items)
                      | _ \<Rightarrow> Some ErrPreparedSchemaInvalid)
                 | _ \<Rightarrow> Some (argumentFault ''must be an array''))
              else if t = ''number'' \<or> t = ''integer'' then
                (case schemaRational value of
                   None \<Rightarrow> Some (argumentFault ''must be a number'')
                 | Some n \<Rightarrow> numberFault n schema)
              else None)
    | _ \<Rightarrow> Some ErrPreparedSchemaInvalid)"
  by pat_completeness auto
termination
  by (relation "measure (size \<circ> fst)")
    (auto simp del: go_any.size dest: size_in_list size_in_zip size_in_map size_lookup size_in_lookup)

declare validateSchemaValue.simps [simp del]

definition validateCapturedSchema :: "go_any \<Rightarrow> go_any \<Rightarrow> tool_error option" where
  "validateCapturedSchema args schema =
     (if \<not> validSchemaNode schema True then Some ErrPreparedSchemaInvalid
      else (case schema of
          AnyMap schema0 \<Rightarrow>
            (case propertiesOf schema0 of
               None \<Rightarrow> Some ErrPreparedSchemaInvalid
             | Some ps \<Rightarrow>
                 let kvs = (case args of AnyMap kvs \<Rightarrow> kvs | _ \<Rightarrow> []) in
                 (case validateRequired kvs schema0 of
                    Some e \<Rightarrow> Some e
                  | None \<Rightarrow> firstFault (map (\<lambda>p.
                      (case map_of ps (fst p) of
                         None \<Rightarrow> if isFalse schema0 then Some (argumentFault ''unexpected parameter'') else None
                       | Some (AnyMap s) \<Rightarrow> validateSchemaValue (snd p) s
                       | Some _ \<Rightarrow> Some ErrPreparedSchemaInvalid)) kvs)))
        | _ \<Rightarrow> Some ErrPreparedSchemaInvalid))"

end
