(* ===== verification/PreparedDispatch.thy ===== *)
theory PreparedDispatch
  imports PreparedPolicy PreparedSchema
begin

text \<open>
  Preparation and dispatch of one tool call (\<open>tools/prepared_registry.go\<close>, \<open>tools/prepared.go\<close>): the
  registration is pinned with the generations of the fence, arguments are normalised, frozen and
  validated, the policy decides, and the invocation it admits is dispatched at most once, after a
  last comparison of the generations under the fence.
\<close>

section \<open>Frozen calls\<close>

text \<open>\<open>cloneProtocolJSON\<close> copies a value of the JSON protocol tree and rejects any other.\<close>

fun protocolJSON :: "nat \<Rightarrow> go_any \<Rightarrow> bool" where
  "protocolJSON depth AnyNil = (depth \<le> 128)"
| "protocolJSON depth (AnyBool _) = (depth \<le> 128)"
| "protocolJSON depth (AnyNumber _) = (depth \<le> 128)"
| "protocolJSON depth (AnyString _) = (depth \<le> 128)"
| "protocolJSON depth (AnyList vs) = (depth \<le> 128 \<and> list_all (protocolJSON (depth + 1)) vs)"
| "protocolJSON depth (AnyMap kvs) = (depth \<le> 128 \<and> list_all (\<lambda>kv. protocolJSON (depth + 1) (snd kv)) kvs)"
| "protocolJSON depth AnyNonStringMap = False"
| "protocolJSON depth AnyBytes = (depth \<le> 128)"
| "protocolJSON depth (AnyMarshaler _) = False"
| "protocolJSON depth (AnyUnsupported _) = False"

definition freezeToolCall :: "(go_any \<Rightarrow> tool_error + string) \<Rightarrow> tool_call \<Rightarrow> tool_error + (tool_call \<times> string)" where
  "freezeToolCall digest call =
     (if \<not> protocolJSON 0 (tcArgs call) then Inl (ToolFault ''prepared value is not JSON-compatible'')
      else bindR (digest (tcArgs call)) (\<lambda>d. Inr (call, d)))"

definition matchesFrozenCall :: "(go_any \<Rightarrow> tool_error + string) \<Rightarrow> tool_call \<Rightarrow> tool_call \<times> string \<Rightarrow> bool" where
  "matchesFrozenCall digest call frozen =
     (if tcID call \<noteq> tcID (fst frozen) \<or> tcName call \<noteq> tcName (fst frozen) then False
      else case freezeToolCall digest call of Inl _ \<Rightarrow> False | Inr candidate \<Rightarrow> snd candidate = snd frozen)"

section \<open>Mutation payloads\<close>

definition mutationToolNames :: "string list" where
  "mutationToolNames = [''write'', ''edit'']"

definition mutationPathFromCall :: "tool_call \<Rightarrow> string" where
  "mutationPathFromCall call = (case stringArg (tcArgs call) ''path'' of
      Some v \<Rightarrow> v
    | None \<Rightarrow> (case stringArg (tcArgs call) ''file_path'' of Some v \<Rightarrow> v | None \<Rightarrow> []))"

definition validateMutationPayload :: "tool_call \<Rightarrow> tool_error option" where
  "validateMutationPayload call =
     (if tcName call = ''write'' then
        if stringArg (tcArgs call) ''content'' = None then Some (ToolFault ''write requires content'') else None
      else if tcName call = ''edit'' then
        if stringArg (tcArgs call) ''old_string'' = None then Some (ToolFault ''edit requires old_string'')
        else if stringArg (tcArgs call) ''new_string'' = None then Some (ToolFault ''edit requires new_string'')
        else None
      else None)"

section \<open>Preparation\<close>

text \<open>
  The pipeline of the registry and what its stages do: a normaliser is the reviewed path
  normaliser or not, and the path check and the argument digest are functions.
  \<open>phContext\<close> is the error of the context at the first check and at the observer.
\<close>

record prepare_host =
  phContext :: "nat \<Rightarrow> tool_error option"
  phPolicyConfigured :: bool
  phStagesConfigured :: bool
  phOpaqueWrapper :: bool
  phPreparers :: "(bool \<times> (tool_call \<Rightarrow> tool_error + tool_call)) option list"
  phQueue :: bool
  phDigest :: "go_any \<Rightarrow> tool_error + string"
  phReadPathCheck :: "nat \<Rightarrow> tool_call \<Rightarrow> tool_error option"
  phObserver :: "(trusted_identity \<Rightarrow> string \<Rightarrow> tool_error option) option"

record prepared_invocation =
  ivGenerations :: fence_snapshot
  ivIdentity :: trusted_identity
  ivEffects :: "tool_effect list"
  ivTrustRoot :: "string option"
  ivDefinition :: nat
  ivFrozen :: "tool_call \<times> string"
  ivScheduled :: bool
  ivObserver :: "(string \<times> string \<times> string) option"
  ivConsumed :: bool
  ivCommitted :: bool
  ivTerminalObserved :: bool

fun failWith :: "tool_error option \<Rightarrow> tool_error + unit" where
  "failWith None = Inr ()"
| "failWith (Some e) = Inl e"

definition require :: "bool \<Rightarrow> tool_error \<Rightarrow> tool_error + unit" where
  "require b e = (if b then Inr () else Inl e)"

fun normalizeCall :: "(bool \<times> (tool_call \<Rightarrow> tool_error + tool_call)) option list \<Rightarrow> tool_call \<Rightarrow> tool_call
    \<Rightarrow> tool_error + tool_call" where
  "normalizeCall [] call normalized = Inr normalized"
| "normalizeCall (None # ps) call normalized = normalizeCall ps call normalized"
| "normalizeCall (Some (isPathNormalizer, prepare) # ps) call normalized =
     (if \<not> isPathNormalizer then Inl ErrPreparedNormalizerUnsupported
      else bindR (prepare normalized) (\<lambda>n.
        if tcName n \<noteq> tcName call \<or> tcID n \<noteq> tcID call then Inl ErrPreparedCallMutation
        else normalizeCall ps call n))"

text \<open>The checks between the registry snapshot and the policy: the frozen call, or the error.\<close>

definition validatePrepared ::
  "prepare_host \<Rightarrow> (trusted_identity \<times> u64) option \<Rightarrow> bool \<Rightarrow> tool_registration \<Rightarrow> fence_snapshot \<Rightarrow> tool_call
     \<Rightarrow> tool_error + (tool_call \<times> string)" where
  "validatePrepared h pin sink reg g call =
     bindR (require (case pin of None \<Rightarrow> True | Some (i, n) \<Rightarrow> trIdentity reg = i \<and> fnRegistry g = n)
             ErrPreparedProxyRegistrationStale) (\<lambda>_.
     bindR (require (sink \<longrightarrow> trStreaming reg) (ToolFault ''prepared executor is unavailable'')) (\<lambda>_.
     bindR (require (phPolicyConfigured h \<and> phStagesConfigured h) ErrPreparedToolPolicyUnavailable) (\<lambda>_.
     bindR (require (\<not> phOpaqueWrapper h) ErrPreparedOpaqueWrapperUnsupported) (\<lambda>_.
     bindR (require (ttToolName (trIdentity reg) = tcName call) ErrPreparedRegistrationUnavailable) (\<lambda>_.
     bindR (require (tcName call \<in> set mutationToolNames \<longrightarrow> phQueue h) ErrPreparedMutationQueueUnavailable) (\<lambda>_.
     bindR (normalizeCall (phPreparers h) call call) (\<lambda>normalized.
     bindR (freezeToolCall (phDigest h) normalized) (\<lambda>frozen.
     bindR (failWith (case trSchema reg of None \<Rightarrow> None | Some schema \<Rightarrow> validateCapturedSchema (tcArgs (fst frozen)) schema)) (\<lambda>_.
     bindR (failWith (if tcName call \<in> set mutationToolNames then validateMutationPayload (fst frozen) else None)) (\<lambda>_.
     bindR (require (tcName call \<in> set mutationToolNames \<longrightarrow> mutationPathFromCall (fst frozen) \<noteq> [])
             (ToolFault ''prepared mutation has no file path'')) (\<lambda>_.
     bindR (failWith (if EffectWorkspaceRead \<in> set (effectSetValues (trEffects reg))
                      then phReadPathCheck h (trDefinition reg) (fst frozen) else None)) (\<lambda>_.
     bindR (failWith (case phObserver h of None \<Rightarrow> None
                      | Some observer \<Rightarrow> (case phContext h 1 of
                          Some e \<Rightarrow> Some e
                        | None \<Rightarrow> observer (trIdentity reg) (snd frozen)))) (\<lambda>_.
     Inr frozen)))))))))))))"

definition policyRequest :: "nat \<Rightarrow> tool_registration \<Rightarrow> fence_snapshot \<Rightarrow> tool_call \<times> string \<Rightarrow> prepared_request" where
  "policyRequest fence reg g frozen =
     \<lparr> rqCall = fst frozen, rqArgumentDigest = snd frozen, rqIdentity = trIdentity reg,
       rqEffects = newTrustedEffectSet (effectSetValues (trEffects reg)), rqSchemaDigest = trSchemaDigest reg,
       rqGenerations = g, rqFence = Some fence \<rparr>"

definition newInvocation :: "tool_registration \<Rightarrow> policy_decision \<Rightarrow> tool_call \<times> string \<Rightarrow> prepared_invocation" where
  "newInvocation reg d frozen =
     \<lparr> ivGenerations = pdGenerations d, ivIdentity = trIdentity reg,
       ivEffects = newTrustedEffectSet (effectSetValues (trEffects reg)), ivTrustRoot = trTrustRoot reg,
       ivDefinition = trDefinition reg, ivFrozen = frozen,
       ivScheduled = (tcName (fst frozen) \<in> set mutationToolNames), ivObserver = pdObserver d,
       ivConsumed = False, ivCommitted = False, ivTerminalObserved = False \<rparr>"

text \<open>\<open>before\<close> are the steps of other goroutines between the registry snapshot and the policy.\<close>

definition prepareToolCall ::
  "approval_config \<Rightarrow> prepare_host \<Rightarrow> policy_run \<Rightarrow> runtime_op list \<Rightarrow> (trusted_identity \<times> u64) option \<Rightarrow> bool
     \<Rightarrow> tool_call \<Rightarrow> tool_runtime \<Rightarrow> (tool_error + (prepared_invocation \<times> policy_decision)) \<times> tool_runtime" where
  "prepareToolCall cf h r before pin sink call s =
     (case phContext h 0 of
        Some e \<Rightarrow> (Inl e, s)
      | None \<Rightarrow>
          if tcName call = [] then (Inl (ToolFault ''prepared call has no tool name''), s)
          else (case toolRegistrationSnapshot (tcName call) s of
              Inl e \<Rightarrow> (Inl e, s)
            | Inr (reg, g) \<Rightarrow>
                (let s1 = applyOps before s in
                 case validatePrepared h pin sink reg g call of
                   Inl e \<Rightarrow> (Inl e, s1)
                 | Inr frozen \<Rightarrow>
                     (case preparedPolicy cf r (policyRequest (rtRegistryFence s1) reg g frozen) s1 of
                        (Inl e, s2) \<Rightarrow> (Inl e, s2)
                      | (Inr d, s2) \<Rightarrow>
                          if pdGenerations d \<noteq> g then (Inl ErrDispatchFenceChanged, s2)
                          else (Inr (newInvocation reg d frozen, d), s2)))))"

section \<open>The executor\<close>

text \<open>
  The wrappers of the pipeline hand calls down to the captured executor. It runs the definition
  for the first call only, and only when that call is the frozen one; the definition gets the
  frozen call.
\<close>

fun preparedExecutor ::
  "(go_any \<Rightarrow> tool_error + string) \<Rightarrow> tool_call \<times> string \<Rightarrow> bool \<Rightarrow> tool_call list \<Rightarrow> tool_error option list \<times> tool_call list" where
  "preparedExecutor digest frozen entered [] = ([], [])"
| "preparedExecutor digest frozen entered (call # calls) =
     (let (errs, ran) = preparedExecutor digest frozen True calls in
      if entered then (Some ErrPreparedInvocationConsumed # errs, ran)
      else if \<not> matchesFrozenCall digest call frozen then (Some ErrPreparedCallMutation # errs, ran)
      else (None # errs, fst frozen # ran))"

section \<open>Dispatch\<close>

text \<open>
  What one dispatch meets. The context is checked before the queue, before the lease, inside the
  commit and after it. \<open>dxAttempts\<close> are the calls the wrappers hand to the executor and \<open>dxResult\<close>
  is what they return: an error, or a result and its error flag.
\<close>

datatype dispatch_lease = NoLease | LeaseHeld | LeaseFailed tool_error

record dispatch_run =
  dxContext :: "nat \<Rightarrow> tool_error option"
  dxQueue :: "tool_error option"
  dxAbandoned :: bool
  dxLease :: dispatch_lease
  dxTrust :: "tool_error option"
  dxOps :: "runtime_op list"
  dxDigest :: "go_any \<Rightarrow> tool_error + string"
  dxAttempts :: "tool_call list"
  dxResult :: "tool_error + bool"
  dxCleanupPending :: bool

record dispatch_outcome =
  doResult :: "tool_error + bool"
  doInvocation :: prepared_invocation
  doState :: tool_runtime
  doRan :: "tool_call list"

definition commitInvocation ::
  "dispatch_run \<Rightarrow> prepared_invocation \<Rightarrow> tool_runtime \<Rightarrow> (tool_error + unit) \<times> prepared_invocation" where
  "commitInvocation x iv s =
     (case (if ivTrustRoot iv \<noteq> None then dxTrust x else None) of
        Some e \<Rightarrow> (Inl e, iv)
      | None \<Rightarrow>
          (case commitFence (ivGenerations iv) (rtFence s) of
             Inl e \<Rightarrow> (Inl e, iv)
           | Inr _ \<Rightarrow> (case dxContext x 2 of
               Some e \<Rightarrow> (Inl e, iv)
             | None \<Rightarrow> (Inr (), iv \<lparr> ivCommitted := True \<rparr>))))"

definition commitAndInvoke :: "dispatch_run \<Rightarrow> prepared_invocation \<Rightarrow> tool_runtime \<Rightarrow> dispatch_outcome" where
  "commitAndInvoke x iv s =
     (let fail = (\<lambda>e iv. \<lparr> doResult = Inl e, doInvocation = iv, doState = s, doRan = [] \<rparr>) in
      case dxContext x 1 of
        Some e \<Rightarrow> fail e iv
      | None \<Rightarrow>
          (case dxLease x of
             LeaseFailed e \<Rightarrow> fail ErrPreparedDispatchLeaseUnavailable iv
           | _ \<Rightarrow>
               (case commitInvocation x iv s of
                  (Inl e, iv') \<Rightarrow> fail e iv'
                | (Inr _, iv') \<Rightarrow>
                    (case dxContext x 3 of
                       Some e \<Rightarrow> fail e iv'
                     | None \<Rightarrow>
                         \<lparr> doResult = dxResult x, doInvocation = iv', doState = s,
                           doRan = snd (preparedExecutor (dxDigest x) (ivFrozen iv) False (dxAttempts x)) \<rparr>))))"

text \<open>
  A mutation runs on the queue: a caller that stops waiting returns the context's error while the
  queued job still goes through the same commit.
\<close>

definition dispatchInvocation :: "dispatch_run \<Rightarrow> prepared_invocation \<Rightarrow> tool_runtime \<Rightarrow> dispatch_outcome" where
  "dispatchInvocation x iv s =
     (let fail = (\<lambda>e iv. \<lparr> doResult = Inl e, doInvocation = iv, doState = s, doRan = [] \<rparr>) in
      if ivConsumed iv then fail ErrPreparedInvocationConsumed iv
      else
        let iv1 = iv \<lparr> ivConsumed := True \<rparr> in
        (case dxContext x 0 of
           Some e \<Rightarrow> fail e iv1
         | None \<Rightarrow>
             if ivScheduled iv1 then
               (case dxQueue x of
                  Some e \<Rightarrow> fail e iv1
                | None \<Rightarrow>
                    (let o1 = commitAndInvoke x iv1 (applyOps (dxOps x) s) in
                     if dxAbandoned x then o1 \<lparr> doResult := Inl ToolContext \<rparr> else o1))
             else commitAndInvoke x iv1 (applyOps (dxOps x) s)))"

text \<open>Several dispatches of one invocation, with what happens between them.\<close>

fun dispatchAll :: "dispatch_run list \<Rightarrow> prepared_invocation \<Rightarrow> tool_runtime \<Rightarrow> tool_call list" where
  "dispatchAll [] iv s = []"
| "dispatchAll (x # xs) iv s =
     (let o1 = dispatchInvocation x iv s in doRan o1 @ dispatchAll xs (doInvocation o1) (doState o1))"

text \<open>The guard of an effect that a running executor starts.\<close>

definition effectStartAllowed :: "dispatch_run \<Rightarrow> prepared_invocation \<Rightarrow> tool_runtime \<Rightarrow> tool_error + unit" where
  "effectStartAllowed x iv s =
     (case (if ivTrustRoot iv \<noteq> None then dxTrust x else None) of
        Some e \<Rightarrow> Inl e
      | None \<Rightarrow> (case dxContext x 4 of
          Some e \<Rightarrow> Inl e
        | None \<Rightarrow> if runtimeSnapshot s \<noteq> ivGenerations iv then Inl ErrDispatchFenceChanged else Inr ()))"

section \<open>The terminal outcome\<close>

definition preparedTerminalErrorClass :: "dispatch_run \<Rightarrow> prepared_invocation \<Rightarrow> tool_error + bool \<Rightarrow> string" where
  "preparedTerminalErrorClass x iv res =
     (if ivCommitted iv \<and> dxCleanupPending x then ''cleanup_pending''
      else if res = Inl ToolContext then ''context_canceled''
      else if \<not> ivCommitted iv then (case res of Inl _ \<Rightarrow> ''dispatch_rejected'' | Inr _ \<Rightarrow> ''unknown_error'')
      else (case res of
          Inl _ \<Rightarrow> ''executor_error''
        | Inr isError \<Rightarrow> if isError then ''result_error'' else ''success''))"

text \<open>The observer is called once for an invocation, after its first dispatch.\<close>

definition observeTerminal ::
  "dispatch_run \<Rightarrow> dispatch_outcome \<Rightarrow> (string \<times> bool) option \<times> prepared_invocation" where
  "observeTerminal x out =
     (let iv = doInvocation out in
      if ivObserver iv = None \<or> ivTerminalObserved iv then (None, iv)
      else (Some (preparedTerminalErrorClass x iv (doResult out), ivCommitted iv), iv \<lparr> ivTerminalObserved := True \<rparr>))"

end
