(* ===== verification/PreparedFacts.thy ===== *)
theory PreparedFacts
  imports FenceFacts PreparedDispatch
begin

text \<open>
  What an allowed decision rests on, that it still holds when an invocation commits, and what a
  refusal and a first dispatch make impossible.
\<close>

section \<open>Grounds of a decision\<close>

definition classifierAllows :: "approval_config \<Rightarrow> prepared_request \<Rightarrow> permission_mode \<Rightarrow> bool" where
  "classifierAllows cf req mode \<longleftrightarrow> (case preparedClassifiers cf mode of None \<Rightarrow> False
     | Some c \<Rightarrow> clClassify c (rqCall req) = Allow \<and> preparedClassifierAllowTrusted req mode)"

definition classifierAsks :: "approval_config \<Rightarrow> prepared_request \<Rightarrow> permission_mode \<Rightarrow> bool" where
  "classifierAsks cf req mode \<longleftrightarrow> (case preparedClassifiers cf mode of None \<Rightarrow> False
     | Some c \<Rightarrow> clClassify c (rqCall req) = Ask \<or>
         clClassify c (rqCall req) = Allow \<and> \<not> preparedClassifierAllowTrusted req mode)"

definition answeredWith :: "approval_config \<Rightarrow> policy_run \<Rightarrow> approval_result \<Rightarrow> bool" where
  "answeredWith cf r res \<longleftrightarrow> cfCallback cf \<and> cbError (prAnswer r) = None \<and> cbResult (prAnswer r) = res"

definition freshGround :: "approval_config \<Rightarrow> policy_run \<Rightarrow> prepared_request \<Rightarrow> permission_mode \<Rightarrow> string \<Rightarrow> bool" where
  "freshGround cf r req mode outcome \<longleftrightarrow>
     outcome = ''classifier_allow'' \<and> classifierAllows cf req mode \<or>
     outcome = ''auto_approve'' \<and> classifierAsks cf req mode \<and> \<not> cfCallback cf \<and> cfAutoApprove cf \<or>
     outcome = ''allow_once'' \<and> classifierAsks cf req mode \<and> answeredWith cf r ApprovalAllow \<or>
     outcome = ''always_allow'' \<and> classifierAsks cf req mode \<and> answeredWith cf r ApprovalAlwaysAllow"

definition remembered :: "string \<Rightarrow> string \<Rightarrow> tool_runtime \<Rightarrow> bool" where
  "remembered outcome key s \<longleftrightarrow>
     outcome = ''cached'' \<and> map_of (rtSession s) key = Some Allow \<or>
     outcome = ''always_allow_cache'' \<and> (\<exists>c. rtCache s = Some c \<and> cacheGet c key = Some True) \<or>
     outcome = ''approval_store'' \<and> (\<exists>st. rtStore s = Some st \<and> storeGet st key = Some Allow)"

text \<open>
  The policy of state \<open>s\<close> admits the request: Plan Mode is active and the call is one of its
  reviewed reads and controls, or it is inactive and the classifier of the mode, the operator's
  automatic approval, the user's answer or an allowance remembered for exactly this request,
  mode and policy epochs admits it.
\<close>

definition justified :: "approval_config \<Rightarrow> policy_run \<Rightarrow> prepared_request \<Rightarrow> string \<Rightarrow> tool_runtime \<Rightarrow> bool" where
  "justified cf r req outcome s \<longleftrightarrow>
     validPreparedIdentity (rqIdentity req) (tcName (rqCall req)) \<and> validPermissionMode (preparedMode cf s) \<and>
     (if pmActive (rtPlan s) then outcome = ''plan'' \<and> preparedPlanCallAllowed req (tcName (rqCall req))
      else freshGround cf r req (preparedMode cf s) outcome \<or>
        (\<exists>key. preparedDecisionKey r (decisionKeyInput req (preparedMode cf s) (rtPolicyEpoch s)
                 (cacheEpochOf s) (storeEpochOf s)) = Inr key \<and> remembered outcome key s))"

lemma remembered_mono: "remembered outcome key s \<Longrightarrow> samePolicy s t \<Longrightarrow> remembered outcome key t"
  unfolding remembered_def samePolicy_def grantsKept_def by blast

lemma preparedMode_same: "samePolicy s t \<Longrightarrow> preparedMode cf t = preparedMode cf s"
  by (simp add: samePolicy_def preparedMode_def)

lemma justified_mono:
  assumes "justified cf r req outcome s" and "samePolicy s t"
  shows "justified cf r req outcome t"
proof -
  have eqs: "preparedMode cf t = preparedMode cf s" "rtPlan t = rtPlan s" "rtPolicyEpoch t = rtPolicyEpoch s"
      "cacheEpochOf t = cacheEpochOf s" "storeEpochOf t = storeEpochOf s"
    using assms(2) by (simp_all add: preparedMode_same) (simp_all add: samePolicy_def)
  show ?thesis
    using assms(1) remembered_mono [OF _ assms(2)] unfolding justified_def eqs by (auto split: if_splits)
qed

section \<open>Allowed results\<close>

lemma allowedIfCurrent_Inr:
  "allowedIfCurrent req outcome ob s = (Inr d, u) \<Longrightarrow>
     u = s \<and> current req s \<and> pdOutcome d = outcome \<and> pdGenerations d = rqGenerations req"
  by (auto simp: allowedIfCurrent_def allowed_def split: if_splits)

definition allowedAt :: "policy_run \<Rightarrow> prepared_request \<Rightarrow> nat \<Rightarrow> tool_runtime \<Rightarrow> policy_decision \<Rightarrow> tool_runtime \<Rightarrow> bool" where
  "allowedAt r req i s d u \<longleftrightarrow> stepsBetween r i 17 s u \<and> current req u \<and> pdGenerations d = rqGenerations req"

lemma publishPreparedAllow_Inr:
  assumes "publishPreparedAllow r req key b ob s = (Inr d, u)" and "sharesFence s" and "i \<le> 14"
  shows "allowedAt r req i s d u \<and> pdOutcome d = (if b then ''always_allow'' else ''classifier_allow'')"
proof -
  let ?s1 = "env r 14 s"
  from assms(1) obtain s2 where s2: "publishGrant b (rqGenerations req) key ?s1 = Inr s2"
    by (auto simp: publishPreparedAllow_def Let_def split: sum.splits)
  let ?s3 = "env r 15 s2"
  from assms(1) s2 obtain s4 where s4: "(if rtStore ?s3 = None then Inr ?s3 else setPreparedGrant (rqGenerations req) key ?s3) = Inr s4"
    and d: "allowedIfCurrent req (if b then ''always_allow'' else ''classifier_allow'') ob (env r 16 s4) = (Inr d, u)"
    by (auto simp: publishPreparedAllow_def Let_def split: sum.splits if_splits)
  have "stepsBetween r i 15 s ?s1"
    using stepsBetween_env_after [OF stepsBetween_refl [OF assms(2), of i 14 r], of 14] assms(3) by simp
  then have "stepsBetween r i 15 s s2" by (rule stepsBetween_moved) (rule moved_publishGrant [OF s2])
  then have 3: "stepsBetween r i 16 s ?s3" using stepsBetween_env_after [of r i 15 s s2 15] by simp
  have "moved n ?s3 s4" for n
    using s4 stepsBetween_shares [OF 3] by (auto simp: moved_refl intro: moved_setPreparedGrant split: if_splits)
  then have "stepsBetween r i 16 s s4" by (rule stepsBetween_moved [OF 3])
  then have "stepsBetween r i 17 s (env r 16 s4)" using stepsBetween_env_after [of r i 16 s s4 16] by simp
  with allowedIfCurrent_Inr [OF d] show ?thesis by (simp add: allowedAt_def)
qed

lemma resolvePreparedAsk_Inr:
  assumes "resolvePreparedAsk cf r req key audited proposal s = (Inr d, u)" and "sharesFence s" and "i \<le> 12"
  shows "allowedAt r req i s d u \<and>
    (pdOutcome d = ''auto_approve'' \<and> \<not> cfCallback cf \<and> cfAutoApprove cf \<or>
     pdOutcome d = ''allow_once'' \<and> answeredWith cf r ApprovalAllow \<or>
     pdOutcome d = ''always_allow'' \<and> answeredWith cf r ApprovalAlwaysAllow)"
proof -
  have 1: "stepsBetween r i 13 s (env r 12 s)"
    using stepsBetween_env_after [OF stepsBetween_refl [OF assms(2), of i 12 r], of 12] assms(3) by simp
  have 2: "stepsBetween r i 14 s (env r 13 (env r 12 s))"
    using stepsBetween_env_after [OF 1, of 13] by simp
  show ?thesis
  proof (cases "cfCallback cf")
    case False
    with assms(1) obtain ob where "allowedIfCurrent req ''auto_approve'' ob (env r 12 s) = (Inr d, u)" "cfAutoApprove cf"
      by (auto simp: resolvePreparedAsk_def split: if_splits option.splits)
    with allowedIfCurrent_Inr [OF this(1)] stepsBetween_widen [OF 1, of i 17] False show ?thesis
      by (simp add: allowedAt_def)
  next
    case True
    then have e: "cbError (prAnswer r) = None"
      using assms(1) by (auto simp: resolvePreparedAsk_def Let_def split: option.splits)
    show ?thesis
    proof (cases "cbResult (prAnswer r)")
      case ApprovalAllow
      with assms(1) True e obtain ob where "allowedIfCurrent req ''allow_once'' ob (env r 13 (env r 12 s)) = (Inr d, u)"
        by (auto simp: resolvePreparedAsk_def Let_def split: option.splits)
      with allowedIfCurrent_Inr [OF this] stepsBetween_widen [OF 2, of i 17] True e ApprovalAllow show ?thesis
        by (simp add: allowedAt_def answeredWith_def)
    next
      case ApprovalAlwaysAllow
      with assms(1) True e obtain ob where
        "publishPreparedAllow r req key True ob (env r 13 (env r 12 s)) = (Inr d, u)"
        by (auto simp: resolvePreparedAsk_def Let_def split: option.splits if_splits)
      from publishPreparedAllow_Inr [OF this stepsBetween_shares [OF 2], of 14] have
        "allowedAt r req 14 (env r 13 (env r 12 s)) d u" "pdOutcome d = ''always_allow''" by simp_all
      with stepsBetween_trans [OF 2, of 17 u] True e ApprovalAlwaysAllow show ?thesis
        by (simp add: allowedAt_def answeredWith_def)
    next
      case ApprovalDeny
      with assms(1) True e show ?thesis
        by (auto simp: resolvePreparedAsk_def Let_def split: sum.splits if_splits)
    next
      case (OtherApproval n)
      with assms(1) True e show ?thesis by (simp add: resolvePreparedAsk_def Let_def)
    qed
  qed
qed

lemma classifyPrepared_Inr:
  assumes "classifyPrepared cf r req mode key s = (Inr d, u)" and "sharesFence s" and "i \<le> 12"
  shows "allowedAt r req i s d u \<and> freshGround cf r req mode (pdOutcome d)"
proof -
  from assms(1) obtain c where c: "preparedClassifiers cf mode = Some c"
    by (auto simp: classifyPrepared_def split: option.splits)
  let ?p = "clClassify c (rqCall req)"
  consider (allows) "?p = Allow" "preparedClassifierAllowTrusted req mode"
    | (asks) "?p = Ask \<or> ?p = Allow \<and> \<not> preparedClassifierAllowTrusted req mode"
    | (denies) "?p = Deny" | (unknown) n where "?p = OtherClassification n"
    by (cases ?p) auto
  then show ?thesis
  proof cases
    case allows
    with assms(1) c obtain ob where "publishPreparedAllow r req key False ob s = (Inr d, u)"
      by (auto simp: classifyPrepared_def Let_def split: option.splits if_splits)
    from publishPreparedAllow_Inr [OF this assms(2), of i] assms(3) allows c show ?thesis
      by (simp add: freshGround_def classifierAllows_def)
  next
    case asks
    with assms(1) c have "resolvePreparedAsk cf r req key (clAudited c) (classificationString ?p) s = (Inr d, u)"
      by (auto simp: classifyPrepared_def Let_def split: option.splits if_splits)
    from resolvePreparedAsk_Inr [OF this assms(2,3)] asks c show ?thesis
      by (auto simp: freshGround_def classifierAsks_def)
  next
    case denies
    with assms(1) c show ?thesis
      by (auto simp: classifyPrepared_def Let_def split: option.splits if_splits)
  next
    case unknown
    with assms(1) c show ?thesis
      by (auto simp: classifyPrepared_def Let_def split: option.splits if_splits)
  qed
qed

lemma rememberedDecision_Inr:
  assumes "rememberedDecision r req audited isAllow outcome resolution i s = (Inr d, u)" and "sharesFence s" and "i < 17"
  shows "allowedAt r req i s d u \<and> isAllow \<and> pdOutcome d = outcome"
proof -
  from assms(1) have "u = env r i s" "isAllow" "current req u" "pdOutcome d = outcome" "pdGenerations d = rqGenerations req"
    by (auto simp: rememberedDecision_def Let_def allowed_def split: if_splits)
  with stepsBetween_widen [OF stepsBetween_env [OF assms(2), of r i], of i 17] assms(3) show ?thesis
    by (simp add: allowedAt_def)
qed

text \<open>A decision by key was made in a state \<open>w\<close> on the way from \<open>s\<close> to its result.\<close>

lemma decideByKey_Inr:
  assumes "decideByKey cf r req mode key s = (Inr d, u)" and "sharesFence s"
  shows "\<exists>j w. stepsBetween r 5 j s w \<and> allowedAt r req j w d u \<and>
    (freshGround cf r req mode (pdOutcome d) \<or> remembered (pdOutcome d) key w)"
proof -
  let ?s1 = "env r 5 s" let ?s2 = "env r 7 ?s1" let ?s3 = "env r 9 ?s2"
  have 1: "stepsBetween r 5 6 s ?s1" using stepsBetween_env [OF assms(2), of r 5] by simp
  have 2: "stepsBetween r 5 8 s ?s2" using stepsBetween_env_after [OF 1, of 7] by simp
  have 3: "stepsBetween r 5 10 s ?s3" using stepsBetween_env_after [OF 2, of 9] by simp
  have 4: "stepsBetween r 5 12 s (env r 11 ?s3)" using stepsBetween_env_after [OF 3, of 11] by simp
  show ?thesis
  proof (cases "map_of (rtSession ?s1) key")
    case (Some c)
    with assms(1) have "rememberedDecision r req (isAudited cf mode) (c = Allow) ''cached'' ''session_cache'' 6 ?s1 = (Inr d, u)"
      by (simp add: decideByKey_def Let_def)
    from rememberedDecision_Inr [OF this stepsBetween_shares [OF 1]] Some 1 show ?thesis
      by (auto simp: remembered_def)
  next
    case no_session: None
    show ?thesis
    proof (cases "case rtCache ?s2 of None \<Rightarrow> False | Some c \<Rightarrow> cacheGet c key = Some True")
      case True
      with assms(1) no_session have
        "rememberedDecision r req (isAudited cf mode) True ''always_allow_cache'' ''always_allow_cache'' 8 ?s2 = (Inr d, u)"
        by (simp add: decideByKey_def Let_def)
      from rememberedDecision_Inr [OF this stepsBetween_shares [OF 2]] True 2 show ?thesis
        by (auto simp: remembered_def split: option.splits)
    next
      case no_cache: False
      show ?thesis
      proof (cases "case rtStore ?s3 of None \<Rightarrow> None | Some st \<Rightarrow> storeGet st key")
        case (Some c)
        with assms(1) no_session no_cache have
          "rememberedDecision r req (isAudited cf mode) (c = Allow) ''approval_store'' ''approval_store'' 10 ?s3 = (Inr d, u)"
          by (simp add: decideByKey_def Let_def)
        from rememberedDecision_Inr [OF this stepsBetween_shares [OF 3]] Some 3 show ?thesis
          by (auto simp: remembered_def split: option.splits)
      next
        case None
        with assms(1) no_session no_cache have "classifyPrepared cf r req mode key (env r 11 ?s3) = (Inr d, u)"
          by (simp add: decideByKey_def Let_def)
        from classifyPrepared_Inr [OF this stepsBetween_shares [OF 4], of 12] 4 show ?thesis by auto
      qed
    qed
  qed
qed

section \<open>The policy\<close>

lemma sharesFence_iff:
  "rtMiddlewareFence s \<noteq> None \<and> Some (rtRegistryFence s) = rtMiddlewareFence s \<longleftrightarrow> sharesFence s"
  by (auto simp: sharesFence_def)

text \<open>Everything an allowed decision has passed, with the states it read.\<close>

lemma preparedPolicy_Inr:
  assumes "preparedPolicy cf r req s = (Inr d, u)" and "rqFence req = Some (rtRegistryFence s)"
    and "opsBetween r 0 17 < 2 ^ 64"
  shows "sharesFence s \<and> current req s \<and> allowedAt r req 0 s d u \<and> justified cf r req (pdOutcome d) u"
proof -
  let ?s1 = "env r 0 s" let ?s2 = "env r 1 ?s1" let ?s3 = "env r 2 ?s2"
  let ?s4 = "env r 3 ?s3" let ?s5 = "env r 4 ?s4"
  let ?mode = "preparedMode cf ?s1"
  let ?key = "preparedDecisionKey r (decisionKeyInput req ?mode (rtPolicyEpoch ?s1) (cacheEpochOf ?s4) (storeEpochOf ?s5))"
  have pre: "rtMiddlewareFence s = Some (rtRegistryFence s)" "current req s"
      "validPreparedIdentity (rqIdentity req) (tcName (rqCall req))" "validPermissionMode ?mode" "current req ?s3"
    using assms(1,2) by (auto simp: preparedPolicy_def Let_def split: option.splits if_splits)
  then have sh: "sharesFence s" by (simp add: sharesFence_def)
  have 1: "stepsBetween r 0 1 s ?s1" using stepsBetween_env [OF sh, of r 0] by simp
  have 2: "stepsBetween r 0 2 s ?s2" using stepsBetween_env_after [OF 1, of 1] by (simp add: numeral_2_eq_2)
  have 3: "stepsBetween r 0 3 s ?s3" using stepsBetween_env_after [OF 2, of 2] by simp
  have 4: "stepsBetween r 0 4 s ?s4" using stepsBetween_env_after [OF 3, of 3] by simp
  have 5: "stepsBetween r 0 5 s ?s5" using stepsBetween_env_after [OF 4, of 4] by simp
  have 14: "stepsBetween r 1 5 ?s1 ?s5" and 24: "stepsBetween r 2 5 ?s2 ?s5" and 45: "stepsBetween r 4 5 ?s4 ?s5"
    and 12: "stepsBetween r 1 3 ?s1 ?s3" and 23: "stepsBetween r 2 3 ?s2 ?s3"
  proof -
    have "stepsBetween r 1 2 ?s1 ?s2" using stepsBetween_env [OF stepsBetween_shares [OF 1], of r 1] by (simp add: numeral_2_eq_2)
    moreover show *: "stepsBetween r 2 3 ?s2 ?s3" using stepsBetween_env [OF stepsBetween_shares [OF 2], of r 2] by (simp add: numeral_3_eq_3 numeral_2_eq_2)
    ultimately show "stepsBetween r 1 3 ?s1 ?s3" by (rule stepsBetween_trans)
    then have "stepsBetween r 1 4 ?s1 ?s4" using stepsBetween_env_after [of r 1 3 ?s1 ?s3 3] by simp
    then show "stepsBetween r 1 5 ?s1 ?s5" using stepsBetween_env_after [of r 1 4 ?s1 ?s4 4] by simp
    have "stepsBetween r 2 4 ?s2 ?s4" using stepsBetween_env_after [OF *, of 3] by simp
    then show "stepsBetween r 2 5 ?s2 ?s5" using stepsBetween_env_after [of r 2 4 ?s2 ?s4 4] by simp
    show "stepsBetween r 4 5 ?s4 ?s5" using stepsBetween_env [OF stepsBetween_shares [OF 4], of r 4] by simp
  qed
  show ?thesis
  proof (cases "pmActive (rtPlan ?s2)")
    case True
    with assms(1,2) pre have u: "u = ?s3" and d: "pdGenerations d = rqGenerations req" "pdOutcome d = ''plan''"
      and ok: "preparedPlanCallAllowed req (tcName (rqCall req))"
      by (auto simp: preparedPolicy_def Let_def allowed_def split: option.splits if_splits)
    have "opsBetween r 0 3 < 2 ^ 64"
      using assms(3) opsBetween_split [of 0 3 17 r] by simp
    moreover have "runtimeSnapshot ?s3 = runtimeSnapshot s" using pre by (simp add: current_def)
    ultimately have "samePolicy ?s1 ?s3" "samePolicy ?s2 ?s3"
      using stepsBetween_between [OF 1 12] stepsBetween_between [OF 2 23] by blast+
    then have "preparedMode cf u = ?mode" "rtPlan u = rtPlan ?s2"
      using u by (simp_all add: preparedMode_same) (simp add: samePolicy_def)
    then have "justified cf r req (pdOutcome d) u"
      using pre d ok True by (simp add: justified_def)
    with sh pre u d stepsBetween_widen [OF 3, of 0 17] show ?thesis by (simp add: allowedAt_def)
  next
    case False
    with assms(1,2) pre obtain key where key: "?key = Inr key" and dec: "decideByKey cf r req ?mode key ?s5 = (Inr d, u)"
      by (auto simp: preparedPolicy_def Let_def split: option.splits if_splits sum.splits)
    obtain j w where w: "stepsBetween r 5 j ?s5 w" "allowedAt r req j w d u"
        "freshGround cf r req ?mode (pdOutcome d) \<or> remembered (pdOutcome d) key w"
      using decideByKey_Inr [OF dec stepsBetween_shares [OF 5]] by blast
    then have ju: "stepsBetween r j 17 w u" and cu: "current req u" "pdGenerations d = rqGenerations req"
      by (simp_all add: allowedAt_def)
    have snap: "runtimeSnapshot u = runtimeSnapshot s" using pre cu by (simp add: current_def)
    have tail5: "stepsBetween r 5 17 ?s5 u" by (rule stepsBetween_trans [OF w(1) ju])
    have same: "samePolicy ?s1 u" "samePolicy ?s2 u" "samePolicy ?s4 u" "samePolicy ?s5 u" "samePolicy w u"
      using stepsBetween_between(2) [OF 1 stepsBetween_trans [OF 14 tail5] assms(3) snap]
        stepsBetween_between(2) [OF 2 stepsBetween_trans [OF 24 tail5] assms(3) snap]
        stepsBetween_between(2) [OF 4 stepsBetween_trans [OF 45 tail5] assms(3) snap]
        stepsBetween_between(2) [OF 5 tail5 assms(3) snap]
        stepsBetween_between(2) [OF stepsBetween_trans [OF 5 w(1)] ju assms(3) snap]
      by blast+
    have eqs: "preparedMode cf u = ?mode" "rtPolicyEpoch u = rtPolicyEpoch ?s1" "rtPlan u = rtPlan ?s2"
        "cacheEpochOf u = cacheEpochOf ?s4" "storeEpochOf u = storeEpochOf ?s5"
      using same by (simp_all add: preparedMode_same) (simp_all add: samePolicy_def)
    have "freshGround cf r req ?mode (pdOutcome d) \<or> remembered (pdOutcome d) key u"
      using w(3) remembered_mono [OF _ same(5)] by blast
    then have "justified cf r req (pdOutcome d) u"
      using pre False key by (auto simp: justified_def eqs)
    moreover have "stepsBetween r 0 17 s u" by (rule stepsBetween_trans [OF 5 tail5])
    ultimately show ?thesis using sh pre cu by (simp add: allowedAt_def)
  qed
qed

end
