(* ===== verification/SchemaFacts.thy ===== *)
theory SchemaFacts
  imports PreparedSchema
begin

text \<open>
  What the argument check decides: which values conform to a schema is stated rule by rule, and on
  a schema the registry accepts the check accepts exactly those and never blames the schema.
\<close>

section \<open>Conformance\<close>

definition enumAdmits :: "(string \<times> go_any) list \<Rightarrow> go_any \<Rightarrow> bool" where
  "enumAdmits schema v \<longleftrightarrow> (\<forall>vals. map_of schema ''enum'' = Some (AnyList vals) \<longrightarrow>
     (\<exists>c \<in> set vals. deepEqual v c \<or> (\<exists>q. schemaRational v = Some q \<and> schemaRational c = Some q)))"

definition withinBounds :: "(string \<times> go_any) list \<Rightarrow> rat \<Rightarrow> bool" where
  "withinBounds schema q \<longleftrightarrow> (\<forall>lo. boundOf schema ''minimum'' = Some lo \<longrightarrow> lo \<le> q) \<and>
     (\<forall>hi. boundOf schema ''maximum'' = Some hi \<longrightarrow> q \<le> hi)"

definition requiredPresent :: "(string \<times> go_any) list \<Rightarrow> (string \<times> go_any) list \<Rightarrow> bool" where
  "requiredPresent schema obj \<longleftrightarrow> (\<forall>items name. map_of schema ''required'' = Some (AnyList items) \<longrightarrow>
     AnyString name \<in> set items \<longrightarrow> (\<exists>v. map_of obj name = Some v))"

inductive conforms :: "(string \<times> go_any) list \<Rightarrow> go_any \<Rightarrow> bool" where
  scalar: "map_of schema ''type'' = Some (AnyString t) \<Longrightarrow> t \<in> {''string'', ''boolean''} \<Longrightarrow>
    valueMatchesType v t \<Longrightarrow> enumAdmits schema v \<Longrightarrow> conforms schema v"
| number: "map_of schema ''type'' = Some (AnyString t) \<Longrightarrow> t \<in> {''number'', ''integer''} \<Longrightarrow>
    schemaRational v = Some q \<Longrightarrow> (t = ''integer'' \<Longrightarrow> ratIsInt q) \<Longrightarrow> enumAdmits schema v \<Longrightarrow>
    withinBounds schema q \<Longrightarrow> conforms schema v"
| array: "map_of schema ''type'' = Some (AnyString ''array'') \<Longrightarrow> map_of schema ''items'' = Some (AnyMap item) \<Longrightarrow>
    enumAdmits schema (AnyList vs) \<Longrightarrow> (\<And>v. v \<in> set vs \<Longrightarrow> conforms item v) \<Longrightarrow> conforms schema (AnyList vs)"
| object: "map_of schema ''type'' = Some (AnyString ''object'') \<Longrightarrow> map_of schema ''properties'' = Some (AnyMap ps) \<Longrightarrow>
    enumAdmits schema (AnyMap obj) \<Longrightarrow> requiredPresent schema obj \<Longrightarrow>
    (\<And>k v s. (k, v) \<in> set obj \<Longrightarrow> map_of ps k = Some (AnyMap s) \<Longrightarrow> conforms s v) \<Longrightarrow>
    (\<And>k v. (k, v) \<in> set obj \<Longrightarrow> isFalse schema \<Longrightarrow> map_of ps k \<noteq> None) \<Longrightarrow> conforms schema (AnyMap obj)"

text \<open>Conformance by type.\<close>

lemma conforms_scalar:
  assumes "map_of schema ''type'' = Some (AnyString t)" and "t \<in> {''string'', ''boolean''}"
  shows "conforms schema v \<longleftrightarrow> valueMatchesType v t \<and> enumAdmits schema v"
proof
  assume "conforms schema v"
  then show "valueMatchesType v t \<and> enumAdmits schema v"
    by (cases rule: conforms.cases) (use assms in auto)
qed (use assms conforms.scalar in blast)

lemma conforms_number:
  assumes "map_of schema ''type'' = Some (AnyString t)" and "t \<in> {''number'', ''integer''}"
  shows "conforms schema v \<longleftrightarrow> (\<exists>q. schemaRational v = Some q \<and> (t = ''integer'' \<longrightarrow> ratIsInt q) \<and>
    enumAdmits schema v \<and> withinBounds schema q)"
proof
  assume "conforms schema v"
  then show "\<exists>q. schemaRational v = Some q \<and> (t = ''integer'' \<longrightarrow> ratIsInt q) \<and>
      enumAdmits schema v \<and> withinBounds schema q"
    by (cases rule: conforms.cases) (use assms in auto)
qed (use assms conforms.number in blast)

lemma conforms_array:
  assumes "map_of schema ''type'' = Some (AnyString ''array'')" and "map_of schema ''items'' = Some (AnyMap item)"
  shows "conforms schema v \<longleftrightarrow> (\<exists>vs. v = AnyList vs \<and> enumAdmits schema v \<and> (\<forall>w \<in> set vs. conforms item w))"
proof
  assume "conforms schema v"
  then show "\<exists>vs. v = AnyList vs \<and> enumAdmits schema v \<and> (\<forall>w \<in> set vs. conforms item w)"
    by (cases rule: conforms.cases) (use assms in auto)
qed (use assms conforms.array in blast)

lemma conforms_object:
  assumes "map_of schema ''type'' = Some (AnyString ''object'')" and "map_of schema ''properties'' = Some (AnyMap ps)"
  shows "conforms schema v \<longleftrightarrow> (\<exists>obj. v = AnyMap obj \<and> enumAdmits schema v \<and> requiredPresent schema obj \<and>
    (\<forall>k w s. (k, w) \<in> set obj \<longrightarrow> map_of ps k = Some (AnyMap s) \<longrightarrow> conforms s w) \<and>
    (\<forall>k w. (k, w) \<in> set obj \<longrightarrow> isFalse schema \<longrightarrow> map_of ps k \<noteq> None))"
proof
  assume "conforms schema v"
  then show "\<exists>obj. v = AnyMap obj \<and> enumAdmits schema v \<and> requiredPresent schema obj \<and>
    (\<forall>k w s. (k, w) \<in> set obj \<longrightarrow> map_of ps k = Some (AnyMap s) \<longrightarrow> conforms s w) \<and>
    (\<forall>k w. (k, w) \<in> set obj \<longrightarrow> isFalse schema \<longrightarrow> map_of ps k \<noteq> None)"
    by (cases rule: conforms.cases) (use assms in auto)
next
  assume "\<exists>obj. v = AnyMap obj \<and> enumAdmits schema v \<and> requiredPresent schema obj \<and>
    (\<forall>k w s. (k, w) \<in> set obj \<longrightarrow> map_of ps k = Some (AnyMap s) \<longrightarrow> conforms s w) \<and>
    (\<forall>k w. (k, w) \<in> set obj \<longrightarrow> isFalse schema \<longrightarrow> map_of ps k \<noteq> None)"
  then obtain obj where "v = AnyMap obj" "enumAdmits schema (AnyMap obj)" "requiredPresent schema obj"
    "\<And>k w s. (k, w) \<in> set obj \<Longrightarrow> map_of ps k = Some (AnyMap s) \<Longrightarrow> conforms s w"
    "\<And>k w. (k, w) \<in> set obj \<Longrightarrow> isFalse schema \<Longrightarrow> map_of ps k \<noteq> None"
    by blast
  then show "conforms schema v" using conforms.object [OF assms] by blast
qed

section \<open>Accepted schemas\<close>

lemma case_string: "(case x of Some (AnyString t) \<Rightarrow> P t | _ \<Rightarrow> False) \<longleftrightarrow> (\<exists>t. x = Some (AnyString t) \<and> P t)"
  by (auto split: option.splits go_any.splits)

lemma schemaArray_Some: "schemaArray v = Some vs \<longleftrightarrow> v = AnyList vs"
  by (auto simp: schemaArray_def split: go_any.splits)

lemma valid_node: "validSchemaNode (AnyMap schema) r \<Longrightarrow> nodeShape schema r"
  by (subst (asm) validSchemaNode.simps) simp

lemma valid_map:
  assumes "validSchemaNode v r"
  obtains schema where "v = AnyMap schema"
proof (cases v)
  case (AnyMap s)
  then show thesis by (rule that)
qed (insert assms, (subst (asm) validSchemaNode.simps, simp)+)

lemma nodeShape_type: "nodeShape schema r \<Longrightarrow> \<exists>t. map_of schema ''type'' = Some (AnyString t) \<and> t \<in> set schemaTypes"
  unfolding nodeShape_def case_string by blast

lemma nodeShape_enum: "nodeShape schema r \<Longrightarrow> map_of schema ''enum'' = Some w \<Longrightarrow> \<exists>vals. w = AnyList vals"
  unfolding nodeShape_def case_string by (cases "schemaArray w") (auto simp: schemaArray_Some)

lemma nodeShape_hasBound: "nodeShape schema r \<Longrightarrow>
    (hasKey schema ''minimum'' \<longrightarrow> boundOf schema ''minimum'' \<noteq> None) \<and>
    (hasKey schema ''maximum'' \<longrightarrow> boundOf schema ''maximum'' \<noteq> None)"
  unfolding nodeShape_def case_string by blast

lemma nodeShape_bound:
  "nodeShape schema r \<Longrightarrow> key \<in> {''minimum'', ''maximum''} \<Longrightarrow> map_of schema key = Some w \<Longrightarrow> schemaRational w \<noteq> None"
  using nodeShape_hasBound [of schema r] by (auto simp: hasKey_def boundOf_def)

lemma case_map: "(case x of Some (AnyMap ps) \<Rightarrow> P ps | _ \<Rightarrow> False) \<longleftrightarrow> (\<exists>ps. x = Some (AnyMap ps) \<and> P ps)"
  by (auto split: option.splits go_any.splits)

lemma valid_object:
  assumes "validSchemaNode (AnyMap schema) r" and "map_of schema ''type'' = Some (AnyString ''object'')"
  obtains ps names where "map_of schema ''properties'' = Some (AnyMap ps)" "propertiesOf schema = Some ps"
    "\<And>p. p \<in> set ps \<Longrightarrow> validSchemaNode (snd p) False" "preparedRequiredNames schema = Some names"
proof -
  have "\<exists>ps. map_of schema ''properties'' = Some (AnyMap ps) \<and> additionalShape schema \<and>
      (\<forall>p \<in> set ps. fst p \<noteq> [] \<and> validSchemaNode (snd p) False) \<and> preparedRequiredNames schema \<noteq> None"
    using assms(1) by (subst (asm) validSchemaNode.simps) (simp add: assms(2) case_map)
  then show thesis using that by (auto simp: propertiesOf_def)
qed

lemma valid_array:
  assumes "validSchemaNode (AnyMap schema) r" and "map_of schema ''type'' = Some (AnyString ''array'')"
  obtains item where "map_of schema ''items'' = Some (AnyMap item)" "validSchemaNode (AnyMap item) False"
proof -
  have "case map_of schema ''items'' of None \<Rightarrow> False | Some item \<Rightarrow> validSchemaNode item False"
    using assms(1) by (subst (asm) validSchemaNode.simps) (simp add: assms(2))
  then obtain v where v: "map_of schema ''items'' = Some v" "validSchemaNode v False"
    by (cases "map_of schema ''items''") simp_all
  from v(2) obtain item where "v = AnyMap item" by (rule valid_map)
  with v that show thesis by simp
qed

lemma enumFault_exact:
  assumes "nodeShape schema r"
  shows "enumFault v schema = (if enumAdmits schema v then None else Some (argumentFault ''not an allowed value''))"
proof (cases "map_of schema ''enum''")
  case None
  then show ?thesis by (simp add: enumFault_def enumAdmits_def)
next
  case (Some w)
  with nodeShape_enum [OF assms] obtain vals where "w = AnyList vals" by blast
  moreover have "list_ex (\<lambda>candidate. deepEqual v candidate \<or>
      (case (schemaRational v, schemaRational candidate) of (Some left, Some right) \<Rightarrow> left = right | _ \<Rightarrow> False)) vals
    \<longleftrightarrow> (\<exists>c \<in> set vals. deepEqual v c \<or> (\<exists>q. schemaRational v = Some q \<and> schemaRational c = Some q))"
    unfolding list_ex_iff by (intro bex_cong refl disj_cong) (auto split: option.splits)
  ultimately show ?thesis
    using Some by (simp add: enumFault_def enumAdmits_def schemaArray_def)
qed

lemma boundFault_exact:
  assumes "nodeShape schema r" and "key \<in> {''minimum'', ''maximum''}"
  shows "boundFault q schema key inside =
    (if \<forall>b. boundOf schema key = Some b \<longrightarrow> inside q b then None else Some (argumentFault ''out of bounds''))"
proof (cases "map_of schema key")
  case None
  then show ?thesis by (simp add: boundFault_def boundOf_def)
next
  case (Some w)
  with nodeShape_bound [OF assms Some] show ?thesis by (auto simp: boundFault_def boundOf_def)
qed

lemma numberFault_exact:
  assumes "nodeShape schema r"
  shows "numberFault n schema = (if withinBounds schema n then None else Some (argumentFault ''out of bounds''))"
  using boundFault_exact [OF assms, of "''minimum''" n] boundFault_exact [OF assms, of "''maximum''" n]
  by (auto simp: numberFault_def withinBounds_def)

lemma requiredFrom_names:
  "requiredFrom props seen items = Some names \<Longrightarrow> \<exists>ns. items = map AnyString ns \<and> names = seen @ ns"
proof (induction items arbitrary: seen)
  case (Cons item items)
  then obtain name where item: "item = AnyString name" "requiredFrom props (seen @ [name]) items = Some names"
    by (auto split: go_any.splits if_splits)
  with Cons.IH [OF item(2)] obtain ns where "items = map AnyString ns" "names = (seen @ [name]) @ ns" by blast
  with item show ?case by (intro exI [of _ "name # ns"]) simp
qed simp

lemma validateRequired_exact:
  assumes "preparedRequiredNames schema = Some names"
  shows "validateRequired obj schema \<noteq> Some ErrPreparedSchemaInvalid"
    and "validateRequired obj schema = None \<longleftrightarrow> requiredPresent schema obj"
proof -
  have faults: "validateRequired obj schema = firstFault (map (\<lambda>name.
      if hasKey obj name then None else Some (argumentFault ''missing required parameter'')) names)"
    using assms by (simp add: validateRequired_def)
  show "validateRequired obj schema \<noteq> Some ErrPreparedSchemaInvalid"
    unfolding faults by (auto dest!: firstFault_Some simp: argumentFault_def split: if_splits)
  have "validateRequired obj schema = None \<longleftrightarrow> (\<forall>name \<in> set names. map_of obj name \<noteq> None)"
    unfolding faults firstFault_None set_map ball_simps(9) by (intro ball_cong refl) (simp add: hasKey_def)
  also have "\<dots> \<longleftrightarrow> requiredPresent schema obj"
  proof (cases "map_of schema ''required''")
    case None
    with assms show ?thesis by (simp add: requiredPresent_def preparedRequiredNames_def)
  next
    case (Some w)
    with assms obtain items where "w = AnyList items" "requiredFrom (map fst (case propertiesOf schema of None \<Rightarrow> [] | Some ps \<Rightarrow> ps)) [] items = Some names"
      by (auto simp: preparedRequiredNames_def schemaArray_def split: go_any.splits option.splits)
    with requiredFrom_names [OF this(2)] Some show ?thesis by (auto simp: requiredPresent_def)
  qed
  finally show "validateRequired obj schema = None \<longleftrightarrow> requiredPresent schema obj" .
qed

section \<open>The check is exact\<close>

definition exactOn :: "(string \<times> go_any) list \<Rightarrow> go_any \<Rightarrow> bool" where
  "exactOn schema v \<longleftrightarrow> validateSchemaValue v schema \<noteq> Some ErrPreparedSchemaInvalid \<and>
     (validateSchemaValue v schema = None \<longleftrightarrow> conforms schema v)"

text \<open>The loop over the entries of an object, for arguments and for nested objects.\<close>

definition entryFault :: "(string \<times> go_any) list \<Rightarrow> (string \<times> go_any) list \<Rightarrow> string \<Rightarrow> string \<times> go_any \<Rightarrow> tool_error option" where
  "entryFault schema ps what p = (case map_of ps (fst p) of
      None \<Rightarrow> if isFalse schema then Some (argumentFault what) else None
    | Some (AnyMap s) \<Rightarrow> validateSchemaValue (snd p) s
    | Some _ \<Rightarrow> Some ErrPreparedSchemaInvalid)"

lemma entryFault_exact:
  assumes "\<And>p. p \<in> set ps \<Longrightarrow> validSchemaNode (snd p) False"
    and "\<And>s. validSchemaNode (AnyMap s) False \<Longrightarrow> exactOn s (snd p)"
  shows "entryFault schema ps what p \<noteq> Some ErrPreparedSchemaInvalid"
    and "entryFault schema ps what p = None \<longleftrightarrow>
      (\<forall>s. map_of ps (fst p) = Some (AnyMap s) \<longrightarrow> conforms s (snd p)) \<and> (isFalse schema \<longrightarrow> map_of ps (fst p) \<noteq> None)"
proof -
  have declared: "\<exists>s. w = AnyMap s \<and> exactOn s (snd p)" if "map_of ps (fst p) = Some w" for w
  proof -
    have "validSchemaNode w False" using assms(1) [OF map_of_SomeD [OF that]] by simp
    moreover from this obtain s where "w = AnyMap s"
      by (subst (asm) validSchemaNode.simps) (auto split: go_any.splits)
    ultimately show ?thesis using assms(2) by blast
  qed
  show "entryFault schema ps what p \<noteq> Some ErrPreparedSchemaInvalid"
    by (cases "map_of ps (fst p)") (auto simp: entryFault_def exactOn_def argumentFault_def dest!: declared)
  show "entryFault schema ps what p = None \<longleftrightarrow>
      (\<forall>s. map_of ps (fst p) = Some (AnyMap s) \<longrightarrow> conforms s (snd p)) \<and> (isFalse schema \<longrightarrow> map_of ps (fst p) \<noteq> None)"
    by (cases "map_of ps (fst p)") (auto simp: entryFault_def exactOn_def dest!: declared)
qed

lemma entries_exact:
  assumes "\<And>p. p \<in> set ps \<Longrightarrow> validSchemaNode (snd p) False"
    and "\<And>p s. p \<in> set obj \<Longrightarrow> validSchemaNode (AnyMap s) False \<Longrightarrow> exactOn s (snd p)"
  shows "firstFault (map (entryFault schema ps what) obj) \<noteq> Some ErrPreparedSchemaInvalid"
    and "firstFault (map (entryFault schema ps what) obj) = None \<longleftrightarrow>
      (\<forall>k v s. (k, v) \<in> set obj \<longrightarrow> map_of ps k = Some (AnyMap s) \<longrightarrow> conforms s v) \<and>
      (\<forall>k v. (k, v) \<in> set obj \<longrightarrow> isFalse schema \<longrightarrow> map_of ps k \<noteq> None)"
proof -
  show "firstFault (map (entryFault schema ps what) obj) \<noteq> Some ErrPreparedSchemaInvalid"
    using entryFault_exact(1) [OF assms(1) assms(2)] by (auto dest!: firstFault_Some) (metis snd_conv)
  have "firstFault (map (entryFault schema ps what) obj) = None \<longleftrightarrow> (\<forall>p \<in> set obj.
      (\<forall>s. map_of ps (fst p) = Some (AnyMap s) \<longrightarrow> conforms s (snd p)) \<and> (isFalse schema \<longrightarrow> map_of ps (fst p) \<noteq> None))"
    using entryFault_exact(2) [OF assms(1) assms(2)] by (simp add: firstFault_None)
  then show "firstFault (map (entryFault schema ps what) obj) = None \<longleftrightarrow>
      (\<forall>k v s. (k, v) \<in> set obj \<longrightarrow> map_of ps k = Some (AnyMap s) \<longrightarrow> conforms s v) \<and>
      (\<forall>k v. (k, v) \<in> set obj \<longrightarrow> isFalse schema \<longrightarrow> map_of ps k \<noteq> None)"
    by fastforce
qed

text \<open>The check of one value, type by type.\<close>

lemma validate_type:
  assumes "map_of schema ''type'' = Some (AnyString t)" and "nodeShape schema r"
  shows "validateSchemaValue v schema =
    (if \<not> valueMatchesType v t then Some (argumentFault ''wrong type'')
     else if \<not> enumAdmits schema v then Some (argumentFault ''not an allowed value'')
     else if t = ''object'' then
       (case v of
          AnyMap obj \<Rightarrow>
            (case validateRequired obj schema of
               Some e \<Rightarrow> Some e
             | None \<Rightarrow>
                 (case propertiesOf schema of
                    None \<Rightarrow> Some ErrPreparedSchemaInvalid
                  | Some ps \<Rightarrow> firstFault (map (entryFault schema ps ''unexpected property'') obj)))
        | _ \<Rightarrow> Some (argumentFault ''must be an object''))
     else if t = ''array'' then
       (case v of
          AnyList items \<Rightarrow>
            (case map_of schema ''items'' of
               Some (AnyMap s) \<Rightarrow> firstFault (map (\<lambda>item. validateSchemaValue item s) items)
             | _ \<Rightarrow> Some ErrPreparedSchemaInvalid)
        | _ \<Rightarrow> Some (argumentFault ''must be an array''))
     else if t = ''number'' \<or> t = ''integer'' then
       (case schemaRational v of
          None \<Rightarrow> Some (argumentFault ''must be a number'')
        | Some n \<Rightarrow> if withinBounds schema n then None else Some (argumentFault ''out of bounds''))
     else None)"
proof -
  note step = validateSchemaValue.simps [of v schema, unfolded assms(1) option.case go_any.case
    enumFault_exact [OF assms(2)] numberFault_exact [OF assms(2)]]
  show ?thesis
    unfolding step entryFault_def [abs_def]
    by (cases "valueMatchesType v t"; cases "enumAdmits schema v")
      (simp_all only: option.case not_False_eq_True not_True_eq_False if_True if_False)
qed

lemma exact_value: "validSchemaNode (AnyMap schema) r \<Longrightarrow> exactOn schema v"
proof (induction "size v" arbitrary: schema r v rule: less_induct)
  case less
  have shape: "nodeShape schema r" by (rule valid_node [OF less.prems])
  obtain t where t: "map_of schema ''type'' = Some (AnyString t)" "t \<in> set schemaTypes"
    using nodeShape_type [OF shape] by blast
  note check = validate_type [OF t(1) shape, of v]
  have types: "t \<in> {''string'', ''boolean''} \<or> t \<in> {''number'', ''integer''} \<or> t = ''array'' \<or> t = ''object''"
    using t(2) unfolding schemaTypes_def by auto
  show ?case
    using types
  proof (elim disjE, goal_cases scalar number array object)
    case scalar
    with conforms_scalar [OF t(1) scalar, of v] show ?thesis
      by (auto simp: exactOn_def check argumentFault_def)
  next
    case number
    have matches: "valueMatchesType v t \<longleftrightarrow> (\<exists>q. schemaRational v = Some q \<and> (t = ''integer'' \<longrightarrow> ratIsInt q))"
      using number by (elim insertE emptyE; cases "schemaRational v") (simp_all add: valueMatchesType_def)
    from number have "t \<noteq> ''object''" "t \<noteq> ''array''" "t = ''number'' \<or> t = ''integer''" by auto
    note check = check [unfolded eq_False [THEN iffD2, OF this(1)] eq_False [THEN iffD2, OF this(2)]
        eqTrueI [OF this(3)] if_True if_False]
    have "conforms schema v \<longleftrightarrow> valueMatchesType v t \<and> enumAdmits schema v \<and> (\<forall>q. schemaRational v = Some q \<longrightarrow> withinBounds schema q)"
      unfolding conforms_number [OF t(1) number] matches by auto
    moreover have "schemaRational v \<noteq> None" if "valueMatchesType v t" using that matches by auto
    ultimately show ?thesis
      unfolding exactOn_def check argumentFault_def
      by (cases "schemaRational v"; cases "valueMatchesType v t"; cases "enumAdmits schema v") simp_all
  next
    case array
    with less.prems t obtain item where item: "map_of schema ''items'' = Some (AnyMap item)" "validSchemaNode (AnyMap item) False"
      using valid_array by blast
    have matches: "valueMatchesType v ''array'' \<longleftrightarrow> (\<exists>vs. v = AnyList vs)"
      by (cases v) (simp_all add: valueMatchesType_def schemaArray_def)
    show ?thesis
    proof (cases "\<exists>vs. v = AnyList vs")
      case False
      then have "\<not> conforms schema v" using conforms_array [OF _ item(1), of v] t(1) array by blast
      with False show ?thesis by (simp add: exactOn_def check array matches argumentFault_def)
    next
      case True
      then obtain vs where v: "v = AnyList vs" by blast
      have elems: "exactOn item w" if "w \<in> set vs" for w
        by (rule less.hyps [OF _ item(2)]) (use size_in_list [OF that] v in simp)
      have "conforms schema v \<longleftrightarrow> enumAdmits schema v \<and> (\<forall>w \<in> set vs. conforms item w)"
        using conforms_array [OF _ item(1), of v] t(1) array v by simp
      moreover have "firstFault (map (\<lambda>w. validateSchemaValue w item) vs) = None \<longleftrightarrow> (\<forall>w \<in> set vs. conforms item w)"
        using elems by (auto simp: firstFault_None exactOn_def)
      moreover have "firstFault (map (\<lambda>w. validateSchemaValue w item) vs) \<noteq> Some ErrPreparedSchemaInvalid"
      proof
        assume "firstFault (map (\<lambda>w. validateSchemaValue w item) vs) = Some ErrPreparedSchemaInvalid"
        from firstFault_Some [OF this] obtain w where "w \<in> set vs" "validateSchemaValue w item = Some ErrPreparedSchemaInvalid"
          by auto
        with elems show False by (auto simp: exactOn_def)
      qed
      moreover have "validateSchemaValue v schema = (if \<not> enumAdmits schema v then Some (argumentFault ''not an allowed value'')
          else firstFault (map (\<lambda>w. validateSchemaValue w item) vs))"
        unfolding check using array matches by (simp add: v item)
      ultimately show ?thesis
        by (cases "enumAdmits schema v") (simp_all add: exactOn_def argumentFault_def)
    qed
  next
    case object
    with less.prems t obtain ps names where ps: "map_of schema ''properties'' = Some (AnyMap ps)" "propertiesOf schema = Some ps"
        "\<And>p. p \<in> set ps \<Longrightarrow> validSchemaNode (snd p) False" "preparedRequiredNames schema = Some names"
      using valid_object by blast
    have matches: "valueMatchesType v ''object'' \<longleftrightarrow> (\<exists>obj. v = AnyMap obj)"
      by (cases v) (simp_all add: valueMatchesType_def)
    show ?thesis
    proof (cases "\<exists>obj. v = AnyMap obj")
      case False
      then have "\<not> conforms schema v" using conforms_object [OF _ ps(1), of v] t(1) object by blast
      with False show ?thesis by (simp add: exactOn_def check object matches argumentFault_def)
    next
      case True
      then obtain obj where v: "v = AnyMap obj" by blast
      have elems: "exactOn s (snd p)" if "p \<in> set obj" "validSchemaNode (AnyMap s) False" for p s
        by (rule less.hyps [OF _ that(2)]) (use size_in_map [OF that(1)] v in simp)
      note entries = entries_exact [OF ps(3) elems, where schema = schema and what = "''unexpected property''"]
      have "conforms schema v \<longleftrightarrow> enumAdmits schema v \<and> requiredPresent schema obj \<and>
          (\<forall>k w s. (k, w) \<in> set obj \<longrightarrow> map_of ps k = Some (AnyMap s) \<longrightarrow> conforms s w) \<and>
          (\<forall>k w. (k, w) \<in> set obj \<longrightarrow> isFalse schema \<longrightarrow> map_of ps k \<noteq> None)"
        using conforms_object [OF _ ps(1), of v] t(1) object v by simp
      moreover have "validateSchemaValue v schema = (if \<not> enumAdmits schema v then Some (argumentFault ''not an allowed value'')
          else case validateRequired obj schema of Some e \<Rightarrow> Some e
            | None \<Rightarrow> firstFault (map (entryFault schema ps ''unexpected property'') obj))"
        unfolding check using object matches by (cases "validateRequired obj schema") (simp_all add: v ps(2))
      ultimately show ?thesis
        using entries validateRequired_exact [OF ps(4), of obj]
        by (cases "enumAdmits schema v"; cases "validateRequired obj schema") (simp_all add: exactOn_def argumentFault_def)
    qed
  qed
qed

section \<open>The captured schema\<close>

definition entriesOf :: "go_any \<Rightarrow> (string \<times> go_any) list" where
  "entriesOf args = (case args of AnyMap kvs \<Rightarrow> kvs | _ \<Rightarrow> [])"

text \<open>
  Arguments conform when they have the required entries, no entry a closed schema does not declare,
  and every declared entry conforms to its property.
\<close>

definition argumentsConform :: "(string \<times> go_any) list \<Rightarrow> (string \<times> go_any) list \<Rightarrow> bool" where
  "argumentsConform schema kvs \<longleftrightarrow> requiredPresent schema kvs \<and>
     (\<exists>ps. map_of schema ''properties'' = Some (AnyMap ps) \<and>
       (\<forall>k v s. (k, v) \<in> set kvs \<longrightarrow> map_of ps k = Some (AnyMap s) \<longrightarrow> conforms s v) \<and>
       (\<forall>k v. (k, v) \<in> set kvs \<longrightarrow> isFalse schema \<longrightarrow> map_of ps k \<noteq> None))"

lemma validateCapturedSchema_exact:
  "validateCapturedSchema args schema = Some ErrPreparedSchemaInvalid \<longleftrightarrow> \<not> validSchemaNode schema True"
  "validateCapturedSchema args (AnyMap sch) = None \<longleftrightarrow>
     validSchemaNode (AnyMap sch) True \<and> argumentsConform sch (entriesOf args)"
proof -
  have main: "validateCapturedSchema args (AnyMap s) \<noteq> Some ErrPreparedSchemaInvalid \<and>
      (validateCapturedSchema args (AnyMap s) = None \<longleftrightarrow> argumentsConform s (entriesOf args))"
    if valid: "validSchemaNode (AnyMap s) True" for s
  proof -
    have shape: "nodeShape s True" by (rule valid_node [OF valid])
    then have t: "map_of s ''type'' = Some (AnyString ''object'')"
      unfolding nodeShape_def case_string by blast
    with valid obtain ps names where ps: "map_of s ''properties'' = Some (AnyMap ps)" "propertiesOf s = Some ps"
        "\<And>p. p \<in> set ps \<Longrightarrow> validSchemaNode (snd p) False" "preparedRequiredNames s = Some names"
      using valid_object by blast
    note entries = entries_exact [OF ps(3) exact_value, where obj = "entriesOf args" and schema = s and what = "''unexpected parameter''"]
    have "validateCapturedSchema args (AnyMap s) = (case validateRequired (entriesOf args) s of
        Some e \<Rightarrow> Some e | None \<Rightarrow> firstFault (map (entryFault s ps ''unexpected parameter'') (entriesOf args)))"
      unfolding validateCapturedSchema_def entriesOf_def entryFault_def [abs_def]
      by (simp only: valid ps(2) Let_def option.case go_any.case not_True_eq_False if_False)
    with entries validateRequired_exact [OF ps(4), of "entriesOf args"] ps(1) show ?thesis
      by (auto simp: argumentsConform_def split: option.splits)
  qed
  show "validateCapturedSchema args schema = Some ErrPreparedSchemaInvalid \<longleftrightarrow> \<not> validSchemaNode schema True"
  proof (cases "validSchemaNode schema True")
    case True
    then obtain s where "schema = AnyMap s" by (rule valid_map)
    with main True show ?thesis by blast
  qed (simp add: validateCapturedSchema_def)
  show "validateCapturedSchema args (AnyMap sch) = None \<longleftrightarrow>
     validSchemaNode (AnyMap sch) True \<and> argumentsConform sch (entriesOf args)"
    using main by (cases "validSchemaNode (AnyMap sch) True") (auto simp: validateCapturedSchema_def)
qed

end
