(* ===== verification/DispatchFacts.thy ===== *)
theory DispatchFacts
  imports PreparedFacts SchemaFacts
begin

text \<open>
  Dispatch: an executor runs only in a state whose generations are the captured ones, runs the
  frozen call, and runs once. Then the composition of preparation, waiting and dispatch.
\<close>

section \<open>One dispatch\<close>

lemma preparedExecutor_entered: "snd (preparedExecutor digest frozen True calls) = []"
  by (induction calls) (auto simp: Let_def split: prod.splits)

lemma preparedExecutor_ran: "snd (preparedExecutor digest frozen False calls) \<in> {[], [fst frozen]}"
proof (cases calls)
  case (Cons call rest)
  then show ?thesis
    using preparedExecutor_entered [of digest frozen rest] by (auto simp: Let_def split: prod.splits)
qed simp

lemma commitInvocation_Inr:
  "commitInvocation x iv s = (Inr u, iv') \<Longrightarrow> runtimeSnapshot s = ivGenerations iv \<and> iv' = iv \<lparr> ivCommitted := True \<rparr>"
  by (auto simp: commitInvocation_def runtimeSnapshot_def commitFence_Inr split: option.splits sum.splits if_splits)

lemma commitInvocation_consumed: "ivConsumed (snd (commitInvocation x iv s)) = ivConsumed iv"
  by (auto simp: commitInvocation_def split: option.splits sum.splits)

lemma commitAndInvoke_state: "doState (commitAndInvoke x iv s) = s"
  by (auto simp: commitAndInvoke_def Let_def split: option.splits dispatch_lease.splits prod.splits sum.splits)

lemma commitAndInvoke_consumed: "ivConsumed (doInvocation (commitAndInvoke x iv s)) = ivConsumed iv"
  using commitInvocation_consumed [of x iv s]
  by (auto simp: commitAndInvoke_def Let_def split: option.splits dispatch_lease.splits prod.splits sum.splits)

lemma commitAndInvoke_ran:
  assumes "doRan (commitAndInvoke x iv s) \<noteq> []"
  shows "runtimeSnapshot s = ivGenerations iv \<and> doRan (commitAndInvoke x iv s) = [fst (ivFrozen iv)] \<and>
    ivCommitted (doInvocation (commitAndInvoke x iv s))"
proof -
  from assms obtain iv' u where c: "commitInvocation x iv s = (Inr u, iv')" "dxContext x 1 = None" "dxContext x 3 = None"
      "\<And>e. dxLease x \<noteq> LeaseFailed e"
    by (auto simp: commitAndInvoke_def Let_def split: option.splits dispatch_lease.splits prod.splits sum.splits)
  then have "commitAndInvoke x iv s = \<lparr> doResult = dxResult x, doInvocation = iv', doState = s,
      doRan = snd (preparedExecutor (dxDigest x) (ivFrozen iv) False (dxAttempts x)) \<rparr>"
    by (auto simp: commitAndInvoke_def Let_def split: dispatch_lease.splits)
  with assms commitInvocation_Inr [OF c(1)] preparedExecutor_ran [of "dxDigest x" "ivFrozen iv" "dxAttempts x"]
  show ?thesis by auto
qed

lemma dispatch_consumed: "ivConsumed (doInvocation (dispatchInvocation x iv s))"
  using commitAndInvoke_consumed [of x "iv \<lparr> ivConsumed := True \<rparr>" "applyOps (dxOps x) s"]
  by (auto simp: dispatchInvocation_def Let_def split: option.splits)

lemma dispatch_after_first: "ivConsumed iv \<Longrightarrow> doRan (dispatchInvocation x iv s) = []"
  by (simp add: dispatchInvocation_def Let_def)

lemma dispatch_ran:
  assumes "doRan (dispatchInvocation x iv s) \<noteq> []"
  shows "doState (dispatchInvocation x iv s) = applyOps (dxOps x) s
    \<and> runtimeSnapshot (applyOps (dxOps x) s) = ivGenerations iv
    \<and> doRan (dispatchInvocation x iv s) = [fst (ivFrozen iv)]"
proof -
  let ?o = "commitAndInvoke x (iv \<lparr> ivConsumed := True \<rparr>) (applyOps (dxOps x) s)"
  have "doRan (dispatchInvocation x iv s) = doRan ?o" "doState (dispatchInvocation x iv s) = doState ?o"
    using assms by (auto simp: dispatchInvocation_def Let_def split: option.splits if_splits)
  with assms commitAndInvoke_ran [of x "iv \<lparr> ivConsumed := True \<rparr>" "applyOps (dxOps x) s"]
    commitAndInvoke_state [of x "iv \<lparr> ivConsumed := True \<rparr>" "applyOps (dxOps x) s"]
  show ?thesis by simp
qed

lemma dispatchAll_consumed: "ivConsumed iv \<Longrightarrow> dispatchAll xs iv s = []"
  by (induction xs arbitrary: iv s) (simp_all add: Let_def dispatch_after_first dispatch_consumed)

lemma dispatchAll_ran: "dispatchAll xs iv s \<in> {[], [fst (ivFrozen iv)]}"
proof (induction xs)
  case (Cons x xs)
  have "dispatchAll (x # xs) iv s = doRan (dispatchInvocation x iv s)"
    by (simp add: Let_def dispatchAll_consumed [OF dispatch_consumed])
  with dispatch_ran [of x iv s] show ?case by auto
qed simp

section \<open>Addresses of the fences\<close>

lemma publishWith_addresses:
  "publishWith d e upd s = Inr t \<Longrightarrow>
     (\<And>s. rtRegistryFence (upd s) = rtRegistryFence s \<and> rtMiddlewareFence (upd s) = rtMiddlewareFence s) \<Longrightarrow>
     rtRegistryFence t = rtRegistryFence s \<and> rtMiddlewareFence t = rtMiddlewareFence s"
  by (auto simp: publishWith_def bindR_eq_Inr)

lemma publishApproval_addresses:
  "publishApproval upd s = Inr t \<Longrightarrow>
     (\<And>s. rtRegistryFence (upd s) = rtRegistryFence s \<and> rtMiddlewareFence (upd s) = rtMiddlewareFence s) \<Longrightarrow>
     rtRegistryFence t = rtRegistryFence s \<and> rtMiddlewareFence t = rtMiddlewareFence s"
  by (auto simp: publishApproval_def publishWith_def bindR_eq_Inr split: if_splits)

lemma orElse_addresses:
  "(\<And>t. r = Inr t \<Longrightarrow> rtRegistryFence t = rtRegistryFence s \<and> rtMiddlewareFence t = rtMiddlewareFence s) \<Longrightarrow>
     rtRegistryFence (orElse s r) = rtRegistryFence s \<and> rtMiddlewareFence (orElse s r) = rtMiddlewareFence s"
  by (cases r) (auto simp: orElse_def)

lemma applyOp_addresses:
  "rtRegistryFence (applyOp op s) = rtRegistryFence s \<and> rtMiddlewareFence (applyOp op s) = rtMiddlewareFence s"
  unfolding setPermissionMode_def
  by (cases op)
    (auto simp: setPermissionMode_def clearSession_def dropSession_def publishPreparedRevocation_def storeSet_def
      storeDelete_def setPreparedGrant_def cacheLoad_def cacheSet_def publishGrant_def sessionStore_def planEnter_def
      planExit_def registerTool_def Let_def orElse_def publishApproval_def publishWith_def bindR_eq_Inr bindR_def
      split: sum.splits if_splits)

lemma applyOps_addresses:
  "rtRegistryFence (applyOps os s) = rtRegistryFence s \<and> rtMiddlewareFence (applyOps os s) = rtMiddlewareFence s"
  by (induction os arbitrary: s) (simp_all add: applyOp_addresses)

lemma applyOps_shares_iff: "sharesFence (applyOps os s) = sharesFence s"
  by (simp add: sharesFence_def applyOps_addresses)

section \<open>Preparation\<close>

lemma prepareToolCall_Inr:
  assumes "prepareToolCall cf h r before pin sink call s = (Inr (iv, d), u)"
  obtains reg frozen where
    "toolRegistrationSnapshot (tcName call) s = Inr (reg, runtimeSnapshot s)"
    "validatePrepared h pin sink reg (runtimeSnapshot s) call = Inr frozen"
    "preparedPolicy cf r (policyRequest (rtRegistryFence s) reg (runtimeSnapshot s) frozen) (applyOps before s) = (Inr d, u)"
    "iv = newInvocation reg d frozen" "pdGenerations d = runtimeSnapshot s"
proof -
  from assms obtain reg g where snap: "toolRegistrationSnapshot (tcName call) s = Inr (reg, g)"
    by (auto simp: prepareToolCall_def split: option.splits if_splits sum.splits prod.splits)
  then have g: "g = runtimeSnapshot s"
    by (auto simp: toolRegistrationSnapshot_def split: option.splits)
  from assms snap obtain frozen where frozen: "validatePrepared h pin sink reg g call = Inr frozen"
    by (auto simp: prepareToolCall_def Let_def split: option.splits if_splits sum.splits)
  from assms snap frozen have
    "preparedPolicy cf r (policyRequest (rtRegistryFence s) reg g frozen) (applyOps before s) = (Inr d, u)"
    "iv = newInvocation reg d frozen" "pdGenerations d = g"
    by (auto simp: prepareToolCall_def Let_def applyOps_addresses split: option.splits if_splits sum.splits prod.splits)
  with that snap frozen g show thesis by blast
qed

definition payloadChecked :: "string \<Rightarrow> tool_call \<Rightarrow> bool" where
  "payloadChecked name c \<longleftrightarrow> (name \<in> set mutationToolNames \<longrightarrow>
     validateMutationPayload c = None \<and> mutationPathFromCall c \<noteq> [])"

lemma failWith_Inr: "failWith x = Inr y \<longleftrightarrow> x = None"
  by (cases x) simp_all

lemma require_Inr: "require b e = Inr y \<longleftrightarrow> b"
  by (simp add: require_def)

lemma freezeToolCall_Inr: "freezeToolCall digest call = Inr frozen \<Longrightarrow> fst frozen = call \<and> protocolJSON 0 (tcArgs call)"
  by (auto simp: freezeToolCall_def bindR_eq_Inr split: if_splits)

lemma validatePrepared_Inr:
  assumes "validatePrepared h pin sink reg g call = Inr frozen"
  shows "protocolJSON 0 (tcArgs (fst frozen))"
    and "trSchema reg = Some schema \<Longrightarrow> validateCapturedSchema (tcArgs (fst frozen)) schema = None"
    and "payloadChecked (tcName call) (fst frozen)"
proof -
  note steps = assms [unfolded validatePrepared_def bindR_eq_Inr failWith_Inr require_Inr]
  from steps show "protocolJSON 0 (tcArgs (fst frozen))"
    using freezeToolCall_Inr by (elim exE conjE) (metis sum.inject(2))
  from steps show "validateCapturedSchema (tcArgs (fst frozen)) schema = None" if "trSchema reg = Some schema"
    using that by auto
  from steps show "payloadChecked (tcName call) (fst frozen)"
    unfolding payloadChecked_def by auto
qed

text \<open>The state in which an invocation commits has the policy and registration of its decision.\<close>

lemma prepared_commit:
  assumes prep: "prepareToolCall cf h r before pin sink call s = (Inr (iv, d), u)"
    and snap: "runtimeSnapshot (applyOps later u) = ivGenerations iv"
    and few: "length before + opsBetween r 0 17 + length later < 2 ^ 64"
  shows "\<exists>reg. toolRegistrationSnapshot (tcName call) (applyOps later u) = Inr (reg, ivGenerations iv) \<and>
    ivDefinition iv = trDefinition reg \<and> validatePrepared h pin sink reg (ivGenerations iv) call = Inr (ivFrozen iv) \<and>
    justified cf r (policyRequest (rtRegistryFence s) reg (ivGenerations iv) (ivFrozen iv)) (pdOutcome d) (applyOps later u)"
proof -
  let ?t = "applyOps later u" let ?g = "runtimeSnapshot s"
  obtain reg frozen where p: "toolRegistrationSnapshot (tcName call) s = Inr (reg, ?g)"
      "preparedPolicy cf r (policyRequest (rtRegistryFence s) reg ?g frozen) (applyOps before s) = (Inr d, u)"
      "iv = newInvocation reg d frozen" "pdGenerations d = ?g" "validatePrepared h pin sink reg ?g call = Inr frozen"
    using prepareToolCall_Inr [OF prep] by metis
  let ?req = "policyRequest (rtRegistryFence s) reg ?g frozen"
  have iv: "ivGenerations iv = ?g" "ivDefinition iv = trDefinition reg" "ivFrozen iv = frozen"
    using p(3,4) by (simp_all add: newInvocation_def)
  have pol: "sharesFence (applyOps before s)" "current ?req (applyOps before s)"
      "allowedAt r ?req 0 (applyOps before s) d u" "justified cf r ?req (pdOutcome d) u"
    using preparedPolicy_Inr [OF p(2)] few by (simp_all add: policyRequest_def applyOps_addresses)
  then have moved_su: "moved (length before + opsBetween r 0 17) s u"
    using moved_trans [OF moved_applyOps] by (simp add: allowedAt_def stepsBetween_def applyOps_shares_iff)
  moreover have "moved (length later) u ?t"
    using moved_applyOps moved_shares [OF moved_su] by blast
  ultimately have "samePolicy s u" "samePolicy u ?t"
    using moved_between [of _ s u _ ?t] few snap iv(1) by simp_all
  then have "rtTools ?t = rtTools s" "justified cf r ?req (pdOutcome d) ?t"
    using pol(4) justified_mono by (auto simp: samePolicy_def)
  with p(1,5) snap iv show ?thesis
    by (auto simp: toolRegistrationSnapshot_def split: option.splits)
qed

section \<open>Refusals\<close>

text \<open>
  After a way that came from the captured generations through a publication, they do not come
  back within 2^64 steps.
\<close>

lemma stale_after_publication:
  assumes "moved n s t" and "moved 1 t t'" and "\<not> samePolicy t t'" and "moved m t' u" and "n + 1 + m < 2 ^ 64"
  shows "runtimeSnapshot u \<noteq> runtimeSnapshot s"
proof
  assume u: "runtimeSnapshot u = runtimeSnapshot s"
  have tu: "moved (1 + m) t u" by (rule moved_trans [OF assms(2,4)])
  have "runtimeSnapshot t = runtimeSnapshot s"
    by (rule moved_between(3) [OF assms(1) tu _ u]) (use assms(5) in simp)
  then have "samePolicy t t'"
    using moved_between(1) [OF assms(2,4)] assms(5) u by simp
  with assms(3) show False by simp
qed

lemma stale_stays:
  assumes "moved n s t" and "runtimeSnapshot t \<noteq> runtimeSnapshot s" and "moved m t u" and "n + m < 2 ^ 64"
  shows "runtimeSnapshot u \<noteq> runtimeSnapshot s"
  using moved_between(3) [OF assms(1,3,4)] assms(2) by blast

lemma revocation_not_same:
  assumes "publishPreparedRevocation g s = Inr t"
  shows "\<not> samePolicy s t"
proof -
  from assms have "rtPolicyEpoch t = rtPolicyEpoch s + 1"
    by (auto simp: publishPreparedRevocation_def publishWith_def bindR_eq_Inr dropSession_def split: if_splits)
  then show ?thesis by (simp add: samePolicy_def)
qed

lemma publishPreparedRevocation_Inl:
  "publishPreparedRevocation g s = Inl e \<Longrightarrow> sharesFence s \<Longrightarrow> runtimeSnapshot s \<noteq> g"
  by (auto simp: publishPreparedRevocation_def publishWith_def bindR_eq_Inl publishFence_def runtimeSnapshot_def
      split: if_splits)

lemma resolvePreparedAsk_refused:
  assumes "answeredWith cf r ApprovalDeny"
    and res: "resolvePreparedAsk cf r req key audited proposal s = (res, u)"
    and start: "moved n s0 s" "runtimeSnapshot s0 = rqGenerations req"
    and later: "n + opsBetween r 12 15 + 1 + length os < 2 ^ 64"
  shows "(\<exists>e. res = Inl e) \<and> runtimeSnapshot (applyOps os u) \<noteq> rqGenerations req"
proof -
  let ?s1 = "env r 12 s" let ?s2 = "env r 13 ?s1" let ?s3 = "env r 14 ?s2"
  have sh: "sharesFence s" using moved_shares [OF start(1)] by simp
  have sp1: "stepsBetween r 12 13 s ?s1" using stepsBetween_env [OF sh, of r 12] by simp
  have sp2: "stepsBetween r 12 14 s ?s2" using stepsBetween_env_after [OF sp1, of 13] by simp
  have sp3: "stepsBetween r 12 15 s ?s3" using stepsBetween_env_after [OF sp2, of 14] by simp
  have m2: "moved (n + opsBetween r 12 15) s0 ?s2" and m3: "moved (n + opsBetween r 12 15) s0 ?s3"
    using moved_trans [OF start(1)] stepsBetween_widen [OF sp2, of 12 15] sp3 by (simp_all add: stepsBetween_def)
  from assms(1) have a: "cfCallback cf" "cbError (prAnswer r) = None" "cbResult (prAnswer r) = ApprovalDeny"
    by (simp_all add: answeredWith_def)
  let ?auditErr = "recordPreparedResolution r audited proposal (cbChoice (prAnswer r)) (cbResolution (prAnswer r))"
  show ?thesis
  proof (cases "current req ?s2")
    case False
    with res a have "res = Inl (joinAudit ErrDispatchFenceChanged ?auditErr)" "u = ?s2"
      by (auto simp: resolvePreparedAsk_def Let_def)
    moreover have "runtimeSnapshot (applyOps os ?s2) \<noteq> runtimeSnapshot s0"
      by (rule stale_stays [OF m2 _ moved_applyOps]) (use False start later moved_shares [OF m2] in \<open>auto simp: current_def\<close>)
    ultimately show ?thesis using start(2) by simp
  next
    case True
    show ?thesis
    proof (cases "publishPreparedRevocation (rqGenerations req) ?s3")
      case (Inl e)
      with res a True have "res = Inl (joinAudit e ?auditErr)" "u = ?s3"
        by (auto simp: resolvePreparedAsk_def Let_def)
      moreover have "runtimeSnapshot (applyOps os ?s3) \<noteq> runtimeSnapshot s0"
        by (rule stale_stays [OF m3 _ moved_applyOps])
          (use publishPreparedRevocation_Inl [OF Inl] start later moved_shares [OF m3] in auto)
      ultimately show ?thesis using start(2) by simp
    next
      case (Inr s4)
      with res a True have ru: "\<exists>e. res = Inl e" "u = s4"
        by (auto simp: resolvePreparedAsk_def Let_def)
      have pub: "moved 1 ?s3 s4"
        using Inr moved_shares [OF m3]
        by (auto simp: publishPreparedRevocation_def dropSession_def simp del: One_nat_def intro: moved_publish split: if_splits)
      have "runtimeSnapshot (applyOps os s4) \<noteq> runtimeSnapshot s0"
        by (rule stale_after_publication [OF m3 pub revocation_not_same [OF Inr] moved_applyOps])
          (use later moved_shares [OF pub] in simp_all)
      with ru start(2) show ?thesis by simp
    qed
  qed
qed

end
