(* ===== verification/ApprovalMiddleware.thy ===== *)
theory ApprovalMiddleware
  imports PreparedPolicy
begin

text \<open>
  The approval gate around a tool executor that is not prepared (\<open>approval/middleware.go\<close>): the
  decision is looked up in the session cache and the store before the classifier is asked, and
  every remembered decision is keyed by the permission mode, the tool and its arguments.
\<close>

section \<open>One gated call\<close>

text \<open>What one call meets: errors of the store and the audit trail, and the user's answer.\<close>

record gate_run =
  grDigest :: "go_any \<Rightarrow> tool_error + string"
  grStoreGet :: "tool_error option"
  grStoreSet :: "tool_error option"
  grAudit :: "tool_error option"
  grAnswer :: "tool_error + approval_result"

definition currentMode :: "approval_config \<Rightarrow> tool_runtime \<Rightarrow> permission_mode" where
  "currentMode cf s = (if cfResolver cf = None then PermissionDefault else rtMode s)"

definition sessionKey :: "gate_run \<Rightarrow> tool_call \<Rightarrow> permission_mode \<Rightarrow> tool_error + string" where
  "sessionKey g call mode = bindR (grDigest g (tcArgs call)) (\<lambda>sum.
     Inr (permissionModeString mode @ '':'' @ tcName call @ '':'' @ hexEncode sum))"

definition effectiveClassifier :: "approval_config \<Rightarrow> tool_runtime \<Rightarrow> approval_classifier" where
  "effectiveClassifier cf s =
     (case cfResolver cf of Some resolver \<Rightarrow> resolver (currentMode cf s) | None \<Rightarrow> cfClassifier cf)"

text \<open>An audited classifier denies when its proposal cannot be recorded.\<close>

definition auditedClassify :: "gate_run \<Rightarrow> approval_classifier \<Rightarrow> tool_call \<Rightarrow> classification" where
  "auditedClassify g c call = (if clAudited c \<and> grAudit g \<noteq> None then Deny else clClassify c call)"

definition resolveAsk ::
  "approval_config \<Rightarrow> gate_run \<Rightarrow> string \<Rightarrow> tool_runtime \<Rightarrow> (classification \<times> bool) \<times> tool_runtime" where
  "resolveAsk cf g key s =
     (if \<not> cfCallback cf then ((if cfAutoApprove cf then (Allow, True) else (Deny, True)), s)
      else if (case rtCache s of None \<Rightarrow> False | Some c \<Rightarrow> cacheGet c key = Some True) then ((Allow, True), s)
      else case grAnswer g of
          Inl _ \<Rightarrow> ((Deny, False), s)
        | Inr ApprovalAllow \<Rightarrow> ((Allow, False), s)
        | Inr ApprovalAlwaysAllow \<Rightarrow> ((Allow, True), cacheSet key s)
        | Inr _ \<Rightarrow> ((Deny, False), s))"

definition sessionDelete :: "string \<Rightarrow> tool_runtime \<Rightarrow> tool_runtime" where
  "sessionDelete key s = s \<lparr> rtSession := mapDelete key (rtSession s) \<rparr>"

definition rememberDecision :: "gate_run \<Rightarrow> string \<Rightarrow> classification \<Rightarrow> tool_runtime \<Rightarrow> tool_runtime" where
  "rememberDecision g key c s =
     (let s1 = sessionStore key c s in
      case grStoreSet g of
        Some _ \<Rightarrow> sessionDelete key s1
      | None \<Rightarrow> (case storeSet key c s1 of Inl _ \<Rightarrow> sessionDelete key s1 | Inr s2 \<Rightarrow> s2))"

definition gateLookup :: "gate_run \<Rightarrow> string \<Rightarrow> tool_runtime \<Rightarrow> classification option" where
  "gateLookup g key s =
     (if grStoreGet g \<noteq> None then None else case rtStore s of None \<Rightarrow> None | Some st \<Rightarrow> storeGet st key)"

definition decideCall ::
  "approval_config \<Rightarrow> gate_run \<Rightarrow> string \<Rightarrow> tool_call \<Rightarrow> tool_runtime \<Rightarrow> (classification \<times> bool) \<times> tool_runtime" where
  "decideCall cf g key call s =
     (case map_of (rtSession s) key of
        Some c \<Rightarrow> ((c, True), s)
      | None \<Rightarrow>
          (case gateLookup g key s of
             Some c \<Rightarrow> ((c, True), sessionStore key c s)
           | None \<Rightarrow>
               (let c = auditedClassify g (effectiveClassifier cf s) call;
                    ((c', cacheDecision), s1) = (if c = Ask then resolveAsk cf g key s else ((c, True), s))
                in if \<not> cacheDecision then ((c', False), s1) else ((c', False), rememberDecision g key c' s1))))"

text \<open>The gate passes the call on, or says why it does not.\<close>

definition wrapToolCall ::
  "approval_config \<Rightarrow> gate_run \<Rightarrow> tool_call \<Rightarrow> tool_runtime \<Rightarrow> (tool_error + tool_call) \<times> tool_runtime" where
  "wrapToolCall cf g call s =
     (let mode = currentMode cf s in
      if \<not> validPermissionMode mode then (Inl ErrInvalidPermissionMode, s)
      else case sessionKey g call mode of
          Inl e \<Rightarrow> (Inl e, s)
        | Inr key \<Rightarrow>
            (let ((c, _), s1) = decideCall cf g key call s in
             if c \<noteq> Allow then (Inl ErrToolDenied, s1) else (Inr call, s1)))"

section \<open>What a call leaves behind\<close>

text \<open>The state agrees with another on every key but the ones of a mode.\<close>

definition keyOfMode :: "permission_mode \<Rightarrow> string \<Rightarrow> bool" where
  "keyOfMode mode key \<longleftrightarrow> prefix (permissionModeString mode @ '':'') key"

lemma sessionKey_mode: "sessionKey g call mode = Inr key \<Longrightarrow> keyOfMode mode key"
  by (auto simp: sessionKey_def keyOfMode_def bindR_eq_Inr)

lemma takeWhile_colon:
  "CHR '':'' \<notin> set u \<Longrightarrow> takeWhile (\<lambda>c. c \<noteq> CHR '':'') (u @ CHR '':'' # v) = u"
  by (subst takeWhile_append2) auto

lemma keyOfMode_unique:
  assumes "keyOfMode m key" and "keyOfMode m' key" and "validPermissionMode m" and "validPermissionMode m'"
  shows "m = m'"
proof -
  have no: "CHR '':'' \<notin> set (permissionModeString n)" for n by (cases n) auto
  obtain v where "key = permissionModeString m @ CHR '':'' # v"
    using assms(1) by (auto simp: keyOfMode_def elim: prefixE)
  moreover obtain v' where "key = permissionModeString m' @ CHR '':'' # v'"
    using assms(2) by (auto simp: keyOfMode_def elim: prefixE)
  ultimately have "permissionModeString m = permissionModeString m'"
    using takeWhile_colon [OF no, of m v] takeWhile_colon [OF no, of m' v'] by metis
  then show ?thesis using assms(3,4) by (auto simp: validPermissionMode_def)
qed

definition agreeOutside :: "permission_mode \<Rightarrow> tool_runtime \<Rightarrow> tool_runtime \<Rightarrow> bool" where
  "agreeOutside mode s t \<longleftrightarrow> rtMode t = rtMode s \<and>
     (rtCache s = None \<longleftrightarrow> rtCache t = None) \<and> (rtStore s = None \<longleftrightarrow> rtStore t = None) \<and>
     (\<forall>key. \<not> keyOfMode mode key \<longrightarrow>
        map_of (rtSession t) key = map_of (rtSession s) key \<and>
        map_option (\<lambda>c. cacheGet c key) (rtCache t) = map_option (\<lambda>c. cacheGet c key) (rtCache s) \<and>
        map_option (\<lambda>st. storeGet st key) (rtStore t) = map_option (\<lambda>st. storeGet st key) (rtStore s))"

lemma agreeOutside_refl: "agreeOutside mode s s"
  by (simp add: agreeOutside_def)

lemma agreeOutside_trans: "agreeOutside mode s t \<Longrightarrow> agreeOutside mode t u \<Longrightarrow> agreeOutside mode s u"
  by (simp add: agreeOutside_def)

lemma agreeOutside_session:
  "keyOfMode mode key \<Longrightarrow> agreeOutside mode s (sessionStore key c s)"
  "keyOfMode mode key \<Longrightarrow> agreeOutside mode s (sessionDelete key s)"
  by (auto simp: agreeOutside_def sessionStore_def sessionDelete_def)

lemma agreeOutside_cacheSet: "keyOfMode mode key \<Longrightarrow> agreeOutside mode s (cacheSet key s)"
  by (cases "rtCache s") (auto simp: agreeOutside_def cacheSet_def cacheGet_def)

lemma agreeOutside_storeSet:
  assumes "keyOfMode mode key" and "storeSet key c s = Inr t"
  shows "agreeOutside mode s t"
  using assms
  by (cases "rtStore s")
    (auto simp: agreeOutside_def storeSet_def publishApproval_def publishWith_def storeUpdate_def storeGet_def
      bindR_eq_Inr Let_def split: if_splits)

lemma agreeOutside_remember: "keyOfMode mode key \<Longrightarrow> agreeOutside mode s (rememberDecision g key c s)"
  by (auto simp: rememberDecision_def Let_def split: option.splits sum.splits
      intro: agreeOutside_trans [OF agreeOutside_session(1)] agreeOutside_session agreeOutside_storeSet)

lemma agreeOutside_resolveAsk: "keyOfMode mode key \<Longrightarrow> agreeOutside mode s (snd (resolveAsk cf g key s))"
  by (auto simp: resolveAsk_def agreeOutside_refl agreeOutside_cacheSet split: sum.splits approval_result.splits)

lemma agreeOutside_decide:
  assumes "keyOfMode mode key"
  shows "agreeOutside mode s (snd (decideCall cf g key call s))"
proof -
  have "agreeOutside mode s (rememberDecision g key c (snd (resolveAsk cf g key s)))" for c
    by (rule agreeOutside_trans [OF agreeOutside_resolveAsk [OF assms] agreeOutside_remember [OF assms]])
  then show ?thesis
    using agreeOutside_resolveAsk [OF assms, of s cf g]
    by (auto simp: decideCall_def Let_def agreeOutside_refl agreeOutside_session [OF assms]
        agreeOutside_remember [OF assms] split: option.splits prod.splits)
qed

lemma agreeOutside_wrap: "agreeOutside (currentMode cf s) s (snd (wrapToolCall cf g call s))"
  using agreeOutside_decide [OF sessionKey_mode]
  by (auto simp: wrapToolCall_def Let_def agreeOutside_refl split: sum.splits prod.splits)
    (metis snd_conv)+

lemma setPermissionMode_session:
  "rtMode (setPermissionMode m s) = m \<and> rtSession (setPermissionMode m s) = [] \<and>
   rtCache (setPermissionMode m s) = rtCache s \<and> rtStore (setPermissionMode m s) = rtStore s"
  by (auto simp: setPermissionMode_def orElse_def publishApproval_def publishWith_def publishFence_def bindR_def
      dropSession_def)

text \<open>What a gated call answers depends only on the mode and what is remembered for its key.\<close>

lemma agreeOutside_mode: "agreeOutside mode s t \<Longrightarrow> currentMode cf t = currentMode cf s"
  by (simp add: agreeOutside_def currentMode_def)

lemma decide_result:
  assumes "agreeOutside mode s t" and "\<not> keyOfMode mode key"
  shows "fst (decideCall cf g key call t) = fst (decideCall cf g key call s)"
proof -
  have modes: "effectiveClassifier cf t = effectiveClassifier cf s"
    unfolding effectiveClassifier_def agreeOutside_mode [OF assms(1)] by (rule refl)
  have look: "gateLookup g key t = gateLookup g key s" "map_of (rtSession t) key = map_of (rtSession s) key"
    and cache: "(case rtCache t of None \<Rightarrow> False | Some c \<Rightarrow> cacheGet c key = Some True)
      = (case rtCache s of None \<Rightarrow> False | Some c \<Rightarrow> cacheGet c key = Some True)"
    using assms by (auto simp: agreeOutside_def gateLookup_def split: option.splits)
  then have "fst (resolveAsk cf g key t) = fst (resolveAsk cf g key s)"
    by (auto simp: resolveAsk_def split: sum.splits approval_result.splits)
  then show ?thesis
    using look by (auto simp: decideCall_def Let_def modes split: option.splits prod.splits)
qed

lemma wrap_after_switch:
  assumes "agreeOutside mode s t" and "rtMode s \<noteq> mode" and "validPermissionMode mode" and "cfResolver cf \<noteq> None"
  shows "fst (wrapToolCall cf g call t) = fst (wrapToolCall cf g call s)"
proof (cases "validPermissionMode (currentMode cf s)")
  case False
  then show ?thesis by (simp add: wrapToolCall_def agreeOutside_mode [OF assms(1)])
next
  case True
  have mode: "currentMode cf t = currentMode cf s" "currentMode cf s \<noteq> mode"
    using assms(2,4) by (simp_all only: agreeOutside_mode [OF assms(1)]) (auto simp: currentMode_def)
  show ?thesis
  proof (cases "sessionKey g call (currentMode cf s)")
    case (Inl e)
    with mode True show ?thesis by (simp add: wrapToolCall_def)
  next
    case (Inr key)
    have "\<not> keyOfMode mode key"
      using keyOfMode_unique [OF sessionKey_mode [OF Inr] _ True assms(3)] mode(2) by blast
    then have "fst (decideCall cf g key call t) = fst (decideCall cf g key call s)"
      by (rule decide_result [OF assms(1)])
    with mode(1) Inr True show ?thesis
      by (auto simp: wrapToolCall_def Let_def split: prod.splits)
  qed
qed

text \<open>An answer for one call is not remembered.\<close>

lemma allow_once_not_remembered:
  assumes "cfCallback cf" and "grAnswer g = Inr ApprovalAllow" and "fst (decideCall cf g key call s) = (Allow, False)"
    and "auditedClassify g (effectiveClassifier cf s) call = Ask"
    and "(case rtCache s of None \<Rightarrow> False | Some c \<Rightarrow> cacheGet c key = Some True) = False"
  shows "snd (decideCall cf g key call s) = s"
  using assms by (auto simp: decideCall_def resolveAsk_def Let_def split: option.splits)

end
