(* ===== verification/ApprovalProperties.thy ===== *)
theory ApprovalProperties
  imports DispatchFacts ApprovalMiddleware
begin

text \<open>
  The properties of tool approval and prepared dispatch, each with a run of the model in which
  its hypotheses hold.
\<close>

section \<open>Sample runs\<close>

text \<open>A tool with one required parameter, which is one of two words.\<close>

definition sampleSchema :: "(string \<times> go_any) list" where
  "sampleSchema = [(''type'', AnyString ''object''), (''additionalProperties'', AnyBool False),
     (''required'', AnyList [AnyString ''to'']),
     (''properties'', AnyMap [(''to'', AnyMap [(''type'', AnyString ''string''),
        (''enum'', AnyList [AnyString ''prod'', AnyString ''staging''])])])]"

text \<open>A runtime in default mode with one unreviewed tool; the user is asked and allows the call.\<close>

definition sampleRegistration :: tool_registration where
  "sampleRegistration = \<lparr> trDefinition = 7,
     trIdentity = \<lparr> ttRegistrationSource = ''tool_registry'', ttToolName = ''deploy'', ttRegistrationGeneration = 0,
       ttExecutorFingerprint = [], ttScopeFingerprint = [] \<rparr>,
     trEffects = [], trSchema = Some (AnyMap sampleSchema), trSchemaDigest = [], trStreaming = False, trTrustRoot = None \<rparr>"

definition sampleRuntime :: tool_runtime where
  "sampleRuntime = applyOp (OpRegister sampleRegistration ''f'') \<lparr> rtRegistryFence = 1, rtMiddlewareFence = Some 1,
     rtFence = newDispatchFence, rtTools = [], rtReserved = [], rtPlan = \<lparr> pmActive = False, pmReason = [] \<rparr>,
     rtMode = PermissionDefault, rtPolicyEpoch = 0, rtSession = [],
     rtCache = Some \<lparr> acEntries = [], acEpoch = 0 \<rparr>, rtStore = Some \<lparr> asDecisions = [], asPolicyEpoch = 0 \<rparr> \<rparr>"

definition sampleApproval :: approval_config where
  "sampleApproval = \<lparr> cfClassifier = resolveMode PermissionDefault, cfResolver = Some resolveMode,
     cfAutoApprove = False, cfCallback = True, cfInitErr = None, cfPlanBound = True \<rparr>"

definition samplePolicyRun :: "approval_result \<Rightarrow> policy_run" where
  "samplePolicyRun res = \<lparr> prOps = (\<lambda>i. if i = 12 then [OpStoreSet ''other'' Allow] else []),
     prDigest = (\<lambda>_. Inr ''d''), prAudit = (\<lambda>_. None), prAnswer = answer res ''allow_once'' ''user'' None \<rparr>"

definition samplePrepareHost :: prepare_host where
  "samplePrepareHost = \<lparr> phContext = (\<lambda>_. None), phPolicyConfigured = True, phStagesConfigured = True,
     phOpaqueWrapper = False, phPreparers = [], phQueue = False, phDigest = (\<lambda>_. Inr ''a''),
     phReadPathCheck = (\<lambda>_ _. None), phObserver = None \<rparr>"

definition sampleCall :: tool_call where
  "sampleCall = \<lparr> tcID = ''c1'', tcName = ''deploy'', tcArgs = AnyMap [(''to'', AnyString ''prod'')] \<rparr>"

definition samplePrepared where
  "samplePrepared = prepareToolCall sampleApproval samplePrepareHost (samplePolicyRun ApprovalAllow) [] None False
     sampleCall sampleRuntime"

definition sampleInvocation :: prepared_invocation where
  "sampleInvocation = fst (projr (fst samplePrepared))"

definition sampleDispatch :: dispatch_run where
  "sampleDispatch = \<lparr> dxContext = (\<lambda>_. None), dxQueue = None, dxAbandoned = False, dxLease = NoLease, dxTrust = None,
     dxOps = [], dxDigest = (\<lambda>_. Inr ''a''), dxAttempts = [sampleCall], dxResult = Inr False, dxCleanupPending = False \<rparr>"

definition sampleRequest :: prepared_request where
  "sampleRequest = \<lparr> rqCall = sampleCall, rqArgumentDigest = ''a'', rqIdentity = trIdentity sampleRegistration,
     rqEffects = [], rqSchemaDigest = [], rqGenerations = runtimeSnapshot sampleRuntime, rqFence = Some 1 \<rparr>"

lemma samplePrepared_Inr:
  "samplePrepared = (Inr (sampleInvocation, snd (projr (fst samplePrepared))), snd samplePrepared)"
proof -
  have "\<not> isl (fst samplePrepared)" by code_simp
  then show ?thesis
    unfolding sampleInvocation_def by (cases samplePrepared) (auto simp: isl_def split: sum.splits elim: sumE)
qed

lemma samplePrepared_runs: "doRan (dispatchInvocation sampleDispatch sampleInvocation (snd samplePrepared)) \<noteq> []"
  by code_simp

section \<open>Properties\<close>

text \<open>
  C1. A tool that was prepared runs only when, in the very state in which its dispatch commits, the
  tool is still registered as it was captured and the policy of that state admits the call: Plan
  Mode is active and the call is a reviewed read or control, or it is inactive and the classifier
  of the current mode, the automatic approval, the user's answer or an allowance remembered under
  the current epochs admits it. This holds for any steps of other goroutines, fewer than 2^64, at
  every interruption of preparation, while the user is asked and before dispatch; then exactly the
  frozen call runs.
\<close>

theorem executed_call_justified:
  assumes "prepareToolCall cf h r before pin sink call s = (Inr (iv, d), u)"
    and "doRan (dispatchInvocation x iv (applyOps later u)) \<noteq> []"
    and "length before + opsBetween r 0 17 + length later + length (dxOps x) < 2 ^ 64"
  shows "\<exists>reg. toolRegistrationSnapshot (tcName call) (doState (dispatchInvocation x iv (applyOps later u)))
        = Inr (reg, ivGenerations iv) \<and> ivDefinition iv = trDefinition reg \<and>
      justified cf r (policyRequest (rtRegistryFence s) reg (ivGenerations iv) (ivFrozen iv)) (pdOutcome d)
        (doState (dispatchInvocation x iv (applyOps later u))) \<and>
      doRan (dispatchInvocation x iv (applyOps later u)) = [fst (ivFrozen iv)]"
  using dispatch_ran [OF assms(2)] prepared_commit [OF assms(1), of "later @ dxOps x"] assms(3) by auto

theorem executed_call_justified_witness:
  "\<exists>reg. toolRegistrationSnapshot (tcName sampleCall) (doState (dispatchInvocation sampleDispatch sampleInvocation (snd samplePrepared)))
        = Inr (reg, ivGenerations sampleInvocation) \<and> ivDefinition sampleInvocation = trDefinition reg"
proof -
  have "length [] + opsBetween (samplePolicyRun ApprovalAllow) 0 17 + length [] + length (dxOps sampleDispatch) < 2 ^ 64"
    by (simp add: opsBetween_def samplePolicyRun_def sampleDispatch_def if_distrib sum.If_cases)
  then show ?thesis
    using executed_call_justified [OF samplePrepared_Inr [unfolded samplePrepared_def], of sampleDispatch "[]"]
      samplePrepared_runs by (auto simp: samplePrepared_def)
qed

text \<open>
  C11. The argument check of prepared calls decides conformance: a schema outside the supported subset
  is reported as such whatever the arguments, and with any other schema the check passes exactly
  the arguments that have every required entry, no undeclared entry where the schema is closed,
  and declared entries that conform to their types, enumerations and bounds at every depth.
\<close>

theorem schema_check_exact:
  shows "(validateCapturedSchema args schema = Some ErrPreparedSchemaInvalid) = (\<not> validSchemaNode schema True) \<and>
    (validateCapturedSchema args (AnyMap sch) = None) =
      (validSchemaNode (AnyMap sch) True \<and> argumentsConform sch (entriesOf args))"
  by (simp add: validateCapturedSchema_exact)

text \<open>
  C4. A call whose tool runs has arguments that were checked as they run: in the state in which its
  dispatch commits the registration is the captured one, the arguments are JSON within the depth
  limit and conform to the registration's schema, and a mutation has its payload and a path.
\<close>

theorem executed_arguments_checked:
  assumes "prepareToolCall cf h r before pin sink call s = (Inr (iv, d), u)"
    and "c \<in> set (doRan (dispatchInvocation x iv (applyOps later u)))"
    and "length before + opsBetween r 0 17 + length later + length (dxOps x) < 2 ^ 64"
    and "toolRegistrationSnapshot (tcName call) (doState (dispatchInvocation x iv (applyOps later u))) = Inr (reg, g)"
    and "trSchema reg = Some (AnyMap sch)"
  shows "protocolJSON 0 (tcArgs c) \<and> validSchemaNode (AnyMap sch) True \<and> argumentsConform sch (entriesOf (tcArgs c)) \<and>
    payloadChecked (tcName call) c"
proof -
  have "doRan (dispatchInvocation x iv (applyOps later u)) \<noteq> []" using assms(2) by auto
  note ran = dispatch_ran [OF this]
  have c: "c = fst (ivFrozen iv)" using ran assms(2) by auto
  have "validatePrepared h pin sink reg (ivGenerations iv) call = Inr (ivFrozen iv)"
    using prepared_commit [OF assms(1), of "later @ dxOps x"] ran assms(3,4) by auto
  from validatePrepared_Inr [OF this] show ?thesis
    using assms(5) by (simp add: c validateCapturedSchema_exact(2))
qed

theorem executed_arguments_checked_witness:
  "argumentsConform sampleSchema (entriesOf (tcArgs sampleCall)) \<and>
    sampleCall \<in> set (doRan (dispatchInvocation sampleDispatch sampleInvocation (snd samplePrepared)))"
proof -
  have few: "length [] + opsBetween (samplePolicyRun ApprovalAllow) 0 17 + length [] + length (dxOps sampleDispatch) < 2 ^ 64"
    by (simp add: opsBetween_def samplePolicyRun_def sampleDispatch_def if_distrib sum.If_cases)
  have ran: "sampleCall \<in> set (doRan (dispatchInvocation sampleDispatch sampleInvocation (snd samplePrepared)))"
    by code_simp
  have "(case toolRegistrationSnapshot (tcName sampleCall) (doState (dispatchInvocation sampleDispatch sampleInvocation (snd samplePrepared))) of
      Inr (reg, g) \<Rightarrow> trSchema reg = Some (AnyMap sampleSchema) | _ \<Rightarrow> False)"
    by code_simp
  then show ?thesis
    using executed_arguments_checked [OF samplePrepared_Inr [unfolded samplePrepared_def], of sampleCall sampleDispatch "[]"]
      ran few by (auto simp: samplePrepared_def split: sum.splits)
qed

text \<open>
  C3. However often an invocation is dispatched, and whatever calls the execution wrappers hand
  down, its executor runs at most once, and only on the frozen call.
\<close>

theorem invocation_runs_once: "dispatchAll xs iv s \<in> {[], [fst (ivFrozen iv)]}"
  by (rule dispatchAll_ran)

text \<open>
  C2. When the user refuses a call, the call is not allowed and no invocation prepared under the
  same generations runs any more, whatever happens within 2^64 steps.
\<close>

theorem refusal_revokes_prepared:
  assumes "answeredWith cf r ApprovalDeny"
    and "resolvePreparedAsk cf r req key audited proposal (applyOps before s) = (res, u)"
    and "sharesFence s" and "current req s" and "ivGenerations iv = rqGenerations req"
    and "length before + opsBetween r 12 15 + 1 + length later + length (dxOps x) < 2 ^ 64"
  shows "(\<exists>e. res = Inl e) \<and> doRan (dispatchInvocation x iv (applyOps later u)) = []"
proof -
  have "(\<exists>e. res = Inl e) \<and> runtimeSnapshot (applyOps (later @ dxOps x) u) \<noteq> rqGenerations req"
    by (rule resolvePreparedAsk_refused [OF assms(1,2) moved_applyOps [OF assms(3)]])
      (use assms(4,6) in \<open>simp_all add: current_def\<close>)
  with dispatch_ran [of x iv "applyOps later u"] assms(5) show ?thesis by auto
qed

theorem refusal_revokes_prepared_witness:
  "doRan (dispatchInvocation sampleDispatch (sampleInvocation \<lparr> ivGenerations := rqGenerations sampleRequest \<rparr>)
     (snd (resolvePreparedAsk sampleApproval (samplePolicyRun ApprovalDeny) sampleRequest ''prepared:d'' False ''ask'' sampleRuntime))) = []"
proof -
  obtain res u where ru: "resolvePreparedAsk sampleApproval (samplePolicyRun ApprovalDeny) sampleRequest ''prepared:d'' False
      ''ask'' (applyOps [] sampleRuntime) = (res, u)"
    by (metis surj_pair)
  have "answeredWith sampleApproval (samplePolicyRun ApprovalDeny) ApprovalDeny"
    by (simp add: answeredWith_def sampleApproval_def samplePolicyRun_def answer_def)
  moreover have "sharesFence sampleRuntime" by code_simp
  moreover have "length [] + opsBetween (samplePolicyRun ApprovalDeny) 12 15 + 1 + length [] + length (dxOps sampleDispatch) < 2 ^ 64"
    by (simp add: opsBetween_def samplePolicyRun_def sampleDispatch_def if_distrib sum.If_cases)
  ultimately show ?thesis
    using refusal_revokes_prepared [OF _ ru, of "sampleInvocation \<lparr> ivGenerations := rqGenerations sampleRequest \<rparr>"
        "[]" sampleDispatch] ru
    by (simp add: current_def sampleRequest_def)
qed

text \<open>
  C23. Any sequence of \<open>RestrictPlanBy\<close> calls returns, and so does every snapshot of every fence
  after it: the walk over the parents ends, meets exactly the ancestors, and never the fence.
\<close>

theorem plan_restrictions_terminate:
  "\<exists>r. restrictAll Map.empty calls = Some r \<and>
     (\<forall>f gens. \<exists>ps. readFence r gens f = Some \<lparr> fenceOwn = gens f, fenceAncestors = map gens ps \<rparr> \<and>
        set ps = {p. (f, p) \<in> (parentOf r)\<^sup>+} \<and> f \<notin> set ps)"
  by (rule plan_restrictions_return)

text \<open>
  C22. What a gated call leaves behind under one permission mode has no influence on the answer to
  any call after a switch to another mode.
\<close>

theorem modes_do_not_share_decisions:
  assumes "cfResolver cf \<noteq> None" and "validPermissionMode (rtMode s)" and "mode \<noteq> rtMode s"
  shows "fst (wrapToolCall cf g2 call2 (setPermissionMode mode (snd (wrapToolCall cf g1 call1 s)))) =
    fst (wrapToolCall cf g2 call2 (setPermissionMode mode s))"
proof (rule wrap_after_switch [of "rtMode s"])
  let ?t = "snd (wrapToolCall cf g1 call1 s)"
  have "agreeOutside (rtMode s) s ?t"
    using agreeOutside_wrap [of cf s g1 call1] assms(1) by (simp add: currentMode_def)
  then show "agreeOutside (rtMode s) (setPermissionMode mode s) (setPermissionMode mode ?t)"
    by (simp add: agreeOutside_def setPermissionMode_session)
  show "rtMode (setPermissionMode mode s) \<noteq> rtMode s"
    using assms(3) by (simp add: setPermissionMode_session)
qed (use assms in simp_all)

definition sampleGate :: gate_run where
  "sampleGate = \<lparr> grDigest = (\<lambda>_. Inr ''h''), grStoreGet = None, grStoreSet = None, grAudit = None,
     grAnswer = Inr ApprovalDeny \<rparr>"

theorem modes_do_not_share_decisions_witness:
  "fst (wrapToolCall sampleApproval sampleGate sampleCall (setPermissionMode PermissionDefault
      (snd (wrapToolCall sampleApproval sampleGate sampleCall (setPermissionMode PermissionAutoFull sampleRuntime))))) =
    fst (wrapToolCall sampleApproval sampleGate sampleCall
      (setPermissionMode PermissionDefault (setPermissionMode PermissionAutoFull sampleRuntime)))"
  by (rule modes_do_not_share_decisions)
    (simp_all add: sampleApproval_def setPermissionMode_session validPermissionMode_def)

end
