(* ===== verification/Spec2Isabelle.thy ===== *)
theory Spec2Isabelle
  imports IndexProperties JournalProperties ViewProperties StoreProperties RunCommitProperties RunSlotProperties ModelProperties ApprovalProperties
begin

text \<open>
  A verification development of go-cli, a coding agent: a model answers, its tool calls are
  approved and run, and everything is recorded so that a crash loses nothing and repeats nothing.
  Modelled are the four parts that carry those promises, under \<open>src/internal\<close>:

  \<^item> the durable session (\<open>session/durable_*.go\<close>, \<open>derive.go\<close>, \<open>workspace_index.go\<close>): one
    append-only file of rows per session, and one index per user that grants the permit to dispatch
    a tool call and quarantines a workspace whose outcome is unknown;
  \<^item> the run (\<open>session/run_commit.go\<close>, \<open>core/run_slot.go\<close>): one run at a time, whose sink writes every
    input, answer, reserved action, observation, receipt and resolution before the run goes on;
  \<^item> the tools (\<open>tools/prepared*.go\<close>, \<open>approval\<close>): a call is prepared, validated, decided and
    dispatched, and a generation fence revokes what was decided before a change of policy;
  \<^item> the model calls (\<open>llm/middleware_*.go\<close>, \<open>production/retry.go\<close>): retry, failover, timeout, overflow
    recovery, sanitizing, loop detection and validation around a provider, as one assembled stack.

  How they meet: the run slot admits a run; its sink appends through the writer of the prepared
  session (\<open>SessionJournal\<close> is that interface, a locale interpreted on the store) and asks the
  workspace index for the permit (\<open>RecoveryAuthority\<close>, a locale interpreted on the index, is what
  restart recovery asks of it). A permit takes single-use proofs (\<open>AdmissionProofs\<close>) that name the
  generations of the fence, which prepared dispatch compares again when it commits.
\<close>

section \<open>Theories and sources\<close>

text \<open>
  \<^item> \<open>Prelude\<close>: errors as the left of a sum, loops with an early return, fixed-width integers, and
    the list lemmas shared by all; \<open>Samples\<close>, \<open>StoreSamples\<close> and \<open>RunCommitSamples\<close>: concrete runs.
  \<^item> \<open>SessionTypes\<close>, \<open>RowRules\<close>: \<open>session/types.go\<close>, \<open>durable_contract.go\<close>, \<open>core/types.go\<close>,
    \<open>core/execution_identity.go\<close> and \<open>core/execution_resolution.go\<close>: rows, messages and their
    validators, the JSON protocol tree, and the row and message round trip.
  \<^item> \<open>Effects\<close>, \<open>AdmissionProofs\<close>: contexts and file operations that may fail, paths, and the
    capabilities of \<open>tools/scoped_workspace_read.go\<close> and \<open>tools/managed_delegation.go\<close>.
  \<^item> \<open>ParentChains\<close>, \<open>BranchJournal\<close>, \<open>ActionJournal\<close>, with \<open>JournalFacts\<close> and \<open>JournalProperties\<close>:
    \<open>durable_branch.go\<close> and \<open>durable_recovery.go\<close>. The analysis is sound and complete: an action is
    pending exactly when no resolution closes it.
  \<^item> \<open>SessionView\<close>, \<open>SessionViewFacts\<close>, \<open>ViewFacts\<close>, \<open>ViewProperties\<close>: \<open>derive.go\<close>, the history a model
    sees, specified row by row and message by message.
  \<^item> \<open>DurableStore\<close>, \<open>DurableLoad\<close>, \<open>Recovery\<close>, with their facts, \<open>AppendFacts\<close>, \<open>RetryFacts\<close> and
    \<open>StoreProperties\<close>: \<open>durable_jsonl.go\<close> and restart recovery. A failed write leaves any prefix of
    its bytes and a failed sync leaves all of them; acknowledged rows survive all of it, provided the
    rows written survive the JSON codec: \<open>storeHistory\<close> has every run of a store, \<open>codecSafe\<close> is the
    condition, \<open>lifecycle\<close> has the runs that meet it.
  \<^item> \<open>WorkspaceIndex\<close>, \<open>WorkspaceOps\<close>, with their facts, \<open>RecoveryAuthority\<close> and \<open>IndexProperties\<close>:
    \<open>workspace_index.go\<close>. The rows of the file are the state; every operation reads them again
    under the lock. A run of the index is any sequence of operations with any failures.
  \<^item> \<open>RunCommit\<close>, \<open>RunCommitOps\<close>, \<open>RunCommitBatch\<close>: \<open>session/run_commit.go\<close>,
    \<open>run_commit_rejection.go\<close>, \<open>operator_reconciliation.go\<close> and the payloads of
    \<open>core/run_commit.go\<close>. \<open>RunCommitFacts\<close>, \<open>RunCommitSteps\<close>: the sink equals the session and
    each operation adds at most a known number of rows. \<open>IntentBatchFacts\<close>, \<open>RunTrace\<close>,
    \<open>TerminalFacts\<close>, \<open>ResolutionFacts\<close>, \<open>RunCommitProperties\<close>: the order of the writes to session
    and index over the life of a run.
  \<^item> \<open>RunSlot\<close>, \<open>RunSlotFacts\<close>, \<open>RunSlotProperties\<close>: \<open>core/run_slot.go\<close>, a step relation over any
    interleaving of callers, releases, wrapper callbacks and closing.
  \<^item> \<open>ModelErrors\<close>, \<open>ModelCalls\<close>, \<open>ContentSanitizer\<close>, \<open>LoopDetection\<close>, their facts and
    \<open>ModelProperties\<close>: \<open>llm/middleware_*.go\<close>, \<open>provider_error.go\<close>, \<open>stream_limits.go\<close>. The
    sanitizer refines the text outside the markers; retry and overflow recovery return whenever the
    models below return. \<open>ProviderStack\<close>, \<open>ProviderStackFacts\<close>: \<open>production/retry.go\<close>, the timeout
    layer and the stack of \<open>cli/assemble.go\<close>; the bound on its calls rests on \<open>bounded_policy\<close>, a locale
    interpreted on both retry policies.
  \<^item> \<open>DispatchFence\<close>, \<open>FenceFacts\<close>: the fence of \<open>tools/prepared.go\<close> and
    \<open>dispatch_plan_restriction.go\<close>; equal snapshots mean that nothing was published in between.
  \<^item> \<open>ToolRuntime\<close>: the shared state that decides: registrations (\<open>tools/trusted_registry.go\<close>), Plan
    Mode (\<open>core/plan_mode.go\<close>), decision store, always-allow cache, session cache and permission
    mode (\<open>approval/store.go\<close>, \<open>callback.go\<close>, \<open>middleware.go\<close>), with its operations as steps.
  \<^item> \<open>PreparedSchema\<close>, \<open>SchemaFacts\<close>: the parameter schemas of \<open>tools/prepared_registry.go\<close>; the check
    is proved equal to conformance, an inductive definition over the schema.
  \<^item> \<open>PreparedPolicy\<close>: \<open>approval/classifier.go\<close>, \<open>resolver.go\<close>, \<open>callback.go\<close>, \<open>prepared_policy.go\<close>.
    \<open>PreparedDispatch\<close>: \<open>tools/prepared_registry.go\<close> and the one-use invocation of
    \<open>tools/prepared.go\<close>. \<open>PreparedFacts\<close>, \<open>DispatchFacts\<close>: what a decision rests on still holds when
    the invocation commits.
  \<^item> \<open>ApprovalMiddleware\<close>: the gate of \<open>approval/middleware.go\<close> for calls that are not prepared.
    \<open>ApprovalProperties\<close>: the properties of tool approval and prepared dispatch.
\<close>

section \<open>How the code is read\<close>

text \<open>
  \<^item> A Go function that returns an error is a function into a sum; every sentinel is a constructor
    and a formatted error is \<open>Fault\<close> or \<open>ToolFault\<close> with a short text. A panic is an outcome of
    its own where the code can reach one (run slot channels, model middlewares).
  \<^item> Strings are byte lists, nil and empty slices are the same list, a Go map is an association list
    whose later assignment is in front, and where Go visits a map in random order the model takes
    the order of the list, so that only the choice among several errors is fixed. Clones are the
    identity. Sequence numbers, transcript indices, generations and durations are 64-bit words.
  \<^item> An operation under one mutex is one step. Where other goroutines can act in the middle of an
    operation they do: \<open>prOps r i\<close> are the steps they take at the \<open>i\<close>-th of the interruption points
    0 to 16 of a policy evaluation, \<open>before\<close>, \<open>later\<close> and \<open>dxOps\<close> those around it. The store and the
    cache publish a grant together with its snapshot, as one step.
  \<^item> What the code takes from outside is an argument: contexts, file operations, clocks, fresh IDs,
    hashes, JSON encoders, process inspection, the user's answer, providers. A theorem that relies
    on such code says so in its hypotheses (SHA-256 without collisions on the texts at hand,
    parsing of what was printed, rows that survive the JSON codec).
  \<^item> \<open>retryLoop\<close>, \<open>reachesFence\<close> and \<open>planAncestors\<close> are partial functions into options, and the
    claims that they return are proved; all other loops are structural or have a measure, and
    fuel is used nowhere. A walk over parents remembers the IDs it has seen, so that its measure is
    the number of IDs not yet seen, cycles included.
  \<^item> The theorems about the fence take fewer than \<open>2^64\<close> steps between capture and dispatch, so that a
    generation, a 64-bit word that wraps, cannot come back to its old value.
\<close>

section \<open>Not modelled\<close>

text \<open>
  \<^item> The run owner, the agent loop, subagents, hooks and prompts (\<open>core/run_owner.go\<close>, \<open>loop.go\<close>,
    \<open>subagent.go\<close>): goroutines and callbacks around the sink. What they may call, in any order and
    with any outcome, is the transition system of \<open>RunTrace\<close>.
  \<^item> Streaming: the goroutines of the \<open>Stream\<close> calls and of the streaming executor, the chunk
    timeouts and completion signals. The transformation of the chunks is modelled.
  \<^item> Tools, providers, MCP, ACP and web servers: calls to the operating system and to other machines.
    The MCP registry appears as arbitrary replacements of registered tools.
  \<^item> The in-memory tree (\<open>session/tree.go\<close>, \<open>jsonl.go\<close>) that the durable session replaces, session
    listing, import and migration, compaction through a provider.
  \<^item> The audit files, project trust and verification of \<open>internal/approval\<close> and \<open>internal/verify\<close>,
    configuration, command line, terminal and supporting services: files, user interface, wiring.
\<close>

end
